(* ===== verification/Votport_Base.thy ===== *)
theory Votport_Base
  imports Main "HOL-Library.Sublist" "HOL-Library.List_Lexorder" "HOL-Library.Char_ord"
    "HOL-Library.Option_ord" "HOL-Library.AList" "HOL-Library.Code_Target_Nat"
begin

text \<open>
  What every component theory shares: Rust strings as lists of Unicode scalar values with
  their UTF-8 length, the standard-library string operations the sources call
  (\<open>split\<close>, \<open>trim\<close>, \<open>split_once\<close>, \<open>rsplit_once\<close>, \<open>strip_prefix\<close>, decimal
  printing and parsing), the saturating \<open>u64\<close> operations, and hash maps as
  association lists with distinct keys.

  A Rust \<open>&str\<close> is valid UTF-8, so it is determined by its scalar values; a byte test of
  the sources that only accepts ASCII bytes (\<open>bytes().all(|b| b.is_ascii_digit())\<close>) is
  the same test on scalar values, because every byte of a non-ASCII character is above
  127. Lengths are byte lengths, as \<open>str::len\<close> counts.
\<close>

section \<open>Characters and strings\<close>

type_synonym uchar = nat
type_synonym rstr = "uchar list"

definition lit :: "string \<Rightarrow> rstr" where
  "lit s = map of_char s"

definition utf8_width :: "uchar \<Rightarrow> nat" where
  "utf8_width c = (if c < 0x80 then 1 else if c < 0x800 then 2 else if c < 0x10000 then 3 else 4)"

definition str_len :: "rstr \<Rightarrow> nat" where
  "str_len s = sum_list (map utf8_width s)"

definition is_ascii_char :: "uchar \<Rightarrow> bool" where
  "is_ascii_char c \<longleftrightarrow> c < 0x80"

definition is_ascii :: "rstr \<Rightarrow> bool" where
  "is_ascii s \<longleftrightarrow> list_all is_ascii_char s"

definition is_ascii_digit :: "uchar \<Rightarrow> bool" where
  "is_ascii_digit c \<longleftrightarrow> 48 \<le> c \<and> c \<le> 57"

definition is_ascii_lowercase :: "uchar \<Rightarrow> bool" where
  "is_ascii_lowercase c \<longleftrightarrow> 97 \<le> c \<and> c \<le> 122"

definition is_ascii_uppercase :: "uchar \<Rightarrow> bool" where
  "is_ascii_uppercase c \<longleftrightarrow> 65 \<le> c \<and> c \<le> 90"

definition is_ascii_alphanumeric :: "uchar \<Rightarrow> bool" where
  "is_ascii_alphanumeric c \<longleftrightarrow> is_ascii_digit c \<or> is_ascii_lowercase c \<or> is_ascii_uppercase c"

definition lower_char :: "uchar \<Rightarrow> uchar" where
  "lower_char c = (if is_ascii_uppercase c then c + 32 else c)"

definition to_ascii_lowercase :: "rstr \<Rightarrow> rstr" where
  "to_ascii_lowercase s = map lower_char s"

definition eq_ignore_ascii_case :: "rstr \<Rightarrow> rstr \<Rightarrow> bool" where
  "eq_ignore_ascii_case a b \<longleftrightarrow> to_ascii_lowercase a = to_ascii_lowercase b"

text \<open>\<open>char::is_control\<close> (category Cc) and \<open>char::is_whitespace\<close> (White\_Space).\<close>

definition is_control :: "uchar \<Rightarrow> bool" where
  "is_control c \<longleftrightarrow> c < 0x20 \<or> (0x7F \<le> c \<and> c \<le> 0x9F)"

definition is_whitespace :: "uchar \<Rightarrow> bool" where
  "is_whitespace c \<longleftrightarrow>
     (9 \<le> c \<and> c \<le> 13) \<or> c = 0x20 \<or> c = 0x85 \<or> c = 0xA0 \<or> c = 0x1680
     \<or> (0x2000 \<le> c \<and> c \<le> 0x200A) \<or> c = 0x2028 \<or> c = 0x2029 \<or> c = 0x202F
     \<or> c = 0x205F \<or> c = 0x3000"

subsection \<open>Trimming, prefixes and splitting\<close>

definition trim_start_with :: "(uchar \<Rightarrow> bool) \<Rightarrow> rstr \<Rightarrow> rstr" where
  "trim_start_with P s = dropWhile P s"

definition trim_end_with :: "(uchar \<Rightarrow> bool) \<Rightarrow> rstr \<Rightarrow> rstr" where
  "trim_end_with P s = rev (dropWhile P (rev s))"

definition trim_with :: "(uchar \<Rightarrow> bool) \<Rightarrow> rstr \<Rightarrow> rstr" where
  "trim_with P s = trim_end_with P (trim_start_with P s)"

definition trim :: "rstr \<Rightarrow> rstr" where
  "trim s = trim_with is_whitespace s"

fun strip_prefix :: "rstr \<Rightarrow> rstr \<Rightarrow> rstr option" where
  "strip_prefix [] s = Some s"
| "strip_prefix (p # ps) [] = None"
| "strip_prefix (p # ps) (c # s) = (if p = c then strip_prefix ps s else None)"

definition starts_with :: "rstr \<Rightarrow> rstr \<Rightarrow> bool" where
  "starts_with s p \<longleftrightarrow> take (length p) s = p"

definition ends_with :: "rstr \<Rightarrow> rstr \<Rightarrow> bool" where
  "ends_with s p \<longleftrightarrow> length p \<le> length s \<and> drop (length s - length p) s = p"

fun split_on :: "uchar \<Rightarrow> rstr \<Rightarrow> rstr list" where
  "split_on d [] = [[]]"
| "split_on d (c # s) =
     (if c = d then [] # split_on d s
      else case split_on d s of [] \<Rightarrow> [[c]] | w # ws \<Rightarrow> (c # w) # ws)"

definition split_once :: "uchar \<Rightarrow> rstr \<Rightarrow> (rstr \<times> rstr) option" where
  "split_once d s =
     (if d \<in> set s then Some (takeWhile (\<lambda>c. c \<noteq> d) s, tl (dropWhile (\<lambda>c. c \<noteq> d) s)) else None)"

definition rsplit_once :: "uchar \<Rightarrow> rstr \<Rightarrow> (rstr \<times> rstr) option" where
  "rsplit_once d s = map_option (\<lambda>(a, b). (rev b, rev a)) (split_once d (rev s))"

fun join_with :: "rstr \<Rightarrow> rstr list \<Rightarrow> rstr" where
  "join_with sep [] = []"
| "join_with sep [w] = w"
| "join_with sep (w # ws) = w @ sep @ join_with sep ws"

subsection \<open>Decimal numbers\<close>

fun show_nat :: "nat \<Rightarrow> rstr" where
  "show_nat n = (if n < 10 then [48 + n] else show_nat (n div 10) @ [48 + n mod 10])"

declare show_nat.simps [simp del]

definition digits_value :: "rstr \<Rightarrow> nat" where
  "digits_value s = foldl (\<lambda>a d. a * 10 + (d - 48)) 0 s"

text \<open>
  \<open>str::parse\<close> of an unsigned type with largest value \<open>m\<close>: one leading \<open>+\<close> is
  accepted, then at least one digit and nothing else, and a value above \<open>m\<close> is refused.
\<close>

definition parse_uint :: "nat \<Rightarrow> rstr \<Rightarrow> nat option" where
  "parse_uint m s =
     (let t = (case s of [] \<Rightarrow> [] | c # r \<Rightarrow> if c = 43 then r else s)
      in if t \<noteq> [] \<and> list_all is_ascii_digit t \<and> digits_value t \<le> m
         then Some (digits_value t) else None)"

section \<open>Fixed-width integers\<close>

text \<open>
  A \<open>u64\<close> is a \<open>nat\<close> up to \<open>u64_max\<close>. The sources use the saturating and
  checked operations below; \<open>saturating_sub\<close> is subtraction on \<open>nat\<close>.
\<close>

definition u8_max :: nat where "u8_max = 255"
definition u32_max :: nat where "u32_max = 4294967295"
definition u64_max :: nat where "u64_max = 18446744073709551615"
definition u128_max :: nat where "u128_max = 340282366920938463463374607431768211455"

definition sat_add :: "nat \<Rightarrow> nat \<Rightarrow> nat" where
  "sat_add a b = min (a + b) u64_max"

definition sat_mul :: "nat \<Rightarrow> nat \<Rightarrow> nat" where
  "sat_mul a b = min (a * b) u64_max"

definition checked_add :: "nat \<Rightarrow> nat \<Rightarrow> nat option" where
  "checked_add a b = (if a + b \<le> u64_max then Some (a + b) else None)"

definition sum_saturating :: "nat list \<Rightarrow> nat" where
  "sum_saturating xs = foldl sat_add 0 xs"

section \<open>Hash maps and minima\<close>

text \<open>
  A \<open>HashMap\<close> is an association list: \<open>map_of\<close> looks up, \<open>AList.update\<close> inserts,
  \<open>AList.delete\<close> removes and \<open>filter\<close> is \<open>retain\<close>. The keys stay distinct; the order
  of the list stands for the map's unspecified iteration order.
\<close>

type_synonym ('k, 'v) hmap = "('k \<times> 'v) list"

definition hm_ok :: "('k, 'v) hmap \<Rightarrow> bool" where
  "hm_ok m \<longleftrightarrow> distinct (map fst m)"

definition hm_keys :: "('k, 'v) hmap \<Rightarrow> 'k set" where
  "hm_keys m = fst ` set m"

definition contains_key :: "'k \<Rightarrow> ('k, 'v) hmap \<Rightarrow> bool" where
  "contains_key k m \<longleftrightarrow> map_of m k \<noteq> None"

text \<open>\<open>Iterator::min_by_key\<close>: the first element with the least key.\<close>

fun min_by_key :: "('a \<Rightarrow> 'b::linorder) \<Rightarrow> 'a list \<Rightarrow> 'a option" where
  "min_by_key f [] = None"
| "min_by_key f (x # xs) =
     (case min_by_key f xs of None \<Rightarrow> Some x | Some y \<Rightarrow> if f x \<le> f y then Some x else Some y)"

section \<open>Facts the components share\<close>

named_theorems hmap_simps \<open>hash maps as association lists\<close>
named_theorems rstr_simps \<open>Rust strings\<close>

lemma hm_ok_update [hmap_simps, intro]: "hm_ok m \<Longrightarrow> hm_ok (AList.update k v m)"
  by (simp add: hm_ok_def distinct_update)

lemma hm_ok_delete [hmap_simps, intro]: "hm_ok m \<Longrightarrow> hm_ok (AList.delete k m)"
  by (simp add: hm_ok_def distinct_delete)

lemma hm_ok_filter [hmap_simps, intro]: "hm_ok m \<Longrightarrow> hm_ok (filter P m)"
  by (simp add: hm_ok_def distinct_map_filter)

lemma hm_ok_Nil [hmap_simps, simp]: "hm_ok []"
  by (simp add: hm_ok_def)

lemma contains_key_iff: "contains_key k m \<longleftrightarrow> k \<in> fst ` set m"
  by (simp add: contains_key_def map_of_eq_None_iff)

lemma map_of_update [hmap_simps]:
  "map_of (AList.update k v m) k' = (if k' = k then Some v else map_of m k')"
  by (simp add: update_conv')

lemma map_of_delete [hmap_simps]:
  "map_of (AList.delete k m) k' = (if k' = k then None else map_of m k')"
  by (simp add: delete_conv')

lemma map_of_filter_ok:
  "hm_ok m \<Longrightarrow> map_of (filter P m) k = (case map_of m k of None \<Rightarrow> None | Some v \<Rightarrow> if P (k, v) then Some v else None)"
  by (induction m) (auto simp: hm_ok_def map_of_eq_None_iff split: option.splits)

lemma length_update:
  "length (AList.update k v m) = (if contains_key k m then length m else Suc (length m))"
  by (induction m) (auto simp: contains_key_def)

lemma length_delete_less:
  "contains_key k m \<Longrightarrow> length (AList.delete k m) < length m"
  by (induction m) (auto simp: contains_key_def AList.delete_eq intro: le_imp_less_Suc length_filter_le)

lemma min_by_key_None [simp]: "min_by_key f xs = None \<longleftrightarrow> xs = []"
  by (cases xs) (auto split: option.splits)

lemma min_by_key_Some:
  "min_by_key f xs = Some m \<Longrightarrow> m \<in> set xs \<and> (\<forall>x \<in> set xs. f m \<le> f x)"
proof (induction xs arbitrary: m)
  case (Cons x xs)
  show ?case
  proof (cases "min_by_key f xs")
    case None
    with Cons.prems show ?thesis by auto
  next
    case (Some y)
    with Cons.IH [OF Some] Cons.prems show ?thesis
      by (auto split: if_splits intro: order_trans)
  qed
qed simp

lemma min_by_key_in: "min_by_key f xs = Some m \<Longrightarrow> m \<in> set xs"
  by (simp add: min_by_key_Some)

lemma find_SomeD: "find P xs = Some x \<Longrightarrow> x \<in> set xs \<and> P x"
  by (induction xs) (auto split: if_splits)

subsection \<open>Strings\<close>

lemma str_len_Nil [simp]: "str_len [] = 0"
  by (simp add: str_len_def)

lemma str_len_Cons [simp]: "str_len (c # s) = utf8_width c + str_len s"
  by (simp add: str_len_def)

lemma str_len_append [simp]: "str_len (s @ t) = str_len s + str_len t"
  by (simp add: str_len_def)

lemma utf8_width_bounds: "1 \<le> utf8_width c" "utf8_width c \<le> 4"
  by (auto simp: utf8_width_def)

lemma length_le_str_len: "length s \<le> str_len s"
proof (induction s)
  case (Cons c s)
  then show ?case using utf8_width_bounds(1) [of c] by simp
qed simp

lemma str_len_0_iff [simp]: "str_len s = 0 \<longleftrightarrow> s = []"
  using length_le_str_len [of s] by (cases s) (auto simp: utf8_width_def)

lemma str_len_ascii: "is_ascii s \<Longrightarrow> str_len s = length s"
  by (induction s) (auto simp: is_ascii_def is_ascii_char_def utf8_width_def)

lemma lower_char_idem [simp]: "lower_char (lower_char c) = lower_char c"
  by (auto simp: lower_char_def is_ascii_uppercase_def)

lemma to_ascii_lowercase_idem [simp]: "to_ascii_lowercase (to_ascii_lowercase s) = to_ascii_lowercase s"
  by (simp add: to_ascii_lowercase_def)

lemma length_to_ascii_lowercase [simp]: "length (to_ascii_lowercase s) = length s"
  by (simp add: to_ascii_lowercase_def)

lemma split_on_nonempty [simp]: "split_on d s \<noteq> []"
  by (induction s) (auto split: list.splits)

lemma split_on_no_delim: "w \<in> set (split_on d s) \<Longrightarrow> d \<notin> set w"
  by (induction s arbitrary: w) (auto split: list.splits if_splits)

lemma split_on_chars: "w \<in> set (split_on d s) \<Longrightarrow> set w \<subseteq> set s"
  by (induction s arbitrary: w) (force split: list.splits if_splits)+

lemma split_on_id: "d \<notin> set s \<Longrightarrow> split_on d s = [s]"
  by (induction s) auto

lemma split_on_append: "d \<notin> set w \<Longrightarrow> split_on d (w @ d # s) = w # split_on d s"
  by (induction w) auto

text \<open>Splitting undoes joining for components without the separator, and back.\<close>

lemma split_join:
  "ws \<noteq> [] \<Longrightarrow> \<forall>w \<in> set ws. d \<notin> set w \<Longrightarrow> split_on d (join_with [d] ws) = ws"
  by (induction "[d]" ws rule: join_with.induct) (auto simp: split_on_id split_on_append)

lemma join_Cons: "ws \<noteq> [] \<Longrightarrow> join_with sep (w # ws) = w @ sep @ join_with sep ws"
  by (cases ws) auto

lemma join_nonempty: "ws \<noteq> [] \<Longrightarrow> [] \<notin> set ws \<Longrightarrow> join_with sep ws \<noteq> []"
  by (cases ws rule: remdups_adj.cases) auto

lemma join_split: "join_with [d] (split_on d s) = s"
proof (induction s)
  case (Cons c s)
  then show ?case
    by (cases "split_on d s"; cases "tl (split_on d s)") (auto simp: join_Cons)
qed simp

lemma split_once_Some:
  "split_once d s = Some (a, b) \<longleftrightarrow> s = a @ d # b \<and> d \<notin> set a"
proof
  assume h: "split_once d s = Some (a, b)"
  then have "d \<in> set s" and a: "a = takeWhile (\<lambda>c. c \<noteq> d) s"
    and b: "b = tl (dropWhile (\<lambda>c. c \<noteq> d) s)"
    by (auto simp: split_once_def split: if_splits)
  then obtain r where r: "dropWhile (\<lambda>c. c \<noteq> d) s = d # r"
    by (metis (mono_tags, lifting) dropWhile_eq_Nil_conv hd_dropWhile list.collapse)
  with a b have "s = a @ d # b"
    by (metis list.sel(3) takeWhile_dropWhile_id)
  moreover from a have "d \<notin> set a" by (auto dest: set_takeWhileD)
  ultimately show "s = a @ d # b \<and> d \<notin> set a" ..
next
  assume "s = a @ d # b \<and> d \<notin> set a"
  then show "split_once d s = Some (a, b)"
    by (auto simp: split_once_def takeWhile_append dropWhile_append)
qed

lemma split_once_None: "split_once d s = None \<longleftrightarrow> d \<notin> set s"
  by (simp add: split_once_def)

lemma rsplit_once_Some:
  "rsplit_once d s = Some (a, b) \<longleftrightarrow> s = a @ d # b \<and> d \<notin> set b"
proof -
  have "rsplit_once d s = Some (a, b) \<longleftrightarrow> split_once d (rev s) = Some (rev b, rev a)"
    by (auto simp: rsplit_once_def)
  also have "\<dots> \<longleftrightarrow> rev s = rev b @ d # rev a \<and> d \<notin> set b"
    by (simp add: split_once_Some)
  also have "\<dots> \<longleftrightarrow> s = a @ d # b \<and> d \<notin> set b"
    by (metis append.assoc append_Cons append_Nil rev.simps(2) rev_append rev_rev_ident)
  finally show ?thesis .
qed

lemma rsplit_once_None: "rsplit_once d s = None \<longleftrightarrow> d \<notin> set s"
  by (simp add: rsplit_once_def split_once_None)

subsection \<open>Decimal numbers\<close>

lemma trim_with_ends:
  "trim_with P s \<noteq> [] \<Longrightarrow> \<not> P (hd (trim_with P s)) \<and> \<not> P (last (trim_with P s))"
proof -
  assume ne: "trim_with P s \<noteq> []"
  let ?t = "dropWhile P s" and ?r = "rev (dropWhile P (rev (dropWhile P s)))"
  have r: "trim_with P s = ?r"
    by (simp add: trim_with_def trim_end_with_def trim_start_with_def)
  have tr: "?t = ?r @ rev (takeWhile P (rev ?t))"
    by (metis rev_append rev_rev_ident takeWhile_dropWhile_id)
  from ne r have "hd ?t = hd ?r" by (metis hd_append2 tr)
  moreover have "?t \<noteq> []" using ne r tr by force
  then have "\<not> P (hd ?t)" by (metis hd_dropWhile dropWhile_eq_Nil_conv)
  moreover have "\<not> P (last ?r)"
    using ne unfolding r by (metis hd_dropWhile last_rev rev_is_Nil_conv)
  ultimately show ?thesis unfolding r by simp
qed

lemma trim_with_id: "s = [] \<or> (\<not> P (hd s) \<and> \<not> P (last s)) \<Longrightarrow> trim_with P s = s"
proof -
  assume h: "s = [] \<or> (\<not> P (hd s) \<and> \<not> P (last s))"
  then have "dropWhile P s = s" "dropWhile P (rev s) = rev s"
    by (auto simp: dropWhile_eq_self_iff hd_rev)
  then show ?thesis by (simp add: trim_with_def trim_end_with_def trim_start_with_def)
qed

lemma trim_with_idem [simp]: "trim_with P (trim_with P s) = trim_with P s"
  using trim_with_ends [of P s] by (intro trim_with_id) blast

lemma set_trim_with: "set (trim_with P s) \<subseteq> set s"
  by (auto simp: trim_with_def trim_end_with_def trim_start_with_def dest!: set_dropWhileD)

lemma show_nat_digits: "list_all is_ascii_digit (show_nat n)"
proof (induction n rule: show_nat.induct)
  case (1 n)
  have d: "is_ascii_digit (48 + k)" if "k < 10" for k
    using that by (simp add: is_ascii_digit_def)
  from 1 show ?case
    by (subst show_nat.simps) (auto simp: d)
qed

lemma show_nat_nonempty [simp]: "show_nat n \<noteq> []"
  by (subst show_nat.simps) simp

lemma digits_value_snoc: "digits_value (s @ [d]) = digits_value s * 10 + (d - 48)"
  by (simp add: digits_value_def)

lemma digits_value_show [simp]: "digits_value (show_nat n) = n"
proof (induction n rule: show_nat.induct)
  case (1 n)
  show ?case
  proof (cases "n < 10")
    case True
    then show ?thesis by (subst show_nat.simps) (simp add: digits_value_def)
  next
    case False
    with "1.IH" show ?thesis
      by (subst show_nat.simps) (simp add: digits_value_snoc)
  qed
qed

lemma show_nat_inj: "show_nat a = show_nat b \<longleftrightarrow> a = b"
  by (metis digits_value_show)

lemma parse_show: "n \<le> m \<Longrightarrow> parse_uint m (show_nat n) = Some n"
proof -
  assume "n \<le> m"
  obtain c r where cr: "show_nat n = c # r"
    by (cases "show_nat n") auto
  with show_nat_digits [of n] have "c \<noteq> 43" by (auto simp: is_ascii_digit_def)
  then have "(case show_nat n of [] \<Rightarrow> [] | c # r \<Rightarrow> if c = 43 then r else show_nat n) = show_nat n"
    by (simp add: cr)
  with \<open>n \<le> m\<close> show ?thesis
    by (simp add: parse_uint_def show_nat_digits)
qed

lemma parse_uint_le: "parse_uint m s = Some n \<Longrightarrow> n \<le> m"
  by (auto simp: parse_uint_def Let_def split: if_splits)

section \<open>Transition systems\<close>

text \<open>
  The states a component reaches from its start by its steps, and the interface between a
  component's step relation and its invariant: what is proved once for every component.
\<close>

inductive reach :: "('s \<Rightarrow> bool) \<Rightarrow> ('s \<Rightarrow> 's \<Rightarrow> bool) \<Rightarrow> 's \<Rightarrow> bool"
  for init :: "'s \<Rightarrow> bool" and step :: "'s \<Rightarrow> 's \<Rightarrow> bool" where
  reach_init: "init s \<Longrightarrow> reach init step s"
| reach_step: "reach init step s \<Longrightarrow> step s t \<Longrightarrow> reach init step t"

locale invariant_system =
  fixes init :: "'s \<Rightarrow> bool" and step :: "'s \<Rightarrow> 's \<Rightarrow> bool" and inv :: "'s \<Rightarrow> bool"
  assumes init_inv: "init s \<Longrightarrow> inv s"
    and step_inv: "inv s \<Longrightarrow> step s t \<Longrightarrow> inv t"
begin

lemma reach_inv: "reach init step s \<Longrightarrow> inv s"
  by (induction rule: reach.induct) (auto intro: init_inv step_inv)

lemma steps_inv: "step\<^sup>*\<^sup>* s t \<Longrightarrow> inv s \<Longrightarrow> inv t"
  by (induction rule: rtranclp_induct) (auto intro: step_inv)

lemma reach_steps: "step\<^sup>*\<^sup>* s t \<Longrightarrow> reach init step s \<Longrightarrow> reach init step t"
  by (induction rule: rtranclp_induct) (auto intro: reach_step)

end

text \<open>A step relation that never raises a measure, a number or a set: the value only falls along a run.\<close>

locale falling_system =
  fixes step :: "'s \<Rightarrow> 's \<Rightarrow> bool" and inv :: "'s \<Rightarrow> bool" and gauge :: "'s \<Rightarrow> 'g :: order"
  assumes keeps: "inv s \<Longrightarrow> step s t \<Longrightarrow> inv t"
    and falls: "inv s \<Longrightarrow> step s t \<Longrightarrow> gauge t \<le> gauge s"
begin

lemma steps_fall: "step\<^sup>*\<^sup>* s t \<Longrightarrow> inv s \<Longrightarrow> inv t \<and> gauge t \<le> gauge s"
  by (induction rule: rtranclp_induct) (auto intro: keeps order_trans falls)

end

end
