(* ===== verification/Paths.thy ===== *)
theory Paths
  imports Votport_Base "HOL-Library.Multiset"
begin

text \<open>
  Path admission: \<open>protocol/paths.rs\<close> (the names both ends accept) and the pure parts of
  \<open>server/src/paths.rs\<close> (destination folders, collision suffixes, the staging sweep).
  The portable-path crate \<open>vot\_manifest\<close>, \<open>unicase\<close> and the Unicode tables are the
  parameters of \<open>path_lib\<close>; the file tree of the sweep is the datatype \<open>fsnode\<close>.
\<close>

section \<open>Third-party path functions\<close>

text \<open>
  \<open>portable_ok cs\<close>: \<open>PackagePath::portable(cs)\<close> accepts the components;
  \<open>portable_key cs\<close>: the text of \<open>canonical_path_key\<close> of that path under the portable
  profile, \<open>None\<close> where the key or its UTF-8 decoding fails (the callers treat both alike);
  \<open>fold_name\<close>: the case fold and NFC of \<open>unicase\<close> and \<open>unicode\_normalization\<close>;
  \<open>is_path_prefix\<close>: \<open>vot\_manifest::is\_path\_prefix\<close> on keys (the order and the
  prefixes of UTF-8 texts are those of their scalar values);
  \<open>is_alphanumeric\<close>: the Unicode table behind \<open>char::is\_alphanumeric\<close>.
\<close>

record path_lib =
  portable_ok :: "rstr list \<Rightarrow> bool"
  portable_key :: "rstr list \<Rightarrow> rstr option"
  fold_name :: "rstr \<Rightarrow> rstr"
  is_path_prefix :: "rstr \<Rightarrow> rstr \<Rightarrow> bool"
  is_alphanumeric :: "uchar \<Rightarrow> bool"

section \<open>Names both ends accept\<close>

definition MAX_PAYLOAD_NAME_BYTES :: nat where
  "MAX_PAYLOAD_NAME_BYTES = 255 - str_len (lit ''.vot-'') - str_len (lit ''.journal'')"

definition TENANT_STORAGE_DIR :: rstr where
  "TENANT_STORAGE_DIR = lit ''.vot-tenants.stage''"

definition LEASE_FILE_NAME :: rstr where
  "LEASE_FILE_NAME = lit ''.votport-lease''"

datatype path_error =
    NameTooLong rstr
  | EmptyOrOversized
  | DirectoryReference
  | SeparatorOrControl
  | ReservedReceipt
  | HiddenName
  | NonAsciiHidden
  | ReservedWorkflows
  | ReservedPort
  | DestDotSegment
  | DestCharacters rstr
  | NotPortable rstr
  | UnsafeComponent rstr
  | Collide rstr rstr

definition check_payload_name_length :: "rstr \<Rightarrow> path_error + unit" where
  "check_payload_name_length name =
     (if str_len name \<le> MAX_PAYLOAD_NAME_BYTES then Inr () else Inl (NameTooLong name))"

definition is_receipt_name :: "path_lib \<Rightarrow> rstr \<Rightarrow> bool" where
  "is_receipt_name L component =
     (case rsplit_once 46 (trim_end_with (\<lambda>c. c = 46 \<or> c = 32) component) of
        None \<Rightarrow> False
      | Some (_, extension) \<Rightarrow>
          if is_ascii extension then eq_ignore_ascii_case extension (lit ''vot-receipt'')
          else portable_ok L [extension] \<and> portable_key L [extension] = Some (lit ''vot-receipt''))"

definition is_push_staging_name :: "rstr \<Rightarrow> bool" where
  "is_push_staging_name name =
     (case strip_prefix (lit ''.vot-push-'') name of
        None \<Rightarrow> False
      | Some session \<Rightarrow>
          str_len session = 32
          \<and> list_all (\<lambda>b. (48 \<le> b \<and> b \<le> 57) \<or> (97 \<le> b \<and> b \<le> 102)) session)"

definition is_format_character :: "uchar \<Rightarrow> bool" where
  "is_format_character ch \<longleftrightarrow>
     ch = 0x00ad
     \<or> (0x0600 \<le> ch \<and> ch \<le> 0x0605)
     \<or> ch = 0x061c
     \<or> ch = 0x06dd
     \<or> ch = 0x070f
     \<or> (0x0890 \<le> ch \<and> ch \<le> 0x0891)
     \<or> ch = 0x08e2
     \<or> ch = 0x180e
     \<or> (0x200b \<le> ch \<and> ch \<le> 0x200f)
     \<or> (0x202a \<le> ch \<and> ch \<le> 0x202e)
     \<or> (0x2060 \<le> ch \<and> ch \<le> 0x2064)
     \<or> (0x2066 \<le> ch \<and> ch \<le> 0x206f)
     \<or> ch = 0xfeff
     \<or> (0xfff9 \<le> ch \<and> ch \<le> 0xfffb)
     \<or> ch = 0x110bd
     \<or> ch = 0x110cd
     \<or> (0x13430 \<le> ch \<and> ch \<le> 0x1343f)
     \<or> (0x1bca0 \<le> ch \<and> ch \<le> 0x1bca3)
     \<or> (0x1d173 \<le> ch \<and> ch \<le> 0x1d17a)
     \<or> ch = 0xe0001
     \<or> (0xe0020 \<le> ch \<and> ch \<le> 0xe007f)"

text \<open>The characters \<open>admit_component\<close> refuses: \<open>/\<close>, backslash, \<open>~\<close>, NUL, controls,
  format characters, the line separator and the no-break space.\<close>

definition refused_char :: "uchar \<Rightarrow> bool" where
  "refused_char ch \<longleftrightarrow>
     ch = 47 \<or> ch = 92 \<or> ch = 126 \<or> ch = 0 \<or> is_control ch \<or> is_format_character ch
     \<or> ch = 0x2028 \<or> ch = 0xa0"

definition admit_component :: "path_lib \<Rightarrow> rstr \<Rightarrow> bool \<Rightarrow> path_error + unit" where
  "admit_component L component allow_hidden =
     (if component = [] \<or> str_len component > 255 then Inl EmptyOrOversized
      else if component = lit ''.'' \<or> component = lit ''..'' then Inl DirectoryReference
      else if list_ex refused_char component then Inl SeparatorOrControl
      else if is_receipt_name L component then Inl ReservedReceipt
      else if \<not> allow_hidden \<and> starts_with component (lit ''.'') then Inl HiddenName
      else if starts_with component (lit ''.'') \<and> \<not> is_ascii component then Inl NonAsciiHidden
      else
        let lower = to_ascii_lowercase component in
        if lower = lit ''.votport-workflows'' then Inl ReservedWorkflows
        else if lower = TENANT_STORAGE_DIR then Inl ReservedPort
        else if lower = LEASE_FILE_NAME then Inl ReservedPort
        else if lower = lit ''.vot-stage''
             \<or> is_push_staging_name lower
             \<or> (starts_with lower (lit ''.vot-'')
                 \<and> (ends_with lower (lit ''.stage'') \<or> ends_with lower (lit ''.journal'')))
        then Inl ReservedPort
        else Inr ())"

section \<open>Server paths\<close>

definition tenant_prefix :: "rstr \<Rightarrow> rstr list" where
  "tenant_prefix key = (if key = [] then [] else [TENANT_STORAGE_DIR, key])"

definition stored_components :: "rstr \<Rightarrow> rstr \<Rightarrow> rstr list" where
  "stored_components tenant stored_as =
     tenant_prefix tenant @ filter (\<lambda>part. part \<noteq> []) (split_on 47 stored_as)"

definition portable_tenant_key :: "rstr \<Rightarrow> bool" where
  "portable_tenant_key key =
     (if key = [] \<or> str_len key > 128
         \<or> \<not> list_all (\<lambda>b. is_ascii_lowercase b \<or> is_ascii_digit b \<or> b = 45 \<or> b = 95) key
      then False
      else \<not> (key = lit ''con'' \<or> key = lit ''prn'' \<or> key = lit ''aux'' \<or> key = lit ''nul'')
           \<and> \<not> (str_len key = 4
                \<and> (take 3 key = lit ''com'' \<or> take 3 key = lit ''lpt'')
                \<and> 49 \<le> key ! 3 \<and> key ! 3 \<le> 57))"

datatype commit_profile = Fast | Balanced | Strict

definition profile_for_mount :: "bool \<Rightarrow> commit_profile" where
  "profile_for_mount remote = (if remote then Fast else Balanced)"

datatype verification_error = StrictNotOffered | UnknownLevel rstr

definition verification_for_mount :: "bool \<Rightarrow> rstr \<Rightarrow> verification_error + commit_profile" where
  "verification_for_mount remote requested =
     (if requested = lit ''default'' \<or> requested = lit ''balanced'' then Inr Balanced
      else if requested = lit ''strict'' \<and> \<not> remote then Inr Strict
      else if requested = lit ''strict'' then Inl StrictNotOffered
      else Inl (UnknownLevel requested))"

definition admit_dest_part :: "path_lib \<Rightarrow> rstr \<Rightarrow> path_error + rstr" where
  "admit_dest_part L raw =
     (let component = trim raw in
      if is_receipt_name L component then Inl ReservedReceipt
      else if component = [] \<or> component = lit ''.'' \<or> component = lit ''..''
      then Inl DestDotSegment
      else if str_len component > 128
           \<or> \<not> list_all (\<lambda>ch. is_alphanumeric L ch \<or> ch = 45 \<or> ch = 95 \<or> ch = 46 \<or> ch = 32) component
           \<or> starts_with component (lit ''.'')
      then Inl (DestCharacters component)
      else if \<not> portable_ok L [component] then Inl (NotPortable component)
      else Inr component)"

fun admit_dest_parts :: "path_lib \<Rightarrow> rstr list \<Rightarrow> path_error + rstr list" where
  "admit_dest_parts L [] = Inr []"
| "admit_dest_parts L (c # cs) =
     (case admit_dest_part L c of
        Inl e \<Rightarrow> Inl e
      | Inr p \<Rightarrow> (case admit_dest_parts L cs of Inl e \<Rightarrow> Inl e | Inr ps \<Rightarrow> Inr (p # ps)))"

definition admit_dest :: "path_lib \<Rightarrow> rstr \<Rightarrow> path_error + rstr" where
  "admit_dest L dest =
     (let trimmed = trim_with (\<lambda>c. c = 47) (trim dest) in
      if trimmed = [] then Inr []
      else case admit_dest_parts L (split_on 47 trimmed) of
             Inl e \<Rightarrow> Inl e
           | Inr parts \<Rightarrow> Inr (join_with (lit ''/'') parts))"

text \<open>A path is the list of its components; \<open>PathBuf::push\<close> of a component without a
  separator appends it.\<close>

fun join_under :: "rstr list \<Rightarrow> rstr list \<Rightarrow> path_error + rstr list" where
  "join_under path [] = Inr path"
| "join_under path (component # rest) =
     (if component = [] \<or> component = lit ''.'' \<or> component = lit ''..''
         \<or> list_ex (\<lambda>ch. ch = 47 \<or> ch = 92 \<or> ch = 0) component
      then Inl (UnsafeComponent component)
      else join_under (path @ [component]) rest)"

definition admit_portable_path :: "path_lib \<Rightarrow> rstr \<Rightarrow> path_error + rstr list" where
  "admit_portable_path L name =
     (if list_ex (is_receipt_name L) (split_on 47 name) then Inl ReservedReceipt
      else if portable_ok L (split_on 47 name) then Inr (split_on 47 name)
      else Inl (NotPortable name))"

text \<open>The key loop of \<open>admit_portable_paths\<close>: each name's folded portable key with the name.\<close>

fun portable_keyed :: "path_lib \<Rightarrow> rstr list \<Rightarrow> path_error + (rstr \<times> rstr) list" where
  "portable_keyed L [] = Inr []"
| "portable_keyed L (name # names) =
     (case check_payload_name_length (last (split_on 47 name)) of
        Inl e \<Rightarrow> Inl e
      | Inr _ \<Rightarrow>
         (case admit_portable_path L name of
            Inl e \<Rightarrow> Inl e
          | Inr path \<Rightarrow>
             (case portable_key L path of
                None \<Rightarrow> Inl (NotPortable name)
              | Some key \<Rightarrow>
                 (case portable_keyed L names of
                    Inl e \<Rightarrow> Inl e
                  | Inr keyed \<Rightarrow> Inr ((fold_name L key, name) # keyed)))))"

text \<open>The \<open>windows(2)\<close> scan over the sorted keys.\<close>

fun first_collision :: "path_lib \<Rightarrow> (rstr \<times> rstr) list \<Rightarrow> (rstr \<times> rstr) option" where
  "first_collision L (a # b # rest) =
     (if fst a = fst b \<or> is_path_prefix L (fst a) (fst b) then Some (snd a, snd b)
      else first_collision L (b # rest))"
| "first_collision L _ = None"

definition admit_portable_paths :: "path_lib \<Rightarrow> rstr list \<Rightarrow> path_error + unit" where
  "admit_portable_paths L names =
     (case portable_keyed L names of
        Inl e \<Rightarrow> Inl e
      | Inr keyed \<Rightarrow>
         (case first_collision L (sort_key fst keyed) of
            Some (a, b) \<Rightarrow> Inl (Collide a b)
          | None \<Rightarrow> Inr ()))"

section \<open>Collision suffixes\<close>

text \<open>\<open>str::is_char_boundary\<close>, the loop that walks \<open>keep\<close> down to one, and \<open>\&stem[..keep]\<close>.\<close>

definition is_char_boundary :: "rstr \<Rightarrow> nat \<Rightarrow> bool" where
  "is_char_boundary s i \<longleftrightarrow> i \<in> set (map (\<lambda>k. str_len (take k s)) [0..<Suc (length s)])"

fun floor_boundary :: "rstr \<Rightarrow> nat \<Rightarrow> nat" where
  "floor_boundary s 0 = 0"
| "floor_boundary s (Suc k) = (if is_char_boundary s (Suc k) then Suc k else floor_boundary s k)"

fun byte_prefix :: "rstr \<Rightarrow> nat \<Rightarrow> rstr" where
  "byte_prefix [] b = []"
| "byte_prefix (c # s) b = (if utf8_width c \<le> b then c # byte_prefix s (b - utf8_width c) else [])"

definition suffix_of :: "rstr option \<Rightarrow> nat \<Rightarrow> rstr" where
  "suffix_of extension attempt =
     (case extension of
        Some e \<Rightarrow> lit ''-'' @ show_nat attempt @ lit ''.'' @ e
      | None \<Rightarrow> lit ''-'' @ show_nat attempt)"

definition stem_extension :: "rstr \<Rightarrow> rstr \<times> rstr option" where
  "stem_extension name =
     (case rsplit_once 46 name of
        Some (stem, extension) \<Rightarrow> if stem \<noteq> [] then (stem, Some extension) else (name, None)
      | None \<Rightarrow> (name, None))"

definition with_suffix :: "rstr \<Rightarrow> nat \<Rightarrow> rstr" where
  "with_suffix name attempt =
     (if attempt = 0 then name
      else
        let (stem, extension) = stem_extension name;
            suffix = suffix_of extension attempt;
            keep = floor_boundary stem (min (str_len stem) (MAX_PAYLOAD_NAME_BYTES - str_len suffix))
        in byte_prefix stem keep @ suffix)"

section \<open>The staging sweep\<close>

text \<open>
  The tree under the receive root. A symbolic link is not a directory for \<open>walk\<close>, which
  labels entries with \<open>file_type\<close>; \<open>keep\<close> is the set of paths a re-attached session owns.
\<close>

datatype fsnode = FFile | FLink | FDir "(rstr \<times> fsnode) list"

definition is_staging_file :: "rstr \<Rightarrow> bool" where
  "is_staging_file name =
     (let lower = to_ascii_lowercase name in
      starts_with lower (lit ''.vot-'')
      \<and> (ends_with lower (lit ''.stage'') \<or> ends_with lower (lit ''.journal'')))"

fun clean_staging :: "(rstr list \<Rightarrow> bool) \<Rightarrow> rstr list \<Rightarrow> (rstr \<times> fsnode) list \<Rightarrow> (rstr \<times> fsnode) list" where
  "clean_staging keep dir [] = []"
| "clean_staging keep dir ((name, FDir es) # rest) =
     (if is_push_staging_name (to_ascii_lowercase name)
      then (if keep (dir @ [name]) then [(name, FDir es)] else [])
      else [(name, FDir (clean_staging keep (dir @ [name]) es))])
     @ clean_staging keep dir rest"
| "clean_staging keep dir ((name, node) # rest) =
     (if is_staging_file name \<and> \<not> keep (dir @ [name]) then [] else [(name, node)])
     @ clean_staging keep dir rest"

text \<open>The paths of the non-directory entries of a tree, and which of them the sweep spares.\<close>

fun file_paths :: "(rstr \<times> fsnode) list \<Rightarrow> rstr list list" where
  "file_paths [] = []"
| "file_paths ((name, FDir es) # rest) = map (\<lambda>p. name # p) (file_paths es) @ file_paths rest"
| "file_paths ((name, node) # rest) = [name] # file_paths rest"

fun spared :: "(rstr list \<Rightarrow> bool) \<Rightarrow> rstr list \<Rightarrow> rstr list \<Rightarrow> bool" where
  "spared keep dir [] = True"
| "spared keep dir [name] = (\<not> (is_staging_file name \<and> \<not> keep (dir @ [name])))"
| "spared keep dir (name # rest) =
     (if is_push_staging_name (to_ascii_lowercase name) then keep (dir @ [name])
      else spared keep (dir @ [name]) rest)"

section \<open>Admission\<close>

named_theorems path_simps \<open>the definitions of path admission\<close>

lemmas [path_simps] = admit_component_def check_payload_name_length_def Let_def

lemma admit_component_staging:
  assumes "admit_component L name hidden = Inr ()"
  shows "\<not> is_staging_file name" and "\<not> is_push_staging_name (to_ascii_lowercase name)"
  using assms by (auto simp: path_simps is_staging_file_def split: if_splits)

lemma admit_component_chars:
  assumes "admit_component L name hidden = Inr ()"
  shows "name \<noteq> []" "str_len name \<le> 255" "name \<noteq> lit ''.''" "name \<noteq> lit ''..''"
    and "\<forall>c \<in> set name. \<not> refused_char c"
  using assms by (auto simp: path_simps list_ex_iff split: if_splits)

lemma refused_separators [simp]: "refused_char 47" "refused_char 92" "refused_char 0"
  by (simp_all add: refused_char_def)

definition safe_component :: "rstr \<Rightarrow> bool" where
  "safe_component c \<longleftrightarrow> c \<noteq> [] \<and> c \<noteq> lit ''.'' \<and> c \<noteq> lit ''..'' \<and> 47 \<notin> set c \<and> 92 \<notin> set c \<and> 0 \<notin> set c"

lemma join_under_Cons:
  "join_under path (c # rest) =
     (if safe_component c then join_under (path @ [c]) rest else Inl (UnsafeComponent c))"
  by (auto simp: safe_component_def list_ex_iff)

declare join_under.simps(2) [simp del]
declare join_under_Cons [simp]

lemma join_under_Inr:
  "join_under base cs = Inr p \<longleftrightarrow> p = base @ cs \<and> (\<forall>c \<in> set cs. safe_component c)"
  by (induction cs arbitrary: base) auto

lemma admit_component_safe: "admit_component L c hidden = Inr () \<Longrightarrow> safe_component c"
  using admit_component_chars [of L c hidden] refused_separators
  by (auto simp: safe_component_def)

section \<open>The sweep\<close>

lemma file_paths_nonempty: "[] \<notin> set (file_paths es)"
  by (induction es rule: file_paths.induct) auto

lemma spared_Cons:
  "p \<noteq> [] \<Longrightarrow> spared keep dir (n # p) =
     (if is_push_staging_name (to_ascii_lowercase n) then keep (dir @ [n]) else spared keep (dir @ [n]) p)"
  by (cases p) auto

lemma file_paths_append: "file_paths (es @ fs) = file_paths es @ file_paths fs"
  by (induction es rule: file_paths.induct) auto

lemma Collect_Un: "{x \<in> A \<union> B. P x} = {x \<in> A. P x} \<union> {x \<in> B. P x}"
  by blast

lemma Collect_insert: "{x \<in> insert a B. P x} = (if P a then {a} else {}) \<union> {x \<in> B. P x}"
  by auto

lemma spared_FDir_paths:
  "{p \<in> (#) n ` set (file_paths es). spared keep dir p} =
   (if is_push_staging_name (to_ascii_lowercase n)
    then (if keep (dir @ [n]) then (#) n ` set (file_paths es) else {})
    else (#) n ` {p \<in> set (file_paths es). spared keep (dir @ [n]) p})"
proof -
  have "{p \<in> (#) n ` set (file_paths es). spared keep dir p} =
        (#) n ` {q \<in> set (file_paths es). spared keep dir (n # q)}" by blast
  also have "{q \<in> set (file_paths es). spared keep dir (n # q)} =
        {q \<in> set (file_paths es). if is_push_staging_name (to_ascii_lowercase n)
             then keep (dir @ [n]) else spared keep (dir @ [n]) q}"
    using file_paths_nonempty [of es] by (intro Collect_cong) (metis spared_Cons)
  finally show ?thesis by (simp split: if_split)
qed

lemma file_paths_clean_staging:
  "set (file_paths (clean_staging keep dir es)) = {p \<in> set (file_paths es). spared keep dir p}"
proof (induction keep dir es rule: clean_staging.induct)
  case (2 keep dir name es rest)
  let ?S = "{p \<in> (#) name ` set (file_paths es). spared keep dir p}"
  have "set (file_paths (if is_push_staging_name (to_ascii_lowercase name)
      then (if keep (dir @ [name]) then [(name, FDir es)] else [])
      else [(name, FDir (clean_staging keep (dir @ [name]) es))])) = ?S"
  proof (cases "is_push_staging_name (to_ascii_lowercase name)")
    case True
    then show ?thesis unfolding spared_FDir_paths by (simp del: set_map add: set_map [symmetric])
  next
    case False
    note IH = "2.IH"(1) [OF False]
    from False show ?thesis unfolding spared_FDir_paths
      by (simp only: if_False file_paths.simps append_Nil2 set_map IH)
  qed
  moreover have "{p \<in> set (file_paths ((name, FDir es) # rest)). spared keep dir p} =
        ?S \<union> {p \<in> set (file_paths rest). spared keep dir p}"
    by (simp only: file_paths.simps set_append set_map Collect_Un)
  ultimately show ?case
    using "2.IH"(2) by (simp only: clean_staging.simps file_paths_append set_append)
qed (simp_all only: clean_staging.simps file_paths_append set_append file_paths.simps
      list.set Collect_insert spared.simps, simp_all)

lemma spared_admitted:
  "\<forall>c \<in> set p. admit_component L c hidden = Inr () \<Longrightarrow> spared keep dir p"
  by (induction keep dir p rule: spared.induct) (auto dest: admit_component_staging)

lemma spared_clean:
  "spared keep dir p \<Longrightarrow> p \<noteq> [] \<Longrightarrow> \<forall>q. q \<noteq> [] \<longrightarrow> prefix q p \<longrightarrow> \<not> keep (dir @ q) \<Longrightarrow>
   \<not> is_staging_file (last p) \<and> (\<forall>c \<in> set (butlast p). \<not> is_push_staging_name (to_ascii_lowercase c))"
proof (induction keep dir p rule: spared.induct)
  case (2 keep dir name)
  then show ?case by auto
next
  case (3 keep dir name v va)
  from 3(4) have nk: "\<not> keep (dir @ [name])" by simp
  with 3(2) have np: "\<not> is_push_staging_name (to_ascii_lowercase name)"
    and sp: "spared keep (dir @ [name]) (v # va)" by (auto split: if_splits)
  have "\<forall>q. q \<noteq> [] \<longrightarrow> prefix q (v # va) \<longrightarrow> \<not> keep ((dir @ [name]) @ q)"
  proof (intro allI impI)
    fix q assume "q \<noteq> []" "prefix q (v # va)"
    then have "\<not> keep (dir @ (name # q))" using 3(4) by (metis list.distinct(1) prefix_Cons)
    then show "\<not> keep ((dir @ [name]) @ q)" by simp
  qed
  from 3(1) [OF np sp _ this] np show ?case by simp
qed simp

section \<open>Collision suffixes\<close>

lemma floor_boundary_le: "floor_boundary s k \<le> k"
  by (induction k) auto

lemma str_len_byte_prefix: "str_len (byte_prefix s b) \<le> b"
  by (induction s b rule: byte_prefix.induct) auto

lemma byte_prefix_prefix: "prefix (byte_prefix s b) s"
  by (induction s b rule: byte_prefix.induct) auto

lemma byte_prefix_full: "str_len s \<le> b \<Longrightarrow> byte_prefix s b = s"
  by (induction s b rule: byte_prefix.induct) auto

lemma is_char_boundary_iff: "is_char_boundary s i \<longleftrightarrow> (\<exists>p. prefix p s \<and> i = str_len p)"
proof
  assume "is_char_boundary s i"
  then show "\<exists>p. prefix p s \<and> i = str_len p"
    by (auto simp: is_char_boundary_def intro: take_is_prefix)
next
  assume "\<exists>p. prefix p s \<and> i = str_len p"
  then obtain p r where "s = p @ r" "i = str_len p" by (auto simp: prefix_def)
  then have "i = str_len (take (length p) s)" "length p \<in> set [0..<Suc (length s)]" by auto
  then show "is_char_boundary s i" unfolding is_char_boundary_def set_map by (rule image_eqI)
qed

lemma byte_prefix_greatest: "prefix p s \<Longrightarrow> str_len p \<le> b \<Longrightarrow> prefix p (byte_prefix s b)"
proof (induction s b arbitrary: p rule: byte_prefix.induct)
  case (2 c s b)
  then show ?case by (cases p) auto
qed simp

lemma floor_boundary_greatest:
  "is_char_boundary s i \<Longrightarrow> i \<le> k \<Longrightarrow> i \<le> floor_boundary s k"
  by (induction k) (auto simp: le_Suc_eq)

text \<open>The slice at the boundary the loop finds is the longest prefix that fits.\<close>

lemma byte_prefix_floor: "byte_prefix s (floor_boundary s k) = byte_prefix s k"
proof -
  let ?p = "byte_prefix s k"
  have "is_char_boundary s (str_len ?p)"
    using byte_prefix_prefix is_char_boundary_iff by blast
  then have "str_len ?p \<le> floor_boundary s k"
    by (rule floor_boundary_greatest) (rule str_len_byte_prefix)
  then have "prefix ?p (byte_prefix s (floor_boundary s k))"
    by (rule byte_prefix_greatest [OF byte_prefix_prefix])
  moreover have "prefix (byte_prefix s (floor_boundary s k)) ?p"
    by (rule byte_prefix_greatest [OF byte_prefix_prefix])
       (meson str_len_byte_prefix floor_boundary_le order_trans)
  ultimately show ?thesis by (rule prefix_order.antisym [rotated])
qed

lemma with_suffix_shape:
  "attempt > 0 \<Longrightarrow> stem_extension name = (stem, e) \<Longrightarrow>
   with_suffix name attempt =
     byte_prefix stem (MAX_PAYLOAD_NAME_BYTES - str_len (suffix_of e attempt)) @ suffix_of e attempt"
proof -
  assume "attempt > 0" "stem_extension name = (stem, e)"
  then show ?thesis
    by (cases "str_len stem \<le> MAX_PAYLOAD_NAME_BYTES - str_len (suffix_of e attempt)")
       (simp_all add: with_suffix_def byte_prefix_floor byte_prefix_full min_def Let_def)
qed

lemma takeWhile_digits: "takeWhile is_ascii_digit (rev (p @ 45 # show_nat n)) = rev (show_nat n)"
proof -
  have "\<forall>c \<in> set (rev (show_nat n)). is_ascii_digit c"
    using show_nat_digits [of n] by (simp add: list_all_iff)
  then show ?thesis by (simp add: takeWhile_append is_ascii_digit_def)
qed

lemma suffix_of_inj: "p @ suffix_of e a = q @ suffix_of e b \<Longrightarrow> a = b"
proof -
  assume "p @ suffix_of e a = q @ suffix_of e b"
  then have "p @ 45 # show_nat a = q @ 45 # show_nat b"
    by (auto simp: suffix_of_def lit_def split: option.splits)
  then have "rev (show_nat a) = rev (show_nat b)" by (metis takeWhile_digits)
  then show ?thesis by (simp add: show_nat_inj)
qed

section \<open>Portable name sets\<close>

definition path_prefix_law :: "path_lib \<Rightarrow> bool" where
  "path_prefix_law L \<longleftrightarrow> (\<forall>a b. is_path_prefix L a b \<longleftrightarrow> (\<exists>r. b = a @ 0 # r))"

lemma between_prefix:
  fixes a b :: rstr
  shows "a \<le> b \<Longrightarrow> b \<le> a @ 0 # r \<Longrightarrow> b = a \<or> (\<exists>r'. b = a @ 0 # r')"
proof (induction a arbitrary: b)
  case Nil
  then show ?case by (cases b) auto
next
  case (Cons c a)
  then show ?case by (cases b) auto
qed

lemma first_collision_None:
  assumes "path_prefix_law L"
  shows "sorted (map fst ks) \<Longrightarrow> first_collision L ks = None \<Longrightarrow>
   distinct (map fst ks) \<and> (\<forall>x \<in> set ks. \<forall>y \<in> set ks. \<not> is_path_prefix L (fst x) (fst y))"
proof (induction ks rule: induct_list012)
  case (3 a b rest)
  have self: "\<not> is_path_prefix L x x" for x
    using assms by (auto simp: path_prefix_law_def)
  from 3 have IH: "distinct (map fst (b # rest))"
      "\<forall>x \<in> set (b # rest). \<forall>y \<in> set (b # rest). \<not> is_path_prefix L (fst x) (fst y)"
    by (auto split: if_splits)
  from 3 have ab: "fst a \<noteq> fst b" "\<not> is_path_prefix L (fst a) (fst b)" by (auto split: if_splits)
  have y: "fst a \<noteq> fst y \<and> \<not> is_path_prefix L (fst a) (fst y) \<and> \<not> is_path_prefix L (fst y) (fst a)"
    if "y \<in> set (b # rest)" for y
  proof -
    from 3(3) that have le: "fst a \<le> fst b" "fst b \<le> fst y" by auto
    have "fst a \<noteq> fst y" using le ab(1) by auto
    moreover have "\<not> is_path_prefix L (fst a) (fst y)"
    proof
      assume "is_path_prefix L (fst a) (fst y)"
      then obtain r where "fst y = fst a @ 0 # r" using assms by (auto simp: path_prefix_law_def)
      with le(2) have "fst b \<le> fst a @ 0 # r" by simp
      with le(1) have "fst b = fst a \<or> (\<exists>r'. fst b = fst a @ 0 # r')" by (rule between_prefix)
      with ab assms show False by (auto simp: path_prefix_law_def)
    qed
    moreover have "\<not> is_path_prefix L (fst y) (fst a)"
    proof
      assume "is_path_prefix L (fst y) (fst a)"
      then obtain r where r: "fst a = fst y @ 0 # r" using assms by (auto simp: path_prefix_law_def)
      have "x < x @ 0 # r" for x :: rstr by (induction x) auto
      with r have "fst y < fst a" by simp
      with le show False by auto
    qed
    ultimately show ?thesis by blast
  qed
  show ?case using IH y self by auto
qed (use assms in \<open>auto simp: path_prefix_law_def\<close>)

lemma portable_keyed_Inr:
  "portable_keyed L names = Inr keyed \<Longrightarrow>
   map snd keyed = names
   \<and> (\<forall>(k, n) \<in> set keyed. \<exists>key. portable_key L (split_on 47 n) = Some key \<and> k = fold_name L key)"
proof (induction names arbitrary: keyed)
  case (Cons n ns)
  then show ?case
    by (auto simp: admit_portable_path_def split: sum.splits option.splits if_splits)
qed simp

text \<open>The key under which a name is compared with the others.\<close>

definition recipient_key :: "path_lib \<Rightarrow> rstr \<Rightarrow> rstr" where
  "recipient_key L name = fold_name L (the (portable_key L (split_on 47 name)))"

lemma portable_keyed_keys:
  assumes "portable_keyed L names = Inr keyed"
  shows "map fst keyed = map (recipient_key L) names"
proof -
  have "\<forall>x \<in> set keyed. fst x = recipient_key L (snd x)"
    using portable_keyed_Inr [OF assms] by (auto simp: recipient_key_def)
  then have "map fst keyed = map (\<lambda>x. recipient_key L (snd x)) keyed" by simp
  also have "\<dots> = map (recipient_key L) (map snd keyed)" by (simp add: comp_def)
  finally show ?thesis using portable_keyed_Inr [OF assms] by simp
qed

section \<open>Destination folders\<close>

lemma admit_dest_part_Inr:
  "admit_dest_part L raw = Inr c \<Longrightarrow>
   c = trim raw \<and> c \<noteq> [] \<and> admit_dest_part L c = Inr c"
  by (auto simp: admit_dest_part_def trim_def Let_def split: if_splits)

lemma admit_dest_parts_Inr:
  "admit_dest_parts L ws = Inr ps \<Longrightarrow>
   ps = map trim ws \<and> admit_dest_parts L ps = Inr ps \<and> [] \<notin> set ps"
proof (induction ws arbitrary: ps)
  case (Cons w ws)
  then obtain c cs where "admit_dest_part L w = Inr c" "admit_dest_parts L ws = Inr cs" "ps = c # cs"
    by (auto split: sum.splits)
  with Cons.IH [of cs] admit_dest_part_Inr [of L w c] show ?case by auto
qed simp

lemma hd_join: "w \<noteq> [] \<Longrightarrow> hd (join_with sep (w # ws)) = hd w"
  by (cases ws) auto

lemma last_join: "ws \<noteq> [] \<Longrightarrow> [] \<notin> set ws \<Longrightarrow> last (join_with sep ws) = last (last ws)"
proof (induction sep ws rule: join_with.induct)
  case (3 sep w v va)
  then have "join_with sep (v # va) \<noteq> []" by (cases va) auto
  with 3 show ?case by simp
qed auto

lemma admit_dest_shape:
  assumes "admit_dest L dest = Inr r"
  shows "r = [] \<or> (\<exists>ps. r = join_with [47] ps \<and> ps \<noteq> [] \<and> [] \<notin> set ps \<and> admit_dest_parts L ps = Inr ps
                     \<and> (\<forall>p \<in> set ps. trim p = p \<and> 47 \<notin> set p))"
proof -
  let ?t = "trim_with (\<lambda>c. c = 47) (trim dest)"
  show ?thesis
  proof (cases "?t = []")
    case True
    with assms show ?thesis by (simp add: admit_dest_def)
  next
    case False
    with assms obtain ps where ps: "admit_dest_parts L (split_on 47 ?t) = Inr ps"
      and r: "r = join_with [47] ps"
      by (auto simp: admit_dest_def Let_def lit_def split: sum.splits)
    note h = admit_dest_parts_Inr [OF ps]
    have "47 \<notin> set p" if "p \<in> set ps" for p
      using that h split_on_no_delim set_trim_with [of is_whitespace] unfolding trim_def by fastforce
    moreover have "ps \<noteq> []" using h by simp
    moreover have "trim p = p" if "p \<in> set ps" for p
      using that h by (auto simp: trim_def)
    ultimately show ?thesis using h r by blast
  qed
qed

lemma trimmed_join:
  assumes "ps \<noteq> []" "[] \<notin> set ps" and ends: "\<forall>p \<in> set ps. \<not> P (hd p) \<and> \<not> P (last p)"
  shows "trim_with P (join_with sep ps) = join_with sep ps"
proof -
  obtain p qs where ps: "ps = p # qs" using assms(1) by (cases ps) auto
  have "hd (join_with sep ps) = hd p" unfolding ps using assms(2) ps by (intro hd_join) auto
  moreover have "last (join_with sep ps) = last (last ps)"
    using assms by (intro last_join) auto
  ultimately show ?thesis
    using ends ps assms(1) last_in_set [OF assms(1)] by (intro trim_with_id) auto
qed

section \<open>Properties\<close>

text \<open>A concrete \<open>path_lib\<close> for the witnesses: ASCII names, keys joined by NUL.\<close>

definition ascii_path_lib :: path_lib where
  "ascii_path_lib = \<lparr>portable_ok = (\<lambda>_. True), portable_key = (\<lambda>cs. Some (join_with [0] cs)),
     fold_name = to_ascii_lowercase, is_path_prefix = (\<lambda>a b. starts_with b (a @ [0])),
     is_alphanumeric = is_ascii_alphanumeric\<rparr>"

lemma ascii_path_lib_law: "path_prefix_law ascii_path_lib"
  by (auto simp: path_prefix_law_def ascii_path_lib_def starts_with_def)
     (metis append_take_drop_id append.assoc append_Cons append_Nil)

lemmas lit_eval = lit_def str_len_def utf8_width_def

text \<open>A file whose every path component both ends admit survives the staging sweep at the
  next boot, whatever the kept set: no admitted name has a staging shape (audit finding
  542).\<close>

theorem admitted_names_survive_sweep:
  assumes "p \<in> set (file_paths es)" and "\<forall>c \<in> set p. admit_component L c hidden = Inr ()"
  shows "p \<in> set (file_paths (clean_staging keep dir es))"
  using assms spared_admitted by (auto simp: file_paths_clean_staging)

theorem admitted_names_survive_sweep_witness:
  "[lit ''a.pdf''] \<in> set (file_paths (clean_staging (\<lambda>_. False) [] [(lit ''a.pdf'', FFile)]))"
proof (rule admitted_names_survive_sweep)
  show "[lit ''a.pdf''] \<in> set (file_paths [(lit ''a.pdf'', FFile)])" by simp
  show "\<forall>c \<in> set [lit ''a.pdf'']. admit_component ascii_path_lib c False = Inr ()" by code_simp
qed

text \<open>What the sweep leaves: a file under no kept path has no staging or journal shape and
  lies in no push staging directory, in any letter case.\<close>

theorem sweep_leaves_no_orphans:
  assumes "p \<in> set (file_paths (clean_staging keep dir es))"
    and "\<forall>q. q \<noteq> [] \<longrightarrow> prefix q p \<longrightarrow> \<not> keep (dir @ q)"
  shows "\<not> is_staging_file (last p)
         \<and> (\<forall>c \<in> set (butlast p). \<not> is_push_staging_name (to_ascii_lowercase c))"
proof (rule spared_clean)
  from assms(1) show "spared keep dir p" by (simp add: file_paths_clean_staging)
  from assms(1) show "p \<noteq> []" using file_paths_nonempty by metis
qed (rule assms(2))

theorem sweep_leaves_no_orphans_witness:
  "\<not> is_staging_file (last [lit ''in'', lit ''a.pdf''])
   \<and> list_all (\<lambda>c. \<not> is_push_staging_name (to_ascii_lowercase c)) (butlast [lit ''in'', lit ''a.pdf''])"
proof -
  have "[lit ''in'', lit ''a.pdf''] \<in> set (file_paths (clean_staging (\<lambda>_. False) []
          [(lit ''in'', FDir [(lit ''.vot-1.stage'', FFile), (lit ''a.pdf'', FFile)])]))" by code_simp
  then show ?thesis using sweep_leaves_no_orphans unfolding list_all_iff by blast
qed

text \<open>No two names an accepted delivery lists share a recipient-side key, and no key is
  another's directory prefix, although only neighbours of the sorted keys are compared.\<close>

theorem portable_paths_never_collide:
  assumes "path_prefix_law L" and "admit_portable_paths L names = Inr ()"
  shows "distinct (map (recipient_key L) names)
         \<and> (\<forall>a \<in> set names. \<forall>b \<in> set names. \<not> is_path_prefix L (recipient_key L a) (recipient_key L b))"
proof -
  obtain keyed where k: "portable_keyed L names = Inr keyed"
    and none: "first_collision L (sort_key fst keyed) = None"
    using assms(2) by (auto simp: admit_portable_paths_def split: sum.splits option.splits)
  note keys = portable_keyed_keys [OF k]
  have r: "distinct (map fst (sort_key fst keyed))"
      "\<forall>x \<in> set keyed. \<forall>y \<in> set keyed. \<not> is_path_prefix L (fst x) (fst y)"
    using first_collision_None [OF assms(1) _ none] by auto
  have "mset (map fst (sort_key fst keyed)) = mset (map fst keyed)" by simp
  with r(1) have "distinct (map fst keyed)" by (metis mset_eq_imp_distinct_iff)
  moreover have "\<forall>x \<in> set (map fst keyed). \<forall>y \<in> set (map fst keyed). \<not> is_path_prefix L x y"
    using r(2) by auto
  ultimately show ?thesis by (simp add: keys)
qed

theorem portable_paths_never_collide_witness:
  "distinct (map (recipient_key ascii_path_lib) [lit ''a/b'', lit ''A/c''])"
proof -
  have "admit_portable_paths ascii_path_lib [lit ''a/b'', lit ''A/c''] = Inr ()" by code_simp
  then show ?thesis
    using portable_paths_never_collide [OF ascii_path_lib_law] by blast
qed

text \<open>A collision suffix never lengthens a name past the payload budget it can fit: the
  suffixed name ends in the suffix, keeps a prefix of the stem cut at a character boundary,
  and fits when the suffix does (audit finding 540).\<close>

theorem with_suffix_fits:
  assumes "attempt > 0" and "stem_extension name = (stem, e)"
    and "str_len (suffix_of e attempt) \<le> MAX_PAYLOAD_NAME_BYTES"
  shows "check_payload_name_length (with_suffix name attempt) = Inr ()
         \<and> (\<exists>kept. prefix kept stem \<and> with_suffix name attempt = kept @ suffix_of e attempt)"
proof -
  let ?k = "byte_prefix stem (MAX_PAYLOAD_NAME_BYTES - str_len (suffix_of e attempt))"
  have "str_len ?k + str_len (suffix_of e attempt) \<le> MAX_PAYLOAD_NAME_BYTES"
    using str_len_byte_prefix [of stem "MAX_PAYLOAD_NAME_BYTES - str_len (suffix_of e attempt)"]
      assms(3) by linarith
  then show ?thesis
    using byte_prefix_prefix by (auto simp: with_suffix_shape [OF assms(1,2)] check_payload_name_length_def)
qed

theorem with_suffix_fits_witness:
  "check_payload_name_length (with_suffix (lit ''a.pdf'') 3) = Inr ()"
proof -
  have "stem_extension (lit ''a.pdf'') = (lit ''a'', Some (lit ''pdf''))" by code_simp
  moreover have "str_len (suffix_of (Some (lit ''pdf'')) 3) \<le> MAX_PAYLOAD_NAME_BYTES" by code_simp
  ultimately show ?thesis using with_suffix_fits [of 3 "lit ''a.pdf''"] by simp
qed

text \<open>Distinct collision attempts give distinct names, also where the stem is cut, so the
  naming loop never tries one name twice.\<close>

theorem with_suffix_distinct:
  assumes "a > 0" and "b > 0" and "with_suffix name a = with_suffix name b"
  shows "a = b"
proof -
  obtain stem e where "stem_extension name = (stem, e)" by force
  with assms have "byte_prefix stem (MAX_PAYLOAD_NAME_BYTES - str_len (suffix_of e a)) @ suffix_of e a
    = byte_prefix stem (MAX_PAYLOAD_NAME_BYTES - str_len (suffix_of e b)) @ suffix_of e b"
    by (simp only: with_suffix_shape)
  then show ?thesis by (rule suffix_of_inj)
qed

theorem with_suffix_distinct_witness: "with_suffix (lit ''a'') 2 \<noteq> with_suffix (lit ''a'') 1"
  using with_suffix_distinct [of 2 1] by auto

text \<open>An admitted destination folder is in normal form: admitting it again returns it.\<close>

theorem admit_dest_idempotent:
  assumes "admit_dest L dest = Inr r"
  shows "admit_dest L r = Inr r"
proof -
  from admit_dest_shape [OF assms] show ?thesis
  proof (elim disjE exE conjE)
    assume "r = []"
    then show ?thesis by (simp add: admit_dest_def trim_def trim_with_def trim_end_with_def trim_start_with_def)
  next
    fix ps
    assume ps: "r = join_with [47] ps" "ps \<noteq> []" "[] \<notin> set ps" "admit_dest_parts L ps = Inr ps"
      "\<forall>p \<in> set ps. trim p = p \<and> 47 \<notin> set p"
    have "\<forall>p \<in> set ps. \<not> is_whitespace (hd p) \<and> \<not> is_whitespace (last p)"
      using ps(3,5) trim_with_ends unfolding trim_def by metis
    then have "trim r = r" unfolding ps(1) trim_def by (rule trimmed_join [OF ps(2,3)])
    moreover have "\<forall>p \<in> set ps. hd p \<noteq> 47 \<and> last p \<noteq> 47"
      using ps(3,5) by (metis hd_in_set last_in_set)
    then have "trim_with (\<lambda>c. c = 47) r = r" unfolding ps(1) by (intro trimmed_join [OF ps(2,3)]) simp
    moreover have "split_on 47 r = ps" unfolding ps(1) using ps(2,5) by (intro split_join) auto
    moreover have "r \<noteq> []" unfolding ps(1) by (rule join_nonempty [OF ps(2,3)])
    ultimately show ?thesis using ps(1,4) by (simp add: admit_dest_def lit_def)
  qed
qed

theorem admit_dest_idempotent_witness:
  "admit_dest ascii_path_lib (lit ''in/day 1'') = Inr (lit ''in/day 1'')"
proof -
  have "admit_dest ascii_path_lib (lit '' /in/ day 1/ '') = Inr (lit ''in/day 1'')" by code_simp
  then show ?thesis by (rule admit_dest_idempotent)
qed

text \<open>Joining components under a base directory succeeds exactly for components that are
  neither empty, \<open>.\<close> nor \<open>..\<close> and hold no separator or NUL, and then appends them: the
  result never leaves the base. Every admitted component is one of these.\<close>

theorem join_under_stays_inside:
  "(join_under base cs = Inr p \<longleftrightarrow> p = base @ cs \<and> list_all safe_component cs)
   \<and> (list_all (\<lambda>c. admit_component L c hidden = Inr ()) cs \<longrightarrow> join_under base cs = Inr (base @ cs))"
  using admit_component_safe by (auto simp: join_under_Inr list_all_iff)

theorem join_under_stays_inside_witness:
  "join_under [] [lit ''a.pdf''] = Inr [lit ''a.pdf'']"
proof -
  have "list_all (\<lambda>c. admit_component ascii_path_lib c False = Inr ()) [lit ''a.pdf'']" by code_simp
  then show ?thesis using join_under_stays_inside [of "[]" "[lit ''a.pdf'']"] by (metis append_Nil)
qed

end
