(* ===== verification/Registry.thy ===== *)
theory Registry
  imports Votport_Base
begin

text \<open>
  The registry of live upload sessions: \<open>Sessions\<close>, \<open>SessionsInner\<close>, the guards that
  live beside it and \<open>PushControl\<close>, of \<open>server/src/session.rs\<close>.

  One mutex guards \<open>SessionsInner\<close>, so each method is one atomic step on the state. The
  activity counters and the push flags are shared by reference (\<open>Arc\<close>) between a handle
  and the leases and controls handed out: they live in the stores \<open>activities\<close> and
  \<open>flags\<close>, and handles, leases and controls hold their addresses. \<open>Instant::now()\<close> and
  \<open>now\_unix()\<close> are parameters, an instant in nanoseconds.
\<close>

section \<open>State\<close>

record activity =
  in_flight :: nat
  last_active :: nat
  act_received :: nat

record push_flags =
  directory_lock :: bool
  parked :: bool
  connected :: bool
  aborted :: bool
  cancelled :: bool

text \<open>A control is its resume key and the address of its shared flags.\<close>

record push_control =
  resume_key :: "rstr option"
  flags_at :: nat

datatype session_kind = Http | Push push_control

record session_handle =
  sh_link_id :: rstr
  sh_tenant :: rstr
  sh_reserved_bytes :: nat
  sh_sender :: nat
  sh_kind :: session_kind
  sh_started_at :: nat
  sh_started :: nat
  sh_activity :: nat

record file_record =
  fr_path :: rstr
  fr_stored_as :: rstr
  fr_bytes :: nat
  fr_suite :: rstr
  fr_root :: rstr
  fr_receipt :: bool
  fr_deleted :: bool

record entry_info =
  ei_index :: nat
  ei_path :: rstr
  ei_stored_as :: rstr
  ei_bytes :: nat
  ei_complete :: bool
  ei_covered_bytes :: nat
  ei_renamed :: bool

record finish_report =
  rep_upload_id :: rstr
  rep_files :: "file_record list"
  rep_received :: nat

record finished_upload =
  fu_at :: nat
  fu_report :: finish_report
  fu_entries :: "entry_info list"

record sessions =
  smap :: "(rstr, session_handle) hmap"
  finished :: "(rstr, finished_upload) hmap"
  admission_closed :: bool
  commands_closed :: bool
  active_admissions :: nat
  pinned :: "rstr set"
  outbound :: "(rstr, nat) hmap"
  pinned_links :: "rstr set"
  activities :: "nat \<Rightarrow> activity"
  next_activity :: nat
  flags :: "nat \<Rightarrow> push_flags"
  next_flags :: nat

datatype touch_error = NotFound | WrongKind

datatype insert_error =
    ShuttingDown
  | TenantPinned
  | LinkPinned
  | ByteQuota
  | TenantSessionLimit
  | Capacity
  | StoreError rstr

record session_admission =
  sa_id :: rstr
  sa_link_id :: rstr
  sa_tenant :: rstr
  sa_reserved_bytes :: nat
  sa_max_total_bytes :: "nat option"
  sa_max_tenant_sessions :: "nat option"
  sa_max_link_sessions :: nat
  sa_max_sessions :: nat
  sa_kind :: session_kind

record retained_reservation =
  rr_id :: rstr
  rr_push_key :: "rstr option"
  rr_bytes :: nat

definition nanos_per_sec :: nat where "nanos_per_sec = 1000000000"

definition FINISHED_TTL :: nat where "FINISHED_TTL = 300 * nanos_per_sec"

definition FINISHED_CAP :: nat where "FINISHED_CAP = 64"

definition new_sessions :: sessions where
  "new_sessions = \<lparr>smap = [], finished = [], admission_closed = False, commands_closed = False,
     active_admissions = 0, pinned = {}, outbound = [], pinned_links = {},
     activities = (\<lambda>_. \<lparr>in_flight = 0, last_active = 0, act_received = 0\<rparr>), next_activity = 0,
     flags = (\<lambda>_. \<lparr>directory_lock = False, parked = False, connected = False, aborted = False, cancelled = False\<rparr>),
     next_flags = 0\<rparr>"

section \<open>Admission, pins and outbound operations\<close>

definition try_admit :: "sessions \<Rightarrow> sessions option" where
  "try_admit s =
     (if admission_closed s then None
      else Some (s\<lparr>active_admissions := active_admissions s + 1\<rparr>))"

definition drop_admission_guard :: "sessions \<Rightarrow> sessions" where
  "drop_admission_guard s = s\<lparr>active_admissions := active_admissions s - 1\<rparr>"

definition close_admission :: "sessions \<Rightarrow> bool \<times> sessions" where
  "close_admission s = (\<not> admission_closed s, s\<lparr>admission_closed := True\<rparr>)"

definition try_pin_tenant :: "rstr \<Rightarrow> sessions \<Rightarrow> sessions option" where
  "try_pin_tenant t s =
     (if t = [] then None
      else if t \<in> pinned s then None
      else Some (s\<lparr>pinned := insert t (pinned s)\<rparr>))"

definition drop_tenant_pin :: "rstr \<Rightarrow> sessions \<Rightarrow> sessions" where
  "drop_tenant_pin t s = s\<lparr>pinned := pinned s - {t}\<rparr>"

definition tenant_pinned :: "rstr \<Rightarrow> sessions \<Rightarrow> bool" where
  "tenant_pinned t s = (if t = [] then False else t \<in> pinned s)"

text \<open>The guard of an outbound operation carries the tenant whose counter it holds.\<close>

definition try_begin_outbound :: "rstr \<Rightarrow> sessions \<Rightarrow> (rstr option \<times> sessions) option" where
  "try_begin_outbound t s =
     (if t = [] then Some (None, s)
      else if t \<in> pinned s then None
      else Some (Some t, s\<lparr>outbound :=
             AList.update t ((case map_of (outbound s) t of None \<Rightarrow> 0 | Some n \<Rightarrow> n) + 1) (outbound s)\<rparr>))"

definition drop_outbound :: "rstr option \<Rightarrow> sessions \<Rightarrow> sessions" where
  "drop_outbound guard s =
     (case guard of
        None \<Rightarrow> s
      | Some t \<Rightarrow>
         (case map_of (outbound s) t of
            None \<Rightarrow> s
          | Some n \<Rightarrow>
             if n - 1 = 0 then s\<lparr>outbound := AList.delete t (outbound s)\<rparr>
             else s\<lparr>outbound := AList.update t (n - 1) (outbound s)\<rparr>))"

definition active_outbound_for_tenant :: "rstr \<Rightarrow> sessions \<Rightarrow> nat" where
  "active_outbound_for_tenant t s = (case map_of (outbound s) t of None \<Rightarrow> 0 | Some n \<Rightarrow> n)"

definition pin_link_for_delete :: "rstr \<Rightarrow> sessions \<Rightarrow> bool \<times> sessions" where
  "pin_link_for_delete l s = (l \<notin> pinned_links s, s\<lparr>pinned_links := insert l (pinned_links s)\<rparr>)"

definition try_pin_link :: "rstr \<Rightarrow> sessions \<Rightarrow> bool \<times> sessions" where
  "try_pin_link l s = pin_link_for_delete l s"

definition unpin_link :: "rstr \<Rightarrow> sessions \<Rightarrow> sessions" where
  "unpin_link l s = s\<lparr>pinned_links := pinned_links s - {l}\<rparr>"

definition drop_link_pin :: "rstr \<Rightarrow> sessions \<Rightarrow> sessions" where
  "drop_link_pin l s = s\<lparr>pinned_links := pinned_links s - {l}\<rparr>"

section \<open>Push controls\<close>

definition new_control :: "sessions \<Rightarrow> push_control \<times> sessions" where
  "new_control s =
     (\<lparr>resume_key = None, flags_at = next_flags s\<rparr>,
      s\<lparr>flags := (flags s)(next_flags s := \<lparr>directory_lock = False, parked = False, connected = False, aborted = False, cancelled = False\<rparr>),
        next_flags := next_flags s + 1\<rparr>)"

text \<open>\<open>resumable(key, lock)\<close>: parked when the caller holds no directory lock.\<close>

definition resumable_control :: "rstr \<Rightarrow> bool \<Rightarrow> sessions \<Rightarrow> push_control \<times> sessions" where
  "resumable_control key has_lock s =
     (\<lparr>resume_key = Some key, flags_at = next_flags s\<rparr>,
      s\<lparr>flags := (flags s)(next_flags s := \<lparr>directory_lock = has_lock, parked = \<not> has_lock, connected = False, aborted = False, cancelled = False\<rparr>),
        next_flags := next_flags s + 1\<rparr>)"

definition set_flags :: "push_control \<Rightarrow> (push_flags \<Rightarrow> push_flags) \<Rightarrow> sessions \<Rightarrow> sessions" where
  "set_flags c f s = s\<lparr>flags := (flags s)(flags_at c := f (flags s (flags_at c)))\<rparr>"

definition park :: "push_control \<Rightarrow> sessions \<Rightarrow> bool \<times> sessions" where
  "park c s =
     (case resume_key c of
        None \<Rightarrow> (False, s)
      | Some _ \<Rightarrow> (True, set_flags c (\<lambda>f. f\<lparr>parked := True, connected := False, directory_lock := False\<rparr>) s))"

definition connect :: "push_control \<Rightarrow> sessions \<Rightarrow> bool \<times> sessions" where
  "connect c s =
     (if connected (flags s (flags_at c)) then (False, s)
      else (True, set_flags c (\<lambda>f. f\<lparr>connected := True\<rparr>) s))"

definition cancel :: "push_control \<Rightarrow> sessions \<Rightarrow> sessions" where
  "cancel c s = set_flags c (\<lambda>f. f\<lparr>cancelled := True\<rparr>) s"

definition abort :: "push_control \<Rightarrow> sessions \<Rightarrow> sessions" where
  "abort c s = cancel c (set_flags c (\<lambda>f. f\<lparr>aborted := True\<rparr>) s)"

section \<open>Inserting a session\<close>

definition push_key_of :: "session_kind \<Rightarrow> rstr option" where
  "push_key_of k = (case k of Http \<Rightarrow> None | Push c \<Rightarrow> resume_key c)"

definition is_push :: "session_kind \<Rightarrow> bool" where
  "is_push k = (case k of Http \<Rightarrow> False | Push _ \<Rightarrow> True)"

text \<open>The session a resuming push replaces: the first push handle under its key, and whether
  that session is parked.\<close>

definition replaced_session :: "sessions \<Rightarrow> session_kind \<Rightarrow> (rstr \<times> bool) option" where
  "replaced_session s kind =
     (case kind of
        Http \<Rightarrow> None
      | Push control \<Rightarrow>
         (case resume_key control of
            None \<Rightarrow> None
          | Some key \<Rightarrow>
             (case find (\<lambda>(_, h). push_key_of (sh_kind h) = Some key) (smap s) of
                None \<Rightarrow> None
              | Some (i, h) \<Rightarrow>
                 (case sh_kind h of
                    Http \<Rightarrow> None
                  | Push old \<Rightarrow> Some (i, parked (flags s (flags_at old)))))))"

definition other_handles :: "sessions \<Rightarrow> rstr option \<Rightarrow> session_handle list" where
  "other_handles s old_id = map snd (filter (\<lambda>(i, _). Some i \<noteq> old_id) (smap s))"

definition retained_bytes :: "sessions \<Rightarrow> session_handle list \<Rightarrow> retained_reservation list \<Rightarrow> nat" where
  "retained_bytes s others retained =
     sum_saturating (map rr_bytes
       (filter (\<lambda>r. \<not> contains_key (rr_id r) (smap s)
                   \<and> \<not> list_ex (\<lambda>h. push_key_of (sh_kind h) \<noteq> None
                                   \<and> push_key_of (sh_kind h) = rr_push_key r) others) retained))"

definition already_reserved :: "rstr \<Rightarrow> session_handle list \<Rightarrow> nat" where
  "already_reserved t others =
     sum_saturating (map sh_reserved_bytes (filter (\<lambda>h. sh_tenant h = t) others))"

definition resuming :: "session_admission \<Rightarrow> retained_reservation list \<Rightarrow> bool" where
  "resuming a retained =
     list_ex (\<lambda>r. push_key_of (sa_kind a) \<noteq> None \<and> rr_push_key r = push_key_of (sa_kind a)
                 \<and> sa_reserved_bytes a \<le> rr_bytes r) retained"

definition fresh_handle :: "session_admission \<Rightarrow> nat \<Rightarrow> nat \<Rightarrow> nat \<Rightarrow> nat \<Rightarrow> session_handle" where
  "fresh_handle a sender unix now addr =
     \<lparr>sh_link_id = sa_link_id a, sh_tenant = sa_tenant a, sh_reserved_bytes = sa_reserved_bytes a,
      sh_sender = sender, sh_kind = sa_kind a, sh_started_at = unix, sh_started = now,
      sh_activity = addr\<rparr>"

text \<open>
  \<open>received_bytes\<close> is the result of the quota query, run only where a byte quota is set and
  before the lock is taken; \<open>reserved\<close> says that the caller holds an admission guard.
\<close>

definition insert_admitted_inner ::
  "session_admission \<Rightarrow> nat \<Rightarrow> (rstr + (nat \<times> retained_reservation list)) \<Rightarrow> bool \<Rightarrow> nat \<Rightarrow> nat
   \<Rightarrow> sessions \<Rightarrow> insert_error + sessions" where
  "insert_admitted_inner a sender received_bytes reserved unix now s =
     (case (case sa_max_total_bytes a of
              None \<Rightarrow> Inr (0, [])
            | Some _ \<Rightarrow> received_bytes) of
        Inl e \<Rightarrow> Inl (StoreError e)
      | Inr (received, retained) \<Rightarrow>
         if commands_closed s \<or> (admission_closed s \<and> \<not> reserved) then Inl ShuttingDown
         else if sa_tenant a \<noteq> [] \<and> sa_tenant a \<in> pinned s then Inl TenantPinned
         else if sa_link_id a \<in> pinned_links s then Inl LinkPinned
         else
           let replacing = replaced_session s (sa_kind a);
               others = other_handles s (map_option fst replacing)
           in
           if (case replacing of Some (_, is_parked) \<Rightarrow> \<not> is_parked | None \<Rightarrow> False) then Inl Capacity
           else if length others \<ge> sa_max_sessions a
                \<or> length (filter (\<lambda>h. sh_link_id h = sa_link_id a) others) \<ge> sa_max_link_sessions a
           then Inl Capacity
           else if (case sa_max_tenant_sessions a of
                      None \<Rightarrow> False
                    | Some m \<Rightarrow> length (filter (\<lambda>h. sh_tenant h = sa_tenant a) others) \<ge> m)
           then Inl TenantSessionLimit
           else if (case sa_max_total_bytes a of
                      None \<Rightarrow> False
                    | Some max_total \<Rightarrow>
                        \<not> resuming a retained
                        \<and> sa_reserved_bytes a
                          > max_total - received - already_reserved (sa_tenant a) others
                            - retained_bytes s others retained)
           then Inl ByteQuota
           else
             let m = (case replacing of None \<Rightarrow> smap s | Some (old_id, _) \<Rightarrow> AList.delete old_id (smap s))
             in Inr (s\<lparr>smap := AList.update (sa_id a) (fresh_handle a sender unix now (next_activity s)) m,
                       activities := (activities s)(next_activity s :=
                         \<lparr>in_flight = 0, last_active = now, act_received = 0\<rparr>),
                       next_activity := next_activity s + 1\<rparr>))"

definition insert_admitted ::
  "session_admission \<Rightarrow> nat \<Rightarrow> (rstr + (nat \<times> retained_reservation list)) \<Rightarrow> nat \<Rightarrow> nat
   \<Rightarrow> sessions \<Rightarrow> insert_error + sessions" where
  "insert_admitted a sender received_bytes unix now s =
     insert_admitted_inner a sender received_bytes False unix now s"

text \<open>The guard given in comes back on success; on an error it is dropped.\<close>

definition insert_admitted_with_guard ::
  "session_admission \<Rightarrow> nat \<Rightarrow> (rstr + (nat \<times> retained_reservation list)) \<Rightarrow> nat \<Rightarrow> nat
   \<Rightarrow> sessions \<Rightarrow> (insert_error \<times> sessions) + sessions" where
  "insert_admitted_with_guard a sender received_bytes unix now s =
     (case insert_admitted_inner a sender received_bytes True unix now s of
        Inl e \<Rightarrow> Inl (e, drop_admission_guard s)
      | Inr s' \<Rightarrow> Inr s')"

definition insert_resumed ::
  "rstr \<Rightarrow> rstr \<Rightarrow> rstr \<Rightarrow> nat \<Rightarrow> nat \<Rightarrow> nat \<Rightarrow> nat \<Rightarrow> sessions \<Rightarrow> insert_error + sessions" where
  "insert_resumed i link t bytes sender unix now s =
     insert_admitted
       \<lparr>sa_id = i, sa_link_id = link, sa_tenant = t, sa_reserved_bytes = bytes,
        sa_max_total_bytes = None, sa_max_tenant_sessions = None, sa_max_link_sessions = u64_max,
        sa_max_sessions = u64_max, sa_kind = Http\<rparr> sender (Inr (0, [])) unix now s"

section \<open>Commands, leases and lookups\<close>

definition take_http :: "sessions \<Rightarrow> nat list \<times> sessions" where
  "take_http s =
     (map (\<lambda>(_, h). sh_sender h) (filter (\<lambda>(_, h). \<not> is_push (sh_kind h)) (smap s)),
      s\<lparr>commands_closed := True, smap := filter (\<lambda>(_, h). is_push (sh_kind h)) (smap s)\<rparr>)"

definition active_for_tenant :: "rstr \<Rightarrow> sessions \<Rightarrow> nat" where
  "active_for_tenant t s = length (filter (\<lambda>(_, h). sh_tenant h = t) (smap s))"

definition link_id :: "rstr \<Rightarrow> sessions \<Rightarrow> rstr option" where
  "link_id i s = map_option sh_link_id (map_of (smap s) i)"

definition contains_push_key :: "rstr \<Rightarrow> sessions \<Rightarrow> bool" where
  "contains_push_key key s = list_ex (\<lambda>(_, h). push_key_of (sh_kind h) = Some key) (smap s)"

definition contains_push :: "rstr \<Rightarrow> sessions \<Rightarrow> bool" where
  "contains_push i s = (case map_of (smap s) i of None \<Rightarrow> False | Some h \<Rightarrow> is_push (sh_kind h))"

definition set_activity :: "nat \<Rightarrow> (activity \<Rightarrow> activity) \<Rightarrow> sessions \<Rightarrow> sessions" where
  "set_activity addr f s = s\<lparr>activities := (activities s)(addr := f (activities s addr))\<rparr>"

definition mark_active :: "rstr \<Rightarrow> nat \<Rightarrow> sessions \<Rightarrow> bool \<times> sessions" where
  "mark_active i now s =
     (case map_of (smap s) i of
        None \<Rightarrow> (False, s)
      | Some h \<Rightarrow>
          if \<not> is_push (sh_kind h) then (False, s)
          else (True, set_activity (sh_activity h) (\<lambda>a. a\<lparr>last_active := now\<rparr>) s))"

text \<open>A lease is the address of the activity it holds.\<close>

definition push_lease :: "rstr \<Rightarrow> sessions \<Rightarrow> (nat \<times> sessions) option" where
  "push_lease i s =
     (case map_of (smap s) i of
        None \<Rightarrow> None
      | Some h \<Rightarrow>
          if \<not> is_push (sh_kind h) then None
          else Some (sh_activity h,
                     set_activity (sh_activity h) (\<lambda>a. a\<lparr>in_flight := in_flight a + 1\<rparr>) s))"

definition drop_lease :: "nat \<Rightarrow> nat \<Rightarrow> sessions \<Rightarrow> sessions" where
  "drop_lease lease now s =
     set_activity lease (\<lambda>a. a\<lparr>last_active := now, in_flight := in_flight a - 1\<rparr>) s"

definition controls_for_link :: "rstr \<Rightarrow> sessions \<Rightarrow> push_control list" where
  "controls_for_link l s =
     List.map_filter (\<lambda>(_, h). case sh_kind h of
                           Http \<Rightarrow> None
                         | Push c \<Rightarrow> if sh_link_id h = l then Some c else None) (smap s)"

definition cancel_pushes_for_link :: "rstr \<Rightarrow> sessions \<Rightarrow> sessions" where
  "cancel_pushes_for_link l s = fold cancel (controls_for_link l s) s"

definition abort_push :: "rstr \<Rightarrow> sessions \<Rightarrow> bool \<times> sessions" where
  "abort_push i s =
     (case map_of (smap s) i of
        None \<Rightarrow> (False, s)
      | Some h \<Rightarrow> (case sh_kind h of Http \<Rightarrow> (False, s) | Push c \<Rightarrow> (True, abort c s)))"

definition touch :: "rstr \<Rightarrow> nat \<Rightarrow> sessions \<Rightarrow> touch_error + ((nat \<times> nat) \<times> sessions)" where
  "touch i now s =
     (case map_of (smap s) i of
        None \<Rightarrow> Inl NotFound
      | Some h \<Rightarrow>
          if is_push (sh_kind h) then Inl WrongKind
          else Inr ((sh_sender h, sh_activity h),
                    set_activity (sh_activity h)
                      (\<lambda>a. a\<lparr>last_active := now, in_flight := in_flight a + 1\<rparr>) s))"

definition remove_session :: "rstr \<Rightarrow> sessions \<Rightarrow> session_handle option \<times> sessions" where
  "remove_session i s = (map_of (smap s) i, s\<lparr>smap := AList.delete i (smap s)\<rparr>)"

section \<open>Finished uploads\<close>

definition prune_finished :: "nat \<Rightarrow> sessions \<Rightarrow> sessions" where
  "prune_finished now s = s\<lparr>finished := filter (\<lambda>(_, f). now - fu_at f < FINISHED_TTL) (finished s)\<rparr>"

definition finished_entry :: "nat \<times> file_record \<Rightarrow> entry_info" where
  "finished_entry p =
     \<lparr>ei_index = fst p, ei_path = fr_path (snd p), ei_stored_as = fr_stored_as (snd p),
      ei_bytes = fr_bytes (snd p), ei_complete = True, ei_covered_bytes = fr_bytes (snd p),
      ei_renamed = False\<rparr>"

definition remember_finished :: "rstr \<Rightarrow> finish_report \<Rightarrow> nat \<Rightarrow> sessions \<Rightarrow> sessions" where
  "remember_finished i report now s =
     (let entries = map finished_entry (List.enumerate 0 (rep_files report));
          s1 = prune_finished now s;
          kept = (if length (finished s1) \<ge> FINISHED_CAP
                  then (case min_by_key (\<lambda>(_, f). fu_at f) (finished s1) of
                          None \<Rightarrow> finished s1
                        | Some (oldest, _) \<Rightarrow> AList.delete oldest (finished s1))
                  else finished s1)
      in s1\<lparr>finished := AList.update i \<lparr>fu_at = now, fu_report = report, fu_entries = entries\<rparr> kept\<rparr>)"

definition finished_report :: "rstr \<Rightarrow> nat \<Rightarrow> sessions \<Rightarrow> finish_report option \<times> sessions" where
  "finished_report i now s =
     (let s1 = prune_finished now s in (map_option fu_report (map_of (finished s1) i), s1))"

definition finished_entries :: "rstr \<Rightarrow> nat \<Rightarrow> sessions \<Rightarrow> entry_info list option \<times> sessions" where
  "finished_entries i now s =
     (let s1 = prune_finished now s in (map_option fu_entries (map_of (finished s1) i), s1))"

section \<open>Gauges, live view and the idle sweep\<close>

definition bytes_in_flight :: "sessions \<Rightarrow> nat" where
  "bytes_in_flight s = sum_list (map (\<lambda>(_, h). act_received (activities s (sh_activity h))) (smap s))"

definition total :: "sessions \<Rightarrow> nat" where
  "total s = length (smap s)"

definition push_total :: "sessions \<Rightarrow> nat" where
  "push_total s = length (filter (\<lambda>(_, h). is_push (sh_kind h)) (smap s))"

definition set_received :: "rstr \<Rightarrow> nat \<Rightarrow> sessions \<Rightarrow> sessions" where
  "set_received i bytes s =
     (case map_of (smap s) i of
        None \<Rightarrow> s
      | Some h \<Rightarrow> set_activity (sh_activity h)
                   (\<lambda>a. a\<lparr>act_received := max (act_received a) bytes\<rparr>) s)"

definition seed_resumed :: "rstr \<Rightarrow> nat \<Rightarrow> nat \<Rightarrow> sessions \<Rightarrow> sessions" where
  "seed_resumed i started received s =
     (case map_of (smap s) i of
        None \<Rightarrow> s
      | Some h \<Rightarrow>
          set_activity (sh_activity h) (\<lambda>a. a\<lparr>act_received := received\<rparr>)
            (s\<lparr>smap := AList.update i (h\<lparr>sh_started_at := started\<rparr>) (smap s)\<rparr>))"

record active_transfer =
  at_id :: rstr
  at_link_id :: rstr
  at_transport :: rstr
  at_received :: nat
  at_total :: nat
  at_started_at :: nat

text \<open>\<open>hash_token\<close> is the SHA-256 of an id; \<open>sort_by_key(Reverse(started_at))\<close> is a stable
  sort by descending start.\<close>

definition active_transfers :: "(rstr \<Rightarrow> rstr) \<Rightarrow> rstr \<Rightarrow> sessions \<Rightarrow> active_transfer list" where
  "active_transfers hash_token t s =
     rev (sort_key at_started_at (rev
       (map (\<lambda>(i, h). \<lparr>at_id = hash_token i, at_link_id = sh_link_id h,
                 at_transport = (if is_push (sh_kind h) then lit ''push'' else lit ''http''),
                 at_received = act_received (activities s (sh_activity h)),
                 at_total = sh_reserved_bytes h, at_started_at = sh_started_at h\<rparr>)
         (filter (\<lambda>(_, h). sh_tenant h = t) (smap s)))))"

definition active_for_link :: "rstr \<Rightarrow> sessions \<Rightarrow> nat" where
  "active_for_link l s = length (filter (\<lambda>(_, h). sh_link_id h = l) (smap s))"

definition handle_live :: "nat \<Rightarrow> nat \<Rightarrow> sessions \<Rightarrow> session_handle \<Rightarrow> bool" where
  "handle_live idle_secs now s h \<longleftrightarrow>
     in_flight (activities s (sh_activity h)) > 0
     \<or> (now - last_active (activities s (sh_activity h))) div nanos_per_sec < idle_secs"

definition sweep_keeps :: "nat \<Rightarrow> nat \<Rightarrow> sessions \<Rightarrow> session_handle \<Rightarrow> bool" where
  "sweep_keeps idle_secs now s h \<longleftrightarrow>
     handle_live idle_secs now s h
     \<or> (case sh_kind h of Http \<Rightarrow> False | Push c \<Rightarrow> connected (flags s (flags_at c)))"

definition sweep_cancels :: "nat \<Rightarrow> nat \<Rightarrow> sessions \<Rightarrow> push_control list" where
  "sweep_cancels idle_secs now s =
     List.map_filter (\<lambda>(_, h). if handle_live idle_secs now s h then None
                          else case sh_kind h of
                                 Http \<Rightarrow> None
                               | Push c \<Rightarrow> if connected (flags s (flags_at c)) then Some c else None)
       (smap s)"

definition sweep :: "nat \<Rightarrow> nat \<Rightarrow> sessions \<Rightarrow> sessions" where
  "sweep idle_secs now s =
     fold cancel (sweep_cancels idle_secs now s)
       (s\<lparr>smap := filter (\<lambda>(_, h). sweep_keeps idle_secs now s h) (smap s)\<rparr>)"

section \<open>The invariant of the registry\<close>

text \<open>Sessions: distinct ids, each handle its own allocated activity, one session per resume key,
  and no HTTP session once the checkpoint has taken them.\<close>

definition smap_ok :: "sessions \<Rightarrow> bool" where
  "smap_ok s \<longleftrightarrow>
     hm_ok (smap s)
     \<and> (\<forall>i h. (i, h) \<in> set (smap s) \<longrightarrow> sh_activity h < next_activity s)
     \<and> (\<forall>i h j g. (i, h) \<in> set (smap s) \<longrightarrow> (j, g) \<in> set (smap s) \<longrightarrow>
          sh_activity h = sh_activity g \<longrightarrow> i = j)
     \<and> (\<forall>i h j g k. (i, h) \<in> set (smap s) \<longrightarrow> (j, g) \<in> set (smap s) \<longrightarrow>
          push_key_of (sh_kind h) = Some k \<longrightarrow> push_key_of (sh_kind g) = Some k \<longrightarrow> i = j)
     \<and> (commands_closed s \<longrightarrow> (\<forall>i h. (i, h) \<in> set (smap s) \<longrightarrow> is_push (sh_kind h)))"

definition finished_ok :: "sessions \<Rightarrow> bool" where
  "finished_ok s \<longleftrightarrow> hm_ok (finished s) \<and> length (finished s) \<le> FINISHED_CAP"

definition outbound_ok :: "sessions \<Rightarrow> bool" where
  "outbound_ok s \<longleftrightarrow> hm_ok (outbound s) \<and> [] \<notin> hm_keys (outbound s) \<and> [] \<notin> pinned s"

definition reg_ok :: "sessions \<Rightarrow> bool" where
  "reg_ok s \<longleftrightarrow> smap_ok s \<and> finished_ok s \<and> outbound_ok s"

named_theorems reg_defs \<open>registry operations that leave the session map alone\<close>

lemmas [reg_defs] = try_admit_def drop_admission_guard_def close_admission_def drop_tenant_pin_def
  pin_link_for_delete_def try_pin_link_def unpin_link_def drop_link_pin_def new_control_def
  resumable_control_def set_flags_def park_def connect_def cancel_def abort_def set_activity_def
  mark_active_def push_lease_def drop_lease_def touch_def abort_push_def set_received_def

lemma smap_ok_cong:
  "smap s' = smap s \<Longrightarrow> next_activity s' = next_activity s \<Longrightarrow> commands_closed s' = commands_closed s \<Longrightarrow>
   smap_ok s' = smap_ok s"
  by (simp add: smap_ok_def)

lemma finished_ok_cong: "finished s' = finished s \<Longrightarrow> finished_ok s' = finished_ok s"
  by (simp add: finished_ok_def)

lemma outbound_ok_cong: "outbound s' = outbound s \<Longrightarrow> pinned s' = pinned s \<Longrightarrow> outbound_ok s' = outbound_ok s"
  by (simp add: outbound_ok_def)

lemma reg_ok_cong:
  "smap s' = smap s \<Longrightarrow> next_activity s' = next_activity s \<Longrightarrow> commands_closed s' = commands_closed s \<Longrightarrow>
   finished s' = finished s \<Longrightarrow> outbound s' = outbound s \<Longrightarrow> pinned s' = pinned s \<Longrightarrow> reg_ok s' = reg_ok s"
  by (simp add: reg_ok_def cong: smap_ok_cong finished_ok_cong outbound_ok_cong)

lemma smap_okD:
  assumes "smap_ok s"
  shows smap_ok_hm: "hm_ok (smap s)"
    and smap_ok_alloc: "(i, h) \<in> set (smap s) \<Longrightarrow> sh_activity h < next_activity s"
    and smap_ok_activity: "(i, h) \<in> set (smap s) \<Longrightarrow> (j, g) \<in> set (smap s) \<Longrightarrow>
          sh_activity h = sh_activity g \<Longrightarrow> i = j"
    and smap_ok_key: "(i, h) \<in> set (smap s) \<Longrightarrow> (j, g) \<in> set (smap s) \<Longrightarrow>
          push_key_of (sh_kind h) = Some k \<Longrightarrow> push_key_of (sh_kind g) = Some k \<Longrightarrow> i = j"
    and smap_ok_closed: "commands_closed s \<Longrightarrow> (i, h) \<in> set (smap s) \<Longrightarrow> is_push (sh_kind h)"
proof -
  note c = assms [unfolded smap_ok_def]
  note c2 = c [THEN conjunct2] and c3 = c [THEN conjunct2, THEN conjunct2]
  note c4 = c3 [THEN conjunct2]
  show "hm_ok (smap s)" by (rule c [THEN conjunct1])
  show "(i, h) \<in> set (smap s) \<Longrightarrow> sh_activity h < next_activity s"
    by (rule c2 [THEN conjunct1, rule_format])
  show "(i, h) \<in> set (smap s) \<Longrightarrow> (j, g) \<in> set (smap s) \<Longrightarrow> sh_activity h = sh_activity g \<Longrightarrow> i = j"
    by (rule c3 [THEN conjunct1, rule_format])
  show "(i, h) \<in> set (smap s) \<Longrightarrow> (j, g) \<in> set (smap s) \<Longrightarrow>
          push_key_of (sh_kind h) = Some k \<Longrightarrow> push_key_of (sh_kind g) = Some k \<Longrightarrow> i = j"
    by (rule c4 [THEN conjunct1, rule_format])
  show "commands_closed s \<Longrightarrow> (i, h) \<in> set (smap s) \<Longrightarrow> is_push (sh_kind h)"
    by (rule c4 [THEN conjunct2, rule_format])
qed

lemma smap_okI:
  assumes "hm_ok (smap s)"
    and "\<And>i h. (i, h) \<in> set (smap s) \<Longrightarrow> sh_activity h < next_activity s"
    and "\<And>i h j g. (i, h) \<in> set (smap s) \<Longrightarrow> (j, g) \<in> set (smap s) \<Longrightarrow>
          sh_activity h = sh_activity g \<Longrightarrow> i = j"
    and "\<And>i h j g k. (i, h) \<in> set (smap s) \<Longrightarrow> (j, g) \<in> set (smap s) \<Longrightarrow>
          push_key_of (sh_kind h) = Some k \<Longrightarrow> push_key_of (sh_kind g) = Some k \<Longrightarrow> i = j"
    and "\<And>i h. commands_closed s \<Longrightarrow> (i, h) \<in> set (smap s) \<Longrightarrow> is_push (sh_kind h)"
  shows "smap_ok s"
  unfolding smap_ok_def
  by (intro conjI allI impI)
     (fact assms(1), erule assms(2), erule (2) assms(3), erule (3) assms(4), erule (1) assms(5))

lemma smap_ok_subset:
  assumes "smap_ok s" and "set (smap s') \<subseteq> set (smap s)" and "hm_ok (smap s')"
    and "next_activity s' = next_activity s" and "commands_closed s' = commands_closed s"
  shows "smap_ok s'"
proof -
  have sub: "\<And>i h. (i, h) \<in> set (smap s') \<Longrightarrow> (i, h) \<in> set (smap s)" using assms(2) by blast
  show ?thesis
  proof (rule smap_okI)
    show "hm_ok (smap s')" by (rule assms(3))
    fix i h j g k
    assume i: "(i, h) \<in> set (smap s')"
    show "sh_activity h < next_activity s'"
      unfolding assms(4) by (rule smap_ok_alloc [OF assms(1) sub [OF i]])
    show "is_push (sh_kind h)" if "commands_closed s'"
      using that unfolding assms(5) by (rule smap_ok_closed [OF assms(1) _ sub [OF i]])
    assume j: "(j, g) \<in> set (smap s')"
    show "i = j" if "sh_activity h = sh_activity g"
      by (rule smap_ok_activity [OF assms(1) sub [OF i] sub [OF j] that])
    show "i = j" if "push_key_of (sh_kind h) = Some k" "push_key_of (sh_kind g) = Some k"
      by (rule smap_ok_key [OF assms(1) sub [OF i] sub [OF j] that])
  qed
qed

lemma set_delete: "set (AList.delete k m) \<subseteq> set m"
  by (auto simp: AList.delete_eq)

lemma set_update: "hm_ok m \<Longrightarrow> set (AList.update k v m) = insert (k, v) {p \<in> set m. fst p \<noteq> k}"
  by (induction m) (force simp: hm_ok_def)+

lemma cancel_frame [simp]:
  "smap (cancel c s) = smap s" "finished (cancel c s) = finished s" "outbound (cancel c s) = outbound s"
  "pinned (cancel c s) = pinned s" "next_activity (cancel c s) = next_activity s"
  "commands_closed (cancel c s) = commands_closed s" "activities (cancel c s) = activities s"
  "active_admissions (cancel c s) = active_admissions s" "admission_closed (cancel c s) = admission_closed s"
  "pinned_links (cancel c s) = pinned_links s"
  by (simp_all add: cancel_def set_flags_def)

lemma fold_cancel_frame [simp]:
  "smap (fold cancel cs s) = smap s" "finished (fold cancel cs s) = finished s"
  "outbound (fold cancel cs s) = outbound s" "pinned (fold cancel cs s) = pinned s"
  "next_activity (fold cancel cs s) = next_activity s"
  "commands_closed (fold cancel cs s) = commands_closed s"
  "activities (fold cancel cs s) = activities s"
  "active_admissions (fold cancel cs s) = active_admissions s"
  "admission_closed (fold cancel cs s) = admission_closed s"
  "pinned_links (fold cancel cs s) = pinned_links s"
  by (induction cs arbitrary: s) simp_all

lemma reg_ok_new: "reg_ok new_sessions"
  by (simp add: reg_ok_def smap_ok_def finished_ok_def outbound_ok_def new_sessions_def hm_keys_def)

lemma reg_ok_try_pin_tenant: "try_pin_tenant t s = Some s' \<Longrightarrow> reg_ok s \<Longrightarrow> reg_ok s'"
  by (auto simp: try_pin_tenant_def reg_ok_def smap_ok_def finished_ok_def outbound_ok_def split: if_splits)

lemma reg_ok_drop_tenant_pin: "reg_ok s \<Longrightarrow> reg_ok (drop_tenant_pin t s)"
  by (auto simp: drop_tenant_pin_def reg_ok_def smap_ok_def finished_ok_def outbound_ok_def)

lemma hm_keys_update [simp]: "hm_keys (AList.update k v m) = insert k (hm_keys m)"
  by (auto simp: hm_keys_def dom_update)

lemma hm_keys_delete [simp]: "hm_keys (AList.delete k m) = hm_keys m - {k}"
  by (auto simp: hm_keys_def AList.delete_eq)

lemma reg_ok_outbound:
  "reg_ok s \<Longrightarrow> t \<noteq> [] \<Longrightarrow> reg_ok (s\<lparr>outbound := AList.update t n (outbound s)\<rparr>)"
  "reg_ok s \<Longrightarrow> reg_ok (s\<lparr>outbound := AList.delete t (outbound s)\<rparr>)"
  by (auto simp: reg_ok_def smap_ok_def finished_ok_def outbound_ok_def hmap_simps)

lemma reg_ok_try_begin_outbound: "try_begin_outbound t s = Some (g, s') \<Longrightarrow> reg_ok s \<Longrightarrow> reg_ok s'"
  by (auto simp: try_begin_outbound_def reg_ok_outbound split: if_splits)

lemma reg_ok_drop_outbound: "reg_ok s \<Longrightarrow> reg_ok (drop_outbound g s)"
proof -
  assume ok: "reg_ok s"
  show ?thesis
  proof (cases "\<exists>t n. g = Some t \<and> map_of (outbound s) t = Some n")
    case True
    then obtain t n where t: "g = Some t" "map_of (outbound s) t = Some n" by blast
    then have "t \<in> hm_keys (outbound s)" by (force simp: hm_keys_def dest: map_of_SomeD)
    with ok have "t \<noteq> []" by (auto simp: reg_ok_def outbound_ok_def)
    with ok t show ?thesis by (simp add: drop_outbound_def reg_ok_outbound)
  next
    case False
    then have "drop_outbound g s = s" by (auto simp: drop_outbound_def split: option.splits)
    with ok show ?thesis by simp
  qed
qed

subsection \<open>Insertion\<close>

lemma insert_admitted_inner_Inr:
  assumes "insert_admitted_inner a sender rb reserved unix now s = Inr s'"
  obtains received retained m where
    "(case sa_max_total_bytes a of None \<Rightarrow> Inr (0, []) | Some _ \<Rightarrow> rb) = Inr (received, retained)"
    "\<not> commands_closed s" "admission_closed s \<Longrightarrow> reserved"
    "sa_tenant a = [] \<or> sa_tenant a \<notin> pinned s" "sa_link_id a \<notin> pinned_links s"
    "m = (case replaced_session s (sa_kind a) of None \<Rightarrow> smap s | Some (old_id, _) \<Rightarrow> AList.delete old_id (smap s))"
    "s' = s\<lparr>smap := AList.update (sa_id a) (fresh_handle a sender unix now (next_activity s)) m,
            activities := (activities s)(next_activity s := \<lparr>in_flight = 0, last_active = now, act_received = 0\<rparr>),
            next_activity := next_activity s + 1\<rparr>"
  using assms
  by (auto simp: insert_admitted_inner_def Let_def split: sum.splits prod.splits if_splits option.splits)

lemma replaced_session_key:
  assumes "smap_ok s" and k: "push_key_of kind = Some k"
    and m: "m = (case replaced_session s kind of None \<Rightarrow> smap s | Some (old_id, _) \<Rightarrow> AList.delete old_id (smap s))"
  shows "\<forall>i h. (i, h) \<in> set m \<longrightarrow> push_key_of (sh_kind h) \<noteq> Some k"
proof (cases "find (\<lambda>(_, h). push_key_of (sh_kind h) = Some k) (smap s)")
  case None
  then have "replaced_session s kind = None"
    using k by (auto simp: replaced_session_def push_key_of_def split: session_kind.splits)
  with None m show ?thesis by (auto simp: find_None_iff)
next
  case (Some p)
  obtain i h where p: "p = (i, h)" by force
  from Some p have ih: "(i, h) \<in> set (smap s)" "push_key_of (sh_kind h) = Some k"
    using find_SomeD by fastforce+
  then obtain old where "sh_kind h = Push old" by (auto simp: push_key_of_def split: session_kind.splits)
  with Some p k have "replaced_session s kind = Some (i, parked (flags s (flags_at old)))"
    by (auto simp: replaced_session_def push_key_of_def split: session_kind.splits)
  with m have "m = AList.delete i (smap s)" by simp
  then have "set m \<subseteq> set (smap s)" "\<forall>h. (i, h) \<notin> set m"
    by (auto simp: AList.delete_eq)
  then show ?thesis using smap_ok_key [OF assms(1) ih(1) _ ih(2)] by blast
qed

lemma smap_ok_insert:
  assumes "insert_admitted_inner a sender rb reserved unix now s = Inr s'" and ok: "smap_ok s"
  shows "smap_ok s'"
proof -
  from assms(1) obtain m where nc: "\<not> commands_closed s"
    and m: "m = (case replaced_session s (sa_kind a) of None \<Rightarrow> smap s | Some (old_id, _) \<Rightarrow> AList.delete old_id (smap s))"
    and s': "s' = s\<lparr>smap := AList.update (sa_id a) (fresh_handle a sender unix now (next_activity s)) m,
            activities := (activities s)(next_activity s := \<lparr>in_flight = 0, last_active = now, act_received = 0\<rparr>),
            next_activity := next_activity s + 1\<rparr>"
    by (rule insert_admitted_inner_Inr) (rule that)
  have sub: "set m \<subseteq> set (smap s)" unfolding m using set_delete by (force split: option.splits)
  have hm: "hm_ok m" using ok unfolding m smap_ok_def by (auto simp: hmap_simps split: option.splits)
  let ?n = "(sa_id a, fresh_handle a sender unix now (next_activity s))"
  have set': "set (smap s') = insert ?n {p \<in> set m. fst p \<noteq> sa_id a}"
    unfolding s' by (simp add: set_update [OF hm])
  have keys: "push_key_of (sh_kind h) \<noteq> Some k" if "push_key_of (sa_kind a) = Some k" "(i, h) \<in> set m" for i h k
    using replaced_session_key [OF ok that(1) m] that(2) by blast
  have cases': "(i, h) = ?n \<or> (i, h) \<in> set (smap s) \<and> (i, h) \<in> set m" if "(i, h) \<in> set (smap s')" for i h
    using that sub unfolding set' by blast
  show ?thesis
  proof (rule smap_okI)
    show "hm_ok (smap s')" unfolding s' by (simp add: hm hm_ok_update)
    fix i h j g k
    assume i: "(i, h) \<in> set (smap s')"
    show "sh_activity h < next_activity s'"
      using cases' [OF i] smap_ok_alloc [OF ok] by (auto simp: s' fresh_handle_def less_SucI)
    show "is_push (sh_kind h)" if "commands_closed s'" using that nc by (simp add: s')
    assume j: "(j, g) \<in> set (smap s')"
    show "i = j" if "sh_activity h = sh_activity g"
      using that cases' [OF i] cases' [OF j] smap_ok_alloc [OF ok, of i h] smap_ok_alloc [OF ok, of j g]
        smap_ok_activity [OF ok, of i h j g]
      by (auto simp: fresh_handle_def)
    show "i = j" if "push_key_of (sh_kind h) = Some k" "push_key_of (sh_kind g) = Some k"
      using that cases' [OF i] cases' [OF j] keys smap_ok_key [OF ok]
      by (auto simp: fresh_handle_def)
  qed
qed

lemma reg_ok_insert:
  assumes "insert_admitted_inner a sender rb reserved unix now s = Inr s'" and "reg_ok s"
  shows "reg_ok s'"
proof -
  have "smap_ok s'" using smap_ok_insert [OF assms(1)] assms(2) by (simp add: reg_ok_def)
  moreover from assms(1) have "finished s' = finished s" "outbound s' = outbound s" "pinned s' = pinned s"
    by (auto elim: insert_admitted_inner_Inr)
  ultimately show ?thesis
    using assms(2) by (simp add: reg_ok_def finished_ok_def outbound_ok_def)
qed

subsection \<open>The other operations\<close>

lemma reg_ok_shrink:
  assumes "reg_ok s" and "set m \<subseteq> set (smap s)" and "hm_ok m"
  shows "reg_ok (s\<lparr>smap := m\<rparr>)"
  using assms smap_ok_subset [of s "s\<lparr>smap := m\<rparr>"]
  by (simp add: reg_ok_def finished_ok_def outbound_ok_def)

lemma reg_ok_filter: "reg_ok s \<Longrightarrow> reg_ok (s\<lparr>smap := filter P (smap s)\<rparr>)"
  by (rule reg_ok_shrink) (auto simp: reg_ok_def dest: smap_ok_hm intro: hm_ok_filter)

lemma reg_ok_remove: "reg_ok s \<Longrightarrow> reg_ok (snd (remove_session i s))"
  unfolding remove_session_def snd_conv
  by (rule reg_ok_shrink [OF _ set_delete]) (auto simp: reg_ok_def dest: smap_ok_hm intro: hm_ok_delete)

lemma reg_ok_take_http: "reg_ok s \<Longrightarrow> reg_ok (snd (take_http s))"
proof -
  assume ok: "reg_ok s"
  let ?m = "filter (\<lambda>(_, h). is_push (sh_kind h)) (smap s)"
  have "smap_ok (s\<lparr>smap := ?m\<rparr>)" using reg_ok_filter [OF ok] by (simp add: reg_ok_def)
  then have "smap_ok (s\<lparr>commands_closed := True, smap := ?m\<rparr>)"
    by (auto intro!: smap_okI dest: smap_okD)
  with ok show ?thesis by (simp add: reg_ok_def take_http_def finished_ok_def outbound_ok_def)
qed

lemma finished_ok_prune: "finished_ok s \<Longrightarrow> finished_ok (prune_finished now s)"
  by (auto simp: finished_ok_def prune_finished_def hm_ok_filter intro: le_trans [OF length_filter_le])

lemma prune_frame [simp]:
  "smap (prune_finished now s) = smap s" "outbound (prune_finished now s) = outbound s"
  "pinned (prune_finished now s) = pinned s" "next_activity (prune_finished now s) = next_activity s"
  "commands_closed (prune_finished now s) = commands_closed s"
  "activities (prune_finished now s) = activities s"
  "active_admissions (prune_finished now s) = active_admissions s"
  "admission_closed (prune_finished now s) = admission_closed s"
  by (simp_all add: prune_finished_def)

lemma reg_ok_prune: "reg_ok s \<Longrightarrow> reg_ok (prune_finished now s)"
  by (auto simp: reg_ok_def finished_ok_prune outbound_ok_def intro: smap_ok_cong [THEN iffD2])

lemma remember_finished_length:
  assumes "finished_ok s"
  shows "finished_ok (remember_finished i report now s)"
proof -
  let ?s = "prune_finished now s"
  have hm: "hm_ok (finished ?s)" and le: "length (finished ?s) \<le> FINISHED_CAP"
    using finished_ok_prune [OF assms] by (simp_all add: finished_ok_def)
  define kept where "kept = (if length (finished ?s) \<ge> FINISHED_CAP
      then (case min_by_key (\<lambda>(_, f). fu_at f) (finished ?s) of
              None \<Rightarrow> finished ?s | Some (oldest, _) \<Rightarrow> AList.delete oldest (finished ?s))
      else finished ?s)"
  have "hm_ok kept" using hm by (auto simp: kept_def hmap_simps split: option.splits)
  moreover have "length kept < FINISHED_CAP"
  proof (cases "length (finished ?s) \<ge> FINISHED_CAP")
    case True
    then have "finished ?s \<noteq> []" by (auto simp: FINISHED_CAP_def)
    then obtain old f where m: "min_by_key (\<lambda>(_, f). fu_at f) (finished ?s) = Some (old, f)"
      by (metis min_by_key_None option.exhaust prod.exhaust)
    then have "contains_key old (finished ?s)"
      by (force simp: contains_key_iff dest: min_by_key_in)
    then have "length (AList.delete old (finished ?s)) < length (finished ?s)"
      by (rule length_delete_less)
    with True m le show ?thesis by (simp add: kept_def)
  next
    case False
    then show ?thesis by (simp add: kept_def)
  qed
  moreover have "finished (remember_finished i report now s) =
      AList.update i \<lparr>fu_at = now, fu_report = report,
        fu_entries = map finished_entry (List.enumerate 0 (rep_files report))\<rparr> kept"
    by (simp add: remember_finished_def kept_def Let_def)
  ultimately show ?thesis
    by (simp add: finished_ok_def hm_ok_update length_update)
qed

lemma remember_frame [simp]:
  "smap (remember_finished i r now s) = smap s" "outbound (remember_finished i r now s) = outbound s"
  "pinned (remember_finished i r now s) = pinned s"
  "next_activity (remember_finished i r now s) = next_activity s"
  "commands_closed (remember_finished i r now s) = commands_closed s"
  "activities (remember_finished i r now s) = activities s"
  "active_admissions (remember_finished i r now s) = active_admissions s"
  "admission_closed (remember_finished i r now s) = admission_closed s"
  by (simp_all add: remember_finished_def Let_def)

lemma reg_ok_remember: "reg_ok s \<Longrightarrow> reg_ok (remember_finished i report now s)"
  using remember_finished_length [of s i report now]
  by (auto simp: reg_ok_def outbound_ok_def intro: smap_ok_cong [THEN iffD2])

lemma reg_ok_set_activity [simp]: "reg_ok (set_activity a f s) = reg_ok s"
  by (rule reg_ok_cong) (simp_all add: set_activity_def)

lemma reg_ok_set_flags [simp]: "reg_ok (set_flags c f s) = reg_ok s"
  by (rule reg_ok_cong) (simp_all add: set_flags_def)

lemma reg_ok_frames [simp]:
  "reg_ok (s\<lparr>active_admissions := n\<rparr>) = reg_ok s"
  "reg_ok (s\<lparr>admission_closed := b\<rparr>) = reg_ok s"
  "reg_ok (s\<lparr>pinned_links := L\<rparr>) = reg_ok s"
  "reg_ok (s\<lparr>flags := F, next_flags := n\<rparr>) = reg_ok s"
  "reg_ok (s\<lparr>activities := A\<rparr>) = reg_ok s"
  by (rule reg_ok_cong; simp)+

lemma reg_ok_seed_resumed: "reg_ok s \<Longrightarrow> reg_ok (seed_resumed i started received s)"
proof -
  assume ok: "reg_ok s"
  show ?thesis
  proof (cases "map_of (smap s) i")
    case None
    with ok show ?thesis by (simp add: seed_resumed_def)
  next
    case (Some h)
    let ?m = "AList.update i (h\<lparr>sh_started_at := started\<rparr>) (smap s)"
    from ok have sm: "smap_ok s" and hm: "hm_ok (smap s)" by (auto simp: reg_ok_def dest: smap_ok_hm)
    have h: "(i, h) \<in> set (smap s)" using Some by (rule map_of_SomeD)
    have orig: "\<exists>h'. (j, h') \<in> set (smap s) \<and> sh_activity g = sh_activity h' \<and> sh_kind g = sh_kind h'"
      if "(j, g) \<in> set ?m" for j g
      using that h by (auto simp: set_update [OF hm])
    have "smap_ok (s\<lparr>smap := ?m\<rparr>)"
    proof (rule smap_okI)
      show "hm_ok (smap (s\<lparr>smap := ?m\<rparr>))" using hm by (simp add: hm_ok_update)
    qed (use orig smap_okD [OF sm] in \<open>simp, metis\<close>)+
    with ok show ?thesis
      using Some by (simp add: seed_resumed_def reg_ok_def finished_ok_def outbound_ok_def
          set_activity_def smap_ok_def)
  qed
qed

lemma reg_ok_fold_cancel [simp]: "reg_ok (fold cancel cs s) = reg_ok s"
  by (rule reg_ok_cong) simp_all

lemma reg_ok_sweep: "reg_ok s \<Longrightarrow> reg_ok (sweep idle now s)"
  by (simp add: sweep_def reg_ok_filter)

lemma map_of_sweep:
  "hm_ok (smap s) \<Longrightarrow> map_of (smap (sweep idle now s)) i =
     (case map_of (smap s) i of None \<Rightarrow> None | Some h \<Rightarrow> if sweep_keeps idle now s h then Some h else None)"
  by (simp add: sweep_def map_of_filter_ok split: option.splits)

section \<open>Limits and quotas of an insertion\<close>

lemma length_filter_update_le:
  "length (filter P (AList.update k v m)) \<le> Suc (length (filter P m))"
  "\<not> P (k, v) \<Longrightarrow> length (filter P (AList.update k v m)) \<le> length (filter P m)"
  by (induction m) auto

lemma length_filter_update_same:
  "map_of m k = Some w \<Longrightarrow> P (k, v) = P (k, w) \<Longrightarrow>
   length (filter P (AList.update k v m)) = length (filter P m)"
  by (induction m) auto

lemma length_filter_delete_le: "length (filter P (AList.delete k m)) \<le> length (filter P m)"
  by (induction m) (auto simp: AList.delete_eq)

lemma sum_filter_update_le:
  fixes f :: "'k \<times> 'v \<Rightarrow> nat"
  shows "sum_list (map f (filter P (AList.update k v m))) \<le> f (k, v) + sum_list (map f (filter P m))"
  by (induction m) auto

text \<open>The map an insertion updates: the old one less the replaced session.\<close>

definition replaced_map :: "sessions \<Rightarrow> session_kind \<Rightarrow> (rstr, session_handle) hmap" where
  "replaced_map s kind =
     (case replaced_session s kind of None \<Rightarrow> smap s | Some (old_id, _) \<Rightarrow> AList.delete old_id (smap s))"

lemma other_handles_replaced:
  "other_handles s (map_option fst (replaced_session s kind)) = map snd (replaced_map s kind)"
proof (cases "replaced_session s kind")
  case None
  then show ?thesis by (simp add: other_handles_def replaced_map_def case_prod_unfold)
next
  case (Some p)
  obtain i b where "p = (i, b)" by force
  with Some show ?thesis
    by (auto simp: other_handles_def replaced_map_def AList.delete_eq case_prod_unfold
        intro: arg_cong [where f = "map snd"] filter_cong)
qed

lemma insert_checks:
  assumes "insert_admitted_inner a sender rb reserved unix now s = Inr s'"
  obtains received retained others where
    "(case sa_max_total_bytes a of None \<Rightarrow> Inr (0, []) | Some _ \<Rightarrow> rb) = Inr (received, retained)"
    "others = map snd (replaced_map s (sa_kind a))"
    "length others < sa_max_sessions a"
    "length (filter (\<lambda>h. sh_link_id h = sa_link_id a) others) < sa_max_link_sessions a"
    "\<And>m. sa_max_tenant_sessions a = Some m \<Longrightarrow> length (filter (\<lambda>h. sh_tenant h = sa_tenant a) others) < m"
    "\<And>q. sa_max_total_bytes a = Some q \<Longrightarrow> \<not> resuming a retained \<Longrightarrow>
       sa_reserved_bytes a \<le> q - received - already_reserved (sa_tenant a) others - retained_bytes s others retained"
    "smap s' = AList.update (sa_id a) (fresh_handle a sender unix now (next_activity s)) (replaced_map s (sa_kind a))"
proof -
  let ?o = "other_handles s (map_option fst (replaced_session s (sa_kind a)))"
  have o: "?o = map snd (replaced_map s (sa_kind a))" by (rule other_handles_replaced)
  obtain received retained where r:
    "(case sa_max_total_bytes a of None \<Rightarrow> Inr (0, []) | Some _ \<Rightarrow> rb) = Inr (received, retained)"
    using assms by (auto simp: insert_admitted_inner_def split: sum.splits)
  have "length ?o < sa_max_sessions a
    \<and> length (filter (\<lambda>h. sh_link_id h = sa_link_id a) ?o) < sa_max_link_sessions a
    \<and> (\<forall>m. sa_max_tenant_sessions a = Some m \<longrightarrow> length (filter (\<lambda>h. sh_tenant h = sa_tenant a) ?o) < m)
    \<and> (\<forall>q. sa_max_total_bytes a = Some q \<longrightarrow> \<not> resuming a retained \<longrightarrow>
       sa_reserved_bytes a \<le> q - received - already_reserved (sa_tenant a) ?o - retained_bytes s ?o retained)
    \<and> smap s' = AList.update (sa_id a) (fresh_handle a sender unix now (next_activity s)) (replaced_map s (sa_kind a))"
    using assms r
    by (simp add: insert_admitted_inner_def Let_def replaced_map_def not_le split: if_splits option.splits)
       (auto split: option.splits if_splits prod.splits)
  then show thesis using that [OF r o] unfolding o by blast
qed

lemma foldl_sat_add_le: "foldl sat_add n xs < u64_max \<Longrightarrow> foldl sat_add n xs = n + sum_list xs"
proof (induction xs arbitrary: n)
  case (Cons x xs)
  have "sat_add n x \<le> foldl sat_add (sat_add n x) xs" for xs
    by (induction xs rule: rev_induct) (auto simp: sat_add_def)
  with Cons.prems have "sat_add n x < u64_max" by (metis foldl_Cons le_less_trans)
  then have "sat_add n x = n + x" by (auto simp: sat_add_def)
  with Cons.IH [of "n + x"] Cons.prems show ?case by simp
qed simp

lemma sum_saturating_exact: "sum_saturating xs < u64_max \<Longrightarrow> sum_saturating xs = sum_list xs"
  using foldl_sat_add_le [of 0 xs] by (simp add: sum_saturating_def)

definition tenant_reserved :: "rstr \<Rightarrow> sessions \<Rightarrow> nat" where
  "tenant_reserved t s = sum_list (map (\<lambda>(_, h). sh_reserved_bytes h) (filter (\<lambda>(_, h). sh_tenant h = t) (smap s)))"

lemma tenant_reserved_insert:
  assumes "smap s' = AList.update (sa_id a) (fresh_handle a sender unix now n) m"
  shows "tenant_reserved (sa_tenant a) s' \<le> sa_reserved_bytes a
         + sum_list (map sh_reserved_bytes (filter (\<lambda>h. sh_tenant h = sa_tenant a) (map snd m)))"
proof -
  have "sum_list (map sh_reserved_bytes (filter (\<lambda>h. sh_tenant h = sa_tenant a) (map snd m)))
      = sum_list (map (\<lambda>(_, h). sh_reserved_bytes h) (filter (\<lambda>(_, h). sh_tenant h = sa_tenant a) m))"
    by (simp add: filter_map comp_def case_prod_unfold)
  then show ?thesis
    using sum_filter_update_le [of "\<lambda>(_, h). sh_reserved_bytes h" "\<lambda>(_, h). sh_tenant h = sa_tenant a"
        "sa_id a" "fresh_handle a sender unix now n" m]
    by (simp add: tenant_reserved_def assms fresh_handle_def)
qed

end
