(* ===== verification/RegistrySystem.thy ===== *)
theory RegistrySystem
  imports Registry
begin

text \<open>
  The registry together with the guards handed out: a step relation over every method of
  \<open>Sessions\<close> and every guard's \<open>Drop\<close>, its invariant, and what the guards promise
  (leases keep a session from the sweep, pins drain a tenant, shutdown drains admission).

  A guard is dropped at most once and only by its holder, so the system state lists the
  guards alive: \<open>held_admissions\<close> (\<open>AdmissionGuard\<close>), \<open>held_pins\<close> (\<open>TenantPin\<close>),
  \<open>held_outbounds\<close> (\<open>OutboundOperation\<close> and \<open>OwnedOutboundOperation\<close>) and
  \<open>held_leases\<close> (\<open>SessionLease\<close>).
\<close>

section \<open>The step relation\<close>

record reg_sys =
  reg :: sessions
  held_admissions :: nat
  held_pins :: "rstr list"
  held_outbounds :: "rstr option list"
  held_leases :: "nat list"

definition reg_start :: "reg_sys \<Rightarrow> bool" where
  "reg_start S \<longleftrightarrow> S = \<lparr>reg = new_sessions, held_admissions = 0, held_pins = [], held_outbounds = [], held_leases = []\<rparr>"

text \<open>Operations that hand out and take back no guard.\<close>

inductive plain_op :: "sessions \<Rightarrow> sessions \<Rightarrow> bool" where
  op_close: "plain_op s (snd (close_admission s))"
| op_pin_link: "plain_op s (snd (pin_link_for_delete l s))"
| op_unpin_link: "plain_op s (unpin_link l s)"
| op_drop_link_pin: "plain_op s (drop_link_pin l s)"
| op_new_control: "plain_op s (snd (new_control s))"
| op_resumable: "plain_op s (snd (resumable_control key lock s))"
| op_park: "plain_op s (snd (park c s))"
| op_connect: "plain_op s (snd (connect c s))"
| op_cancel: "plain_op s (cancel c s)"
| op_abort: "plain_op s (abort c s)"
| op_insert: "insert_admitted a sender rb unix now s = Inr s' \<Longrightarrow> plain_op s s'"
| op_take_http: "plain_op s (snd (take_http s))"
| op_mark_active: "plain_op s (snd (mark_active i now s))"
| op_cancel_link: "plain_op s (cancel_pushes_for_link l s)"
| op_abort_push: "plain_op s (snd (abort_push i s))"
| op_remove: "plain_op s (snd (remove_session i s))"
| op_remember: "plain_op s (remember_finished i report now s)"
| op_finished_report: "plain_op s (snd (finished_report i now s))"
| op_finished_entries: "plain_op s (snd (finished_entries i now s))"
| op_set_received: "plain_op s (set_received i bytes s)"
| op_seed: "plain_op s (seed_resumed i started bytes s)"
| op_sweep: "plain_op s (sweep idle now s)"

inductive reg_step :: "reg_sys \<Rightarrow> reg_sys \<Rightarrow> bool" where
  plain: "plain_op (reg S) r \<Longrightarrow> reg_step S (S\<lparr>reg := r\<rparr>)"
| admit: "try_admit (reg S) = Some r \<Longrightarrow>
    reg_step S (S\<lparr>reg := r, held_admissions := held_admissions S + 1\<rparr>)"
| drop_admit: "held_admissions S > 0 \<Longrightarrow>
    reg_step S (S\<lparr>reg := drop_admission_guard (reg S), held_admissions := held_admissions S - 1\<rparr>)"
| insert_guarded: "held_admissions S > 0 \<Longrightarrow> insert_admitted_with_guard a sender rb unix now (reg S) = Inr r \<Longrightarrow>
    reg_step S (S\<lparr>reg := r\<rparr>)"
| insert_refused: "held_admissions S > 0 \<Longrightarrow> insert_admitted_with_guard a sender rb unix now (reg S) = Inl (e, r) \<Longrightarrow>
    reg_step S (S\<lparr>reg := r, held_admissions := held_admissions S - 1\<rparr>)"
| pin: "try_pin_tenant t (reg S) = Some r \<Longrightarrow>
    reg_step S (S\<lparr>reg := r, held_pins := t # held_pins S\<rparr>)"
| unpin: "t \<in> set (held_pins S) \<Longrightarrow>
    reg_step S (S\<lparr>reg := drop_tenant_pin t (reg S), held_pins := remove1 t (held_pins S)\<rparr>)"
| begin_outbound: "try_begin_outbound t (reg S) = Some (g, r) \<Longrightarrow>
    reg_step S (S\<lparr>reg := r, held_outbounds := g # held_outbounds S\<rparr>)"
| end_outbound: "g \<in> set (held_outbounds S) \<Longrightarrow>
    reg_step S (S\<lparr>reg := drop_outbound g (reg S), held_outbounds := remove1 g (held_outbounds S)\<rparr>)"
| lease_push: "push_lease i (reg S) = Some (a, r) \<Longrightarrow>
    reg_step S (S\<lparr>reg := r, held_leases := a # held_leases S\<rparr>)"
| lease_touch: "touch i now (reg S) = Inr ((sender, a), r) \<Longrightarrow>
    reg_step S (S\<lparr>reg := r, held_leases := a # held_leases S\<rparr>)"
| end_lease: "a \<in> set (held_leases S) \<Longrightarrow>
    reg_step S (S\<lparr>reg := drop_lease a now (reg S), held_leases := remove1 a (held_leases S)\<rparr>)"

section \<open>The invariant\<close>

text \<open>What a guard's holder may rely on: the counters of the registry are the numbers of guards
  alive, so no decrement of a \<open>Drop\<close> ever wraps or saturates.\<close>

definition guards_ok :: "reg_sys \<Rightarrow> bool" where
  "guards_ok S \<longleftrightarrow>
     active_admissions (reg S) = held_admissions S
     \<and> distinct (held_pins S) \<and> set (held_pins S) = pinned (reg S)
     \<and> (\<forall>t. map_of (outbound (reg S)) t =
             (if t \<noteq> [] \<and> Some t \<in> set (held_outbounds S) then Some (count_list (held_outbounds S) (Some t)) else None))
     \<and> (\<forall>a. in_flight (activities (reg S) a) = count_list (held_leases S) a)
     \<and> (\<forall>a \<in> set (held_leases S). a < next_activity (reg S))"

definition sys_ok :: "reg_sys \<Rightarrow> bool" where
  "sys_ok S \<longleftrightarrow> reg_ok (reg S) \<and> guards_ok S"

text \<open>A plain operation leaves the counters alone, but for fresh activities.\<close>

definition same_guards :: "sessions \<Rightarrow> sessions \<Rightarrow> bool" where
  "same_guards s s' \<longleftrightarrow>
     active_admissions s' = active_admissions s \<and> pinned s' = pinned s \<and> outbound s' = outbound s
     \<and> next_activity s \<le> next_activity s'
     \<and> (\<forall>a. a < next_activity s \<longrightarrow> in_flight (activities s' a) = in_flight (activities s a))
     \<and> (\<forall>a. next_activity s \<le> a \<longrightarrow> in_flight (activities s a) = 0 \<longrightarrow> in_flight (activities s' a) = 0)"

lemma insert_same_guards:
  assumes "insert_admitted_inner a sender rb reserved unix now s = Inr s'"
  shows "same_guards s s'"
  using assms by (auto elim!: insert_admitted_inner_Inr simp: same_guards_def)

lemma fold_cancel_same: "same_guards s (fold cancel cs s)"
  by (simp add: same_guards_def)

lemma plain_op_same: "plain_op s s' \<Longrightarrow> reg_ok s \<Longrightarrow> same_guards s s'"
proof (induction rule: plain_op.induct)
  case (op_insert a sender rb unix now s s')
  then show ?case by (auto simp: insert_admitted_def intro: insert_same_guards)
next
  case (op_sweep s idle now)
  then show ?case by (simp add: same_guards_def sweep_def)
next
  case (op_cancel_link s l)
  then show ?case by (simp add: cancel_pushes_for_link_def fold_cancel_same)
qed (auto simp: same_guards_def close_admission_def pin_link_for_delete_def unpin_link_def drop_link_pin_def
      new_control_def resumable_control_def park_def connect_def set_flags_def abort_def take_http_def
      mark_active_def set_activity_def abort_push_def remove_session_def finished_report_def
      finished_entries_def set_received_def seed_resumed_def Let_def
      split: option.splits session_kind.splits if_splits)

lemma plain_op_ok: "plain_op s s' \<Longrightarrow> reg_ok s \<Longrightarrow> reg_ok s'"
proof (induction rule: plain_op.induct)
  case (op_insert a sender rb unix now s s')
  then show ?case by (auto simp: insert_admitted_def intro: reg_ok_insert)
next
  case (op_seed s i started bytes)
  then show ?case by (rule reg_ok_seed_resumed)
next
  case (op_remove s i)
  then show ?case by (rule reg_ok_remove)
next
  case (op_take_http s)
  then show ?case by (rule reg_ok_take_http)
qed (auto simp: cancel_pushes_for_link_def finished_report_def finished_entries_def Let_def reg_ok_prune
      reg_ok_remember reg_ok_sweep set_received_def abort_push_def mark_active_def park_def connect_def
      abort_def cancel_def close_admission_def pin_link_for_delete_def unpin_link_def drop_link_pin_def
      new_control_def resumable_control_def
      split: option.splits session_kind.splits if_splits)

lemma guards_ok_same:
  assumes "guards_ok S" and "same_guards (reg S) r"
  shows "guards_ok (S\<lparr>reg := r\<rparr>)"
proof -
  have "in_flight (activities r a) = count_list (held_leases S) a" for a
  proof (cases "a < next_activity (reg S)")
    case False
    then have "a \<notin> set (held_leases S)" using assms(1) by (auto simp: guards_ok_def)
    then have "count_list (held_leases S) a = 0" by (simp add: count_list_0_iff)
    with False assms show ?thesis by (simp add: same_guards_def guards_ok_def)
  qed (use assms in \<open>simp add: same_guards_def guards_ok_def\<close>)
  with assms show ?thesis by (auto simp: same_guards_def guards_ok_def)
qed

lemma count_list_remove1: "x \<in> set xs \<Longrightarrow> count_list (remove1 x xs) y = (if y = x then count_list xs y - 1 else count_list xs y)"
proof (induction xs)
  case (Cons z xs)
  then show ?case using count_list_0_iff [of xs x] by (cases "z = x") auto
qed simp

lemma in_set_count: "x \<in> set xs \<longleftrightarrow> count_list xs x > 0"
  using count_list_0_iff [of xs x] by auto

text \<open>The outbound counters, read through \<open>map_of\<close>: what one more or one fewer guard does.\<close>

definition outbound_counts :: "sessions \<Rightarrow> rstr option list \<Rightarrow> bool" where
  "outbound_counts s gs \<longleftrightarrow>
     (\<forall>t. map_of (outbound s) t =
        (if t \<noteq> [] \<and> Some t \<in> set gs then Some (count_list gs (Some t)) else None))"

lemma guards_ok_alt:
  "guards_ok S \<longleftrightarrow>
     active_admissions (reg S) = held_admissions S
     \<and> distinct (held_pins S) \<and> set (held_pins S) = pinned (reg S)
     \<and> outbound_counts (reg S) (held_outbounds S)
     \<and> (\<forall>a. in_flight (activities (reg S) a) = count_list (held_leases S) a)
     \<and> (\<forall>a \<in> set (held_leases S). a < next_activity (reg S))"
  by (simp add: guards_ok_def outbound_counts_def)

lemma outbound_counts_begin:
  assumes "outbound_counts s gs" and "try_begin_outbound t s = Some (g, s')"
  shows "outbound_counts s' (g # gs)"
proof (cases "t = []")
  case True
  with assms show ?thesis by (auto simp: outbound_counts_def try_begin_outbound_def)
next
  case False
  then have g: "g = Some t" and s': "s' = s\<lparr>outbound := AList.update t
      ((case map_of (outbound s) t of None \<Rightarrow> 0 | Some n \<Rightarrow> n) + 1) (outbound s)\<rparr>"
    using assms(2) by (auto simp: try_begin_outbound_def split: if_splits)
  have "(case map_of (outbound s) t of None \<Rightarrow> 0 | Some n \<Rightarrow> n) = count_list gs (Some t)"
    using assms(1) False count_notin by (fastforce simp: outbound_counts_def)
  with False assms(1) show ?thesis by (auto simp: outbound_counts_def g s' map_of_update)
qed

lemma outbound_counts_end:
  assumes ok: "outbound_counts s gs" and g: "g \<in> set gs"
  shows "outbound_counts (drop_outbound g s) (remove1 g gs)"
proof (cases "\<exists>t. g = Some t \<and> t \<noteq> []")
  case True
  then obtain t where t: "g = Some t" "t \<noteq> []" by blast
  with ok g have m: "map_of (outbound s) t = Some (count_list gs (Some t))"
    by (simp add: outbound_counts_def)
  have n: "Some t \<in> set (remove1 (Some t) gs) \<longleftrightarrow> count_list gs (Some t) - 1 \<noteq> 0"
    using g t by (simp add: in_set_count count_list_remove1) linarith
  have other: "Some u \<in> set (remove1 (Some t) gs) \<longleftrightarrow> Some u \<in> set gs" if "u \<noteq> t" for u
    using that by simp
  have "map_of (outbound (drop_outbound g s)) u =
      (if u \<noteq> [] \<and> Some u \<in> set (remove1 g gs) then Some (count_list (remove1 g gs) (Some u)) else None)" for u
  proof (cases "u = t")
    case True
    then show ?thesis
      using m t g n by (simp add: drop_outbound_def map_of_update map_of_delete count_list_remove1)
  next
    case False
    then have "map_of (outbound (drop_outbound g s)) u = map_of (outbound s) u"
      using m t by (simp add: drop_outbound_def map_of_update map_of_delete)
    with False show ?thesis
      using ok t g other [OF False] by (simp add: outbound_counts_def count_list_remove1)
  qed
  then show ?thesis by (simp add: outbound_counts_def)
next
  case False
  then have d: "drop_outbound g s = s"
    using ok by (auto simp: drop_outbound_def outbound_counts_def split: option.splits)
  have "Some t \<in> set (remove1 g gs) \<longleftrightarrow> Some t \<in> set gs" if "t \<noteq> []" for t
    using that False by (intro in_set_remove1) auto
  with False show ?thesis using ok g unfolding d by (auto simp: outbound_counts_def count_list_remove1)
qed

lemma sys_ok_start: "reg_start S \<Longrightarrow> sys_ok S"
  by (simp add: reg_start_def sys_ok_def reg_ok_new) (simp add: guards_ok_def new_sessions_def)

lemma guards_ok_lease:
  assumes "guards_ok S" and "a < next_activity (reg S)"
    and "in_flight (f (activities (reg S) a)) = in_flight (activities (reg S) a) + 1"
  shows "guards_ok (S\<lparr>reg := set_activity a f (reg S), held_leases := a # held_leases S\<rparr>)"
  using assms by (auto simp: guards_ok_alt outbound_counts_def set_activity_def)

lemma sys_ok_step:
  assumes ok: "sys_ok S" and step: "reg_step S T"
  shows "sys_ok T"
proof -
  from ok have r: "reg_ok (reg S)" and g: "guards_ok S" by (simp_all add: sys_ok_def)
  note alt = g [unfolded guards_ok_alt]
  from step show ?thesis
  proof cases
    case (plain r')
    with r g show ?thesis
      by (auto simp: sys_ok_def intro: plain_op_ok guards_ok_same plain_op_same)
  next
    case (admit r')
    with r alt show ?thesis
      by (auto simp: sys_ok_def guards_ok_alt outbound_counts_def try_admit_def split: if_splits)
  next
    case drop_admit
    with r alt show ?thesis
      by (auto simp: sys_ok_def guards_ok_alt outbound_counts_def drop_admission_guard_def)
  next
    case (insert_guarded a sender rb unix now r')
    then have i: "insert_admitted_inner a sender rb True unix now (reg S) = Inr r'"
      by (auto simp: insert_admitted_with_guard_def split: sum.splits)
    with insert_guarded r g show ?thesis
      by (auto simp: sys_ok_def intro: reg_ok_insert guards_ok_same insert_same_guards)
  next
    case (insert_refused a sender rb unix now e r')
    then have "r' = drop_admission_guard (reg S)"
      by (auto simp: insert_admitted_with_guard_def split: sum.splits)
    with insert_refused r alt show ?thesis
      by (auto simp: sys_ok_def guards_ok_alt outbound_counts_def drop_admission_guard_def)
  next
    case (pin t r')
    with r alt reg_ok_try_pin_tenant show ?thesis
      by (auto simp: sys_ok_def guards_ok_alt outbound_counts_def try_pin_tenant_def split: if_splits)
  next
    case (unpin t)
    with r alt reg_ok_drop_tenant_pin [OF r] show ?thesis
      by (auto simp: sys_ok_def guards_ok_alt outbound_counts_def drop_tenant_pin_def)
  next
    case (begin_outbound t gd r')
    with alt have "outbound_counts r' (gd # held_outbounds S)" by (auto intro: outbound_counts_begin)
    moreover from begin_outbound have "active_admissions r' = active_admissions (reg S)"
      "pinned r' = pinned (reg S)" "activities r' = activities (reg S)" "next_activity r' = next_activity (reg S)"
      by (auto simp: try_begin_outbound_def split: if_splits)
    ultimately show ?thesis
      using begin_outbound alt reg_ok_try_begin_outbound r by (auto simp: sys_ok_def guards_ok_alt)
  next
    case (end_outbound gd)
    with alt have "outbound_counts (drop_outbound gd (reg S)) (remove1 gd (held_outbounds S))"
      by (auto intro: outbound_counts_end)
    moreover have "active_admissions (drop_outbound gd (reg S)) = active_admissions (reg S)"
      "pinned (drop_outbound gd (reg S)) = pinned (reg S)"
      "activities (drop_outbound gd (reg S)) = activities (reg S)"
      "next_activity (drop_outbound gd (reg S)) = next_activity (reg S)"
      by (auto simp: drop_outbound_def split: option.splits)
    ultimately show ?thesis
      using end_outbound alt reg_ok_drop_outbound [OF r] by (auto simp: sys_ok_def guards_ok_alt)
  next
    case (lease_push i a r')
    then obtain h where h: "map_of (smap (reg S)) i = Some h" "a = sh_activity h"
      "r' = set_activity a (\<lambda>x. x\<lparr>in_flight := in_flight x + 1\<rparr>) (reg S)"
      by (auto simp: push_lease_def split: option.splits if_splits)
    then have "a < next_activity (reg S)" using r by (auto simp: reg_ok_def intro: smap_ok_alloc map_of_SomeD)
    with h lease_push r g show ?thesis by (simp add: sys_ok_def guards_ok_lease)
  next
    case (lease_touch i now sender a r')
    then obtain h where h: "map_of (smap (reg S)) i = Some h" "a = sh_activity h"
      "r' = set_activity a (\<lambda>x. x\<lparr>last_active := now, in_flight := in_flight x + 1\<rparr>) (reg S)"
      by (auto simp: touch_def split: option.splits if_splits)
    then have "a < next_activity (reg S)" using r by (auto simp: reg_ok_def intro: smap_ok_alloc map_of_SomeD)
    with h lease_touch r g show ?thesis by (simp add: sys_ok_def guards_ok_lease)
  next
    case (end_lease a now)
    with r alt show ?thesis
      by (auto simp: sys_ok_def guards_ok_alt drop_lease_def outbound_counts_def set_activity_def
          count_list_remove1 dest: notin_set_remove1)
  qed
qed

interpretation registry: invariant_system reg_start reg_step sys_ok
  by unfold_locales (fact sys_ok_start, fact sys_ok_step)

section \<open>Draining\<close>

text \<open>The registrations of a tenant: the ids of its sessions with the activity each was given when it
  was inserted, which no other insertion has.\<close>

definition sessions_of :: "rstr \<Rightarrow> sessions \<Rightarrow> (rstr \<times> nat) set" where
  "sessions_of t s = {(i, sh_activity h) |i h. (i, h) \<in> set (smap s) \<and> sh_tenant h = t}"

lemma in_update: "(i, h) \<in> set (AList.update k v m) \<Longrightarrow> (i, h) = (k, v) \<or> (i, h) \<in> set m"
  by (induction m) (auto split: if_splits)

lemma sessions_of_subset: "set (smap s') \<subseteq> set (smap s) \<Longrightarrow> sessions_of t s' \<subseteq> sessions_of t s"
  by (auto simp: sessions_of_def)

lemma active_is_card:
  assumes "reg_ok s"
  shows "active_for_tenant t s = card (sessions_of t s)"
proof -
  have "distinct (map fst (smap s))" using assms smap_ok_hm by (simp add: reg_ok_def hm_ok_def hm_keys_def)
  then have "distinct (map fst (filter (\<lambda>(_, h). sh_tenant h = t) (smap s)))" by (rule distinct_map_filter)
  then have d: "distinct (map (\<lambda>(i, h). (i, sh_activity h)) (filter (\<lambda>(_, h). sh_tenant h = t) (smap s)))"
    by (auto simp: distinct_map inj_on_def)
  have "sessions_of t s = set (map (\<lambda>(i, h). (i, sh_activity h)) (filter (\<lambda>(_, h). sh_tenant h = t) (smap s)))"
    by (force simp: sessions_of_def)
  then show ?thesis using distinct_card [OF d] by (simp add: active_for_tenant_def)
qed

lemma sessions_of_insert:
  assumes "insert_admitted_inner a sender rb reserved unix now s = Inr s'" and "t \<in> pinned s" and "t \<noteq> []"
  shows "sessions_of t s' \<subseteq> sessions_of t s"
proof -
  obtain m where pin: "sa_tenant a = [] \<or> sa_tenant a \<notin> pinned s"
    and m: "m = (case replaced_session s (sa_kind a) of None \<Rightarrow> smap s | Some (old_id, _) \<Rightarrow> AList.delete old_id (smap s))"
    and s': "smap s' = AList.update (sa_id a) (fresh_handle a sender unix now (next_activity s)) m"
    using assms(1) by (rule insert_admitted_inner_Inr) simp
  have "set m \<subseteq> set (smap s)" unfolding m by (auto simp: AList.delete_eq split: option.splits)
  moreover have "sh_tenant (fresh_handle a sender unix now (next_activity s)) \<noteq> t"
    using pin assms(2,3) by (auto simp: fresh_handle_def)
  ultimately show ?thesis unfolding sessions_of_def s' by (blast dest: in_update)
qed

lemma sessions_of_plain:
  assumes "plain_op s s'" and "t \<in> pinned s" and "t \<noteq> []"
  shows "sessions_of t s' \<subseteq> sessions_of t s"
  using assms
proof (induction rule: plain_op.induct)
  case (op_insert a sender rb unix now s s')
  then show ?case by (simp add: insert_admitted_def sessions_of_insert)
next
  case (op_seed s i started bytes)
  show ?case
  proof (cases "map_of (smap s) i")
    case (Some h)
    then have "(i, h) \<in> set (smap s)" by (rule map_of_SomeD)
    with Some show ?thesis
      by (auto simp: seed_resumed_def sessions_of_def set_activity_def dest!: in_update)
  qed (simp add: seed_resumed_def)
qed (rule sessions_of_subset; auto simp: remove_session_def AList.delete_eq close_admission_def pin_link_for_delete_def
      unpin_link_def drop_link_pin_def new_control_def resumable_control_def park_def connect_def set_flags_def abort_def
      take_http_def mark_active_def set_activity_def cancel_pushes_for_link_def abort_push_def
      finished_report_def finished_entries_def set_received_def sweep_def Let_def
      split: option.splits session_kind.splits if_splits)+

definition pin_held_step :: "rstr \<Rightarrow> reg_sys \<Rightarrow> reg_sys \<Rightarrow> bool" where
  "pin_held_step t S T \<longleftrightarrow> reg_step S T \<and> t \<in> set (held_pins T)"

definition pin_held :: "rstr \<Rightarrow> reg_sys \<Rightarrow> bool" where
  "pin_held t S \<longleftrightarrow> sys_ok S \<and> t \<in> set (held_pins S)"

lemma pin_held_pinned: "pin_held t S \<Longrightarrow> t \<in> pinned (reg S) \<and> t \<noteq> []"
  by (auto simp: pin_held_def sys_ok_def guards_ok_def reg_ok_def outbound_ok_def)

lemma pin_drains_sessions:
  assumes "pin_held t S" and "reg_step S T"
  shows "sessions_of t (reg T) \<subseteq> sessions_of t (reg S)"
  using assms(2)
proof cases
  case (plain r)
  then show ?thesis using sessions_of_plain pin_held_pinned [OF assms(1)] by simp
next
  case (insert_guarded a sender rb unix now r)
  then have "insert_admitted_inner a sender rb True unix now (reg S) = Inr r"
    by (auto simp: insert_admitted_with_guard_def split: sum.splits)
  then show ?thesis using sessions_of_insert pin_held_pinned [OF assms(1)] insert_guarded by simp
qed (rule sessions_of_subset; auto simp: try_admit_def drop_admission_guard_def insert_admitted_with_guard_def
      try_pin_tenant_def drop_tenant_pin_def try_begin_outbound_def drop_outbound_def push_lease_def
      touch_def drop_lease_def set_activity_def split: option.splits if_splits sum.splits)+

lemma pin_drains_outbound:
  assumes "pin_held t S" and "reg_step S T"
  shows "count_list (held_outbounds T) (Some t) \<le> count_list (held_outbounds S) (Some t)"
  using assms(2)
proof cases
  case (begin_outbound u g r)
  then show ?thesis
    using pin_held_pinned [OF assms(1)] by (auto simp: try_begin_outbound_def split: if_splits)
qed (auto simp: count_list_remove1)

interpretation pin_sessions: falling_system "pin_held_step t" "pin_held t" "\<lambda>S. sessions_of t (reg S)" for t
proof
  fix S T
  assume S: "pin_held t S" and T: "pin_held_step t S T"
  then show "pin_held t T" by (auto simp: pin_held_step_def pin_held_def intro: sys_ok_step)
  show "sessions_of t (reg T) \<subseteq> sessions_of t (reg S)"
    using pin_drains_sessions [OF S] T by (simp add: pin_held_step_def)
qed

interpretation pin_outbound: falling_system "pin_held_step t" "pin_held t" "\<lambda>S. count_list (held_outbounds S) (Some t)" for t
  by unfold_locales
     (auto simp: pin_held_step_def pin_held_def intro: sys_ok_step pin_drains_outbound [unfolded pin_held_def])

text \<open>Shutdown: admission closed and every guard back.\<close>

definition drained :: "reg_sys \<Rightarrow> bool" where
  "drained S \<longleftrightarrow> sys_ok S \<and> admission_closed (reg S) \<and> held_admissions S = 0"

lemma plain_closed:
  "plain_op s s' \<Longrightarrow> admission_closed s \<Longrightarrow> admission_closed s' \<and> total s' \<le> total s"
proof (induction rule: plain_op.induct)
  case (op_insert a sender rb unix now s s')
  then show ?case
    by (auto simp: insert_admitted_def elim: insert_admitted_inner_Inr)
next
  case (op_seed s i started bytes)
  then show ?case
    by (auto simp: seed_resumed_def total_def set_activity_def length_update contains_key_def split: option.splits)
qed (auto simp: total_def close_admission_def pin_link_for_delete_def unpin_link_def
      drop_link_pin_def new_control_def resumable_control_def park_def connect_def set_flags_def abort_def
      take_http_def mark_active_def set_activity_def cancel_pushes_for_link_def abort_push_def
      remove_session_def AList.length_delete_le
      finished_report_def finished_entries_def set_received_def sweep_def Let_def
      split: option.splits session_kind.splits if_splits)

lemma drained_step:
  assumes "drained S" and "reg_step S T"
  shows "drained T \<and> total (reg T) \<le> total (reg S)"
proof -
  have ok: "sys_ok T" using assms sys_ok_step by (auto simp: drained_def)
  have c: "admission_closed (reg S)" and h: "held_admissions S = 0" using assms(1) by (auto simp: drained_def)
  from assms(2) show ?thesis
  proof cases
    case (plain r)
    then show ?thesis using plain_closed ok c h by (auto simp: drained_def)
  qed (use ok c h in \<open>auto simp: drained_def total_def try_admit_def
      try_pin_tenant_def drop_tenant_pin_def try_begin_outbound_def drop_outbound_def push_lease_def
      touch_def drop_lease_def set_activity_def split: option.splits if_splits\<close>)
qed

interpretation shutdown: falling_system reg_step drained "\<lambda>S. total (reg S)"
  by unfold_locales (auto dest: drained_step)

section \<open>Properties\<close>

text \<open>A session for the witnesses.\<close>

definition demo_admission :: "rstr \<Rightarrow> session_kind \<Rightarrow> session_admission" where
  "demo_admission i kind = \<lparr>sa_id = i, sa_link_id = lit ''l'', sa_tenant = lit ''t'', sa_reserved_bytes = 10,
     sa_max_total_bytes = Some 100, sa_max_tenant_sessions = Some 2, sa_max_link_sessions = 2,
     sa_max_sessions = 2, sa_kind = kind\<rparr>"

definition demo_start :: reg_sys where
  "demo_start = \<lparr>reg = new_sessions, held_admissions = 0, held_pins = [], held_outbounds = [], held_leases = []\<rparr>"

definition demo_sessions :: sessions where
  "demo_sessions = (case insert_admitted (demo_admission (lit ''s'') Http) 7 (Inr (50, [])) 1 2 new_sessions of
      Inr r \<Rightarrow> r | Inl _ \<Rightarrow> new_sessions)"

definition demo_leased :: sessions where
  "demo_leased = (case touch (lit ''s'') 3 demo_sessions of Inr (_, r) \<Rightarrow> r | Inl _ \<Rightarrow> demo_sessions)"

lemmas demo_defs = demo_admission_def demo_start_def demo_sessions_def demo_leased_def
  insert_admitted_def insert_admitted_inner_def new_sessions_def replaced_session_def other_handles_def
  already_reserved_def retained_bytes_def sum_saturating_def resuming_def fresh_handle_def lit_def

lemma demo_reach: "reach reg_start reg_step demo_start"
  by (rule reach_init) (simp add: reg_start_def demo_start_def)

lemma demo_insert: "insert_admitted (demo_admission (lit ''s'') Http) 7 (Inr (50, [])) 1 2 new_sessions = Inr demo_sessions"
  by (simp add: demo_defs push_key_of_def)

lemma demo_sessions_reach: "reach reg_start reg_step (demo_start\<lparr>reg := demo_sessions\<rparr>)"
  using reach_step [OF demo_reach reg_step.plain [OF op_insert]] demo_insert
  by (simp add: demo_start_def)

lemma demo_touch: "touch (lit ''s'') 3 demo_sessions = Inr ((7, 0), demo_leased)"
  by (simp add: demo_defs push_key_of_def touch_def is_push_def)

lemma demo_leased_reach: "reach reg_start reg_step (demo_start\<lparr>reg := demo_leased, held_leases := [0]\<rparr>)"
proof -
  have "reg_step (demo_start\<lparr>reg := demo_sessions\<rparr>) (demo_start\<lparr>reg := demo_leased, held_leases := [0]\<rparr>)"
    using lease_touch [of "lit ''s''" 3 "demo_start\<lparr>reg := demo_sessions\<rparr>" 7 0 demo_leased] demo_touch
    by (simp add: demo_start_def)
  with demo_sessions_reach show ?thesis by (rule reach_step)
qed

text \<open>C34: A session with a command in flight is never swept: while a lease on its activity is
  held, the idle sweep keeps its registration, whatever the idle limit and the clock.\<close>

theorem lease_survives_sweep:
  assumes "reach reg_start reg_step S" and "a \<in> set (held_leases S)"
    and "map_of (smap (reg S)) i = Some h" and "sh_activity h = a"
  shows "map_of (smap (sweep idle now (reg S))) i = Some h"
proof -
  have ok: "sys_ok S" using assms(1) by (rule registry.reach_inv)
  then have "in_flight (activities (reg S) a) = count_list (held_leases S) a" "hm_ok (smap (reg S))"
    by (auto simp: sys_ok_def guards_ok_def reg_ok_def dest: smap_ok_hm)
  then show ?thesis
    using assms(2-4) by (simp add: map_of_sweep sweep_keeps_def handle_live_def in_set_count)
qed

theorem lease_survives_sweep_witness:
  "map_of (smap (sweep 0 (10 ^ 12) demo_leased)) (lit ''s'') \<noteq> None"
proof -
  have m: "map_of (smap demo_leased) (lit ''s'')
     = Some (fresh_handle (demo_admission (lit ''s'') Http) 7 1 2 0)"
    by (simp add: demo_defs push_key_of_def touch_def is_push_def set_activity_def)
  show ?thesis
    using lease_survives_sweep [OF demo_leased_reach, of 0 "lit ''s''"] m
    by (simp add: fresh_handle_def)
qed

text \<open>C35: C: While a tenant is pinned for deletion, no run of the registry adds a session or an outbound
  operation of that tenant, not even one that takes the place of a parked push: every registration
  of the tenant afterwards is one of those before, the counts only fall, and new ones are refused.\<close>

theorem pinned_tenant_drains:
  assumes "reach reg_start reg_step S" and "t \<in> set (held_pins S)" and "(pin_held_step t)\<^sup>*\<^sup>* S T"
  shows "sessions_of t (reg T) \<subseteq> sessions_of t (reg S)
         \<and> active_for_tenant t (reg T) \<le> active_for_tenant t (reg S)
         \<and> active_outbound_for_tenant t (reg T) \<le> active_outbound_for_tenant t (reg S)
         \<and> try_begin_outbound t (reg T) = None
         \<and> (\<forall>a sender rb reserved unix now. sa_tenant a = t \<longrightarrow>
               (\<exists>e. insert_admitted_inner a sender rb reserved unix now (reg T) = Inl e))"
proof -
  have p: "pin_held t S" using assms(1,2) registry.reach_inv by (auto simp: pin_held_def)
  have s: "pin_held t T" "sessions_of t (reg T) \<subseteq> sessions_of t (reg S)"
    using pin_sessions.steps_fall [OF assms(3) p] by auto
  have ok: "reg_ok (reg S)" "reg_ok (reg T)" using p s(1) by (simp_all add: pin_held_def sys_ok_def)
  have "finite (sessions_of t (reg S))"
    unfolding sessions_of_def by (rule finite_surj [of "set (smap (reg S))" _ "\<lambda>(i, h). (i, sh_activity h)"]) auto
  then have "active_for_tenant t (reg T) \<le> active_for_tenant t (reg S)"
    using s(2) by (simp add: active_is_card ok card_mono)
  moreover have count: "active_outbound_for_tenant t (reg U) = count_list (held_outbounds U) (Some t)" if "pin_held t U" for U
    using that pin_held_pinned [OF that]
    by (auto simp: pin_held_def sys_ok_def guards_ok_def active_outbound_for_tenant_def count_notin)
  moreover have "try_begin_outbound t (reg T) = None"
    using pin_held_pinned [OF s(1)] by (simp add: try_begin_outbound_def)
  moreover have "\<exists>e. insert_admitted_inner a sender rb reserved unix now (reg T) = Inl e" if "sa_tenant a = t"
    for a sender rb reserved unix now
  proof (cases "insert_admitted_inner a sender rb reserved unix now (reg T)")
    case (Inr s')
    then show ?thesis
      by (rule insert_admitted_inner_Inr) (use pin_held_pinned [OF s(1)] that in auto)
  qed simp
  ultimately show ?thesis
    using s pin_outbound.steps_fall [OF assms(3) p] count [OF p] count [OF s(1)] by simp
qed

text \<open>A tenant with one session is pinned, and the session is removed.\<close>

theorem pinned_tenant_drains_witness:
  "sessions_of (lit ''t'') demo_sessions = {(lit ''s'', 0)}
   \<and> active_for_tenant (lit ''t'') (snd (remove_session (lit ''s'') (demo_sessions\<lparr>pinned := {lit ''t''}\<rparr>))) \<le> 1
   \<and> (\<exists>e. insert_admitted_inner (demo_admission (lit ''u'') Http) 8 (Inr (50, [])) False 1 2
        (snd (remove_session (lit ''s'') (demo_sessions\<lparr>pinned := {lit ''t''}\<rparr>))) = Inl e)"
proof -
  let ?r = "demo_sessions\<lparr>pinned := {lit ''t''}\<rparr>"
  let ?S = "demo_start\<lparr>reg := ?r, held_pins := [lit ''t'']\<rparr>"
  let ?T = "?S\<lparr>reg := snd (remove_session (lit ''s'') ?r)\<rparr>"
  have pins: "try_pin_tenant (lit ''t'') demo_sessions = Some ?r"
    by (simp add: demo_defs push_key_of_def try_pin_tenant_def)
  have "reg_step (demo_start\<lparr>reg := demo_sessions\<rparr>) ?S"
    using reg_step.pin [of "lit ''t''" "demo_start\<lparr>reg := demo_sessions\<rparr>" ?r] pins
    by (simp add: demo_start_def)
  with demo_sessions_reach have S: "reach reg_start reg_step ?S" by (rule reach_step)
  have "reg_step ?S ?T" using reg_step.plain [OF op_remove, of ?S "lit ''s''"] by simp
  then have "(pin_held_step (lit ''t''))\<^sup>*\<^sup>* ?S ?T" by (intro r_into_rtranclp) (simp add: pin_held_step_def)
  note t = pinned_tenant_drains [OF S _ this]
  have "active_for_tenant (lit ''t'') ?r = 1" "sessions_of (lit ''t'') demo_sessions = {(lit ''s'', 0)}"
    by (auto simp: demo_defs push_key_of_def active_for_tenant_def sessions_of_def)
  moreover have "sa_tenant (demo_admission (lit ''u'') Http) = lit ''t''" by (simp add: demo_admission_def)
  ultimately show ?thesis using t by simp
qed

text \<open>Once admission is closed and every admission guard is back, no run adds a session, so
  the shutdown that has waited for the guards checkpoints every session there will be.\<close>

theorem closed_admission_is_final:
  assumes "reach reg_start reg_step S" and "admission_closed (reg S)" and "active_admissions (reg S) = 0"
    and "reg_step\<^sup>*\<^sup>* S T"
  shows "total (reg T) \<le> total (reg S) \<and> admission_closed (reg T)"
proof -
  have "sys_ok S" using assms(1) by (rule registry.reach_inv)
  with assms(2,3) have "drained S" by (simp add: drained_def sys_ok_def guards_ok_def)
  from shutdown.steps_fall [OF assms(4) this] show ?thesis by (simp add: drained_def)
qed

theorem closed_admission_is_final_witness:
  "total (snd (close_admission demo_sessions)) \<le> total (snd (close_admission demo_sessions))
   \<and> admission_closed (snd (close_admission demo_sessions))"
proof -
  let ?S = "demo_start\<lparr>reg := snd (close_admission demo_sessions)\<rparr>"
  have "reg_step (demo_start\<lparr>reg := demo_sessions\<rparr>) ?S"
    using plain [of "demo_start\<lparr>reg := demo_sessions\<rparr>", OF op_close] by simp
  with demo_sessions_reach have r: "reach reg_start reg_step ?S" by (rule reach_step)
  have "active_admissions demo_sessions = 0" by (simp add: demo_defs push_key_of_def)
  then show ?thesis
    using closed_admission_is_final [OF r _ _ rtranclp.rtrancl_refl] by (simp add: close_admission_def)
qed

text \<open>After the checkpoint has taken the HTTP senders, no session is reachable by an HTTP
  command: \<open>touch\<close> fails for every id, and only native pushes remain registered.\<close>

theorem no_http_after_checkpoint:
  assumes "reach reg_start reg_step S" and "commands_closed (reg S)"
  shows "touch i now (reg S) = Inl (if contains_push i (reg S) then WrongKind else NotFound)
         \<and> push_total (reg S) = total (reg S)"
proof -
  have ok: "smap_ok (reg S)" using registry.reach_inv [OF assms(1)] by (simp add: sys_ok_def reg_ok_def)
  have all: "is_push (sh_kind h)" if "(j, h) \<in> set (smap (reg S))" for j h
    by (rule smap_ok_closed [OF ok assms(2) that])
  have "touch i now (reg S) = Inl (if contains_push i (reg S) then WrongKind else NotFound)"
    using all by (auto simp: touch_def contains_push_def split: option.splits dest: map_of_SomeD)
  moreover have "filter (\<lambda>(_, h). is_push (sh_kind h)) (smap (reg S)) = smap (reg S)"
    using all by (auto simp: filter_id_conv)
  ultimately show ?thesis by (simp add: push_total_def total_def)
qed

theorem no_http_after_checkpoint_witness:
  "touch (lit ''s'') 5 (snd (take_http demo_sessions)) = Inl NotFound"
proof -
  let ?S = "demo_start\<lparr>reg := snd (take_http demo_sessions)\<rparr>"
  have "reg_step (demo_start\<lparr>reg := demo_sessions\<rparr>) ?S"
    using plain [of "demo_start\<lparr>reg := demo_sessions\<rparr>", OF op_take_http] by simp
  with demo_sessions_reach have r: "reach reg_start reg_step ?S" by (rule reach_step)
  have "\<not> contains_push (lit ''s'') (snd (take_http demo_sessions))"
    by (simp add: demo_defs push_key_of_def take_http_def is_push_def contains_push_def)
  then show ?thesis
    using no_http_after_checkpoint [OF r, of "lit ''s''" 5] by (simp add: take_http_def)
qed

text \<open>At most one registered session holds a push resume key: a resuming push replaces the
  parked session of its key and is refused while that session is connected.\<close>

theorem resume_keys_are_unique:
  assumes "reach reg_start reg_step S"
    and "map_of (smap (reg S)) i = Some h" and "map_of (smap (reg S)) j = Some g"
    and "push_key_of (sh_kind h) = Some k" and "push_key_of (sh_kind g) = Some k"
  shows "i = j"
  using registry.reach_inv [OF assms(1)] assms(2-5)
  by (auto simp: sys_ok_def reg_ok_def intro: smap_ok_key map_of_SomeD)

definition demo_push :: sessions where
  "demo_push = (case insert_admitted (demo_admission (lit ''p'') (Push \<lparr>resume_key = Some (lit ''k''), flags_at = 0\<rparr>))
      7 (Inr (50, [])) 1 2 new_sessions of Inr r \<Rightarrow> r | Inl _ \<Rightarrow> new_sessions)"

theorem resume_keys_are_unique_witness:
  "map_of (smap demo_push) (lit ''p'') \<noteq> None \<and> lit ''p'' = lit ''p''"
proof -
  let ?a = "demo_admission (lit ''p'') (Push \<lparr>resume_key = Some (lit ''k''), flags_at = 0\<rparr>)"
  have i: "insert_admitted ?a 7 (Inr (50, [])) 1 2 new_sessions = Inr demo_push"
    by (simp add: demo_push_def demo_defs push_key_of_def)
  have r: "reach reg_start reg_step (demo_start\<lparr>reg := demo_push\<rparr>)"
    using reach_step [OF demo_reach reg_step.plain [OF op_insert]] i by (simp add: demo_start_def)
  have m: "map_of (smap demo_push) (lit ''p'') = Some (fresh_handle ?a 7 1 2 0)"
    by (simp add: demo_push_def demo_defs push_key_of_def)
  show ?thesis
    using resume_keys_are_unique [OF r, of "lit ''p''" _ "lit ''p''"] m
    by (simp add: fresh_handle_def demo_admission_def push_key_of_def)
qed

text \<open>An admitted session respects every limit it was admitted under: the registry, the link
  and the tenant hold no more sessions than allowed, the new one included.\<close>

theorem insert_respects_session_limits:
  assumes "insert_admitted_inner a sender rb reserved unix now s = Inr s'"
  shows "total s' \<le> sa_max_sessions a
         \<and> active_for_link (sa_link_id a) s' \<le> sa_max_link_sessions a
         \<and> (case sa_max_tenant_sessions a of None \<Rightarrow> True | Some m \<Rightarrow> active_for_tenant (sa_tenant a) s' \<le> m)"
proof -
  obtain received retained others where
    o: "others = map snd (replaced_map s (sa_kind a))" and n: "length others < sa_max_sessions a"
    and l: "length (filter (\<lambda>h. sh_link_id h = sa_link_id a) others) < sa_max_link_sessions a"
    and t: "\<And>m. sa_max_tenant_sessions a = Some m \<Longrightarrow> length (filter (\<lambda>h. sh_tenant h = sa_tenant a) others) < m"
    and m: "smap s' = AList.update (sa_id a) (fresh_handle a sender unix now (next_activity s)) (replaced_map s (sa_kind a))"
    by (rule insert_checks [OF assms]) (rule that)
  have f: "length (filter (\<lambda>h. P h) others) = length (filter (\<lambda>(_, h). P h) (replaced_map s (sa_kind a)))" for P
    unfolding o by (simp add: filter_map comp_def case_prod_unfold)
  have le: "length (filter (\<lambda>(_, h). P h) (smap s')) \<le> Suc (length (filter P others))" for P
    unfolding f m by (rule length_filter_update_le)
  have "total s' \<le> sa_max_sessions a"
    using le [of "\<lambda>_. True"] n by (simp add: total_def)
  moreover have "active_for_link (sa_link_id a) s' \<le> sa_max_link_sessions a"
    using le [of "\<lambda>h. sh_link_id h = sa_link_id a"] l by (simp add: active_for_link_def)
  ultimately show ?thesis
    using le [of "\<lambda>h. sh_tenant h = sa_tenant a"] t
    by (fastforce simp: active_for_tenant_def split: option.splits)
qed

theorem insert_respects_session_limits_witness: "total demo_sessions \<le> 2"
  using insert_respects_session_limits [OF demo_insert [unfolded insert_admitted_def]]
  by (simp add: demo_admission_def)

text \<open>Under a byte quota, a fresh admission (one that resumes no retained reservation) that
  reserves any bytes leaves the committed bytes, the tenant's live reservations and the
  retained ones together within the quota; the saturating sums lose nothing.\<close>

theorem insert_respects_byte_quota:
  assumes "insert_admitted_inner a sender (Inr (received, retained)) reserved unix now s = Inr s'"
    and "sa_max_total_bytes a = Some quota" and "quota \<le> u64_max"
    and "\<not> resuming a retained" and "sa_reserved_bytes a > 0"
  shows "received + tenant_reserved (sa_tenant a) s'
         + retained_bytes s (map snd (replaced_map s (sa_kind a))) retained \<le> quota"
proof -
  let ?o = "map snd (replaced_map s (sa_kind a))"
  let ?t = "filter (\<lambda>h. sh_tenant h = sa_tenant a) ?o"
  have le: "sa_reserved_bytes a \<le> quota - received - already_reserved (sa_tenant a) ?o - retained_bytes s ?o retained"
    and m: "smap s' = AList.update (sa_id a) (fresh_handle a sender unix now (next_activity s)) (replaced_map s (sa_kind a))"
  proof -
    obtain rec ret others where
      "(case sa_max_total_bytes a of None \<Rightarrow> Inr (0, []) | Some _ \<Rightarrow> Inr (received, retained)) = (Inr (rec, ret) :: rstr + _)"
      "others = ?o" "length others < sa_max_sessions a"
      "length (filter (\<lambda>h. sh_link_id h = sa_link_id a) others) < sa_max_link_sessions a"
      "\<And>m. sa_max_tenant_sessions a = Some m \<Longrightarrow> length (filter (\<lambda>h. sh_tenant h = sa_tenant a) others) < m"
      "\<And>q. sa_max_total_bytes a = Some q \<Longrightarrow> \<not> resuming a ret \<Longrightarrow>
         sa_reserved_bytes a \<le> q - rec - already_reserved (sa_tenant a) others - retained_bytes s others ret"
      "smap s' = AList.update (sa_id a) (fresh_handle a sender unix now (next_activity s)) (replaced_map s (sa_kind a))"
      by (rule insert_checks [OF assms(1)]) (rule that)
    then show "sa_reserved_bytes a \<le> quota - received - already_reserved (sa_tenant a) ?o - retained_bytes s ?o retained"
      and "smap s' = AList.update (sa_id a) (fresh_handle a sender unix now (next_activity s)) (replaced_map s (sa_kind a))"
      using assms(2,4) by simp_all
  qed
  have fits: "received + already_reserved (sa_tenant a) ?o + retained_bytes s ?o retained + sa_reserved_bytes a \<le> quota"
    using le assms(5) by linarith
  then have "sum_saturating (map sh_reserved_bytes ?t) < u64_max"
    using assms(3,5) by (simp add: already_reserved_def)
  then have "already_reserved (sa_tenant a) ?o = sum_list (map sh_reserved_bytes ?t)"
    unfolding already_reserved_def by (rule sum_saturating_exact)
  with fits tenant_reserved_insert [OF m] show ?thesis by linarith
qed

theorem insert_respects_byte_quota_witness:
  "50 + tenant_reserved (lit ''t'') demo_sessions \<le> 100"
proof -
  have "\<not> resuming (demo_admission (lit ''s'') Http) []" by (simp add: resuming_def)
  then show ?thesis
    using insert_respects_byte_quota [OF demo_insert [unfolded insert_admitted_def], of 100]
    by (simp add: demo_admission_def u64_max_def)
qed

lemma map_of_filter_update:
  "P (k, v) \<Longrightarrow> map_of (filter P (AList.update k v m)) k = Some v"
  by (induction m) auto

text \<open>A finished upload stays answerable: until its time to live has passed, the stored report
  and begin entries answer a retry, one entry per file, each complete and fully covered.\<close>

theorem finished_upload_answers:
  assumes "later - now < FINISHED_TTL"
  shows "fst (finished_report i later (remember_finished i report now s)) = Some report
         \<and> fst (finished_entries i later (remember_finished i report now s))
             = Some (map finished_entry (List.enumerate 0 (rep_files report)))"
proof -
  let ?v = "\<lparr>fu_at = now, fu_report = report, fu_entries = map finished_entry (List.enumerate 0 (rep_files report))\<rparr>"
  have "\<exists>m. finished (remember_finished i report now s) = AList.update i ?v m"
    by (simp add: remember_finished_def Let_def) blast
  then have "map_of (finished (prune_finished later (remember_finished i report now s))) i = Some ?v"
    using assms by (auto simp: prune_finished_def intro!: map_of_filter_update)
  then show ?thesis
    by (simp add: finished_report_def finished_entries_def Let_def)
qed

theorem finished_upload_answers_witness:
  "fst (finished_report (lit ''u'') 5 (remember_finished (lit ''u'')
     \<lparr>rep_upload_id = lit ''u'', rep_files = [], rep_received = 0\<rparr> 3 new_sessions)) \<noteq> None"
  using finished_upload_answers [of 5 3] by (simp add: FINISHED_TTL_def nanos_per_sec_def)

text \<open>What the idle sweep does to each session: it keeps exactly the live ones and the
  connected pushes, and a connected push that went idle is cancelled.\<close>

theorem sweep_behaviour:
  assumes "reach reg_start reg_step S"
  shows "(map_of (smap (sweep idle now (reg S))) i = Some h \<longleftrightarrow>
            map_of (smap (reg S)) i = Some h \<and> sweep_keeps idle now (reg S) h)
         \<and> (map_of (smap (reg S)) i = Some h \<longrightarrow> sh_kind h = Push c \<longrightarrow> \<not> handle_live idle now (reg S) h \<longrightarrow>
              connected (flags (reg S) (flags_at c)) \<longrightarrow> cancelled (flags (sweep idle now (reg S)) (flags_at c)))"
proof -
  have hm: "hm_ok (smap (reg S))"
    using registry.reach_inv [OF assms] by (auto simp: sys_ok_def reg_ok_def dest: smap_ok_hm)
  have keep: "cancelled (flags s x) \<Longrightarrow> cancelled (flags (fold cancel cs s) x)" for cs s x
    by (induction cs arbitrary: s) (auto simp: cancel_def set_flags_def)
  have hits: "cancelled (flags (cancel c s) (flags_at c))" for c s
    by (simp add: cancel_def set_flags_def)
  have hit: "c \<in> set cs \<Longrightarrow> cancelled (flags (fold cancel cs s) (flags_at c))" for c cs s
    by (induction cs arbitrary: s) (auto intro: keep [OF hits])
  have told: "cancelled (flags (sweep idle now (reg S)) (flags_at c))"
    if "map_of (smap (reg S)) i = Some h" "sh_kind h = Push c" "\<not> handle_live idle now (reg S) h"
      "connected (flags (reg S) (flags_at c))"
  proof -
    have "c \<in> set (sweep_cancels idle now (reg S))"
      using that map_of_SomeD [OF that(1)]
      by (force simp: sweep_cancels_def List.map_filter_def image_iff)
    then show ?thesis unfolding sweep_def by (rule hit)
  qed
  show ?thesis
    using told by (auto simp: map_of_sweep [OF hm] split: option.splits if_splits)
qed

theorem sweep_behaviour_witness: "map_of (smap (sweep 5 (10 ^ 12) demo_sessions)) (lit ''s'') = None"
proof -
  have "\<not> sweep_keeps 5 (10 ^ 12) demo_sessions h" if "map_of (smap demo_sessions) (lit ''s'') = Some h" for h
    using that by (auto simp: demo_defs push_key_of_def sweep_keeps_def handle_live_def nanos_per_sec_def)
  then show ?thesis
    using sweep_behaviour [OF demo_sessions_reach, of 5 "10 ^ 12" "lit ''s''"]
    by (metis (no_types, lifting) demo_start_def not_None_eq reg_sys.select_convs(1) reg_sys.update_convs(1))
qed

end
