(* ===== verification/Workflow.thy ===== *)
theory Workflow
  imports Votport_Base Complex_Main
begin

text \<open>
  Delivery projects and jobs: \<open>server/src/workflow.rs\<close>, with the notification policy of
  \<open>server/src/store/notifications.rs\<close> that projects and requests carry. The Unicode folding
  of \<open>within\<close>, the \<open>hex\<close> crate, the Ed25519 key check and the JSON document of a job's
  checks are the parameters of \<open>workflow_lib\<close>. A \<open>BTreeMap\<close> is the association list of
  its entries in key order.
\<close>

section \<open>Data\<close>

text \<open>
  \<open>fold_path\<close>: NFKC and \<open>char::to\_uppercase\<close> of every character; \<open>hex_decode\<close>:
  \<open>hex::decode\<close>; \<open>verifying_key_ok\<close>: \<open>VerifyingKey::from\_bytes\<close> accepts the 32 bytes.
\<close>

record workflow_lib =
  fold_path :: "rstr \<Rightarrow> rstr"
  hex_decode :: "rstr \<Rightarrow> nat list option"
  verifying_key_ok :: "nat list \<Rightarrow> bool"

record recipient =
  rc_email :: rstr
  rc_holder :: rstr

record sequence =
  sq_prefix :: rstr
  sq_suffix :: rstr
  sq_first :: nat
  sq_last :: nat
  sq_padding :: nat

record media_check =
  video_codec :: "rstr option"
  media_width :: "nat option"
  media_height :: "nat option"
  media_frame_rate :: "rstr option"

datatype notification_mode = Off | Default | Custom

record notification_rule =
  destination_id :: rstr
  rule_events :: "rstr list"

record notification_policy =
  np_mode :: notification_mode
  np_rules :: "notification_rule list"

datatype release = AllDestinations | Local

record project =
  pj_notification_revision :: nat
  pj_notifications :: "notification_policy option"
  pj_id :: rstr
  pj_revision :: nat
  pj_label :: rstr
  pj_directory :: rstr
  pj_members :: "(rstr \<times> rstr) list"
  pj_recipients :: "recipient list"
  pj_allowed_domains :: "rstr list"
  pj_require_approval :: bool
  pj_required_metadata :: "rstr list"
  pj_sequence :: "sequence option"
  pj_media :: "media_check option"
  pj_scan_required :: bool
  pj_destinations :: "rstr list"
  pj_receive :: bool
  pj_release :: release

record import_source =
  storage_id :: rstr
  import_prefix :: rstr

record job_request =
  rq_notifications :: "notification_policy option"
  rq_operation_id :: rstr
  rq_project_id :: rstr
  rq_label :: rstr
  rq_metadata :: "(rstr \<times> rstr) list"
  rq_recipients :: "rstr list"
  rq_not_before :: "nat option"
  rq_deadline :: "nat option"
  rq_expires_days :: nat
  rq_import :: "import_source option"

record received_upload =
  rv_link_id :: rstr
  rv_upload_id :: rstr

datatype job_state =
    Queued | Preparing | AwaitingApproval | Exporting | Retrying | Ready
  | Failed | Cancelled | Retiring | Retired | Suspended

text \<open>A job; \<open>'c\<close> is the JSON value of its checks.\<close>

record 'c job =
  jb_id :: rstr
  jb_tenant :: rstr
  jb_token_generation :: nat
  jb_actor :: rstr
  jb_credential_version :: nat
  jb_automation_token_id :: "rstr option"
  jb_actor_human :: "rstr option"
  jb_request :: job_request
  jb_project :: project
  jb_state :: job_state
  jb_manifest :: "rstr option"
  jb_approved_by :: "rstr option"
  jb_attempts :: nat
  jb_created_at :: nat
  jb_updated_at :: nat
  jb_error :: "rstr option"
  jb_checks :: 'c
  jb_received :: "received_upload option"
  jb_reprocessed_from :: "rstr option"
  jb_reprocessed_as :: "rstr option"

record receive_workflow =
  rw_notifications :: "notification_policy option"
  rw_project_id :: rstr
  rw_metadata :: "(rstr \<times> rstr) list"
  rw_recipients :: "rstr list"

section \<open>Job states\<close>

definition ALL_STATES :: "job_state list" where
  "ALL_STATES = [Queued, Preparing, AwaitingApproval, Exporting, Retrying, Ready,
     Failed, Cancelled, Retiring, Retired, Suspended]"

fun state_str :: "job_state \<Rightarrow> rstr" where
  "state_str Queued = lit ''queued''"
| "state_str Preparing = lit ''preparing''"
| "state_str AwaitingApproval = lit ''awaiting_approval''"
| "state_str Exporting = lit ''exporting''"
| "state_str Retrying = lit ''retrying''"
| "state_str Ready = lit ''ready''"
| "state_str Failed = lit ''failed''"
| "state_str Cancelled = lit ''cancelled''"
| "state_str Retiring = lit ''retiring''"
| "state_str Retired = lit ''retired''"
| "state_str Suspended = lit ''suspended''"

definition running :: "job_state \<Rightarrow> bool" where
  "running s \<longleftrightarrow> s = Preparing \<or> s = Exporting"

definition retiring :: "job_state \<Rightarrow> bool" where
  "retiring s \<longleftrightarrow> s = Retiring \<or> s = Retired"

definition state_from_str :: "rstr \<Rightarrow> rstr + job_state" where
  "state_from_str v =
     (case find (\<lambda>s. state_str s = v) ALL_STATES of
        None \<Rightarrow> Inl (lit ''invalid job state'')
      | Some s \<Rightarrow> Inr s)"

text \<open>\<open>released_at c\<close>: \<open>checks["released\_at"].as\_u64()\<close> of the JSON value.\<close>

definition released :: "('c \<Rightarrow> nat option) \<Rightarrow> 'c job \<Rightarrow> bool" where
  "released released_at j \<longleftrightarrow>
     jb_state j = Ready
     \<or> (released_at (jb_checks j) \<noteq> None
         \<and> (jb_state j = Exporting \<or> jb_state j = Retrying \<or> jb_state j = Failed))"

definition uses_snapshot :: "'c job \<Rightarrow> bool" where
  "uses_snapshot j \<longleftrightarrow>
     jb_received j = None
     \<and> (pj_media (jb_project j) \<noteq> None \<or> pj_scan_required (jb_project j)
         \<or> rq_import (jb_request j) \<noteq> None)"

definition receive_request :: "receive_workflow \<Rightarrow> rstr \<Rightarrow> rstr \<Rightarrow> job_request" where
  "receive_request w operation_id label =
     \<lparr>rq_notifications = rw_notifications w, rq_operation_id = operation_id,
      rq_project_id = rw_project_id w, rq_label = label, rq_metadata = rw_metadata w,
      rq_recipients = rw_recipients w, rq_not_before = None, rq_deadline = None,
      rq_expires_days = 30, rq_import = None\<rparr>"

section \<open>Names and paths\<close>

definition within_directory :: "workflow_lib \<Rightarrow> rstr \<Rightarrow> rstr \<Rightarrow> bool" where
  "within_directory lib directory path =
     (let d = fold_path lib directory; p = fold_path lib path
      in p = d \<or> (case strip_prefix d p of None \<Rightarrow> False | Some rest \<Rightarrow> starts_with rest [47]))"

definition valid_id :: "rstr \<Rightarrow> bool" where
  "valid_id v \<longleftrightarrow> v \<noteq> [] \<and> str_len v \<le> 100
     \<and> list_all (\<lambda>c. is_ascii_alphanumeric c \<or> c = 45 \<or> c = 95) v"

definition valid_path :: "rstr \<Rightarrow> bool" where
  "valid_path v \<longleftrightarrow> v \<noteq> [] \<and> str_len v \<le> 1024 \<and> \<not> list_ex (\<lambda>c. c = 92 \<or> c = 0) v
     \<and> list_all (\<lambda>part. part \<noteq> [] \<and> part \<noteq> lit ''.'' \<and> part \<noteq> lit ''..'') (split_on 47 v)"

definition normalise_import_prefix :: "rstr \<Rightarrow> rstr" where
  "normalise_import_prefix pre =
     join_with [47] (filter (\<lambda>part. part \<noteq> [] \<and> part \<noteq> lit ''.'')
       (split_on 47 (trim_with (\<lambda>c. c = 47) (trim pre))))"

datatype import_cause =
  BadStorageId | PrefixEmpty | DotDotSegment | BackslashOrNul | PrefixTooLong | OtherShape

definition import_refusal_cause :: "rstr \<Rightarrow> rstr \<Rightarrow> import_cause" where
  "import_refusal_cause storage pre =
     (if \<not> valid_id storage then BadStorageId
      else if pre = [] then PrefixEmpty
      else if list_ex (\<lambda>part. part = lit ''..'') (split_on 47 pre) then DotDotSegment
      else if list_ex (\<lambda>c. c = 92 \<or> c = 0) pre then BackslashOrNul
      else if str_len pre > 1024 then PrefixTooLong
      else OtherShape)"

definition admit_label :: "rstr \<Rightarrow> nat \<Rightarrow> bool" where
  "admit_label v limit \<longleftrightarrow> trim v \<noteq> [] \<and> length v \<le> limit \<and> list_all (\<lambda>c. \<not> is_control c) v"

definition valid_holder :: "workflow_lib \<Rightarrow> rstr \<Rightarrow> bool" where
  "valid_holder lib holder \<longleftrightarrow>
     str_len holder = 64 \<and> holder = to_ascii_lowercase holder
     \<and> (case hex_decode lib holder of
          None \<Rightarrow> False
        | Some bytes \<Rightarrow> length bytes = 32 \<and> verifying_key_ok lib bytes)"

definition permission_refusal :: "rstr \<Rightarrow> rstr" where
  "permission_refusal access =
     lit ''Ask an administrator for '' @ access @ lit '' access to this project.''"

section \<open>Frame rates\<close>

definition frame_rate :: "rstr \<Rightarrow> (nat \<times> nat) option" where
  "frame_rate v =
     (case split_once 47 v of
        None \<Rightarrow> None
      | Some (a, b) \<Rightarrow>
         (case parse_uint u32_max a of
            None \<Rightarrow> None
          | Some a \<Rightarrow>
             (case parse_uint u32_max b of
                None \<Rightarrow> None
              | Some b \<Rightarrow> if a > 0 \<and> b > 0 then Some (a, b) else None)))"

text \<open>The products are \<open>u64\<close>, written with their wrap-around.\<close>

definition same_frame_rate :: "rstr \<Rightarrow> rstr \<Rightarrow> bool" where
  "same_frame_rate expected actual =
     (case (frame_rate expected, frame_rate actual) of
        (Some (a, b), Some (c, d)) \<Rightarrow> (a * d) mod 2 ^ 64 = (c * b) mod 2 ^ 64
      | _ \<Rightarrow> False)"

section \<open>Notification policies\<close>

datatype policy_error = RulesWithoutCustom | RuleCount | RepeatedDestination | BadEvents

definition policy_enabled :: "notification_policy \<Rightarrow> bool" where
  "policy_enabled p \<longleftrightarrow> np_mode p \<noteq> Off"

fun check_rules :: "rstr list \<Rightarrow> rstr set \<Rightarrow> notification_rule list \<Rightarrow> policy_error + unit" where
  "check_rules events ids [] = Inr ()"
| "check_rules events ids (r # rs) =
     (if destination_id r \<in> ids then Inl RepeatedDestination
      else if rule_events r = [] \<or> length (rule_events r) > length events
           \<or> list_ex (\<lambda>e. e \<notin> set events) (rule_events r)
           \<or> length (remdups (rule_events r)) \<noteq> length (rule_events r)
      then Inl BadEvents
      else check_rules events (insert (destination_id r) ids) rs)"

definition validate_policy :: "rstr list \<Rightarrow> notification_policy \<Rightarrow> policy_error + unit" where
  "validate_policy events p =
     (if np_mode p \<noteq> Custom then (if np_rules p = [] then Inr () else Inl RulesWithoutCustom)
      else if np_rules p = [] \<or> length (np_rules p) > 32 then Inl RuleCount
      else check_rules events {} (np_rules p))"

section \<open>Projects\<close>

datatype project_error =
    BadIdentity | BadMembers | BadDomains | BadRecipients | DomainsNeedRecipients
  | BadRequiredMetadata | BadSequence | BadDestinations | BadMedia
  | BadRequest | BadMetadata | NotEnrolled | BadImport import_cause

definition same_delivery_policy :: "project \<Rightarrow> project \<Rightarrow> bool" where
  "same_delivery_policy p other \<longleftrightarrow>
     p\<lparr>pj_notifications := pj_notifications other,
       pj_notification_revision := pj_notification_revision other\<rparr> = other"

definition valid_roles :: "rstr list" where
  "valid_roles = [lit ''sender'', lit ''approver'', lit ''viewer'']"

definition bad_domain :: "rstr \<Rightarrow> bool" where
  "bad_domain d \<longleftrightarrow> d = [] \<or> str_len d > 253 \<or> d \<noteq> to_ascii_lowercase d
     \<or> \<not> list_all (\<lambda>c. is_ascii_alphanumeric c \<or> c = 46 \<or> c = 45) d"

definition email_valid :: "rstr list \<Rightarrow> rstr \<Rightarrow> bool" where
  "email_valid domains email \<longleftrightarrow>
     str_len email \<le> 254 \<and> \<not> list_ex is_whitespace email
     \<and> (case split_once 64 email of
          None \<Rightarrow> False
        | Some (local_part, domain) \<Rightarrow>
           local_part \<noteq> [] \<and> 64 \<notin> set domain \<and> domain \<noteq> []
           \<and> (domains = [] \<or> list_ex (\<lambda>d. eq_ignore_ascii_case domain d) domains))"

text \<open>The \<open>any\<close> over the recipients with its set of holders seen so far.\<close>

fun bad_recipient :: "workflow_lib \<Rightarrow> rstr list \<Rightarrow> rstr set \<Rightarrow> recipient list \<Rightarrow> bool" where
  "bad_recipient lib domains holders [] = False"
| "bad_recipient lib domains holders (r # rs) =
     (\<not> email_valid domains (rc_email r) \<or> \<not> valid_holder lib (rc_holder r)
      \<or> rc_holder r \<in> holders
      \<or> bad_recipient lib domains (insert (rc_holder r) holders) rs)"

definition bad_sequence :: "sequence \<Rightarrow> bool" where
  "bad_sequence s \<longleftrightarrow> sq_first s > sq_last s \<or> sq_last s - sq_first s > 1000000
     \<or> \<not> (1 \<le> sq_padding s \<and> sq_padding s \<le> 10)
     \<or> \<not> valid_path (sq_prefix s @ lit ''0'' @ sq_suffix s)"

definition bad_media :: "media_check \<Rightarrow> bool" where
  "bad_media m \<longleftrightarrow>
     (case video_codec m of None \<Rightarrow> False | Some v \<Rightarrow> \<not> valid_id v)
     \<or> media_width m = Some 0 \<or> media_height m = Some 0
     \<or> (case media_frame_rate m of None \<Rightarrow> False | Some v \<Rightarrow> frame_rate v = None)"

definition validate_project :: "workflow_lib \<Rightarrow> project \<Rightarrow> project_error + unit" where
  "validate_project lib p =
     (if \<not> valid_id (pj_id p) \<or> \<not> admit_label (pj_label p) 200 \<or> \<not> valid_path (pj_directory p)
      then Inl BadIdentity
      else if length (pj_members p) > 500
           \<or> list_ex (\<lambda>(subject, role). subject = [] \<or> str_len subject > 600 \<or> role \<notin> set valid_roles)
               (pj_members p)
      then Inl BadMembers
      else if length (pj_allowed_domains p) > 100 \<or> list_ex bad_domain (pj_allowed_domains p)
      then Inl BadDomains
      else if length (pj_recipients p) > 500
           \<or> bad_recipient lib (pj_allowed_domains p) {} (pj_recipients p)
      then Inl BadRecipients
      else if pj_allowed_domains p \<noteq> [] \<and> pj_recipients p = [] then Inl DomainsNeedRecipients
      else if length (pj_required_metadata p) > 50
           \<or> list_ex (\<lambda>key. \<not> valid_id key) (pj_required_metadata p)
      then Inl BadRequiredMetadata
      else if (case pj_sequence p of None \<Rightarrow> False | Some s \<Rightarrow> bad_sequence s) then Inl BadSequence
      else if length (pj_destinations p) > 16 \<or> list_ex (\<lambda>d. \<not> valid_id d) (pj_destinations p)
           \<or> length (remdups (pj_destinations p)) \<noteq> length (pj_destinations p)
      then Inl BadDestinations
      else if (case pj_media p of None \<Rightarrow> False | Some m \<Rightarrow> bad_media m) then Inl BadMedia
      else Inr ())"

definition allows :: "project \<Rightarrow> rstr \<Rightarrow> rstr \<Rightarrow> bool \<Rightarrow> bool" where
  "allows p actor role administrator \<longleftrightarrow>
     administrator
     \<or> (case map_of (pj_members p) actor of
          None \<Rightarrow> False
        | Some allowed \<Rightarrow>
           allowed = role
           \<or> (role = lit ''viewer'' \<and> (allowed = lit ''sender'' \<or> allowed = lit ''approver'')))"

definition bad_schedule :: "job_request \<Rightarrow> nat \<Rightarrow> bool" where
  "bad_schedule r now \<longleftrightarrow>
     (case rq_not_before r of None \<Rightarrow> False | Some t \<Rightarrow> t > sat_add now (365 * 86400))
     \<or> (case rq_deadline r of
          None \<Rightarrow> False
        | Some t \<Rightarrow> t \<le> max (case rq_not_before r of None \<Rightarrow> now | Some n \<Rightarrow> n) now
                  \<or> t > sat_add now (366 * 86400))"

definition missing_metadata :: "job_request \<Rightarrow> rstr \<Rightarrow> bool" where
  "missing_metadata r key \<longleftrightarrow>
     (case map_of (rq_metadata r) key of None \<Rightarrow> True | Some v \<Rightarrow> trim v = [])"

definition validate_job :: "project \<Rightarrow> job_request \<Rightarrow> nat \<Rightarrow> project_error + unit" where
  "validate_job p r now =
     (if \<not> valid_id (rq_operation_id r) \<or> rq_project_id r \<noteq> pj_id p
         \<or> \<not> admit_label (rq_label r) 200
         \<or> \<not> (1 \<le> rq_expires_days r \<and> rq_expires_days r \<le> 365)
         \<or> bad_schedule r now
      then Inl BadRequest
      else if length (rq_metadata r) > 50
           \<or> list_ex (\<lambda>(k, v). \<not> valid_id k \<or> str_len v > 4096) (rq_metadata r)
           \<or> list_ex (missing_metadata r) (pj_required_metadata p)
      then Inl BadMetadata
      else if length (rq_recipients r) > 500
           \<or> (pj_recipients p \<noteq> [] \<and> rq_recipients r = [])
           \<or> list_ex (\<lambda>holder. \<not> list_ex (\<lambda>rc. rc_holder rc = holder) (pj_recipients p)) (rq_recipients r)
      then Inl NotEnrolled
      else case rq_import r of
             None \<Rightarrow> Inr ()
           | Some i \<Rightarrow>
               if \<not> valid_id (storage_id i) \<or> \<not> valid_path (import_prefix i)
               then Inl (BadImport (import_refusal_cause (storage_id i) (import_prefix i)))
               else Inr ())"

section \<open>Facts the properties share\<close>

instantiation job_state :: enum
begin

definition enum_job_state :: "job_state list" where
  "enum_job_state = ALL_STATES"

definition enum_all_job_state :: "(job_state \<Rightarrow> bool) \<Rightarrow> bool" where
  "enum_all_job_state P \<longleftrightarrow> list_all P ALL_STATES"

definition enum_ex_job_state :: "(job_state \<Rightarrow> bool) \<Rightarrow> bool" where
  "enum_ex_job_state P \<longleftrightarrow> list_ex P ALL_STATES"

instance
proof
  show univ: "(UNIV :: job_state set) = set enum_class.enum"
    by (auto simp: enum_job_state_def ALL_STATES_def intro: job_state.exhaust)
  show "distinct (enum_class.enum :: job_state list)"
    by (simp add: enum_job_state_def ALL_STATES_def)
  show "enum_class.enum_all P = Ball UNIV P" "enum_class.enum_ex P = Bex UNIV P"
    for P :: "job_state \<Rightarrow> bool"
    unfolding univ by (simp_all add: enum_all_job_state_def enum_ex_job_state_def enum_job_state_def
      list_all_iff list_ex_iff)
qed

end

lemma set_ALL_STATES: "s \<in> set ALL_STATES"
  using UNIV_enum [where 'a = job_state] by (simp add: enum_job_state_def [symmetric])

lemma state_str_inj: "state_str s = state_str t \<longleftrightarrow> s = t"
  by (cases s; cases t) (simp_all add: lit_def)

subsection \<open>Segments\<close>

lemma split_on_rev: "split_on d (rev s) = rev (map rev (split_on d s))"
proof -
  have r: "rev (join_with [d] ws) = join_with [d] (rev (map rev ws))" for ws
  proof (induction ws)
    case (Cons w ws)
    have snoc: "us \<noteq> [] \<Longrightarrow> join_with [d] (us @ [u]) = join_with [d] us @ [d] @ u" for us u
      by (induction us rule: induct_list012) auto
    from Cons snoc [of "rev (map rev ws)" "rev w"] show ?case by (cases "ws = []") (auto simp: join_Cons)
  qed simp
  have "split_on d (rev (join_with [d] (split_on d s))) = rev (map rev (split_on d s))"
    unfolding r by (rule split_join) (auto dest: split_on_no_delim)
  then show ?thesis by (simp add: join_split)
qed

lemma segment_survives_dropWhile:
  "w \<in> set (split_on d s) \<Longrightarrow> w \<noteq> [] \<Longrightarrow> \<not> P (hd w) \<Longrightarrow> w \<in> set (split_on d (dropWhile P s))"
proof (induction s)
  case (Cons c s)
  show ?case
  proof (cases "P c")
    case True
    then have "w \<in> set (split_on d s)"
      using Cons.prems by (auto split: if_splits list.splits)
    with True Cons show ?thesis by simp
  next
    case False
    with Cons.prems show ?thesis by simp
  qed
qed simp

lemma segment_survives_trim:
  assumes "w \<in> set (split_on d s)" and "w \<noteq> []" and "\<not> P (hd w)" and "\<not> P (last w)"
  shows "w \<in> set (split_on d (trim_with P s))"
proof -
  let ?t = "dropWhile P s"
  have "rev w \<in> set (split_on d (rev ?t))"
    using segment_survives_dropWhile [where P = P, OF assms(1-3)] by (simp add: split_on_rev)
  then have "rev w \<in> set (split_on d (dropWhile P (rev ?t)))"
    by (rule segment_survives_dropWhile) (use assms in \<open>auto simp: hd_rev\<close>)
  then show ?thesis
    by (auto simp: trim_with_def trim_end_with_def trim_start_with_def split_on_rev
        intro: image_eqI [of _ _ "rev w"])
qed

lemma normalise_segments:
  "normalise_import_prefix raw = [] \<or>
   split_on 47 (normalise_import_prefix raw)
     = filter (\<lambda>part. part \<noteq> [] \<and> part \<noteq> lit ''.'') (split_on 47 (trim_with (\<lambda>c. c = 47) (trim raw)))"
proof -
  let ?ws = "filter (\<lambda>part. part \<noteq> [] \<and> part \<noteq> lit ''.'') (split_on 47 (trim_with (\<lambda>c. c = 47) (trim raw)))"
  show ?thesis
    unfolding normalise_import_prefix_def
    by (cases "?ws = []") (auto intro!: split_join dest: split_on_no_delim)
qed

lemma dot_dot_survives:
  assumes "lit ''..'' \<in> set (split_on 47 raw)"
  shows "lit ''..'' \<in> set (split_on 47 (normalise_import_prefix raw))"
proof -
  let ?t = "trim_with (\<lambda>c. c = 47) (trim raw)"
  have "lit ''..'' \<in> set (split_on 47 (trim raw))"
    unfolding trim_def by (rule segment_survives_trim [OF assms]) (simp_all add: lit_def is_whitespace_def)
  then have "lit ''..'' \<in> set (split_on 47 ?t)"
    by (rule segment_survives_trim) (simp_all add: lit_def)
  then have m: "lit ''..'' \<in> set (filter (\<lambda>part. part \<noteq> [] \<and> part \<noteq> lit ''.'') (split_on 47 ?t))"
    by (simp add: lit_def)
  have "normalise_import_prefix raw \<noteq> []"
    unfolding normalise_import_prefix_def
    by (rule join_nonempty) (use m in \<open>auto simp: filter_empty_conv\<close>)
  with normalise_segments [of raw] m show ?thesis by simp
qed

lemma valid_path_normalised:
  assumes "pre = normalise_import_prefix raw"
  shows "valid_path pre \<longleftrightarrow> pre \<noteq> [] \<and> str_len pre \<le> 1024 \<and> \<not> list_ex (\<lambda>c. c = 92 \<or> c = 0) pre
      \<and> lit ''..'' \<notin> set (split_on 47 pre)"
  using normalise_segments [of raw] assms by (auto simp: valid_path_def list_all_iff)

subsection \<open>Accepted projects and jobs\<close>

lemma validate_project_parts:
  assumes "validate_project lib p = Inr ()"
  shows "\<not> bad_recipient lib (pj_allowed_domains p) {} (pj_recipients p)"
    and "pj_allowed_domains p = [] \<or> pj_recipients p \<noteq> []"
    and "\<not> list_ex (\<lambda>(subject, role). subject = [] \<or> str_len subject > 600 \<or> role \<notin> set valid_roles) (pj_members p)"
  using assms by (simp_all add: validate_project_def split: if_splits)

lemma validate_job_parts:
  assumes "validate_job p r now = Inr ()"
  shows "\<not> bad_schedule r now"
    and "pj_recipients p = [] \<or> rq_recipients r \<noteq> []"
    and "\<not> list_ex (\<lambda>h. \<not> list_ex (\<lambda>rc. rc_holder rc = h) (pj_recipients p)) (rq_recipients r)"
  using assms by (simp_all add: validate_job_def split: if_splits)

lemma bad_recipient_iff:
  "\<not> bad_recipient lib domains holders rs \<longleftrightarrow>
     distinct (map rc_holder rs) \<and> holders \<inter> rc_holder ` set rs = {}
     \<and> (\<forall>r \<in> set rs. email_valid domains (rc_email r) \<and> valid_holder lib (rc_holder r))"
  by (induction rs arbitrary: holders) auto

lemma frame_rate_bounds:
  "frame_rate v = Some (a, b) \<Longrightarrow> 0 < a \<and> a \<le> u32_max \<and> 0 < b \<and> b \<le> u32_max"
  by (auto simp: frame_rate_def dest!: parse_uint_le split: option.splits if_splits)

lemma frame_products_fit:
  assumes "a \<le> u32_max" and "d \<le> u32_max"
  shows "a * d \<le> u64_max" and "(a * d) mod 2 ^ 64 = a * d"
proof -
  have "a * d \<le> u32_max * u32_max" using assms by (intro mult_le_mono)
  then show "a * d \<le> u64_max" and "(a * d) mod 2 ^ 64 = a * d"
    by (simp_all add: u32_max_def u64_max_def)
qed

lemma strip_prefix_iff: "strip_prefix d p = Some r \<longleftrightarrow> p = d @ r"
  by (induction d p rule: strip_prefix.induct) auto

section \<open>Properties\<close>

text \<open>The database and wire spelling of a job state is read back as that state, and nothing
  else is a job state.\<close>

theorem job_states_round_trip: "state_from_str v = Inr s \<longleftrightarrow> v = state_str s"
proof -
  have "state_from_str (state_str s) = Inr s"
    by (cases s) (simp_all add: state_from_str_def ALL_STATES_def lit_def)
  moreover have "state_str s = v" if "state_from_str v = Inr s"
    using that by (auto simp: state_from_str_def split: option.splits dest: find_SomeD)
  ultimately show ?thesis by auto
qed

text \<open>A storage import refused after its prefix was normalised is refused with one of the named
  shapes; the generic last message of \<open>import_refusal_cause\<close> is unreachable.\<close>

theorem import_refusals_are_named:
  assumes "rq_import r = Some i" and "import_prefix i = normalise_import_prefix raw"
    and "validate_job p r now = Inl (BadImport cause)"
  shows "cause \<noteq> OtherShape \<and> (cause = BadStorageId \<or> \<not> valid_path (import_prefix i))"
proof -
  have "cause = import_refusal_cause (storage_id i) (import_prefix i)"
    and "\<not> valid_id (storage_id i) \<or> \<not> valid_path (import_prefix i)"
    using assms(1,3) by (auto simp: validate_job_def split: if_splits)
  then show ?thesis
    using valid_path_normalised [OF assms(2)]
    by (auto simp: import_refusal_cause_def list_ex_iff)
qed

text \<open>A \<open>..\<close> segment is never normalised away: an import prefix that contains one is
  refused after normalisation, whatever surrounds the segment.\<close>

theorem dot_dot_never_imported:
  assumes "lit ''..'' \<in> set (split_on 47 raw)"
  shows "\<not> valid_path (normalise_import_prefix raw)"
  using dot_dot_survives [OF assms] by (auto simp: valid_path_def list_all_iff)

theorem dot_dot_never_imported_witness: "\<not> valid_path (normalise_import_prefix (lit '' /./../x/''))"
  by (rule dot_dot_never_imported) (simp add: lit_def)

text \<open>Frame rates agree exactly when both are ratios of positive 32-bit integers with the same
  rational value; the 64-bit cross products never wrap.\<close>

theorem same_frame_rate_exact:
  "same_frame_rate e v \<longleftrightarrow>
     (\<exists>a b c d. frame_rate e = Some (a, b) \<and> frame_rate v = Some (c, d)
        \<and> a * d \<le> u64_max \<and> c * b \<le> u64_max \<and> real a / real b = real c / real d)"
proof -
  have "(a * d) mod 2 ^ 64 = (c * b) mod 2 ^ 64 \<longleftrightarrow> real a / real b = real c / real d"
    "a * d \<le> u64_max" "c * b \<le> u64_max"
    if "frame_rate e = Some (a, b)" "frame_rate v = Some (c, d)" for a b c d
  proof -
    note k = frame_rate_bounds [OF that(1)] frame_rate_bounds [OF that(2)]
    show "a * d \<le> u64_max" "c * b \<le> u64_max" using k frame_products_fit by auto
    have "real a / real b = real c / real d \<longleftrightarrow> real (a * d) = real (c * b)"
      using k by (simp add: frac_eq_eq)
    also have "\<dots> \<longleftrightarrow> a * d = c * b" by (rule of_nat_eq_iff)
    finally show "(a * d) mod 2 ^ 64 = (c * b) mod 2 ^ 64 \<longleftrightarrow> real a / real b = real c / real d"
      using k frame_products_fit(2) [of a d] frame_products_fit(2) [of c b] by simp
  qed
  then show ?thesis
    unfolding same_frame_rate_def by (auto split: option.splits)
qed

text \<open>A job accepted for a project that restricts its recipients' domains names at least one
  recipient, and every named holder is enrolled with an address under an allowed domain.\<close>

theorem restricted_projects_reach_allowed_domains:
  assumes "validate_project lib p = Inr ()" and "validate_job p r now = Inr ()"
    and "pj_allowed_domains p \<noteq> []"
  shows "rq_recipients r \<noteq> [] \<and>
     list_all (\<lambda>holder. valid_holder lib holder
        \<and> list_ex (\<lambda>rc. rc_holder rc = holder
             \<and> (case split_once 64 (rc_email rc) of None \<Rightarrow> False
                 | Some (_, domain) \<Rightarrow> list_ex (eq_ignore_ascii_case domain) (pj_allowed_domains p)))
            (pj_recipients p))
       (rq_recipients r)"
  using validate_project_parts(1,2) [OF assms(1)] validate_job_parts(2,3) [OF assms(2)] assms(3)
  by (fastforce simp: bad_recipient_iff list_all_iff list_ex_iff email_valid_def split: option.splits)

text \<open>Notification edits never change what a project permits: two projects with the same
  delivery policy validate alike, grant the same roles and accept the same jobs.\<close>

theorem same_policy_same_decisions:
  assumes "same_delivery_policy p q"
  shows "validate_project lib p = validate_project lib q
         \<and> allows p actor role administrator = allows q actor role administrator
         \<and> validate_job p r now = validate_job q r now"
proof -
  obtain n v where q: "q = p\<lparr>pj_notifications := n, pj_notification_revision := v\<rparr>"
    using assms by (metis same_delivery_policy_def)
  show ?thesis unfolding q by (simp add: validate_project_def allows_def validate_job_def)
qed

text \<open>Roles of a valid project: a member is granted only the three known roles, any granted
  role may also view, and nobody without administrator rights may both send and approve.\<close>

theorem roles_are_separated:
  assumes "validate_project lib p = Inr ()" and "allows p actor role False"
  shows "role \<in> set valid_roles \<and> allows p actor (lit ''viewer'') False
         \<and> \<not> (allows p actor (lit ''sender'') False \<and> allows p actor (lit ''approver'') False)"
proof -
  obtain allowed where m: "map_of (pj_members p) actor = Some allowed"
    using assms(2) by (auto simp: allows_def split: option.splits)
  then have "allowed \<in> set valid_roles"
    using validate_project_parts(3) [OF assms(1)] by (auto simp: list_ex_iff dest: map_of_SomeD)
  then show ?thesis
    using assms(2) m by (auto simp: allows_def valid_roles_def lit_def)
qed

text \<open>Folder membership is by whole path components: a path is within a project directory
  exactly when the directory's segments are a prefix of its segments after folding.\<close>

lemma within_components:
  "within_directory lib directory path \<longleftrightarrow>
     prefix (split_on 47 (fold_path lib directory)) (split_on 47 (fold_path lib path))"
proof -
  have "p = d \<or> (\<exists>r. p = d @ 47 # r) \<longleftrightarrow> prefix (split_on 47 d) (split_on 47 p)" for d p
  proof
    have app: "split_on 47 (d @ 47 # r) = split_on 47 d @ split_on 47 r" for r
      by (induction d) (auto split: list.splits)
    assume "p = d \<or> (\<exists>r. p = d @ 47 # r)"
    then show "prefix (split_on 47 d) (split_on 47 p)" by (auto simp: app)
  next
    assume "prefix (split_on 47 d) (split_on 47 p)"
    then obtain ws where ws: "split_on 47 p = split_on 47 d @ ws" by (auto simp: prefix_def)
    have join_append: "us \<noteq> [] \<Longrightarrow> vs \<noteq> [] \<Longrightarrow>
       join_with [47] (us @ vs) = join_with [47] us @ 47 # join_with [47] vs" for us vs
      by (induction us rule: induct_list012) (auto simp: join_Cons)
    have "p = join_with [47] (split_on 47 d @ ws)" unfolding ws [symmetric] by (simp add: join_split)
    then show "p = d \<or> (\<exists>r. p = d @ 47 # r)"
      by (cases "ws = []") (simp_all add: join_append join_split)
  qed
  moreover have "within_directory lib directory path \<longleftrightarrow>
      fold_path lib path = fold_path lib directory
      \<or> (\<exists>r. fold_path lib path = fold_path lib directory @ 47 # r)"
  proof (cases "strip_prefix (fold_path lib directory) (fold_path lib path)")
    case None
    then have "fold_path lib path \<noteq> fold_path lib directory @ r" for r
      using strip_prefix_iff [of "fold_path lib directory" "fold_path lib path" r] by simp
    with None show ?thesis by (auto simp: within_directory_def)
  next
    case (Some rest)
    then have "fold_path lib path = fold_path lib directory @ rest" by (simp add: strip_prefix_iff)
    with Some show ?thesis by (cases rest) (auto simp: within_directory_def starts_with_def)
  qed
  ultimately show ?thesis by simp
qed

section \<open>Witnesses\<close>

definition demo_lib :: workflow_lib where
  "demo_lib = \<lparr>fold_path = id, hex_decode = (\<lambda>s. Some (replicate 32 0)), verifying_key_ok = (\<lambda>_. True)\<rparr>"

definition demo_project :: project where
  "demo_project = \<lparr>pj_notification_revision = 0, pj_notifications = None, pj_id = lit ''project'',
     pj_revision = 0, pj_label = lit ''Delivery'', pj_directory = lit ''project'',
     pj_members = [(lit ''approver'', lit ''approver''), (lit ''sender'', lit ''sender'')],
     pj_recipients = [\<lparr>rc_email = lit ''p@Example.com'', rc_holder = replicate 64 97\<rparr>],
     pj_allowed_domains = [lit ''example.com''], pj_require_approval = True,
     pj_required_metadata = [], pj_sequence = None, pj_media = None, pj_scan_required = False,
     pj_destinations = [], pj_receive = False, pj_release = AllDestinations\<rparr>"

definition demo_request :: job_request where
  "demo_request = \<lparr>rq_notifications = None, rq_operation_id = lit ''op_1'', rq_project_id = lit ''project'',
     rq_label = lit ''Final'', rq_metadata = [], rq_recipients = [replicate 64 97], rq_not_before = None,
     rq_deadline = Some 200, rq_expires_days = 1, rq_import = None\<rparr>"

lemma demo_project_valid: "validate_project demo_lib demo_project = Inr ()"
  by code_simp

lemma demo_request_valid: "validate_job demo_project demo_request 100 = Inr ()"
  by code_simp

theorem import_refusals_are_named_witness:
  "import_refusal_cause (lit ''store'') (normalise_import_prefix (lit ''../x'')) \<noteq> OtherShape"
proof -
  let ?i = "\<lparr>storage_id = lit ''store'', import_prefix = normalise_import_prefix (lit ''../x'')\<rparr>"
  have "validate_job demo_project (demo_request\<lparr>rq_import := Some ?i\<rparr>) 100 = Inl (BadImport DotDotSegment)"
    by code_simp
  from import_refusals_are_named [OF _ _ this, of ?i "lit ''../x''"]
  have "DotDotSegment \<noteq> OtherShape" by simp
  moreover have "import_refusal_cause (lit ''store'') (normalise_import_prefix (lit ''../x'')) = DotDotSegment"
    by code_simp
  ultimately show ?thesis by simp
qed

theorem restricted_projects_reach_allowed_domains_witness: "rq_recipients demo_request \<noteq> []"
  using restricted_projects_reach_allowed_domains [OF demo_project_valid demo_request_valid]
  by (simp add: demo_project_def)

theorem same_policy_same_decisions_witness:
  "validate_job (demo_project\<lparr>pj_notification_revision := 7\<rparr>) demo_request 100 = Inr ()"
proof -
  have "same_delivery_policy (demo_project\<lparr>pj_notification_revision := 7\<rparr>) demo_project"
    by (simp add: same_delivery_policy_def demo_project_def)
  from same_policy_same_decisions [OF this, of demo_lib "[]" "[]" False demo_request 100]
  show ?thesis by (simp add: demo_request_valid)
qed

theorem roles_are_separated_witness:
  "\<not> allows demo_project (lit ''sender'') (lit ''approver'') False"
proof -
  have s: "allows demo_project (lit ''sender'') (lit ''sender'') False" by code_simp
  from roles_are_separated [OF demo_project_valid s] s show ?thesis by simp
qed

end
