(* ===== verification/Throttle.thy ===== *)
theory Throttle
  imports Votport_Base
begin

text \<open>
  The attempt limits: the global and per-address password throttles of
  \<open>server/src/auth.rs\<close>, and the session and download budgets of
  \<open>server/src/api/session_rate.rs\<close>. Instants are nanoseconds of the monotonic clock; each
  operation takes the instant its lock was held at, where the code may read the clock more
  than once. The three per-key tables share one interface, the locale \<open>bounded_table\<close>:
  no operation grows a table past its cap, and an admitted key is always tracked.
\<close>

section \<open>Password throttles\<close>

definition SECOND :: nat where "SECOND = 1000000000"

definition LOCKOUT_THRESHOLD :: nat where "LOCKOUT_THRESHOLD = 5"

definition LOCKOUT :: nat where "LOCKOUT = 60 * SECOND"

definition IP_ENTRY_TTL_SECS :: nat where "IP_ENTRY_TTL_SECS = 600"

definition IP_TABLE_CAP :: nat where "IP_TABLE_CAP = 4096"

definition lock_live :: "nat option \<Rightarrow> nat \<Rightarrow> bool" where
  "lock_live u now \<longleftrightarrow> (case u of None \<Rightarrow> False | Some until \<Rightarrow> now < until)"

type_synonym login_throttle = "nat \<times> nat option"

definition new_login :: login_throttle where
  "new_login = (0, None)"

definition login_locked :: "nat \<Rightarrow> login_throttle \<Rightarrow> bool" where
  "login_locked now s \<longleftrightarrow> lock_live (snd s) now"

definition login_claim :: "nat \<Rightarrow> login_throttle \<Rightarrow> bool \<times> login_throttle" where
  "login_claim now s =
     (if lock_live (snd s) now then (False, s)
      else if fst s + 1 \<ge> LOCKOUT_THRESHOLD then (True, (0, Some (now + LOCKOUT)))
      else (True, (fst s + 1, snd s)))"

definition login_succeeded :: "login_throttle \<Rightarrow> login_throttle" where
  "login_succeeded s = (0, None)"

record ip_state =
  failures :: nat
  locked_until :: "nat option"
  last_seen :: nat

type_synonym ip_throttle = "(rstr, ip_state) hmap"

definition ip_locked :: "rstr \<Rightarrow> nat \<Rightarrow> ip_throttle \<Rightarrow> bool" where
  "ip_locked ip now s \<longleftrightarrow>
     (case map_of s ip of None \<Rightarrow> False | Some e \<Rightarrow> lock_live (locked_until e) now)"

text \<open>Dropping a victim that a search may have found.\<close>

definition remove_victim :: "'k option \<Rightarrow> ('k, 'v) hmap \<Rightarrow> ('k, 'v) hmap" where
  "remove_victim v m = (case v of None \<Rightarrow> m | Some k \<Rightarrow> AList.delete k m)"

definition ip_victim :: "nat \<Rightarrow> ip_throttle \<Rightarrow> rstr option" where
  "ip_victim now s =
     (case min_by_key (\<lambda>(_, e). last_seen e) (filter (\<lambda>(_, e). \<not> lock_live (locked_until e) now) s) of
        Some (k, _) \<Rightarrow> Some k
      | None \<Rightarrow> map_option fst (min_by_key (\<lambda>(_, e). locked_until e) s))"

definition ip_sweep :: "nat \<Rightarrow> ip_throttle \<Rightarrow> ip_throttle" where
  "ip_sweep now s =
     filter (\<lambda>(_, e). lock_live (locked_until e) now
                    \<or> (now - last_seen e) div SECOND < IP_ENTRY_TTL_SECS) s"

definition evict_if_full :: "rstr \<Rightarrow> nat \<Rightarrow> ip_throttle \<Rightarrow> ip_throttle" where
  "evict_if_full ip now s =
     (if length s \<ge> IP_TABLE_CAP then
        let s1 = ip_sweep now s
        in if length s1 \<ge> IP_TABLE_CAP \<and> \<not> contains_key ip s1
           then remove_victim (ip_victim now s1) s1 else s1
      else s)"

definition count_failure :: "nat \<Rightarrow> ip_state \<Rightarrow> ip_state" where
  "count_failure now e =
     (let e1 = e\<lparr>last_seen := now, failures := failures e + 1\<rparr>
      in if failures e1 \<ge> LOCKOUT_THRESHOLD
         then e1\<lparr>locked_until := Some (now + LOCKOUT), failures := 0\<rparr> else e1)"

definition ip_claim :: "rstr \<Rightarrow> nat \<Rightarrow> ip_throttle \<Rightarrow> bool \<times> ip_throttle" where
  "ip_claim ip now s =
     (if ip_locked ip now s then (False, s)
      else
        let s1 = evict_if_full ip now s;
            e = (case map_of s1 ip of
                   None \<Rightarrow> \<lparr>failures = 0, locked_until = None, last_seen = now\<rparr>
                 | Some e \<Rightarrow> e)
        in (True, AList.update ip (count_failure now e) s1))"

definition ip_succeeded :: "rstr \<Rightarrow> ip_throttle \<Rightarrow> ip_throttle" where
  "ip_succeeded ip s = AList.delete ip s"

section \<open>Session creation\<close>

definition MAX_PER_WINDOW :: nat where "MAX_PER_WINDOW = 20"

definition WINDOW :: nat where "WINDOW = 600 * SECOND"

definition TABLE_CAP :: nat where "TABLE_CAP = 4096"

type_synonym session_rate = "(rstr, nat list) hmap"

definition in_window :: "nat \<Rightarrow> nat \<Rightarrow> bool" where
  "in_window now at_time \<longleftrightarrow> now - at_time < WINDOW"

fun newest :: "nat list \<Rightarrow> nat option" where
  "newest [] = None"
| "newest (x # xs) = (case newest xs of None \<Rightarrow> Some x | Some y \<Rightarrow> Some (max x y))"

definition rate_sweep :: "nat \<Rightarrow> session_rate \<Rightarrow> session_rate" where
  "rate_sweep now s =
     filter (\<lambda>(_, es). es \<noteq> []) (map (\<lambda>(k, es). (k, filter (in_window now) es)) s)"

definition make_room :: "rstr \<Rightarrow> nat \<Rightarrow> session_rate \<Rightarrow> session_rate" where
  "make_room ip now s =
     (if length s \<ge> TABLE_CAP then
        let s1 = rate_sweep now s
        in if length s1 \<ge> TABLE_CAP \<and> \<not> contains_key ip s1
           then remove_victim (map_option fst (min_by_key (\<lambda>(_, es). newest es) s1)) s1 else s1
      else s)"

definition rate_allow :: "nat \<Rightarrow> rstr \<Rightarrow> nat \<Rightarrow> session_rate \<Rightarrow> bool \<times> session_rate" where
  "rate_allow max_per_window ip now s =
     (let s1 = make_room ip now s;
          entries = filter (in_window now) (case map_of s1 ip of None \<Rightarrow> [] | Some es \<Rightarrow> es)
      in if length entries \<ge> max_per_window then (False, AList.update ip entries s1)
         else (True, AList.update ip (entries @ [now]) s1))"

definition rate_refund :: "rstr \<Rightarrow> session_rate \<Rightarrow> session_rate" where
  "rate_refund ip s =
     (case map_of s ip of None \<Rightarrow> s | Some es \<Rightarrow> AList.update ip (butlast es) s)"

section \<open>Download budgets\<close>

record download_bucket =
  tokens :: nat
  bucket_last :: nat
  file_count :: "nat option"

definition DOWNLOAD_CAPACITY :: nat where "DOWNLOAD_CAPACITY = 2000"

definition DOWNLOAD_WINDOW_NANOS :: nat where "DOWNLOAD_WINDOW_NANOS = 600000000000"

definition DOWNLOAD_SCALE :: nat where "DOWNLOAD_SCALE = 1000000"

definition DOWNLOAD_TABLE_CAP :: nat where "DOWNLOAD_TABLE_CAP = 4096"

definition DOWNLOAD_MAX_TOKENS :: nat where
  "DOWNLOAD_MAX_TOKENS = DOWNLOAD_CAPACITY * DOWNLOAD_SCALE * DOWNLOAD_WINDOW_NANOS"

type_synonym download_rate = "(rstr, download_bucket) hmap"

definition download_room :: "nat \<Rightarrow> download_rate \<Rightarrow> download_rate" where
  "download_room now s =
     (let s1 = filter (\<lambda>(_, b). now - bucket_last b < DOWNLOAD_WINDOW_NANOS) s
      in if length s1 \<ge> DOWNLOAD_TABLE_CAP
         then remove_victim (map_option fst (min_by_key (\<lambda>(_, b). bucket_last b) s1)) s1 else s1)"

text \<open>One charge on a bucket: refill by the time elapsed, then spend. The \<open>u128\<close>
  operations saturate.\<close>

definition charge :: "nat \<Rightarrow> nat option \<Rightarrow> nat \<Rightarrow> download_bucket \<Rightarrow> bool \<times> download_bucket" where
  "charge cost files now b =
     (let refill = min ((now - bucket_last b) * (DOWNLOAD_CAPACITY * DOWNLOAD_SCALE)) u128_max;
          b1 = b\<lparr>tokens := min (min (tokens b + refill) u128_max) DOWNLOAD_MAX_TOKENS,
                 bucket_last := max (bucket_last b) now,
                 file_count := (case file_count b of None \<Rightarrow> files | Some c \<Rightarrow> Some c)\<rparr>
      in if tokens b1 < cost then (False, b1) else (True, b1\<lparr>tokens := tokens b1 - cost\<rparr>))"

definition allow_at :: "rstr \<Rightarrow> nat \<Rightarrow> nat option \<Rightarrow> nat \<Rightarrow> download_rate \<Rightarrow> bool \<times> download_rate" where
  "allow_at key cost files now s =
     (let scaled = min (cost * DOWNLOAD_WINDOW_NANOS) u128_max;
          s1 = (if contains_key key s then s
                else AList.update key \<lparr>tokens = DOWNLOAD_MAX_TOKENS, bucket_last = now, file_count = files\<rparr>
                       (download_room now s));
          (granted, b) = charge scaled files now (the (map_of s1 key))
      in (granted, AList.update key b s1))"

definition download_allow :: "rstr \<Rightarrow> nat \<Rightarrow> download_rate \<Rightarrow> bool \<times> download_rate" where
  "download_allow key now s = allow_at key DOWNLOAD_SCALE None now s"

definition div_ceil :: "nat \<Rightarrow> nat \<Rightarrow> nat" where
  "div_ceil a b = (if a mod b = 0 then a div b else a div b + 1)"

text \<open>\<open>load\<close> is the caller's loader of the file count; it is only used on a cache miss.\<close>

definition allow_individual :: "rstr \<Rightarrow> 'e + nat \<Rightarrow> nat \<Rightarrow> download_rate \<Rightarrow> ('e + bool) \<times> download_rate" where
  "allow_individual key load now s =
     (case (case map_of s key of None \<Rightarrow> None | Some b \<Rightarrow> file_count b) of
        Some c \<Rightarrow> (let (g, s1) = allow_at key (div_ceil DOWNLOAD_SCALE c) (Some c) now s in (Inr g, s1))
      | None \<Rightarrow>
         (case load of
            Inl e \<Rightarrow> (Inl e, s)
          | Inr n \<Rightarrow> (let c = max n 1;
                         (g, s1) = allow_at key (div_ceil DOWNLOAD_SCALE c) (Some c) now s
                     in (Inr g, s1))))"

section \<open>The interface of a bounded table\<close>

locale bounded_table =
  fixes call :: "'q \<Rightarrow> 'k \<Rightarrow> ('k, 'v) hmap \<Rightarrow> bool \<times> ('k, 'v) hmap"
    and cap :: nat
  assumes call_ok: "hm_ok m \<Longrightarrow> hm_ok (snd (call q k m))"
    and call_cap: "hm_ok m \<Longrightarrow> length m \<le> cap \<Longrightarrow> length (snd (call q k m)) \<le> cap"
    and call_tracks: "fst (call q k m) \<Longrightarrow> contains_key k (snd (call q k m))"
begin

definition run :: "('q \<times> 'k) list \<Rightarrow> ('k, 'v) hmap" where
  "run calls = fold (\<lambda>(q, k) m. snd (call q k m)) calls []"

lemma run_bounded: "hm_ok (run calls) \<and> length (run calls) \<le> cap"
proof -
  have "hm_ok m \<and> length m \<le> cap \<Longrightarrow>
      hm_ok (fold (\<lambda>(q, k) m. snd (call q k m)) calls m)
      \<and> length (fold (\<lambda>(q, k) m. snd (call q k m)) calls m) \<le> cap" for m
    by (induction calls arbitrary: m) (auto intro: call_ok call_cap)
  then show ?thesis by (simp add: run_def)
qed

lemma run_tracks: "fst (call q k (run calls)) \<Longrightarrow> contains_key k (run (calls @ [(q, k)]))"
  by (simp add: run_def call_tracks)

end

lemma hm_ok_remove_victim [hmap_simps, intro]: "hm_ok m \<Longrightarrow> hm_ok (remove_victim v m)"
  by (auto simp: remove_victim_def split: option.splits)

lemma length_remove_victim: "length (remove_victim v m) \<le> length m"
  by (auto simp: remove_victim_def AList.delete_eq split: option.splits)

lemma length_delete: "length m \<le> cap \<Longrightarrow> length (AList.delete k m) \<le> cap"
  by (auto simp: AList.delete_eq intro: le_trans [OF length_filter_le])

lemma remove_victim_frees:
  "v = Some k \<Longrightarrow> contains_key k m \<Longrightarrow> length (remove_victim v m) < length m"
  by (simp add: remove_victim_def length_delete_less)

lemma contains_key_update [simp]: "contains_key k (AList.update k v m)"
  by (simp add: contains_key_def hmap_simps)

lemma update_fits:
  "length m \<le> cap \<Longrightarrow> contains_key k m \<or> length m < cap \<Longrightarrow> length (AList.update k v m) \<le> cap"
  by (auto simp: length_update)

lemma min_by_key_victim:
  "m \<noteq> [] \<Longrightarrow> \<exists>k. map_option fst (min_by_key g m) = Some k \<and> contains_key k m"
  by (cases "min_by_key g m") (auto simp: contains_key_iff dest: min_by_key_in)

text \<open>What the three evictions have in common: afterwards there is room for the key.\<close>

definition has_room :: "nat \<Rightarrow> 'k \<Rightarrow> ('k, 'v) hmap \<Rightarrow> bool" where
  "has_room cap k m \<longleftrightarrow> length m \<le> cap \<and> (contains_key k m \<or> length m < cap)"

lemma has_room_update: "has_room cap k m \<Longrightarrow> length (AList.update k v m) \<le> cap"
  by (auto simp: has_room_def intro: update_fits)

lemma remove_victim_room:
  assumes "length m \<le> cap" and "\<exists>k. v = Some k \<and> contains_key k m"
  shows "has_room cap key (if length m \<ge> cap \<and> \<not> contains_key key m then remove_victim v m else m)"
proof -
  obtain k where "v = Some k" "contains_key k m" using assms(2) by blast
  then have "length (remove_victim v m) < length m" by (rule remove_victim_frees)
  with assms(1) show ?thesis by (auto simp: has_room_def)
qed

lemma room_after_eviction:
  assumes "length m \<le> cap" and "0 < cap" and "m \<noteq> [] \<Longrightarrow> \<exists>k. v = Some k \<and> contains_key k m"
  shows "has_room cap key (if length m \<ge> cap \<and> \<not> contains_key key m then remove_victim v m else m)"
proof (cases "m = []")
  case False
  with assms show ?thesis by (intro remove_victim_room)
qed (use assms in \<open>simp add: has_room_def\<close>)

section \<open>The tables keep their interface\<close>

lemma ip_victim_found: "s \<noteq> [] \<Longrightarrow> \<exists>k. ip_victim now s = Some k \<and> contains_key k s"
proof (cases "min_by_key (\<lambda>(_, e). last_seen e) (filter (\<lambda>(_, e). \<not> lock_live (locked_until e) now) s)")
  case None
  show "s \<noteq> [] \<Longrightarrow> ?thesis"
    unfolding ip_victim_def None option.case by (rule min_by_key_victim)
next
  case (Some p)
  then have "p \<in> set s" by (auto dest: min_by_key_in)
  with Some show ?thesis by (cases p) (force simp: ip_victim_def contains_key_iff)
qed

lemma evict_if_full_ok: "hm_ok s \<Longrightarrow> hm_ok (evict_if_full ip now s)"
  by (auto simp: evict_if_full_def ip_sweep_def Let_def)

lemma IP_TABLE_CAP_pos: "0 < IP_TABLE_CAP" by (simp add: IP_TABLE_CAP_def)

lemma evict_if_full_room:
  assumes "length s \<le> IP_TABLE_CAP"
  shows "has_room IP_TABLE_CAP ip (evict_if_full ip now s)"
proof (cases "length s \<ge> IP_TABLE_CAP")
  case True
  have l: "length (ip_sweep now s) \<le> IP_TABLE_CAP"
    using assms by (auto simp: ip_sweep_def intro: le_trans [OF length_filter_le])
  have "has_room IP_TABLE_CAP ip
      (if length (ip_sweep now s) \<ge> IP_TABLE_CAP \<and> \<not> contains_key ip (ip_sweep now s)
       then remove_victim (ip_victim now (ip_sweep now s)) (ip_sweep now s) else ip_sweep now s)"
    by (rule room_after_eviction [OF l IP_TABLE_CAP_pos]) (rule ip_victim_found)
  with True show ?thesis by (simp add: evict_if_full_def Let_def)
qed (use assms in \<open>auto simp: has_room_def evict_if_full_def\<close>)

datatype throttle_call = Claim nat | Succeeded

definition ip_call :: "throttle_call \<Rightarrow> rstr \<Rightarrow> ip_throttle \<Rightarrow> bool \<times> ip_throttle" where
  "ip_call c ip s = (case c of Claim now \<Rightarrow> ip_claim ip now s | Succeeded \<Rightarrow> (False, ip_succeeded ip s))"

interpretation ip_table: bounded_table ip_call IP_TABLE_CAP
proof
  fix m :: ip_throttle and c k
  show "hm_ok m \<Longrightarrow> hm_ok (snd (ip_call c k m))"
    by (auto simp: ip_call_def ip_claim_def ip_succeeded_def Let_def evict_if_full_ok
        split: throttle_call.splits)
  show "length m \<le> IP_TABLE_CAP \<Longrightarrow> length (snd (ip_call c k m)) \<le> IP_TABLE_CAP"
    by (auto simp: ip_call_def ip_claim_def ip_succeeded_def Let_def length_delete
        intro: has_room_update evict_if_full_room split: throttle_call.splits)
  show "fst (ip_call c k m) \<Longrightarrow> contains_key k (snd (ip_call c k m))"
    by (auto simp: ip_call_def ip_claim_def Let_def split: throttle_call.splits if_splits)
qed

lemma hm_ok_rate_sweep: "hm_ok s \<Longrightarrow> hm_ok (rate_sweep now s)"
  unfolding rate_sweep_def by (rule hm_ok_filter) (simp add: hm_ok_def comp_def case_prod_unfold)

lemma make_room_ok: "hm_ok s \<Longrightarrow> hm_ok (make_room ip now s)"
  by (auto simp: make_room_def Let_def hm_ok_rate_sweep)

lemma make_room_room:
  assumes "length s \<le> TABLE_CAP"
  shows "has_room TABLE_CAP ip (make_room ip now s)"
proof (cases "length s \<ge> TABLE_CAP")
  case True
  have l: "length (rate_sweep now s) \<le> TABLE_CAP"
    using assms unfolding rate_sweep_def by (auto intro: le_trans [OF length_filter_le])
  have "has_room TABLE_CAP ip
      (if length (rate_sweep now s) \<ge> TABLE_CAP \<and> \<not> contains_key ip (rate_sweep now s)
       then remove_victim (map_option fst (min_by_key (\<lambda>(_, es). newest es) (rate_sweep now s))) (rate_sweep now s)
       else rate_sweep now s)"
    by (rule room_after_eviction [OF l]) (simp add: TABLE_CAP_def, rule min_by_key_victim)
  with True show ?thesis by (simp add: make_room_def Let_def)
qed (use assms in \<open>auto simp: has_room_def make_room_def\<close>)

datatype session_call = Allow nat nat | Refund

definition session_step :: "session_call \<Rightarrow> rstr \<Rightarrow> session_rate \<Rightarrow> bool \<times> session_rate" where
  "session_step c ip s =
     (case c of Allow limit now \<Rightarrow> rate_allow limit ip now s | Refund \<Rightarrow> (False, rate_refund ip s))"

lemma length_rate_refund: "length (rate_refund ip s) = length s"
  by (auto simp: rate_refund_def length_update contains_key_def split: option.splits)

interpretation session_table: bounded_table session_step TABLE_CAP
proof
  fix m :: session_rate and c k
  show "hm_ok m \<Longrightarrow> hm_ok (snd (session_step c k m))"
    by (auto simp: session_step_def rate_allow_def rate_refund_def Let_def make_room_ok
        split: session_call.splits option.splits)
  show "length m \<le> TABLE_CAP \<Longrightarrow> length (snd (session_step c k m)) \<le> TABLE_CAP"
    by (cases c) (auto simp: session_step_def rate_allow_def Let_def length_rate_refund
        intro: has_room_update make_room_room)
  show "fst (session_step c k m) \<Longrightarrow> contains_key k (snd (session_step c k m))"
    by (auto simp: session_step_def rate_allow_def Let_def split: session_call.splits)
qed

lemma download_room_ok: "hm_ok s \<Longrightarrow> hm_ok (download_room now s)"
  by (auto simp: download_room_def Let_def)

lemma download_room_length:
  assumes "length s \<le> DOWNLOAD_TABLE_CAP"
  shows "length (download_room now s) < DOWNLOAD_TABLE_CAP"
proof -
  let ?s = "filter (\<lambda>(_, b). now - bucket_last b < DOWNLOAD_WINDOW_NANOS) s"
  have l: "length ?s \<le> DOWNLOAD_TABLE_CAP" using assms by (rule le_trans [OF length_filter_le])
  show ?thesis
  proof (cases "length ?s \<ge> DOWNLOAD_TABLE_CAP")
    case True
    then obtain k where "map_option fst (min_by_key (\<lambda>(_, b). bucket_last b) ?s) = Some k" "contains_key k ?s"
      using min_by_key_victim [of ?s] by (force simp: DOWNLOAD_TABLE_CAP_def)
    from remove_victim_frees [OF this] True l show ?thesis by (simp add: download_room_def Let_def)
  qed (auto simp: download_room_def Let_def)
qed

datatype download_call = AllowAt nat "nat option" nat

definition download_step :: "download_call \<Rightarrow> rstr \<Rightarrow> download_rate \<Rightarrow> bool \<times> download_rate" where
  "download_step c key s = (case c of AllowAt cost files now \<Rightarrow> allow_at key cost files now s)"

interpretation download_table: bounded_table download_step DOWNLOAD_TABLE_CAP
proof
  fix m :: download_rate and c k
  show "hm_ok m \<Longrightarrow> hm_ok (snd (download_step c k m))"
    by (auto simp: download_step_def allow_at_def Let_def download_room_ok
        split: download_call.splits prod.splits)
  show "length m \<le> DOWNLOAD_TABLE_CAP \<Longrightarrow> length (snd (download_step c k m)) \<le> DOWNLOAD_TABLE_CAP"
    using download_room_length [of m]
    by (auto simp: download_step_def allow_at_def Let_def length_update Suc_le_eq less_imp_le
        split: download_call.splits prod.splits)
  show "fst (download_step c k m) \<Longrightarrow> contains_key k (snd (download_step c k m))"
    by (auto simp: download_step_def allow_at_def Let_def split: download_call.splits prod.splits)
qed

section \<open>The lockout as a sliding window\<close>

text \<open>The instants of the admitted attempts of a run of claims.\<close>

fun login_admitted :: "nat list \<Rightarrow> login_throttle \<Rightarrow> nat list" where
  "login_admitted [] s = []"
| "login_admitted (t # ts) s =
     (if fst (login_claim t s) then t # login_admitted ts (snd (login_claim t s))
      else login_admitted ts (snd (login_claim t s)))"

lemma login_admitted_times: "x \<in> set (login_admitted ts s) \<Longrightarrow> x \<in> set ts"
proof (induction ts arbitrary: s)
  case (Cons t ts)
  then show ?case using Cons.IH [of "snd (login_claim t s)"] by (simp split: if_splits) blast
qed simp

lemma admitted_after_lock:
  "sorted ts \<Longrightarrow> snd s = Some v \<Longrightarrow> x \<in> set (login_admitted ts s) \<Longrightarrow> v \<le> x"
proof (induction ts arbitrary: s)
  case (Cons t ts)
  show ?case
  proof (cases "lock_live (snd s) t")
    case True
    with Cons show ?thesis by (simp add: login_claim_def)
  next
    case False
    then have "v \<le> t" using Cons.prems(2) by (simp add: lock_live_def)
    moreover have "t \<le> x"
      using Cons.prems(1,3) by (auto split: if_splits dest: login_admitted_times)
    ultimately show ?thesis by simp
  qed
qed simp

lemma lockout_window:
  "sorted ts \<Longrightarrow> fst s < LOCKOUT_THRESHOLD \<Longrightarrow> a = login_admitted ts s \<Longrightarrow>
     (\<forall>i. i + 5 < length a \<longrightarrow> a ! i + LOCKOUT \<le> a ! (i + 5))
     \<and> (\<forall>j. 5 - fst s \<le> j \<longrightarrow> j < length a \<longrightarrow> a ! (4 - fst s) + LOCKOUT \<le> a ! j)"
proof (induction ts arbitrary: s a)
  case (Cons t ts)
  have n: "fst s < 5" using Cons.prems(2) by (simp add: LOCKOUT_THRESHOLD_def)
  have srt: "sorted ts" using Cons.prems(1) by simp
  show ?case
  proof (cases "lock_live (snd s) t")
    case True
    then have "login_claim t s = (False, s)" by (simp add: login_claim_def)
    then show ?thesis using Cons.IH [OF srt Cons.prems(2)] Cons.prems(3) by simp
  next
    case False
    let ?s = "snd (login_claim t s)"
    let ?b = "login_admitted ts ?s"
    have a: "a = t # ?b" using False Cons.prems(3) by (simp add: login_claim_def)
    have later: "t \<le> x" if "x \<in> set ?b" for x
      using login_admitted_times [OF that] Cons.prems(1) by simp
    show ?thesis
    proof (cases "fst s = 4")
      case True
      then have s: "?s = (0, Some (t + LOCKOUT))"
        using False by (simp add: login_claim_def LOCKOUT_THRESHOLD_def)
      have lock: "t + LOCKOUT \<le> ?b ! j" if "j < length ?b" for j
        using admitted_after_lock [OF srt, of ?s "t + LOCKOUT" "?b ! j"] that s by simp
      have "fst ?s < LOCKOUT_THRESHOLD" using s by (simp add: LOCKOUT_THRESHOLD_def)
      from Cons.IH [OF srt this refl] have ih: "\<And>i. i + 5 < length ?b \<Longrightarrow> ?b ! i + LOCKOUT \<le> ?b ! (i + 5)"
        by blast
      have "a ! i + LOCKOUT \<le> a ! (i + 5)" if "i + 5 < length a" for i
        using that lock [of "i + 4"] ih [of "i - 1"] unfolding a by (cases i) (auto simp: add.commute)
      moreover have "a ! (4 - fst s) + LOCKOUT \<le> a ! j" if "5 - fst s \<le> j" "j < length a" for j
        using that lock [of "j - 1"] True unfolding a by (cases j) auto
      ultimately show ?thesis by blast
    next
      case f: False
      then have s: "fst ?s = fst s + 1"
        using False n by (simp add: login_claim_def LOCKOUT_THRESHOLD_def)
      then have "fst ?s < LOCKOUT_THRESHOLD" using n f by (simp add: LOCKOUT_THRESHOLD_def)
      note ih = Cons.IH [OF srt this refl]
      have i: "?b ! i + LOCKOUT \<le> ?b ! (i + 5)" if "i + 5 < length ?b" for i using ih that by blast
      have j: "?b ! (4 - (fst s + 1)) + LOCKOUT \<le> ?b ! j" if "5 - (fst s + 1) \<le> j" "j < length ?b" for j
        using ih that unfolding s by blast
      have first: "t + LOCKOUT \<le> ?b ! j" if "4 \<le> j" "j < length ?b" for j
      proof -
        have "4 - (fst s + 1) < length ?b" using that by linarith
        then have "t \<le> ?b ! (4 - (fst s + 1))" by (intro later) simp
        then show ?thesis using j [of j] that by linarith
      qed
      have "a ! k + LOCKOUT \<le> a ! (k + 5)" if "k + 5 < length a" for k
        using that i [of "k - 1"] first [of 4] unfolding a by (cases k) (auto simp: add.commute)
      moreover have "a ! (4 - fst s) + LOCKOUT \<le> a ! k" if h: "5 - fst s \<le> k" "k < length a" for k
      proof -
        obtain k' where k: "k = Suc k'" "4 - fst s = Suc (4 - (fst s + 1))"
          using h n f by (cases k) auto
        show ?thesis using h j [of k'] unfolding a k by simp
      qed
      ultimately show ?thesis by blast
    qed
  qed
qed simp

section \<open>Every address as its own throttle\<close>

text \<open>Below the cap, the table is one independent \<open>LoginThrottle\<close> per address.\<close>

definition slot :: "rstr \<Rightarrow> ip_throttle \<Rightarrow> login_throttle" where
  "slot ip s = (case map_of s ip of None \<Rightarrow> (0, None) | Some e \<Rightarrow> (failures e, locked_until e))"

lemma ip_claim_slot:
  assumes "length s < IP_TABLE_CAP"
  shows "fst (ip_claim ip now s) = fst (login_claim now (slot ip s))"
    and "slot other (snd (ip_claim ip now s)) =
           (if other = ip then snd (login_claim now (slot ip s)) else slot other s)"
proof -
  have e: "evict_if_full ip now s = s" using assms by (simp add: evict_if_full_def)
  have "fst (ip_claim ip now s) = fst (login_claim now (slot ip s))
      \<and> slot other (snd (ip_claim ip now s)) =
           (if other = ip then snd (login_claim now (slot ip s)) else slot other s)"
  proof (cases "map_of s ip")
    case None
    then show ?thesis
      by (auto simp: slot_def ip_claim_def e hmap_simps ip_locked_def lock_live_def login_claim_def
          count_failure_def Let_def LOCKOUT_THRESHOLD_def)
  next
    case (Some x)
    then show ?thesis
      by (auto simp: slot_def ip_claim_def e hmap_simps ip_locked_def login_claim_def
          count_failure_def Let_def)
  qed
  then show "fst (ip_claim ip now s) = fst (login_claim now (slot ip s))"
    and "slot other (snd (ip_claim ip now s)) =
           (if other = ip then snd (login_claim now (slot ip s)) else slot other s)" by auto
qed

fun ip_admitted :: "rstr \<Rightarrow> (rstr \<times> nat) list \<Rightarrow> ip_throttle \<Rightarrow> nat list" where
  "ip_admitted ip [] s = []"
| "ip_admitted ip ((who, t) # calls) s =
     (if who = ip \<and> fst (ip_claim who t s) then t # ip_admitted ip calls (snd (ip_claim who t s))
      else ip_admitted ip calls (snd (ip_claim who t s)))"

lemma ip_claim_keys:
  assumes "length s < IP_TABLE_CAP"
  shows "fst ` set (snd (ip_claim ip now s)) \<subseteq> insert ip (fst ` set s)"
proof -
  have "evict_if_full ip now s = s" using assms by (simp add: evict_if_full_def)
  then show ?thesis
    by (auto simp: ip_claim_def Let_def dom_map_of_conv_image_fst [symmetric] dom_def update_conv'
        split: if_splits)
qed

lemma few_keys:
  assumes "hm_ok m" and "fst ` set m \<subseteq> K" and "finite K" and "card K < cap"
  shows "length m < cap"
proof -
  have "length m = card (fst ` set m)"
    using assms(1) by (metis distinct_card hm_ok_def length_map set_map)
  also have "\<dots> \<le> card K" using assms(2,3) by (rule card_mono [rotated])
  finally show ?thesis using assms(4) by simp
qed

lemma ip_admitted_login:
  assumes "finite K" and "card K < IP_TABLE_CAP"
  shows "hm_ok s \<Longrightarrow> fst ` set s \<subseteq> K \<Longrightarrow> fst ` set calls \<subseteq> K \<Longrightarrow>
    ip_admitted ip calls s = login_admitted (map snd (filter (\<lambda>c. fst c = ip) calls)) (slot ip s)"
proof (induction calls arbitrary: s)
  case (Cons c calls)
  obtain who t where c: "c = (who, t)" by (cases c)
  have len: "length s < IP_TABLE_CAP" using Cons.prems assms by (intro few_keys)
  let ?s = "snd (ip_claim who t s)"
  have "hm_ok ?s" using ip_table.call_ok [of s "Claim t" who] Cons.prems(1) by (simp add: ip_call_def)
  moreover have "fst ` set ?s \<subseteq> K"
    using ip_claim_keys [OF len, of who t] Cons.prems(2,3) unfolding c by auto
  ultimately have ih: "ip_admitted ip calls ?s
      = login_admitted (map snd (filter (\<lambda>c. fst c = ip) calls)) (slot ip ?s)"
    using Cons.prems(3) by (intro Cons.IH) auto
  show ?case
    unfolding c using ih by (cases "who = ip") (simp_all add: ip_claim_slot [OF len])
qed simp

section \<open>Session creations in a window\<close>

fun window_admitted :: "nat \<Rightarrow> nat list \<Rightarrow> nat list \<Rightarrow> nat list" where
  "window_admitted m [] es = []"
| "window_admitted m (t # ts) es =
     (let live = filter (in_window t) es
      in if length live \<ge> m then window_admitted m ts live
         else t # window_admitted m ts (live @ [t]))"

lemma window_admitted_times: "set (window_admitted m ts es) \<subseteq> set ts"
  by (induction m ts es rule: window_admitted.induct) (auto simp: Let_def)

lemma live_is_suffix:
  "sorted es \<Longrightarrow> \<exists>k \<le> length es. filter (in_window t) es = drop k es \<and> (\<forall>i < k. \<not> in_window t (es ! i))"
proof (induction es)
  case (Cons e es)
  show ?case
  proof (cases "in_window t e")
    case True
    then have "in_window t x" if "x \<in> set es" for x
      using that Cons.prems by (fastforce simp: in_window_def)
    with True have "filter (in_window t) (e # es) = drop 0 (e # es)" by (simp add: filter_id_conv)
    then show ?thesis by (intro exI [of _ 0]) simp
  next
    case False
    obtain k where "k \<le> length es" "filter (in_window t) es = drop k es" "\<forall>i < k. \<not> in_window t (es ! i)"
      using Cons by auto
    with False show ?thesis by (intro exI [of _ "Suc k"]) (auto simp: nth_Cons split: nat.splits)
  qed
qed simp

lemma window_limit:
  "sorted ts \<Longrightarrow> sorted es \<Longrightarrow> (\<forall>e \<in> set es. \<forall>t \<in> set ts. e \<le> t) \<Longrightarrow>
   a = window_admitted m ts es \<Longrightarrow>
   \<forall>j. j < length a \<longrightarrow> m \<le> length es + j \<longrightarrow> 0 < m \<longrightarrow>
     (es @ a) ! (length es + j - m) + WINDOW \<le> a ! j"
proof (induction ts arbitrary: es a)
  case (Cons t ts)
  obtain k where k: "k \<le> length es" "filter (in_window t) es = drop k es" "\<forall>i < k. \<not> in_window t (es ! i)"
    using live_is_suffix [OF Cons.prems(2)] by blast
  have dead: "es ! i + WINDOW \<le> t" if "i < k" for i
  proof -
    have "es ! i \<le> t" using that k(1) Cons.prems(3) by simp
    then show ?thesis using that k(3) by (auto simp: in_window_def not_less)
  qed
  have srt: "sorted ts" "sorted (drop k es)" "\<forall>e \<in> set (drop k es). \<forall>t \<in> set ts. e \<le> t"
    using Cons.prems by (auto simp: sorted_wrt_drop dest: in_set_dropD)
  show ?case
  proof (cases "m \<le> length (drop k es)")
    case True
    then have a: "a = window_admitted m ts (drop k es)"
      using Cons.prems(4) k(2) by (simp add: Let_def)
    note ih = Cons.IH [OF srt a]
    have "(es @ a) ! (length es + j - m) + WINDOW \<le> a ! j" if "j < length a" "0 < m" for j
    proof -
      have "(drop k es @ a) ! (length (drop k es) + j - m) + WINDOW \<le> a ! j"
        using ih that True by simp
      moreover have "(drop k es @ a) ! (length (drop k es) + j - m) = (es @ a) ! (length es + j - m)"
        using True k(1) by (auto simp: nth_append intro: arg_cong [of _ _ "nth es"])
      ultimately show ?thesis by simp
    qed
    then show ?thesis by blast
  next
    case False
    let ?l = "drop k es @ [t]"
    let ?b = "window_admitted m ts ?l"
    have a: "a = t # ?b" using Cons.prems(4) k(2) False by (simp add: Let_def)
    have "sorted ?l" "\<forall>e \<in> set ?l. \<forall>t \<in> set ts. e \<le> t"
      using srt(2,3) Cons.prems(1,3) by (auto simp: sorted_append dest: in_set_dropD)
    note ih = Cons.IH [OF srt(1) this refl]
    have later: "t \<le> x" if "x \<in> set ?b" for x
      using window_admitted_times that Cons.prems(1) by fastforce
    have "(es @ a) ! (length es + j - m) + WINDOW \<le> a ! j"
      if j: "j < length a" "m \<le> length es + j" "0 < m" for j
    proof (cases "length es + j - m < k")
      case True
      have "a ! j \<in> insert t (set ?b)" using j(1) unfolding a by (cases j) auto
      then have "t \<le> a ! j" using later by auto
      then show ?thesis using dead [OF True] True k(1) by (simp add: nth_append)
    next
      case f: False
      then obtain i where i: "j = Suc i" using False k(1) j by (cases j) auto
      have len: "m \<le> length ?l + i" using f i k(1) j by simp
      have b: "i < length ?b" using j(1) unfolding a i by simp
      have "(?l @ ?b) ! (length ?l + i - m) + WINDOW \<le> ?b ! i" using ih b len j(3) by blast
      moreover have "(?l @ ?b) ! (length ?l + i - m) = (es @ a) ! (length es + j - m)"
      proof -
        have e: "es @ a = take k es @ (?l @ ?b)" unfolding a by simp
        have "length es + j - m = k + (length ?l + i - m)" using f i k(1) j len by simp
        then show ?thesis unfolding e using k(1) by (simp add: nth_append)
      qed
      ultimately show ?thesis unfolding a i by simp
    qed
    then show ?thesis by blast
  qed
qed simp

definition attempts :: "rstr \<Rightarrow> session_rate \<Rightarrow> nat list" where
  "attempts ip s = (case map_of s ip of None \<Rightarrow> [] | Some es \<Rightarrow> es)"

lemma rate_allow_slot:
  assumes "length s < TABLE_CAP"
  shows "fst (rate_allow m ip now s) \<longleftrightarrow> length (filter (in_window now) (attempts ip s)) < m"
    and "attempts other (snd (rate_allow m ip now s)) =
      (if other \<noteq> ip then attempts other s
       else if length (filter (in_window now) (attempts ip s)) < m
       then filter (in_window now) (attempts ip s) @ [now] else filter (in_window now) (attempts ip s))"
  using assms by (auto simp: rate_allow_def make_room_def attempts_def Let_def hmap_simps)

fun ip_sessions :: "nat \<Rightarrow> rstr \<Rightarrow> (rstr \<times> nat) list \<Rightarrow> session_rate \<Rightarrow> nat list" where
  "ip_sessions m ip [] s = []"
| "ip_sessions m ip ((who, t) # calls) s =
     (if who = ip \<and> fst (rate_allow m who t s) then t # ip_sessions m ip calls (snd (rate_allow m who t s))
      else ip_sessions m ip calls (snd (rate_allow m who t s)))"

lemma rate_allow_keys:
  assumes "length s < TABLE_CAP"
  shows "fst ` set (snd (rate_allow m ip now s)) \<subseteq> insert ip (fst ` set s)"
  using assms by (auto simp: rate_allow_def make_room_def Let_def dom_map_of_conv_image_fst [symmetric]
      dom_def update_conv' split: if_splits)

lemma ip_sessions_window:
  assumes "finite K" and "card K < TABLE_CAP"
  shows "hm_ok s \<Longrightarrow> fst ` set s \<subseteq> K \<Longrightarrow> fst ` set calls \<subseteq> K \<Longrightarrow>
    ip_sessions m ip calls s = window_admitted m (map snd (filter (\<lambda>c. fst c = ip) calls)) (attempts ip s)"
proof (induction calls arbitrary: s)
  case (Cons c calls)
  obtain who t where c: "c = (who, t)" by (cases c)
  have len: "length s < TABLE_CAP" using Cons.prems assms by (intro few_keys)
  let ?s = "snd (rate_allow m who t s)"
  have "hm_ok ?s" using session_table.call_ok [of s "Allow m t" who] Cons.prems(1) by (simp add: session_step_def)
  moreover have "fst ` set ?s \<subseteq> K"
    using rate_allow_keys [OF len, of m who t] Cons.prems(2,3) unfolding c by auto
  ultimately have ih: "ip_sessions m ip calls ?s
      = window_admitted m (map snd (filter (\<lambda>c. fst c = ip) calls)) (attempts ip ?s)"
    using Cons.prems(3) by (intro Cons.IH) auto
  show ?case
    unfolding c using ih by (cases "who = ip") (simp_all add: rate_allow_slot [OF len] Let_def not_less)
qed simp

section \<open>The token bucket\<close>

definition RATE :: nat where "RATE = DOWNLOAD_CAPACITY * DOWNLOAD_SCALE"

fun charges :: "(nat \<times> nat) list \<Rightarrow> download_bucket \<Rightarrow> nat \<times> download_bucket" where
  "charges [] b = (0, b)"
| "charges ((cost, now) # cs) b =
     (let (ok, b1) = charge cost None now b;
          (spent, b2) = charges cs b1
      in (spent + (if ok then cost else 0), b2))"

lemma charge_potential:
  "tokens (snd (charge cost files now b)) + (if fst (charge cost files now b) then cost else 0)
     \<le> tokens b + (bucket_last (snd (charge cost files now b)) - bucket_last b) * RATE
   \<and> bucket_last b \<le> bucket_last (snd (charge cost files now b))"
proof -
  define e where "e = now - bucket_last b"
  have e: "max (bucket_last b) now - bucket_last b = e" by (simp add: e_def)
  define refill where "refill = min (e * RATE) u128_max"
  define have_now where "have_now = min (min (tokens b + refill) u128_max) DOWNLOAD_MAX_TOKENS"
  have "have_now \<le> tokens b + e * RATE" by (simp add: have_now_def refill_def min.coboundedI1)
  then show ?thesis
    unfolding charge_def RATE_def [symmetric] e_def [symmetric] refill_def [symmetric] Let_def
      have_now_def [symmetric]
    by (simp add: e)
qed

lemma charges_potential:
  "charges cs b = (spent, b') \<Longrightarrow>
     spent + tokens b' \<le> tokens b + (bucket_last b' - bucket_last b) * RATE \<and> bucket_last b \<le> bucket_last b'"
proof (induction cs arbitrary: b spent)
  case (Cons c cs)
  obtain cost now where c: "c = (cost, now)" by (cases c)
  obtain ok b1 where s: "charge cost None now b = (ok, b1)" by (cases "charge cost None now b")
  obtain spent1 where r: "charges cs b1 = (spent1, b')" "spent = spent1 + (if ok then cost else 0)"
    using Cons.prems unfolding c by (auto simp: s Let_def split: prod.splits)
  have a: "tokens b1 + (if ok then cost else 0) \<le> tokens b + (bucket_last b1 - bucket_last b) * RATE"
    "bucket_last b \<le> bucket_last b1"
    using charge_potential [of cost None now b] unfolding s by simp_all
  have d: "spent1 + tokens b' \<le> tokens b1 + (bucket_last b' - bucket_last b1) * RATE"
    "bucket_last b1 \<le> bucket_last b'"
    using Cons.IH [OF r(1)] by simp_all
  have "(bucket_last b' - bucket_last b1) * RATE + (bucket_last b1 - bucket_last b) * RATE
      = (bucket_last b' - bucket_last b) * RATE"
    using a(2) d(2) by (simp flip: add_mult_distrib)
  then show ?case using a d r(2) by linarith
qed simp

section \<open>Properties\<close>

text \<open>C39: While fewer than 4096 addresses are active, an address that never answers right gets at
  most five admitted password attempts in any lockout period, however its attempts interleave with
  those of the others: the attempt five places later is at least 60 seconds later.\<close>

theorem guesses_are_bounded:
  assumes "sorted (map snd calls)" and "card (fst ` set calls) < IP_TABLE_CAP"
    and "i + 5 < length (ip_admitted ip calls [])"
  shows "ip_admitted ip calls [] ! i + LOCKOUT \<le> ip_admitted ip calls [] ! (i + 5)"
proof -
  let ?ts = "map snd (filter (\<lambda>c. fst c = ip) calls)"
  have "ip_admitted ip calls [] = login_admitted ?ts (0, None)"
    using ip_admitted_login [of "fst ` set calls" "[]" calls ip] assms(2) by (simp add: slot_def)
  moreover have "sorted ?ts"
    using assms(1) by (simp add: sorted_map sorted_wrt_filter)
  ultimately show ?thesis
    using lockout_window [of ?ts "(0, None)" _] assms(3) by (simp add: LOCKOUT_THRESHOLD_def)
qed

theorem guesses_are_bounded_witness:
  "ip_admitted (lit ''a'') (map (\<lambda>n. (lit ''a'', n * 10 * SECOND)) [0..<20]) [] ! 5 \<ge> LOCKOUT"
proof -
  let ?calls = "map (\<lambda>n. (lit ''a'', n * 10 * SECOND)) [0..<20]"
  have "sorted (map snd ?calls)" "card (fst ` set ?calls) < IP_TABLE_CAP"
    "0 + 5 < length (ip_admitted (lit ''a'') ?calls [])"
    by code_simp+
  from guesses_are_bounded [OF this] show ?thesis by simp
qed

text \<open>The claim of another address ends a live lockout only when the table is full of live
  lockouts and the lost one was the nearest to expiring.\<close>

theorem lost_lock_was_nearest:
  assumes "hm_ok s" and "length s \<le> IP_TABLE_CAP" and "ip_locked a now s" and "a \<noteq> b"
    and "\<not> ip_locked a now (snd (ip_claim b now s))"
  shows "length s = IP_TABLE_CAP
         \<and> list_all (\<lambda>(_, e). lock_live (locked_until e) now \<and> snd (slot a s) \<le> locked_until e) s"
proof -
  obtain x where x: "map_of s a = Some x" "lock_live (locked_until x) now"
    using assms(3) by (auto simp: ip_locked_def split: option.splits)
  have kept: "map_of (ip_sweep now s) a = Some x"
    using x by (simp add: ip_sweep_def map_of_filter_ok [OF assms(1)])
  have lost: "map_of (evict_if_full b now s) a \<noteq> Some x"
    using assms(4,5) x
    by (auto simp: ip_claim_def ip_locked_def Let_def hmap_simps split: if_splits option.splits)
  with x kept have full: "length s \<ge> IP_TABLE_CAP" "length (ip_sweep now s) \<ge> IP_TABLE_CAP"
    and victim: "ip_victim now (ip_sweep now s) = Some a"
    by (auto simp: evict_if_full_def Let_def remove_victim_def hmap_simps split: if_splits option.splits)
  have same: "ip_sweep now s = s"
    using assms(2) full(2) unfolding ip_sweep_def
    by (metis (no_types, lifting) filter_id_conv le_antisym length_filter_less le_trans linorder_not_le)
  have none: "filter (\<lambda>(_, e). \<not> lock_live (locked_until e) now) s = []"
  proof (rule ccontr)
    assume "\<not> ?thesis"
    then obtain k e where m: "min_by_key (\<lambda>(_, e). last_seen e)
        (filter (\<lambda>(_, e). \<not> lock_live (locked_until e) now) s) = Some (k, e)"
      by (metis min_by_key_None not_None_eq surj_pair)
    then have "k = a" using victim same by (simp add: ip_victim_def)
    then have "map_of s a = Some e" "\<not> lock_live (locked_until e) now"
      using min_by_key_in [OF m] assms(1) by (auto simp: hm_ok_def)
    with x show False by simp
  qed
  then obtain e where m: "min_by_key (\<lambda>(_, e). locked_until e) s = Some (a, e)"
    using victim same by (auto simp: ip_victim_def)
  then have "e = x" using min_by_key_in [OF m] assms(1) x(1) by (simp add: hm_ok_def)
  then show ?thesis
    using min_by_key_Some [OF m] none full(1) assms(2) x(1)
    by (auto simp: list_all_iff filter_empty_conv slot_def)
qed

theorem lost_lock_was_nearest_witness:
  "\<exists>s. ip_locked (show_nat 0) 5 s \<and> \<not> ip_locked (show_nat 0) 5 (snd (ip_claim [] 5 s))
     \<and> length s = IP_TABLE_CAP"
proof -
  let ?e = "\<lparr>failures = 0, locked_until = Some 10, last_seen = 2\<rparr>"
  let ?s = "map (\<lambda>n. (show_nat n, ?e)) [0..<IP_TABLE_CAP]"
  have cap: "[0..<IP_TABLE_CAP] = 0 # [Suc 0..<IP_TABLE_CAP]" by (rule upt_conv_Cons [OF IP_TABLE_CAP_pos])
  have ok: "hm_ok ?s" by (simp add: hm_ok_def comp_def distinct_map inj_on_def show_nat_inj)
  have len: "length ?s = IP_TABLE_CAP" by simp
  have lock: "ip_locked (show_nat 0) 5 ?s" by (simp add: ip_locked_def cap lock_live_def)
  have sw: "ip_sweep 5 ?s = ?s" by (auto simp: ip_sweep_def lock_live_def filter_id_conv)
  have none: "filter (\<lambda>(_, e). \<not> lock_live (locked_until e) 5) ?s = []"
    by (auto simp: filter_empty_conv lock_live_def)
  have first: "xs \<noteq> [] \<Longrightarrow> min_by_key (\<lambda>(_, e). locked_until e) (map (\<lambda>n. (show_nat n, ?e)) xs)
      = Some (show_nat (hd xs), ?e)" for xs
    by (induction xs rule: list_nonempty_induct) simp_all
  have v: "ip_victim 5 ?s = Some (show_nat 0)"
    unfolding ip_victim_def none using first [of "[0..<IP_TABLE_CAP]"] by (simp add: cap)
  have new: "\<not> contains_key [] ?s" by (auto simp: contains_key_iff eq_commute [of "[]"])
  have nl: "\<not> ip_locked [] 5 ?s"
    using new by (simp add: ip_locked_def contains_key_def)
  have gone: "\<not> ip_locked (show_nat 0) 5 (snd (ip_claim [] 5 ?s))"
    using nl new by (simp add: ip_claim_def evict_if_full_def sw v remove_victim_def ip_locked_def hmap_simps Let_def)
  show ?thesis
    using lost_lock_was_nearest [OF ok _ lock _ gone] lock gone len by (intro exI [of _ ?s]) simp
qed

text \<open>None of the three per-key tables ever grows past its cap, whatever calls arrive, and every
  attempt leaves its key tracked, so a full table never switches a limit off.\<close>

theorem tables_stay_bounded:
  "length (fold (\<lambda>(c, k) m. snd (ip_call c k m)) ip_calls []) \<le> IP_TABLE_CAP
   \<and> length (fold (\<lambda>(c, k) m. snd (session_step c k m)) session_calls []) \<le> TABLE_CAP
   \<and> length (fold (\<lambda>(c, k) m. snd (download_step c k m)) download_calls []) \<le> DOWNLOAD_TABLE_CAP
   \<and> contains_key ip (snd (ip_claim ip now s)) \<and> contains_key ip (snd (rate_allow limit ip now r))
   \<and> contains_key ip (snd (allow_at ip cost files now d))"
proof -
  have "contains_key ip (snd (ip_claim ip now s))"
    by (auto simp: ip_claim_def Let_def ip_locked_def contains_key_def hmap_simps split: option.splits)
  moreover have "contains_key ip (snd (rate_allow limit ip now r))"
    by (simp add: rate_allow_def Let_def)
  moreover have "contains_key ip (snd (allow_at ip cost files now d))"
    by (simp add: allow_at_def Let_def case_prod_unfold)
  ultimately show ?thesis
    using ip_table.run_bounded [of ip_calls] session_table.run_bounded [of session_calls]
      download_table.run_bounded [of download_calls]
    unfolding ip_table.run_def session_table.run_def download_table.run_def by simp
qed

text \<open>While fewer than 4096 addresses are active, no address creates more sessions in any
  ten-minute window than its limit, counting creations that were not handed back.\<close>

theorem session_creations_bounded:
  assumes "sorted (map snd calls)" and "card (fst ` set calls) < TABLE_CAP" and "0 < limit"
    and "i + limit < length (ip_sessions limit ip calls [])"
  shows "ip_sessions limit ip calls [] ! i + WINDOW \<le> ip_sessions limit ip calls [] ! (i + limit)"
proof -
  let ?ts = "map snd (filter (\<lambda>c. fst c = ip) calls)"
  have "ip_sessions limit ip calls [] = window_admitted limit ?ts []"
    using ip_sessions_window [of "fst ` set calls" "[]" calls limit ip] assms(2) by (simp add: attempts_def)
  moreover have "sorted ?ts"
    using assms(1) by (simp add: sorted_map sorted_wrt_filter)
  ultimately show ?thesis
    using window_limit [of ?ts "[]" _ limit, OF _ _ _ refl, THEN spec, of "i + limit"] assms(3,4) by simp
qed

theorem session_creations_bounded_witness:
  "ip_sessions 2 (lit ''a'') (map (\<lambda>n. (lit ''a'', n * 100 * SECOND)) [0..<10]) [] ! 2 \<ge> WINDOW"
proof -
  let ?calls = "map (\<lambda>n. (lit ''a'', n * 100 * SECOND)) [0..<10]"
  have "sorted (map snd ?calls)" "card (fst ` set ?calls) < TABLE_CAP" "0 < (2 :: nat)"
    "0 + 2 < length (ip_sessions 2 (lit ''a'') ?calls [])"
    by code_simp+
  from session_creations_bounded [OF this] show ?thesis by (simp add: numeral_2_eq_2)
qed

text \<open>The credit a delivery can spend over any run of requests is at most what its bucket held
  plus the refill rate times the time that passed, and each full preparation takes one unit.\<close>

theorem download_budget_bounded:
  assumes "charges cs b = (spent, b')" and "tokens b \<le> DOWNLOAD_MAX_TOKENS"
  shows "spent \<le> DOWNLOAD_MAX_TOKENS + (bucket_last b' - bucket_last b) * RATE"
  using charges_potential [OF assms(1)] assms(2) by linarith

theorem download_budget_bounded_witness:
  "fst (charges [(DOWNLOAD_SCALE * DOWNLOAD_WINDOW_NANOS, 7)] \<lparr>tokens = DOWNLOAD_MAX_TOKENS, bucket_last = 7, file_count = None\<rparr>)
     \<le> DOWNLOAD_MAX_TOKENS"
proof -
  let ?b = "\<lparr>tokens = DOWNLOAD_MAX_TOKENS, bucket_last = 7, file_count = None\<rparr>"
  have "snd (charges [(DOWNLOAD_SCALE * DOWNLOAD_WINDOW_NANOS, 7)] ?b)
      = ?b\<lparr>tokens := DOWNLOAD_MAX_TOKENS - DOWNLOAD_SCALE * DOWNLOAD_WINDOW_NANOS\<rparr>"
    by code_simp
  then show ?thesis
    using download_budget_bounded [OF prod.collapse [symmetric], where b = ?b and cs = "[(DOWNLOAD_SCALE * DOWNLOAD_WINDOW_NANOS, 7)]"]
    by (simp del: charges.simps)
qed

text \<open>Dropping a bucket that has been idle for the window is unobservable: the next charge is
  decided alike, and leaves the same credit, as if the bucket had been kept.\<close>

theorem idle_eviction_unobservable:
  assumes "map_of s key = Some b" and "now - bucket_last b \<ge> DOWNLOAD_WINDOW_NANOS"
  shows "fst (allow_at key cost files now s) = fst (allow_at key cost files now (AList.delete key s))
    \<and> map_option tokens (map_of (snd (allow_at key cost files now s)) key)
      = map_option tokens (map_of (snd (allow_at key cost files now (AList.delete key s))) key)"
proof -
  let ?c = "min (cost * DOWNLOAD_WINDOW_NANOS) u128_max"
  let ?f = "\<lparr>tokens = DOWNLOAD_MAX_TOKENS, bucket_last = now, file_count = files\<rparr>"
  have "DOWNLOAD_MAX_TOKENS = DOWNLOAD_WINDOW_NANOS * RATE"
    by (simp add: DOWNLOAD_MAX_TOKENS_def RATE_def)
  also have "\<dots> \<le> (now - bucket_last b) * RATE" using assms(2) by simp
  finally have r: "DOWNLOAD_MAX_TOKENS \<le> (now - bucket_last b) * RATE" .
  have u: "DOWNLOAD_MAX_TOKENS \<le> u128_max" by code_simp
  have full: "min (min (tokens b + min ((now - bucket_last b) * RATE) u128_max) u128_max) DOWNLOAD_MAX_TOKENS
      = DOWNLOAD_MAX_TOKENS"
    using r u by (auto simp: min_def)
  have kept: "fst (charge ?c files now b) \<longleftrightarrow> \<not> DOWNLOAD_MAX_TOKENS < ?c"
    "tokens (snd (charge ?c files now b)) = DOWNLOAD_MAX_TOKENS - (if DOWNLOAD_MAX_TOKENS < ?c then 0 else ?c)"
    unfolding charge_def Let_def RATE_def [symmetric] by (simp_all add: full)
  have fresh: "fst (charge ?c files now ?f) \<longleftrightarrow> \<not> DOWNLOAD_MAX_TOKENS < ?c"
    "tokens (snd (charge ?c files now ?f)) = DOWNLOAD_MAX_TOKENS - (if DOWNLOAD_MAX_TOKENS < ?c then 0 else ?c)"
    unfolding charge_def Let_def using u by (simp_all add: min_absorb1)
  have k: "contains_key key s" "\<not> contains_key key (AList.delete key s)"
    using assms(1) by (simp_all add: contains_key_def hmap_simps)
  show ?thesis
    using kept fresh k assms(1)
    by (simp add: allow_at_def Let_def case_prod_unfold hmap_simps)
qed

theorem idle_eviction_unobservable_witness:
  "fst (allow_at (lit ''g'') 1 None DOWNLOAD_WINDOW_NANOS
     [(lit ''g'', \<lparr>tokens = 0, bucket_last = 0, file_count = None\<rparr>)])"
proof -
  have "fst (allow_at (lit ''g'') 1 None DOWNLOAD_WINDOW_NANOS [])" by code_simp
  then show ?thesis
    using idle_eviction_unobservable [of "[(lit ''g'', \<lparr>tokens = 0, bucket_last = 0, file_count = None\<rparr>)]"
        "lit ''g''" _ DOWNLOAD_WINDOW_NANOS 1 None]
    by (simp add: AList.delete_eq)
qed

end
