(* ===== verification/Tokens.thy ===== *)
theory Tokens
  imports Votport_Base "HOL-Library.Word"
begin

text \<open>
  Signed tokens: \<open>server/src/auth.rs\<close> apart from its throttles. HMAC-SHA-256 with its hex
  spelling, URL-safe base64 and the JSON form of an identity are the parameters of
  \<open>token_lib\<close>; the clock and the random nonce are arguments. A token is text, and the MAC
  covers bytes, so the theory also has the UTF-8 encoding.
\<close>

unbundle bit_operations_syntax

section \<open>Bytes of a string\<close>

type_synonym bytes = "8 word list"

definition utf8_char :: "uchar \<Rightarrow> nat list" where
  "utf8_char c =
     (if c < 0x80 then [c]
      else if c < 0x800 then [0xC0 + c div 64, 0x80 + c mod 64]
      else if c < 0x10000 then [0xE0 + c div 4096, 0x80 + (c div 64) mod 64, 0x80 + c mod 64]
      else [0xF0 + c div 262144, 0x80 + (c div 4096) mod 64, 0x80 + (c div 64) mod 64, 0x80 + c mod 64])"

definition as_bytes :: "rstr \<Rightarrow> bytes" where
  "as_bytes s = concat (map (\<lambda>c. map word_of_nat (utf8_char c)) s)"

text \<open>Every \<open>&str\<close> holds Unicode scalar values.\<close>

definition valid_str :: "rstr \<Rightarrow> bool" where
  "valid_str s \<longleftrightarrow> list_all (\<lambda>c. c < 0x110000) s"

definition to_le_bytes :: "nat \<Rightarrow> bytes" where
  "to_le_bytes n = map (\<lambda>i. word_of_nat (n div 256 ^ i)) [0..<8]"

section \<open>The token format\<close>

text \<open>
  \<open>hmac_hex k m\<close>: \<open>hex::encode\<close> of HMAC-SHA-256 of \<open>m\<close> under \<open>k\<close>; \<open>b64\<close> and
  \<open>unb64\<close>: the unpadded URL-safe base64 of a string and the decoding into a UTF-8 string,
  \<open>None\<close> where either step fails; \<open>to_json\<close>, \<open>from_json\<close>: \<open>serde\_json\<close> on
  \<open>AdminIdentity\<close>.
\<close>

record tenant_grant =
  tg_incarnation :: "rstr option"
  tg_tenant :: rstr
  tg_role :: rstr

record admin_identity =
  ai_subject :: rstr
  ai_tenant :: rstr
  ai_role :: rstr
  ai_grants :: "tenant_grant list"
  ai_credential_version :: nat

record token_lib =
  hmac_hex :: "bytes \<Rightarrow> bytes \<Rightarrow> rstr"
  b64 :: "rstr \<Rightarrow> rstr"
  unb64 :: "rstr \<Rightarrow> rstr option"
  to_json :: "admin_identity \<Rightarrow> rstr"
  from_json :: "rstr \<Rightarrow> admin_identity option"

definition ADMIN_SESSION_SECS :: nat where "ADMIN_SESSION_SECS = 7 * 24 * 3600"

definition LINK_SESSION_SECS :: nat where "LINK_SESSION_SECS = 30 * 24 * 3600"

definition valid_hex :: "rstr \<Rightarrow> nat \<Rightarrow> bool" where
  "valid_hex v n \<longleftrightarrow> str_len v = n
     \<and> list_all (\<lambda>c. (is_ascii_digit c \<or> (97 \<le> c \<and> c \<le> 102) \<or> (65 \<le> c \<and> c \<le> 70)) \<and> \<not> is_ascii_uppercase c) v"

definition constant_time_eq :: "bytes \<Rightarrow> bytes \<Rightarrow> bool" where
  "constant_time_eq a b =
     (if length a \<noteq> length b then False
      else fold (\<lambda>(x, y) acc. acc OR (x XOR y)) (zip a b) 0 = 0)"

text \<open>The bytes the MAC covers: each part of the context and a NUL, the expiry in little-endian
  order, the nonce.\<close>

definition mac_message :: "bytes list \<Rightarrow> nat \<Rightarrow> rstr \<Rightarrow> bytes" where
  "mac_message context expires nonce =
     concat (map (\<lambda>part. part @ [0]) context) @ to_le_bytes expires @ as_bytes nonce"

definition token_mac :: "token_lib \<Rightarrow> bytes \<Rightarrow> bytes list \<Rightarrow> nat \<Rightarrow> rstr \<Rightarrow> rstr" where
  "token_mac lib secret context expires nonce = hmac_hex lib secret (mac_message context expires nonce)"

definition token_text :: "nat \<Rightarrow> rstr \<Rightarrow> rstr \<Rightarrow> rstr" where
  "token_text expires nonce mac = show_nat expires @ 46 # nonce @ 46 # mac"

definition issue_token :: "token_lib \<Rightarrow> bytes \<Rightarrow> bytes list \<Rightarrow> nat \<Rightarrow> nat \<Rightarrow> rstr \<Rightarrow> rstr" where
  "issue_token lib secret context lifetime_secs now nonce =
     (let expires = now + lifetime_secs
      in token_text expires nonce (token_mac lib secret context expires nonce))"

definition verify_token :: "token_lib \<Rightarrow> bytes \<Rightarrow> bytes list \<Rightarrow> nat \<Rightarrow> rstr \<Rightarrow> bool" where
  "verify_token lib secret context now token =
     (case split_once 46 token of
        None \<Rightarrow> False
      | Some (expires, rest) \<Rightarrow>
         (case split_once 46 rest of
            None \<Rightarrow> False
          | Some (nonce, mac) \<Rightarrow>
             (case parse_uint u64_max expires of
                None \<Rightarrow> False
              | Some e \<Rightarrow>
                 if show_nat e \<noteq> expires then False
                 else if now \<ge> e then False
                 else constant_time_eq (as_bytes (token_mac lib secret context e nonce)) (as_bytes mac))))"

section \<open>Recipient, link and lease tokens\<close>

definition recipient_context :: "rstr \<Rightarrow> rstr \<Rightarrow> nat \<Rightarrow> rstr \<Rightarrow> bytes list" where
  "recipient_context grant token_hash revision holder =
     [as_bytes (lit ''recipient''), as_bytes grant, as_bytes token_hash,
      as_bytes (show_nat revision), as_bytes holder]"

definition issue_recipient ::
  "token_lib \<Rightarrow> bytes \<Rightarrow> rstr \<Rightarrow> rstr \<Rightarrow> nat \<Rightarrow> rstr \<Rightarrow> nat \<Rightarrow> rstr \<Rightarrow> rstr" where
  "issue_recipient lib secret grant token_hash revision holder now nonce =
     issue_token lib secret (recipient_context grant token_hash revision holder) (24 * 3600) now nonce"

definition verify_recipient ::
  "token_lib \<Rightarrow> bytes \<Rightarrow> rstr \<Rightarrow> rstr \<Rightarrow> nat \<Rightarrow> rstr \<Rightarrow> nat \<Rightarrow> rstr \<Rightarrow> bool" where
  "verify_recipient lib secret grant token_hash revision holder now token =
     verify_token lib secret (recipient_context grant token_hash revision holder) now token"

definition link_context :: "rstr \<Rightarrow> rstr \<Rightarrow> bytes list" where
  "link_context link_id phc = [as_bytes (lit ''votport-link''), as_bytes link_id, as_bytes phc]"

definition issue_link_token :: "token_lib \<Rightarrow> bytes \<Rightarrow> rstr \<Rightarrow> rstr \<Rightarrow> nat \<Rightarrow> rstr \<Rightarrow> rstr" where
  "issue_link_token lib secret link_id phc now nonce =
     issue_token lib secret (link_context link_id phc) LINK_SESSION_SECS now nonce"

definition verify_link_token :: "token_lib \<Rightarrow> bytes \<Rightarrow> rstr \<Rightarrow> rstr \<Rightarrow> nat \<Rightarrow> rstr \<Rightarrow> bool" where
  "verify_link_token lib secret link_id phc now token =
     verify_token lib secret (link_context link_id phc) now token"

definition lease_context :: "rstr \<Rightarrow> rstr \<Rightarrow> nat \<Rightarrow> rstr \<Rightarrow> bytes list" where
  "lease_context grant_id token_hash file_index holder =
     [as_bytes (lit ''votport-download-lease''), as_bytes grant_id, as_bytes token_hash,
      as_bytes (show_nat file_index), as_bytes holder]"

definition issue_download_lease ::
  "token_lib \<Rightarrow> bytes \<Rightarrow> rstr \<Rightarrow> rstr \<Rightarrow> nat \<Rightarrow> rstr \<Rightarrow> nat \<Rightarrow> nat \<Rightarrow> rstr \<Rightarrow> rstr" where
  "issue_download_lease lib secret grant_id token_hash file_index holder lifetime_secs now nonce =
     (let token = issue_token lib secret (lease_context grant_id token_hash file_index holder)
                    lifetime_secs now nonce
      in if holder = [] then token else token @ 46 # holder)"

text \<open>\<open>match\_indices('.').nth(2)\<close>: the text before and after the third dot.\<close>

definition third_dot :: "rstr \<Rightarrow> (rstr \<times> rstr) option" where
  "third_dot s =
     (case split_once 46 s of
        None \<Rightarrow> None
      | Some (a, r) \<Rightarrow>
         (case split_once 46 r of
            None \<Rightarrow> None
          | Some (b, r) \<Rightarrow>
             (case split_once 46 r of
                None \<Rightarrow> None
              | Some (c, r) \<Rightarrow> Some (a @ 46 # b @ 46 # c, r))))"

definition verify_download_lease ::
  "token_lib \<Rightarrow> bytes \<Rightarrow> rstr \<Rightarrow> rstr \<Rightarrow> nat \<Rightarrow> nat \<Rightarrow> rstr \<Rightarrow> rstr option" where
  "verify_download_lease lib secret grant_id token_hash file_index now lease =
     (case (case third_dot lease of
              None \<Rightarrow> Some (lease, [])
            | Some (token, holder) \<Rightarrow> if holder \<noteq> [] then Some (token, holder) else None) of
        None \<Rightarrow> None
      | Some (token, holder) \<Rightarrow>
         if verify_token lib secret (lease_context grant_id token_hash file_index holder) now token
         then Some holder else None)"

section \<open>Admin sessions\<close>

definition local_admin :: admin_identity where
  "local_admin = \<lparr>ai_subject = lit ''local'', ai_tenant = [], ai_role = lit ''admin'',
     ai_grants = [\<lparr>tg_incarnation = None, tg_tenant = [], tg_role = lit ''admin''\<rparr>],
     ai_credential_version = 1\<rparr>"

definition admin_context :: "rstr \<Rightarrow> rstr \<Rightarrow> bytes list" where
  "admin_context payload version =
     [as_bytes (lit ''votport-admin-v4''), as_bytes payload, as_bytes version]"

definition admin_mac :: "token_lib \<Rightarrow> bytes \<Rightarrow> rstr \<Rightarrow> rstr \<Rightarrow> nat \<Rightarrow> rstr \<Rightarrow> rstr" where
  "admin_mac lib secret payload version expires nonce =
     hmac_hex lib secret (mac_message (admin_context payload version) expires nonce)"

definition issue_admin_token_until ::
  "token_lib \<Rightarrow> bytes \<Rightarrow> admin_identity \<Rightarrow> rstr \<Rightarrow> nat \<Rightarrow> rstr \<Rightarrow> rstr" where
  "issue_admin_token_until lib secret i version expires nonce =
     (let payload = to_json lib i
      in show_nat expires @ 46 # b64 lib payload @ 46 # nonce @ 46 #
         admin_mac lib secret payload version expires nonce)"

definition issue_admin_token_with_ttl ::
  "token_lib \<Rightarrow> bytes \<Rightarrow> admin_identity \<Rightarrow> rstr \<Rightarrow> nat \<Rightarrow> nat \<Rightarrow> rstr \<Rightarrow> rstr" where
  "issue_admin_token_with_ttl lib secret i version ttl_secs now nonce =
     issue_admin_token_until lib secret i version (sat_add now ttl_secs) nonce"

definition issue_admin_token ::
  "token_lib \<Rightarrow> bytes \<Rightarrow> admin_identity \<Rightarrow> rstr \<Rightarrow> nat \<Rightarrow> rstr \<Rightarrow> rstr" where
  "issue_admin_token lib secret i version now nonce =
     issue_admin_token_with_ttl lib secret i version ADMIN_SESSION_SECS now nonce"

definition verify_admin_token ::
  "token_lib \<Rightarrow> bytes \<Rightarrow> rstr \<Rightarrow> nat \<Rightarrow> rstr \<Rightarrow> (admin_identity \<times> nat) option" where
  "verify_admin_token lib secret version now token =
     (case split_on 46 token of
        [expires, payload_encoded, nonce, mac] \<Rightarrow>
          (case parse_uint u64_max expires of
             None \<Rightarrow> None
           | Some e \<Rightarrow>
              if now \<ge> e then None
              else case unb64 lib payload_encoded of
                     None \<Rightarrow> None
                   | Some payload \<Rightarrow>
                      if \<not> constant_time_eq (as_bytes (admin_mac lib secret payload version e nonce)) (as_bytes mac)
                      then None
                      else map_option (\<lambda>i. (i, e)) (from_json lib payload))
      | _ \<Rightarrow> None)"

section \<open>Cookies\<close>

fun find_cookie :: "rstr \<Rightarrow> rstr list \<Rightarrow> rstr option" where
  "find_cookie name [] = None"
| "find_cookie name (pair # pairs) =
     (case split_once 61 (trim pair) of
        None \<Rightarrow> find_cookie name pairs
      | Some (key, v) \<Rightarrow> if key = name then Some v else find_cookie name pairs)"

definition cookie_value :: "rstr \<Rightarrow> rstr \<Rightarrow> rstr option" where
  "cookie_value header name = find_cookie name (split_on 59 header)"

section \<open>Bytes determine the string\<close>

lemma utf8_char_bytes: "c < 0x110000 \<Longrightarrow> x \<in> set (utf8_char c) \<Longrightarrow> x < 256"
  by (auto simp: utf8_char_def split: if_splits)

lemma utf8_char_nonempty [simp]: "utf8_char c \<noteq> []"
  by (simp add: utf8_char_def)

lemma utf8_char_zero: "0 \<in> set (utf8_char c) \<longleftrightarrow> c = 0"
  by (auto simp: utf8_char_def)

definition utf8_decode :: "nat list \<Rightarrow> nat \<times> nat list" where
  "utf8_decode bs =
     (case bs of
        [] \<Rightarrow> (0, [])
      | b # r \<Rightarrow>
         if b < 0x80 then (b, r)
         else if b < 0xE0 then ((b - 0xC0) * 64 + (r ! 0 - 0x80), drop 1 r)
         else if b < 0xF0 then ((b - 0xE0) * 4096 + (r ! 0 - 0x80) * 64 + (r ! 1 - 0x80), drop 2 r)
         else ((b - 0xF0) * 262144 + (r ! 0 - 0x80) * 4096 + (r ! 1 - 0x80) * 64 + (r ! 2 - 0x80), drop 3 r))"

lemma utf8_decode_char: "c < 0x110000 \<Longrightarrow> utf8_decode (utf8_char c @ r) = (c, r)"
proof -
  assume c: "c < 0x110000"
  have two: "c div 64 * 64 + c mod 64 = c" by (rule div_mult_mod_eq)
  have three: "c div 4096 * 4096 + (c div 64) mod 64 * 64 + c mod 64 = c"
  proof -
    have "c div 4096 = c div 64 div 64" by (simp flip: div_mult2_eq)
    then show ?thesis using div_mult_mod_eq [of "c div 64" 64] two by linarith
  qed
  have four: "c div 262144 * 262144 + (c div 4096) mod 64 * 4096 + (c div 64) mod 64 * 64 + c mod 64 = c"
  proof -
    have "c div 262144 = c div 4096 div 64" by (simp flip: div_mult2_eq)
    then show ?thesis using div_mult_mod_eq [of "c div 4096" 64] three by linarith
  qed
  consider "c < 0x80" | "0x80 \<le> c \<and> c < 0x800" | "0x800 \<le> c \<and> c < 0x10000" | "0x10000 \<le> c" by linarith
  then show ?thesis
  proof cases
    case 1
    then show ?thesis by (simp add: utf8_char_def utf8_decode_def)
  next
    case 2
    then have "c div 64 < 32" by auto
    with 2 two show ?thesis by (simp add: utf8_char_def utf8_decode_def)
  next
    case 3
    then have "c div 4096 < 16" by auto
    with 3 three show ?thesis by (simp add: utf8_char_def utf8_decode_def)
  next
    case 4
    with four show ?thesis by (simp add: utf8_char_def utf8_decode_def)
  qed
qed

lemma utf8_inj:
  "valid_str s \<Longrightarrow> valid_str t \<Longrightarrow> concat (map utf8_char s) = concat (map utf8_char t) \<Longrightarrow> s = t"
proof (induction s arbitrary: t)
  case Nil
  then show ?case by (cases t) auto
next
  case (Cons c s)
  then obtain d u where t: "t = d # u" by (cases t) auto
  have "utf8_decode (utf8_char c @ concat (map utf8_char s)) = utf8_decode (utf8_char d @ concat (map utf8_char u))"
    using Cons.prems(3) by (simp add: t)
  moreover have "c < 0x110000" "d < 0x110000" "valid_str s" "valid_str u"
    using Cons.prems by (simp_all add: t valid_str_def)
  ultimately show ?case using Cons.IH [of u] by (simp add: t utf8_decode_char)
qed

lemma word_of_nat_byte_inj:
  "x < 256 \<Longrightarrow> y < 256 \<Longrightarrow> (word_of_nat x :: 8 word) = word_of_nat y \<longleftrightarrow> x = y"
  by (simp add: word_of_nat_eq_iff take_bit_eq_mod)

lemma as_bytes_eq: "as_bytes s = map word_of_nat (concat (map utf8_char s))"
  by (simp add: as_bytes_def map_concat comp_def)

lemma as_bytes_inj:
  assumes "valid_str s" and "valid_str t"
  shows "as_bytes s = as_bytes t \<longleftrightarrow> s = t"
proof
  assume h: "as_bytes s = as_bytes t"
  have small: "x < 256" if "x \<in> set (concat (map utf8_char s)) \<union> set (concat (map utf8_char t))" for x
    using that assms by (auto simp: valid_str_def list_all_iff dest: utf8_char_bytes)
  have "inj_on (word_of_nat :: nat \<Rightarrow> 8 word) (set (concat (map utf8_char s)) \<union> set (concat (map utf8_char t)))"
    by (rule inj_onI) (use small in \<open>simp add: word_of_nat_byte_inj\<close>)
  then have "concat (map utf8_char s) = concat (map utf8_char t)"
    using h unfolding as_bytes_eq by (metis inj_on_map_eq_map)
  then show "s = t" using utf8_inj assms by blast
qed simp

lemma as_bytes_nul:
  assumes "valid_str s" and "0 \<notin> set s"
  shows "0 \<notin> set (as_bytes s)"
proof
  assume "0 \<in> set (as_bytes s)"
  then obtain x where x: "x \<in> set (concat (map utf8_char s))" "word_of_nat x = (0 :: 8 word)"
    unfolding as_bytes_eq by (force simp del: set_concat)
  then have "x < 256" using assms(1) by (auto simp: valid_str_def list_all_iff dest: utf8_char_bytes)
  then have "x = 0" using x(2) word_of_nat_byte_inj [of x 0] by simp
  with x(1) assms(2) show False by (auto simp: utf8_char_zero)
qed

lemma length_le_bytes [simp]: "length (to_le_bytes n) = 8"
  by (simp add: to_le_bytes_def)

lemma to_le_bytes_inj:
  assumes "a \<le> u64_max" and "b \<le> u64_max" and "to_le_bytes a = to_le_bytes b"
  shows "a = b"
proof -
  have digit: "a div 256 ^ i mod 256 = b div 256 ^ i mod 256" if "i < 8" for i
  proof -
    have "to_le_bytes a ! i = to_le_bytes b ! i" using assms(3) by simp
    then have "(word_of_nat (a div 256 ^ i) :: 8 word) = word_of_nat (b div 256 ^ i)"
      using that by (simp add: to_le_bytes_def)
    then show ?thesis by (simp add: word_of_nat_eq_iff take_bit_eq_mod)
  qed
  have low: "a mod 256 ^ i = b mod 256 ^ i" if "i \<le> 8" for i
    using that
  proof (induction i)
    case (Suc i)
    have "x mod 256 ^ Suc i = x mod 256 ^ i + 256 ^ i * (x div 256 ^ i mod 256)" for x :: nat
      by (simp add: mod_mult2_eq mult.commute [of 256])
    then show ?case using Suc digit [of i] by simp
  qed simp
  have "a < 256 ^ 8" "b < 256 ^ 8" using assms(1,2) by (simp_all add: u64_max_def)
  then show ?thesis using low [of 8] by (metis mod_less order_refl)
qed

lemma constant_time_fold:
  "length a = length b \<Longrightarrow>
     fold (\<lambda>(x, y) acc. acc OR (x XOR y)) (zip a b) acc = (0 :: 8 word) \<longleftrightarrow> acc = 0 \<and> a = b"
proof (induction a b arbitrary: acc rule: list_induct2)
  case (Cons x xs y ys)
  have "x XOR y = 0 \<longleftrightarrow> x = y"
    by (metis xor.assoc xor.left_neutral xor_self_eq)
  then have "acc OR (x XOR y) = 0 \<longleftrightarrow> acc = 0 \<and> x = y"
    by (simp add: or_eq_0_iff)
  with Cons show ?case by auto
qed simp

lemma constant_time_eq_eq: "constant_time_eq a b \<longleftrightarrow> a = b"
  using constant_time_fold [of a b 0] by (auto simp: constant_time_eq_def)

section \<open>The MAC message determines what it covers\<close>

lemma nul_terminated_inj:
  "p @ 0 # x = q @ 0 # y \<Longrightarrow> (0 :: 8 word) \<notin> set p \<Longrightarrow> 0 \<notin> set q \<Longrightarrow> p = q \<and> x = y"
proof (induction p arbitrary: q)
  case Nil then show ?case by (cases q) auto
next
  case (Cons a p) then show ?case by (cases q) auto
qed

definition nul_free :: "bytes list \<Rightarrow> bool" where
  "nul_free ctx \<longleftrightarrow> list_all (\<lambda>p. 0 \<notin> set p) ctx"

lemma mac_message_Cons: "mac_message (p # ctx) e n = p @ 0 # mac_message ctx e n"
  by (simp add: mac_message_def)

lemma mac_message_inj:
  "length ctx = length ctx' \<Longrightarrow> nul_free ctx \<Longrightarrow> nul_free ctx' \<Longrightarrow>
   mac_message ctx e n = mac_message ctx' e' n' \<Longrightarrow>
   ctx = ctx' \<and> to_le_bytes e = to_le_bytes e' \<and> as_bytes n = as_bytes n'"
proof (induction ctx ctx' rule: list_induct2)
  case Nil
  then show ?case by (simp add: mac_message_def)
next
  case (Cons p ctx q ctx')
  then have "p = q \<and> mac_message ctx e n = mac_message ctx' e' n'"
    by (intro nul_terminated_inj) (simp_all add: mac_message_Cons nul_free_def)
  with Cons show ?case by (simp add: nul_free_def)
qed

text \<open>Contexts whose first parts differ never give one message, whatever their number of parts.\<close>

lemma mac_message_domains:
  assumes "0 \<notin> set p" and "0 \<notin> set q" and "p \<noteq> q"
  shows "mac_message (p # ctx) e n \<noteq> mac_message (q # ctx') e' n'"
  using nul_terminated_inj [of p _ q] assms by (auto simp: mac_message_Cons)

section \<open>Accepted tokens\<close>

text \<open>What the code relies on of its libraries: the hex digest is 64 lowercase hex digits, and
  base64 gives back what it encoded, without a dot in between.\<close>

definition token_lib_ok :: "token_lib \<Rightarrow> bool" where
  "token_lib_ok lib \<longleftrightarrow>
     (\<forall>k m. valid_hex (hmac_hex lib k m) 64)
     \<and> (\<forall>p. unb64 lib (b64 lib p) = Some p \<and> 46 \<notin> set (b64 lib p))"

lemma valid_hex_text: "valid_hex v n \<Longrightarrow> valid_str v \<and> 46 \<notin> set v \<and> 0 \<notin> set v"
  by (fastforce simp: valid_hex_def valid_str_def list_all_iff is_ascii_digit_def)

lemma show_nat_text: "valid_str (show_nat n) \<and> 46 \<notin> set (show_nat n) \<and> 0 \<notin> set (show_nat n)"
  using show_nat_digits [of n] by (fastforce simp: valid_str_def list_all_iff is_ascii_digit_def)

lemma verify_token_iff:
  assumes "token_lib_ok lib" and "valid_str token"
  shows "verify_token lib secret ctx now token \<longleftrightarrow>
    (\<exists>e nonce. token = token_text e nonce (token_mac lib secret ctx e nonce)
        \<and> 46 \<notin> set nonce \<and> now < e \<and> e \<le> u64_max)"
proof -
  have mac: "valid_str (token_mac lib secret ctx e n)" for e n
    using assms(1) valid_hex_text by (auto simp: token_mac_def token_lib_ok_def)
  show ?thesis
  proof
    assume v: "verify_token lib secret ctx now token"
    then obtain ex rest where a: "split_once 46 token = Some (ex, rest)"
      by (cases "split_once 46 token") (auto simp: verify_token_def)
    with v obtain nonce mac' where b: "split_once 46 rest = Some (nonce, mac')"
      by (cases "split_once 46 rest") (auto simp: verify_token_def)
    from v a b obtain e where p: "parse_uint u64_max ex = Some e"
      by (cases "parse_uint u64_max ex") (auto simp: verify_token_def)
    from v a b p have "show_nat e = ex" "now < e"
      and m: "as_bytes (token_mac lib secret ctx e nonce) = as_bytes mac'"
      by (simp_all add: verify_token_def constant_time_eq_eq split: if_splits)
    with a b p have t: "token = show_nat e @ 46 # nonce @ 46 # mac'" "46 \<notin> set nonce"
      "now < e" "parse_uint u64_max (show_nat e) = Some e"
      by (simp_all add: split_once_Some)
    have "valid_str mac'" using assms(2) by (simp add: t(1) valid_str_def)
    with m mac have "mac' = token_mac lib secret ctx e nonce" by (metis as_bytes_inj)
    then show "\<exists>e nonce. token = token_text e nonce (token_mac lib secret ctx e nonce)
        \<and> 46 \<notin> set nonce \<and> now < e \<and> e \<le> u64_max"
      using t parse_uint_le [OF t(4)] by (intro exI [of _ e] exI [of _ nonce]) (simp add: token_text_def)
  next
    assume "\<exists>e nonce. token = token_text e nonce (token_mac lib secret ctx e nonce)
        \<and> 46 \<notin> set nonce \<and> now < e \<and> e \<le> u64_max"
    then obtain e nonce where t: "token = token_text e nonce (token_mac lib secret ctx e nonce)"
      "46 \<notin> set nonce" "now < e" "e \<le> u64_max" by blast
    have "split_once 46 token = Some (show_nat e, nonce @ 46 # token_mac lib secret ctx e nonce)"
      using show_nat_text by (simp add: split_once_Some t(1) token_text_def)
    moreover have "split_once 46 (nonce @ 46 # token_mac lib secret ctx e nonce)
        = Some (nonce, token_mac lib secret ctx e nonce)"
      using t(2) by (simp add: split_once_Some)
    ultimately show "verify_token lib secret ctx now token"
      using t(3,4) by (simp add: verify_token_def parse_show constant_time_eq_eq)
  qed
qed

lemma token_text_inj:
  assumes "token_text e n m = token_text e' n' m'" and "46 \<notin> set n" and "46 \<notin> set n'"
  shows "e = e' \<and> n = n' \<and> m = m'"
proof -
  have "split_once 46 (token_text e n m) = Some (show_nat e, n @ 46 # m)"
    "split_once 46 (token_text e' n' m') = Some (show_nat e', n' @ 46 # m')"
    using show_nat_text by (simp_all add: split_once_Some token_text_def)
  then have e: "show_nat e = show_nat e'" and r: "n @ 46 # m = n' @ 46 # m'"
    using assms(1) by simp_all
  have "split_once 46 (n @ 46 # m) = Some (n, m)" "split_once 46 (n' @ 46 # m') = Some (n', m')"
    using assms(2,3) by (simp_all add: split_once_Some)
  then have "n = n'" "m = m'" unfolding r by simp_all
  with e show ?thesis by (simp add: show_nat_inj)
qed

text \<open>A token issued in one context and accepted in another has one MAC for both messages.\<close>

lemma accepted_elsewhere:
  assumes "token_lib_ok lib" and "valid_hex nonce 32"
    and "verify_token lib secret ctx' t (issue_token lib secret ctx life now nonce)"
  shows "hmac_hex lib secret (mac_message ctx (now + life) nonce)
       = hmac_hex lib secret (mac_message ctx' (now + life) nonce)"
proof -
  let ?e = "now + life"
  let ?token = "token_text ?e nonce (token_mac lib secret ctx ?e nonce)"
  have "valid_hex (token_mac lib secret ctx ?e nonce) 64"
    using assms(1) by (simp add: token_lib_ok_def token_mac_def)
  then have "valid_str ?token"
    using valid_hex_text [OF assms(2)] valid_hex_text [of "token_mac lib secret ctx ?e nonce" 64] show_nat_text
    by (simp add: token_text_def valid_str_def)
  then obtain e n where a: "?token = token_text e n (token_mac lib secret ctx' e n)" "46 \<notin> set n"
    using assms(3) verify_token_iff [OF assms(1)] by (auto simp: issue_token_def Let_def)
  from token_text_inj [OF a(1) _ a(2)] valid_hex_text [OF assms(2)] show ?thesis
    by (auto simp: token_mac_def)
qed

text \<open>The third dot of a lease is the one before its holder.\<close>

lemma third_dot_token:
  assumes "46 \<notin> set n" and "46 \<notin> set m"
  shows "third_dot (token_text e n m) = None"
    and "third_dot (token_text e n m @ 46 # h) = Some (token_text e n m, h)"
proof -
  have d: "46 \<notin> set (show_nat e)" using show_nat_text by simp
  have o: "split_once 46 (w @ 46 # r) = Some (w, r)" if "46 \<notin> set w" for w r
    using that by (simp add: split_once_Some)
  have "split_once 46 m = None" using assms(2) by (simp add: split_once_None)
  then show "third_dot (token_text e n m) = None"
    using o [OF d] o [OF assms(1)] by (simp add: third_dot_def token_text_def)
  show "third_dot (token_text e n m @ 46 # h) = Some (token_text e n m, h)"
    using o [OF d, of "n @ 46 # m @ 46 # h"] o [OF assms(1), of "m @ 46 # h"] o [OF assms(2), of h]
    by (simp add: third_dot_def token_text_def)
qed

lemma third_dot_Some: "third_dot s = Some (t, h) \<Longrightarrow> s = t @ 46 # h"
  by (auto simp: third_dot_def split_once_Some split: option.splits)

text \<open>A token with the name of a holder.\<close>

definition lease_text :: "rstr \<Rightarrow> rstr \<Rightarrow> rstr" where
  "lease_text token holder = (if holder = [] then token else token @ 46 # holder)"

lemma issued_lease:
  "issue_download_lease lib secret g h i holder life now nonce
   = lease_text (issue_token lib secret (lease_context g h i holder) life now nonce) holder"
  by (simp add: issue_download_lease_def lease_text_def Let_def)

lemma lease_parts:
  assumes "token_lib_ok lib" and "valid_hex nonce 32"
  shows "verify_download_lease lib secret g' h' i' t (lease_text (issue_token lib secret ctx life now nonce) holder') =
     (if verify_token lib secret (lease_context g' h' i' holder') t (issue_token lib secret ctx life now nonce)
      then Some holder' else None)"
proof -
  let ?m = "token_mac lib secret ctx (now + life) nonce"
  have "valid_hex ?m 64" using assms(1) by (simp add: token_lib_ok_def token_mac_def)
  then have "46 \<notin> set nonce" "46 \<notin> set ?m" using valid_hex_text assms(2) by auto
  note dots = third_dot_token [OF this]
  define tok where "tok = issue_token lib secret ctx life now nonce"
  have none: "third_dot tok = None" and some: "third_dot (tok @ 46 # holder') = Some (tok, holder')"
    using dots by (simp_all add: tok_def issue_token_def Let_def)
  then show ?thesis
    unfolding tok_def [symmetric] by (simp add: verify_download_lease_def lease_text_def)
qed

text \<open>The two messages that are authenticated for two contexts are a collision of the MAC.\<close>

definition one_mac :: "token_lib \<Rightarrow> bytes \<Rightarrow> bytes list \<Rightarrow> bytes list \<Rightarrow> nat \<Rightarrow> rstr \<Rightarrow> bool" where
  "one_mac lib secret context context' expires nonce \<longleftrightarrow>
     mac_message context expires nonce \<noteq> mac_message context' expires nonce
     \<and> hmac_hex lib secret (mac_message context expires nonce) = hmac_hex lib secret (mac_message context' expires nonce)"

text \<open>When a token issued in one context verifies in another.\<close>

lemma verify_issued:
  assumes "token_lib_ok lib" and "valid_hex nonce 32" and "now + life \<le> u64_max"
  shows "verify_token lib secret ctx' t (issue_token lib secret ctx life now nonce) \<longleftrightarrow>
    t < now + life \<and> hmac_hex lib secret (mac_message ctx (now + life) nonce)
       = hmac_hex lib secret (mac_message ctx' (now + life) nonce)"
proof
  assume v: "verify_token lib secret ctx' t (issue_token lib secret ctx life now nonce)"
  let ?token = "token_text (now + life) nonce (token_mac lib secret ctx (now + life) nonce)"
  have "valid_hex (token_mac lib secret ctx (now + life) nonce) 64"
    using assms(1) by (simp add: token_lib_ok_def token_mac_def)
  then have "valid_str ?token"
    using valid_hex_text [OF assms(2)] valid_hex_text [of "token_mac lib secret ctx (now + life) nonce" 64] show_nat_text
    by (simp add: token_text_def valid_str_def)
  then obtain e n where a: "?token = token_text e n (token_mac lib secret ctx' e n)" "46 \<notin> set n" "t < e"
    using v verify_token_iff [OF assms(1)] by (auto simp: issue_token_def Let_def)
  from token_text_inj [OF a(1) _ a(2)] valid_hex_text [OF assms(2)] have "e = now + life" by auto
  with a(3) accepted_elsewhere [OF assms(1,2) v]
  show "t < now + life \<and> hmac_hex lib secret (mac_message ctx (now + life) nonce)
       = hmac_hex lib secret (mac_message ctx' (now + life) nonce)" by simp
next
  assume h: "t < now + life \<and> hmac_hex lib secret (mac_message ctx (now + life) nonce)
       = hmac_hex lib secret (mac_message ctx' (now + life) nonce)"
  let ?m = "token_mac lib secret ctx' (now + life) nonce"
  have m: "token_mac lib secret ctx (now + life) nonce = ?m" using h by (simp add: token_mac_def)
  have "valid_hex ?m 64" using assms(1) by (simp add: token_lib_ok_def token_mac_def)
  then have "valid_str (token_text (now + life) nonce ?m)"
    using valid_hex_text assms(2) show_nat_text by (auto simp: token_text_def valid_str_def)
  then show "verify_token lib secret ctx' t (issue_token lib secret ctx life now nonce)"
    using verify_token_iff [OF assms(1)] valid_hex_text [OF assms(2)] assms(3) h m
    by (auto simp: issue_token_def Let_def)
qed

text \<open>A text that can be a part of a MAC context: a valid string without NUL.\<close>

definition plain :: "rstr \<Rightarrow> bool" where
  "plain s \<longleftrightarrow> valid_str s \<and> 0 \<notin> set s"

lemma context_nul_free:
  assumes "list_all plain parts"
  shows "nul_free (map as_bytes parts)"
  using assms as_bytes_nul by (auto simp: nul_free_def list_all_iff plain_def)

lemma contexts_as_parts:
  "lease_context g h i holder = map as_bytes [lit ''votport-download-lease'', g, h, show_nat i, holder]"
  "link_context l p = map as_bytes [lit ''votport-link'', l, p]"
  "recipient_context g h r holder = map as_bytes [lit ''recipient'', g, h, show_nat r, holder]"
  "admin_context p v = map as_bytes [lit ''votport-admin-v4'', p, v]"
  by (simp_all add: lease_context_def link_context_def recipient_context_def admin_context_def)

lemma plain_parts [simp]:
  "plain (show_nat n)" "plain (lit ''votport-download-lease'')" "plain (lit ''votport-link'')"
  "plain (lit ''recipient'')" "plain (lit ''votport-admin-v4'')"
  using show_nat_text by (simp_all add: plain_def valid_str_def lit_def)

lemma plain_messages_differ:
  assumes "list_all plain parts" and "list_all plain parts'" and "length parts = length parts'"
    and "parts \<noteq> parts'"
  shows "mac_message (map as_bytes parts) e n \<noteq> mac_message (map as_bytes parts') e' n'"
proof
  assume "mac_message (map as_bytes parts) e n = mac_message (map as_bytes parts') e' n'"
  then have "map as_bytes parts = map as_bytes parts'"
    using mac_message_inj [of "map as_bytes parts" "map as_bytes parts'"] assms(1-3)
      context_nul_free [of parts] context_nul_free [of parts'] by auto
  moreover have "inj_on as_bytes (set parts \<union> set parts')"
    by (rule inj_onI) (use assms(1,2) in \<open>auto simp: plain_def list_all_iff as_bytes_inj\<close>)
  ultimately show False using assms(4) inj_on_map_eq_map by blast
qed

lemma verify_admin_iff:
  assumes "token_lib_ok lib" and "from_json lib (to_json lib i) = Some i"
    and "46 \<notin> set nonce" and "e \<le> u64_max"
  shows "verify_admin_token lib secret version now (issue_admin_token_until lib secret i version' e nonce) =
     (if now < e \<and> admin_mac lib secret (to_json lib i) version e nonce = admin_mac lib secret (to_json lib i) version' e nonce
      then Some (i, e) else None)"
proof -
  let ?p = "b64 lib (to_json lib i)" and ?m = "admin_mac lib secret (to_json lib i) version' e nonce"
  have hex: "valid_hex (admin_mac lib secret (to_json lib i) v e nonce) 64" for v
    using assms(1) by (simp add: token_lib_ok_def admin_mac_def)
  have valid: "valid_str (admin_mac lib secret (to_json lib i) v e nonce)" for v
    using valid_hex_text [OF hex] by simp
  have p: "46 \<notin> set ?p" "unb64 lib ?p = Some (to_json lib i)" "from_json lib (to_json lib i) = Some i"
    using assms by (simp_all add: token_lib_ok_def)
  have "split_on 46 (show_nat e @ 46 # ?p @ 46 # nonce @ 46 # ?m) = [show_nat e, ?p, nonce, ?m]"
    using p(1) assms(3) show_nat_text [of e] valid_hex_text [OF hex]
    by (simp add: split_on_append split_on_id)
  then show ?thesis
    using assms(4) p valid
    by (simp add: verify_admin_token_def issue_admin_token_until_def Let_def parse_show
        constant_time_eq_eq as_bytes_inj)
qed

section \<open>Properties\<close>

text \<open>The constant-time comparison, an accumulated OR of XORs over bytes, is equality.\<close>

theorem constant_time_eq_iff: "constant_time_eq a b \<longleftrightarrow> a = b"
  by (rule constant_time_eq_eq)

text \<open>An accepted token has exactly one spelling for its expiry, nonce and context, and is not
  yet expired: it is the decimal expiry without sign or leading zeros, the nonce and the MAC.\<close>

theorem accepted_tokens_are_canonical:
  assumes "token_lib_ok lib" and "valid_str token" and "verify_token lib secret ctx now token"
  shows "\<exists>e nonce. token = token_text e nonce (token_mac lib secret ctx e nonce) \<and> now < e"
  using assms verify_token_iff by blast

text \<open>A download lease verifies, for the delivery, generation and file it was issued for, from its
  issue until its expiry, and gives back the recipient it was minted for.\<close>

theorem lease_round_trip:
  assumes "token_lib_ok lib" and "valid_hex nonce 32"
    and "t < now + life" and "now + life \<le> u64_max"
  shows "verify_download_lease lib secret g h i t
           (issue_download_lease lib secret g h i holder life now nonce) = Some holder"
  using assms(3,4) by (simp add: issued_lease lease_parts [OF assms(1,2)] verify_issued [OF assms(1,2)])

text \<open>C38: C: A lease is bound to the delivery, the token generation, the file and the recipient it was
  issued for: its token under the name of any recipient is accepted, while it lives, for exactly
  these four, or else the message that was signed for it and the message that is checked are
  different byte strings with one MAC.\<close>

theorem leases_are_bound:
  assumes "token_lib_ok lib" and "valid_hex nonce 32" and "now + life \<le> u64_max"
    and "list_all plain [g, h, holder, g', h', holder']"
  shows "issue_download_lease lib secret g h i holder life now nonce
      = lease_text (issue_token lib secret (lease_context g h i holder) life now nonce) holder
    \<and> (verify_download_lease lib secret g' h' i' t
          (lease_text (issue_token lib secret (lease_context g h i holder) life now nonce) holder') = Some holder'
       \<longleftrightarrow> t < now + life
         \<and> ((g', h', i', holder') = (g, h, i, holder)
           \<or> one_mac lib secret (lease_context g h i holder) (lease_context g' h' i' holder') (now + life) nonce))"
proof -
  have "mac_message (lease_context g h i holder) (now + life) nonce
      \<noteq> mac_message (lease_context g' h' i' holder') (now + life) nonce" if "(g', h', i', holder') \<noteq> (g, h, i, holder)"
    unfolding contexts_as_parts by (rule plain_messages_differ) (use that assms(4) in \<open>auto simp: show_nat_inj\<close>)
  then show ?thesis
    by (auto simp: issued_lease lease_parts [OF assms(1,2)] verify_issued [OF assms(1-3)] one_mac_def)
qed

text \<open>Kinds of token are never interchangeable, and a link cookie ends with its link or its
  password: a link token accepted for another link or password hash, or as a recipient session,
  shows two messages, the signed one and the checked one, with one MAC.\<close>

theorem link_tokens_are_bound:
  assumes "token_lib_ok lib" and "valid_hex nonce 32"
    and "list_all plain [l, p, l', p']"
  shows "(verify_link_token lib secret l' p' t (issue_link_token lib secret l p now nonce) \<longrightarrow>
        (l, p) = (l', p') \<or> one_mac lib secret (link_context l p) (link_context l' p') (now + LINK_SESSION_SECS) nonce)
    \<and> (verify_recipient lib secret g h r holder t (issue_link_token lib secret l p now nonce) \<longrightarrow>
        one_mac lib secret (link_context l p) (recipient_context g h r holder) (now + LINK_SESSION_SECS) nonce)"
proof -
  let ?e = "now + LINK_SESSION_SECS"
  have "mac_message (link_context l p) ?e nonce \<noteq> mac_message (recipient_context g h r holder) ?e nonce"
    unfolding link_context_def recipient_context_def
    by (rule mac_message_domains) (simp_all add: as_bytes_nul as_bytes_inj valid_str_def lit_def)
  moreover have "mac_message (link_context l p) ?e nonce \<noteq> mac_message (link_context l' p') ?e nonce"
    if "(l, p) \<noteq> (l', p')"
    using that assms(3) plain_messages_differ [of "[lit ''votport-link'', l, p]" "[lit ''votport-link'', l', p']"]
    by (auto simp: contexts_as_parts)
  ultimately show ?thesis
    using accepted_elsewhere [OF assms(1,2)]
    unfolding verify_link_token_def verify_recipient_def issue_link_token_def one_mac_def by blast
qed

text \<open>An admin session reads back as the identity it was issued for, until it expires, under the
  credential version it was issued under.\<close>

theorem admin_round_trip:
  assumes "token_lib_ok lib" and "from_json lib (to_json lib i) = Some i"
    and "valid_hex nonce 32" and "t < sat_add now ttl"
  shows "verify_admin_token lib secret version t
           (issue_admin_token_with_ttl lib secret i version ttl now nonce) = Some (i, sat_add now ttl)"
  using assms(4) verify_admin_iff [OF assms(1,2), of nonce "sat_add now ttl"] valid_hex_text [OF assms(3)]
  by (simp add: issue_admin_token_with_ttl_def sat_add_def)

text \<open>A password change ends every outstanding admin session: a token issued under one credential
  version and accepted under another shows two messages with one MAC, the signed one and the
  checked one.\<close>

theorem rotation_ends_sessions:
  assumes "token_lib_ok lib" and "valid_hex nonce 32" and "e \<le> u64_max"
    and "from_json lib (to_json lib i) = Some i"
    and "list_all plain [to_json lib i, version, version']" and "version \<noteq> version'"
    and "verify_admin_token lib secret version' t (issue_admin_token_until lib secret i version e nonce) \<noteq> None"
  shows "one_mac lib secret (admin_context (to_json lib i) version') (admin_context (to_json lib i) version) e nonce"
proof -
  have "46 \<notin> set nonce" using valid_hex_text [OF assms(2)] by simp
  then have "admin_mac lib secret (to_json lib i) version' e nonce = admin_mac lib secret (to_json lib i) version e nonce"
    using assms(7) verify_admin_iff [OF assms(1,4) _ assms(3)] by (auto split: if_splits)
  moreover have "mac_message (admin_context (to_json lib i) version') e nonce
      \<noteq> mac_message (admin_context (to_json lib i) version) e nonce"
    unfolding contexts_as_parts by (rule plain_messages_differ) (use assms(5,6) in auto)
  ultimately show ?thesis unfolding admin_mac_def one_mac_def by simp
qed

section \<open>Witnesses\<close>

text \<open>A concrete library: a constant MAC, a shift of the characters as the encoding of
  payloads, and the JSON text of one identity.\<close>

definition demo_tokens :: token_lib where
  "demo_tokens = \<lparr>hmac_hex = (\<lambda>_ _. replicate 64 48), b64 = map (\<lambda>c. c + 100),
     unb64 = (\<lambda>s. Some (map (\<lambda>c. c - 100) s)), to_json = (\<lambda>_. lit ''local''),
     from_json = (\<lambda>_. Some local_admin)\<rparr>"

definition demo_nonce :: rstr where "demo_nonce = replicate 32 97"

lemma demo_tokens_ok: "token_lib_ok demo_tokens"
proof -
  have "valid_hex (replicate 64 48) 64" by code_simp
  then show ?thesis by (auto simp: token_lib_ok_def demo_tokens_def comp_def)
qed

lemma demo_nonce_ok: "valid_hex demo_nonce 32" by code_simp

lemma demo_json: "from_json demo_tokens (to_json demo_tokens local_admin) = Some local_admin"
  by (simp add: demo_tokens_def)

theorem accepted_tokens_are_canonical_witness:
  "\<exists>e nonce. token_text 9 demo_nonce (replicate 64 48)
     = token_text e nonce (token_mac demo_tokens [] [] e nonce) \<and> 5 < e"
  by (rule accepted_tokens_are_canonical [OF demo_tokens_ok, of _ "[]" "[]" 5]) code_simp+

theorem lease_round_trip_witness:
  "verify_download_lease demo_tokens [] (lit ''g'') (lit ''h'') 3 5
     (issue_download_lease demo_tokens [] (lit ''g'') (lit ''h'') 3 (lit ''key'') 60 1 demo_nonce) = Some (lit ''key'')"
  by (rule lease_round_trip [OF demo_tokens_ok demo_nonce_ok]) (simp_all add: u64_max_def)

text \<open>A MAC that depends on its message: a lease for file 3 opens file 3 for its recipient, and
  neither file 4 nor file 3 for another recipient.\<close>

definition demo_macs :: token_lib where
  "demo_macs = demo_tokens\<lparr>hmac_hex := (\<lambda>_ m. replicate 63 48 @ [48 + fold (\<lambda>b n. (3 * n + unat b) mod 10) m 0])\<rparr>"

lemma demo_macs_ok: "token_lib_ok demo_macs"
proof -
  have "fold (\<lambda>b n. (3 * n + unat b) mod 10) m n < 10" if "n < 10" for m :: bytes and n
    using that by (induction m arbitrary: n) simp_all
  from this [of 0] have "48 + fold (\<lambda>b n. (3 * n + unat b) mod 10) m 0 \<le> 57" for m :: bytes
    by (simp add: less_eq_Suc_le)
  moreover have "valid_hex (replicate 63 48 @ [c]) 64" if "48 \<le> c" "c \<le> 57" for c
    using that by (simp add: valid_hex_def is_ascii_digit_def is_ascii_uppercase_def utf8_width_def str_len_def
        sum_list_replicate list_all_iff)
  ultimately have "valid_hex (replicate 63 48 @ [48 + fold (\<lambda>b n. (3 * n + unat b) mod 10) m 0]) 64" for m :: bytes
    by (meson le_add1)
  then show ?thesis using demo_tokens_ok by (simp add: token_lib_ok_def demo_macs_def)
qed

theorem leases_are_bound_witness:
  "verify_download_lease demo_macs [] (lit ''g'') (lit ''h'') 3 5
     (issue_download_lease demo_macs [] (lit ''g'') (lit ''h'') 3 (lit ''ab12'') 60 1 demo_nonce) = Some (lit ''ab12'')
   \<and> verify_download_lease demo_macs [] (lit ''g'') (lit ''h'') 4 5
     (lease_text (issue_token demo_macs [] (lease_context (lit ''g'') (lit ''h'') 3 (lit ''ab12'')) 60 1 demo_nonce)
        (lit ''ab12'')) \<noteq> Some (lit ''ab12'')
   \<and> verify_download_lease demo_macs [] (lit ''g'') (lit ''h'') 3 5
     (lease_text (issue_token demo_macs [] (lease_context (lit ''g'') (lit ''h'') 3 (lit ''ab12'')) 60 1 demo_nonce)
        (lit ''ffff'')) \<noteq> Some (lit ''ffff'')"
proof -
  have p: "list_all plain [lit ''g'', lit ''h'', lit ''ab12'', lit ''g'', lit ''h'', lit ''ab12'']"
    "list_all plain [lit ''g'', lit ''h'', lit ''ab12'', lit ''g'', lit ''h'', lit ''ffff'']"
    by (simp_all add: plain_def valid_str_def lit_def)
  have u: "(1::nat) + 60 \<le> u64_max" by (simp add: u64_max_def)
  have n: "\<not> one_mac demo_macs [] (lease_context (lit ''g'') (lit ''h'') 3 (lit ''ab12''))
      (lease_context (lit ''g'') (lit ''h'') 4 (lit ''ab12'')) (1 + 60) demo_nonce"
    "\<not> one_mac demo_macs [] (lease_context (lit ''g'') (lit ''h'') 3 (lit ''ab12''))
      (lease_context (lit ''g'') (lit ''h'') 3 (lit ''ffff'')) (1 + 60) demo_nonce"
    by code_simp+
  have d: "lit ''ffff'' \<noteq> lit ''ab12''" by (simp add: lit_def)
  note b = leases_are_bound [OF demo_macs_ok demo_nonce_ok u]
  from b [OF p(1), of "[]" 3 3 5] b [OF p(1), of "[]" 3 4 5] b [OF p(2), of "[]" 3 3 5] n d show ?thesis by simp
qed

theorem link_tokens_are_bound_witness:
  "one_mac demo_tokens [] (link_context (lit ''l'') (lit ''p'')) (link_context (lit ''l'') (lit ''q''))
     (1 + LINK_SESSION_SECS) demo_nonce"
proof -
  have "list_all plain [lit ''l'', lit ''p'', lit ''l'', lit ''q'']"
    by (simp add: plain_def valid_str_def lit_def)
  note b = link_tokens_are_bound [OF demo_tokens_ok demo_nonce_ok this, THEN conjunct1]
  have "verify_link_token demo_tokens [] (lit ''l'') (lit ''q'') 5
      (issue_link_token demo_tokens [] (lit ''l'') (lit ''p'') 1 demo_nonce)"
    by code_simp
  from b [rule_format, OF this] show ?thesis by (simp add: lit_def)
qed

theorem admin_round_trip_witness:
  "verify_admin_token demo_tokens [] (lit ''v'') 5
     (issue_admin_token_with_ttl demo_tokens [] local_admin (lit ''v'') 60 1 demo_nonce) = Some (local_admin, sat_add 1 60)"
  by (rule admin_round_trip [OF demo_tokens_ok demo_json demo_nonce_ok]) (simp add: sat_add_def u64_max_def)

theorem rotation_ends_sessions_witness:
  "one_mac demo_tokens [] (admin_context (to_json demo_tokens local_admin) (lit ''w''))
     (admin_context (to_json demo_tokens local_admin) (lit ''v'')) 61 demo_nonce"
proof (rule rotation_ends_sessions [OF demo_tokens_ok demo_nonce_ok _ demo_json])
  show "61 \<le> u64_max" by (simp add: u64_max_def)
  show "list_all plain [to_json demo_tokens local_admin, lit ''v'', lit ''w'']"
    by (simp add: plain_def valid_str_def lit_def demo_tokens_def)
  show "lit ''v'' \<noteq> lit ''w''" by (simp add: lit_def)
  show "verify_admin_token demo_tokens [] (lit ''w'') 5
      (issue_admin_token_until demo_tokens [] local_admin (lit ''v'') 61 demo_nonce) \<noteq> None"
    by code_simp
qed

end
