(* ===== verification/Statements.thy ===== *)
theory Statements
  imports Tokens "HOL-Library.Multiset"
begin

text \<open>
  The signed statements of \<open>protocol/delivery.rs\<close> (evidence about a delivery) and
  \<open>protocol/routes.rs\<close> (custody between ports). Ed25519, SHA-256, the \<open>hex\<close> crate and the JSON
  serialisations are the parameters of \<open>stmt_lib\<close>; \<open>'k\<close> is a signing key and \<open>'b\<close> the JSON
  body of a port message. A statement family signs its domain, a text that ends in NUL,
  followed by the JSON of its document: the locale \<open>signed_family\<close>.
\<close>

section \<open>Documents\<close>

record challenge =
  ch_origin :: rstr
  ch_grant_id :: rstr
  ch_manifest :: rstr
  ch_holder :: rstr
  ch_nonce :: rstr
  ch_issued_at :: nat
  ch_expires_at :: nat

record signed_challenge =
  sc_challenge :: challenge
  sc_issuer :: rstr
  sc_signature :: rstr

datatype evidence_kind = Verified | Accepted

record evidence =
  ev_authorization :: signed_challenge
  ev_kind :: evidence_kind
  ev_signature :: rstr

record access_proof =
  ap_authorization :: signed_challenge
  ap_signature :: rstr

record route_permission =
  rp_receiver :: rstr
  rp_grant :: rstr
  rp_forwarding :: bool

record route_document =
  rd_issuer :: rstr
  rd_operation_id :: rstr
  rd_manifest :: rstr
  rd_label :: rstr
  rd_metadata :: "(rstr \<times> rstr) list"
  rd_parent_receipt :: "rstr option"
  rd_visited :: "rstr list"
  rd_permission :: "route_permission option"

record 'b port_message =
  pm_issuer :: rstr
  pm_audience :: rstr
  pm_purpose :: rstr
  pm_nonce :: rstr
  pm_expires_at :: nat
  pm_body :: 'b

record 'b signed_port_message =
  sp_document :: "'b port_message"
  sp_signature :: rstr

record signed_route =
  sr_document :: route_document
  sr_signature :: rstr

record receipt_document =
  rc_source :: signed_route
  rc_receiver :: rstr
  rc_upload_id :: rstr
  rc_received_at :: nat

record route_receipt =
  rr_document :: receipt_document
  rr_signature :: rstr

record revocation_document =
  rv_route_digest :: rstr
  rv_source :: signed_route
  rv_receiver :: rstr

record route_revocation =
  rn_document :: revocation_document
  rn_signature :: rstr

record revoked_document =
  rk_request :: route_revocation
  rk_revoked_at :: nat

record route_revoked =
  rw_document :: revoked_document
  rw_signature :: rstr

text \<open>
  \<open>key_hex k\<close>: the hex of the verifying key of \<open>k\<close>; \<open>sign_hex k m\<close>: the hex of the signature;
  \<open>unhex\<close>: \<open>hex::decode\<close>; \<open>key_ok\<close>, \<open>signature_ok\<close>: \<open>VerifyingKey::from\_bytes\<close> and
  \<open>Signature::from\_slice\<close> accept; \<open>verify_strict key m s\<close>; \<open>sha256_hex\<close>: the hex of the digest;
  then \<open>serde\_json::to\_vec\<close> on each type of document.
\<close>

record ('k, 'b) stmt_lib =
  key_hex :: "'k \<Rightarrow> rstr"
  sign_hex :: "'k \<Rightarrow> bytes \<Rightarrow> rstr"
  unhex :: "rstr \<Rightarrow> bytes option"
  key_ok :: "bytes \<Rightarrow> bool"
  signature_ok :: "bytes \<Rightarrow> bool"
  verify_strict :: "bytes \<Rightarrow> bytes \<Rightarrow> bytes \<Rightarrow> bool"
  sha256_hex :: "bytes \<Rightarrow> rstr"
  challenge_json :: "challenge \<Rightarrow> bytes"
  authorization_json :: "signed_challenge \<Rightarrow> bytes"
  statement_json :: "signed_challenge \<Rightarrow> evidence_kind \<Rightarrow> bytes"
  evidence_json :: "evidence \<Rightarrow> bytes"
  port_json :: "'b port_message \<Rightarrow> bytes"
  route_json :: "route_document \<Rightarrow> bytes"
  receipt_json :: "receipt_document \<Rightarrow> bytes"
  route_receipt_json :: "route_receipt \<Rightarrow> bytes"
  revocation_json :: "revocation_document \<Rightarrow> bytes"
  revoked_json :: "revoked_document \<Rightarrow> bytes"

section \<open>The manifest of a delivery\<close>

type_synonym manifest_file = "rstr \<times> rstr \<times> rstr \<times> nat"

definition to_be_bytes :: "nat \<Rightarrow> bytes" where
  "to_be_bytes n = rev (to_le_bytes n)"

definition field_bytes :: "rstr \<Rightarrow> bytes" where
  "field_bytes f = to_be_bytes (str_len f) @ as_bytes f"

definition file_bytes :: "manifest_file \<Rightarrow> bytes" where
  "file_bytes f =
     (case f of (name, suite, root, len) \<Rightarrow>
        field_bytes name @ field_bytes suite @ field_bytes root @ to_be_bytes len)"

definition manifest_bytes :: "manifest_file list \<Rightarrow> bytes" where
  "manifest_bytes files =
     as_bytes (lit ''votport-delivery-files-v1'') @ 0 #
     concat (map file_bytes files) @ to_be_bytes (length files)"

definition delivery_manifest_digest :: "('k, 'b) stmt_lib \<Rightarrow> manifest_file list \<Rightarrow> rstr" where
  "delivery_manifest_digest lib files = sha256_hex lib (manifest_bytes files)"

definition route_manifest_digest :: "('k, 'b) stmt_lib \<Rightarrow> manifest_file list \<Rightarrow> rstr" where
  "route_manifest_digest lib files = delivery_manifest_digest lib (sort_key fst files)"

section \<open>Checks of both protocols\<close>

definition lower_hex :: "rstr \<Rightarrow> bool" where
  "lower_hex v \<longleftrightarrow> list_all (\<lambda>c. is_ascii_digit c \<or> (97 \<le> c \<and> c \<le> 102)) v"

definition digest_text :: "rstr \<Rightarrow> bool" where
  "digest_text v \<longleftrightarrow> str_len v = 64 \<and> list_all (\<lambda>c. is_ascii_digit c \<or> (97 \<le> c \<and> c \<le> 102)) v"

definition id_text :: "rstr \<Rightarrow> bool" where
  "id_text v \<longleftrightarrow> v \<noteq> [] \<and> str_len v \<le> 100
     \<and> list_all (\<lambda>c. is_ascii_alphanumeric c \<or> c = 45 \<or> c = 95) v"

text \<open>The domain of a family: its text and a NUL.\<close>

definition domain :: "string \<Rightarrow> bytes" where
  "domain d = as_bytes (lit d) @ [0]"

definition message :: "bytes \<Rightarrow> bytes \<Rightarrow> bytes" where
  "message d json = d @ json"

definition verify_signature :: "('k, 'b) stmt_lib \<Rightarrow> rstr \<Rightarrow> bytes \<Rightarrow> rstr \<Rightarrow> bool" where
  "verify_signature lib holder m signature =
     (if \<not> lower_hex holder \<or> \<not> lower_hex signature then False
      else case unhex lib holder of
             None \<Rightarrow> False
           | Some key \<Rightarrow>
              if length key \<noteq> 32 \<or> \<not> key_ok lib key then False
              else case unhex lib signature of
                     None \<Rightarrow> False
                   | Some s \<Rightarrow> if \<not> signature_ok lib s then False else verify_strict lib key m s)"

definition verify_route_signature :: "('k, 'b) stmt_lib \<Rightarrow> rstr \<Rightarrow> rstr \<Rightarrow> bytes \<Rightarrow> bool" where
  "verify_route_signature lib key signature m =
     (if \<not> lower_hex signature then False
      else
        let k = (case unhex lib key of
                   None \<Rightarrow> None
                 | Some b \<Rightarrow> if length b = 32 \<and> key_ok lib b then Some b else None);
            s = (case unhex lib signature of
                   None \<Rightarrow> None
                 | Some b \<Rightarrow> if signature_ok lib b then Some b else None)
        in case (k, s) of
             (Some k, Some s) \<Rightarrow> verify_strict lib k m s
           | _ \<Rightarrow> False)"

section \<open>Evidence about a delivery\<close>

definition issue_challenge :: "('k, 'b) stmt_lib \<Rightarrow> challenge \<Rightarrow> 'k \<Rightarrow> signed_challenge" where
  "issue_challenge lib c key =
     \<lparr>sc_challenge = c, sc_issuer = key_hex lib key,
      sc_signature = sign_hex lib key (message (domain ''votport-evidence-challenge-v1'') (challenge_json lib c))\<rparr>"

definition verify_challenge :: "('k, 'b) stmt_lib \<Rightarrow> signed_challenge \<Rightarrow> rstr \<Rightarrow> bool" where
  "verify_challenge lib s issuer \<longleftrightarrow>
     sc_issuer s = issuer
     \<and> verify_signature lib issuer
          (message (domain ''votport-evidence-challenge-v1'') (challenge_json lib (sc_challenge s)))
          (sc_signature s)"

definition sign_access :: "('k, 'b) stmt_lib \<Rightarrow> signed_challenge \<Rightarrow> 'k \<Rightarrow> access_proof" where
  "sign_access lib a key =
     \<lparr>ap_authorization = a,
      ap_signature = sign_hex lib key (message (domain ''votport-recipient-access-v1'') (authorization_json lib a))\<rparr>"

definition verify_access :: "('k, 'b) stmt_lib \<Rightarrow> access_proof \<Rightarrow> rstr \<Rightarrow> bool" where
  "verify_access lib p issuer \<longleftrightarrow>
     verify_challenge lib (ap_authorization p) issuer
     \<and> verify_signature lib (ch_holder (sc_challenge (ap_authorization p)))
          (message (domain ''votport-recipient-access-v1'') (authorization_json lib (ap_authorization p)))
          (ap_signature p)"

definition sign_evidence :: "('k, 'b) stmt_lib \<Rightarrow> signed_challenge \<Rightarrow> evidence_kind \<Rightarrow> 'k \<Rightarrow> evidence" where
  "sign_evidence lib a kind key =
     \<lparr>ev_authorization = a, ev_kind = kind,
      ev_signature = sign_hex lib key (message (domain ''votport-evidence-statement-v1'') (statement_json lib a kind))\<rparr>"

definition verify_evidence :: "('k, 'b) stmt_lib \<Rightarrow> evidence \<Rightarrow> rstr \<Rightarrow> bool" where
  "verify_evidence lib e issuer \<longleftrightarrow>
     verify_challenge lib (ev_authorization e) issuer
     \<and> verify_signature lib (ch_holder (sc_challenge (ev_authorization e)))
          (message (domain ''votport-evidence-statement-v1'') (statement_json lib (ev_authorization e) (ev_kind e)))
          (ev_signature e)"

definition evidence_id :: "('k, 'b) stmt_lib \<Rightarrow> evidence \<Rightarrow> rstr" where
  "evidence_id lib e = sha256_hex lib (message (domain ''votport-evidence-id-v1'') (evidence_json lib e))"

section \<open>Messages between ports\<close>

definition PORT_MESSAGE_LIFETIME :: nat where "PORT_MESSAGE_LIFETIME = 300"

definition PORT_MESSAGE_SKEW :: nat where "PORT_MESSAGE_SKEW = 300"

definition port_text :: "('k, 'b) stmt_lib \<Rightarrow> 'b port_message \<Rightarrow> bytes" where
  "port_text lib d = message (domain ''votport-port-message-v1'') (port_json lib d)"

definition sign_port :: "('k, 'b) stmt_lib \<Rightarrow> 'b port_message \<Rightarrow> 'k \<Rightarrow> 'b signed_port_message" where
  "sign_port lib d key =
     (let d = d\<lparr>pm_issuer := key_hex lib key\<rparr>
      in \<lparr>sp_document = d, sp_signature = sign_hex lib key (port_text lib d)\<rparr>)"

definition verify_port :: "('k, 'b) stmt_lib \<Rightarrow> 'b signed_port_message \<Rightarrow> rstr \<Rightarrow> rstr \<Rightarrow> nat \<Rightarrow> bool" where
  "verify_port lib s purpose audience now \<longleftrightarrow>
     pm_purpose (sp_document s) = purpose
     \<and> pm_audience (sp_document s) = audience
     \<and> sat_add (pm_expires_at (sp_document s)) PORT_MESSAGE_SKEW > now
     \<and> id_text (pm_nonce (sp_document s))
     \<and> digest_text (pm_issuer (sp_document s))
     \<and> verify_route_signature lib (pm_issuer (sp_document s)) (sp_signature s) (port_text lib (sp_document s))"

definition window_failed :: "('k, 'b) stmt_lib \<Rightarrow> 'b signed_port_message \<Rightarrow> rstr \<Rightarrow> rstr \<Rightarrow> nat \<Rightarrow> bool" where
  "window_failed lib s purpose audience now \<longleftrightarrow>
     pm_purpose (sp_document s) = purpose
     \<and> pm_audience (sp_document s) = audience
     \<and> digest_text (pm_issuer (sp_document s))
     \<and> verify_route_signature lib (pm_issuer (sp_document s)) (sp_signature s) (port_text lib (sp_document s))
     \<and> (sat_add (pm_expires_at (sp_document s)) PORT_MESSAGE_SKEW \<le> now
         \<or> pm_expires_at (sp_document s) > sat_add (sat_add now PORT_MESSAGE_LIFETIME) PORT_MESSAGE_SKEW)"

section \<open>Routes, receipts and revocations\<close>

definition route_text :: "('k, 'b) stmt_lib \<Rightarrow> route_document \<Rightarrow> bytes" where
  "route_text lib d = message (domain ''votport-trade-route-v1'') (route_json lib d)"

definition sign_route :: "('k, 'b) stmt_lib \<Rightarrow> route_document \<Rightarrow> 'k \<Rightarrow> signed_route" where
  "sign_route lib d key =
     (let d = d\<lparr>rd_issuer := key_hex lib key\<rparr>
      in \<lparr>sr_document = d, sr_signature = sign_hex lib key (route_text lib d)\<rparr>)"

definition route_shape :: "route_document \<Rightarrow> bool" where
  "route_shape d \<longleftrightarrow>
     digest_text (rd_issuer d)
     \<and> digest_text (rd_manifest d)
     \<and> id_text (rd_operation_id d)
     \<and> trim (rd_label d) \<noteq> []
     \<and> str_len (rd_label d) \<le> 200
     \<and> length (rd_metadata d) \<le> 50
     \<and> list_all (\<lambda>(key, v). id_text key \<and> str_len v \<le> 4096) (rd_metadata d)
     \<and> (case rd_parent_receipt d of None \<Rightarrow> True | Some v \<Rightarrow> digest_text v)
     \<and> rd_visited d \<noteq> []
     \<and> length (rd_visited d) \<le> 8
     \<and> list_all digest_text (rd_visited d)
     \<and> length (remdups (rd_visited d)) = length (rd_visited d)
     \<and> last (rd_visited d) = rd_issuer d
     \<and> (case rd_permission d of None \<Rightarrow> True | Some p \<Rightarrow> digest_text (rp_receiver p) \<and> id_text (rp_grant p))"

definition verify_route :: "('k, 'b) stmt_lib \<Rightarrow> signed_route \<Rightarrow> bool" where
  "verify_route lib s \<longleftrightarrow>
     route_shape (sr_document s)
     \<and> verify_route_signature lib (rd_issuer (sr_document s)) (sr_signature s) (route_text lib (sr_document s))"

definition admits :: "('k, 'b) stmt_lib \<Rightarrow> signed_route \<Rightarrow> rstr \<Rightarrow> bool" where
  "admits lib s receiver \<longleftrightarrow>
     verify_route lib s
     \<and> digest_text receiver
     \<and> \<not> list_ex (\<lambda>port. port = receiver) (rd_visited (sr_document s))
     \<and> (case rd_permission (sr_document s) of None \<Rightarrow> True | Some p \<Rightarrow> rp_receiver p = receiver)"

definition receipt_text :: "('k, 'b) stmt_lib \<Rightarrow> receipt_document \<Rightarrow> bytes" where
  "receipt_text lib d = message (domain ''votport-route-receipt-v1'') (receipt_json lib d)"

definition sign_receipt :: "('k, 'b) stmt_lib \<Rightarrow> signed_route \<Rightarrow> rstr \<Rightarrow> nat \<Rightarrow> 'k \<Rightarrow> route_receipt" where
  "sign_receipt lib source upload_id received_at key =
     (let d = \<lparr>rc_source = source, rc_receiver = key_hex lib key, rc_upload_id = upload_id,
               rc_received_at = received_at\<rparr>
      in \<lparr>rr_document = d, rr_signature = sign_hex lib key (receipt_text lib d)\<rparr>)"

definition verify_receipt :: "('k, 'b) stmt_lib \<Rightarrow> route_receipt \<Rightarrow> rstr \<Rightarrow> bool" where
  "verify_receipt lib r receiver \<longleftrightarrow>
     rc_receiver (rr_document r) = receiver
     \<and> admits lib (rc_source (rr_document r)) receiver
     \<and> id_text (rc_upload_id (rr_document r))
     \<and> rc_received_at (rr_document r) > 0
     \<and> verify_route_signature lib receiver (rr_signature r) (receipt_text lib (rr_document r))"

definition receipt_digest :: "('k, 'b) stmt_lib \<Rightarrow> route_receipt \<Rightarrow> rstr" where
  "receipt_digest lib r = sha256_hex lib (route_receipt_json lib r)"

text \<open>The closure of \<open>verify\_ancestry\<close> on one ancestor and its index.\<close>

definition ancestor_ok :: "('k, 'b) stmt_lib \<Rightarrow> signed_route \<Rightarrow> route_receipt list \<Rightarrow> nat \<times> route_receipt \<Rightarrow> bool" where
  "ancestor_ok lib source ancestors ir =
     (case ir of (i, r) \<Rightarrow>
        verify_receipt lib r (rd_visited (sr_document source) ! (i + 1))
        \<and> (case rd_permission (sr_document (rc_source (rr_document r))) of
             None \<Rightarrow> True | Some p \<Rightarrow> rp_forwarding p)
        \<and> rd_visited (sr_document (rc_source (rr_document r))) = take (i + 1) (rd_visited (sr_document source))
        \<and> rd_manifest (sr_document (rc_source (rr_document r))) = rd_manifest (sr_document source)
        \<and> rd_parent_receipt (sr_document (rc_source (rr_document r)))
            = (if i = 0 then None else Some (receipt_digest lib (ancestors ! (i - 1)))))"

definition verify_ancestry :: "('k, 'b) stmt_lib \<Rightarrow> signed_route \<Rightarrow> route_receipt list \<Rightarrow> bool" where
  "verify_ancestry lib source ancestors \<longleftrightarrow>
     verify_route lib source
     \<and> length ancestors + 1 = length (rd_visited (sr_document source))
     \<and> rd_parent_receipt (sr_document source)
         = (if ancestors = [] then None else Some (receipt_digest lib (last ancestors)))
     \<and> list_all (ancestor_ok lib source ancestors) (List.enumerate 0 ancestors)"

definition revocation_text :: "('k, 'b) stmt_lib \<Rightarrow> revocation_document \<Rightarrow> bytes" where
  "revocation_text lib d = message (domain ''votport-route-revoke-v1'') (revocation_json lib d)"

definition sign_revocation :: "('k, 'b) stmt_lib \<Rightarrow> signed_route \<Rightarrow> rstr \<Rightarrow> rstr \<Rightarrow> 'k \<Rightarrow> route_revocation" where
  "sign_revocation lib source receiver route_id key =
     (let d = \<lparr>rv_route_digest = sha256_hex lib (as_bytes route_id), rv_source = source, rv_receiver = receiver\<rparr>
      in \<lparr>rn_document = d, rn_signature = sign_hex lib key (revocation_text lib d)\<rparr>)"

definition verify_revocation :: "('k, 'b) stmt_lib \<Rightarrow> route_revocation \<Rightarrow> bool" where
  "verify_revocation lib r \<longleftrightarrow>
     digest_text (rv_route_digest (rn_document r))
     \<and> admits lib (rv_source (rn_document r)) (rv_receiver (rn_document r))
     \<and> verify_route_signature lib (rd_issuer (sr_document (rv_source (rn_document r))))
          (rn_signature r) (revocation_text lib (rn_document r))"

definition revoked_text :: "('k, 'b) stmt_lib \<Rightarrow> revoked_document \<Rightarrow> bytes" where
  "revoked_text lib d = message (domain ''votport-route-revoked-v1'') (revoked_json lib d)"

definition sign_revoked :: "('k, 'b) stmt_lib \<Rightarrow> route_revocation \<Rightarrow> nat \<Rightarrow> 'k \<Rightarrow> route_revoked" where
  "sign_revoked lib request revoked_at key =
     (let d = \<lparr>rk_request = request, rk_revoked_at = revoked_at\<rparr>
      in \<lparr>rw_document = d, rw_signature = sign_hex lib key (revoked_text lib d)\<rparr>)"

definition verify_revoked :: "('k, 'b) stmt_lib \<Rightarrow> route_revoked \<Rightarrow> route_revocation \<Rightarrow> bool" where
  "verify_revoked lib r request \<longleftrightarrow>
     rk_request (rw_document r) = request
     \<and> verify_revocation lib request
     \<and> rk_revoked_at (rw_document r) > 0
     \<and> verify_route_signature lib (rv_receiver (rn_document request)) (rw_signature r)
          (revoked_text lib (rw_document r))"

section \<open>Signing domains\<close>

text \<open>The interface of the statement families: domains that end in their only NUL. A signature
  over one family's message is then never one over another's.\<close>

locale signing_domains =
  fixes doms :: "bytes list"
  assumes nul_terminated: "d \<in> set doms \<Longrightarrow> \<exists>t. d = t @ [0] \<and> 0 \<notin> set t"
begin

lemma message_separates:
  assumes "d \<in> set doms" and "d' \<in> set doms" and "message d x = message d' y"
  shows "d = d' \<and> x = y"
proof -
  obtain t t' where "d = t @ [0]" "0 \<notin> set t" "d' = t' @ [0]" "0 \<notin> set t'"
    using nul_terminated assms(1,2) by metis
  then show ?thesis
    using nul_terminated_inj [of t x t' y] assms(3) by (simp add: message_def)
qed

end

definition DOMAINS :: "bytes list" where
  "DOMAINS = map domain [''votport-evidence-challenge-v1'', ''votport-recipient-access-v1'',
     ''votport-evidence-statement-v1'', ''votport-evidence-id-v1'', ''votport-port-message-v1'',
     ''votport-trade-route-v1'', ''votport-route-receipt-v1'', ''votport-route-revoke-v1'',
     ''votport-route-revoked-v1'']"

lemma domain_nul:
  "0 \<notin> set (lit d) \<Longrightarrow> valid_str (lit d) \<Longrightarrow> \<exists>t. domain d = t @ [0] \<and> 0 \<notin> set t"
  unfolding domain_def using as_bytes_nul by blast

interpretation statements: signing_domains DOMAINS
proof
  fix d
  assume "d \<in> set DOMAINS"
  then show "\<exists>t. d = t @ [0] \<and> 0 \<notin> set t"
    unfolding DOMAINS_def by (auto intro!: domain_nul simp: lit_def valid_str_def)
qed

section \<open>Signatures\<close>

text \<open>What the code relies on of Ed25519 and \<open>hex\<close>: keys and signatures are spelled in lowercase
  hex, decode, and verify what their key signed; digests are 64 lowercase hex digits.\<close>

definition signs :: "('k, 'b) stmt_lib \<Rightarrow> 'k \<Rightarrow> bool" where
  "signs lib k \<longleftrightarrow>
     digest_text (key_hex lib k)
     \<and> (\<exists>b. unhex lib (key_hex lib k) = Some b \<and> length b = 32 \<and> key_ok lib b
         \<and> (\<forall>m. lower_hex (sign_hex lib k m)
               \<and> (\<exists>s. unhex lib (sign_hex lib k m) = Some s \<and> signature_ok lib s \<and> verify_strict lib b m s)))"

lemma digest_lower_hex: "digest_text v \<Longrightarrow> lower_hex v"
  by (simp add: digest_text_def lower_hex_def)

lemma verify_route_signature_iff:
  "verify_route_signature lib key signature m \<longleftrightarrow>
     lower_hex signature
     \<and> (\<exists>b s. unhex lib key = Some b \<and> length b = 32 \<and> key_ok lib b
          \<and> unhex lib signature = Some s \<and> signature_ok lib s \<and> verify_strict lib b m s)"
  by (auto simp: verify_route_signature_def Let_def split: option.splits)

lemma verify_signature_iff:
  "verify_signature lib holder m signature \<longleftrightarrow>
     lower_hex holder \<and> verify_route_signature lib holder signature m"
  unfolding verify_route_signature_iff by (auto simp: verify_signature_def split: option.splits)

lemma signed_verifies:
  "signs lib k \<Longrightarrow> verify_route_signature lib (key_hex lib k) (sign_hex lib k m) m"
  unfolding verify_route_signature_iff signs_def by blast

lemma signs_digest: "signs lib k \<Longrightarrow> digest_text (key_hex lib k)"
  by (simp add: signs_def)

section \<open>Custody\<close>

lemma ancestor_at:
  assumes "verify_ancestry lib source ancestors" and "i < length ancestors"
  shows "ancestor_ok lib source ancestors (i, ancestors ! i)"
  using assms by (auto simp: verify_ancestry_def list_all_iff in_set_enumerate_eq)

lemma verify_route_shape: "verify_route lib s \<Longrightarrow> route_shape (sr_document s)"
  by (simp add: verify_route_def)

lemma route_shape_visited:
  "route_shape d \<Longrightarrow> rd_visited d \<noteq> [] \<and> length (rd_visited d) \<le> 8 \<and> distinct (rd_visited d)
     \<and> last (rd_visited d) = rd_issuer d"
  by (auto simp: route_shape_def length_remdups_card_conv card_distinct)

lemma ancestor_custody:
  assumes "verify_ancestry lib source ancestors" and "i < length ancestors"
  defines "hop \<equiv> sr_document (rc_source (rr_document (ancestors ! i)))"
    and "ports \<equiv> rd_visited (sr_document source)"
  shows "rd_issuer hop = ports ! i" and "rc_receiver (rr_document (ancestors ! i)) = ports ! (i + 1)"
    and "rd_manifest hop = rd_manifest (sr_document source)"
    and "\<And>p. rd_permission hop = Some p \<Longrightarrow> rp_forwarding p \<and> rp_receiver p = ports ! (i + 1)"
proof -
  note ok = ancestor_at [OF assms(1,2)]
  have r: "verify_receipt lib (ancestors ! i) (ports ! (i + 1))" and v: "rd_visited hop = take (i + 1) ports"
    and m: "rd_manifest hop = rd_manifest (sr_document source)"
    and p: "case rd_permission hop of None \<Rightarrow> True | Some p \<Rightarrow> rp_forwarding p"
    using ok by (simp_all add: ancestor_ok_def hop_def ports_def)
  have a: "admits lib (rc_source (rr_document (ancestors ! i))) (ports ! (i + 1))"
    using r by (simp add: verify_receipt_def)
  then have "route_shape hop" by (simp add: admits_def verify_route_def hop_def)
  then have l: "last (rd_visited hop) = rd_issuer hop" using route_shape_visited by blast
  have "i + 1 < length ports"
    using assms(1,2) by (auto simp: verify_ancestry_def ports_def)
  then have "last (take (i + 1) ports) = ports ! i"
    by (simp add: take_Suc_conv_app_nth)
  with l v show "rd_issuer hop = ports ! i" by simp
  show "rc_receiver (rr_document (ancestors ! i)) = ports ! (i + 1)"
    using r by (simp add: verify_receipt_def)
  show "rd_manifest hop = rd_manifest (sr_document source)" by (rule m)
  show "rp_forwarding q \<and> rp_receiver q = ports ! (i + 1)" if "rd_permission hop = Some q" for q
    using that p a by (simp add: admits_def hop_def)
qed

section \<open>The manifest encoding\<close>

lemma length_as_bytes [simp]: "length (as_bytes s) = str_len s"
  by (induction s) (auto simp: as_bytes_def utf8_char_def utf8_width_def)

lemma length_be_bytes [simp]: "length (to_be_bytes n) = 8"
  by (simp add: to_be_bytes_def)

lemma be_bytes_nonempty [simp]: "to_be_bytes n \<noteq> []"
  using length_be_bytes [of n] by fastforce

lemma to_be_bytes_inj: "a \<le> u64_max \<Longrightarrow> b \<le> u64_max \<Longrightarrow> to_be_bytes a = to_be_bytes b \<Longrightarrow> a = b"
  by (auto simp: to_be_bytes_def intro: to_le_bytes_inj)

lemma same_length_append: "x @ r = y @ s \<Longrightarrow> length x = length y \<Longrightarrow> x = y \<and> r = s"
  by simp

lemma field_bytes_inj:
  assumes "field_bytes f @ r = field_bytes g @ s"
    and "valid_str f" and "valid_str g" and "str_len f \<le> u64_max" and "str_len g \<le> u64_max"
  shows "f = g \<and> r = s"
proof -
  have "to_be_bytes (str_len f) = to_be_bytes (str_len g) \<and> as_bytes f @ r = as_bytes g @ s"
    by (rule same_length_append) (use assms(1) in \<open>simp_all add: field_bytes_def\<close>)
  moreover from this have "str_len f = str_len g" using assms(4,5) to_be_bytes_inj by blast
  ultimately have "as_bytes f = as_bytes g \<and> r = s"
    by (intro same_length_append) simp_all
  then show ?thesis using assms(2,3) by (simp add: as_bytes_inj)
qed

definition wire_file :: "manifest_file \<Rightarrow> bool" where
  "wire_file f \<longleftrightarrow>
     (case f of (name, suite, root, len) \<Rightarrow>
        list_all (\<lambda>t. valid_str t \<and> str_len t \<le> u64_max) [name, suite, root] \<and> len \<le> u64_max)"

lemma file_bytes_inj:
  assumes "file_bytes f @ r = file_bytes g @ s" and "wire_file f" and "wire_file g"
  shows "f = g \<and> r = s"
proof -
  obtain n u t l n' u' t' l' where e: "f = (n, u, t, l)" "g = (n', u', t', l')"
    by (cases f; cases g)
  have "n = n' \<and> field_bytes u @ field_bytes t @ to_be_bytes l @ r
      = field_bytes u' @ field_bytes t' @ to_be_bytes l' @ s"
    by (rule field_bytes_inj) (use assms in \<open>simp_all add: e file_bytes_def wire_file_def\<close>)
  then have n: "n = n'" and u: "field_bytes u @ field_bytes t @ to_be_bytes l @ r
      = field_bytes u' @ field_bytes t' @ to_be_bytes l' @ s" by auto
  have "u = u' \<and> field_bytes t @ to_be_bytes l @ r = field_bytes t' @ to_be_bytes l' @ s"
    by (rule field_bytes_inj [OF u]) (use assms in \<open>simp_all add: e wire_file_def\<close>)
  then have u': "u = u'" and t: "field_bytes t @ to_be_bytes l @ r = field_bytes t' @ to_be_bytes l' @ s" by auto
  have "t = t' \<and> to_be_bytes l @ r = to_be_bytes l' @ s"
    by (rule field_bytes_inj [OF t]) (use assms in \<open>simp_all add: e wire_file_def\<close>)
  moreover from this have "to_be_bytes l = to_be_bytes l' \<and> r = s"
    by (intro same_length_append) simp_all
  ultimately show ?thesis
    using n u' assms(2,3) to_be_bytes_inj by (auto simp: e wire_file_def)
qed

lemma files_bytes_inj:
  "list_all wire_file xs \<Longrightarrow> list_all wire_file ys \<Longrightarrow>
   concat (map file_bytes xs) @ to_be_bytes a = concat (map file_bytes ys) @ to_be_bytes b \<Longrightarrow> xs = ys"
proof (induction xs arbitrary: ys)
  case Nil
  then have "length (concat (map file_bytes ys)) = 0"
    by (metis add_cancel_left_left concat.simps(1) length_append length_be_bytes list.simps(8) self_append_conv2)
  then show ?case by (cases ys) (auto simp: file_bytes_def field_bytes_def split: prod.splits)
next
  case (Cons x xs)
  show ?case
  proof (cases ys)
    case Nil
    then have "length (concat (map file_bytes (x # xs)) @ to_be_bytes a) = 8"
      using Cons.prems(3) by (metis append_Nil concat.simps(1) length_be_bytes list.simps(8))
    then show ?thesis by (auto simp: file_bytes_def field_bytes_def split: prod.splits)
  next
    case (Cons y zs)
    have "x = y \<and> concat (map file_bytes xs) @ to_be_bytes a = concat (map file_bytes zs) @ to_be_bytes b"
      by (rule file_bytes_inj) (use Cons.prems Cons in simp_all)
    then show ?thesis using Cons.IH [of zs] Cons.prems Cons by simp
  qed
qed

section \<open>Properties\<close>

text \<open>C36: A verified chain of custody: every hop was issued by the port before it and received, by
  signed receipt, by the port after it, for the same manifest and only onwards with permission to
  forward; no port appears twice and there are at most eight.\<close>

theorem custody_chain:
  assumes "verify_ancestry lib source ancestors"
  shows "distinct (rd_visited (sr_document source)) \<and> length (rd_visited (sr_document source)) \<le> 8
    \<and> last (rd_visited (sr_document source)) = rd_issuer (sr_document source)
    \<and> (\<forall>i < length ancestors.
         rd_issuer (sr_document (rc_source (rr_document (ancestors ! i)))) = rd_visited (sr_document source) ! i
         \<and> rc_receiver (rr_document (ancestors ! i)) = rd_visited (sr_document source) ! (i + 1)
         \<and> rd_manifest (sr_document (rc_source (rr_document (ancestors ! i)))) = rd_manifest (sr_document source)
         \<and> (case rd_permission (sr_document (rc_source (rr_document (ancestors ! i)))) of
              None \<Rightarrow> True
            | Some p \<Rightarrow> rp_forwarding p \<and> rp_receiver p = rd_visited (sr_document source) ! (i + 1)))"
proof -
  have "route_shape (sr_document source)"
    using assms by (simp add: verify_ancestry_def verify_route_def)
  then show ?thesis
    using route_shape_visited ancestor_custody [OF assms] by (auto split: option.splits)
qed

text \<open>Forwarding extends the chain: a port that received an admitted, forwardable delivery with
  a verified ancestry and signs the next route over it gives its receiver a verified ancestry.\<close>

theorem forwarding_extends_custody:
  assumes "signs lib key" and "verify_ancestry lib source ancestors"
    and "admits lib source (key_hex lib key)"
    and "case rd_permission (sr_document source) of None \<Rightarrow> True | Some p \<Rightarrow> rp_forwarding p"
    and "id_text upload_id" and "received_at > 0"
    and "route_shape d" and "rd_issuer d = key_hex lib key"
    and "rd_visited d = rd_visited (sr_document source) @ [key_hex lib key]"
    and "rd_manifest d = rd_manifest (sr_document source)"
    and "rd_parent_receipt d = Some (receipt_digest lib (sign_receipt lib source upload_id received_at key))"
  shows "verify_ancestry lib (sign_route lib d key) (ancestors @ [sign_receipt lib source upload_id received_at key])"
proof -
  let ?r = "sign_receipt lib source upload_id received_at key"
  let ?next = "sign_route lib d key"
  have same: "d\<lparr>rd_issuer := key_hex lib key\<rparr> = d" using assms(8) by (cases d) simp
  then have d: "sr_document ?next = d" by (simp add: sign_route_def Let_def)
  have route: "verify_route lib ?next"
    using assms(7,8) signed_verifies [OF assms(1)] unfolding verify_route_def sign_route_def Let_def same by simp
  have len: "length (rd_visited (sr_document source)) = Suc (length ancestors)"
    using assms(2) by (simp add: verify_ancestry_def)
  have src: "rc_source (rr_document ?r) = source" by (simp add: sign_receipt_def Let_def)
  have receipt: "verify_receipt lib ?r (key_hex lib key)"
    using assms(3,5,6) signed_verifies [OF assms(1)] by (simp add: verify_receipt_def sign_receipt_def Let_def)
  have parent: "rd_parent_receipt (sr_document source)
      = (if ancestors = [] then None else Some (receipt_digest lib (last ancestors)))"
    using assms(2) by (simp add: verify_ancestry_def)
  have new: "ancestor_ok lib ?next (ancestors @ [?r]) (length ancestors, ?r)"
    using receipt parent assms(4)
    by (auto simp: ancestor_ok_def d src assms(9,10) len nth_append last_conv_nth)
  have old: "ancestor_ok lib ?next (ancestors @ [?r]) (i, ancestors ! i)" if "i < length ancestors" for i
    using ancestor_at [OF assms(2) that] that
    by (auto simp: ancestor_ok_def d assms(9,10) len nth_append)
  have "list_all (ancestor_ok lib ?next (ancestors @ [?r])) (List.enumerate 0 (ancestors @ [?r]))"
    using new old by (auto simp: list_all_iff in_set_enumerate_eq nth_append less_Suc_eq)
  with route show ?thesis
    unfolding verify_ancestry_def by (simp add: d assms(9,11) len)
qed

text \<open>A signature over one kind of statement is never one over another: the signed messages of
  the nine statement domains are pairwise distinct, and within a domain they fix the document's
  serialisation.\<close>

theorem statement_domains_separate:
  assumes "d \<in> set DOMAINS" and "d' \<in> set DOMAINS" and "message d x = message d' y"
  shows "d = d' \<and> x = y"
  using assms by (rule statements.message_separates)

text \<open>C37: The hashed bytes of a delivery manifest determine its files: names, suites, roots, sizes,
  number and order, so different deliveries never share a digest without a SHA-256 collision.\<close>

theorem manifest_determines_files:
  assumes "list_all wire_file xs" and "list_all wire_file ys" and "manifest_bytes xs = manifest_bytes ys"
  shows "xs = ys"
proof -
  have "concat (map file_bytes xs) @ to_be_bytes (length xs) = concat (map file_bytes ys) @ to_be_bytes (length ys)"
    using assms(3) by (simp add: manifest_bytes_def)
  then show ?thesis by (rule files_bytes_inj [OF assms(1,2)])
qed

text \<open>The digest of a route does not depend on the order its files are listed in, when their
  names are distinct.\<close>

theorem route_digest_ignores_order:
  assumes "mset xs = mset ys" and "distinct (map fst xs)"
  shows "route_manifest_digest lib xs = route_manifest_digest lib ys"
proof -
  have "inj_on fst (set xs)" using assms(2) by (simp add: distinct_map)
  then have "sort_key fst xs = sort_key fst ys"
    using assms(1) by (intro sort_key_inj_key_eq) simp_all
  then show ?thesis by (simp add: route_manifest_digest_def)
qed

text \<open>A genuine message between ports verifies exactly until one skew window after its expiry,
  and a failed window is reported exactly when it no longer verifies or is dated beyond the
  horizon a mint can justify; so within that horizon the two answers exclude each other.\<close>

theorem genuine_message_window:
  assumes "signs lib key" and "id_text (pm_nonce d)"
  shows "(verify_port lib (sign_port lib d key) (pm_purpose d) (pm_audience d) now
            \<longleftrightarrow> now < sat_add (pm_expires_at d) PORT_MESSAGE_SKEW)
       \<and> (window_failed lib (sign_port lib d key) (pm_purpose d) (pm_audience d) now
            \<longleftrightarrow> \<not> verify_port lib (sign_port lib d key) (pm_purpose d) (pm_audience d) now
              \<or> pm_expires_at d > sat_add (sat_add now PORT_MESSAGE_LIFETIME) PORT_MESSAGE_SKEW)"
proof -
  let ?d = "d\<lparr>pm_issuer := key_hex lib key\<rparr>"
  have "verify_route_signature lib (key_hex lib key) (sign_hex lib key (port_text lib ?d)) (port_text lib ?d)"
    by (rule signed_verifies [OF assms(1)])
  then show ?thesis
    using signs_digest [OF assms(1)] assms(2)
    by (auto simp: verify_port_def window_failed_def sign_port_def Let_def not_less)
qed

text \<open>Evidence signed by the device a challenge names verifies under the port that issued the
  challenge, and the device's access proof does too.\<close>

theorem evidence_round_trip:
  assumes "signs lib port" and "signs lib device" and "ch_holder c = key_hex lib device"
  shows "verify_evidence lib (sign_evidence lib (issue_challenge lib c port) kind device) (key_hex lib port)
       \<and> verify_access lib (sign_access lib (issue_challenge lib c port) device) (key_hex lib port)"
  using assms(3) signed_verifies [OF assms(1)] signed_verifies [OF assms(2)]
    signs_digest [OF assms(1), THEN digest_lower_hex] signs_digest [OF assms(2), THEN digest_lower_hex]
  by (simp add: verify_evidence_def sign_evidence_def verify_access_def sign_access_def
      verify_challenge_def issue_challenge_def verify_signature_iff)

section \<open>Witnesses\<close>

text \<open>One key, whose hex is 64 zeros; every 64-character text decodes and verifies.\<close>

definition demo_stmts :: "(bool, unit) stmt_lib" where
  "demo_stmts = \<lparr>key_hex = (\<lambda>k. replicate 64 (if k then 49 else 48)), sign_hex = (\<lambda>_ _. lit ''ab''),
     unhex = (\<lambda>_. Some (replicate 32 0)), key_ok = (\<lambda>_. True), signature_ok = (\<lambda>_. True),
     verify_strict = (\<lambda>_ _ _. True), sha256_hex = (\<lambda>_. replicate 64 97), challenge_json = (\<lambda>_. []),
     authorization_json = (\<lambda>_. []), statement_json = (\<lambda>_ _. []), evidence_json = (\<lambda>_. []),
     port_json = (\<lambda>_. []), route_json = (\<lambda>_. []), receipt_json = (\<lambda>_. []), route_receipt_json = (\<lambda>_. []),
     revocation_json = (\<lambda>_. []), revoked_json = (\<lambda>_. [])\<rparr>"

lemma demo_signs: "signs demo_stmts k"
proof -
  have "digest_text (key_hex demo_stmts True)" "digest_text (key_hex demo_stmts False)"
    by code_simp+
  then have "digest_text (key_hex demo_stmts k)" by (cases k) simp_all
  moreover have "lower_hex (lit ''ab'')" by code_simp
  ultimately show ?thesis
    unfolding signs_def by (intro conjI exI [of _ "replicate 32 0"]) (simp_all add: demo_stmts_def)
qed

definition demo_route :: route_document where
  "demo_route = \<lparr>rd_issuer = key_hex demo_stmts False, rd_operation_id = lit ''job'',
     rd_manifest = replicate 64 97, rd_label = lit ''Delivery'', rd_metadata = [], rd_parent_receipt = None,
     rd_visited = [key_hex demo_stmts False], rd_permission = None\<rparr>"

definition demo_source :: signed_route where
  "demo_source = sign_route demo_stmts demo_route False"

definition demo_next :: route_document where
  "demo_next = demo_route\<lparr>rd_issuer := key_hex demo_stmts True,
     rd_visited := [key_hex demo_stmts False, key_hex demo_stmts True],
     rd_parent_receipt := Some (receipt_digest demo_stmts (sign_receipt demo_stmts demo_source (lit ''u'') 1 True))\<rparr>"

theorem forwarding_extends_custody_witness:
  "verify_ancestry demo_stmts (sign_route demo_stmts demo_next True)
     [sign_receipt demo_stmts demo_source (lit ''u'') 1 True]"
proof -
  have "verify_ancestry demo_stmts demo_source []" "admits demo_stmts demo_source (key_hex demo_stmts True)"
    "route_shape demo_next" "id_text (lit ''u'')"
    by code_simp+
  moreover have "rd_issuer demo_next = key_hex demo_stmts True"
    "rd_visited demo_next = rd_visited (sr_document demo_source) @ [key_hex demo_stmts True]"
    "rd_manifest demo_next = rd_manifest (sr_document demo_source)"
    "rd_parent_receipt demo_next
       = Some (receipt_digest demo_stmts (sign_receipt demo_stmts demo_source (lit ''u'') 1 True))"
    "rd_permission (sr_document demo_source) = None"
    by (simp_all add: demo_next_def demo_source_def demo_route_def sign_route_def Let_def)
  ultimately show ?thesis
    using forwarding_extends_custody [OF demo_signs, of demo_source "[]" True "lit ''u''" 1 demo_next] by simp
qed

theorem custody_chain_witness: "distinct (rd_visited demo_next)"
proof -
  have "verify_ancestry demo_stmts (sign_route demo_stmts demo_next True)
      [sign_receipt demo_stmts demo_source (lit ''u'') 1 True]" by code_simp
  from custody_chain [OF this] show ?thesis by (simp add: sign_route_def Let_def)
qed

theorem statement_domains_separate_witness:
  "message (domain ''votport-trade-route-v1'') [] \<noteq> message (domain ''votport-route-receipt-v1'') []"
proof
  assume "message (domain ''votport-trade-route-v1'') [] = message (domain ''votport-route-receipt-v1'') []"
  from statement_domains_separate [OF _ _ this]
  have "domain ''votport-trade-route-v1'' = domain ''votport-route-receipt-v1''" by (simp add: DOMAINS_def)
  moreover have "domain ''votport-trade-route-v1'' \<noteq> domain ''votport-route-receipt-v1''" by code_simp
  ultimately show False by simp
qed

theorem manifest_determines_files_witness:
  "manifest_bytes [(lit ''a'', lit ''blake3'', lit ''ab'', 7)] \<noteq> manifest_bytes [(lit ''ab'', lit ''lake3'', lit ''ab'', 7)]"
proof
  assume h: "manifest_bytes [(lit ''a'', lit ''blake3'', lit ''ab'', 7)]
      = manifest_bytes [(lit ''ab'', lit ''lake3'', lit ''ab'', 7)]"
  have "list_all wire_file [(lit ''a'', lit ''blake3'', lit ''ab'', 7)]"
    "list_all wire_file [(lit ''ab'', lit ''lake3'', lit ''ab'', 7)]" by code_simp+
  from manifest_determines_files [OF this h] show False by (simp add: lit_def)
qed

theorem route_digest_ignores_order_witness:
  "route_manifest_digest demo_stmts [(lit ''b'', [], [], 1), (lit ''a'', [], [], 2)]
     = route_manifest_digest demo_stmts [(lit ''a'', [], [], 2), (lit ''b'', [], [], 1)]"
  by (rule route_digest_ignores_order) (simp_all add: lit_def)

theorem genuine_message_window_witness:
  "verify_port demo_stmts (sign_port demo_stmts \<lparr>pm_issuer = [], pm_audience = lit ''a'', pm_purpose = lit ''status'',
     pm_nonce = lit ''n'', pm_expires_at = 1000, pm_body = ()\<rparr> True) (lit ''status'') (lit ''a'') 1299"
proof -
  let ?d = "\<lparr>pm_issuer = [], pm_audience = lit ''a'', pm_purpose = lit ''status'',
     pm_nonce = lit ''n'', pm_expires_at = 1000, pm_body = ()\<rparr>"
  have "id_text (pm_nonce ?d)" by code_simp
  from genuine_message_window [OF demo_signs this, of True 1299] show ?thesis
    by (simp add: sat_add_def PORT_MESSAGE_SKEW_def u64_max_def)
qed

theorem evidence_round_trip_witness:
  "verify_evidence demo_stmts (sign_evidence demo_stmts (issue_challenge demo_stmts
     \<lparr>ch_origin = [], ch_grant_id = [], ch_manifest = [], ch_holder = key_hex demo_stmts True, ch_nonce = [],
      ch_issued_at = 1, ch_expires_at = 2\<rparr> False) Accepted True) (key_hex demo_stmts False)"
  using evidence_round_trip [OF demo_signs demo_signs, of
      "\<lparr>ch_origin = [], ch_grant_id = [], ch_manifest = [], ch_holder = key_hex demo_stmts True, ch_nonce = [],
      ch_issued_at = 1, ch_expires_at = 2\<rparr>" True] by simp

end
