(* ===== verification/Settings.thy ===== *)
theory Settings
  imports Votport_Base "HOL-Library.Word"
begin

text \<open>
  Where a named tenant may connect and how settings are read: \<open>server/src/egress.rs\<close> and the
  pure parts of \<open>server/src/config.rs\<close> (address blocks, byte counts, switches, caps). An
  address is its octets, as \<open>Ipv4Addr::octets\<close> and \<open>Ipv6Addr::octets\<close> give them; the text
  parser of addresses and the URL parser are arguments.
\<close>

unbundle bit_operations_syntax

section \<open>Addresses\<close>

datatype ip_addr = V4 "8 word list" | V6 "8 word list"

definition ip_ok :: "ip_addr \<Rightarrow> bool" where
  "ip_ok ip \<longleftrightarrow> (case ip of V4 o4 \<Rightarrow> length o4 = 4 | V6 o6 \<Rightarrow> length o6 = 16)"

definition segment :: "8 word list \<Rightarrow> nat \<Rightarrow> 16 word" where
  "segment o6 i = push_bit 8 (ucast (o6 ! (2 * i))) OR ucast (o6 ! (2 * i + 1))"

definition to_ipv4_mapped :: "8 word list \<Rightarrow> 8 word list option" where
  "to_ipv4_mapped o6 =
     (if take 12 o6 = replicate 10 0 @ [0xff, 0xff] then Some (drop 12 o6) else None)"

definition to_ipv4 :: "8 word list \<Rightarrow> 8 word list option" where
  "to_ipv4 o6 =
     (if take 12 o6 = replicate 10 0 @ [0xff, 0xff] \<or> take 12 o6 = replicate 12 0
      then Some (drop 12 o6) else None)"

subsection \<open>Address blocks\<close>

record ip_cidr =
  network :: ip_addr
  bits :: nat

definition prefix_matches :: "8 word list \<Rightarrow> 8 word list \<Rightarrow> nat \<Rightarrow> bool" where
  "prefix_matches net ip n =
     (let whole = n div 8; remainder = n mod 8
      in if take whole net \<noteq> take whole ip then False
         else if remainder = 0 then True
         else let mask = push_bit (8 - remainder) (0xff :: 8 word)
              in net ! whole AND mask = ip ! whole AND mask)"

definition cidr_contains :: "ip_cidr \<Rightarrow> ip_addr \<Rightarrow> bool" where
  "cidr_contains block ip =
     (let ip = (case ip of
                  V6 o6 \<Rightarrow> (case to_ipv4_mapped o6 of Some o4 \<Rightarrow> V4 o4 | None \<Rightarrow> V6 o6)
                | V4 o4 \<Rightarrow> V4 o4)
      in case (network block, ip) of
           (V4 net, V4 ip) \<Rightarrow> prefix_matches net ip (bits block)
         | (V6 net, V6 ip) \<Rightarrow> prefix_matches net ip (bits block)
         | _ \<Rightarrow> False)"

datatype setting_error =
    PrefixNotNumber rstr
  | NotAnAddress rstr
  | PrefixTooLong rstr
  | UnknownSuffix rstr
  | NotAByteCount rstr
  | OutOfRange rstr
  | MustBePositive rstr
  | NotASwitch
  | NotANumber
  | PasswordTooShort
  | UnknownSubjectClaim rstr

text \<open>\<open>parse_ip\<close> is \<open>str::parse::<IpAddr>\<close>.\<close>

definition cidr_parse :: "(rstr \<Rightarrow> ip_addr option) \<Rightarrow> rstr \<Rightarrow> setting_error + ip_cidr" where
  "cidr_parse parse_ip input =
     (let txt = trim input
      in case (case split_once 47 txt of
                 None \<Rightarrow> Inr (txt, None)
               | Some (address, b) \<Rightarrow>
                   (case parse_uint u8_max b of
                      None \<Rightarrow> Inl (PrefixNotNumber txt)
                    | Some n \<Rightarrow> Inr (address, Some n))) of
           Inl e \<Rightarrow> Inl e
         | Inr (address, n) \<Rightarrow>
             (case parse_ip address of
                None \<Rightarrow> Inl (NotAnAddress txt)
              | Some net \<Rightarrow>
                  let width = (case net of V4 _ \<Rightarrow> 32 | V6 _ \<Rightarrow> 128);
                      n = (case n of None \<Rightarrow> width | Some n \<Rightarrow> n)
                  in if n > width then Inl (PrefixTooLong txt)
                     else case net of
                            V4 _ \<Rightarrow> Inr \<lparr>network = net, bits = n\<rparr>
                          | V6 o6 \<Rightarrow>
                              (case to_ipv4_mapped o6 of
                                 None \<Rightarrow> Inr \<lparr>network = net, bits = n\<rparr>
                               | Some o4 \<Rightarrow>
                                   if n \<ge> 96 then Inr \<lparr>network = V4 o4, bits = n - 96\<rparr>
                                   else Inr \<lparr>network = net, bits = n\<rparr>)))"

subsection \<open>What a named tenant may reach\<close>

definition public_v4 :: "8 word list \<Rightarrow> bool" where
  "public_v4 o4 \<longleftrightarrow>
     (let a = o4 ! 0; b = o4 ! 1; c = o4 ! 2
      in \<not> (o4 = [0, 0, 0, 0]
            \<or> a = 127
            \<or> (a = 10 \<or> (a = 172 \<and> 16 \<le> b \<and> b \<le> 31) \<or> (a = 192 \<and> b = 168))
            \<or> (a = 169 \<and> b = 254)
            \<or> ((a = 192 \<and> b = 0 \<and> c = 2) \<or> (a = 198 \<and> b = 51 \<and> c = 100) \<or> (a = 203 \<and> b = 0 \<and> c = 113))
            \<or> a = 0
            \<or> a \<ge> 224
            \<or> (a = 100 \<and> b AND 0xc0 = 64)
            \<or> (a = 192 \<and> b = 0 \<and> c = 0)
            \<or> (a = 198 \<and> b AND 0xfe = 18)))"

definition public_v6 :: "8 word list \<Rightarrow> bool" where
  "public_v6 o6 \<longleftrightarrow>
     (let s = segment o6
      in case to_ipv4 o6 of
           Some o4 \<Rightarrow> public_v4 o4
         | None \<Rightarrow>
            if map s [0..<6] = [0x64, 0xff9b, 0, 0, 0, 0] then public_v4 (drop 12 o6)
            else if s 0 = 0x2002 then public_v4 (take 4 (drop 2 o6))
            else \<not> (s 0 AND 0xe000 \<noteq> 0x2000
                    \<or> (s 0 = 0x2001 \<and> (s 1 = 0 \<or> (s 1 = 2 \<and> s 2 = 0)))
                    \<or> (s 0 = 0x3fff \<and> s 1 AND 0xf000 = 0)
                    \<or> s 0 AND 0xff00 = 0xff00
                    \<or> s 0 AND 0xfe00 = 0xfc00
                    \<or> s 0 AND 0xffc0 = 0xfe80
                    \<or> (s 0 = 0x2001 \<and> s 1 = 0x0db8)))"

definition public_ip :: "ip_addr \<Rightarrow> bool" where
  "public_ip ip \<longleftrightarrow> (case ip of V4 o4 \<Rightarrow> public_v4 o4 | V6 o6 \<Rightarrow> public_v6 o6)"

definition reachable :: "ip_addr \<Rightarrow> ip_cidr list \<Rightarrow> bool" where
  "reachable ip allowed \<longleftrightarrow> public_ip ip \<or> list_ex (\<lambda>block. cidr_contains block ip) allowed"

text \<open>\<open>host_ip url\<close>: the address literal that \<open>Url::parse(url)\<close> and \<open>host\_str\<close> name, brackets
  trimmed, if there is one.\<close>

definition refused_literal :: "(rstr \<Rightarrow> ip_addr option) \<Rightarrow> rstr \<Rightarrow> ip_cidr list \<Rightarrow> bool" where
  "refused_literal host_ip url allowed =
     (case host_ip url of None \<Rightarrow> False | Some ip \<Rightarrow> \<not> reachable ip allowed)"

text \<open>The resolver of a named tenant: the addresses of the lookup it lets through.\<close>

definition tenant_resolve :: "ip_cidr list \<Rightarrow> ip_addr list \<Rightarrow> ip_addr list option" where
  "tenant_resolve allowed found =
     (let addresses = filter (\<lambda>a. reachable a allowed) found
      in if addresses = [] then None else Some addresses)"

datatype tenant_client = PlatformClient | RestrictedClient

definition egress_client ::
  "(rstr \<Rightarrow> ip_addr option) \<Rightarrow> ip_cidr list \<Rightarrow> rstr \<Rightarrow> rstr \<Rightarrow> tenant_client option" where
  "egress_client host_ip allowed tenant origin =
     (if tenant = [] then Some PlatformClient
      else if refused_literal host_ip origin allowed then None
      else Some RestrictedClient)"

section \<open>Settings\<close>

definition MAX_SSO_SESSION_SECS :: nat where "MAX_SSO_SESSION_SECS = 365 * 24 * 3600"

definition valid_sso_session_secs :: "nat \<Rightarrow> bool" where
  "valid_sso_session_secs v \<longleftrightarrow> 1 \<le> v \<and> v \<le> MAX_SSO_SESSION_SECS"

definition MIN_ADMIN_PASSWORD_CHARS :: nat where "MIN_ADMIN_PASSWORD_CHARS = 12"

definition admit_admin_password :: "rstr \<Rightarrow> setting_error + unit" where
  "admit_admin_password password =
     (if length password < MIN_ADMIN_PASSWORD_CHARS then Inl PasswordTooShort else Inr ())"

datatype subject_claim = Sub | Email | PreferredUsername

definition parse_subject_claim :: "rstr \<Rightarrow> setting_error + subject_claim" where
  "parse_subject_claim v =
     (let t = trim v
      in if t = [] \<or> t = lit ''sub'' then Inr Sub
         else if t = lit ''email'' then Inr Email
         else if t = lit ''preferred_username'' then Inr PreferredUsername
         else Inl (UnknownSubjectClaim t))"

text \<open>The settings below take what \<open>env::var\<close> found, \<open>None\<close> when the variable is absent.\<close>

definition env_bool :: "rstr option \<Rightarrow> bool \<Rightarrow> setting_error + bool" where
  "env_bool v dflt =
     (case v of
        None \<Rightarrow> Inr dflt
      | Some v \<Rightarrow>
         let t = to_ascii_lowercase (trim v)
         in if t \<in> set [lit ''1'', lit ''true'', lit ''yes'', lit ''on''] then Inr True
            else if t \<in> set [lit ''0'', lit ''false'', lit ''no'', lit ''off''] then Inr False
            else Inl NotASwitch)"

definition env_u64 :: "rstr option \<Rightarrow> nat \<Rightarrow> setting_error + nat" where
  "env_u64 v dflt =
     (case v of
        None \<Rightarrow> Inr dflt
      | Some v \<Rightarrow> (case parse_uint u64_max v of None \<Rightarrow> Inl NotANumber | Some n \<Rightarrow> Inr n))"

definition env_or :: "rstr option \<Rightarrow> rstr \<Rightarrow> rstr" where
  "env_or v dflt = (case v of None \<Rightarrow> dflt | Some v \<Rightarrow> if v \<noteq> [] then v else dflt)"

definition optional_positive_u64 :: "rstr option \<Rightarrow> setting_error + nat option" where
  "optional_positive_u64 v =
     (case v of
        None \<Rightarrow> Inr None
      | Some v \<Rightarrow>
         if trim v = [] then Inr None
         else (case parse_uint u64_max v of
                 None \<Rightarrow> Inl NotANumber
               | Some n \<Rightarrow> Inr (if n > 0 then Some n else None)))"

definition session_cap :: "rstr option \<Rightarrow> nat \<Rightarrow> setting_error + nat" where
  "session_cap v dflt =
     (case v of
        None \<Rightarrow> Inr dflt
      | Some v \<Rightarrow>
         (case parse_uint u64_max v of
            None \<Rightarrow> Inl NotANumber
          | Some n \<Rightarrow> if n = 0 then Inl (MustBePositive v) else Inr n))"

definition size_multiplier :: "rstr \<Rightarrow> nat option" where
  "size_multiplier s =
     (if s = [] \<or> s = lit ''b'' then Some 1
      else if s \<in> set [lit ''k'', lit ''kb'', lit ''kib''] then Some 1024
      else if s \<in> set [lit ''m'', lit ''mb'', lit ''mib''] then Some (1024 * 1024)
      else if s \<in> set [lit ''g'', lit ''gb'', lit ''gib''] then Some (1024 * 1024 * 1024)
      else if s \<in> set [lit ''t'', lit ''tb'', lit ''tib''] then Some (1024 * 1024 * 1024 * 1024)
      else None)"

definition parse_bytes :: "rstr \<Rightarrow> setting_error + nat" where
  "parse_bytes v =
     (let trimmed = trim v;
          digits = takeWhile is_ascii_digit trimmed;
          suffix = to_ascii_lowercase (trim (dropWhile is_ascii_digit trimmed))
      in case size_multiplier suffix of
           None \<Rightarrow> Inl (UnknownSuffix suffix)
         | Some multiplier \<Rightarrow>
            if digits = [] then Inl (NotAByteCount v)
            else case parse_uint u64_max digits of
                   None \<Rightarrow> Inl (OutOfRange v)
                 | Some n \<Rightarrow>
                    let count = sat_mul n multiplier
                    in if count = 0 then Inl (MustBePositive v) else Inr count)"

section \<open>Prefixes as bits\<close>

definition byte_bits :: "8 word \<Rightarrow> bool list" where
  "byte_bits x = map (\<lambda>i. bit x (7 - i)) [0..<8]"

definition bits_of :: "8 word list \<Rightarrow> bool list" where
  "bits_of bs = concat (map byte_bits bs)"

lemma length_byte_bits [simp]: "length (byte_bits x) = 8"
  by (simp add: byte_bits_def)

lemma byte_bits_inj: "byte_bits x = byte_bits y \<longleftrightarrow> x = y"
proof
  assume h: "byte_bits x = byte_bits y"
  show "x = y"
  proof (rule bit_word_eqI)
    fix n
    assume "n < LENGTH(8)"
    then have "byte_bits x ! (7 - n) = byte_bits y ! (7 - n)" "7 - n < 8" "7 - (7 - n) = n" using h by simp_all
    then show "bit x n = bit y n" by (simp add: byte_bits_def)
  qed
qed simp

lemma masked_bits:
  assumes "0 < r" and "r < 8"
  shows "(x AND push_bit (8 - r) (0xff :: 8 word) = y AND push_bit (8 - r) 0xff)
       \<longleftrightarrow> take r (byte_bits x) = take r (byte_bits y)"
proof -
  have ones: "(0xff :: 8 word) = - 1" by simp
  have m: "bit (push_bit (8 - r) (0xff :: 8 word)) n \<longleftrightarrow> 8 - r \<le> n \<and> n < 8" for n
    unfolding ones using assms by (auto simp: bit_not_iff bit_mask_iff)
  have "(x AND push_bit (8 - r) 0xff = y AND push_bit (8 - r) 0xff)
      \<longleftrightarrow> (\<forall>n. 8 - r \<le> n \<and> n < 8 \<longrightarrow> bit x n = bit y n)"
    by (auto simp: bit_eq_iff bit_and_iff m)
  also have "\<dots> \<longleftrightarrow> (\<forall>i < r. bit x (7 - i) = bit y (7 - i))"
  proof
    assume h: "\<forall>i < r. bit x (7 - i) = bit y (7 - i)"
    show "\<forall>n. 8 - r \<le> n \<and> n < 8 \<longrightarrow> bit x n = bit y n"
    proof (intro allI impI)
      fix n
      assume "8 - r \<le> n \<and> n < 8"
      then have "7 - n < r" "7 - (7 - n) = n" using assms by auto
      then show "bit x n = bit y n" using h by metis
    qed
  next
    assume h: "\<forall>n. 8 - r \<le> n \<and> n < 8 \<longrightarrow> bit x n = bit y n"
    have "8 - r \<le> 7 - i \<and> 7 - i < 8" if "i < r" for i using that assms by auto
    with h show "\<forall>i < r. bit x (7 - i) = bit y (7 - i)" by blast
  qed
  also have "\<dots> \<longleftrightarrow> take r (byte_bits x) = take r (byte_bits y)"
    using assms by (auto simp: list_eq_iff_nth_eq byte_bits_def)
  finally show ?thesis .
qed

lemma take_bits_of: "take (8 * k + r) (bits_of (a # bs)) =
   (if k = 0 then take r (byte_bits a @ bits_of bs) else byte_bits a @ take (8 * (k - 1) + r) (bits_of bs))"
  by (cases k) (simp_all add: bits_of_def)

lemma prefix_matches_bits:
  assumes "length net = length ip" and "n \<le> 8 * length net"
  shows "prefix_matches net ip n \<longleftrightarrow> take n (bits_of net) = take n (bits_of ip)"
proof -
  have step: "length net = length ip \<Longrightarrow> r < 8 \<Longrightarrow> k < length net \<or> (k = length net \<and> r = 0) \<Longrightarrow>
    (take k net = take k ip \<and> (r = 0 \<or> net ! k AND push_bit (8 - r) 0xff = ip ! k AND push_bit (8 - r) 0xff))
      \<longleftrightarrow> take (8 * k + r) (bits_of net) = take (8 * k + r) (bits_of ip)" for net ip :: "8 word list" and k r
  proof (induction net ip arbitrary: k rule: list_induct2)
    case (Cons x net y ip)
    show ?case
    proof (cases k)
      case 0
      have "take r (bits_of (z # ws)) = take r (byte_bits z)" for z ws
        using Cons.prems(1) by (simp add: bits_of_def)
      then show ?thesis using masked_bits [of r x y] Cons.prems(1) by (cases "r = 0") (simp_all add: 0)
    next
      case (Suc k')
      have ih: "(take k' net = take k' ip
            \<and> (r = 0 \<or> net ! k' AND push_bit (8 - r) 0xff = ip ! k' AND push_bit (8 - r) 0xff))
          \<longleftrightarrow> take (8 * k' + r) (bits_of net) = take (8 * k' + r) (bits_of ip)"
        by (rule Cons.IH) (use Cons.prems Suc in auto)
      have e: "take (8 * k + r) (bits_of (z # ws)) = byte_bits z @ take (8 * k' + r) (bits_of ws)" for z ws
        using take_bits_of [of k r z ws] by (simp add: Suc)
      show ?thesis
        unfolding e using ih byte_bits_inj [of x y] by (auto simp: Suc)
    qed
  qed (simp add: bits_of_def)
  have "n mod 8 < 8" "n = 8 * (n div 8) + n mod 8" by simp_all
  moreover have "n div 8 < length net \<or> n div 8 = length net \<and> n mod 8 = 0"
    using assms(2) by (cases "n = 8 * length net") (auto simp: less_mult_imp_div_less mult.commute)
  ultimately show ?thesis
    using step [OF assms(1), of "n mod 8" "n div 8"] by (auto simp: prefix_matches_def Let_def)
qed

section \<open>Reserved blocks\<close>

text \<open>The special-purpose IPv4 blocks a named tenant may not reach.\<close>

definition block4 :: "8 word list \<Rightarrow> nat \<Rightarrow> ip_cidr" where
  "block4 o4 n = \<lparr>network = V4 o4, bits = n\<rparr>"

definition RESERVED_V4 :: "ip_cidr list" where
  "RESERVED_V4 =
     [block4 [0, 0, 0, 0] 8, block4 [10, 0, 0, 0] 8, block4 [100, 64, 0, 0] 10, block4 [127, 0, 0, 0] 8,
      block4 [169, 254, 0, 0] 16, block4 [172, 16, 0, 0] 12, block4 [192, 0, 0, 0] 24,
      block4 [192, 0, 2, 0] 24, block4 [192, 168, 0, 0] 16, block4 [198, 18, 0, 0] 15,
      block4 [198, 51, 100, 0] 24, block4 [203, 0, 113, 0] 24, block4 [224, 0, 0, 0] 3]"

lemma and_high: "unat (x AND NOT (mask n) :: 8 word) = unat x div 2 ^ n * 2 ^ n"
proof -
  have "unat (x AND NOT (mask n)) = unat (push_bit n (drop_bit n x))"
    by (rule arg_cong [of _ _ unat]) (auto simp: bit_eq_iff bit_simps)
  also have "\<dots> = take_bit 8 (push_bit n (drop_bit n (unat x)))"
    by (simp add: unsigned_push_bit_eq unat_drop_bit_eq)
  also have "\<dots> = push_bit n (drop_bit n (unat x))"
  proof (rule take_bit_nat_eq_self)
    have "push_bit n (drop_bit n (unat x)) \<le> unat x"
      by (simp add: push_bit_eq_mult drop_bit_eq_div)
    also have "unat x < 2 ^ 8" using unsigned_less [of x] by simp
    finally show "push_bit n (drop_bit n (unat x)) < 2 ^ 8" .
  qed
  finally show ?thesis by (simp add: push_bit_eq_mult drop_bit_eq_div)
qed
lemma masked_byte:
  "(x AND 224 = (224 :: 8 word)) \<longleftrightarrow> 224 \<le> x"
  "(x AND 240 = (16 :: 8 word)) \<longleftrightarrow> 16 \<le> x \<and> x \<le> 31"
proof -
  have m: "(224 :: 8 word) = NOT (mask 5)" "(240 :: 8 word) = NOT (mask 4)" by (simp_all add: mask_eq_exp_minus_1)
  have u: "unat (x AND 224) = unat x div 32 * 32" "unat (x AND 240) = unat x div 16 * 16"
    using and_high [of x 5] and_high [of x 4] unfolding m by simp_all
  have lt: "unat x < 256" using unsigned_less [of x] by simp
  have "(x AND 224 = 224) \<longleftrightarrow> unat x div 32 * 32 = 224" "(x AND 240 = 16) \<longleftrightarrow> unat x div 16 * 16 = 16"
    unfolding word_eq_iff_unsigned [where ?'a = nat] u by simp_all
  moreover have "unat x div 32 * 32 = 224 \<longleftrightarrow> 224 \<le> unat x" "unat x div 16 * 16 = 16 \<longleftrightarrow> 16 \<le> unat x \<and> unat x \<le> 31"
  proof -
    have "unat x div 32 * 32 = 224 \<longleftrightarrow> 7 \<le> unat x div 32 \<and> unat x div 32 < 8"
      "unat x div 16 * 16 = 16 \<longleftrightarrow> 1 \<le> unat x div 16 \<and> unat x div 16 < 2" by linarith+
    then show "unat x div 32 * 32 = 224 \<longleftrightarrow> 224 \<le> unat x"
      "unat x div 16 * 16 = 16 \<longleftrightarrow> 16 \<le> unat x \<and> unat x \<le> 31"
      using lt by (auto simp: less_eq_div_iff_mult_less_eq div_less_iff_less_mult)
  qed
  ultimately show "(x AND 224 = (224 :: 8 word)) \<longleftrightarrow> 224 \<le> x"
    "(x AND 240 = (16 :: 8 word)) \<longleftrightarrow> 16 \<le> x \<and> x \<le> 31"
    by (simp_all add: word_le_nat_alt)
qed
lemma block4_contains:
  "cidr_contains (block4 [a, b, c, d] 8) (V4 [w, x, y, z]) \<longleftrightarrow> w = a"
  "cidr_contains (block4 [a, b, c, d] 16) (V4 [w, x, y, z]) \<longleftrightarrow> w = a \<and> x = b"
  "cidr_contains (block4 [a, b, c, d] 24) (V4 [w, x, y, z]) \<longleftrightarrow> w = a \<and> x = b \<and> y = c"
  by (auto simp: cidr_contains_def block4_def prefix_matches_def Let_def)

text \<open>The masks of the blocks, whose shift leaves the byte.\<close>

lemma block4_masks:
  "(16320 :: 8 word) = 0xc0" "(4080 :: 8 word) = 0xf0" "(510 :: 8 word) = 0xfe" "(8160 :: 8 word) = 0xe0"
  "(960 :: 8 word) = 0xc0" "(448 :: 8 word) = 0xc0" "(480 :: 8 word) = 0xe0" "(8128 :: 8 word) = 0xc0" "(2032 :: 8 word) = 0xf0" "(4064 :: 8 word) = 0xe0"
  by simp_all

lemma block4_masked:
  "cidr_contains (block4 [a, b, c, d] 10) (V4 [w, x, y, z]) \<longleftrightarrow> a = w \<and> b AND 0xc0 = x AND 0xc0"
  "cidr_contains (block4 [a, b, c, d] 12) (V4 [w, x, y, z]) \<longleftrightarrow> a = w \<and> b AND 0xf0 = x AND 0xf0"
  "cidr_contains (block4 [a, b, c, d] 15) (V4 [w, x, y, z]) \<longleftrightarrow> a = w \<and> b AND 0xfe = x AND 0xfe"
  "cidr_contains (block4 [a, b, c, d] 3) (V4 [w, x, y, z]) \<longleftrightarrow> a AND 0xe0 = w AND 0xe0"
  by (auto simp: cidr_contains_def block4_def prefix_matches_def Let_def block4_masks)

section \<open>Properties\<close>

text \<open>Addresses that embed an IPv4 address (mapped, compatible, NAT64 and 6to4) are public
  exactly when the embedded address is: no wrapping reaches an internal network.\<close>

theorem embedded_addresses_follow_v4:
  assumes "length o4 = 4" and "length rest = 10"
  shows "(public_ip (V6 (replicate 10 0 @ [0xff, 0xff] @ o4)) \<longleftrightarrow> public_ip (V4 o4))
       \<and> (public_ip (V6 (replicate 12 0 @ o4)) \<longleftrightarrow> public_ip (V4 o4))
       \<and> (public_ip (V6 ([0, 0x64, 0xff, 0x9b] @ replicate 8 0 @ o4)) \<longleftrightarrow> public_ip (V4 o4))
       \<and> (public_ip (V6 ([0x20, 0x02] @ o4 @ rest)) \<longleftrightarrow> public_ip (V4 o4))"
proof -
  have n: "[0..<6] = [0, 1, 2, 3, 4, 5 :: nat]" by (simp add: upt_rec)
  have r8: "replicate 8 (0 :: 8 word) = [0, 0, 0, 0, 0, 0, 0, 0]" by (simp add: numeral_eq_Suc)
  have r12: "replicate 12 (0 :: 8 word) = [0, 0, 0, 0, 0, 0, 0, 0, 0, 0, 0, 0]"
    "replicate 10 (0 :: 8 word) = [0, 0, 0, 0, 0, 0, 0, 0, 0, 0]" by (simp_all add: numeral_eq_Suc)
  have "public_v6 (replicate 10 0 @ [0xff, 0xff] @ o4) \<longleftrightarrow> public_v4 o4"
    by (simp add: public_v6_def to_ipv4_def r12)
  moreover have "public_v6 (replicate 12 0 @ o4) \<longleftrightarrow> public_v4 o4"
    by (simp add: public_v6_def to_ipv4_def r12)
  moreover have "public_v6 ([0, 0x64, 0xff, 0x9b] @ replicate 8 0 @ o4) \<longleftrightarrow> public_v4 o4"
    by (simp add: public_v6_def to_ipv4_def segment_def n r8 r12 Let_def)
  moreover have "public_v6 ([0x20, 0x02] @ o4 @ rest) \<longleftrightarrow> public_v4 o4"
    using assms by (simp add: public_v6_def to_ipv4_def segment_def n r12 Let_def)
  ultimately show ?thesis by (simp add: public_ip_def)
qed

text \<open>An address as the 16 bytes of IPv6, an IPv4 address in its mapped form; whether it stands for
  an IPv4 address.\<close>

definition octets16 :: "ip_addr \<Rightarrow> 8 word list" where
  "octets16 ip = (case ip of V4 o4 \<Rightarrow> replicate 10 0 @ [0xff, 0xff] @ o4 | V6 o6 \<Rightarrow> o6)"

definition stands_for_v4 :: "ip_addr \<Rightarrow> bool" where
  "stands_for_v4 ip = (case ip of V4 _ \<Rightarrow> True | V6 o6 \<Rightarrow> to_ipv4_mapped o6 \<noteq> None)"

definition address_width :: "ip_addr \<Rightarrow> nat" where
  "address_width ip = (case ip of V4 _ \<Rightarrow> 32 | V6 _ \<Rightarrow> 128)"

lemma length_bits_of [simp]: "length (bits_of ws) = 8 * length ws"
  by (induction ws) (simp_all add: bits_of_def byte_bits_def)

lemma bits_of_append: "bits_of (vs @ ws) = bits_of vs @ bits_of ws"
  by (simp add: bits_of_def)

lemma mapped_octets: "to_ipv4_mapped o6 = Some o4 \<longleftrightarrow> take 12 o6 = replicate 10 0 @ [0xff, 0xff] \<and> drop 12 o6 = o4"
  by (auto simp: to_ipv4_mapped_def)

lemma mapped_wide: "to_ipv4_mapped o6 = Some o4 \<Longrightarrow> o6 = octets16 (V4 o4)"
  by (metis append_assoc append_take_drop_id ip_addr.simps(5) mapped_octets octets16_def)

lemma take_wide: "take (96 + n) (bits_of (octets16 (V4 v))) = take (96 + n) (bits_of (octets16 (V4 w)))
    \<longleftrightarrow> take n (bits_of v) = take n (bits_of w)"
proof -
  define m :: "8 word list" where "m = replicate 10 0 @ [0xff, 0xff]"
  have "length (bits_of m) = 96" by (simp add: m_def)
  then have "take (96 + n) (bits_of (m @ u)) = bits_of m @ take n (bits_of u)" for u
    by (simp add: bits_of_append)
  moreover have "octets16 (V4 u) = m @ u" for u by (simp add: octets16_def m_def)
  ultimately show ?thesis by simp
qed

text \<open>A text for an address and a prefix length, the width of the address where it has none.\<close>

definition spells_block :: "rstr \<Rightarrow> rstr \<Rightarrow> nat \<Rightarrow> nat \<Rightarrow> bool" where
  "spells_block txt address width n \<longleftrightarrow> 47 \<notin> set address
     \<and> (trim txt = address \<and> n = width \<or> (\<exists>b. trim txt = address @ 47 # b \<and> parse_uint u8_max b = Some n))"

lemma cidr_parse_text:
  assumes "parse_ip address = Some net"
    and "spells_block txt address (address_width net) n"
  shows "cidr_parse parse_ip txt =
    (if n > address_width net then Inl (PrefixTooLong (trim txt))
     else case net of
         V4 _ \<Rightarrow> Inr \<lparr>network = net, bits = n\<rparr>
       | V6 o6 \<Rightarrow> (case to_ipv4_mapped o6 of
             None \<Rightarrow> Inr \<lparr>network = net, bits = n\<rparr>
           | Some o4 \<Rightarrow> if n \<ge> 96 then Inr \<lparr>network = V4 o4, bits = n - 96\<rparr> else Inr \<lparr>network = net, bits = n\<rparr>))"
proof -
  from assms(2) consider (bare) "split_once 47 (trim txt) = None" "trim txt = address" "n = address_width net"
    | (prefix) b where "split_once 47 (trim txt) = Some (address, b)" "parse_uint u8_max b = Some n"
    by (auto simp: spells_block_def split_once_None split_once_Some)
  then show ?thesis
    using assms(1) by cases (cases net; auto simp: cidr_parse_def Let_def address_width_def split: option.splits)+
qed

text \<open>C40: C: A block that is read from a text is the block that was written: an address of either family,
  with or without a prefix length, gives a block unless the prefix is longer than the address, and
  the block contains exactly the addresses of its own kind whose first bits are those of the network.
  A mapped address stands for its IPv4 address, on both sides: with both written as 16 bytes, the
  bits compared are the first \<open>n\<close>, and 96 more for an IPv4 network.\<close>

theorem cidr_contains_is_prefix:
  assumes "parse_ip address = Some net" and "ip_ok net" and "ip_ok ip"
    and "spells_block txt address (address_width net) n"
    and "N = (case net of V4 _ \<Rightarrow> 96 + n | V6 _ \<Rightarrow> n)"
  shows "(address_width net < n \<longrightarrow> cidr_parse parse_ip txt = Inl (PrefixTooLong (trim txt)))
    \<and> (n \<le> address_width net \<longrightarrow>
        (\<exists>block. cidr_parse parse_ip txt = Inr block
           \<and> (cidr_contains block ip \<longleftrightarrow>
               (stands_for_v4 ip \<longleftrightarrow> stands_for_v4 net \<and> 96 \<le> N)
               \<and> take N (bits_of (octets16 net)) = take N (bits_of (octets16 ip)))))"
proof -
  note p = cidr_parse_text [where parse_ip = parse_ip, OF assms(1,4)]
  have v4: "cidr_contains \<lparr>network = V4 v, bits = m\<rparr> ip \<longleftrightarrow>
      stands_for_v4 ip \<and> take (96 + m) (bits_of (octets16 (V4 v))) = take (96 + m) (bits_of (octets16 ip))"
    if "length v = 4" "m \<le> 32" for v m
  proof (cases ip)
    case (V4 w)
    with prefix_matches_bits [of v w m] that assms(3) show ?thesis
      by (simp add: cidr_contains_def ip_ok_def stands_for_v4_def take_wide)
  next
    case (V6 o6)
    show ?thesis
    proof (cases "to_ipv4_mapped o6")
      case None
      with V6 show ?thesis by (simp add: cidr_contains_def stands_for_v4_def)
    next
      case (Some w)
      then have "length w = 4" "octets16 ip = octets16 (V4 w)"
        using V6 assms(3) mapped_wide [OF Some] by (auto simp: ip_ok_def mapped_octets octets16_def)
      with prefix_matches_bits [of v w m] that Some V6 show ?thesis
        by (simp add: cidr_contains_def stands_for_v4_def take_wide)
    qed
  qed
  have v6: "cidr_contains \<lparr>network = V6 v, bits = m\<rparr> ip \<longleftrightarrow>
      \<not> stands_for_v4 ip \<and> take m (bits_of v) = take m (bits_of (octets16 ip))"
    if "length v = 16" "m \<le> 128" for v m
    using prefix_matches_bits [of v "octets16 ip" m] that assms(3)
    by (cases ip) (auto simp: cidr_contains_def stands_for_v4_def octets16_def ip_ok_def split: option.split)
  show ?thesis
  proof (cases net)
    case (V4 v)
    with assms(2,5) v4 [of v n] p show ?thesis by (auto simp: ip_ok_def address_width_def stands_for_v4_def)
  next
    case (V6 v)
    with assms(2,5) have v: "length v = 16" "N = n" by (simp_all add: ip_ok_def)
    show ?thesis
    proof (cases "to_ipv4_mapped v")
      case None
      with V6 v v6 [of v n] p show ?thesis by (auto simp: address_width_def stands_for_v4_def octets16_def)
    next
      case (Some w)
      then have "w = drop 12 v" by (simp add: mapped_octets)
      with v(1) have w: "length w = 4" by simp
      have wide: "octets16 net = octets16 (V4 w)"
        using mapped_wide [OF Some] by (simp add: V6 octets16_def)
      show ?thesis
      proof (cases "96 \<le> n")
        case True
        with Some V6 v v4 [OF w, of "n - 96"] p show ?thesis
          unfolding wide by (auto simp: address_width_def stands_for_v4_def)
      next
        case False
        with Some V6 v v6 [of v n] p show ?thesis by (auto simp: address_width_def stands_for_v4_def octets16_def)
      qed
    qed
  qed
qed

text \<open>A public IPv4 address is one outside every reserved block, so a named tenant without
  allowed networks resolves to no address of a reserved block.\<close>

theorem tenants_resolve_outside_reserved:
  assumes "tenant_resolve [] found = Some addresses" and "V4 [a, b, c, d] \<in> set addresses"
  shows "\<not> list_ex (\<lambda>block. cidr_contains block (V4 [a, b, c, d])) RESERVED_V4"
proof -
  have "public_v4 [a, b, c, d]"
    using assms by (auto simp: tenant_resolve_def reachable_def public_ip_def Let_def split: if_splits)
  then show ?thesis
    using masked_byte by (auto simp: RESERVED_V4_def block4_contains block4_masked public_v4_def Let_def)
qed

text \<open>A byte count written as a decimal number and a known suffix reads as the number times the
  suffix's power of 1024, saturating at the largest 64-bit count.\<close>

theorem byte_counts_read_back:
  assumes "0 < n" and "n \<le> u64_max"
    and "size_multiplier (to_ascii_lowercase units) = Some m"
    and "trim units = units" and "units = [] \<or> \<not> is_ascii_digit (hd units)"
  shows "parse_bytes (show_nat n @ units) = Inr (min (n * m) u64_max)"
proof -
  have d: "list_all is_ascii_digit (show_nat n)" by (rule show_nat_digits)
  have ends: "\<not> is_whitespace c" if "is_ascii_digit c" for c
    using that by (auto simp: is_ascii_digit_def is_whitespace_def)
  have m: "0 < m" using assms(3) by (auto simp: size_multiplier_def split: if_splits)
  have take: "takeWhile is_ascii_digit (show_nat n @ units) = show_nat n"
    "dropWhile is_ascii_digit (show_nat n @ units) = units"
    using d assms(5) by (cases units; simp add: list_all_iff)+
  obtain c s where c: "show_nat n = c # s" by (cases "show_nat n") auto
  have "\<not> is_whitespace c" using d c ends by simp
  moreover have "units = [] \<or> \<not> is_whitespace (last units)"
    using assms(4) by (metis trim_def trim_with_ends)
  moreover have "\<not> is_whitespace (last (show_nat n))"
    using d ends by (simp add: list_all_iff)
  ultimately have "trim (show_nat n @ units) = show_nat n @ units"
    unfolding trim_def by (intro trim_with_id) (cases "units = []"; simp add: c last_append)
  then show ?thesis
    using assms m by (simp add: parse_bytes_def Let_def take parse_show sat_mul_def u64_max_def min_def)
qed

section \<open>Witnesses\<close>

theorem embedded_addresses_follow_v4_witness:
  "\<not> public_ip (V6 ([0x20, 0x02] @ [10, 0, 0, 1] @ replicate 10 0))"
proof -
  have "\<not> public_ip (V4 [10, 0, 0, 1])" by (simp add: public_ip_def public_v4_def)
  then show ?thesis using embedded_addresses_follow_v4 [of "[10, 0, 0, 1]" "replicate 10 0"] by simp
qed

text \<open>The block \<open>::ffff:192.0.2.0/120\<close> of mapped addresses, by a parser that knows one address.\<close>

definition demo_parse_ip :: "rstr \<Rightarrow> ip_addr option" where
  "demo_parse_ip t = (if t = lit ''::ffff:192.0.2.0'' then Some (V6 (replicate 10 0 @ [0xff, 0xff, 192, 0, 2, 0])) else None)"

theorem cidr_contains_is_prefix_witness:
  "\<exists>block. cidr_parse demo_parse_ip (lit '' ::ffff:192.0.2.0/120'') = Inr block
     \<and> cidr_contains block (V4 [192, 0, 2, 9])"
proof -
  let ?net = "V6 (replicate 10 0 @ [0xff, 0xff, 192, 0, 2, 0])"
  have p: "demo_parse_ip (lit ''::ffff:192.0.2.0'') = Some ?net" by (simp add: demo_parse_ip_def)
  have ok: "ip_ok ?net" "ip_ok (V4 [192, 0, 2, 9])" by (simp_all add: ip_ok_def)
  have "trim (lit '' ::ffff:192.0.2.0/120'') = lit ''::ffff:192.0.2.0'' @ 47 # lit ''120''"
    "parse_uint u8_max (lit ''120'') = Some 120" "47 \<notin> set (lit ''::ffff:192.0.2.0'')"
    by code_simp+
  then have t: "spells_block (lit '' ::ffff:192.0.2.0/120'') (lit ''::ffff:192.0.2.0'') (address_width ?net) 120"
    unfolding spells_block_def by blast
  have "stands_for_v4 (V4 [192, 0, 2, 9])" "stands_for_v4 ?net" "address_width ?net = 128"
    by (simp_all add: stands_for_v4_def to_ipv4_mapped_def address_width_def numeral_eq_Suc)
  moreover have "take 120 (bits_of (octets16 ?net)) = take 120 (bits_of (octets16 (V4 [192, 0, 2, 9])))"
    by code_simp
  ultimately show ?thesis using cidr_contains_is_prefix [where parse_ip = demo_parse_ip, OF p ok t refl] by auto
qed

theorem tenants_resolve_outside_reserved_witness:
  "\<not> list_ex (\<lambda>block. cidr_contains block (V4 [93, 184, 216, 34])) RESERVED_V4"
proof -
  have "public_ip (V4 [93, 184, 216, 34])" by (simp add: public_ip_def public_v4_def)
  then have "tenant_resolve [] [V4 [10, 0, 0, 1], V4 [93, 184, 216, 34]]
      = Some (filter public_ip [V4 [10, 0, 0, 1], V4 [93, 184, 216, 34]])"
    by (simp add: tenant_resolve_def reachable_def)
  from tenants_resolve_outside_reserved [OF this] \<open>public_ip _\<close> show ?thesis by simp
qed

theorem byte_counts_read_back_witness: "parse_bytes (show_nat 500 @ lit ''GiB'') = Inr (min (500 * 1073741824) u64_max)"
  by (rule byte_counts_read_back) code_simp+

end
