(* ===== verification/JobStore.thy ===== *)
theory JobStore
  imports Workflow Registry Paths Statements "HOL-Library.Product_Lexorder"
begin

text \<open>
  The tables of the delivery job store and what its functions check in them:
  \<open>server/src/store/workflows.rs\<close> with the three checks it calls in
  \<open>server/src/store/trade.rs\<close> and \<open>insert\_workflow\_grant\<close> of
  \<open>server/src/store/outbound.rs\<close>. The tables the functions read and write are the fields of
  \<open>job_store\<close>; a function of the store is one transaction, so its model returns either an
  error, and nothing was committed, or the new store. SQL statements are written out as the
  lookups, filters and minima they select. \<open>now\_unix()\<close> is a parameter. The evidence rows
  the functions append are kept as tenant, grant and kind; their hash chain is another component.
  Columns no function here reads (labels, download counters, passwords) are left out.
\<close>

section \<open>The tables\<close>

datatype destination_status = DestComplete rstr nat | DestFailed rstr | DestSending nat

record trade_route =
  tr_tenant :: rstr
  tr_direction :: rstr
  tr_state :: rstr
  tr_cancel_active :: bool
  tr_remote_grant :: rstr
  tr_peer_key :: rstr
  tr_endpoint :: rstr
  tr_forwarding :: bool
  tr_metadata_keys :: "rstr list"
  tr_notifications :: notification_policy

record outbound_row =
  ob_job_id :: rstr
  ob_destination_id :: rstr
  ob_revocation :: "rstr option"
  ob_ack :: "rstr option"

text \<open>\<open>ib_forwarding\<close>: \<open>$.document.permission.forwarding\<close> of the source, when present.\<close>

record inbound_row =
  ib_tenant :: rstr
  ib_upload_id :: rstr
  ib_forwarding :: "bool option"
  ib_revoked_at :: "nat option"

record route_upload =
  ru_route_id :: rstr
  ru_upload_id :: rstr
  ru_partial :: bool

record upload_row =
  up_partial :: bool
  up_completed_at :: nat
  up_files :: "file_record list"

text \<open>What \<open>trade::snapshot\<close> keeps of an outgoing route.\<close>

record route_snapshot =
  rs_notifications :: notification_policy
  rs_metadata_keys :: "rstr list"
  rs_permission :: route_permission

text \<open>The keys of a job's \<open>checks\<close> document that the store reads or writes.\<close>

record job_checks =
  ck_trade_routes :: "(rstr \<times> route_snapshot) list"
  ck_snapshot_bytes :: nat
  ck_released_at :: "nat option"
  ck_retired_from :: "job_state option"
  ck_retirement_attempt_at :: "nat option"
  ck_snapshot_purged_at :: "nat option"
  ck_retry_base :: "nat option"
  ck_retry_at :: "nat option"
  ck_first_failure_at :: "nat option"
  ck_destinations :: "(rstr \<times> destination_status) list"
  ck_destination_revisions :: "(rstr \<times> nat) list"
  ck_import_storage_revision :: "nat option"
  ck_source_revoked_at :: "nat option"

type_synonym djob = "job_checks job"

record job_row =
  jr_owner :: rstr
  jr_not_before :: nat
  jr_token :: rstr
  jr_job :: djob

record grant_file =
  gf_source :: rstr
  gf_name :: rstr
  gf_suite :: rstr
  gf_root :: rstr
  gf_bytes :: nat

record grant =
  gr_id :: rstr
  gr_token_hash :: rstr
  gr_tenant :: rstr
  gr_link_id :: rstr
  gr_upload_id :: rstr
  gr_name :: rstr
  gr_suite :: rstr
  gr_root :: rstr
  gr_bytes :: nat
  gr_expires_at :: nat
  gr_revoked_at :: "nat option"
  gr_notifications :: "notification_policy option"
  gr_files :: "grant_file list"
  gr_share_token :: "rstr option"

record automation_operation =
  op_token_id :: rstr
  op_operation_id :: rstr
  op_request_hash :: rstr

record storage_row =
  st_revision :: nat
  st_enabled :: bool
  st_tenants :: "rstr list"

record principal_row =
  pr_blocked :: bool
  pr_credential_version :: nat

record automation_row =
  au_tenant :: rstr
  au_revoked_at :: "nat option"
  au_expires_at :: nat
  au_permissions :: "rstr list"
  au_directory :: "rstr option"
  au_created_by :: rstr

record job_store =
  tenants :: "rstr list"
  projects :: "(rstr \<times> rstr, project) hmap"
  jobs :: "(rstr, job_row) hmap"
  grants :: "(rstr, grant) hmap"
  manifests :: "(rstr, rstr) hmap"
  storages :: "(rstr, storage_row) hmap"
  principals :: "(rstr, principal_row) hmap"
  purged_principals :: "rstr list"
  automation_tokens :: "(rstr, automation_row) hmap"
  automation_operations :: "(rstr \<times> rstr, rstr \<times> rstr) hmap"
  job_overrides :: "(rstr, notification_policy) hmap"
  links :: "(rstr, rstr) hmap"
  receive_workflows :: "(rstr, receive_workflow) hmap"
  receive_uploads :: "(rstr \<times> rstr) list"
  link_uploads :: "(rstr \<times> rstr \<times> rstr, upload_row) hmap"
  policy_cache :: "(rstr, bool) hmap"
  trade_routes :: "(rstr, trade_route) hmap"
  outbound_routes :: "outbound_row list"
  inbound_routes :: "(rstr, inbound_row) hmap"
  route_uploads :: "route_upload list"
  events :: "(rstr \<times> rstr \<times> rstr) list"

datatype workflow_error =
    Invalid project_error
  | UnknownAction
  | SameEndpoint
  | OperationConflict
  | TenantMissing
  | JobMissing
  | ProjectMissing
  | JobChanged
  | PolicyChanged
  | NotAccepting
  | IdentityInactive
  | ForwardingRefused
  | RouteRevoked
  | RouteInactive
  | StorageMissing
  | StorageChanged
  | NotADestination
  | HeldAfterRestore
  | ApprovalNeedsOther
  | ApprovalMismatch
  | NeedsRole
  | RetiringJob
  | NotFailed
  | RequestGone
  | ExportUnauthorized
  | GrantInactive
  | BudgetExhausted
  | NotRetiring
  | ActiveLimit
  | ProjectChanged
  | DirectoryFixed
  | DirectoriesOverlap
  | ProjectLimit
  | NotEnrolledDevice
  | LastRecipient
  | TokenMismatch
  | BadNames path_error
  | StoreFailure
  | NotShareable
  | NeedsProjectLink
  | ProtectedDirectory
  | NeedsOwningWorkflow
  | UploadMissing
  | WrongDelivery
  | NotHuman
  | NotReceived
  | ManifestChanged
  | ReplacementMissing
  | NotInactive
  | NotReleased
  | InventoryChanged
  | AutomationExpired

record ('k, 'b) jobs_lib =
  jl_workflow :: workflow_lib
  jl_paths :: path_lib
  jl_stmts :: "('k, 'b) stmt_lib"

definition project_in :: "job_store \<Rightarrow> rstr \<Rightarrow> rstr \<Rightarrow> project option" where
  "project_in s tenant i = map_of (projects s) (tenant, i)"

definition job_in :: "job_store \<Rightarrow> rstr \<Rightarrow> djob option" where
  "job_in s i = map_option jr_job (map_of (jobs s) i)"

definition ensure_tenant :: "job_store \<Rightarrow> rstr \<Rightarrow> workflow_error + unit" where
  "ensure_tenant s tenant =
     (if tenant = [] \<or> tenant \<in> set (tenants s) then Inr () else Inl TenantMissing)"

text \<open>An \<open>UPDATE\<close> of the row of a job; no row, no effect.\<close>

definition update_row :: "rstr \<Rightarrow> (job_row \<Rightarrow> job_row) \<Rightarrow> job_store \<Rightarrow> job_store" where
  "update_row i f s =
     (case map_of (jobs s) i of None \<Rightarrow> s | Some r \<Rightarrow> s\<lparr>jobs := AList.update i (f r) (jobs s)\<rparr>)"

definition save_job :: "djob \<Rightarrow> job_store \<Rightarrow> job_store" where
  "save_job j s = update_row (jb_id j) (\<lambda>r. r\<lparr>jr_job := j\<rparr>) s"

definition set_owner :: "rstr \<Rightarrow> rstr \<Rightarrow> job_store \<Rightarrow> job_store" where
  "set_owner i owner s = update_row i (\<lambda>r. r\<lparr>jr_owner := owner\<rparr>) s"

definition delivery_event :: "rstr \<Rightarrow> rstr \<Rightarrow> rstr \<Rightarrow> job_store \<Rightarrow> job_store" where
  "delivery_event tenant i kind s = s\<lparr>events := events s @ [(tenant, i, kind)]\<rparr>"

section \<open>What a job depends on\<close>

definition principal_active :: "job_store \<Rightarrow> rstr \<Rightarrow> nat \<Rightarrow> bool" where
  "principal_active s actor version =
     (case map_of (principals s) actor of
        Some p \<Rightarrow> \<not> pr_blocked p \<and> pr_credential_version p = version
      | None \<Rightarrow> version = 1 \<and> actor \<notin> set (purged_principals s))"

definition token_permits :: "automation_row \<Rightarrow> rstr \<Rightarrow> rstr \<Rightarrow> nat \<Rightarrow> bool" where
  "token_permits t tenant directory now \<longleftrightarrow>
     au_tenant t = tenant \<and> au_revoked_at t = None \<and> au_expires_at t > now
     \<and> lit ''jobs:create'' \<in> set (au_permissions t)
     \<and> (case au_directory t of
          None \<Rightarrow> True
        | Some d \<Rightarrow> d = directory \<or> starts_with directory (d @ [47]))"

definition actor_active :: "job_store \<Rightarrow> djob \<Rightarrow> nat \<Rightarrow> workflow_error + unit" where
  "actor_active s j now =
     (let active = (case jb_automation_token_id j of
                      Some t \<Rightarrow> (case map_of (automation_tokens s) t of
                                  None \<Rightarrow> False
                                | Some t \<Rightarrow> token_permits t (jb_tenant j) (pj_directory (jb_project j)) now)
                    | None \<Rightarrow> principal_active s (jb_actor j) (jb_credential_version j));
          rest = (if active then Inr () else Inl IdentityInactive)
      in case jb_received j of
           None \<Rightarrow> rest
         | Some r \<Rightarrow>
            if \<not> pj_receive (jb_project j) then Inl NotAccepting
            else if jb_actor j = lit ''reception:'' @ rv_link_id r \<and> jb_credential_version j = 0
                    \<and> jb_automation_token_id j = None
            then Inr () else rest)"

definition snapshot_of :: "trade_route \<Rightarrow> route_snapshot" where
  "snapshot_of r =
     \<lparr>rs_notifications = tr_notifications r, rs_metadata_keys = tr_metadata_keys r,
      rs_permission = \<lparr>rp_receiver = tr_peer_key r, rp_grant = tr_remote_grant r,
                       rp_forwarding = tr_forwarding r\<rparr>\<rparr>"

definition empty_checks :: job_checks where
  "empty_checks =
     \<lparr>ck_trade_routes = [], ck_snapshot_bytes = 0, ck_released_at = None, ck_retired_from = None,
      ck_retirement_attempt_at = None, ck_snapshot_purged_at = None, ck_retry_base = None,
      ck_retry_at = None, ck_first_failure_at = None, ck_destinations = [],
      ck_destination_revisions = [], ck_import_storage_revision = None,
      ck_source_revoked_at = None\<rparr>"

definition trade_snapshot :: "job_store \<Rightarrow> rstr \<Rightarrow> project \<Rightarrow> job_checks" where
  "trade_snapshot s tenant p =
     empty_checks\<lparr>ck_trade_routes := List.map_filter (\<lambda>i. case map_of (trade_routes s) i of
            None \<Rightarrow> None
          | Some r \<Rightarrow> if tr_tenant r = tenant \<and> tr_direction r = lit ''outgoing''
                     then Some (i, snapshot_of r) else None) (pj_destinations p)\<rparr>"

definition destination_complete :: "djob \<Rightarrow> rstr \<Rightarrow> bool" where
  "destination_complete j d \<longleftrightarrow>
     (case map_of (ck_destinations (jb_checks j)) d of Some (DestComplete _ _) \<Rightarrow> True | _ \<Rightarrow> False)"

definition trade_check_export :: "job_store \<Rightarrow> djob \<Rightarrow> workflow_error + unit" where
  "trade_check_export s j =
     (case jb_received j of
        Some r \<Rightarrow> if pj_destinations (jb_project j) \<noteq> []
                     \<and> list_ex (\<lambda>(_, x). ib_tenant x = jb_tenant j \<and> ib_upload_id x = rv_upload_id r
                                        \<and> ib_forwarding x = Some False) (inbound_routes s)
                  then Inl ForwardingRefused else Inr ()
      | None \<Rightarrow> Inr ())"

definition trade_check_destination :: "job_store \<Rightarrow> djob \<Rightarrow> rstr \<Rightarrow> workflow_error + unit" where
  "trade_check_destination s j d =
     (if destination_complete j d then Inr ()
      else case map_of (trade_routes s) d of
             None \<Rightarrow> Inr ()
           | Some route \<Rightarrow>
              let mine = filter (\<lambda>x. ob_job_id x = jb_id j \<and> ob_destination_id x = d) (outbound_routes s)
              in if list_ex (\<lambda>x. ob_revocation x \<noteq> None \<or> ob_ack x \<noteq> None) mine then Inl RouteRevoked
                 else if tr_tenant route \<noteq> jb_tenant j \<or> tr_direction route \<noteq> lit ''outgoing''
                      \<or> tr_remote_grant route = []
                      \<or> (tr_state route \<noteq> lit ''active'' \<and> (mine = [] \<or> tr_cancel_active route))
                 then Inl RouteInactive else Inr ())"

definition check_storage :: "job_store \<Rightarrow> rstr \<Rightarrow> rstr \<Rightarrow> nat option \<Rightarrow> workflow_error + storage_row" where
  "check_storage s tenant i revision =
     (case map_of (storages s) i of
        None \<Rightarrow> Inl StorageMissing
      | Some c \<Rightarrow>
         if \<not> st_enabled c \<or> tenant \<notin> set (st_tenants c) \<or> Some (st_revision c) \<noteq> revision
         then Inl StorageChanged else Inr c)"

definition check_job_source :: "job_store \<Rightarrow> djob \<Rightarrow> workflow_error + unit" where
  "check_job_source s j =
     (case trade_check_export s j of
        Inl e \<Rightarrow> Inl e
      | Inr () \<Rightarrow>
         (case rq_import (jb_request j) of
            None \<Rightarrow> Inr ()
          | Some i \<Rightarrow>
             (case check_storage s (jb_tenant j) (storage_id i) (ck_import_storage_revision (jb_checks j)) of
                Inl e \<Rightarrow> Inl e
              | Inr _ \<Rightarrow> Inr ())))"

definition check_job_destination :: "job_store \<Rightarrow> djob \<Rightarrow> rstr \<Rightarrow> workflow_error + storage_row" where
  "check_job_destination s j d =
     (if d \<notin> set (pj_destinations (jb_project j)) then Inl NotADestination
      else case trade_check_destination s j d of
             Inl e \<Rightarrow> Inl e
           | Inr () \<Rightarrow> check_storage s (jb_tenant j) d (map_of (ck_destination_revisions (jb_checks j)) d))"

fun check_destinations :: "job_store \<Rightarrow> djob \<Rightarrow> rstr list \<Rightarrow> workflow_error + unit" where
  "check_destinations s j [] = Inr ()"
| "check_destinations s j (d # ds) =
     (if destination_complete j d then check_destinations s j ds
      else case check_job_destination s j d of
             Inl e \<Rightarrow> Inl e
           | Inr _ \<Rightarrow> check_destinations s j ds)"

definition check_job_storage :: "job_store \<Rightarrow> djob \<Rightarrow> workflow_error + unit" where
  "check_job_storage s j =
     (case check_job_source s j of
        Inl e \<Rightarrow> Inl e
      | Inr () \<Rightarrow> check_destinations s j (pj_destinations (jb_project j)))"

definition retry_attempts :: "djob \<Rightarrow> nat" where
  "retry_attempts j =
     jb_attempts j - (case ck_retry_base (jb_checks j) of None \<Rightarrow> 0 | Some b \<Rightarrow> b)"

definition job_released :: "djob \<Rightarrow> bool" where
  "job_released j = released ck_released_at j"

section \<open>Links, uploads and grants\<close>

definition receive_workflow_in :: "job_store \<Rightarrow> rstr \<Rightarrow> rstr \<Rightarrow> receive_workflow option" where
  "receive_workflow_in s tenant link =
     (if map_of (links s) link = Some tenant then map_of (receive_workflows s) link else None)"

definition received_requires_workflow :: "job_store \<Rightarrow> rstr \<Rightarrow> rstr \<Rightarrow> rstr \<Rightarrow> bool" where
  "received_requires_workflow s tenant link upload \<longleftrightarrow>
     (link, upload) \<in> set (receive_uploads s) \<and> map_of (links s) link = Some tenant"

definition read_upload :: "job_store \<Rightarrow> rstr \<Rightarrow> rstr \<Rightarrow> rstr \<Rightarrow> upload_row option" where
  "read_upload s tenant link upload =
     (if map_of (links s) link = Some tenant then map_of (link_uploads s) (tenant, link, upload) else None)"

definition require_shareable :: "job_store \<Rightarrow> rstr \<Rightarrow> workflow_error + unit" where
  "require_shareable s upload =
     (if list_ex (\<lambda>u. ru_upload_id u = upload
          \<and> (case map_of (inbound_routes s) (ru_route_id u) of
               None \<Rightarrow> False
             | Some r \<Rightarrow> ru_partial u \<or> ib_revoked_at r \<noteq> None)) (route_uploads s)
      then Inl NotShareable else Inr ())"

definition receive_pending :: "job_store \<Rightarrow> rstr \<Rightarrow> rstr \<Rightarrow> bool" where
  "receive_pending s tenant link \<longleftrightarrow>
     list_ex (\<lambda>(_, r). let j = jr_job r in jb_tenant j = tenant
        \<and> (case jb_received j of None \<Rightarrow> False | Some x \<Rightarrow> rv_link_id x = link)
        \<and> jb_state j \<noteq> Retired \<and> jb_state j \<noteq> Suspended) (jobs s)"

definition protects :: "workflow_lib \<Rightarrow> project \<Rightarrow> grant_file list \<Rightarrow> bool" where
  "protects lib p files \<longleftrightarrow> list_ex (\<lambda>f. within_directory lib (pj_directory p) (gf_source f)) files"

definition tenant_projects :: "job_store \<Rightarrow> rstr \<Rightarrow> project list" where
  "tenant_projects s tenant = map snd (filter (\<lambda>((t, _), _). t = tenant) (projects s))"

text \<open>
  The source a file of a job's delivery must have; \<open>received\<close> holds the files of the upload
  that are not deleted, by path, where the last one of a path stands.
\<close>

definition expected_source :: "djob \<Rightarrow> (rstr \<times> file_record) list option \<Rightarrow> grant_file \<Rightarrow> rstr" where
  "expected_source j received f =
     (case received of
        Some files \<Rightarrow>
          (case map_of (rev files) (gf_name f) of
             None \<Rightarrow> []
           | Some original \<Rightarrow>
               if fr_bytes original = gf_bytes f then lit ''received:'' @ fr_stored_as original else [])
      | None \<Rightarrow>
          if uses_snapshot j then lit ''workflow:'' @ jb_id j @ lit ''/'' @ gf_name f
          else pj_directory (jb_project j) @ lit ''/'' @ gf_name f)"

definition received_files :: "job_store \<Rightarrow> djob \<Rightarrow> workflow_error + (rstr \<times> file_record) list option" where
  "received_files s j =
     (case jb_received j of
        None \<Rightarrow> Inr None
      | Some r \<Rightarrow>
         (case read_upload s (jb_tenant j) (rv_link_id r) (rv_upload_id r) of
            None \<Rightarrow> Inl UploadMissing
          | Some u \<Rightarrow>
             if up_partial u \<or> up_completed_at u = 0 then Inl UploadMissing
             else Inr (Some (map (\<lambda>f. (fr_path f, f)) (filter (\<lambda>f. \<not> fr_deleted f) (up_files u))))))"

definition check_grant_creation ::
  "workflow_lib \<Rightarrow> job_store \<Rightarrow> grant \<Rightarrow> djob option \<Rightarrow> workflow_error + unit" where
  "check_grant_creation lib s g job =
     (case require_shareable s (gr_upload_id g) of
        Inl e \<Rightarrow> Inl e
      | Inr () \<Rightarrow>
         if gr_link_id g \<noteq> [] \<and> received_requires_workflow s (gr_tenant g) (gr_link_id g) (gr_upload_id g)
         then Inl NeedsProjectLink
         else if list_ex (\<lambda>p. protects lib p (gr_files g)
                   \<and> (case job of None \<Rightarrow> True | Some j \<Rightarrow> pj_id (jb_project j) \<noteq> pj_id p))
                 (tenant_projects s (gr_tenant g))
         then Inl ProtectedDirectory
         else if list_ex (\<lambda>f. starts_with (gf_source f) (lit ''received:'')) (gr_files g)
                 \<and> (case job of None \<Rightarrow> True | Some j \<Rightarrow> jb_received j = None)
         then Inl NeedsOwningWorkflow
         else case job of
                None \<Rightarrow> Inr ()
              | Some j \<Rightarrow>
                 (case received_files s j of
                    Inl e \<Rightarrow> Inl e
                  | Inr received \<Rightarrow>
                     if jb_tenant j \<noteq> gr_tenant g \<or> jb_id j \<noteq> gr_id g \<or> gr_files g = []
                        \<or> list_ex (\<lambda>f. gf_source f \<noteq> expected_source j received f) (gr_files g)
                     then Inl WrongDelivery else Inr ()))"

section \<open>Access to a delivery\<close>

text \<open>
  \<open>release_in\<close> writes the cache outside a transaction, so its new store stands also when it
  refuses.
\<close>

definition policy_protects :: "workflow_lib \<Rightarrow> job_store \<Rightarrow> rstr \<Rightarrow> bool" where
  "policy_protects lib s i \<longleftrightarrow>
     (case map_of (grants s) i of
        None \<Rightarrow> False
      | Some g \<Rightarrow> list_ex (\<lambda>p. protects lib p (gr_files g)) (tenant_projects s (gr_tenant g))
               \<or> received_requires_workflow s (gr_tenant g) (gr_link_id g) (gr_upload_id g))"

definition cache_policy :: "rstr \<Rightarrow> bool \<Rightarrow> job_store \<Rightarrow> job_store" where
  "cache_policy i protected s =
     (case map_of (grants s) i of
        None \<Rightarrow> s
      | Some _ \<Rightarrow> s\<lparr>policy_cache := AList.update i protected (policy_cache s)\<rparr>)"

definition release_in ::
  "workflow_lib \<Rightarrow> rstr \<Rightarrow> job_store \<Rightarrow> (workflow_error + djob option) \<times> job_store" where
  "release_in lib i s =
     (case job_in s i of
        Some j \<Rightarrow>
          (case project_in s (jb_tenant j) (pj_id (jb_project j)) of
             None \<Rightarrow> (Inl ProjectMissing, s)
           | Some p \<Rightarrow>
               if \<not> job_released j \<or> pj_revision p \<noteq> pj_revision (jb_project j)
               then (Inl NotReleased, s) else (Inr (Some j), s))
      | None \<Rightarrow>
          let (protected, s') =
                (case map_of (policy_cache s) i of
                   Some b \<Rightarrow> (b, s)
                 | None \<Rightarrow> let b = policy_protects lib s i in (b, cache_policy i b s))
          in (if protected then Inl NeedsProjectLink else Inr None, s'))"

definition delivery_access_in ::
  "workflow_lib \<Rightarrow> rstr \<Rightarrow> rstr \<Rightarrow> nat \<Rightarrow> job_store \<Rightarrow> (workflow_error + djob option) \<times> job_store" where
  "delivery_access_in lib i token_hash now s =
     (case map_of (grants s) i of
        None \<Rightarrow> (Inl GrantInactive, s)
      | Some g \<Rightarrow>
          if gr_token_hash g \<noteq> token_hash \<or> gr_revoked_at g \<noteq> None \<or> gr_expires_at g \<le> now
          then (Inl GrantInactive, s)
          else case job_in s i of
                 Some j \<Rightarrow>
                   if \<not> job_released j
                      \<or> map_option pj_revision (project_in s (jb_tenant j) (pj_id (jb_project j)))
                          \<noteq> Some (pj_revision (jb_project j))
                   then (Inl NotReleased, s) else (Inr (Some j), s)
               | None \<Rightarrow>
                   (case map_of (policy_cache s) i of
                      Some False \<Rightarrow> (Inr None, s)
                    | Some True \<Rightarrow> (Inl NeedsProjectLink, s)
                    | None \<Rightarrow> release_in lib i s))"

definition delivery_token_active :: "job_store \<Rightarrow> rstr \<Rightarrow> rstr \<Rightarrow> nat \<Rightarrow> bool" where
  "delivery_token_active s i token_hash now \<longleftrightarrow>
     (case map_of (grants s) i of
        None \<Rightarrow> False
      | Some g \<Rightarrow> gr_token_hash g = token_hash \<and> gr_revoked_at g = None \<and> gr_expires_at g > now)"

end
