(* ===== verification/JobOps.thy ===== *)
theory JobOps
  imports JobStore
begin

text \<open>
  The operations of the delivery job store, \<open>server/src/store/workflows.rs\<close>, from the saving
  of a project and the queueing of a job to its retirement, with \<open>insert\_workflow\_grant\<close> of
  \<open>server/src/store/outbound.rs\<close>, which publishes a prepared job. \<open>random\_token()\<close> is a
  parameter of the operations that draw one. The text of an error is shown by its constructor.
\<close>

section \<open>Projects\<close>

definition overlaps :: "workflow_lib \<Rightarrow> project \<Rightarrow> project \<Rightarrow> bool" where
  "overlaps lib other p \<longleftrightarrow>
     within_directory lib (pj_directory other) (pj_directory p)
     \<or> within_directory lib (pj_directory p) (pj_directory other)"

text \<open>The peer and endpoint of each route of the tenant that the project delivers through.\<close>

definition delivery_endpoints :: "job_store \<Rightarrow> rstr \<Rightarrow> project \<Rightarrow> (rstr \<times> rstr) list" where
  "delivery_endpoints s tenant p =
     map (\<lambda>(_, r). (tr_peer_key r, tr_endpoint r))
       (filter (\<lambda>(i, r). tr_tenant r = tenant \<and> i \<in> set (pj_destinations p)) (trade_routes s))"

definition other_projects :: "job_store \<Rightarrow> rstr \<Rightarrow> rstr \<Rightarrow> project list" where
  "other_projects s tenant i = map snd (filter (\<lambda>((t, k), _). t = tenant \<and> k \<noteq> i) (projects s))"

definition next_revisions :: "project option \<Rightarrow> project \<Rightarrow> project" where
  "next_revisions current p =
     (let renotified = (case current of None \<Rightarrow> False
                        | Some c \<Rightarrow> pj_notifications c \<noteq> pj_notifications p);
          notifications_only = (case current of None \<Rightarrow> False
                        | Some c \<Rightarrow> pj_notifications c \<noteq> pj_notifications p \<and> same_delivery_policy c p);
          p = (if renotified then p\<lparr>pj_notification_revision := pj_notification_revision p + 1\<rparr> else p)
      in if notifications_only then p else p\<lparr>pj_revision := pj_revision p + 1\<rparr>)"

definition drop_policies :: "rstr \<Rightarrow> job_store \<Rightarrow> job_store" where
  "drop_policies tenant s =
     s\<lparr>policy_cache := filter (\<lambda>(i, _). i \<notin> set (map fst (filter (\<lambda>(_, g). gr_tenant g = tenant) (grants s))))
                        (policy_cache s)\<rparr>"

definition save_delivery_project ::
  "workflow_lib \<Rightarrow> rstr \<Rightarrow> project \<Rightarrow> job_store \<Rightarrow> workflow_error + (project \<times> job_store)" where
  "save_delivery_project lib tenant p s =
     (case validate_project lib p of
        Inl e \<Rightarrow> Inl (Invalid e)
      | Inr () \<Rightarrow>
     (case ensure_tenant s tenant of
        Inl e \<Rightarrow> Inl e
      | Inr () \<Rightarrow>
         let current = project_in s tenant (pj_id p);
             others = other_projects s tenant (pj_id p)
         in if (case current of None \<Rightarrow> 0 | Some c \<Rightarrow> pj_revision c) \<noteq> pj_revision p
               \<or> (case current of None \<Rightarrow> 0 | Some c \<Rightarrow> pj_notification_revision c)
                    \<noteq> pj_notification_revision p
            then Inl ProjectChanged
            else if (case current of None \<Rightarrow> False | Some c \<Rightarrow> pj_directory c \<noteq> pj_directory p)
            then Inl DirectoryFixed
            else if list_ex (\<lambda>other. overlaps lib other p) others then Inl DirectoriesOverlap
            else if length others \<ge> 100 then Inl ProjectLimit
            else if \<not> distinct (delivery_endpoints s tenant p) then Inl SameEndpoint
            else let p' = next_revisions current p
                 in Inr (p', delivery_event tenant [] (lit ''project_policy_changed'')
                      (drop_policies tenant
                        (s\<lparr>projects := AList.update (tenant, pj_id p) p' (projects s)\<rparr>)))))"

definition set_receive_workflow ::
  "rstr \<Rightarrow> rstr \<Rightarrow> receive_workflow \<Rightarrow> nat \<Rightarrow> job_store \<Rightarrow> workflow_error + job_store" where
  "set_receive_workflow tenant link w now s =
     (if map_of (links s) link \<noteq> Some tenant then Inl RequestGone
      else if rw_project_id w = []
      then Inr (s\<lparr>receive_workflows := AList.delete link (receive_workflows s)\<rparr>)
      else case project_in s tenant (rw_project_id w) of
             None \<Rightarrow> Inl ProjectMissing
           | Some p \<Rightarrow>
              if \<not> pj_receive p then Inl NotAccepting
              else case validate_job p (receive_request w (lit ''validate'') (lit ''Incoming files'')) now of
                     Inl e \<Rightarrow> Inl (Invalid e)
                   | Inr () \<Rightarrow> Inr (s\<lparr>receive_workflows := AList.update link w (receive_workflows s)\<rparr>))"

section \<open>Queueing\<close>

definition counts_active :: "job_state \<Rightarrow> bool" where
  "counts_active st \<longleftrightarrow> st \<in> {Queued, Preparing, AwaitingApproval, Exporting, Retrying}"

definition active_jobs :: "job_store \<Rightarrow> rstr \<Rightarrow> nat" where
  "active_jobs s tenant =
     length (filter (\<lambda>(_, r). jb_tenant (jr_job r) = tenant \<and> counts_active (jb_state (jr_job r))) (jobs s))"

definition same_operation :: "rstr \<Rightarrow> rstr \<Rightarrow> rstr \<Rightarrow> djob \<Rightarrow> bool" where
  "same_operation tenant actor operation j \<longleftrightarrow>
     jb_tenant j = tenant \<and> jb_actor j = actor \<and> rq_operation_id (jb_request j) = operation"

text \<open>The primary key of the table and its \<open>UNIQUE(tenant,actor,operation\_id)\<close>.\<close>

definition insert_job :: "djob \<Rightarrow> nat \<Rightarrow> rstr \<Rightarrow> job_store \<Rightarrow> workflow_error + job_store" where
  "insert_job j not_before token s =
     (if map_of (jobs s) (jb_id j) \<noteq> None
         \<or> list_ex (\<lambda>(_, r). same_operation (jb_tenant j) (jb_actor j) (rq_operation_id (jb_request j)) (jr_job r))
             (jobs s)
      then Inl StoreFailure
      else Inr (s\<lparr>jobs := (jb_id j, \<lparr>jr_owner = [], jr_not_before = not_before, jr_token = token, jr_job = j\<rparr>)
                            # jobs s\<rparr>))"

definition fresh_job ::
  "rstr \<Rightarrow> rstr \<Rightarrow> rstr \<Rightarrow> nat \<Rightarrow> job_request \<Rightarrow> project \<Rightarrow> job_checks \<Rightarrow> nat \<Rightarrow> djob" where
  "fresh_job i tenant actor version request p checks now =
     \<lparr>jb_id = i, jb_tenant = tenant, jb_token_generation = 0, jb_actor = actor,
      jb_credential_version = version, jb_automation_token_id = None, jb_actor_human = None,
      jb_request = request, jb_project = p, jb_state = Queued, jb_manifest = None,
      jb_approved_by = None, jb_attempts = 0, jb_created_at = now, jb_updated_at = now,
      jb_error = None, jb_checks = checks, jb_received = None, jb_reprocessed_from = None,
      jb_reprocessed_as = None\<rparr>"

text \<open>The human behind an automation token, as recorded when it was created.\<close>

definition token_human :: "job_store \<Rightarrow> rstr \<Rightarrow> rstr option \<Rightarrow> rstr option" where
  "token_human s tenant token =
     (case token of
        None \<Rightarrow> None
      | Some t \<Rightarrow> (case map_of (automation_tokens s) t of
                    None \<Rightarrow> None
                  | Some r \<Rightarrow> if au_tenant r = tenant then Some (au_created_by r) else None))"

definition submitted_job ::
  "rstr \<Rightarrow> rstr \<Rightarrow> nat \<Rightarrow> rstr option \<Rightarrow> project \<Rightarrow> job_request \<Rightarrow> nat \<Rightarrow> rstr \<Rightarrow> job_store \<Rightarrow> djob" where
  "submitted_job tenant actor version automation p request now i s =
     (fresh_job i tenant actor version request p (trade_snapshot s tenant p) now)
       \<lparr>jb_automation_token_id := automation, jb_actor_human := token_human s tenant automation\<rparr>"

definition submit_job ::
  "djob \<Rightarrow> nat \<Rightarrow> nat \<Rightarrow> rstr \<Rightarrow> job_store \<Rightarrow> workflow_error + (djob \<times> job_store)" where
  "submit_job j not_before now token s =
     (case actor_active s j now of
        Inl e \<Rightarrow> Inl e
      | Inr () \<Rightarrow>
         (case insert_job j not_before token s of
            Inl e \<Rightarrow> Inl e
          | Inr s' \<Rightarrow> Inr (j, delivery_event (jb_tenant j) (jb_id j) (lit ''delivery_queued'') s')))"

definition enqueue_delivery_job ::
  "rstr \<Rightarrow> rstr \<Rightarrow> nat \<Rightarrow> rstr option \<Rightarrow> project \<Rightarrow> job_request \<Rightarrow> nat \<Rightarrow> rstr \<Rightarrow> rstr
   \<Rightarrow> job_store \<Rightarrow> workflow_error + (djob \<times> job_store)" where
  "enqueue_delivery_job tenant actor version automation p request now i token s =
     (case ensure_tenant s tenant of
        Inl e \<Rightarrow> Inl e
      | Inr () \<Rightarrow>
     (case find (\<lambda>(_, r). same_operation tenant actor (rq_operation_id request) (jr_job r)) (jobs s) of
        Some (_, previous) \<Rightarrow>
          if jb_request (jr_job previous) = request then Inr (jr_job previous, s)
          else Inl OperationConflict
      | None \<Rightarrow>
     (case validate_job p request now of
        Inl e \<Rightarrow> Inl (Invalid e)
      | Inr () \<Rightarrow>
         if project_in s tenant (pj_id p) \<noteq> Some p then Inl ProjectChanged
         else if active_jobs s tenant \<ge> 1000 then Inl ActiveLimit
         else submit_job (submitted_job tenant actor version automation p request now i s)
                (case rq_not_before request of None \<Rightarrow> now | Some t \<Rightarrow> t) now token s)))"

text \<open>What makes an arriving upload's job fail at once; the last reason stands.\<close>

definition reception_error :: "job_store \<Rightarrow> rstr \<Rightarrow> project \<Rightarrow> job_request \<Rightarrow> nat \<Rightarrow> workflow_error option" where
  "reception_error s tenant p request now =
     (if active_jobs s tenant \<ge> 1000 then Some ActiveLimit
      else if \<not> pj_receive p then Some NotAccepting
      else case validate_job p request now of Inl e \<Rightarrow> Some (Invalid e) | Inr () \<Rightarrow> None)"

definition received_label :: "rstr \<Rightarrow> rstr" where
  "received_label label = byte_prefix (label @ lit '' '' @ [183] @ lit '' received'') 200"

definition record_reception :: "rstr \<Rightarrow> rstr \<Rightarrow> rstr \<Rightarrow> job_store \<Rightarrow> job_store" where
  "record_reception tenant link upload s =
     s\<lparr>receive_uploads := (if (link, upload) \<in> set (receive_uploads s) then receive_uploads s
                             else receive_uploads s @ [(link, upload)]),
       policy_cache := fold (\<lambda>(i, g) cache.
           if gr_tenant g = tenant \<and> gr_link_id g = link \<and> gr_upload_id g = upload
           then AList.update i True cache else cache) (grants s) (policy_cache s)\<rparr>"

text \<open>\<open>error\_text\<close> is the wording of a refusal.\<close>

definition queue_received ::
  "(workflow_error \<Rightarrow> rstr) \<Rightarrow> rstr \<Rightarrow> rstr \<Rightarrow> rstr \<Rightarrow> bool \<Rightarrow> nat \<Rightarrow> rstr \<Rightarrow> rstr
   \<Rightarrow> job_store \<Rightarrow> workflow_error + job_store" where
  "queue_received error_text tenant link upload partly now i token s =
     (case receive_workflow_in s tenant link of
        None \<Rightarrow> Inr s
      | Some w \<Rightarrow>
         let s = record_reception tenant link upload s; actor = lit ''reception:'' @ link
         in if partly then Inr s
            else case project_in s tenant (rw_project_id w) of
                   None \<Rightarrow> Inl ProjectMissing
                 | Some p \<Rightarrow>
                    if list_ex (\<lambda>(_, r). same_operation tenant actor upload (jr_job r)) (jobs s)
                    then Inr s
                    else let request = receive_request w upload (received_label (pj_label p));
                             err = reception_error s tenant p request now;
                             j = (fresh_job i tenant actor 0 request p (trade_snapshot s tenant p) now)
                                   \<lparr>jb_state := (if err \<noteq> None then Failed else Queued),
                                    jb_error := map_option error_text err,
                                    jb_received := Some \<lparr>rv_link_id = link, rv_upload_id = upload\<rparr>\<rparr>
                         in (case insert_job j now token s of
                               Inl e \<Rightarrow> Inl e
                             | Inr s' \<Rightarrow> Inr (delivery_event tenant i (lit ''reception_queued'') s')))"

section \<open>Running a job\<close>

text \<open>The row a claim may take: its count of the owner's other running jobs is per row.\<close>

definition owner_load :: "job_store \<Rightarrow> rstr \<Rightarrow> rstr \<Rightarrow> rstr \<Rightarrow> nat" where
  "owner_load s tenant owner i =
     length (filter (\<lambda>(k, a). jb_tenant (jr_job a) = tenant \<and> jr_owner a = owner
        \<and> running (jb_state (jr_job a)) \<and> k \<noteq> i) (jobs s))"

definition claimable :: "job_store \<Rightarrow> rstr \<Rightarrow> nat \<Rightarrow> rstr \<times> job_row \<Rightarrow> bool" where
  "claimable s owner now x \<longleftrightarrow>
     (case x of (i, r) \<Rightarrow>
        ((jb_state (jr_job r) \<in> {Queued, Retrying} \<and> jr_not_before r \<le> now)
         \<or> (jb_state (jr_job r) = Preparing \<and> jr_owner r \<noteq> owner)
         \<or> (jb_state (jr_job r) = Exporting \<and> jr_owner r \<noteq> owner))
        \<and> owner_load s (jb_tenant (jr_job r)) owner i < 2)"

definition claimed :: "nat \<Rightarrow> djob \<Rightarrow> djob" where
  "claimed now j =
     (let exhausted = retry_attempts (j\<lparr>jb_attempts := jb_attempts j + 1\<rparr>) > 5
      in j\<lparr>jb_state := (if exhausted then Failed
                        else if jb_manifest j \<noteq> None then Exporting else Preparing),
           jb_attempts := jb_attempts j + 1, jb_updated_at := now,
           jb_error := (if exhausted then Some (lit ''job recovery limit reached; retry explicitly'')
                        else None)\<rparr>)"

definition state_event :: "djob \<Rightarrow> rstr" where
  "state_event j = lit ''delivery_'' @ state_str (jb_state j)"

definition claim_delivery_job :: "rstr \<Rightarrow> nat \<Rightarrow> job_store \<Rightarrow> djob option \<times> job_store" where
  "claim_delivery_job owner now s =
     (case min_by_key (\<lambda>(i, r). (jr_not_before r, i)) (filter (claimable s owner now) (jobs s)) of
        None \<Rightarrow> (None, s)
      | Some (_, r) \<Rightarrow>
          let j = claimed now (jr_job r)
          in (Some j, delivery_event (jb_tenant j) (jb_id j) (state_event j)
                        (save_job j (set_owner (jb_id j) owner s))))"

definition reserved_bytes :: "job_store \<Rightarrow> djob \<Rightarrow> nat" where
  "reserved_bytes s j =
     (\<Sum>(_, r) \<leftarrow> filter (\<lambda>(i, r). jb_tenant (jr_job r) = jb_tenant j \<and> i \<noteq> jb_id j
        \<and> jb_state (jr_job r) \<noteq> Suspended) (jobs s). ck_snapshot_bytes (jb_checks (jr_job r)))"

definition i64_max :: nat where "i64_max = 9223372036854775807"

definition reserve_delivery_snapshot ::
  "rstr \<Rightarrow> nat \<Rightarrow> nat \<Rightarrow> nat \<Rightarrow> job_store \<Rightarrow> workflow_error + job_store" where
  "reserve_delivery_snapshot i attempt bytes limit s =
     (case job_in s i of
        None \<Rightarrow> Inl JobMissing
      | Some j \<Rightarrow>
          if jb_state j \<noteq> Preparing \<or> jb_attempts j \<noteq> attempt then Inl JobChanged
          else if (case checked_add (reserved_bytes s j) bytes of
                     None \<Rightarrow> True | Some all \<Rightarrow> all > min limit i64_max)
          then Inl BudgetExhausted
          else Inr (save_job (j\<lparr>jb_checks := (jb_checks j)\<lparr>ck_snapshot_bytes := bytes\<rparr>\<rparr>) s))"

definition finished_state :: "project \<Rightarrow> job_state" where
  "finished_state p =
     (if pj_require_approval p then AwaitingApproval
      else if pj_destinations p \<noteq> [] then Exporting else Ready)"

definition finished_job :: "project \<Rightarrow> rstr \<Rightarrow> job_checks \<Rightarrow> nat \<Rightarrow> djob \<Rightarrow> djob" where
  "finished_job p manifest checks now j =
     j\<lparr>jb_manifest := Some manifest, jb_updated_at := now, jb_state := finished_state p,
       jb_checks := checks\<lparr>ck_released_at :=
         (if \<not> pj_require_approval p \<and> pj_release p = Local then Some now else ck_released_at checks)\<rparr>\<rparr>"

definition store_finished :: "grant \<Rightarrow> rstr \<Rightarrow> djob \<Rightarrow> job_store \<Rightarrow> job_store" where
  "store_finished g i d s =
     delivery_event (gr_tenant g) (gr_id g) (state_event d)
       (save_job d (if jb_state d = Exporting then set_owner i [] s else s))"

text \<open>\<open>finish_job\<close>: \<open>j\<close> is the worker's copy of the job, its checks those of the preparation.\<close>

definition finish_job ::
  "djob \<Rightarrow> grant \<Rightarrow> rstr \<Rightarrow> nat \<Rightarrow> job_store \<Rightarrow> workflow_error + job_store" where
  "finish_job j g manifest now s =
     (case job_in s (jb_id j) of
        None \<Rightarrow> Inl JobMissing
      | Some current \<Rightarrow>
         if jb_state current \<noteq> Preparing \<or> jb_attempts current \<noteq> jb_attempts j
            \<or> jb_project current \<noteq> jb_project j
         then Inl JobChanged
         else case project_in s (jb_tenant j) (pj_id (jb_project j)) of
                None \<Rightarrow> Inl ProjectMissing
              | Some p \<Rightarrow>
                 if pj_revision p \<noteq> pj_revision (jb_project j) then Inl PolicyChanged
                 else case actor_active s j now of
                        Inl e \<Rightarrow> Inl e
                      | Inr () \<Rightarrow>
                         (case check_job_storage s j of
                            Inl e \<Rightarrow> Inl e
                          | Inr () \<Rightarrow>
                             Inr (store_finished g (jb_id j) (finished_job p manifest (jb_checks j) now current) s)))"

definition validate_names :: "path_lib \<Rightarrow> grant \<Rightarrow> path_error + unit" where
  "validate_names lib g =
     (if gr_files g = [] then admit_portable_paths lib [gr_name g]
      else admit_portable_paths lib (map gf_name (gr_files g)))"

definition grant_digest :: "('k, 'b) stmt_lib \<Rightarrow> grant \<Rightarrow> rstr" where
  "grant_digest lib g =
     (if gr_files g = []
      then delivery_manifest_digest lib [(gr_name g, gr_suite g, gr_root g, gr_bytes g)]
      else delivery_manifest_digest lib
             (map (\<lambda>f. (gf_name f, gf_suite f, gf_root f, gf_bytes f)) (gr_files g)))"

definition hash_token :: "('k, 'b) stmt_lib \<Rightarrow> rstr \<Rightarrow> rstr" where
  "hash_token lib token = sha256_hex lib (as_bytes token)"

definition notification_job_override_in :: "job_store \<Rightarrow> rstr \<Rightarrow> rstr \<Rightarrow> notification_policy option" where
  "notification_job_override_in s tenant i =
     (case job_in s i of
        None \<Rightarrow> None
      | Some j \<Rightarrow> if jb_tenant j = tenant then map_of (job_overrides s) i else None)"

text \<open>The three inserts: the grant, its files (kept in the grant) and its manifest.\<close>

definition insert_grant :: "grant \<Rightarrow> rstr \<Rightarrow> job_store \<Rightarrow> workflow_error + job_store" where
  "insert_grant g digest s =
     (if map_of (grants s) (gr_id g) \<noteq> None \<or> map_of (manifests s) (gr_id g) \<noteq> None
         \<or> list_ex (\<lambda>(_, x). gr_token_hash x = gr_token_hash g) (grants s)
      then Inl StoreFailure
      else Inr (s\<lparr>grants := (gr_id g, g) # grants s, manifests := (gr_id g, digest) # manifests s\<rparr>))"

definition record_operation ::
  "automation_operation option \<Rightarrow> rstr \<Rightarrow> nat \<Rightarrow> job_store \<Rightarrow> workflow_error + job_store" where
  "record_operation operation i now s =
     (case operation of
        None \<Rightarrow> Inr s
      | Some x \<Rightarrow>
          if \<not> (case map_of (automation_tokens s) (op_token_id x) of
                  None \<Rightarrow> False
                | Some t \<Rightarrow> au_revoked_at t = None \<and> au_expires_at t > now)
          then Inl AutomationExpired
          else if map_of (automation_operations s) (op_token_id x, op_operation_id x) \<noteq> None
               \<or> list_ex (\<lambda>(_, _, k). k = i) (automation_operations s)
          then Inl StoreFailure
          else Inr (s\<lparr>automation_operations :=
                 ((op_token_id x, op_operation_id x), (op_request_hash x, i)) # automation_operations s\<rparr>))"

definition insert_workflow_grant ::
  "('k, 'b) jobs_lib \<Rightarrow> grant \<Rightarrow> automation_operation option \<Rightarrow> djob option \<Rightarrow> rstr option \<Rightarrow> nat
   \<Rightarrow> job_store \<Rightarrow> workflow_error + job_store" where
  "insert_workflow_grant lib g operation job share_token now s =
     (if (case share_token of None \<Rightarrow> False
          | Some t \<Rightarrow> hash_token (jl_stmts lib) t \<noteq> gr_token_hash g)
      then Inl TokenMismatch
      else case validate_names (jl_paths lib) g of
             Inl e \<Rightarrow> Inl (BadNames e)
           | Inr () \<Rightarrow>
          (case check_grant_creation (jl_workflow lib) s g job of
             Inl e \<Rightarrow> Inl e
           | Inr () \<Rightarrow>
              let digest = grant_digest (jl_stmts lib) g;
                  g = (case notification_job_override_in s (gr_tenant g) (gr_id g) of
                         None \<Rightarrow> g | Some policy \<Rightarrow> g\<lparr>gr_notifications := Some policy\<rparr>)
              in (case (case job of None \<Rightarrow> Inr s | Some j \<Rightarrow> finish_job j g digest now s) of
                    Inl e \<Rightarrow> Inl e
                  | Inr s \<Rightarrow>
                 (case insert_grant (g\<lparr>gr_share_token := (if job = None then share_token else None)\<rparr>) digest s of
                    Inl e \<Rightarrow> Inl e
                  | Inr s \<Rightarrow> record_operation operation (gr_id g) now s))))"

section \<open>Exporting and failing\<close>

definition export_in :: "rstr \<Rightarrow> nat \<Rightarrow> nat \<Rightarrow> job_store \<Rightarrow> workflow_error + djob" where
  "export_in i attempt now s =
     (case job_in s i of
        None \<Rightarrow> Inl JobMissing
      | Some j \<Rightarrow>
     (case project_in s (jb_tenant j) (pj_id (jb_project j)) of
        None \<Rightarrow> Inl ProjectMissing
      | Some p \<Rightarrow>
         if jb_state j \<noteq> Exporting \<or> jb_attempts j \<noteq> attempt \<or> \<not> same_delivery_policy (jb_project j) p
            \<or> (pj_require_approval p \<and> jb_approved_by j = None)
         then Inl ExportUnauthorized
         else if \<not> (case map_of (grants s) i of
                      None \<Rightarrow> False | Some g \<Rightarrow> gr_revoked_at g = None \<and> gr_expires_at g > now)
         then Inl GrantInactive
         else case actor_active s j now of
                Inl e \<Rightarrow> Inl e
              | Inr () \<Rightarrow> (case check_job_source s j of Inl e \<Rightarrow> Inl e | Inr () \<Rightarrow> Inr j)))"

definition set_destination :: "rstr \<Rightarrow> destination_status \<Rightarrow> djob \<Rightarrow> djob" where
  "set_destination d status j =
     j\<lparr>jb_checks := (jb_checks j)\<lparr>ck_destinations :=
         AList.update d status (ck_destinations (jb_checks j))\<rparr>\<rparr>"

definition complete_delivery_export ::
  "rstr \<Rightarrow> nat \<Rightarrow> rstr \<Rightarrow> rstr \<Rightarrow> nat \<Rightarrow> job_store \<Rightarrow> workflow_error + job_store" where
  "complete_delivery_export i attempt d key now s =
     (case export_in i attempt now s of
        Inl e \<Rightarrow> Inl e
      | Inr j \<Rightarrow>
     (case check_job_destination s j d of
        Inl e \<Rightarrow> Inl e
      | Inr _ \<Rightarrow>
         let j = set_destination d (DestComplete key now) j;
             j = (if list_all (destination_complete j) (pj_destinations (jb_project j))
                  then j\<lparr>jb_state := Ready\<rparr> else j)
         in Inr (delivery_event (jb_tenant j) i (lit ''destination_completed'')
                  (save_job (j\<lparr>jb_updated_at := now\<rparr>) s))))"

definition fail_delivery_destination ::
  "rstr \<Rightarrow> nat \<Rightarrow> rstr \<Rightarrow> rstr \<Rightarrow> nat \<Rightarrow> job_store \<Rightarrow> workflow_error + job_store" where
  "fail_delivery_destination i attempt d err now s =
     (case export_in i attempt now s of
        Inl e \<Rightarrow> Inl e
      | Inr j \<Rightarrow>
         if d \<notin> set (pj_destinations (jb_project j)) then Inl NotADestination
         else Inr (delivery_event (jb_tenant j) i (lit ''destination_failed'')
                (save_job (set_destination d (DestFailed (take 500 err)) j) s)))"

text \<open>The progress of a route: only the attempt that is exporting writes it.\<close>

definition route_progress :: "rstr \<Rightarrow> nat \<Rightarrow> rstr \<Rightarrow> nat \<Rightarrow> job_store \<Rightarrow> job_store" where
  "route_progress i attempt d moved s =
     (case job_in s i of
        None \<Rightarrow> s
      | Some j \<Rightarrow>
         if jb_state j = Exporting \<and> jb_attempts j = attempt
         then save_job (set_destination d (DestSending moved) j) s else s)"

text \<open>\<open>1u64 \<lless> attempts.min(4)\<close> times 30 seconds.\<close>

definition backoff :: "djob \<Rightarrow> nat" where
  "backoff j = 30 * 2 ^ min (retry_attempts j) 4"

definition set_not_before :: "rstr \<Rightarrow> nat \<Rightarrow> job_store \<Rightarrow> job_store" where
  "set_not_before i t s = update_row i (\<lambda>r. r\<lparr>jr_not_before := t\<rparr>) s"

definition retries :: "djob \<Rightarrow> bool" where
  "retries j \<longleftrightarrow> jb_state j = Exporting \<and> retry_attempts j < 5"

definition failed_job :: "rstr \<Rightarrow> nat \<Rightarrow> djob \<Rightarrow> djob" where
  "failed_job err now j =
     j\<lparr>jb_state := (if retries j then Retrying else Failed),
       jb_checks := (jb_checks j)\<lparr>
         ck_retry_at := (if retries j then Some (sat_add now (backoff j)) else ck_retry_at (jb_checks j)),
         ck_first_failure_at := (case ck_first_failure_at (jb_checks j) of
             None \<Rightarrow> Some now | Some t \<Rightarrow> Some t)\<rparr>,
       jb_error := Some (take 500 err), jb_updated_at := now\<rparr>"

definition fail_delivery_job :: "rstr \<Rightarrow> nat \<Rightarrow> rstr \<Rightarrow> nat \<Rightarrow> job_store \<Rightarrow> job_store" where
  "fail_delivery_job i attempt err now s =
     (case job_in s i of
        None \<Rightarrow> s
      | Some j \<Rightarrow>
         if \<not> running (jb_state j) \<or> jb_attempts j \<noteq> attempt then s
         else delivery_event (jb_tenant j) i (lit ''delivery_failed'')
                (save_job (failed_job err now j)
                  (if retries j then set_not_before i (sat_add now (backoff j)) s else s)))"

section \<open>Changes by people\<close>

definition approved_job :: "project \<Rightarrow> rstr \<Rightarrow> nat \<Rightarrow> djob \<Rightarrow> djob" where
  "approved_job p actor now j =
     j\<lparr>jb_approved_by := Some actor,
       jb_checks := (jb_checks j)\<lparr>ck_released_at :=
         (if pj_release p = Local then Some now else ck_released_at (jb_checks j))\<rparr>,
       jb_state := (if pj_destinations p \<noteq> [] then Exporting else Ready)\<rparr>"

definition approve_job ::
  "project \<Rightarrow> rstr \<Rightarrow> bool \<Rightarrow> rstr option \<Rightarrow> nat \<Rightarrow> job_store \<Rightarrow> djob \<Rightarrow> workflow_error + djob" where
  "approve_job p actor administrator manifest now s j =
     (if starts_with actor (lit ''automation:'') \<or> \<not> allows p actor (lit ''approver'') administrator
      then Inl ApprovalNeedsOther
      else if actor = jb_actor j then Inl ApprovalNeedsOther
      else if jb_actor_human j = Some actor then Inl ApprovalNeedsOther
      else if jb_state j \<noteq> AwaitingApproval \<or> jb_manifest j \<noteq> manifest \<or> manifest = None
              \<or> pj_revision p \<noteq> pj_revision (jb_project j)
      then Inl ApprovalMismatch
      else case actor_active s j now of
             Inl e \<Rightarrow> Inl e
           | Inr () \<Rightarrow>
          (case check_job_storage s j of
             Inl e \<Rightarrow> Inl e
           | Inr () \<Rightarrow>
              Inr (approved_job p actor now j)))"

text \<open>\<open>None\<close>: the job was cancelled already and nothing is written.\<close>

definition cancel_job :: "project \<Rightarrow> rstr \<Rightarrow> bool \<Rightarrow> djob \<Rightarrow> workflow_error + djob option" where
  "cancel_job p actor administrator j =
     (if \<not> allows p actor (lit ''sender'') administrator \<and> actor \<noteq> jb_actor j then Inl NeedsRole
      else if retiring (jb_state j) then Inl RetiringJob
      else if jb_state j = Cancelled then Inr None
      else Inr (Some (j\<lparr>jb_state := Cancelled\<rparr>)))"

definition renewed_job :: "job_store \<Rightarrow> project \<Rightarrow> receive_workflow \<Rightarrow> djob \<Rightarrow> djob" where
  "renewed_job s p w j =
     j\<lparr>jb_request := (jb_request j)\<lparr>rq_metadata := rw_metadata w, rq_recipients := rw_recipients w,
                       rq_notifications := rw_notifications w\<rparr>,
       jb_project := p, jb_checks := trade_snapshot s (jb_tenant j) p\<rparr>"

definition repolicy :: "job_store \<Rightarrow> project \<Rightarrow> djob \<Rightarrow> workflow_error + djob" where
  "repolicy s p j =
     (case (jb_received j, jb_manifest j) of
        (Some r, None) \<Rightarrow>
          (case receive_workflow_in s (jb_tenant j) (rv_link_id r) of
             None \<Rightarrow> Inl RequestGone
           | Some w \<Rightarrow>
              if rw_project_id w \<noteq> pj_id p then Inl RequestGone else Inr (renewed_job s p w j))
      | _ \<Rightarrow> if pj_revision p \<noteq> pj_revision (jb_project j) then Inl PolicyChanged else Inr j)"

definition retried_job :: "djob \<Rightarrow> djob" where
  "retried_job j =
     j\<lparr>jb_attempts := jb_attempts j + 1,
       jb_checks := (jb_checks j)\<lparr>ck_retry_base := Some (jb_attempts j + 1),
                     ck_first_failure_at := None, ck_retry_at := None\<rparr>,
       jb_state := (if jb_manifest j \<noteq> None then Exporting else Queued)\<rparr>"

definition retry_job ::
  "project \<Rightarrow> rstr \<Rightarrow> bool \<Rightarrow> nat \<Rightarrow> job_store \<Rightarrow> djob \<Rightarrow> workflow_error + djob" where
  "retry_job p actor administrator now s j =
     (if \<not> allows p actor (lit ''sender'') administrator \<and> actor \<noteq> jb_actor j then Inl NeedsRole
      else if jb_state j \<noteq> Failed \<and> jb_state j \<noteq> Retrying then Inl NotFailed
      else case repolicy s p j of
             Inl e \<Rightarrow> Inl e
           | Inr j \<Rightarrow>
          (case actor_active s j now of
             Inl e \<Rightarrow> Inl e
           | Inr () \<Rightarrow>
          (case validate_job p (jb_request j) (jb_created_at j) of
             Inl e \<Rightarrow> Inl (Invalid e)
           | Inr () \<Rightarrow> Inr (retried_job j))))"

definition change_action ::
  "project \<Rightarrow> rstr \<Rightarrow> bool \<Rightarrow> rstr \<Rightarrow> rstr option \<Rightarrow> nat \<Rightarrow> job_store \<Rightarrow> djob \<Rightarrow> workflow_error + djob option" where
  "change_action p actor administrator action manifest now s j =
     (if action = lit ''approve'' then map_sum id Some (approve_job p actor administrator manifest now s j)
      else if action = lit ''cancel'' then cancel_job p actor administrator j
      else if action = lit ''retry'' then map_sum id Some (retry_job p actor administrator now s j)
      else Inl UnknownAction)"

definition change_delivery_job ::
  "rstr \<Rightarrow> rstr \<Rightarrow> rstr \<Rightarrow> bool \<Rightarrow> rstr \<Rightarrow> rstr option \<Rightarrow> nat \<Rightarrow> job_store
   \<Rightarrow> workflow_error + (djob \<times> job_store)" where
  "change_delivery_job tenant i actor administrator action manifest now s =
     (case job_in s i of
        None \<Rightarrow> Inl JobMissing
      | Some j \<Rightarrow>
         if jb_tenant j \<noteq> tenant then Inl JobMissing
         else case project_in s tenant (pj_id (jb_project j)) of
                None \<Rightarrow> Inl ProjectMissing
              | Some p \<Rightarrow>
                 if jb_state j = Suspended then Inl HeldAfterRestore
                 else case change_action p actor administrator action manifest now s j of
                        Inl e \<Rightarrow> Inl e
                      | Inr None \<Rightarrow> Inr (j, s)
                      | Inr (Some j) \<Rightarrow>
                          let j = j\<lparr>jb_updated_at := now, jb_error := None\<rparr>
                          in Inr (j, delivery_event tenant i (lit ''delivery_'' @ action)
                                       (save_job j (set_owner i [] s))))"

definition remove_delivery_recipient ::
  "rstr \<Rightarrow> rstr \<Rightarrow> rstr \<Rightarrow> bool \<Rightarrow> rstr \<Rightarrow> nat \<Rightarrow> job_store
   \<Rightarrow> workflow_error + (djob \<times> job_store)" where
  "remove_delivery_recipient tenant i actor administrator holder now s =
     (case job_in s i of
        None \<Rightarrow> Inl JobMissing
      | Some j \<Rightarrow>
         if jb_tenant j \<noteq> tenant then Inl JobMissing
         else case project_in s tenant (pj_id (jb_project j)) of
                None \<Rightarrow> Inl ProjectMissing
              | Some p \<Rightarrow>
                 if jb_state j = Suspended then Inl HeldAfterRestore
                 else if \<not> allows p actor (lit ''sender'') administrator \<and> actor \<noteq> jb_actor j
                 then Inl NeedsRole
                 else if jb_state j \<in> {Cancelled, Retiring, Retired} then Inl RetiringJob
                 else if holder \<notin> set (rq_recipients (jb_request j)) then Inl NotEnrolledDevice
                 else if list_all (\<lambda>x. x = holder) (rq_recipients (jb_request j)) then Inl LastRecipient
                 else let j = j\<lparr>jb_request := (jb_request j)\<lparr>rq_recipients :=
                                   filter (\<lambda>x. x \<noteq> holder) (rq_recipients (jb_request j))\<rparr>,
                                jb_updated_at := now\<rparr>
                      in Inr (j, delivery_event tenant i (lit ''recipient_removed'') (save_job j s)))"

definition set_grant :: "rstr \<Rightarrow> grant \<Rightarrow> job_store \<Rightarrow> job_store" where
  "set_grant i g s = s\<lparr>grants := AList.update i g (grants s)\<rparr>"

text \<open>
  \<open>Inr (False, _)\<close>: no live grant, nothing written. A hash another grant has violates
  \<open>token\_hash UNIQUE\<close>.
\<close>

definition rotate_delivery_job_token ::
  "('k, 'b) stmt_lib \<Rightarrow> rstr \<Rightarrow> rstr \<Rightarrow> nat \<Rightarrow> rstr \<Rightarrow> nat \<Rightarrow> job_store
   \<Rightarrow> workflow_error + (bool \<times> job_store)" where
  "rotate_delivery_job_token lib tenant i generation token now s =
     (case job_in s i of
        None \<Rightarrow> Inl JobMissing
      | Some j \<Rightarrow>
         if jb_tenant j \<noteq> tenant then Inl JobMissing
         else if jb_state j \<in> {Retiring, Retired, Suspended} then Inl RetiringJob
         else if jb_token_generation j \<noteq> generation then Inl JobChanged
         else case map_of (grants s) i of
                None \<Rightarrow> Inr (False, s)
              | Some g \<Rightarrow>
                 if gr_tenant g \<noteq> tenant \<or> gr_revoked_at g \<noteq> None then Inr (False, s)
                 else if list_ex (\<lambda>(k, x). k \<noteq> i \<and> gr_token_hash x = hash_token lib token) (grants s)
                 then Inl StoreFailure
                 else Inr (True, delivery_event tenant i (lit ''delivery_link_rotated'')
                        (save_job (j\<lparr>jb_token_generation := jb_token_generation j + 1, jb_updated_at := now\<rparr>)
                          (update_row i (\<lambda>r. r\<lparr>jr_token := token\<rparr>)
                            (set_grant i (g\<lparr>gr_token_hash := hash_token lib token\<rparr>) s)))))"

section \<open>Retirement\<close>

text \<open>The left join: a job with no grant has neither an expiry nor a revocation to compare.\<close>

definition grant_over :: "job_store \<Rightarrow> rstr \<Rightarrow> nat \<Rightarrow> bool" where
  "grant_over s i cutoff \<longleftrightarrow>
     (case map_of (grants s) i of
        None \<Rightarrow> False
      | Some g \<Rightarrow> gr_expires_at g \<le> cutoff
               \<or> (case gr_revoked_at g of None \<Rightarrow> False | Some t \<Rightarrow> t \<le> cutoff))"

definition retirement_due :: "job_store \<Rightarrow> nat \<Rightarrow> rstr \<times> job_row \<Rightarrow> bool" where
  "retirement_due s cutoff x \<longleftrightarrow>
     (case x of (i, r) \<Rightarrow>
        let j = jr_job r
        in jb_state j = Retiring
           \<or> (jb_state j \<in> {Failed, Cancelled} \<and> jb_updated_at j \<le> cutoff
              \<and> (ck_released_at (jb_checks j) = None \<or> grant_over s i cutoff))
           \<or> (jb_state j \<in> {Ready, AwaitingApproval} \<and> grant_over s i cutoff))"

definition retirement_key :: "rstr \<times> job_row \<Rightarrow> nat \<times> rstr" where
  "retirement_key x =
     (case ck_retirement_attempt_at (jb_checks (jr_job (snd x))) of None \<Rightarrow> 0 | Some t \<Rightarrow> t, fst x)"

definition retiring_job :: "nat \<Rightarrow> djob \<Rightarrow> djob" where
  "retiring_job now j =
     j\<lparr>jb_state := Retiring,
       jb_checks := (jb_checks j)\<lparr>
         ck_retired_from := (if jb_state j \<noteq> Retiring then Some (jb_state j) else ck_retired_from (jb_checks j)),
         ck_retirement_attempt_at := Some now\<rparr>\<rparr>"

definition claim_snapshot_retirement :: "nat \<Rightarrow> job_store \<Rightarrow> djob option \<times> job_store" where
  "claim_snapshot_retirement now s =
     (case min_by_key retirement_key (filter (retirement_due s (now - 7 * 86400)) (jobs s)) of
        None \<Rightarrow> (None, s)
      | Some (_, r) \<Rightarrow> (Some (retiring_job now (jr_job r)), save_job (retiring_job now (jr_job r)) s))"

definition complete_snapshot_retirement :: "rstr \<Rightarrow> nat \<Rightarrow> job_store \<Rightarrow> workflow_error + job_store" where
  "complete_snapshot_retirement i now s =
     (case job_in s i of
        None \<Rightarrow> Inr s
      | Some j \<Rightarrow>
         if jb_state j \<noteq> Retiring then Inl NotRetiring
         else Inr (delivery_event (jb_tenant j) i (lit ''delivery_retired'')
                (save_job (j\<lparr>jb_state := Retired, jb_updated_at := now,
                   jb_checks := (jb_checks j)\<lparr>ck_snapshot_bytes := 0, ck_snapshot_purged_at := Some now\<rparr>\<rparr>) s)))"

section \<open>Reprocessing an incoming delivery\<close>

record admin_identity =
  id_role :: rstr
  id_subject :: rstr
  id_tenant :: rstr
  id_credential_version :: nat

definition file_entry :: "file_record \<Rightarrow> manifest_file" where
  "file_entry f = (fr_path f, fr_suite f, fr_root f, fr_bytes f)"

definition complete_upload :: "job_store \<Rightarrow> rstr \<Rightarrow> received_upload \<Rightarrow> upload_row option" where
  "complete_upload s tenant r =
     (case read_upload s tenant (rv_link_id r) (rv_upload_id r) of
        None \<Rightarrow> None
      | Some u \<Rightarrow> if \<not> up_partial u \<and> up_completed_at u \<noteq> 0 \<and> up_files u \<noteq> []
                     \<and> list_all (\<lambda>f. \<not> fr_deleted f) (up_files u)
                  then Some u else None)"

text \<open>Everything that is read before the replacement is built.\<close>

definition reprocess_checks ::
  "('k, 'b) stmt_lib \<Rightarrow> admin_identity \<Rightarrow> djob \<Rightarrow> received_upload \<Rightarrow> project \<Rightarrow> rstr \<Rightarrow> nat
   \<Rightarrow> job_store \<Rightarrow> workflow_error + receive_workflow" where
  "reprocess_checks lib who original r p manifest revision s =
     (if jb_state original \<notin> {Failed, Retrying, AwaitingApproval, Ready} then Inl NotInactive
      else if pj_revision p \<noteq> revision \<or> pj_revision p = pj_revision (jb_project original)
      then Inl PolicyChanged
      else case receive_workflow_in s (id_tenant who) (rv_link_id r) of
             None \<Rightarrow> Inl RequestGone
           | Some w \<Rightarrow>
              if rw_project_id w \<noteq> pj_id p then Inl RequestGone
              else if \<not> received_requires_workflow s (id_tenant who) (rv_link_id r) (rv_upload_id r)
              then Inl NeedsOwningWorkflow
              else case complete_upload s (id_tenant who) r of
                     None \<Rightarrow> Inl UploadMissing
                   | Some u \<Rightarrow>
                      if route_manifest_digest lib (map file_entry (up_files u)) \<noteq> manifest
                      then Inl InventoryChanged
                      else (case require_shareable s (rv_upload_id r) of
                              Inl e \<Rightarrow> Inl e | Inr () \<Rightarrow> Inr w))"

definition revoke_grant :: "rstr \<Rightarrow> rstr \<Rightarrow> nat \<Rightarrow> job_store \<Rightarrow> workflow_error + job_store" where
  "revoke_grant i tenant now s =
     (case map_of (grants s) i of
        None \<Rightarrow> Inl GrantInactive
      | Some g \<Rightarrow>
         if gr_tenant g \<noteq> tenant then Inl GrantInactive
         else Inr (set_grant i (g\<lparr>gr_revoked_at :=
                (case gr_revoked_at g of None \<Rightarrow> Some now | Some t \<Rightarrow> Some t)\<rparr>) s))"

definition replace_job ::
  "admin_identity \<Rightarrow> djob \<Rightarrow> djob \<Rightarrow> rstr \<Rightarrow> nat \<Rightarrow> job_store \<Rightarrow> workflow_error + (djob \<times> job_store)" where
  "replace_job who original replacement token now s =
     (case actor_active s replacement now of
        Inl e \<Rightarrow> Inl e
      | Inr () \<Rightarrow>
     (case check_job_source s replacement of
        Inl e \<Rightarrow> Inl e
      | Inr () \<Rightarrow>
         let s = save_job (original\<lparr>jb_state := Cancelled, jb_updated_at := now,
                             jb_reprocessed_as := Some (jb_id replacement)\<rparr>) s
         in if active_jobs s (id_tenant who) \<ge> 1000 then Inl ActiveLimit
            else case revoke_grant (jb_id original) (id_tenant who) now s of
                   Inl e \<Rightarrow> Inl e
                 | Inr s \<Rightarrow>
                (case insert_job replacement now token (set_owner (jb_id original) [] s) of
                   Inl e \<Rightarrow> Inl e
                 | Inr s \<Rightarrow>
                    Inr (replacement,
                      delivery_event (id_tenant who) (jb_id replacement) (lit ''reception_queued'')
                        (delivery_event (id_tenant who) (jb_id original) (lit ''delivery_reprocessed'') s)))))"

definition reprocess_received_job ::
  "('k, 'b) stmt_lib \<Rightarrow> admin_identity \<Rightarrow> rstr \<Rightarrow> rstr \<Rightarrow> nat \<Rightarrow> nat \<Rightarrow> rstr \<Rightarrow> rstr
   \<Rightarrow> job_store \<Rightarrow> workflow_error + (djob \<times> job_store)" where
  "reprocess_received_job lib who i manifest revision now fresh token s =
     (if (id_role who \<noteq> lit ''admin'' \<and> id_role who \<noteq> lit ''viewer'')
         \<or> starts_with (id_subject who) (lit ''automation:'') then Inl NotHuman
      else if \<not> principal_active s (id_subject who) (id_credential_version who) then Inl IdentityInactive
      else case job_in s i of
        None \<Rightarrow> Inl JobMissing
      | Some original \<Rightarrow>
         if jb_tenant original \<noteq> id_tenant who then Inl JobMissing
         else case jb_received original of
           None \<Rightarrow> Inl NotReceived
         | Some r \<Rightarrow>
        (case project_in s (id_tenant who) (pj_id (jb_project original)) of
           None \<Rightarrow> Inl ProjectMissing
         | Some p \<Rightarrow>
            if \<not> allows p (id_subject who) (lit ''sender'') (id_role who = lit ''admin'') then Inl NeedsRole
            else if jb_manifest original \<noteq> Some manifest \<or> manifest = [] then Inl ManifestChanged
            else case jb_reprocessed_as original of
              Some k \<Rightarrow> (case job_in s k of None \<Rightarrow> Inl ReplacementMissing | Some j \<Rightarrow> Inr (j, s))
            | None \<Rightarrow>
           (case reprocess_checks lib who original r p manifest revision s of
              Inl e \<Rightarrow> Inl e
            | Inr w \<Rightarrow>
               let request = receive_request w (lit ''reprocess_'' @ jb_id original)
                               (rq_label (jb_request original))
               in (case validate_job p request now of
                     Inl e \<Rightarrow> Inl (Invalid e)
                   | Inr () \<Rightarrow>
                      replace_job who original
                        ((fresh_job fresh (id_tenant who) (id_subject who) (id_credential_version who)
                            request p (trade_snapshot s (id_tenant who) p) now)
                           \<lparr>jb_received := Some r, jb_reprocessed_from := Some (jb_id original)\<rparr>)
                        token now s))))"

section \<open>Writers outside the job store\<close>

text \<open>
  Two other modules update the jobs: the revocation of an inbound route by its source
  (\<open>server/src/store/routes.rs\<close>) and the restore of a backup (\<open>server/src/backup.rs\<close>).
\<close>

definition from_route :: "job_store \<Rightarrow> rstr \<Rightarrow> rstr \<Rightarrow> bool" where
  "from_route s route upload \<longleftrightarrow>
     list_ex (\<lambda>u. ru_route_id u = route \<and> ru_upload_id u = upload) (route_uploads s)"

definition job_from_route :: "job_store \<Rightarrow> rstr \<Rightarrow> djob \<Rightarrow> bool" where
  "job_from_route s route j \<longleftrightarrow>
     (case jb_received j of None \<Rightarrow> False | Some r \<Rightarrow> from_route s route (rv_upload_id r))"

definition source_revoked :: "nat \<Rightarrow> djob \<Rightarrow> djob" where
  "source_revoked now j =
     j\<lparr>jb_state := (if jb_state j \<in> {Retiring, Retired, Suspended} then jb_state j else Cancelled),
       jb_updated_at := now, jb_error := Some (lit ''Source port revoked this route''),
       jb_checks := (jb_checks j)\<lparr>ck_source_revoked_at := Some now\<rparr>\<rparr>"

definition revoke_route_deliveries :: "rstr \<Rightarrow> nat \<Rightarrow> job_store \<Rightarrow> job_store" where
  "revoke_route_deliveries route now s =
     s\<lparr>inbound_routes := map (\<lambda>(i, r). (i, if i = route then r\<lparr>ib_revoked_at := Some now\<rparr> else r)) (inbound_routes s),
       grants := map (\<lambda>(i, g). (i,
          if from_route s route (gr_upload_id g)
             \<or> (case job_in s i of None \<Rightarrow> False | Some j \<Rightarrow> job_from_route s route j)
          then g\<lparr>gr_revoked_at := (case gr_revoked_at g of None \<Rightarrow> Some now | Some t \<Rightarrow> Some t)\<rparr>
          else g)) (grants s),
       jobs := map (\<lambda>(i, r). (i, if job_from_route s route (jr_job r)
                                 then r\<lparr>jr_job := source_revoked now (jr_job r)\<rparr> else r)) (jobs s)\<rparr>"

definition held :: "job_row \<Rightarrow> job_row" where
  "held r =
     (if jb_state (jr_job r) = Suspended then r
      else r\<lparr>jr_owner := [],
             jr_job := (jr_job r)\<lparr>jb_state := Suspended,
               jb_error := Some (lit ''Held after restoring a backup. Create a new job to deliver these files.'')\<rparr>\<rparr>)"

definition hold_after_restore :: "job_store \<Rightarrow> job_store" where
  "hold_after_restore s = s\<lparr>jobs := map (\<lambda>(i, r). (i, held r)) (jobs s)\<rparr>"

end
