(* ===== verification/JobsInvariant.thy ===== *)
theory JobsInvariant
  imports JobOps
begin

text \<open>
  The delivery job store as a transition system: one step per operation of \<open>JobOps\<close>, and one
  for the tables that other components write. The invariant is split into what a single job
  satisfies (\<open>fine\<close>), its relation to the current policy of its project (\<open>current_policy\<close>),
  and facts about the whole store. Every operation moves rows by \<open>row_moves\<close> or inserts one
  fresh row; what follows from that is proved once.
\<close>

section \<open>The invariant\<close>

definition recipients_ok :: "project \<Rightarrow> job_request \<Rightarrow> bool" where
  "recipients_ok p r \<longleftrightarrow>
     (pj_recipients p = [] \<or> rq_recipients r \<noteq> [])
     \<and> (\<forall>h \<in> set (rq_recipients r). \<exists>rc \<in> set (pj_recipients p). rc_holder rc = h)"

definition fine :: "djob \<Rightarrow> bool" where
  "fine j \<longleftrightarrow>
     (jb_state j \<in> {Queued, Preparing} \<longrightarrow> jb_manifest j = None)
     \<and> (jb_state j \<in> {AwaitingApproval, Exporting, Ready, Retrying} \<longrightarrow> jb_manifest j \<noteq> None)
     \<and> (jb_manifest j = None \<longrightarrow> ck_released_at (jb_checks j) = None)
     \<and> (jb_manifest j \<noteq> None \<and> jb_state j \<in> {Exporting, Ready, Retrying, Failed}
          \<and> pj_require_approval (jb_project j) \<longrightarrow> jb_approved_by j \<noteq> None)
     \<and> (\<forall>a. jb_approved_by j = Some a \<longrightarrow>
          a \<noteq> jb_actor j \<and> jb_actor_human j \<noteq> Some a \<and> \<not> starts_with a (lit ''automation:''))
     \<and> (jb_manifest j \<noteq> None \<or> jb_state j \<in> {Queued, Preparing} \<longrightarrow>
          recipients_ok (jb_project j) (jb_request j))"

definition current_policy :: "job_store \<Rightarrow> djob \<Rightarrow> bool" where
  "current_policy s j \<longleftrightarrow>
     (\<exists>p. project_in s (jb_tenant j) (pj_id (jb_project j)) = Some p
        \<and> pj_revision (jb_project j) \<le> pj_revision p
        \<and> (pj_revision (jb_project j) = pj_revision p \<longrightarrow> same_delivery_policy (jb_project j) p))"

definition load_set :: "job_store \<Rightarrow> rstr \<Rightarrow> rstr \<Rightarrow> rstr set" where
  "load_set s tenant owner =
     {i. \<exists>r. map_of (jobs s) i = Some r \<and> jb_tenant (jr_job r) = tenant \<and> jr_owner r = owner
           \<and> running (jb_state (jr_job r))}"

definition rows_ok :: "job_store \<Rightarrow> bool" where
  "rows_ok s \<longleftrightarrow> hm_ok (jobs s)
     \<and> (\<forall>i r. map_of (jobs s) i = Some r \<longrightarrow>
          jb_id (jr_job r) = i \<and> fine (jr_job r) \<and> current_policy s (jr_job r))"

definition loads_ok :: "job_store \<Rightarrow> bool" where
  "loads_ok s \<longleftrightarrow> (\<forall>tenant owner. owner \<noteq> [] \<longrightarrow> card (load_set s tenant owner) \<le> 2)"

definition operations_ok :: "job_store \<Rightarrow> bool" where
  "operations_ok s \<longleftrightarrow>
     (\<forall>i r k r'. map_of (jobs s) i = Some r \<and> map_of (jobs s) k = Some r'
        \<and> same_operation (jb_tenant (jr_job r)) (jb_actor (jr_job r))
            (rq_operation_id (jb_request (jr_job r))) (jr_job r') \<longrightarrow> i = k)"

definition projects_ok :: "workflow_lib \<Rightarrow> job_store \<Rightarrow> bool" where
  "projects_ok lib s \<longleftrightarrow> hm_ok (projects s)
     \<and> (\<forall>t k p. map_of (projects s) (t, k) = Some p \<longrightarrow> pj_id p = k \<and> validate_project lib p = Inr ())
     \<and> (\<forall>t k k' p p'. map_of (projects s) (t, k) = Some p \<and> map_of (projects s) (t, k') = Some p'
          \<and> k \<noteq> k' \<longrightarrow> \<not> overlaps lib p p')"

definition cache_ok :: "workflow_lib \<Rightarrow> job_store \<Rightarrow> bool" where
  "cache_ok lib s \<longleftrightarrow>
     (\<forall>i b. map_of (policy_cache s) i = Some b \<longrightarrow>
        map_of (grants s) i \<noteq> None \<and> (policy_protects lib s i \<longrightarrow> b))"

definition jobs_ok :: "workflow_lib \<Rightarrow> job_store \<Rightarrow> bool" where
  "jobs_ok lib s \<longleftrightarrow> rows_ok s \<and> loads_ok s \<and> operations_ok s \<and> projects_ok lib s \<and> cache_ok lib s"

section \<open>How rows move\<close>

named_theorems row_simps \<open>reading the tables after a row was written\<close>

lemma update_row_fields [row_simps]:
  "projects (update_row i f s) = projects s" "policy_cache (update_row i f s) = policy_cache s"
  "receive_uploads (update_row i f s) = receive_uploads s" "links (update_row i f s) = links s"
  "grants (update_row i f s) = grants s"
  by (simp_all add: update_row_def split: option.splits)

lemma delivery_event_fields [row_simps]:
  "projects (delivery_event a b c s) = projects s" "policy_cache (delivery_event a b c s) = policy_cache s"
  "receive_uploads (delivery_event a b c s) = receive_uploads s" "links (delivery_event a b c s) = links s"
  "grants (delivery_event a b c s) = grants s" "jobs (delivery_event a b c s) = jobs s"
  by (simp_all add: delivery_event_def)

lemma update_row_rows:
  "map_of (jobs (update_row i f s)) k = (if k = i then map_option f (map_of (jobs s) i) else map_of (jobs s) k)"
  by (auto simp: update_row_def hmap_simps split: option.splits)

lemma update_row_keys: "map fst (jobs (update_row i f s)) = map fst (jobs s)"
  by (cases "map_of (jobs s) i")
    (auto simp: update_row_def update_keys dest!: map_of_SomeD intro: rev_image_eqI)

lemma update_row_twice [row_simps]: "update_row i f (update_row i g s) = update_row i (f \<circ> g) s"
  by (cases "map_of (jobs s) i") (simp_all add: update_row_def hmap_simps)

lemma save_job_row [row_simps]: "save_job j s = update_row (jb_id j) (\<lambda>r. r\<lparr>jr_job := j\<rparr>) s"
  by (simp add: save_job_def)

text \<open>What no operation changes of a job, and what only grows.\<close>

definition job_kept :: "djob \<Rightarrow> djob \<Rightarrow> bool" where
  "job_kept j j' \<longleftrightarrow>
     jb_id j' = jb_id j \<and> jb_tenant j' = jb_tenant j \<and> jb_actor j' = jb_actor j
     \<and> rq_operation_id (jb_request j') = rq_operation_id (jb_request j)
     \<and> jb_attempts j \<le> jb_attempts j'
     \<and> pj_id (jb_project j') = pj_id (jb_project j)
     \<and> (jb_manifest j \<noteq> None \<longrightarrow> jb_manifest j' = jb_manifest j \<and> jb_project j' = jb_project j)"

definition job_moves :: "job_store \<Rightarrow> djob \<Rightarrow> djob \<Rightarrow> bool" where
  "job_moves s j j' \<longleftrightarrow> job_kept j j'
     \<and> (fine j \<and> current_policy s j \<longrightarrow> fine j' \<and> current_policy s j')"

definition row_moves :: "job_store \<Rightarrow> job_row \<Rightarrow> job_row \<Rightarrow> bool" where
  "row_moves s r r' \<longleftrightarrow> job_moves s (jr_job r) (jr_job r')"

definition idle_move :: "job_row \<Rightarrow> job_row \<Rightarrow> bool" where
  "idle_move r r' \<longleftrightarrow>
     (jr_owner r' \<noteq> [] \<and> running (jb_state (jr_job r')) \<longrightarrow>
        jr_owner r' = jr_owner r \<and> running (jb_state (jr_job r)))"

definition moved :: "job_store \<Rightarrow> job_store \<Rightarrow> bool" where
  "moved s t \<longleftrightarrow> map fst (jobs t) = map fst (jobs s)
     \<and> (\<forall>i r r'. map_of (jobs s) i = Some r \<and> map_of (jobs t) i = Some r' \<longrightarrow> row_moves s r r')"

definition moved_idle :: "job_store \<Rightarrow> job_store \<Rightarrow> bool" where
  "moved_idle s t \<longleftrightarrow> moved s t
     \<and> (\<forall>i r r'. map_of (jobs s) i = Some r \<and> map_of (jobs t) i = Some r' \<longrightarrow> idle_move r r')"

text \<open>What the cached policy decision of a grant depends on.\<close>

definition grant_core :: "grant \<Rightarrow> rstr \<times> rstr \<times> rstr \<times> grant_file list" where
  "grant_core g = (gr_tenant g, gr_link_id g, gr_upload_id g, gr_files g)"

definition policy_kept :: "job_store \<Rightarrow> job_store \<Rightarrow> bool" where
  "policy_kept s t \<longleftrightarrow> projects t = projects s \<and> policy_cache t = policy_cache s
     \<and> set (receive_uploads t) \<subseteq> set (receive_uploads s)
     \<and> (\<forall>l u tenant. (l, u) \<in> set (receive_uploads s) \<and> map_of (links t) l = Some tenant \<longrightarrow>
          map_of (links s) l = Some tenant)
     \<and> (\<forall>i. map_option grant_core (map_of (grants t) i) = map_option grant_core (map_of (grants s) i))"

lemma same_keys:
  "map fst xs = map fst ys \<Longrightarrow> (map_of xs i = None) = (map_of ys i = None)"
  by (metis list.set_map map_of_eq_None_iff)

lemma moved_row:
  assumes "moved s t" and "map_of (jobs t) i = Some r'"
  obtains r where "map_of (jobs s) i = Some r" and "row_moves s r r'"
proof -
  from assms have "map_of (jobs s) i \<noteq> None"
    using same_keys [of "jobs t" "jobs s" i] by (auto simp: moved_def)
  then obtain r where "map_of (jobs s) i = Some r" by auto
  with assms that show ?thesis by (auto simp: moved_def)
qed

lemma current_policy_projects: "projects t = projects s \<Longrightarrow> current_policy t j = current_policy s j"
  by (simp add: current_policy_def project_in_def)

lemma moved_rows_ok:
  assumes m: "moved s t" and p: "projects t = projects s" and ok: "rows_ok s"
  shows "rows_ok t"
proof -
  have "jb_id (jr_job r') = i \<and> fine (jr_job r') \<and> current_policy t (jr_job r')"
    if r': "map_of (jobs t) i = Some r'" for i r'
  proof -
    from m r' obtain r where r: "map_of (jobs s) i = Some r" "row_moves s r r'" by (rule moved_row)
    with ok show ?thesis
      by (auto simp: rows_ok_def row_moves_def job_moves_def job_kept_def current_policy_projects [OF p])
  qed
  moreover have "hm_ok (jobs t)"
    using m ok by (simp add: moved_def rows_ok_def hm_ok_def)
  ultimately show ?thesis by (simp add: rows_ok_def)
qed

lemma moved_operations_ok:
  assumes m: "moved s t" and ok: "operations_ok s"
  shows "operations_ok t"
proof -
  have "i = k" if i: "map_of (jobs t) i = Some r'" and k: "map_of (jobs t) k = Some q'"
    and same: "same_operation (jb_tenant (jr_job r')) (jb_actor (jr_job r'))
            (rq_operation_id (jb_request (jr_job r'))) (jr_job q')" for i r' k q'
  proof -
    from m i obtain r where r: "map_of (jobs s) i = Some r" "row_moves s r r'" by (rule moved_row)
    from m k obtain q where q: "map_of (jobs s) k = Some q" "row_moves s q q'" by (rule moved_row)
    have "same_operation (jb_tenant (jr_job r)) (jb_actor (jr_job r))
            (rq_operation_id (jb_request (jr_job r))) (jr_job q)"
      using same r(2) q(2) by (simp add: same_operation_def row_moves_def job_moves_def job_kept_def)
    with ok r(1) q(1) show ?thesis unfolding operations_ok_def by blast
  qed
  then show ?thesis unfolding operations_ok_def by blast
qed

lemma finite_load_set: "finite (load_set s tenant owner)"
  by (rule finite_subset [of _ "fst ` set (jobs s)"])
    (auto simp: load_set_def dest!: map_of_SomeD intro: rev_image_eqI)

lemma moved_idle_loads_ok:
  assumes m: "moved_idle s t" and ok: "loads_ok s"
  shows "loads_ok t"
  unfolding loads_ok_def
proof (intro allI impI)
  fix tenant owner :: rstr
  assume o: "owner \<noteq> []"
  from m have mv: "moved s t" by (simp add: moved_idle_def)
  have "load_set t tenant owner \<subseteq> load_set s tenant owner"
  proof
    fix i assume "i \<in> load_set t tenant owner"
    then obtain r' where r': "map_of (jobs t) i = Some r'" "jb_tenant (jr_job r') = tenant"
        "jr_owner r' = owner" "running (jb_state (jr_job r'))"
      by (auto simp: load_set_def)
    from mv r'(1) obtain r where r: "map_of (jobs s) i = Some r" "row_moves s r r'" by (rule moved_row)
    from m r r'(1) have "idle_move r r'" by (simp add: moved_idle_def)
    with r' r o show "i \<in> load_set s tenant owner"
      by (auto simp: load_set_def idle_move_def row_moves_def job_moves_def job_kept_def)
  qed
  then have "card (load_set t tenant owner) \<le> card (load_set s tenant owner)"
    by (rule card_mono [OF finite_load_set])
  with ok o show "card (load_set t tenant owner) \<le> 2"
    unfolding loads_ok_def using order_trans by blast
qed

lemma policy_kept_cache_ok:
  assumes k: "policy_kept s t" and ok: "cache_ok lib s"
  shows "cache_ok lib t"
proof -
  have core: "map_option grant_core (map_of (grants t) i) = map_option grant_core (map_of (grants s) i)" for i
    using k by (simp add: policy_kept_def)
  have "policy_protects lib s i" if pp: "policy_protects lib t i" for i
  proof -
    from pp obtain g where g: "map_of (grants t) i = Some g"
      by (auto simp: policy_protects_def split: option.splits)
    from core [of i] g obtain g' where g': "map_of (grants s) i = Some g'" "grant_core g = grant_core g'"
      by (cases "map_of (grants s) i") auto
    have tp: "tenant_projects t = tenant_projects s"
      using k by (simp add: policy_kept_def tenant_projects_def fun_eq_iff)
    have "received_requires_workflow t (gr_tenant g) (gr_link_id g) (gr_upload_id g) \<Longrightarrow>
        received_requires_workflow s (gr_tenant g) (gr_link_id g) (gr_upload_id g)"
      using k by (auto simp: received_requires_workflow_def policy_kept_def)
    with pp g g' tp show ?thesis by (auto simp: policy_protects_def grant_core_def)
  qed
  moreover have "map_of (grants t) i \<noteq> None \<longleftrightarrow> map_of (grants s) i \<noteq> None" for i
    using core [of i] by (cases "map_of (grants t) i"; cases "map_of (grants s) i") auto
  moreover have "policy_cache t = policy_cache s"
    using k by (simp add: policy_kept_def)
  ultimately show ?thesis
    using ok unfolding cache_ok_def by metis
qed

lemma idle_step_ok:
  assumes "moved_idle s t" and "policy_kept s t" and "jobs_ok lib s"
  shows "jobs_ok lib t"
  using assms moved_rows_ok [of s t] moved_operations_ok [of s t] moved_idle_loads_ok [of s t]
    policy_kept_cache_ok [of s t lib]
  by (auto simp: jobs_ok_def moved_idle_def policy_kept_def projects_ok_def)

section \<open>Operations on one row\<close>

lemma job_in_Some: "job_in s i = Some j \<longleftrightarrow> (\<exists>r. map_of (jobs s) i = Some r \<and> jr_job r = j)"
  by (auto simp: job_in_def)

lemma job_ok:
  assumes "jobs_ok lib s" and "job_in s i = Some j"
  shows "jb_id j = i" and "fine j" and "current_policy s j"
  using assms by (auto simp: jobs_ok_def rows_ok_def job_in_Some)

text \<open>
  The shape of almost every operation: the row of job \<open>i\<close> is rewritten, the rest of the store
  that the invariant reads stays.
\<close>

definition row_write :: "job_store \<Rightarrow> rstr \<Rightarrow> (job_row \<Rightarrow> job_row) \<Rightarrow> job_store \<Rightarrow> bool" where
  "row_write s i f t \<longleftrightarrow> jobs t = jobs (update_row i f s) \<and> policy_kept s t"

lemma row_write_moved:
  assumes "row_write s i f t" and "map_of (jobs s) i = Some r" and "row_moves s r (f r)"
    and refl: "\<And>k q. map_of (jobs s) k = Some q \<Longrightarrow> row_moves s q q"
  shows "moved s t"
  using assms by (auto simp: moved_def row_write_def update_row_keys update_row_rows split: if_splits)

lemma row_moves_refl [simp]: "row_moves s r r"
  by (simp add: row_moves_def job_moves_def job_kept_def)

lemma idle_move_refl [simp]: "idle_move r r"
  by (simp add: idle_move_def)

lemma row_write_idle:
  assumes "row_write s i f t" and "map_of (jobs s) i = Some r" and "row_moves s r (f r)"
    and "idle_move r (f r)"
  shows "moved_idle s t \<and> policy_kept s t"
proof -
  have "moved s t" using assms by (intro row_write_moved) auto
  with assms show ?thesis
    by (auto simp: moved_idle_def row_write_def update_row_rows split: if_splits)
qed

lemma policy_kept_refl [simp]: "policy_kept s s"
  by (simp add: policy_kept_def)

lemma policy_kept_row [row_simps]: "policy_kept s (update_row i f t) = policy_kept s t"
  by (simp add: policy_kept_def row_simps)

lemma policy_kept_event [row_simps]: "policy_kept s (delivery_event a b c t) = policy_kept s t"
  by (simp add: policy_kept_def row_simps)

lemma row_write_row [row_simps]: "row_write s i f (update_row i f s)"
  by (simp add: row_write_def row_simps)

lemma row_write_event [row_simps]: "row_write s i f (delivery_event a b c t) = row_write s i f t"
  by (simp add: row_write_def row_simps)

lemma moved_idle_refl: "moved_idle s s"
  by (metis moved_idle_def moved_def row_moves_refl idle_move_refl option.inject)

text \<open>The rule the operations below are proved by.\<close>

lemma write_idle:
  assumes ok: "jobs_ok lib s" and j: "job_in s i = Some j" and w: "row_write s i f t"
    and f: "\<And>r. jr_job r = j \<Longrightarrow> jr_job (f r) = j'"
    and o: "\<And>r. jr_job r = j \<Longrightarrow> jr_owner (f r) = [] \<or> \<not> running (jb_state j')
              \<or> (jr_owner (f r) = jr_owner r \<and> running (jb_state j))"
    and m: "jb_id j = i \<Longrightarrow> fine j \<Longrightarrow> current_policy s j \<Longrightarrow> job_kept j j' \<and> fine j' \<and> current_policy s j'"
  shows "moved_idle s t \<and> policy_kept s t"
proof -
  from j obtain r where r: "map_of (jobs s) i = Some r" "jr_job r = j" by (auto simp: job_in_Some)
  show ?thesis
    using job_ok [OF ok j] m f [OF r(2)] o [OF r(2)] r(2)
    by (intro row_write_idle [OF w r(1)]) (auto simp: row_moves_def job_moves_def idle_move_def)
qed

lemma kept_refl [simp]: "job_kept j j"
  by (simp add: job_kept_def)

text \<open>\<open>fine\<close> and \<open>current\_policy\<close> read only some fields.\<close>

lemma fine_checks: "ck_released_at c = ck_released_at (jb_checks j) \<Longrightarrow> fine (j\<lparr>jb_checks := c\<rparr>) = fine j"
  by (simp add: fine_def)

lemma same_fields:
  "current_policy s (j\<lparr>jb_checks := c\<rparr>) = current_policy s j"
  "current_policy s (j\<lparr>jb_state := st\<rparr>) = current_policy s j"
  "fine (j\<lparr>jb_updated_at := n\<rparr>) = fine j"
  "current_policy s (j\<lparr>jb_updated_at := n\<rparr>) = current_policy s j"
  "fine (j\<lparr>jb_error := e\<rparr>) = fine j"
  "current_policy s (j\<lparr>jb_error := e\<rparr>) = current_policy s j"
  "fine (j\<lparr>jb_attempts := a\<rparr>) = fine j"
  "current_policy s (j\<lparr>jb_attempts := a\<rparr>) = current_policy s j"
  "fine (j\<lparr>jb_token_generation := g\<rparr>) = fine j"
  "current_policy s (j\<lparr>jb_token_generation := g\<rparr>) = current_policy s j"
  "fine (j\<lparr>jb_reprocessed_as := k\<rparr>) = fine j"
  "current_policy s (j\<lparr>jb_reprocessed_as := k\<rparr>) = current_policy s j"
  "current_policy s (j\<lparr>jb_request := r\<rparr>) = current_policy s j"
  "current_policy s (j\<lparr>jb_manifest := m\<rparr>) = current_policy s j"
  "current_policy s (j\<lparr>jb_approved_by := x\<rparr>) = current_policy s j"
  by (simp_all add: fine_def current_policy_def)

lemma fine_ended: "fine j \<Longrightarrow> st \<in> {Cancelled, Retiring, Retired, Suspended} \<Longrightarrow> fine (j\<lparr>jb_state := st\<rparr>)"
  by (elim insertE emptyE) (simp_all add: fine_def)

lemma fine_failed:
  "fine j \<Longrightarrow> jb_state j \<in> {Queued, Preparing, Exporting, Retrying} \<Longrightarrow> fine (j\<lparr>jb_state := Failed\<rparr>)"
  by (elim insertE emptyE) (simp_all add: fine_def)

lemma fine_exported:
  "fine j \<Longrightarrow> jb_state j \<in> {Exporting, Retrying} \<Longrightarrow> st \<in> {Exporting, Retrying, Ready}
   \<Longrightarrow> fine (j\<lparr>jb_state := st\<rparr>)"
  by (elim insertE emptyE) (simp_all add: fine_def)

lemma fine_again:
  assumes "fine j" and "jb_manifest j \<noteq> None" and "jb_state j \<in> {Failed, Retrying}"
  shows "fine (j\<lparr>jb_state := Exporting\<rparr>)"
  using assms by (auto simp: fine_def)

lemma fine_unprepared:
  assumes "fine j" and "jb_manifest j = None" and "st \<in> {Queued, Preparing}"
    and "recipients_ok (jb_project j) (jb_request j)"
  shows "fine (j\<lparr>jb_state := st\<rparr>)"
  using assms by (auto simp: fine_def)

section \<open>Each operation\<close>

lemma update_destination [simp]:
  "jb_id (set_destination d x j) = jb_id j" "jb_state (set_destination d x j) = jb_state j"
  "job_kept j (set_destination d x j)" "fine (set_destination d x j) = fine j"
  "current_policy s (set_destination d x j) = current_policy s j"
  "jb_tenant (set_destination d x j) = jb_tenant j"
  "jb_project (set_destination d x j) = jb_project j" "jb_actor (set_destination d x j) = jb_actor j"
  "jb_request (set_destination d x j) = jb_request j" "jb_attempts (set_destination d x j) = jb_attempts j"
  "jb_manifest (set_destination d x j) = jb_manifest j"
  by (simp_all add: set_destination_def job_kept_def fine_checks same_fields)

lemma export_in_job: "export_in i attempt now s = Inr j \<Longrightarrow> job_in s i = Some j \<and> jb_state j = Exporting"
  unfolding export_in_def
  by (simp split: option.split_asm if_split_asm sum.split_asm unit.split_asm)

text \<open>Two shapes of writing back a job: its row keeps its owner, or loses it.\<close>

lemma save_idle:
  assumes "jobs_ok lib s" and "job_in s i = Some j" and "row_write s i (\<lambda>r. r\<lparr>jr_job := j'\<rparr>) t"
    and "running (jb_state j') \<Longrightarrow> running (jb_state j)"
    and "jb_id j = i \<Longrightarrow> fine j \<Longrightarrow> current_policy s j \<Longrightarrow> job_kept j j' \<and> fine j' \<and> current_policy s j'"
  shows "moved_idle s t \<and> policy_kept s t"
  using assms by (intro write_idle [OF assms(1-3), where j' = j']) auto

lemma disown_idle:
  assumes "jobs_ok lib s" and "job_in s i = Some j"
    and "row_write s i (\<lambda>r. r\<lparr>jr_owner := [], jr_job := j'\<rparr>) t"
    and "jb_id j = i \<Longrightarrow> fine j \<Longrightarrow> current_policy s j \<Longrightarrow> job_kept j j' \<and> fine j' \<and> current_policy s j'"
  shows "moved_idle s t \<and> policy_kept s t"
  using assms by (intro write_idle [OF assms(1-3), where j' = j']) auto

lemma reserve_idle:
  assumes "reserve_delivery_snapshot i attempt bytes limit s = Inr t" and ok: "jobs_ok lib s"
  shows "moved_idle s t \<and> policy_kept s t"
proof -
  from assms(1) obtain j where j: "job_in s i = Some j" and st: "jb_state j = Preparing"
    and t: "t = save_job (j\<lparr>jb_checks := (jb_checks j)\<lparr>ck_snapshot_bytes := bytes\<rparr>\<rparr>) s"
    by (auto simp: reserve_delivery_snapshot_def split: option.splits if_splits)
  show ?thesis
    by (rule save_idle [OF ok j, where j' = "j\<lparr>jb_checks := (jb_checks j)\<lparr>ck_snapshot_bytes := bytes\<rparr>\<rparr>"])
      (simp_all add: t row_simps job_ok(1) [OF ok j] st job_kept_def fine_checks same_fields)
qed

lemma fail_destination_idle:
  assumes "fail_delivery_destination i attempt d err now s = Inr t" and ok: "jobs_ok lib s"
  shows "moved_idle s t \<and> policy_kept s t"
proof -
  from assms(1) obtain j where e: "export_in i attempt now s = Inr j"
    and t: "t = delivery_event (jb_tenant j) i (lit ''destination_failed'')
                (save_job (set_destination d (DestFailed (take 500 err)) j) s)"
    by (auto simp: fail_delivery_destination_def split: sum.splits if_splits)
  note j = export_in_job [OF e, THEN conjunct1]
  show ?thesis
    by (rule save_idle [OF ok j, where j' = "set_destination d (DestFailed (take 500 err)) j"])
      (simp_all add: t row_simps job_ok(1) [OF ok j] export_in_job [OF e])
qed

lemma route_progress_idle:
  assumes ok: "jobs_ok lib s"
  shows "moved_idle s (route_progress i attempt d n s) \<and> policy_kept s (route_progress i attempt d n s)"
proof (cases "\<exists>j. job_in s i = Some j \<and> jb_state j = Exporting \<and> jb_attempts j = attempt")
  case True
  then obtain j where j: "job_in s i = Some j" "jb_state j = Exporting" "jb_attempts j = attempt" by blast
  show ?thesis
    by (rule save_idle [OF ok j(1), where j' = "set_destination d (DestSending n) j"])
      (simp_all add: route_progress_def j row_simps job_ok(1) [OF ok j(1)])
next
  case False
  then have "route_progress i attempt d n s = s" by (auto simp: route_progress_def split: option.split)
  then show ?thesis by (simp add: moved_idle_refl)
qed

lemma complete_export_idle:
  assumes "complete_delivery_export i attempt d key now s = Inr t" and ok: "jobs_ok lib s"
  shows "moved_idle s t \<and> policy_kept s t"
proof -
  let ?u = "\<lambda>j. set_destination d (DestComplete key now) j"
  from assms(1) obtain j where e: "export_in i attempt now s = Inr j"
    and t: "t = delivery_event (jb_tenant j) i (lit ''destination_completed'')
                (save_job ((if list_all (destination_complete (?u j)) (pj_destinations (jb_project j))
                  then (?u j)\<lparr>jb_state := Ready\<rparr> else ?u j)\<lparr>jb_updated_at := now\<rparr>) s)"
    by (auto simp: complete_delivery_export_def Let_def split: sum.splits if_splits)
  note j = export_in_job [OF e, THEN conjunct1]
  have st: "jb_state j = Exporting" using export_in_job [OF e] by simp
  show ?thesis
    by (rule save_idle [OF ok j, where j' = "(if list_all (destination_complete (?u j)) (pj_destinations (jb_project j))
                  then (?u j)\<lparr>jb_state := Ready\<rparr> else ?u j)\<lparr>jb_updated_at := now\<rparr>"])
      (simp_all add: t row_simps job_ok(1) [OF ok j] st job_kept_def same_fields fine_exported running_def)
qed

lemma failed_job_fine:
  assumes "fine j" and "running (jb_state j)"
  shows "fine (failed_job err now j)"
proof -
  have "fine (j\<lparr>jb_state := (if retries j then Retrying else Failed)\<rparr>)"
    using assms by (auto simp: running_def retries_def intro!: fine_exported fine_failed)
  then show ?thesis by (simp add: failed_job_def same_fields fine_checks)
qed

lemma failed_job_kept: "job_kept j (failed_job err now j)"
  "current_policy s (failed_job err now j) = current_policy s j" "jb_id (failed_job err now j) = jb_id j"
  "\<not> running (jb_state (failed_job err now j))"
  by (simp_all add: failed_job_def job_kept_def same_fields running_def)

lemma fail_job_idle:
  assumes ok: "jobs_ok lib s"
  shows "moved_idle s (fail_delivery_job i attempt err now s) \<and> policy_kept s (fail_delivery_job i attempt err now s)"
proof (cases "\<exists>j. job_in s i = Some j \<and> running (jb_state j) \<and> jb_attempts j = attempt")
  case False
  then have "fail_delivery_job i attempt err now s = s"
    by (auto simp: fail_delivery_job_def split: option.splits)
  then show ?thesis by (simp add: moved_idle_refl)
next
  case True
  then obtain j where j: "job_in s i = Some j" and st: "running (jb_state j)" "jb_attempts j = attempt" by auto
  let ?f = "\<lambda>r. (if retries j then r\<lparr>jr_not_before := sat_add now (backoff j)\<rparr> else r)\<lparr>jr_job := failed_job err now j\<rparr>"
  have "row_write s i ?f (fail_delivery_job i attempt err now s)"
    using j st by (simp add: fail_delivery_job_def row_simps failed_job_kept set_not_before_def
      job_ok(1) [OF ok j] comp_def)
  then show ?thesis
    by (rule write_idle [OF ok j, where j' = "failed_job err now j"])
      (simp_all add: failed_job_kept failed_job_fine st)
qed

lemma remove_recipient_idle:
  assumes "remove_delivery_recipient tenant i actor administrator holder now s = Inr (k, t)" and ok: "jobs_ok lib s"
  shows "moved_idle s t \<and> policy_kept s t"
proof -
  let ?r = "\<lambda>j. (jb_request j)\<lparr>rq_recipients := filter (\<lambda>x. x \<noteq> holder) (rq_recipients (jb_request j))\<rparr>"
  from assms(1) obtain j where j: "job_in s i = Some j"
    and more: "\<not> list_all (\<lambda>x. x = holder) (rq_recipients (jb_request j))"
    and t: "t = delivery_event tenant i (lit ''recipient_removed'')
             (save_job (j\<lparr>jb_request := ?r j, jb_updated_at := now\<rparr>) s)"
    by (auto simp: remove_delivery_recipient_def Let_def split: option.splits if_splits)
  have "recipients_ok p (jb_request j) \<Longrightarrow> recipients_ok p (?r j)" for p
    using more by (auto simp: recipients_ok_def list_all_iff filter_empty_conv)
  then have f: "fine j \<Longrightarrow> fine (j\<lparr>jb_request := ?r j, jb_updated_at := now\<rparr>)"
    by (auto simp: fine_def)
  show ?thesis
    by (rule save_idle [OF ok j, where j' = "j\<lparr>jb_request := ?r j, jb_updated_at := now\<rparr>"])
      (use f in \<open>simp_all add: t row_simps job_ok(1) [OF ok j] job_kept_def same_fields\<close>)
qed

lemma policy_kept_grant:
  assumes "map_of (grants s) i = Some g" and "grant_core g' = grant_core g"
  shows "policy_kept s (set_grant i g' s)"
  using assms by (simp add: policy_kept_def set_grant_def hmap_simps)

lemma jobs_set_grant [simp]: "jobs (set_grant i g s) = jobs s"
  by (simp add: set_grant_def)

lemma update_row_set_grant: "jobs (update_row i f (set_grant k g s)) = jobs (update_row i f s)"
  by (simp add: update_row_def split: option.split)

lemma rotate_idle:
  assumes "rotate_delivery_job_token slib tenant i generation token now s = Inr (b, t)" and ok: "jobs_ok lib s"
  shows "moved_idle s t \<and> policy_kept s t"
proof (cases "t = s")
  case True
  then show ?thesis by (simp add: moved_idle_refl)
next
  case False
  let ?h = "hash_token slib token"
  let ?u = "\<lambda>j. j\<lparr>jb_token_generation := jb_token_generation j + 1, jb_updated_at := now\<rparr>"
  from assms(1) False obtain j g where j: "job_in s i = Some j" and g: "map_of (grants s) i = Some g"
    and t: "t = delivery_event tenant i (lit ''delivery_link_rotated'') (save_job (?u j)
             (update_row i (\<lambda>r. r\<lparr>jr_token := token\<rparr>) (set_grant i (g\<lparr>gr_token_hash := ?h\<rparr>) s)))"
    unfolding rotate_delivery_job_token_def
    by (simp split: option.split_asm if_split_asm)
  have "policy_kept s (set_grant i (g\<lparr>gr_token_hash := ?h\<rparr>) s)"
    by (rule policy_kept_grant [OF g]) (simp add: grant_core_def)
  then show ?thesis
    by (intro write_idle [OF ok j, where j' = "?u j" and f = "\<lambda>r. r\<lparr>jr_token := token, jr_job := ?u j\<rparr>"])
      (simp_all add: t row_simps job_ok(1) [OF ok j] job_kept_def same_fields row_write_def comp_def
        update_row_set_grant)
qed

lemma complete_retirement_idle:
  assumes "complete_snapshot_retirement i now s = Inr t" and ok: "jobs_ok lib s"
  shows "moved_idle s t \<and> policy_kept s t"
proof (cases "job_in s i")
  case None
  with assms(1) show ?thesis by (simp add: complete_snapshot_retirement_def moved_idle_refl)
next
  case (Some j)
  let ?j = "j\<lparr>jb_state := Retired, jb_updated_at := now,
       jb_checks := (jb_checks j)\<lparr>ck_snapshot_bytes := 0, ck_snapshot_purged_at := Some now\<rparr>\<rparr>"
  from assms(1) Some have t: "t = delivery_event (jb_tenant j) i (lit ''delivery_retired'') (save_job ?j s)"
    by (simp add: complete_snapshot_retirement_def split: if_split_asm)
  have f: "fine j \<Longrightarrow> fine ?j" by (auto simp: fine_def)
  show ?thesis
    by (rule save_idle [OF ok Some, where j' = ?j])
      (use f in \<open>simp_all add: t row_simps job_ok(1) [OF ok Some] job_kept_def same_fields running_def\<close>)
qed

lemma row_job:
  assumes "jobs_ok lib s" and "(i, r) \<in> set (jobs s)"
  shows "job_in s i = Some (jr_job r)"
  using assms by (auto simp: job_in_Some jobs_ok_def rows_ok_def hm_ok_def)

lemma claim_retirement_idle:
  assumes "claim_snapshot_retirement now s = (k, t)" and ok: "jobs_ok lib s"
  shows "moved_idle s t \<and> policy_kept s t"
proof (cases "min_by_key retirement_key (filter (retirement_due s (now - 7 * 86400)) (jobs s))")
  case None
  with assms(1) show ?thesis by (simp add: claim_snapshot_retirement_def moved_idle_refl)
next
  case (Some x)
  obtain i r where x: "x = (i, r)" by (cases x)
  let ?j = "jr_job r"
  from min_by_key_in [OF Some] have j: "job_in s i = Some ?j"
    using row_job [OF ok, of i r] by (simp add: x)
  have t: "t = save_job (retiring_job now ?j) s"
    using assms(1) Some by (simp add: claim_snapshot_retirement_def x)
  show ?thesis
    by (rule save_idle [OF ok j, where j' = "retiring_job now ?j"])
      (simp_all add: t row_simps retiring_job_def job_ok(1) [OF ok j] job_kept_def same_fields running_def
        fine_checks fine_ended)
qed

subsection \<open>Approve, cancel, retry\<close>

lemma policy_agrees:
  assumes "current_policy s j" and "project_in s (jb_tenant j) (pj_id (jb_project j)) = Some p"
    and "pj_revision p = pj_revision (jb_project j)"
  shows "same_delivery_policy (jb_project j) p"
  using assms by (simp add: current_policy_def)

lemma same_policy_iff:
  "same_delivery_policy p q \<longleftrightarrow>
     pj_id p = pj_id q \<and> pj_revision p = pj_revision q \<and> pj_label p = pj_label q
     \<and> pj_directory p = pj_directory q \<and> pj_members p = pj_members q \<and> pj_recipients p = pj_recipients q
     \<and> pj_allowed_domains p = pj_allowed_domains q \<and> pj_require_approval p = pj_require_approval q
     \<and> pj_required_metadata p = pj_required_metadata q \<and> pj_sequence p = pj_sequence q
     \<and> pj_media p = pj_media q \<and> pj_scan_required p = pj_scan_required q
     \<and> pj_destinations p = pj_destinations q \<and> pj_receive p = pj_receive q \<and> pj_release p = pj_release q"
  by (cases p; cases q) (auto simp: same_delivery_policy_def)

lemma same_policy_fields:
  assumes "same_delivery_policy p q"
  shows "pj_require_approval p = pj_require_approval q" "pj_recipients p = pj_recipients q"
    "pj_destinations p = pj_destinations q" "pj_release p = pj_release q" "pj_id p = pj_id q"
    "pj_directory p = pj_directory q"
  using assms by (simp_all add: same_policy_iff)

lemma approve_fine:
  assumes "approve_job p actor administrator manifest now s j = Inr j'" and "fine j"
  shows "fine j' \<and> job_kept j j' \<and> (current_policy s j \<longrightarrow> current_policy s j')"
proof -
  from assms(1) have j': "j' = approved_job p actor now j" and w: "jb_state j = AwaitingApproval"
    and a: "actor \<noteq> jb_actor j" "jb_actor_human j \<noteq> Some actor"
      "\<not> starts_with actor (lit ''automation:'')"
    unfolding approve_job_def by (auto split: if_split_asm sum.split_asm unit.split_asm)
  from assms(2) w have "jb_manifest j \<noteq> None" "recipients_ok (jb_project j) (jb_request j)"
    by (simp_all add: fine_def)
  with a have "fine j'" by (auto simp: j' fine_def approved_job_def)
  then show ?thesis by (simp add: j' approved_job_def job_kept_def same_fields)
qed

lemma cancel_fine:
  assumes "cancel_job p actor administrator j = Inr (Some j')" and "fine j"
  shows "fine j' \<and> job_kept j j' \<and> (current_policy s j \<longrightarrow> current_policy s j')"
proof -
  from assms(1) have "j' = j\<lparr>jb_state := Cancelled\<rparr>"
    by (simp add: cancel_job_def split: if_split_asm)
  with assms(2) show ?thesis by (simp add: fine_ended job_kept_def same_fields)
qed

lemma validate_job_recipients:
  assumes "validate_job p r now = Inr ()"
  shows "recipients_ok p r"
  using validate_job_parts(2,3) [OF assms] by (fastforce simp: recipients_ok_def list_ex_iff)

lemma repolicy_cases:
  assumes "repolicy s p j = Inr k"
  obtains (same) "k = j" "pj_revision p = pj_revision (jb_project j)"
  | (renewed) w where "k = renewed_job s p w j" "jb_manifest j = None"
  using assms by (auto simp: repolicy_def split: option.split_asm if_split_asm)

lemma retry_fine:
  assumes "retry_job p actor administrator now s j = Inr j'" and f: "fine j" and c: "current_policy s j"
    and p: "project_in s (jb_tenant j) (pj_id (jb_project j)) = Some p" and i: "pj_id p = pj_id (jb_project j)"
  shows "fine j' \<and> job_kept j j' \<and> current_policy s j'"
proof -
  from assms(1) obtain k where k: "repolicy s p j = Inr k" and j': "j' = retried_job k"
    and st: "jb_state j = Failed \<or> jb_state j = Retrying"
    and v: "validate_job p (jb_request k) (jb_created_at k) = Inr ()"
    unfolding retry_job_def by (auto split: if_split_asm sum.split_asm unit.split_asm)
  from k show ?thesis
  proof (cases rule: repolicy_cases)
    case same
    have "recipients_ok (jb_project j) (jb_request j)"
      using validate_job_recipients [OF v] same_policy_fields(2) [OF policy_agrees [OF c p same(2)]]
      by (simp add: same(1) recipients_ok_def)
    then have "fine j'"
      using f st by (auto simp: j' same(1) fine_def retried_job_def)
    with c show ?thesis by (simp add: j' same(1) retried_job_def job_kept_def same_fields)
  next
    case (renewed w)
    have "fine j'"
      using f st renewed(2) validate_job_recipients [OF v]
      by (auto simp: j' renewed(1) fine_def retried_job_def renewed_job_def trade_snapshot_def empty_checks_def)
    moreover have "current_policy s j'"
      using p i by (simp add: j' renewed(1) retried_job_def renewed_job_def current_policy_def same_delivery_policy_def)
    ultimately show ?thesis
      using i renewed(2) by (simp add: j' renewed(1) retried_job_def renewed_job_def job_kept_def)
  qed
qed

lemma project_id:
  assumes "jobs_ok lib s" and "project_in s t k = Some p"
  shows "pj_id p = k"
  using assms by (auto simp: jobs_ok_def projects_ok_def project_in_def)

lemma map_sum_Some: "map_sum id Some x = Inr (Some y) \<longleftrightarrow> x = Inr y"
  by (cases x) auto

lemma change_action_cases:
  assumes "change_action p actor administrator action manifest now s j = Inr (Some j')"
  obtains "approve_job p actor administrator manifest now s j = Inr j'"
  | "cancel_job p actor administrator j = Inr (Some j')"
  | "retry_job p actor administrator now s j = Inr j'"
  using assms that unfolding change_action_def by (simp add: map_sum_Some split: if_split_asm)

lemma change_idle:
  assumes "change_delivery_job tenant i actor administrator action manifest now s = Inr (k, t)" and ok: "jobs_ok lib s"
  shows "moved_idle s t \<and> policy_kept s t"
proof (cases "t = s")
  case True
  then show ?thesis by (simp add: moved_idle_refl)
next
  case False
  from assms(1) False obtain j p j' where j: "job_in s i = Some j" and tenant: "jb_tenant j = tenant"
    and p: "project_in s tenant (pj_id (jb_project j)) = Some p"
    and a: "change_action p actor administrator action manifest now s j = Inr (Some j')"
    and t: "t = delivery_event tenant i (lit ''delivery_'' @ action)
                  (save_job (j'\<lparr>jb_updated_at := now, jb_error := None\<rparr>) (set_owner i [] s))"
    unfolding change_delivery_job_def
    by (auto simp: Let_def split: option.split_asm if_split_asm sum.split_asm)
  note p' = p [folded tenant]
  have m: "fine j' \<and> job_kept j j' \<and> current_policy s j'"
    using a
  proof (cases rule: change_action_cases)
    case 1
    from approve_fine [OF this] job_ok(2,3) [OF ok j] show ?thesis by blast
  next
    case 2
    from cancel_fine [OF this] job_ok(2,3) [OF ok j] show ?thesis by blast
  next
    case 3
    from retry_fine [OF this job_ok(2,3) [OF ok j] p' project_id [OF ok p']] show ?thesis .
  qed
  have "jb_id j' = i" using m job_ok(1) [OF ok j] by (simp add: job_kept_def)
  then show ?thesis
    by (intro disown_idle [OF ok j, where j' = "j'\<lparr>jb_updated_at := now, jb_error := None\<rparr>"])
      (use m in \<open>simp_all add: t row_simps set_owner_def comp_def same_fields job_kept_def\<close>)
qed

end
