(* ===== verification/JobsSystem.thy ===== *)
theory JobsSystem
  imports JobsInvariant
begin

text \<open>
  The delivery job store as a transition system: one step per operation of \<open>JobOps\<close>, and one
  for the tables that other components write. Every step keeps the invariant \<open>jobs_ok\<close> and what
  \<open>job_kept\<close> says of each job; the properties of the store follow.
\<close>

section \<open>Good steps\<close>

definition evolves :: "job_store \<Rightarrow> job_store \<Rightarrow> bool" where
  "evolves s t \<longleftrightarrow> (\<forall>i j. job_in s i = Some j \<longrightarrow> (\<exists>j'. job_in t i = Some j' \<and> job_kept j j'))"

definition good_step :: "workflow_lib \<Rightarrow> job_store \<Rightarrow> job_store \<Rightarrow> bool" where
  "good_step lib s t \<longleftrightarrow> jobs_ok lib s \<longrightarrow> jobs_ok lib t \<and> evolves s t"

lemma job_kept_trans: "job_kept i j \<Longrightarrow> job_kept j k \<Longrightarrow> job_kept i k"
  by (auto simp: job_kept_def)

lemma evolves_trans: "evolves s t \<Longrightarrow> evolves t u \<Longrightarrow> evolves s u"
  unfolding evolves_def using job_kept_trans by blast

lemma evolves_refl [simp]: "evolves s s"
  by (simp add: evolves_def)

lemma good_step_refl [simp]: "good_step lib s s"
  by (simp add: good_step_def)

lemma good_step_trans: "good_step lib s t \<Longrightarrow> good_step lib t u \<Longrightarrow> good_step lib s u"
  unfolding good_step_def using evolves_trans by blast

lemma moved_evolves:
  assumes "moved s t"
  shows "evolves s t"
  unfolding evolves_def
proof (intro allI impI)
  fix i j assume "job_in s i = Some j"
  then obtain r where r: "map_of (jobs s) i = Some r" "jr_job r = j" by (auto simp: job_in_Some)
  with assms obtain r' where r': "map_of (jobs t) i = Some r'"
    using same_keys [of "jobs t" "jobs s" i] by (auto simp: moved_def)
  with assms r show "\<exists>j'. job_in t i = Some j' \<and> job_kept j j'"
    by (auto simp: job_in_def moved_def row_moves_def job_moves_def)
qed

lemma idle_good: "moved_idle s t \<and> policy_kept s t \<Longrightarrow> good_step lib s t"
  using idle_step_ok [of s t lib] moved_evolves [of s t] by (auto simp: good_step_def moved_idle_def)

text \<open>A step that leaves the jobs and the policy alone.\<close>

lemma same_jobs_idle: "jobs t = jobs s \<Longrightarrow> moved_idle s t"
  by (metis moved_idle_def moved_def row_moves_refl idle_move_refl option.inject)

lemma same_jobs_good: "jobs t = jobs s \<Longrightarrow> policy_kept s t \<Longrightarrow> good_step lib s t"
  by (intro idle_good conjI same_jobs_idle)

lemma jobs_ok_jobs_cong:
  "jobs t = jobs s \<Longrightarrow> operations_ok t = operations_ok s"
  "jobs t = jobs s \<Longrightarrow> loads_ok t = loads_ok s"
  "jobs t = jobs s \<Longrightarrow> projects t = projects s \<Longrightarrow> rows_ok t = rows_ok s"
  "projects t = projects s \<Longrightarrow> projects_ok lib t = projects_ok lib s"
  by (simp_all add: operations_ok_def loads_ok_def load_set_def rows_ok_def projects_ok_def
      current_policy_def project_in_def)

lemma evolves_jobs: "jobs t = jobs s \<Longrightarrow> evolves s t"
  by (metis evolves_def job_in_def kept_refl)

lemma new_cache_good:
  assumes "jobs t = jobs s" and "projects t = projects s"
    and "jobs_ok lib s \<Longrightarrow> cache_ok lib t"
  shows "good_step lib s t"
  using assms jobs_ok_jobs_cong [of t s] by (simp add: good_step_def jobs_ok_def evolves_jobs)

section \<open>Inserting a job\<close>

lemma insert_job_good:
  assumes ins: "insert_job j nb token s = Inr t" and f: "fine j"
    and c: "jobs_ok lib s \<Longrightarrow> current_policy s j"
  shows "good_step lib s t"
  unfolding good_step_def
proof (intro impI conjI)
  assume ok: "jobs_ok lib s"
  let ?r = "\<lparr>jr_owner = [], jr_not_before = nb, jr_token = token, jr_job = j\<rparr>"
  from ins have fresh: "map_of (jobs s) (jb_id j) = None"
    and op: "\<And>i r. (i, r) \<in> set (jobs s) \<Longrightarrow>
        \<not> same_operation (jb_tenant j) (jb_actor j) (rq_operation_id (jb_request j)) (jr_job r)"
    and t: "t = s\<lparr>jobs := (jb_id j, ?r) # jobs s\<rparr>"
    by (auto simp: insert_job_def list_ex_iff split: if_split_asm)
  have row: "map_of (jobs t) i = (if i = jb_id j then Some ?r else map_of (jobs s) i)" for i
    by (simp add: t)
  have cp: "current_policy t k = current_policy s k" for k
    by (simp add: t current_policy_def project_in_def)
  have "hm_ok (jobs t)"
    using ok fresh by (simp add: t hm_ok_def jobs_ok_def rows_ok_def map_of_eq_None_iff)
  then have "rows_ok t"
    using ok c [OF ok] f by (auto simp: rows_ok_def jobs_ok_def row cp split: if_split_asm)
  moreover have "loads_ok t"
  proof -
    have "load_set t tenant owner = load_set s tenant owner" if "owner \<noteq> []" for tenant owner
      using that fresh by (auto simp: load_set_def row split: if_split_asm)
    with ok show ?thesis by (auto simp: loads_ok_def jobs_ok_def)
  qed
  moreover have "operations_ok t"
  proof -
    have no: "\<not> same_operation (jb_tenant j) (jb_actor j) (rq_operation_id (jb_request j)) (jr_job r)"
      "\<not> same_operation (jb_tenant (jr_job r)) (jb_actor (jr_job r)) (rq_operation_id (jb_request (jr_job r))) j"
      if "map_of (jobs s) i = Some r" for i r
      using op [OF map_of_SomeD [OF that]] by (auto simp: same_operation_def)
    have "i = k" if "map_of (jobs t) i = Some r" "map_of (jobs t) k = Some r'"
        "same_operation (jb_tenant (jr_job r)) (jb_actor (jr_job r)) (rq_operation_id (jb_request (jr_job r))) (jr_job r')"
      for i r k r'
    proof (cases "i = jb_id j \<or> k = jb_id j")
      case True
      with that no show ?thesis by (auto simp: row split: if_split_asm)
    next
      case False
      with that have "map_of (jobs s) i = Some r" "map_of (jobs s) k = Some r'" by (simp_all add: row)
      moreover have "operations_ok s" using ok by (simp add: jobs_ok_def)
      ultimately show ?thesis using that(3) unfolding operations_ok_def by blast
    qed
    then show ?thesis unfolding operations_ok_def by blast
  qed
  moreover have "cache_ok lib t" and "projects_ok lib t"
  proof -
    have "policy_kept s t" by (simp add: t policy_kept_def)
    with ok show "cache_ok lib t" "projects_ok lib t"
      by (auto simp: jobs_ok_def projects_ok_def policy_kept_def intro: policy_kept_cache_ok)
  qed
  ultimately show "jobs_ok lib t" by (simp add: jobs_ok_def)
  show "evolves s t"
    using fresh by (auto simp: evolves_def job_in_def row split: if_split_asm)
qed

lemma event_good: "good_step lib t (delivery_event a b c t)"
  by (rule same_jobs_good) (simp_all add: row_simps)

lemma snapshot_unreleased: "ck_released_at (trade_snapshot s tenant p) = None"
  by (simp add: trade_snapshot_def empty_checks_def)

lemma stored_project_current:
  assumes "project_in s (jb_tenant j) k = Some p" and "jb_project j = p" and "pj_id p = k"
  shows "current_policy s j"
  using assms by (simp add: current_policy_def same_delivery_policy_def)

lemma enqueue_cases:
  assumes "enqueue_delivery_job tenant actor version automation p request now i token s = Inr (j, t)"
  obtains (previous) a r where
      "find (\<lambda>(_, r). same_operation tenant actor (rq_operation_id request) (jr_job r)) (jobs s) = Some (a, r)"
      "j = jr_job r" "t = s" "jb_request j = request"
  | (queued) u nb where
      "j = submitted_job tenant actor version automation p request now i s"
      "validate_job p request now = Inr ()" "project_in s tenant (pj_id p) = Some p"
      "insert_job j nb token s = Inr u"
      "t = delivery_event (jb_tenant j) (jb_id j) (lit ''delivery_queued'') u"
proof (cases "find (\<lambda>(_, r). same_operation tenant actor (rq_operation_id request) (jr_job r)) (jobs s)")
  case (Some x)
  obtain a r where x: "x = (a, r)" by (cases x)
  from assms Some have "j = jr_job r \<and> t = s \<and> jb_request j = request"
    by (auto simp: enqueue_delivery_job_def x split: sum.split_asm unit.split_asm if_split_asm)
  with Some previous x show ?thesis by blast
next
  case None
  let ?j = "submitted_job tenant actor version automation p request now i s"
  let ?nb = "case rq_not_before request of None \<Rightarrow> now | Some t \<Rightarrow> t"
  from assms None have "validate_job p request now = Inr ()" "project_in s tenant (pj_id p) = Some p"
    and sub: "submit_job ?j ?nb now token s = Inr (j, t)"
    by (simp_all add: enqueue_delivery_job_def split: sum.split_asm unit.split_asm if_split_asm)
  moreover from sub obtain u where "insert_job ?j ?nb token s = Inr u" "j = ?j"
      "t = delivery_event (jb_tenant ?j) (jb_id ?j) (lit ''delivery_queued'') u"
    by (auto simp: submit_job_def split: sum.split_asm unit.split_asm)
  ultimately show ?thesis using queued by blast
qed

lemma submitted_fields:
  "jb_tenant (submitted_job tenant actor version automation p request now i s) = tenant"
  "jb_actor (submitted_job tenant actor version automation p request now i s) = actor"
  "jb_request (submitted_job tenant actor version automation p request now i s) = request"
  "jb_project (submitted_job tenant actor version automation p request now i s) = p"
  "jb_id (submitted_job tenant actor version automation p request now i s) = i"
  by (simp_all add: submitted_job_def fresh_job_def)

lemma enqueue_good:
  assumes "enqueue_delivery_job tenant actor version automation p request now i token s = Inr (j, t)"
  shows "good_step lib s t"
  using assms
proof (cases rule: enqueue_cases)
  case (queued u nb)
  have "fine j"
    using validate_job_recipients [OF queued(2)]
    by (simp add: queued(1) submitted_job_def fine_def fresh_job_def snapshot_unreleased)
  moreover have "current_policy s j"
    by (rule stored_project_current [of _ _ "pj_id p" p]) (simp_all add: queued(1) submitted_fields queued(3))
  ultimately have "good_step lib s u" by (intro insert_job_good [OF queued(4)])
  then show ?thesis unfolding queued(5) by (rule good_step_trans) (rule event_good)
qed simp

section \<open>Receptions and the policy cache\<close>

lemma map_of_fold_update:
  "map_of (fold (\<lambda>(i, g) cache. if P g then AList.update i True cache else cache) gs cache) k
     = (if \<exists>g. (k, g) \<in> set gs \<and> P g then Some True else map_of cache k)"
  by (induction gs arbitrary: cache) (auto simp: hmap_simps)

lemma record_reception_good:
  assumes l: "map_of (links s) link = Some tenant"
  shows "good_step lib s (record_reception tenant link upload s)"
proof -
  let ?t = "record_reception tenant link upload s"
  let ?P = "\<lambda>g. gr_tenant g = tenant \<and> gr_link_id g = link \<and> gr_upload_id g = upload"
  have cache: "map_of (policy_cache ?t) i = (if \<exists>g. (i, g) \<in> set (grants s) \<and> ?P g then Some True
      else map_of (policy_cache s) i)" for i
    by (simp add: record_reception_def map_of_fold_update [where P = ?P])
  have "cache_ok lib ?t" if ok: "jobs_ok lib s"
  proof -
    have "map_of (grants s) i \<noteq> None \<and> (policy_protects lib ?t i \<longrightarrow> b)"
      if b: "map_of (policy_cache ?t) i = Some b" for i b
    proof (cases "\<exists>g. (i, g) \<in> set (grants s) \<and> ?P g")
      case True
      with b cache [of i] show ?thesis by (auto simp: map_of_eq_None_iff intro: rev_image_eqI)
    next
      case False
      with b cache [of i] have old: "map_of (policy_cache s) i = Some b" by simp
      have "policy_protects lib s i" if pp: "policy_protects lib ?t i"
      proof -
        from pp obtain g where g: "map_of (grants s) i = Some g"
          by (auto simp: policy_protects_def record_reception_def split: option.splits)
        with False have "\<not> ?P g" by (auto dest: map_of_SomeD)
        with l have "received_requires_workflow ?t (gr_tenant g) (gr_link_id g) (gr_upload_id g)
            \<longleftrightarrow> received_requires_workflow s (gr_tenant g) (gr_link_id g) (gr_upload_id g)"
          by (auto simp: received_requires_workflow_def record_reception_def)
        moreover have "tenant_projects ?t = tenant_projects s"
          by (simp add: tenant_projects_def record_reception_def fun_eq_iff)
        ultimately show ?thesis
          using pp g by (simp add: policy_protects_def record_reception_def)
      qed
      with ok old show ?thesis by (auto simp: jobs_ok_def cache_ok_def)
    qed
    moreover have "grants ?t = grants s" by (simp add: record_reception_def)
    ultimately show ?thesis unfolding cache_ok_def by metis
  qed
  then show ?thesis
    by (rule new_cache_good [rotated 2]) (simp_all add: record_reception_def)
qed

lemma reception_error_None:
  "reception_error s tenant p request now = None \<Longrightarrow> validate_job p request now = Inr ()"
  by (auto simp: reception_error_def split: if_split_asm sum.split_asm unit.split_asm)

lemma queue_received_good:
  assumes "queue_received error_text tenant link upload partly now i token s = Inr t"
  shows "good_step lib s t"
proof (cases "receive_workflow_in s tenant link")
  case None
  with assms show ?thesis by (simp add: queue_received_def)
next
  case (Some w)
  let ?s = "record_reception tenant link upload s"
  have l: "map_of (links s) link = Some tenant"
    using Some by (simp add: receive_workflow_in_def split: if_split_asm)
  note r = record_reception_good [OF l, of lib upload]
  show ?thesis
  proof (cases "t = ?s")
    case True
    with r show ?thesis by simp
  next
    case False
    from assms Some False obtain p where p: "project_in ?s tenant (rw_project_id w) = Some p"
      by (auto simp: queue_received_def Let_def split: if_split_asm option.split_asm)
    let ?q = "receive_request w upload (received_label (pj_label p))"
    let ?e = "reception_error ?s tenant p ?q now"
    let ?j = "(fresh_job i tenant (lit ''reception:'' @ link) 0 ?q p (trade_snapshot ?s tenant p) now)
               \<lparr>jb_state := (if ?e \<noteq> None then Failed else Queued), jb_error := map_option error_text ?e,
                jb_received := Some \<lparr>rv_link_id = link, rv_upload_id = upload\<rparr>\<rparr>"
    from assms Some False p obtain u where u: "insert_job ?j now token ?s = Inr u"
      and t: "t = delivery_event tenant i (lit ''reception_queued'') u"
      by (auto simp: queue_received_def Let_def split: if_split_asm sum.split_asm)
    have "fine ?j"
      using validate_job_recipients [OF reception_error_None, of ?s tenant p ?q now]
      by (cases ?e) (simp_all add: fine_def fresh_job_def snapshot_unreleased)
    moreover have "current_policy ?s ?j" if "jobs_ok lib ?s"
      by (rule stored_project_current [of _ _ "rw_project_id w" p])
        (simp_all add: fresh_job_def p project_id [OF that p])
    ultimately have "good_step lib ?s u" by (intro insert_job_good [OF u])
    with r have "good_step lib s u" by (rule good_step_trans)
    then show ?thesis unfolding t by (rule good_step_trans) (rule event_good)
  qed
qed

lemma cache_policy_good: "good_step lib s (cache_policy i (policy_protects lib s i) s)"
proof (cases "map_of (grants s) i")
  case None
  then show ?thesis by (simp add: cache_policy_def)
next
  case (Some g)
  let ?t = "cache_policy i (policy_protects lib s i) s"
  have "policy_protects lib ?t = policy_protects lib s"
    by (simp add: Some cache_policy_def policy_protects_def tenant_projects_def
        received_requires_workflow_def fun_eq_iff split: option.split)
  then have "cache_ok lib ?t" if "jobs_ok lib s"
    using that Some by (auto simp: cache_ok_def cache_policy_def jobs_ok_def hmap_simps split: if_split_asm)
  then show ?thesis
    by (rule new_cache_good [rotated 2]) (simp_all add: cache_policy_def Some)
qed

lemma release_good: "good_step lib s (snd (release_in lib i s))"
  using cache_policy_good [of lib s i] by (auto simp: release_in_def Let_def split: option.split)

lemma access_good: "good_step lib s (snd (delivery_access_in lib i h now s))"
  using release_good [of lib s i] by (auto simp: delivery_access_in_def split: option.split bool.split)

section \<open>Claiming and publishing\<close>

lemma filter_length_card:
  assumes "hm_ok m"
  shows "length (filter (\<lambda>(k, a). P k a) m) = card {k. \<exists>a. map_of m k = Some a \<and> P k a}"
proof -
  have d: "distinct (map fst (filter (\<lambda>(k, a). P k a) m))"
    using assms by (simp add: hm_ok_def distinct_map_filter)
  have "set (map fst (filter (\<lambda>(k, a). P k a) m)) = {k. \<exists>a. map_of m k = Some a \<and> P k a}"
    using assms by (force simp: hm_ok_def dest: map_of_SomeD)
  with distinct_card [OF d] show ?thesis by simp
qed

lemma owner_load_card:
  assumes "jobs_ok lib s"
  shows "owner_load s tenant owner i = card (load_set s tenant owner - {i})"
proof -
  have "hm_ok (jobs s)" using assms by (simp add: jobs_ok_def rows_ok_def)
  from filter_length_card [OF this, where P = "\<lambda>k a. jb_tenant (jr_job a) = tenant \<and> jr_owner a = owner
      \<and> running (jb_state (jr_job a)) \<and> k \<noteq> i"]
  show ?thesis
    unfolding owner_load_def load_set_def by (auto intro: arg_cong [where f = card])
qed

lemma claimed_moves:
  assumes "fine j" and "jb_state j \<in> {Queued, Retrying, Preparing, Exporting}"
  shows "fine (claimed now j) \<and> job_kept j (claimed now j) \<and> current_policy s (claimed now j) = current_policy s j
    \<and> jb_id (claimed now j) = jb_id j \<and> jb_tenant (claimed now j) = jb_tenant j"
proof -
  let ?x = "retry_attempts (j\<lparr>jb_attempts := jb_attempts j + 1\<rparr>) > 5"
  let ?st = "if ?x then Failed else if jb_manifest j \<noteq> None then Exporting else Preparing"
  let ?e = "if ?x then Some (lit ''job recovery limit reached; retry explicitly'') else None"
  have c: "claimed now j = j\<lparr>jb_state := ?st, jb_attempts := jb_attempts j + 1, jb_updated_at := now, jb_error := ?e\<rparr>"
    by (simp only: claimed_def Let_def)
  have "fine (j\<lparr>jb_state := Failed\<rparr>)" by (rule fine_failed [OF assms(1)]) (use assms(2) in auto)
  moreover have "fine (j\<lparr>jb_state := Exporting\<rparr>)" if "jb_manifest j \<noteq> None"
    by (rule fine_exported [OF assms(1)]) (use assms that in \<open>auto simp: fine_def\<close>)
  moreover have "fine (j\<lparr>jb_state := Preparing\<rparr>)" if "jb_manifest j = None"
    by (rule fine_unprepared [OF assms(1) that]) (use assms that in \<open>auto simp: fine_def\<close>)
  ultimately have "fine (claimed now j)" by (simp only: c same_fields) simp
  then show ?thesis by (simp add: c job_kept_def same_fields)
qed

lemma card_insert_Suc: "card (insert i A) \<le> Suc (card A)"
  by (cases "finite A") (simp_all add: card_insert_if)

lemma claim_good: "good_step lib s (snd (claim_delivery_job owner now s))"
proof (cases "min_by_key (\<lambda>(i, r). (jr_not_before r, i)) (filter (claimable s owner now) (jobs s))")
  case None
  then show ?thesis by (simp add: claim_delivery_job_def)
next
  case (Some x)
  obtain i r where x: "x = (i, r)" by (cases x)
  let ?j = "claimed now (jr_job r)" and ?t = "snd (claim_delivery_job owner now s)"
  show ?thesis
    unfolding good_step_def
  proof (intro impI)
    assume ok: "jobs_ok lib s"
    from min_by_key_in [OF Some] have m: "(i, r) \<in> set (jobs s)" and c: "claimable s owner now (i, r)"
      by (simp_all add: x)
    from row_job [OF ok m] have j: "job_in s i = Some (jr_job r)" .
    have r: "map_of (jobs s) i = Some r"
      using ok m by (simp add: jobs_ok_def rows_ok_def hm_ok_def)
    have st: "jb_state (jr_job r) \<in> {Queued, Retrying, Preparing, Exporting}"
      using c by (auto simp: claimable_def)
    note k = claimed_moves [OF job_ok(2) [OF ok j] st, of now]
    have w: "row_write s i (\<lambda>r. r\<lparr>jr_owner := owner, jr_job := ?j\<rparr>) ?t"
      using Some k job_ok(1) [OF ok j]
      by (simp add: claim_delivery_job_def x Let_def row_simps set_owner_def comp_def)
    have mv: "moved s ?t"
      by (rule row_write_moved [OF w r]) (use k in \<open>simp_all add: row_moves_def job_moves_def\<close>)
    have keep: "policy_kept s ?t" using w by (simp add: row_write_def)
    then have pr: "projects ?t = projects s" by (simp add: policy_kept_def)
    have "load_set ?t tenant o' \<subseteq> (if tenant = jb_tenant (jr_job r) \<and> o' = owner
        then insert i (load_set s tenant o' - {i}) else load_set s tenant o')" for tenant o'
      using w r k by (auto simp: load_set_def row_write_def update_row_rows split: if_split_asm)
    then have sub: "card (load_set ?t tenant o') \<le> card (if tenant = jb_tenant (jr_job r) \<and> o' = owner
        then insert i (load_set s tenant o' - {i}) else load_set s tenant o')" for tenant o'
      by (intro card_mono) (auto simp: finite_load_set)
    have "card (load_set s (jb_tenant (jr_job r)) owner - {i}) < 2"
      using c owner_load_card [OF ok] by (simp add: claimable_def)
    then have "card (insert i (load_set s (jb_tenant (jr_job r)) owner - {i})) \<le> 2"
      using card_insert_Suc [of i "load_set s (jb_tenant (jr_job r)) owner - {i}"] by linarith
    then have small: "tenant = jb_tenant (jr_job r) \<Longrightarrow> o' = owner \<Longrightarrow> card (load_set ?t tenant o') \<le> 2" for tenant o'
      using sub [of tenant o'] by simp
    have "card (load_set ?t tenant o') \<le> 2" if "o' \<noteq> []" for tenant o'
    proof (cases "tenant = jb_tenant (jr_job r) \<and> o' = owner")
      case True
      with small show ?thesis by blast
    next
      case False
      then have "card (load_set ?t tenant o') \<le> card (load_set s tenant o')"
        using sub [of tenant o'] by (simp only: if_False)
      with ok that show ?thesis unfolding jobs_ok_def loads_ok_def using order_trans by blast
    qed
    then have "loads_ok ?t" by (simp add: loads_ok_def)
    with ok moved_rows_ok [OF mv pr] moved_operations_ok [OF mv] policy_kept_cache_ok [OF keep]
      moved_evolves [OF mv] pr
    show "jobs_ok lib ?t \<and> evolves s ?t" by (auto simp: jobs_ok_def projects_ok_def)
  qed
qed

text \<open>A worker's copy of a job has the tenant of the job.\<close>

definition workers_copy :: "job_store \<Rightarrow> djob \<Rightarrow> bool" where
  "workers_copy s j \<longleftrightarrow> (\<forall>k. job_in s (jb_id j) = Some k \<longrightarrow> jb_tenant j = jb_tenant k)"

lemma finish_good:
  assumes "finish_job j g manifest now s = Inr t" and copy: "workers_copy s j"
  shows "good_step lib s t"
proof -
  from assms(1) obtain k where k: "job_in s (jb_id j) = Some k"
    by (cases "job_in s (jb_id j)") (simp_all add: finish_job_def)
  have g: "jb_state k = Preparing \<and> jb_attempts k = jb_attempts j \<and> jb_project k = jb_project j"
    by (rule ccontr) (use assms(1) k in \<open>auto simp: finish_job_def\<close>)
  then have st: "jb_state k = Preparing" and pj: "jb_project k = jb_project j" by simp_all
  from assms(1) k g obtain p where p: "project_in s (jb_tenant j) (pj_id (jb_project j)) = Some p"
    by (cases "project_in s (jb_tenant j) (pj_id (jb_project j))") (simp_all add: finish_job_def)
  have rev: "pj_revision p = pj_revision (jb_project j)"
    by (rule ccontr) (use assms(1) k g p in \<open>simp add: finish_job_def\<close>)
  have t: "t = store_finished g (jb_id j) (finished_job p manifest (jb_checks j) now k) s"
    using assms(1) k g p rev by (simp add: finish_job_def split: sum.split_asm unit.split_asm)
  let ?d = "finished_job p manifest (jb_checks j) now k"
  have tenant: "jb_tenant j = jb_tenant k" using copy k by (simp add: workers_copy_def)
  show ?thesis
    unfolding good_step_def
  proof
    assume ok: "jobs_ok lib s"
    let ?f = "\<lambda>r. (if jb_state ?d = Exporting then r\<lparr>jr_owner := []\<rparr> else r)\<lparr>jr_job := ?d\<rparr>"
    have i: "jb_id ?d = jb_id j" using job_ok(1) [OF ok k] by (simp add: finished_job_def)
    have w: "row_write s (jb_id j) ?f t"
      by (simp add: t store_finished_def row_simps set_owner_def comp_def i)
    have sp: "same_delivery_policy (jb_project k) p"
      by (rule policy_agrees [OF job_ok(3) [OF ok k]]) (simp_all add: pj p tenant [symmetric] rev)
    have f: "fine ?d"
      using job_ok(2) [OF ok k] st same_policy_fields(1) [OF sp]
      by (simp add: finished_job_def fine_def finished_state_def)
    have m: "jb_manifest k = None" using job_ok(2) [OF ok k] st by (simp add: fine_def)
    have "moved_idle s t \<and> policy_kept s t"
      by (rule write_idle [OF ok k w, where j' = ?d])
        (use f m in \<open>auto simp: finished_job_def job_kept_def same_fields running_def finished_state_def\<close>)
    from idle_good [OF this, of lib] ok show "jobs_ok lib t \<and> evolves s t" by (simp add: good_step_def)
  qed
qed

lemma insert_grant_good:
  assumes "insert_grant g digest s = Inr t"
  shows "good_step lib s t"
proof -
  from assms have fresh: "map_of (grants s) (gr_id g) = None"
    and t: "t = s\<lparr>grants := (gr_id g, g) # grants s, manifests := (gr_id g, digest) # manifests s\<rparr>"
    by (auto simp: insert_grant_def split: if_split_asm)
  have "policy_protects lib t i = policy_protects lib s i" if "i \<noteq> gr_id g" for i
    using that by (simp add: t policy_protects_def tenant_projects_def received_requires_workflow_def
        split: option.split)
  then have "cache_ok lib t" if "jobs_ok lib s"
    using that fresh by (fastforce simp: t cache_ok_def jobs_ok_def)
  then show ?thesis
    by (rule new_cache_good [rotated 2]) (simp_all add: t)
qed

lemma record_operation_good:
  assumes "record_operation operation i now s = Inr t"
  shows "good_step lib s t"
  using assms by (intro same_jobs_good)
    (auto simp: record_operation_def policy_kept_def split: option.split_asm if_split_asm)

lemma publish_good:
  assumes "insert_workflow_grant jlib g operation job share now s = Inr t"
    and copy: "\<forall>j. job = Some j \<longrightarrow> workers_copy s j"
  shows "good_step lib s t"
proof -
  from assms(1) obtain g' digest g'' u v where
    u: "(case job of None \<Rightarrow> Inr s | Some j \<Rightarrow> finish_job j g' digest now s) = Inr u"
    and v: "insert_grant g'' digest u = Inr v" and t: "record_operation operation (gr_id g') now v = Inr t"
    unfolding insert_workflow_grant_def Let_def
    by (auto split: if_split_asm sum.split_asm unit.split_asm)
  have "good_step lib s u"
    using u copy finish_good [of _ g' digest now s u lib] by (cases job) auto
  then show ?thesis
    using insert_grant_good [OF v, of lib] record_operation_good [OF t, of lib] good_step_trans by blast
qed

section \<open>Saving a project\<close>

lemma hm_iff: "hm_ok m \<Longrightarrow> map_of m k = Some v \<longleftrightarrow> (k, v) \<in> set m"
  by (simp add: hm_ok_def)

lemma set_other_projects:
  assumes "hm_ok (projects s)"
  shows "p \<in> set (other_projects s tenant i) \<longleftrightarrow> (\<exists>k. k \<noteq> i \<and> map_of (projects s) (tenant, k) = Some p)"
proof -
  have "p \<in> set (other_projects s tenant i) \<longleftrightarrow> (\<exists>k. k \<noteq> i \<and> ((tenant, k), p) \<in> set (projects s))"
    by (auto simp: other_projects_def intro: rev_image_eqI)
  with assms show ?thesis by (simp add: hm_iff)
qed

lemma set_tenant_projects:
  assumes "hm_ok (projects s)"
  shows "p \<in> set (tenant_projects s tenant) \<longleftrightarrow> (\<exists>k. map_of (projects s) (tenant, k) = Some p)"
proof -
  have "p \<in> set (tenant_projects s tenant) \<longleftrightarrow> (\<exists>k. ((tenant, k), p) \<in> set (projects s))"
    by (auto simp: tenant_projects_def intro: rev_image_eqI)
  with assms show ?thesis by (simp add: hm_iff)
qed

lemma next_revisions_fields:
  "pj_id (next_revisions c p) = pj_id p" "pj_directory (next_revisions c p) = pj_directory p"
  "validate_project lib (next_revisions c p) = validate_project lib p"
  by (simp_all add: next_revisions_def Let_def validate_project_def)

lemma next_revisions_policy:
  assumes "pj_revision c = pj_revision p"
  shows "pj_revision c < pj_revision (next_revisions (Some c) p)
    \<or> pj_revision (next_revisions (Some c) p) = pj_revision c \<and> same_delivery_policy c (next_revisions (Some c) p)"
  using assms by (auto simp: next_revisions_def Let_def same_policy_iff)

lemma same_policy_trans:
  "same_delivery_policy a b \<Longrightarrow> same_delivery_policy b c \<Longrightarrow> same_delivery_policy a c"
  by (simp add: same_policy_iff)

lemma save_project_cases:
  assumes "save_delivery_project lib tenant p s = Inr (p', t)"
  shows "validate_project lib p = Inr ()"
    and "p' = next_revisions (project_in s tenant (pj_id p)) p"
    and "\<forall>c. project_in s tenant (pj_id p) = Some c \<longrightarrow> pj_revision c = pj_revision p \<and> pj_directory c = pj_directory p"
    and "\<forall>q \<in> set (other_projects s tenant (pj_id p)). \<not> overlaps lib q p"
    and "length (other_projects s tenant (pj_id p)) < 100"
    and "t = delivery_event tenant [] (lit ''project_policy_changed'')
              (drop_policies tenant (s\<lparr>projects := AList.update (tenant, pj_id p) p' (projects s)\<rparr>))"
  using assms unfolding save_delivery_project_def
  by (auto simp: Let_def list_ex_iff not_le split: sum.split_asm unit.split_asm if_split_asm option.split_asm)

lemma map_of_filter_key: "map_of (filter (\<lambda>(i, _). P i) m) k = (if P k then map_of m k else None)"
  by (induction m) auto

lemma save_project_good:
  assumes "save_delivery_project lib tenant p s = Inr (p', t)"
  shows "good_step lib s t"
  unfolding good_step_def
proof
  assume ok: "jobs_ok lib s"
  note c = save_project_cases [OF assms]
  have pid: "pj_id p' = pj_id p" "pj_directory p' = pj_directory p" "validate_project lib p' = Inr ()"
    using c(1,2) next_revisions_fields by simp_all
  have jobs: "jobs t = jobs s" by (simp add: c(6) row_simps drop_policies_def)
  have pm: "map_of (projects t) x = (if x = (tenant, pj_id p) then Some p' else map_of (projects s) x)" for x
    by (simp add: c(6) row_simps drop_policies_def hmap_simps)
  have okp: "projects_ok lib s" using ok by (simp add: jobs_ok_def)
  then have hm: "hm_ok (projects s)" by (simp add: projects_ok_def)
  have hmt: "hm_ok (projects t)"
    using hm by (simp add: c(6) row_simps drop_policies_def hmap_simps)
  have "current_policy t j" if j: "current_policy s j" for j
  proof -
    from j obtain q where q: "project_in s (jb_tenant j) (pj_id (jb_project j)) = Some q"
      and rev: "pj_revision (jb_project j) \<le> pj_revision q"
      and same: "pj_revision (jb_project j) = pj_revision q \<longrightarrow> same_delivery_policy (jb_project j) q"
      by (auto simp: current_policy_def)
    show ?thesis
    proof (cases "(jb_tenant j, pj_id (jb_project j)) = (tenant, pj_id p)")
      case False
      with q rev same show ?thesis by (auto simp: current_policy_def project_in_def pm)
    next
      case True
      with q c(2,3) have p': "p' = next_revisions (Some q) p" and "pj_revision q = pj_revision p"
        by (simp_all add: project_in_def)
      from next_revisions_policy [OF this(2)]
      have "pj_revision q < pj_revision p' \<or> pj_revision p' = pj_revision q \<and> same_delivery_policy q p'"
        by (simp add: p')
      with rev same same_policy_trans [of "jb_project j" q p'] True show ?thesis
        by (auto simp: current_policy_def project_in_def pm)
    qed
  qed
  with ok have "rows_ok t" by (simp add: jobs_ok_def rows_ok_def jobs)
  moreover have "projects_ok lib t"
  proof -
    have other: "\<not> overlaps lib q p'" "\<not> overlaps lib p' q"
      if "map_of (projects s) (tenant, k) = Some q" "k \<noteq> pj_id p" for k q
    proof -
      have "q \<in> set (other_projects s tenant (pj_id p))"
        using that set_other_projects [OF hm] by blast
      with c(4) pid(2) show "\<not> overlaps lib q p'" "\<not> overlaps lib p' q" by (auto simp: overlaps_def)
    qed
    with okp pid hmt show ?thesis
      by (auto simp: projects_ok_def pm split: if_split_asm)
  qed
  moreover have "cache_ok lib t"
  proof -
    have cache: "map_of (policy_cache t) i = (if i \<notin> set (map fst (filter (\<lambda>(_, g). gr_tenant g = tenant) (grants s)))
        then map_of (policy_cache s) i else None)" for i
    proof -
      have "policy_cache t = filter (\<lambda>(i, _). i \<notin> set (map fst (filter (\<lambda>(_, g). gr_tenant g = tenant) (grants s))))
          (policy_cache s)"
        by (simp add: c(6) row_simps drop_policies_def)
      then show ?thesis by (simp only: map_of_filter_key)
    qed
    have gr: "grants t = grants s" "receive_uploads t = receive_uploads s" "links t = links s"
      by (simp_all add: c(6) row_simps drop_policies_def)
    have "map_of (grants t) i \<noteq> None \<and> (policy_protects lib t i \<longrightarrow> b)"
      if b: "map_of (policy_cache t) i = Some b" for i b
    proof -
      from b cache [of i] have old: "map_of (policy_cache s) i = Some b"
        and other: "\<And>g. (i, g) \<in> set (grants s) \<Longrightarrow> gr_tenant g \<noteq> tenant"
        by (force split: if_split_asm)+
      from ok old obtain g where g: "map_of (grants s) i = Some g" and pp: "policy_protects lib s i \<longrightarrow> b"
        by (auto simp: jobs_ok_def cache_ok_def)
      have "gr_tenant g \<noteq> tenant" using other [OF map_of_SomeD [OF g]] .
      then have "set (tenant_projects t (gr_tenant g)) = set (tenant_projects s (gr_tenant g))"
        by (auto simp: set_tenant_projects [OF hm] set_tenant_projects [OF hmt] pm)
      with g pp show ?thesis
        by (simp add: policy_protects_def gr list_ex_iff received_requires_workflow_def)
    qed
    then show ?thesis unfolding cache_ok_def by blast
  qed
  ultimately show "jobs_ok lib t \<and> evolves s t"
    using ok jobs_ok_jobs_cong(1,2) [OF jobs] by (simp add: jobs_ok_def evolves_jobs [OF jobs])
qed

section \<open>Requests, revocations, restores\<close>

lemma set_receive_good:
  assumes "set_receive_workflow tenant link w now s = Inr t"
  shows "good_step lib s t"
  using assms by (intro same_jobs_good)
    (auto simp: set_receive_workflow_def policy_kept_def split: if_split_asm option.split_asm sum.split_asm unit.split_asm)

lemma map_of_map_rows: "map_of (map (\<lambda>(i, r). (i, f i r)) m) k = map_option (f k) (map_of m k)"
  by (induction m) auto

lemma map_rows_idle:
  assumes "jobs t = map (\<lambda>(i, r). (i, f r)) (jobs s)"
    and "\<And>r. row_moves s r (f r) \<and> idle_move r (f r)"
  shows "moved_idle s t"
  using assms(2) by (auto simp: moved_idle_def moved_def assms(1) map_of_map_rows [where f = "\<lambda>_. f"] comp_def)

lemma revoke_route_good: "good_step lib s (revoke_route_deliveries route now s)"
proof -
  let ?t = "revoke_route_deliveries route now s"
  let ?f = "\<lambda>r. if job_from_route s route (jr_job r) then r\<lparr>jr_job := source_revoked now (jr_job r)\<rparr> else r"
  have "fine j \<Longrightarrow> fine (source_revoked now j)" for j
    using fine_ended [of j Cancelled] by (simp add: source_revoked_def same_fields fine_checks)
  then have "moved_idle s ?t"
    by (intro map_rows_idle [where f = ?f])
      (auto simp: revoke_route_deliveries_def row_moves_def job_moves_def job_kept_def idle_move_def
        source_revoked_def same_fields running_def)
  moreover have "policy_kept s ?t"
    by (auto simp: policy_kept_def revoke_route_deliveries_def option.map_comp grant_core_def comp_def
        map_of_map_rows intro!: option.map_cong)
  ultimately show ?thesis by (intro idle_good conjI)
qed

lemma hold_good: "good_step lib s (hold_after_restore s)"
proof -
  have "moved_idle s (hold_after_restore s)"
    by (rule map_rows_idle [where f = held])
      (auto simp: hold_after_restore_def held_def row_moves_def job_moves_def job_kept_def idle_move_def
        same_fields running_def fine_ended)
  then show ?thesis
    by (intro idle_good conjI) (simp_all add: policy_kept_def hold_after_restore_def)
qed

lemma save_good:
  assumes "job_in s i = Some j" and "jb_id j' = i" and "jb_state j' = Cancelled"
    and "fine j \<Longrightarrow> fine j'" and "job_kept j j'" and "current_policy s j' = current_policy s j"
  shows "good_step lib s (save_job j' s)"
  unfolding good_step_def
proof
  assume ok: "jobs_ok lib s"
  have "moved_idle s (save_job j' s) \<and> policy_kept s (save_job j' s)"
    by (rule save_idle [OF ok assms(1), where j' = j']) (use assms in \<open>simp_all add: row_simps running_def\<close>)
  from idle_good [OF this, of lib] ok
  show "jobs_ok lib (save_job j' s) \<and> evolves s (save_job j' s)" by (simp add: good_step_def)
qed

lemma disown_good: "good_step lib s (set_owner i [] s)"
proof -
  have "moved_idle s (set_owner i [] s)"
    by (auto simp: moved_idle_def moved_def set_owner_def update_row_keys update_row_rows row_moves_def
        job_moves_def idle_move_def split: if_split_asm)
  then show ?thesis by (intro idle_good conjI) (simp_all add: set_owner_def row_simps)
qed

lemma revoke_grant_good:
  assumes "revoke_grant i tenant now s = Inr t"
  shows "good_step lib s t"
proof -
  from assms obtain g where g: "map_of (grants s) i = Some g"
    and t: "t = set_grant i (g\<lparr>gr_revoked_at := (case gr_revoked_at g of None \<Rightarrow> Some now | Some x \<Rightarrow> Some x)\<rparr>) s"
    by (auto simp: revoke_grant_def split: option.split_asm if_split_asm)
  show ?thesis
    unfolding t by (rule same_jobs_good [OF jobs_set_grant policy_kept_grant [OF g]]) (simp add: grant_core_def)
qed

lemma replace_good:
  assumes "replace_job who original replacement token now s = Inr (k, t)"
    and o: "job_in s (jb_id original) = Some original"
    and f: "fine replacement" and c: "current_policy s replacement"
  shows "good_step lib s t"
proof -
  let ?s1 = "save_job (original\<lparr>jb_state := Cancelled, jb_updated_at := now,
                             jb_reprocessed_as := Some (jb_id replacement)\<rparr>) s"
  from assms(1) obtain u v where u: "revoke_grant (jb_id original) (id_tenant who) now ?s1 = Inr u"
    and v: "insert_job replacement now token (set_owner (jb_id original) [] u) = Inr v"
    and t: "t = delivery_event (id_tenant who) (jb_id replacement) (lit ''reception_queued'')
                        (delivery_event (id_tenant who) (jb_id original) (lit ''delivery_reprocessed'') v)"
    unfolding replace_job_def
    by (auto simp: Let_def split: sum.split_asm unit.split_asm if_split_asm)
  have 1: "good_step lib s ?s1"
    by (rule save_good [OF o]) (auto simp: same_fields fine_ended job_kept_def)
  have "projects (set_owner (jb_id original) [] u) = projects s"
    using u by (auto simp: revoke_grant_def set_grant_def set_owner_def row_simps split: option.split_asm if_split_asm)
  then have "good_step lib (set_owner (jb_id original) [] u) v"
    by (intro insert_job_good [OF v f]) (simp add: c current_policy_projects)
  with 1 revoke_grant_good [OF u, of lib] disown_good [of lib u "jb_id original"]
  have "good_step lib s v" using good_step_trans by blast
  then show ?thesis unfolding t using event_good good_step_trans by blast
qed

lemma reprocess_good:
  assumes "reprocess_received_job slib who i manifest revision now fresh token s = Inr (j, t)"
  shows "good_step lib s t"
proof (cases "t = s")
  case False
  have "jobs_ok lib s \<Longrightarrow> good_step lib s t"
  proof -
    assume ok: "jobs_ok lib s"
    from assms False obtain original r p w where o: "job_in s i = Some original"
      and tenant: "jb_tenant original = id_tenant who"
      and p: "project_in s (id_tenant who) (pj_id (jb_project original)) = Some p"
      and v: "validate_job p (receive_request w (lit ''reprocess_'' @ jb_id original)
                 (rq_label (jb_request original))) now = Inr ()"
      and t: "replace_job who original
          ((fresh_job fresh (id_tenant who) (id_subject who) (id_credential_version who)
             (receive_request w (lit ''reprocess_'' @ jb_id original) (rq_label (jb_request original)))
              p (trade_snapshot s (id_tenant who) p) now)
            \<lparr>jb_received := Some r, jb_reprocessed_from := Some (jb_id original)\<rparr>) token now s = Inr (j, t)"
      unfolding reprocess_received_job_def
      by (auto simp: Let_def split: option.split_asm sum.split_asm unit.split_asm if_split_asm)
    show "good_step lib s t"
    proof (rule replace_good [OF t])
      show "job_in s (jb_id original) = Some original" using o job_ok(1) [OF ok o] by simp
    qed (use validate_job_recipients [OF v] project_id [OF ok p] p in
        \<open>simp_all add: fine_def fresh_job_def snapshot_unreleased stored_project_current\<close>)
  qed
  then show ?thesis by (simp add: good_step_def)
qed simp

section \<open>The step relation\<close>

text \<open>
  The steps of the other components on their own tables: they leave jobs, projects and cached
  decisions alone, give no existing upload a new owner and never change what a grant delivers
  (revocations, expiries, storages, principals, tokens, routes and new links are free).
  Two operations remove what these steps keep and are left out here: the removal of a tenant, with
  all its jobs and grants, and the purge of grants that are revoked and expired, which
  \<open>DownloadsSystem\<close> adds as a step of its own.
\<close>

definition others_step :: "job_store \<Rightarrow> job_store \<Rightarrow> bool" where
  "others_step s t \<longleftrightarrow> jobs t = jobs s \<and> policy_kept s t"

inductive job_step :: "('k, 'b) jobs_lib \<Rightarrow> job_store \<Rightarrow> job_store \<Rightarrow> bool" for L :: "('k, 'b) jobs_lib" where
  save_project: "save_delivery_project (jl_workflow L) tenant p s = Inr (p', t) \<Longrightarrow> job_step L s t"
| set_receive: "set_receive_workflow tenant link w now s = Inr t \<Longrightarrow> job_step L s t"
| enqueue: "enqueue_delivery_job tenant actor version automation p request now i token s = Inr (j, t)
     \<Longrightarrow> job_step L s t"
| receive: "queue_received error_text tenant link upload partly now i token s = Inr t \<Longrightarrow> job_step L s t"
| claim: "claim_delivery_job owner now s = (j, t) \<Longrightarrow> job_step L s t"
| reserve: "reserve_delivery_snapshot i attempt bytes limit s = Inr t \<Longrightarrow> job_step L s t"
| publish: "insert_workflow_grant L g operation job share now s = Inr t
     \<Longrightarrow> \<forall>j. job = Some j \<longrightarrow> workers_copy s j \<Longrightarrow> job_step L s t"
| complete_export: "complete_delivery_export i attempt d key now s = Inr t \<Longrightarrow> job_step L s t"
| fail_destination: "fail_delivery_destination i attempt d err now s = Inr t \<Longrightarrow> job_step L s t"
| progress: "route_progress i attempt d n s = t \<Longrightarrow> job_step L s t"
| fail_job: "fail_delivery_job i attempt err now s = t \<Longrightarrow> job_step L s t"
| change: "change_delivery_job tenant i actor administrator action manifest now s = Inr (j, t) \<Longrightarrow> job_step L s t"
| reprocess: "reprocess_received_job (jl_stmts L) who i manifest revision now fresh token s = Inr (j, t)
     \<Longrightarrow> job_step L s t"
| remove_recipient: "remove_delivery_recipient tenant i actor administrator holder now s = Inr (j, t)
     \<Longrightarrow> job_step L s t"
| rotate: "rotate_delivery_job_token (jl_stmts L) tenant i generation token now s = Inr (b, t)
     \<Longrightarrow> job_step L s t"
| claim_retirement: "claim_snapshot_retirement now s = (k, t) \<Longrightarrow> job_step L s t"
| complete_retirement: "complete_snapshot_retirement i now s = Inr t \<Longrightarrow> job_step L s t"
| access: "delivery_access_in (jl_workflow L) i h now s = (x, t) \<Longrightarrow> job_step L s t"
| release: "release_in (jl_workflow L) i s = (x, t) \<Longrightarrow> job_step L s t"
| source_revocation: "revoke_route_deliveries route now s = t \<Longrightarrow> job_step L s t"
| restore: "hold_after_restore s = t \<Longrightarrow> job_step L s t"
| others: "others_step s t \<Longrightarrow> job_step L s t"

definition empty_store :: "job_store \<Rightarrow> bool" where
  "empty_store s \<longleftrightarrow> jobs s = [] \<and> projects s = [] \<and> policy_cache s = []"

lemma empty_store_ok: "empty_store s \<Longrightarrow> jobs_ok lib s"
  by (simp add: empty_store_def jobs_ok_def rows_ok_def loads_ok_def load_set_def operations_ok_def
      projects_ok_def cache_ok_def hm_ok_def)

lemma idle_goodI: "(jobs_ok lib s \<Longrightarrow> moved_idle s t \<and> policy_kept s t) \<Longrightarrow> good_step lib s t"
  using idle_good [of s t lib] by (auto simp: good_step_def)

lemmas good_operations =
  save_project_good set_receive_good enqueue_good queue_received_good publish_good reprocess_good
  revoke_route_good hold_good

lemmas idle_operations =
  reserve_idle complete_export_idle fail_destination_idle fail_job_idle change_idle
  remove_recipient_idle rotate_idle claim_retirement_idle complete_retirement_idle

lemma job_step_good: "job_step L s t \<Longrightarrow> good_step (jl_workflow L) s t"
proof (induction rule: job_step.induct)
  case (claim owner now s j t)
  then show ?case using claim_good [of "jl_workflow L" s owner now] by simp
next
  case (access i h now s x t)
  then show ?case using access_good [of "jl_workflow L" s i h now] by simp
next
  case (release i s x t)
  then show ?case using release_good [of "jl_workflow L" s i] by simp
next
  case (others s t)
  then show ?case by (intro same_jobs_good) (simp_all add: others_step_def)
next
  case (progress i attempt d n s t)
  then show ?case by (intro idle_goodI) (use route_progress_idle in blast)
next
  case (fail_job i attempt err now s t)
  then show ?case by (intro idle_goodI) (use fail_job_idle in blast)
qed (blast intro: good_operations idle_goodI dest: idle_operations)+

text \<open>The store is one of the systems of the prelude, and so is the relation between its states.\<close>

interpretation job_system: invariant_system empty_store "job_step L" "jobs_ok (jl_workflow L)"
  for L :: "('k, 'b) jobs_lib"
  by unfold_locales (auto intro: empty_store_ok dest: job_step_good simp: good_step_def)

lemma run_evolves: "(job_step L)\<^sup>*\<^sup>* s t \<Longrightarrow> jobs_ok (jl_workflow L) s \<Longrightarrow> evolves s t"
proof (induction rule: rtranclp_induct)
  case (step t u)
  then have "jobs_ok (jl_workflow L) t" using job_system.steps_inv by blast
  with step show ?case
    using job_step_good [of L t u] evolves_trans by (auto simp: good_step_def)
qed simp

lemma reach_ok: "reach empty_store (job_step L) s \<Longrightarrow> jobs_ok (jl_workflow L) s"
  by (rule job_system.reach_inv)

end
