(* ===== verification/JobsProperties.thy ===== *)
theory JobsProperties
  imports JobsSystem
begin

text \<open>
  The properties of the delivery job store: what a recipient can reach, what approval, fencing
  and retirement guarantee, and the limits of queueing, claiming and snapshots. Each is a fact
  about every store that the steps of \<open>JobsSystem\<close> reach.
\<close>

section \<open>Shared facts\<close>

lemma reach_job:
  assumes "reach empty_store (job_step L) s" and "job_in s i = Some j"
  shows "jb_id j = i" and "fine j" and "current_policy s j"
  using job_ok [OF reach_ok [OF assms(1)] assms(2)] .

lemma released_prepared:
  assumes "fine j" and "job_released j"
  shows "jb_manifest j \<noteq> None" "recipients_ok (jb_project j) (jb_request j)"
    "pj_require_approval (jb_project j) \<longrightarrow> jb_approved_by j \<noteq> None"
proof -
  have st: "jb_state j \<in> {Ready, Exporting, Retrying, Failed}"
    and r: "jb_state j \<noteq> Ready \<Longrightarrow> ck_released_at (jb_checks j) \<noteq> None"
    using assms(2) by (auto simp: job_released_def released_def)
  show m: "jb_manifest j \<noteq> None"
    using assms(1) st r by (elim insertE emptyE) (auto simp: fine_def)
  show "recipients_ok (jb_project j) (jb_request j)" using assms(1) m by (simp add: fine_def)
  show "pj_require_approval (jb_project j) \<longrightarrow> jb_approved_by j \<noteq> None"
    using assms(1) m st by (elim insertE emptyE) (simp_all add: fine_def)
qed

text \<open>The approver of a job, when it has one, is neither its submitter nor a machine.\<close>

definition other_human :: "djob \<Rightarrow> rstr \<Rightarrow> bool" where
  "other_human j a \<longleftrightarrow>
     a \<noteq> jb_actor j \<and> jb_actor_human j \<noteq> Some a \<and> \<not> starts_with a (lit ''automation:'')"

lemma access_Some:
  assumes "delivery_access_in lib i h now s = (Inr (Some j), s')"
  shows "job_in s i = Some j" and "job_released j"
    and "\<exists>g. map_of (grants s) i = Some g \<and> gr_token_hash g = h \<and> gr_revoked_at g = None \<and> now < gr_expires_at g"
    and "\<exists>p. project_in s (jb_tenant j) (pj_id (jb_project j)) = Some p \<and> pj_revision p = pj_revision (jb_project j)"
  using assms
  by (auto simp: delivery_access_in_def release_in_def Let_def split: option.split_asm if_split_asm bool.split_asm)

lemma access_None:
  assumes "delivery_access_in lib i h now s = (Inr None, s')" and ok: "cache_ok lib s"
  shows "\<not> policy_protects lib s i" and "\<exists>g. map_of (grants s) i = Some g"
  using assms
  by (auto simp: delivery_access_in_def release_in_def Let_def cache_ok_def split: option.split_asm if_split_asm bool.split_asm)

section \<open>What a recipient reaches\<close>

text \<open>C24: A download link of a project delivery opens only while its grant is live, once the job is
  released under the project's current policy, after another human approved it where the policy
  asks for approval, and for the enrolled recipients the policy asks for.\<close>

theorem access_is_authorised:
  assumes "reach empty_store (job_step L) s"
    and "delivery_access_in (jl_workflow L) i h now s = (Inr (Some j), s')"
  shows "\<exists>g p. map_of (grants s) i = Some g \<and> gr_token_hash g = h \<and> gr_revoked_at g = None \<and> now < gr_expires_at g
    \<and> project_in s (jb_tenant j) (pj_id (jb_project j)) = Some p \<and> same_delivery_policy (jb_project j) p
    \<and> job_in s i = Some j \<and> jb_manifest j \<noteq> None
    \<and> (pj_require_approval p \<longrightarrow> (\<exists>a. jb_approved_by j = Some a \<and> other_human j a))
    \<and> recipients_ok p (jb_request j)"
proof -
  note a = access_Some [OF assms(2)]
  note j = reach_job [OF assms(1) a(1)]
  from a(4) obtain p where p: "project_in s (jb_tenant j) (pj_id (jb_project j)) = Some p"
    "pj_revision p = pj_revision (jb_project j)" by blast
  note same = policy_agrees [OF j(3) p]
  have "other_human j x" if "jb_approved_by j = Some x" for x
    using j(2) that by (simp add: fine_def other_human_def)
  then show ?thesis
    using a(1,3) p(1) same same_policy_fields(1,2) [OF same] released_prepared [OF j(2) a(2)]
    by (auto simp: recipients_ok_def)
qed

text \<open>C25: A link that opens without a job delivers no file inside a directory of any project of its
  tenant and no upload of a receive workflow, whatever was cached and in whatever order projects,
  receptions and lookups happened.\<close>

theorem open_access_is_unprotected:
  assumes "reach empty_store (job_step L) s"
    and "delivery_access_in (jl_workflow L) i h now s = (Inr None, s')"
  shows "\<exists>g. map_of (grants s) i = Some g
    \<and> \<not> received_requires_workflow s (gr_tenant g) (gr_link_id g) (gr_upload_id g)
    \<and> (\<forall>k p f. project_in s (gr_tenant g) k = Some p \<and> f \<in> set (gr_files g) \<longrightarrow>
         \<not> within_directory (jl_workflow L) (pj_directory p) (gf_source f))"
proof -
  from reach_ok [OF assms(1)] have c: "cache_ok (jl_workflow L) s" and hm: "hm_ok (projects s)"
    by (simp_all add: jobs_ok_def projects_ok_def)
  from access_None [OF assms(2) c] obtain g where g: "map_of (grants s) i = Some g"
    and no: "\<not> policy_protects (jl_workflow L) s i" by blast
  have "p \<in> set (tenant_projects s (gr_tenant g))" if "project_in s (gr_tenant g) k = Some p" for k p
    using that by (auto simp: set_tenant_projects [OF hm] project_in_def)
  with g no show ?thesis
    by (auto simp: policy_protects_def protects_def list_ex_iff)
qed

section \<open>What does not change\<close>

text \<open>C29: Once a job has a manifest, its manifest, its frozen policy and its submitter stay the same
  for good: what was approved is what is delivered.\<close>

theorem prepared_jobs_are_frozen:
  assumes "reach empty_store (job_step L) s" and "(job_step L)\<^sup>*\<^sup>* s t"
    and "job_in s i = Some j" and "jb_manifest j = Some m"
  shows "\<exists>j'. job_in t i = Some j' \<and> jb_manifest j' = Some m \<and> jb_project j' = jb_project j
    \<and> jb_actor j' = jb_actor j \<and> jb_tenant j' = jb_tenant j"
proof -
  from run_evolves [OF assms(2) reach_ok [OF assms(1)]] assms(3)
  obtain j' where "job_in t i = Some j'" "job_kept j j'" by (auto simp: evolves_def)
  with assms(4) show ?thesis by (auto simp: job_kept_def)
qed

lemma claim_result:
  assumes "claim_delivery_job owner now s = (Some j, t)" and ok: "jobs_ok lib s"
  obtains r where "map_of (jobs s) (jb_id j) = Some r" and "claimable s owner now (jb_id j, r)"
    and "j = claimed now (jr_job r)" and "job_in t (jb_id j) = Some j"
    and "\<And>k q. (k, q) \<in> set (jobs s) \<Longrightarrow> claimable s owner now (k, q) \<Longrightarrow>
           (jr_not_before r, jb_id j) \<le> (jr_not_before q, k)"
proof -
  from assms(1) obtain x where m: "min_by_key (\<lambda>(i, r). (jr_not_before r, i))
      (filter (claimable s owner now) (jobs s)) = Some x"
    by (auto simp: claim_delivery_job_def split: option.split_asm)
  obtain i r where x: "x = (i, r)" by (cases x)
  from min_by_key_in [OF m] have r: "(i, r) \<in> set (jobs s)" and c: "claimable s owner now (i, r)"
    by (simp_all add: x)
  have row: "map_of (jobs s) i = Some r" using ok r by (simp add: jobs_ok_def rows_ok_def hm_ok_def)
  have j: "j = claimed now (jr_job r)" using assms(1) m by (simp add: claim_delivery_job_def x Let_def)
  have id: "jb_id j = i" using job_ok(1) [OF ok row_job [OF ok r]] by (simp add: j claimed_def Let_def)
  have t: "job_in t i = Some j"
    using assms(1) m row id
    by (auto simp: claim_delivery_job_def x Let_def j [symmetric] row_simps set_owner_def job_in_def
        update_row_rows comp_def)
  show ?thesis
    by (rule that [OF _ _ j]) (use row c id t min_by_key_Some [OF m] in \<open>auto simp: x\<close>)
qed

text \<open>C30: Once a job was claimed again, every call a worker makes under an earlier attempt is without
  effect, however the store went on: it cannot publish, reserve, export or fail the job.\<close>

theorem stale_attempts_are_fenced:
  assumes "reach empty_store (job_step L) s" and "claim_delivery_job owner now s = (Some j, t)"
    and "(job_step L)\<^sup>*\<^sup>* t u" and "attempt < jb_attempts j"
  shows "fail_delivery_job (jb_id j) attempt err now' u = u
    \<and> (\<forall>v. complete_delivery_export (jb_id j) attempt d key now' u \<noteq> Inr v
        \<and> fail_delivery_destination (jb_id j) attempt d err now' u \<noteq> Inr v
        \<and> reserve_delivery_snapshot (jb_id j) attempt bytes limit u \<noteq> Inr v
        \<and> (\<forall>w. jb_id w = jb_id j \<and> jb_attempts w = attempt \<longrightarrow> finish_job w g m now' u \<noteq> Inr v))"
proof -
  from assms(1) have ok: "jobs_ok (jl_workflow L) s" by (rule reach_ok)
  from claim_result [OF assms(2) ok] have j: "job_in t (jb_id j) = Some j" by blast
  have "jobs_ok (jl_workflow L) t"
    using ok job_system.step_inv [OF ok job_step.claim [OF assms(2)]] by simp
  from run_evolves [OF assms(3) this] j obtain k where k: "job_in u (jb_id j) = Some k" "job_kept j k"
    by (auto simp: evolves_def)
  with assms(4) have a: "jb_attempts k \<noteq> attempt" by (simp add: job_kept_def)
  obtain e where x: "export_in (jb_id j) attempt now' u = Inl e"
    using k(1) a by (cases "project_in u (jb_tenant k) (pj_id (jb_project k))") (simp_all add: export_in_def)
  show ?thesis
    using k(1) a by (simp add: fail_delivery_job_def complete_delivery_export_def
      fail_delivery_destination_def x reserve_delivery_snapshot_def finish_job_def)
qed

text \<open>An owner never runs more than two jobs of one tenant.\<close>

theorem at_most_two_running:
  assumes "reach empty_store (job_step L) s" and "owner \<noteq> []"
  shows "length (filter (\<lambda>(_, r). jb_tenant (jr_job r) = tenant \<and> jr_owner r = owner
           \<and> running (jb_state (jr_job r))) (jobs s)) \<le> 2"
proof -
  from reach_ok [OF assms(1)] have hm: "hm_ok (jobs s)" and l: "loads_ok s"
    by (simp_all add: jobs_ok_def rows_ok_def)
  from filter_length_card [OF hm, where P = "\<lambda>_ r. jb_tenant (jr_job r) = tenant \<and> jr_owner r = owner
           \<and> running (jb_state (jr_job r))"] l assms(2)
  show ?thesis by (simp add: loads_ok_def load_set_def)
qed

text \<open>Repeating a submission never queues a second job: under an operation id that a submitter has
  used, a later call returns the first job, for the same request, or is refused.\<close>

theorem submissions_are_idempotent:
  assumes "reach empty_store (job_step L) s"
    and "enqueue_delivery_job tenant actor version automation p request now i token s = Inr (j, t)"
    and "(job_step L)\<^sup>*\<^sup>* t u" and "rq_operation_id request' = rq_operation_id request"
    and "enqueue_delivery_job tenant actor version' automation' p' request' now' i' token' u = Inr (k, v)"
  shows "v = u \<and> jb_id k = jb_id j \<and> jb_request k = request'"
proof -
  from assms(1) have ok: "jobs_ok (jl_workflow L) s" by (rule reach_ok)
  have okt: "jobs_ok (jl_workflow L) t"
    using ok job_system.step_inv [OF ok job_step.enqueue [OF assms(2)]] by simp
  then have oku: "jobs_ok (jl_workflow L) u" using assms(3) job_system.steps_inv by blast
  have j: "job_in t (jb_id j) = Some j \<and> same_operation tenant actor (rq_operation_id request) j"
    using assms(2)
  proof (cases rule: enqueue_cases)
    case (previous a r)
    from find_SomeD [OF previous(1)] have "(a, r) \<in> set (jobs s)" "same_operation tenant actor (rq_operation_id request) j"
      by (simp_all add: previous(2))
    with row_job [OF ok, of a r] job_ok(1) [OF ok] show ?thesis by (auto simp: previous(2,3))
  next
    case (queued w nb)
    then show ?thesis
      by (auto simp: insert_job_def job_in_def delivery_event_def same_operation_def submitted_fields split: if_split_asm)
  qed
  from run_evolves [OF assms(3) okt] j obtain j' where j': "job_in u (jb_id j) = Some j'" "job_kept j j'"
    by (auto simp: evolves_def)
  with j have so: "same_operation tenant actor (rq_operation_id request') j'"
    by (simp add: same_operation_def job_kept_def assms(4))
  from j'(1) obtain q where q: "map_of (jobs u) (jb_id j) = Some q" "jr_job q = j'" by (auto simp: job_in_Some)
  obtain x where x: "find (\<lambda>(_, r). same_operation tenant actor (rq_operation_id request') (jr_job r)) (jobs u) = Some x"
    using so q map_of_SomeD [OF q(1)]
    by (cases "find (\<lambda>(_, r). same_operation tenant actor (rq_operation_id request') (jr_job r)) (jobs u)")
      (auto simp: find_None_iff)
  obtain b r where r: "x = (b, r)" by (cases x)
  from find_SomeD [OF x] have m: "(b, r) \<in> set (jobs u)" and sr: "same_operation tenant actor (rq_operation_id request') (jr_job r)"
    by (simp_all add: r)
  from m oku have row: "map_of (jobs u) b = Some r" by (simp add: jobs_ok_def rows_ok_def hm_ok_def)
  have "b = jb_id j"
    using oku row q so sr unfolding jobs_ok_def operations_ok_def same_operation_def by metis
  moreover have "jb_id (jr_job r) = b" using job_ok(1) [OF oku row_job [OF oku m]] by simp
  ultimately show ?thesis
    using assms(5) x by (auto simp: enqueue_delivery_job_def r split: sum.split_asm unit.split_asm if_split_asm)
qed

section \<open>Limits and waiting\<close>

lemma prefix_comparable: "prefix a c \<Longrightarrow> prefix b c \<Longrightarrow> prefix a b \<or> prefix b a"
  using prefix_same_cases by blast

text \<open>No path belongs to two projects of a tenant: the directories of its projects never overlap,
  and at most one of them contains a given path.\<close>

theorem a_path_has_one_project:
  assumes "reach empty_store (job_step L) s"
    and "project_in s tenant k = Some p" and "project_in s tenant k' = Some p'"
    and "within_directory (jl_workflow L) (pj_directory p) path"
    and "within_directory (jl_workflow L) (pj_directory p') path"
  shows "k = k' \<and> p = p'"
proof -
  have "overlaps (jl_workflow L) p p'"
    using assms(4,5) prefix_comparable by (auto simp: overlaps_def within_components)
  moreover have "projects_ok (jl_workflow L) s" using reach_ok [OF assms(1)] by (simp add: jobs_ok_def)
  ultimately have "k = k'" using assms(2,3) unfolding projects_ok_def project_in_def by blast
  with assms(2,3) show ?thesis by simp
qed

text \<open>What the jobs of a tenant that a restore does not hold have reserved.\<close>

definition snapshot_total :: "job_store \<Rightarrow> rstr \<Rightarrow> nat" where
  "snapshot_total s tenant =
     (\<Sum>(_, r) \<leftarrow> filter (\<lambda>(_, r). jb_tenant (jr_job r) = tenant \<and> jb_state (jr_job r) \<noteq> Suspended) (jobs s).
        ck_snapshot_bytes (jb_checks (jr_job r)))"

lemma sum_update_row:
  assumes "distinct (map fst m)" and "map_of m i = Some r" and "P i r'" and "\<And>k q. k \<noteq> i \<Longrightarrow> P k q = Q k q"
    and "\<And>q. \<not> Q i q"
  shows "(\<Sum>(k, q) \<leftarrow> filter (\<lambda>(k, q). P k q) (AList.update i r' m). f q)
    = f r' + (\<Sum>(k, q) \<leftarrow> filter (\<lambda>(k, q). Q k q) m. (f q :: nat))"
  using assms(1,2)
proof (induction m)
  case (Cons x m)
  obtain a q where x: "x = (a, q)" by (cases x)
  show ?case
  proof (cases "a = i")
    case True
    have "filter (\<lambda>(k, q). P k q) m = filter (\<lambda>(k, q). Q k q) m"
    proof (rule filter_cong [OF refl])
      fix y assume "y \<in> set m"
      with Cons.prems(1) True x have "fst y \<noteq> i" by force
      then show "(case y of (k, q) \<Rightarrow> P k q) = (case y of (k, q) \<Rightarrow> Q k q)"
        using assms(4) by (cases y) simp
    qed
    with True x assms(3,5) show ?thesis by simp
  next
    case False
    with Cons x assms(4) show ?thesis by auto
  qed
qed simp

text \<open>C32: A snapshot reservation is granted exactly within the budget: after it, the reservations of
  the tenant's jobs add up to at most the limit.\<close>

theorem snapshots_fit_the_budget:
  assumes "reach empty_store (job_step L) s"
    and "reserve_delivery_snapshot i attempt bytes limit s = Inr t" and "job_in s i = Some j"
  shows "snapshot_total t (jb_tenant j) \<le> limit \<and> snapshot_total t (jb_tenant j) = reserved_bytes s j + bytes"
proof -
  let ?j = "j\<lparr>jb_checks := (jb_checks j)\<lparr>ck_snapshot_bytes := bytes\<rparr>\<rparr>"
  note id = reach_job(1) [OF assms(1,3)]
  from assms(2,3) have st: "jb_state j = Preparing" and t: "t = save_job ?j s"
    and b: "reserved_bytes s j + bytes \<le> limit"
    by (auto simp: reserve_delivery_snapshot_def checked_add_def split: if_split_asm option.split_asm)
  from assms(3) obtain r where r: "map_of (jobs s) i = Some r" "jr_job r = j" by (auto simp: job_in_Some)
  have hm: "distinct (map fst (jobs s))"
    using reach_ok [OF assms(1)] by (simp add: jobs_ok_def rows_ok_def hm_ok_def)
  have jt: "jobs t = AList.update i (r\<lparr>jr_job := ?j\<rparr>) (jobs s)"
    by (simp add: t save_job_def update_row_def id r(1))
  have "snapshot_total t (jb_tenant j) = ck_snapshot_bytes (jb_checks (jr_job (r\<lparr>jr_job := ?j\<rparr>))) + reserved_bytes s j"
    unfolding snapshot_total_def reserved_bytes_def jt
    by (rule sum_update_row [OF hm r(1)]) (auto simp: st id)
  with b show ?thesis by simp
qed

text \<open>A worker's failure report for the running attempt retries an export fewer than five times,
  30 to 480 seconds later, and otherwise fails the job.\<close>

theorem failures_back_off:
  assumes "job_in s i = Some j" and "jb_id j = i" and "running (jb_state j)"
  shows "\<exists>j' r. map_of (jobs (fail_delivery_job i (jb_attempts j) err now s)) i = Some r \<and> jr_job r = j'
    \<and> (if jb_state j = Exporting \<and> retry_attempts j < 5
       then jb_state j' = Retrying \<and> (\<exists>w \<in> {30..480}. jr_not_before r = sat_add now w)
       else jb_state j' = Failed)
    \<and> jb_manifest j' = jb_manifest j \<and> jb_attempts j' = jb_attempts j"
proof -
  from assms(1) obtain r where r: "map_of (jobs s) i = Some r" by (auto simp: job_in_Some)
  have "min (retry_attempts j) 4 \<in> {0, 1, 2, 3, 4}" by auto
  then have w: "backoff j \<in> {30..480}" unfolding backoff_def by auto
  show ?thesis
  proof (cases "retries j")
    case True
    let ?r = "r\<lparr>jr_not_before := sat_add now (backoff j), jr_job := failed_job err now j\<rparr>"
    have row: "map_of (jobs (fail_delivery_job i (jb_attempts j) err now s)) i = Some ?r"
      using assms r True by (simp add: fail_delivery_job_def row_simps failed_job_kept set_not_before_def update_row_rows)
    have "\<exists>x \<in> {30..480}. jr_not_before ?r = sat_add now x" using w by (intro bexI [of _ "backoff j"]) simp_all
    moreover have "jb_state (failed_job err now j) = Retrying \<and> jb_manifest (failed_job err now j) = jb_manifest j
        \<and> jb_attempts (failed_job err now j) = jb_attempts j" using True by (simp add: failed_job_def)
    ultimately show ?thesis using row True by (intro exI [of _ "failed_job err now j"] exI [of _ ?r]) (simp add: retries_def)
  next
    case False
    let ?r = "r\<lparr>jr_job := failed_job err now j\<rparr>"
    have "map_of (jobs (fail_delivery_job i (jb_attempts j) err now s)) i = Some ?r"
      using assms r False by (simp add: fail_delivery_job_def row_simps failed_job_kept update_row_rows)
    moreover have "jb_state (failed_job err now j) = Failed \<and> jb_manifest (failed_job err now j) = jb_manifest j
        \<and> jb_attempts (failed_job err now j) = jb_attempts j" using False by (simp add: failed_job_def)
    ultimately show ?thesis using False by (intro exI [of _ "failed_job err now j"] exI [of _ ?r]) (simp add: retries_def)
  qed
qed

text \<open>A claim takes the earliest claimable job, under a new attempt, and runs it exactly when it
  has at most five attempts since it was last retried by hand.\<close>

theorem claims_are_earliest_and_bounded:
  assumes "reach empty_store (job_step L) s" and "claim_delivery_job owner now s = (Some j, t)"
  shows "\<exists>r. map_of (jobs s) (jb_id j) = Some r \<and> jb_attempts j = jb_attempts (jr_job r) + 1
    \<and> (\<forall>k q. (k, q) \<in> set (jobs s) \<and> claimable s owner now (k, q) \<longrightarrow>
         (jr_not_before r, jb_id j) \<le> (jr_not_before q, k))
    \<and> (if retry_attempts j \<le> 5
       then jb_state j = (if jb_manifest j \<noteq> None then Exporting else Preparing) else jb_state j = Failed)"
proof -
  obtain r where r: "map_of (jobs s) (jb_id j) = Some r" and j: "j = claimed now (jr_job r)"
    and m: "\<And>k q. (k, q) \<in> set (jobs s) \<Longrightarrow> claimable s owner now (k, q) \<Longrightarrow>
           (jr_not_before r, jb_id j) \<le> (jr_not_before q, k)"
    by (rule claim_result [OF assms(2) reach_ok [OF assms(1)]]) blast
  have "retry_attempts j = retry_attempts ((jr_job r)\<lparr>jb_attempts := jb_attempts (jr_job r) + 1\<rparr>)"
    by (simp add: j claimed_def Let_def retry_attempts_def)
  then have "if retry_attempts j \<le> 5
       then jb_state j = (if jb_manifest j \<noteq> None then Exporting else Preparing) else jb_state j = Failed"
    by (simp add: j claimed_def Let_def)
  moreover have "jb_attempts j = jb_attempts (jr_job r) + 1" by (simp add: j claimed_def Let_def)
  ultimately show ?thesis using r m by (intro exI [of _ r]) simp
qed

text \<open>C33: A delivery's snapshot is retired only a week after the last way to use it: its link
  expired or was revoked a week ago, or the job was never released and has been failed or cancelled,
  untouched, for a week.\<close>

theorem retirement_waits_a_week:
  assumes "reach empty_store (job_step L) s" and "claim_snapshot_retirement now s = (Some k, t)"
    and "job_in s (jb_id k) = Some j" and "jb_state j \<noteq> Retiring"
  shows "grant_over s (jb_id j) (now - 7 * 86400)
    \<or> (jb_state j \<in> {Failed, Cancelled} \<and> ck_released_at (jb_checks j) = None
         \<and> jb_updated_at j \<le> now - 7 * 86400)"
proof -
  have ok: "jobs_ok (jl_workflow L) s" using assms(1) by (rule reach_ok)
  from assms(2) obtain i r where "min_by_key retirement_key
      (filter (retirement_due s (now - 7 * 86400)) (jobs s)) = Some (i, r)" and k: "k = retiring_job now (jr_job r)"
    by (auto simp: claim_snapshot_retirement_def split: option.split_asm prod.split_asm)
  from min_by_key_in [OF this(1)] have m: "(i, r) \<in> set (jobs s)" and d: "retirement_due s (now - 7 * 86400) (i, r)"
    by simp_all
  from row_job [OF ok m] job_ok(1) [OF ok] assms(3) have "jr_job r = j" "jb_id j = i"
    by (auto simp: k retiring_job_def)
  with d assms(4) show ?thesis by (auto simp: retirement_due_def Let_def)
qed

section \<open>Witnesses\<close>

text \<open>A run from the empty store: a project that needs approval is saved, a delivery is submitted,
  claimed, published, approved by someone else and opened.\<close>

definition demo_jobs :: "(bool, unit) jobs_lib" where
  "demo_jobs = \<lparr>jl_workflow = demo_lib, jl_paths = ascii_path_lib, jl_stmts = demo_stmts\<rparr>"

definition new_store :: job_store where
  "new_store = \<lparr>tenants = [], projects = [], jobs = [], grants = [], manifests = [], storages = [],
     principals = [], purged_principals = [], automation_tokens = [], automation_operations = [],
     job_overrides = [], links = [], receive_workflows = [], receive_uploads = [], link_uploads = [],
     policy_cache = [], trade_routes = [], outbound_routes = [], inbound_routes = [], route_uploads = [],
     events = []\<rparr>"

definition demo_grant :: grant where
  "demo_grant = \<lparr>gr_id = lit ''j'', gr_token_hash = lit ''h'', gr_tenant = [], gr_link_id = [], gr_upload_id = [],
     gr_name = [], gr_suite = [], gr_root = [], gr_bytes = 1, gr_expires_at = 1000, gr_revoked_at = None,
     gr_notifications = None, gr_files = [\<lparr>gf_source = lit ''project/f'', gf_name = lit ''f'', gf_suite = [],
       gf_root = [], gf_bytes = 1\<rparr>], gr_share_token = None\<rparr>"

definition saved_project :: project where
  "saved_project = demo_project\<lparr>pj_revision := Suc 0\<rparr>"

definition run1 :: job_store where
  "run1 = (case save_delivery_project demo_lib [] demo_project new_store of Inr (_, t) \<Rightarrow> t | Inl _ \<Rightarrow> new_store)"

definition run2 :: job_store where
  "run2 = (case enqueue_delivery_job [] (lit ''sender'') 1 None saved_project demo_request 100 (lit ''j'') (lit ''t'') run1
     of Inr (_, t) \<Rightarrow> t | Inl _ \<Rightarrow> run1)"

definition run3 :: job_store where
  "run3 = snd (claim_delivery_job (lit ''o'') 100 run2)"

definition worker_job :: "djob option" where
  "worker_job = fst (claim_delivery_job (lit ''o'') 100 run2)"

definition run4 :: job_store where
  "run4 = (case insert_workflow_grant demo_jobs demo_grant None worker_job None 110 run3
     of Inr t \<Rightarrow> t | Inl _ \<Rightarrow> run3)"

definition run5 :: job_store where
  "run5 = (case change_delivery_job [] (lit ''j'') (lit ''approver'') False (lit ''approve'')
      (Some (replicate 64 97)) 120 run4 of Inr (_, t) \<Rightarrow> t | Inl _ \<Rightarrow> run4)"

lemma isl_case: "\<not> isl x \<Longrightarrow> (\<exists>y. x = Inr y)"
  by (cases x) auto

lemma run1_step: "job_step demo_jobs new_store run1"
proof -
  have "\<not> isl (save_delivery_project demo_lib [] demo_project new_store)" by code_simp
  then obtain p t where "save_delivery_project demo_lib [] demo_project new_store = Inr (p, t)"
    by (metis isl_case prod.collapse)
  moreover from this have "run1 = t" by (simp add: run1_def)
  ultimately show ?thesis
    by (intro job_step.save_project [where p = demo_project and p' = p and tenant = "[]"]) (simp add: demo_jobs_def)
qed

lemma run2_step: "job_step demo_jobs run1 run2"
proof -
  have "\<not> isl (enqueue_delivery_job [] (lit ''sender'') 1 None saved_project demo_request 100 (lit ''j'') (lit ''t'') run1)"
    by code_simp
  then obtain j t where e: "enqueue_delivery_job [] (lit ''sender'') 1 None saved_project demo_request 100 (lit ''j'') (lit ''t'') run1 = Inr (j, t)"
    by (metis isl_case prod.collapse)
  then have "run2 = t" by (simp add: run2_def)
  with job_step.enqueue [OF e] show ?thesis by simp
qed

lemma run3_step: "job_step demo_jobs run2 run3"
  by (rule job_step.claim [of "lit ''o''" 100 run2 worker_job]) (simp add: run3_def worker_job_def)

lemma worker_tenant: "map_option (\<lambda>j. (jb_tenant j, jb_id j)) worker_job = Some ([], lit ''j'')"
  by code_simp

lemma run3_tenant: "map_option jb_tenant (job_in run3 (lit ''j'')) = Some []"
  by code_simp

lemma run4_step: "job_step demo_jobs run3 run4"
proof -
  have "\<not> isl (insert_workflow_grant demo_jobs demo_grant None worker_job None 110 run3)"
    by code_simp
  then obtain t where e: "insert_workflow_grant demo_jobs demo_grant None worker_job None 110 run3 = Inr t"
    by (metis isl_case)
  from worker_tenant obtain w where w: "worker_job = Some w" "jb_tenant w = []" "jb_id w = lit ''j''" by auto
  from run3_tenant obtain k where k: "job_in run3 (lit ''j'') = Some k" "jb_tenant k = []" by auto
  have c: "\<forall>j. worker_job = Some j \<longrightarrow> workers_copy run3 j"
    by (simp add: w k workers_copy_def)
  from e have "run4 = t" by (simp add: run4_def)
  with job_step.publish [OF e c] show ?thesis by simp
qed

lemma run5_step: "job_step demo_jobs run4 run5"
proof -
  have "\<not> isl (change_delivery_job [] (lit ''j'') (lit ''approver'') False (lit ''approve'')
      (Some (replicate 64 97)) 120 run4)" by code_simp
  then obtain j t where e: "change_delivery_job [] (lit ''j'') (lit ''approver'') False (lit ''approve'')
      (Some (replicate 64 97)) 120 run4 = Inr (j, t)"
    by (metis isl_case prod.collapse)
  then have "run5 = t" by (simp add: run5_def)
  with job_step.change [OF e] show ?thesis by simp
qed

lemma reach_run:
  "reach empty_store (job_step demo_jobs) new_store" "reach empty_store (job_step demo_jobs) run1"
  "reach empty_store (job_step demo_jobs) run2" "reach empty_store (job_step demo_jobs) run3"
  "reach empty_store (job_step demo_jobs) run4" "reach empty_store (job_step demo_jobs) run5"
proof -
  show 0: "reach empty_store (job_step demo_jobs) new_store"
    by (rule reach_init) (simp add: empty_store_def new_store_def)
  show 1: "reach empty_store (job_step demo_jobs) run1" by (rule reach_step [OF 0 run1_step])
  show 2: "reach empty_store (job_step demo_jobs) run2" by (rule reach_step [OF 1 run2_step])
  show 3: "reach empty_store (job_step demo_jobs) run3" by (rule reach_step [OF 2 run3_step])
  show 4: "reach empty_store (job_step demo_jobs) run4" by (rule reach_step [OF 3 run4_step])
  show "reach empty_store (job_step demo_jobs) run5" by (rule reach_step [OF 4 run5_step])
qed

lemma run5_state:
  "map_option (\<lambda>j. (jb_state j, jb_approved_by j, jb_manifest j)) (job_in run5 (lit ''j''))
     = Some (Ready, Some (lit ''approver''), Some (replicate 64 97))"
  by code_simp

lemma run5_access:
  "map_sum id (map_option jb_id) (fst (delivery_access_in demo_lib (lit ''j'') (lit ''h'') 200 run5))
     = Inr (Some (lit ''j''))"
  by code_simp

lemma map_sum_InrD: "map_sum id (map_option f) x = Inr (Some y) \<Longrightarrow> \<exists>z. x = Inr (Some z) \<and> f z = y"
  by (cases x) auto

theorem access_is_authorised_witness: "job_in run5 (lit ''j'') \<noteq> None"
proof -
  from map_sum_InrD [OF run5_access] obtain j s' where
    "delivery_access_in (jl_workflow demo_jobs) (lit ''j'') (lit ''h'') 200 run5 = (Inr (Some j), s')"
    by (metis demo_jobs_def jobs_lib.select_convs(1) prod.collapse)
  from access_is_authorised [OF reach_run(6) this] show ?thesis by auto
qed

definition open_grant :: grant where
  "open_grant = demo_grant\<lparr>gr_id := lit ''g'', gr_files := [\<lparr>gf_source = lit ''other/f'', gf_name = lit ''f'',
     gf_suite = [], gf_root = [], gf_bytes = 1\<rparr>]\<rparr>"

definition run6 :: job_store where
  "run6 = (case insert_workflow_grant demo_jobs open_grant None None None 90 run1
     of Inr t \<Rightarrow> t | Inl _ \<Rightarrow> run1)"

lemma reach_run6: "reach empty_store (job_step demo_jobs) run6"
proof -
  have "\<not> isl (insert_workflow_grant demo_jobs open_grant None None None 90 run1)" by code_simp
  then obtain t where e: "insert_workflow_grant demo_jobs open_grant None None None 90 run1 = Inr t"
    by (metis isl_case)
  then have "run6 = t" by (simp add: run6_def)
  with job_step.publish [OF e] reach_step [OF reach_run(2)] show ?thesis by simp
qed

theorem open_access_is_unprotected_witness: "map_of (grants run6) (lit ''g'') \<noteq> None"
proof -
  have "map_sum id (\<lambda>x. x = None) (fst (delivery_access_in demo_lib (lit ''g'') (lit ''h'') 200 run6)) = Inr True"
    by code_simp
  then have "fst (delivery_access_in demo_lib (lit ''g'') (lit ''h'') 200 run6) = Inr None"
    by (cases "fst (delivery_access_in demo_lib (lit ''g'') (lit ''h'') 200 run6)") auto
  then have "delivery_access_in (jl_workflow demo_jobs) (lit ''g'') (lit ''h'') 200 run6
      = (Inr None, snd (delivery_access_in demo_lib (lit ''g'') (lit ''h'') 200 run6))"
    by (simp add: demo_jobs_def prod_eq_iff)
  from open_access_is_unprotected [OF reach_run6 this] show ?thesis by auto
qed

lemma run3_project: "project_in run3 [] (lit ''project'') = Some saved_project"
  by code_simp

theorem prepared_jobs_are_frozen_witness: "map_option jb_manifest (job_in run5 (lit ''j'')) = Some (Some (replicate 64 97))"
proof -
  have "map_option jb_manifest (job_in run4 (lit ''j'')) = Some (Some (replicate 64 97))" by code_simp
  then obtain j where "job_in run4 (lit ''j'') = Some j" "jb_manifest j = Some (replicate 64 97)" by auto
  from prepared_jobs_are_frozen [OF reach_run(5) r_into_rtranclp [where r = "job_step demo_jobs", OF run5_step] this]
  show ?thesis by auto
qed

lemma run3_claim:
  obtains j where "claim_delivery_job (lit ''o'') 100 run2 = (Some j, run3)" and "jb_attempts j = 1" and "jb_id j = lit ''j''"
proof -
  have "map_option (\<lambda>j. (jb_attempts j, jb_id j)) worker_job = Some (1, lit ''j'')" by code_simp
  with that show ?thesis by (auto simp: worker_job_def run3_def prod_eq_iff)
qed

theorem stale_attempts_are_fenced_witness: "fail_delivery_job (lit ''j'') 0 (lit ''late'') 130 run5 = run5"
proof -
  obtain j where j: "claim_delivery_job (lit ''o'') 100 run2 = (Some j, run3)" "jb_attempts j = 1" "jb_id j = lit ''j''"
    by (rule run3_claim)
  have run: "(job_step demo_jobs)\<^sup>*\<^sup>* run3 run5"
    using run4_step run5_step by (meson r_into_rtranclp rtranclp_trans)
  show ?thesis
    using stale_attempts_are_fenced [OF reach_run(3) j(1) run, of 0 "lit ''late''" 130] j(2,3) by simp
qed

theorem at_most_two_running_witness:
  "length (filter (\<lambda>(_, r). jb_tenant (jr_job r) = [] \<and> jr_owner r = lit ''o''
           \<and> running (jb_state (jr_job r))) (jobs run3)) \<le> 2"
  by (rule at_most_two_running [OF reach_run(4)]) (simp add: lit_def)

theorem submissions_are_idempotent_witness: "\<exists>k. enqueue_delivery_job [] (lit ''sender'') 1 None saved_project
    demo_request 300 (lit ''k'') (lit ''u'') run5 = Inr (k, run5)"
proof -
  obtain j t where e: "enqueue_delivery_job [] (lit ''sender'') 1 None saved_project demo_request 100 (lit ''j'') (lit ''t'') run1 = Inr (j, t)"
  proof -
    have "\<not> isl (enqueue_delivery_job [] (lit ''sender'') 1 None saved_project demo_request 100 (lit ''j'') (lit ''t'') run1)"
      by code_simp
    with that show thesis by (metis isl_case prod.collapse)
  qed
  then have t: "t = run2" by (simp add: run2_def)
  have run: "(job_step demo_jobs)\<^sup>*\<^sup>* t run5"
    using run3_step run4_step run5_step unfolding t by (meson r_into_rtranclp rtranclp_trans)
  have "\<not> isl (enqueue_delivery_job [] (lit ''sender'') 1 None saved_project demo_request 300 (lit ''k'') (lit ''u'') run5)"
    by code_simp
  then obtain k v where f: "enqueue_delivery_job [] (lit ''sender'') 1 None saved_project demo_request 300 (lit ''k'') (lit ''u'') run5 = Inr (k, v)"
    by (metis isl_case prod.collapse)
  from submissions_are_idempotent [OF reach_run(2) e run refl f] f show ?thesis by auto
qed

theorem a_path_has_one_project_witness:
  "project_in run3 [] (lit ''project'') = Some saved_project"
proof -
  have "within_directory demo_lib (pj_directory saved_project) (lit ''project/f'')" by code_simp
  then have w: "within_directory (jl_workflow demo_jobs) (pj_directory saved_project) (lit ''project/f'')"
    by (simp add: demo_jobs_def)
  from a_path_has_one_project [OF reach_run(4) run3_project run3_project w w] show ?thesis by (simp add: run3_project)
qed

theorem snapshots_fit_the_budget_witness:
  "\<exists>t. reserve_delivery_snapshot (lit ''j'') 1 500 1000 run3 = Inr t \<and> snapshot_total t [] \<le> 1000"
proof -
  have "\<not> isl (reserve_delivery_snapshot (lit ''j'') 1 500 1000 run3)" by code_simp
  then obtain t where t: "reserve_delivery_snapshot (lit ''j'') 1 500 1000 run3 = Inr t" by (metis isl_case)
  from run3_tenant obtain j where j: "job_in run3 (lit ''j'') = Some j" "jb_tenant j = []" by auto
  from snapshots_fit_the_budget [OF reach_run(4) t j(1)] t j(2) show ?thesis by auto
qed

theorem failures_back_off_witness:
  "\<exists>r. map_of (jobs (fail_delivery_job (lit ''j'') 1 (lit ''gone'') 130 run3)) (lit ''j'') = Some r
     \<and> jb_state (jr_job r) = Failed"
proof -
  have "map_option (\<lambda>j. (jb_id j, jb_state j, jb_attempts j)) (job_in run3 (lit ''j'')) = Some (lit ''j'', Preparing, 1)"
    by code_simp
  then obtain j where j: "job_in run3 (lit ''j'') = Some j" "jb_id j = lit ''j''" "jb_state j = Preparing" "jb_attempts j = 1"
    by auto
  from failures_back_off [OF j(1,2), of "lit ''gone''" 130] j(3,4) show ?thesis by (auto simp: running_def)
qed

theorem claims_are_earliest_and_bounded_witness: "\<exists>r. map_of (jobs run2) (lit ''j'') = Some r"
proof -
  obtain j where j: "claim_delivery_job (lit ''o'') 100 run2 = (Some j, run3)" "jb_attempts j = 1" "jb_id j = lit ''j''"
    by (rule run3_claim)
  from claims_are_earliest_and_bounded [OF reach_run(3) j(1)] j(3) show ?thesis by auto
qed

theorem retirement_waits_a_week_witness: "grant_over run5 (lit ''j'') (700000 - 7 * 86400)"
proof -
  have "map_option jb_id (fst (claim_snapshot_retirement 700000 run5)) = Some (lit ''j'')" by code_simp
  then obtain k where k: "claim_snapshot_retirement 700000 run5 = (Some k, snd (claim_snapshot_retirement 700000 run5))"
      "jb_id k = lit ''j''" by (auto simp: prod_eq_iff)
  have "map_option (\<lambda>j. (jb_id j, jb_state j)) (job_in run5 (lit ''j'')) = Some (lit ''j'', Ready)" by code_simp
  then obtain j where j: "job_in run5 (jb_id k) = Some j" "jb_id j = lit ''j''" "jb_state j = Ready"
    using k(2) by auto
  from retirement_waits_a_week [OF reach_run(6) k(1) j(1)] j(2,3) show ?thesis by simp
qed

end
