(* ===== verification/UploadStore.thy ===== *)
theory UploadStore
  imports JobOps
begin

text \<open>
  The tables of received uploads and of resumable sessions: the functions of
  \<open>server/src/store.rs\<close> that the upload worker and the boot recovery call, with
  \<open>complete\_route\<close> and \<open>check\_route\_manifest\<close> of \<open>server/src/store/routes.rs\<close>. The tables
  shared with the delivery jobs are the \<open>job_store\<close> inside. As there, a function is one
  transaction: an error commits nothing. That SQLite itself can fail is a fault of the caller's
  environment. Times and fresh identifiers are parameters.
\<close>

section \<open>Rows\<close>

text \<open>\<open>ObjectId\<close> of the transfer library: suite number, root and length.\<close>

record object_id =
  oid_suite :: nat
  oid_root :: bytes
  oid_length :: nat

record log_event =
  le_at :: nat
  le_kind :: rstr
  le_path :: "rstr option"
  le_bytes :: "nat option"
  le_secs :: "nat option"
  le_count :: "nat option"

record upload_record =
  ur_id :: rstr
  ur_started_at :: nat
  ur_completed_at :: nat
  ur_replayed :: nat
  ur_rejected :: nat
  ur_transport :: "rstr option"
  ur_package_root :: rstr
  ur_total_bytes :: nat
  ur_files :: "file_record list"
  ur_partial :: bool
  ur_log :: "log_event list"

record session_event =
  se_at :: nat
  se_started_at :: nat
  se_outcome :: rstr
  se_detail :: rstr
  se_received :: nat
  se_expected :: nat
  se_replayed :: nat
  se_rejected :: nat

datatype nas_contract = Unqualified | ServerAcknowledged

record persisted_file =
  pf_display_path :: rstr
  pf_stored :: "rstr list"
  pf_object :: object_id
  pf_staging :: "rstr list"
  pf_journal :: "rstr list"
  pf_incarnation :: bytes
  pf_profile :: commit_profile
  pf_contract :: nas_contract
  pf_prefix :: nat
  pf_published :: bool
  pf_receipt :: bool

record session_row =
  sn_link_id :: rstr
  sn_tenant :: rstr
  sn_dest_dir :: "rstr list"
  sn_dest_rel :: rstr
  sn_package :: object_id
  sn_max_total :: "nat option"
  sn_started_at :: nat
  sn_created_at :: nat
  sn_push_key :: "rstr option"
  sn_committed :: "rstr option"

text \<open>\<open>PersistedUploadSession\<close>: a session with its files, each under its entry number.\<close>

record persisted_session =
  ps_id :: rstr
  ps_link_id :: rstr
  ps_tenant :: rstr
  ps_dest_dir :: "rstr list"
  ps_dest_rel :: rstr
  ps_package :: object_id
  ps_max_total :: "nat option"
  ps_started_at :: nat
  ps_push_key :: "rstr option"
  ps_committed :: "rstr option"
  ps_files :: "(nat \<times> persisted_file) list"

text \<open>
  The columns of \<open>link\_uploads\<close>, \<open>inbound\_routes\<close> and \<open>links\<close> that no job function reads.
\<close>

record upload_header =
  uh_started_at :: nat
  uh_replayed :: nat
  uh_rejected :: nat
  uh_transport :: "rstr option"
  uh_package_root :: rstr
  uh_total_bytes :: nat
  uh_log :: "log_event list"

record route_detail =
  rt_link_id :: rstr
  rt_session_id :: "rstr option"
  rt_source :: signed_route
  rt_receipt :: "route_receipt option"

record link_detail =
  ld_events :: "session_event list"
  ld_password :: bool
  ld_active :: bool
  ld_expires_at :: "nat option"
  ld_verification :: rstr

record upload_store =
  us_jobs :: job_store
  us_headers :: "(rstr \<times> rstr \<times> rstr, upload_header) hmap"
  us_sessions :: "(rstr, session_row) hmap"
  us_files :: "(rstr \<times> nat, persisted_file) hmap"
  us_routes :: "(rstr, route_detail) hmap"
  us_links :: "(rstr, link_detail) hmap"
  us_endpoints :: "rstr list"
  us_reported :: "rstr list"

datatype upload_error =
    OfJobs workflow_error
  | AdmissionMissing
  | AdmissionChanged
  | IdentityChanged
  | RecoveryIdentityChanged
  | RecoveredFileChanged
  | RouteElsewhere
  | RouteMismatch
  | RouteManifest
  | AwaitingCleanup
  | CheckpointMissing
  | LinkPaired
  | HistoryInUse
  | SqlFailure

text \<open>
  What the store signs and words with: the statement library, the port's key, the wording of a
  refusal that a queued job records.
\<close>

record ('k, 'b) store_lib =
  sl_stmts :: "('k, 'b) stmt_lib"
  sl_key :: 'k
  sl_error_text :: "workflow_error \<Rightarrow> rstr"

text \<open>\<open>i64::try\_from(n).unwrap\_or(i64::MAX)\<close>.\<close>

definition to_i64 :: "nat \<Rightarrow> nat" where
  "to_i64 n = min n i64_max"

definition clamp_object :: "object_id \<Rightarrow> object_id" where
  "clamp_object x = x\<lparr>oid_length := to_i64 (oid_length x)\<rparr>"

section \<open>Received uploads\<close>

definition read_upload_record :: "upload_store \<Rightarrow> rstr \<Rightarrow> rstr \<Rightarrow> rstr \<Rightarrow> upload_record option" where
  "read_upload_record s tenant link i =
     (case (read_upload (us_jobs s) tenant link i, map_of (us_headers s) (tenant, link, i)) of
        (Some r, Some h) \<Rightarrow>
          Some \<lparr>ur_id = i, ur_started_at = uh_started_at h, ur_completed_at = up_completed_at r,
                ur_replayed = uh_replayed h, ur_rejected = uh_rejected h,
                ur_transport = uh_transport h, ur_package_root = uh_package_root h,
                ur_total_bytes = uh_total_bytes h, ur_files = up_files r,
                ur_partial = up_partial r, ur_log = uh_log h\<rparr>
      | _ \<Rightarrow> None)"

definition row_of_upload :: "upload_record \<Rightarrow> upload_row" where
  "row_of_upload u =
     \<lparr>up_partial = ur_partial u, up_completed_at = ur_completed_at u, up_files = ur_files u\<rparr>"

definition header_of_upload :: "upload_record \<Rightarrow> upload_header" where
  "header_of_upload u =
     \<lparr>uh_started_at = ur_started_at u, uh_replayed = ur_replayed u, uh_rejected = ur_rejected u,
      uh_transport = ur_transport u, uh_package_root = ur_package_root u,
      uh_total_bytes = ur_total_bytes u, uh_log = ur_log u\<rparr>"

text \<open>\<open>write\_upload\<close> with \<open>sync\_upload\_files\<close>, and \<open>INSERT\<close> with \<open>insert\_upload\_files\<close>.\<close>

definition write_upload :: "rstr \<Rightarrow> rstr \<Rightarrow> upload_record \<Rightarrow> upload_store \<Rightarrow> upload_store" where
  "write_upload tenant link u s =
     s\<lparr>us_jobs := (us_jobs s)\<lparr>link_uploads :=
          AList.update (tenant, link, ur_id u) (row_of_upload u) (link_uploads (us_jobs s))\<rparr>,
       us_headers := AList.update (tenant, link, ur_id u) (header_of_upload u) (us_headers s)\<rparr>"

definition insert_upload :: "rstr \<Rightarrow> rstr \<Rightarrow> upload_record \<Rightarrow> upload_store \<Rightarrow> upload_error + upload_store" where
  "insert_upload tenant link u s =
     (if list_ex (\<lambda>((t, l, i), _). l = link \<and> i = ur_id u) (link_uploads (us_jobs s)) then Inl SqlFailure
      else Inr (write_upload tenant link u s))"

text \<open>A change through \<open>iter\_mut().find\<close>.\<close>

fun update_first :: "('a \<Rightarrow> bool) \<Rightarrow> ('a \<Rightarrow> 'a) \<Rightarrow> 'a list \<Rightarrow> 'a list" where
  "update_first P g [] = []"
| "update_first P g (x # xs) = (if P x then g x # xs else x # update_first P g xs)"

text \<open>The files a recovered upload adds to the ones already recorded.\<close>

fun merge_files :: "file_record list \<Rightarrow> file_record list \<Rightarrow> upload_error + file_record list" where
  "merge_files previous [] = Inr previous"
| "merge_files previous (f # fs) =
     (case find (\<lambda>e. fr_stored_as e = fr_stored_as f) previous of
        None \<Rightarrow> merge_files (previous @ [f]) fs
      | Some e \<Rightarrow>
          if (fr_bytes e, fr_suite e, fr_root e) \<noteq> (fr_bytes f, fr_suite f, fr_root f)
          then Inl RecoveredFileChanged
          else merge_files (update_first (\<lambda>e. fr_stored_as e = fr_stored_as f)
                 (\<lambda>e. e\<lparr>fr_receipt := fr_receipt e \<or> fr_receipt f\<rparr>) previous) fs)"

text \<open>The receiving side of a signed route: a session carries at most one.\<close>

definition route_by_session :: "upload_store \<Rightarrow> rstr \<Rightarrow> (rstr \<times> inbound_row \<times> route_detail) option" where
  "route_by_session s session =
     (case find (\<lambda>(_, d). rt_session_id d = Some session) (us_routes s) of
        None \<Rightarrow> None
      | Some (i, d) \<Rightarrow> map_option (\<lambda>r. (i, r, d)) (map_of (inbound_routes (us_jobs s)) i))"

definition record_manifest :: "file_record \<Rightarrow> manifest_file" where
  "record_manifest f = (fr_path f, fr_suite f, fr_root f, fr_bytes f)"

definition check_route_manifest :: "upload_store \<Rightarrow> rstr \<Rightarrow> rstr \<Rightarrow> upload_error + unit" where
  "check_route_manifest s session manifest =
     (case route_by_session s session of
        None \<Rightarrow> Inr ()
      | Some (_, r, d) \<Rightarrow>
          if ib_revoked_at r = None \<and> rd_manifest (sr_document (rt_source d)) = manifest then Inr ()
          else Inl RouteManifest)"

definition receive_on_route ::
  "('k, 'b) store_lib \<Rightarrow> rstr \<Rightarrow> inbound_row \<Rightarrow> route_detail \<Rightarrow> upload_record \<Rightarrow> upload_store \<Rightarrow> upload_store" where
  "receive_on_route lib i r d u s =
     s\<lparr>us_jobs := (us_jobs s)\<lparr>inbound_routes :=
          AList.update i (r\<lparr>ib_upload_id := ur_id u\<rparr>) (inbound_routes (us_jobs s))\<rparr>,
       us_routes := AList.update i (d\<lparr>rt_receipt :=
          Some (sign_receipt (sl_stmts lib) (rt_source d) (ur_id u) (ur_completed_at u) (sl_key lib))\<rparr>)
          (us_routes s)\<rparr>"

definition complete_route ::
  "('k, 'b) store_lib \<Rightarrow> rstr \<Rightarrow> rstr \<Rightarrow> rstr \<Rightarrow> upload_record \<Rightarrow> upload_store \<Rightarrow> upload_error + upload_store" where
  "complete_route lib tenant link session u s =
     (case route_by_session s session of
        None \<Rightarrow> Inr s
      | Some (i, r, d) \<Rightarrow>
          if ib_tenant r \<noteq> tenant \<or> rt_link_id d \<noteq> link then Inl RouteElsewhere
          else if list_ex (\<lambda>x. ru_upload_id x = ur_id u) (route_uploads (us_jobs s)) then Inl SqlFailure
          else
            let s = s\<lparr>us_jobs := (us_jobs s)\<lparr>route_uploads := route_uploads (us_jobs s)
                        @ [\<lparr>ru_route_id = i, ru_upload_id = ur_id u, ru_partial = ur_partial u\<rparr>]\<rparr>\<rparr>
            in if ur_partial u then Inr s
               else if ib_revoked_at r \<noteq> None \<or> rt_receipt d \<noteq> None
                  \<or> route_manifest_digest (sl_stmts lib) (map record_manifest (ur_files u))
                    \<noteq> rd_manifest (sr_document (rt_source d))
               then Inl RouteMismatch
               else let s = receive_on_route lib i r d u s
                    in Inr (s\<lparr>us_jobs := delivery_event tenant [] (lit ''route_received'') (us_jobs s)\<rparr>))"

definition queue_upload ::
  "('k, 'b) store_lib \<Rightarrow> rstr \<Rightarrow> rstr \<Rightarrow> upload_record \<Rightarrow> nat \<Rightarrow> rstr \<Rightarrow> rstr \<Rightarrow> upload_store
   \<Rightarrow> upload_error + upload_store" where
  "queue_upload lib tenant link u now i token s =
     (case queue_received (sl_error_text lib) tenant link (ur_id u) (ur_partial u) now i token (us_jobs s) of
        Inl e \<Rightarrow> Inl (OfJobs e)
      | Inr j \<Rightarrow> Inr (s\<lparr>us_jobs := j\<rparr>))"

definition merged_upload :: "upload_record \<Rightarrow> upload_record \<Rightarrow> file_record list \<Rightarrow> upload_record" where
  "merged_upload previous u files =
     previous\<lparr>ur_files := files, ur_total_bytes := sum_saturating (map fr_bytes files),
              ur_completed_at := ur_completed_at u\<rparr>"

definition commit_session :: "rstr \<Rightarrow> rstr \<Rightarrow> upload_store \<Rightarrow> upload_error + upload_store" where
  "commit_session session upload s =
     (case map_of (us_sessions s) session of
        Some r \<Rightarrow> if sn_committed r = None
                  then Inr (s\<lparr>us_sessions := AList.update session (r\<lparr>sn_committed := Some upload\<rparr>) (us_sessions s)\<rparr>)
                  else Inl AdmissionChanged
      | None \<Rightarrow> Inl AdmissionChanged)"

text \<open>The tail of \<open>append\_upload\_inner\<close>: a new row, its route, its job, the session's commitment.\<close>

definition record_upload ::
  "('k, 'b) store_lib \<Rightarrow> rstr \<Rightarrow> rstr \<Rightarrow> upload_record \<Rightarrow> rstr option \<Rightarrow> nat \<Rightarrow> rstr \<Rightarrow> rstr
   \<Rightarrow> upload_store \<Rightarrow> upload_error + (rstr option \<times> upload_store)" where
  "record_upload lib tenant link u session now i token s =
     (case insert_upload tenant link u s of
        Inl e \<Rightarrow> Inl e
      | Inr s1 \<Rightarrow>
     (case (case session of None \<Rightarrow> Inr s1 | Some x \<Rightarrow> complete_route lib tenant link x u s1) of
        Inl e \<Rightarrow> Inl e
      | Inr s2 \<Rightarrow>
     (case queue_upload lib tenant link u now i token s2 of
        Inl e \<Rightarrow> Inl e
      | Inr s3 \<Rightarrow>
     (case (case session of
              None \<Rightarrow> Inr s3
            | Some x \<Rightarrow> if ur_partial u then Inr s3 else commit_session x (ur_id u) s3) of
        Inl e \<Rightarrow> Inl e
      | Inr s4 \<Rightarrow> Inr (Some (ur_id u), s4)))))"

definition append_to_link ::
  "('k, 'b) store_lib \<Rightarrow> rstr \<Rightarrow> rstr \<Rightarrow> upload_record \<Rightarrow> rstr option \<Rightarrow> nat \<Rightarrow> rstr \<Rightarrow> rstr
   \<Rightarrow> upload_store \<Rightarrow> upload_error + (rstr option \<times> upload_store)" where
  "append_to_link lib tenant link u session now i token s =
     (if map_of (links (us_jobs s)) link \<noteq> Some tenant then Inr (None, s)
      else case read_upload_record s tenant link (ur_id u) of
        None \<Rightarrow> record_upload lib tenant link u session now i token s
      | Some previous \<Rightarrow>
          if ur_partial u then
            if \<not> ur_partial previous \<or> ur_package_root previous \<noteq> ur_package_root u
            then Inl RecoveryIdentityChanged
            else (case merge_files (ur_files previous) (ur_files u) of
                    Inl e \<Rightarrow> Inl e
                  | Inr files \<Rightarrow>
                      Inr (Some (ur_id u), write_upload tenant link (merged_upload previous u files) s))
          else if session = None then
            if previous \<noteq> u then Inl IdentityChanged
            else (case queue_upload lib tenant link u now i token s of
                    Inl e \<Rightarrow> Inl e
                  | Inr s' \<Rightarrow> Inr (Some (ur_id u), s'))
          else record_upload lib tenant link u session now i token s)"

definition append_upload_inner ::
  "('k, 'b) store_lib \<Rightarrow> rstr \<Rightarrow> rstr \<Rightarrow> upload_record \<Rightarrow> rstr option \<Rightarrow> nat \<Rightarrow> rstr \<Rightarrow> rstr
   \<Rightarrow> upload_store \<Rightarrow> upload_error + (rstr option \<times> upload_store)" where
  "append_upload_inner lib tenant link u session now i token s =
     (case session of
        None \<Rightarrow> append_to_link lib tenant link u None now i token s
      | Some x \<Rightarrow>
          (case map_of (us_sessions s) x of
             None \<Rightarrow> Inl AdmissionMissing
           | Some r \<Rightarrow>
               if sn_tenant r \<noteq> tenant \<or> sn_link_id r \<noteq> link then Inl AdmissionMissing
               else if sn_committed r \<noteq> None then Inr (sn_committed r, s)
               else append_to_link lib tenant link u session now i token s))"

text \<open>Deleting a record is refused while a reception's jobs still use it.\<close>

definition remove_upload :: "rstr \<Rightarrow> rstr \<Rightarrow> rstr \<Rightarrow> upload_store \<Rightarrow> upload_error + (bool \<times> upload_store)" where
  "remove_upload tenant link upload s =
     (if receive_pending (us_jobs s) tenant link then Inl HistoryInUse
      else if map_of (links (us_jobs s)) link \<noteq> Some tenant
        \<or> \<not> contains_key (tenant, link, upload) (link_uploads (us_jobs s)) then Inr (False, s)
      else Inr (True, s\<lparr>us_jobs := (us_jobs s)\<lparr>link_uploads :=
               AList.delete (tenant, link, upload) (link_uploads (us_jobs s))\<rparr>,
             us_headers := AList.delete (tenant, link, upload) (us_headers s)\<rparr>))"

section \<open>Names already in use\<close>

definition live_files :: "upload_store \<Rightarrow> rstr \<Rightarrow> (rstr \<times> file_record) list" where
  "live_files s tenant =
     concat (map (\<lambda>((t, l, i), r). if t = tenant
        then map (Pair l) (filter (\<lambda>f. \<not> fr_deleted f) (up_files r)) else []) (link_uploads (us_jobs s)))"

text \<open>
  A candidate is a stored name with the suite and root to be stored there. A name asked for
  under two identities conflicts with any live file of that name.
\<close>

definition conflicting_stored_claims :: "upload_store \<Rightarrow> rstr \<Rightarrow> (rstr \<times> rstr \<times> rstr) list \<Rightarrow> rstr list" where
  "conflicting_stored_claims s tenant candidates =
     remdups (map (\<lambda>(_, f). fr_stored_as f) (filter (\<lambda>(_, f).
        let expected = remdups (map snd (filter (\<lambda>c. fst c = fr_stored_as f) candidates))
        in expected \<noteq> [] \<and> (length expected > 1 \<or> (fr_suite f, fr_root f) \<notin> set expected))
        (live_files s tenant)))"

definition DELIVERED_CANDIDATE_PAGE :: nat where "DELIVERED_CANDIDATE_PAGE = 128"

definition delivered_candidates ::
  "upload_store \<Rightarrow> rstr \<Rightarrow> rstr \<Rightarrow> rstr \<times> rstr \<times> nat \<Rightarrow> rstr \<Rightarrow> (rstr \<times> bool) list" where
  "delivered_candidates s tenant link object after =
     take DELIVERED_CANDIDATE_PAGE
       (sort_key fst (map (\<lambda>(_, f). (fr_stored_as f, fr_receipt f)) (filter (\<lambda>(l, f).
          l = link \<and> (fr_suite f, fr_root f, fr_bytes f) = object \<and> after < fr_stored_as f)
          (live_files s tenant))))"

section \<open>Resumable sessions\<close>

definition is_committed :: "session_row \<Rightarrow> bool" where
  "is_committed r \<longleftrightarrow> sn_committed r \<noteq> None"

definition row_of_session :: "persisted_session \<Rightarrow> nat \<Rightarrow> session_row" where
  "row_of_session p now =
     \<lparr>sn_link_id = ps_link_id p, sn_tenant = ps_tenant p, sn_dest_dir = ps_dest_dir p,
      sn_dest_rel = ps_dest_rel p, sn_package = clamp_object (ps_package p),
      sn_max_total = map_option to_i64 (ps_max_total p), sn_started_at = to_i64 (ps_started_at p),
      sn_created_at = to_i64 now, sn_push_key = ps_push_key p, sn_committed = None\<rparr>"

definition row_of_file :: "persisted_file \<Rightarrow> persisted_file" where
  "row_of_file f = f\<lparr>pf_object := clamp_object (pf_object f), pf_prefix := to_i64 (pf_prefix f)\<rparr>"

text \<open>The session row of the same identifier, or of the same push key.\<close>

definition same_admission :: "persisted_session \<Rightarrow> rstr \<times> session_row \<Rightarrow> bool" where
  "same_admission p x \<longleftrightarrow>
     fst x = ps_id p \<or> (ps_push_key p \<noteq> None \<and> sn_push_key (snd x) = ps_push_key p)"

definition replace_session :: "persisted_session \<Rightarrow> nat \<Rightarrow> upload_store \<Rightarrow> upload_store" where
  "replace_session p now s =
     s\<lparr>us_sessions := filter (\<lambda>x. \<not> same_admission p x) (us_sessions s) @ [(ps_id p, row_of_session p now)],
       us_files := filter (\<lambda>((i, _), _). i \<noteq> ps_id p
            \<and> \<not> (\<exists>x \<in> set (us_sessions s). fst x = i \<and> same_admission p x)) (us_files s)
         @ map (\<lambda>(e, f). ((ps_id p, to_i64 e), row_of_file f)) (ps_files p)\<rparr>"

definition insert_upload_session ::
  "persisted_session \<Rightarrow> nat \<Rightarrow> upload_store \<Rightarrow> upload_error + upload_store" where
  "insert_upload_session p now s =
     (if list_ex (\<lambda>x. same_admission p x \<and> is_committed (snd x)) (us_sessions s) \<or> ps_committed p \<noteq> None
      then Inl AwaitingCleanup
      else if \<not> distinct (map (\<lambda>(e, _). to_i64 e) (ps_files p)) then Inl SqlFailure
      else Inr (replace_session p now s))"

type_synonym progress = "nat \<times> nat \<times> bool \<times> bool"

fun update_rows :: "rstr \<Rightarrow> progress list \<Rightarrow> upload_store \<Rightarrow> upload_error + upload_store" where
  "update_rows session [] s = Inr s"
| "update_rows session ((entry, prefx, published, receipt) # rows) s =
     (case map_of (us_files s) (session, to_i64 entry) of
        None \<Rightarrow> Inl CheckpointMissing
      | Some f \<Rightarrow>
          update_rows session rows (s\<lparr>us_files := AList.update (session, to_i64 entry)
            (f\<lparr>pf_prefix := to_i64 prefx, pf_published := published, pf_receipt := receipt\<rparr>) (us_files s)\<rparr>))"

definition stamp_session :: "rstr \<Rightarrow> nat \<Rightarrow> upload_store \<Rightarrow> upload_store" where
  "stamp_session session now s =
     (case map_of (us_sessions s) session of
        None \<Rightarrow> s
      | Some r \<Rightarrow> s\<lparr>us_sessions := AList.update session (r\<lparr>sn_created_at := to_i64 now\<rparr>) (us_sessions s)\<rparr>)"

definition update_upload_file_progress ::
  "rstr \<Rightarrow> progress list \<Rightarrow> nat \<Rightarrow> upload_store \<Rightarrow> upload_error + upload_store" where
  "update_upload_file_progress session rows now s =
     (case update_rows session rows s of Inl e \<Rightarrow> Inl e | Inr s' \<Rightarrow> Inr (stamp_session session now s'))"

definition pending_upload_paths :: "upload_store \<Rightarrow> rstr \<Rightarrow> (rstr \<times> rstr list) list" where
  "pending_upload_paths s tenant =
     concat (map (\<lambda>(i, r). if sn_tenant r = tenant \<and> \<not> is_committed r
        then map (\<lambda>(_, f). (sn_dest_rel r, pf_stored f))
               (filter (\<lambda>((j, _), f). j = i \<and> \<not> pf_published f) (us_files s))
        else []) (us_sessions s))"

definition session_files :: "upload_store \<Rightarrow> rstr \<Rightarrow> (nat \<times> persisted_file) list" where
  "session_files s i =
     sort_key fst (map (\<lambda>((_, e), f). (e, f)) (filter (\<lambda>((j, _), _). j = i) (us_files s)))"

definition load_row :: "upload_store \<Rightarrow> rstr \<times> session_row \<Rightarrow> persisted_session" where
  "load_row s x =
     (case x of (i, r) \<Rightarrow>
       \<lparr>ps_id = i, ps_link_id = sn_link_id r, ps_tenant = sn_tenant r, ps_dest_dir = sn_dest_dir r,
        ps_dest_rel = sn_dest_rel r, ps_package = sn_package r, ps_max_total = sn_max_total r,
        ps_started_at = sn_started_at r, ps_push_key = sn_push_key r, ps_committed = sn_committed r,
        ps_files = session_files s i\<rparr>)"

definition load_sessions :: "upload_store \<Rightarrow> bool \<Rightarrow> rstr option \<Rightarrow> persisted_session list" where
  "load_sessions s push_only key =
     map (load_row s) (sort_key (sn_created_at \<circ> snd) (filter (\<lambda>(_, r).
        (\<not> push_only \<or> sn_push_key r \<noteq> None) \<and> (key = None \<or> sn_push_key r = key)) (us_sessions s)))"

definition load_push_session :: "upload_store \<Rightarrow> rstr \<Rightarrow> persisted_session option" where
  "load_push_session s key =
     (case load_sessions s True (Some key) of [] \<Rightarrow> None | p # _ \<Rightarrow> Some p)"

definition delete_upload_session :: "rstr \<Rightarrow> upload_store \<Rightarrow> upload_store" where
  "delete_upload_session i s =
     s\<lparr>us_files := filter (\<lambda>((j, _), _). j \<noteq> i) (us_files s),
       us_sessions := AList.delete i (us_sessions s),
       us_reported := filter (\<lambda>j. j \<noteq> i) (us_reported s)\<rparr>"

definition interruption_reported :: "upload_store \<Rightarrow> rstr \<Rightarrow> bool" where
  "interruption_reported s i \<longleftrightarrow> i \<in> set (us_reported s)"

definition set_interruption_reported :: "rstr \<Rightarrow> bool \<Rightarrow> upload_store \<Rightarrow> upload_store" where
  "set_interruption_reported i reported s =
     s\<lparr>us_reported := (if reported then List.insert i (us_reported s)
                      else filter (\<lambda>j. j \<noteq> i) (us_reported s))\<rparr>"

section \<open>What a link remembers of failed sessions\<close>

definition EVENTS_KEPT :: nat where "EVENTS_KEPT = 20"

definition keep_events :: "session_event list \<Rightarrow> session_event list" where
  "keep_events es = (if length es > EVENTS_KEPT then drop (length es - EVENTS_KEPT) es else es)"

text \<open>\<open>update\_link\<close> with the closure of \<open>record\_session\_event\<close>.\<close>

definition record_session_event ::
  "rstr \<Rightarrow> rstr \<Rightarrow> session_event \<Rightarrow> upload_store \<Rightarrow> upload_error + (bool \<times> upload_store)" where
  "record_session_event tenant link e s =
     (if map_of (links (us_jobs s)) link \<noteq> Some tenant then Inr (False, s)
      else case map_of (us_links s) link of
        None \<Rightarrow> Inr (False, s)
      | Some d \<Rightarrow>
          if ld_password d \<and> link \<in> set (us_endpoints s) then Inl LinkPaired
          else Inr (True, s\<lparr>us_links := AList.update link
                 (d\<lparr>ld_events := keep_events (ld_events d @ [e])\<rparr>) (us_links s)\<rparr>))"

end
