(* ===== verification/Fallible.thy ===== *)
theory Fallible
  imports Votport_Base
begin

text \<open>
  Fallible steps on a state, the shape of the functions that touch storage: a step takes the
  state and returns an error or a result, with the state after it, because what was done
  before an error stays done. \<open>and_then\<close> is the \<open>?\<close> operator between two steps. \<open>keeps R f\<close>
  says that a step, whether it fails or not, moves the state along \<open>R\<close>; for a preorder \<open>R\<close>
  it is closed under the ways steps are put together.
\<close>

definition and_then ::
  "('s \<Rightarrow> ('e + 'a) \<times> 's) \<Rightarrow> ('a \<Rightarrow> 's \<Rightarrow> ('e + 'b) \<times> 's) \<Rightarrow> 's \<Rightarrow> ('e + 'b) \<times> 's" where
  "and_then f g s = (case f s of (Inl e, t) \<Rightarrow> (Inl e, t) | (Inr a, t) \<Rightarrow> g a t)"

definition yields :: "'a \<Rightarrow> 's \<Rightarrow> ('e + 'a) \<times> 's" where
  "yields a s = (Inr a, s)"

definition fails :: "'e \<Rightarrow> 's \<Rightarrow> ('e + 'a) \<times> 's" where
  "fails e s = (Inl e, s)"

definition ensures :: "('s \<Rightarrow> bool) \<Rightarrow> 'e \<Rightarrow> 's \<Rightarrow> ('e + unit) \<times> 's" where
  "ensures P e s = (if P s then Inr () else Inl e, s)"

text \<open>A result computed without touching the state, with its error reworded.\<close>

definition checks :: "('x \<Rightarrow> 'e) \<Rightarrow> 'x + 'a \<Rightarrow> 's \<Rightarrow> ('e + 'a) \<times> 's" where
  "checks h r s = (case r of Inl x \<Rightarrow> Inl (h x) | Inr a \<Rightarrow> Inr a, s)"

text \<open>A step that only reads, one that only writes, and a step with its error reworded.\<close>

definition looks :: "('s \<Rightarrow> 'e + 'a) \<Rightarrow> 's \<Rightarrow> ('e + 'a) \<times> 's" where
  "looks f s = (f s, s)"

definition modifies :: "('s \<Rightarrow> 's) \<Rightarrow> 's \<Rightarrow> ('e + unit) \<times> 's" where
  "modifies f s = (Inr (), f s)"

definition rewords :: "('x \<Rightarrow> 'e) \<Rightarrow> ('s \<Rightarrow> ('x + 'a) \<times> 's) \<Rightarrow> 's \<Rightarrow> ('e + 'a) \<times> 's" where
  "rewords h f s = (case f s of (Inl x, t) \<Rightarrow> (Inl (h x), t) | (Inr a, t) \<Rightarrow> (Inr a, t))"

text \<open>A step on the second part of a pair.\<close>

definition lifted :: "('s \<Rightarrow> 'r \<times> 's) \<Rightarrow> 'x \<times> 's \<Rightarrow> 'r \<times> ('x \<times> 's)" where
  "lifted f p = (case p of (x, s) \<Rightarrow> (case f s of (r, t) \<Rightarrow> (r, (x, t))))"

definition keeps :: "('s \<Rightarrow> 's \<Rightarrow> bool) \<Rightarrow> ('s \<Rightarrow> 'r \<times> 's) \<Rightarrow> bool" where
  "keeps R f \<longleftrightarrow> (\<forall>s. R s (snd (f s)))"

named_theorems keeps_rules \<open>steps that move the state along a preorder\<close>

lemma and_then_Inr:
  "and_then f g s = (Inr b, t) \<longleftrightarrow> (\<exists>a u. f s = (Inr a, u) \<and> g a u = (Inr b, t))"
  by (auto simp: and_then_def split: prod.splits sum.splits)

lemma and_then_cases:
  assumes "and_then f g s = (r, t)"
  obtains e where "f s = (Inl e, t)" "r = Inl e"
    | a u where "f s = (Inr a, u)" "g a u = (r, t)"
  using assms by (auto simp: and_then_def split: prod.splits sum.splits)

lemma and_then_simps [simp]:
  "f s = (Inr a, t) \<Longrightarrow> and_then f g s = g a t"
  "f s = (Inl e, t) \<Longrightarrow> and_then f g s = (Inl e, t)"
  by (simp_all add: and_then_def)

lemma yields_Inr [simp]: "yields a s = (r, t) \<longleftrightarrow> r = Inr a \<and> t = s"
  by (auto simp: yields_def)

lemma fails_Inl [simp]: "fails e s = (r, t) \<longleftrightarrow> r = Inl e \<and> t = s"
  by (auto simp: fails_def)

lemma ensures_Inr: "ensures P e s = (Inr x, t) \<longleftrightarrow> P s \<and> t = s"
  by (auto simp: ensures_def)

lemma checks_Inr: "checks h r s = (Inr a, t) \<longleftrightarrow> r = Inr a \<and> t = s"
  by (auto simp: checks_def split: sum.splits)

lemma looks_simp [simp]: "looks f s = (r, t) \<longleftrightarrow> r = f s \<and> t = s"
  by (auto simp: looks_def)

lemma modifies_simp [simp]: "modifies f s = (r, t) \<longleftrightarrow> r = Inr () \<and> t = f s"
  by (auto simp: modifies_def)

lemma rewords_Inr: "rewords h f s = (Inr a, t) \<longleftrightarrow> f s = (Inr a, t)"
  by (auto simp: rewords_def split: prod.splits sum.splits)

lemma rewords_snd [simp]: "snd (rewords h f s) = snd (f s)"
  by (auto simp: rewords_def split: prod.splits sum.splits)

lemma lifted_simp: "lifted f (x, s) = (r, (y, t)) \<longleftrightarrow> f s = (r, t) \<and> y = x"
  by (auto simp: lifted_def split: prod.splits)

lemma keepsI: "(\<And>s r t. f s = (r, t) \<Longrightarrow> R s t) \<Longrightarrow> keeps R f"
  unfolding keeps_def by (metis prod.collapse)

lemma keepsD: "keeps R f \<Longrightarrow> f s = (r, t) \<Longrightarrow> R s t"
  unfolding keeps_def by (metis snd_conv)

lemma keeps_and_then [keeps_rules]:
  assumes "transp R" "keeps R f" "\<And>a. keeps R (g a)"
  shows "keeps R (and_then f g)"
proof (rule keepsI)
  fix s r t assume "and_then f g s = (r, t)"
  then show "R s t"
    using assms by (cases rule: and_then_cases) (auto dest: keepsD transpD)
qed

lemma keeps_yields [keeps_rules]: "reflp R \<Longrightarrow> keeps R (yields a)"
  by (auto simp: keeps_def yields_def dest: reflpD)

lemma keeps_fails [keeps_rules]: "reflp R \<Longrightarrow> keeps R (fails e)"
  by (auto simp: keeps_def fails_def dest: reflpD)

lemma keeps_ensures [keeps_rules]: "reflp R \<Longrightarrow> keeps R (ensures P e)"
  by (auto simp: keeps_def ensures_def dest: reflpD)

lemma keeps_checks [keeps_rules]: "reflp R \<Longrightarrow> keeps R (checks h r)"
  by (auto simp: keeps_def checks_def dest: reflpD)

lemma keeps_looks [keeps_rules]: "reflp R \<Longrightarrow> keeps R (looks f)"
  by (auto simp: keeps_def looks_def dest: reflpD)

lemma keeps_modifies [keeps_rules]: "(\<And>s. R s (f s)) \<Longrightarrow> keeps R (modifies f)"
  by (auto simp: keeps_def modifies_def)

lemma keeps_rewords [keeps_rules]: "keeps R f \<Longrightarrow> keeps R (rewords h f)"
  by (simp add: keeps_def)

lemma keeps_if [keeps_rules]: "(b \<Longrightarrow> keeps R f) \<Longrightarrow> (\<not> b \<Longrightarrow> keeps R g) \<Longrightarrow> keeps R (if b then f else g)"
  by simp

text \<open>
  A loop over a list that stops at the first error, and the same loop collecting results.
\<close>

fun each_step :: "('x \<Rightarrow> 's \<Rightarrow> ('e + 'a) \<times> 's) \<Rightarrow> 'x list \<Rightarrow> 's \<Rightarrow> ('e + 'a list) \<times> 's" where
  "each_step f [] s = (Inr [], s)"
| "each_step f (x # xs) s =
     (case f x s of
        (Inl e, t) \<Rightarrow> (Inl e, t)
      | (Inr a, t) \<Rightarrow> (case each_step f xs t of (Inl e, u) \<Rightarrow> (Inl e, u) | (Inr as, u) \<Rightarrow> (Inr (a # as), u)))"

lemma keeps_each_step [keeps_rules]:
  assumes "reflp R" "transp R" "\<And>x. keeps R (f x)"
  shows "keeps R (each_step f xs)"
proof (induction xs)
  case Nil
  then show ?case using assms(1) by (auto simp: keeps_def dest: reflpD)
next
  case (Cons x xs)
  show ?case
  proof (rule keepsI)
    fix s r t assume h: "each_step f (x # xs) s = (r, t)"
    obtain q u where f: "f x s = (q, u)" by (cases "f x s")
    with assms(3) have su: "R s u" by (auto dest: keepsD)
    show "R s t"
    proof (cases q)
      case (Inl e)
      with f h su show ?thesis by simp
    next
      case (Inr a)
      obtain p v where g: "each_step f xs u = (p, v)" by (cases "each_step f xs u")
      with Cons have "R u v" by (auto dest: keepsD)
      moreover from f h Inr g have "t = v" by (simp split: sum.splits)
      ultimately show ?thesis using su assms(2) by (auto dest: transpD)
    qed
  qed
qed

lemma each_step_length: "each_step f xs s = (Inr as, t) \<Longrightarrow> length as = length xs"
  by (induction xs arbitrary: s as t) (auto split: prod.splits sum.splits)

end
