(* ===== verification/UploadFiles.thy ===== *)
theory UploadFiles
  imports UploadStore Fallible
begin

text \<open>
  The files of an upload session, from \<open>server/src/session.rs\<close>: the names they may take, the
  staging each is written to (\<open>StagedFile\<close>), the checks before a file is published, and the
  resume record that a checkpoint keeps.

  Outside the repository are the transfer library (package ingest, range verification,
  coverage, native staging files), the file system, the clocks and SQLite's own failures: the
  fields of \<open>upload_env\<close>, which read and change a world of type \<open>'w\<close>. Handles of the library are
  numbers; \<open>'v\<close> is a verified slice, \<open>'c\<close> a coverage. A function that may fail part of the way is
  a step on \<open>machine\<close>, the tables and the world.
\<close>

section \<open>The world\<close>

datatype refusal =
    Told rstr
  | OfPath path_error
  | OfStore upload_error
  | OfVerification verification_error

datatype session_error =
    Bad refusal
  | Conflict refusal
  | Unavailable refusal
  | Internal refusal

definition status_of :: "session_error \<Rightarrow> nat" where
  "status_of e = (case e of Bad _ \<Rightarrow> 422 | Conflict _ \<Rightarrow> 409 | Unavailable _ \<Rightarrow> 503 | Internal _ \<Rightarrow> 500)"

datatype entry_storage = Direct | Packed

record package_entry =
  pe_path :: "rstr list"
  pe_object :: object_id
  pe_storage :: entry_storage

datatype create_error = AlreadyExists | CreateFailed rstr
datatype accept_error = RangeInFlight | WriteFailed rstr
datatype range_status = RangeAccepted | RangeReplay

record acceptance =
  ac_status :: range_status
  ac_covered :: nat
  ac_total :: nat

record resume_state =
  rs_staging :: rstr
  rs_journal :: rstr
  rs_incarnation :: bytes
  rs_profile :: commit_profile
  rs_contract :: nas_contract
  rs_runs :: "(nat \<times> nat) list"

text \<open>An opened file: its length when it is a regular file, and what a read at an offset with a
  limit returns, nothing at the end.\<close>

record opened_file =
  of_length :: "nat option"
  of_read :: "nat \<Rightarrow> nat \<Rightarrow> rstr + bytes"

record ('w, 'v, 'c, 'k, 'b) upload_env =
  ue_lib :: "('k, 'b) store_lib"
  ue_paths :: path_lib
  ue_wording :: "session_error \<Rightarrow> rstr"
  ue_hex :: "bytes \<Rightarrow> rstr"
  ue_nfc :: "rstr \<Rightarrow> rstr"
  ue_folded :: "rstr \<Rightarrow> rstr"
  ue_suite_ok :: "nat \<Rightarrow> bool"
  ue_hash :: "nat \<Rightarrow> bytes list \<Rightarrow> rstr + bytes"
  pk_new :: "bytes \<Rightarrow> object_id \<Rightarrow> 'w \<Rightarrow> (rstr + nat) \<times> 'w"
  pk_pages :: "nat \<Rightarrow> 'w \<Rightarrow> nat"
  pk_push :: "nat \<Rightarrow> bytes \<Rightarrow> 'w \<Rightarrow> (rstr + package_entry list) \<times> 'w"
  pk_finish :: "nat \<Rightarrow> 'w \<Rightarrow> (rstr + nat) \<times> 'w"
  ve_range :: "object_id \<Rightarrow> nat \<Rightarrow> bytes \<Rightarrow> bytes \<Rightarrow> rstr + 'v"
  co_new :: "object_id \<Rightarrow> 'c"
  co_from_runs :: "object_id \<Rightarrow> (nat \<times> nat) list \<Rightarrow> rstr + 'c"
  co_accept :: "'v \<Rightarrow> 'c \<Rightarrow> rstr + 'c"
  co_covered :: "'c \<Rightarrow> nat"
  co_prefix :: "'c \<Rightarrow> nat"
  co_runs :: "'c \<Rightarrow> (nat \<times> nat) list"
  co_object :: "'c \<Rightarrow> object_id"
  wd_live :: "'w \<Rightarrow> bool"
  wd_open :: "rstr list \<Rightarrow> bool \<Rightarrow> 'w \<Rightarrow> (rstr + nat) \<times> 'w"
  wd_create :: "nat \<Rightarrow> object_id \<Rightarrow> rstr \<Rightarrow> commit_profile \<Rightarrow> 'w \<Rightarrow> (create_error + nat) \<times> 'w"
  wd_resume :: "nat \<Rightarrow> object_id \<Rightarrow> rstr \<Rightarrow> resume_state \<Rightarrow> 'w \<Rightarrow> (rstr + nat) \<times> 'w"
  wd_recover :: "nat \<Rightarrow> object_id \<Rightarrow> rstr \<Rightarrow> resume_state \<Rightarrow> 'w \<Rightarrow> (rstr + rstr) \<times> 'w"
  wd_forget :: "nat \<Rightarrow> rstr \<Rightarrow> resume_state \<Rightarrow> 'w \<Rightarrow> (rstr + unit) \<times> 'w"
  wd_location :: "nat \<Rightarrow> rstr \<Rightarrow> 'w \<Rightarrow> rstr + nat"
  wd_current :: "nat \<Rightarrow> 'w \<Rightarrow> rstr + unit"
  wd_remote :: "rstr list \<Rightarrow> 'w \<Rightarrow> rstr + bool"
  wd_exists :: "rstr list \<Rightarrow> 'w \<Rightarrow> rstr + bool"
  wd_journal_exists :: "rstr list \<Rightarrow> 'w \<Rightarrow> rstr + bool"
  wd_stat :: "rstr list \<Rightarrow> 'w \<Rightarrow> nat option"
  wd_read :: "rstr list \<Rightarrow> 'w \<Rightarrow> rstr + opened_file"
  nf_staging :: "nat \<Rightarrow> 'w \<Rightarrow> rstr list"
  nf_journal :: "nat \<Rightarrow> 'w \<Rightarrow> rstr list"
  nf_incarnation :: "nat \<Rightarrow> 'w \<Rightarrow> bytes"
  nf_metadata :: "nat \<Rightarrow> 'w \<Rightarrow> nat list option"
  nf_recovery :: "nat \<Rightarrow> 'w \<Rightarrow> bool"
  nf_read :: "nat \<Rightarrow> 'w \<Rightarrow> rstr + opened_file"
  nf_accept :: "nat \<Rightarrow> 'v \<Rightarrow> 'w \<Rightarrow> (accept_error + acceptance) \<times> 'w"
  nf_publish :: "nat \<Rightarrow> 'w \<Rightarrow> (rstr + unit) \<times> 'w"
  nf_observation :: "nat \<Rightarrow> 'w \<Rightarrow> rstr option"
  nf_abandon :: "nat \<Rightarrow> 'w \<Rightarrow> 'w"
  nf_remove :: "nat \<Rightarrow> 'w \<Rightarrow> 'w"
  sidecar :: "nat \<Rightarrow> object_id \<Rightarrow> rstr \<Rightarrow> rstr \<Rightarrow> commit_profile \<Rightarrow> 'w \<Rightarrow> bool \<times> 'w"
  instant :: "'w \<Rightarrow> nat"
  unix_now :: "'w \<Rightarrow> nat"
  sleep :: "nat \<Rightarrow> 'w \<Rightarrow> 'w"
  receive :: "'w \<Rightarrow> 'w"
  arrived :: "'w \<Rightarrow> nat"
  schedule :: "nat \<Rightarrow> 'w \<Rightarrow> nat list"
  fresh_token :: "'w \<Rightarrow> rstr \<times> 'w"
  db_ok :: "'w \<Rightarrow> bool \<times> 'w"

record 'w machine =
  m_store :: upload_store
  m_world :: 'w

text \<open>\<open>WorkerSetup\<close>: \<open>ws_contract\<close> is the contract of its destinations.\<close>

record worker_setup =
  ws_link :: rstr
  ws_tenant :: rstr
  ws_client_ip :: rstr
  ws_dest_dir :: "rstr list"
  ws_dest_rel :: rstr
  ws_package :: object_id
  ws_max_total :: nat
  ws_allow_hidden :: bool
  ws_verification :: rstr
  ws_session :: rstr
  ws_started_at :: nat
  ws_quiet_after :: nat
  ws_contract :: nas_contract

text \<open>
  A transaction: SQLite may fail, the function may refuse, and then nothing is written. A query
  writes nothing.
\<close>

definition transact ::
  "('w, 'v, 'c, 'k, 'b) upload_env \<Rightarrow> (upload_store \<Rightarrow> upload_error + ('a \<times> upload_store))
   \<Rightarrow> 'w machine \<Rightarrow> (upload_error + 'a) \<times> 'w machine" where
  "transact env f m =
     (case db_ok env (m_world m) of (ok, w) \<Rightarrow>
        if \<not> ok then (Inl SqlFailure, m\<lparr>m_world := w\<rparr>)
        else case f (m_store m) of
               Inl e \<Rightarrow> (Inl e, m\<lparr>m_world := w\<rparr>)
             | Inr (a, s) \<Rightarrow> (Inr a, m\<lparr>m_store := s, m_world := w\<rparr>))"

definition queries ::
  "('w, 'v, 'c, 'k, 'b) upload_env \<Rightarrow> (upload_store \<Rightarrow> upload_error + 'a)
   \<Rightarrow> 'w machine \<Rightarrow> (upload_error + 'a) \<times> 'w machine" where
  "queries env f = transact env (\<lambda>s. map_sum id (\<lambda>a. (a, s)) (f s))"

definition world_step :: "('w \<Rightarrow> 'r \<times> 'w) \<Rightarrow> 'w machine \<Rightarrow> 'r \<times> 'w machine" where
  "world_step f m = (case f (m_world m) of (r, w) \<Rightarrow> (r, m\<lparr>m_world := w\<rparr>))"

definition told :: "string \<Rightarrow> refusal" where "told s = Told (lit s)"

definition lost :: session_error where
  "lost = Internal (told ''receiving storage ownership was lost'')"

definition checked_live :: "('w, 'v, 'c, 'k, 'b) upload_env \<Rightarrow> 'x \<times> 'w machine \<Rightarrow> (session_error + unit) \<times> 'x \<times> 'w machine" where
  "checked_live env = ensures (\<lambda>(_, m). wd_live env (m_world m)) lost"

section \<open>Staged files\<close>

record 'c staged =
  sf_destination :: "rstr list"
  sf_staging :: "rstr list"
  sf_journal :: "rstr list"
  sf_incarnation :: bytes
  sf_profile :: commit_profile
  sf_contract :: nas_contract
  sf_coverage :: 'c
  sf_active :: "nat option"
  sf_directory :: "nat option"
  sf_reopened :: bool
  sf_metadata :: "nat list option"
  sf_preserve :: bool

record 'c file_state =
  fs_display :: rstr
  fs_stored :: rstr
  fs_object :: object_id
  fs_native :: "'c staged option"
  fs_published :: bool
  fs_receipt :: bool
  fs_checkpointed :: "(nat \<times> bool \<times> bool) option"
  fs_first_range :: "nat option"
  fs_rehash :: bool

definition park_staged :: "('w, 'v, 'c, 'k, 'b) upload_env \<Rightarrow> 'c staged \<times> 'w machine \<Rightarrow> 'c staged \<times> 'w machine" where
  "park_staged env s =
     (case s of (st, m) \<Rightarrow>
        case sf_active st of
          None \<Rightarrow> (st\<lparr>sf_directory := None\<rparr>, m)
        | Some n \<Rightarrow>
            (st\<lparr>sf_active := None, sf_directory := None,
                sf_preserve := sf_preserve st \<or> nf_recovery env n (m_world m),
                sf_metadata := nf_metadata env n (m_world m)\<rparr>,
             m\<lparr>m_world := nf_abandon env n (m_world m)\<rparr>))"

definition new_staged ::
  "('w, 'v, 'c, 'k, 'b) upload_env \<Rightarrow> worker_setup \<Rightarrow> nat \<Rightarrow> rstr list \<Rightarrow> 'c \<Rightarrow> commit_profile
   \<Rightarrow> 'w machine \<Rightarrow> 'c staged \<times> 'w machine" where
  "new_staged env setup n destination coverage profile m =
     park_staged env
       (\<lparr>sf_destination = destination, sf_staging = nf_staging env n (m_world m),
         sf_journal = nf_journal env n (m_world m), sf_incarnation = nf_incarnation env n (m_world m),
         sf_profile = profile, sf_contract = ws_contract setup, sf_coverage = coverage,
         sf_active = Some n, sf_directory = None, sf_reopened = False, sf_metadata = None,
         sf_preserve = False\<rparr>, m)"

text \<open>\<open>Path::file\_name\<close> of a path as its components, \<open>unwrap\_or\_default\<close>.\<close>

definition file_name :: "rstr list \<Rightarrow> rstr" where
  "file_name path = (if path = [] then [] else last path)"

definition resume_of :: "('w, 'v, 'c, 'k, 'b) upload_env \<Rightarrow> 'c staged \<Rightarrow> resume_state" where
  "resume_of env st =
     \<lparr>rs_staging = file_name (sf_staging st), rs_journal = file_name (sf_journal st), rs_incarnation = sf_incarnation st,
      rs_profile = sf_profile st, rs_contract = sf_contract st, rs_runs = co_runs env (sf_coverage st)\<rparr>"

definition staged_directory ::
  "('w, 'v, 'c, 'k, 'b) upload_env \<Rightarrow> 'c staged \<times> 'w machine \<Rightarrow> (session_error + nat) \<times> 'c staged \<times> 'w machine" where
  "staged_directory env =
     and_then (checked_live env) (\<lambda>_ s.
       case sf_directory (fst s) of
         Some d \<Rightarrow> yields d s
       | None \<Rightarrow> rewords (Internal \<circ> Told)
                  (lifted (world_step (wd_open env (butlast (sf_destination (fst s))) False))) s)"

definition attach :: "('w, 'v, 'c, 'k, 'b) upload_env \<Rightarrow> nat \<Rightarrow> nat \<Rightarrow> 'c staged \<times> 'w machine \<Rightarrow> 'c staged \<times> 'w machine" where
  "attach env d n s =
     (case s of (st, m) \<Rightarrow>
        (st\<lparr>sf_reopened := sf_reopened st \<or> sf_metadata st = None
                           \<or> sf_metadata st \<noteq> nf_metadata env n (m_world m),
            sf_active := Some n, sf_directory := Some d\<rparr>, m))"

definition reopen ::
  "('w, 'v, 'c, 'k, 'b) upload_env \<Rightarrow> 'c staged \<times> 'w machine \<Rightarrow> (session_error + unit) \<times> 'c staged \<times> 'w machine" where
  "reopen env =
     and_then (checked_live env) (\<lambda>_ s.
       if sf_active (fst s) \<noteq> None then yields () s
       else and_then (staged_directory env) (\<lambda>d s.
              and_then (rewords (\<lambda>e. Internal (Told (lit ''reopen staging: '' @ e))) (lifted (world_step
                  (wd_resume env d (co_object env (sf_coverage (fst s))) (last (sf_destination (fst s)))
                     (resume_of env (fst s))))))
                (\<lambda>n. modifies (attach env d n)) s) s)"

definition not_open :: session_error where "not_open = Internal (told ''staging is not open'')"

definition active_native ::
  "('w, 'v, 'c, 'k, 'b) upload_env \<Rightarrow> 'c staged \<times> 'w machine \<Rightarrow> (session_error + nat) \<times> 'c staged \<times> 'w machine" where
  "active_native env =
     and_then (checked_live env) (\<lambda>_. looks (\<lambda>(st, _).
       case sf_active st of None \<Rightarrow> Inl not_open | Some n \<Rightarrow> Inr n))"

text \<open>\<open>Drop\<close>: staging that must be preserved is parked, anything else is removed by the library.\<close>

definition drop_staged :: "('w, 'v, 'c, 'k, 'b) upload_env \<Rightarrow> 'c staged \<Rightarrow> 'w machine \<Rightarrow> 'w machine" where
  "drop_staged env st m =
     (if sf_preserve st \<or> \<not> wd_live env (m_world m) then snd (park_staged env (st, m))
      else case reopen env (st, m) of (_, st, m) \<Rightarrow>
        (case sf_active st of None \<Rightarrow> m | Some n \<Rightarrow> m\<lparr>m_world := nf_remove env n (m_world m)\<rparr>))"

definition drop_files :: "('w, 'v, 'c, 'k, 'b) upload_env \<Rightarrow> 'c file_state list \<Rightarrow> 'w machine \<Rightarrow> 'w machine" where
  "drop_files env files m =
     fold (\<lambda>f m. case fs_native f of None \<Rightarrow> m | Some st \<Rightarrow> drop_staged env st m) files m"

text \<open>A step on the staging of a file, whose loss is an internal error.\<close>

definition state_lost :: session_error where "state_lost = Internal (told ''file state lost'')"

definition on_staged ::
  "('c staged \<times> 'w machine \<Rightarrow> (session_error + 'a) \<times> 'c staged \<times> 'w machine)
   \<Rightarrow> 'c file_state \<times> 'w machine \<Rightarrow> (session_error + 'a) \<times> 'c file_state \<times> 'w machine" where
  "on_staged f s =
     (case s of (file, m) \<Rightarrow>
        case fs_native file of
          None \<Rightarrow> (Inl state_lost, file, m)
        | Some st \<Rightarrow> (case f (st, m) of (r, st', m') \<Rightarrow> (r, file\<lparr>fs_native := Some st'\<rparr>, m')))"

section \<open>Verifying what was staged\<close>

text \<open>
  The read loop of \<open>opened\_object\_valid\<close>: at most a mebibyte at a time until the announced
  length has been read; \<open>None\<close> when the file ends early.
\<close>

definition READ_BYTES :: nat where "READ_BYTES = 1048576"

function read_blocks ::
  "bool \<Rightarrow> (nat \<Rightarrow> nat \<Rightarrow> rstr + bytes) \<Rightarrow> nat \<Rightarrow> nat \<Rightarrow> bytes list \<Rightarrow> rstr + bytes list option" where
  "read_blocks active rd pos remaining blocks =
     (if remaining = 0 then Inr (Some (rev blocks))
      else if \<not> active then Inl (lit ''staging verification cancelled'')
      else case rd pos (min remaining READ_BYTES) of
        Inl e \<Rightarrow> Inl e
      | Inr block \<Rightarrow>
          if block = [] then Inr None
          else read_blocks active rd (pos + length block) (remaining - length block) (block # blocks))"
  by pat_completeness auto
termination
  by (relation "measure (\<lambda>(_, _, _, remaining, _). remaining)") auto

declare read_blocks.simps [simp del]

definition opened_object_valid ::
  "('w, 'v, 'c, 'k, 'b) upload_env \<Rightarrow> opened_file \<Rightarrow> object_id \<Rightarrow> bool \<Rightarrow> rstr + bool" where
  "opened_object_valid env file object active =
     (if \<not> ue_suite_ok env (oid_suite object) then Inl (lit ''unsupported suite'')
      else case of_length file of
        None \<Rightarrow> Inl (lit ''staging is not a regular file'')
      | Some n \<Rightarrow>
          if n \<noteq> oid_length object then Inr False
          else case read_blocks active (of_read file) 0 (oid_length object) [] of
            Inl e \<Rightarrow> Inl e
          | Inr None \<Rightarrow> Inr False
          | Inr (Some blocks) \<Rightarrow>
              (case of_read file (oid_length object) 1 of
                 Inl e \<Rightarrow> Inl e
               | Inr extra \<Rightarrow>
                   if extra \<noteq> [] then Inr False
                   else (case ue_hash env (oid_suite object) blocks of
                           Inl e \<Rightarrow> Inl e
                         | Inr digest \<Rightarrow> Inr (digest = oid_root object))))"

definition staged_object_valid ::
  "('w, 'v, 'c, 'k, 'b) upload_env \<Rightarrow> rstr list \<Rightarrow> object_id \<Rightarrow> bool \<Rightarrow> 'w \<Rightarrow> rstr + bool" where
  "staged_object_valid env path object active w =
     (case wd_read env path w of Inl e \<Rightarrow> Inl e | Inr file \<Rightarrow> opened_object_valid env file object active)"

definition validate_empty_object :: "('w, 'v, 'c, 'k, 'b) upload_env \<Rightarrow> object_id \<Rightarrow> session_error + unit" where
  "validate_empty_object env object =
     (if oid_length object \<noteq> 0 then Inr ()
      else if \<not> ue_suite_ok env (oid_suite object) then Inl (Bad (told ''unsupported empty object suite''))
      else case ue_hash env (oid_suite object) [] of
        Inl e \<Rightarrow> Inl (Internal (Told e))
      | Inr digest \<Rightarrow> if digest \<noteq> oid_root object then Inl (Bad (told ''empty object root is not canonical''))
                    else Inr ())"

section \<open>Publishing\<close>

text \<open>A file whose staging may have changed while it was closed is hashed again first.\<close>

definition restart_coverage :: "('w, 'v, 'c, 'k, 'b) upload_env \<Rightarrow> 'c file_state \<times> 'w machine \<Rightarrow> 'c file_state \<times> 'w machine" where
  "restart_coverage env s =
     (case s of (file, m) \<Rightarrow>
        case fs_native file of
          None \<Rightarrow> (file, m)
        | Some st \<Rightarrow>
            (case park_staged env (st\<lparr>sf_coverage := co_new env (fs_object file)\<rparr>, m) of (st, m) \<Rightarrow>
               (file\<lparr>fs_native := Some (st\<lparr>sf_reopened := False\<rparr>), fs_rehash := False\<rparr>, m)))"

definition mark_reopened :: "'c file_state \<times> 'w machine \<Rightarrow> 'c file_state \<times> 'w machine" where
  "mark_reopened s =
     (case s of (file, m) \<Rightarrow>
        (file\<lparr>fs_rehash := fs_rehash file \<or> (case fs_native file of None \<Rightarrow> False | Some st \<Rightarrow> sf_reopened st)\<rparr>, m))"

definition clear_rehash :: "'c file_state \<times> 'w machine \<Rightarrow> 'c file_state \<times> 'w machine" where
  "clear_rehash s = (case s of (file, m) \<Rightarrow> (file\<lparr>fs_rehash := False\<rparr>, m))"

definition staging_valid ::
  "('w, 'v, 'c, 'k, 'b) upload_env \<Rightarrow> ('w \<Rightarrow> bool) \<Rightarrow> object_id \<Rightarrow> nat \<Rightarrow> 'x \<times> 'w machine
   \<Rightarrow> (session_error + bool) \<times> 'x \<times> 'w machine" where
  "staging_valid env active object n =
     looks (\<lambda>(_, m).
       case nf_read env n (m_world m) of
         Inl e \<Rightarrow> Inl (Internal (Told e))
       | Inr file \<Rightarrow> map_sum (Internal \<circ> Told) id
           (opened_object_valid env file object (active (m_world m))))"

definition changed_staging :: "'c file_state \<Rightarrow> session_error" where
  "changed_staging file =
     Bad (Told (lit ''publish '' @ fs_display file
       @ lit '' refused after resume: staged bytes do not match the announced object; retry the upload''))"

definition prepare_publication ::
  "('w, 'v, 'c, 'k, 'b) upload_env \<Rightarrow> ('w \<Rightarrow> bool) \<Rightarrow> 'c file_state \<times> 'w machine
   \<Rightarrow> (session_error + unit) \<times> 'c file_state \<times> 'w machine" where
  "prepare_publication env active =
     and_then (on_staged (reopen env)) (\<lambda>_.
     and_then (modifies mark_reopened) (\<lambda>_ s.
       if \<not> fs_rehash (fst s) then yields () s
       else and_then (on_staged (active_native env)) (\<lambda>n.
            and_then (staging_valid env active (fs_object (fst s)) n) (\<lambda>valid s.
              if valid then modifies clear_rehash s
              else and_then (modifies (restart_coverage env)) (\<lambda>_. fails (changed_staging (fst s))) s)) s))"

definition set_preserve :: "'c staged \<times> 'w machine \<Rightarrow> 'c staged \<times> 'w machine" where
  "set_preserve s = (case s of (st, m) \<Rightarrow> (st\<lparr>sf_preserve := True\<rparr>, m))"

definition check_location ::
  "('w, 'v, 'c, 'k, 'b) upload_env \<Rightarrow> nat \<Rightarrow> 'x \<times> 'w machine \<Rightarrow> (session_error + unit) \<times> 'x \<times> 'w machine" where
  "check_location env l = looks (\<lambda>(_, m). map_sum (Conflict \<circ> Told) id (wd_current env l (m_world m)))"

definition publish_failed :: "rstr \<Rightarrow> rstr \<Rightarrow> session_error" where
  "publish_failed display e =
     Conflict (Told (lit ''publish '' @ display @ lit '' failed: '' @ e
       @ lit ''; the name may have been taken mid-upload, retry the upload''))"

text \<open>The steps up to the final name: the location must still be the one held.\<close>

definition install ::
  "('w, 'v, 'c, 'k, 'b) upload_env \<Rightarrow> rstr \<Rightarrow> 'c staged \<times> 'w machine
   \<Rightarrow> (session_error + (nat \<times> nat)) \<times> 'c staged \<times> 'w machine" where
  "install env display =
     and_then (staged_directory env) (\<lambda>d s.
     and_then (looks (\<lambda>(_, m). map_sum (Internal \<circ> Told) id
                 (wd_location env d (last (sf_destination (fst s))) (m_world m)))) (\<lambda>l.
     and_then (check_location env l) (\<lambda>_.
     and_then (looks (\<lambda>(st, _). case sf_active st of None \<Rightarrow> Inl not_open | Some n \<Rightarrow> Inr n)) (\<lambda>n.
     and_then (rewords (publish_failed display) (lifted (world_step (nf_publish env n)))) (\<lambda>_.
     and_then (modifies set_preserve) (\<lambda>_.
     and_then (check_location env l) (\<lambda>_. yields (n, l)))))))
     s)"

text \<open>The signed receipt beside the file is best effort.\<close>

definition attest ::
  "('w, 'v, 'c, 'k, 'b) upload_env \<Rightarrow> worker_setup \<Rightarrow> nat \<Rightarrow> nat \<Rightarrow> 'c file_state \<times> 'w machine
   \<Rightarrow> 'c file_state \<times> 'w machine" where
  "attest env setup n l s =
     (case s of (file, m) \<Rightarrow>
        case (nf_observation env n (m_world m), fs_native file) of
          (Some obs, Some st) \<Rightarrow>
            (case sidecar env l (fs_object file) (ws_session setup) obs (sf_profile st) (m_world m) of
               (ok, w) \<Rightarrow> (file\<lparr>fs_receipt := fs_receipt file \<or> ok\<rparr>, m\<lparr>m_world := w\<rparr>))
        | _ \<Rightarrow> (file, m))"

definition settle :: "('w, 'v, 'c, 'k, 'b) upload_env \<Rightarrow> 'c file_state \<times> 'w machine \<Rightarrow> 'c file_state \<times> 'w machine" where
  "settle env s =
     (case s of (file, m) \<Rightarrow>
        case fs_native file of
          None \<Rightarrow> (file\<lparr>fs_published := True\<rparr>, m)
        | Some st \<Rightarrow>
            (case park_staged env (st\<lparr>sf_preserve := True\<rparr>, m) of (st, m) \<Rightarrow>
               (file\<lparr>fs_published := True, fs_native := Some st\<rparr>, m)))"

definition finish_publication ::
  "('w, 'v, 'c, 'k, 'b) upload_env \<Rightarrow> worker_setup \<Rightarrow> 'c file_state \<times> 'w machine
   \<Rightarrow> (session_error + unit) \<times> 'c file_state \<times> 'w machine" where
  "finish_publication env setup =
     and_then (checked_live env) (\<lambda>_ s.
     and_then (on_staged (install env (fs_display (fst s)))) (\<lambda>(n, l).
     and_then (modifies (attest env setup n l)) (\<lambda>_. modifies (settle env))) s)"

definition publication_cancelled :: session_error where
  "publication_cancelled = Conflict (told ''receive publication cancelled'')"

definition publish_file ::
  "('w, 'v, 'c, 'k, 'b) upload_env \<Rightarrow> worker_setup \<Rightarrow> ('w \<Rightarrow> bool) \<Rightarrow> 'c file_state \<times> 'w machine
   \<Rightarrow> (session_error + unit) \<times> 'c file_state \<times> 'w machine" where
  "publish_file env setup active =
     and_then (ensures (\<lambda>(_, m). active (m_world m)) publication_cancelled) (\<lambda>_.
     and_then (prepare_publication env active) (\<lambda>_.
     and_then (ensures (\<lambda>(_, m). active (m_world m)) publication_cancelled) (\<lambda>_.
     finish_publication env setup)))"

end
