(* ===== verification/UploadNames.thy ===== *)
theory UploadNames
  imports UploadFiles
begin

text \<open>
  Preparing the files of a session, from \<open>server/src/session.rs\<close>: the names that are taken
  (\<open>pending\_upload\_claims\<close>, \<open>check\_upload\_directory\<close>), files already delivered
  (\<open>find\_delivered\<close>), a free name for each new file (\<open>open\_destination\_for\<close>) and
  \<open>prepare\_files\<close>. The per-tenant allocation lock is held throughout, so no other session of the
  tenant takes a name meanwhile. From sixteen files on the sources prepare them from several
  threads: the order is the scheduler's, \<open>schedule\<close>.
\<close>

definition MAX_SESSION_ENTRIES :: nat where "MAX_SESSION_ENTRIES = 262144"
definition MAX_NAME_ATTEMPTS :: nat where "MAX_NAME_ATTEMPTS = 100"
definition MAX_CHUNK_BATCH :: nat where "MAX_CHUNK_BATCH = 8"

definition suite_name :: "nat \<Rightarrow> rstr" where
  "suite_name i = (if i = 1 then lit ''blake3'' else if i = 2 then lit ''sha256''
                   else lit ''suite-'' @ show_nat i)"

text \<open>\<open>components\<close> is a stored path as a file keeps it: its components joined by NUL.\<close>

definition stored_rel :: "rstr \<Rightarrow> rstr \<Rightarrow> rstr" where
  "stored_rel dest components =
     (let tail = map (\<lambda>c. if c = 0 then 47 else c) components
      in if dest = [] then tail else dest @ [47] @ tail)"

definition object_identity :: "('w, 'v, 'c, 'k, 'b) upload_env \<Rightarrow> object_id \<Rightarrow> rstr \<times> rstr \<times> nat" where
  "object_identity env x = (suite_name (oid_suite x), ue_hex env (oid_root x), oid_length x)"

definition check_session_entry_cap :: "nat \<Rightarrow> session_error + unit" where
  "check_session_entry_cap n =
     (if n > MAX_SESSION_ENTRIES then Inl (Bad (told ''session exceeds the 262144 entry cap'')) else Inr ())"

section \<open>Keys of stored paths\<close>

definition fold_component :: "('w, 'v, 'c, 'k, 'b) upload_env \<Rightarrow> rstr \<Rightarrow> rstr" where
  "fold_component env c =
     ue_nfc env (ue_folded env (trim_end_with (\<lambda>c. c = 46 \<or> c = 32)
       (map (\<lambda>c. if c = 0x130 \<or> c = 0x131 then 105 else c) (ue_nfc env c))))"

definition key_of_parts :: "('w, 'v, 'c, 'k, 'b) upload_env \<Rightarrow> rstr list \<Rightarrow> rstr" where
  "key_of_parts env parts =
     foldl (\<lambda>key c. (if key = [] then [] else key @ [0]) @ fold_component env c) [] parts"

definition stored_path_key ::
  "('w, 'v, 'c, 'k, 'b) upload_env \<Rightarrow> rstr \<Rightarrow> rstr list \<Rightarrow> session_error + rstr" where
  "stored_path_key env dest components =
     (if components \<noteq> [] \<and> \<not> portable_ok (ue_paths env) components
      then Inl (Bad (told ''stored path rejected''))
      else Inr (key_of_parts env (filter (\<lambda>p. p \<noteq> []) (split_on 47 dest) @ components)))"

text \<open>The keys of the folders above a path: every prefix that ends before a NUL.\<close>

definition key_parents :: "rstr \<Rightarrow> rstr list" where
  "key_parents key = map (\<lambda>i. take i key) (filter (\<lambda>i. key ! i = 0) [0..<length key])"

fun keys_of :: "('w, 'v, 'c, 'k, 'b) upload_env \<Rightarrow> (rstr \<times> rstr list) list \<Rightarrow> session_error + rstr list" where
  "keys_of env [] = Inr []"
| "keys_of env ((dest, components) # rest) =
     (case stored_path_key env dest components of
        Inl e \<Rightarrow> Inl e
      | Inr k \<Rightarrow> (case keys_of env rest of Inl e \<Rightarrow> Inl e | Inr ks \<Rightarrow> Inr (k # ks)))"

definition as_internal :: "session_error \<Rightarrow> session_error" where
  "as_internal e = (case e of Bad r \<Rightarrow> Internal r | Conflict r \<Rightarrow> Internal r
                    | Unavailable r \<Rightarrow> Internal r | Internal r \<Rightarrow> Internal r)"

definition pending_upload_claims ::
  "('w, 'v, 'c, 'k, 'b) upload_env \<Rightarrow> rstr \<Rightarrow> 'w machine \<Rightarrow> (session_error + rstr list) \<times> 'w machine" where
  "pending_upload_claims env tenant =
     and_then (rewords (Internal \<circ> OfStore) (queries env (\<lambda>s. Inr (pending_upload_paths s tenant))))
       (\<lambda>paths. checks as_internal (keys_of env paths))"

definition reserved_folder :: session_error where
  "reserved_folder = Conflict (told ''destination folder is reserved by an unfinished upload'')"

definition check_pending_parent :: "rstr list \<Rightarrow> rstr \<Rightarrow> session_error + unit" where
  "check_pending_parent pending key = (if key \<in> set pending then Inl reserved_folder else Inr ())"

definition check_upload_directory ::
  "('w, 'v, 'c, 'k, 'b) upload_env \<Rightarrow> rstr \<Rightarrow> rstr \<Rightarrow> 'w machine \<Rightarrow> (session_error + unit) \<times> 'w machine" where
  "check_upload_directory env tenant dest =
     (if dest = [] then yields ()
      else and_then (checks id (stored_path_key env dest [])) (\<lambda>key.
           and_then (pending_upload_claims env tenant) (\<lambda>pending.
           checks id (if list_ex (\<lambda>k. k \<in> set pending) (key_parents key @ [key])
                      then Inl reserved_folder else Inr ()))))"

section \<open>Files already delivered\<close>

definition announced_name :: "worker_setup \<Rightarrow> rstr list \<Rightarrow> rstr" where
  "announced_name setup announced =
     (if ws_dest_rel setup = [] then join_with [47] announced
      else ws_dest_rel setup @ [47] @ join_with [47] announced)"

definition still_there ::
  "('w, 'v, 'c, 'k, 'b) upload_env \<Rightarrow> worker_setup \<Rightarrow> object_id \<Rightarrow> rstr list \<Rightarrow> bool \<Rightarrow> 'w \<Rightarrow> bool" where
  "still_there env setup object announced active w \<longleftrightarrow>
     \<not> list_ex (is_receipt_name (ue_paths env)) announced
     \<and> check_payload_name_length (if announced = [] then [] else last announced) = Inr ()
     \<and> (case join_under (ws_dest_dir setup) announced of
          Inl _ \<Rightarrow> False
        | Inr path \<Rightarrow> wd_stat env path w = Some (oid_length object)
            \<and> staged_object_valid env path object active w = Inr True)"

text \<open>One page of candidates: the receipt flag of a match, or the cursor after the page.\<close>

fun scan_page ::
  "('w, 'v, 'c, 'k, 'b) upload_env \<Rightarrow> worker_setup \<Rightarrow> object_id \<Rightarrow> rstr list \<Rightarrow> ('w \<Rightarrow> bool) \<Rightarrow> 'w
   \<Rightarrow> (rstr \<times> bool) list \<Rightarrow> rstr \<Rightarrow> session_error + (bool option \<times> rstr)" where
  "scan_page env setup object announced active w [] after = Inr (None, after)"
| "scan_page env setup object announced active w ((stored, receipt) # rest) after =
     (if stored = after then scan_page env setup object announced active w rest after
      else if \<not> active w then Inl (Conflict (told ''receive preparation cancelled''))
      else if stored = announced_name setup announced
              \<and> still_there env setup object announced (active w) w
      then Inr (Some receipt, stored)
      else scan_page env setup object announced active w rest stored)"

definition cancelled_preparation :: session_error where
  "cancelled_preparation = Conflict (told ''receive preparation cancelled'')"

definition candidates_page ::
  "('w, 'v, 'c, 'k, 'b) upload_env \<Rightarrow> worker_setup \<Rightarrow> object_id \<Rightarrow> rstr \<Rightarrow> 'w machine
   \<Rightarrow> (session_error + (rstr \<times> bool) list) \<times> 'w machine" where
  "candidates_page env setup object after =
     rewords (Internal \<circ> OfStore) (queries env (\<lambda>s. Inr (delivered_candidates s (ws_tenant setup)
       (ws_link setup) (object_identity env object) after)))"

text \<open>The rows a page may still come from: the measure of the loop.\<close>

definition rows_after :: "upload_store \<Rightarrow> rstr \<Rightarrow> rstr \<Rightarrow> nat" where
  "rows_after s tenant after =
     length (filter (\<lambda>(_, f). after < fr_stored_as f) (live_files s tenant))"

lemma queries_Inr:
  "queries env f m = (Inr a, t) \<Longrightarrow> f (m_store m) = Inr a \<and> m_store t = m_store m"
  by (cases "f (m_store m)") (auto simp: queries_def transact_def split: prod.splits if_splits)

lemma candidates_page_Inr:
  "candidates_page env setup object after m = (Inr page, t) \<Longrightarrow>
   page = delivered_candidates (m_store m) (ws_tenant setup) (ws_link setup) (object_identity env object) after
   \<and> m_store t = m_store m"
  unfolding candidates_page_def rewords_Inr by (auto dest: queries_Inr)

lemma scan_page_cursor:
  "scan_page env setup object announced active w page after = Inr (None, c) \<Longrightarrow>
   c = after \<or> c \<in> fst ` set page"
proof (induction page arbitrary: after)
  case (Cons x page)
  obtain stored receipt where x: "x = (stored, receipt)" by (cases x)
  from Cons.prems show ?case
    by (auto simp: x split: if_splits dest: Cons.IH)
qed simp

lemma scan_page_moves:
  "scan_page env setup object announced active w page after = Inr (None, c) \<Longrightarrow>
   page \<noteq> [] \<Longrightarrow> \<forall>x \<in> set page. after < fst x \<Longrightarrow> after < c"
proof (cases page)
  case (Cons x rest)
  obtain stored receipt where x: "x = (stored, receipt)" by (cases x)
  assume h: "scan_page env setup object announced active w page after = Inr (None, c)"
    and above: "\<forall>x \<in> set page. after < fst x"
  then have "after < stored" by (simp add: Cons x)
  then have "stored \<noteq> after" by auto
  with h have "scan_page env setup object announced active w rest stored = Inr (None, c)"
    by (simp add: Cons x split: if_splits)
  then have "c = stored \<or> c \<in> fst ` set rest" by (rule scan_page_cursor)
  with above show ?thesis by (auto simp: Cons x)
qed simp

lemma filter_less_length:
  "(\<And>y. Q y \<Longrightarrow> P y) \<Longrightarrow> x \<in> set xs \<Longrightarrow> P x \<Longrightarrow> \<not> Q x \<Longrightarrow> length (filter Q xs) < length (filter P xs)"
proof (induction xs)
  case (Cons y ys)
  have le: "length (filter Q ys) \<le> length (filter P ys)"
    using Cons.prems(1) by (induction ys) auto
  show ?case
  proof (cases "x = y")
    case True
    with Cons.prems le show ?thesis by (simp add: le_imp_less_Suc)
  next
    case False
    with Cons have "length (filter Q ys) < length (filter P ys)" by simp
    with Cons.prems(1) show ?thesis by auto
  qed
qed simp

lemma rows_after_decreases:
  assumes page: "page = delivered_candidates s tenant link object after"
    and full: "\<not> length page < DELIVERED_CANDIDATE_PAGE"
    and scan: "scan_page env setup object' announced active w page after = Inr (None, c)"
  shows "rows_after s tenant c < rows_after s tenant after"
proof -
  have above: "\<exists>f. (link, f) \<in> set (live_files s tenant) \<and> fr_stored_as f = fst x \<and> after < fst x"
    if "x \<in> set page" for x
    using that unfolding page delivered_candidates_def by (force dest!: in_set_takeD)
  have ne: "page \<noteq> []" using full by (auto simp: DELIVERED_CANDIDATE_PAGE_def)
  from above have "\<forall>x \<in> set page. after < fst x" by blast
  with scan ne have less: "after < c" by (blast intro: scan_page_moves)
  with scan_page_cursor [OF scan] above
  obtain f where f: "(link, f) \<in> set (live_files s tenant)" "fr_stored_as f = c" by fastforce
  show ?thesis
    unfolding rows_after_def
    by (rule filter_less_length [where x = "(link, f)"]) (use f less in auto)
qed

function find_delivered ::
  "('w, 'v, 'c, 'k, 'b) upload_env \<Rightarrow> worker_setup \<Rightarrow> ('w \<Rightarrow> bool) \<Rightarrow> object_id \<Rightarrow> rstr list \<Rightarrow> rstr
   \<Rightarrow> 'w machine \<Rightarrow> (session_error + bool option) \<times> 'w machine" where
  "find_delivered env setup active object announced after m =
     (if \<not> active (m_world m) then (Inl cancelled_preparation, m)
      else case candidates_page env setup object after m of
        (Inl e, m') \<Rightarrow> (Inl e, m')
      | (Inr page, m') \<Rightarrow>
          (case scan_page env setup object announced active (m_world m') page after of
             Inl e \<Rightarrow> (Inl e, m')
           | Inr (Some receipt, _) \<Rightarrow> (Inr (Some receipt), m')
           | Inr (None, after') \<Rightarrow>
               if length page < DELIVERED_CANDIDATE_PAGE then (Inr None, m')
               else find_delivered env setup active object announced after' m'))"
  by pat_completeness auto
termination
proof (relation "measure (\<lambda>(env, setup, active, object, announced, after, m).
    rows_after (m_store m) (ws_tenant setup) after)", goal_cases)
  case 1
  show ?case by simp
next
  case prems: (2 env ws active object announced after m p m' page s u after')
  then have page: "candidates_page env ws object after m = (Inr page, m')" by simp
  note facts = candidates_page_Inr [OF page]
  with prems show ?case by (auto intro!: rows_after_decreases)
qed

declare find_delivered.simps [simp del]

section \<open>A free name for a new file\<close>

type_synonym ('w) claiming = "rstr list \<times> 'w machine"

definition fresh_file ::
  "('w, 'v, 'c, 'k, 'b) upload_env \<Rightarrow> worker_setup \<Rightarrow> rstr list \<Rightarrow> rstr list \<Rightarrow> object_id \<Rightarrow> rstr list
   \<Rightarrow> commit_profile \<Rightarrow> nat \<Rightarrow> 'w machine \<Rightarrow> 'c file_state \<times> 'w machine" where
  "fresh_file env setup components stored object destination profile n m =
     (case new_staged env setup n destination (co_new env object) profile m of (st, m) \<Rightarrow>
        (\<lparr>fs_display = join_with [47] components, fs_stored = join_with [0] stored, fs_object = object,
          fs_native = Some st, fs_published = False, fs_receipt = False, fs_checkpointed = None,
          fs_first_range = None, fs_rehash = False\<rparr>, m))"

definition chosen_profile ::
  "('w, 'v, 'c, 'k, 'b) upload_env \<Rightarrow> worker_setup \<Rightarrow> rstr list \<Rightarrow> 'w \<Rightarrow> session_error + commit_profile" where
  "chosen_profile env setup destination w =
     (case wd_remote env (butlast destination) w of
        Inl e \<Rightarrow> Inl (Bad (Told e))
      | Inr remote \<Rightarrow> map_sum (Bad \<circ> OfVerification) id (verification_for_mount remote (ws_verification setup)))"

text \<open>
  One attempt: \<open>None\<close> when the name is taken, by a claim or on disk. A claim made for a name
  found on disk is given back.
\<close>

definition try_name ::
  "('w, 'v, 'c, 'k, 'b) upload_env \<Rightarrow> worker_setup \<Rightarrow> nat \<Rightarrow> rstr list \<Rightarrow> object_id \<Rightarrow> nat
   \<Rightarrow> 'w claiming \<Rightarrow> (session_error + 'c file_state option) \<times> 'w claiming" where
  "try_name env setup d components object attempt =
     (let stored = butlast components @ [with_suffix (last components) attempt] in
      and_then (checked_live env) (\<lambda>_.
      and_then (checks (Bad \<circ> OfPath) (check_payload_name_length (last stored))) (\<lambda>_.
      and_then (checks id (stored_path_key env (ws_dest_rel setup) stored)) (\<lambda>key s.
        if key \<in> set (fst s) then yields None s
        else and_then (modifies (\<lambda>(taken, m). (key # taken, m))) (\<lambda>_.
             and_then (checks (Internal \<circ> OfPath) (join_under (ws_dest_dir setup) stored)) (\<lambda>destination.
             and_then (looks (\<lambda>(_, m). chosen_profile env setup destination (m_world m))) (\<lambda>profile s.
               case lifted (world_step (wd_create env d object (last destination) profile)) s of
                 (Inr n, (taken, m)) \<Rightarrow>
                   (case fresh_file env setup components stored object destination profile n m of
                      (f, m) \<Rightarrow> (Inr (Some f), (taken, m)))
               | (Inl AlreadyExists, (taken, m)) \<Rightarrow> (Inr None, (removeAll key taken, m))
               | (Inl (CreateFailed e), s) \<Rightarrow>
                   (Inl (Internal (Told (lit ''prepare '' @ join_with [47] components @ lit '': '' @ e))), s)))) s))))"

fun try_names ::
  "('w, 'v, 'c, 'k, 'b) upload_env \<Rightarrow> worker_setup \<Rightarrow> nat \<Rightarrow> rstr list \<Rightarrow> object_id \<Rightarrow> nat list
   \<Rightarrow> 'w claiming \<Rightarrow> (session_error + 'c file_state) \<times> 'w claiming" where
  "try_names env setup d components object [] s =
     (Inl (Conflict (Told (lit ''could not find a free name for '' @ join_with [47] components))), s)"
| "try_names env setup d components object (a # as) s =
     (case try_name env setup d components object a s of
        (Inl e, t) \<Rightarrow> (Inl e, t)
      | (Inr (Some f), t) \<Rightarrow> (Inr f, t)
      | (Inr None, t) \<Rightarrow> try_names env setup d components object as t)"

definition open_destination_for ::
  "('w, 'v, 'c, 'k, 'b) upload_env \<Rightarrow> worker_setup \<Rightarrow> rstr list \<Rightarrow> object_id
   \<Rightarrow> 'w claiming \<Rightarrow> (session_error + 'c file_state) \<times> 'w claiming" where
  "open_destination_for env setup components object =
     and_then (checks (Internal \<circ> OfPath) (join_under (ws_dest_dir setup) (butlast components))) (\<lambda>parent.
     and_then (rewords (Internal \<circ> Told) (lifted (world_step (wd_open env parent True)))) (\<lambda>d.
     try_names env setup d components object [0..<MAX_NAME_ATTEMPTS]))"

section \<open>All the files of a session\<close>

type_synonym entry = "rstr list \<times> object_id"

text \<open>\<open>prepare\_parallel\<close>: the order, and the loop that stops at the first error with what it made.\<close>

definition preparation_order :: "('w, 'v, 'c, 'k, 'b) upload_env \<Rightarrow> nat \<Rightarrow> 'w \<Rightarrow> nat list" where
  "preparation_order env n w = (if n < MAX_CHUNK_BATCH * 2 then [0..<n] else schedule env n w)"

fun prepare_in ::
  "(nat \<Rightarrow> 's \<Rightarrow> (session_error + 'f) \<times> 's) \<Rightarrow> nat list \<Rightarrow> (nat \<times> 'f) list \<Rightarrow> 's
   \<Rightarrow> session_error option \<times> (nat \<times> 'f) list \<times> 's" where
  "prepare_in f [] made s = (None, made, s)"
| "prepare_in f (i # is) made s =
     (case f i s of
        (Inl e, t) \<Rightarrow> (Some e, made, t)
      | (Inr a, t) \<Rightarrow> prepare_in f is (made @ [(i, a)]) t)"

definition delivered_file :: "entry \<Rightarrow> bool \<Rightarrow> 'c file_state" where
  "delivered_file e receipt =
     \<lparr>fs_display = join_with [47] (fst e), fs_stored = join_with [0] (fst e), fs_object = snd e,
      fs_native = None, fs_published = True, fs_receipt = receipt, fs_checkpointed = None,
      fs_first_range = None, fs_rehash = False\<rparr>"

definition prepare_file ::
  "('w, 'v, 'c, 'k, 'b) upload_env \<Rightarrow> worker_setup \<Rightarrow> ('w \<Rightarrow> bool) \<Rightarrow> entry \<Rightarrow> bool option
   \<Rightarrow> 'w claiming \<Rightarrow> (session_error + 'c file_state) \<times> 'w claiming" where
  "prepare_file env setup active e existing =
     and_then (ensures (\<lambda>(_, m). active (m_world m)) cancelled_preparation) (\<lambda>_.
       case existing of
         Some receipt \<Rightarrow> yields (delivered_file e receipt)
       | None \<Rightarrow> open_destination_for env setup (fst e) (snd e))"

text \<open>The folders above the new names, none of which an unfinished upload may hold.\<close>

fun parents_of ::
  "('w, 'v, 'c, 'k, 'b) upload_env \<Rightarrow> worker_setup \<Rightarrow> rstr list \<Rightarrow> entry list \<Rightarrow> session_error + rstr list" where
  "parents_of env setup pending [] = Inr []"
| "parents_of env setup pending (e # es) =
     (case stored_path_key env (ws_dest_rel setup) (fst e) of
        Inl x \<Rightarrow> Inl x
      | Inr key \<Rightarrow>
          if list_ex (\<lambda>k. k \<in> set pending) (key_parents key) then Inl reserved_folder
          else (case parents_of env setup pending es of
                  Inl x \<Rightarrow> Inl x | Inr ks \<Rightarrow> Inr (key_parents key @ ks)))"

text \<open>The first check of the names, before anything is asked of the store.\<close>

definition check_entries :: "('w, 'v, 'c, 'k, 'b) upload_env \<Rightarrow> worker_setup \<Rightarrow> entry list \<Rightarrow> session_error + unit" where
  "check_entries env setup entries =
     (case check_session_entry_cap (length entries) of
        Inl e \<Rightarrow> Inl e
      | Inr _ \<Rightarrow>
     (case find (\<lambda>e. check_payload_name_length (if fst e = [] then [] else last (fst e)) \<noteq> Inr ()) entries of
        Some e \<Rightarrow> Inl (Bad (OfPath (NameTooLong (if fst e = [] then [] else last (fst e)))))
      | None \<Rightarrow>
          if list_ex (is_receipt_name (ue_paths env)) (split_on 47 (ws_dest_rel setup))
          then Inl (Bad (told ''receiving destination uses a name reserved for signed receipts''))
          else Inr ()))"

definition fresh_claims ::
  "('w, 'v, 'c, 'k, 'b) upload_env \<Rightarrow> worker_setup \<Rightarrow> (entry \<times> bool option) list \<Rightarrow> (rstr \<times> rstr \<times> rstr) list" where
  "fresh_claims env setup entries =
     map (\<lambda>(e, _). (stored_rel (ws_dest_rel setup) (join_with [0] (fst e)),
                    suite_name (oid_suite (snd e)), ue_hex env (oid_root (snd e))))
       (filter (\<lambda>(_, existing). existing = None) entries)"

text \<open>Every name that is taken: pending ones, the folders above them and above the new ones, and
  the names live records hold under another identity.\<close>

definition taken_names ::
  "('w, 'v, 'c, 'k, 'b) upload_env \<Rightarrow> worker_setup \<Rightarrow> (entry \<times> bool option) list \<Rightarrow> 'w machine
   \<Rightarrow> (session_error + rstr list) \<times> 'w machine" where
  "taken_names env setup entries =
     and_then (rewords (Internal \<circ> OfStore) (queries env (\<lambda>s. Inr
        (conflicting_stored_claims s (ws_tenant setup) (fresh_claims env setup entries))))) (\<lambda>conflicts.
     and_then (pending_upload_claims env (ws_tenant setup)) (\<lambda>pending.
     and_then (checks id (parents_of env setup pending
        (map fst (filter (\<lambda>(_, existing). existing = None) entries)))) (\<lambda>parents.
     and_then (checks id (keys_of env (map (\<lambda>name. ([], split_on 47 name)) conflicts))) (\<lambda>held.
     yields (pending @ parents @ concat (map key_parents pending) @ held)))))"

definition in_order :: "(nat \<times> 'f) list \<Rightarrow> 'f list" where
  "in_order made = map snd (sort_key fst made)"

definition prepare_files ::
  "('w, 'v, 'c, 'k, 'b) upload_env \<Rightarrow> worker_setup \<Rightarrow> ('w \<Rightarrow> bool) \<Rightarrow> entry list \<Rightarrow> 'w machine
   \<Rightarrow> (session_error + 'c file_state list) \<times> 'w machine" where
  "prepare_files env setup active entries =
     and_then (checks id (check_entries env setup entries)) (\<lambda>_.
     and_then (each_step (\<lambda>(components, object). find_delivered env setup active object components []) entries)
       (\<lambda>existing.
     and_then (taken_names env setup (zip entries existing)) (\<lambda>taken m.
       case prepare_in (\<lambda>i. prepare_file env setup active (entries ! i) (existing ! i))
              (preparation_order env (length entries) (m_world m)) [] (taken, m) of
         (Some e, made, (_, m)) \<Rightarrow> (Inl e, drop_files env (in_order made) m)
       | (None, made, (_, m)) \<Rightarrow> (Inr (in_order made), m))))"

end
