(* ===== verification/UploadWorker.thy ===== *)
theory UploadWorker
  imports UploadNames
begin

text \<open>
  The worker of one upload session, from \<open>server/src/session.rs\<close>: its phases, the handlers of its
  commands, the batches of chunks, the checkpoints and the loop of \<open>spawn\_worker\_from\<close>. The
  ranges of a batch are accepted by parallel threads; each takes effect at once, in the order
  \<open>schedule\<close> gives. Files are worked on one by one where the threads own distinct files.
\<close>

section \<open>The transfer log\<close>

definition LOG_CAP :: nat where "LOG_CAP = 200"

record transfer_log =
  tl_events :: "log_event list"
  tl_elided :: nat

definition plain_event :: "nat \<Rightarrow> string \<Rightarrow> nat option \<Rightarrow> log_event" where
  "plain_event at' kind n =
     \<lparr>le_at = at', le_kind = lit kind, le_path = None, le_bytes = None, le_secs = None, le_count = n\<rparr>"

definition log_push :: "log_event \<Rightarrow> transfer_log \<Rightarrow> transfer_log" where
  "log_push e l =
     (if length (tl_events l) \<ge> LOG_CAP then l\<lparr>tl_elided := tl_elided l + 1\<rparr>
      else l\<lparr>tl_events := tl_events l @ [e]\<rparr>)"

definition log_terminal :: "log_event \<Rightarrow> transfer_log \<Rightarrow> transfer_log" where
  "log_terminal e l = l\<lparr>tl_events := tl_events l @ [e]\<rparr>"

definition log_snapshot :: "nat \<Rightarrow> transfer_log \<Rightarrow> log_event list" where
  "log_snapshot now l =
     tl_events l @ (if tl_elided l > 0 then [plain_event now ''elided'' (Some (tl_elided l))] else [])"

section \<open>Checkpoint pacing\<close>

definition PERSIST_BYTES :: nat where "PERSIST_BYTES = 268435456"
definition PERSIST_INTERVAL :: nat where "PERSIST_INTERVAL = 2 * nanos_per_sec"
definition MAX_PERSIST_INTERVAL :: nat where "MAX_PERSIST_INTERVAL = 5 * nanos_per_sec"

record tracker =
  tk_bytes :: nat
  tk_last :: nat

definition should_checkpoint_at :: "nat \<Rightarrow> nat \<Rightarrow> tracker \<Rightarrow> bool \<times> tracker" where
  "should_checkpoint_at added now t =
     (let bytes = tk_bytes t + added; elapsed = now - tk_last t;
          due = (bytes \<ge> PERSIST_BYTES \<and> elapsed \<ge> PERSIST_INTERVAL)
                \<or> (elapsed \<ge> MAX_PERSIST_INTERVAL \<and> bytes > 0)
      in (due, if due then \<lparr>tk_bytes = 0, tk_last = now\<rparr> else t\<lparr>tk_bytes := bytes\<rparr>))"

definition quiet_after_secs :: "nat \<Rightarrow> nat" where
  "quiet_after_secs idle = (if idle = 0 then 60 else max (idle div 10) 5)"

section \<open>The resume record\<close>

definition file_progress :: "('w, 'v, 'c, 'k, 'b) upload_env \<Rightarrow> 'c file_state \<Rightarrow> nat \<times> bool \<times> bool" where
  "file_progress env f =
     (case fs_native f of None \<Rightarrow> oid_length (fs_object f) | Some st \<Rightarrow> co_prefix env (sf_coverage st),
      fs_published f, fs_receipt f)"

definition persisted_file_of ::
  "('w, 'v, 'c, 'k, 'b) upload_env \<Rightarrow> worker_setup \<Rightarrow> 'c file_state \<Rightarrow> persisted_file" where
  "persisted_file_of env setup f =
     \<lparr>pf_display_path = fs_display f, pf_stored = split_on 0 (fs_stored f), pf_object = fs_object f,
      pf_staging = (case fs_native f of None \<Rightarrow> [] | Some st \<Rightarrow> sf_staging st),
      pf_journal = (case fs_native f of None \<Rightarrow> [] | Some st \<Rightarrow> sf_journal st),
      pf_incarnation = (case fs_native f of None \<Rightarrow> replicate 16 0 | Some st \<Rightarrow> sf_incarnation st),
      pf_profile = (case fs_native f of None \<Rightarrow> Balanced | Some st \<Rightarrow> sf_profile st),
      pf_contract = (case fs_native f of None \<Rightarrow> ws_contract setup | Some st \<Rightarrow> sf_contract st),
      pf_prefix = fst (file_progress env f), pf_published = fs_published f, pf_receipt = fs_receipt f\<rparr>"

definition persisted_session_of ::
  "('w, 'v, 'c, 'k, 'b) upload_env \<Rightarrow> worker_setup \<Rightarrow> 'c file_state list \<Rightarrow> persisted_session" where
  "persisted_session_of env setup files =
     \<lparr>ps_id = ws_session setup, ps_link_id = ws_link setup, ps_tenant = ws_tenant setup,
      ps_dest_dir = ws_dest_dir setup, ps_dest_rel = ws_dest_rel setup, ps_package = ws_package setup,
      ps_max_total = (if ws_max_total setup \<noteq> u64_max then Some (ws_max_total setup) else None),
      ps_started_at = ws_started_at setup, ps_push_key = None, ps_committed = None,
      ps_files = enumerate 0 (map (persisted_file_of env setup) files)\<rparr>"

definition mark_saved :: "('w, 'v, 'c, 'k, 'b) upload_env \<Rightarrow> 'c file_state \<Rightarrow> 'c file_state" where
  "mark_saved env f = f\<lparr>fs_checkpointed := Some (file_progress env f)\<rparr>"

definition persist_session ::
  "('w, 'v, 'c, 'k, 'b) upload_env \<Rightarrow> worker_setup \<Rightarrow> 'c file_state list \<Rightarrow> 'w machine
   \<Rightarrow> (session_error + 'c file_state list) \<times> 'w machine" where
  "persist_session env setup files m =
     (case transact env (\<lambda>s. map_sum id (Pair ()) (insert_upload_session
             (persisted_session_of env setup files) (unix_now env (m_world m)) s)) m of
        (Inl e, m') \<Rightarrow> (Inl (Internal (OfStore e)), m')
      | (Inr _, m') \<Rightarrow> (Inr (map (mark_saved env) files), m'))"

definition is_stale :: "('w, 'v, 'c, 'k, 'b) upload_env \<Rightarrow> 'c file_state \<Rightarrow> bool" where
  "is_stale env f \<longleftrightarrow> fs_checkpointed f \<noteq> Some (file_progress env f)"

definition stale_rows :: "('w, 'v, 'c, 'k, 'b) upload_env \<Rightarrow> 'c file_state list \<Rightarrow> progress list" where
  "stale_rows env files =
     map (\<lambda>(i, f). (i, file_progress env f)) (filter (\<lambda>(_, f). is_stale env f) (enumerate 0 files))"

definition checkpoint_files ::
  "('w, 'v, 'c, 'k, 'b) upload_env \<Rightarrow> worker_setup \<Rightarrow> 'c file_state list \<times> 'w machine
   \<Rightarrow> bool \<times> 'c file_state list \<times> 'w machine" where
  "checkpoint_files env setup s =
     (case s of (files, m) \<Rightarrow>
        if stale_rows env files = [] then (True, files, m)
        else case transact env (\<lambda>t. map_sum id (Pair ()) (update_upload_file_progress (ws_session setup)
                    (stale_rows env files) (unix_now env (m_world m)) t)) m of
               (Inl e, m') \<Rightarrow> (False, files, m')
             | (Inr _, m') \<Rightarrow> (True, map (mark_saved env) files, m'))"

text \<open>The publication journal of a published file is retired once its row says so.\<close>

definition forget_publication ::
  "('w, 'v, 'c, 'k, 'b) upload_env \<Rightarrow> 'c file_state \<times> 'w machine \<Rightarrow> bool \<times> 'c file_state \<times> 'w machine" where
  "forget_publication env s =
     (case s of (f, m) \<Rightarrow>
        if \<not> fs_published f then (True, f, m)
        else case fs_native f of
          None \<Rightarrow> (True, f, m)
        | Some st \<Rightarrow>
            (case and_then (staged_directory env) (\<lambda>d s. rewords (Internal \<circ> Told) (lifted (world_step
                    (wd_forget env d (last (sf_destination (fst s))) (resume_of env (fst s)))))  s) (st, m) of
               (Inl e, _, m') \<Rightarrow> (False, f, m')
             | (Inr _, st', m') \<Rightarrow> (True, f\<lparr>fs_native := None\<rparr>, drop_staged env st' m')))"

fun forget_publications ::
  "('w, 'v, 'c, 'k, 'b) upload_env \<Rightarrow> 'c file_state list \<times> 'w machine \<Rightarrow> bool \<times> 'c file_state list \<times> 'w machine" where
  "forget_publications env ([], m) = (True, [], m)"
| "forget_publications env (f # fs, m) =
     (case forget_publication env (f, m) of (a, f', m') \<Rightarrow>
        (case forget_publications env (fs, m') of (b, fs', m'') \<Rightarrow> (a \<and> b, f' # fs', m'')))"

definition checkpoint_session ::
  "('w, 'v, 'c, 'k, 'b) upload_env \<Rightarrow> worker_setup \<Rightarrow> 'c file_state list \<times> 'w machine
   \<Rightarrow> bool \<times> 'c file_state list \<times> 'w machine" where
  "checkpoint_session env setup s =
     (case checkpoint_files env setup s of
        (True, t) \<Rightarrow> forget_publications env t
      | (False, t) \<Rightarrow> (False, t))"

definition forget_session ::
  "('w, 'v, 'c, 'k, 'b) upload_env \<Rightarrow> worker_setup \<Rightarrow> 'w machine \<Rightarrow> 'w machine" where
  "forget_session env setup m =
     snd (transact env (\<lambda>s. Inr ((), delete_upload_session (ws_session setup) s)) m)"

section \<open>Recording\<close>

definition file_record_of :: "('w, 'v, 'c, 'k, 'b) upload_env \<Rightarrow> worker_setup \<Rightarrow> 'c file_state \<Rightarrow> file_record" where
  "file_record_of env setup f =
     \<lparr>fr_path = fs_display f, fr_stored_as = stored_rel (ws_dest_rel setup) (fs_stored f),
      fr_bytes = oid_length (fs_object f), fr_suite = suite_name (oid_suite (fs_object f)),
      fr_root = ue_hex env (oid_root (fs_object f)), fr_receipt = fs_receipt f, fr_deleted = False\<rparr>"

definition new_upload ::
  "('w, 'v, 'c, 'k, 'b) upload_env \<Rightarrow> worker_setup \<Rightarrow> file_record list \<Rightarrow> nat \<Rightarrow> nat \<Rightarrow> rstr option \<Rightarrow> bool
   \<Rightarrow> log_event list \<Rightarrow> rstr \<Rightarrow> nat \<Rightarrow> upload_record" where
  "new_upload env setup records replays rejected transport partly elog i now =
     \<lparr>ur_id = i, ur_started_at = ws_started_at setup, ur_completed_at = now, ur_replayed = replays,
      ur_rejected = rejected, ur_transport = transport,
      ur_package_root = ue_hex env (oid_root (ws_package setup)),
      ur_total_bytes = sum_list (map fr_bytes records), ur_files = records, ur_partial = partly,
      ur_log = elog\<rparr>"

text \<open>\<open>i\<close>, \<open>job\<close> and \<open>token\<close> are the fresh identifiers of the record, and of a job it queues.\<close>

definition commit_upload_records ::
  "('w, 'v, 'c, 'k, 'b) upload_env \<Rightarrow> worker_setup \<Rightarrow> file_record list \<Rightarrow> nat \<Rightarrow> nat \<Rightarrow> rstr option \<Rightarrow> bool
   \<Rightarrow> log_event list \<Rightarrow> 'w machine \<Rightarrow> (session_error + finish_report) \<times> 'w machine" where
  "commit_upload_records env setup records replays rejected transport partly elog =
     and_then (world_step (\<lambda>w. case fresh_token env w of (i, w) \<Rightarrow> (Inr i, w))) (\<lambda>i.
     and_then (world_step (\<lambda>w. case fresh_token env w of (j, w) \<Rightarrow> (Inr j, w))) (\<lambda>job.
     and_then (world_step (\<lambda>w. case fresh_token env w of (t, w) \<Rightarrow> (Inr t, w))) (\<lambda>token m.
       let now = unix_now env (m_world m);
           u = new_upload env setup records replays rejected transport partly elog i now
       in case transact env (append_upload_inner (ue_lib env) (ws_tenant setup) (ws_link setup) u
                 (Some (ws_session setup)) now job token) m of
            (Inl e, m') \<Rightarrow> (Inl (Internal (OfStore e)), m')
          | (Inr None, m') \<Rightarrow> (Inl (Conflict (told ''request link no longer exists'')), m')
          | (Inr (Some upload), m') \<Rightarrow>
              (Inr \<lparr>rep_upload_id = upload, rep_files = records, rep_received = 0\<rparr>, m'))))"

definition record_event ::
  "('w, 'v, 'c, 'k, 'b) upload_env \<Rightarrow> worker_setup \<Rightarrow> nat \<Rightarrow> nat \<Rightarrow> string \<Rightarrow> rstr \<Rightarrow> nat \<Rightarrow> nat
   \<Rightarrow> 'w machine \<Rightarrow> 'w machine" where
  "record_event env setup received at' outcome detail replays rejected m =
     snd (transact env (record_session_event (ws_tenant setup) (ws_link setup)
       \<lparr>se_at = at', se_started_at = ws_started_at setup, se_outcome = lit outcome, se_detail = detail,
        se_received = received, se_expected = oid_length (ws_package setup), se_replayed = replays,
        se_rejected = rejected\<rparr>) m)"

section \<open>Seal and pages\<close>

datatype 'c phase =
    AwaitSeal
  | Pages nat "package_entry list" nat nat
  | Receiving "'c file_state list"
  | Done

definition MAX_PAGES :: nat where "MAX_PAGES = 4096"
definition ENTRY_ADMISSION_BYTES :: nat where "ENTRY_ADMISSION_BYTES = 4096"
definition ENTRY_ADMISSION_FLOOR :: nat where "ENTRY_ADMISSION_FLOOR = 256"

definition max_entries_for_bytes :: "nat \<Rightarrow> nat" where
  "max_entries_for_bytes max_total =
     min (max_total div ENTRY_ADMISSION_BYTES + ENTRY_ADMISSION_FLOOR) MAX_SESSION_ENTRIES"

definition handle_seal ::
  "('w, 'v, 'c, 'k, 'b) upload_env \<Rightarrow> worker_setup \<Rightarrow> bytes \<Rightarrow> 'c phase \<times> 'w machine
   \<Rightarrow> (session_error + nat) \<times> 'c phase \<times> 'w machine" where
  "handle_seal env setup seal s =
     (case s of (phase, m) \<Rightarrow>
        if phase \<noteq> AwaitSeal then (Inl (Conflict (told ''seal was already provided'')), phase, m)
        else case world_step (pk_new env seal (ws_package setup)) m of
          (Inl e, m) \<Rightarrow> (Inl (Bad (Told (lit ''seal rejected: '' @ e))), phase, m)
        | (Inr h, m) \<Rightarrow>
            (let pages = pk_pages env h (m_world m) in
             if pages = 0 \<or> pages > MAX_PAGES
             then (Inl (Bad (Told (lit ''manifest page count '' @ show_nat pages @ lit '' outside 1..=4096''))), phase, m)
             else (Inr pages, Pages h [] 0 (max_entries_for_bytes (ws_max_total setup)), m)))"

definition handle_page ::
  "('w, 'v, 'c, 'k, 'b) upload_env \<Rightarrow> bytes \<Rightarrow> 'c phase \<times> 'w machine
   \<Rightarrow> (session_error + nat) \<times> 'c phase \<times> 'w machine" where
  "handle_page env page s =
     (case s of (phase, m) \<Rightarrow>
        case phase of
          Pages h entries pushed max_entries \<Rightarrow>
            (case world_step (pk_push env h page) m of
               (Inl e, m) \<Rightarrow> (Inl (Bad (Told (lit ''manifest page rejected: '' @ e))), phase, m)
             | (Inr new, m) \<Rightarrow>
                 if length entries + length new > max_entries
                 then (Inl (Bad (Told (lit ''package exceeds '' @ show_nat max_entries @ lit '' entries''))), phase, m)
                 else (Inr (pk_pages env h (m_world m) - (pushed + 1)),
                       Pages h (entries @ new) (pushed + 1) max_entries, m))
        | _ \<Rightarrow> (Inl (Conflict (told ''manifest pages are not expected in this state'')), phase, m))"

section \<open>Begin\<close>

fun admit_components :: "path_lib \<Rightarrow> bool \<Rightarrow> rstr list \<Rightarrow> session_error + unit" where
  "admit_components lib hidden [] = Inr ()"
| "admit_components lib hidden (c # cs) =
     (case admit_component lib c hidden of
        Inl e \<Rightarrow> Inl (Bad (OfPath e))
      | Inr _ \<Rightarrow> admit_components lib hidden cs)"

fun admit_entries ::
  "('w, 'v, 'c, 'k, 'b) upload_env \<Rightarrow> bool \<Rightarrow> package_entry list \<Rightarrow> nat \<Rightarrow> session_error + nat" where
  "admit_entries env hidden [] bytes_total = Inr bytes_total"
| "admit_entries env hidden (e # es) bytes_total =
     (if pe_storage e \<noteq> Direct then Inl (Bad (told ''packed entries are not supported by votport''))
      else case admit_components (ue_paths env) hidden (pe_path e) of
        Inl x \<Rightarrow> Inl x
      | Inr _ \<Rightarrow>
          (case validate_empty_object env (pe_object e) of
             Inl x \<Rightarrow> Inl x
           | Inr _ \<Rightarrow>
               (case checked_add bytes_total (oid_length (pe_object e)) of
                  None \<Rightarrow> Inl (Bad (told ''total upload size overflows''))
                | Some t \<Rightarrow> admit_entries env hidden es t)))"

definition check_package ::
  "('w, 'v, 'c, 'k, 'b) upload_env \<Rightarrow> worker_setup \<Rightarrow> nat \<Rightarrow> package_entry list \<Rightarrow> session_error + unit" where
  "check_package env setup summary entries =
     (if summary \<noteq> length entries then Inl (Bad (told ''package entry count does not match manifest''))
      else if length entries > max_entries_for_bytes (ws_max_total setup)
      then Inl (Bad (Told (lit ''package exceeds '' @ show_nat (max_entries_for_bytes (ws_max_total setup))
                 @ lit '' entries'')))
      else case admit_entries env (ws_allow_hidden setup) entries 0 of
        Inl e \<Rightarrow> Inl e
      | Inr bytes_total \<Rightarrow>
          (case admit_portable_paths (ue_paths env) (map (\<lambda>e. join_with [47] (pe_path e)) entries) of
             Inl e \<Rightarrow> Inl (Bad (OfPath e))
           | Inr _ \<Rightarrow>
               if bytes_total > ws_max_total setup
               then Inl (Bad (Told (lit ''upload of '' @ show_nat bytes_total @ lit '' bytes exceeds the ''
                      @ show_nat (ws_max_total setup) @ lit '' byte limit for this link'')))
               else Inr ()))"

definition route_manifest :: "('w, 'v, 'c, 'k, 'b) upload_env \<Rightarrow> (rstr \<times> object_id) list \<Rightarrow> rstr" where
  "route_manifest env objects =
     route_manifest_digest (sl_stmts (ue_lib env)) (map (\<lambda>(name, x).
       (name, suite_name (oid_suite x), ue_hex env (oid_root x), oid_length x)) objects)"

definition link_exists :: "upload_store \<Rightarrow> rstr \<Rightarrow> rstr \<Rightarrow> bool" where
  "link_exists s tenant link \<longleftrightarrow> map_of (links (us_jobs s)) link = Some tenant"

definition require_link ::
  "('w, 'v, 'c, 'k, 'b) upload_env \<Rightarrow> worker_setup \<Rightarrow> 'w machine \<Rightarrow> (session_error + unit) \<times> 'w machine" where
  "require_link env setup =
     and_then (rewords (Internal \<circ> OfStore) (queries env (\<lambda>s. Inr (link_exists s (ws_tenant setup) (ws_link setup)))))
       (\<lambda>found. checks id (if found then Inr () else Inl (Conflict (told ''request link no longer exists''))))"

text \<open>Files that cannot be persisted are dropped again.\<close>

definition admit_files ::
  "('w, 'v, 'c, 'k, 'b) upload_env \<Rightarrow> worker_setup \<Rightarrow> entry list \<Rightarrow> 'w machine
   \<Rightarrow> (session_error + 'c file_state list) \<times> 'w machine" where
  "admit_files env setup entries =
     and_then (prepare_files env setup (\<lambda>_. True) entries) (\<lambda>files m.
       case persist_session env setup files m of
         (Inl e, m') \<Rightarrow> (Inl e, drop_files env files m')
       | (Inr saved, m') \<Rightarrow> (Inr saved, m'))"

definition receive_package ::
  "('w, 'v, 'c, 'k, 'b) upload_env \<Rightarrow> worker_setup \<Rightarrow> nat \<Rightarrow> package_entry list \<Rightarrow> 'w machine
   \<Rightarrow> (session_error + 'c file_state list) \<times> 'w machine" where
  "receive_package env setup h entries =
     and_then (rewords (\<lambda>e. Bad (Told (lit ''manifest rejected: '' @ e))) (world_step (pk_finish env h))) (\<lambda>summary.
     and_then (checks id (check_package env setup summary entries)) (\<lambda>_.
     and_then (rewords (Bad \<circ> OfStore) (queries env (\<lambda>s. check_route_manifest s (ws_session setup)
        (route_manifest env (map (\<lambda>e. (join_with [47] (pe_path e), pe_object e)) entries))))) (\<lambda>_.
     and_then (require_link env setup) (\<lambda>_.
     admit_files env setup (map (\<lambda>e. (pe_path e, pe_object e)) entries)))))"

text \<open>Empty files are complete at once; the loop stops at the first that cannot be published.\<close>

fun publish_empty ::
  "('w, 'v, 'c, 'k, 'b) upload_env \<Rightarrow> worker_setup \<Rightarrow> 'c file_state list \<times> 'w machine
   \<Rightarrow> (session_error + unit) \<times> 'c file_state list \<times> 'w machine" where
  "publish_empty env setup ([], m) = (Inr (), [], m)"
| "publish_empty env setup (f # fs, m) =
     (if oid_length (fs_object f) = 0 \<and> \<not> fs_published f then
        (case publish_file env setup (\<lambda>_. True) (f, m) of
           (Inl e, f', m') \<Rightarrow> (Inl e, f' # fs, m')
         | (Inr _, f', m') \<Rightarrow>
             (case publish_empty env setup (fs, m') of (r, fs', m'') \<Rightarrow> (r, f' # fs', m'')))
      else (case publish_empty env setup (fs, m) of (r, fs', m') \<Rightarrow> (r, f # fs', m')))"

definition entry_info_of ::
  "('w, 'v, 'c, 'k, 'b) upload_env \<Rightarrow> worker_setup \<Rightarrow> nat \<times> 'c file_state \<Rightarrow> entry_info" where
  "entry_info_of env setup x =
     (case x of (i, f) \<Rightarrow>
       \<lparr>ei_index = i, ei_path = fs_display f, ei_stored_as = stored_rel (ws_dest_rel setup) (fs_stored f),
        ei_bytes = oid_length (fs_object f), ei_complete = fs_published f,
        ei_covered_bytes = (if fs_published f then oid_length (fs_object f)
          else case fs_native f of None \<Rightarrow> 0 | Some st \<Rightarrow> co_prefix env (sf_coverage st)),
        ei_renamed = (stored_rel (ws_dest_rel setup) (fs_display f)
                      \<noteq> stored_rel (ws_dest_rel setup) (fs_stored f))\<rparr>)"

definition begin_receiving ::
  "('w, 'v, 'c, 'k, 'b) upload_env \<Rightarrow> worker_setup \<Rightarrow> 'c file_state list \<times> 'w machine
   \<Rightarrow> (session_error + entry_info list) \<times> 'c phase \<times> 'w machine" where
  "begin_receiving env setup s =
     (case publish_empty env setup s of
        (Inl e, files, m) \<Rightarrow> (Inl e, Receiving files, m)
      | (Inr _, files, m) \<Rightarrow> (Inr (map (entry_info_of env setup) (enumerate 0 files)), Receiving files, m))"

definition handle_begin ::
  "('w, 'v, 'c, 'k, 'b) upload_env \<Rightarrow> worker_setup \<Rightarrow> 'c phase \<times> 'w machine
   \<Rightarrow> (session_error + entry_info list) \<times> 'c phase \<times> 'w machine" where
  "handle_begin env setup s =
     (case s of (phase, m) \<Rightarrow>
        case phase of
          Receiving files \<Rightarrow> begin_receiving env setup (files, m)
        | Pages h entries _ _ \<Rightarrow>
            (case receive_package env setup h entries m of
               (Inl e, m') \<Rightarrow> (Inl e, Done, m')
             | (Inr files, m') \<Rightarrow> begin_receiving env setup (files, m'))
        | _ \<Rightarrow> (Inl (Conflict (told ''begin is only valid after the seal and all pages'')), phase, m))"

end
