(* ===== verification/UploadChunks.thy ===== *)
theory UploadChunks
  imports UploadWorker
begin

text \<open>
  Chunks, the end of a session and the loop of its worker, from \<open>server/src/session.rs\<close>:
  \<open>accept\_range\<close>, \<open>accept\_batch\<close>, \<open>handle\_finish\<close>, \<open>commit\_partial\<close>, \<open>preserve\_phase\<close> and
  \<open>spawn\_worker\_from\<close>.
\<close>

section \<open>One range\<close>

definition RANGE_IN_FLIGHT_BUDGET :: nat where "RANGE_IN_FLIGHT_BUDGET = 2 * nanos_per_sec"
definition RETRY_SLEEP :: nat where "RETRY_SLEEP = 5000000"

record chunk =
  ch_entry :: nat
  ch_offset :: nat
  ch_proof :: bytes
  ch_data :: bytes

record accept_core =
  cr_accepted :: bool
  cr_replay :: bool
  cr_covered :: nat
  cr_total :: nat
  cr_complete :: bool

record chunk_progress =
  cp_accepted :: bool
  cp_replay :: bool
  cp_covered :: nat
  cp_total :: nat
  cp_complete :: bool
  cp_received :: nat
  cp_rebegin :: bool

text \<open>
  The retry loop on a range that another writer has in flight, with the number of attempts as
  fuel. \<open>accept_attempts\<close> attempts are enough: each retry sleeps, and the deadline passes first.
\<close>

fun accept_until ::
  "('w, 'v, 'c, 'k, 'b) upload_env \<Rightarrow> 'v \<Rightarrow> nat \<Rightarrow> nat \<Rightarrow> 'c staged \<times> 'w machine
   \<Rightarrow> (session_error + acceptance) \<times> 'c staged \<times> 'w machine" where
  "accept_until env v deadline 0 s = (Inl (Internal (told ''range stayed in flight too long'')), s)"
| "accept_until env v deadline (Suc fuel) s =
     and_then (active_native env) (\<lambda>n s.
       case lifted (world_step (nf_accept env n v)) s of
         (Inr acceptance, t) \<Rightarrow> (Inr acceptance, t)
       | (Inl RangeInFlight, (st, m)) \<Rightarrow>
           if instant env (m_world m) \<ge> deadline
           then (Inl (Internal (told ''range stayed in flight too long'')), (st, m))
           else accept_until env v deadline fuel (st, m\<lparr>m_world := sleep env RETRY_SLEEP (m_world m)\<rparr>)
       | (Inl (WriteFailed e), t) \<Rightarrow> (Inl (Internal (Told (lit ''write failed: '' @ e))), t)) s"

definition accept_attempts :: nat where
  "accept_attempts = RANGE_IN_FLIGHT_BUDGET div RETRY_SLEEP + 1"

definition record_range ::
  "('w, 'v, 'c, 'k, 'b) upload_env \<Rightarrow> 'v \<Rightarrow> 'c staged \<times> 'w machine \<Rightarrow> (session_error + unit) \<times> 'c staged \<times> 'w machine" where
  "record_range env v s =
     (case s of (st, m) \<Rightarrow>
        case co_accept env v (sf_coverage st) of
          Inl e \<Rightarrow> (Inl (Internal (Told (lit ''record verified coverage: '' @ e))), st, m)
        | Inr c \<Rightarrow> (Inr (), st\<lparr>sf_coverage := c\<rparr>, m))"

definition core_of :: "acceptance \<Rightarrow> accept_core" where
  "core_of a =
     \<lparr>cr_accepted = (ac_status a = RangeAccepted), cr_replay = (ac_status a = RangeReplay),
      cr_covered = ac_covered a, cr_total = ac_total a, cr_complete = (ac_covered a = ac_total a)\<rparr>"

definition replayed_core :: "'c file_state \<Rightarrow> accept_core" where
  "replayed_core f =
     \<lparr>cr_accepted = False, cr_replay = True, cr_covered = oid_length (fs_object f),
      cr_total = oid_length (fs_object f), cr_complete = True\<rparr>"

definition accept_slice ::
  "('w, 'v, 'c, 'k, 'b) upload_env \<Rightarrow> 'v \<Rightarrow> 'c staged \<times> 'w machine \<Rightarrow> (session_error + accept_core) \<times> 'c staged \<times> 'w machine" where
  "accept_slice env v s =
     and_then (accept_until env v (instant env (m_world (snd s)) + RANGE_IN_FLIGHT_BUDGET) accept_attempts)
       (\<lambda>a. and_then (record_range env v) (\<lambda>_. yields (core_of a))) s"

definition accept_range ::
  "('w, 'v, 'c, 'k, 'b) upload_env \<Rightarrow> chunk \<Rightarrow> 'c file_state \<times> 'w machine
   \<Rightarrow> (session_error + accept_core) \<times> 'c file_state \<times> 'w machine" where
  "accept_range env c s =
     (if fs_published (fst s) then (Inr (replayed_core (fst s)), s)
      else case ve_range env (fs_object (fst s)) (ch_offset c) (ch_data c) (ch_proof c) of
        Inl e \<Rightarrow> (Inl (Bad (Told (lit ''range at offset '' @ show_nat (ch_offset c)
                         @ lit '' failed verification: '' @ e))), s)
      | Inr v \<Rightarrow> on_staged (accept_slice env v) s)"

section \<open>A batch\<close>

text \<open>An action on one file of the session, and on each of a list of files.\<close>

definition at_file ::
  "nat \<Rightarrow> ('c file_state \<times> 'w machine \<Rightarrow> 'r \<times> 'c file_state \<times> 'w machine) \<Rightarrow> 'c file_state list \<times> 'w machine
   \<Rightarrow> 'r option \<times> 'c file_state list \<times> 'w machine" where
  "at_file i f s =
     (case s of (files, m) \<Rightarrow>
        if i < length files then (case f (files ! i, m) of (r, g, m') \<Rightarrow> (Some r, files[i := g], m'))
        else (None, files, m))"

fun at_files ::
  "('c file_state \<times> 'w machine \<Rightarrow> 'r \<times> 'c file_state \<times> 'w machine) \<Rightarrow> nat list \<Rightarrow> 'c file_state list \<times> 'w machine
   \<Rightarrow> (nat \<times> 'r) list \<times> 'c file_state list \<times> 'w machine" where
  "at_files f [] s = ([], s)"
| "at_files f (i # is) s =
     (case at_file i f s of
        (None, t) \<Rightarrow> at_files f is t
      | (Some r, t) \<Rightarrow> (case at_files f is t of (rs, u) \<Rightarrow> ((i, r) # rs, u)))"

definition batch_files :: "nat list \<Rightarrow> nat list" where
  "batch_files entries = remdups (sort entries)"

definition open_for_batch ::
  "('w, 'v, 'c, 'k, 'b) upload_env \<Rightarrow> 'c file_state \<times> 'w machine \<Rightarrow> (session_error + unit) \<times> 'c file_state \<times> 'w machine" where
  "open_for_batch env s = (if fs_published (fst s) then (Inr (), s) else on_staged (reopen env) s)"

definition no_entry :: "nat \<Rightarrow> session_error" where
  "no_entry i = Bad (Told (lit ''no entry '' @ show_nat i))"

definition accept_item ::
  "('w, 'v, 'c, 'k, 'b) upload_env \<Rightarrow> (nat \<times> (session_error + unit)) list \<Rightarrow> chunk \<Rightarrow> 'c file_state list \<times> 'w machine
   \<Rightarrow> (session_error + accept_core) \<times> 'c file_state list \<times> 'w machine" where
  "accept_item env opening c s =
     (case map_of opening (ch_entry c) of
        None \<Rightarrow> (Inl (no_entry (ch_entry c)), s)
      | Some (Inl e) \<Rightarrow> (Inl e, s)
      | Some (Inr _) \<Rightarrow>
          (case at_file (ch_entry c) (accept_range env c) s of
             (None, t) \<Rightarrow> (Inl (no_entry (ch_entry c)), t)
           | (Some r, t) \<Rightarrow> (r, t)))"

text \<open>The ranges in the order they take effect; results are kept by position in the batch.\<close>

fun accept_all ::
  "('w, 'v, 'c, 'k, 'b) upload_env \<Rightarrow> (nat \<times> (session_error + unit)) list \<Rightarrow> chunk list \<Rightarrow> nat list
   \<Rightarrow> 'c file_state list \<times> 'w machine
   \<Rightarrow> (nat \<times> (session_error + accept_core)) list \<times> 'c file_state list \<times> 'w machine" where
  "accept_all env opening batch [] s = ([], s)"
| "accept_all env opening batch (j # js) s =
     (case accept_item env opening (batch ! j) s of (r, t) \<Rightarrow>
        (case accept_all env opening batch js t of (rs, u) \<Rightarrow> ((j, r) # rs, u)))"

definition is_complete :: "session_error + accept_core \<Rightarrow> bool" where
  "is_complete r = (case r of Inl _ \<Rightarrow> False | Inr c \<Rightarrow> cr_complete c)"

definition publish_for_batch ::
  "('w, 'v, 'c, 'k, 'b) upload_env \<Rightarrow> worker_setup \<Rightarrow> 'c file_state \<times> 'w machine
   \<Rightarrow> (session_error + unit) \<times> 'c file_state \<times> 'w machine" where
  "publish_for_batch env setup s =
     (if fs_published (fst s) then (Inr (), s) else publish_file env setup (\<lambda>_. True) s)"

definition progress_of :: "accept_core \<Rightarrow> chunk_progress" where
  "progress_of c =
     \<lparr>cp_accepted = cr_accepted c, cp_replay = cr_replay c, cp_covered = cr_covered c,
      cp_total = cr_total c, cp_complete = cr_complete c, cp_received = 0, cp_rebegin = False\<rparr>"

definition outcome_of ::
  "(nat \<times> (session_error + unit)) list \<Rightarrow> chunk \<times> (session_error + accept_core) \<Rightarrow> session_error + chunk_progress" where
  "outcome_of publication x =
     (case x of (c, r) \<Rightarrow>
        case r of
          Inl e \<Rightarrow> Inl e
        | Inr core \<Rightarrow>
            if cr_complete core then
              (case map_of publication (ch_entry c) of
                 Some (Inl e) \<Rightarrow> Inl e
               | _ \<Rightarrow> Inr (progress_of core))
            else Inr (progress_of core))"

definition park_file ::
  "('w, 'v, 'c, 'k, 'b) upload_env \<Rightarrow> 'c file_state \<times> 'w machine \<Rightarrow> unit \<times> 'c file_state \<times> 'w machine" where
  "park_file env s =
     (case s of (f, m) \<Rightarrow>
        case fs_native f of
          None \<Rightarrow> ((), f, m)
        | Some st \<Rightarrow> (case park_staged env (st, m) of (st', m') \<Rightarrow> ((), f\<lparr>fs_native := Some st'\<rparr>, m')))"

definition accept_files ::
  "('w, 'v, 'c, 'k, 'b) upload_env \<Rightarrow> worker_setup \<Rightarrow> chunk list \<Rightarrow> 'c file_state list \<times> 'w machine
   \<Rightarrow> (session_error + chunk_progress) list \<times> 'c file_state list \<times> 'w machine" where
  "accept_files env setup batch s =
     (case at_files (open_for_batch env) (batch_files (map ch_entry batch)) s of (opening, s1) \<Rightarrow>
     (case accept_all env opening batch (schedule env (length batch) (m_world (snd s1))) s1 of (made, s2) \<Rightarrow>
     (let cores = in_order made;
          finished = map (\<lambda>(c, _). ch_entry c) (filter (\<lambda>(_, r). is_complete r) (zip batch cores))
      in case at_files (publish_for_batch env setup) (batch_files finished) s2 of (publication, s3) \<Rightarrow>
         (case at_files (park_file env) (map ch_entry batch) s3 of (_, s4) \<Rightarrow>
            (map (outcome_of publication) (zip batch cores), s4)))))"

definition accept_batch ::
  "('w, 'v, 'c, 'k, 'b) upload_env \<Rightarrow> worker_setup \<Rightarrow> chunk list \<Rightarrow> 'c phase \<times> 'w machine
   \<Rightarrow> (session_error + chunk_progress) list \<times> 'c phase \<times> 'w machine" where
  "accept_batch env setup batch s =
     (case s of (phase, m) \<Rightarrow>
        case phase of
          Receiving files \<Rightarrow>
            (case accept_files env setup batch (files, m) of (rs, files', m') \<Rightarrow> (rs, Receiving files', m'))
        | _ \<Rightarrow> (map (\<lambda>_. Inl (Conflict (told ''chunks are only accepted after begin''))) batch, phase, m))"

section \<open>The worker\<close>

record 'c worker =
  wk_phase :: "'c phase"
  wk_received :: nat
  wk_already :: nat
  wk_tracker :: tracker
  wk_rebegin :: bool
  wk_suspended :: bool
  wk_replays :: nat
  wk_rejected :: nat
  wk_last_error :: "session_error option"
  wk_last_seen :: nat
  wk_log :: transfer_log
  wk_heard :: bool
  wk_opened :: bool

definition published_count :: "'c phase \<Rightarrow> nat" where
  "published_count p = (case p of Receiving files \<Rightarrow> length (filter fs_published files) | _ \<Rightarrow> 0)"

definition new_worker :: "'c phase \<Rightarrow> bool \<Rightarrow> nat \<Rightarrow> log_event list \<Rightarrow> nat \<Rightarrow> nat \<Rightarrow> 'c worker" where
  "new_worker phase resumed already recovered at' now =
     \<lparr>wk_phase = phase, wk_received = 0, wk_already = already,
      wk_tracker = \<lparr>tk_bytes = 0, tk_last = at'\<rparr>, wk_rebegin = resumed, wk_suspended = False,
      wk_replays = 0, wk_rejected = 0, wk_last_error = None, wk_last_seen = now,
      wk_log = fold log_push ((if resumed then [plain_event now ''reattached'' (Some (published_count phase))]
                               else []) @ recovered) \<lparr>tl_events = [], tl_elided = 0\<rparr>,
      wk_heard = \<not> resumed, wk_opened = resumed\<rparr>"

datatype cmd =
    Seal bytes
  | Page bytes
  | Begin bool
  | Chunk chunk
  | Finish
  | Abort
  | Suspend

datatype reply =
    PagesLeft nat
  | EntryInfos "entry_info list"
  | Progress chunk_progress
  | Report finish_report
  | Closed

definition noted :: "session_error + 'a \<Rightarrow> 'c worker \<Rightarrow> 'c worker" where
  "noted r w = (case r of Inl e \<Rightarrow> w\<lparr>wk_last_error := Some e\<rparr> | Inr _ \<Rightarrow> w)"

definition set_phase :: "'c phase \<Rightarrow> 'c worker \<Rightarrow> 'c worker" where
  "set_phase p w = w\<lparr>wk_phase := p\<rparr>"

definition phase_drop :: "('w, 'v, 'c, 'k, 'b) upload_env \<Rightarrow> 'c phase \<Rightarrow> 'w machine \<Rightarrow> 'w machine" where
  "phase_drop env p m = (case p of Receiving files \<Rightarrow> drop_files env files m | _ \<Rightarrow> m)"

text \<open>\<open>handle\_finish\<close>: the record first; the resume record goes only after a last checkpoint.\<close>

definition handle_finish ::
  "('w, 'v, 'c, 'k, 'b) upload_env \<Rightarrow> worker_setup \<Rightarrow> 'c worker \<Rightarrow> 'w machine
   \<Rightarrow> (session_error + finish_report) \<times> 'c phase \<times> 'w machine" where
  "handle_finish env setup w m =
     (case wk_phase w of
        Receiving files \<Rightarrow>
          (case find (\<lambda>f. \<not> fs_published f) files of
             Some f \<Rightarrow> (Inl (Bad (Told (fs_display f @ lit '' is not fully received yet''))), wk_phase w, m)
           | None \<Rightarrow>
               let now = unix_now env (m_world m);
                   events = log_snapshot now (wk_log w) @ [plain_event now ''finished'' (Some (wk_replays w))]
               in case commit_upload_records env setup (map (file_record_of env setup) files)
                         (wk_replays w) (wk_rejected w) (Some (lit ''http'')) False events m of
                    (Inl e, m') \<Rightarrow> (Inl e, wk_phase w, m')
                  | (Inr report, m') \<Rightarrow>
                      (case checkpoint_session env setup (files, m') of (saved, files', m2) \<Rightarrow>
                         (Inr (report\<lparr>rep_received := wk_received w\<rparr>), Done,
                          drop_files env files' (if saved then forget_session env setup m2 else m2))))
      | _ \<Rightarrow> (Inl (Conflict (told ''nothing to finish in this state'')), wk_phase w, m))"

text \<open>\<open>preserve\_phase\<close>: checkpoint, then give up the handles and keep the staging.\<close>

definition abandon_staged :: "('w, 'v, 'c, 'k, 'b) upload_env \<Rightarrow> 'c staged \<Rightarrow> 'w machine \<Rightarrow> 'w machine" where
  "abandon_staged env st m = snd (park_staged env (st\<lparr>sf_preserve := True\<rparr>, m))"

definition abandon_files ::
  "('w, 'v, 'c, 'k, 'b) upload_env \<Rightarrow> 'c file_state list \<Rightarrow> 'w machine \<Rightarrow> 'w machine" where
  "abandon_files env files m =
     fold (\<lambda>f m. case fs_native f of None \<Rightarrow> m | Some st \<Rightarrow> abandon_staged env st m) files m"

definition preserve_phase ::
  "('w, 'v, 'c, 'k, 'b) upload_env \<Rightarrow> worker_setup \<Rightarrow> 'c phase \<times> 'w machine \<Rightarrow> bool \<times> 'c phase \<times> 'w machine" where
  "preserve_phase env setup s =
     (case s of (phase, m) \<Rightarrow>
        case phase of
          Receiving files \<Rightarrow>
            (case checkpoint_session env setup (files, m) of (saved, files', m') \<Rightarrow>
               (saved, Receiving (map (\<lambda>f. f\<lparr>fs_native := None\<rparr>) files'), abandon_files env files' m'))
        | _ \<Rightarrow> (True, phase, m))"

definition unresolved_file :: "('w, 'v, 'c, 'k, 'b) upload_env \<Rightarrow> 'w \<Rightarrow> 'c file_state \<Rightarrow> bool" where
  "unresolved_file env w f \<longleftrightarrow>
     \<not> fs_published f
     \<and> (case fs_native f of
          None \<Rightarrow> False
        | Some st \<Rightarrow> sf_preserve st
            \<or> (case sf_active st of None \<Rightarrow> False | Some n \<Rightarrow> nf_recovery env n w))"

definition commit_partial ::
  "('w, 'v, 'c, 'k, 'b) upload_env \<Rightarrow> worker_setup \<Rightarrow> 'c worker \<Rightarrow> 'w machine \<Rightarrow> bool \<times> 'c phase \<times> 'w machine" where
  "commit_partial env setup w m =
     (case wk_phase w of
        Receiving files \<Rightarrow>
          (let unresolved = (\<not> wd_live env (m_world m) \<or> list_ex (unresolved_file env (m_world m)) files);
               records = map (file_record_of env setup) (filter fs_published files)
           in if records = [] then (\<not> unresolved, wk_phase w, m)
              else case commit_upload_records env setup records (wk_replays w) (wk_rejected w)
                          (Some (lit ''http'')) True (log_snapshot (unix_now env (m_world m)) (wk_log w)) m of
                     (Inl e, m') \<Rightarrow> (False, wk_phase w, m')
                   | (Inr _, m') \<Rightarrow>
                       if unresolved then (False, wk_phase w, m')
                       else (case checkpoint_session env setup (files, m') of (saved, files', m2) \<Rightarrow>
                               (saved, Receiving files', m2)))
      | _ \<Rightarrow> (True, wk_phase w, m))"

text \<open>What a cancelled and an interrupted session have in common: record, then forget or preserve.\<close>

definition wind_up ::
  "('w, 'v, 'c, 'k, 'b) upload_env \<Rightarrow> worker_setup \<Rightarrow> 'c worker \<Rightarrow> 'w machine \<Rightarrow> bool \<times> 'c phase \<times> 'w machine" where
  "wind_up env setup w m =
     (case commit_partial env setup w m of (recorded, phase, m') \<Rightarrow>
        if recorded then (recorded, phase, forget_session env setup m')
        else (case preserve_phase env setup (phase, m') of (_, phase', m'') \<Rightarrow> (recorded, phase', m'')))"

definition event_of ::
  "('w, 'v, 'c, 'k, 'b) upload_env \<Rightarrow> worker_setup \<Rightarrow> 'c worker \<Rightarrow> string \<Rightarrow> rstr \<Rightarrow> 'w machine \<Rightarrow> 'w machine" where
  "event_of env setup w outcome detail m =
     record_event env setup (wk_already w + wk_received w) (wk_last_seen w) outcome detail
       (wk_replays w) (wk_rejected w) m"

end
