(* ===== verification/UploadRun.thy ===== *)
theory UploadRun
  imports UploadChunks
begin

text \<open>
  The loop of \<open>spawn\_worker\_from\<close> in \<open>server/src/session.rs\<close>. The commands the channel will
  deliver are a list; \<open>arrived\<close> says how many of them are already there when a batch of chunks
  is drained, and the end of the list is the channel being closed.
\<close>

section \<open>Commands\<close>

definition stopping_error :: session_error where
  "stopping_error = Unavailable (told ''the server is shutting down; retry after restart'')"

definition seal_step ::
  "('w, 'v, 'c, 'k, 'b) upload_env \<Rightarrow> worker_setup \<Rightarrow> bytes \<Rightarrow> 'c worker \<times> 'w machine
   \<Rightarrow> (session_error + reply) \<times> 'c worker \<times> 'w machine" where
  "seal_step env setup seal s =
     (case s of (w, m) \<Rightarrow>
        case handle_seal env setup seal (wk_phase w, m) of (r, p, m') \<Rightarrow>
          (map_sum id PagesLeft r, noted r (set_phase p w), m'))"

definition page_step ::
  "('w, 'v, 'c, 'k, 'b) upload_env \<Rightarrow> bytes \<Rightarrow> 'c worker \<times> 'w machine
   \<Rightarrow> (session_error + reply) \<times> 'c worker \<times> 'w machine" where
  "page_step env page s =
     (case s of (w, m) \<Rightarrow>
        case handle_page env page (wk_phase w, m) of (r, p, m') \<Rightarrow>
          (map_sum id PagesLeft r, noted r (set_phase p w), m'))"

definition open_log :: "nat \<Rightarrow> session_error + 'a \<Rightarrow> 'c worker \<Rightarrow> 'c worker" where
  "open_log now r w =
     (if isl r \<or> wk_opened w then w
      else w\<lparr>wk_log := log_push (plain_event now ''opened'' None) (wk_log w), wk_opened := True\<rparr>)"

definition begin_step ::
  "('w, 'v, 'c, 'k, 'b) upload_env \<Rightarrow> worker_setup \<Rightarrow> bool \<Rightarrow> 'c worker \<times> 'w machine
   \<Rightarrow> (session_error + reply) \<times> 'c worker \<times> 'w machine" where
  "begin_step env setup stopping s =
     (case s of (w, m) \<Rightarrow>
        case (if stopping then (Inl stopping_error, wk_phase w, m) else handle_begin env setup (wk_phase w, m)) of
          (r, p, m') \<Rightarrow>
            (let w' = (open_log (unix_now env (m_world m')) r (set_phase p w))\<lparr>wk_rebegin := False\<rparr>;
                 m'' = (case (r, p) of
                          (Inl e, Done) \<Rightarrow> event_of env setup w' ''rejected'' (ue_wording env e) m'
                        | _ \<Rightarrow> m')
             in (map_sum id EntryInfos r, noted r w', m'')))"

definition finish_step ::
  "('w, 'v, 'c, 'k, 'b) upload_env \<Rightarrow> worker_setup \<Rightarrow> 'c worker \<times> 'w machine
   \<Rightarrow> (session_error + reply) \<times> 'c worker \<times> 'w machine" where
  "finish_step env setup s =
     (case s of (w, m) \<Rightarrow>
        case handle_finish env setup w m of (r, p, m') \<Rightarrow>
          (map_sum id Report r, noted r (set_phase p w), m'))"

definition retained_error :: session_error where
  "retained_error = Internal (told
     ''cancelled transfer retains recovery metadata because recording completion failed'')"

definition abort_step ::
  "('w, 'v, 'c, 'k, 'b) upload_env \<Rightarrow> worker_setup \<Rightarrow> 'c worker \<times> 'w machine
   \<Rightarrow> (session_error + reply) \<times> 'c worker \<times> 'w machine" where
  "abort_step env setup s =
     (case s of (w, m) \<Rightarrow>
        let w' = w\<lparr>wk_log := log_terminal (plain_event (unix_now env (m_world m)) ''cancelled'' None) (wk_log w)\<rparr>
        in case wind_up env setup w' m of (recorded, p, m') \<Rightarrow>
             (if recorded then Inr Closed else Inl retained_error,
              set_phase Done w',
              phase_drop env p (event_of env setup w' ''cancelled'' (lit ''cancelled by the sender'') m')))"

definition checkpoint_failed :: session_error where
  "checkpoint_failed = Internal (told
     ''checkpoint failed; the resume point keeps its last persisted state and the staging stays on disk for recovery'')"

definition suspend_step ::
  "('w, 'v, 'c, 'k, 'b) upload_env \<Rightarrow> worker_setup \<Rightarrow> 'c worker \<times> 'w machine
   \<Rightarrow> (session_error + reply) \<times> 'c worker \<times> 'w machine" where
  "suspend_step env setup s =
     (case s of (w, m) \<Rightarrow>
        case preserve_phase env setup (wk_phase w, m) of (saved, p, m') \<Rightarrow>
          (if saved then Inr Closed else Inl checkpoint_failed,
           (set_phase Done w)\<lparr>wk_suspended := True\<rparr>, phase_drop env p m'))"

section \<open>Batches of chunks\<close>

text \<open>
  Draining the channel after a first chunk: at most \<open>room\<close> more chunks of the \<open>available\<close>
  commands; a command of another kind ends the batch and is carried over.
\<close>

fun drain :: "nat \<Rightarrow> nat \<Rightarrow> cmd list \<Rightarrow> chunk list \<times> cmd list \<times> bool" where
  "drain 0 available queue = ([], queue, False)"
| "drain (Suc room) 0 queue = ([], queue, False)"
| "drain (Suc room) (Suc available) [] = ([], [], False)"
| "drain (Suc room) (Suc available) (c # queue) =
     (case c of
        Chunk x \<Rightarrow> (case drain room available queue of (xs, rest, carried) \<Rightarrow> (x # xs, rest, carried))
      | _ \<Rightarrow> ([], c # queue, True))"

definition stamp_first :: "nat \<Rightarrow> 'c file_state \<Rightarrow> 'c file_state" where
  "stamp_first now f =
     f\<lparr>fs_first_range := Some (case fs_first_range f of None \<Rightarrow> now | Some t \<Rightarrow> t)\<rparr>"

definition stamp_files :: "nat \<Rightarrow> (chunk \<times> (session_error + chunk_progress)) list \<Rightarrow> 'c file_state list \<Rightarrow> 'c file_state list" where
  "stamp_files now outcomes files =
     fold (\<lambda>(c, r) fs.
       if (case r of Inl _ \<Rightarrow> False | Inr p \<Rightarrow> cp_accepted p) \<and> ch_entry c < length fs
       then fs[ch_entry c := stamp_first now (fs ! ch_entry c)] else fs) outcomes files"

definition published_event :: "nat \<Rightarrow> 'c file_state \<Rightarrow> log_event" where
  "published_event now f =
     \<lparr>le_at = now, le_kind = lit ''published'', le_path = Some (fs_display f),
      le_bytes = Some (oid_length (fs_object f)),
      le_secs = map_option (\<lambda>from. now - from) (fs_first_range f), le_count = None\<rparr>"

text \<open>One event per file that this batch published.\<close>

definition newly_published :: "'c file_state list \<Rightarrow> 'c file_state list \<Rightarrow> nat list \<Rightarrow> nat list" where
  "newly_published old after entries =
     rev (remdups (rev (filter (\<lambda>i. i < length after \<and> fs_published (after ! i)
        \<and> \<not> (i < length old \<and> fs_published (old ! i))) entries)))"

definition after_batch ::
  "nat \<Rightarrow> 'c phase \<Rightarrow> chunk list \<Rightarrow> (session_error + chunk_progress) list \<Rightarrow> 'c worker \<Rightarrow> 'c worker" where
  "after_batch now previous batch outcomes w =
     (case (previous, wk_phase w) of
        (Receiving old, Receiving files) \<Rightarrow>
          (let files' = stamp_files now (zip batch outcomes) files
           in w\<lparr>wk_phase := Receiving files',
                wk_log := fold (\<lambda>i. log_push (published_event now (files' ! i)))
                            (newly_published old files' (map ch_entry batch)) (wk_log w)\<rparr>)
      | _ \<Rightarrow> w)"

text \<open>The counters and the reply of one chunk.\<close>

definition tally ::
  "chunk \<Rightarrow> session_error + chunk_progress \<Rightarrow> 'c worker \<Rightarrow> (session_error + reply) \<times> 'c worker" where
  "tally c r w =
     (case r of
        Inl e \<Rightarrow> (Inl e, noted (Inl e :: session_error + unit) (w\<lparr>wk_rejected := wk_rejected w + 1\<rparr>))
      | Inr p \<Rightarrow>
          (let w' = (if cp_replay p then w\<lparr>wk_replays := wk_replays w + 1\<rparr>
                     else if cp_accepted p then w\<lparr>wk_received := wk_received w + length (ch_data c)\<rparr>
                     else w)
           in (Inr (Progress (p\<lparr>cp_rebegin := wk_rebegin w, cp_received := wk_already w + wk_received w'\<rparr>)), w')))"

fun tally_all ::
  "(chunk \<times> (session_error + chunk_progress)) list \<Rightarrow> 'c worker \<Rightarrow> (session_error + reply) list \<times> 'c worker" where
  "tally_all [] w = ([], w)"
| "tally_all ((c, r) # xs) w =
     (case tally c r w of (q, w') \<Rightarrow> (case tally_all xs w' of (qs, w'') \<Rightarrow> (q # qs, w'')))"

definition pace_checkpoint ::
  "('w, 'v, 'c, 'k, 'b) upload_env \<Rightarrow> worker_setup \<Rightarrow> nat \<Rightarrow> 'c worker \<times> 'w machine \<Rightarrow> 'c worker \<times> 'w machine" where
  "pace_checkpoint env setup added s =
     (case s of (w, m) \<Rightarrow>
        case should_checkpoint_at added (instant env (m_world m)) (wk_tracker w) of (due, t) \<Rightarrow>
          (let w' = w\<lparr>wk_tracker := t\<rparr> in
           if \<not> due then (w', m)
           else case wk_phase w' of
             Receiving files \<Rightarrow>
               (case checkpoint_session env setup (files, m) of (_, files', m') \<Rightarrow>
                  (set_phase (Receiving files') w', m'))
           | _ \<Rightarrow> (w', m)))"

definition chunk_step ::
  "('w, 'v, 'c, 'k, 'b) upload_env \<Rightarrow> worker_setup \<Rightarrow> chunk list \<Rightarrow> 'c worker \<times> 'w machine
   \<Rightarrow> (session_error + reply) list \<times> 'c worker \<times> 'w machine" where
  "chunk_step env setup batch s =
     (case s of (w, m) \<Rightarrow>
        case accept_batch env setup batch (wk_phase w, m) of (outcomes, p, m') \<Rightarrow>
        case tally_all (zip batch outcomes)
               (after_batch (unix_now env (m_world m')) (wk_phase w) batch outcomes (set_phase p w)) of
          (replies, w') \<Rightarrow>
            (replies, pace_checkpoint env setup (wk_received w' - wk_received w) (w', m')))"

section \<open>The loop\<close>

definition command_step ::
  "('w, 'v, 'c, 'k, 'b) upload_env \<Rightarrow> worker_setup \<Rightarrow> cmd \<Rightarrow> 'c worker \<times> 'w machine
   \<Rightarrow> (session_error + reply) list \<times> 'c worker \<times> 'w machine" where
  "command_step env setup c s =
     (case (case c of
              Seal b \<Rightarrow> seal_step env setup b s
            | Page b \<Rightarrow> page_step env b s
            | Begin stopping \<Rightarrow> begin_step env setup stopping s
            | Finish \<Rightarrow> finish_step env setup s
            | Abort \<Rightarrow> abort_step env setup s
            | Suspend \<Rightarrow> suspend_step env setup s
            | Chunk _ \<Rightarrow> (Inr Closed, s)) of
        (r, t) \<Rightarrow> ([r], t))"

text \<open>A chunk with what was drained behind it; any other command by itself.\<close>

definition turn ::
  "('w, 'v, 'c, 'k, 'b) upload_env \<Rightarrow> worker_setup \<Rightarrow> cmd \<Rightarrow> cmd list \<Rightarrow> 'c worker \<times> 'w machine
   \<Rightarrow> (session_error + reply) list \<times> (cmd list \<times> bool) \<times> 'c worker \<times> 'w machine" where
  "turn env setup c queue s =
     (case c of
        Chunk x \<Rightarrow>
          (case drain (MAX_CHUNK_BATCH - 1) (arrived env (m_world (snd s))) queue of (xs, rest, carried) \<Rightarrow>
             (case chunk_step env setup (x # xs) s of (rs, t) \<Rightarrow> (rs, (rest, carried), t)))
      | _ \<Rightarrow> (case command_step env setup c s of (rs, t) \<Rightarrow> (rs, (queue, False), t)))"

text \<open>Waiting on the channel; only a real wait can be quiet.\<close>

definition await ::
  "('w, 'v, 'c, 'k, 'b) upload_env \<Rightarrow> worker_setup \<Rightarrow> bool \<Rightarrow> 'c worker \<times> 'w machine \<Rightarrow> 'c worker \<times> 'w machine" where
  "await env setup carried s =
     (case s of (w, m) \<Rightarrow>
        let m' = (if carried then m else m\<lparr>m_world := receive env (m_world m)\<rparr>);
            now = unix_now env (m_world m');
            silent = (instant env (m_world m') - instant env (m_world m)) div nanos_per_sec;
            quiet = \<lparr>le_at = now, le_kind = lit ''quiet'', le_path = None, le_bytes = None,
                     le_secs = Some silent, le_count = None\<rparr>;
            w' = (if \<not> carried \<and> wk_heard w \<and> silent \<ge> ws_quiet_after setup
                  then w\<lparr>wk_log := log_push quiet (wk_log w)\<rparr> else w)
        in (w'\<lparr>wk_heard := True, wk_last_seen := now\<rparr>, m'))"

text \<open>The exit of the loop: a session that neither finished nor was suspended is recorded.\<close>

definition worker_exit ::
  "('w, 'v, 'c, 'k, 'b) upload_env \<Rightarrow> worker_setup \<Rightarrow> 'c worker \<times> 'w machine \<Rightarrow> 'c worker \<times> 'w machine" where
  "worker_exit env setup s =
     (case s of (w, m) \<Rightarrow>
        if wk_phase w = Done \<or> wk_suspended w then (w, phase_drop env (wk_phase w) m)
        else
          let w' = w\<lparr>wk_log := log_terminal (plain_event (wk_last_seen w) ''interrupted'' None) (wk_log w)\<rparr>
          in case wind_up env setup w' m of (_, p, m') \<Rightarrow>
               (set_phase p w',
                phase_drop env p (event_of env setup w' ''interrupted''
                  (case wk_last_error w of
                     None \<Rightarrow> lit ''session went idle and expired; the sender likely disconnected''
                   | Some e \<Rightarrow> ue_wording env e) m')))"

lemma drain_length: "drain room available queue = (xs, rest, carried) \<Longrightarrow> length rest \<le> length queue"
proof (induction room available queue arbitrary: xs rest rule: drain.induct)
  case (4 room available c queue)
  then show ?case by (cases c) (auto split: prod.splits simp: le_SucI)
qed auto

lemma turn_length:
  "turn env setup c queue s = (rs, (rest, carried), t) \<Longrightarrow> length rest \<le> length queue"
  by (cases c) (auto simp: turn_def dest: drain_length split: prod.splits)

function serve ::
  "('w, 'v, 'c, 'k, 'b) upload_env \<Rightarrow> worker_setup \<Rightarrow> bool \<Rightarrow> cmd list \<Rightarrow> 'c worker \<times> 'w machine
   \<Rightarrow> (session_error + reply) list \<times> 'c worker \<times> 'w machine" where
  "serve env setup carried [] s =
     ([], worker_exit env setup (fst s, (snd s)\<lparr>m_world := receive env (m_world (snd s))\<rparr>))"
| "serve env setup carried (c # queue) s =
     (case turn env setup c queue (await env setup carried s) of (rs, (rest, carried'), t) \<Rightarrow>
        if wk_phase (fst t) = Done then (rs, worker_exit env setup t)
        else (case serve env setup carried' rest t of (rs', u) \<Rightarrow> (rs @ rs', u)))"
  by pat_completeness auto
termination
  by (relation "measure (\<lambda>(_, _, _, queue, _). length queue)")
    (auto dest!: turn_length [OF sym])

declare serve.simps [simp del]

end
