(* ===== verification/UploadInvariant.thy ===== *)
theory UploadInvariant
  imports UploadRun
begin

text \<open>
  What the worker keeps true of its resume record. Between commands of the receiving phase the
  session's row is in the store, not committed, with a row for each file, and what a file
  believes to be checkpointed is what its row says (\<open>worker_ok\<close>). Work on the files changes
  neither their identity nor the tables, and never takes a publication back (\<open>files_step\<close>).
\<close>

section \<open>Work on files\<close>

definition store_kept :: "'x \<times> 'w machine \<Rightarrow> 'x \<times> 'w machine \<Rightarrow> bool" where
  "store_kept s t \<longleftrightarrow> m_store (snd t) = m_store (snd s)"

definition same_file :: "'c file_state \<Rightarrow> 'c file_state \<Rightarrow> bool" where
  "same_file f g \<longleftrightarrow>
     fs_display g = fs_display f \<and> fs_stored g = fs_stored f \<and> fs_object g = fs_object f
     \<and> fs_checkpointed g = fs_checkpointed f \<and> (fs_published f \<longrightarrow> fs_published g)"

definition file_step :: "'c file_state \<times> 'w machine \<Rightarrow> 'c file_state \<times> 'w machine \<Rightarrow> bool" where
  "file_step s t \<longleftrightarrow> same_file (fst s) (fst t) \<and> store_kept s t"

lemma store_kept_refl [simp]: "reflp store_kept" "transp store_kept"
  by (auto simp: store_kept_def intro: reflpI transpI)

lemma same_file_refl [simp]: "same_file f f"
  by (simp add: same_file_def)

lemma same_file_trans [trans]: "same_file f g \<Longrightarrow> same_file g h \<Longrightarrow> same_file f h"
  by (simp add: same_file_def)

lemma file_step_refl [simp]: "reflp file_step" "transp file_step"
  by (auto simp: file_step_def store_kept_def intro!: reflpI transpI intro: same_file_trans)

lemmas step_defs = and_then_def yields_def fails_def ensures_def checks_def looks_def modifies_def
  rewords_def lifted_def world_step_def checked_live_def

lemma park_staged_store: "park_staged env s = t \<Longrightarrow> store_kept s t"
  by (auto simp: park_staged_def store_kept_def split: option.splits prod.splits)

lemma new_staged_store: "new_staged env setup n d c p m = (st, t) \<Longrightarrow> m_store t = m_store m"
  unfolding new_staged_def by (drule park_staged_store) (simp add: store_kept_def)

lemma keeps_staged_directory [keeps_rules]: "keeps store_kept (staged_directory env)"
  by (rule keepsI) (auto simp: staged_directory_def step_defs store_kept_def
      split: option.splits prod.splits sum.splits if_splits)

lemma keeps_active_native [keeps_rules]: "keeps store_kept (active_native env)"
  by (rule keepsI) (auto simp: active_native_def step_defs store_kept_def
      split: option.splits prod.splits sum.splits if_splits)

lemma keeps_reopen [keeps_rules]: "keeps store_kept (reopen env)"
proof (rule keepsI)
  fix s r t assume h: "reopen env s = (r, t)"
  show "store_kept s t"
  proof (cases "wd_live env (m_world (snd s)) \<and> sf_active (fst s) = None")
    case False
    with h show ?thesis
      by (cases s) (auto simp: reopen_def step_defs store_kept_def split: if_splits)
  next
    case True
    obtain q u where d: "staged_directory env s = (q, u)" by (cases "staged_directory env s")
    with keeps_staged_directory have "store_kept s u" by (rule keepsD)
    with True h d show ?thesis
      by (cases s; cases u) (auto simp: reopen_def step_defs store_kept_def attach_def
          split: prod.splits sum.splits)
  qed
qed

lemma keeps_on_staged [keeps_rules]: "keeps store_kept f \<Longrightarrow> keeps file_step (on_staged f)"
proof (rule keepsI)
  fix s r t assume k: "keeps store_kept f" and h: "on_staged f s = (r, t)"
  obtain x m where s: "s = (x, m)" by (cases s)
  show "file_step s t"
  proof (cases "fs_native x")
    case None
    with h s show ?thesis by (simp add: on_staged_def file_step_def store_kept_def)
  next
    case (Some st)
    obtain q st' m' where f: "f (st, m) = (q, st', m')" by (cases "f (st, m)") auto
    with k have "store_kept (st, m) (st', m')" by (rule keepsD)
    with h s Some f show ?thesis by (auto simp: on_staged_def file_step_def store_kept_def same_file_def)
  qed
qed

lemma install_store: "install env display s = (r, t) \<Longrightarrow> store_kept s t"
proof -
  assume h: "install env display s = (r, t)"
  obtain q u where d: "staged_directory env s = (q, u)" by (cases "staged_directory env s")
  with keeps_staged_directory have "store_kept s u" by (rule keepsD)
  with h d show ?thesis
    by (cases s; cases u) (auto simp: install_def step_defs check_location_def set_preserve_def store_kept_def
        split: prod.splits sum.splits option.splits)
qed

lemma keeps_install [keeps_rules]: "keeps store_kept (install env display)"
  by (rule keepsI) (rule install_store)

lemma attest_step: "file_step s (attest env setup n l s)"
  by (cases s) (auto simp: attest_def file_step_def store_kept_def same_file_def split: option.splits prod.splits)

lemma settle_step: "file_step s (settle env s)"
  by (cases s) (auto simp: settle_def file_step_def store_kept_def same_file_def
      split: option.splits prod.splits dest: park_staged_store)

lemma mark_reopened_step: "file_step s (mark_reopened s)"
  by (cases s) (simp add: mark_reopened_def file_step_def store_kept_def same_file_def)

lemma clear_rehash_step: "file_step s (clear_rehash s)"
  by (cases s) (simp add: clear_rehash_def file_step_def store_kept_def same_file_def)

lemma restart_coverage_step: "file_step s (restart_coverage env s)"
  by (cases s) (auto simp: restart_coverage_def file_step_def store_kept_def same_file_def
      split: option.splits prod.splits dest: park_staged_store)

lemma keeps_body: "(\<And>s. keeps R (G s)) \<Longrightarrow> (\<And>s. F s = G s s) \<Longrightarrow> keeps R F"
  by (simp add: keeps_def)

lemma keeps_staging_valid [keeps_rules]: "reflp R \<Longrightarrow> keeps R (staging_valid env active object n)"
  unfolding staging_valid_def by (rule keeps_looks)

lemma keeps_prepare_publication [keeps_rules]: "keeps file_step (prepare_publication env active)"
  unfolding prepare_publication_def
proof (intro keeps_and_then keeps_on_staged keeps_reopen keeps_modifies mark_reopened_step file_step_refl)
  fix u v :: unit
  show "keeps file_step (\<lambda>s. if \<not> fs_rehash (fst s) then yields () s
     else and_then (on_staged (active_native env)) (\<lambda>n.
            and_then (staging_valid env active (fs_object (fst s)) n) (\<lambda>valid s.
              if valid then modifies clear_rehash s
              else and_then (modifies (restart_coverage env)) (\<lambda>_. fails (changed_staging (fst s))) s)) s)"
  proof (rule keeps_body [where G = "\<lambda>s. if \<not> fs_rehash (fst s) then yields ()
     else and_then (on_staged (active_native env)) (\<lambda>n.
            and_then (staging_valid env active (fs_object (fst s)) n) (\<lambda>valid s.
              if valid then modifies clear_rehash s
              else and_then (modifies (restart_coverage env)) (\<lambda>_. fails (changed_staging (fst s))) s))"])
    fix s :: "'a file_state \<times> 'b machine"
    have "keeps file_step (\<lambda>s. if valid then modifies clear_rehash s
        else and_then (modifies (restart_coverage env)) (\<lambda>_. fails (changed_staging (fst s))) s)" for valid
    proof (rule keeps_body [where G = "\<lambda>s. if valid then modifies clear_rehash
        else and_then (modifies (restart_coverage env)) (\<lambda>_. fails (changed_staging (fst s)))"])
      fix s :: "'a file_state \<times> 'b machine"
      show "keeps file_step (if valid then modifies clear_rehash
          else and_then (modifies (restart_coverage env)) (\<lambda>_. fails (changed_staging (fst s))))"
        by (intro keeps_if keeps_and_then keeps_modifies keeps_fails file_step_refl clear_rehash_step
            restart_coverage_step)
    qed simp
    then show "keeps file_step (if \<not> fs_rehash (fst s) then yields ()
     else and_then (on_staged (active_native env)) (\<lambda>n.
            and_then (staging_valid env active (fs_object (fst s)) n) (\<lambda>valid s.
              if valid then modifies clear_rehash s
              else and_then (modifies (restart_coverage env)) (\<lambda>_. fails (changed_staging (fst s))) s)))"
      by (intro keeps_if keeps_and_then keeps_on_staged keeps_active_native keeps_staging_valid keeps_yields
          file_step_refl)
  qed simp
qed

lemma keeps_finish_publication [keeps_rules]: "keeps file_step (finish_publication env setup)"
proof (rule keepsI)
  fix s r t assume h: "finish_publication env setup s = (r, t)"
  have k: "keeps file_step (and_then (on_staged (install env d)) (\<lambda>(n, l).
     and_then (modifies (attest env setup n l)) (\<lambda>_. modifies (settle env))))" for d
    by (intro keeps_and_then keeps_on_staged keeps_install file_step_refl)
      (auto intro!: keeps_and_then keeps_modifies attest_step settle_step file_step_refl)
  show "file_step s t"
  proof (cases "wd_live env (m_world (snd s))")
    case True
    with h have "and_then (on_staged (install env (fs_display (fst s)))) (\<lambda>(n, l).
     and_then (modifies (attest env setup n l)) (\<lambda>_. modifies (settle env))) s = (r, t)"
      by (cases s) (simp add: finish_publication_def checked_live_def ensures_def)
    with k show ?thesis by (rule keepsD)
  next
    case False
    with h show ?thesis
      by (cases s) (auto simp: finish_publication_def step_defs file_step_def store_kept_def)
  qed
qed

lemma keeps_publish_file [keeps_rules]: "keeps file_step (publish_file env setup active)"
  unfolding publish_file_def
  by (intro keeps_and_then keeps_ensures keeps_prepare_publication keeps_finish_publication file_step_refl)

section \<open>Ranges and batches\<close>

lemma accept_until_store: "accept_until env v d fuel s = (r, t) \<Longrightarrow> store_kept s t"
proof (induction fuel arbitrary: s)
  case 0
  then show ?case by (simp add: store_kept_def)
next
  case (Suc fuel)
  obtain q u where a: "active_native env s = (q, u)" by (cases "active_native env s")
  with keeps_active_native have k: "store_kept s u" by (rule keepsD)
  show ?case
  proof (cases q)
    case (Inl e)
    with Suc.prems a k show ?thesis by (simp add: and_then_def)
  next
    case (Inr n)
    obtain st m where u: "u = (st, m)" by (cases u)
    obtain p w where n: "nf_accept env n v (m_world m) = (p, w)" by (cases "nf_accept env n v (m_world m)")
    show ?thesis
    proof (cases "p = Inl RangeInFlight \<and> instant env w < d")
      case True
      with Suc.prems a Inr u n have "accept_until env v d fuel
          (st, m\<lparr>m_world := sleep env RETRY_SLEEP w\<rparr>) = (r, t)"
        by (simp add: and_then_def lifted_def world_step_def)
      then have "store_kept (st, m\<lparr>m_world := sleep env RETRY_SLEEP w\<rparr>) t" by (rule Suc.IH)
      with k u show ?thesis by (simp add: store_kept_def)
    next
      case False
      with Suc.prems a Inr u n k show ?thesis
        by (auto simp: and_then_def lifted_def world_step_def store_kept_def
            split: sum.splits accept_error.splits if_splits)
    qed
  qed
qed

lemma keeps_accept_slice [keeps_rules]: "keeps store_kept (accept_slice env v)"
proof (rule keepsI)
  fix s r t assume h: "accept_slice env v s = (r, t)"
  have k: "keeps store_kept (and_then (accept_until env v d fuel)
      (\<lambda>a. and_then (record_range env v) (\<lambda>_. yields (core_of a))))" for d fuel
    by (intro keeps_and_then keeps_yields store_kept_refl keepsI)
      (auto dest: accept_until_store simp: record_range_def store_kept_def split: prod.splits sum.splits)
  from h show "store_kept s t" unfolding accept_slice_def by (rule keepsD [OF k])
qed

lemma keeps_accept_range: "keeps file_step (accept_range env c)"
proof (rule keepsI)
  fix s r t assume h: "accept_range env c s = (r, t)"
  have refl: "file_step s s" by (simp add: file_step_def store_kept_def)
  have k: "keeps file_step (on_staged (accept_slice env v))" for v
    by (intro keeps_rules)
  show "file_step s t"
    using h refl keepsD [OF k] by (auto simp: accept_range_def split: if_splits sum.splits)
qed

definition files_step :: "'c file_state list \<times> 'w machine \<Rightarrow> 'c file_state list \<times> 'w machine \<Rightarrow> bool" where
  "files_step s t \<longleftrightarrow> list_all2 same_file (fst s) (fst t) \<and> store_kept s t"

lemma files_step_refl [simp]: "files_step s s"
  by (simp add: files_step_def store_kept_def list_all2_refl)

lemma files_step_trans [trans]: "files_step s t \<Longrightarrow> files_step t u \<Longrightarrow> files_step s u"
  by (auto simp: files_step_def store_kept_def intro: list_all2_trans [OF same_file_trans])

lemma files_step_length: "files_step s t \<Longrightarrow> length (fst t) = length (fst s)"
  by (auto simp: files_step_def dest: list_all2_lengthD)

lemma at_file_step:
  assumes "keeps file_step f" "at_file i f s = (r, t)"
  shows "files_step s t"
proof (cases "i < length (fst s)")
  case True
  obtain fs m where s: "s = (fs, m)" by (cases s)
  obtain q g m' where f: "f (fs ! i, m) = (q, g, m')" by (cases "f (fs ! i, m)") auto
  with assms(1) have k: "file_step (fs ! i, m) (g, m')" by (rule keepsD)
  from assms(2) s f True have t: "t = (fs[i := g], m')" by (simp add: at_file_def)
  have "list_all2 same_file fs (fs[i := g])"
    using k True s by (auto simp: list_all2_conv_all_nth nth_list_update file_step_def)
  with k s t show ?thesis by (simp add: files_step_def file_step_def store_kept_def)
next
  case False
  with assms(2) show ?thesis by (cases s) (simp add: at_file_def)
qed

lemma at_files_step: "keeps file_step f \<Longrightarrow> at_files f is s = (rs, t) \<Longrightarrow> files_step s t"
proof (induction "is" arbitrary: s rs t)
  case (Cons i "is")
  obtain q u where a: "at_file i f s = (q, u)" by (cases "at_file i f s")
  obtain qs v where b: "at_files f is u = (qs, v)" by (cases "at_files f is u")
  from a Cons.prems(1) have "files_step s u" by (rule at_file_step [rotated])
  moreover from b Cons.prems(1) have "files_step u v" by (rule Cons.IH [rotated])
  moreover from Cons.prems(2) a b have "t = v" by (auto split: option.splits)
  ultimately show ?case by (auto intro: files_step_trans)
qed simp

lemma accept_item_step: "accept_item env opening c s = (r, t) \<Longrightarrow> files_step s t"
proof -
  assume h: "accept_item env opening c s = (r, t)"
  obtain q u where a: "at_file (ch_entry c) (accept_range env c) s = (q, u)"
    by (cases "at_file (ch_entry c) (accept_range env c) s")
  from at_file_step [OF keeps_accept_range a] h a show ?thesis
    by (auto simp: accept_item_def split: option.splits sum.splits)
qed

lemma accept_all_step: "accept_all env opening batch js s = (rs, t) \<Longrightarrow> files_step s t"
proof (induction js arbitrary: s rs t)
  case (Cons j js)
  obtain q u where a: "accept_item env opening (batch ! j) s = (q, u)" by (cases "accept_item env opening (batch ! j) s")
  obtain qs v where b: "accept_all env opening batch js u = (qs, v)" by (cases "accept_all env opening batch js u")
  from accept_item_step [OF a] Cons.IH [OF b] Cons.prems a b show ?case by (auto intro: files_step_trans)
qed simp

lemma keeps_open_for_batch: "keeps file_step (open_for_batch env)"
proof (rule keepsI)
  fix s r t assume h: "open_for_batch env s = (r, t)"
  have k: "keeps file_step (on_staged (reopen env))" by (intro keeps_rules)
  show "file_step s t"
  proof (cases "fs_published (fst s)")
    case True
    with h show ?thesis by (simp add: open_for_batch_def file_step_def store_kept_def)
  next
    case False
    with h have "on_staged (reopen env) s = (r, t)" by (simp add: open_for_batch_def)
    with k show ?thesis by (rule keepsD)
  qed
qed

lemma keeps_publish_for_batch: "keeps file_step (publish_for_batch env setup)"
proof (rule keepsI)
  fix s r t assume h: "publish_for_batch env setup s = (r, t)"
  show "file_step s t"
  proof (cases "fs_published (fst s)")
    case True
    with h show ?thesis by (simp add: publish_for_batch_def file_step_def store_kept_def)
  next
    case False
    with h have "publish_file env setup (\<lambda>_. True) s = (r, t)" by (simp add: publish_for_batch_def)
    with keeps_publish_file show ?thesis by (rule keepsD)
  qed
qed

lemma keeps_park_file: "keeps file_step (park_file env)"
proof (rule keepsI)
  fix s :: "'a file_state \<times> 'b machine" and r t
  assume "park_file env s = (r, t)"
  then show "file_step s t"
    by (cases s) (auto simp: park_file_def file_step_def same_file_def store_kept_def
        split: option.splits prod.splits dest: park_staged_store)
qed

lemma accept_files_step:
  assumes "accept_files env setup batch s = (rs, t)"
  shows "files_step s t"
proof -
  obtain opn s1 where 1: "at_files (open_for_batch env) (batch_files (map ch_entry batch)) s = (opn, s1)"
    by (cases "at_files (open_for_batch env) (batch_files (map ch_entry batch)) s")
  obtain made s2 where 2: "accept_all env opn batch (schedule env (length batch) (m_world (snd s1))) s1 = (made, s2)"
    by (cases "accept_all env opn batch (schedule env (length batch) (m_world (snd s1))) s1")
  let ?finished = "map (\<lambda>(c, _). ch_entry c) (filter (\<lambda>(_, r). is_complete r) (zip batch (in_order made)))"
  obtain publication s3 where 3: "at_files (publish_for_batch env setup) (batch_files ?finished) s2 = (publication, s3)"
    by (cases "at_files (publish_for_batch env setup) (batch_files ?finished) s2")
  obtain us s4 where 4: "at_files (park_file env) (map ch_entry batch) s3 = (us, s4)"
    by (cases "at_files (park_file env) (map ch_entry batch) s3")
  have "t = s4" using assms by (simp add: accept_files_def Let_def 1 2 3 4)
  moreover have "files_step s s1" by (rule at_files_step [OF keeps_open_for_batch 1])
  moreover have "files_step s1 s2" by (rule accept_all_step [OF 2])
  moreover have "files_step s2 s3" by (rule at_files_step [OF keeps_publish_for_batch 3])
  moreover have "files_step s3 s4" by (rule at_files_step [OF keeps_park_file 4])
  ultimately show ?thesis by (blast intro: files_step_trans)
qed

lemma publish_empty_step: "publish_empty env setup s = (r, t) \<Longrightarrow> files_step s t"
proof (induction env "setup" s arbitrary: r t rule: publish_empty.induct)
  case (1 env ws m)
  then show ?case by (simp add: files_step_def store_kept_def)
next
  case (2 env ws f fs m)
  obtain q g m' where p: "publish_file env ws (\<lambda>_. True) (f, m) = (q, g, m')"
    by (cases "publish_file env ws (\<lambda>_. True) (f, m)") auto
  with keeps_publish_file have k: "file_step (f, m) (g, m')" by (rule keepsD)
  have cons: "files_step (h # hs, n) (h' # hs', n')"
    if "file_step (h, n) (h', n1)" "files_step (hs, n1) (hs', n')" for h h' hs hs' n n1 n'
    using that by (simp add: files_step_def file_step_def store_kept_def)
  have base: "file_step (f, m) (f, m)" by (simp add: file_step_def store_kept_def)
  show ?case
    using "2.prems" "2.IH" p k base
    by (auto split: if_splits prod.splits sum.splits intro!: cons)
qed

end
