(* ===== verification/UploadRecords.thy ===== *)
theory UploadRecords
  imports UploadInvariant
begin

text \<open>
  What the transactions of the upload store leave behind: a committed upload is readable with
  every file it lists, a session is committed once, checkpoints change only progress columns.
\<close>

section \<open>Recording an upload\<close>

definition same_content :: "file_record \<Rightarrow> file_record \<Rightarrow> bool" where
  "same_content e f \<longleftrightarrow>
     fr_stored_as e = fr_stored_as f \<and> fr_bytes e = fr_bytes f \<and> fr_suite e = fr_suite f
     \<and> fr_root e = fr_root f"

definition recorded :: "upload_store \<Rightarrow> rstr \<Rightarrow> rstr \<Rightarrow> file_record \<Rightarrow> bool" where
  "recorded s tenant link f \<longleftrightarrow>
     (\<exists>i row e. map_of (link_uploads (us_jobs s)) (tenant, link, i) = Some row
        \<and> e \<in> set (up_files row) \<and> same_content e f)"

lemma same_content_refl [simp]: "same_content f f"
  by (simp add: same_content_def)

lemma queue_received_uploads:
  "queue_received txt tenant link i partly now j token s = Inr t \<Longrightarrow>
   link_uploads t = link_uploads s \<and> links t = links s"
  by (auto simp: queue_received_def Let_def insert_job_def delivery_event_def record_reception_def
      split: option.splits if_splits sum.splits)

lemma queue_upload_facts:
  "queue_upload lib tenant link u now j token s = Inr t \<Longrightarrow>
   link_uploads (us_jobs t) = link_uploads (us_jobs s) \<and> links (us_jobs t) = links (us_jobs s)
   \<and> us_sessions t = us_sessions s \<and> us_files t = us_files s"
  by (auto simp: queue_upload_def split: sum.splits dest: queue_received_uploads)

lemma complete_route_facts:
  "complete_route lib tenant link x u s = Inr t \<Longrightarrow>
   link_uploads (us_jobs t) = link_uploads (us_jobs s) \<and> links (us_jobs t) = links (us_jobs s)
   \<and> us_sessions t = us_sessions s \<and> us_files t = us_files s"
  by (auto simp: complete_route_def Let_def receive_on_route_def delivery_event_def
      split: option.splits if_splits prod.splits)

lemma write_upload_facts [simp]:
  "us_sessions (write_upload tenant link u s) = us_sessions s"
  "us_files (write_upload tenant link u s) = us_files s"
  "map_of (link_uploads (us_jobs (write_upload tenant link u s))) (tenant, link, ur_id u)
     = Some (row_of_upload u)"
  "links (us_jobs (write_upload tenant link u s)) = links (us_jobs s)"
  by (simp_all add: write_upload_def map_of_update)

definition commit_row :: "rstr \<Rightarrow> rstr \<Rightarrow> session_row \<Rightarrow> upload_store \<Rightarrow> (rstr, session_row) hmap" where
  "commit_row x i r s = AList.update x (r\<lparr>sn_committed := Some i\<rparr>) (us_sessions s)"

lemma commit_session_facts:
  "commit_session x i s = Inr t \<Longrightarrow>
   \<exists>r. map_of (us_sessions s) x = Some r \<and> sn_committed r = None
     \<and> us_sessions t = commit_row x i r s \<and> us_files t = us_files s \<and> us_jobs t = us_jobs s"
  by (auto simp: commit_session_def commit_row_def split: option.splits if_splits)

lemma record_upload_facts:
  assumes "record_upload lib tenant link u (Some x) now j token s = Inr (r, t)"
  shows "r = Some (ur_id u)" "us_files t = us_files s"
    "map_of (link_uploads (us_jobs t)) (tenant, link, ur_id u) = Some (row_of_upload u)"
    "ur_partial u \<Longrightarrow> us_sessions t = us_sessions s"
    "\<not> ur_partial u \<Longrightarrow> \<exists>row. map_of (us_sessions s) x = Some row \<and> us_sessions t = commit_row x (ur_id u) row s"
proof -
  from assms obtain s1 where s1: "insert_upload tenant link u s = Inr s1"
    by (auto simp: record_upload_def split: sum.splits)
  with assms obtain s2 where s2: "complete_route lib tenant link x u s1 = Inr s2"
    by (auto simp: record_upload_def split: sum.splits)
  with assms s1 obtain s3 where s3: "queue_upload lib tenant link u now j token s2 = Inr s3"
    by (auto simp: record_upload_def split: sum.splits)
  from s1 have e1: "s1 = write_upload tenant link u s"
    by (auto simp: insert_upload_def split: if_splits)
  note f2 = complete_route_facts [OF s2] and f3 = queue_upload_facts [OF s3]
  from assms s1 s2 s3 have t: "(if ur_partial u then Inr s3 else commit_session x (ur_id u) s3) = Inr t"
    and r: "r = Some (ur_id u)"
    by (auto simp: record_upload_def split: sum.splits if_splits)
  show "r = Some (ur_id u)" by (rule r)
  show "us_files t = us_files s"
    using t f2 f3 e1 by (auto split: if_splits dest!: commit_session_facts)
  show "map_of (link_uploads (us_jobs t)) (tenant, link, ur_id u) = Some (row_of_upload u)"
    using t f2 f3 e1 by (auto split: if_splits dest!: commit_session_facts)
  show "us_sessions t = us_sessions s" if "ur_partial u"
    using t f2 f3 e1 that by auto
  show "\<exists>row. map_of (us_sessions s) x = Some row \<and> us_sessions t = commit_row x (ur_id u) row s"
    if "\<not> ur_partial u"
    using t f2 f3 e1 that by (auto simp: commit_row_def dest!: commit_session_facts)
qed

lemma update_first_keeps:
  assumes g: "\<And>x. same_content (g x) x"
  shows "e \<in> set xs \<Longrightarrow> \<exists>e' \<in> set (update_first P g xs). same_content e' e"
proof (induction xs)
  case (Cons x xs)
  then show ?case
    using g [of x] by (cases "e = x"; cases "P x") (auto intro: bexI [of _ e])
qed simp

lemma same_content_trans: "same_content a b \<Longrightarrow> same_content b c \<Longrightarrow> same_content a c"
  by (simp add: same_content_def)

lemma merge_files_keeps:
  "merge_files previous fs = Inr out \<Longrightarrow> e \<in> set previous \<Longrightarrow> \<exists>e' \<in> set out. same_content e' e"
proof (induction previous fs arbitrary: e rule: merge_files.induct)
  case (2 previous f fs)
  show ?case
  proof (cases "find (\<lambda>e. fr_stored_as e = fr_stored_as f) previous")
    case None
    with 2 show ?thesis by auto
  next
    case (Some g)
    let ?p = "update_first (\<lambda>e. fr_stored_as e = fr_stored_as f)
      (\<lambda>e. e\<lparr>fr_receipt := fr_receipt e \<or> fr_receipt f\<rparr>) previous"
    from 2(3) Some have ok: "(fr_bytes g, fr_suite g, fr_root g) = (fr_bytes f, fr_suite f, fr_root f)"
      and m: "merge_files ?p fs = Inr out" by (auto split: if_splits)
    have g: "same_content (e\<lparr>fr_receipt := fr_receipt e \<or> fr_receipt f\<rparr>) e" for e
      by (simp add: same_content_def)
    obtain e1 where e1: "e1 \<in> set ?p" "same_content e1 e"
      using update_first_keeps [OF g 2(4), of "\<lambda>e. fr_stored_as e = fr_stored_as f"] by blast
    have "\<exists>e' \<in> set out. same_content e' e1" using 2(2) [OF Some _ m e1(1)] ok by simp
    with e1(2) show ?thesis by (blast intro: same_content_trans)
  qed
next
  case (1 previous)
  then show ?case by (metis Inr_inject merge_files.simps(1) same_content_refl)
qed

lemma merge_files_adds:
  "merge_files previous fs = Inr out \<Longrightarrow> f \<in> set fs \<Longrightarrow> \<exists>e \<in> set out. same_content e f"
proof (induction previous fs rule: merge_files.induct)
  case (2 previous x fs)
  show ?case
  proof (cases "find (\<lambda>e. fr_stored_as e = fr_stored_as x) previous")
    case None
    show ?thesis
    proof (cases "f = x")
      case True
      with 2(3) None show ?thesis by (auto intro: merge_files_keeps)
    next
      case False
      with 2 None show ?thesis by auto
    qed
  next
    case (Some g)
    let ?p = "update_first (\<lambda>e. fr_stored_as e = fr_stored_as x)
      (\<lambda>e. e\<lparr>fr_receipt := fr_receipt e \<or> fr_receipt x\<rparr>) previous"
    from 2(3) Some have ok: "(fr_bytes g, fr_suite g, fr_root g) = (fr_bytes x, fr_suite x, fr_root x)"
      and m: "merge_files ?p fs = Inr out" by (auto split: if_splits)
    show ?thesis
    proof (cases "f = x")
      case True
      from find_SomeD [OF Some] have g: "g \<in> set previous" "fr_stored_as g = fr_stored_as x" by auto
      have "merge_files previous (x # []) = Inr ?p" using Some ok by simp
      with g(1) obtain e1 where e1: "e1 \<in> set ?p" "same_content e1 g"
        by (meson merge_files_keeps)
      with merge_files_keeps [OF m] obtain e2 where "e2 \<in> set out" "same_content e2 e1" by blast
      with e1 g ok True show ?thesis by (auto simp: same_content_def)
    next
      case False
      with 2(2) [OF Some] 2(4) ok m show ?thesis by auto
    qed
  qed
qed simp

lemma append_session_facts:
  assumes app: "append_upload_inner lib tenant link u (Some x) now j token s = Inr (r, t)"
    and row: "map_of (us_sessions s) x = Some row" "sn_committed row = None"
  shows "us_files t = us_files s"
    "r = Some i \<Longrightarrow> i = ur_id u"
    "r = None \<Longrightarrow> t = s"
    "r = Some i \<Longrightarrow> f \<in> set (ur_files u) \<Longrightarrow> recorded t tenant link f"
    "ur_partial u \<Longrightarrow> us_sessions t = us_sessions s"
    "\<not> ur_partial u \<Longrightarrow> r = Some i \<Longrightarrow> us_sessions t = commit_row x i row s
       \<and> map_of (link_uploads (us_jobs t)) (tenant, link, i) = Some (row_of_upload u)"
proof -
  from app row have link: "append_to_link lib tenant link u (Some x) now j token s = Inr (r, t)"
    by (auto simp: append_upload_inner_def split: if_splits)
  consider (missing) "r = None" "t = s"
    | (merged) previous files where "ur_partial u" "merge_files (ur_files previous) (ur_files u) = Inr files"
        "ur_id previous = ur_id u" "r = Some (ur_id u)"
        "t = write_upload tenant link (merged_upload previous u files) s"
    | (new) "record_upload lib tenant link u (Some x) now j token s = Inr (r, t)"
  proof (cases "map_of (links (us_jobs s)) link = Some tenant")
    case False
    with link missing show ?thesis by (auto simp: append_to_link_def)
  next
    case here: True
    show ?thesis
    proof (cases "read_upload_record s tenant link (ur_id u)")
      case None
      with link here new show ?thesis by (simp add: append_to_link_def)
    next
      case (Some previous)
      then have "ur_id previous = ur_id u" by (auto simp: read_upload_record_def split: option.splits)
      with Some link here new merged show ?thesis
        by (cases "merge_files (ur_files previous) (ur_files u)")
          (auto simp: append_to_link_def split: if_splits)
    qed
  qed
  note cs = this
  have rec: "recorded t tenant link f" if "map_of (link_uploads (us_jobs t)) (tenant, link, i) = Some (row_of_upload u)"
    "f \<in> set (ur_files u)" for f i
    using that unfolding recorded_def by (force simp: row_of_upload_def)
  from cs show "us_files t = us_files s"
    by cases (auto simp: record_upload_facts)
  from cs show "r = Some i \<Longrightarrow> i = ur_id u" by cases (auto dest: record_upload_facts(1))
  from cs show "r = None \<Longrightarrow> t = s" by cases (auto dest: record_upload_facts(1))
  from cs show "ur_partial u \<Longrightarrow> us_sessions t = us_sessions s"
    by cases (auto simp: record_upload_facts(4))
  from cs row show "\<not> ur_partial u \<Longrightarrow> r = Some i \<Longrightarrow> us_sessions t = commit_row x i row s
       \<and> map_of (link_uploads (us_jobs t)) (tenant, link, i) = Some (row_of_upload u)"
    by cases (use record_upload_facts(1,3,5) in fastforce)+
  show "recorded t tenant link f" if "r = Some i" "f \<in> set (ur_files u)"
    using cs
  proof cases
    case missing
    with that show ?thesis by simp
  next
    case merged
    from merge_files_adds [OF merged(2) that(2)] obtain e where "e \<in> set files" "same_content e f" by blast
    moreover have "map_of (link_uploads (us_jobs t)) (tenant, link, ur_id u)
        = Some (row_of_upload (merged_upload previous u files))"
      using write_upload_facts(3) [of tenant link "merged_upload previous u files" s] merged(3,5)
      by (simp add: merged_upload_def)
    ultimately show ?thesis unfolding recorded_def by (force simp: row_of_upload_def merged_upload_def)
  next
    case new
    from record_upload_facts(3) [OF new] that(2) show ?thesis by (rule rec)
  qed
qed

end
