(* ===== verification/UploadSafety.thy ===== *)
theory UploadSafety
  imports UploadRecords
begin

text \<open>
  The invariant of a session's worker and its preservation by every command, and what the last
  step of a session leaves behind.
\<close>

section \<open>The invariant\<close>

definition row_says :: "persisted_file \<Rightarrow> nat \<times> bool \<times> bool \<Rightarrow> bool" where
  "row_says row x \<longleftrightarrow>
     (case x of (p, b, r) \<Rightarrow> pf_prefix row = to_i64 p \<and> pf_published row = b \<and> pf_receipt row = r)"

text \<open>The row of entry \<open>i\<close> against the file it stands for.\<close>

definition coherent :: "upload_store \<Rightarrow> rstr \<Rightarrow> nat \<Rightarrow> 'c file_state \<Rightarrow> bool" where
  "coherent s session i f \<longleftrightarrow>
     (\<exists>row. map_of (us_files s) (session, i) = Some row
        \<and> pf_display_path row = fs_display f \<and> pf_stored row = split_on 0 (fs_stored f)
        \<and> pf_object row = clamp_object (fs_object f)
        \<and> (\<forall>x. fs_checkpointed f = Some x \<longrightarrow> row_says row x)
        \<and> (pf_published row \<longrightarrow> fs_published f))"

definition admitted_row :: "upload_store \<Rightarrow> worker_setup \<Rightarrow> bool" where
  "admitted_row s setup \<longleftrightarrow>
     (\<exists>r. map_of (us_sessions s) (ws_session setup) = Some r \<and> sn_tenant r = ws_tenant setup
        \<and> sn_link_id r = ws_link setup \<and> sn_committed r = None
        \<and> sn_dest_dir r = ws_dest_dir setup \<and> sn_dest_rel r = ws_dest_rel setup
        \<and> sn_package r = clamp_object (ws_package setup) \<and> sn_push_key r = None)"

text \<open>The entry numbers of a session's file rows, in the order of the table.\<close>

definition own_rows :: "upload_store \<Rightarrow> rstr \<Rightarrow> nat list" where
  "own_rows s x = map snd (filter (\<lambda>k. fst k = x) (map fst (us_files s)))"

definition files_ok :: "worker_setup \<Rightarrow> upload_store \<Rightarrow> 'c file_state list \<Rightarrow> bool" where
  "files_ok setup s files \<longleftrightarrow>
     length files \<le> Suc i64_max \<and> admitted_row s setup
     \<and> own_rows s (ws_session setup) = [0..<length files]
     \<and> (\<forall>i < length files. coherent s (ws_session setup) i (files ! i))"

definition phase_ok :: "worker_setup \<Rightarrow> upload_store \<Rightarrow> 'c phase \<Rightarrow> bool" where
  "phase_ok setup s p \<longleftrightarrow> (case p of Receiving files \<Rightarrow> files_ok setup s files | _ \<Rightarrow> True)"

definition worker_ok :: "worker_setup \<Rightarrow> 'c worker \<times> 'w machine \<Rightarrow> bool" where
  "worker_ok setup s \<longleftrightarrow> phase_ok setup (m_store (snd s)) (wk_phase (fst s))"

lemma phase_ok_simps [simp]:
  "phase_ok setup s AwaitSeal" "phase_ok setup s (Pages h es n k)" "phase_ok setup s Done"
  "phase_ok setup s (Receiving files) = files_ok setup s files"
  by (simp_all add: phase_ok_def)

lemma coherent_same_file: "coherent s session i f \<Longrightarrow> same_file f g \<Longrightarrow> coherent s session i g"
  by (auto simp: coherent_def same_file_def)

lemma files_ok_step:
  assumes "files_ok setup (m_store m) files" "files_step (files, m) (files', m')"
  shows "files_ok setup (m_store m') files'"
  using assms by (auto simp: files_ok_def files_step_def store_kept_def list_all2_conv_all_nth
      intro: coherent_same_file)

section \<open>Checkpoints\<close>

definition saved_row :: "persisted_file \<Rightarrow> nat \<times> bool \<times> bool \<Rightarrow> persisted_file" where
  "saved_row f x = (case x of (p, b, r) \<Rightarrow> f\<lparr>pf_prefix := to_i64 p, pf_published := b, pf_receipt := r\<rparr>)"

lemma to_i64_small: "i \<le> i64_max \<Longrightarrow> to_i64 i = i"
  by (simp add: to_i64_def)

definition overlaid :: "rstr \<Rightarrow> progress list \<Rightarrow> (rstr \<times> nat \<Rightarrow> persisted_file option) \<Rightarrow> rstr \<times> nat \<Rightarrow> persisted_file option" where
  "overlaid session rows old k =
     (if fst k = session then
        (case map_of rows (snd k) of
           None \<Rightarrow> old k
         | Some x \<Rightarrow> map_option (\<lambda>f. saved_row f x) (old k))
      else old k)"

lemma overlaid_Cons:
  assumes "map_of rows entry = None" "old (session, entry) = Some f"
  shows "overlaid session rows (\<lambda>k. if k = (session, entry) then Some (saved_row f x) else old k)
    = overlaid session ((entry, x) # rows) old"
proof
  fix k
  show "overlaid session rows (\<lambda>k. if k = (session, entry) then Some (saved_row f x) else old k) k
    = overlaid session ((entry, x) # rows) old k"
  proof (cases "k = (session, entry)")
    case True
    with assms show ?thesis by (simp add: overlaid_def)
  next
    case False
    then show ?thesis by (cases k) (auto simp: overlaid_def)
  qed
qed

lemma update_rows_facts:
  assumes "update_rows session rows s = Inr t"
    "distinct (map fst rows)" "\<forall>x \<in> set rows. fst x \<le> i64_max"
  shows "us_sessions t = us_sessions s \<and> us_jobs t = us_jobs s
    \<and> map_of (us_files t) = overlaid session rows (map_of (us_files s))"
  using assms
proof (induction session rows s arbitrary: t rule: update_rows.induct)
  case (1 session s)
  then show ?case by (simp add: overlaid_def fun_eq_iff)
next
  case (2 session entry p b r rows s)
  from "2.prems" have small: "to_i64 entry = entry" and fresh: "map_of rows entry = None"
    by (auto simp: to_i64_small map_of_eq_None_iff)
  from "2.prems"(1) small obtain f where f: "map_of (us_files s) (session, entry) = Some f"
    and u: "update_rows session rows (s\<lparr>us_files := AList.update (session, entry)
            (saved_row f (p, b, r)) (us_files s)\<rparr>) = Inr t"
    by (auto simp: saved_row_def split: option.splits)
  from u small have u': "update_rows session rows (s\<lparr>us_files := AList.update (session, to_i64 entry)
      (f\<lparr>pf_prefix := to_i64 p, pf_published := b, pf_receipt := r\<rparr>) (us_files s)\<rparr>) = Inr t"
    by (simp add: saved_row_def)
  from f small have f': "map_of (us_files s) (session, to_i64 entry) = Some f" by simp
  have d: "distinct (map fst rows)" and l: "\<forall>x \<in> set rows. fst x \<le> i64_max" using "2.prems" by auto
  have upd: "map_of (AList.update (session, entry) v m) = (\<lambda>k. if k = (session, entry) then Some v else map_of m k)"
    for v and m :: "(rstr \<times> nat, persisted_file) hmap"
    by (rule ext) (simp add: map_of_update)
  have sv: "f\<lparr>pf_prefix := to_i64 p, pf_published := b, pf_receipt := r\<rparr> = saved_row f (p, b, r)"
    by (simp add: saved_row_def)
  note ih = "2.IH" [OF f' u' d l, unfolded small sv upload_store.simps upd]
  show ?case using ih overlaid_Cons [OF fresh, of "map_of (us_files s)" session f "(p, b, r)"] f by (simp add: upd)
qed

lemma update_present_keys: "map_of m k = Some v \<Longrightarrow> map fst (AList.update k w m) = map fst m"
proof -
  assume "map_of m k = Some v"
  then have "(k, v) \<in> set m" by (rule map_of_SomeD)
  then have "k \<in> set (map fst m)" by force
  then show ?thesis by (simp only: AList.update_keys if_True)
qed

lemma update_rows_keys: "update_rows session rows s = Inr t \<Longrightarrow> map fst (us_files t) = map fst (us_files s)"
proof (induction session rows s arbitrary: t rule: update_rows.induct)
  case (1 session s)
  then show ?case by simp
next
  case (2 session entry p b r rows s)
  from "2.prems" obtain f where f: "map_of (us_files s) (session, to_i64 entry) = Some f"
    by (cases "map_of (us_files s) (session, to_i64 entry)") simp_all
  with "2.prems" have "update_rows session rows (s\<lparr>us_files := AList.update (session, to_i64 entry)
      (f\<lparr>pf_prefix := to_i64 p, pf_published := b, pf_receipt := r\<rparr>) (us_files s)\<rparr>) = Inr t" by simp
  from "2.IH" [OF f this] update_present_keys [OF f] show ?case by simp
qed

lemma stale_rows_lookup:
  "map_of (stale_rows env files) i =
     (if i < length files \<and> is_stale env (files ! i) then Some (file_progress env (files ! i)) else None)"
proof -
  have d: "distinct (map fst (stale_rows env files))"
  proof -
    have "map fst (stale_rows env files) = map fst (filter (\<lambda>(_, f). is_stale env f) (enumerate 0 files))"
      by (simp add: stale_rows_def case_prod_unfold comp_def)
    then show ?thesis by (simp add: distinct_map_filter)
  qed
  have m: "(i, x) \<in> set (stale_rows env files) \<longleftrightarrow>
      i < length files \<and> is_stale env (files ! i) \<and> x = file_progress env (files ! i)" for x
    by (auto simp: stale_rows_def in_set_enumerate_eq image_iff)
  show ?thesis
  proof (cases "i < length files \<and> is_stale env (files ! i)")
    case True
    with m d show ?thesis by (simp add: map_of_eq_Some_iff)
  next
    case False
    then have "\<not> (i < length files \<and> is_stale env (files ! i))" .
    moreover have "map_of (stale_rows env files) i = None"
      using m False by (force simp: map_of_eq_None_iff)
    ultimately show ?thesis by simp
  qed
qed

lemma stale_rows_distinct: "distinct (map fst (stale_rows env files))"
proof -
  have "map fst (stale_rows env files) = map fst (filter (\<lambda>(_, f). is_stale env f) (enumerate 0 files))"
    by (simp add: stale_rows_def case_prod_unfold comp_def)
  then show ?thesis by (simp add: distinct_map_filter)
qed

lemma stale_rows_small:
  "length files \<le> Suc i64_max \<Longrightarrow> \<forall>x \<in> set (stale_rows env files). fst x \<le> i64_max"
  by (auto simp: stale_rows_def in_set_enumerate_eq)

lemma transact_cases:
  assumes "transact env f m = (r, t)"
  obtains e where "r = Inl e" "m_store t = m_store m"
    | a s where "r = Inr a" "f (m_store m) = Inr (a, s)" "m_store t = s"
  using assms by (auto simp: transact_def split: prod.splits if_splits sum.splits)

lemma stamp_session_facts:
  "us_files (stamp_session x now s) = us_files s" "us_jobs (stamp_session x now s) = us_jobs s"
  "admitted_row s setup \<Longrightarrow> admitted_row (stamp_session x now s) setup"
  by (auto simp: stamp_session_def admitted_row_def map_of_update split: option.splits)

lemma checkpoint_files_ok:
  assumes ok: "files_ok setup (m_store m) files"
    and h: "checkpoint_files env setup (files, m) = (b, files', m')"
  shows "files_ok setup (m_store m') files'"
    and "us_jobs (m_store m') = us_jobs (m_store m)"
    and "map fs_published files' = map fs_published files"
    and "b \<Longrightarrow> \<forall>f \<in> set files'. fs_checkpointed f = Some (file_progress env f)"
proof -
  consider (fresh) "stale_rows env files = []" "b" "files' = files" "m' = m"
    | (failed) "\<not> b" "files' = files" "m_store m' = m_store m"
    | (saved) t where "b" "files' = map (mark_saved env) files"
        "update_rows (ws_session setup) (stale_rows env files) (m_store m) = Inr t"
        "m_store m' = stamp_session (ws_session setup) (unix_now env (m_world m)) t"
  proof (cases "stale_rows env files = []")
    case True
    from h True have "b" "files' = files" "m' = m" by (simp_all add: checkpoint_files_def)
    with True show ?thesis by (rule fresh)
  next
    case stale: False
    obtain r n where tr: "transact env (\<lambda>t. map_sum id (Pair ()) (update_upload_file_progress (ws_session setup)
        (stale_rows env files) (unix_now env (m_world m)) t)) m = (r, n)" by (rule prod.exhaust)
    then show ?thesis
    proof (cases rule: transact_cases)
      case (1 e)
      from h stale tr 1 have "\<not> b" "files' = files" "m_store m' = m_store m"
        by (simp_all add: checkpoint_files_def)
      then show ?thesis by (rule failed)
    next
      case (2 a s)
      from 2(2) obtain t where t: "update_rows (ws_session setup) (stale_rows env files) (m_store m) = Inr t"
        "s = stamp_session (ws_session setup) (unix_now env (m_world m)) t"
        by (auto simp: update_upload_file_progress_def split: sum.splits)
      from h stale tr 2 t(2) have "b" "files' = map (mark_saved env) files"
        "m_store m' = stamp_session (ws_session setup) (unix_now env (m_world m)) t"
        by (simp_all add: checkpoint_files_def)
      with t(1) show ?thesis by (intro saved)
    qed
  qed
  note cs = this
  have len: "length files \<le> Suc i64_max" using ok by (simp add: files_ok_def)
  show "files_ok setup (m_store m') files'"
    using cs
  proof cases
    case (saved t)
    note facts = update_rows_facts [OF saved(3) stale_rows_distinct stale_rows_small [OF len]]
    have adm: "admitted_row (m_store m') setup"
    proof -
      from ok facts have "admitted_row t setup" by (simp add: files_ok_def admitted_row_def)
      then show ?thesis by (simp add: saved(4) stamp_session_facts)
    qed
    have "coherent (m_store m') (ws_session setup) i (mark_saved env (files ! i))" if i: "i < length files" for i
    proof -
      from ok i have c: "coherent (m_store m) (ws_session setup) i (files ! i)" by (simp add: files_ok_def)
      then obtain row where row: "map_of (us_files (m_store m)) (ws_session setup, i) = Some row"
        by (auto simp: coherent_def)
      show ?thesis
      proof (cases "is_stale env (files ! i)")
        case True
        with facts i row have "map_of (us_files t) (ws_session setup, i)
            = Some (saved_row row (file_progress env (files ! i)))"
          by (simp add: overlaid_def stale_rows_lookup)
        with c row show ?thesis
          by (auto simp: coherent_def saved(4) stamp_session_facts mark_saved_def saved_row_def row_says_def
              file_progress_def)
      next
        case False
        with facts row have "map_of (us_files t) (ws_session setup, i) = Some row"
          by (simp add: overlaid_def stale_rows_lookup)
        with c row False show ?thesis
          by (cases "file_progress env (files ! i)")
            (auto simp: coherent_def saved(4) stamp_session_facts mark_saved_def is_stale_def)
      qed
    qed
    moreover have "own_rows (m_store m') (ws_session setup) = [0..<length files]"
      using ok update_rows_keys [OF saved(3)]
      by (simp add: own_rows_def files_ok_def saved(4) stamp_session_facts)
    ultimately show ?thesis using adm len by (simp add: files_ok_def saved(2))
  qed (use ok in simp_all)
  show "us_jobs (m_store m') = us_jobs (m_store m)"
    using cs
  proof cases
    case (saved t)
    with update_rows_facts [OF saved(3) stale_rows_distinct stale_rows_small [OF len]]
    show ?thesis by (simp add: stamp_session_facts)
  qed simp_all
  show "map fs_published files' = map fs_published files"
    using cs by cases (simp_all add: mark_saved_def comp_def)
  show "\<forall>f \<in> set files'. fs_checkpointed f = Some (file_progress env f)" if b
    using cs
  proof cases
    case fresh
    have "\<not> is_stale env (files ! i)" if "i < length files" for i
      using stale_rows_lookup [of env files i] fresh(1) that by (auto split: if_splits)
    then show ?thesis using fresh(3) by (metis in_set_conv_nth is_stale_def)
  next
    case (saved t)
    then show ?thesis by (auto simp: mark_saved_def file_progress_def split: option.split)
  qed (use that in simp)
qed

lemma drop_staged_store: "m_store (drop_staged env st m) = m_store m"
proof -
  obtain r st' m' where a: "reopen env (st, m) = (r, st', m')" by (rule prod_cases3)
  from keepsD [OF keeps_reopen a] have "m_store m' = m_store m" by (simp add: store_kept_def)
  with a show ?thesis
    using park_staged_store [OF refl, of "(st, m)" env]
    by (auto simp: drop_staged_def store_kept_def split: option.splits)
qed

lemma drop_files_store: "m_store (drop_files env files m) = m_store m"
  unfolding drop_files_def by (induction files arbitrary: m) (auto simp: drop_staged_store split: option.splits)

lemma forget_publication_step: "forget_publication env s = (b, t) \<Longrightarrow> file_step s t"
proof -
  assume h: "forget_publication env s = (b, t)"
  obtain f m where s: "s = (f, m)" by (cases s)
  have k: "keeps store_kept (and_then (staged_directory env) (\<lambda>d s. rewords (Internal \<circ> Told)
      (lifted (world_step (wd_forget env d (last (sf_destination (fst s))) (resume_of env (fst s))))) s))"
    by (intro keeps_and_then keeps_staged_directory store_kept_refl keepsI)
      (auto simp: step_defs store_kept_def split: prod.splits sum.splits)
  show ?thesis
  proof (cases "fs_native f")
    case None
    with h s show ?thesis by (auto simp: forget_publication_def file_step_def store_kept_def split: if_splits)
  next
    case (Some st)
    obtain q st' m' where a: "and_then (staged_directory env) (\<lambda>d s. rewords (Internal \<circ> Told)
      (lifted (world_step (wd_forget env d (last (sf_destination (fst s))) (resume_of env (fst s))))) s) (st, m)
        = (q, st', m')" by (rule prod_cases3)
    from keepsD [OF k a] have "m_store m' = m_store m" by (simp add: store_kept_def)
    with h s Some a show ?thesis
      by (auto simp: forget_publication_def file_step_def same_file_def store_kept_def drop_staged_store
          split: if_splits sum.splits)
  qed
qed

lemma forget_publications_step: "forget_publications env s = (b, t) \<Longrightarrow> files_step s t"
proof (induction env s arbitrary: b t rule: forget_publications.induct)
  case (1 env m)
  then show ?case by simp
next
  case (2 env f fs m)
  obtain a g m' where p: "forget_publication env (f, m) = (a, g, m')" by (rule prod_cases3)
  obtain c gs m'' where q: "forget_publications env (fs, m') = (c, gs, m'')" by (rule prod_cases3)
  from forget_publication_step [OF p] "2.IH" [OF p [symmetric] refl q] "2.prems" p q show ?case
    by (auto simp: file_step_def files_step_def store_kept_def)
qed


lemma checkpoint_session_ok:
  assumes ok: "files_ok setup (m_store m) files"
    and h: "checkpoint_session env setup (files, m) = (b, files', m')"
  shows "files_ok setup (m_store m') files'"
    and "us_jobs (m_store m') = us_jobs (m_store m)"
    and "list_all2 (\<lambda>f g. fs_published f \<longrightarrow> fs_published g) files files'"
proof -
  obtain c fs n where a: "checkpoint_files env setup (files, m) = (c, fs, n)" by (rule prod_cases3)
  note facts = checkpoint_files_ok [OF ok a]
  have step: "files_step (fs, n) (files', m')"
  proof (cases c)
    case True
    with h a have "forget_publications env (fs, n) = (b, files', m')" by (simp add: checkpoint_session_def)
    then show ?thesis by (rule forget_publications_step)
  next
    case False
    with h a show ?thesis by (simp add: checkpoint_session_def)
  qed
  show "files_ok setup (m_store m') files'" by (rule files_ok_step [OF facts(1) step])
  show "us_jobs (m_store m') = us_jobs (m_store m)"
    using facts(2) step by (simp add: files_step_def store_kept_def)
  have "list_all2 (\<lambda>f g. fs_published f = fs_published g) files fs"
    using facts(3) by (metis (mono_tags, lifting) list_all2_conv_all_nth length_map nth_map)
  moreover have "list_all2 same_file fs files'" using step by (simp add: files_step_def)
  ultimately show "list_all2 (\<lambda>f g. fs_published f \<longrightarrow> fs_published g) files files'"
    by (rule list_all2_trans [rotated]) (simp add: same_file_def)
qed

section \<open>Admission\<close>

lemma map_of_enumerate:
  "map_of (map (\<lambda>(e, f). ((session, to_i64 e), g f)) (enumerate k xs)) (session, to_i64 i)
     = (if k \<le> i \<and> i < k + length xs then Some (g (xs ! (i - k))) else None)"
  if "k + length xs \<le> Suc i64_max" "i \<le> i64_max"
  using that
proof (induction xs arbitrary: k)
  case (Cons x xs)
  then have ih: "map_of (map (\<lambda>(e, f). ((session, to_i64 e), g f)) (enumerate (Suc k) xs)) (session, to_i64 i)
     = (if Suc k \<le> i \<and> i < Suc k + length xs then Some (g (xs ! (i - Suc k))) else None)"
    by simp
  from Cons.prems have e: "to_i64 k = k" "to_i64 i = i" by (simp_all add: to_i64_def)
  show ?case
  proof (cases "i = k")
    case True
    with e show ?thesis by simp
  next
    case False
    with ih e show ?thesis by (auto simp: nth_Cons' Suc_diff_Suc)
  qed
qed simp

lemma map_of_filter_keys:
  "map_of (filter (\<lambda>(k, _). P k) m) k = (if P k then map_of m k else None)"
  by (induction m) auto

lemma insert_upload_session_ok:
  assumes "insert_upload_session (persisted_session_of env setup files) now s = Inr t"
  shows "files_ok setup t (map (mark_saved env) files)" "us_jobs t = us_jobs s"
proof -
  let ?p = "persisted_session_of env setup files"
  from assms have t: "t = replace_session ?p now s"
    and d: "distinct (map (\<lambda>(e, _). to_i64 e) (ps_files ?p))"
    by (auto simp: insert_upload_session_def split: if_splits)
  have len: "length files \<le> Suc i64_max"
  proof (rule ccontr)
    assume "\<not> length files \<le> Suc i64_max"
    then have l: "i64_max < length files" "Suc i64_max < length files" by auto
    have m: "map (\<lambda>(e, _). to_i64 e) (ps_files ?p) = map to_i64 [0..<length files]"
      by (simp add: persisted_session_of_def enumerate_eq_zip zip_map_fst_snd case_prod_unfold comp_def
          flip: map_map [of to_i64 fst, unfolded comp_def])
    from d [unfolded m] l have "to_i64 i64_max \<noteq> to_i64 (Suc i64_max)"
      by (auto simp: distinct_map dest: inj_onD)
    then show False by (simp add: to_i64_def)
  qed
  show "us_jobs t = us_jobs s" by (simp add: t replace_session_def)
  have id: "ps_id ?p = ws_session setup" by (simp add: persisted_session_of_def)
  have "map_of (filter (\<lambda>x. \<not> same_admission ?p x) (us_sessions s)) (ws_session setup) = None"
    by (auto simp: map_of_eq_None_iff same_admission_def id)
  then have "map_of (us_sessions t) (ws_session setup) = Some (row_of_session ?p now)"
    by (simp add: t replace_session_def map_add_def id)
  then have adm: "admitted_row t setup"
    by (simp add: admitted_row_def row_of_session_def persisted_session_of_def)
  have "coherent t (ws_session setup) i (mark_saved env (files ! i))" if i: "i < length files" for i
  proof -
    have "map_of (us_files t) (ws_session setup, to_i64 i)
        = Some (row_of_file (persisted_file_of env setup (files ! i)))"
    proof -
      have "map_of (filter (\<lambda>((j, _), _). j \<noteq> ps_id ?p \<and> Q j) m) (ws_session setup, k) = None"
        for Q k and m :: "(rstr \<times> nat, persisted_file) hmap"
        by (auto simp: map_of_eq_None_iff persisted_session_of_def)
      then show ?thesis
        using i len map_of_enumerate [of 0 "map (persisted_file_of env setup) files" i "ws_session setup" row_of_file]
        by (simp add: t replace_session_def map_add_def persisted_session_of_def)
    qed
    moreover have "to_i64 i = i" using i len by (intro to_i64_small) simp
    ultimately show ?thesis
      by (auto simp: coherent_def row_of_file_def persisted_file_of_def mark_saved_def row_says_def file_progress_def)
  qed
  moreover have "own_rows t (ws_session setup) = [0..<length files]"
  proof -
    have "filter (\<lambda>k. fst k = ws_session setup) (map fst (filter (\<lambda>((j, _), _). j \<noteq> ps_id ?p \<and> Q j) m)) = []"
      for Q and m :: "(rstr \<times> nat, persisted_file) hmap"
      by (auto simp: filter_empty_conv persisted_session_of_def)
    moreover have "map (\<lambda>(e, f). to_i64 e) (enumerate 0 xs) = [0..<length xs]"
      if "length xs \<le> Suc i64_max" for xs :: "persisted_file list"
      using that by (intro nth_equalityI) (auto simp: nth_enumerate_eq to_i64_small)
    ultimately show ?thesis
      using len by (simp add: own_rows_def t replace_session_def persisted_session_of_def comp_def
          case_prod_unfold)
  qed
  ultimately show "files_ok setup t (map (mark_saved env) files)" using adm len by (simp add: files_ok_def)
qed


lemma persist_session_ok:
  assumes "persist_session env setup files m = (Inr saved, m')"
  shows "files_ok setup (m_store m') saved"
proof -
  obtain r n where tr: "transact env (\<lambda>s. map_sum id (Pair ()) (insert_upload_session
             (persisted_session_of env setup files) (unix_now env (m_world m)) s)) m = (r, n)"
    by (rule prod.exhaust)
  then show ?thesis
  proof (cases rule: transact_cases)
    case (1 e)
    with assms tr show ?thesis by (simp add: persist_session_def)
  next
    case (2 a s)
    then have ins: "insert_upload_session (persisted_session_of env setup files)
        (unix_now env (m_world m)) (m_store m) = Inr s"
      by (cases "insert_upload_session (persisted_session_of env setup files)
        (unix_now env (m_world m)) (m_store m)") auto
    from insert_upload_session_ok(1) [OF ins] assms tr 2 show ?thesis by (simp add: persist_session_def)
  qed
qed

lemma admit_files_ok: "admit_files env setup entries m = (Inr saved, m') \<Longrightarrow> files_ok setup (m_store m') saved"
proof -
  assume h: "admit_files env setup entries m = (Inr saved, m')"
  then obtain files n where "(case persist_session env setup files n of
      (Inl e, m') \<Rightarrow> (Inl e, drop_files env files m') | (Inr saved, m') \<Rightarrow> (Inr saved, m')) = (Inr saved, m')"
    by (auto simp: admit_files_def and_then_Inr)
  moreover obtain q n' where a: "persist_session env setup files n = (q, n')" by (rule prod.exhaust)
  ultimately show ?thesis by (cases q) (auto dest: persist_session_ok)
qed

lemma receive_package_ok:
  "receive_package env setup h entries m = (Inr files, m') \<Longrightarrow> files_ok setup (m_store m') files"
  by (auto simp: receive_package_def and_then_Inr dest: admit_files_ok)

lemma begin_receiving_ok:
  assumes "files_ok setup (m_store m) files" "begin_receiving env setup (files, m) = (r, p, m')"
  shows "phase_ok setup (m_store m') p"
proof -
  obtain q files' n where a: "publish_empty env setup (files, m) = (q, files', n)" by (rule prod_cases3)
  from files_ok_step [OF assms(1) publish_empty_step [OF a]] assms(2) a show ?thesis
    by (auto simp: begin_receiving_def split: sum.splits)
qed

section \<open>Commands\<close>

lemma m_store_world_step: "world_step f m = (r, t) \<Longrightarrow> m_store t = m_store m"
  by (auto simp: world_step_def split: prod.splits)

lemma handle_seal_ok: "handle_seal env setup seal (p, m) = (r, p', m') \<Longrightarrow> phase_ok setup (m_store m) p
  \<Longrightarrow> phase_ok setup (m_store m') p'"
  by (auto simp: handle_seal_def Let_def split: if_splits prod.splits sum.splits dest: m_store_world_step)

lemma handle_page_ok: "handle_page env page (p, m) = (r, p', m') \<Longrightarrow> phase_ok setup (m_store m) p
  \<Longrightarrow> phase_ok setup (m_store m') p'"
  by (auto simp: handle_page_def split: if_splits prod.splits sum.splits phase.splits)

lemma handle_begin_ok:
  assumes "handle_begin env setup (p, m) = (r, p', m')" "phase_ok setup (m_store m) p"
  shows "phase_ok setup (m_store m') p'"
proof (cases p)
  case (Pages h entries n k)
  obtain q n' where a: "receive_package env setup h entries m = (q, n')" by (rule prod.exhaust)
  show ?thesis
  proof (cases q)
    case (Inl e)
    with assms a Pages show ?thesis by (auto simp: handle_begin_def)
  next
    case (Inr files)
    with assms(1) a Pages have "begin_receiving env setup (files, n') = (r, p', m')"
      by (simp add: handle_begin_def)
    with receive_package_ok [OF a [unfolded Inr]] show ?thesis by (rule begin_receiving_ok)
  qed
next
  case (Receiving files)
  with assms show ?thesis by (auto simp: handle_begin_def intro: begin_receiving_ok)
qed (use assms in \<open>auto simp: handle_begin_def\<close>)

lemma commit_upload_records_cases:
  assumes "commit_upload_records env setup records replays rejected transport partly elog m = (r, t)"
  obtains (failed) e where "r = Inl e" "m_store t = m_store m"
    | (missing) e where "r = Inl e"
      "\<exists>u now job token. append_upload_inner (ue_lib env) (ws_tenant setup) (ws_link setup) u
         (Some (ws_session setup)) now job token (m_store m) = Inr (None, m_store t)"
    | (stored) i now job token upload where
      "append_upload_inner (ue_lib env) (ws_tenant setup) (ws_link setup)
         (new_upload env setup records replays rejected transport partly elog i now)
         (Some (ws_session setup)) now job token (m_store m) = Inr (Some upload, m_store t)"
      "r = Inr \<lparr>rep_upload_id = upload, rep_files = records, rep_received = 0\<rparr>"
proof -
  obtain i w1 where i: "fresh_token env (m_world m) = (i, w1)" by (rule prod.exhaust)
  obtain job w2 where j: "fresh_token env w1 = (job, w2)" by (rule prod.exhaust)
  obtain token w3 where k: "fresh_token env w2 = (token, w3)" by (rule prod.exhaust)
  let ?m = "m\<lparr>m_world := w3\<rparr>"
  let ?now = "unix_now env w3"
  let ?u = "new_upload env setup records replays rejected transport partly elog i ?now"
  let ?f = "append_upload_inner (ue_lib env) (ws_tenant setup) (ws_link setup) ?u
         (Some (ws_session setup)) ?now job token"
  obtain q n where tr: "transact env ?f ?m = (q, n)" by (rule prod.exhaust)
  have run: "(r, t) = (case (q, n) of
            (Inl e, m') \<Rightarrow> (Inl (Internal (OfStore e)), m')
          | (Inr None, m') \<Rightarrow> (Inl (Conflict (told ''request link no longer exists'')), m')
          | (Inr (Some upload), m') \<Rightarrow>
              (Inr \<lparr>rep_upload_id = upload, rep_files = records, rep_received = 0\<rparr>, m'))"
    using assms by (simp add: commit_upload_records_def and_then_def world_step_def i j k Let_def tr)
  show thesis
    using tr
  proof (cases rule: transact_cases)
    case (1 e)
    with run show thesis by (intro failed) auto
  next
    case (2 a s)
    show thesis
    proof (cases a)
      case None
      with 2 run have "append_upload_inner (ue_lib env) (ws_tenant setup) (ws_link setup) ?u
         (Some (ws_session setup)) ?now job token (m_store m) = Inr (None, m_store t)" by simp
      moreover from None 2 run have "r = Inl (Conflict (told ''request link no longer exists''))" by simp
      ultimately show thesis by (intro missing) blast+
    next
      case (Some upload)
      with 2 run show thesis by (intro stored [of i ?now job token upload]) auto
    qed
  qed
qed

text \<open>With the session's row in place, a commit that fails has changed nothing.\<close>

lemma commit_upload_records_admitted:
  assumes adm: "admitted_row (m_store m) setup"
    and h: "commit_upload_records env setup records replays rejected transport partly elog m = (r, t)"
  shows "isl r \<Longrightarrow> m_store t = m_store m"
    and "us_files (m_store t) = us_files (m_store m)"
    and "partly \<Longrightarrow> us_sessions (m_store t) = us_sessions (m_store m)"
    and "\<not> isl r \<Longrightarrow> f \<in> set records \<Longrightarrow> recorded (m_store t) (ws_tenant setup) (ws_link setup) f"
    and "\<not> isl r \<Longrightarrow> rep_files (projr r) = records"
proof -
  obtain row where row: "map_of (us_sessions (m_store m)) (ws_session setup) = Some row" "sn_committed row = None"
    using adm by (auto simp: admitted_row_def)
  note facts = append_session_facts [OF _ row]
  show "isl r \<Longrightarrow> m_store t = m_store m"
    using h by (cases rule: commit_upload_records_cases) (auto dest: facts(3))
  show "us_files (m_store t) = us_files (m_store m)"
    using h by (cases rule: commit_upload_records_cases) (auto dest: facts(1))
  show "us_sessions (m_store t) = us_sessions (m_store m)" if partly
    using h
  proof (cases rule: commit_upload_records_cases)
    case (stored i now job token upload)
    from facts(5) [OF stored(1)] that show ?thesis by (simp add: new_upload_def)
  qed (auto dest: facts(3))
  show "recorded (m_store t) (ws_tenant setup) (ws_link setup) f" if "\<not> isl r" "f \<in> set records"
    using h
  proof (cases rule: commit_upload_records_cases)
    case (stored i now job token upload)
    from facts(4) [OF stored(1) refl, of f] that show ?thesis by (simp add: new_upload_def)
  qed (use that in auto)
  show "rep_files (projr r) = records" if "\<not> isl r"
    using h
  proof (cases rule: commit_upload_records_cases)
    case (stored i now job token upload)
    then show ?thesis by simp
  qed (use that in auto)
qed

end
