(* ===== verification/UploadSystem.thy ===== *)
theory UploadSystem
  imports UploadSafety
begin

text \<open>
  A session's worker as a transition system: commands in any order, with the other threads of
  the server changing the world and every table in between, except the rows of this session.
  The invariant \<open>worker_ok\<close> holds in every state reached, and the three ways a session ends
  (\<open>handle\_finish\<close>, an abort, the exit of an idle worker) are described from it.
\<close>

section \<open>What the pieces do to the tables\<close>

text \<open>Tables that a step leaves alone, apart from the events shown on a link.\<close>

definition same_tables :: "upload_store \<Rightarrow> upload_store \<Rightarrow> bool" where
  "same_tables s t \<longleftrightarrow> us_sessions t = us_sessions s \<and> us_files t = us_files s \<and> us_jobs t = us_jobs s"

lemma same_tables_refl [simp]: "same_tables s s"
  by (simp add: same_tables_def)

lemma same_tables_files_ok: "same_tables s t \<Longrightarrow> files_ok setup s files \<Longrightarrow> files_ok setup t files"
  by (simp add: same_tables_def files_ok_def admitted_row_def coherent_def own_rows_def)

lemma same_tables_admitted: "same_tables s t \<Longrightarrow> admitted_row t setup \<longleftrightarrow> admitted_row s setup"
  by (simp add: same_tables_def admitted_row_def)

lemma same_tables_recorded: "same_tables s t \<Longrightarrow> recorded t tenant link f \<longleftrightarrow> recorded s tenant link f"
  by (simp add: same_tables_def recorded_def)

lemma record_session_event_tables:
  "record_session_event tenant link e s = Inr (b, t) \<Longrightarrow> same_tables s t"
  by (auto simp: record_session_event_def same_tables_def split: if_splits option.splits)

lemma event_of_tables: "same_tables (m_store m) (m_store (event_of env setup w outcome detail m))"
proof -
  obtain r t where a: "transact env (record_session_event (ws_tenant setup) (ws_link setup)
       \<lparr>se_at = wk_last_seen w, se_started_at = ws_started_at setup, se_outcome = lit outcome,
        se_detail = detail, se_received = wk_already w + wk_received w,
        se_expected = oid_length (ws_package setup), se_replayed = wk_replays w,
        se_rejected = wk_rejected w\<rparr>) m = (r, t)" by (rule prod.exhaust)
  then show ?thesis
    by (cases rule: transact_cases)
      (auto simp: event_of_def record_event_def a dest: record_session_event_tables)
qed

lemma phase_drop_store [simp]: "m_store (phase_drop env p m) = m_store m"
  by (simp add: phase_drop_def drop_files_store split: phase.split)

lemma abandon_staged_store: "m_store (abandon_staged env st m) = m_store m"
proof -
  have "store_kept (st\<lparr>sf_preserve := True\<rparr>, m) (park_staged env (st\<lparr>sf_preserve := True\<rparr>, m))"
    by (rule park_staged_store) simp
  then show ?thesis by (simp add: abandon_staged_def store_kept_def)
qed

lemma abandon_files_store [simp]: "m_store (abandon_files env files m) = m_store m"
  unfolding abandon_files_def
  by (induction files arbitrary: m) (auto simp: abandon_staged_store split: option.split)

lemma forget_session_store:
  "m_store (forget_session env setup m) = m_store m
   \<or> m_store (forget_session env setup m) = delete_upload_session (ws_session setup) (m_store m)"
proof -
  obtain r t where a: "transact env (\<lambda>s. Inr ((), delete_upload_session (ws_session setup) s)) m = (r, t)"
    by (rule prod.exhaust)
  then show ?thesis by (cases rule: transact_cases) (auto simp: forget_session_def a)
qed

lemma delete_upload_session_jobs [simp]: "us_jobs (delete_upload_session x s) = us_jobs s"
  by (simp add: delete_upload_session_def)

lemma recorded_jobs: "us_jobs t = us_jobs s \<Longrightarrow> recorded t tenant link f \<longleftrightarrow> recorded s tenant link f"
  by (simp add: recorded_def)

lemma forget_session_recorded [simp]:
  "recorded (m_store (forget_session env setup m)) tenant link f \<longleftrightarrow> recorded (m_store m) tenant link f"
  by (rule recorded_jobs) (use forget_session_store [of env "setup" m] in auto)

section \<open>The end of a session\<close>

text \<open>Nothing published is lost: the session can still be resumed, or its files are on record.\<close>

definition accounted :: "('w, 'v, 'c, 'k, 'b) upload_env \<Rightarrow> worker_setup \<Rightarrow> upload_store \<Rightarrow> 'c file_state list \<Rightarrow> bool" where
  "accounted env setup s files \<longleftrightarrow>
     admitted_row s setup
     \<or> (\<forall>f \<in> set files. fs_published f \<longrightarrow> recorded s (ws_tenant setup) (ws_link setup) (file_record_of env setup f))"

lemma same_tables_accounted: "same_tables s t \<Longrightarrow> accounted env setup s files \<Longrightarrow> accounted env setup t files"
  by (simp add: accounted_def same_tables_admitted same_tables_recorded)

lemma forget_session_accounted:
  assumes "\<forall>f \<in> set files. fs_published f \<longrightarrow> recorded (m_store m) (ws_tenant setup) (ws_link setup) (file_record_of env setup f)"
  shows "accounted env setup (m_store (forget_session env setup m)) files"
  using assms by (simp add: accounted_def)

text \<open>\<open>handle\_finish\<close> in the receiving phase, on its four branches.\<close>

lemma handle_finish_cases:
  assumes h: "handle_finish env setup w m = (r, p, t)" and p: "wk_phase w = Receiving files"
  obtains (incomplete) f where "f \<in> set files" "\<not> fs_published f"
      "r = Inl (Bad (Told (fs_display f @ lit '' is not fully received yet'')))" "p = Receiving files" "t = m"
    | (refused) e elog m' where "\<forall>f \<in> set files. fs_published f" "r = Inl e" "p = Receiving files" "t = m'"
      "commit_upload_records env setup (map (file_record_of env setup) files) (wk_replays w) (wk_rejected w)
         (Some (lit ''http'')) False elog m = (Inl e, m')"
    | (finished) report elog m1 saved files' m2 where "\<forall>f \<in> set files. fs_published f"
      "commit_upload_records env setup (map (file_record_of env setup) files) (wk_replays w) (wk_rejected w)
         (Some (lit ''http'')) False elog m = (Inr report, m1)"
      "checkpoint_session env setup (files, m1) = (saved, files', m2)"
      "r = Inr (report\<lparr>rep_received := wk_received w\<rparr>)" "p = Done"
      "t = drop_files env files' (if saved then forget_session env setup m2 else m2)"
proof (cases "find (\<lambda>f. \<not> fs_published f) files")
  case (Some f)
  from find_SomeD [OF Some] have f: "\<not> fs_published f" "f \<in> set files" by auto
  from h p Some have "r = Inl (Bad (Told (fs_display f @ lit '' is not fully received yet'')))"
    "p = Receiving files" "t = m" by (simp_all add: handle_finish_def)
  with f show thesis by (intro incomplete)
next
  case None
  then have all: "\<forall>f \<in> set files. fs_published f" by (simp add: find_None_iff)
  let ?elog = "log_snapshot (unix_now env (m_world m)) (wk_log w)
    @ [plain_event (unix_now env (m_world m)) ''finished'' (Some (wk_replays w))]"
  obtain q m1 where c: "commit_upload_records env setup (map (file_record_of env setup) files) (wk_replays w)
      (wk_rejected w) (Some (lit ''http'')) False ?elog m = (q, m1)" by (rule prod.exhaust)
  show thesis
  proof (cases q)
    case (Inl e)
    with h p None c have "r = Inl e" "p = Receiving files" "t = m1"
      by (simp_all add: handle_finish_def Let_def)
    with all c Inl show thesis by (intro refused) auto
  next
    case (Inr report)
    obtain saved files' m2 where k: "checkpoint_session env setup (files, m1) = (saved, files', m2)"
      by (rule prod_cases3)
    with h p None c Inr have "r = Inr (report\<lparr>rep_received := wk_received w\<rparr>)" "p = Done"
      "t = drop_files env files' (if saved then forget_session env setup m2 else m2)"
      by (simp_all add: handle_finish_def Let_def)
    with all c Inr k show thesis by (intro finished) auto
  qed
qed

lemma files_ok_admitted: "files_ok setup s files \<Longrightarrow> admitted_row s setup"
  by (simp add: files_ok_def)

lemma commit_refused_store:
  assumes "admitted_row (m_store m) setup"
    "commit_upload_records env setup records replays rejected transport partly elog m = (Inl e, t)"
  shows "m_store t = m_store m"
  using commit_upload_records_admitted(1) [OF assms] by simp

lemma handle_finish_other:
  assumes "handle_finish env setup w m = (r, p, t)" "\<not> (\<exists>files. wk_phase w = Receiving files)"
  shows "p = wk_phase w" "t = m" "isl r"
  using assms by (auto simp: handle_finish_def split: phase.splits)

lemma handle_finish_ok:
  assumes "handle_finish env setup w m = (r, p, t)" "phase_ok setup (m_store m) (wk_phase w)"
  shows "phase_ok setup (m_store t) p"
proof (cases "\<exists>files. wk_phase w = Receiving files")
  case False
  with assms handle_finish_other show ?thesis by metis
next
  case True
  then obtain files where p: "wk_phase w = Receiving files" by blast
  with assms(2) have ok: "files_ok setup (m_store m) files" by simp
  show ?thesis
    using assms(1) p
  proof (cases rule: handle_finish_cases)
    case (refused e elog m')
    with ok show ?thesis by (simp add: commit_refused_store [OF files_ok_admitted])
  qed (use ok in simp_all)
qed

text \<open>The checkpoint after the session's row was committed touches nothing on record.\<close>

lemma checkpoint_files_jobs:
  assumes h: "checkpoint_files env setup (files, m) = (b, files', m')"
    and len: "length files \<le> Suc i64_max"
  shows "us_jobs (m_store m') = us_jobs (m_store m)" "map fs_published files' = map fs_published files"
proof -
  let ?rows = "stale_rows env files"
  show "us_jobs (m_store m') = us_jobs (m_store m)"
  proof (cases "?rows = []")
    case True
    with h show ?thesis by (simp add: checkpoint_files_def)
  next
    case stale: False
    obtain r n where tr: "transact env (\<lambda>t. map_sum id (Pair ()) (update_upload_file_progress (ws_session setup)
        ?rows (unix_now env (m_world m)) t)) m = (r, n)" by (rule prod.exhaust)
    then show ?thesis
    proof (cases rule: transact_cases)
      case (1 e)
      with h stale tr show ?thesis by (simp add: checkpoint_files_def)
    next
      case (2 a s)
      from 2(2) obtain t where t: "update_rows (ws_session setup) ?rows (m_store m) = Inr t"
        "s = stamp_session (ws_session setup) (unix_now env (m_world m)) t"
        by (auto simp: update_upload_file_progress_def split: sum.splits)
      from h stale tr 2 t(2) have "m_store m' = stamp_session (ws_session setup) (unix_now env (m_world m)) t"
        by (simp add: checkpoint_files_def)
      with update_rows_facts [OF t(1) stale_rows_distinct stale_rows_small [OF len]]
      show ?thesis by (simp add: stamp_session_facts)
    qed
  qed
  show "map fs_published files' = map fs_published files"
    using h by (auto simp: checkpoint_files_def mark_saved_def comp_def
        split: if_splits prod.splits sum.splits)
qed

lemma checkpoint_session_jobs:
  assumes h: "checkpoint_session env setup (files, m) = (b, files', m')" and len: "length files \<le> Suc i64_max"
  shows "us_jobs (m_store m') = us_jobs (m_store m)"
proof -
  obtain c fs n where a: "checkpoint_files env setup (files, m) = (c, fs, n)" by (rule prod_cases3)
  show ?thesis
  proof (cases c)
    case True
    with h a have "forget_publications env (fs, n) = (b, files', m')" by (simp add: checkpoint_session_def)
    with forget_publications_step [OF this] checkpoint_files_jobs(1) [OF a len]
    show ?thesis by (simp add: files_step_def store_kept_def)
  next
    case False
    with h a checkpoint_files_jobs(1) [OF a len] show ?thesis by (simp add: checkpoint_session_def)
  qed
qed

lemma handle_finish_accounted:
  assumes h: "handle_finish env setup w m = (r, p, t)" and w: "wk_phase w = Receiving files"
    and ok: "files_ok setup (m_store m) files"
  shows "accounted env setup (m_store t) files"
  using h w
proof (cases rule: handle_finish_cases)
  case incomplete
  with ok show ?thesis by (simp add: accounted_def files_ok_admitted)
next
  case (refused e elog m')
  with ok show ?thesis by (simp add: accounted_def commit_refused_store [OF files_ok_admitted] files_ok_admitted)
next
  case (finished report elog m1 saved files' m2)
  have adm: "admitted_row (m_store m) setup" using ok by (rule files_ok_admitted)
  have len: "length files \<le> Suc i64_max" using ok by (simp add: files_ok_def)
  have rec: "recorded (m_store m1) (ws_tenant setup) (ws_link setup) (file_record_of env setup f)"
    if "f \<in> set files" for f
    using commit_upload_records_admitted(4) [OF adm finished(2)] that by simp
  have jobs: "us_jobs (m_store m2) = us_jobs (m_store m1)" by (rule checkpoint_session_jobs [OF finished(3) len])
  have "recorded (m_store t) (ws_tenant setup) (ws_link setup) (file_record_of env setup f)" if "f \<in> set files" for f
    using rec [OF that] recorded_jobs [OF jobs] by (simp add: finished(6) drop_files_store)
  then show ?thesis by (simp add: accounted_def)
qed

text \<open>Recording part of a session, then forgetting it or keeping what a resume needs.\<close>

lemma commit_partial_facts:
  assumes h: "commit_partial env setup w m = (b, p, t)" and ok: "phase_ok setup (m_store m) (wk_phase w)"
  shows "phase_ok setup (m_store t) p"
    and "b \<Longrightarrow> wk_phase w = Receiving files \<Longrightarrow> f \<in> set files \<Longrightarrow> fs_published f \<Longrightarrow>
       recorded (m_store t) (ws_tenant setup) (ws_link setup) (file_record_of env setup f)"
    and "b \<Longrightarrow> wk_phase w = Receiving files \<Longrightarrow> f \<in> set files \<Longrightarrow>
       wd_live env (m_world m) \<and> \<not> unresolved_file env (m_world m) f"
proof -
  consider (other) "\<not> (\<exists>files. wk_phase w = Receiving files)" "p = wk_phase w" "t = m"
    | (rcv) files where "wk_phase w = Receiving files" "files_ok setup (m_store m) files"
    using h ok by (cases "wk_phase w") (auto simp: commit_partial_def)
  then have "phase_ok setup (m_store t) p
    \<and> (\<forall>files f. b \<longrightarrow> wk_phase w = Receiving files \<longrightarrow> f \<in> set files \<longrightarrow>
        wd_live env (m_world m) \<and> \<not> unresolved_file env (m_world m) f
        \<and> (fs_published f \<longrightarrow>
          recorded (m_store t) (ws_tenant setup) (ws_link setup) (file_record_of env setup f)))"
  proof cases
    case other
    with ok show ?thesis by simp
  next
    case (rcv files)
    define u where "u \<longleftrightarrow> \<not> wd_live env (m_world m) \<or> list_ex (unresolved_file env (m_world m)) files"
    define records where "records = map (file_record_of env setup) (filter fs_published files)"
    have nu: "wd_live env (m_world m) \<and> \<not> unresolved_file env (m_world m) f" if "\<not> u" "f \<in> set files" for f
      using that by (auto simp: u_def list_ex_iff)
    obtain q m1 where c: "commit_upload_records env setup records (wk_replays w) (wk_rejected w)
        (Some (lit ''http'')) True (log_snapshot (unix_now env (m_world m)) (wk_log w)) m = (q, m1)"
      by (rule prod.exhaust)
    note adm = files_ok_admitted [OF rcv(2)]
    have m1: "files_ok setup (m_store m1) files"
      using rcv(2) commit_upload_records_admitted(2,3) [OF adm c]
      by (simp add: files_ok_def admitted_row_def coherent_def own_rows_def)
    have run: "(b, p, t) = (if records = [] then (\<not> u, wk_phase w, m)
        else case (q, m1) of
          (Inl e, m') \<Rightarrow> (False, wk_phase w, m')
        | (Inr _, m') \<Rightarrow>
            if u then (False, wk_phase w, m')
            else (case checkpoint_session env setup (files, m') of (saved, files', m2) \<Rightarrow>
                    (saved, Receiving files', m2)))"
      unfolding h [symmetric] commit_partial_def c [symmetric] by (simp only: rcv(1) phase.case Let_def u_def records_def)
    show ?thesis
    proof (cases "records = []")
      case True
      with run rcv(1) have res: "b = (\<not> u)" "p = Receiving files" "t = m" by simp_all
      from True have none: "\<not> fs_published f" if "f \<in> set files" for f
        using that by (auto simp: records_def filter_empty_conv)
      show ?thesis using res rcv none nu by auto
    next
      case some: False
      show ?thesis
      proof (cases q)
        case (Inl e)
        with run some Inl rcv(1) have "\<not> b" "p = Receiving files" "t = m1" by simp_all
        with m1 show ?thesis by simp
      next
        case (Inr report)
        show ?thesis
        proof (cases u)
          case True
          with run some Inr rcv(1) have "\<not> b" "p = Receiving files" "t = m1" by simp_all
          with m1 show ?thesis by simp
        next
          case False
          obtain saved files' m2 where k: "checkpoint_session env setup (files, m1) = (saved, files', m2)"
            by (rule prod_cases3)
          with run some Inr False have res: "p = Receiving files'" "t = m2" by simp_all
          note after = checkpoint_session_ok [OF m1 k]
          have rec: "recorded (m_store m2) (ws_tenant setup) (ws_link setup) (file_record_of env setup f)"
            if "f \<in> set files" "fs_published f" for f
            using commit_upload_records_admitted(4) [OF adm c, of "file_record_of env setup f"] that Inr recorded_jobs [OF after(2)]
            by (simp add: records_def)
          show ?thesis using res after(1) rec nu False rcv(1) by auto
        qed
      qed
    qed
  qed
  then show "phase_ok setup (m_store t) p"
    and "b \<Longrightarrow> wk_phase w = Receiving files \<Longrightarrow> f \<in> set files \<Longrightarrow> fs_published f \<Longrightarrow>
       recorded (m_store t) (ws_tenant setup) (ws_link setup) (file_record_of env setup f)"
    and "b \<Longrightarrow> wk_phase w = Receiving files \<Longrightarrow> f \<in> set files \<Longrightarrow>
       wd_live env (m_world m) \<and> \<not> unresolved_file env (m_world m) f"
    by simp_all
qed

lemma preserve_phase_ok:
  assumes "preserve_phase env setup (q, m) = (b, p, t)" "phase_ok setup (m_store m) q"
  shows "q = Receiving files \<Longrightarrow> admitted_row (m_store t) setup" "(\<exists>files. q = Receiving files) \<or> t = m"
proof -
  show "admitted_row (m_store t) setup" if q: "q = Receiving files"
  proof -
    obtain saved files' m' where k: "checkpoint_session env setup (files, m) = (saved, files', m')"
      by (rule prod_cases3)
    from assms(1) q k have "m_store t = m_store m'" by (auto simp: preserve_phase_def)
    moreover have "files_ok setup (m_store m') files'"
      using assms(2) q by (intro checkpoint_session_ok(1) [OF _ k]) simp
    ultimately show ?thesis by (simp add: files_ok_admitted)
  qed
  show "(\<exists>files. q = Receiving files) \<or> t = m"
    using assms(1) by (auto simp: preserve_phase_def split: phase.splits)
qed

lemma commit_partial_receiving:
  assumes "commit_partial env setup w m = (b, p, t)" "wk_phase w = Receiving files"
  shows "\<exists>files'. p = Receiving files'"
proof -
  from assms(1) have "p = wk_phase w \<or> (\<exists>files'. p = Receiving files')"
    by (auto simp: commit_partial_def Let_def split: phase.splits if_splits prod.splits sum.splits)
  with assms(2) show ?thesis by auto
qed

lemma wind_up_accounted:
  assumes h: "wind_up env setup w m = (b, p, t)" and w: "wk_phase w = Receiving files"
    and ok: "files_ok setup (m_store m) files"
  shows "accounted env setup (m_store t) files"
    and "\<not> b \<Longrightarrow> admitted_row (m_store t) setup"
    and "b \<Longrightarrow> f \<in> set files \<Longrightarrow> \<not> unresolved_file env (m_world m) f"
    and "b \<Longrightarrow> f \<in> set files \<Longrightarrow> fs_published f \<Longrightarrow>
       recorded (m_store t) (ws_tenant setup) (ws_link setup) (file_record_of env setup f)"
proof -
  obtain c q m1 where a: "commit_partial env setup w m = (c, q, m1)" by (rule prod_cases3)
  have ok': "phase_ok setup (m_store m) (wk_phase w)" using ok w by simp
  note facts = commit_partial_facts [OF a ok']
  obtain files' where q: "q = Receiving files'" using commit_partial_receiving [OF a w] by blast
  have bc: "b = c" using h a by (auto simp: wind_up_def split: if_splits prod.splits)
  have kept: "admitted_row (m_store t) setup" if "\<not> c"
  proof -
    obtain x q' m2 where k: "preserve_phase env setup (q, m1) = (x, q', m2)" by (rule prod_cases3)
    with h a that have "t = m2" by (simp add: wind_up_def)
    with preserve_phase_ok(1) [OF k facts(1) q] show ?thesis by simp
  qed
  have gone: "accounted env setup (m_store t) files" if c
  proof -
    have "t = forget_session env setup m1" using h a that by (simp add: wind_up_def)
    moreover have "\<forall>f \<in> set files. fs_published f \<longrightarrow>
        recorded (m_store m1) (ws_tenant setup) (ws_link setup) (file_record_of env setup f)"
      using facts(2) [OF that w] by blast
    ultimately show ?thesis by (simp add: forget_session_accounted)
  qed
  show "accounted env setup (m_store t) files"
    using kept gone by (cases c) (auto simp: accounted_def)
  show "\<not> b \<Longrightarrow> admitted_row (m_store t) setup" using kept bc by simp
  show "b \<Longrightarrow> f \<in> set files \<Longrightarrow> \<not> unresolved_file env (m_world m) f"
    using facts(3) w bc by blast
  show "recorded (m_store t) (ws_tenant setup) (ws_link setup) (file_record_of env setup f)"
    if "b" "f \<in> set files" "fs_published f"
    using facts(2) [OF _ w that(2,3)] that(1) bc h a by (auto simp: wind_up_def)
qed

section \<open>Every command keeps the invariant\<close>

lemma noted_phase [simp]: "wk_phase (noted r w) = wk_phase w"
  by (simp add: noted_def split: sum.split)

lemma set_phase_phase [simp]: "wk_phase (set_phase p w) = p"
  by (simp add: set_phase_def)

lemma open_log_phase [simp]: "wk_phase (open_log now r w) = wk_phase w"
  by (simp add: open_log_def)

lemma phase_ok_tables: "same_tables s t \<Longrightarrow> phase_ok setup s p \<Longrightarrow> phase_ok setup t p"
  by (cases p) (auto intro: same_tables_files_ok)

lemma seal_step_ok: "worker_ok setup s \<Longrightarrow> seal_step env setup b s = (r, t) \<Longrightarrow> worker_ok setup t"
  by (cases s) (auto simp: worker_ok_def seal_step_def split: prod.splits dest: handle_seal_ok)

lemma page_step_ok: "worker_ok setup s \<Longrightarrow> page_step env b s = (r, t) \<Longrightarrow> worker_ok setup t"
  by (cases s) (auto simp: worker_ok_def page_step_def split: prod.splits dest: handle_page_ok)

lemma finish_step_ok: "worker_ok setup s \<Longrightarrow> finish_step env setup s = (r, t) \<Longrightarrow> worker_ok setup t"
  by (cases s) (auto simp: worker_ok_def finish_step_def split: prod.splits dest: handle_finish_ok)

lemma abort_step_ok: "abort_step env setup s = (r, t) \<Longrightarrow> worker_ok setup t"
  by (cases s) (auto simp: worker_ok_def abort_step_def Let_def split: prod.splits)

lemma suspend_step_ok: "suspend_step env setup s = (r, t) \<Longrightarrow> worker_ok setup t"
  by (cases s) (auto simp: worker_ok_def suspend_step_def split: prod.splits)

lemma begin_step_ok:
  assumes ok: "worker_ok setup s" and h: "begin_step env setup stopping s = (r, t)"
  shows "worker_ok setup t"
proof -
  obtain w m where s: "s = (w, m)" by (cases s)
  obtain q p m' where b: "(if stopping then (Inl stopping_error, wk_phase w, m)
      else handle_begin env setup (wk_phase w, m)) = (q, p, m')" by (rule prod_cases3)
  have p: "phase_ok setup (m_store m') p"
    using b ok s by (auto simp: worker_ok_def split: if_splits intro: handle_begin_ok)
  from h s b obtain w' m'' where t: "t = (w', m'')" "wk_phase w' = p"
    "m'' = m' \<or> (\<exists>v o' d. m'' = event_of env setup v o' d m')"
    by (cases t) (auto simp: begin_step_def Let_def split: sum.splits phase.splits)
  with p show ?thesis by (auto simp: worker_ok_def intro: phase_ok_tables [OF event_of_tables])
qed

lemma stamp_files_same: "list_all2 same_file files (stamp_files now outcomes files)"
  unfolding stamp_files_def
proof (induction outcomes arbitrary: files)
  case Nil
  show ?case by (simp add: list_all2_refl)
next
  case (Cons x outcomes)
  obtain c r where x: "x = (c, r)" by (cases x)
  let ?fs = "if (case r of Inl _ \<Rightarrow> False | Inr p \<Rightarrow> cp_accepted p) \<and> ch_entry c < length files
       then files[ch_entry c := stamp_first now (files ! ch_entry c)] else files"
  have "list_all2 same_file files ?fs"
    by (auto simp: list_all2_conv_all_nth nth_list_update same_file_def stamp_first_def)
  with Cons [of ?fs] show ?case
    by (auto simp: x intro: list_all2_trans [OF same_file_trans])
qed

lemma after_batch_phase:
  "\<exists>files'. wk_phase (after_batch now (Receiving old) batch outcomes (set_phase (Receiving files) w)) = Receiving files'
     \<and> list_all2 same_file files files'"
  using stamp_files_same by (auto simp: after_batch_def Let_def set_phase_def)

lemma after_batch_other: "(\<forall>files. p \<noteq> Receiving files) \<Longrightarrow> after_batch now p batch outcomes w = w"
  by (simp add: after_batch_def split: phase.split)

lemma tally_phase [simp]: "tally c r w = (q, w') \<Longrightarrow> wk_phase w' = wk_phase w"
  by (auto simp: tally_def Let_def split: sum.splits if_splits)

lemma tally_all_phase [simp]: "tally_all xs w = (qs, w') \<Longrightarrow> wk_phase w' = wk_phase w"
  by (induction xs w arbitrary: qs w' rule: tally_all.induct) (auto split: prod.splits)

lemma pace_checkpoint_ok:
  assumes "phase_ok setup (m_store m) (wk_phase w)"
  shows "worker_ok setup (pace_checkpoint env setup added (w, m))"
proof -
  obtain due t where a: "should_checkpoint_at added (instant env (m_world m)) (wk_tracker w) = (due, t)"
    by (rule prod.exhaust)
  show ?thesis
  proof (cases "due \<and> (\<exists>files. wk_phase w = Receiving files)")
    case True
    then obtain files where w: "wk_phase w = Receiving files" by blast
    obtain b files' m' where k: "checkpoint_session env setup (files, m) = (b, files', m')"
      by (rule prod_cases3)
    have "files_ok setup (m_store m') files'"
      using assms w by (intro checkpoint_session_ok(1) [OF _ k]) simp
    with True w k a show ?thesis by (simp add: pace_checkpoint_def worker_ok_def)
  next
    case False
    with assms a show ?thesis
      by (auto simp: pace_checkpoint_def worker_ok_def Let_def split: phase.splits)
  qed
qed

lemma accept_batch_other:
  "accept_batch env setup batch (p, m) = (rs, q, m') \<Longrightarrow> \<forall>files. p \<noteq> Receiving files \<Longrightarrow> q = p \<and> m' = m"
  by (auto simp: accept_batch_def split: phase.splits)

lemma chunk_step_ok:
  assumes ok: "worker_ok setup s" and h: "chunk_step env setup batch s = (rs, t)"
  shows "worker_ok setup t"
proof -
  obtain w m where s: "s = (w, m)" by (cases s)
  obtain outcomes p m' where a: "accept_batch env setup batch (wk_phase w, m) = (outcomes, p, m')"
    by (rule prod_cases3)
  let ?w = "after_batch (unix_now env (m_world m')) (wk_phase w) batch outcomes (set_phase p w)"
  obtain qs w' where b: "tally_all (zip batch outcomes) ?w = (qs, w')" by (rule prod.exhaust)
  have "phase_ok setup (m_store m') (wk_phase ?w)"
  proof (cases "\<exists>files. wk_phase w = Receiving files")
    case False
    with accept_batch_other [OF a] ok s show ?thesis
      by (simp add: worker_ok_def after_batch_other)
  next
    case True
    then obtain files where w: "wk_phase w = Receiving files" by blast
    obtain rs' files' m'' where f: "accept_files env setup batch (files, m) = (rs', files', m'')"
      by (rule prod_cases3)
    with a w have p: "p = Receiving files'" "m' = m''" by (simp_all add: accept_batch_def)
    obtain files'' where q: "wk_phase ?w = Receiving files''" "list_all2 same_file files' files''"
      using after_batch_phase unfolding w p by blast
    have "files_ok setup (m_store m) files" using ok s w by (simp add: worker_ok_def)
    then have "files_ok setup (m_store m') files'"
      using files_ok_step [OF _ accept_files_step [OF f]] p by simp
    moreover have "files_step (files', m') (files'', m')"
      using q(2) by (simp add: files_step_def store_kept_def)
    ultimately have "files_ok setup (m_store m') files''" by (rule files_ok_step)
    with q show ?thesis by simp
  qed
  with b have "phase_ok setup (m_store m') (wk_phase w')" by simp
  from pace_checkpoint_ok [OF this] h s a b show ?thesis by (auto simp: chunk_step_def)
qed

lemma command_step_ok:
  "worker_ok setup s \<Longrightarrow> command_step env setup c s = (rs, t) \<Longrightarrow> worker_ok setup t"
  by (cases c) (auto simp: command_step_def split: prod.splits
    intro: seal_step_ok page_step_ok begin_step_ok finish_step_ok abort_step_ok suspend_step_ok)

lemma await_ok: "worker_ok setup s \<Longrightarrow> worker_ok setup (await env setup carried s)"
  by (cases s) (simp add: await_def worker_ok_def Let_def)

lemma await_phase [simp]: "wk_phase (fst (await env setup carried s)) = wk_phase (fst s)"
  by (cases s) (simp add: await_def Let_def)

lemma await_store [simp]: "m_store (snd (await env setup carried s)) = m_store (snd s)"
  by (cases s) (simp add: await_def Let_def)

lemma turn_ok:
  assumes "worker_ok setup s" "turn env setup c queue s = (rs, rest, t)"
  shows "worker_ok setup t"
  using assms by (cases c) (auto simp: turn_def split: prod.splits intro: chunk_step_ok command_step_ok)

section \<open>The system\<close>

text \<open>Other threads: they own every table but the rows of this session.\<close>

definition others_keep :: "worker_setup \<Rightarrow> upload_store \<Rightarrow> upload_store \<Rightarrow> bool" where
  "others_keep setup s t \<longleftrightarrow>
     map_of (us_sessions t) (ws_session setup) = map_of (us_sessions s) (ws_session setup)
     \<and> (\<forall>i. map_of (us_files t) (ws_session setup, i) = map_of (us_files s) (ws_session setup, i))
     \<and> own_rows t (ws_session setup) = own_rows s (ws_session setup)"

inductive session_step ::
  "('w, 'v, 'c, 'k, 'b) upload_env \<Rightarrow> worker_setup \<Rightarrow> 'c worker \<times> 'w machine \<Rightarrow> 'c worker \<times> 'w machine \<Rightarrow> bool"
  for env :: "('w, 'v, 'c, 'k, 'b) upload_env" and ws :: worker_setup where
  session_turn: "wk_phase (fst s) \<noteq> Done \<Longrightarrow> turn env ws c queue (await env ws carried s) = (rs, rest, t)
    \<Longrightarrow> session_step env ws s t"
| session_others: "others_keep ws (m_store m) (m_store m') \<Longrightarrow> session_step env ws (w, m) (w, m')"

definition session_start :: "'c worker \<times> 'w machine \<Rightarrow> bool" where
  "session_start s \<longleftrightarrow> (\<exists>already recovered at' now. fst s = new_worker AwaitSeal False already recovered at' now)"

inductive_cases session_stepE: "session_step env ws s t"

lemma others_keep_files_ok: "others_keep setup s t \<Longrightarrow> files_ok setup s files \<Longrightarrow> files_ok setup t files"
  by (simp add: others_keep_def files_ok_def admitted_row_def coherent_def)

lemma session_step_ok: "worker_ok setup s \<Longrightarrow> session_step env setup s t \<Longrightarrow> worker_ok setup t"
  by (erule session_stepE)
    (auto simp: worker_ok_def phase_ok_def others_keep_files_ok split: phase.splits
      dest!: turn_ok [OF await_ok, rotated])

lemma session_start_ok: "session_start s \<Longrightarrow> worker_ok setup s"
  by (auto simp: session_start_def worker_ok_def new_worker_def)

interpretation session_runs: invariant_system session_start "session_step env ws" "worker_ok ws"
  for env :: "('w, 'v, 'c, 'k, 'b) upload_env" and ws
  by unfold_locales (auto simp: session_start_ok intro: session_step_ok)

lemma reached_files_ok:
  assumes "reach session_start (session_step env setup) (w, m)" "wk_phase w = Receiving files"
  shows "files_ok setup (m_store m) files"
  using session_runs.reach_inv [OF assms(1)] assms(2) by (simp add: worker_ok_def)

section \<open>Endings\<close>

lemma finish_step_accounted:
  assumes "files_ok setup (m_store m) files" "wk_phase w = Receiving files"
  shows "accounted env setup (m_store (snd (snd (finish_step env setup (w, m))))) files"
proof -
  obtain r p t where h: "handle_finish env setup w m = (r, p, t)" by (rule prod_cases3)
  from handle_finish_accounted [OF h assms(2,1)] h show ?thesis by (simp add: finish_step_def)
qed

lemma abort_step_outcome:
  assumes ok: "files_ok setup (m_store m) files" and w: "wk_phase w = Receiving files"
    and ab: "abort_step env setup (w, m) = (r, w', m')"
  shows "r = Inr Closed \<and> (\<forall>f \<in> set files. \<not> unresolved_file env (m_world m) f
            \<and> (fs_published f \<longrightarrow>
                recorded (m_store m') (ws_tenant setup) (ws_link setup) (file_record_of env setup f)))
      \<or> r = Inl retained_error \<and> map_of (us_sessions (m_store m')) (ws_session setup) \<noteq> None"
    and "accounted env setup (m_store m') files"
proof -
  let ?v = "w\<lparr>wk_log := log_terminal (plain_event (unix_now env (m_world m)) ''cancelled'' None) (wk_log w)\<rparr>"
  obtain b p t where h: "wind_up env setup ?v m = (b, p, t)" by (rule prod_cases3)
  have v: "wk_phase ?v = Receiving files" using w by simp
  note facts = wind_up_accounted [OF h v ok]
  from ab h have r: "r = (if b then Inr Closed else Inl retained_error)"
    and m': "m' = phase_drop env p (event_of env setup ?v ''cancelled'' (lit ''cancelled by the sender'') t)"
    by (auto simp: abort_step_def Let_def)
  from m' have same: "same_tables (m_store t) (m_store m')" by (simp add: event_of_tables)
  show "accounted env setup (m_store m') files" by (rule same_tables_accounted [OF same facts(1)])
  show "r = Inr Closed \<and> (\<forall>f \<in> set files. \<not> unresolved_file env (m_world m) f
            \<and> (fs_published f \<longrightarrow>
                recorded (m_store m') (ws_tenant setup) (ws_link setup) (file_record_of env setup f)))
      \<or> r = Inl retained_error \<and> map_of (us_sessions (m_store m')) (ws_session setup) \<noteq> None"
  proof (cases b)
    case True
    with facts(3) facts(4) r show ?thesis
      by (simp add: same_tables_recorded [OF same])
  next
    case False
    with facts(2) r same show ?thesis by (auto simp: same_tables_def admitted_row_def)
  qed
qed

lemma suspend_step_saves:
  assumes ok: "files_ok setup (m_store m) files" and w: "wk_phase w = Receiving files"
    and sus: "suspend_step env setup (w, m) = (Inr Closed, w', m')"
    and i: "i < length files" "file_progress env (files ! i) = (p, b, r)"
  shows "map_of (us_sessions (m_store m')) (ws_session setup) \<noteq> None
    \<and> (\<exists>row. map_of (us_files (m_store m')) (ws_session setup, i) = Some row
         \<and> pf_prefix row = to_i64 p \<and> pf_published row = b \<and> pf_receipt row = r)"
proof -
  obtain c fs n where a: "checkpoint_files env setup (files, m) = (c, fs, n)" by (rule prod_cases3)
  obtain d fs' n' where k: "checkpoint_session env setup (files, m) = (d, fs', n')" by (rule prod_cases3)
  from sus w k have d: d and m': "m_store m' = m_store n'"
    by (auto simp: suspend_step_def preserve_phase_def split: if_splits)
  have c: c using a k d by (cases c) (auto simp: checkpoint_session_def)
  with a k have g: "forget_publications env (fs, n) = (d, fs', n')" by (simp add: checkpoint_session_def)
  have store: "m_store m' = m_store n"
    using forget_publications_step [OF g] m' by (simp add: files_step_def store_kept_def)
  note facts = checkpoint_files_ok [OF ok a]
  have len: "length fs = length files" using facts(3) by (metis length_map)
  have prog: "file_progress env (fs ! i) = file_progress env (files ! i)"
    using a i(1) by (auto simp: checkpoint_files_def mark_saved_def file_progress_def
        split: if_splits prod.splits sum.splits option.split)
  from facts(4) c i len have cp: "fs_checkpointed (fs ! i) = Some (p, b, r)"
    by (simp add: prog i(2))
  from facts(1) i len have "coherent (m_store n) (ws_session setup) i (fs ! i)" "admitted_row (m_store n) setup"
    by (simp_all add: files_ok_def)
  with cp store show ?thesis by (auto simp: coherent_def row_says_def admitted_row_def)
qed

lemma suspend_step_accounted:
  assumes ok: "files_ok setup (m_store m) files" and w: "wk_phase w = Receiving files"
  shows "accounted env setup (m_store (snd (snd (suspend_step env setup (w, m))))) files"
proof -
  obtain b p t where h: "preserve_phase env setup (Receiving files, m) = (b, p, t)" by (rule prod_cases3)
  have "phase_ok setup (m_store m) (Receiving files)" using ok by simp
  from preserve_phase_ok(1) [OF h this refl] h w show ?thesis
    by (simp add: suspend_step_def accounted_def)
qed

lemma worker_exit_accounted:
  assumes ok: "files_ok setup (m_store m) files" and w: "wk_phase w = Receiving files"
  shows "accounted env setup (m_store (snd (worker_exit env setup (w, m)))) files"
proof (cases "wk_suspended w")
  case True
  with w ok show ?thesis by (simp add: worker_exit_def accounted_def files_ok_admitted)
next
  case False
  let ?v = "w\<lparr>wk_log := log_terminal (plain_event (wk_last_seen w) ''interrupted'' None) (wk_log w)\<rparr>"
  obtain b p t where h: "wind_up env setup ?v m = (b, p, t)" by (rule prod_cases3)
  have v: "wk_phase ?v = Receiving files" using w by simp
  from wind_up_accounted(1) [OF h v ok] False w h show ?thesis
    by (simp add: worker_exit_def Let_def same_tables_accounted [OF event_of_tables])
qed

lemma ending_accounted:
  assumes ok: "files_ok setup (m_store m) files" and w: "wk_phase w = Receiving files"
    and t: "t \<in> {snd (finish_step env setup (w, m)), snd (abort_step env setup (w, m)),
                  snd (suspend_step env setup (w, m)), worker_exit env setup (w, m)}"
  shows "accounted env setup (m_store (snd t)) files"
proof -
  obtain r w' m' where ab: "abort_step env setup (w, m) = (r, w', m')" by (rule prod_cases3)
  from abort_step_outcome(2) [OF ok w ab] ab t show ?thesis
    using finish_step_accounted [OF ok w] suspend_step_accounted [OF ok w] worker_exit_accounted [OF ok w]
    by auto
qed

text \<open>The checkpoint after a commitment leaves the commitment.\<close>

lemma stamp_session_committed:
  "map_of (us_sessions s) x = Some r \<Longrightarrow>
   \<exists>r'. map_of (us_sessions (stamp_session y now s)) x = Some r' \<and> sn_committed r' = sn_committed r"
  by (cases "x = y") (auto simp: stamp_session_def map_of_update split: option.split)

lemma checkpoint_files_committed:
  assumes h: "checkpoint_files env setup (files, m) = (b, files', m')"
    and len: "length files \<le> Suc i64_max"
    and row: "map_of (us_sessions (m_store m)) x = Some r"
  shows "\<exists>r'. map_of (us_sessions (m_store m')) x = Some r' \<and> sn_committed r' = sn_committed r"
proof (cases "stale_rows env files = []")
  case True
  with h row show ?thesis by (simp add: checkpoint_files_def)
next
  case stale: False
  obtain q n where tr: "transact env (\<lambda>t. map_sum id (Pair ()) (update_upload_file_progress (ws_session setup)
      (stale_rows env files) (unix_now env (m_world m)) t)) m = (q, n)" by (rule prod.exhaust)
  then show ?thesis
  proof (cases rule: transact_cases)
    case (1 e)
    with h stale tr row show ?thesis by (simp add: checkpoint_files_def)
  next
    case (2 a s)
    from 2(2) obtain t where t: "update_rows (ws_session setup) (stale_rows env files) (m_store m) = Inr t"
      "s = stamp_session (ws_session setup) (unix_now env (m_world m)) t"
      by (auto simp: update_upload_file_progress_def split: sum.splits)
    from h stale tr 2 t(2) have m': "m_store m' = stamp_session (ws_session setup) (unix_now env (m_world m)) t"
      by (simp add: checkpoint_files_def)
    have "us_sessions t = us_sessions (m_store m)"
      using update_rows_facts [OF t(1) stale_rows_distinct stale_rows_small [OF len]] by simp
    with row stamp_session_committed show ?thesis unfolding m' by metis
  qed
qed

lemma checkpoint_session_committed:
  assumes h: "checkpoint_session env setup (files, m) = (b, files', m')"
    and len: "length files \<le> Suc i64_max"
    and row: "map_of (us_sessions (m_store m)) x = Some r"
  shows "\<exists>r'. map_of (us_sessions (m_store m')) x = Some r' \<and> sn_committed r' = sn_committed r"
proof -
  obtain c fs n where a: "checkpoint_files env setup (files, m) = (c, fs, n)" by (rule prod_cases3)
  note facts = checkpoint_files_committed [OF a len row]
  show ?thesis
  proof (cases c)
    case True
    with h a have "forget_publications env (fs, n) = (b, files', m')" by (simp add: checkpoint_session_def)
    from forget_publications_step [OF this] facts show ?thesis by (simp add: files_step_def store_kept_def)
  next
    case False
    with h a facts show ?thesis by (simp add: checkpoint_session_def)
  qed
qed

lemma commit_whole_package:
  assumes adm: "admitted_row (m_store m) setup"
    and h: "commit_upload_records env setup records replays rejected transport False elog m = (Inr rep, t)"
  shows "rep_files rep = records"
    "\<exists>row. map_of (link_uploads (us_jobs (m_store t))) (ws_tenant setup, ws_link setup, rep_upload_id rep) = Some row
       \<and> up_files row = records \<and> \<not> up_partial row"
    "\<exists>r. map_of (us_sessions (m_store t)) (ws_session setup) = Some r \<and> sn_committed r = Some (rep_upload_id rep)"
proof -
  obtain row where row: "map_of (us_sessions (m_store m)) (ws_session setup) = Some row" "sn_committed row = None"
    using adm by (auto simp: admitted_row_def)
  have "rep_files rep = records
    \<and> (\<exists>row. map_of (link_uploads (us_jobs (m_store t))) (ws_tenant setup, ws_link setup, rep_upload_id rep) = Some row
       \<and> up_files row = records \<and> \<not> up_partial row)
    \<and> (\<exists>r. map_of (us_sessions (m_store t)) (ws_session setup) = Some r \<and> sn_committed r = Some (rep_upload_id rep))"
    using h
  proof (cases rule: commit_upload_records_cases)
    case (stored i now job token upload)
    from append_session_facts(6) [OF stored(1) row] stored(2) show ?thesis
      by (auto simp: new_upload_def row_of_upload_def commit_row_def map_of_update)
  qed simp_all
  then show "rep_files rep = records"
    "\<exists>row. map_of (link_uploads (us_jobs (m_store t))) (ws_tenant setup, ws_link setup, rep_upload_id rep) = Some row
       \<and> up_files row = records \<and> \<not> up_partial row"
    "\<exists>r. map_of (us_sessions (m_store t)) (ws_session setup) = Some r \<and> sn_committed r = Some (rep_upload_id rep)"
    by auto
qed

lemma delete_upload_session_gone: "map_of (us_sessions (delete_upload_session x s)) x = None"
  by (simp add: delete_upload_session_def delete_conv')

lemma finish_step_report:
  assumes ok: "files_ok setup (m_store m) files" and w: "wk_phase w = Receiving files"
    and fin: "finish_step env setup (w, m) = (Inr (Report rep), w', m')"
  shows "(\<forall>f \<in> set files. fs_published f) \<and> rep_files rep = map (file_record_of env setup) files
    \<and> rep_received rep = wk_received w \<and> wk_phase w' = Done
    \<and> (\<exists>row. map_of (link_uploads (us_jobs (m_store m'))) (ws_tenant setup, ws_link setup, rep_upload_id rep) = Some row
          \<and> up_files row = rep_files rep \<and> \<not> up_partial row)
    \<and> (map_of (us_sessions (m_store m')) (ws_session setup) = None
          \<or> (\<exists>r. map_of (us_sessions (m_store m')) (ws_session setup) = Some r
                \<and> sn_committed r = Some (rep_upload_id rep)))"
proof -
  obtain r p t where h: "handle_finish env setup w m = (r, p, t)" by (rule prod_cases3)
  with fin have r: "r = Inr rep" "wk_phase w' = p" "m' = t"
    by (auto simp: finish_step_def map_sum_def split: sum.splits)
  from h w show ?thesis
  proof (cases rule: handle_finish_cases)
    case (finished report elog m1 saved files' m2)
    have len: "length files \<le> Suc i64_max" using ok by (simp add: files_ok_def)
    have rep: "rep = report\<lparr>rep_received := wk_received w\<rparr>" using finished(4) r(1) by simp
    note facts = commit_whole_package [OF files_ok_admitted [OF ok] finished(2)]
    note jobs = checkpoint_session_jobs [OF finished(3) len]
    obtain x where x: "map_of (us_sessions (m_store m2)) (ws_session setup) = Some x"
      "sn_committed x = Some (rep_upload_id report)"
      using facts(3) checkpoint_session_committed [OF finished(3) len] by metis
    have st: "m_store m' = m_store (if saved then forget_session env setup m2 else m2)"
      by (simp add: r(3) finished(6) drop_files_store)
    then have "m_store m' = m_store m2 \<or> m_store m' = delete_upload_session (ws_session setup) (m_store m2)"
      using forget_session_store [of env "setup" m2] by (auto split: if_splits)
    then have "us_jobs (m_store m') = us_jobs (m_store m1)"
      "map_of (us_sessions (m_store m')) (ws_session setup) = None
          \<or> (\<exists>r. map_of (us_sessions (m_store m')) (ws_session setup) = Some r
                \<and> sn_committed r = Some (rep_upload_id report))"
      using jobs x by (auto simp: delete_upload_session_gone)
    with facts(1,2) finished(1,5) r(2) show ?thesis by (simp add: rep)
  qed (use r in simp_all)
qed

end
