(* ===== verification/UploadDemo.thy ===== *)
theory UploadDemo
  imports UploadSystem
begin

text \<open>
  A concrete environment for the witnesses and one session in it: a package of two files, each
  sent in one chunk. The world is a clock that also numbers handles; storage never fails, and a
  coverage is an object with the number of bytes received.
\<close>

text \<open>The two functions that recurse on a number, in a form the code generator takes.\<close>

lemma drain_code [code]:
  "drain room available queue =
     (if room = 0 \<or> available = 0 then ([], queue, False)
      else case queue of
        [] \<Rightarrow> ([], [], False)
      | Chunk x # rest \<Rightarrow>
          (case drain (room - 1) (available - 1) rest of (xs, left, carried) \<Rightarrow> (x # xs, left, carried))
      | c # rest \<Rightarrow> ([], queue, True))"
  by (cases "(room, available, queue)" rule: drain.cases) (auto split: cmd.split)

lemma accept_until_code [code]:
  "accept_until env v deadline fuel s =
     (if fuel = 0 then (Inl (Internal (told ''range stayed in flight too long'')), s)
      else and_then (active_native env) (\<lambda>n s.
       case lifted (world_step (nf_accept env n v)) s of
         (Inr acceptance, t) \<Rightarrow> (Inr acceptance, t)
       | (Inl RangeInFlight, (st, m)) \<Rightarrow>
           if instant env (m_world m) \<ge> deadline
           then (Inl (Internal (told ''range stayed in flight too long'')), (st, m))
           else accept_until env v deadline (fuel - 1) (st, m\<lparr>m_world := sleep env RETRY_SLEEP (m_world m)\<rparr>)
       | (Inl (WriteFailed e), t) \<Rightarrow> (Inl (Internal (Told (lit ''write failed: '' @ e))), t)) s)"
proof (cases fuel)
  case (Suc n)
  then have "fuel - 1 = n" by simp
  with Suc show ?thesis by (simp only: accept_until.simps nat.distinct if_False)
qed simp

definition demo_entries :: "package_entry list" where
  "demo_entries =
     [\<lparr>pe_path = [lit ''a''], pe_object = \<lparr>oid_suite = 1, oid_root = [7], oid_length = 3\<rparr>, pe_storage = Direct\<rparr>,
      \<lparr>pe_path = [lit ''b''], pe_object = \<lparr>oid_suite = 1, oid_root = [9], oid_length = 2\<rparr>, pe_storage = Direct\<rparr>]"

definition demo_env :: "(nat, nat, object_id \<times> nat, bool, unit) upload_env" where
  "demo_env = \<lparr>
     ue_lib = \<lparr>sl_stmts = demo_stmts, sl_key = True, sl_error_text = (\<lambda>_. [])\<rparr>,
     ue_paths = ascii_path_lib, ue_wording = (\<lambda>_. lit ''refused''),
     ue_hex = map unat, ue_nfc = id, ue_folded = to_ascii_lowercase,
     ue_suite_ok = (\<lambda>i. i = 1), ue_hash = (\<lambda>_ _. Inr [7]),
     pk_new = (\<lambda>_ _ w. (Inr 0, w)), pk_pages = (\<lambda>_ _. 1),
     pk_push = (\<lambda>_ _ w. (Inr demo_entries, w)), pk_finish = (\<lambda>_ w. (Inr 2, w)),
     ve_range = (\<lambda>_ _ d _. Inr (length d)),
     co_new = (\<lambda>x. (x, 0)), co_from_runs = (\<lambda>x rs. Inr (x, sum_list (map snd rs))), co_accept = (\<lambda>v (x, n). Inr (x, n + v)),
     co_covered = snd, co_prefix = snd, co_runs = (\<lambda>(_, n). [(0, n)]), co_object = fst,
     wd_live = (\<lambda>_. True), wd_open = (\<lambda>_ _ w. (Inr w, w + 1)), wd_create = (\<lambda>_ _ _ _ w. (Inr w, w + 1)),
     wd_resume = (\<lambda>_ _ _ _ w. (Inr w, w + 1)), wd_recover = (\<lambda>_ _ _ _ w. (Inr [], w)),
     wd_forget = (\<lambda>_ _ _ w. (Inr (), w)), wd_location = (\<lambda>_ _ _. Inr 0), wd_current = (\<lambda>_ _. Inr ()),
     wd_remote = (\<lambda>_ _. Inr False), wd_exists = (\<lambda>_ _. Inr False), wd_journal_exists = (\<lambda>_ _. Inr False),
     wd_stat = (\<lambda>_ _. None), wd_read = (\<lambda>_ _. Inl (lit ''missing'')),
     nf_staging = (\<lambda>_ _. [lit ''d'', lit ''.vot-stage'', lit ''.vot-s.stage'']),
     nf_journal = (\<lambda>_ _. [lit ''d'', lit ''.vot-stage'', lit ''.vot-s.journal'']), nf_incarnation = (\<lambda>_ _. [1]),
     nf_metadata = (\<lambda>_ _. Some [1]), nf_recovery = (\<lambda>_ _. False),
     nf_read = (\<lambda>_ _. Inl (lit ''missing'')),
     nf_accept = (\<lambda>_ v w. (Inr \<lparr>ac_status = RangeAccepted, ac_covered = v, ac_total = v\<rparr>, w + 1)),
     nf_publish = (\<lambda>_ w. (Inr (), w)), nf_observation = (\<lambda>_ _. None),
     nf_abandon = (\<lambda>_ w. w), nf_remove = (\<lambda>_ w. w), sidecar = (\<lambda>_ _ _ _ _ w. (True, w)),
     instant = (\<lambda>_. 7), unix_now = (\<lambda>_. 7), sleep = (\<lambda>d w. w + d), receive = (\<lambda>w. w + 1),
     arrived = (\<lambda>_. 0), schedule = (\<lambda>n _. [0..<n]),
     fresh_token = (\<lambda>w. (show_nat w, w + 1)), db_ok = (\<lambda>w. (True, w))\<rparr>"

definition demo_setup :: worker_setup where
  "demo_setup = \<lparr>ws_link = lit ''l'', ws_tenant = [], ws_client_ip = [], ws_dest_dir = [lit ''d''],
     ws_dest_rel = [], ws_package = \<lparr>oid_suite = 1, oid_root = [5], oid_length = 5\<rparr>, ws_max_total = 100,
     ws_allow_hidden = False, ws_verification = lit ''balanced'', ws_session = lit ''xxxxxxxxxxxxxxxx'', ws_started_at = 1,
     ws_quiet_after = 60, ws_contract = Unqualified\<rparr>"

definition demo_jobs_store :: job_store where
  "demo_jobs_store = \<lparr>tenants = [[]], projects = [], jobs = [], grants = [], manifests = [], storages = [],
     principals = [], purged_principals = [], automation_tokens = [], automation_operations = [],
     job_overrides = [], links = [(lit ''l'', [])], receive_workflows = [], receive_uploads = [],
     link_uploads = [], policy_cache = [], trade_routes = [], outbound_routes = [], inbound_routes = [],
     route_uploads = [], events = []\<rparr>"

definition demo_store :: upload_store where
  "demo_store = \<lparr>us_jobs = demo_jobs_store, us_headers = [], us_sessions = [], us_files = [], us_routes = [],
     us_links = [(lit ''l'', \<lparr>ld_events = [], ld_password = False, ld_active = True,
       ld_expires_at = None, ld_verification = lit ''balanced''\<rparr>)], us_endpoints = [], us_reported = []\<rparr>"

definition demo_chunk :: "nat \<Rightarrow> bytes \<Rightarrow> chunk" where
  "demo_chunk i d = \<lparr>ch_entry = i, ch_offset = 0, ch_proof = [], ch_data = d\<rparr>"

type_synonym demo_state = "(object_id \<times> nat) worker \<times> nat machine"

definition demo_turn :: "cmd \<Rightarrow> demo_state \<Rightarrow> demo_state" where
  "demo_turn c s = snd (snd (turn demo_env demo_setup c [] (await demo_env demo_setup False s)))"

definition demo0 :: demo_state where
  "demo0 = (new_worker AwaitSeal False 0 [] 0 0, \<lparr>m_store = demo_store, m_world = 10\<rparr>)"

definition demo1 :: demo_state where "demo1 = demo_turn (Seal []) demo0"
definition demo2 :: demo_state where "demo2 = demo_turn (Page []) demo1"
definition demo3 :: demo_state where "demo3 = demo_turn (Begin False) demo2"
definition demo4 :: demo_state where "demo4 = demo_turn (Chunk (demo_chunk 0 [1, 2, 3])) demo3"
definition demo5 :: demo_state where "demo5 = demo_turn (Chunk (demo_chunk 1 [4, 5])) demo4"

section \<open>The session reaches each state\<close>

lemma demo_turn_step:
  assumes "wk_phase (fst s) \<noteq> Done"
  shows "session_step demo_env demo_setup s (demo_turn c s)"
proof -
  obtain rs rest t where t: "turn demo_env demo_setup c [] (await demo_env demo_setup False s) = (rs, rest, t)"
    by (rule prod_cases3)
  then have "demo_turn c s = t" by (simp add: demo_turn_def)
  with session_turn [OF assms t] show ?thesis by simp
qed

definition receiving :: "demo_state \<Rightarrow> (object_id \<times> nat) file_state list" where
  "receiving s = (case wk_phase (fst s) of Receiving files \<Rightarrow> files | _ \<Rightarrow> [])"

lemma receivingD: "receiving s \<noteq> [] \<Longrightarrow> wk_phase (fst s) = Receiving (receiving s)"
  by (cases "wk_phase (fst s)") (auto simp: receiving_def)

text \<open>
  The whole session is evaluated once; every fact below is read off.
\<close>

definition unfinished :: "demo_state \<Rightarrow> bool" where
  "unfinished s \<longleftrightarrow> (case wk_phase (fst s) of Done \<Rightarrow> False | _ \<Rightarrow> True)"

definition replied :: "session_error + reply \<Rightarrow> reply option" where
  "replied r = (case r of Inl _ \<Rightarrow> None | Inr x \<Rightarrow> Some x)"

definition reported :: "session_error + reply \<Rightarrow> bool" where
  "reported r \<longleftrightarrow> (case r of Inr (Report _) \<Rightarrow> True | _ \<Rightarrow> False)"

lemma demo_evaluated:
  "let s1 = demo_turn (Seal []) demo0; s2 = demo_turn (Page []) s1; s3 = demo_turn (Begin False) s2;
       s4 = demo_turn (Chunk (demo_chunk 0 [1, 2, 3])) s3; s5 = demo_turn (Chunk (demo_chunk 1 [4, 5])) s4
   in unfinished demo0 \<and> unfinished s1 \<and> unfinished s2
    \<and> length (receiving s3) = 2 \<and> length (receiving s4) = 2 \<and> length (receiving s5) = 2
    \<and> map fs_published (receiving s4) = [True, False]
    \<and> map (file_progress demo_env) (receiving s4) = [(3, True, False), (0, False, False)]
    \<and> reported (fst (finish_step demo_env demo_setup s5))
    \<and> replied (fst (abort_step demo_env demo_setup s4)) = Some Closed
    \<and> replied (fst (suspend_step demo_env demo_setup s4)) = Some Closed"
  by code_simp

lemmas demo_facts = demo_evaluated [unfolded Let_def, folded demo1_def, folded demo2_def, folded demo3_def,
    folded demo4_def, folded demo5_def]

lemma unfinishedD: "unfinished s \<Longrightarrow> wk_phase (fst s) \<noteq> Done"
  by (auto simp: unfinished_def)

lemma repliedD: "replied r = Some x \<Longrightarrow> r = Inr x"
  by (simp add: replied_def split: sum.splits)

lemma demo_receiving:
  "length (receiving demo3) = 2" "length (receiving demo4) = 2" "length (receiving demo5) = 2"
  using demo_facts by blast+

lemma demo_phase:
  "wk_phase (fst demo3) = Receiving (receiving demo3)" "wk_phase (fst demo4) = Receiving (receiving demo4)"
  "wk_phase (fst demo5) = Receiving (receiving demo5)"
  using demo_receiving by (auto intro!: receivingD)

lemma demo_first_two: "xs ! 0 = a \<and> xs ! 1 = b" if "xs = [a, b]"
  using that by simp

lemma demo4_files:
  "fs_published (receiving demo4 ! 0)" "\<not> fs_published (receiving demo4 ! 1)"
  "file_progress demo_env (receiving demo4 ! 0) = (3, True, False)"
proof -
  have "map fs_published (receiving demo4) = [True, False]"
    "map (file_progress demo_env) (receiving demo4) = [(3, True, False), (0, False, False)]"
    using demo_facts by blast+
  from demo_first_two [OF this(1)] demo_first_two [OF this(2)] show
    "fs_published (receiving demo4 ! 0)" "\<not> fs_published (receiving demo4 ! 1)"
    "file_progress demo_env (receiving demo4 ! 0) = (3, True, False)"
    by (simp_all add: demo_receiving)
qed

lemma demo_session_reach:
  "reach session_start (session_step demo_env demo_setup) demo3"
  "reach session_start (session_step demo_env demo_setup) demo4"
  "reach session_start (session_step demo_env demo_setup) demo5"
proof -
  have 0: "reach session_start (session_step demo_env demo_setup) demo0"
    by (rule reach_init) (auto simp: session_start_def demo0_def)
  have "wk_phase (fst demo0) \<noteq> Done" using demo_facts unfinishedD by blast
  with 0 have 1: "reach session_start (session_step demo_env demo_setup) demo1"
    unfolding demo1_def by (blast intro: reach_step demo_turn_step)
  have "wk_phase (fst demo1) \<noteq> Done" using demo_facts unfinishedD by blast
  with 1 have 2: "reach session_start (session_step demo_env demo_setup) demo2"
    unfolding demo2_def by (blast intro: reach_step demo_turn_step)
  have "wk_phase (fst demo2) \<noteq> Done" using demo_facts unfinishedD by blast
  with 2 show 3: "reach session_start (session_step demo_env demo_setup) demo3"
    unfolding demo3_def by (blast intro: reach_step demo_turn_step)
  have "wk_phase (fst demo3) \<noteq> Done" by (simp add: demo_phase)
  with 3 show 4: "reach session_start (session_step demo_env demo_setup) demo4"
    unfolding demo4_def by (blast intro: reach_step demo_turn_step)
  have "wk_phase (fst demo4) \<noteq> Done" by (simp add: demo_phase)
  with 4 show "reach session_start (session_step demo_env demo_setup) demo5"
    unfolding demo5_def by (blast intro: reach_step demo_turn_step)
qed

end
