(* ===== verification/UploadResume.thy ===== *)
theory UploadResume
  imports UploadRun
begin

text \<open>
  What happens to a persisted session after a restart, from \<open>server/src/session.rs\<close>: the staging
  of each file is reopened from its checkpointed prefix or its publication recovered
  (\<open>restore\_files\<close>), the worker starts in the receiving phase (\<open>resume\_worker\<close>); a session that
  cannot resume is recorded as interrupted, and its evidence is cleaned up or discarded. The
  errors are the sources' texts, as \<open>refusal\<close>.

  Paths are lists of components. The directory handles of \<open>receiving.rs\<close> that only the clean-up
  uses are the fields of \<open>boot_env\<close>; a location that is not there is \<open>Inr False\<close>.
\<close>

section \<open>Restoring one file\<close>

definition message_of :: "session_error \<Rightarrow> refusal" where
  "message_of e = (case e of Bad r \<Rightarrow> r | Conflict r \<Rightarrow> r | Unavailable r \<Rightarrow> r | Internal r \<Rightarrow> r)"

definition persisted_resume_state :: "persisted_file \<Rightarrow> resume_state" where
  "persisted_resume_state f =
     \<lparr>rs_staging = file_name (pf_staging f), rs_journal = file_name (pf_journal f),
      rs_incarnation = pf_incarnation f, rs_profile = pf_profile f, rs_contract = pf_contract f,
      rs_runs = (if pf_prefix f > 0 then [(0, pf_prefix f)] else [])\<rparr>"

definition stage_dir :: rstr where "stage_dir = lit ''.vot-stage''"

definition outside_namespace :: refusal where
  "outside_namespace = told ''resume metadata is outside the private receiving namespace''"

definition in_namespace :: "rstr list \<Rightarrow> persisted_file \<Rightarrow> bool" where
  "in_namespace parent f \<longleftrightarrow>
     pf_staging f = parent @ [stage_dir, file_name (pf_staging f)]
     \<and> pf_journal f = parent @ [stage_dir, file_name (pf_journal f)]"

text \<open>A published file whose journal is retired is settled: nothing of it is looked at again.\<close>

definition settled_file ::
  "('w, 'v, 'c, 'k, 'b) upload_env \<Rightarrow> persisted_file \<times> 'w machine \<Rightarrow> (refusal + bool) \<times> persisted_file \<times> 'w machine" where
  "settled_file env =
     looks (\<lambda>(f, m). if \<not> pf_published f then Inr False
       else map_sum Told (\<lambda>there. \<not> there) (wd_journal_exists env (pf_journal f) (m_world m)))"

definition recovered_event :: "nat \<Rightarrow> rstr \<Rightarrow> object_id \<Rightarrow> log_event" where
  "recovered_event now display object =
     \<lparr>le_at = now, le_kind = lit ''published'', le_path = Some display,
      le_bytes = Some (oid_length object), le_secs = None, le_count = None\<rparr>"

text \<open>The destination is there: its publication is completed from the journal and attested.\<close>

definition mark_recovered ::
  "('w, 'v, 'c, 'k, 'b) upload_env \<Rightarrow> worker_setup \<Rightarrow> nat \<Rightarrow> rstr \<Rightarrow> persisted_file \<times> 'w machine
   \<Rightarrow> persisted_file \<times> 'w machine" where
  "mark_recovered env setup l observation s =
     (case s of (f, m) \<Rightarrow>
        if pf_receipt f then (f\<lparr>pf_published := True\<rparr>, m)
        else (case sidecar env l (pf_object f) (ws_session setup) observation (pf_profile f) (m_world m) of
                (ok, w) \<Rightarrow> (f\<lparr>pf_published := True, pf_receipt := ok\<rparr>, m\<lparr>m_world := w\<rparr>)))"

definition recover_publication ::
  "('w, 'v, 'c, 'k, 'b) upload_env \<Rightarrow> worker_setup \<Rightarrow> nat \<Rightarrow> rstr \<Rightarrow> persisted_file \<times> 'w machine
   \<Rightarrow> (refusal + log_event) \<times> persisted_file \<times> 'w machine" where
  "recover_publication env setup d name s =
     and_then (rewords (\<lambda>e. Told (lit ''recover '' @ pf_display_path (fst s) @ lit '': '' @ e))
        (lifted (world_step (wd_recover env d (pf_object (fst s)) name (persisted_resume_state (fst s))))))
       (\<lambda>observation.
     and_then (looks (\<lambda>(_, m). map_sum Told id (wd_location env d name (m_world m)))) (\<lambda>l.
     and_then (looks (\<lambda>(_, m). map_sum Told id (wd_current env l (m_world m)))) (\<lambda>_.
     and_then (looks (\<lambda>(f, m). Inr (recovered_event (unix_now env (m_world m)) (pf_display_path f) (pf_object f)))) (\<lambda>e.
     and_then (modifies (mark_recovered env setup l observation)) (\<lambda>_. yields e))))) s"

definition recovered_staged :: "rstr list \<Rightarrow> 'c \<Rightarrow> persisted_file \<Rightarrow> 'c staged" where
  "recovered_staged destination coverage f =
     \<lparr>sf_destination = destination, sf_staging = pf_staging f, sf_journal = pf_journal f,
      sf_incarnation = pf_incarnation f, sf_profile = pf_profile f, sf_contract = pf_contract f,
      sf_coverage = coverage, sf_active = None, sf_directory = None, sf_reopened = True,
      sf_metadata = None, sf_preserve = True\<rparr>"

text \<open>Otherwise the staging is reopened from the checkpointed prefix.\<close>

definition adopt_staging ::
  "('w, 'v, 'c, 'k, 'b) upload_env \<Rightarrow> worker_setup \<Rightarrow> nat \<Rightarrow> rstr list \<Rightarrow> 'c \<Rightarrow> persisted_file \<times> 'w machine
   \<Rightarrow> (refusal + 'c staged) \<times> persisted_file \<times> 'w machine" where
  "adopt_staging env setup n destination coverage s =
     (case s of (f, m) \<Rightarrow>
        case new_staged env setup n destination coverage (pf_profile f) m of
          (st, m') \<Rightarrow> (Inr (st\<lparr>sf_preserve := True\<rparr>), f, m'))"

definition resume_staging ::
  "('w, 'v, 'c, 'k, 'b) upload_env \<Rightarrow> worker_setup \<Rightarrow> nat \<Rightarrow> rstr list \<Rightarrow> 'c \<Rightarrow> persisted_file \<times> 'w machine
   \<Rightarrow> (refusal + 'c staged) \<times> persisted_file \<times> 'w machine" where
  "resume_staging env setup d destination coverage s =
     and_then (rewords (\<lambda>e. Told (pf_display_path (fst s) @ lit '': '' @ e))
        (lifted (world_step (wd_resume env d (pf_object (fst s)) (last destination)
           (persisted_resume_state (fst s))))))
       (\<lambda>n. adopt_staging env setup n destination coverage) s"

definition restored_coverage ::
  "('w, 'v, 'c, 'k, 'b) upload_env \<Rightarrow> persisted_file \<times> 'w machine \<Rightarrow> (refusal + 'c) \<times> persisted_file \<times> 'w machine" where
  "restored_coverage env =
     looks (\<lambda>(f, _). map_sum (\<lambda>e. Told (pf_display_path f @ lit '': '' @ e)) id
       (co_from_runs env (pf_object f) (rs_runs (persisted_resume_state f))))"

text \<open>The staging of a file that is not settled, with the event of a recovered publication.\<close>

definition restore_staging ::
  "('w, 'v, 'c, 'k, 'b) upload_env \<Rightarrow> worker_setup \<Rightarrow> nat \<Rightarrow> rstr list \<Rightarrow> persisted_file \<times> 'w machine
   \<Rightarrow> (refusal + ('c staged \<times> log_event list)) \<times> persisted_file \<times> 'w machine" where
  "restore_staging env setup d destination =
     and_then (ensures (\<lambda>(f, _). in_namespace (butlast destination) f) outside_namespace) (\<lambda>_.
     and_then (restored_coverage env) (\<lambda>coverage.
     and_then (looks (\<lambda>(_, m). map_sum Told id (wd_exists env destination (m_world m)))) (\<lambda>there.
       if there
       then and_then (recover_publication env setup d (last destination)) (\<lambda>e.
              looks (\<lambda>(f, _). Inr (recovered_staged destination coverage f, [e])))
       else and_then (resume_staging env setup d destination coverage) (\<lambda>st. yields (st, [])))))"

definition restore_file ::
  "('w, 'v, 'c, 'k, 'b) upload_env \<Rightarrow> worker_setup \<Rightarrow> ('w \<Rightarrow> bool) \<Rightarrow> persisted_file \<times> 'w machine
   \<Rightarrow> (refusal + ('c staged option \<times> log_event list)) \<times> persisted_file \<times> 'w machine" where
  "restore_file env setup active s =
     and_then (ensures (\<lambda>(_, m). active (m_world m)) (told ''receive recovery cancelled'')) (\<lambda>_.
     and_then (checks OfPath (join_under (ws_dest_dir setup) (pf_stored (fst s)))) (\<lambda>destination.
     and_then (ensures (\<lambda>_. destination \<noteq> []) (told ''missing destination parent'')) (\<lambda>_.
     and_then (rewords Told (lifted (world_step (wd_open env (butlast destination) False)))) (\<lambda>d.
     and_then (settled_file env) (\<lambda>settled.
       if settled then yields (None, [])
       else and_then (restore_staging env setup d destination) (\<lambda>(st, evs). yields (Some st, evs))))))) s"

definition restored :: "'c staged option \<Rightarrow> persisted_file \<Rightarrow> 'c file_state" where
  "restored native f =
     \<lparr>fs_display = pf_display_path f, fs_stored = join_with [0] (pf_stored f), fs_object = pf_object f,
      fs_native = native, fs_published = pf_published f, fs_receipt = pf_receipt f,
      fs_checkpointed = None, fs_first_range = None,
      fs_rehash = (\<not> pf_published f \<and> pf_prefix f > 0)\<rparr>"

section \<open>Restoring a session\<close>

text \<open>
  The files in their order, until one fails: what was made so far, with its events, and the
  persisted files as far as they have been updated.
\<close>

fun restore_each ::
  "('w, 'v, 'c, 'k, 'b) upload_env \<Rightarrow> worker_setup \<Rightarrow> ('w \<Rightarrow> bool) \<Rightarrow> (nat \<times> persisted_file) list \<times> 'w machine
   \<Rightarrow> (refusal + unit) \<times> ('c file_state \<times> log_event list) list \<times> (nat \<times> persisted_file) list \<times> 'w machine" where
  "restore_each env setup active ([], m) = (Inr (), [], [], m)"
| "restore_each env setup active ((i, f) # fs, m) =
     (case restore_file env setup active (f, m) of
        (Inl e, f', m') \<Rightarrow> (Inl e, [], (i, f') # fs, m')
      | (Inr (native, evs), f', m') \<Rightarrow>
          (case restore_each env setup active (fs, m') of
             (r, made, fs', m'') \<Rightarrow> (r, (restored native f', evs) # made, (i, f') # fs', m'')))"

definition is_whole :: "('w, 'v, 'c, 'k, 'b) upload_env \<Rightarrow> 'c file_state \<Rightarrow> bool" where
  "is_whole env f \<longleftrightarrow>
     (case fs_native f of None \<Rightarrow> False
      | Some st \<Rightarrow> co_covered env (sf_coverage st) = oid_length (co_object env (sf_coverage st)))"

definition saved_after :: "('w, 'v, 'c, 'k, 'b) upload_env \<Rightarrow> 'c file_state \<Rightarrow> persisted_file \<Rightarrow> persisted_file" where
  "saved_after env f p =
     p\<lparr>pf_published := fs_published f, pf_receipt := fs_receipt f,
       pf_prefix := (case fs_native f of None \<Rightarrow> pf_prefix p | Some st \<Rightarrow> co_prefix env (sf_coverage st))\<rparr>"

text \<open>A prefix that already covers its object is published at once; the first failure ends it.\<close>

fun publish_complete ::
  "('w, 'v, 'c, 'k, 'b) upload_env \<Rightarrow> worker_setup \<Rightarrow> ('w \<Rightarrow> bool) \<Rightarrow> ('c file_state \<times> nat \<times> persisted_file) list \<times> 'w machine
   \<Rightarrow> (session_error + log_event list) \<times> ('c file_state \<times> nat \<times> persisted_file) list \<times> 'w machine" where
  "publish_complete env setup active ([], m) = (Inr [], [], m)"
| "publish_complete env setup active ((f, i, p) # rest, m) =
     (if is_whole env f \<and> \<not> fs_published f then
        (case publish_file env setup active (f, m) of
           (Inl e, f', m') \<Rightarrow> (Inl e, (f', i, saved_after env f' p) # rest, m')
         | (Inr _, f', m') \<Rightarrow>
             (case publish_complete env setup active (rest, m') of (r, rest', m'') \<Rightarrow>
                (map_sum id ((#) (recovered_event (unix_now env (m_world m')) (fs_display f') (fs_object f'))) r,
                 (f', i, saved_after env f' p) # rest', m'')))
      else (case publish_complete env setup active (rest, m) of (r, rest', m') \<Rightarrow> (r, (f, i, p) # rest', m')))"

fun check_names :: "persisted_file list \<Rightarrow> refusal + unit" where
  "check_names [] = Inr ()"
| "check_names (f # fs) =
     (case check_payload_name_length (if pf_stored f = [] then [] else last (pf_stored f)) of
        Inl e \<Rightarrow> Inl (OfPath e)
      | Inr _ \<Rightarrow> check_names fs)"

definition check_resume ::
  "('w, 'v, 'c, 'k, 'b) upload_env \<Rightarrow> worker_setup \<Rightarrow> persisted_session \<Rightarrow> refusal + unit" where
  "check_resume env setup p =
     (case check_session_entry_cap (length (ps_files p)) of
        Inl e \<Rightarrow> Inl (message_of e)
      | Inr _ \<Rightarrow>
          if ps_committed p \<noteq> None then Inl (told ''completed upload cannot resume receiving'')
          else (case check_names (map snd (ps_files p)) of
             Inl e \<Rightarrow> Inl e
           | Inr _ \<Rightarrow>
               if list_ex (is_receipt_name (ue_paths env)) (split_on 47 (ws_dest_rel setup)
                     @ split_on 47 (ps_dest_rel p) @ concat (map (pf_stored \<circ> snd) (ps_files p)))
               then Inl (told ''resume path uses a name reserved for signed receipts'')
               else Inr ()))"

text \<open>The staging and the journal of every file that still has them.\<close>

definition kept_paths :: "('c file_state \<times> nat \<times> persisted_file) list \<Rightarrow> rstr list list" where
  "kept_paths xs =
     concat (map (\<lambda>(f, _, p). if fs_native f = None then [] else [pf_staging p, pf_journal p]) xs)"

definition restore_files ::
  "('w, 'v, 'c, 'k, 'b) upload_env \<Rightarrow> worker_setup \<Rightarrow> ('w \<Rightarrow> bool) \<Rightarrow> persisted_session \<times> 'w machine
   \<Rightarrow> (refusal + ('c file_state list \<times> rstr list list \<times> log_event list)) \<times> persisted_session \<times> 'w machine" where
  "restore_files env setup active s =
     (case s of (p, m) \<Rightarrow>
        case check_resume env setup p of
          Inl e \<Rightarrow> (Inl e, p, m)
        | Inr _ \<Rightarrow>
            (case restore_each env setup active (ps_files p, m) of
               (Inl e, made, saved, m') \<Rightarrow> (Inl e, p\<lparr>ps_files := saved\<rparr>, drop_files env (map fst made) m')
             | (Inr _, made, saved, m') \<Rightarrow>
                 (case publish_complete env setup active (zip (map fst made) saved, m') of (r, xs, m2) \<Rightarrow>
                    (case checkpoint_session env setup (map fst xs, m2) of (_, files, m3) \<Rightarrow>
                       (case r of
                          Inl e \<Rightarrow> (Inl (message_of e), p\<lparr>ps_files := map snd xs\<rparr>, drop_files env files m3)
                        | Inr evs \<Rightarrow>
                            (Inr (files, kept_paths (zip (map fst made) saved), concat (map snd made) @ evs),
                             p\<lparr>ps_files := map snd xs\<rparr>, m3))))))"

definition persisted_received :: "persisted_session \<Rightarrow> nat" where
  "persisted_received p =
     sum_list (map (\<lambda>(_, f). if pf_published f then oid_length (pf_object f) else pf_prefix f) (ps_files p))"

text \<open>A resumed file is dropped with its staging unless something preserves it again.\<close>

definition disarm :: "'c file_state \<Rightarrow> 'c file_state" where
  "disarm f = (if fs_published f then f
     else f\<lparr>fs_native := map_option (\<lambda>st. st\<lparr>sf_preserve := False\<rparr>) (fs_native f)\<rparr>)"

definition resume_worker ::
  "('w, 'v, 'c, 'k, 'b) upload_env \<Rightarrow> worker_setup \<Rightarrow> persisted_session \<times> 'w machine
   \<Rightarrow> (refusal + ('c worker \<times> rstr list list \<times> nat)) \<times> persisted_session \<times> 'w machine" where
  "resume_worker env setup s =
     (case restore_files env setup (wd_live env) s of
        (Inl e, p, m) \<Rightarrow> (Inl e, p, m)
      | (Inr (files, kept, recovered), p, m) \<Rightarrow>
          (Inr (new_worker (Receiving (map disarm files)) True (persisted_received p) recovered
                  (instant env (m_world m)) (unix_now env (m_world m)),
                kept, persisted_received p), p, m))"

end
