(* ===== verification/BootRecovery.thy ===== *)
theory BootRecovery
  imports UploadResume UploadRun Registry Tokens Paths
begin

text \<open>
  The sessions found in the store when receiving starts, from \<open>server/src/app.rs\<close> and
  \<open>server/src/session.rs\<close>: a session is resumed, or the journals of a committed one are cleaned
  up, or it is reported once as interrupted and kept for recovery, or discarded because its link
  can never accept it again. The result is the set of paths the sweep of abandoned staging must
  leave alone.

  A worker that was spawned is kept with its setup and whether the registry holds a sender for
  it. Without one its channel is closed, and it ends on a thread of its own while the boot goes on:
  \<open>bo_turns\<close> says which of these workers end at each point where the boot lets them (after a resume
  that was refused and after every session), and \<open>bt_ended\<close> lists the sessions whose worker has ended.
  Between these points the boot runs alone.
\<close>

section \<open>The world at boot\<close>

datatype lock_error = NoDirectory rstr | LockRefused rstr

record 'w boot_env =
  bo_receive_dir :: "rstr list"
  bo_allow_hidden :: bool
  bo_idle_secs :: nat
  bo_contract :: nas_contract
  bo_unhex :: "rstr \<Rightarrow> bytes option"
  bo_insert_text :: "insert_error \<Rightarrow> rstr"
  bo_child :: "rstr list \<Rightarrow> 'w \<Rightarrow> rstr + unit"
  bo_location :: "rstr list \<Rightarrow> 'w \<Rightarrow> rstr + nat"
  bo_directory :: "nat \<Rightarrow> 'w \<Rightarrow> rstr + nat"
  bo_identity :: "nat \<Rightarrow> 'w \<Rightarrow> rstr + bool"
  bo_open :: "nat \<Rightarrow> 'w \<Rightarrow> rstr + bool"
  bo_remove :: "nat \<Rightarrow> 'w \<Rightarrow> (rstr + unit) \<times> 'w"
  bo_sync :: "nat \<Rightarrow> 'w \<Rightarrow> (rstr + unit) \<times> 'w"
  bo_lock :: "rstr list \<Rightarrow> 'w \<Rightarrow> (lock_error + unit) \<times> 'w"
  bo_remove_push :: "rstr list \<Rightarrow> 'w \<Rightarrow> (rstr + unit) \<times> 'w"
  bo_renew :: "'w \<Rightarrow> (rstr + unit) \<times> 'w"
  bo_tree :: "'w \<Rightarrow> (rstr \<times> fsnode) list"
  bo_turns :: "'w \<Rightarrow> nat list"

record ('w, 'c) boot =
  bt_machine :: "'w machine"
  bt_sessions :: sessions
  bt_senders :: nat
  bt_workers :: "(worker_setup \<times> 'c worker \<times> bool) list"
  bt_ended :: "rstr list"

definition observes :: "('w \<Rightarrow> rstr + 'a) \<Rightarrow> 'w machine \<Rightarrow> (refusal + 'a) \<times> 'w machine" where
  "observes f = looks (\<lambda>m. map_sum Told id (f (m_world m)))"

definition performs :: "('w \<Rightarrow> (rstr + 'a) \<times> 'w) \<Rightarrow> 'w machine \<Rightarrow> (refusal + 'a) \<times> 'w machine" where
  "performs f = rewords Told (world_step f)"

definition stores ::
  "('w, 'v, 'c, 'k, 'b) upload_env \<Rightarrow> (upload_store \<Rightarrow> upload_store) \<Rightarrow> 'w machine \<Rightarrow> (refusal + unit) \<times> 'w machine" where
  "stores env f = rewords OfStore (transact env (\<lambda>s. Inr ((), f s)))"

section \<open>A committed session\<close>

text \<open>A missing journal is only accepted when the staging is gone as well.\<close>

definition no_staging :: "'w boot_env \<Rightarrow> persisted_file \<Rightarrow> 'w machine \<Rightarrow> (refusal + unit) \<times> 'w machine" where
  "no_staging boot f =
     and_then (observes (bo_location boot (pf_staging f))) (\<lambda>staging.
     and_then (observes (bo_identity boot staging)) (\<lambda>there.
     ensures (\<lambda>_. \<not> there) (told ''publication journal is missing but staging remains'')))"

definition retire_journal ::
  "('w, 'v, 'c, 'k, 'b) upload_env \<Rightarrow> 'w boot_env \<Rightarrow> rstr list \<Rightarrow> persisted_file \<Rightarrow> 'w machine
   \<Rightarrow> (refusal + unit) \<times> 'w machine" where
  "retire_journal env boot destination f =
     and_then (observes (bo_location boot destination)) (\<lambda>location.
     and_then (observes (bo_directory boot location)) (\<lambda>d.
     and_then (observes (bo_location boot (pf_journal f))) (\<lambda>journal.
     and_then (observes (wd_current env journal)) (\<lambda>_.
     and_then (observes (bo_identity boot journal)) (\<lambda>there.
     and_then (if there then performs (wd_forget env d (last destination) (persisted_resume_state f))
               else no_staging boot f) (\<lambda>_.
     and_then (observes (wd_current env location)) (\<lambda>_.
     and_then (observes (wd_current env journal)) (\<lambda>_.
     and_then (observes (bo_identity boot journal)) (\<lambda>still.
     and_then (ensures (\<lambda>_. \<not> still) (told ''publication journal changed during cleanup'')) (\<lambda>_.
     performs (bo_sync boot journal)))))))))))"

definition cleanup_file ::
  "('w, 'v, 'c, 'k, 'b) upload_env \<Rightarrow> 'w boot_env \<Rightarrow> rstr list \<Rightarrow> persisted_file \<Rightarrow> 'w machine
   \<Rightarrow> (refusal + unit) \<times> 'w machine" where
  "cleanup_file env boot dest_dir f =
     (if pf_staging f = [] \<and> pf_journal f = [] then yields ()
      else and_then (checks OfPath (join_under dest_dir (pf_stored f))) (\<lambda>destination.
           and_then (ensures (\<lambda>_. destination \<noteq> []) (told ''missing destination parent'')) (\<lambda>_.
           and_then (ensures (\<lambda>_. in_namespace (butlast destination) f) outside_namespace) (\<lambda>_.
           retire_journal env boot destination f))))"

definition cleanup_committed_session ::
  "('w, 'v, 'c, 'k, 'b) upload_env \<Rightarrow> 'w boot_env \<Rightarrow> persisted_session \<Rightarrow> 'w machine
   \<Rightarrow> (refusal + unit) \<times> 'w machine" where
  "cleanup_committed_session env boot p =
     and_then (ensures (\<lambda>_. ps_committed p \<noteq> None) (told ''upload has not committed'')) (\<lambda>_.
     and_then (each_step (cleanup_file env boot (ps_dest_dir p)) (map snd (ps_files p))) (\<lambda>_.
     stores env (delete_upload_session (ps_id p))))"

section \<open>A session that is refused for good\<close>

text \<open>Only what lies in a staging directory is ever removed.\<close>

definition discard_staged_path :: "'w boot_env \<Rightarrow> rstr list \<Rightarrow> 'w machine \<Rightarrow> (refusal + unit) \<times> 'w machine" where
  "discard_staged_path boot path =
     and_then (ensures (\<lambda>_. butlast path \<noteq> [] \<and> last (butlast path) = stage_dir) outside_namespace) (\<lambda>_.
     and_then (observes (bo_location boot path)) (\<lambda>location.
     and_then (observes (bo_open boot location)) (\<lambda>there.
       if \<not> there then yields ()
       else and_then (performs (bo_remove boot location)) (\<lambda>_. performs (bo_sync boot location)))))"

definition discard_session_files :: "'w boot_env \<Rightarrow> persisted_session \<Rightarrow> 'w machine \<Rightarrow> (refusal + unit) \<times> 'w machine" where
  "discard_session_files boot p =
     and_then (each_step (discard_staged_path boot)
        (filter (\<lambda>path. path \<noteq> []) (concat (map (\<lambda>(_, f). [pf_staging f, pf_journal f]) (ps_files p)))))
       (\<lambda>_. yields ())"

definition push_directory :: "persisted_session \<Rightarrow> rstr \<Rightarrow> rstr list" where
  "push_directory p key = ps_dest_dir p @ [stage_dir, lit ''.vot-push-'' @ key]"

definition discard_push ::
  "'w boot_env \<Rightarrow> persisted_session \<Rightarrow> rstr \<Rightarrow> 'w machine \<Rightarrow> (refusal + unit) \<times> 'w machine" where
  "discard_push boot p key m =
     (case world_step (bo_lock boot (push_directory p key)) m of
        (Inr _, m') \<Rightarrow>
          and_then (discard_session_files boot p) (\<lambda>_. performs (bo_remove_push boot (push_directory p key))) m'
      | (Inl (NoDirectory _), m') \<Rightarrow> discard_session_files boot p m'
      | (Inl (LockRefused e), m') \<Rightarrow> (Inl (Told e), m'))"

definition invalid_push_key :: refusal where "invalid_push_key = told ''invalid push staging key''"

definition discard_refused_session ::
  "('w, 'v, 'c, 'k, 'b) upload_env \<Rightarrow> 'w boot_env \<Rightarrow> persisted_session \<Rightarrow> 'w machine \<Rightarrow> (refusal + unit) \<times> 'w machine" where
  "discard_refused_session env boot p =
     and_then (case ps_push_key p of
         Some key \<Rightarrow> if \<not> valid_hex key 32 then fails invalid_push_key else discard_push boot p key
       | None \<Rightarrow> discard_session_files boot p) (\<lambda>_.
     stores env (delete_upload_session (ps_id p)))"

section \<open>The record of an interruption\<close>

definition persisted_record :: "('w, 'v, 'c, 'k, 'b) upload_env \<Rightarrow> persisted_session \<Rightarrow> persisted_file \<Rightarrow> file_record" where
  "persisted_record env p f =
     \<lparr>fr_path = pf_display_path f, fr_stored_as = stored_rel (ps_dest_rel p) (join_with [0] (pf_stored f)),
      fr_bytes = oid_length (pf_object f), fr_suite = suite_name (oid_suite (pf_object f)),
      fr_root = ue_hex env (oid_root (pf_object f)), fr_receipt = pf_receipt f, fr_deleted = False\<rparr>"

definition recovered_upload ::
  "('w, 'v, 'c, 'k, 'b) upload_env \<Rightarrow> persisted_session \<Rightarrow> file_record list \<Rightarrow> nat \<Rightarrow> upload_record" where
  "recovered_upload env p records at' =
     \<lparr>ur_id = lit ''recovery-'' @ ps_id p, ur_started_at = ps_started_at p, ur_completed_at = at',
      ur_replayed = 0, ur_rejected = 0,
      ur_transport = Some (if ps_push_key p \<noteq> None then lit ''push'' else lit ''http''),
      ur_package_root = ue_hex env (oid_root (ps_package p)),
      ur_total_bytes = sum_list (map fr_bytes records), ur_files = records, ur_partial = True,
      ur_log = [plain_event at' ''interrupted'' None]\<rparr>"

text \<open>\<open>append\_upload\_from\_session\<close>, whose failure is only logged.\<close>

definition append_recovered ::
  "('w, 'v, 'c, 'k, 'b) upload_env \<Rightarrow> persisted_session \<Rightarrow> upload_record \<Rightarrow> 'w machine \<Rightarrow> 'w machine" where
  "append_recovered env p u m =
     (case fresh_token env (m_world m) of (job, w) \<Rightarrow>
      case fresh_token env w of (token, w') \<Rightarrow>
        snd (transact env (append_upload_inner (ue_lib env) (ps_tenant p) (ps_link_id p) u (Some (ps_id p))
               (unix_now env w') job token) (m\<lparr>m_world := w'\<rparr>)))"

definition commit_persisted_interruption ::
  "('w, 'v, 'c, 'k, 'b) upload_env \<Rightarrow> persisted_session \<Rightarrow> rstr \<Rightarrow> 'w machine \<Rightarrow> 'w machine" where
  "commit_persisted_interruption env p detail m =
     (if ps_committed p \<noteq> None then m
      else
        let records = map (persisted_record env p) (filter pf_published (map snd (ps_files p)));
            at' = unix_now env (m_world m);
            m' = (if records = [] then m else append_recovered env p (recovered_upload env p records at') m)
        in snd (transact env (record_session_event (ps_tenant p) (ps_link_id p)
             \<lparr>se_at = at', se_started_at = ps_started_at p, se_outcome = lit ''interrupted'', se_detail = detail,
              se_received = persisted_received p, se_expected = oid_length (ps_package p), se_replayed = 0,
              se_rejected = 0\<rparr>) m'))"

section \<open>Resuming one session\<close>

definition upload_link :: "upload_store \<Rightarrow> rstr \<Rightarrow> (rstr \<times> link_detail) option" where
  "upload_link s link =
     (case (map_of (links (us_jobs s)) link, map_of (us_links s) link) of
        (Some tenant, Some d) \<Rightarrow> Some (tenant, d)
      | _ \<Rightarrow> None)"

definition usable_at :: "nat \<Rightarrow> link_detail \<Rightarrow> bool" where
  "usable_at now d \<longleftrightarrow> ld_active d \<and> (case ld_expires_at d of None \<Rightarrow> True | Some at' \<Rightarrow> now < at')"

definition find_link ::
  "('w, 'v, 'c, 'k, 'b) upload_env \<Rightarrow> rstr \<Rightarrow> 'w machine \<Rightarrow> (upload_error + (rstr \<times> link_detail) option) \<times> 'w machine" where
  "find_link env link = queries env (\<lambda>s. Inr (upload_link s link))"

definition link_gone :: "string" where "link_gone = ''link no longer exists''"
definition link_closed :: "string" where "link_closed = ''link is no longer accepting uploads''"

definition permanent_refusal_detail ::
  "('w, 'v, 'c, 'k, 'b) upload_env \<Rightarrow> persisted_session \<Rightarrow> 'w machine \<Rightarrow> rstr option \<times> 'w machine" where
  "permanent_refusal_detail env p m =
     (case find_link env (ps_link_id p) m of
        (Inr None, m') \<Rightarrow> (Some (lit link_gone), m')
      | (Inr (Some (_, d)), m') \<Rightarrow>
          (case ld_expires_at d of
             Some at' \<Rightarrow> (if unix_now env (m_world m') \<ge> at' then Some (lit link_closed) else None, m')
           | None \<Rightarrow> (None, m'))
      | (Inl _, m') \<Rightarrow> (None, m'))"

definition setup_of ::
  "('w, 'v, 'c, 'k, 'b) upload_env \<Rightarrow> 'w boot_env \<Rightarrow> persisted_session \<Rightarrow> link_detail \<Rightarrow> bytes \<Rightarrow> worker_setup" where
  "setup_of env boot p d b =
     \<lparr>ws_link = ps_link_id p, ws_tenant = ps_tenant p, ws_client_ip = [], ws_dest_dir = ps_dest_dir p,
      ws_dest_rel = ps_dest_rel p, ws_package = ps_package p,
      ws_max_total = (case ps_max_total p of None \<Rightarrow> u64_max | Some n \<Rightarrow> n),
      ws_allow_hidden = bo_allow_hidden boot, ws_verification = ld_verification d,
      ws_session = ue_hex env b, ws_started_at = ps_started_at p,
      ws_quiet_after = quiet_after_secs (bo_idle_secs boot), ws_contract = bo_contract boot\<rparr>"

text \<open>The components of a destination below the receiving directory.\<close>

definition below :: "rstr list \<Rightarrow> rstr list \<Rightarrow> refusal + rstr list" where
  "below base path =
     (if take (length base) path = base then Inr (drop (length base) path)
      else Inl (told ''resume destination is outside receiving storage''))"

definition session_bytes :: "'w boot_env \<Rightarrow> rstr \<Rightarrow> refusal + bytes" where
  "session_bytes boot i =
     (case bo_unhex boot i of
        None \<Rightarrow> Inl (told ''session id shape'')
      | Some b \<Rightarrow> if length b = 16 then Inr b else Inl (told ''session id shape''))"

definition readmit ::
  "('w, 'v, 'c, 'k, 'b) upload_env \<Rightarrow> 'w boot_env \<Rightarrow> persisted_session \<Rightarrow> 'w machine
   \<Rightarrow> (refusal + worker_setup) \<times> 'w machine" where
  "readmit env boot p =
     and_then (rewords OfStore (find_link env (ps_link_id p))) (\<lambda>found.
     and_then (checks id (case found of None \<Rightarrow> Inl (told link_gone) | Some x \<Rightarrow> Inr x)) (\<lambda>(tenant, d).
     and_then (ensures (\<lambda>m. tenant = ps_tenant p \<and> usable_at (unix_now env (m_world m)) d) (told link_closed)) (\<lambda>_.
     and_then (checks id (session_bytes boot (ps_id p))) (\<lambda>b.
     and_then (checks id (below (bo_receive_dir boot) (ps_dest_dir p))) (\<lambda>components.
     and_then (observes (bo_child boot components)) (\<lambda>_.
     yields (setup_of env boot p d b)))))))"

definition now_of :: "('w, 'v, 'c, 'k, 'b) upload_env \<Rightarrow> ('w, 'c) boot \<Rightarrow> nat \<times> nat" where
  "now_of env b = (unix_now env (m_world (bt_machine b)), instant env (m_world (bt_machine b)))"

definition refused_insert :: "'w boot_env \<Rightarrow> string \<Rightarrow> insert_error \<Rightarrow> refusal" where
  "refused_insert boot what e = Told (lit what @ bo_insert_text boot e)"

text \<open>A push session is parked in the registry until its sender comes back.\<close>

definition push_admission :: "persisted_session \<Rightarrow> push_control \<Rightarrow> session_admission" where
  "push_admission p control =
     \<lparr>sa_id = ps_id p, sa_link_id = ps_link_id p, sa_tenant = ps_tenant p,
      sa_reserved_bytes = oid_length (ps_package p), sa_max_total_bytes = None, sa_max_tenant_sessions = None,
      sa_max_link_sessions = u64_max, sa_max_sessions = u64_max, sa_kind = Push control\<rparr>"

definition staging_paths :: "persisted_session \<Rightarrow> rstr list list" where
  "staging_paths p = concat (map (\<lambda>(_, f). [pf_staging f, pf_journal f]) (ps_files p))"

definition resume_push ::
  "('w, 'v, 'c, 'k, 'b) upload_env \<Rightarrow> 'w boot_env \<Rightarrow> rstr \<Rightarrow> persisted_session \<Rightarrow> ('w, 'c) boot
   \<Rightarrow> (refusal + rstr list list) \<times> ('w, 'c) boot" where
  "resume_push env boot key p b =
     (if \<not> valid_hex key 32 then (Inl invalid_push_key, b)
      else case resumable_control key False (bt_sessions b) of (control, s) \<Rightarrow>
        case world_step (bo_lock boot (push_directory p key)) (bt_machine b) of
          (Inl (NoDirectory e), m) \<Rightarrow> (Inl (Told e), b\<lparr>bt_machine := m, bt_sessions := s\<rparr>)
        | (Inl (LockRefused e), m) \<Rightarrow> (Inl (Told e), b\<lparr>bt_machine := m, bt_sessions := s\<rparr>)
        | (Inr _, m) \<Rightarrow>
            (let b = b\<lparr>bt_machine := m, bt_sessions := s, bt_senders := bt_senders b + 1\<rparr> in
             case insert_admitted (push_admission p control) (bt_senders b) (Inr (0, []))
                    (fst (now_of env b)) (snd (now_of env b)) s of
               Inl e \<Rightarrow> (Inl (refused_insert boot ''register push session: '' e), b)
             | Inr s' \<Rightarrow>
                 (Inr (push_directory p key # filter (\<lambda>path. path \<noteq> []) (staging_paths p)),
                  b\<lparr>bt_sessions := s'\<rparr>)))"

text \<open>An upload session gets its worker first and its place in the registry after.\<close>

definition resume_http ::
  "('w, 'v, 'c, 'k, 'b) upload_env \<Rightarrow> 'w boot_env \<Rightarrow> worker_setup \<Rightarrow> persisted_session \<times> ('w, 'c) boot
   \<Rightarrow> (refusal + rstr list list) \<times> persisted_session \<times> ('w, 'c) boot" where
  "resume_http env boot setup s =
     (case s of (p, b) \<Rightarrow>
        case resume_worker env setup (p, bt_machine b) of
          (Inl e, p', m) \<Rightarrow> (Inl e, p', b\<lparr>bt_machine := m\<rparr>)
        | (Inr (w, kept, already), p', m) \<Rightarrow>
            (let b = b\<lparr>bt_machine := m, bt_senders := bt_senders b + 1\<rparr> in
             case insert_resumed (ps_id p') (ps_link_id p') (ps_tenant p') (oid_length (ps_package p'))
                    (bt_senders b) (fst (now_of env b)) (snd (now_of env b)) (bt_sessions b) of
               Inl e \<Rightarrow> (Inl (refused_insert boot ''register session: '' e), p',
                         b\<lparr>bt_workers := bt_workers b @ [(setup, w, False)]\<rparr>)
             | Inr s' \<Rightarrow> (Inr kept, p',
                         b\<lparr>bt_workers := bt_workers b @ [(setup, w, True)],
                           bt_sessions := seed_resumed (ps_id p') (ps_started_at p') already s'\<rparr>)))"

definition resume_upload_session ::
  "('w, 'v, 'c, 'k, 'b) upload_env \<Rightarrow> 'w boot_env \<Rightarrow> persisted_session \<times> ('w, 'c) boot
   \<Rightarrow> (refusal + rstr list list) \<times> persisted_session \<times> ('w, 'c) boot" where
  "resume_upload_session env boot s =
     (case s of (p, b) \<Rightarrow>
        if ps_committed p \<noteq> None
        then (case cleanup_committed_session env boot p (bt_machine b) of
                (r, m) \<Rightarrow> (map_sum id (\<lambda>_. []) r, p, b\<lparr>bt_machine := m\<rparr>))
        else case readmit env boot p (bt_machine b) of
          (Inl e, m) \<Rightarrow> (Inl e, p, b\<lparr>bt_machine := m\<rparr>)
        | (Inr setup, m) \<Rightarrow>
            (case ps_push_key p of
               Some key \<Rightarrow> (case resume_push env boot key p (b\<lparr>bt_machine := m\<rparr>) of (r, b') \<Rightarrow> (r, p, b'))
             | None \<Rightarrow> resume_http env boot setup (p, b\<lparr>bt_machine := m\<rparr>)))"

section \<open>All sessions\<close>

definition failed_detail :: "rstr \<Rightarrow> rstr" where
  "failed_detail detail = lit ''resume after restart failed: '' @ detail"

text \<open>The words of a refusal.\<close>

definition refusal_text :: "('w, 'v, 'c, 'k, 'b) upload_env \<Rightarrow> refusal \<Rightarrow> rstr" where
  "refusal_text env r = ue_wording env (Bad r)"

text \<open>Reported once: the session stays for recovery and is refused again on every later boot.\<close>

definition report_once ::
  "('w, 'v, 'c, 'k, 'b) upload_env \<Rightarrow> persisted_session \<Rightarrow> refusal \<Rightarrow> 'w machine \<Rightarrow> 'w machine" where
  "report_once env p e m =
     (case queries env (\<lambda>s. Inr (interruption_reported s (ps_id p))) m of
        (Inr True, m') \<Rightarrow> m'
      | (_, m') \<Rightarrow>
          snd (stores env (set_interruption_reported (ps_id p) True)
                (commit_persisted_interruption env p (failed_detail (refusal_text env e)) m')))"

definition refuse_session ::
  "('w, 'v, 'c, 'k, 'b) upload_env \<Rightarrow> 'w boot_env \<Rightarrow> persisted_session \<Rightarrow> refusal \<Rightarrow> 'w machine
   \<Rightarrow> rstr list list \<times> 'w machine" where
  "refuse_session env boot p e m =
     (case permanent_refusal_detail env p m of
        (Some detail, m') \<Rightarrow>
          (case discard_refused_session env boot p
                  (commit_persisted_interruption env p (failed_detail detail) m') of
             (Inr _, m'') \<Rightarrow> ([], m'')
           | (Inl _, m'') \<Rightarrow> (staging_paths p, m''))
      | (None, m') \<Rightarrow>
          (staging_paths p @ (case ps_push_key p of None \<Rightarrow> [] | Some key \<Rightarrow> [push_directory p key]),
           report_once env p e m'))"

text \<open>A worker with a closed channel takes its last turn.\<close>

definition end_worker :: "('w, 'v, 'c, 'k, 'b) upload_env \<Rightarrow> nat \<Rightarrow> ('w, 'c) boot \<Rightarrow> ('w, 'c) boot" where
  "end_worker env k b =
     (case drop k (bt_workers b) of
        (setup, w, False) # rest \<Rightarrow>
          (case serve env setup False [] (w, bt_machine b) of (_, _, m) \<Rightarrow>
             b\<lparr>bt_machine := m, bt_workers := take k (bt_workers b) @ rest,
               bt_ended := bt_ended b @ [ws_session setup]\<rparr>)
      | _ \<Rightarrow> b)"

definition workers_run :: "('w, 'v, 'c, 'k, 'b) upload_env \<Rightarrow> 'w boot_env \<Rightarrow> ('w, 'c) boot \<Rightarrow> ('w, 'c) boot" where
  "workers_run env boot b = fold (end_worker env) (bo_turns boot (m_world (bt_machine b))) b"

definition restore_session ::
  "('w, 'v, 'c, 'k, 'b) upload_env \<Rightarrow> 'w boot_env \<Rightarrow> persisted_session \<Rightarrow> ('w, 'c) boot
   \<Rightarrow> rstr list list \<times> ('w, 'c) boot" where
  "restore_session env boot p b =
     (case resume_upload_session env boot (p, b) of
        (Inr kept, p', b') \<Rightarrow>
          (kept, b'\<lparr>bt_machine := snd (stores env (set_interruption_reported (ps_id p') False) (bt_machine b'))\<rparr>)
      | (Inl e, p', b1) \<Rightarrow>
          let b' = workers_run env boot b1
          in case refuse_session env boot p' e (bt_machine b') of (kept, m) \<Rightarrow> (kept, b'\<lparr>bt_machine := m\<rparr>))"

fun restore_sessions ::
  "('w, 'v, 'c, 'k, 'b) upload_env \<Rightarrow> 'w boot_env \<Rightarrow> persisted_session list \<Rightarrow> ('w, 'c) boot
   \<Rightarrow> rstr list list \<times> ('w, 'c) boot" where
  "restore_sessions env boot [] b = ([], b)"
| "restore_sessions env boot (p # ps) b =
     (case restore_session env boot p b of (kept, b') \<Rightarrow>
        (case restore_sessions env boot ps (workers_run env boot b') of (kept', b'') \<Rightarrow> (kept @ kept', b'')))"

definition restore_upload_sessions ::
  "('w, 'v, 'c, 'k, 'b) upload_env \<Rightarrow> 'w boot_env \<Rightarrow> ('w, 'c) boot \<Rightarrow> rstr list list \<times> ('w, 'c) boot" where
  "restore_upload_sessions env boot b =
     (case queries env (\<lambda>s. Inr (load_sessions s False None)) (bt_machine b) of
        (Inl _, m) \<Rightarrow> ([], b\<lparr>bt_machine := m\<rparr>)
      | (Inr ps, m) \<Rightarrow> restore_sessions env boot ps (b\<lparr>bt_machine := m\<rparr>))"

text \<open>
  Under the lease of the receiving directory, renewed before and after; then the sweep. The
  result is what was kept and the tree the sweep leaves.
\<close>

definition resume_upload_sessions ::
  "('w, 'v, 'c, 'k, 'b) upload_env \<Rightarrow> 'w boot_env \<Rightarrow> ('w, 'c) boot
   \<Rightarrow> (refusal + (rstr list list \<times> (rstr \<times> fsnode) list)) \<times> ('w, 'c) boot" where
  "resume_upload_sessions env boot b =
     (case performs (bo_renew boot) (bt_machine b) of
        (Inl e, m) \<Rightarrow> (Inl e, b\<lparr>bt_machine := m\<rparr>)
      | (Inr _, m) \<Rightarrow>
          (case restore_upload_sessions env boot (b\<lparr>bt_machine := m\<rparr>) of (kept, b1) \<Rightarrow>
             (case performs (bo_renew boot) (bt_machine b1) of
                (Inl e, m') \<Rightarrow> (Inl e, b1\<lparr>bt_machine := m'\<rparr>)
              | (Inr _, m') \<Rightarrow>
                  (Inr (kept, clean_staging (\<lambda>path. path \<in> set kept) (bo_receive_dir boot)
                                (bo_tree boot (m_world m'))),
                   b1\<lparr>bt_machine := m'\<rparr>))))"

end
