(* ===== verification/ResumeFiles.thy ===== *)
theory ResumeFiles
  imports BootRecovery UploadSystem
begin

text \<open>
  A restart continues from the resume record. The rows that a receiving worker keeps are enough
  to load the session again (\<open>resumable\<close>), and a resume that succeeds starts a worker whose files
  are the rows, one for one: what was published stays published, and a file that is not whole
  continues from exactly its checkpointed prefix (\<open>continues\<close>).
\<close>

section \<open>Loading the rows\<close>

definition rows_of :: "upload_store \<Rightarrow> rstr \<Rightarrow> ((rstr \<times> nat) \<times> persisted_file) list" where
  "rows_of s x = filter (\<lambda>((j, _), _). j = x) (us_files s)"

lemma rows_of_keys: "map (snd \<circ> fst) (rows_of s x) = own_rows s x"
proof -
  have "map (snd \<circ> fst) (filter (\<lambda>((j, _), _). j = x) m) = map snd (filter (\<lambda>k. fst k = x) (map fst m))"
    for m :: "(rstr \<times> nat, persisted_file) hmap"
    by (induction m) auto
  then show ?thesis by (simp add: rows_of_def own_rows_def)
qed

lemma map_of_rows: "map_of (rows_of s x) (x, i) = map_of (us_files s) (x, i)"
proof -
  have "map_of (filter (\<lambda>((j, _), _). j = x) m) (x, i) = map_of m (x, i)"
    for m :: "(rstr \<times> nat, persisted_file) hmap"
    by (induction m) auto
  then show ?thesis by (simp add: rows_of_def)
qed

lemma session_files_rows:
  assumes "own_rows s x = [0..<n]"
  shows "session_files s x = map (\<lambda>((_, e), f). (e, f)) (rows_of s x)"
proof -
  have "map fst (map (\<lambda>((_, e), f). (e, f)) (rows_of s x)) = [0..<n]"
    using rows_of_keys [of s x] assms by (simp add: comp_def case_prod_unfold)
  then have "sorted (map fst (map (\<lambda>((_, e), f). (e, f)) (rows_of s x)))" by simp
  from sort_key_id_if_sorted [OF this] show ?thesis
    by (simp add: session_files_def rows_of_def)
qed

lemma session_files_nth:
  assumes own: "own_rows s x = [0..<n]"
  shows "length (session_files s x) = n"
    and "i < n \<Longrightarrow> session_files s x ! i = (i, f) \<longleftrightarrow> map_of (us_files s) (x, i) = Some f"
    and "i < n \<Longrightarrow> fst (session_files s x ! i) = i"
proof -
  let ?rows = "rows_of s x"
  have keys: "map (snd \<circ> fst) ?rows = [0..<n]" using rows_of_keys [of s x] own by simp
  have same: "fst (fst r) = x" if "r \<in> set ?rows" for r
    using that by (auto simp: rows_of_def)
  have len: "length ?rows = n" using arg_cong [OF keys, of length] by simp
  show "length (session_files s x) = n" by (simp add: session_files_rows [OF own] len)
  assume i: "i < n"
  have e: "snd (fst (?rows ! i)) = i"
    using arg_cong [OF keys, of "\<lambda>xs. xs ! i"] i len by simp
  have k: "fst (?rows ! i) = (x, i)"
    using same [OF nth_mem [of i ?rows]] e i len by (simp add: prod_eq_iff)
  have d: "distinct (map fst ?rows)"
  proof -
    have "distinct (map snd (map fst ?rows))" using keys by simp
    then show ?thesis by (simp only: distinct_map)
  qed
  have "map_of (us_files s) (x, i) = Some (snd (?rows ! i))"
  proof -
    have "?rows ! i = ((x, i), snd (?rows ! i))" using k by (metis prod.collapse)
    then have "((x, i), snd (?rows ! i)) \<in> set ?rows" using i len by (metis nth_mem)
    with d have "map_of ?rows (x, i) = Some (snd (?rows ! i))" by (rule map_of_is_SomeI)
    then show ?thesis by (simp add: map_of_rows)
  qed
  moreover have "session_files s x ! i = (i, snd (?rows ! i))"
    using i len e by (simp add: session_files_rows [OF own] case_prod_unfold)
  ultimately show "session_files s x ! i = (i, f) \<longleftrightarrow> map_of (us_files s) (x, i) = Some f"
    "fst (session_files s x ! i) = i" by auto
qed

text \<open>A row as a checkpoint writes it, and the record of a session that can be loaded.\<close>

definition loadable_row :: "persisted_file \<Rightarrow> bool" where
  "loadable_row f \<longleftrightarrow>
     split_on 0 (join_with [0] (pf_stored f)) = pf_stored f \<and> clamp_object (pf_object f) = pf_object f"

definition resumable :: "upload_store \<Rightarrow> worker_setup \<Rightarrow> nat \<Rightarrow> bool" where
  "resumable s setup n \<longleftrightarrow>
     n \<le> Suc i64_max \<and> admitted_row s setup \<and> own_rows s (ws_session setup) = [0..<n]
     \<and> (\<forall>i < n. \<exists>f. map_of (us_files s) (ws_session setup, i) = Some f \<and> loadable_row f)"

lemma clamp_object_idem [simp]: "clamp_object (clamp_object x) = clamp_object x"
  by (simp add: clamp_object_def to_i64_def)

lemma coherent_loadable:
  "coherent s session i f \<Longrightarrow> \<exists>row. map_of (us_files s) (session, i) = Some row \<and> loadable_row row"
  by (auto simp: coherent_def loadable_row_def join_split)

lemma files_ok_resumable: "files_ok setup s files \<Longrightarrow> resumable s setup (length files)"
  by (auto simp: files_ok_def resumable_def dest!: spec intro: coherent_loadable)

section \<open>One file\<close>

text \<open>What a restart may change of a persisted file.\<close>

definition same_saved :: "persisted_file \<Rightarrow> persisted_file \<Rightarrow> bool" where
  "same_saved f g \<longleftrightarrow>
     pf_display_path g = pf_display_path f \<and> pf_stored g = pf_stored f \<and> pf_object g = pf_object f
     \<and> pf_staging g = pf_staging f \<and> pf_journal g = pf_journal f
     \<and> (pf_published f \<longrightarrow> pf_published g)"

definition saved_step :: "persisted_file \<times> 'w machine \<Rightarrow> persisted_file \<times> 'w machine \<Rightarrow> bool" where
  "saved_step s t \<longleftrightarrow> same_saved (fst s) (fst t) \<and> pf_prefix (fst t) = pf_prefix (fst s) \<and> store_kept s t"

lemma same_saved_refl [simp]: "same_saved f f"
  by (simp add: same_saved_def)

lemma same_saved_trans: "same_saved f g \<Longrightarrow> same_saved g h \<Longrightarrow> same_saved f h"
  by (simp add: same_saved_def)

lemma saved_step_refl [simp]: "reflp saved_step" "transp saved_step"
  by (auto simp: saved_step_def store_kept_def intro!: reflpI transpI intro: same_saved_trans)

lemma keeps_saved_world: "keeps saved_step (lifted (world_step f))"
  by (rule keepsI) (auto simp: lifted_def world_step_def saved_step_def store_kept_def split: prod.splits)

lemma mark_recovered_step: "saved_step s (mark_recovered env setup l obs s)"
  by (cases s) (auto simp: mark_recovered_def saved_step_def same_saved_def store_kept_def split: prod.split)

lemma mark_recovered_published: "pf_published (fst (mark_recovered env setup l obs s))"
  by (auto simp: mark_recovered_def split: prod.split)

lemma keeps_recover_publication: "keeps saved_step (recover_publication env setup d name)"
proof (rule keeps_body)
  fix s :: "persisted_file \<times> 'a machine"
  show "keeps saved_step (and_then (rewords (\<lambda>e. Told (lit ''recover '' @ pf_display_path (fst s) @ lit '': '' @ e))
        (lifted (world_step (wd_recover env d (pf_object (fst s)) name (persisted_resume_state (fst s))))))
       (\<lambda>observation.
     and_then (looks (\<lambda>(_, m). map_sum Told id (wd_location env d name (m_world m)))) (\<lambda>l.
     and_then (looks (\<lambda>(_, m). map_sum Told id (wd_current env l (m_world m)))) (\<lambda>_.
     and_then (looks (\<lambda>(f, m). Inr (recovered_event (unix_now env (m_world m)) (pf_display_path f) (pf_object f)))) (\<lambda>e.
     and_then (modifies (mark_recovered env setup l observation)) (\<lambda>_. yields e))))))"
    by (intro keeps_and_then keeps_rewords keeps_saved_world keeps_looks keeps_modifies keeps_yields
        mark_recovered_step saved_step_refl)
qed (simp add: recover_publication_def)

lemma recover_publication_published:
  "recover_publication env setup d name s = (Inr e, t) \<Longrightarrow> pf_published (fst t)"
  unfolding recover_publication_def and_then_Inr
  by (auto simp: mark_recovered_published)

lemma new_staged_coverage: "new_staged env setup n d c p m = (st, t) \<Longrightarrow> sf_coverage st = c"
  by (auto simp: new_staged_def park_staged_def)

lemma adopt_staging_step:
  "adopt_staging env setup n destination c s = (r, t) \<Longrightarrow>
   saved_step s t \<and> (\<exists>st. r = Inr st \<and> sf_coverage st = c)"
proof -
  assume h: "adopt_staging env setup n destination c s = (r, t)"
  obtain f m where s: "s = (f, m)" by (cases s)
  obtain st m' where n: "new_staged env setup n destination c (pf_profile f) m = (st, m')" by (rule prod.exhaust)
  from h n have "r = Inr (st\<lparr>sf_preserve := True\<rparr>)" "t = (f, m')" by (simp_all add: adopt_staging_def s)
  with new_staged_store [OF n] new_staged_coverage [OF n] show ?thesis
    by (simp add: s saved_step_def store_kept_def)
qed

lemma keeps_resume_staging: "keeps saved_step (resume_staging env setup d destination c)"
proof (rule keeps_body)
  fix s :: "persisted_file \<times> 'a machine"
  show "keeps saved_step (and_then (rewords (\<lambda>e. Told (pf_display_path (fst s) @ lit '': '' @ e))
        (lifted (world_step (wd_resume env d (pf_object (fst s)) (last destination)
           (persisted_resume_state (fst s))))))
       (\<lambda>n. adopt_staging env setup n destination c))"
    by (intro keeps_and_then keeps_rewords keeps_saved_world saved_step_refl keepsI)
      (auto dest: adopt_staging_step)
qed (simp add: resume_staging_def)

lemma resume_staging_coverage:
  "resume_staging env setup d destination c s = (Inr st, t) \<Longrightarrow> sf_coverage st = c"
  unfolding resume_staging_def and_then_Inr by (auto dest: adopt_staging_step)

lemma keeps_restored_coverage: "keeps saved_step (restored_coverage env)"
  unfolding restored_coverage_def by (intro keeps_looks saved_step_refl)

lemma keeps_restore_staging: "keeps saved_step (restore_staging env setup d destination)"
  unfolding restore_staging_def
  by (intro keeps_and_then keeps_ensures keeps_restored_coverage keeps_looks keeps_if keeps_yields
      keeps_recover_publication keeps_resume_staging saved_step_refl)

text \<open>Either the file is published by now, or its coverage is that of the checkpointed prefix.\<close>

definition starts_at :: "('w, 'v, 'c, 'k, 'b) upload_env \<Rightarrow> persisted_file \<Rightarrow> 'c \<Rightarrow> bool" where
  "starts_at env f c \<longleftrightarrow>
     co_from_runs env (pf_object f) (if pf_prefix f > 0 then [(0, pf_prefix f)] else []) = Inr c"

lemma restored_coverage_starts:
  "restored_coverage env s = (Inr c, t) \<Longrightarrow> t = s \<and> starts_at env (fst s) c"
  by (cases s) (auto simp: restored_coverage_def starts_at_def persisted_resume_state_def map_sum_def
      split: sum.splits)

lemma restore_staging_result:
  assumes "restore_staging env setup d destination s = (Inr (st, evs), t)"
  shows "pf_published (fst t) \<or> starts_at env (fst s) (sf_coverage st)"
  using assms unfolding restore_staging_def
  by (auto simp: and_then_Inr ensures_Inr split: if_splits
      dest!: restored_coverage_starts resume_staging_coverage dest: recover_publication_published)

lemma keeps_settled_file: "keeps saved_step (settled_file env)"
  unfolding settled_file_def by (intro keeps_looks saved_step_refl)

lemma keeps_restore_file: "keeps saved_step (restore_file env setup active)"
proof (rule keeps_body)
  fix s :: "persisted_file \<times> 'a machine"
  have k: "keeps saved_step ((\<lambda>(st, evs). yields (Some st, evs)) x)" for x
    by (cases x) (simp add: keeps_yields)
  show "keeps saved_step (and_then (ensures (\<lambda>(_, m). active (m_world m)) (told ''receive recovery cancelled'')) (\<lambda>_.
     and_then (checks OfPath (join_under (ws_dest_dir setup) (pf_stored (fst s)))) (\<lambda>destination.
     and_then (ensures (\<lambda>_. destination \<noteq> []) (told ''missing destination parent'')) (\<lambda>_.
     and_then (rewords Told (lifted (world_step (wd_open env (butlast destination) False)))) (\<lambda>d.
     and_then (settled_file env) (\<lambda>settled.
       if settled then yields (None, [])
       else and_then (restore_staging env setup d destination) (\<lambda>(st, evs). yields (Some st, evs))))))))"
    by (intro keeps_and_then keeps_ensures keeps_checks keeps_rewords keeps_saved_world keeps_settled_file
        keeps_if keeps_yields keeps_restore_staging k saved_step_refl)
qed (simp add: restore_file_def)

lemma restore_file_result:
  assumes "restore_file env setup active (f, m) = (Inr (native, evs), f', m')"
  shows "case native of None \<Rightarrow> pf_published f'
       | Some st \<Rightarrow> pf_published f' \<or> starts_at env f (sf_coverage st)"
proof -
  from assms obtain u d destination settled where u: "saved_step (f, m) u"
    and s: "settled_file env u = (Inr settled, u)"
    and r: "(if settled then yields (None, []) else and_then (restore_staging env setup d destination)
        (\<lambda>(st, evs). yields (Some st, evs))) u = (Inr (native, evs), f', m')"
    unfolding restore_file_def
    by (force simp: and_then_Inr ensures_Inr checks_Inr rewords_Inr settled_file_def
        dest: keepsD [OF keeps_saved_world])
  show ?thesis
  proof (cases settled)
    case True
    with r have "native = None" "u = (f', m')" by auto
    with s True show ?thesis by (auto simp: settled_file_def map_sum_def split: if_splits sum.splits)
  next
    case False
    with r obtain st where n: "native = Some st" "restore_staging env setup d destination u = (Inr (st, evs), f', m')"
      by (auto simp: and_then_Inr)
    from restore_staging_result [OF n(2)] u n(1) show ?thesis
      by (auto simp: saved_step_def same_saved_def starts_at_def)
  qed
qed

section \<open>All files\<close>

text \<open>A file against the row it was restored from: its identity, and where an unfinished one starts.\<close>

definition tracks :: "persisted_file \<Rightarrow> persisted_file \<Rightarrow> 'c file_state \<Rightarrow> bool" where
  "tracks f g file \<longleftrightarrow>
     same_saved f g \<and> fs_display file = pf_display_path f \<and> fs_stored file = join_with [0] (pf_stored f)
     \<and> fs_object file = pf_object f \<and> fs_checkpointed file = None \<and> (pf_published g \<longleftrightarrow> fs_published file)"

definition starts :: "('w, 'v, 'c, 'k, 'b) upload_env \<Rightarrow> persisted_file \<Rightarrow> 'c file_state \<Rightarrow> bool" where
  "starts env f file \<longleftrightarrow>
     fs_published file \<or> (\<exists>st. fs_native file = Some st \<and> starts_at env f (sf_coverage st))"

definition restored_as ::
  "(persisted_file \<Rightarrow> persisted_file \<Rightarrow> 'c file_state \<Rightarrow> bool) \<Rightarrow> (nat \<times> persisted_file) list
   \<Rightarrow> ('c file_state \<times> nat \<times> persisted_file) list \<Rightarrow> bool" where
  "restored_as P = list_all2 (\<lambda>(i, f) (file, j, g). j = i \<and> P f g file)"

lemma restored_as_Nil [simp]: "restored_as P [] []"
  by (simp add: restored_as_def)

lemma restored_as_Cons [simp]:
  "restored_as P ((i, f) # fs) xs \<longleftrightarrow> (\<exists>file g rest. xs = (file, i, g) # rest \<and> P f g file \<and> restored_as P fs rest)"
  by (auto simp: restored_as_def list_all2_Cons1)

lemma restored_as_mono: "restored_as P fs xs \<Longrightarrow> (\<And>f g file. P f g file \<Longrightarrow> Q f g file) \<Longrightarrow> restored_as Q fs xs"
  unfolding restored_as_def by (erule list_all2_mono) auto

lemma restored_tracks:
  assumes "saved_step (f, m) (f', m')"
  shows "tracks f f' (restored native f')"
  using assms by (simp add: tracks_def restored_def saved_step_def same_saved_def)

lemma restore_each_saved:
  "restore_each env setup active s = (r, made, saved, m') \<Longrightarrow>
   m_store m' = m_store (snd s) \<and> list_all2 (\<lambda>(i, f) (j, g). j = i \<and> same_saved f g) (fst s) saved"
proof (induction env "setup" active s arbitrary: r made saved m' rule: restore_each.induct)
  case (1 env ws active m)
  then show ?case by simp
next
  case (2 env ws active i f fs m)
  obtain q f' m1 where a: "restore_file env ws active (f, m) = (q, f', m1)" by (rule prod_cases3)
  from keepsD [OF keeps_restore_file a] have k: "same_saved f f'" "m_store m1 = m_store m"
    by (simp_all add: saved_step_def store_kept_def)
  show ?case
  proof (cases q)
    case (Inl e)
    with "2.prems" a k show ?thesis by (auto simp: list_all2_refl case_prod_unfold)
  next
    case (Inr x)
    obtain native evs where x: "x = (native, evs)" by (cases x)
    obtain r2 made2 saved2 m2 where b: "restore_each env ws active (fs, m1) = (r2, made2, saved2, m2)"
      by (rule prod_cases4)
    from "2.IH" [OF a [symmetric] Inr x [symmetric] refl b] "2.prems" a Inr x b k show ?thesis by auto
  qed
qed

lemma restore_each_made:
  "restore_each env setup active s = (Inr (), made, saved, m') \<Longrightarrow>
   length made = length saved
   \<and> restored_as (\<lambda>f g file. tracks f g file \<and> starts env f file) (fst s) (zip (map fst made) saved)"
proof (induction env "setup" active s arbitrary: made saved m' rule: restore_each.induct)
  case (1 env ws active m)
  then show ?case by simp
next
  case (2 env ws active i f fs m)
  obtain q f' m1 where a: "restore_file env ws active (f, m) = (q, f', m1)" by (rule prod_cases3)
  with "2.prems" obtain native evs where q: "q = Inr (native, evs)" by (cases q) auto
  obtain r2 made2 saved2 m2 where b: "restore_each env ws active (fs, m1) = (r2, made2, saved2, m2)"
    by (rule prod_cases4)
  with "2.prems" a q have r: "r2 = Inr ()" "made = (restored native f', evs) # made2" "saved = (i, f') # saved2"
    by auto
  note ih = "2.IH" [OF a [symmetric] q refl refl b [unfolded r(1)]]
  have "tracks f f' (restored native f')" by (rule restored_tracks [OF keepsD [OF keeps_restore_file a]])
  moreover have "starts env f (restored native f')"
    using restore_file_result [OF a [unfolded q]] by (auto simp: starts_def restored_def split: option.splits)
  ultimately show ?case using ih r by simp
qed

text \<open>A file that \<open>publish\_file\<close> returns without an error is published.\<close>

lemma settle_published: "fs_published (fst (settle env s))"
  by (auto simp: settle_def split: prod.split option.split)

lemma finish_publication_published:
  "finish_publication env setup s = (Inr x, t) \<Longrightarrow> fs_published (fst t)"
  unfolding finish_publication_def by (auto simp: and_then_Inr settle_published)

lemma publish_file_published: "publish_file env setup active s = (Inr x, t) \<Longrightarrow> fs_published (fst t)"
  unfolding publish_file_def by (auto simp: and_then_Inr dest: finish_publication_published)

lemma tracks_published:
  assumes "tracks f p file" "same_file file file'"
  shows "tracks f (saved_after env file' p) file'"
  using assms by (auto simp: tracks_def same_file_def saved_after_def same_saved_def)

lemma publish_complete_made:
  "publish_complete env setup active s = (r, xs, m') \<Longrightarrow>
   restored_as (\<lambda>f g file. tracks f g file \<and> starts env f file) fs (fst s) \<Longrightarrow>
   m_store m' = m_store (snd s) \<and> restored_as tracks fs xs
   \<and> (\<not> isl r \<longrightarrow> restored_as (\<lambda>f g file. tracks f g file \<and> starts env f file) fs xs)"
proof (induction env "setup" active s arbitrary: r xs m' fs rule: publish_complete.induct)
  case (1 env ws active m)
  then show ?case by (auto simp: restored_as_def)
next
  case (2 env ws active fl i p rest m)
  from "2.prems"(2) obtain f gs where fs: "fs = (i, f) # gs" and t: "tracks f p fl" "starts env f fl"
    and gs: "restored_as (\<lambda>f g x. tracks f g x \<and> starts env f x) gs rest"
    by (cases fs) (auto simp: restored_as_def)
  have tr: "restored_as tracks gs rest" by (rule restored_as_mono [OF gs]) simp
  show ?case
  proof (cases "is_whole env fl \<and> \<not> fs_published fl")
    case False
    obtain r2 xs2 m2 where b: "publish_complete env ws active (rest, m) = (r2, xs2, m2)" by (rule prod_cases3)
    from "2.IH"(2) [OF False b] gs "2.prems"(1) b False fs t show ?thesis by auto
  next
    case True
    obtain q fl' m1 where a: "publish_file env ws active (fl, m) = (q, fl', m1)" by (rule prod_cases3)
    from keepsD [OF keeps_publish_file a] have k: "same_file fl fl'" "m_store m1 = m_store m"
      by (simp_all add: file_step_def store_kept_def)
    note t' = tracks_published [OF t(1) k(1), of env]
    show ?thesis
    proof (cases q)
      case (Inl e)
      with "2.prems"(1) True a k t' tr fs show ?thesis by auto
    next
      case (Inr x)
      obtain r2 xs2 m2 where b: "publish_complete env ws active (rest, m1) = (r2, xs2, m2)" by (rule prod_cases3)
      have pub: "starts env f fl'" using publish_file_published [OF a [unfolded Inr]] by (simp add: starts_def)
      from "2.IH"(1) [OF True a [symmetric] Inr refl b] gs "2.prems"(1) a b True Inr fs t' k pub
      show ?thesis by (auto simp: map_sum_def split: sum.splits)
    qed
  qed
qed

end
