(* ===== verification/ResumeSystem.thy ===== *)
theory ResumeSystem
  imports ResumeFiles
begin

text \<open>
  The worker after a restart. A resume that succeeds from a record that can be loaded ends in a
  state that satisfies the worker's invariant, so resumed sessions are as good a start of the
  session's transition system as new ones (\<open>session_begins\<close>), and a crash at any moment of a
  session is survived by what its last checkpoint saved.
\<close>

section \<open>From the rows to the worker\<close>

lemma restored_as_nth:
  assumes "restored_as P fs xs"
  shows "length xs = length fs"
    "i < length fs \<Longrightarrow> P (snd (fs ! i)) (snd (snd (xs ! i))) (fst (xs ! i))"
  using assms by (auto simp: restored_as_def list_all2_conv_all_nth case_prod_unfold)

lemma tracked_coherent:
  assumes "map_of (us_files s) (x, i) = Some f" "loadable_row f" "tracks f g file"
  shows "coherent s x i file"
  using assms by (auto simp: coherent_def loadable_row_def tracks_def same_saved_def)

lemma tracked_files_ok:
  assumes res: "resumable s setup n" and fs: "fs = session_files s (ws_session setup)"
    and xs: "restored_as tracks fs xs"
  shows "files_ok setup s (map fst xs)" "length xs = n"
proof -
  have own: "own_rows s (ws_session setup) = [0..<n]" using res by (simp add: resumable_def)
  note rows = session_files_nth [OF own]
  show len: "length xs = n" using restored_as_nth(1) [OF xs] rows(1) fs by simp
  have "coherent s (ws_session setup) i (fst (xs ! i))" if i: "i < n" for i
  proof -
    from res i obtain f where f: "map_of (us_files s) (ws_session setup, i) = Some f" "loadable_row f"
      by (auto simp: resumable_def)
    with rows(2) [OF i] fs have "fs ! i = (i, f)" by simp
    with restored_as_nth(2) [OF xs, of i] i rows(1) fs have "tracks f (snd (snd (xs ! i))) (fst (xs ! i))" by simp
    with f show ?thesis by (rule tracked_coherent)
  qed
  with res own len show "files_ok setup s (map fst xs)" by (simp add: files_ok_def resumable_def)
qed

text \<open>What a checkpoint leaves of an unpublished file: all but the note of what is saved.\<close>

definition same_work :: "'c file_state \<Rightarrow> 'c file_state \<Rightarrow> bool" where
  "same_work f g \<longleftrightarrow>
     fs_display g = fs_display f \<and> fs_stored g = fs_stored f \<and> fs_object g = fs_object f
     \<and> fs_published g = fs_published f \<and> (\<not> fs_published f \<longrightarrow> fs_native g = fs_native f)"

lemma forget_publication_work: "forget_publication env (f, m) = (b, g, t) \<Longrightarrow> same_work f g"
  by (auto simp: forget_publication_def same_work_def split: if_splits option.splits prod.splits sum.splits)

lemma forget_publications_work:
  "forget_publications env s = (b, gs, t) \<Longrightarrow> list_all2 same_work (fst s) gs"
proof (induction env s arbitrary: b gs t rule: forget_publications.induct)
  case (2 env f fs m)
  obtain a g m1 where x: "forget_publication env (f, m) = (a, g, m1)" by (rule prod_cases3)
  obtain c hs m2 where y: "forget_publications env (fs, m1) = (c, hs, m2)" by (rule prod_cases3)
  from forget_publication_work [OF x] "2.IH" [OF x [symmetric] refl y] "2.prems" x y show ?case by auto
qed simp

lemma same_work_refl [simp]: "same_work f f"
  by (simp add: same_work_def)

lemma same_work_trans: "same_work f g \<Longrightarrow> same_work g h \<Longrightarrow> same_work f h"
  by (simp add: same_work_def)

lemma checkpoint_files_work:
  "checkpoint_files env setup (files, m) = (b, files', m') \<Longrightarrow> list_all2 same_work files files'"
  by (auto simp: checkpoint_files_def mark_saved_def list_all2_map2 same_work_def list.rel_refl
      split: if_splits prod.splits sum.splits intro!: list_all2_same [THEN iffD2])

lemma checkpoint_session_work:
  assumes "checkpoint_session env setup (files, m) = (b, files', m')"
  shows "list_all2 same_work files files'"
proof -
  obtain c fs n where a: "checkpoint_files env setup (files, m) = (c, fs, n)" by (rule prod_cases3)
  note w = checkpoint_files_work [OF a]
  show ?thesis
  proof (cases c)
    case True
    with assms a have "forget_publications env (fs, n) = (b, files', m')" by (simp add: checkpoint_session_def)
    from forget_publications_work [OF this] have "list_all2 same_work fs files'" by simp
    with w show ?thesis by (rule list_all2_trans [where ?P1.0 = same_work and ?P2.0 = same_work, rotated]) (rule same_work_trans)
  next
    case False
    with assms a w show ?thesis by (simp add: checkpoint_session_def)
  qed
qed

section \<open>A session resumed\<close>

text \<open>A file of the new worker continues a row: it is that file, what was published stays so, and
  otherwise its coverage is the one of the saved prefix.\<close>

definition continues :: "('w, 'v, 'c, 'k, 'b) upload_env \<Rightarrow> persisted_file \<Rightarrow> 'c file_state \<Rightarrow> bool" where
  "continues env f file \<longleftrightarrow>
     fs_display file = pf_display_path f \<and> fs_stored file = join_with [0] (pf_stored f)
     \<and> fs_object file = pf_object f \<and> (pf_published f \<longrightarrow> fs_published file) \<and> starts env f file"

lemma continues_work:
  "tracks f g file \<Longrightarrow> starts env f file \<Longrightarrow> same_work file file' \<Longrightarrow> continues env f file'"
  by (auto simp: tracks_def same_saved_def same_work_def continues_def starts_def)

lemma disarm_facts [simp]:
  "fs_display (disarm f) = fs_display f" "fs_stored (disarm f) = fs_stored f" "fs_object (disarm f) = fs_object f"
  "fs_published (disarm f) = fs_published f" "fs_checkpointed (disarm f) = fs_checkpointed f"
  by (simp_all add: disarm_def)

lemma continues_disarm: "continues env f file \<Longrightarrow> continues env f (disarm file)"
  by (auto simp: continues_def starts_def disarm_def)

lemma files_ok_disarm: "files_ok setup s (map disarm files) = files_ok setup s files"
  by (simp add: files_ok_def coherent_def)

lemma restore_files_ok:
  assumes res: "resumable (m_store m) setup n"
    and p: "ps_files p = session_files (m_store m) (ws_session setup)"
    and h: "restore_files env setup active (p, m) = (r, p', m')"
  shows "resumable (m_store m') setup n" "us_jobs (m_store m') = us_jobs (m_store m)"
    and "r = Inr (files, kept, evs) \<Longrightarrow> files_ok setup (m_store m') files \<and> length files = n
       \<and> (\<forall>i < n. \<forall>f. map_of (us_files (m_store m)) (ws_session setup, i) = Some f \<longrightarrow> continues env f (files ! i))"
proof -
  have "resumable (m_store m') setup n \<and> us_jobs (m_store m') = us_jobs (m_store m)
    \<and> (r = Inr (files, kept, evs) \<longrightarrow> files_ok setup (m_store m') files \<and> length files = n
       \<and> (\<forall>i < n. \<forall>f. map_of (us_files (m_store m)) (ws_session setup, i) = Some f \<longrightarrow> continues env f (files ! i)))"
  proof (cases "check_resume env setup p")
    case (Inl e)
    with h res show ?thesis by (auto simp: restore_files_def)
  next
    case checked: (Inr u)
    obtain q made saved m1 where a: "restore_each env setup active (ps_files p, m) = (q, made, saved, m1)"
      by (rule prod_cases4)
    from restore_each_saved [OF a] have s1: "m_store m1 = m_store m" by simp
    show ?thesis
    proof (cases q)
      case (Inl e)
      with h checked a s1 res show ?thesis by (auto simp: restore_files_def drop_files_store)
    next
      case (Inr v)
      then have q: "q = Inr ()" by simp
      note made = restore_each_made [OF a [unfolded q]]
      let ?zs = "zip (map fst made) saved"
      obtain q2 xs m2 where b: "publish_complete env setup active (?zs, m1) = (q2, xs, m2)" by (rule prod_cases3)
      have zs: "restored_as (\<lambda>f g file. tracks f g file \<and> starts env f file) (ps_files p) (fst (?zs, m1))"
        using made by simp
      note done' = publish_complete_made [OF b zs]
      obtain c files' m3 where k: "checkpoint_session env setup (map fst xs, m2) = (c, files', m3)"
        by (rule prod_cases3)
      have st: "m_store m2 = m_store m" using done' s1 by simp
      have tr: "restored_as tracks (ps_files p) xs" using done' by blast
      have ok: "files_ok setup (m_store m2) (map fst xs)" and len: "length xs = n"
        using tracked_files_ok [OF res p tr] by (simp_all add: st)
      note after = checkpoint_session_ok [OF ok k]
      have work: "list_all2 same_work (map fst xs) files'" by (rule checkpoint_session_work [OF k])
      have l': "length files' = n" using list_all2_lengthD [OF work] len by simp
      have res3: "resumable (m_store m3) setup n" using files_ok_resumable [OF after(1)] l' by simp
      show ?thesis
      proof (cases q2)
        case (Inl e)
        with h checked a q b k res3 after(2) st show ?thesis
          by (auto simp: restore_files_def drop_files_store)
      next
        case (Inr evs2)
        with h checked a q b k have r: "m' = m3" "r = Inr (files', kept_paths ?zs, concat (map snd made) @ evs2)"
          by (simp_all add: restore_files_def)
        have started: "restored_as (\<lambda>f g file. tracks f g file \<and> starts env f file) (ps_files p) xs"
          using done' Inr by simp
        have "continues env f (files' ! i)"
          if i: "i < n" and f: "map_of (us_files (m_store m)) (ws_session setup, i) = Some f" for i f
        proof -
          have own: "own_rows (m_store m) (ws_session setup) = [0..<n]" using res by (simp add: resumable_def)
          have "ps_files p ! i = (i, f)" using session_files_nth(2) [OF own i] f p by simp
          with restored_as_nth [OF started] i len have "tracks f (snd (snd (xs ! i))) (fst (xs ! i))"
            "starts env f (fst (xs ! i))" by fastforce+
          moreover have "same_work (fst (xs ! i)) (files' ! i)"
            using list_all2_nthD [OF work, of i] i len by simp
          ultimately show ?thesis by (rule continues_work)
        qed
        with r res3 after l' st show ?thesis by auto
      qed
    qed
  qed
  then show "resumable (m_store m') setup n" "us_jobs (m_store m') = us_jobs (m_store m)"
    "r = Inr (files, kept, evs) \<Longrightarrow> files_ok setup (m_store m') files \<and> length files = n
       \<and> (\<forall>i < n. \<forall>f. map_of (us_files (m_store m)) (ws_session setup, i) = Some f \<longrightarrow> continues env f (files ! i))"
    by blast+
qed

lemma new_worker_phase [simp]: "wk_phase (new_worker p b n es a t) = p"
  by (simp add: new_worker_def)

lemma resume_worker_ok:
  assumes res: "resumable (m_store m) setup n"
    and p: "ps_files p = session_files (m_store m) (ws_session setup)"
    and h: "resume_worker env setup (p, m) = (Inr (w, kept, already), p', m')"
  shows "\<exists>files. wk_phase w = Receiving files \<and> files_ok setup (m_store m') files \<and> length files = n
       \<and> (\<forall>i < n. \<forall>f. map_of (us_files (m_store m)) (ws_session setup, i) = Some f \<longrightarrow> continues env f (files ! i))"
proof -
  obtain r p2 m2 where a: "restore_files env setup (wd_live env) (p, m) = (r, p2, m2)" by (rule prod_cases3)
  with h obtain files evs where r: "r = Inr (files, kept, evs)" "m2 = m'"
    "wk_phase w = Receiving (map disarm files)"
    by (cases r) (auto simp: resume_worker_def split: prod.splits)
  from restore_files_ok(3) [OF res p a r(1)] r(2,3) show ?thesis
    by (auto simp: files_ok_disarm intro: continues_disarm)
qed

section \<open>Sessions that begin by a resume\<close>

inductive session_begins ::
  "('w, 'v, 'c, 'k, 'b) upload_env \<Rightarrow> worker_setup \<Rightarrow> 'c worker \<times> 'w machine \<Rightarrow> bool"
  for env :: "('w, 'v, 'c, 'k, 'b) upload_env" and ws :: worker_setup where
  begins_new: "session_start s \<Longrightarrow> session_begins env ws s"
| begins_resumed: "resumable (m_store m) ws n \<Longrightarrow> ps_files p = session_files (m_store m) (ws_session ws) \<Longrightarrow>
    resume_worker env ws (p, m) = (Inr (w, kept, already), p', m') \<Longrightarrow> session_begins env ws (w, m')"

lemma session_begins_ok: "session_begins env setup s \<Longrightarrow> worker_ok setup s"
proof (induction rule: session_begins.induct)
  case (begins_resumed m n p w kept already p' m')
  from resume_worker_ok [OF this] show ?case by (auto simp: worker_ok_def)
qed (rule session_start_ok)

interpretation resumed_runs: invariant_system "session_begins env ws" "session_step env ws" "worker_ok ws"
  for env :: "('w, 'v, 'c, 'k, 'b) upload_env" and ws
  by unfold_locales (auto simp: session_begins_ok intro: session_step_ok)

lemma begun_files_ok:
  assumes "reach (session_begins env setup) (session_step env setup) (w, m)" "wk_phase w = Receiving files"
  shows "files_ok setup (m_store m) files"
  using resumed_runs.reach_inv [OF assms(1)] assms(2) by (simp add: worker_ok_def)

lemma reach_begins:
  "reach session_start (session_step env setup) s \<Longrightarrow> reach (session_begins env setup) (session_step env setup) s"
  by (induction rule: reach.induct) (auto intro: reach.intros begins_new)

section \<open>Crashes\<close>

text \<open>The library: the coverage of one run from zero has that run as its prefix, and decoding
  an encoded identifier gives it back.\<close>

definition coverage_law :: "('w, 'v, 'c, 'k, 'b) upload_env \<Rightarrow> bool" where
  "coverage_law env \<longleftrightarrow>
     (\<forall>x p c. co_from_runs env x (if p > 0 then [(0, p)] else []) = Inr c \<longrightarrow> co_prefix env c = p)"

definition hex_law :: "('w, 'v, 'c, 'k, 'b) upload_env \<Rightarrow> 'w boot_env \<Rightarrow> bool" where
  "hex_law env boot \<longleftrightarrow> (\<forall>b. bo_unhex boot (ue_hex env b) = Some b)"

lemma starts_prefix:
  assumes "coverage_law env" "starts env f file" "\<not> fs_published file"
  shows "fst (file_progress env file) = pf_prefix f"
  using assms by (auto simp: starts_def starts_at_def coverage_law_def file_progress_def)

text \<open>A successful resume of an upload session has added its worker and its place in the registry.\<close>

lemma resume_http_Inr:
  assumes "resume_http env boot setup (p, b) = (Inr kept, p', b')"
  obtains w already m where "resume_worker env setup (p, bt_machine b) = (Inr (w, kept, already), p', m)"
    "bt_machine b' = m" "bt_workers b' = bt_workers b @ [(setup, w, True)]"
  using assms by (auto simp: resume_http_def Let_def split: prod.splits sum.splits)

lemma readmit_Inr:
  assumes "readmit env boot p m = (Inr setup, m')"
  obtains d c where "setup = setup_of env boot p d c" "session_bytes boot (ps_id p) = Inr c"
    "m_store m' = m_store m"
proof -
  from assms obtain d c m1 where "setup = setup_of env boot p d c" "session_bytes boot (ps_id p) = Inr c"
    and q: "find_link env (ps_link_id p) m = (Inr (Some (ps_tenant p, d)), m1)" and "m' = m1"
    unfolding readmit_def
    by (auto simp: and_then_Inr checks_Inr ensures_Inr rewords_Inr observes_def split: option.splits prod.splits)
  moreover have "m_store m1 = m_store m"
    using q by (auto simp: find_link_def dest: queries_Inr)
  ultimately show thesis using that by blast
qed

text \<open>The setup that the boot derives from the row of a session serves the same session.\<close>

lemma resumable_readmitted:
  assumes ok: "files_ok setup s files" and row: "map_of (us_sessions s) (ws_session setup) = Some r"
    and su: "setup' = setup_of env boot (load_row s (ws_session setup, r)) d c" "ue_hex env c = ws_session setup"
  shows "resumable s setup' (length files)" "ws_session setup' = ws_session setup"
    "ws_tenant setup' = ws_tenant setup" "ws_link setup' = ws_link setup"
  using files_ok_resumable [OF ok] row su
  by (auto simp: resumable_def admitted_row_def setup_of_def load_row_def)

lemma resume_after_crash:
  assumes ok: "files_ok setup (m_store (bt_machine b)) files"
    and row: "map_of (us_sessions (m_store (bt_machine b))) (ws_session setup) = Some r"
    and hex: "hex_law env boot" "ws_session setup = ue_hex env i"
    and h: "resume_upload_session env boot (load_row (m_store (bt_machine b)) (ws_session setup, r), b)
      = (Inr kept, p', b')"
  obtains setup' w files' where "bt_workers b' = bt_workers b @ [(setup', w, True)]"
    "session_begins env setup' (w, bt_machine b')" "wk_phase w = Receiving files'"
    "ws_session setup' = ws_session setup" "ws_tenant setup' = ws_tenant setup" "ws_link setup' = ws_link setup"
    "length files' = length files"
    "\<And>j f. j < length files \<Longrightarrow> map_of (us_files (m_store (bt_machine b))) (ws_session setup, j) = Some f
       \<Longrightarrow> continues env f (files' ! j)"
proof -
  let ?s = "m_store (bt_machine b)"
  let ?p = "load_row ?s (ws_session setup, r)"
  have adm: "sn_committed r = None" "sn_push_key r = None"
    using ok row by (auto simp: files_ok_def admitted_row_def)
  then have p: "ps_committed ?p = None" "ps_push_key ?p = None" "ps_id ?p = ws_session setup"
    "ps_files ?p = session_files ?s (ws_session setup)"
    by (simp_all add: load_row_def)
  obtain q m1 where a: "readmit env boot ?p (bt_machine b) = (q, m1)" by (rule prod.exhaust)
  with h p obtain setup' where q: "q = Inr setup'"
    and http: "resume_http env boot setup' (?p, b\<lparr>bt_machine := m1\<rparr>) = (Inr kept, p', b')"
    by (cases q) (auto simp: resume_upload_session_def)
  obtain d c where su: "setup' = setup_of env boot ?p d c" "session_bytes boot (ps_id ?p) = Inr c"
    and s1: "m_store m1 = ?s" by (rule readmit_Inr [OF a [unfolded q]])
  have c: "ue_hex env c = ws_session setup"
    using su(2) hex p(3) by (auto simp: session_bytes_def hex_law_def split: option.splits if_splits)
  note serves = resumable_readmitted [OF ok row su(1) c]
  obtain w already m2 where
    w': "resume_worker env setup' (?p, bt_machine (b\<lparr>bt_machine := m1\<rparr>)) = (Inr (w, kept, already), p', m2)"
      "bt_machine b' = m2" "bt_workers b' = bt_workers (b\<lparr>bt_machine := m1\<rparr>) @ [(setup', w, True)]"
    by (rule resume_http_Inr [OF http])
  then have w: "resume_worker env setup' (?p, m1) = (Inr (w, kept, already), p', m2)"
    and b': "bt_machine b' = m2" "bt_workers b' = bt_workers b @ [(setup', w, True)]" by simp_all
  have res: "resumable (m_store m1) setup' (length files)" using serves(1) s1 by simp
  have pf: "ps_files ?p = session_files (m_store m1) (ws_session setup')" using p(4) serves(2) s1 by simp
  obtain files' where f: "wk_phase w = Receiving files'" "length files' = length files"
    "\<forall>j < length files. \<forall>f. map_of (us_files (m_store m1)) (ws_session setup', j) = Some f \<longrightarrow> continues env f (files' ! j)"
    using resume_worker_ok [OF res pf w] by blast
  have "session_begins env setup' (w, m2)" by (rule begins_resumed [OF res pf w])
  with that [OF b'(2) _ f(1) serves(2,3,4) f(2)] f(3) b'(1) serves(2) s1 show thesis by simp
qed

end
