(* ===== verification/UploadProperties.thy ===== *)
theory UploadProperties
  imports UploadDemo ResumeSystem
begin

text \<open>
  What a sender and the owner of a link can rely on, in a session that began anew or by a resume
  after a restart: checkpoints are truthful, a session that
  ends has either left its resume record or has recorded every published file, a report is only
  given for a whole package, and what a suspended session left behind.
\<close>

section \<open>Checkpoints\<close>

text \<open>C3: While files are being received, the session's row is in the store, uncommitted and of the
  right tenant and link, and every file has a row with its name, its stored name and its object;
  what the worker believes to be checkpointed is what that row says, and a row marked published
  stands for a published file.\<close>

theorem checkpoints_are_truthful:
  assumes "reach (session_begins env setup) (session_step env setup) (w, m)" "wk_phase w = Receiving files"
  shows "(\<exists>r. map_of (us_sessions (m_store m)) (ws_session setup) = Some r \<and> sn_committed r = None
            \<and> sn_tenant r = ws_tenant setup \<and> sn_link_id r = ws_link setup)
       \<and> (\<forall>i < length files. \<exists>row. map_of (us_files (m_store m)) (ws_session setup, i) = Some row
            \<and> pf_display_path row = fs_display (files ! i) \<and> pf_stored row = split_on 0 (fs_stored (files ! i))
            \<and> pf_object row = clamp_object (fs_object (files ! i))
            \<and> (\<forall>p b r. fs_checkpointed (files ! i) = Some (p, b, r) \<longrightarrow>
                 pf_prefix row = to_i64 p \<and> pf_published row = b \<and> pf_receipt row = r)
            \<and> (pf_published row \<longrightarrow> fs_published (files ! i)))"
  using begun_files_ok [OF assms]
  by (auto simp: files_ok_def admitted_row_def coherent_def row_says_def)

section \<open>The end of a session\<close>

text \<open>C1: However a session ends, by a finish, an abort, a suspension or the exit of an idle
  worker, no published file is lost: the session's resume row is still there, or every file that
  was published is listed in a record of the link.\<close>

theorem no_published_file_is_lost:
  assumes run: "reach (session_begins env setup) (session_step env setup) (w, m)"
    and w: "wk_phase w = Receiving files"
    and ending: "t \<in> {snd (finish_step env setup (w, m)), snd (abort_step env setup (w, m)),
                  snd (suspend_step env setup (w, m)), worker_exit env setup (w, m)}"
    and f: "f \<in> set files" "fs_published f"
  shows "map_of (us_sessions (m_store (snd t))) (ws_session setup) \<noteq> None
    \<or> recorded (m_store (snd t)) (ws_tenant setup) (ws_link setup) (file_record_of env setup f)"
proof -
  have ok: "files_ok setup (m_store m) files" by (rule begun_files_ok [OF run w])
  have "accounted env setup (m_store (snd t)) files"
    by (rule ending_accounted [OF ok w ending])
  with f show ?thesis by (auto simp: accounted_def admitted_row_def)
qed

text \<open>C2: A finished session reports its whole package: every file was published, the report lists
  them in the order of the package, the link has a complete record with exactly these files, and
  the session's row is gone or committed to that record.\<close>

theorem finish_records_the_package:
  assumes run: "reach (session_begins env setup) (session_step env setup) (w, m)"
    and w: "wk_phase w = Receiving files"
    and fin: "finish_step env setup (w, m) = (Inr (Report rep), w', m')"
  shows "(\<forall>f \<in> set files. fs_published f) \<and> rep_files rep = map (file_record_of env setup) files
    \<and> rep_received rep = wk_received w \<and> wk_phase w' = Done
    \<and> (\<exists>row. map_of (link_uploads (us_jobs (m_store m'))) (ws_tenant setup, ws_link setup, rep_upload_id rep) = Some row
          \<and> up_files row = rep_files rep \<and> \<not> up_partial row)
    \<and> (map_of (us_sessions (m_store m')) (ws_session setup) = None
          \<or> (\<exists>r. map_of (us_sessions (m_store m')) (ws_session setup) = Some r
                \<and> sn_committed r = Some (rep_upload_id rep)))"
  by (rule finish_step_report [OF begun_files_ok [OF run w] w fin])

text \<open>C4: A cancelled session is closed only when nothing is left in doubt: no file may have been
  installed without the worker knowing, and every published file is on record. Otherwise the
  sender is told that the recovery metadata was kept, and the resume row is still there.\<close>

theorem cancellation_is_honest:
  assumes run: "reach (session_begins env setup) (session_step env setup) (w, m)"
    and w: "wk_phase w = Receiving files"
    and ab: "abort_step env setup (w, m) = (r, w', m')"
  shows "r = Inr Closed \<and> (\<forall>f \<in> set files. \<not> unresolved_file env (m_world m) f
            \<and> (fs_published f \<longrightarrow>
                recorded (m_store m') (ws_tenant setup) (ws_link setup) (file_record_of env setup f)))
      \<or> r = Inl retained_error \<and> map_of (us_sessions (m_store m')) (ws_session setup) \<noteq> None"
  using abort_step_outcome(1) [OF begun_files_ok [OF run w] w ab] .

text \<open>C5: A suspended session that was closed can be resumed where it stood: its row is there, and
  the row of every file holds exactly the verified prefix, the publication and the receipt that
  the worker had.\<close>

theorem suspension_saves_progress:
  assumes run: "reach (session_begins env setup) (session_step env setup) (w, m)"
    and w: "wk_phase w = Receiving files"
    and sus: "suspend_step env setup (w, m) = (Inr Closed, w', m')"
    and i: "i < length files" "file_progress env (files ! i) = (p, b, r)"
  shows "map_of (us_sessions (m_store m')) (ws_session setup) \<noteq> None
    \<and> (\<exists>row. map_of (us_files (m_store m')) (ws_session setup, i) = Some row
         \<and> pf_prefix row = to_i64 p \<and> pf_published row = b \<and> pf_receipt row = r)"
  using suspend_step_saves [OF begun_files_ok [OF run w] w sus i] .

section \<open>Witnesses\<close>

lemma demo4_run: "reach (session_begins demo_env demo_setup) (session_step demo_env demo_setup) (fst demo4, snd demo4)"
  and demo5_run: "reach (session_begins demo_env demo_setup) (session_step demo_env demo_setup) (fst demo5, snd demo5)"
  using demo_session_reach by (simp_all add: reach_begins)

lemma demo4_first: "receiving demo4 ! 0 \<in> set (receiving demo4)"
  by (rule nth_mem) (simp add: demo_receiving)

theorem checkpoints_are_truthful_witness:
  "(\<exists>r. map_of (us_sessions (m_store (snd demo4))) (lit ''xxxxxxxxxxxxxxxx'') = Some r \<and> sn_committed r = None)
   \<and> (\<exists>row. map_of (us_files (m_store (snd demo4))) (lit ''xxxxxxxxxxxxxxxx'', 1) = Some row \<and> \<not> pf_published row)"
proof -
  have x: "ws_session demo_setup = lit ''xxxxxxxxxxxxxxxx''" by (simp add: demo_setup_def)
  have one: "1 < length (receiving demo4)" by (simp add: demo_receiving)
  from checkpoints_are_truthful [OF demo4_run demo_phase(2)] one demo4_files(2) show ?thesis
    unfolding x by blast
qed

theorem no_published_file_is_lost_witness:
  "\<exists>f. fs_published f \<and>
     (map_of (us_sessions (m_store (snd (worker_exit demo_env demo_setup demo4)))) (lit ''xxxxxxxxxxxxxxxx'') \<noteq> None
      \<or> recorded (m_store (snd (worker_exit demo_env demo_setup demo4))) [] (lit ''l'') (file_record_of demo_env demo_setup f))"
proof -
  have e: "worker_exit demo_env demo_setup demo4 \<in> {snd (finish_step demo_env demo_setup (fst demo4, snd demo4)),
      snd (abort_step demo_env demo_setup (fst demo4, snd demo4)),
      snd (suspend_step demo_env demo_setup (fst demo4, snd demo4)),
      worker_exit demo_env demo_setup (fst demo4, snd demo4)}" by simp
  from no_published_file_is_lost [OF demo4_run demo_phase(2) e demo4_first demo4_files(1)] demo4_files(1)
  show ?thesis by (auto simp: demo_setup_def)
qed

theorem finish_records_the_package_witness:
  "\<exists>rep w' m'. finish_step demo_env demo_setup demo5 = (Inr (Report rep), w', m') \<and> length (rep_files rep) = 2"
proof -
  have "reported (fst (finish_step demo_env demo_setup demo5))" using demo_facts by blast
  then obtain rep w' m' where f: "finish_step demo_env demo_setup (fst demo5, snd demo5) = (Inr (Report rep), w', m')"
    by (cases "finish_step demo_env demo_setup demo5") (auto simp: reported_def split: sum.splits reply.splits)
  from finish_records_the_package [OF demo5_run demo_phase(3) f] f show ?thesis
    by (auto simp: demo_receiving)
qed

theorem cancellation_is_honest_witness:
  "recorded (m_store (snd (snd (abort_step demo_env demo_setup demo4)))) [] (lit ''l'')
     (file_record_of demo_env demo_setup (receiving demo4 ! 0))"
proof -
  obtain r w' m' where a: "abort_step demo_env demo_setup (fst demo4, snd demo4) = (r, w', m')" by (rule prod_cases3)
  have "fst (abort_step demo_env demo_setup demo4) = Inr Closed" using demo_facts repliedD by blast
  with a have "r = Inr Closed" by simp
  with cancellation_is_honest [OF demo4_run demo_phase(2) a] a demo4_first demo4_files(1) show ?thesis
    by (auto simp: demo_setup_def)
qed

theorem suspension_saves_progress_witness:
  "\<exists>row. map_of (us_files (m_store (snd (snd (suspend_step demo_env demo_setup demo4))))) (lit ''xxxxxxxxxxxxxxxx'', 0) = Some row
     \<and> pf_prefix row = 3 \<and> pf_published row"
proof -
  obtain r w' m' where s: "suspend_step demo_env demo_setup (fst demo4, snd demo4) = (r, w', m')" by (rule prod_cases3)
  have "fst (suspend_step demo_env demo_setup demo4) = Inr Closed" using demo_facts repliedD by blast
  with s have c: "suspend_step demo_env demo_setup (fst demo4, snd demo4) = (Inr Closed, w', m')" by simp
  have x: "ws_session demo_setup = lit ''xxxxxxxxxxxxxxxx''" by (simp add: demo_setup_def)
  have "0 < length (receiving demo4)" by (simp add: demo_receiving)
  from suspension_saves_progress [OF demo4_run demo_phase(2) c this demo4_files(3)] s show ?thesis
    by (auto simp: x to_i64_def i64_max_def)
qed

end
