(* ===== verification/UploadBegin.thy ===== *)
theory UploadBegin
  imports UploadSystem
begin

text \<open>
  What \<open>handle\_begin\<close> admits. A package that is received has as many files as it announced
  entries, in the same order, within the caps of its link (\<open>receive_package_admits\<close>), and every
  file that is not there already has a stored name of its own whose key no unfinished upload
  of the tenant claims (\<open>receive_package_claims\<close>).
\<close>

section \<open>Preparing in any order\<close>

text \<open>The scheduler runs every item of the work list once.\<close>

definition schedule_law :: "('w, 'v, 'c, 'k, 'b) upload_env \<Rightarrow> bool" where
  "schedule_law env \<longleftrightarrow> (\<forall>n w. distinct (schedule env n w) \<and> set (schedule env n w) = {0..<n})"

lemma preparation_order_all:
  "schedule_law env \<Longrightarrow> distinct (preparation_order env n w) \<and> set (preparation_order env n w) = {0..<n}"
  by (simp add: preparation_order_def schedule_law_def)

lemma prepare_in_invariant:
  assumes step: "\<And>i made s a t. i \<in> set js \<Longrightarrow> I made s \<Longrightarrow> f i s = (Inr a, t) \<Longrightarrow> I (made @ [(i, a)]) t"
    and "I made s" "prepare_in f js made s = (None, made', t)"
  shows "I made' t \<and> map fst made' = map fst made @ js"
  using assms
proof (induction js arbitrary: made s)
  case (Cons i js)
  obtain q u where f: "f i s = (q, u)" by (rule prod.exhaust)
  with Cons.prems(3) obtain a where q: "q = Inr a" "prepare_in f js (made @ [(i, a)]) u = (None, made', t)"
    by (cases q) auto
  have "I (made @ [(i, a)]) u" using Cons.prems(1) [of i made s a u] Cons.prems(2) f q(1) by simp
  from Cons.IH [OF _ this q(2)] Cons.prems(1) show ?case by auto
qed simp

text \<open>Sorting by index puts the results back in the order of the work list.\<close>

lemma in_order_nth:
  assumes "distinct (map fst made)" "set (map fst made) = {0..<n}"
  shows "length (in_order made) = n" "i < n \<Longrightarrow> (i, in_order made ! i) \<in> set made"
proof -
  have s: "map fst (sort_key fst made) = [0..<n]"
    by (rule sorted_distinct_set_unique) (use assms in \<open>auto simp: distinct_map\<close>)
  from arg_cong [OF s, of length] show len: "length (in_order made) = n" by (simp add: in_order_def)
  assume i: "i < n"
  with len have l: "i < length (sort_key fst made)" by (simp add: in_order_def)
  have "sort_key fst made ! i = (i, in_order made ! i)"
    using arg_cong [OF s, of "\<lambda>xs. xs ! i"] l i by (simp add: in_order_def prod_eq_iff)
  with nth_mem [OF l] show "(i, in_order made ! i) \<in> set made" by simp
qed

section \<open>One file\<close>

text \<open>The key under which a file claims its name, as \<open>pending\_upload\_claims\<close> computes it.\<close>

definition claim_key :: "('w, 'v, 'c, 'k, 'b) upload_env \<Rightarrow> worker_setup \<Rightarrow> 'c file_state \<Rightarrow> session_error + rstr" where
  "claim_key env setup f = stored_path_key env (ws_dest_rel setup) (split_on 0 (fs_stored f))"

definition nul_free :: "rstr list \<Rightarrow> bool" where
  "nul_free cs \<longleftrightarrow> (\<forall>c \<in> set cs. 0 \<notin> set c)"

lemma with_suffix_nul: "0 \<notin> set name \<Longrightarrow> 0 \<notin> set (with_suffix name a)"
proof (cases "a > 0")
  case True
  assume n: "0 \<notin> set name"
  obtain stem e where s: "stem_extension name = (stem, e)" by (rule prod.exhaust)
  from n s have p: "0 \<notin> set stem" "\<And>x. e = Some x \<Longrightarrow> 0 \<notin> set x"
    by (auto simp: stem_extension_def simp: rsplit_once_Some split: option.splits if_splits)
  have "0 \<notin> set (show_nat a)"
    using show_nat_digits [of a] by (auto simp: list_all_iff is_ascii_digit_def)
  with p have "0 \<notin> set (suffix_of e a)" by (auto simp: suffix_of_def lit_def split: option.splits)
  moreover have "0 \<notin> set (byte_prefix stem k)" for k
    using p(1) byte_prefix_prefix [of stem k] by (auto dest: set_mono_prefix)
  ultimately show ?thesis by (simp add: with_suffix_shape [OF True s])
qed (simp add: with_suffix_def)

lemma stored_split:
  assumes "nul_free components" "components \<noteq> []"
  shows "split_on 0 (join_with [0] (butlast components @ [with_suffix (last components) a]))
    = butlast components @ [with_suffix (last components) a]"
proof (rule split_join)
  have "0 \<notin> set (last components)" using assms by (simp add: nul_free_def)
  then have "0 \<notin> set (with_suffix (last components) a)" by (rule with_suffix_nul)
  with assms(1) show "\<forall>w \<in> set (butlast components @ [with_suffix (last components) a]). 0 \<notin> set w"
    by (auto simp: nul_free_def dest: in_set_butlastD)
qed simp

definition made_from :: "entry \<Rightarrow> 'c file_state \<Rightarrow> bool" where
  "made_from e f \<longleftrightarrow> fs_display f = join_with [47] (fst e) \<and> fs_object f = snd e"

lemma try_name_taken:
  assumes "try_name env setup d components object a (taken, m) = (Inr None, taken', m')"
  shows "taken' = taken"
  using assms
  by (auto simp: try_name_def step_defs Let_def removeAll_id
      split: prod.splits sum.splits if_splits create_error.splits)

lemma try_name_made:
  assumes "try_name env setup d components object a (taken, m) = (Inr (Some f), taken', m')"
    and c: "nul_free components" "components \<noteq> []"
  obtains key where "claim_key env setup f = Inr key" "key \<notin> set taken" "taken' = key # taken"
    "made_from (components, object) f" "\<not> fs_published f" "fs_native f \<noteq> None"
proof -
  let ?stored = "butlast components @ [with_suffix (last components) a]"
  from assms(1) obtain key destination profile n m1 where
    k: "stored_path_key env (ws_dest_rel setup) ?stored = Inr key" "key \<notin> set taken" "taken' = key # taken"
    and f: "fresh_file env setup components ?stored object destination profile n m1 = (f, m')"
    by (auto simp: try_name_def step_defs Let_def
        split: prod.splits sum.splits if_splits create_error.splits)
  from f have "fs_stored f = join_with [0] ?stored" "made_from (components, object) f" "\<not> fs_published f"
    "fs_native f \<noteq> None"
    by (auto simp: fresh_file_def made_from_def split: prod.splits)
  with k that show thesis by (simp add: claim_key_def stored_split [OF c])
qed

lemma try_names_made:
  assumes "try_names env setup d components object as (taken, m) = (Inr f, taken', m')"
    and c: "nul_free components" "components \<noteq> []"
  obtains key where "claim_key env setup f = Inr key" "key \<notin> set taken" "taken' = key # taken"
    "made_from (components, object) f" "\<not> fs_published f" "fs_native f \<noteq> None"
  using assms(1)
proof (induction as arbitrary: m thesis)
  case (Cons a as)
  obtain q t n where t: "try_name env setup d components object a (taken, m) = (q, t, n)" by (rule prod_cases3)
  show ?case
  proof (cases q)
    case (Inl e)
    with Cons.prems t show ?thesis by simp
  next
    case (Inr x)
    show ?thesis
    proof (cases x)
      case None
      from t Inr None have r: "try_names env setup d components object as (taken, n) = (Inr f, taken', m')"
        using Cons.prems(2) try_name_taken [of env "setup" d components object a taken m t n] by simp
      show ?thesis by (rule Cons.IH [OF Cons.prems(1) r])
    next
      case (Some g)
      with Cons.prems(2) t Inr have g: "g = f" "t = taken'" "n = m'" by simp_all
      show ?thesis by (rule try_name_made [OF t [unfolded Inr Some] c]) (use Cons.prems(1) g in auto)
    qed
  qed
qed simp

lemma prepare_file_made:
  assumes "prepare_file env setup active e existing (taken, m) = (Inr f, taken', m')"
    and c: "nul_free (fst e)" "fst e \<noteq> []"
  obtains (there) receipt where "existing = Some receipt" "f = delivered_file e receipt" "taken' = taken"
    | (fresh) key where "existing = None" "claim_key env setup f = Inr key" "key \<notin> set taken"
      "taken' = key # taken" "made_from e f" "\<not> fs_published f" "fs_native f \<noteq> None"
proof (cases existing)
  case (Some receipt)
  with assms(1) there show thesis
    by (auto simp: prepare_file_def step_defs split: if_splits)
next
  case None
  with assms(1) have "open_destination_for env setup (fst e) (snd e) (taken, m) = (Inr f, taken', m')"
    by (auto simp: prepare_file_def step_defs split: if_splits)
  then obtain d n where "try_names env setup d (fst e) (snd e) [0..<MAX_NAME_ATTEMPTS] (taken, n) = (Inr f, taken', m')"
    by (auto simp: open_destination_for_def and_then_Inr checks_Inr rewords_Inr lifted_simp)
  from try_names_made [OF this c] None fresh show thesis by (metis prod.collapse)
qed

section \<open>All files\<close>

text \<open>While files are prepared: each comes from its entry, and each new one claims a key of its
  own, taken neither before nor by another.\<close>

definition fresh_in :: "(nat \<times> 'c file_state) list \<Rightarrow> (nat \<times> 'c file_state) set" where
  "fresh_in made = {x \<in> set made. \<not> fs_published (snd x)}"

definition claims_ok ::
  "('w, 'v, 'c, 'k, 'b) upload_env \<Rightarrow> worker_setup \<Rightarrow> rstr list \<Rightarrow> rstr list \<Rightarrow> (nat \<times> 'c file_state) list \<Rightarrow> bool" where
  "claims_ok env setup taken0 taken made \<longleftrightarrow>
     set taken0 \<subseteq> set taken
     \<and> (\<forall>x \<in> fresh_in made. \<exists>key. claim_key env setup (snd x) = Inr key \<and> key \<in> set taken \<and> key \<notin> set taken0)
     \<and> (\<forall>x \<in> fresh_in made. \<forall>y \<in> fresh_in made. fst x \<noteq> fst y \<longrightarrow>
          claim_key env setup (snd x) \<noteq> claim_key env setup (snd y))"

lemma fresh_in_snoc:
  "fresh_in (made @ [(i, f)]) = (if fs_published f then fresh_in made else insert (i, f) (fresh_in made))"
  by (auto simp: fresh_in_def)

lemma claims_ok_fresh:
  assumes "claims_ok env setup taken0 taken made" "claim_key env setup f = Inr key" "key \<notin> set taken"
    "\<not> fs_published f"
  shows "claims_ok env setup taken0 (key # taken) (made @ [(i, f)])"
proof -
  have other: "claim_key env setup (snd x) \<noteq> claim_key env setup f" if "x \<in> fresh_in made" for x
    using assms(1-3) that unfolding claims_ok_def by fastforce
  have sub: "set taken0 \<subseteq> set taken" using assms(1) by (simp add: claims_ok_def)
  show ?thesis
    unfolding claims_ok_def
  proof (intro conjI ballI impI)
    show "set taken0 \<subseteq> set (key # taken)" using sub by auto
  next
    fix x assume "x \<in> fresh_in (made @ [(i, f)])"
    with assms(4) consider "x = (i, f)" | "x \<in> fresh_in made" by (auto simp: fresh_in_snoc)
    then show "\<exists>k. claim_key env setup (snd x) = Inr k \<and> k \<in> set (key # taken) \<and> k \<notin> set taken0"
    proof cases
      case 1
      with assms(2,3) sub show ?thesis by auto
    next
      case 2
      with assms(1) show ?thesis unfolding claims_ok_def by fastforce
    qed
  next
    fix x y assume "x \<in> fresh_in (made @ [(i, f)])" "y \<in> fresh_in (made @ [(i, f)])" "fst x \<noteq> fst y"
    with assms(1,4) other show "claim_key env setup (snd x) \<noteq> claim_key env setup (snd y)"
      unfolding claims_ok_def fresh_in_snoc by (metis fst_conv insertE snd_conv)
  qed
qed

lemma claims_ok_there:
  "claims_ok env setup taken0 taken made \<Longrightarrow> fs_published f \<Longrightarrow> claims_ok env setup taken0 taken (made @ [(i, f)])"
  by (simp add: claims_ok_def fresh_in_snoc)

lemma delivered_file_made: "made_from e (delivered_file e receipt)" "fs_published (delivered_file e receipt)"
  by (simp_all add: delivered_file_def made_from_def)

lemma prepared_files:
  fixes env :: "('w, 'v, 'c, 'k, 'b) upload_env"
  assumes law: "distinct js" "set js = {0..<length entries}"
    and names: "\<forall>e \<in> set entries. nul_free (fst e) \<and> fst e \<noteq> []"
    and run: "prepare_in (\<lambda>i. prepare_file env setup active (entries ! i) (existing ! i)) js [] (taken0, m)
      = (None, made, taken, m')"
  shows "list_all2 made_from entries (in_order made)"
    and "claims_ok env setup taken0 taken made" "map fst made = js"
proof -
  define I where "I made s \<longleftrightarrow>
      (\<forall>x \<in> set made. made_from (entries ! fst x) (snd x)) \<and> claims_ok env setup taken0 (fst s) made"
    for made and s :: "rstr list \<times> 'w machine"
  have "I made (taken, m') \<and> map fst made = map fst ([] :: (nat \<times> 'c file_state) list) @ js"
  proof (rule prepare_in_invariant [where I = I and made = "[]", OF _ _ run])
    show "I [] (taken0, m)" by (simp add: I_def claims_ok_def fresh_in_def)
  next
    fix i made s f t
    assume i: "i \<in> set js" and inv: "I made s"
      and h: "prepare_file env setup active (entries ! i) (existing ! i) s = (Inr f, t)"
    obtain tk n tk' n' where st: "s = (tk, n)" "t = (tk', n')" by (cases s; cases t)
    from i law(2) have "i < length entries" by auto
    with names have "nul_free (fst (entries ! i))" "fst (entries ! i) \<noteq> []" by auto
    with h [unfolded st] show "I (made @ [(i, f)]) t"
    proof (cases rule: prepare_file_made)
      case (there receipt)
      with inv st show ?thesis by (auto simp: I_def delivered_file_made intro: claims_ok_there)
    next
      case (fresh key)
      with inv st show ?thesis by (auto simp: I_def intro: claims_ok_fresh)
    qed
  qed
  then have inv: "I made (taken, m')" and js: "map fst made = js" by simp_all
  from inv show "claims_ok env setup taken0 taken made" by (simp add: I_def)
  show "map fst made = js" by (rule js)
  note nth = in_order_nth [of made "length entries", unfolded js, OF law]
  show "list_all2 made_from entries (in_order made)"
  proof (rule list_all2_all_nthI)
    show "length entries = length (in_order made)" using nth(1) by simp
    fix i assume "i < length entries"
    with inv nth(2) show "made_from (entries ! i) (in_order made ! i)" unfolding I_def by fastforce
  qed
qed

text \<open>The same, by position in the session's list of files.\<close>

lemma prepared_claims:
  assumes law: "distinct js" "set js = {0..<length entries}"
    and ok: "claims_ok env setup taken0 taken made" and js: "map fst made = js"
    and i: "i < length entries" "\<not> fs_published (in_order made ! i)"
  shows "\<exists>key. claim_key env setup (in_order made ! i) = Inr key \<and> key \<notin> set taken0"
    and "j < length entries \<Longrightarrow> \<not> fs_published (in_order made ! j) \<Longrightarrow> i \<noteq> j \<Longrightarrow>
      claim_key env setup (in_order made ! i) \<noteq> claim_key env setup (in_order made ! j)"
proof -
  note nth = in_order_nth(2) [of made "length entries", unfolded js, OF law]
  have mem: "(k, in_order made ! k) \<in> fresh_in made" if "k < length entries" "\<not> fs_published (in_order made ! k)" for k
    using nth [OF that(1)] that(2) by (simp add: fresh_in_def)
  from ok mem [OF i] show "\<exists>key. claim_key env setup (in_order made ! i) = Inr key \<and> key \<notin> set taken0"
    unfolding claims_ok_def by fastforce
  show "claim_key env setup (in_order made ! i) \<noteq> claim_key env setup (in_order made ! j)"
    if "j < length entries" "\<not> fs_published (in_order made ! j)" "i \<noteq> j"
    using ok mem [OF i] mem [OF that(1,2)] that(3) unfolding claims_ok_def by fastforce
qed

section \<open>Queries leave the tables alone\<close>

definition kept :: "'w machine \<Rightarrow> 'w machine \<Rightarrow> bool" where
  "kept m m' \<longleftrightarrow> m_store m' = m_store m"

lemma machine_kept_refl [simp]: "reflp kept" "transp kept"
  by (auto simp: kept_def intro: reflpI transpI)

lemma keeps_queries [keeps_rules]: "keeps kept (queries env f)"
proof (rule keepsI)
  fix s r t assume "queries env f s = (r, t)"
  then show "kept s t"
    by (cases "f (m_store s)") (auto simp: kept_def queries_def transact_def split: prod.splits if_splits)
qed

lemma keeps_candidates [keeps_rules]: "keeps kept (candidates_page env setup object after)"
  unfolding candidates_page_def by (intro keeps_rewords keeps_queries)

lemma find_delivered_kept:
  "find_delivered env ws active object announced cur m = (r, t) \<Longrightarrow> kept m t"
proof (induction env ws active object announced cur m arbitrary: r t rule: find_delivered.induct)
  case (1 env ws active object announced cur m)
  obtain q n where c: "candidates_page env ws object cur m = (q, n)" by (rule prod.exhaust)
  with keeps_candidates have k: "kept m n" by (rule keepsD)
  show ?case
  proof (cases "active (m_world m) \<and> \<not> isl q")
    case False
    with "1.prems" c k show ?thesis
      by (cases q) (auto simp: find_delivered.simps [of env ws active object announced cur m] kept_def split: if_splits)
  next
    case True
    then obtain page where q: "q = Inr page" by (cases q) auto
    show ?thesis
    proof (cases "\<exists>after'. scan_page env ws object announced active (m_world n) page cur = Inr (None, after')
        \<and> \<not> length page < DELIVERED_CANDIDATE_PAGE")
      case False
      with "1.prems" c k q True show ?thesis
        by (auto simp: find_delivered.simps [of env ws active object announced cur m]
            split: sum.splits option.splits prod.splits if_splits)
    next
      case again: True
      then obtain after' where a: "scan_page env ws object announced active (m_world n) page cur = Inr (None, after')"
        by blast
      with "1.prems" c q True again have "find_delivered env ws active object announced after' n = (r, t)"
        by (simp add: find_delivered.simps [of env ws active object announced cur m])
      with "1.IH" True c q a again have "kept n t" by auto
      with k show ?thesis by (simp add: kept_def)
    qed
  qed
qed

lemma keeps_find_delivered [keeps_rules]: "keeps kept (find_delivered env setup active object announced after)"
  by (rule keepsI) (rule find_delivered_kept)

lemma keeps_pending_claims [keeps_rules]: "keeps kept (pending_upload_claims env tenant)"
  unfolding pending_upload_claims_def by (intro keeps_and_then keeps_rewords keeps_queries keeps_checks machine_kept_refl)

lemma pending_upload_claims_Inr:
  "pending_upload_claims env tenant m = (Inr pending, t) \<Longrightarrow>
   keys_of env (pending_upload_paths (m_store m) tenant) = Inr pending \<and> m_store t = m_store m"
  by (auto simp: pending_upload_claims_def and_then_Inr rewords_Inr checks_Inr dest!: queries_Inr)

lemma taken_names_Inr:
  assumes "taken_names env setup entries m = (Inr taken, t)"
  obtains pending where "keys_of env (pending_upload_paths (m_store m) (ws_tenant setup)) = Inr pending"
    "set pending \<subseteq> set taken"
  using assms
  by (auto simp: taken_names_def and_then_Inr rewords_Inr checks_Inr
      dest!: queries_Inr pending_upload_claims_Inr)

text \<open>The keys claimed by the unfinished uploads of a tenant.\<close>

definition pending_keys :: "('w, 'v, 'c, 'k, 'b) upload_env \<Rightarrow> rstr \<Rightarrow> upload_store \<Rightarrow> rstr set" where
  "pending_keys env tenant s =
     (case keys_of env (pending_upload_paths s tenant) of Inl _ \<Rightarrow> {} | Inr ks \<Rightarrow> set ks)"

text \<open>What preparing promises of the files it returns.\<close>

definition well_named ::
  "('w, 'v, 'c, 'k, 'b) upload_env \<Rightarrow> worker_setup \<Rightarrow> rstr set \<Rightarrow> 'c file_state list \<Rightarrow> bool" where
  "well_named env setup used files \<longleftrightarrow>
     (\<forall>i < length files. \<not> fs_published (files ! i) \<longrightarrow>
        (\<exists>key. claim_key env setup (files ! i) = Inr key \<and> key \<notin> used)
        \<and> (\<forall>j < length files. \<not> fs_published (files ! j) \<longrightarrow> i \<noteq> j \<longrightarrow>
             claim_key env setup (files ! i) \<noteq> claim_key env setup (files ! j)))"

lemma prepare_files_Inr:
  assumes law: "schedule_law env" and names: "\<forall>e \<in> set entries. nul_free (fst e) \<and> fst e \<noteq> []"
    and h: "prepare_files env setup active entries m = (Inr files, t)"
  shows "list_all2 made_from entries files"
    and "well_named env setup (pending_keys env (ws_tenant setup) (m_store m)) files"
proof -
  from h obtain existing taken0 n1 n2 where
    f: "each_step (\<lambda>(components, object). find_delivered env setup active object components []) entries m
      = (Inr existing, n1)"
    and tk: "taken_names env setup (zip entries existing) n1 = (Inr taken0, n2)"
    and p: "(case prepare_in (\<lambda>i. prepare_file env setup active (entries ! i) (existing ! i))
         (preparation_order env (length entries) (m_world n2)) [] (taken0, n2) of
       (Some e, made, (_, m)) \<Rightarrow> (Inl e, drop_files env (in_order made) m)
     | (None, made, (_, m)) \<Rightarrow> (Inr (in_order made), m)) = (Inr files, t)"
    by (auto simp: prepare_files_def and_then_Inr checks_Inr)
  have "keeps kept (each_step (\<lambda>(components, object). find_delivered env setup active object components []) entries)"
    by (intro keeps_each_step machine_kept_refl) (auto intro: keeps_find_delivered)
  from keepsD [OF this f] have s: "m_store n1 = m_store m" by (simp add: kept_def)
  from tk obtain pending where pend: "keys_of env (pending_upload_paths (m_store n1) (ws_tenant setup)) = Inr pending"
    "set pending \<subseteq> set taken0" by (rule taken_names_Inr)
  let ?js = "preparation_order env (length entries) (m_world n2)"
  from preparation_order_all [OF law] have js: "distinct ?js" "set ?js = {0..<length entries}" by auto
  from p obtain made taken m' where
    run: "prepare_in (\<lambda>i. prepare_file env setup active (entries ! i) (existing ! i)) ?js [] (taken0, n2)
      = (None, made, taken, m')" and files: "files = in_order made"
    by (auto split: prod.splits option.splits)
  note made = prepared_files [OF js names run]
  show all: "list_all2 made_from entries files" using made(1) files by simp
  then have len: "length files = length entries" by (simp add: list_all2_lengthD)
  show "well_named env setup (pending_keys env (ws_tenant setup) (m_store m)) files"
    unfolding well_named_def pending_keys_def
    using prepared_claims [OF js made(2,3)] pend s len files by fastforce
qed

lemma persist_session_saved:
  "persist_session env setup files m = (Inr saved, t) \<Longrightarrow> saved = map (mark_saved env) files"
  by (auto simp: persist_session_def split: prod.splits sum.splits)

lemma mark_saved_keeps [simp]:
  "claim_key env setup (mark_saved env f) = claim_key env setup f"
  "made_from e (mark_saved env f) = made_from e f" "fs_published (mark_saved env f) = fs_published f"
  by (simp_all add: mark_saved_def claim_key_def made_from_def)

lemma admit_files_Inr:
  assumes law: "schedule_law env" and names: "\<forall>e \<in> set entries. nul_free (fst e) \<and> fst e \<noteq> []"
    and h: "admit_files env setup entries m = (Inr saved, t)"
  shows "list_all2 made_from entries saved"
    and "well_named env setup (pending_keys env (ws_tenant setup) (m_store m)) saved"
proof -
  from h obtain files n where p: "prepare_files env setup (\<lambda>_. True) entries m = (Inr files, n)"
    and q: "(case persist_session env setup files n of
      (Inl e, m') \<Rightarrow> (Inl e, drop_files env files m') | (Inr saved, m') \<Rightarrow> (Inr saved, m')) = (Inr saved, t)"
    by (auto simp: admit_files_def and_then_Inr)
  from q have saved: "saved = map (mark_saved env) files"
    by (auto split: prod.splits sum.splits dest: persist_session_saved)
  note facts = prepare_files_Inr [OF law names p]
  from facts(1) show "list_all2 made_from entries saved"
    by (simp add: saved list_all2_conv_all_nth)
  from facts(2) show "well_named env setup (pending_keys env (ws_tenant setup) (m_store m)) saved"
    by (simp add: saved well_named_def)
qed

section \<open>The package\<close>

text \<open>The library never lists an entry with an empty path.\<close>

definition named_entries :: "package_entry list \<Rightarrow> bool" where
  "named_entries entries \<longleftrightarrow> (\<forall>e \<in> set entries. pe_path e \<noteq> [])"

lemma admit_components_Inr:
  "admit_components lib hidden cs = Inr () \<Longrightarrow> c \<in> set cs \<Longrightarrow> admit_component lib c hidden = Inr ()"
  by (induction cs) (auto split: sum.splits)

lemma admit_entries_Inr:
  assumes "admit_entries env hidden entries n = Inr k"
  shows "k = n + sum_list (map (oid_length \<circ> pe_object) entries)"
    and "e \<in> set entries \<Longrightarrow> pe_storage e = Direct"
    and "e \<in> set entries \<Longrightarrow> c \<in> set (pe_path e) \<Longrightarrow> admit_component (ue_paths env) c hidden = Inr ()"
proof -
  show "k = n + sum_list (map (oid_length \<circ> pe_object) entries)"
    using assms
  proof (induction entries arbitrary: n)
    case (Cons e entries)
    from Cons.prems have "admit_entries env hidden entries (n + oid_length (pe_object e)) = Inr k"
      by (auto split: if_splits sum.splits option.splits simp: checked_add_def)
    from Cons.IH [OF this] show ?case by simp
  qed simp
qed (use assms in \<open>induction entries arbitrary: n;
    auto split: if_splits sum.splits option.splits simp: checked_add_def dest: admit_components_Inr\<close>)+

lemma check_package_Inr:
  assumes "check_package env setup summary entries = Inr ()"
  shows "summary = length entries" "length entries \<le> max_entries_for_bytes (ws_max_total setup)"
    "sum_list (map (oid_length \<circ> pe_object) entries) \<le> ws_max_total setup"
    "admit_portable_paths (ue_paths env) (map (\<lambda>e. join_with [47] (pe_path e)) entries) = Inr ()"
    and "e \<in> set entries \<Longrightarrow> pe_storage e = Direct"
    and "e \<in> set entries \<Longrightarrow> c \<in> set (pe_path e) \<Longrightarrow> admit_component (ue_paths env) c (ws_allow_hidden setup) = Inr ()"
  using assms
  by (auto simp: check_package_def split: if_splits sum.splits dest: admit_entries_Inr)

lemma receive_package_Inr:
  assumes law: "schedule_law env" and named: "named_entries entries"
    and h: "receive_package env setup h entries m = (Inr files, t)"
  shows "check_package env setup (length entries) entries = Inr ()"
    and "list_all2 (\<lambda>e. made_from (pe_path e, pe_object e)) entries files"
    and "well_named env setup (pending_keys env (ws_tenant setup) (m_store m)) files"
proof -
  from h obtain summary n1 n2 n3 where
    f: "world_step (pk_finish env h) m = (Inr summary, n1)" and c: "check_package env setup summary entries = Inr ()"
    and q: "queries env (\<lambda>s. check_route_manifest s (ws_session setup)
        (route_manifest env (map (\<lambda>e. (join_with [47] (pe_path e), pe_object e)) entries))) n1 = (Inr (), n2)"
    and l: "require_link env setup n2 = (Inr (), n3)"
    and a: "admit_files env setup (map (\<lambda>e. (pe_path e, pe_object e)) entries) n3 = (Inr files, t)"
    by (auto simp: receive_package_def and_then_Inr rewords_Inr checks_Inr)
  from check_package_Inr(1) [OF c] c show "check_package env setup (length entries) entries = Inr ()" by simp
  have "m_store n3 = m_store n2"
    using l by (auto simp: require_link_def and_then_Inr rewords_Inr checks_Inr dest!: queries_Inr)
  with f q have s: "m_store n3 = m_store m"
    using m_store_world_step [OF f] queries_Inr [OF q] by simp
  have names: "\<forall>e \<in> set (map (\<lambda>e. (pe_path e, pe_object e)) entries). nul_free (fst e) \<and> fst e \<noteq> []"
    using named check_package_Inr(6) [OF c] admit_component_safe
    by (fastforce simp: named_entries_def nul_free_def safe_component_def)
  note facts = admit_files_Inr [OF law names a]
  from facts(1) show "list_all2 (\<lambda>e. made_from (pe_path e, pe_object e)) entries files"
    by (simp add: list_all2_map1)
  from facts(2) show "well_named env setup (pending_keys env (ws_tenant setup) (m_store m)) files" by (simp add: s)
qed

end
