(* ===== verification/UploadRefinement.thy ===== *)
theory UploadRefinement
  imports UploadBegin UploadDemo
begin

text \<open>
  A transfer, seen from outside: it is announced, its entries are listed up to a cap, its files
  move one after the other, and it is over. Only a transfer whose files have all been delivered
  ends with a report. The worker of a session implements this (\<open>turn_refines_transfer\<close>), with
  \<open>transfer_of\<close> reading the abstract state off its phase.
\<close>

datatype transfer =
    Announced
  | Listing nat nat
  | Moving "bool list"
  | Over

text \<open>The label says whether the sender was given a report.\<close>

inductive transfer_step :: "nat \<Rightarrow> transfer \<Rightarrow> bool \<Rightarrow> transfer \<Rightarrow> bool" for cap :: nat where
  transfer_stays: "transfer_step cap x False x"
| transfer_announced: "transfer_step cap Announced False (Listing 0 cap)"
| transfer_lists: "n \<le> n' \<Longrightarrow> n' \<le> k \<Longrightarrow> transfer_step cap (Listing n k) False (Listing n' k)"
| transfer_begins: "length D = n \<Longrightarrow> transfer_step cap (Listing n k) False (Moving D)"
| transfer_delivers: "list_all2 (\<longrightarrow>) D D' \<Longrightarrow> transfer_step cap (Moving D) False (Moving D')"
| transfer_finishes: "list_all id D \<Longrightarrow> transfer_step cap (Moving D) True Over"
| transfer_abandoned: "transfer_step cap x False Over"

inductive_simps transfer_step_Over: "transfer_step cap Over l y"
inductive_simps transfer_step_report: "transfer_step cap x True y"

definition transfer_of :: "'c phase \<Rightarrow> transfer" where
  "transfer_of p =
     (case p of
        AwaitSeal \<Rightarrow> Announced
      | Pages _ entries _ k \<Rightarrow> Listing (length entries) k
      | Receiving files \<Rightarrow> Moving (map fs_published files)
      | Done \<Rightarrow> Over)"

definition gives_report :: "(session_error + reply) list \<Rightarrow> bool" where
  "gives_report rs \<longleftrightarrow> list_ex (\<lambda>r. case r of Inr (Report _) \<Rightarrow> True | _ \<Rightarrow> False) rs"

definition entry_cap :: "worker_setup \<Rightarrow> nat" where
  "entry_cap setup = max_entries_for_bytes (ws_max_total setup)"

locale forward_simulation =
  fixes init :: "'s \<Rightarrow> bool" and step :: "'s \<Rightarrow> 's \<Rightarrow> bool"
    and init_spec :: "'a \<Rightarrow> bool" and step_spec :: "'a \<Rightarrow> 'a \<Rightarrow> bool" and seen :: "'s \<Rightarrow> 'a"
  assumes init_simulated: "init s \<Longrightarrow> init_spec (seen s)"
    and step_simulated: "step s t \<Longrightarrow> step_spec (seen s) (seen t)"
begin

lemma reach_simulated: "reach init step s \<Longrightarrow> reach init_spec step_spec (seen s)"
  by (induction rule: reach.induct) (auto intro: reach.intros init_simulated step_simulated)

lemma spec_invariant:
  assumes "invariant_system init_spec step_spec P" "reach init step s"
  shows "P (seen s)"
  using invariant_system.reach_inv [OF assms(1) reach_simulated [OF assms(2)]] .

end

section \<open>The abstract transfer\<close>

definition transfer_ok :: "nat \<Rightarrow> transfer \<Rightarrow> bool" where
  "transfer_ok cap x \<longleftrightarrow>
     (case x of Listing n k \<Rightarrow> k = cap \<and> n \<le> cap | Moving D \<Rightarrow> length D \<le> cap | _ \<Rightarrow> True)"

definition moves :: "nat \<Rightarrow> transfer \<Rightarrow> transfer \<Rightarrow> bool" where
  "moves cap x y \<longleftrightarrow> (\<exists>l. transfer_step cap x l y)"

interpretation transfers: invariant_system "\<lambda>x. x = Announced" "moves cap" "transfer_ok cap" for cap
  by unfold_locales
    (auto simp: moves_def transfer_ok_def elim!: transfer_step.cases dest: list_all2_lengthD)

section \<open>The files of a session as flags\<close>

lemma flags_grow: "list_all2 same_file xs ys \<Longrightarrow> list_all2 (\<longrightarrow>) (map fs_published xs) (map fs_published ys)"
  by (simp add: list_all2_conv_all_nth same_file_def)

lemma flags_refl: "list_all2 (\<longrightarrow>) D D"
  by (simp add: list_all2_refl)

lemma flags_trans: "list_all2 (\<longrightarrow>) D D' \<Longrightarrow> list_all2 (\<longrightarrow>) D' D'' \<Longrightarrow> list_all2 (\<longrightarrow>) D D''"
  by (auto simp: list_all2_conv_all_nth)

lemma checkpoint_files_flags:
  "checkpoint_files env setup (files, m) = (b, files', m') \<Longrightarrow> map fs_published files' = map fs_published files"
  by (auto simp: checkpoint_files_def mark_saved_def comp_def split: if_splits prod.splits sum.splits)

lemma checkpoint_session_flags:
  assumes h: "checkpoint_session env setup (files, m) = (b, files', m')"
  shows "list_all2 (\<longrightarrow>) (map fs_published files) (map fs_published files')"
proof -
  obtain c fs n where a: "checkpoint_files env setup (files, m) = (c, fs, n)" by (rule prod_cases3)
  show ?thesis
  proof (cases c)
    case True
    with h a have "forget_publications env (fs, n) = (b, files', m')" by (simp add: checkpoint_session_def)
    from forget_publications_step [OF this] have "list_all2 same_file fs files'" by (simp add: files_step_def)
    from flags_grow [OF this] show ?thesis by (simp add: checkpoint_files_flags [OF a])
  next
    case False
    with h a have "files' = fs" by (simp add: checkpoint_session_def)
    with checkpoint_files_flags [OF a] show ?thesis by (simp add: flags_refl)
  qed
qed

lemma files_step_flags: "files_step s t \<Longrightarrow> list_all2 (\<longrightarrow>) (map fs_published (fst s)) (map fs_published (fst t))"
  by (simp add: files_step_def flags_grow)

section \<open>Every command\<close>

lemma transfer_of_simps [simp]:
  "transfer_of AwaitSeal = Announced" "transfer_of (Pages h es n k) = Listing (length es) k"
  "transfer_of (Receiving files) = Moving (map fs_published files)" "transfer_of Done = Over"
  by (simp_all add: transfer_of_def)

lemma gives_report_simps [simp]:
  "\<not> gives_report [Inl e]" "\<not> gives_report [Inr (PagesLeft n)]" "\<not> gives_report [Inr (EntryInfos is)]"
  "\<not> gives_report [Inr (Progress p)]" "gives_report [Inr (Report rep)]" "\<not> gives_report [Inr Closed]"
  by (simp_all add: gives_report_def)

lemma gives_report_entries [simp]: "\<not> gives_report [map_sum id EntryInfos q]"
  by (cases q) simp_all

lemma seal_step_refines:
  "seal_step env setup b (w, m) = (r, w', m') \<Longrightarrow>
   transfer_step (entry_cap setup) (transfer_of (wk_phase w)) (gives_report [r]) (transfer_of (wk_phase w'))"
  by (auto simp: seal_step_def handle_seal_def Let_def entry_cap_def split: prod.splits sum.splits if_splits
      intro: transfer_stays transfer_announced)

lemma page_step_refines:
  assumes "page_step env b (w, m) = (r, w', m')"
  shows "transfer_step (entry_cap setup) (transfer_of (wk_phase w)) (gives_report [r]) (transfer_of (wk_phase w'))"
proof -
  obtain q p n where a: "handle_page env b (wk_phase w, m) = (q, p, n)" by (rule prod_cases3)
  with assms have r: "r = map_sum id PagesLeft q" "wk_phase w' = p" by (auto simp: page_step_def)
  show ?thesis
  proof (cases q)
    case (Inl e)
    with a have "p = wk_phase w"
      by (auto simp: handle_page_def split: prod.splits sum.splits if_splits phase.splits)
    with r Inl show ?thesis by (simp add: transfer_stays)
  next
    case (Inr n)
    with a show ?thesis
      unfolding r
      by (auto simp: handle_page_def split: prod.splits sum.splits if_splits phase.splits intro!: transfer_lists)
  qed
qed

lemma finish_step_refines:
  assumes "finish_step env setup (w, m) = (r, w', m')"
  shows "transfer_step (entry_cap setup) (transfer_of (wk_phase w)) (gives_report [r]) (transfer_of (wk_phase w'))"
proof -
  obtain q p n where a: "handle_finish env setup w m = (q, p, n)" by (rule prod_cases3)
  with assms have w: "wk_phase w' = p" "r = map_sum id Report q" by (auto simp: finish_step_def)
  show ?thesis
  proof (cases "\<exists>files. wk_phase w = Receiving files")
    case False
    with handle_finish_other [OF a] w show ?thesis by (cases q) (auto intro: transfer_stays)
  next
    case True
    then obtain files where p: "wk_phase w = Receiving files" by blast
    from a p show ?thesis
    proof (cases rule: handle_finish_cases)
      case (finished report elog m1 saved files' m2)
      then show ?thesis
        by (auto simp: w p list_all_iff intro!: transfer_finishes)
    qed (auto simp: w p intro: transfer_stays)
  qed
qed

lemma abort_step_refines:
  "abort_step env setup (w, m) = (r, w', m') \<Longrightarrow>
   transfer_step (entry_cap setup) (transfer_of (wk_phase w)) (gives_report [r]) (transfer_of (wk_phase w'))"
  by (auto simp: abort_step_def Let_def retained_error_def split: prod.splits intro: transfer_abandoned)

lemma suspend_step_refines:
  "suspend_step env setup (w, m) = (r, w', m') \<Longrightarrow>
   transfer_step (entry_cap setup) (transfer_of (wk_phase w)) (gives_report [r]) (transfer_of (wk_phase w'))"
  by (auto simp: suspend_step_def Let_def checkpoint_failed_def split: prod.splits intro: transfer_abandoned)

text \<open>A package that is received has one file per entry.\<close>

lemma prepare_files_length:
  assumes law: "schedule_law env" and h: "prepare_files env setup active entries m = (Inr files, t)"
  shows "length files = length entries"
proof -
  from h obtain existing taken0 n2 where
    p: "(case prepare_in (\<lambda>i. prepare_file env setup active (entries ! i) (existing ! i))
         (preparation_order env (length entries) (m_world n2)) [] (taken0, n2) of
       (Some e, made, (_, m)) \<Rightarrow> (Inl e, drop_files env (in_order made) m)
     | (None, made, (_, m)) \<Rightarrow> (Inr (in_order made), m)) = (Inr files, t)"
    by (auto simp: prepare_files_def and_then_Inr checks_Inr)
  then obtain made s where
    run: "prepare_in (\<lambda>i. prepare_file env setup active (entries ! i) (existing ! i))
      (preparation_order env (length entries) (m_world n2)) [] (taken0, n2) = (None, made, s)"
    and files: "files = in_order made"
    by (auto split: prod.splits option.splits)
  from prepare_in_invariant [where I = "\<lambda>_ _. True", OF _ _ run]
  have "map fst made = preparation_order env (length entries) (m_world n2)" by simp
  with preparation_order_all [OF law, of "length entries" "m_world n2"] in_order_nth(1) [of made] files
  show ?thesis by simp
qed

lemma receive_package_length:
  assumes "schedule_law env" "receive_package env setup h entries m = (Inr files, t)"
  shows "length files = length entries"
proof -
  from assms(2) obtain n where "admit_files env setup (map (\<lambda>e. (pe_path e, pe_object e)) entries) n = (Inr files, t)"
    by (auto simp: receive_package_def and_then_Inr)
  then obtain made n' where
    p: "prepare_files env setup (\<lambda>_. True) (map (\<lambda>e. (pe_path e, pe_object e)) entries) n = (Inr made, n')"
    and q: "(case persist_session env setup made n' of
      (Inl e, m') \<Rightarrow> (Inl e, drop_files env made m') | (Inr saved, m') \<Rightarrow> (Inr saved, m')) = (Inr files, t)"
    by (auto simp: admit_files_def and_then_Inr)
  from q have "files = map (mark_saved env) made"
    by (auto split: prod.splits sum.splits dest: persist_session_saved)
  with prepare_files_length [OF assms(1) p] show ?thesis by simp
qed

lemma begin_receiving_refines:
  assumes "begin_receiving env setup (files, m) = (r, p, t)"
  shows "\<exists>files'. p = Receiving files' \<and> list_all2 (\<longrightarrow>) (map fs_published files) (map fs_published files')"
proof -
  obtain q files' n where a: "publish_empty env setup (files, m) = (q, files', n)" by (rule prod_cases3)
  with files_step_flags [OF publish_empty_step [OF a]] assms show ?thesis
    by (auto simp: begin_receiving_def split: sum.splits)
qed

lemma begin_step_refines:
  assumes law: "schedule_law env" and h: "begin_step env setup stopping (w, m) = (r, w', m')"
  shows "transfer_step (entry_cap setup) (transfer_of (wk_phase w)) (gives_report [r]) (transfer_of (wk_phase w'))"
proof -
  obtain q p n where b: "(if stopping then (Inl stopping_error, wk_phase w, m)
      else handle_begin env setup (wk_phase w, m)) = (q, p, n)" by (rule prod_cases3)
  with h have r: "r = map_sum id EntryInfos q" "wk_phase w' = p"
    by (auto simp: begin_step_def Let_def)
  show ?thesis
  proof (cases "stopping \<or> (\<forall>files h es k c. wk_phase w \<noteq> Receiving files \<and> wk_phase w \<noteq> Pages h es k c)")
    case True
    with b have "p = wk_phase w" by (auto simp: handle_begin_def split: if_splits phase.splits)
    with r show ?thesis by (simp add: transfer_stays)
  next
    case False
    with b have g: "handle_begin env setup (wk_phase w, m) = (q, p, n)" by simp
    from False consider files where "wk_phase w = Receiving files"
      | i es k c where "wk_phase w = Pages i es k c" by blast
    then show ?thesis
    proof cases
      case 1
      with g have "begin_receiving env setup (files, m) = (q, p, n)" by (simp add: handle_begin_def)
      from begin_receiving_refines [OF this] 1 r show ?thesis by (auto intro: transfer_delivers)
    next
      case 2
      obtain x n1 where a: "receive_package env setup i es m = (x, n1)" by (rule prod.exhaust)
      show ?thesis
      proof (cases x)
        case (Inl e)
        with g 2 a r show ?thesis by (auto simp: handle_begin_def intro: transfer_abandoned)
      next
        case (Inr files)
        with g 2 a have "begin_receiving env setup (files, n1) = (q, p, n)" by (simp add: handle_begin_def)
        from begin_receiving_refines [OF this] obtain files' where p: "p = Receiving files'"
          and l: "length files' = length files" by (auto dest: list_all2_lengthD)
        with receive_package_length [OF law a [unfolded Inr]] 2 r show ?thesis
          by (auto intro: transfer_begins)
      qed
    qed
  qed
qed

text \<open>Batches of chunks never give a report.\<close>

lemma tally_report: "tally c r w = (q, v) \<Longrightarrow> \<not> gives_report [q]"
  by (cases r) (auto simp: tally_def Let_def)

lemma gives_report_Cons: "gives_report (q # qs) \<longleftrightarrow> gives_report [q] \<or> gives_report qs"
  by (simp add: gives_report_def)

lemma tally_all_report: "tally_all xs w = (qs, w') \<Longrightarrow> \<not> gives_report qs"
proof (induction xs arbitrary: w qs)
  case (Cons x xs)
  obtain c r where x: "x = (c, r)" by (rule prod.exhaust)
  obtain q v where t: "tally c r w = (q, v)" by (rule prod.exhaust)
  obtain ps u where a: "tally_all xs v = (ps, u)" by (rule prod.exhaust)
  from Cons.prems x t a have "qs = q # ps" "u = w'" by simp_all
  with Cons.IH a tally_report [OF t] show ?case by (simp add: gives_report_Cons [of q ps])
qed (simp add: gives_report_def)

lemma pace_checkpoint_flags:
  assumes "pace_checkpoint env setup added (w, m) = (w', m')"
  shows "wk_phase w' = wk_phase w
    \<or> (\<exists>files files'. wk_phase w = Receiving files \<and> wk_phase w' = Receiving files'
         \<and> list_all2 (\<longrightarrow>) (map fs_published files) (map fs_published files'))"
proof -
  obtain due t where a: "should_checkpoint_at added (instant env (m_world m)) (wk_tracker w) = (due, t)"
    by (rule prod.exhaust)
  show ?thesis
  proof (cases "due \<and> (\<exists>files. wk_phase w = Receiving files)")
    case True
    then obtain files where w: "wk_phase w = Receiving files" by blast
    obtain b files' n where k: "checkpoint_session env setup (files, m) = (b, files', n)" by (rule prod_cases3)
    from checkpoint_session_flags [OF k] True w k a assms show ?thesis
      by (auto simp: pace_checkpoint_def Let_def)
  next
    case False
    with assms a show ?thesis by (auto simp: pace_checkpoint_def Let_def split: phase.splits)
  qed
qed

lemma after_batch_flags:
  "accept_batch env setup batch (p, m) = (outcomes, q, m') \<Longrightarrow>
   transfer_step cap (transfer_of p) False
     (transfer_of (wk_phase (after_batch now p batch outcomes (set_phase q w))))"
proof -
  assume a: "accept_batch env setup batch (p, m) = (outcomes, q, m')"
  show ?thesis
  proof (cases "\<exists>files. p = Receiving files")
    case False
    with accept_batch_other [OF a] show ?thesis by (simp add: after_batch_other transfer_stays)
  next
    case True
    then obtain files where p: "p = Receiving files" by blast
    obtain rs files' n where f: "accept_files env setup batch (files, m) = (rs, files', n)" by (rule prod_cases3)
    with a p have q: "q = Receiving files'" by (simp add: accept_batch_def)
    obtain files'' where
      "wk_phase (after_batch now p batch outcomes (set_phase q w)) = Receiving files''"
      "list_all2 same_file files' files''"
      using after_batch_phase unfolding p q by blast
    with flags_trans [OF files_step_flags [OF accept_files_step [OF f]]] show ?thesis
      by (auto simp: p intro!: transfer_delivers dest: flags_grow)
  qed
qed

lemma transfer_quiet_trans:
  "transfer_step cap x False (Moving D) \<Longrightarrow> list_all2 (\<longrightarrow>) D D' \<Longrightarrow> transfer_step cap x False (Moving D')"
  by (erule transfer_step.cases)
    (auto intro: transfer_delivers flags_trans transfer_begins [OF list_all2_lengthD [symmetric]])

lemma chunk_step_refines:
  assumes "chunk_step env setup batch (w, m) = (rs, w', m')"
  shows "transfer_step cap (transfer_of (wk_phase w)) (gives_report rs) (transfer_of (wk_phase w'))"
proof -
  obtain outcomes p n where a: "accept_batch env setup batch (wk_phase w, m) = (outcomes, p, n)"
    by (rule prod_cases3)
  let ?w = "after_batch (unix_now env (m_world n)) (wk_phase w) batch outcomes (set_phase p w)"
  obtain qs v where t: "tally_all (zip batch outcomes) ?w = (qs, v)" by (rule prod.exhaust)
  with assms a have rs: "rs = qs"
    and pace: "pace_checkpoint env setup (wk_received v - wk_received w) (v, n) = (w', m')"
    by (auto simp: chunk_step_def)
  have quiet: "\<not> gives_report rs" using tally_all_report [OF t] rs by simp
  have first: "transfer_step cap (transfer_of (wk_phase w)) False (transfer_of (wk_phase v))"
    using after_batch_flags [OF a] tally_all_phase [OF t] by simp
  from pace_checkpoint_flags [OF pace] first quiet show ?thesis
    by (auto dest: transfer_quiet_trans)
qed

lemma turn_refines:
  assumes law: "schedule_law env" and h: "turn env setup c queue (w, m) = (rs, rest, w', m')"
  shows "transfer_step (entry_cap setup) (transfer_of (wk_phase w)) (gives_report rs) (transfer_of (wk_phase w'))"
proof (cases "\<exists>x. c = Chunk x")
  case True
  with h obtain batch where "chunk_step env setup batch (w, m) = (rs, w', m')"
    by (auto simp: turn_def split: prod.splits)
  then show ?thesis by (rule chunk_step_refines)
next
  case False
  with h have "command_step env setup c (w, m) = (rs, w', m')"
    by (cases c) (auto simp: turn_def split: prod.splits)
  then show ?thesis
    using False by (cases c) (auto simp: command_step_def split: prod.splits
      dest: seal_step_refines page_step_refines begin_step_refines [OF law] finish_step_refines
        abort_step_refines suspend_step_refines)
qed

section \<open>The refinement\<close>

definition seen_transfer :: "'c worker \<times> 'w machine \<Rightarrow> transfer" where
  "seen_transfer s = transfer_of (wk_phase (fst s))"

lemma session_step_moves:
  "schedule_law env \<Longrightarrow> session_step env ws s t \<Longrightarrow> moves (entry_cap ws) (seen_transfer s) (seen_transfer t)"
proof (erule session_stepE)
  fix c queue carried rs rest
  assume law: "schedule_law env" and t: "turn env ws c queue (await env ws carried s) = (rs, rest, t)"
  obtain w m where a: "await env ws carried s = (w, m)" by (rule prod.exhaust)
  obtain w' m' where t': "t = (w', m')" by (rule prod.exhaust)
  have "wk_phase w = wk_phase (fst s)" using await_phase [of env ws carried s] a by simp
  with turn_refines [OF law t [unfolded a t']] show ?thesis
    by (auto simp: moves_def seen_transfer_def t')
qed (auto simp: moves_def seen_transfer_def intro: transfer_stays)

interpretation refined: forward_simulation
  session_start "\<lambda>s t. schedule_law env \<and> session_step env ws s t"
  "\<lambda>x. x = Announced" "moves (entry_cap ws)" seen_transfer
  for env :: "('w, 'v, 'c, 'k, 'b) upload_env" and ws
proof unfold_locales
  show "moves (entry_cap ws) (seen_transfer s) (seen_transfer t)"
    if "schedule_law env \<and> session_step env ws s t" for s t :: "'c worker \<times> 'w machine"
    using that session_step_moves by blast
qed (auto simp: session_start_def new_worker_def seen_transfer_def)

lemma lawful_run:
  assumes "schedule_law env" "reach session_start (session_step env ws) s"
  shows "reach session_start (\<lambda>s t. schedule_law env \<and> session_step env ws s t) s"
  using assms(2) by (induction rule: reach.induct) (use assms(1) in \<open>auto intro: reach.intros\<close>)

end
