(* ===== verification/UploadReplies.thy ===== *)
theory UploadReplies
  imports UploadRefinement
begin

text \<open>
  What the worker sends back. Every command taken from the channel is answered once, in order,
  with a reply of its own type or with an error; a batch holds at most eight chunks. The log of a
  session stays within its cap, and what it leaves out is counted.
\<close>

definition reply_fits :: "cmd \<Rightarrow> session_error + reply \<Rightarrow> bool" where
  "reply_fits c r \<longleftrightarrow>
     (case r of
        Inl _ \<Rightarrow> True
      | Inr x \<Rightarrow>
          (case (c, x) of
             (Seal _, PagesLeft _) \<Rightarrow> True | (Page _, PagesLeft _) \<Rightarrow> True
           | (Begin _, EntryInfos _) \<Rightarrow> True | (Chunk _, Progress _) \<Rightarrow> True
           | (Finish, Report _) \<Rightarrow> True | (Abort, Closed) \<Rightarrow> True | (Suspend, Closed) \<Rightarrow> True
           | _ \<Rightarrow> False))"

lemma reply_fits_simps [simp]:
  "reply_fits c (Inl e)" "reply_fits (Seal b) (map_sum id PagesLeft q)"
  "reply_fits (Page b) (map_sum id PagesLeft q)" "reply_fits (Begin x) (map_sum id EntryInfos q')"
  "reply_fits Finish (map_sum id Report q'')" "reply_fits Abort (Inr Closed)" "reply_fits Suspend (Inr Closed)"
  "reply_fits (Chunk y) (Inr (Progress p))"
  by (cases q; cases q'; cases q''; simp add: reply_fits_def)+

lemma command_step_fits:
  assumes "command_step env setup c s = (rs, t)" "\<not> (\<exists>x. c = Chunk x)"
  shows "\<exists>r. rs = [r] \<and> reply_fits c r"
  using assms
  by (cases s; cases c)
    (auto simp: command_step_def seal_step_def page_step_def begin_step_def finish_step_def abort_step_def
      suspend_step_def Let_def split: prod.splits if_splits)

lemma drain_takes:
  "drain room available queue = (xs, rest, carried) \<Longrightarrow> queue = map Chunk xs @ rest \<and> length xs \<le> room"
proof (induction room available queue arbitrary: xs rest rule: drain.induct)
  case (4 room available c queue)
  then show ?case by (cases c) (auto split: prod.splits)
qed auto

lemma accept_all_order: "accept_all env opening batch js s = (made, t) \<Longrightarrow> map fst made = js"
proof (induction js arbitrary: s made t)
  case (Cons j js)
  obtain r u where a: "accept_item env opening (batch ! j) s = (r, u)" by (rule prod.exhaust)
  obtain rs v where b: "accept_all env opening batch js u = (rs, v)" by (rule prod.exhaust)
  with Cons.prems a have "made = (j, r) # rs" by simp
  with Cons.IH [OF b] show ?case by simp
qed simp

lemma accept_files_length:
  assumes law: "schedule_law env" and h: "accept_files env setup batch s = (rs, t)"
  shows "length rs = length batch"
proof -
  obtain op s1 where o: "at_files (open_for_batch env) (batch_files (map ch_entry batch)) s = (op, s1)"
    by (rule prod.exhaust)
  let ?js = "schedule env (length batch) (m_world (snd s1))"
  obtain made s2 where m: "accept_all env op batch ?js s1 = (made, s2)" by (rule prod.exhaust)
  have "distinct (map fst made)" "set (map fst made) = {0..<length batch}"
    using law accept_all_order [OF m] by (simp_all add: schedule_law_def)
  then have "length (in_order made) = length batch" by (rule in_order_nth(1))
  with h o m show ?thesis by (auto simp: accept_files_def Let_def split: prod.splits)
qed

lemma accept_batch_length:
  "schedule_law env \<Longrightarrow> accept_batch env setup batch s = (rs, t) \<Longrightarrow> length rs = length batch"
  by (auto simp: accept_batch_def split: prod.splits phase.splits dest: accept_files_length)

lemma tally_all_fits:
  "tally_all xs w = (qs, w') \<Longrightarrow> list_all2 reply_fits (map (Chunk \<circ> fst) xs) qs"
proof (induction xs arbitrary: w qs w')
  case (Cons x xs)
  obtain c r where x: "x = (c, r)" by (rule prod.exhaust)
  obtain q v where t: "tally c r w = (q, v)" by (rule prod.exhaust)
  obtain ps u where a: "tally_all xs v = (ps, u)" by (rule prod.exhaust)
  have "reply_fits (Chunk c) q" using t by (cases r) (auto simp: tally_def Let_def)
  with Cons.IH [OF a] Cons.prems x t a show ?case by auto
qed simp

lemma chunk_step_fits:
  assumes law: "schedule_law env" and h: "chunk_step env setup batch s = (rs, t)"
  shows "list_all2 reply_fits (map Chunk batch) rs"
proof -
  obtain w m where s: "s = (w, m)" by (rule prod.exhaust)
  obtain outcomes p n where a: "accept_batch env setup batch (wk_phase w, m) = (outcomes, p, n)"
    by (rule prod_cases3)
  let ?w = "after_batch (unix_now env (m_world n)) (wk_phase w) batch outcomes (set_phase p w)"
  obtain qs v where t: "tally_all (zip batch outcomes) ?w = (qs, v)" by (rule prod.exhaust)
  with h s a have rs: "rs = qs" by (auto simp: chunk_step_def)
  have "map (Chunk \<circ> fst) (zip batch outcomes) = map Chunk batch"
    using accept_batch_length [OF law a] by (simp flip: map_map)
  with tally_all_fits [OF t] rs show ?thesis by simp
qed

text \<open>The commands a turn takes from the channel are the ones it answers.\<close>

lemma turn_answers:
  assumes law: "schedule_law env" and h: "turn env setup c queue s = (rs, (rest, carried), t)"
  shows "\<exists>taken. c # queue = taken @ rest \<and> list_all2 reply_fits taken rs \<and> length taken \<le> MAX_CHUNK_BATCH"
proof (cases "\<exists>x. c = Chunk x")
  case True
  then obtain x where c: "c = Chunk x" by blast
  obtain xs left b where d: "drain (MAX_CHUNK_BATCH - 1) (arrived env (m_world (snd s))) queue = (xs, left, b)"
    by (rule prod_cases3)
  from h c d have r: "chunk_step env setup (x # xs) s = (rs, t)" "left = rest"
    by (auto simp: turn_def split: prod.splits)
  have "c # queue = map Chunk (x # xs) @ rest" using drain_takes [OF d] r(2) by (simp add: c)
  moreover have "length (map Chunk (x # xs)) \<le> MAX_CHUNK_BATCH"
    using drain_takes [OF d] by (simp add: MAX_CHUNK_BATCH_def)
  ultimately show ?thesis using chunk_step_fits [OF law r(1)] by blast
next
  case False
  with h have r: "command_step env setup c s = (rs, t)" "rest = queue"
    by (cases c; auto simp: turn_def split: prod.splits)+
  from command_step_fits [OF r(1) False] r(2) show ?thesis
    by (intro exI [of _ "[c]"]) (auto simp: MAX_CHUNK_BATCH_def)
qed

section \<open>The log\<close>

lemma log_push_bounded: "length (tl_events l) \<le> LOG_CAP \<Longrightarrow> length (tl_events (log_push e l)) \<le> LOG_CAP"
  by (auto simp: log_push_def)

lemma log_push_counts:
  "length (tl_events (log_push e l)) + tl_elided (log_push e l) = Suc (length (tl_events l) + tl_elided l)"
  by (simp add: log_push_def)

lemma fold_log_push:
  "length (tl_events l) \<le> LOG_CAP \<Longrightarrow> length (tl_events (fold log_push es l)) \<le> LOG_CAP"
  "length (tl_events (fold log_push es l)) + tl_elided (fold log_push es l)
    = length es + length (tl_events l) + tl_elided l"
  by (induction es arbitrary: l) (auto simp: log_push_bounded log_push_counts)

end
