(* ===== verification/UploadRange.thy ===== *)
theory UploadRange
  imports UploadDemo
begin

text \<open>
  The retry loop of \<open>accept\_range\<close> on a range that another writer has in flight. The loop of the
  source has no bound of its own; \<open>accept_loop\<close> is that loop as a relation, \<open>accept_until\<close> the
  executable version with fuel. That the clock advances while a thread sleeps is all that is
  needed for the fuel to be enough.
\<close>

inductive accept_loop ::
  "('w, 'v, 'c, 'k, 'b) upload_env \<Rightarrow> 'v \<Rightarrow> nat \<Rightarrow> 'c staged \<times> 'w machine
   \<Rightarrow> (session_error + acceptance) \<times> 'c staged \<times> 'w machine \<Rightarrow> bool"
  for env :: "('w, 'v, 'c, 'k, 'b) upload_env" and v :: 'v and deadline :: nat where
  loop_lost: "active_native env s = (Inl e, t) \<Longrightarrow> accept_loop env v deadline s (Inl e, t)"
| loop_accepted: "active_native env s = (Inr n, u) \<Longrightarrow>
    lifted (world_step (nf_accept env n v)) u = (Inr a, t) \<Longrightarrow> accept_loop env v deadline s (Inr a, t)"
| loop_failed: "active_native env s = (Inr n, u) \<Longrightarrow>
    lifted (world_step (nf_accept env n v)) u = (Inl (WriteFailed e), t) \<Longrightarrow>
    accept_loop env v deadline s (Inl (Internal (Told (lit ''write failed: '' @ e))), t)"
| loop_expired: "active_native env s = (Inr n, u) \<Longrightarrow>
    lifted (world_step (nf_accept env n v)) u = (Inl RangeInFlight, (st, m)) \<Longrightarrow>
    instant env (m_world m) \<ge> deadline \<Longrightarrow>
    accept_loop env v deadline s (Inl (Internal (told ''range stayed in flight too long'')), (st, m))"
| loop_again: "active_native env s = (Inr n, u) \<Longrightarrow>
    lifted (world_step (nf_accept env n v)) u = (Inl RangeInFlight, (st, m)) \<Longrightarrow>
    instant env (m_world m) < deadline \<Longrightarrow>
    accept_loop env v deadline (st, m\<lparr>m_world := sleep env RETRY_SLEEP (m_world m)\<rparr>) r \<Longrightarrow>
    accept_loop env v deadline s r"

inductive_cases accept_loopE: "accept_loop env v deadline s r"

text \<open>The clock is monotonic, and a thread that sleeps does not wake up early.\<close>

definition clock_law :: "('w, 'v, 'c, 'k, 'b) upload_env \<Rightarrow> bool" where
  "clock_law env \<longleftrightarrow>
     (\<forall>d w. instant env w + d \<le> instant env (sleep env d w))
     \<and> (\<forall>n v w. instant env w \<le> instant env (snd (nf_accept env n v w)))"

lemma clock_lawD:
  "clock_law env \<Longrightarrow> instant env w + d \<le> instant env (sleep env d w)"
  "clock_law env \<Longrightarrow> nf_accept env n v w = (r, w') \<Longrightarrow> instant env w \<le> instant env w'"
  unfolding clock_law_def by (blast, metis snd_conv)

lemma active_native_state: "active_native env s = (r, t) \<Longrightarrow> t = s"
  by (cases s) (auto simp: active_native_def step_defs split: if_splits)

lemma nf_accept_clock:
  assumes "clock_law env" "lifted (world_step (nf_accept env n v)) s = (r, t)"
  shows "instant env (m_world (snd s)) \<le> instant env (m_world (snd t))"
proof -
  obtain st m where s: "s = (st, m)" by (cases s)
  obtain q w where a: "nf_accept env n v (m_world m) = (q, w)" by (rule prod.exhaust)
  with assms s have "t = (st, m\<lparr>m_world := w\<rparr>)" by (auto simp: lifted_def world_step_def)
  with clock_lawD(2) [OF assms(1) a] s show ?thesis by simp
qed

text \<open>One turn of the loop, and the same turn of the version with fuel.\<close>

definition turned ::
  "('w, 'v, 'c, 'k, 'b) upload_env \<Rightarrow> nat \<Rightarrow> accept_error + acceptance \<Rightarrow> 'c staged \<times> 'w machine
   \<Rightarrow> ((session_error + acceptance) \<times> 'c staged \<times> 'w machine) option" where
  "turned env deadline x t =
     (case x of
        Inr a \<Rightarrow> Some (Inr a, t)
      | Inl (WriteFailed e) \<Rightarrow> Some (Inl (Internal (Told (lit ''write failed: '' @ e))), t)
      | Inl RangeInFlight \<Rightarrow>
          if deadline \<le> instant env (m_world (snd t))
          then Some (Inl (Internal (told ''range stayed in flight too long'')), t) else None)"

definition rested :: "('w, 'v, 'c, 'k, 'b) upload_env \<Rightarrow> 'c staged \<times> 'w machine \<Rightarrow> 'c staged \<times> 'w machine" where
  "rested env t = (fst t, (snd t)\<lparr>m_world := sleep env RETRY_SLEEP (m_world (snd t))\<rparr>)"

lemma accept_loop_lost:
  "active_native env s = (Inl e, t) \<Longrightarrow> accept_loop env v deadline s r \<longleftrightarrow> r = (Inl e, t)"
  by (auto elim: accept_loop.cases intro: loop_lost)

lemma accept_loop_turn:
  assumes a: "active_native env s = (Inr n, u)" and l: "lifted (world_step (nf_accept env n v)) u = (x, t)"
  shows "accept_loop env v deadline s r \<longleftrightarrow>
    (case turned env deadline x t of Some q \<Rightarrow> r = q | None \<Rightarrow> accept_loop env v deadline (rested env t) r)"
    (is "?L \<longleftrightarrow> ?R")
proof
  assume ?L
  then show ?R
    by (cases rule: accept_loop.cases) (use a l in \<open>auto simp: turned_def rested_def\<close>)
next
  assume ?R
  with a l show ?L
    by (cases t) (auto simp: turned_def rested_def split: sum.splits accept_error.splits if_splits
        intro: accept_loop.intros)
qed

lemma accept_until_turn:
  assumes "active_native env s = (Inr n, u)" "lifted (world_step (nf_accept env n v)) u = (x, t)"
  shows "accept_until env v deadline (Suc k) s =
    (case turned env deadline x t of Some q \<Rightarrow> q | None \<Rightarrow> accept_until env v deadline k (rested env t))"
  using assms by (cases t) (simp add: and_then_def turned_def rested_def split: sum.split accept_error.split)

lemma accept_until_lost: "active_native env s = (Inl e, t) \<Longrightarrow> accept_until env v deadline (Suc k) s = (Inl e, t)"
  by (simp add: and_then_def)

declare accept_until.simps [simp del]

text \<open>With the deadline within reach of the fuel, the two agree.\<close>

lemma accept_until_is_loop:
  assumes "clock_law env" "deadline \<le> instant env (m_world (snd s)) + k * RETRY_SLEEP"
  shows "accept_loop env v deadline s r \<longleftrightarrow> r = accept_until env v deadline (Suc k) s"
  using assms(2)
proof (induction k arbitrary: s)
  case (0 s)
  show ?case
  proof (cases "fst (active_native env s)")
    case (Inl e)
    then show ?thesis by (cases "active_native env s") (simp add: accept_loop_lost accept_until_lost)
  next
    case (Inr n)
    then obtain u where a: "active_native env s = (Inr n, u)" by (cases "active_native env s") auto
    obtain x t where l: "lifted (world_step (nf_accept env n v)) u = (x, t)" by (rule prod.exhaust)
    from nf_accept_clock [OF assms(1) l] 0 active_native_state [OF a]
    have "turned env deadline x t \<noteq> None" by (simp add: turned_def split: sum.split accept_error.split)
    then show ?thesis by (auto simp: accept_loop_turn [OF a l] accept_until_turn [OF a l])
  qed
next
  case (Suc k s)
  show ?case
  proof (cases "fst (active_native env s)")
    case (Inl e)
    then show ?thesis by (cases "active_native env s") (simp add: accept_loop_lost accept_until_lost)
  next
    case (Inr n)
    then obtain u where a: "active_native env s = (Inr n, u)" by (cases "active_native env s") auto
    obtain x t where l: "lifted (world_step (nf_accept env n v)) u = (x, t)" by (rule prod.exhaust)
    have "instant env (m_world (snd u)) + RETRY_SLEEP \<le> instant env (m_world (snd (rested env t)))"
      using nf_accept_clock [OF assms(1) l] clock_lawD(1) [OF assms(1), of "m_world (snd t)" RETRY_SLEEP]
      by (simp add: rested_def)
    with Suc.prems active_native_state [OF a]
    have "deadline \<le> instant env (m_world (snd (rested env t))) + k * RETRY_SLEEP" by simp
    from Suc.IH [OF this] show ?thesis
      by (simp only: accept_loop_turn [OF a l] accept_until_turn [OF a l] split: option.split) simp
  qed
qed

lemma accept_attempts_enough: "accept_attempts = Suc (RANGE_IN_FLIGHT_BUDGET div RETRY_SLEEP)"
  "RANGE_IN_FLIGHT_BUDGET = (RANGE_IN_FLIGHT_BUDGET div RETRY_SLEEP) * RETRY_SLEEP"
  by (simp_all add: accept_attempts_def RANGE_IN_FLIGHT_BUDGET_def RETRY_SLEEP_def nanos_per_sec_def)

text \<open>C23: Waiting for a range in flight ends: the loop of the source has exactly one result, and
  it is the one the model computes with its 401 attempts.\<close>

theorem range_retry_terminates:
  assumes "clock_law env"
  shows "accept_loop env v (instant env (m_world (snd s)) + RANGE_IN_FLIGHT_BUDGET) s r
    \<longleftrightarrow> r = accept_until env v (instant env (m_world (snd s)) + RANGE_IN_FLIGHT_BUDGET) accept_attempts s"
proof -
  have "instant env (m_world (snd s)) + RANGE_IN_FLIGHT_BUDGET
      \<le> instant env (m_world (snd s)) + RANGE_IN_FLIGHT_BUDGET div RETRY_SLEEP * RETRY_SLEEP"
    using accept_attempts_enough(2) by simp
  from accept_until_is_loop [OF assms this] show ?thesis by (simp only: accept_attempts_enough(1))
qed

section \<open>Witnesses\<close>

text \<open>A world that is a clock, with a range that stays in flight.\<close>

definition busy_env :: "(nat, nat, object_id \<times> nat, bool, unit) upload_env" where
  "busy_env = demo_env\<lparr>instant := id, nf_accept := (\<lambda>_ _ w. (Inl RangeInFlight, w))\<rparr>"

definition busy_staged :: "(object_id \<times> nat) staged" where
  "busy_staged = \<lparr>sf_destination = [], sf_staging = [], sf_journal = [], sf_incarnation = [],
     sf_profile = Balanced, sf_contract = Unqualified, sf_coverage = (\<lparr>oid_suite = 1, oid_root = [], oid_length = 3\<rparr>, 0),
     sf_active = Some 0, sf_directory = None, sf_reopened = False, sf_metadata = None, sf_preserve = False\<rparr>"

lemma busy_clock: "clock_law busy_env"
  by (simp add: clock_law_def busy_env_def demo_env_def)

theorem range_retry_terminates_witness:
  "\<exists>r. accept_loop busy_env 1 (10 + RANGE_IN_FLIGHT_BUDGET) (busy_staged, \<lparr>m_store = demo_store, m_world = 10\<rparr>) r"
proof -
  have "instant busy_env (m_world (snd (busy_staged, \<lparr>m_store = demo_store, m_world = (10::nat)\<rparr>))) = 10"
    by (simp add: busy_env_def)
  with range_retry_terminates [OF busy_clock, where s = "(busy_staged, \<lparr>m_store = demo_store, m_world = 10\<rparr>)" and v = 1]
  show ?thesis by auto
qed

end
