(* ===== verification/UploadContract.thy ===== *)
theory UploadContract
  imports UploadReplies UploadRange
begin

text \<open>
  The contract of the upload worker as its senders see it: the protocol it refines, what a package
  must satisfy to be received, the names its files get, and the replies to its commands.
\<close>

text \<open>C19: The worker implements the abstract transfer: in every state reached its phase stands for a
  reachable state of the protocol, and whatever the next turn does is one of its steps, labelled
  with whether a report was given. A report is therefore only ever given for a transfer whose
  files have all been delivered, and nothing follows it.\<close>

theorem turns_refine_the_transfer:
  assumes "schedule_law env" "reach session_start (session_step env setup) (w, m)"
    and "turn env setup c queue (w, m) = (rs, rest, w', m')"
  shows "reach (\<lambda>x. x = Announced) (moves (max_entries_for_bytes (ws_max_total setup))) (transfer_of (wk_phase w))
    \<and> transfer_step (max_entries_for_bytes (ws_max_total setup)) (transfer_of (wk_phase w)) (gives_report rs)
      (transfer_of (wk_phase w'))
    \<and> (gives_report rs \<longrightarrow> (\<exists>files. wk_phase w = Receiving files \<and> (\<forall>f \<in> set files. fs_published f)) \<and> wk_phase w' = Done)"
proof (intro conjI impI)
  show "reach (\<lambda>x. x = Announced) (moves (max_entries_for_bytes (ws_max_total setup))) (transfer_of (wk_phase w))"
    using refined.reach_simulated [OF lawful_run [OF assms(1,2)]] by (simp add: seen_transfer_def entry_cap_def)
  show step: "transfer_step (max_entries_for_bytes (ws_max_total setup)) (transfer_of (wk_phase w)) (gives_report rs)
      (transfer_of (wk_phase w'))"
    using turn_refines [OF assms(1,3)] by (simp add: entry_cap_def)
  assume "gives_report rs"
  with step show "\<exists>files. wk_phase w = Receiving files \<and> (\<forall>f \<in> set files. fs_published f)" "wk_phase w' = Done"
    by (auto simp: transfer_step_report transfer_of_def list_all_iff split: phase.splits)
qed

text \<open>C20: A package is only received within the limits of its link: the entries fit the cap that
  its size limit gives, the sizes add up to at most the limit, every entry is stored directly
  under admitted names that do not collide, and the files of the session are the entries, one
  for one and in order.\<close>

theorem received_packages_are_admitted:
  assumes "schedule_law env" "named_entries entries"
    and "receive_package env setup h entries m = (Inr files, m')"
  shows "length entries \<le> ws_max_total setup div 4096 + 256 \<and> length entries \<le> 262144
    \<and> sum_list (map (oid_length \<circ> pe_object) entries) \<le> ws_max_total setup
    \<and> (\<forall>e \<in> set entries. pe_storage e = Direct
        \<and> (\<forall>c \<in> set (pe_path e). admit_component (ue_paths env) c (ws_allow_hidden setup) = Inr ()))
    \<and> admit_portable_paths (ue_paths env) (map (\<lambda>e. join_with [47] (pe_path e)) entries) = Inr ()
    \<and> map fs_display files = map (\<lambda>e. join_with [47] (pe_path e)) entries
    \<and> map fs_object files = map pe_object entries"
proof -
  note facts = receive_package_Inr [OF assms]
  note checked = check_package_Inr [OF facts(1)]
  have "map fs_display files = map (\<lambda>e. join_with [47] (pe_path e)) entries
      \<and> map fs_object files = map pe_object entries"
    using facts(2) by (induction rule: list_all2_induct) (auto simp: made_from_def)
  moreover have "length entries \<le> ws_max_total setup div 4096 + 256" "length entries \<le> 262144"
    using checked(2) by (simp_all add: max_entries_for_bytes_def ENTRY_ADMISSION_BYTES_def
        ENTRY_ADMISSION_FLOOR_def MAX_SESSION_ENTRIES_def)
  ultimately show ?thesis using checked(3-6) by blast
qed

text \<open>C21: No two unfinished uploads of a tenant write to one name: the key under which a new file
  of a received package claims its stored name is not among the keys that were pending, and no
  two new files of the package claim the same key.\<close>

theorem new_names_are_unclaimed:
  assumes "schedule_law env" "named_entries entries"
    and "receive_package env setup h entries m = (Inr files, m')"
    and "i < length files" "\<not> fs_published (files ! i)"
  shows "\<exists>key. stored_path_key env (ws_dest_rel setup) (split_on 0 (fs_stored (files ! i))) = Inr key
      \<and> (\<forall>ks. keys_of env (pending_upload_paths (m_store m) (ws_tenant setup)) = Inr ks \<longrightarrow> key \<notin> set ks)
      \<and> (\<forall>j < length files. \<not> fs_published (files ! j) \<and> i \<noteq> j \<longrightarrow>
           stored_path_key env (ws_dest_rel setup) (split_on 0 (fs_stored (files ! j))) \<noteq> Inr key)"
  using receive_package_Inr(3) [OF assms(1-3)] assms(4,5)
  unfolding well_named_def pending_keys_def claim_key_def by (metis sum.simps(6))

text \<open>C22: Every command is answered: the commands that a turn takes from the channel are a prefix
  of what is there, at most eight, and each gets exactly one reply, in order, which is of the
  type the command calls for or an error.\<close>

theorem commands_are_answered:
  assumes "schedule_law env" "turn env setup c queue s = (rs, (rest, carried), t)"
  shows "\<exists>taken. c # queue = taken @ rest \<and> list_all2 reply_fits taken rs \<and> length taken \<le> 8"
  using turn_answers [OF assms] by (simp add: MAX_CHUNK_BATCH_def)

section \<open>Witnesses\<close>

lemma demo_schedule: "schedule_law demo_env"
  by (simp add: schedule_law_def demo_env_def)

lemma demo_named: "named_entries demo_entries"
  by (simp add: named_entries_def demo_entries_def)

theorem turns_refine_the_transfer_witness:
  "\<exists>D. transfer_of (wk_phase (fst demo4)) = Moving D \<and> D = [True, False]
     \<and> reach (\<lambda>x. x = Announced) (moves 256) (Moving D)"
proof -
  obtain rs rest w' m' where "turn demo_env demo_setup Finish [] (fst demo4, snd demo4) = (rs, rest, w', m')"
    by (rule prod_cases4)
  from turns_refine_the_transfer [OF demo_schedule _ this] demo_session_reach(2)
  have "reach (\<lambda>x. x = Announced) (moves 256) (transfer_of (wk_phase (fst demo4)))"
    by (simp add: demo_setup_def max_entries_for_bytes_def ENTRY_ADMISSION_BYTES_def
        ENTRY_ADMISSION_FLOOR_def MAX_SESSION_ENTRIES_def)
  moreover have "map fs_published (receiving demo4) = [True, False]" using demo_facts by blast
  ultimately show ?thesis by (simp add: demo_phase)
qed

definition demo_received :: "(object_id \<times> nat) file_state list option" where
  "demo_received =
     (case receive_package demo_env demo_setup 0 demo_entries \<lparr>m_store = demo_store, m_world = 10\<rparr> of
        (Inl _, _) \<Rightarrow> None | (Inr files, _) \<Rightarrow> Some files)"

lemma demo_received_files: "map_option (map fs_published) demo_received = Some [False, False]"
  by code_simp

lemma demo_package:
  obtains files m' where "receive_package demo_env demo_setup 0 demo_entries \<lparr>m_store = demo_store, m_world = 10\<rparr>
      = (Inr files, m')" "map fs_published files = [False, False]"
  using demo_received_files by (auto simp: demo_received_def split: prod.splits sum.splits)

theorem received_packages_are_admitted_witness:
  "\<exists>files m'. receive_package demo_env demo_setup 0 demo_entries \<lparr>m_store = demo_store, m_world = 10\<rparr> = (Inr files, m')
     \<and> map fs_object files = map pe_object demo_entries"
  using received_packages_are_admitted [OF demo_schedule demo_named] demo_package by metis

theorem new_names_are_unclaimed_witness:
  "\<exists>files m' key. receive_package demo_env demo_setup 0 demo_entries \<lparr>m_store = demo_store, m_world = 10\<rparr> = (Inr files, m')
     \<and> stored_path_key demo_env [] (split_on 0 (fs_stored (files ! 0))) = Inr key
     \<and> stored_path_key demo_env [] (split_on 0 (fs_stored (files ! 1))) \<noteq> Inr key"
proof -
  obtain files m' where r: "receive_package demo_env demo_setup 0 demo_entries \<lparr>m_store = demo_store, m_world = 10\<rparr>
      = (Inr files, m')" and p: "map fs_published files = [False, False]" by (rule demo_package)
  from p have len: "length files = 2" "\<not> fs_published (files ! 0)" "\<not> fs_published (files ! 1)"
    by (auto dest: arg_cong [of _ _ length] arg_cong [of _ _ "\<lambda>xs. xs ! 0"] arg_cong [of _ _ "\<lambda>xs. xs ! 1"])
  from new_names_are_unclaimed [OF demo_schedule demo_named r, of 0] len r show ?thesis
    by (auto simp: demo_setup_def)
qed

theorem commands_are_answered_witness:
  "\<exists>rs rest t. turn demo_env demo_setup Finish [Abort] demo5 = (rs, rest, t) \<and> length rs \<le> 2"
proof -
  obtain rs rest carried t where t: "turn demo_env demo_setup Finish [Abort] demo5 = (rs, (rest, carried), t)"
    by (metis prod.exhaust)
  from commands_are_answered [OF demo_schedule t] obtain taken where
    "[Finish, Abort] = taken @ rest" "list_all2 reply_fits taken rs" by blast
  from list_all2_lengthD [OF this(2)] arg_cong [OF this(1), of length] t show ?thesis by auto
qed

end
