(* ===== verification/BootSystem.thy ===== *)
theory BootSystem
  imports ResumeSystem UploadSystem
begin

text \<open>
  What the boot does to the table of sessions: it adds no row, removes at most the row of the
  session it is working on, and leaves the life of every link as it is (\<open>boot_step\<close>). A session
  that keeps its row has its staging among the paths that are kept.
\<close>

section \<open>Steps that keep every session\<close>

definition link_life :: "upload_store \<Rightarrow> rstr \<Rightarrow> nat option option" where
  "link_life s l = map_option (\<lambda>(_, d). ld_expires_at d) (upload_link s l)"

definition alike :: "upload_store \<Rightarrow> upload_store \<Rightarrow> bool" where
  "alike s t \<longleftrightarrow>
     (\<forall>x. map_of (us_sessions t) x = None \<longleftrightarrow> map_of (us_sessions s) x = None)
     \<and> (\<forall>l. link_life t l = link_life s l)"

lemma alike_refl [simp]: "alike s s"
  by (simp add: alike_def)

lemma alike_trans [trans]: "alike s t \<Longrightarrow> alike t u \<Longrightarrow> alike s u"
  by (simp add: alike_def)

lemma alikeI:
  "us_sessions t = us_sessions s \<Longrightarrow> us_links t = us_links s \<Longrightarrow> links (us_jobs t) = links (us_jobs s) \<Longrightarrow> alike s t"
  by (simp add: alike_def link_life_def upload_link_def)

lemma transact_alike:
  "transact env f m = (r, m') \<Longrightarrow> (\<And>a t. f (m_store m) = Inr (a, t) \<Longrightarrow> alike (m_store m) t)
   \<Longrightarrow> alike (m_store m) (m_store m')"
  by (erule transact_cases) auto

lemma update_rows_sessions:
  "update_rows session rows s = Inr t \<Longrightarrow>
   us_sessions t = us_sessions s \<and> us_links t = us_links s \<and> us_jobs t = us_jobs s"
proof (induction session rows s arbitrary: t rule: update_rows.induct)
  case (1 session s)
  then show ?case by simp
next
  case (2 session entry p b r rows s)
  from "2.prems" obtain f where f: "map_of (us_files s) (session, to_i64 entry) = Some f"
    by (cases "map_of (us_files s) (session, to_i64 entry)") simp_all
  with "2.prems" have "update_rows session rows (s\<lparr>us_files := AList.update (session, to_i64 entry)
      (f\<lparr>pf_prefix := to_i64 p, pf_published := b, pf_receipt := r\<rparr>) (us_files s)\<rparr>) = Inr t" by simp
  from "2.IH" [OF f this] show ?case by simp
qed

lemma stamp_session_alike: "alike s (stamp_session x now s)"
  by (auto simp: stamp_session_def alike_def map_of_update link_life_def upload_link_def split: option.splits)

lemma progress_alike: "update_upload_file_progress x rows now s = Inr t \<Longrightarrow> alike s t"
proof -
  assume "update_upload_file_progress x rows now s = Inr t"
  then obtain u where u: "update_rows x rows s = Inr u" "t = stamp_session x now u"
    by (auto simp: update_upload_file_progress_def split: sum.splits)
  have "alike s u" using update_rows_sessions [OF u(1)] by (simp add: alikeI)
  then show ?thesis using stamp_session_alike u(2) by (auto intro: alike_trans)
qed

lemma set_interruption_alike: "alike s (set_interruption_reported i b s)"
  by (rule alikeI) (simp_all add: set_interruption_reported_def)

lemma record_session_event_alike:
  "record_session_event tenant link e s = Inr (b, t) \<Longrightarrow> alike s t"
  by (auto simp: record_session_event_def alike_def link_life_def upload_link_def map_of_update
      split: if_splits option.splits)

lemma commit_row_alike:
  "map_of (us_sessions s) x = Some r \<Longrightarrow> map_of (commit_row x i r s) y = None \<longleftrightarrow> map_of (us_sessions s) y = None"
  by (simp add: commit_row_def map_of_update)

lemma queue_upload_links: "queue_upload lib tenant link u now j token s = Inr t \<Longrightarrow> us_links t = us_links s"
  by (auto simp: queue_upload_def split: sum.splits)

lemma complete_route_links: "complete_route lib tenant link x u s = Inr t \<Longrightarrow> us_links t = us_links s"
  by (auto simp: complete_route_def Let_def receive_on_route_def split: option.splits if_splits prod.splits)

lemma insert_upload_alike: "insert_upload tenant link u s = Inr t \<Longrightarrow> alike s t"
  by (auto simp: insert_upload_def write_upload_def split: if_splits intro!: alikeI)

lemma commit_session_alike: "commit_session x i s = Inr t \<Longrightarrow> alike s t"
  by (auto simp: commit_session_def alike_def map_of_update link_life_def upload_link_def
      split: option.splits if_splits)

lemma record_upload_alike:
  assumes "record_upload lib tenant link u (Some x) now j token s = Inr (r, t)"
  shows "alike s t"
proof -
  from assms obtain s1 where s1: "insert_upload tenant link u s = Inr s1"
    by (auto simp: record_upload_def split: sum.splits)
  with assms obtain s2 where s2: "complete_route lib tenant link x u s1 = Inr s2"
    by (auto simp: record_upload_def split: sum.splits)
  with assms s1 obtain s3 where s3: "queue_upload lib tenant link u now j token s2 = Inr s3"
    by (auto simp: record_upload_def split: sum.splits)
  from assms s1 s2 s3 have t: "(if ur_partial u then Inr s3 else commit_session x (ur_id u) s3) = Inr t"
    by (auto simp: record_upload_def split: sum.splits if_splits)
  have "alike s s1" by (rule insert_upload_alike [OF s1])
  also have "alike s1 s2"
    using complete_route_facts [OF s2] complete_route_links [OF s2] by (simp add: alikeI)
  also have "alike s2 s3"
    using queue_upload_facts [OF s3] queue_upload_links [OF s3] by (simp add: alikeI)
  also have "alike s3 t" using t by (auto split: if_splits dest: commit_session_alike)
  finally show ?thesis .
qed

lemma append_upload_alike:
  assumes "append_upload_inner lib tenant link u (Some x) now j token s = Inr (r, t)"
  shows "alike s t"
proof (cases "append_to_link lib tenant link u (Some x) now j token s = Inr (r, t)")
  case True
  have w: "alike s (write_upload tenant link v s)" for v
    by (rule alikeI) (simp_all add: write_upload_def)
  from True show ?thesis
    by (auto simp: append_to_link_def w split: if_splits option.splits sum.splits dest: record_upload_alike)
next
  case False
  with assms have "t = s" by (auto simp: append_upload_inner_def split: option.splits if_splits)
  then show ?thesis by simp
qed

lemma map_sum_unit: "map_sum id (Pair ()) x = Inr (a, t) \<longleftrightarrow> x = Inr t"
  by (cases x) auto

lemma checkpoint_files_alike:
  "checkpoint_files env setup (files, m) = (b, files', m') \<Longrightarrow> alike (m_store m) (m_store m')"
  by (auto simp: checkpoint_files_def split: if_splits prod.splits sum.splits
      dest!: transact_alike simp: map_sum_unit dest: progress_alike)

lemma checkpoint_session_alike:
  assumes "checkpoint_session env setup (files, m) = (b, files', m')"
  shows "alike (m_store m) (m_store m')"
proof -
  obtain c fs n where a: "checkpoint_files env setup (files, m) = (c, fs, n)" by (rule prod_cases3)
  note w = checkpoint_files_alike [OF a]
  show ?thesis
  proof (cases c)
    case True
    with assms a have "forget_publications env (fs, n) = (b, files', m')" by (simp add: checkpoint_session_def)
    from forget_publications_step [OF this] w show ?thesis by (simp add: files_step_def store_kept_def)
  next
    case False
    with assms a w show ?thesis by (simp add: checkpoint_session_def)
  qed
qed

section \<open>Resuming keeps every session\<close>

lemma publish_complete_store:
  "publish_complete env setup active s = (r, xs, m') \<Longrightarrow> m_store m' = m_store (snd s)"
proof (induction env "setup" active s arbitrary: r xs m' rule: publish_complete.induct)
  case (2 env ws active f i p rest m)
  obtain q f' m1 where a: "publish_file env ws active (f, m) = (q, f', m1)" by (rule prod_cases3)
  from keepsD [OF keeps_publish_file a] have k: "m_store m1 = m_store m"
    by (simp add: file_step_def store_kept_def)
  obtain r2 xs2 m2 where b: "publish_complete env ws active (rest, m1) = (r2, xs2, m2)" by (rule prod_cases3)
  obtain r3 xs3 m3 where c: "publish_complete env ws active (rest, m) = (r3, xs3, m3)" by (rule prod_cases3)
  show ?case
  proof (cases "is_whole env f \<and> \<not> fs_published f")
    case False
    with "2.IH"(2) [OF False c] "2.prems" c show ?thesis by auto
  next
    case True
    show ?thesis
    proof (cases q)
      case (Inl e)
      with "2.prems" True a k show ?thesis by auto
    next
      case (Inr x)
      with "2.IH"(1) [OF True a [symmetric] Inr refl b] "2.prems" True a b k show ?thesis by auto
    qed
  qed
qed simp

lemma restore_files_alike:
  assumes "restore_files env setup active (p, m) = (r, p', m')"
  shows "alike (m_store m) (m_store m')"
proof (cases "check_resume env setup p")
  case (Inl e)
  with assms show ?thesis by (auto simp: restore_files_def)
next
  case checked: (Inr u)
  obtain q made saved m1 where a: "restore_each env setup active (ps_files p, m) = (q, made, saved, m1)"
    by (rule prod_cases4)
  from restore_each_saved [OF a] have s1: "m_store m1 = m_store m" by simp
  show ?thesis
  proof (cases q)
    case (Inl e)
    with assms checked a s1 show ?thesis by (auto simp: restore_files_def drop_files_store)
  next
    case (Inr v)
    obtain q2 xs m2 where b: "publish_complete env setup active (zip (map fst made) saved, m1) = (q2, xs, m2)"
      by (rule prod_cases3)
    obtain c files' m3 where k: "checkpoint_session env setup (map fst xs, m2) = (c, files', m3)"
      by (rule prod_cases3)
    have "m_store m' = m_store m3"
      using assms checked a Inr b k by (auto simp: restore_files_def drop_files_store split: sum.splits)
    with checkpoint_session_alike [OF k] publish_complete_store [OF b] s1 show ?thesis by simp
  qed
qed

lemma resume_worker_alike:
  assumes "resume_worker env setup (p, m) = (r, p', m')"
  shows "alike (m_store m) (m_store m')"
proof -
  obtain q p2 m2 where a: "restore_files env setup (wd_live env) (p, m) = (q, p2, m2)" by (rule prod_cases3)
  with assms have "m' = m2" by (auto simp: resume_worker_def split: sum.splits)
  with restore_files_alike [OF a] show ?thesis by simp
qed

text \<open>The session a resume hands back is the one it was given, with files that may have been
  published meanwhile.\<close>

definition same_session :: "persisted_session \<Rightarrow> persisted_session \<Rightarrow> bool" where
  "same_session p p' \<longleftrightarrow>
     ps_id p' = ps_id p \<and> ps_link_id p' = ps_link_id p \<and> ps_tenant p' = ps_tenant p
     \<and> ps_dest_dir p' = ps_dest_dir p \<and> ps_push_key p' = ps_push_key p \<and> ps_committed p' = ps_committed p
     \<and> staging_paths p' = staging_paths p"

lemma same_session_refl [simp]: "same_session p p"
  by (simp add: same_session_def)

lemma saved_staging:
  "list_all2 (\<lambda>(i, f) (j, g). j = i \<and> same_saved f g) fs gs \<Longrightarrow>
   concat (map (\<lambda>(_, f). [pf_staging f, pf_journal f]) gs) = concat (map (\<lambda>(_, f). [pf_staging f, pf_journal f]) fs)"
  by (induction rule: list_all2_induct) (auto simp: same_saved_def)

lemma publish_complete_staging:
  "publish_complete env setup active s = (r, xs, m') \<Longrightarrow>
   map (\<lambda>(_, i, p). [pf_staging p, pf_journal p]) xs = map (\<lambda>(_, i, p). [pf_staging p, pf_journal p]) (fst s)"
proof (induction env "setup" active s arbitrary: r xs m' rule: publish_complete.induct)
  case (2 env ws active f i p rest m)
  obtain q f' m1 where a: "publish_file env ws active (f, m) = (q, f', m1)" by (rule prod_cases3)
  obtain r2 xs2 m2 where b: "publish_complete env ws active (rest, m1) = (r2, xs2, m2)" by (rule prod_cases3)
  obtain r3 xs3 m3 where c: "publish_complete env ws active (rest, m) = (r3, xs3, m3)" by (rule prod_cases3)
  show ?case
  proof (cases "is_whole env f \<and> \<not> fs_published f")
    case False
    with "2.IH"(2) [OF False c] "2.prems" c show ?thesis by auto
  next
    case True
    show ?thesis
    proof (cases q)
      case (Inl e)
      with "2.prems" True a show ?thesis by (auto simp: saved_after_def)
    next
      case (Inr x)
      with "2.IH"(1) [OF True a [symmetric] Inr refl b] "2.prems" True a b show ?thesis
        by (auto simp: saved_after_def)
    qed
  qed
qed simp

lemma restore_files_session:
  assumes "restore_files env setup active (p, m) = (r, p', m')"
  shows "same_session p p'"
proof (cases "check_resume env setup p")
  case (Inl e)
  with assms show ?thesis by (auto simp: restore_files_def)
next
  case checked: (Inr u)
  obtain q made saved m1 where a: "restore_each env setup active (ps_files p, m) = (q, made, saved, m1)"
    by (rule prod_cases4)
  have st: "concat (map (\<lambda>(_, f). [pf_staging f, pf_journal f]) saved) = staging_paths p"
  proof -
    from restore_each_saved [OF a]
    have "list_all2 (\<lambda>(i, f) (j, g). j = i \<and> same_saved f g) (ps_files p) saved" by simp
    from saved_staging [OF this] show ?thesis by (simp add: staging_paths_def)
  qed
  show ?thesis
  proof (cases q)
    case (Inl e)
    with assms checked a st show ?thesis
      by (auto simp: restore_files_def same_session_def staging_paths_def)
  next
    case (Inr v)
    then have q: "q = Inr ()" by simp
    from restore_each_made [OF a [unfolded q]] have len: "length made = length saved" by simp
    let ?zs = "zip (map fst made) saved"
    obtain q2 xs m2 where b: "publish_complete env setup active (?zs, m1) = (q2, xs, m2)"
      by (rule prod_cases3)
    obtain c files' m3 where k: "checkpoint_session env setup (map fst xs, m2) = (c, files', m3)"
      by (rule prod_cases3)
    have p': "p' = p\<lparr>ps_files := map snd xs\<rparr>"
      using assms checked a q b k by (auto simp: restore_files_def split: sum.splits)
    have "map (\<lambda>(_, f). [pf_staging f, pf_journal f]) (map snd xs) = map (\<lambda>(_, i, p). [pf_staging p, pf_journal p]) ?zs"
      using publish_complete_staging [OF b] by (simp add: case_prod_unfold comp_def)
    also have "\<dots> = map (\<lambda>(_, f). [pf_staging f, pf_journal f]) (map snd ?zs)"
      by (simp add: case_prod_unfold comp_def)
    finally have "concat (map (\<lambda>(_, f). [pf_staging f, pf_journal f]) (map snd xs)) = staging_paths p"
      using st len by (simp add: map_snd_zip)
    then show ?thesis by (simp add: p' same_session_def staging_paths_def)
  qed
qed

lemma resume_worker_session:
  assumes "resume_worker env setup (p, m) = (r, p', m')"
  shows "same_session p p'"
proof -
  obtain q p2 m2 where a: "restore_files env setup (wd_live env) (p, m) = (q, p2, m2)" by (rule prod_cases3)
  with assms have "p' = p2" by (auto simp: resume_worker_def split: sum.splits)
  with restore_files_session [OF a] show ?thesis by simp
qed

text \<open>The paths a resume keeps: all of them, but those of settled files.\<close>

definition settled_path :: "('w, 'v, 'c, 'k, 'b) upload_env \<Rightarrow> persisted_file \<Rightarrow> bool" where
  "settled_path env f \<longleftrightarrow> pf_published f \<and> (\<exists>w. wd_journal_exists env (pf_journal f) w = Inr False)"

lemma restore_file_settled:
  assumes "restore_file env setup active (f, m) = (Inr (None, evs), f', m')"
  shows "settled_path env f"
proof -
  from assms obtain u d destination settled where
    o: "lifted (world_step (wd_open env (butlast destination) False)) (f, m) = (Inr d, u)"
    and s: "settled_file env u = (Inr settled, u)"
    and r: "(if settled then yields (None, []) else and_then (restore_staging env setup d destination)
        (\<lambda>(st, evs). yields (Some st, evs))) u = (Inr (None, evs), f', m')"
    unfolding restore_file_def
    by (force simp: and_then_Inr ensures_Inr checks_Inr rewords_Inr settled_file_def)
  have k: "fst u = f" using o by (auto simp: lifted_def split: prod.splits)
  have settled using r by (auto simp: and_then_Inr split: if_splits)
  with s k show ?thesis
    by (cases u) (auto simp: settled_file_def settled_path_def map_sum_def split: if_splits sum.splits)
qed

lemma kept_paths_Cons:
  "kept_paths ((f, i, p) # xs) = (if fs_native f = None then [] else [pf_staging p, pf_journal p]) @ kept_paths xs"
  by (simp add: kept_paths_def)

lemma restore_each_kept:
  "restore_each env setup active s = (Inr (), made, saved, m') \<Longrightarrow> (i, f) \<in> set (fst s) \<Longrightarrow>
   {pf_staging f, pf_journal f} \<subseteq> set (kept_paths (zip (map fst made) saved)) \<or> settled_path env f"
proof (induction env "setup" active s arbitrary: made saved m' rule: restore_each.induct)
  case (2 env ws active j g fs m)
  obtain q g' m1 where a: "restore_file env ws active (g, m) = (q, g', m1)" by (rule prod_cases3)
  with "2.prems" obtain native evs where q: "q = Inr (native, evs)" by (cases q) auto
  obtain r2 made2 saved2 m2 where b: "restore_each env ws active (fs, m1) = (r2, made2, saved2, m2)"
    by (rule prod_cases4)
  with "2.prems" a q have r: "r2 = Inr ()" "made = (restored native g', evs) # made2" "saved = (j, g') # saved2"
    by auto
  note ih = "2.IH" [OF a [symmetric] q refl refl b [unfolded r(1)]]
  have same: "pf_staging g' = pf_staging g" "pf_journal g' = pf_journal g"
    using keepsD [OF keeps_restore_file a] by (simp_all add: saved_step_def same_saved_def)
  show ?case
  proof (cases "(i, f) = (j, g)")
    case True
    show ?thesis
    proof (cases native)
      case None
      with restore_file_settled a q True show ?thesis by fastforce
    next
      case (Some st)
      with True r same show ?thesis by (auto simp: kept_paths_def restored_def)
    qed
  next
    case False
    with "2.prems"(2) have "(i, f) \<in> set fs" by auto
    with ih have "{pf_staging f, pf_journal f} \<subseteq> set (kept_paths (zip (map fst made2) saved2)) \<or> settled_path env f"
      by simp
    then show ?thesis using r by (auto simp: kept_paths_Cons)
  qed
qed simp

lemma resume_worker_kept:
  assumes "resume_worker env setup (p, m) = (Inr (w, kept, already), p', m')" "(i, f) \<in> set (ps_files p)"
  shows "{pf_staging f, pf_journal f} \<subseteq> set kept \<or> settled_path env f"
proof -
  obtain q p2 m2 where a: "restore_files env setup (wd_live env) (p, m) = (q, p2, m2)" by (rule prod_cases3)
  with assms(1) obtain files evs where q: "q = Inr (files, kept, evs)"
    by (auto simp: resume_worker_def split: sum.splits prod.splits)
  obtain r made saved m1 where b: "restore_each env setup (wd_live env) (ps_files p, m) = (r, made, saved, m1)"
    by (rule prod_cases4)
  from a q b have "r = Inr ()" "kept = kept_paths (zip (map fst made) saved)"
    by (auto simp: restore_files_def split: sum.splits prod.splits)
  with restore_each_kept b assms(2) show ?thesis by fastforce
qed

section \<open>Cleaning up and discarding\<close>

definition store_same :: "'w machine \<Rightarrow> 'w machine \<Rightarrow> bool" where
  "store_same m m' \<longleftrightarrow> m_store m' = m_store m"

lemma store_same_refl [simp]: "reflp store_same" "transp store_same"
  by (auto simp: store_same_def intro: reflpI transpI)

lemma keeps_observes: "keeps store_same (observes f)"
  unfolding observes_def by (intro keeps_looks store_same_refl)

lemma keeps_performs: "keeps store_same (performs f)"
  unfolding performs_def
  by (intro keeps_rewords keepsI) (auto simp: world_step_def store_same_def split: prod.splits)

lemmas store_same_steps = keeps_and_then keeps_ensures keeps_checks keeps_yields keeps_fails keeps_if
  keeps_observes keeps_performs keeps_each_step store_same_refl

lemma keeps_no_staging: "keeps store_same (no_staging boot f)"
  unfolding no_staging_def by (intro store_same_steps)

lemma keeps_cleanup_file: "keeps store_same (cleanup_file env boot d f)"
  unfolding cleanup_file_def retire_journal_def by (intro store_same_steps keeps_no_staging)

lemma keeps_discard_files: "keeps store_same (discard_session_files boot p)"
  unfolding discard_session_files_def discard_staged_path_def by (intro store_same_steps)

lemma discard_push_store: "discard_push boot p key m = (r, m') \<Longrightarrow> m_store m' = m_store m"
proof -
  assume h: "discard_push boot p key m = (r, m')"
  obtain q m1 where a: "world_step (bo_lock boot (push_directory p key)) m = (q, m1)" by (rule prod.exhaust)
  have "keeps store_same (and_then (discard_session_files boot p)
      (\<lambda>_. performs (bo_remove_push boot (push_directory p key))))"
    by (intro store_same_steps keeps_discard_files)
  with h a m_store_world_step [OF a] show ?thesis
    by (auto simp: discard_push_def store_same_def split: sum.splits lock_error.splits
        dest: keepsD keepsD [OF keeps_discard_files])
qed

lemma stores_cases:
  assumes "stores env f m = (r, m')"
  obtains e where "r = Inl e" "m_store m' = m_store m" | "r = Inr ()" "m_store m' = f (m_store m)"
proof -
  obtain q n where a: "transact env (\<lambda>s. Inr ((), f s)) m = (q, n)" by (rule prod.exhaust)
  then show thesis
    by (cases rule: transact_cases) (use assms a that in \<open>auto simp: stores_def rewords_def\<close>)
qed

lemma cleanup_committed_store:
  assumes "cleanup_committed_session env boot p m = (r, m')"
  shows "isl r \<and> m_store m' = m_store m \<or> \<not> isl r \<and> m_store m' = delete_upload_session (ps_id p) (m_store m)"
proof -
  let ?work = "and_then (ensures (\<lambda>_. ps_committed p \<noteq> None) (told ''upload has not committed'')) (\<lambda>_.
     each_step (cleanup_file env boot (ps_dest_dir p)) (map snd (ps_files p)))"
  have k: "keeps store_same ?work" by (intro store_same_steps keeps_cleanup_file)
  obtain q n where a: "?work m = (q, n)" by (rule prod.exhaust)
  with k have st: "m_store n = m_store m" by (auto simp: store_same_def dest: keepsD)
  show ?thesis
  proof (cases q)
    case (Inl e)
    with a assms have "isl r" "m' = n"
      by (auto simp: cleanup_committed_session_def and_then_def split: prod.splits sum.splits)
    with st show ?thesis by simp
  next
    case (Inr x)
    with a assms have "stores env (delete_upload_session (ps_id p)) n = (r, m')"
      by (auto simp: cleanup_committed_session_def and_then_def split: prod.splits sum.splits)
    then show ?thesis by (cases rule: stores_cases) (use st in auto)
  qed
qed

lemma discard_refused_store:
  assumes "discard_refused_session env boot p m = (r, m')"
  shows "isl r \<and> m_store m' = m_store m \<or> \<not> isl r \<and> m_store m' = delete_upload_session (ps_id p) (m_store m)"
proof -
  let ?work = "case ps_push_key p of
         Some key \<Rightarrow> if \<not> valid_hex key 32 then fails invalid_push_key else discard_push boot p key
       | None \<Rightarrow> discard_session_files boot p"
  obtain q n where a: "?work m = (q, n)" by (rule prod.exhaust)
  have st: "m_store n = m_store m"
    using a by (auto simp: store_same_def split: option.splits if_splits dest: discard_push_store
        keepsD [OF keeps_discard_files])
  show ?thesis
  proof (cases q)
    case (Inl e)
    with a assms have "isl r" "m' = n" by (auto simp: discard_refused_session_def and_then_def)
    with st show ?thesis by simp
  next
    case (Inr x)
    with a assms have "stores env (delete_upload_session (ps_id p)) n = (r, m')"
      by (auto simp: discard_refused_session_def)
    then show ?thesis by (cases rule: stores_cases) (use st in auto)
  qed
qed

section \<open>One session\<close>

definition boot_step :: "rstr set \<Rightarrow> upload_store \<Rightarrow> upload_store \<Rightarrow> bool" where
  "boot_step I s t \<longleftrightarrow>
     (\<forall>x. map_of (us_sessions s) x = None \<longrightarrow> map_of (us_sessions t) x = None)
     \<and> (\<forall>x. x \<notin> I \<longrightarrow> map_of (us_sessions t) x = None \<longrightarrow> map_of (us_sessions s) x = None)
     \<and> (\<forall>l. link_life t l = link_life s l)"

lemma alike_boot_step: "alike s t \<Longrightarrow> boot_step I s t"
  by (simp add: alike_def boot_step_def)

lemma boot_step_refl [simp]: "boot_step I s s"
  by (simp add: boot_step_def)

lemma boot_step_mono: "boot_step I s t \<Longrightarrow> I \<subseteq> J \<Longrightarrow> boot_step J s t"
  unfolding boot_step_def by blast

lemma boot_step_trans [trans]: "boot_step I s t \<Longrightarrow> boot_step I t u \<Longrightarrow> boot_step I s u"
  unfolding boot_step_def by (elim conjE, intro conjI) (blast, blast, simp)

lemma delete_session_step: "boot_step {i} s (delete_upload_session i s)"
  by (auto simp: boot_step_def delete_upload_session_def delete_conv' link_life_def upload_link_def)

lemma append_recovered_alike: "alike (m_store m) (m_store (append_recovered env p u m))"
proof -
  obtain job w where j: "fresh_token env (m_world m) = (job, w)" by (rule prod.exhaust)
  obtain token w' where k: "fresh_token env w = (token, w')" by (rule prod.exhaust)
  obtain r n where t: "transact env (append_upload_inner (ue_lib env) (ps_tenant p) (ps_link_id p) u (Some (ps_id p))
               (unix_now env w') job token) (m\<lparr>m_world := w'\<rparr>) = (r, n)" by (rule prod.exhaust)
  have "alike (m_store (m\<lparr>m_world := w'\<rparr>)) (m_store n)"
    by (rule transact_alike [OF t]) (auto intro: append_upload_alike)
  with j k t show ?thesis by (simp add: append_recovered_def)
qed

lemma interruption_alike: "alike (m_store m) (m_store (commit_persisted_interruption env p detail m))"
proof (cases "ps_committed p = None")
  case True
  have ev: "alike (m_store n) (m_store (snd (transact env (record_session_event tenant link e) n)))" for tenant link e n
  proof -
    obtain r t where a: "transact env (record_session_event tenant link e) n = (r, t)" by (rule prod.exhaust)
    then have "alike (m_store n) (m_store t)"
      by (rule transact_alike) (auto intro: record_session_event_alike)
    with a show ?thesis by simp
  qed
  show ?thesis
    using True ev alike_trans [OF append_recovered_alike [of _ env] ev]
    by (simp add: commit_persisted_interruption_def Let_def)
qed (simp add: commit_persisted_interruption_def)

lemma report_once_alike: "alike (m_store m) (m_store (report_once env p e m))"
proof -
  obtain q n where a: "queries env (\<lambda>s. Inr (interruption_reported s (ps_id p))) m = (q, n)" by (rule prod.exhaust)
  have st: "m_store n = m_store m"
    using a by (auto simp: queries_def split: prod.splits elim!: transact_cases)
  obtain r t where b: "stores env (set_interruption_reported (ps_id p) True)
      (commit_persisted_interruption env p (failed_detail (refusal_text env e)) n) = (r, t)" by (rule prod.exhaust)
  have "alike (m_store n) (m_store t)"
    using b alike_trans [OF interruption_alike set_interruption_alike] interruption_alike
    by (cases rule: stores_cases) auto
  then show ?thesis using a b st by (auto simp: report_once_def split: sum.splits bool.splits)
qed

text \<open>The link is gone, or expired by some clock reading.\<close>

definition link_dead :: "('w, 'v, 'c, 'k, 'b) upload_env \<Rightarrow> upload_store \<Rightarrow> rstr \<Rightarrow> bool" where
  "link_dead env s l \<longleftrightarrow>
     link_life s l = None \<or> (\<exists>at' w. link_life s l = Some (Some at') \<and> at' \<le> unix_now env w)"

lemma alike_dead: "alike s t \<Longrightarrow> link_dead env t l = link_dead env s l"
  by (simp add: alike_def link_dead_def)

lemma alike_row: "alike s t \<Longrightarrow> map_of (us_sessions t) x = None \<longleftrightarrow> map_of (us_sessions s) x = None"
  by (simp add: alike_def)

lemma queries_store: "queries env f m = (r, m') \<Longrightarrow> m_store m' = m_store m"
  by (auto simp: queries_def map_sum_def split: sum.splits elim!: transact_cases)

lemma permanent_refusal_facts:
  assumes "permanent_refusal_detail env p m = (r, m')"
  shows "m_store m' = m_store m" "r \<noteq> None \<Longrightarrow> link_dead env (m_store m) (ps_link_id p)"
proof -
  obtain q n where a: "find_link env (ps_link_id p) m = (q, n)" by (rule prod.exhaust)
  have st: "m_store n = m_store m" using a by (auto simp: find_link_def dest: queries_store)
  have q: "q = Inr x \<Longrightarrow> upload_link (m_store m) (ps_link_id p) = x" for x
    using a by (auto simp: find_link_def dest: queries_Inr)
  show "m_store m' = m_store m"
    using assms a st by (auto simp: permanent_refusal_detail_def split: sum.splits option.splits prod.splits)
  assume "r \<noteq> None"
  with assms a q show "link_dead env (m_store m) (ps_link_id p)"
    by (auto simp: permanent_refusal_detail_def link_dead_def link_life_def
        split: sum.splits option.splits prod.splits if_splits)
qed

lemma delete_gone: "m_store m' = delete_upload_session i s \<Longrightarrow> map_of (us_sessions (m_store m')) i = None"
  by (simp add: delete_upload_session_gone)

lemma refuse_session_evidence:
  assumes h: "refuse_session env boot p e m = (kept, m')"
  shows "boot_step {ps_id p} (m_store m) (m_store m')"
    and "map_of (us_sessions (m_store m')) (ps_id p) \<noteq> None \<Longrightarrow> set (staging_paths p) \<subseteq> set kept"
    and "map_of (us_sessions (m_store m)) (ps_id p) \<noteq> None \<Longrightarrow> map_of (us_sessions (m_store m')) (ps_id p) = None
      \<Longrightarrow> link_dead env (m_store m) (ps_link_id p)"
    and "ps_push_key p = Some key \<Longrightarrow> push_directory p key \<in> set kept \<or> link_dead env (m_store m) (ps_link_id p)"
proof -
  obtain q n where a: "permanent_refusal_detail env p m = (q, n)" by (rule prod.exhaust)
  note facts = permanent_refusal_facts [OF a]
  have "boot_step {ps_id p} (m_store m) (m_store m')
    \<and> (map_of (us_sessions (m_store m')) (ps_id p) \<noteq> None \<longrightarrow> set (staging_paths p) \<subseteq> set kept)
    \<and> (map_of (us_sessions (m_store m)) (ps_id p) \<noteq> None \<longrightarrow> map_of (us_sessions (m_store m')) (ps_id p) = None
      \<longrightarrow> link_dead env (m_store m) (ps_link_id p))
    \<and> (ps_push_key p = Some key \<longrightarrow> push_directory p key \<in> set kept \<or> link_dead env (m_store m) (ps_link_id p))"
  proof (cases q)
    case None
    with h a have k: "kept = staging_paths p @ (case ps_push_key p of None \<Rightarrow> [] | Some key \<Rightarrow> [push_directory p key])"
      and m': "m' = report_once env p e n" by (auto simp: refuse_session_def)
    have "alike (m_store m) (m_store m')" using report_once_alike [of n env p e] facts(1) m' by simp
    with k show ?thesis by (auto simp: alike_boot_step) (simp_all add: alike_def)
  next
    case (Some detail)
    let ?n = "commit_persisted_interruption env p (failed_detail detail) n"
    obtain r t where b: "discard_refused_session env boot p ?n = (r, t)" by (rule prod.exhaust)
    have al: "alike (m_store m) (m_store ?n)" using interruption_alike [of n env p] facts(1) by simp
    have dead: "link_dead env (m_store m) (ps_link_id p)" using facts(2) Some by simp
    from h a Some b have m': "m' = t" "kept = (if isl r then staging_paths p else [])"
      by (auto simp: refuse_session_def split: sum.splits)
    show ?thesis
      using discard_refused_store [OF b] al m' dead delete_session_step [of "ps_id p" "m_store ?n"]
      by (auto simp: delete_upload_session_gone intro: alike_boot_step boot_step_trans)
  qed
  then show "boot_step {ps_id p} (m_store m) (m_store m')"
    "map_of (us_sessions (m_store m')) (ps_id p) \<noteq> None \<Longrightarrow> set (staging_paths p) \<subseteq> set kept"
    "map_of (us_sessions (m_store m)) (ps_id p) \<noteq> None \<Longrightarrow> map_of (us_sessions (m_store m')) (ps_id p) = None
      \<Longrightarrow> link_dead env (m_store m) (ps_link_id p)"
    "ps_push_key p = Some key \<Longrightarrow> push_directory p key \<in> set kept \<or> link_dead env (m_store m) (ps_link_id p)"
    by blast+
qed

lemma readmit_store: "readmit env boot p m = (r, m') \<Longrightarrow> m_store m' = m_store m"
proof -
  have "keeps store_same (readmit env boot p)"
  proof -
    have f: "keeps store_same (rewords OfStore (find_link env l))" for l
      by (intro keeps_rewords keepsI) (auto simp: find_link_def store_same_def dest: queries_store)
    show ?thesis unfolding readmit_def case_prod_unfold
      by (intro f store_same_steps)
  qed
  then show "readmit env boot p m = (r, m') \<Longrightarrow> m_store m' = m_store m"
    by (auto simp: store_same_def dest: keepsD)
qed

section \<open>The end of a worker\<close>

lemma commit_records_alike:
  assumes "commit_upload_records env setup records replays rejected transport partly elog m = (r, m')"
  shows "alike (m_store m) (m_store m')"
proof -
  obtain i w1 where i: "fresh_token env (m_world m) = (i, w1)" by (rule prod.exhaust)
  obtain j w2 where j: "fresh_token env w1 = (j, w2)" by (rule prod.exhaust)
  obtain k w3 where k: "fresh_token env w2 = (k, w3)" by (rule prod.exhaust)
  define u where "u = new_upload env setup records replays rejected transport partly elog i (unix_now env w3)"
  obtain q n where t: "transact env (append_upload_inner (ue_lib env) (ws_tenant setup) (ws_link setup) u
      (Some (ws_session setup)) (unix_now env w3) j k) (m\<lparr>m_world := w3\<rparr>) = (q, n)" by (rule prod.exhaust)
  have "m' = n"
    using assms i j k t by (auto simp: commit_upload_records_def and_then_def world_step_def Let_def u_def
        split: sum.splits option.splits)
  moreover have "alike (m_store (m\<lparr>m_world := w3\<rparr>)) (m_store n)"
    by (rule transact_alike [OF t]) (auto intro: append_upload_alike)
  ultimately show ?thesis by simp
qed

lemma commit_partial_alike: "commit_partial env setup w m = (b, p, m') \<Longrightarrow> alike (m_store m) (m_store m')"
  by (auto simp: commit_partial_def Let_def split: phase.splits if_splits sum.splits prod.splits
      dest!: commit_records_alike checkpoint_session_alike intro: alike_trans)

lemma preserve_phase_alike: "preserve_phase env setup (p, m) = (b, p', m') \<Longrightarrow> alike (m_store m) (m_store m')"
  by (auto simp: preserve_phase_def abandon_files_store split: phase.splits prod.splits dest!: checkpoint_session_alike)

lemma forget_session_step: "boot_step {ws_session setup} (m_store m) (m_store (forget_session env setup m))"
proof -
  obtain r n where t: "transact env (\<lambda>s. Inr ((), delete_upload_session (ws_session setup) s)) m = (r, n)"
    by (rule prod.exhaust)
  have "boot_step {ws_session setup} (m_store m) (m_store n)"
    using t by (cases rule: transact_cases) (auto simp: delete_session_step)
  with t show ?thesis by (simp add: forget_session_def)
qed

lemma event_of_alike: "alike (m_store m) (m_store (event_of env setup w o' d m))"
  unfolding event_of_def record_event_def
  by (rule transact_alike [OF prod.collapse [symmetric]]) (rule record_session_event_alike)

lemma wind_up_step:
  assumes "wind_up env setup w m = (b, p, m')"
  shows "boot_step {ws_session setup} (m_store m) (m_store m')"
proof -
  obtain c q n where a: "commit_partial env setup w m = (c, q, n)" by (rule prod_cases3)
  note al = alike_boot_step [OF commit_partial_alike [OF a]]
  show ?thesis
  proof (cases c)
    case True
    with assms a have "m' = forget_session env setup n" by (simp add: wind_up_def)
    with boot_step_trans [OF al forget_session_step] show ?thesis by simp
  next
    case False
    obtain d q2 n2 where k: "preserve_phase env setup (q, n) = (d, q2, n2)" by (rule prod_cases3)
    with assms a False have "m' = n2" by (simp add: wind_up_def)
    with boot_step_trans [OF al alike_boot_step [OF preserve_phase_alike [OF k]]] show ?thesis by simp
  qed
qed

lemma worker_exit_step:
  "worker_exit env setup (w, m) = (w', m') \<Longrightarrow> boot_step {ws_session setup} (m_store m) (m_store m')"
  by (auto simp: worker_exit_def Let_def phase_drop_store split: if_splits prod.splits
      intro: boot_step_trans [OF wind_up_step alike_boot_step [OF event_of_alike]])

lemma end_worker_step:
  "boot_step (set (bt_ended (end_worker env k b))) (m_store (bt_machine b)) (m_store (bt_machine (end_worker env k b)))
   \<and> set (bt_ended b) \<subseteq> set (bt_ended (end_worker env k b))"
proof (cases "\<exists>setup w rest. drop k (bt_workers b) = (setup, w, False) # rest")
  case True
  then obtain ws w rest where d: "drop k (bt_workers b) = (ws, w, False) # rest" by blast
  obtain rs w' m where s: "serve env ws False [] (w, bt_machine b) = (rs, w', m)" by (rule prod_cases3)
  then have "worker_exit env ws (w, (bt_machine b)\<lparr>m_world := receive env (m_world (bt_machine b))\<rparr>) = (w', m)"
    by (simp add: serve.simps)
  from worker_exit_step [OF this] d s show ?thesis by (auto simp: end_worker_def intro: boot_step_mono)
next
  case False
  then have "end_worker env k b = b" by (auto simp: end_worker_def split: list.split prod.split bool.split)
  then show ?thesis by simp
qed

lemma workers_run_step:
  "boot_step (set (bt_ended (workers_run env boot b))) (m_store (bt_machine b)) (m_store (bt_machine (workers_run env boot b)))
   \<and> set (bt_ended b) \<subseteq> set (bt_ended (workers_run env boot b))"
proof -
  have "boot_step (set (bt_ended (fold (end_worker env) ks b))) (m_store (bt_machine b))
      (m_store (bt_machine (fold (end_worker env) ks b)))
    \<and> set (bt_ended b) \<subseteq> set (bt_ended (fold (end_worker env) ks b))" for ks
  proof (induction ks arbitrary: b)
    case (Cons k ks)
    from end_worker_step [of env k b] Cons.IH [of "end_worker env k b"] show ?case
      by (auto intro: boot_step_trans boot_step_mono)
  qed simp
  then show ?thesis unfolding workers_run_def .
qed

section \<open>Resuming\<close>

text \<open>What is left of the evidence of a file that could be needed again.\<close>

definition kept_for :: "('w, 'v, 'c, 'k, 'b) upload_env \<Rightarrow> rstr list list \<Rightarrow> persisted_session \<Rightarrow> bool" where
  "kept_for env kept p \<longleftrightarrow>
     (\<forall>(i, f) \<in> set (ps_files p). \<forall>path \<in> {pf_staging f, pf_journal f}.
        path = [] \<or> path \<in> set kept \<or> settled_path env f)"

lemma staging_paths_kept: "set (staging_paths p) \<subseteq> set kept \<Longrightarrow> kept_for env kept p"
  by (force simp: staging_paths_def kept_for_def)

lemma resume_http_evidence:
  assumes h: "resume_http env boot setup (p, b) = (r, p', b')"
  shows "alike (m_store (bt_machine b)) (m_store (bt_machine b'))" "same_session p p'"
    "r = Inr kept \<Longrightarrow> kept_for env kept p"
proof -
  obtain q p1 m where a: "resume_worker env setup (p, bt_machine b) = (q, p1, m)" by (rule prod_cases3)
  have m: "p' = p1" "bt_machine b' = m"
    using h a by (auto simp: resume_http_def Let_def split: sum.splits prod.splits)
  show "alike (m_store (bt_machine b)) (m_store (bt_machine b'))"
    using resume_worker_alike [OF a] m(2) by simp
  show "same_session p p'" using resume_worker_session [OF a] m(1) by simp
  show "kept_for env kept p" if r: "r = Inr kept"
  proof -
    obtain w already m2 where "resume_worker env setup (p, bt_machine b) = (Inr (w, kept, already), p', m2)"
      by (rule resume_http_Inr [OF h [unfolded r]])
    from resume_worker_kept [OF this] show ?thesis by (force simp: kept_for_def)
  qed
qed

lemma resume_push_evidence:
  assumes h: "resume_push env boot key p b = (r, b')"
  shows "m_store (bt_machine b') = m_store (bt_machine b)"
    "r = Inr kept \<Longrightarrow> kept_for env kept p \<and> push_directory p key \<in> set kept"
proof -
  obtain control s where c: "resumable_control key False (bt_sessions b) = (control, s)" by (rule prod.exhaust)
  obtain q m where l: "world_step (bo_lock boot (push_directory p key)) (bt_machine b) = (q, m)"
    by (rule prod.exhaust)
  note st = m_store_world_step [OF l]
  show "m_store (bt_machine b') = m_store (bt_machine b)"
    using h c l st by (auto simp: resume_push_def Let_def split: if_splits sum.splits lock_error.splits)
  assume "r = Inr kept"
  with h c l have "kept = push_directory p key # filter (\<lambda>path. path \<noteq> []) (staging_paths p)"
    by (auto simp: resume_push_def Let_def split: if_splits sum.splits lock_error.splits)
  then show "kept_for env kept p \<and> push_directory p key \<in> set kept" by (force simp: kept_for_def staging_paths_def)
qed

lemma resume_upload_session_evidence:
  assumes h: "resume_upload_session env boot (p, b) = (r, p', b')" and live: "ps_committed p = None"
  shows "alike (m_store (bt_machine b)) (m_store (bt_machine b')) \<and> same_session p p'
    \<and> (\<forall>kept. r = Inr kept \<longrightarrow> kept_for env kept p
         \<and> (\<forall>key. ps_push_key p = Some key \<longrightarrow> push_directory p key \<in> set kept))"
proof -
  obtain q m where a: "readmit env boot p (bt_machine b) = (q, m)" by (rule prod.exhaust)
  note st = readmit_store [OF a]
  show ?thesis
  proof (cases q)
    case (Inl e)
    with h live a st show ?thesis by (auto simp: resume_upload_session_def)
  next
    case (Inr ws)
    show ?thesis
    proof (cases "ps_push_key p")
      case None
      with h live a Inr have "resume_http env boot ws (p, b\<lparr>bt_machine := m\<rparr>) = (r, p', b')"
        by (auto simp: resume_upload_session_def)
      from resume_http_evidence [OF this] st None show ?thesis by simp
    next
      case (Some key)
      obtain r2 b2 where p: "resume_push env boot key p (b\<lparr>bt_machine := m\<rparr>) = (r2, b2)" by (rule prod.exhaust)
      with h live a Inr Some have "r = r2" "p' = p" "b' = b2" by (auto simp: resume_upload_session_def)
      with resume_push_evidence [OF p] st Some show ?thesis by simp
    qed
  qed
qed

lemma resume_upload_session_ended:
  "resume_upload_session env boot (p, b) = (r, p', b') \<Longrightarrow> bt_ended b' = bt_ended b"
  by (auto simp: resume_upload_session_def resume_http_def resume_push_def Let_def
      split: if_splits sum.splits option.splits prod.splits lock_error.splits)

lemma boot_step_row:
  "boot_step I s t \<Longrightarrow> map_of (us_sessions t) x = None \<Longrightarrow> x \<notin> I \<Longrightarrow> map_of (us_sessions s) x = None"
  unfolding boot_step_def by blast

lemma boot_step_gone: "boot_step I s t \<Longrightarrow> map_of (us_sessions s) x = None \<Longrightarrow> map_of (us_sessions t) x = None"
  unfolding boot_step_def by blast

lemma boot_step_dead: "boot_step I s t \<Longrightarrow> link_dead env t l \<longleftrightarrow> link_dead env s l"
  by (simp add: boot_step_def link_dead_def)

text \<open>
  What restoring a session leaves: only its own row and those of workers that have ended can be
  gone, its own only when its link is dead or its worker has ended, and while it is there, its
  evidence is kept, with its push directory while the link lives.
\<close>

definition restores ::
  "('w, 'v, 'c, 'k, 'b) upload_env \<Rightarrow> persisted_session \<Rightarrow> ('w, 'c) boot \<Rightarrow> rstr list list \<Rightarrow> ('w, 'c) boot \<Rightarrow> bool" where
  "restores env p b kept b' \<longleftrightarrow>
     (map_of (us_sessions (m_store (bt_machine b'))) (ps_id p) \<noteq> None \<longrightarrow>
        kept_for env kept p
        \<and> (\<forall>key. ps_push_key p = Some key \<longrightarrow> \<not> link_dead env (m_store (bt_machine b)) (ps_link_id p)
             \<longrightarrow> push_directory p key \<in> set kept))
     \<and> (map_of (us_sessions (m_store (bt_machine b))) (ps_id p) \<noteq> None \<longrightarrow>
        map_of (us_sessions (m_store (bt_machine b'))) (ps_id p) = None \<longrightarrow>
        link_dead env (m_store (bt_machine b)) (ps_link_id p) \<or> ps_id p \<in> set (bt_ended b'))"

lemma same_session_kept: "same_session p p' \<Longrightarrow> set (staging_paths p') \<subseteq> set kept \<Longrightarrow> kept_for env kept p"
  by (auto simp: same_session_def intro: staging_paths_kept)

lemma restore_session_evidence:
  assumes h: "restore_session env boot p b = (kept, b')" and live: "ps_committed p = None"
  shows "boot_step ({ps_id p} \<union> set (bt_ended b')) (m_store (bt_machine b)) (m_store (bt_machine b'))
    \<and> set (bt_ended b) \<subseteq> set (bt_ended b') \<and> restores env p b kept b'"
proof -
  obtain r p1 b1 where a: "resume_upload_session env boot (p, b) = (r, p1, b1)" by (rule prod_cases3)
  note ev = resume_upload_session_evidence [OF a live] and ended = resume_upload_session_ended [OF a]
  have al: "alike (m_store (bt_machine b)) (m_store (bt_machine b1))" using ev by simp
  show ?thesis
  proof (cases r)
    case (Inr paths)
    obtain q m where s: "stores env (set_interruption_reported (ps_id p1) False) (bt_machine b1) = (q, m)"
      by (rule prod.exhaust)
    have "alike (m_store (bt_machine b1)) (m_store m)"
      using s set_interruption_alike by (cases rule: stores_cases) auto
    moreover have b': "kept = paths" "b' = b1\<lparr>bt_machine := m\<rparr>"
      using h a Inr s by (auto simp: restore_session_def)
    ultimately have al': "alike (m_store (bt_machine b)) (m_store (bt_machine b'))"
      using al by (auto intro: alike_trans)
    moreover have "kept_for env kept p" "ps_push_key p = Some key \<Longrightarrow> push_directory p key \<in> set kept" for key
      using ev Inr b' by auto
    ultimately show ?thesis
      using alike_row [OF al'] b' ended by (auto simp: restores_def intro: alike_boot_step)
  next
    case (Inl e)
    define b2 where "b2 = workers_run env boot b1"
    obtain k m where s: "refuse_session env boot p1 e (bt_machine b2) = (k, m)" by (rule prod.exhaust)
    with h a Inl have b': "kept = k" "b' = b2\<lparr>bt_machine := m\<rparr>" by (auto simp: restore_session_def b2_def Let_def)
    have id: "ps_id p1 = ps_id p" "ps_link_id p1 = ps_link_id p" "ps_push_key p1 = ps_push_key p"
      "push_directory p1 key = push_directory p key" for key
      using ev by (auto simp: same_session_def push_directory_def)
    have run: "boot_step (set (bt_ended b2)) (m_store (bt_machine b1)) (m_store (bt_machine b2))"
      "set (bt_ended b) \<subseteq> set (bt_ended b2)"
      using workers_run_step [of env boot b1] ended unfolding b2_def by auto
    note till = boot_step_trans [OF alike_boot_step [OF al] run(1)]
    note ref = refuse_session_evidence [OF s]
    have "boot_step ({ps_id p} \<union> set (bt_ended b')) (m_store (bt_machine b)) (m_store (bt_machine b'))"
      using boot_step_trans [OF boot_step_mono [OF till] boot_step_mono [OF ref(1)],
        of "{ps_id p} \<union> set (bt_ended b')"] b' id by auto
    moreover have "restores env p b kept b'"
      using ref(2,4) ref(3) [unfolded id] boot_step_row [OF till, of "ps_id p"] boot_step_dead [OF till, of env] id b' ev
        same_session_kept [of p p1 k env]
      by (auto simp: restores_def; cases "map_of (us_sessions (m_store (bt_machine b2))) (ps_id p)"; auto)
    ultimately show ?thesis using run(2) b' by simp
  qed
qed

end
