(* ===== verification/BootDemo.thy ===== *)
theory BootDemo
  imports BootSystem UploadDemo
begin

text \<open>
  The world of \<open>UploadDemo\<close> after a crash in the middle of its session: the first file is published,
  the second has not begun, and the tables are those of the crashed server. Witnesses only.
\<close>

definition demo_boot :: "nat boot_env" where
  "demo_boot = \<lparr>bo_receive_dir = [lit ''d''], bo_allow_hidden = False, bo_idle_secs = 60,
     bo_contract = Unqualified, bo_unhex = (\<lambda>s. Some (map word_of_nat s)), bo_insert_text = (\<lambda>_. lit ''refused''),
     bo_child = (\<lambda>_ _. Inr ()), bo_location = (\<lambda>_ _. Inr 0), bo_directory = (\<lambda>_ _. Inr 0),
     bo_identity = (\<lambda>_ _. Inr False), bo_open = (\<lambda>_ _. Inr False), bo_remove = (\<lambda>_ w. (Inr (), w)),
     bo_sync = (\<lambda>_ w. (Inr (), w)), bo_lock = (\<lambda>_ w. (Inr (), w)), bo_remove_push = (\<lambda>_ w. (Inr (), w)),
     bo_renew = (\<lambda>w. (Inr (), w)),
     bo_tree = (\<lambda>_. [(lit ''.vot-stage'', FDir [(lit ''.vot-s.stage'', FFile), (lit ''.vot-s.journal'', FFile)])]),
     bo_turns = (\<lambda>_. [0])\<rparr>"

definition restart :: "demo_state \<Rightarrow> (nat, object_id \<times> nat) boot" where
  "restart s = \<lparr>bt_machine = snd s, bt_sessions = new_sessions, bt_senders = 0, bt_workers = [], bt_ended = []\<rparr>"

definition closing :: "demo_state \<Rightarrow> (nat, object_id \<times> nat) boot" where
  "closing s = (restart s)\<lparr>bt_sessions := snd (close_admission new_sessions)\<rparr>"

definition failing_env :: "(nat, nat, object_id \<times> nat, bool, unit) upload_env" where
  "failing_env = demo_env\<lparr>db_ok := \<lambda>w. (False, w)\<rparr>"

definition row_of :: "demo_state \<Rightarrow> rstr \<times> session_row" where
  "row_of s = hd (us_sessions (m_store (snd s)))"

definition persisted_of :: "demo_state \<Rightarrow> persisted_session" where
  "persisted_of s = load_row (m_store (snd s)) (row_of s)"

definition resumes :: "demo_state \<Rightarrow> bool" where
  "resumes s \<longleftrightarrow> (case resume_upload_session demo_env demo_boot (persisted_of s, restart s) of
     (Inr _, _) \<Rightarrow> True | _ \<Rightarrow> False)"

definition boots :: "(nat, nat, object_id \<times> nat, bool, unit) upload_env \<Rightarrow> demo_state \<Rightarrow> bool" where
  "boots env s \<longleftrightarrow> (case resume_upload_sessions env demo_boot (restart s) of (Inr _, _) \<Rightarrow> True | _ \<Rightarrow> False)"

definition staged_path :: "rstr list" where
  "staged_path = [lit ''.vot-stage'', lit ''.vot-s.stage'']"

text \<open>The session has a staged file, and its row survives the boot.\<close>

definition survives :: "demo_state \<Rightarrow> bool" where
  "survives s \<longleftrightarrow> (case ps_files (persisted_of s) of
       [] \<Rightarrow> False
     | (_, f) # _ \<Rightarrow> pf_staging f = lit ''d'' # staged_path \<and> \<not> pf_published f)
   \<and> (case resume_upload_sessions demo_env demo_boot (restart s) of
       (Inr _, b) \<Rightarrow> map_of (us_sessions (m_store (bt_machine b))) (ps_id (persisted_of s)) \<noteq> None
     | _ \<Rightarrow> False)"

definition turned_away :: "demo_state \<Rightarrow> bool" where
  "turned_away s \<longleftrightarrow> (case resume_worker demo_env demo_setup (persisted_of s, snd s) of
     (Inr (w, _), p, m) \<Rightarrow>
       receiving (w, m) \<noteq> [] \<and> list_all (\<lambda>f. \<not> fs_published f) (receiving (w, m))
       \<and> (case insert_resumed (ps_id p) (ps_link_id p) (ps_tenant p) (oid_length (ps_package p)) 1
                 (unix_now demo_env (m_world m)) (instant demo_env (m_world m)) (bt_sessions (closing s)) of
            Inl _ \<Rightarrow> True | Inr _ \<Rightarrow> False)
   | _ \<Rightarrow> False)"

lemma boot_evaluated:
  "let s1 = demo_turn (Seal []) demo0; s2 = demo_turn (Page []) s1; s3 = demo_turn (Begin False) s2;
       s4 = demo_turn (Chunk (demo_chunk 0 [1, 2, 3])) s3
   in map fst (us_sessions (m_store (snd s4))) = [ws_session demo_setup]
    \<and> load_sessions (m_store (snd s4)) False None = [persisted_of s4] \<and> ps_committed (persisted_of s4) = None
    \<and> resumes s4 \<and> boots demo_env s4 \<and> boots failing_env s4 \<and> survives s4 \<and> turned_away s4"
  by code_simp

lemmas boot_facts = boot_evaluated [unfolded Let_def, folded demo1_def, folded demo2_def, folded demo3_def,
    folded demo4_def]

lemma demo_row: "map_of (us_sessions (m_store (snd demo4))) (ws_session demo_setup) = Some (snd (row_of demo4))"
  "row_of demo4 = (ws_session demo_setup, snd (row_of demo4))"
proof -
  from boot_facts obtain r where "us_sessions (m_store (snd demo4)) = [(ws_session demo_setup, r)]"
    by auto
  then show "map_of (us_sessions (m_store (snd demo4))) (ws_session demo_setup) = Some (snd (row_of demo4))"
    "row_of demo4 = (ws_session demo_setup, snd (row_of demo4))"
    by (simp_all add: row_of_def)
qed

lemma demo_laws: "hex_law demo_env demo_boot" "coverage_law demo_env"
  by (auto simp: hex_law_def coverage_law_def demo_env_def demo_boot_def comp_def map_idI)

lemma restart_store [simp]: "bt_machine (restart s) = snd s" "bt_machine (closing s) = snd s"
  "bt_senders (closing s) = 0"
  by (simp_all add: restart_def closing_def)

end
