(* ===== verification/BootProperties.thy ===== *)
theory BootProperties
  imports BootDemo
begin

text \<open>
  What a restart promises: a crash costs at most what came after the last checkpoint, and the
  staging of every session that can still be recovered survives the sweep. Two of the boot's error
  paths break that promise: a database that cannot be read, and a registry that refuses a session
  that has just been resumed.
\<close>

section \<open>All sessions\<close>

lemma restore_session_step:
  assumes h: "restore_session env boot p b = (kept, b')"
  shows "boot_step ({ps_id p} \<union> set (bt_ended b')) (m_store (bt_machine b)) (m_store (bt_machine b'))
    \<and> set (bt_ended b) \<subseteq> set (bt_ended b')"
proof (cases "ps_committed p = None")
  case True
  with restore_session_evidence [OF h] show ?thesis by blast
next
  case False
  obtain r m where c: "cleanup_committed_session env boot p (bt_machine b) = (r, m)" by (rule prod.exhaust)
  have step: "boot_step {ps_id p} (m_store (bt_machine b)) (m_store m)"
    using cleanup_committed_store [OF c] delete_session_step [of "ps_id p"]
    by (auto intro: alike_boot_step)
  show ?thesis
  proof (cases r)
    case (Inl e)
    define b2 where "b2 = workers_run env boot (b\<lparr>bt_machine := m\<rparr>)"
    obtain k m' where s: "refuse_session env boot p e (bt_machine b2) = (k, m')" by (rule prod.exhaust)
    from h c Inl False s have b': "b' = b2\<lparr>bt_machine := m'\<rparr>"
      by (auto simp: restore_session_def resume_upload_session_def b2_def Let_def)
    have run: "boot_step (set (bt_ended b2)) (m_store m) (m_store (bt_machine b2))" "set (bt_ended b) \<subseteq> set (bt_ended b2)"
      using workers_run_step [of env boot "b\<lparr>bt_machine := m\<rparr>"] unfolding b2_def by auto
    have "boot_step ({ps_id p} \<union> set (bt_ended b2)) (m_store (bt_machine b)) (m_store m')"
      by (rule boot_step_trans [OF boot_step_trans [OF boot_step_mono [OF step] boot_step_mono [OF run(1)]]
            boot_step_mono [OF refuse_session_evidence(1) [OF s]]]) auto
    with run(2) b' show ?thesis by simp
  next
    case (Inr u)
    obtain q m' where s: "stores env (set_interruption_reported (ps_id p) False) m = (q, m')" by (rule prod.exhaust)
    have "alike (m_store m) (m_store m')"
      using s set_interruption_alike by (cases rule: stores_cases) auto
    moreover have "b' = b\<lparr>bt_machine := m'\<rparr>"
      using h c Inr False s by (auto simp: restore_session_def resume_upload_session_def)
    ultimately show ?thesis
      using boot_step_mono [OF boot_step_trans [OF step alike_boot_step], of _ "{ps_id p} \<union> set (bt_ended b')"] by auto
  qed
qed

lemma kept_for_mono: "kept_for env kept p \<Longrightarrow> set kept \<subseteq> set kept' \<Longrightarrow> kept_for env kept' p"
  unfolding kept_for_def by blast

lemma restores_later:
  assumes r: "restores env p b kept b1" and step: "boot_step I (m_store (bt_machine b1)) (m_store (bt_machine b2))"
    and i: "ps_id p \<in> I \<longrightarrow> ps_id p \<in> set (bt_ended b2)"
    and sub: "set (bt_ended b1) \<subseteq> set (bt_ended b2)" "set kept \<subseteq> set kept'"
  shows "restores env p b kept' b2"
proof (cases "map_of (us_sessions (m_store (bt_machine b2))) (ps_id p)")
  case None
  from boot_step_row [OF step this] i
  have "map_of (us_sessions (m_store (bt_machine b1))) (ps_id p) = None \<or> ps_id p \<in> set (bt_ended b2)" by blast
  with r None sub(1) show ?thesis by (auto simp: restores_def)
next
  case (Some row)
  with boot_step_gone [OF step, of "ps_id p"] r
  have "kept_for env kept p" "\<forall>key. ps_push_key p = Some key \<longrightarrow>
      \<not> link_dead env (m_store (bt_machine b)) (ps_link_id p) \<longrightarrow> push_directory p key \<in> set kept"
    unfolding restores_def by (metis option.distinct(1))+
  with Some sub(2) kept_for_mono show ?thesis by (auto simp: restores_def)
qed

lemma restores_earlier:
  assumes "boot_step I (m_store (bt_machine b)) (m_store (bt_machine b1))" "restores env p b1 kept b2"
    "ps_id p \<in> I \<longrightarrow> ps_id p \<in> set (bt_ended b2)" "set kept \<subseteq> set kept'"
  shows "restores env p b kept' b2"
  using assms(2,3) subsetD [OF assms(4)] kept_for_mono [OF _ assms(4), of env p]
    boot_step_row [OF assms(1), of "ps_id p"]
  unfolding restores_def boot_step_dead [OF assms(1)] by (elim conjE, intro conjI impI allI) auto

lemma restore_sessions_step:
  "restore_sessions env boot ps b = (kept, b') \<Longrightarrow>
   boot_step (ps_id ` set ps \<union> set (bt_ended b')) (m_store (bt_machine b)) (m_store (bt_machine b'))
   \<and> set (bt_ended b) \<subseteq> set (bt_ended b')"
proof (induction ps arbitrary: b kept b')
  case (Cons p ps)
  obtain k b1 where a: "restore_session env boot p b = (k, b1)" by (rule prod.exhaust)
  obtain k2 b2 where c: "restore_sessions env boot ps (workers_run env boot b1) = (k2, b2)" by (rule prod.exhaust)
  note one = restore_session_step [OF a] and run = workers_run_step [of env boot b1] and rest = Cons.IH [OF c]
  have b': "b' = b2" using Cons.prems a c by simp
  have "boot_step (ps_id ` set (p # ps) \<union> set (bt_ended b2)) (m_store (bt_machine b)) (m_store (bt_machine b2))"
    by (rule boot_step_trans [OF boot_step_trans [OF boot_step_mono [OF one [THEN conjunct1]]
          boot_step_mono [OF run [THEN conjunct1]]] boot_step_mono [OF rest [THEN conjunct1]]])
      (use one run rest in auto)
  with one run rest b' show ?case by auto
qed simp

lemma restore_sessions_evidence:
  assumes "restore_sessions env boot ps b = (kept, b')" "distinct (map ps_id ps)" "p \<in> set ps"
    "ps_committed p = None"
  shows "restores env p b kept b'"
  using assms
proof (induction ps arbitrary: b kept b')
  case (Cons q ps)
  obtain k b1 where a: "restore_session env boot q b = (k, b1)" by (rule prod.exhaust)
  obtain k2 b2 where c: "restore_sessions env boot ps (workers_run env boot b1) = (k2, b2)" by (rule prod.exhaust)
  from Cons.prems(1) a c have r: "kept = k @ k2" "b' = b2" by auto
  note one = restore_session_step [OF a] and run = workers_run_step [of env boot b1]
    and rest = restore_sessions_step [OF c]
  show ?case
  proof (cases "q = p")
    case True
    have "boot_step (ps_id ` set ps \<union> set (bt_ended b2)) (m_store (bt_machine b1)) (m_store (bt_machine b2))"
      by (rule boot_step_trans [OF boot_step_mono [OF run [THEN conjunct1]] rest [THEN conjunct1]]) (use rest in auto)
    moreover have "restores env p b k b1" using restore_session_evidence [OF a] Cons.prems(4) True by simp
    moreover have "ps_id p \<in> ps_id ` set ps \<union> set (bt_ended b2) \<longrightarrow> ps_id p \<in> set (bt_ended b2)"
      using Cons.prems(2) True by auto
    moreover have "set (bt_ended b1) \<subseteq> set (bt_ended b2)" using run rest by blast
    ultimately show ?thesis unfolding r by (auto intro: restores_later)
  next
    case False
    with Cons.prems have p: "p \<in> set ps" "ps_id p \<noteq> ps_id q" by (auto simp: rev_image_eqI)
    have "boot_step ({ps_id q} \<union> set (bt_ended b2)) (m_store (bt_machine b))
        (m_store (bt_machine (workers_run env boot b1)))"
      by (rule boot_step_trans [OF boot_step_mono [OF one [THEN conjunct1]] boot_step_mono [OF run [THEN conjunct1]]])
        (use run rest in auto)
    moreover have "restores env p (workers_run env boot b1) k2 b2"
      using Cons.IH [OF c _ p(1) Cons.prems(4)] Cons.prems(2) by simp
    ultimately show ?thesis using p(2) unfolding r by (auto intro: restores_earlier)
  qed
qed simp

lemma load_sessions_ids:
  "distinct (map fst (us_sessions s)) \<Longrightarrow> distinct (map ps_id (load_sessions s False key))"
  "p \<in> set (load_sessions s False key) \<Longrightarrow> map_of (us_sessions s) (ps_id p) \<noteq> None"
proof -
  have ids: "map ps_id (load_sessions s False key) = map fst (sort_key (sn_created_at \<circ> snd)
      (filter (\<lambda>(_, r). key = None \<or> sn_push_key r = key) (us_sessions s)))"
    by (auto simp: load_sessions_def load_row_def case_prod_unfold)
  show "distinct (map ps_id (load_sessions s False key))" if "distinct (map fst (us_sessions s))"
    using that unfolding ids by (auto simp: distinct_map inj_on_def)
  show "map_of (us_sessions s) (ps_id p) \<noteq> None" if "p \<in> set (load_sessions s False key)"
  proof -
    have "ps_id p \<in> set (map ps_id (load_sessions s False key))" using that by simp
    then have "ps_id p \<in> fst ` set (us_sessions s)" unfolding ids by auto
    then show ?thesis by (simp add: map_of_eq_None_iff)
  qed
qed

text \<open>The sweep spares a kept path that lies in no push directory, and all of a kept push directory.\<close>

lemma spared_kept:
  "keep (dir @ q) \<Longrightarrow> q \<noteq> [] \<Longrightarrow> \<forall>c \<in> set (butlast q). \<not> is_push_staging_name (to_ascii_lowercase c)
   \<Longrightarrow> spared keep dir q"
  by (induction keep dir q rule: spared.induct) auto

lemma spared_push:
  "keep (dir @ d) \<Longrightarrow> d \<noteq> [] \<Longrightarrow> \<forall>c \<in> set (butlast d). \<not> is_push_staging_name (to_ascii_lowercase c)
   \<Longrightarrow> is_push_staging_name (to_ascii_lowercase (last d)) \<Longrightarrow> spared keep dir (d @ rest)"
proof (induction d arbitrary: dir)
  case (Cons n d)
  show ?case
  proof (cases "d @ rest = []")
    case False
    with Cons show ?thesis
      by (cases "d = []") (auto simp: spared_Cons)
  qed (use Cons.prems in auto)
qed simp

lemma performs_store: "performs f m = (r, m') \<Longrightarrow> m_store m' = m_store m"
  using keepsD [OF keeps_performs, of f m r m'] by (simp add: store_same_def)

lemma resume_upload_sessions_Inr:
  assumes "resume_upload_sessions env boot b = (Inr (kept, tree), b')"
  obtains m b1 where "m = snd (performs (bo_renew boot) (bt_machine b))" "m_store m = m_store (bt_machine b)"
    "restore_upload_sessions env boot (b\<lparr>bt_machine := m\<rparr>) = (kept, b1)"
    "m_store (bt_machine b') = m_store (bt_machine b1)" "bt_ended b' = bt_ended b1"
    "tree = clean_staging (\<lambda>path. path \<in> set kept) (bo_receive_dir boot) (bo_tree boot (m_world (bt_machine b')))"
proof -
  obtain q m where a: "performs (bo_renew boot) (bt_machine b) = (q, m)" by (rule prod.exhaust)
  obtain k b1 where r: "restore_upload_sessions env boot (b\<lparr>bt_machine := m\<rparr>) = (k, b1)" by (rule prod.exhaust)
  obtain q2 m2 where c: "performs (bo_renew boot) (bt_machine b1) = (q2, m2)" by (rule prod.exhaust)
  from assms a r c have "k = kept" "b' = b1\<lparr>bt_machine := m2\<rparr>"
    "tree = clean_staging (\<lambda>path. path \<in> set kept) (bo_receive_dir boot) (bo_tree boot (m_world m2))"
    by (auto simp: resume_upload_sessions_def split: sum.splits)
  with that [of m b1] a r performs_store [OF a] performs_store [OF c] show thesis by simp
qed

lemma push_name: "valid_hex key 32 \<Longrightarrow> is_push_staging_name (to_ascii_lowercase (lit ''.vot-push-'' @ key))"
proof -
  assume v: "valid_hex key 32"
  have hex: "(48 \<le> c \<and> c \<le> 57) \<or> (97 \<le> c \<and> c \<le> 102)" "lower_char c = c" if "c \<in> set key" for c
  proof -
    have "is_ascii_digit c \<or> (97 \<le> c \<and> c \<le> 102) \<or> (65 \<le> c \<and> c \<le> 70)" and low: "\<not> is_ascii_uppercase c"
      using v that unfolding valid_hex_def list_all_iff by blast+
    then show "(48 \<le> c \<and> c \<le> 57) \<or> (97 \<le> c \<and> c \<le> 102)"
      unfolding is_ascii_digit_def is_ascii_uppercase_def by linarith
    show "lower_char c = c" using low by (simp add: lower_char_def)
  qed
  then have "list_all (\<lambda>b. (48 \<le> b \<and> b \<le> 57) \<or> (97 \<le> b \<and> b \<le> 102)) key" "map lower_char key = key"
    by (auto simp: list_all_iff intro!: map_idI)
  moreover have "to_ascii_lowercase (lit ''.vot-push-'') = lit ''.vot-push-''" by code_simp
  ultimately show ?thesis
    using v by (simp add: is_push_staging_name_def valid_hex_def to_ascii_lowercase_def
        strip_prefix_iff [THEN iffD2, OF refl])
qed

text \<open>C7: C: A boot that can read the rows of the sessions loses no recovery evidence, whatever else fails
  in it and whenever a worker it has spawned in vain comes to its end. A session that is not
  committed leaves the table only when its link is gone or has expired, or when its worker has ended
  because the registry refused the session (the case the property on refused registrations shows). As
  long as the session is in the table, the sweep spares its staging and its journals: of an
  upload session each of these files that lies outside the push directories, unless the file was
  published and its journal is retired; and of a push session whose link is alive the whole push
  directory.\<close>

theorem boot_keeps_evidence:
  assumes readable: "fst (db_ok env (m_world (snd (performs (bo_renew boot) (bt_machine b)))))"
    and ids: "distinct (map fst (us_sessions (m_store (bt_machine b))))"
    and boot: "resume_upload_sessions env boot b = (Inr (kept, tree), b')"
    and p: "p \<in> set (load_sessions (m_store (bt_machine b)) False None)" "ps_committed p = None"
  shows "(map_of (us_sessions (m_store (bt_machine b'))) (ps_id p) = None
      \<longrightarrow> link_dead env (m_store (bt_machine b)) (ps_link_id p) \<or> ps_id p \<in> set (bt_ended b'))
    \<and> (map_of (us_sessions (m_store (bt_machine b'))) (ps_id p) \<noteq> None
      \<longrightarrow> (\<forall>(i, f) \<in> set (ps_files p). \<forall>q.
        q \<in> set (file_paths (bo_tree boot (m_world (bt_machine b'))))
        \<and> bo_receive_dir boot @ q \<in> {pf_staging f, pf_journal f}
        \<and> (\<forall>c \<in> set (butlast q). \<not> is_push_staging_name (to_ascii_lowercase c))
        \<longrightarrow> q \<in> set (file_paths tree) \<or> settled_path env f)
      \<and> (\<forall>key d q. ps_push_key p = Some key \<and> valid_hex key 32
        \<and> \<not> link_dead env (m_store (bt_machine b)) (ps_link_id p)
        \<and> d \<noteq> [] \<and> bo_receive_dir boot @ d = push_directory p key
        \<and> (\<forall>c \<in> set (butlast d). \<not> is_push_staging_name (to_ascii_lowercase c))
        \<and> d @ q \<in> set (file_paths (bo_tree boot (m_world (bt_machine b'))))
        \<longrightarrow> d @ q \<in> set (file_paths tree)))"
proof -
  obtain m b1 where m: "m = snd (performs (bo_renew boot) (bt_machine b))" "m_store m = m_store (bt_machine b)"
    and r: "restore_upload_sessions env boot (b\<lparr>bt_machine := m\<rparr>) = (kept, b1)"
    and b1: "m_store (bt_machine b') = m_store (bt_machine b1)" "bt_ended b' = bt_ended b1"
    and tree: "tree = clean_staging (\<lambda>path. path \<in> set kept) (bo_receive_dir boot)
      (bo_tree boot (m_world (bt_machine b')))"
    by (rule resume_upload_sessions_Inr [OF boot])
  obtain q n where l: "queries env (\<lambda>s. Inr (load_sessions s False None)) m = (q, n)" by (rule prod.exhaust)
  have n: "m_store n = m_store m" by (rule queries_store [OF l])
  have q: "q = Inr (load_sessions (m_store m) False None)"
    using l readable [folded m(1)] by (auto simp: queries_def transact_def split: prod.splits if_splits)
  from r l q have rs: "restore_sessions env boot (load_sessions (m_store m) False None) (b\<lparr>bt_machine := n\<rparr>) = (kept, b1)"
    by (simp add: restore_upload_sessions_def)
  have d: "distinct (map ps_id (load_sessions (m_store m) False None))"
    using load_sessions_ids(1) ids m by simp
  have pin: "p \<in> set (load_sessions (m_store m) False None)" using p(1) m by simp
  have ev: "restores env p (b\<lparr>bt_machine := n\<rparr>) kept b1" by (rule restore_sessions_evidence [OF rs d pin p(2)])
  have there: "map_of (us_sessions (m_store m)) (ps_id p) \<noteq> None" using load_sessions_ids(2) pin by blast
  have swept: "q \<in> set (file_paths tree) \<longleftrightarrow> q \<in> set (file_paths (bo_tree boot (m_world (bt_machine b'))))
      \<and> spared (\<lambda>path. path \<in> set kept) (bo_receive_dir boot) q" for q
    by (simp add: tree file_paths_clean_staging)
  have "q \<in> set (file_paths tree) \<or> settled_path env f"
    if "kept_for env kept p" "(i, f) \<in> set (ps_files p)" "q \<in> set (file_paths (bo_tree boot (m_world (bt_machine b'))))"
      "bo_receive_dir boot @ q \<in> {pf_staging f, pf_journal f}"
      "\<forall>c \<in> set (butlast q). \<not> is_push_staging_name (to_ascii_lowercase c)" for i f q
  proof -
    have ne: "q \<noteq> []" using that(3) file_paths_nonempty by metis
    from that(1,2,4) ne have "bo_receive_dir boot @ q \<in> set kept \<or> settled_path env f"
      unfolding kept_for_def by fastforce
    then show ?thesis using that(3,5) ne by (auto simp: swept intro: spared_kept)
  qed
  moreover have "d @ q \<in> set (file_paths tree)"
    if "push_directory p key \<in> set kept" "valid_hex key 32" "d \<noteq> []" "bo_receive_dir boot @ d = push_directory p key"
      "\<forall>c \<in> set (butlast d). \<not> is_push_staging_name (to_ascii_lowercase c)"
      "d @ q \<in> set (file_paths (bo_tree boot (m_world (bt_machine b'))))" for key d q
  proof -
    have "last d = lit ''.vot-push-'' @ key" using arg_cong [OF that(4), of last] that(3) by (simp add: push_directory_def)
    with that push_name show ?thesis by (auto simp: swept intro!: spared_push)
  qed
  ultimately show ?thesis using ev there n m b1 unfolding restores_def by auto
qed

lemma boot_keeps_evidence_witness:
  "\<exists>kept tree b'. resume_upload_sessions demo_env demo_boot (restart demo4) = (Inr (kept, tree), b')
    \<and> map_of (us_sessions (m_store (bt_machine b'))) (ps_id (persisted_of demo4)) \<noteq> None
    \<and> staged_path \<in> set (file_paths tree)"
proof -
  have "survives demo4" using boot_facts by blast
  then obtain i f fs kept tree b' where b: "resume_upload_sessions demo_env demo_boot (restart demo4) = (Inr (kept, tree), b')"
    and row: "map_of (us_sessions (m_store (bt_machine b'))) (ps_id (persisted_of demo4)) \<noteq> None"
    and f: "ps_files (persisted_of demo4) = (i, f) # fs" "pf_staging f = lit ''d'' # staged_path" "\<not> pf_published f"
    by (auto simp: survives_def split: prod.splits sum.splits list.splits)
  have "fst (db_ok demo_env w)" for w by (simp add: demo_env_def)
  moreover have "distinct (map fst (us_sessions (m_store (bt_machine (restart demo4)))))"
    using boot_facts by simp
  moreover have "persisted_of demo4 \<in> set (load_sessions (m_store (bt_machine (restart demo4))) False None)"
    "ps_committed (persisted_of demo4) = None" using boot_facts by simp_all
  ultimately have kept: "\<forall>(i, f) \<in> set (ps_files (persisted_of demo4)). \<forall>q.
        q \<in> set (file_paths (bo_tree demo_boot (m_world (bt_machine b'))))
        \<and> bo_receive_dir demo_boot @ q \<in> {pf_staging f, pf_journal f}
        \<and> (\<forall>c \<in> set (butlast q). \<not> is_push_staging_name (to_ascii_lowercase c))
        \<longrightarrow> q \<in> set (file_paths tree) \<or> settled_path demo_env f"
    using boot_keeps_evidence [of demo_env demo_boot "restart demo4", OF _ _ b] row by blast
  have "staged_path \<in> set (file_paths (bo_tree demo_boot w))" for w
    by (simp add: demo_boot_def staged_path_def)
  moreover have "\<forall>c \<in> set (butlast staged_path). \<not> is_push_staging_name (to_ascii_lowercase c)" by code_simp
  moreover have "bo_receive_dir demo_boot @ staged_path = pf_staging f" using f(2) by (simp add: demo_boot_def)
  moreover have "\<not> settled_path demo_env f" using f(3) by (simp add: settled_path_def)
  ultimately have "staged_path \<in> set (file_paths tree)" using kept f(1) by auto
  with b row show ?thesis by blast
qed

section \<open>After a crash\<close>

text \<open>C6: C: Whatever happens to a server in the middle of a session, once its tables are there again a
  resume continues from the last checkpoint: the new worker serves the same session with the same
  files, every file whose publication was checkpointed is published, and a file that is not yet
  published starts from exactly the prefix that was checkpointed. The new worker is a state from
  which the properties of sessions hold.\<close>

theorem crashes_keep_checkpoints:
  assumes run: "reach (session_begins env setup) (session_step env setup) (w, m)" "wk_phase w = Receiving files"
    and crash: "m_store (bt_machine b) = m_store m"
    and row: "map_of (us_sessions (m_store m)) (ws_session setup) = Some r"
    and lib: "hex_law env' boot" "coverage_law env'" "ws_session setup = ue_hex env' i"
    and resume: "resume_upload_session env' boot (load_row (m_store m) (ws_session setup, r), b) = (Inr kept, p', b')"
  shows "\<exists>setup' w' files'. bt_workers b' = bt_workers b @ [(setup', w', True)]
    \<and> ws_session setup' = ws_session setup \<and> ws_tenant setup' = ws_tenant setup \<and> ws_link setup' = ws_link setup
    \<and> session_begins env' setup' (w', bt_machine b')
    \<and> wk_phase w' = Receiving files' \<and> length files' = length files
    \<and> (\<forall>j < length files. fs_display (files' ! j) = fs_display (files ! j)
        \<and> fs_stored (files' ! j) = fs_stored (files ! j)
        \<and> fs_object (files' ! j) = clamp_object (fs_object (files ! j))
        \<and> (\<forall>k c x. fs_checkpointed (files ! j) = Some (k, c, x) \<longrightarrow>
             (c \<longrightarrow> fs_published (files' ! j))
             \<and> (\<not> fs_published (files' ! j) \<longrightarrow> fst (file_progress env' (files' ! j)) = to_i64 k)))"
proof -
  have ok: "files_ok setup (m_store m) files" by (rule begun_files_ok [OF run])
  obtain setup' w' files' where new: "bt_workers b' = bt_workers b @ [(setup', w', True)]"
    "session_begins env' setup' (w', bt_machine b')" "wk_phase w' = Receiving files'"
    "ws_session setup' = ws_session setup" "ws_tenant setup' = ws_tenant setup" "ws_link setup' = ws_link setup"
    "length files' = length files"
    and cont: "\<And>j f. j < length files \<Longrightarrow> map_of (us_files (m_store (bt_machine b))) (ws_session setup, j) = Some f
       \<Longrightarrow> continues env' f (files' ! j)"
    using resume_after_crash [OF ok [folded crash] row [folded crash] lib(1,3) resume [folded crash]] by blast
  have "fs_display (files' ! j) = fs_display (files ! j)
        \<and> fs_stored (files' ! j) = fs_stored (files ! j)
        \<and> fs_object (files' ! j) = clamp_object (fs_object (files ! j))
        \<and> (\<forall>k c x. fs_checkpointed (files ! j) = Some (k, c, x) \<longrightarrow>
             (c \<longrightarrow> fs_published (files' ! j))
             \<and> (\<not> fs_published (files' ! j) \<longrightarrow> fst (file_progress env' (files' ! j)) = to_i64 k))"
    if j: "j < length files" for j
  proof -
    from ok j have co: "coherent (m_store m) (ws_session setup) j (files ! j)" by (simp add: files_ok_def)
    then obtain f where f: "map_of (us_files (m_store m)) (ws_session setup, j) = Some f" by (auto simp: coherent_def)
    with cont [OF j] crash have c: "continues env' f (files' ! j)" by simp
    from c have "\<not> fs_published (files' ! j) \<Longrightarrow> fst (file_progress env' (files' ! j)) = pf_prefix f"
      by (auto simp: continues_def intro: starts_prefix [OF lib(2)])
    with c co f show ?thesis
      by (auto simp: coherent_def continues_def row_says_def join_split)
  qed
  with new show ?thesis by blast
qed

lemma crashes_keep_checkpoints_witness:
  "\<exists>kept p' b' setup' w'. resume_upload_session demo_env demo_boot (persisted_of demo4, restart demo4) = (Inr kept, p', b')
    \<and> bt_workers b' = [(setup', w', True)] \<and> session_begins demo_env setup' (w', bt_machine b')"
proof -
  obtain kept p' b' where b: "resume_upload_session demo_env demo_boot (persisted_of demo4, restart demo4) = (Inr kept, p', b')"
    using boot_facts by (auto simp: resumes_def split: prod.splits sum.splits)
  have p: "persisted_of demo4 = load_row (m_store (snd demo4)) (ws_session demo_setup, snd (row_of demo4))"
    using demo_row(2) by (simp add: persisted_of_def)
  have i: "ws_session demo_setup = ue_hex demo_env (replicate 16 120)"
    by code_simp
  have "reach (session_begins demo_env demo_setup) (session_step demo_env demo_setup) (fst demo4, snd demo4)"
    using reach_begins [OF demo_session_reach(2)] by simp
  from crashes_keep_checkpoints [OF this demo_phase(2) arg_cong [OF restart_store(1), of m_store] demo_row(1) demo_laws i b [unfolded p]] b
  show ?thesis by (auto simp: restart_def)
qed

section \<open>What the boot does not keep\<close>

lemma spared_none:
  "spared (\<lambda>_. False) dir q \<Longrightarrow> q \<noteq> [] \<Longrightarrow> \<not> is_staging_file (last q)"
  by (induction "\<lambda>_ :: rstr list. False" dir q rule: spared.induct) (auto split: if_splits)

text \<open>C8: C: When the rows of the sessions cannot be read at boot, nothing is kept: the sweep still runs
  and leaves no staging file and no journal in the tree, although every session is still in the
  tables.\<close>

theorem unloadable_sessions_are_swept:
  assumes unreadable: "\<not> fst (db_ok env (m_world (snd (performs (bo_renew boot) (bt_machine b)))))"
    and boot: "resume_upload_sessions env boot b = (Inr (kept, tree), b')"
  shows "kept = [] \<and> m_store (bt_machine b') = m_store (bt_machine b) \<and> bt_workers b' = bt_workers b
    \<and> (\<forall>q \<in> set (file_paths tree). \<not> is_staging_file (last q))"
proof -
  obtain q m where a: "performs (bo_renew boot) (bt_machine b) = (q, m)" by (rule prod.exhaust)
  obtain r n where l: "queries env (\<lambda>s. Inr (load_sessions s False None)) m = (r, n)" by (rule prod.exhaust)
  then obtain e where r: "r = Inl e" "m_store n = m_store m"
    using unreadable a by (auto simp: queries_def transact_def split: prod.splits)
  obtain q2 n2 where c: "performs (bo_renew boot) n = (q2, n2)" by (rule prod.exhaust)
  from boot a l r c have k: "kept = []" "b' = b\<lparr>bt_machine := n2\<rparr>"
    "tree = clean_staging (\<lambda>path. path \<in> set kept) (bo_receive_dir boot) (bo_tree boot (m_world n2))"
    by (auto simp: resume_upload_sessions_def restore_upload_sessions_def split: sum.splits)
  have "\<not> is_staging_file (last p)" if "p \<in> set (file_paths tree)" for p
  proof -
    from that have s: "spared (\<lambda>path. path \<in> set kept) (bo_receive_dir boot) p"
      and t: "p \<in> set (file_paths (bo_tree boot (m_world n2)))"
      unfolding k(3) file_paths_clean_staging by simp_all
    have "p \<noteq> []" using t file_paths_nonempty by metis
    with s k(1) show ?thesis by (simp add: spared_none)
  qed
  with k r performs_store [OF a] performs_store [OF c] show ?thesis by simp
qed

lemma unloadable_sessions_are_swept_witness:
  "\<exists>kept tree b'. resume_upload_sessions failing_env demo_boot (restart demo4) = (Inr (kept, tree), b')
    \<and> kept = [] \<and> m_store (bt_machine b') = m_store (snd demo4)"
proof -
  obtain kept tree b' where b: "resume_upload_sessions failing_env demo_boot (restart demo4) = (Inr (kept, tree), b')"
    using boot_facts by (auto simp: boots_def split: prod.splits sum.splits)
  have "\<not> fst (db_ok failing_env w)" for w by (simp add: failing_env_def)
  with unloadable_sessions_are_swept [OF _ b] b show ?thesis by simp
qed

lemma disarm_unpreserved:
  "\<not> fs_published (disarm f) \<Longrightarrow> fs_native (disarm f) = Some st \<Longrightarrow> \<not> sf_preserve st"
  by (cases "fs_published f") (auto simp: disarm_def)

lemma closed_worker_forgets:
  assumes clean: "\<And>w. fst (db_ok env w)" "\<And>w. wd_live env w" "\<And>n w. \<not> nf_recovery env n w"
    and w: "wk_phase w = Receiving files" "\<not> wk_suspended w"
    and files: "\<forall>f \<in> set files. \<not> fs_published f \<and> (\<forall>st. fs_native f = Some st \<longrightarrow> \<not> sf_preserve st)"
  shows "map_of (us_sessions (m_store (snd (worker_exit env setup (w, m))))) (ws_session setup) = None"
proof -
  define v where "v = w\<lparr>wk_log := log_terminal (plain_event (wk_last_seen w) ''interrupted'' None) (wk_log w)\<rparr>"
  have "commit_partial env setup v m = (True, Receiving files, m)"
    using clean w files
    by (auto simp: commit_partial_def v_def Let_def unresolved_file_def list_ex_iff filter_empty_conv
        split: option.splits)
  then have u: "wind_up env setup v m = (True, Receiving files, forget_session env setup m)"
    by (simp add: wind_up_def)
  have "m_store (forget_session env setup m) = delete_upload_session (ws_session setup) (m_store m)"
    using clean(1) [of "m_world m"] by (auto simp: forget_session_def transact_def split: prod.splits)
  then have gone: "map_of (us_sessions (m_store (forget_session env setup m))) (ws_session setup) = None"
    by (rule delete_gone)
  have "alike (m_store (forget_session env setup m)) (m_store (event_of env setup v o' d (forget_session env setup m)))"
    for o' d
    unfolding event_of_def record_event_def
    by (rule transact_alike [OF prod.collapse [symmetric]]) (rule record_session_event_alike)
  note still = alike_row [OF this, of _ _ "ws_session setup"]
  define d where "d = (case wk_last_error w of
      None \<Rightarrow> lit ''session went idle and expired; the sender likely disconnected'' | Some e \<Rightarrow> ue_wording env e)"
  have "snd (worker_exit env setup (w, m)) = phase_drop env (Receiving files)
      (event_of env setup v ''interrupted'' d (forget_session env setup m))"
    unfolding worker_exit_def prod.case Let_def w(1) v_def [symmetric] u d_def using w(2) by simp
  then show ?thesis using still gone by simp
qed

text \<open>C9: C: A registry that refuses a session after its worker was made leaves that worker with a closed
  channel: when it is scheduled it takes the closed channel for a sender that went away and, with
  nothing published, deletes the session it was to resume.\<close>

theorem refused_registration_forgets_the_session:
  assumes clean: "\<forall>w. fst (db_ok env w) \<and> wd_live env w" "\<forall>n w. \<not> nf_recovery env n w"
    and resumed: "resume_worker env setup (p, bt_machine b) = (Inr (w, kept, already), p', m)"
      "wk_phase w = Receiving files" "\<forall>f \<in> set files. \<not> fs_published f"
    and refused: "insert_resumed (ps_id p') (ps_link_id p') (ps_tenant p') (oid_length (ps_package p'))
      (bt_senders b + 1) (unix_now env (m_world m)) (instant env (m_world m)) (bt_sessions b) = Inl e"
  shows "fst (resume_http env boot setup (p, b)) = Inl (refused_insert boot ''register session: '' e)
    \<and> bt_workers (snd (snd (resume_http env boot setup (p, b)))) = bt_workers b @ [(setup, w, False)]
    \<and> (\<forall>m. map_of (us_sessions (m_store (snd (snd (serve env setup False [] (w, m)))))) (ws_session setup) = None)"
proof -
  from resumed(1,2) obtain made where f: "files = map disarm made" "\<not> wk_suspended w"
    by (auto simp: resume_worker_def new_worker_def split: prod.splits sum.splits)
  have "\<forall>f \<in> set files. \<not> fs_published f \<and> (\<forall>st. fs_native f = Some st \<longrightarrow> \<not> sf_preserve st)"
    using resumed(3) disarm_unpreserved unfolding f(1) by (metis (no_types, lifting) imageE list.set_map)
  note forgets = closed_worker_forgets [OF _ _ _ resumed(2) f(2) this, of env "setup"]
  have "map_of (us_sessions (m_store (snd (snd (serve env setup False [] (w, m)))))) (ws_session setup) = None" for m
    unfolding serve.simps fst_conv snd_conv using clean by (intro forgets) auto
  moreover have "fst (resume_http env boot setup (p, b)) = Inl (refused_insert boot ''register session: '' e)
    \<and> bt_workers (snd (snd (resume_http env boot setup (p, b)))) = bt_workers b @ [(setup, w, False)]"
    using resumed(1) refused by (simp add: resume_http_def Let_def now_of_def)
  ultimately show ?thesis by blast
qed

lemma refused_registration_forgets_the_session_witness:
  "\<exists>e. fst (resume_http demo_env demo_boot demo_setup (persisted_of demo4, closing demo4)) = Inl e"
proof -
  obtain r p' m where r: "resume_worker demo_env demo_setup (persisted_of demo4, snd demo4) = (r, p', m)"
    by (rule prod_cases3)
  have away: "turned_away demo4" using boot_facts by blast
  then obtain w kept already where i: "r = Inr (w, kept, already)"
    using r by (auto simp: turned_away_def split: sum.splits)
  from away r i obtain e where
    w: "receiving (w, m) \<noteq> []" "\<forall>f \<in> set (receiving (w, m)). \<not> fs_published f"
    and e: "insert_resumed (ps_id p') (ps_link_id p') (ps_tenant p') (oid_length (ps_package p'))
      (bt_senders (closing demo4) + 1) (unix_now demo_env (m_world m)) (instant demo_env (m_world m))
      (bt_sessions (closing demo4)) = Inl e"
    by (auto simp: turned_away_def list_all_iff split: sum.splits)
  have w': "resume_worker demo_env demo_setup (persisted_of demo4, bt_machine (closing demo4)) = (Inr (w, kept, already), p', m)"
    using r i by simp
  have "\<forall>w. fst (db_ok demo_env w) \<and> wd_live demo_env w" "\<forall>n w. \<not> nf_recovery demo_env n w"
    by (simp_all add: demo_env_def)
  from refused_registration_forgets_the_session [OF this w' _ w(2) e, of demo_boot] receivingD [OF w(1)]
  show ?thesis by auto
qed

end
