(* ===== verification/TradeStore.thy ===== *)
theory TradeStore
  imports UploadStore
begin

text \<open>
  Trade routes between ports, from \<open>server/src/store/trade.rs\<close>: the endpoints a receiving port
  offers, the invitations to them, the routes that come of an invitation on both sides, their
  credentials and the control of what is delivered over them.

  The tables are those of the upload store and of the job store, with the columns that only these
  functions read. A route is one row, \<open>port_route\<close>, which extends what the job store sees of it;
  \<open>put_route\<close> writes both. The body of a port message is the map of its string members, all that
  \<open>as\_str\<close> reads. Random tokens and the time are parameters; the row of
  \<open>delivery\_storage\_credentials\<close> only names its route and is left out.
\<close>

section \<open>The tables\<close>

type_synonym port_body = "(rstr, rstr) hmap"
type_synonym port_message_in = "port_body signed_port_message"

record port_route = trade_route +
  po_revision :: nat
  po_name :: rstr
  po_peer_name :: rstr
  po_address :: rstr
  po_endpoint_name :: rstr
  po_category :: rstr
  po_last_contact :: "nat option"
  po_error :: "rstr option"
  po_remote_state :: rstr
  po_credential :: rstr
  po_enrollment :: "port_message_in option"

record trade_endpoint =
  te_tenant :: rstr
  te_name :: rstr
  te_category :: rstr
  te_forwarding :: bool
  te_metadata_keys :: "rstr list"
  te_notifications :: notification_policy

record invitation =
  vi_tenant :: rstr
  vi_endpoint :: rstr
  vi_secret_hash :: rstr
  vi_expected_key :: rstr
  vi_expires_at :: nat
  vi_redeemed :: "rstr option"

record inbound_extra =
  ix_transport :: "rstr option"
  ix_ancestry :: "route_receipt list"
  ix_created_at :: nat

record outbound_extra =
  ox_origin :: rstr
  ox_route_id :: rstr
  ox_peer_key :: rstr
  ox_source :: signed_route
  ox_next_attempt :: nat
  ox_attempts :: nat
  ox_request :: "route_revocation option"
  ox_acknowledged :: "route_revoked option"

record delivery_status =
  ds_route :: rstr
  ds_received :: bool
  ds_revoked :: bool
  ds_workflow :: "rstr option"
  ds_released :: bool

datatype revocation_status =
    RevocationClaimed nat
  | RevocationPending nat nat "rstr option"
  | RevocationAcknowledged nat route_revoked

record trade_store =
  tp_base :: upload_store
  tp_routes :: "(rstr, port_route) hmap"
  tp_endpoints :: "(rstr, trade_endpoint) hmap"
  tp_invitations :: "(rstr, invitation) hmap"
  tp_rotations :: "(rstr, rstr) hmap"
  tp_policies :: "(rstr, notification_policy) hmap"
  tp_inbound :: "(rstr, inbound_extra) hmap"
  tp_outbound :: "(rstr \<times> rstr, outbound_extra) hmap"
  tp_storage_endpoints :: "(rstr, rstr) hmap"
  tp_receipts :: "(rstr \<times> rstr, route_receipt) hmap"
  tp_status :: "(rstr \<times> rstr, delivery_status) hmap"
  tp_revocations :: "(rstr \<times> rstr, revocation_status) hmap"

text \<open>
  \<open>tl_address\<close>: \<open>api::trade::address\<close> normalises an origin; \<open>tl_revocation_text\<close>,
  \<open>tl_ack_text\<close>: the JSON in the columns; \<open>tl_evidence_len\<close>: the length of the JSON of a signed
  route and of its ancestry.
\<close>

record 'k trade_lib =
  tl_stmts :: "('k, port_body) stmt_lib"
  tl_key :: 'k
  tl_address :: "rstr \<Rightarrow> rstr + rstr"
  tl_revocation_text :: "route_revocation \<Rightarrow> rstr"
  tl_ack_text :: "route_revoked \<Rightarrow> rstr"
  tl_evidence_len :: "signed_route \<Rightarrow> route_receipt list \<Rightarrow> nat"

datatype trade_error =
    OfTenant workflow_error
  | BadEndpoint | BadPolicy policy_error | NotEligible | AlreadyEndpoint
  | BadInvitation | EndpointMissing
  | ClockMisaligned | InvalidProof | MissingSecret | BadCredential | BadPeerName | SelfPairing
  | InvitationMissing | NotAuthorised | AlreadyRedeemed | InvitationExpired | RouteLimit
  | EndpointGone | BadAddress rstr
  | TradeRouteMissing | PeerProof | MissingGrant | MissingCredential | PeerDenied
  | AddressDiffers
  | BadState | RouteChanged | RevokedIsFinal | EnrollFirst | NoReturnToPending
  | CredentialMoved | RouteUnavailable | DeliveriesActive
  | UnmanagedEndpoint | NeedsRoute | NeedsCredential | AdmissionDenied
  | EvidenceInvalid | RequestMissing | OperationReused | NotAcceptingRoutes | EvidenceTooLarge
  | RouteEvidenceLimit | IncomingLimit | SessionBound
  | RevocationProof | PeerChanged | DeliveryChanged | BadAcknowledgement | BadStatus
  | TradeSql

definition jobs_of :: "trade_store \<Rightarrow> job_store" where
  "jobs_of s = us_jobs (tp_base s)"

definition with_jobs :: "(job_store \<Rightarrow> job_store) \<Rightarrow> trade_store \<Rightarrow> trade_store" where
  "with_jobs f s = s\<lparr>tp_base := (tp_base s)\<lparr>us_jobs := f (us_jobs (tp_base s))\<rparr>\<rparr>"

definition trade_event :: "rstr \<Rightarrow> rstr \<Rightarrow> string \<Rightarrow> trade_store \<Rightarrow> trade_store" where
  "trade_event tenant job kind = with_jobs (delivery_event tenant job (lit kind))"

definition put_route :: "rstr \<Rightarrow> port_route \<Rightarrow> trade_store \<Rightarrow> trade_store" where
  "put_route i r s =
     with_jobs (\<lambda>j. j\<lparr>trade_routes := AList.update i (trade_route.truncate r) (trade_routes j)\<rparr>)
       (s\<lparr>tp_routes := AList.update i r (tp_routes s)\<rparr>)"

definition route_in :: "trade_store \<Rightarrow> rstr \<Rightarrow> trade_error + port_route" where
  "route_in s i = (case map_of (tp_routes s) i of None \<Rightarrow> Inl TradeRouteMissing | Some r \<Rightarrow> Inr r)"

definition outgoing :: rstr where "outgoing = lit ''outgoing''"
definition incoming :: rstr where "incoming = lit ''incoming''"
definition st_active :: rstr where "st_active = lit ''active''"
definition st_paused :: rstr where "st_paused = lit ''paused''"
definition st_revoked :: rstr where "st_revoked = lit ''revoked''"
definition st_pending :: rstr where "st_pending = lit ''pending_approval''"

definition TRADE_EVENTS :: "rstr list" where
  "TRADE_EVENTS = map lit [''route_approval_requested'', ''route_approved'', ''route_identity_changed'',
     ''route_failed'', ''route_recovered'', ''route_received'']"

text \<open>Routes that hold one of the hundred slots of a tenant; revoked ones stay as history.\<close>

definition live_routes :: "trade_store \<Rightarrow> rstr \<Rightarrow> nat" where
  "live_routes s tenant =
     length (filter (\<lambda>(_, r). tr_tenant r = tenant \<and> tr_state r \<noteq> st_revoked) (tp_routes s))"

text \<open>The gauge \<open>votport\_trade\_routes\_unreachable\<close>.\<close>

definition unreachable_trade_routes :: "trade_store \<Rightarrow> nat" where
  "unreachable_trade_routes s = length (filter (\<lambda>(_, r). tr_state r = lit ''unreachable'') (tp_routes s))"

definition trade_secret_hash :: "('k, 'b) stmt_lib \<Rightarrow> rstr \<Rightarrow> rstr" where
  "trade_secret_hash lib secret = sha256_hex lib (as_bytes secret)"

definition valid_peer_key :: "('k, 'b) stmt_lib \<Rightarrow> rstr \<Rightarrow> bool" where
  "valid_peer_key lib key \<longleftrightarrow>
     (case unhex lib key of None \<Rightarrow> False | Some v \<Rightarrow> length v = 32 \<and> key_ok lib v)
     \<and> str_len key = 64 \<and> lower_hex key"

section \<open>Endpoints and invitations\<close>

definition validate_endpoint :: "rstr \<Rightarrow> trade_endpoint \<Rightarrow> trade_error + unit" where
  "validate_endpoint i e =
     (if \<not> valid_id i \<or> trim (te_name e) = [] \<or> str_len (te_name e) > 200
         \<or> te_category e \<notin> {lit ''internal'', lit ''external''} \<or> length (te_metadata_keys e) > 50
         \<or> \<not> list_all valid_id (te_metadata_keys e)
      then Inl BadEndpoint
      else map_sum BadPolicy id (validate_policy TRADE_EVENTS (te_notifications e)))"

definition eligible_link :: "trade_store \<Rightarrow> rstr \<Rightarrow> rstr \<Rightarrow> bool" where
  "eligible_link s tenant i \<longleftrightarrow>
     (case (map_of (links (jobs_of s)) i, map_of (us_links (tp_base s)) i) of
        (Some t, Some d) \<Rightarrow> t = tenant \<and> \<not> ld_password d \<and> ld_active d
          \<and> \<not> list_ex (\<lambda>((_, l, _), _). l = i) (link_uploads (jobs_of s))
      | _ \<Rightarrow> False)
     \<and> \<not> list_ex (\<lambda>(_, d). rt_link_id d = i) (us_routes (tp_base s))"

definition create_trade_endpoint :: "rstr \<Rightarrow> trade_endpoint \<Rightarrow> trade_store \<Rightarrow> trade_error + trade_store" where
  "create_trade_endpoint i e s =
     (case validate_endpoint i e of
        Inl x \<Rightarrow> Inl x
      | Inr _ \<Rightarrow>
          if \<not> eligible_link s (te_tenant e) i then Inl NotEligible
          else if contains_key i (tp_endpoints s) then Inl AlreadyEndpoint
          else Inr (s\<lparr>tp_endpoints := AList.update i e (tp_endpoints s),
                      tp_base := (tp_base s)\<lparr>us_endpoints := us_endpoints (tp_base s) @ [i]\<rparr>\<rparr>))"

text \<open>The fresh identifier and secret are \<open>i\<close> and \<open>secret\<close>; only the digest is stored.\<close>

definition create_trade_invitation ::
  "'k trade_lib \<Rightarrow> rstr \<Rightarrow> rstr \<Rightarrow> rstr \<Rightarrow> nat \<Rightarrow> nat \<Rightarrow> rstr \<Rightarrow> rstr \<Rightarrow> trade_store \<Rightarrow> trade_error + trade_store" where
  "create_trade_invitation lib tenant endpoint expected expires now i secret s =
     (if expires \<le> now \<or> expires > now + 7 * 86400
         \<or> (expected \<noteq> [] \<and> \<not> valid_peer_key (tl_stmts lib) expected)
      then Inl BadInvitation
      else case map_of (tp_endpoints s) endpoint of
        None \<Rightarrow> Inl EndpointMissing
      | Some e \<Rightarrow>
          if te_tenant e \<noteq> tenant then Inl EndpointMissing
          else if contains_key i (tp_invitations s) then Inl TradeSql
          else Inr (s\<lparr>tp_invitations := AList.update i
                 \<lparr>vi_tenant = tenant, vi_endpoint = endpoint,
                  vi_secret_hash = trade_secret_hash (tl_stmts lib) secret, vi_expected_key = expected,
                  vi_expires_at = expires, vi_redeemed = None\<rparr> (tp_invitations s)\<rparr>))"

definition prune_trade_invitations :: "nat \<Rightarrow> trade_store \<Rightarrow> trade_store" where
  "prune_trade_invitations now s =
     s\<lparr>tp_invitations := filter (\<lambda>(_, v). \<not> (vi_redeemed v = None \<and> vi_expires_at v \<le> now)) (tp_invitations s)\<rparr>"

section \<open>Redeeming an invitation\<close>

definition body_str :: "port_message_in \<Rightarrow> string \<Rightarrow> rstr option" where
  "body_str m key = map_of (pm_body (sp_document m)) (lit key)"

definition issuer_of :: "port_message_in \<Rightarrow> rstr" where
  "issuer_of m = pm_issuer (sp_document m)"

text \<open>The secret, the credential and the name that an enrolment carries.\<close>

definition enrollment_of ::
  "'k trade_lib \<Rightarrow> port_message_in \<Rightarrow> nat \<Rightarrow> trade_error + (rstr \<times> rstr \<times> rstr)" where
  "enrollment_of lib m now =
     (if window_failed (tl_stmts lib) m (lit ''enroll'') (key_hex (tl_stmts lib) (tl_key lib)) now
      then Inl ClockMisaligned
      else if \<not> verify_port (tl_stmts lib) m (lit ''enroll'') (key_hex (tl_stmts lib) (tl_key lib)) now
      then Inl InvalidProof
      else case body_str m ''secret'' of
        None \<Rightarrow> Inl MissingSecret
      | Some secret \<Rightarrow>
         (case body_str m ''credential'' of
            None \<Rightarrow> Inl BadCredential
          | Some credential \<Rightarrow>
              if \<not> valid_hex credential 32 then Inl BadCredential
              else case body_str m ''name'' of
                None \<Rightarrow> Inl BadPeerName
              | Some name \<Rightarrow>
                  if trim name = [] \<or> str_len name > 200 then Inl BadPeerName
                  else if issuer_of m = key_hex (tl_stmts lib) (tl_key lib) then Inl SelfPairing
                  else Inr (secret, credential, name)))"

definition enrolled_address :: "'k trade_lib \<Rightarrow> port_message_in \<Rightarrow> trade_error + rstr" where
  "enrolled_address lib m =
     (case body_str m ''address'' of
        None \<Rightarrow> Inr []
      | Some a \<Rightarrow> if a = [] then Inr [] else map_sum BadAddress id (tl_address lib a))"

definition enrolled_route ::
  "invitation \<Rightarrow> trade_endpoint \<Rightarrow> rstr \<Rightarrow> rstr \<Rightarrow> rstr \<Rightarrow> rstr \<Rightarrow> nat \<Rightarrow> port_route" where
  "enrolled_route v e key name address credential now =
     \<lparr>tr_tenant = vi_tenant v, tr_direction = incoming,
      tr_state = (if vi_expected_key v = [] then st_pending else st_active),
      tr_cancel_active = False, tr_remote_grant = [], tr_peer_key = key, tr_endpoint = vi_endpoint v,
      tr_forwarding = te_forwarding e, tr_metadata_keys = te_metadata_keys e,
      tr_notifications = te_notifications e,
      po_revision = 1, po_name = te_name e, po_peer_name = name, po_address = address,
      po_endpoint_name = te_name e, po_category = te_category e, po_last_contact = Some now,
      po_error = None, po_remote_state = [], po_credential = credential, po_enrollment = None\<rparr>"

text \<open>The same peer may repeat an enrolment whose reply it lost; the result says whether it is new.\<close>

definition redeem_again ::
  "trade_store \<Rightarrow> rstr \<Rightarrow> rstr \<Rightarrow> rstr \<Rightarrow> trade_error + (rstr \<times> bool \<times> trade_store)" where
  "redeem_again s route credential key =
     (case route_in s route of
        Inl e \<Rightarrow> Inl e
      | Inr r \<Rightarrow> if po_credential r = credential \<and> tr_peer_key r = key then Inr (route, False, s)
                else Inl AlreadyRedeemed)"

definition redeem_new ::
  "'k trade_lib \<Rightarrow> port_message_in \<Rightarrow> invitation \<Rightarrow> rstr \<Rightarrow> rstr \<Rightarrow> nat \<Rightarrow> rstr \<Rightarrow> trade_store
   \<Rightarrow> trade_error + (rstr \<times> bool \<times> trade_store)" where
  "redeem_new lib m v credential name now i s =
     (if vi_expires_at v \<le> now then Inl InvitationExpired
      else if live_routes s (vi_tenant v) \<ge> 100 then Inl RouteLimit
      else case map_of (tp_endpoints s) (vi_endpoint v) of
        None \<Rightarrow> Inl EndpointGone
      | Some e \<Rightarrow>
         (case enrolled_address lib m of
            Inl x \<Rightarrow> Inl x
          | Inr address \<Rightarrow>
              if contains_key i (tp_routes s) then Inl TradeSql
              else
                let s = put_route i (enrolled_route v e (issuer_of m) name address credential now) s;
                    s = s\<lparr>tp_invitations := AList.update (pm_nonce (sp_document m))
                           (v\<lparr>vi_redeemed := Some i\<rparr>) (tp_invitations s)\<rparr>
                in Inr (i, True, trade_event (vi_tenant v) [] ''route_enrolled'' s)))"

definition redeem_trade_invitation ::
  "'k trade_lib \<Rightarrow> port_message_in \<Rightarrow> nat \<Rightarrow> rstr \<Rightarrow> trade_store \<Rightarrow> trade_error + (rstr \<times> bool \<times> trade_store)" where
  "redeem_trade_invitation lib m now i s =
     (case enrollment_of lib m now of
        Inl e \<Rightarrow> Inl e
      | Inr (secret, credential, name) \<Rightarrow>
         (case map_of (tp_invitations s) (pm_nonce (sp_document m)) of
            None \<Rightarrow> Inl InvitationMissing
          | Some v \<Rightarrow>
              if vi_secret_hash v \<noteq> trade_secret_hash (tl_stmts lib) secret
                 \<or> (vi_expected_key v \<noteq> [] \<and> vi_expected_key v \<noteq> issuer_of m)
              then Inl NotAuthorised
              else let hash = trade_secret_hash (tl_stmts lib) credential in
                case vi_redeemed v of
                  Some route \<Rightarrow> redeem_again s route hash (issuer_of m)
                | None \<Rightarrow> redeem_new lib m v hash name now i s))"

text \<open>A peer proves the possession of its key and of the credential of its route. While a rotation
  is under way the next credential is accepted for repeating it.\<close>

definition authenticate_trade ::
  "'k trade_lib \<Rightarrow> port_message_in \<Rightarrow> string \<Rightarrow> nat \<Rightarrow> trade_store \<Rightarrow> trade_error + (rstr \<times> port_route)" where
  "authenticate_trade lib m purpose now s =
     (if \<not> verify_port (tl_stmts lib) m (lit purpose) (key_hex (tl_stmts lib) (tl_key lib)) now
         \<or> pm_expires_at (sp_document m) > now + 600
      then Inl PeerProof
      else case body_str m ''grant'' of
        None \<Rightarrow> Inl MissingGrant
      | Some i \<Rightarrow>
         (case body_str m ''credential'' of
            None \<Rightarrow> Inl MissingCredential
          | Some credential \<Rightarrow>
             (case route_in s i of
                Inl e \<Rightarrow> Inl e
              | Inr r \<Rightarrow>
                  let next' = (case body_str m ''next'' of None \<Rightarrow> [] | Some v \<Rightarrow> v);
                      hash = trade_secret_hash (tl_stmts lib) in
                  if tr_direction r = incoming
                     \<and> (po_credential r = hash credential
                        \<or> (lit purpose = lit ''rotate'' \<and> po_credential r = hash next'))
                     \<and> tr_peer_key r = issuer_of m
                  then Inr (i, r) else Inl PeerDenied)))"

section \<open>The sending side\<close>

definition trade_storage :: "port_route \<Rightarrow> storage_row" where
  "trade_storage r = \<lparr>st_revision = 1, st_enabled = True, st_tenants = [tr_tenant r]\<rparr>"

definition address_changed :: "trade_store \<Rightarrow> port_route \<Rightarrow> bool" where
  "address_changed s r \<longleftrightarrow>
     list_ex (\<lambda>(_, x). tr_tenant x = tr_tenant r \<and> tr_peer_key x = tr_peer_key r \<and> tr_direction x = outgoing
                       \<and> po_address x \<noteq> po_address r) (tp_routes s)"

definition save_outgoing_trade :: "rstr \<Rightarrow> port_route \<Rightarrow> trade_store \<Rightarrow> trade_error + trade_store" where
  "save_outgoing_trade i r s =
     (case ensure_tenant (jobs_of s) (tr_tenant r) of
        Inl e \<Rightarrow> Inl (OfTenant e)
      | Inr _ \<Rightarrow>
          if address_changed s r then Inl AddressDiffers
          else if live_routes s (tr_tenant r) \<ge> 100 then Inl RouteLimit
          else if contains_key i (tp_routes s) \<or> contains_key i (storages (jobs_of s)) then Inl TradeSql
          else
            let s = put_route i r s;
                s = with_jobs (\<lambda>j. j\<lparr>storages := AList.update i (trade_storage r) (storages j)\<rparr>) s;
                s = s\<lparr>tp_storage_endpoints := AList.update i (po_address r) (tp_storage_endpoints s)\<rparr>
            in Inr (trade_event (tr_tenant r) [] ''route_accepted'' s))"

definition finish_trade_enrollment :: "rstr \<Rightarrow> rstr \<Rightarrow> rstr \<Rightarrow> rstr \<Rightarrow> trade_store \<Rightarrow> trade_store" where
  "finish_trade_enrollment tenant i grant' state s =
     (case map_of (tp_routes s) i of
        None \<Rightarrow> s
      | Some r \<Rightarrow>
          if tr_tenant r \<noteq> tenant \<or> tr_remote_grant r \<noteq> [] then s
          else put_route i (r\<lparr>tr_remote_grant := grant', po_remote_state := state,
                 tr_state := (if tr_state r \<in> {st_paused, st_revoked} then tr_state r else state),
                 po_enrollment := None\<rparr>) s)"

text \<open>A destination whose state in the checks of the job is \<open>complete\<close> stays delivered; every other
  delivery over a route that is no longer active and cancels is revoked.\<close>

definition cancels :: "trade_store \<Rightarrow> rstr \<Rightarrow> outbound_row \<Rightarrow> bool" where
  "cancels s i row \<longleftrightarrow>
     ob_destination_id row = i \<and> ob_revocation row = None \<and> ob_ack row = None
     \<and> (case map_of (tp_routes s) i of
          None \<Rightarrow> False
        | Some r \<Rightarrow> tr_direction r = outgoing \<and> tr_state r \<noteq> st_active \<and> tr_cancel_active r)
     \<and> (case job_in (jobs_of s) (ob_job_id row) of
          None \<Rightarrow> False
        | Some j \<Rightarrow> jb_state j \<noteq> Suspended \<and> \<not> destination_complete j i)"

definition outbound_key :: "outbound_row \<Rightarrow> rstr \<times> rstr" where
  "outbound_key row = (ob_job_id row, ob_destination_id row)"

definition revocation_for :: "'k trade_lib \<Rightarrow> outbound_extra \<Rightarrow> route_revocation" where
  "revocation_for lib x =
     sign_revocation (tl_stmts lib) (ox_source x) (ox_peer_key x) (ox_route_id x) (tl_key lib)"

definition queue_one :: "'k trade_lib \<Rightarrow> trade_store \<Rightarrow> rstr \<Rightarrow> (rstr \<times> rstr) \<times> outbound_extra \<Rightarrow> (rstr \<times> rstr) \<times> outbound_extra" where
  "queue_one lib s i e =
     (case e of (k, x) \<Rightarrow>
        if list_ex (\<lambda>row. outbound_key row = k \<and> cancels s i row) (outbound_routes (jobs_of s))
        then (k, x\<lparr>ox_request := Some (revocation_for lib x), ox_next_attempt := 0\<rparr>) else (k, x))"

definition queue_row :: "'k trade_lib \<Rightarrow> trade_store \<Rightarrow> rstr \<Rightarrow> outbound_row \<Rightarrow> outbound_row" where
  "queue_row lib s i row =
     (case map_of (tp_outbound s) (outbound_key row) of
        Some x \<Rightarrow> if cancels s i row
                  then row\<lparr>ob_revocation := Some (tl_revocation_text lib (revocation_for lib x))\<rparr> else row
      | None \<Rightarrow> row)"

definition queue_cancelled :: "'k trade_lib \<Rightarrow> rstr \<Rightarrow> trade_store \<Rightarrow> trade_store" where
  "queue_cancelled lib i s =
     with_jobs (\<lambda>j. j\<lparr>outbound_routes := map (queue_row lib s i) (outbound_routes j)\<rparr>)
       (s\<lparr>tp_outbound := map (queue_one lib s i) (tp_outbound s)\<rparr>)"

section \<open>Permissions and credentials\<close>

definition grant_of :: "signed_route \<Rightarrow> rstr option" where
  "grant_of source = map_option rp_grant (rd_permission (sr_document source))"

text \<open>Incoming deliveries of a route that have no receipt yet are revoked with it.\<close>

definition revoke_incoming :: "rstr \<Rightarrow> nat \<Rightarrow> trade_store \<Rightarrow> trade_store" where
  "revoke_incoming i now s =
     with_jobs (\<lambda>j. j\<lparr>inbound_routes := map (\<lambda>(k, r).
        (k, case map_of (us_routes (tp_base s)) k of
              Some d \<Rightarrow> if rt_receipt d = None \<and> grant_of (rt_source d) = Some i
                        then r\<lparr>ib_revoked_at := (case ib_revoked_at r of None \<Rightarrow> Some now | Some t \<Rightarrow> Some t)\<rparr>
                        else r
            | None \<Rightarrow> r)) (inbound_routes j)\<rparr>) s"

definition check_route_update ::
  "rstr \<Rightarrow> nat \<Rightarrow> rstr \<Rightarrow> port_route \<Rightarrow> trade_error + unit" where
  "check_route_update tenant revision state r =
     (if tr_tenant r \<noteq> tenant \<or> po_revision r \<noteq> revision then Inl RouteChanged
      else if tr_state r = st_revoked \<and> state \<noteq> st_revoked then Inl RevokedIsFinal
      else if tr_direction r = outgoing \<and> tr_remote_grant r = [] \<and> state = st_active then Inl EnrollFirst
      else if state = st_pending \<and> tr_state r \<noteq> st_pending then Inl NoReturnToPending
      else Inr ())"

definition update_trade_route ::
  "'k trade_lib \<Rightarrow> rstr \<Rightarrow> rstr \<Rightarrow> nat \<Rightarrow> rstr \<Rightarrow> bool \<Rightarrow> notification_policy \<Rightarrow> nat \<Rightarrow> trade_store
   \<Rightarrow> trade_error + (port_route \<times> trade_store)" where
  "update_trade_route lib tenant i revision state stop policy now s =
     (if state \<notin> {st_active, st_paused, st_revoked, st_pending} then Inl BadState
      else case validate_policy TRADE_EVENTS policy of
        Inl e \<Rightarrow> Inl (BadPolicy e)
      | Inr _ \<Rightarrow>
     (case route_in s i of
        Inl e \<Rightarrow> Inl e
      | Inr r \<Rightarrow>
     (case check_route_update tenant revision state r of
        Inl e \<Rightarrow> Inl e
      | Inr _ \<Rightarrow>
          let r = r\<lparr>po_revision := po_revision r + 1, tr_state := state, tr_cancel_active := stop,
                    tr_notifications := policy\<rparr>;
              s = queue_cancelled lib i (put_route i r s);
              s = (if tr_direction r = incoming \<and> state \<noteq> st_active \<and> stop then revoke_incoming i now s else s)
          in Inr (r, trade_event tenant [] ''route_permission_changed'' s))))"

definition trade_contact ::
  "rstr \<Rightarrow> rstr \<Rightarrow> rstr \<Rightarrow> rstr option \<Rightarrow> nat \<Rightarrow> trade_store \<Rightarrow> trade_error + (bool \<times> trade_store)" where
  "trade_contact tenant i remote err now s =
     (case route_in s i of
        Inl e \<Rightarrow> Inl e
      | Inr r \<Rightarrow>
          if tr_tenant r \<noteq> tenant then Inl RouteUnavailable
          else
            let changed = (po_remote_state r \<noteq> remote \<or> po_error r \<noteq> err);
                r = r\<lparr>po_remote_state := remote, po_error := err,
                      po_last_contact := (if err = None then Some now else po_last_contact r),
                      tr_state := (if tr_direction r = outgoing \<and> tr_state r = st_pending \<and> remote = st_active
                                   then st_active else tr_state r)\<rparr>
            in Inr (changed, put_route i r s))"

definition rotate_trade_credential ::
  "'k trade_lib \<Rightarrow> rstr \<Rightarrow> rstr \<Rightarrow> rstr \<Rightarrow> trade_store \<Rightarrow> trade_error + trade_store" where
  "rotate_trade_credential lib i previous next' s =
     (if \<not> valid_hex next' 32 then Inl BadCredential
      else case map_of (tp_routes s) i of
        None \<Rightarrow> Inl TradeSql
      | Some r \<Rightarrow>
          let kept = (\<lambda>v. if tr_direction r = incoming then trade_secret_hash (tl_stmts lib) v else v) in
          if po_credential r = kept next' then Inr s
          else if po_credential r \<noteq> kept previous then Inl CredentialMoved
          else Inr (trade_event (tr_tenant r) [] ''trade_credential_rotated''
                 (put_route i (r\<lparr>po_credential := kept next'\<rparr>) s)))"

text \<open>The next credential of a route is drawn once and kept until the rotation is confirmed.\<close>

definition pending_trade_rotation ::
  "rstr \<Rightarrow> rstr \<Rightarrow> rstr \<Rightarrow> trade_store \<Rightarrow> trade_error + (rstr \<times> trade_store)" where
  "pending_trade_rotation tenant i fresh s =
     (case route_in s i of
        Inl e \<Rightarrow> Inl e
      | Inr r \<Rightarrow>
          if tr_tenant r \<noteq> tenant \<or> tr_direction r \<noteq> outgoing then Inl RouteUnavailable
          else case map_of (tp_rotations s) i of
            Some next' \<Rightarrow> Inr (next', s)
          | None \<Rightarrow> Inr (fresh, s\<lparr>tp_rotations := AList.update i fresh (tp_rotations s)\<rparr>))"

definition clear_trade_rotation :: "rstr \<Rightarrow> rstr \<Rightarrow> trade_store \<Rightarrow> trade_store" where
  "clear_trade_rotation i next' s =
     (if map_of (tp_rotations s) i = Some next' then s\<lparr>tp_rotations := AList.delete i (tp_rotations s)\<rparr> else s)"

section \<open>A change of address\<close>

definition outgoing_to :: "rstr \<Rightarrow> rstr \<Rightarrow> port_route \<Rightarrow> bool" where
  "outgoing_to tenant key r \<longleftrightarrow> tr_tenant r = tenant \<and> tr_peer_key r = key \<and> tr_direction r = outgoing"

definition peer_busy :: "trade_store \<Rightarrow> rstr \<Rightarrow> rstr \<Rightarrow> bool" where
  "peer_busy s tenant key \<longleftrightarrow>
     list_ex (\<lambda>(_, row).
        jb_state (jr_job row) \<in> {Queued, Preparing, AwaitingApproval, Exporting, Retrying}
        \<and> list_ex (\<lambda>d. case map_of (tp_routes s) d of
              Some r \<Rightarrow> tr_tenant r = tenant \<and> tr_peer_key r = key | None \<Rightarrow> False)
            (pj_destinations (jb_project (jr_job row)))) (jobs (jobs_of s))"

definition change_trade_address ::
  "rstr \<Rightarrow> rstr \<Rightarrow> nat \<Rightarrow> rstr \<Rightarrow> trade_store \<Rightarrow> trade_error + trade_store" where
  "change_trade_address tenant i revision address s =
     (case route_in s i of
        Inl e \<Rightarrow> Inl e
      | Inr r \<Rightarrow>
          if tr_tenant r \<noteq> tenant \<or> po_revision r \<noteq> revision \<or> tr_direction r \<noteq> outgoing then Inl RouteUnavailable
          else if peer_busy s tenant (tr_peer_key r) then Inl DeliveriesActive
          else
            let mine = (\<lambda>k. case map_of (tp_routes s) k of
                              Some x \<Rightarrow> outgoing_to tenant (tr_peer_key r) x | None \<Rightarrow> False)
            in Inr (trade_event tenant [] ''route_address_changed'' (s\<lparr>
                 tp_routes := map (\<lambda>(k, x). (k, if outgoing_to tenant (tr_peer_key r) x
                    then x\<lparr>po_address := address, po_revision := po_revision x + 1\<rparr> else x)) (tp_routes s),
                 tp_storage_endpoints := map (\<lambda>(k, a). (k, if mine k then address else a)) (tp_storage_endpoints s),
                 tp_outbound := map (\<lambda>((j, d), x). ((j, d),
                    if mine d \<and> ox_peer_key x = tr_peer_key r then x\<lparr>ox_origin := address\<rparr> else x))
                    (tp_outbound s)\<rparr>)))"

end
