(* ===== verification/TradeFlow.thy ===== *)
theory TradeFlow
  imports TradeStore
begin

text \<open>
  Deliveries over trade routes, from \<open>server/src/store/routes.rs\<close> and the checks of
  \<open>server/src/store/trade.rs\<close> they rely on: the admission of a signed route, the session that
  receives it, its revocation by the source, and, on the sending side, the binding of a delivery to
  a route, the receipt and the revocation that is repeated until the peer acknowledges it.
\<close>

section \<open>Admission\<close>

definition metadata_keys :: "signed_route \<Rightarrow> rstr list" where
  "metadata_keys source = map fst (rd_metadata (sr_document source))"

definition terms_allow :: "port_route \<Rightarrow> route_permission \<Rightarrow> signed_route \<Rightarrow> route_receipt list \<Rightarrow> bool" where
  "terms_allow r p source ancestry \<longleftrightarrow>
     (rp_forwarding p \<longrightarrow> tr_forwarding r)
     \<and> list_all (\<lambda>k. k \<in> set (tr_metadata_keys r)) (metadata_keys source)
     \<and> list_all (\<lambda>a. list_all (\<lambda>k. k \<in> set (tr_metadata_keys r)) (metadata_keys (rc_source (rr_document a)))) ancestry"

definition admit_route ::
  "'k trade_lib \<Rightarrow> trade_store \<Rightarrow> signed_route \<Rightarrow> route_receipt list \<Rightarrow> rstr \<Rightarrow> rstr option \<Rightarrow> bool
   \<Rightarrow> trade_error + unit" where
  "admit_route lib s source ancestry link credential existing =
     (if \<not> contains_key link (tp_endpoints s)
      then (if rd_permission (sr_document source) = None then Inr () else Inl UnmanagedEndpoint)
      else case rd_permission (sr_document source) of
        None \<Rightarrow> Inl NeedsRoute
      | Some p \<Rightarrow>
         (case route_in s (rp_grant p) of
            Inl e \<Rightarrow> Inl e
          | Inr r \<Rightarrow>
             (case credential of
                None \<Rightarrow> Inl NeedsCredential
              | Some c \<Rightarrow>
                  if po_credential r \<noteq> trade_secret_hash (tl_stmts lib) c
                     \<or> tr_direction r \<noteq> incoming \<or> tr_endpoint r \<noteq> link
                     \<or> tr_peer_key r \<noteq> rd_issuer (sr_document source)
                     \<or> (tr_state r \<noteq> st_active \<and> \<not> existing)
                     \<or> \<not> terms_allow r p source ancestry
                  then Inl AdmissionDenied else Inr ())))"

definition link_open :: "trade_store \<Rightarrow> nat \<Rightarrow> rstr \<Rightarrow> bool" where
  "link_open s now link \<longleftrightarrow>
     (case map_of (us_links (tp_base s)) link of
        None \<Rightarrow> False
      | Some d \<Rightarrow> ld_active d \<and> (case ld_expires_at d of None \<Rightarrow> True | Some t \<Rightarrow> t > now))"

text \<open>\<open>UNIQUE(link\_id,issuer,operation\_id)\<close>: a delivery is named by its request, its sender and its operation.\<close>

definition route_name :: "route_detail \<Rightarrow> rstr \<times> rstr \<times> rstr" where
  "route_name d = (rt_link_id d, rd_issuer (sr_document (rt_source d)), rd_operation_id (sr_document (rt_source d)))"

definition previous_route :: "trade_store \<Rightarrow> rstr \<Rightarrow> signed_route \<Rightarrow> (rstr \<times> route_detail) option" where
  "previous_route s link source =
     find (\<lambda>(_, d). route_name d = (link, rd_issuer (sr_document source), rd_operation_id (sr_document source)))
       (us_routes (tp_base s))"

definition ancestry_of :: "trade_store \<Rightarrow> rstr \<Rightarrow> route_receipt list" where
  "ancestry_of s i = (case map_of (tp_inbound s) i of None \<Rightarrow> [] | Some x \<Rightarrow> ix_ancestry x)"

definition inbound_tenant :: "trade_store \<Rightarrow> rstr \<Rightarrow> rstr option" where
  "inbound_tenant s i = map_option ib_tenant (map_of (inbound_routes (jobs_of s)) i)"

definition retained_routes :: "trade_store \<Rightarrow> rstr \<Rightarrow> rstr \<Rightarrow> nat" where
  "retained_routes s tenant link =
     length (filter (\<lambda>(i, d). rt_link_id d = link \<and> inbound_tenant s i = Some tenant) (us_routes (tp_base s)))"

definition pending_routes :: "trade_store \<Rightarrow> rstr \<Rightarrow> nat \<Rightarrow> nat" where
  "pending_routes s tenant now =
     length (filter (\<lambda>(i, d). rt_receipt d = None \<and> link_open s now (rt_link_id d)
        \<and> (case map_of (inbound_routes (jobs_of s)) i of
             None \<Rightarrow> False | Some r \<Rightarrow> ib_tenant r = tenant \<and> ib_revoked_at r = None)) (us_routes (tp_base s)))"

definition MAX_UNPAIRED_ROUTE_BYTES :: nat where "MAX_UNPAIRED_ROUTE_BYTES = 64 * 1024"
definition MAX_UNPAIRED_ROUTES :: nat where "MAX_UNPAIRED_ROUTES = 1000"

definition check_unpaired :: "'k trade_lib \<Rightarrow> trade_store \<Rightarrow> rstr \<Rightarrow> rstr \<Rightarrow> signed_route \<Rightarrow> route_receipt list
   \<Rightarrow> trade_error + unit" where
  "check_unpaired lib s tenant link source ancestry =
     (if rd_permission (sr_document source) \<noteq> None then Inr ()
      else if tl_evidence_len lib source ancestry > MAX_UNPAIRED_ROUTE_BYTES then Inl EvidenceTooLarge
      else if retained_routes s tenant link \<ge> MAX_UNPAIRED_ROUTES then Inl RouteEvidenceLimit
      else Inr ())"

text \<open>A new delivery takes over the notifications of the route it came by.\<close>

definition insert_inbound ::
  "rstr \<Rightarrow> rstr \<Rightarrow> signed_route \<Rightarrow> route_receipt list \<Rightarrow> nat \<Rightarrow> rstr \<Rightarrow> trade_store \<Rightarrow> trade_store" where
  "insert_inbound tenant link source ancestry now i s =
     (let b = tp_base s;
          b = b\<lparr>us_routes := AList.update i
                 \<lparr>rt_link_id = link, rt_session_id = None, rt_source = source, rt_receipt = None\<rparr> (us_routes b),
                us_jobs := (us_jobs b)\<lparr>inbound_routes := AList.update i
                 \<lparr>ib_tenant = tenant, ib_upload_id = [],
                  ib_forwarding = map_option rp_forwarding (rd_permission (sr_document source)),
                  ib_revoked_at = None\<rparr> (inbound_routes (us_jobs b))\<rparr>\<rparr>;
          s = s\<lparr>tp_base := b, tp_inbound := AList.update i
                 \<lparr>ix_transport = None, ix_ancestry = ancestry, ix_created_at = now\<rparr> (tp_inbound s)\<rparr>
      in case grant_of source of
           None \<Rightarrow> s
         | Some g \<Rightarrow>
            (case map_of (tp_routes s) g of
               None \<Rightarrow> s
             | Some r \<Rightarrow> s\<lparr>tp_policies := AList.update i (tr_notifications r) (tp_policies s)\<rparr>))"

definition receive_route_authorized ::
  "'k trade_lib \<Rightarrow> rstr \<Rightarrow> rstr \<Rightarrow> signed_route \<Rightarrow> route_receipt list \<Rightarrow> rstr option \<Rightarrow> nat \<Rightarrow> rstr
   \<Rightarrow> trade_store \<Rightarrow> trade_error + (rstr \<times> trade_store)" where
  "receive_route_authorized lib tenant link source ancestry credential now i s =
     (if \<not> admits (tl_stmts lib) source (key_hex (tl_stmts lib) (tl_key lib))
         \<or> \<not> verify_ancestry (tl_stmts lib) source ancestry
      then Inl EvidenceInvalid
      else if map_of (links (jobs_of s)) link \<noteq> Some tenant then Inl RequestMissing
      else
        let previous = previous_route s link source in
        case admit_route lib s source ancestry link credential (previous \<noteq> None) of
          Inl e \<Rightarrow> Inl e
        | Inr _ \<Rightarrow>
           (case previous of
              Some (k, d) \<Rightarrow>
                if rt_source d = source \<and> ancestry_of s k = ancestry then Inr (k, s) else Inl OperationReused
            | None \<Rightarrow>
                if \<not> link_open s now link then Inl NotAcceptingRoutes
                else case check_unpaired lib s tenant link source ancestry of
                  Inl e \<Rightarrow> Inl e
                | Inr _ \<Rightarrow>
                    if pending_routes s tenant now \<ge> 1000 then Inl IncomingLimit
                    else if contains_key i (us_routes (tp_base s)) then Inl TradeSql
                    else Inr (i, trade_event tenant [] ''route_admitted''
                           (insert_inbound tenant link source ancestry now i s))))"

section \<open>Receiving and revoking\<close>

text \<open>The session a route was seen with is compared, so that two sessions never share a route.\<close>

definition bind_route_session ::
  "rstr \<Rightarrow> rstr \<Rightarrow> rstr option \<Rightarrow> rstr \<Rightarrow> rstr \<Rightarrow> trade_store \<Rightarrow> trade_error + trade_store" where
  "bind_route_session i link seen session transport s =
     (case (map_of (us_routes (tp_base s)) i, map_of (inbound_routes (jobs_of s)) i) of
        (Some d, Some r) \<Rightarrow>
          if rt_link_id d \<noteq> link \<or> rt_session_id d \<noteq> seen \<or> rt_receipt d \<noteq> None \<or> ib_revoked_at r \<noteq> None
          then Inl SessionBound
          else if list_ex (\<lambda>(k, x). k \<noteq> i \<and> rt_session_id x = Some session) (us_routes (tp_base s)) then Inl TradeSql
          else Inr (s\<lparr>tp_base := (tp_base s)\<lparr>us_routes :=
                        AList.update i (d\<lparr>rt_session_id := Some session\<rparr>) (us_routes (tp_base s))\<rparr>,
                      tp_inbound := (case map_of (tp_inbound s) i of
                         None \<Rightarrow> tp_inbound s
                       | Some x \<Rightarrow> AList.update i (x\<lparr>ix_transport := Some transport\<rparr>) (tp_inbound s))\<rparr>)
      | _ \<Rightarrow> Inl SessionBound)"

definition revoke_inbound_route ::
  "'k trade_lib \<Rightarrow> rstr \<Rightarrow> route_revocation \<Rightarrow> nat \<Rightarrow> trade_store \<Rightarrow> trade_error + (nat option \<times> trade_store)" where
  "revoke_inbound_route lib i request now s =
     (if rv_receiver (rn_document request) \<noteq> key_hex (tl_stmts lib) (tl_key lib)
         \<or> \<not> verify_revocation (tl_stmts lib) request
         \<or> rv_route_digest (rn_document request) \<noteq> sha256_hex (tl_stmts lib) (as_bytes i)
      then Inl RevocationProof
      else case (map_of (us_routes (tp_base s)) i, map_of (inbound_routes (jobs_of s)) i) of
        (Some d, Some r) \<Rightarrow>
          if rv_source (rn_document request) \<noteq> rt_source d then Inl RevocationProof
          else (case ib_revoked_at r of
             Some t \<Rightarrow> Inr (Some t, s)
           | None \<Rightarrow> Inr (Some now, trade_event (ib_tenant r) [] ''route_revoked''
                           (with_jobs (revoke_route_deliveries i now) s)))
      | _ \<Rightarrow> Inr (None, s))"

section \<open>Deliveries bound to a route\<close>

definition bind_outbound_route ::
  "'k trade_lib \<Rightarrow> rstr \<Rightarrow> rstr \<Rightarrow> rstr \<Rightarrow> rstr \<Rightarrow> rstr \<Rightarrow> signed_route \<Rightarrow> trade_store \<Rightarrow> trade_error + trade_store" where
  "bind_outbound_route lib job d origin route key source s =
     (case map_of (tp_outbound s) (job, d) of
        Some x \<Rightarrow>
          if ox_origin x = origin \<and> ox_route_id x = route \<and> ox_peer_key x = key \<and> ox_source x = source
          then Inr (queue_cancelled lib d s) else Inl PeerChanged
      | None \<Rightarrow>
          Inr (queue_cancelled lib d
            (with_jobs (\<lambda>j. j\<lparr>outbound_routes := outbound_routes j
                @ [\<lparr>ob_job_id = job, ob_destination_id = d, ob_revocation = None, ob_ack = None\<rparr>]\<rparr>)
              (s\<lparr>tp_outbound := AList.update (job, d)
                 \<lparr>ox_origin = origin, ox_route_id = route, ox_peer_key = key, ox_source = source,
                  ox_next_attempt = 0, ox_attempts = 0, ox_request = None, ox_acknowledged = None\<rparr>
                 (tp_outbound s)\<rparr>))))"

definition exporting_attempt :: "trade_store \<Rightarrow> djob \<Rightarrow> bool" where
  "exporting_attempt s j \<longleftrightarrow>
     (case job_in (jobs_of s) (jb_id j) of
        None \<Rightarrow> False | Some k \<Rightarrow> jb_state k = Exporting \<and> jb_attempts k = jb_attempts j)"

definition record_route_receipt :: "djob \<Rightarrow> rstr \<Rightarrow> route_receipt \<Rightarrow> trade_store \<Rightarrow> trade_error + trade_store" where
  "record_route_receipt j d receipt s =
     (if exporting_attempt s j then Inr (s\<lparr>tp_receipts := AList.update (jb_id j, d) receipt (tp_receipts s)\<rparr>)
      else Inl DeliveryChanged)"

section \<open>Revoking at the peer\<close>

record outbound_control =
  oc_job_id :: rstr
  oc_destination :: rstr
  oc_origin :: rstr
  oc_route_id :: rstr
  oc_request :: route_revocation
  oc_attempts :: nat

definition grant_gone :: "job_store \<Rightarrow> rstr \<Rightarrow> nat \<Rightarrow> bool" where
  "grant_gone s job now \<longleftrightarrow>
     (case map_of (grants s) job of
        None \<Rightarrow> True | Some g \<Rightarrow> gr_revoked_at g \<noteq> None \<or> gr_expires_at g \<le> now)"

definition delivery_over :: "job_store \<Rightarrow> nat \<Rightarrow> rstr \<Rightarrow> djob \<Rightarrow> bool" where
  "delivery_over s now d j \<longleftrightarrow>
     jb_state j = Cancelled
     \<or> (retiring (jb_state j) \<and> ck_retired_from (jb_checks j) = Some Cancelled)
     \<or> ck_source_revoked_at (jb_checks j) \<noteq> None
     \<or> (\<not> destination_complete j d \<and> (retiring (jb_state j) \<or> grant_gone s (jb_id j) now))"

definition revocation_due :: "trade_store \<Rightarrow> nat \<Rightarrow> (rstr \<times> rstr) \<times> outbound_extra \<Rightarrow> bool" where
  "revocation_due s now e \<longleftrightarrow>
     (case e of ((job, d), x) \<Rightarrow>
        ox_acknowledged x = None \<and> ox_next_attempt x \<le> now
        \<and> (case job_in (jobs_of s) job of
             None \<Rightarrow> False
           | Some j \<Rightarrow> jb_state j \<noteq> Suspended \<and> (ox_request x \<noteq> None \<or> delivery_over (jobs_of s) now d j)))"

definition set_outbound ::
  "(rstr \<times> rstr) \<Rightarrow> outbound_extra \<Rightarrow> (outbound_row \<Rightarrow> outbound_row) \<Rightarrow> trade_store \<Rightarrow> trade_store" where
  "set_outbound k x f s =
     with_jobs (\<lambda>j. j\<lparr>outbound_routes := map (\<lambda>row. if outbound_key row = k then f row else row) (outbound_routes j)\<rparr>)
       (s\<lparr>tp_outbound := AList.update k x (tp_outbound s)\<rparr>)"

definition claim_control ::
  "'k trade_lib \<Rightarrow> nat \<Rightarrow> (rstr \<times> rstr) \<times> outbound_extra \<Rightarrow> trade_store \<Rightarrow> outbound_control \<times> trade_store" where
  "claim_control lib now e s =
     (case e of ((job, d), x) \<Rightarrow>
        let request = (case ox_request x of Some r \<Rightarrow> r | None \<Rightarrow> revocation_for lib x);
            attempts = sat_add (ox_attempts x) 1;
            s = set_outbound (job, d) (x\<lparr>ox_request := Some request, ox_next_attempt := sat_add now 300,
                   ox_attempts := attempts\<rparr>) (\<lambda>row. row\<lparr>ob_revocation := Some (tl_revocation_text lib request)\<rparr>) s
        in (\<lparr>oc_job_id = job, oc_destination = d, oc_origin = ox_origin x, oc_route_id = ox_route_id x,
             oc_request = request, oc_attempts = attempts\<rparr>,
            s\<lparr>tp_revocations := AList.update (job, d) (RevocationClaimed attempts) (tp_revocations s)\<rparr>))"

definition claim_route_revocation :: "'k trade_lib \<Rightarrow> nat \<Rightarrow> trade_store \<Rightarrow> outbound_control option \<times> trade_store" where
  "claim_route_revocation lib now s =
     (case min_by_key (\<lambda>((job, d), x). (ox_next_attempt x, job, d)) (filter (revocation_due s now) (tp_outbound s)) of
        None \<Rightarrow> (None, s)
      | Some e \<Rightarrow> (case claim_control lib now e s of (c, t) \<Rightarrow> (Some c, t)))"

definition retry_delay :: "nat \<Rightarrow> nat" where
  "retry_delay attempts = min (30 * 2 ^ min attempts 7) 3600"

definition finished_status :: "nat \<Rightarrow> nat \<Rightarrow> route_revoked option \<Rightarrow> rstr option \<Rightarrow> revocation_status" where
  "finished_status attempts next' ack err =
     (case ack of Some a \<Rightarrow> RevocationAcknowledged attempts a | None \<Rightarrow> RevocationPending attempts next' err)"

definition finish_route_revocation ::
  "'k trade_lib \<Rightarrow> outbound_control \<Rightarrow> route_revoked option \<Rightarrow> rstr option \<Rightarrow> nat \<Rightarrow> trade_store
   \<Rightarrow> trade_error + trade_store" where
  "finish_route_revocation lib c ack err now s =
     (if (case ack of None \<Rightarrow> False | Some a \<Rightarrow> \<not> verify_revoked (tl_stmts lib) a (oc_request c))
      then Inl BadAcknowledgement
      else let k = (oc_job_id c, oc_destination c); next' = sat_add now (retry_delay (oc_attempts c)) in
        case map_of (tp_outbound s) k of
          None \<Rightarrow> Inr s
        | Some x \<Rightarrow>
            if ox_acknowledged x \<noteq> None \<or> ox_attempts x \<noteq> oc_attempts c then Inr s
            else
              let s = set_outbound k (x\<lparr>ox_acknowledged := ack, ox_next_attempt := next'\<rparr>)
                        (\<lambda>row. row\<lparr>ob_ack := map_option (tl_ack_text lib) ack\<rparr>) s
              in case job_in (jobs_of s) (oc_job_id c) of
                   None \<Rightarrow> Inr s
                 | Some j \<Rightarrow>
                     Inr (trade_event (jb_tenant j) (oc_job_id c)
                       (if ack \<noteq> None then ''route_revocation_acknowledged'' else ''route_revocation_pending'')
                       (s\<lparr>tp_revocations := AList.update k (finished_status (oc_attempts c) next' ack err)
                            (tp_revocations s)\<rparr>)))"

section \<open>What a peer says of its side\<close>

definition remote_states :: "rstr list" where
  "remote_states = map state_str [Queued, Preparing, AwaitingApproval, Exporting, Retrying, Failed, Ready,
     Cancelled, Retiring, Retired]"

definition status_ok :: "delivery_status \<Rightarrow> bool" where
  "status_ok row \<longleftrightarrow> valid_id (ds_route row)
     \<and> (case ds_workflow row of None \<Rightarrow> True | Some w \<Rightarrow> w \<in> set remote_states)"

definition delivered_as :: "trade_store \<Rightarrow> rstr \<Rightarrow> rstr \<Rightarrow> rstr \<Rightarrow> rstr \<Rightarrow> bool" where
  "delivered_as s tenant route remote job \<longleftrightarrow>
     (case map_of (tp_outbound s) (job, route) of None \<Rightarrow> False | Some x \<Rightarrow> ox_route_id x = remote)
     \<and> (case job_in (jobs_of s) job of None \<Rightarrow> False | Some j \<Rightarrow> jb_tenant j = tenant)"

text \<open>A receipt of the peer in our own tables is the only proof that it received a delivery.\<close>

definition believed :: "trade_store \<Rightarrow> rstr \<Rightarrow> rstr \<Rightarrow> delivery_status \<Rightarrow> delivery_status" where
  "believed s tenant route row =
     (let proof' = list_ex (\<lambda>((job, d), _). d = route \<and> delivered_as s tenant route (ds_route row) job
                                           \<and> contains_key (job, route) (tp_receipts s)) (tp_outbound s);
          received = (ds_received row \<and> proof')
      in row\<lparr>ds_received := received, ds_released := (ds_released row \<and> received \<and> \<not> ds_revoked row)\<rparr>)"

definition jobs_delivered :: "trade_store \<Rightarrow> rstr \<Rightarrow> rstr \<Rightarrow> rstr \<Rightarrow> rstr list" where
  "jobs_delivered s tenant route remote =
     map (fst \<circ> fst) (filter (\<lambda>((job, d), _). d = route \<and> delivered_as s tenant route remote job) (tp_outbound s))"

definition record_status_row :: "rstr \<Rightarrow> rstr \<Rightarrow> delivery_status \<Rightarrow> trade_store \<Rightarrow> trade_store" where
  "record_status_row tenant route row s =
     s\<lparr>tp_status := fold (\<lambda>job m. AList.update (job, route) (believed s tenant route row) m)
         (jobs_delivered s tenant route (ds_route row)) (tp_status s)\<rparr>"

definition record_trade_status ::
  "rstr \<Rightarrow> rstr \<Rightarrow> delivery_status list \<Rightarrow> trade_store \<Rightarrow> trade_error + trade_store" where
  "record_trade_status tenant route rows s =
     (if length rows > 50 \<or> \<not> list_all status_ok rows then Inl BadStatus
      else Inr (fold (record_status_row tenant route) rows s))"

definition trade_sessions :: "rstr \<Rightarrow> trade_store \<Rightarrow> rstr list" where
  "trade_sessions i s =
     List.map_filter (\<lambda>(_, d). if grant_of (rt_source d) = Some i \<and> rt_receipt d = None then rt_session_id d else None)
       (us_routes (tp_base s))"

end
