(* ===== verification/TradeInvariant.thy ===== *)
theory TradeInvariant
  imports TradeFlow
begin

text \<open>
  The trade tables as a transition system: what every operation keeps of a route, the invariant of
  the tables and its preservation by each step.
\<close>

section \<open>Reading the tables after a write\<close>

lemma with_jobs_simps [simp]:
  "tp_routes (with_jobs f s) = tp_routes s" "tp_endpoints (with_jobs f s) = tp_endpoints s"
  "tp_invitations (with_jobs f s) = tp_invitations s" "tp_rotations (with_jobs f s) = tp_rotations s"
  "tp_inbound (with_jobs f s) = tp_inbound s" "tp_outbound (with_jobs f s) = tp_outbound s"
  "tp_receipts (with_jobs f s) = tp_receipts s"
  "us_routes (tp_base (with_jobs f s)) = us_routes (tp_base s)"
  "us_links (tp_base (with_jobs f s)) = us_links (tp_base s)"
  "jobs_of (with_jobs f s) = f (jobs_of s)"
  by (simp_all add: with_jobs_def jobs_of_def)

lemma trade_event_simps [simp]:
  "tp_routes (trade_event t j k s) = tp_routes s" "tp_endpoints (trade_event t j k s) = tp_endpoints s"
  "tp_invitations (trade_event t j k s) = tp_invitations s" "tp_rotations (trade_event t j k s) = tp_rotations s"
  "tp_inbound (trade_event t j k s) = tp_inbound s" "tp_outbound (trade_event t j k s) = tp_outbound s"
  "us_routes (tp_base (trade_event t j k s)) = us_routes (tp_base s)"
  "us_links (tp_base (trade_event t j k s)) = us_links (tp_base s)"
  "trade_routes (jobs_of (trade_event t j k s)) = trade_routes (jobs_of s)"
  "outbound_routes (jobs_of (trade_event t j k s)) = outbound_routes (jobs_of s)"
  "inbound_routes (jobs_of (trade_event t j k s)) = inbound_routes (jobs_of s)"
  "jobs (jobs_of (trade_event t j k s)) = jobs (jobs_of s)"
  "links (jobs_of (trade_event t j k s)) = links (jobs_of s)"
  by (simp_all add: trade_event_def delivery_event_def)

lemma put_route_simps [simp]:
  "tp_routes (put_route i r s) = AList.update i r (tp_routes s)" "tp_endpoints (put_route i r s) = tp_endpoints s"
  "tp_invitations (put_route i r s) = tp_invitations s" "tp_rotations (put_route i r s) = tp_rotations s"
  "tp_outbound (put_route i r s) = tp_outbound s"
  "us_routes (tp_base (put_route i r s)) = us_routes (tp_base s)"
  "us_links (tp_base (put_route i r s)) = us_links (tp_base s)"
  "trade_routes (jobs_of (put_route i r s)) = AList.update i (trade_route.truncate r) (trade_routes (jobs_of s))"
  "outbound_routes (jobs_of (put_route i r s)) = outbound_routes (jobs_of s)"
  "inbound_routes (jobs_of (put_route i r s)) = inbound_routes (jobs_of s)"
  "jobs (jobs_of (put_route i r s)) = jobs (jobs_of s)"
  by (simp_all add: put_route_def with_jobs_def jobs_of_def)

lemma queue_cancelled_simps [simp]:
  "tp_routes (queue_cancelled lib i s) = tp_routes s" "tp_endpoints (queue_cancelled lib i s) = tp_endpoints s"
  "tp_invitations (queue_cancelled lib i s) = tp_invitations s" "tp_rotations (queue_cancelled lib i s) = tp_rotations s"
  "us_routes (tp_base (queue_cancelled lib i s)) = us_routes (tp_base s)"
  "trade_routes (jobs_of (queue_cancelled lib i s)) = trade_routes (jobs_of s)"
  "jobs (jobs_of (queue_cancelled lib i s)) = jobs (jobs_of s)"
  "inbound_routes (jobs_of (queue_cancelled lib i s)) = inbound_routes (jobs_of s)"
  by (simp_all add: queue_cancelled_def with_jobs_def jobs_of_def)

lemma revoke_incoming_simps [simp]:
  "tp_routes (revoke_incoming i now s) = tp_routes s" "tp_endpoints (revoke_incoming i now s) = tp_endpoints s"
  "tp_invitations (revoke_incoming i now s) = tp_invitations s" "tp_rotations (revoke_incoming i now s) = tp_rotations s"
  "tp_outbound (revoke_incoming i now s) = tp_outbound s"
  "us_routes (tp_base (revoke_incoming i now s)) = us_routes (tp_base s)"
  "trade_routes (jobs_of (revoke_incoming i now s)) = trade_routes (jobs_of s)"
  "outbound_routes (jobs_of (revoke_incoming i now s)) = outbound_routes (jobs_of s)"
  "jobs (jobs_of (revoke_incoming i now s)) = jobs (jobs_of s)"
  by (simp_all add: revoke_incoming_def with_jobs_def jobs_of_def)

lemma set_outbound_simps [simp]:
  "tp_routes (set_outbound k x f s) = tp_routes s" "tp_endpoints (set_outbound k x f s) = tp_endpoints s"
  "tp_invitations (set_outbound k x f s) = tp_invitations s" "tp_rotations (set_outbound k x f s) = tp_rotations s"
  "tp_outbound (set_outbound k x f s) = AList.update k x (tp_outbound s)"
  "us_routes (tp_base (set_outbound k x f s)) = us_routes (tp_base s)"
  "trade_routes (jobs_of (set_outbound k x f s)) = trade_routes (jobs_of s)"
  "jobs (jobs_of (set_outbound k x f s)) = jobs (jobs_of s)"
  by (simp_all add: set_outbound_def with_jobs_def jobs_of_def)

lemma update_map_values:
  "AList.update i (f r) (map (\<lambda>(k, x). (k, f x)) xs) = map (\<lambda>(k, x). (k, f x)) (AList.update i r xs)"
  by (induction xs) auto

section \<open>What a route keeps\<close>

text \<open>The peer, the terms and the side of a route never change; a revocation and a grant are final.\<close>

definition route_kept :: "port_route \<Rightarrow> port_route \<Rightarrow> bool" where
  "route_kept r t \<longleftrightarrow>
     tr_tenant t = tr_tenant r \<and> tr_direction t = tr_direction r \<and> tr_peer_key t = tr_peer_key r
     \<and> tr_endpoint t = tr_endpoint r \<and> tr_forwarding t = tr_forwarding r
     \<and> tr_metadata_keys t = tr_metadata_keys r
     \<and> (tr_state r = st_revoked \<longrightarrow> tr_state t = st_revoked)
     \<and> (tr_remote_grant r \<noteq> [] \<longrightarrow> tr_remote_grant t = tr_remote_grant r)"

lemma route_kept_refl [simp]: "route_kept r r"
  by (simp add: route_kept_def)

lemma route_kept_trans: "route_kept r s \<Longrightarrow> route_kept s t \<Longrightarrow> route_kept r t"
  by (simp add: route_kept_def)

definition routes_kept :: "trade_store \<Rightarrow> trade_store \<Rightarrow> bool" where
  "routes_kept s t \<longleftrightarrow>
     (\<forall>i r. map_of (tp_routes s) i = Some r \<longrightarrow> (\<exists>r'. map_of (tp_routes t) i = Some r' \<and> route_kept r r'))"

lemma routes_kept_refl [simp]: "routes_kept s s"
  by (simp add: routes_kept_def)

lemma routes_kept_same: "tp_routes t = tp_routes s \<Longrightarrow> routes_kept s t"
  by (simp add: routes_kept_def)

lemma routes_kept_trans: "routes_kept s t \<Longrightarrow> routes_kept t u \<Longrightarrow> routes_kept s u"
  unfolding routes_kept_def using route_kept_trans by blast

lemma routes_kept_update:
  "tp_routes t = AList.update i r' (tp_routes s) \<Longrightarrow> (\<And>r. map_of (tp_routes s) i = Some r \<Longrightarrow> route_kept r r')
   \<Longrightarrow> routes_kept s t"
  unfolding routes_kept_def by (auto simp: map_of_update)

section \<open>The invariant\<close>

text \<open>The job store sees the columns of a route that it reads.\<close>

definition mirrored :: "trade_store \<Rightarrow> bool" where
  "mirrored s \<longleftrightarrow> trade_routes (jobs_of s) = map (\<lambda>(i, r). (i, trade_route.truncate r)) (tp_routes s)"

text \<open>A delivery on a trade endpoint came from the enrolled peer of one of its routes, under its terms.\<close>

definition inbound_ok :: "trade_store \<Rightarrow> route_detail \<Rightarrow> bool" where
  "inbound_ok s d \<longleftrightarrow>
     (if contains_key (rt_link_id d) (tp_endpoints s)
      then \<exists>p r. rd_permission (sr_document (rt_source d)) = Some p
        \<and> map_of (tp_routes s) (rp_grant p) = Some r
        \<and> tr_direction r = incoming \<and> tr_endpoint r = rt_link_id d
        \<and> tr_peer_key r = rd_issuer (sr_document (rt_source d))
        \<and> (rp_forwarding p \<longrightarrow> tr_forwarding r)
        \<and> set (metadata_keys (rt_source d)) \<subseteq> set (tr_metadata_keys r)
      else rd_permission (sr_document (rt_source d)) = None)"

definition invitation_ok :: "trade_store \<Rightarrow> invitation \<Rightarrow> bool" where
  "invitation_ok s v \<longleftrightarrow>
     (case vi_redeemed v of None \<Rightarrow> True
      | Some i \<Rightarrow> \<exists>r. map_of (tp_routes s) i = Some r \<and> tr_tenant r = vi_tenant v \<and> tr_direction r = incoming
                    \<and> tr_endpoint r = vi_endpoint v
                    \<and> (vi_expected_key v \<noteq> [] \<longrightarrow> tr_peer_key r = vi_expected_key v))"

definition redeemed_routes :: "trade_store \<Rightarrow> rstr list" where
  "redeemed_routes s = List.map_filter (vi_redeemed \<circ> snd) (tp_invitations s)"

definition trade_ok :: "trade_store \<Rightarrow> bool" where
  "trade_ok s \<longleftrightarrow>
     hm_ok (tp_routes s) \<and> hm_ok (tp_endpoints s) \<and> hm_ok (tp_invitations s) \<and> hm_ok (us_routes (tp_base s))
     \<and> mirrored s
     \<and> (\<forall>tenant. live_routes s tenant \<le> 100)
     \<and> (\<forall>(i, d) \<in> set (us_routes (tp_base s)). inbound_ok s d)
     \<and> distinct (map (route_name \<circ> snd) (us_routes (tp_base s)))
     \<and> (\<forall>(i, v) \<in> set (tp_invitations s). invitation_ok s v)
     \<and> distinct (redeemed_routes s)"

lemma live_routes_card:
  assumes "hm_ok (tp_routes s)"
  shows "live_routes s tenant
    = card {i. \<exists>r. map_of (tp_routes s) i = Some r \<and> tr_tenant r = tenant \<and> tr_state r \<noteq> st_revoked}"
proof -
  let ?P = "\<lambda>(i, r). tr_tenant r = tenant \<and> tr_state r \<noteq> st_revoked"
  have d: "distinct (map fst (tp_routes s))" using assms by (simp add: hm_ok_def)
  have "live_routes s tenant = length (map fst (filter ?P (tp_routes s)))"
    by (simp add: live_routes_def)
  also have "\<dots> = card (set (map fst (filter ?P (tp_routes s))))"
    by (rule distinct_card [symmetric]) (rule distinct_map_filter [OF d])
  also have "set (map fst (filter ?P (tp_routes s)))
      = {i. \<exists>r. map_of (tp_routes s) i = Some r \<and> tr_tenant r = tenant \<and> tr_state r \<noteq> st_revoked}"
    using d by (auto simp: image_iff)
  finally show ?thesis .
qed

definition route_ids :: "trade_store \<Rightarrow> rstr set" where
  "route_ids s = {i. map_of (tp_routes s) i \<noteq> None}"

lemma live_finite: "finite {i. \<exists>r. map_of m i = Some r \<and> P r}"
  by (rule finite_subset [OF _ finite_dom_map_of [of m]]) (auto simp: dom_def)

text \<open>Routes that are kept and no new ones: the number of live routes does not grow.\<close>

lemma live_kept:
  assumes "hm_ok (tp_routes s)" "hm_ok (tp_routes t)" "routes_kept s t"
    and "\<And>i. map_of (tp_routes t) i \<noteq> None \<Longrightarrow> map_of (tp_routes s) i \<noteq> None"
  shows "live_routes t tenant \<le> live_routes s tenant"
  unfolding live_routes_card [OF assms(1)] live_routes_card [OF assms(2)]
proof (rule card_mono [OF live_finite])
  show "{i. \<exists>r. map_of (tp_routes t) i = Some r \<and> tr_tenant r = tenant \<and> tr_state r \<noteq> st_revoked}
    \<subseteq> {i. \<exists>r. map_of (tp_routes s) i = Some r \<and> tr_tenant r = tenant \<and> tr_state r \<noteq> st_revoked}"
  proof
    fix i assume "i \<in> {i. \<exists>r. map_of (tp_routes t) i = Some r \<and> tr_tenant r = tenant \<and> tr_state r \<noteq> st_revoked}"
    then obtain r' where r': "map_of (tp_routes t) i = Some r'" "tr_tenant r' = tenant" "tr_state r' \<noteq> st_revoked"
      by blast
    with assms(4) obtain r where r: "map_of (tp_routes s) i = Some r" by blast
    with assms(3) r'(1) have "route_kept r r'" unfolding routes_kept_def by force
    with r r' show "i \<in> {i. \<exists>r. map_of (tp_routes s) i = Some r \<and> tr_tenant r = tenant \<and> tr_state r \<noteq> st_revoked}"
      by (auto simp: route_kept_def)
  qed
qed

text \<open>One new route of a tenant adds one.\<close>

lemma live_added:
  assumes "hm_ok (tp_routes s)" "tp_routes t = AList.update i r (tp_routes s)" "map_of (tp_routes s) i = None"
  shows "live_routes t tenant \<le> live_routes s tenant + (if tr_tenant r = tenant then 1 else 0)"
proof -
  let ?L = "\<lambda>m. {i. \<exists>r. map_of m i = Some r \<and> tr_tenant r = tenant \<and> tr_state r \<noteq> st_revoked}"
  have t: "hm_ok (tp_routes t)" using assms(1,2) by (auto intro: hm_ok_update)
  have "?L (tp_routes t) \<subseteq> (if tr_tenant r = tenant then insert i (?L (tp_routes s)) else ?L (tp_routes s))"
    by (auto simp: assms(2) map_of_update split: if_splits)
  then have "card (?L (tp_routes t)) \<le> card (if tr_tenant r = tenant then insert i (?L (tp_routes s)) else ?L (tp_routes s))"
    by (rule card_mono [rotated]) (simp add: live_finite)
  also have "\<dots> \<le> card (?L (tp_routes s)) + (if tr_tenant r = tenant then 1 else 0)"
    by (simp add: card_insert_if live_finite)
  finally show ?thesis unfolding live_routes_card [OF assms(1)] live_routes_card [OF t] .
qed

lemma kept_lookup:
  assumes "routes_kept s t" "map_of (tp_routes s) i = Some r"
  obtains r' where "map_of (tp_routes t) i = Some r'" "route_kept r r'"
  using assms unfolding routes_kept_def by blast

lemma inbound_ok_kept:
  assumes "inbound_ok s d" "routes_kept s t"
    "contains_key (rt_link_id d) (tp_endpoints t) = contains_key (rt_link_id d) (tp_endpoints s)"
  shows "inbound_ok t d"
proof (cases "contains_key (rt_link_id d) (tp_endpoints s)")
  case True
  with assms(1) obtain p r where p: "rd_permission (sr_document (rt_source d)) = Some p"
    "map_of (tp_routes s) (rp_grant p) = Some r"
    and r: "tr_direction r = incoming" "tr_endpoint r = rt_link_id d"
      "tr_peer_key r = rd_issuer (sr_document (rt_source d))" "rp_forwarding p \<longrightarrow> tr_forwarding r"
      "set (metadata_keys (rt_source d)) \<subseteq> set (tr_metadata_keys r)"
    unfolding inbound_ok_def by auto
  from assms(2) p(2) obtain r' where "map_of (tp_routes t) (rp_grant p) = Some r'" "route_kept r r'"
    by (rule kept_lookup)
  with True p r assms(3) show ?thesis unfolding inbound_ok_def route_kept_def by simp
qed (use assms in \<open>simp add: inbound_ok_def\<close>)

lemma invitation_ok_kept:
  assumes "invitation_ok s v" "routes_kept s t"
  shows "invitation_ok t v"
proof (cases "vi_redeemed v")
  case (Some i)
  with assms(1) obtain r where r: "map_of (tp_routes s) i = Some r" "tr_tenant r = vi_tenant v"
    "tr_direction r = incoming" "tr_endpoint r = vi_endpoint v"
    "vi_expected_key v \<noteq> [] \<longrightarrow> tr_peer_key r = vi_expected_key v"
    unfolding invitation_ok_def by auto
  from assms(2) r(1) obtain r' where "map_of (tp_routes t) i = Some r'" "route_kept r r'" by (rule kept_lookup)
  with Some r show ?thesis unfolding invitation_ok_def route_kept_def by simp
qed (simp add: invitation_ok_def)

text \<open>Steps that only move routes along, and leave the other tables alone.\<close>

definition only_routes :: "trade_store \<Rightarrow> trade_store \<Rightarrow> bool" where
  "only_routes s t \<longleftrightarrow>
     tp_endpoints t = tp_endpoints s \<and> tp_invitations t = tp_invitations s
     \<and> map (\<lambda>(i, d). (i, rt_link_id d, rt_source d)) (us_routes (tp_base t))
       = map (\<lambda>(i, d). (i, rt_link_id d, rt_source d)) (us_routes (tp_base s))"

lemma inbound_ok_eq:
  "rt_link_id d = rt_link_id e \<Longrightarrow> rt_source d = rt_source e \<Longrightarrow> inbound_ok s d = inbound_ok s e"
  by (simp add: inbound_ok_def)

lemma only_routes_details:
  assumes "map (\<lambda>(i, d). (i, rt_link_id d, rt_source d)) xs = map (\<lambda>(i, d). (i, rt_link_id d, rt_source d)) ys"
  shows "map fst xs = map fst ys" "map (route_name \<circ> snd) xs = map (route_name \<circ> snd) ys"
    "(i, d) \<in> set xs \<Longrightarrow> \<exists>e. (i, e) \<in> set ys \<and> rt_link_id e = rt_link_id d \<and> rt_source e = rt_source d"
proof -
  have n: "map fst zs = map fst (map (\<lambda>(i, d). (i, rt_link_id d, rt_source d)) zs)"
    for zs :: "('a \<times> route_detail) list" by auto
  show "map fst xs = map fst ys" unfolding n [of xs] n [of ys] assms ..
  let ?n = "\<lambda>(i :: 'a, l, s). (l, rd_issuer (sr_document s), rd_operation_id (sr_document s))"
  have m: "map (route_name \<circ> snd) zs = map ?n (map (\<lambda>(i, d). (i, rt_link_id d, rt_source d)) zs)"
    for zs :: "('a \<times> route_detail) list" by (auto simp: route_name_def)
  show "map (route_name \<circ> snd) xs = map (route_name \<circ> snd) ys" unfolding m [of xs] m [of ys] assms ..
  assume "(i, d) \<in> set xs"
  then have "(i, rt_link_id d, rt_source d) \<in> set (map (\<lambda>(i, d). (i, rt_link_id d, rt_source d)) xs)" by force
  with assms have "(i, rt_link_id d, rt_source d) \<in> set (map (\<lambda>(i, d). (i, rt_link_id d, rt_source d)) ys)" by simp
  then show "\<exists>e. (i, e) \<in> set ys \<and> rt_link_id e = rt_link_id d \<and> rt_source e = rt_source d" by force
qed

lemma only_routes_ok:
  assumes ok: "trade_ok s" and o: "only_routes s t" and k: "routes_kept s t" and h: "hm_ok (tp_routes t)"
    and m: "mirrored t" and live: "\<And>tenant. live_routes t tenant \<le> 100"
  shows "trade_ok t"
proof -
  have e: "tp_endpoints t = tp_endpoints s" "tp_invitations t = tp_invitations s" using o by (simp_all add: only_routes_def)
  note d = only_routes_details [OF o [unfolded only_routes_def, THEN conjunct2, THEN conjunct2]]
  have "inbound_ok t d'" if "(i, d') \<in> set (us_routes (tp_base t))" for i d'
  proof -
    from d(3) [OF that] obtain f where f: "(i, f) \<in> set (us_routes (tp_base s))" "rt_link_id f = rt_link_id d'"
      "rt_source f = rt_source d'" by blast
    with ok have "inbound_ok s f" by (auto simp: trade_ok_def)
    with f k e have "inbound_ok t f" by (auto intro: inbound_ok_kept)
    with f show ?thesis using inbound_ok_eq by metis
  qed
  with ok h m live e d(1,2) k show ?thesis
    by (auto simp: trade_ok_def hm_ok_def redeemed_routes_def intro: invitation_ok_kept)
qed

text \<open>A route is written over an older version of itself.\<close>

lemma rewrite_ok:
  assumes ok: "trade_ok s" and r: "map_of (tp_routes s) i = Some r" and k: "route_kept r r'"
    and t: "tp_routes t = AList.update i r' (tp_routes s)"
      "trade_routes (jobs_of t) = AList.update i (trade_route.truncate r') (trade_routes (jobs_of s))"
      "only_routes s t"
  shows "trade_ok t \<and> routes_kept s t"
proof -
  have kept: "routes_kept s t" by (rule routes_kept_update [OF t(1)]) (use r k in simp)
  have h: "hm_ok (tp_routes s)" "hm_ok (tp_routes t)" using ok t by (auto simp: trade_ok_def intro: hm_ok_update)
  have "live_routes t tenant \<le> 100" for tenant
    by (rule order_trans [OF live_kept [OF h kept]]) (use ok r t in \<open>auto simp: trade_ok_def map_of_update split: if_splits\<close>)
  moreover have "mirrored t"
    using ok t by (simp add: mirrored_def trade_ok_def update_map_values)
  ultimately show ?thesis using only_routes_ok [OF ok t(3) kept h(2)] kept by blast
qed

lemma same_routes_ok:
  assumes "trade_ok s" "only_routes s t" "tp_routes t = tp_routes s"
    "trade_routes (jobs_of t) = trade_routes (jobs_of s)"
  shows "trade_ok t \<and> routes_kept s t"
proof -
  have "live_routes t tenant = live_routes s tenant" for tenant using assms(3) by (simp add: live_routes_def)
  with assms only_routes_ok [OF assms(1,2) routes_kept_same [OF assms(3)]] routes_kept_same [OF assms(3)]
  show ?thesis by (simp add: trade_ok_def mirrored_def)
qed

end
