(* ===== verification/TradeSystem.thy ===== *)
theory TradeSystem
  imports TradeInvariant
begin

text \<open>
  Every operation on the trade tables keeps the invariant and the routes; the tables as a
  transition system among the other writers of the store.
\<close>

section \<open>Endpoints and invitations\<close>

lemma update_fresh: "map_of xs k = None \<Longrightarrow> AList.update k v xs = xs @ [(k, v)]"
  by (induction xs) auto

lemma contains_key_map_of [simp]: "contains_key k m \<longleftrightarrow> map_of m k \<noteq> None"
  by (auto simp: contains_key_def hm_keys_def map_of_eq_None_iff)

lemma validated_Inr: "map_sum f id x = Inr y \<longleftrightarrow> x = Inr y"
  by (cases x) auto

lemma create_endpoint_ok:
  assumes ok: "trade_ok s" and c: "create_trade_endpoint i e s = Inr t"
  shows "trade_ok t \<and> routes_kept s t"
proof -
  from c have el: "eligible_link s (te_tenant e) i" and
    t: "t = s\<lparr>tp_endpoints := AList.update i e (tp_endpoints s),
              tp_base := (tp_base s)\<lparr>us_endpoints := us_endpoints (tp_base s) @ [i]\<rparr>\<rparr>"
    by (auto simp: create_trade_endpoint_def split: sum.splits if_splits)
  have free: "rt_link_id d \<noteq> i" if "(k, d) \<in> set (us_routes (tp_base s))" for k d
    using el that by (auto simp: eligible_link_def list_ex_iff)
  have kept: "routes_kept s t" by (rule routes_kept_same) (simp add: t)
  have "inbound_ok t d" if d: "(k, d) \<in> set (us_routes (tp_base s))" for k d
  proof (rule inbound_ok_kept [OF _ kept])
    show "inbound_ok s d" using ok d by (auto simp: trade_ok_def)
    show "contains_key (rt_link_id d) (tp_endpoints t) = contains_key (rt_link_id d) (tp_endpoints s)"
      using free [OF d] by (simp add: t map_of_update)
  qed
  with ok kept show ?thesis
    by (auto simp: trade_ok_def t mirrored_def jobs_of_def live_routes_def redeemed_routes_def
        intro: hm_ok_update invitation_ok_kept)
qed

lemma create_invitation_ok:
  assumes ok: "trade_ok s" and c: "create_trade_invitation lib tenant endpoint expected expires now i secret s = Inr t"
  shows "trade_ok t \<and> routes_kept s t"
proof -
  define v where "v = \<lparr>vi_tenant = tenant, vi_endpoint = endpoint,
    vi_secret_hash = trade_secret_hash (tl_stmts lib) secret, vi_expected_key = expected,
    vi_expires_at = expires, vi_redeemed = None\<rparr>"
  from c have n: "map_of (tp_invitations s) i = None" "vi_redeemed v = None"
    and t: "t = s\<lparr>tp_invitations := AList.update i v (tp_invitations s)\<rparr>"
    by (auto simp: create_trade_invitation_def v_def split: option.splits if_splits)
  have kept: "routes_kept s t" by (rule routes_kept_same) (simp add: t)
  have r: "redeemed_routes t = redeemed_routes s"
    using n by (simp add: redeemed_routes_def t update_fresh map_filter_def)
  have "inbound_ok t d \<longleftrightarrow> inbound_ok s d" for d by (simp add: inbound_ok_def t)
  moreover have "invitation_ok t w \<longleftrightarrow> invitation_ok s w" for w
    by (simp add: invitation_ok_def t split: option.split)
  moreover have "invitation_ok s v" using n by (simp add: invitation_ok_def)
  ultimately show ?thesis
    using ok kept r n by (auto simp: trade_ok_def t mirrored_def jobs_of_def live_routes_def update_fresh hm_ok_def
        map_of_eq_None_iff)
qed

lemma map_filter_filter_set: "set (List.map_filter f (filter P xs)) \<subseteq> set (List.map_filter f xs)"
  by (auto simp: map_filter_def)

lemma distinct_map_filter_filter: "distinct (List.map_filter f xs) \<Longrightarrow> distinct (List.map_filter f (filter P xs))"
  by (induction xs) (auto simp: map_filter_simps split: option.splits dest: subsetD [OF map_filter_filter_set])

lemma prune_ok:
  assumes ok: "trade_ok s"
  shows "trade_ok (prune_trade_invitations now s) \<and> routes_kept s (prune_trade_invitations now s)"
proof -
  let ?t = "prune_trade_invitations now s"
  have kept: "routes_kept s ?t" by (rule routes_kept_same) (simp add: prune_trade_invitations_def)
  have "inbound_ok ?t d \<longleftrightarrow> inbound_ok s d" for d by (simp add: inbound_ok_def prune_trade_invitations_def)
  moreover have "invitation_ok ?t v \<longleftrightarrow> invitation_ok s v" for v
    by (simp add: invitation_ok_def prune_trade_invitations_def split: option.split)
  ultimately show ?thesis
    using ok kept by (auto simp: trade_ok_def prune_trade_invitations_def mirrored_def jobs_of_def live_routes_def
        hm_ok_def redeemed_routes_def distinct_map_filter_filter intro: distinct_map_filter)
qed

text \<open>Redeeming marks one invitation with a route that no other has.\<close>

lemma map_filter_update:
  assumes "map_of xs k = Some v" "f v = None" "x \<notin> set (List.map_filter (f \<circ> snd) xs)" "f v' = Some x"
    "distinct (List.map_filter (f \<circ> snd) xs)"
  shows "set (List.map_filter (f \<circ> snd) (AList.update k v' xs)) \<subseteq> insert x (set (List.map_filter (f \<circ> snd) xs))
    \<and> distinct (List.map_filter (f \<circ> snd) (AList.update k v' xs))"
  using assms by (induction xs) (auto simp: map_filter_simps split: option.splits if_splits)

lemma redeem_ok:
  assumes ok: "trade_ok s" and c: "redeem_trade_invitation lib m now i s = Inr (j, b, t)"
  shows "trade_ok t \<and> routes_kept s t"
proof -
  from c obtain secret credential name v where
    v: "map_of (tp_invitations s) (pm_nonce (sp_document m)) = Some v"
      "vi_expected_key v \<noteq> [] \<longrightarrow> vi_expected_key v = issuer_of m"
    and c': "(case vi_redeemed v of
        Some route \<Rightarrow> redeem_again s route (trade_secret_hash (tl_stmts lib) credential) (issuer_of m)
      | None \<Rightarrow> redeem_new lib m v (trade_secret_hash (tl_stmts lib) credential) name now i s) = Inr (j, b, t)"
    unfolding redeem_trade_invitation_def
    by (auto simp: Let_def split: sum.splits option.splits if_splits prod.splits)
  show ?thesis
  proof (cases "vi_redeemed v")
    case (Some k)
    with c' ok show ?thesis by (auto simp: redeem_again_def split: sum.splits if_splits)
  next
    case None
    with c' obtain e address where live: "live_routes s (vi_tenant v) < 100" and n: "map_of (tp_routes s) i = None"
      and t': "t = trade_event (vi_tenant v) [] ''route_enrolled'' ((put_route i
          (enrolled_route v e (issuer_of m) name address (trade_secret_hash (tl_stmts lib) credential) now) s)\<lparr>tp_invitations :=
          AList.update (pm_nonce (sp_document m)) (v\<lparr>vi_redeemed := Some i\<rparr>) (tp_invitations s)\<rparr>)"
      by (auto simp: redeem_new_def Let_def split: option.splits sum.splits if_splits)
    define r where "r = enrolled_route v e (issuer_of m) name address (trade_secret_hash (tl_stmts lib) credential) now"
    note t = t' [folded r_def]
    have r: "tr_tenant r = vi_tenant v" "tr_direction r = incoming" "tr_endpoint r = vi_endpoint v"
        "tr_peer_key r = issuer_of m"
      by (simp_all add: r_def enrolled_route_def)
    have rt: "tp_routes t = AList.update i r (tp_routes s)" and ep: "tp_endpoints t = tp_endpoints s"
      and us: "us_routes (tp_base t) = us_routes (tp_base s)"
      and inv: "tp_invitations t = AList.update (pm_nonce (sp_document m)) (v\<lparr>vi_redeemed := Some i\<rparr>) (tp_invitations s)"
      and tr: "trade_routes (jobs_of t) = AList.update i (trade_route.truncate r) (trade_routes (jobs_of s))"
      by (simp_all add: t trade_event_def with_jobs_def jobs_of_def put_route_def delivery_event_def)
    have kept: "routes_kept s t" by (rule routes_kept_update [OF rt]) (simp add: n)
    have h: "hm_ok (tp_routes s)" "hm_ok (tp_invitations s)" using ok by (simp_all add: trade_ok_def)
    have "live_routes t tenant \<le> 100" for tenant
      using live_added [OF h(1) rt n, of tenant] live ok r(1)
      by (cases "tr_tenant r = tenant") (auto simp: trade_ok_def intro: order_trans)
    moreover have "mirrored t" using ok by (simp add: mirrored_def trade_ok_def rt tr update_map_values)
    moreover have "inbound_ok t d" if "(k, d) \<in> set (us_routes (tp_base s))" for k d
      by (rule inbound_ok_kept [OF _ kept]) (use ok that ep in \<open>auto simp: trade_ok_def\<close>)
    moreover have fresh: "i \<notin> set (redeemed_routes s)"
    proof
      assume "i \<in> set (redeemed_routes s)"
      then obtain k w where "(k, w) \<in> set (tp_invitations s)" "vi_redeemed w = Some i"
        by (auto simp: redeemed_routes_def map_filter_def)
      with ok have "invitation_ok s w" by (auto simp: trade_ok_def)
      with \<open>vi_redeemed w = Some i\<close> n show False by (simp add: invitation_ok_def)
    qed
    then have "distinct (redeemed_routes t)"
      using map_filter_update [OF v(1), of vi_redeemed i "v\<lparr>vi_redeemed := Some i\<rparr>"] None ok
      by (simp add: redeemed_routes_def inv trade_ok_def)
    moreover have "invitation_ok t w" if w: "(k, w) \<in> set (tp_invitations t)" for k w
    proof (cases "(k, w) \<in> set (tp_invitations s)")
      case True
      with ok show ?thesis by (auto simp: trade_ok_def intro: invitation_ok_kept [OF _ kept])
    next
      case False
      have "map_of (tp_invitations t) k = Some w"
        using w h(2) by (simp add: inv hm_ok_def distinct_update)
      with False h(2) have "w = v\<lparr>vi_redeemed := Some i\<rparr>"
        by (auto simp: inv map_of_update hm_ok_def split: if_splits dest: map_of_SomeD)
      with r v(2) show ?thesis by (simp add: invitation_ok_def rt map_of_update)
    qed
    ultimately show ?thesis
      using ok kept h by (auto simp: trade_ok_def us rt inv ep intro: hm_ok_update)
  qed
qed

section \<open>Routes\<close>

lemma save_outgoing_ok:
  assumes ok: "trade_ok s" and c: "save_outgoing_trade i r s = Inr t"
  shows "trade_ok t \<and> routes_kept s t"
proof -
  from c have live: "live_routes s (tr_tenant r) < 100" and n: "map_of (tp_routes s) i = None"
    and t: "tp_routes t = AList.update i r (tp_routes s)"
      "trade_routes (jobs_of t) = AList.update i (trade_route.truncate r) (trade_routes (jobs_of s))" "only_routes s t"
    by (auto simp: save_outgoing_trade_def Let_def only_routes_def jobs_of_def with_jobs_def trade_event_def
        delivery_event_def put_route_def split: sum.splits if_splits)
  have kept: "routes_kept s t" by (rule routes_kept_update [OF t(1)]) (simp add: n)
  have h: "hm_ok (tp_routes s)" using ok by (simp add: trade_ok_def)
  have "live_routes t tenant \<le> 100" for tenant
    using live_added [OF h t(1) n, of tenant] live ok by (cases "tr_tenant r = tenant") (auto simp: trade_ok_def intro: order_trans)
  moreover have "mirrored t" using ok by (simp add: mirrored_def trade_ok_def t update_map_values)
  ultimately show ?thesis using only_routes_ok [OF ok t(3) kept] h t(1) kept by (auto intro: hm_ok_update)
qed

lemma finish_enrollment_ok:
  assumes "trade_ok s"
  shows "trade_ok (finish_trade_enrollment tenant i grant' state s) \<and> routes_kept s (finish_trade_enrollment tenant i grant' state s)"
proof (cases "map_of (tp_routes s) i")
  case (Some r)
  show ?thesis
  proof (cases "tr_tenant r \<noteq> tenant \<or> tr_remote_grant r \<noteq> []")
    case False
    let ?r = "r\<lparr>tr_remote_grant := grant', po_remote_state := state,
       tr_state := (if tr_state r \<in> {st_paused, st_revoked} then tr_state r else state), po_enrollment := None\<rparr>"
    have "finish_trade_enrollment tenant i grant' state s = put_route i ?r s"
      using Some False by (simp add: finish_trade_enrollment_def)
    with rewrite_ok [OF assms Some, of ?r "put_route i ?r s"] False show ?thesis
      by (simp add: route_kept_def only_routes_def)
  qed (use Some assms in \<open>auto simp: finish_trade_enrollment_def\<close>)
qed (use assms in \<open>simp add: finish_trade_enrollment_def\<close>)

lemma route_in_Inr: "route_in s i = Inr r \<longleftrightarrow> map_of (tp_routes s) i = Some r"
  by (simp add: route_in_def split: option.split)

lemma update_route_ok:
  assumes ok: "trade_ok s" and c: "update_trade_route lib tenant i revision state stop policy now s = Inr (r', t)"
  shows "trade_ok t \<and> routes_kept s t"
proof -
  from c obtain r where r: "map_of (tp_routes s) i = Some r" "check_route_update tenant revision state r = Inr ()"
    "r' = r\<lparr>po_revision := po_revision r + 1, tr_state := state, tr_cancel_active := stop, tr_notifications := policy\<rparr>"
    and t: "tp_routes t = AList.update i r' (tp_routes s)"
      "trade_routes (jobs_of t) = AList.update i (trade_route.truncate r') (trade_routes (jobs_of s))" "only_routes s t"
    by (auto simp: update_trade_route_def Let_def route_in_Inr only_routes_def split: sum.splits if_splits)
  have "route_kept r r'" using r(2,3) by (auto simp: route_kept_def check_route_update_def split: if_splits)
  from rewrite_ok [OF ok r(1) this t] show ?thesis .
qed

lemma contact_ok:
  assumes ok: "trade_ok s" and c: "trade_contact tenant i remote err now s = Inr (b, t)"
  shows "trade_ok t \<and> routes_kept s t"
proof -
  from c obtain r where r: "map_of (tp_routes s) i = Some r"
    by (auto simp: trade_contact_def route_in_Inr split: sum.splits)
  let ?r = "r\<lparr>po_remote_state := remote, po_error := err,
      po_last_contact := (if err = None then Some now else po_last_contact r),
      tr_state := (if tr_direction r = outgoing \<and> tr_state r = st_pending \<and> remote = st_active
                   then st_active else tr_state r)\<rparr>"
  from c r have t: "t = put_route i ?r s"
    by (auto simp: trade_contact_def route_in_def Let_def split: if_splits)
  have "st_pending \<noteq> st_revoked" by code_simp
  then have "route_kept r ?r" by (simp add: route_kept_def)
  from rewrite_ok [OF ok r this] show ?thesis by (simp add: t only_routes_def)
qed

lemma rotate_ok:
  assumes ok: "trade_ok s" and c: "rotate_trade_credential lib i previous next' s = Inr t"
  shows "trade_ok t \<and> routes_kept s t"
proof (cases "t = s")
  case False
  with c obtain r v where r: "map_of (tp_routes s) i = Some r"
    and t: "t = trade_event (tr_tenant r) [] ''trade_credential_rotated'' (put_route i (r\<lparr>po_credential := v\<rparr>) s)"
    by (auto simp: rotate_trade_credential_def Let_def split: option.splits if_splits)
  from rewrite_ok [OF ok r, of "r\<lparr>po_credential := v\<rparr>" t] show ?thesis
    by (simp add: t route_kept_def only_routes_def trade_route.defs)
qed (use ok in simp)

lemma pending_rotation_ok:
  assumes "trade_ok s" and "pending_trade_rotation tenant i fresh s = Inr (v, t)"
  shows "trade_ok t \<and> routes_kept s t"
  by (rule same_routes_ok [OF assms(1)])
    (use assms(2) in \<open>auto simp: pending_trade_rotation_def only_routes_def jobs_of_def
       split: sum.splits if_splits option.splits\<close>)

lemma clear_rotation_ok:
  "trade_ok s \<Longrightarrow> trade_ok (clear_trade_rotation i v s) \<and> routes_kept s (clear_trade_rotation i v s)"
  by (rule same_routes_ok) (simp_all add: clear_trade_rotation_def only_routes_def jobs_of_def)

text \<open>A change of address touches every outgoing route to the peer.\<close>

lemma map_of_map_values: "map_of (map (\<lambda>(k, x). (k, f x)) xs) i = map_option f (map_of xs i)"
  by (induction xs) auto

lemma address_ok:
  assumes ok: "trade_ok s" and c: "change_trade_address tenant i revision address s = Inr t"
  shows "trade_ok t \<and> routes_kept s t"
proof -
  from c obtain r where r: "route_in s i = Inr r" by (auto simp: change_trade_address_def split: sum.splits)
  define key where "key = tr_peer_key r"
  from c r have rt: "tp_routes t = map (\<lambda>(k, x). (k, if outgoing_to tenant key x
            then x\<lparr>po_address := address, po_revision := po_revision x + 1\<rparr> else x)) (tp_routes s)"
    and tr: "trade_routes (jobs_of t) = trade_routes (jobs_of s)" and o: "only_routes s t"
    by (auto simp: change_trade_address_def Let_def only_routes_def jobs_of_def trade_event_def with_jobs_def
        delivery_event_def key_def split: if_splits)
  let ?f = "\<lambda>x. if outgoing_to tenant key x then x\<lparr>po_address := address, po_revision := po_revision x + 1\<rparr> else x"
  have mt: "map_of (tp_routes t) k = map_option ?f (map_of (tp_routes s) k)" for k
    unfolding rt by (rule map_of_map_values)
  have kept: "routes_kept s t" unfolding routes_kept_def by (auto simp: mt route_kept_def)
  have "map fst (tp_routes t) = map fst (tp_routes s)" by (auto simp: rt)
  then have h: "hm_ok (tp_routes s)" "hm_ok (tp_routes t)" using ok by (simp_all add: trade_ok_def hm_ok_def)
  have "live_routes t x \<le> 100" for x
    by (rule order_trans [OF live_kept [OF h kept]]) (use ok in \<open>auto simp: trade_ok_def mt\<close>)
  moreover have "trade_route.truncate (?f x) = trade_route.truncate x" for x
    by (simp add: trade_route.truncate_def)
  then have "mirrored t" using ok by (auto simp: mirrored_def trade_ok_def tr rt)
  ultimately show ?thesis using only_routes_ok [OF ok o kept h(2)] kept by blast
qed

section \<open>Deliveries\<close>

lemma find_None_all: "find P xs = None \<Longrightarrow> x \<in> set xs \<Longrightarrow> \<not> P x"
  by (simp add: find_None_iff)

lemma admit_inbound_ok:
  assumes a: "admit_route lib s source ancestry link credential b = Inr ()"
    and d: "rt_link_id d = link" "rt_source d = source"
  shows "inbound_ok s d"
proof (cases "contains_key link (tp_endpoints s)")
  case True
  with a obtain p r where "rd_permission (sr_document source) = Some p" "map_of (tp_routes s) (rp_grant p) = Some r"
    "tr_direction r = incoming" "tr_endpoint r = link" "tr_peer_key r = rd_issuer (sr_document source)"
    "terms_allow r p source ancestry"
    by (auto simp: admit_route_def route_in_Inr split: option.splits sum.splits if_splits)
  with True d show ?thesis by (auto simp: inbound_ok_def terms_allow_def list_all_iff)
next
  case False
  with a d show ?thesis by (simp add: admit_route_def inbound_ok_def split: if_splits)
qed

lemma insert_inbound_simps [simp]:
  "tp_routes (insert_inbound tenant link source ancestry now i s) = tp_routes s"
  "tp_endpoints (insert_inbound tenant link source ancestry now i s) = tp_endpoints s"
  "tp_invitations (insert_inbound tenant link source ancestry now i s) = tp_invitations s"
  "tp_rotations (insert_inbound tenant link source ancestry now i s) = tp_rotations s"
  "tp_outbound (insert_inbound tenant link source ancestry now i s) = tp_outbound s"
  "trade_routes (jobs_of (insert_inbound tenant link source ancestry now i s)) = trade_routes (jobs_of s)"
  "outbound_routes (jobs_of (insert_inbound tenant link source ancestry now i s)) = outbound_routes (jobs_of s)"
  "jobs (jobs_of (insert_inbound tenant link source ancestry now i s)) = jobs (jobs_of s)"
  "links (jobs_of (insert_inbound tenant link source ancestry now i s)) = links (jobs_of s)"
  "us_routes (tp_base (insert_inbound tenant link source ancestry now i s)) =
     AList.update i \<lparr>rt_link_id = link, rt_session_id = None, rt_source = source, rt_receipt = None\<rparr> (us_routes (tp_base s))"
  by (simp_all add: insert_inbound_def Let_def jobs_of_def split: option.splits)

lemma receive_Inr:
  assumes "receive_route_authorized lib tenant link source ancestry credential now i s = Inr (k, t)"
  obtains d where "previous_route s link source = Some (k, d)" "rt_source d = source" "t = s"
  | "previous_route s link source = None" "k = i" "map_of (us_routes (tp_base s)) i = None"
    "admit_route lib s source ancestry link credential False = Inr ()"
    "t = trade_event tenant [] ''route_admitted'' (insert_inbound tenant link source ancestry now i s)"
  using assms by (auto simp: receive_route_authorized_def Let_def split: option.splits sum.splits if_splits)

lemma receive_ok:
  assumes ok: "trade_ok s" and c: "receive_route_authorized lib tenant link source ancestry credential now i s = Inr (k, t)"
  shows "trade_ok t \<and> routes_kept s t"
  using c
proof (cases rule: receive_Inr)
  case 1
  with ok show ?thesis by simp
next
  case 2
  let ?d = "\<lparr>rt_link_id = link, rt_session_id = None, rt_source = source, rt_receipt = None\<rparr>"
  have rt: "tp_routes t = tp_routes s" and ep: "tp_endpoints t = tp_endpoints s" "tp_invitations t = tp_invitations s"
    and us: "us_routes (tp_base t) = us_routes (tp_base s) @ [(i, ?d)]"
    and tr: "trade_routes (jobs_of t) = trade_routes (jobs_of s)"
    using 2 by (simp_all add: update_fresh)
  have kept: "routes_kept s t" by (rule routes_kept_same [OF rt])
  have io: "inbound_ok t x = inbound_ok s x" for x by (simp add: inbound_ok_def rt ep)
  have "invitation_ok t v = invitation_ok s v" for v by (simp add: invitation_ok_def rt split: option.split)
  moreover have "inbound_ok s ?d" by (rule admit_inbound_ok [OF 2(4)]) simp_all
  moreover have "route_name ?d \<notin> set (map (route_name \<circ> snd) (us_routes (tp_base s)))"
    using find_None_all [OF 2(1) [unfolded previous_route_def]] by (force simp: route_name_def)
  moreover have "i \<notin> fst ` set (us_routes (tp_base s))" using 2(3) by (simp add: map_of_eq_None_iff)
  moreover have "live_routes t x = live_routes s x" for x by (simp add: live_routes_def rt)
  ultimately show ?thesis
    using ok kept by (auto simp: trade_ok_def us io rt ep tr mirrored_def hm_ok_def redeemed_routes_def)
qed

lemma update_same_fields:
  assumes "map_of xs i = Some d" "g d' = g d"
  shows "map (\<lambda>(k, d). (k, g d)) (AList.update i d' xs) = map (\<lambda>(k, d). (k, g d)) xs"
  using assms by (induction xs) (auto split: if_splits)

lemma bind_session_ok:
  assumes ok: "trade_ok s" and c: "bind_route_session i link seen session transport s = Inr t"
  shows "trade_ok t \<and> routes_kept s t"
proof (rule same_routes_ok [OF ok])
  from c obtain d where d: "map_of (us_routes (tp_base s)) i = Some d" and
    us: "us_routes (tp_base t) = AList.update i (d\<lparr>rt_session_id := Some session\<rparr>) (us_routes (tp_base s))"
    and rest: "tp_endpoints t = tp_endpoints s" "tp_invitations t = tp_invitations s"
      "tp_routes t = tp_routes s" "trade_routes (jobs_of t) = trade_routes (jobs_of s)"
    by (auto simp: bind_route_session_def jobs_of_def split: option.splits if_splits)
  show "tp_routes t = tp_routes s" "trade_routes (jobs_of t) = trade_routes (jobs_of s)" by (rule rest)+
  show "only_routes s t"
    using update_same_fields [OF d, of "\<lambda>d. (rt_link_id d, rt_source d)" "d\<lparr>rt_session_id := Some session\<rparr>"]
    by (simp add: only_routes_def rest us)
qed

lemma revoke_inbound_ok:
  assumes "trade_ok s" "revoke_inbound_route lib i request now s = Inr (x, t)"
  shows "trade_ok t \<and> routes_kept s t"
  by (rule same_routes_ok [OF assms(1)])
    (use assms(2) in \<open>auto simp: revoke_inbound_route_def only_routes_def revoke_route_deliveries_def
       split: option.splits if_splits\<close>)

lemma bind_outbound_ok:
  assumes "trade_ok s" "bind_outbound_route lib job d origin route key source s = Inr t"
  shows "trade_ok t \<and> routes_kept s t"
  by (rule same_routes_ok [OF assms(1)])
    (use assms(2) in \<open>auto simp: bind_outbound_route_def only_routes_def jobs_of_def with_jobs_def queue_cancelled_def
       split: option.splits if_splits\<close>)

lemma record_receipt_ok:
  assumes "trade_ok s" "record_route_receipt j d receipt s = Inr t"
  shows "trade_ok t \<and> routes_kept s t"
  by (rule same_routes_ok [OF assms(1)])
    (use assms(2) in \<open>auto simp: record_route_receipt_def only_routes_def jobs_of_def split: if_splits\<close>)

lemma claim_control_simps:
  assumes "claim_control lib now e s = (c, t)"
  shows "only_routes s t" "tp_routes t = tp_routes s" "trade_routes (jobs_of t) = trade_routes (jobs_of s)"
  using assms by (auto simp: claim_control_def Let_def only_routes_def jobs_of_def set_outbound_def with_jobs_def
      split: prod.splits)

lemma claim_revocation_ok:
  assumes "trade_ok s" "claim_route_revocation lib now s = (c, t)"
  shows "trade_ok t \<and> routes_kept s t"
proof (cases "t = s")
  case False
  with assms(2) obtain e c' where e: "claim_control lib now e s = (c', t)"
    by (auto simp: claim_route_revocation_def split: option.splits prod.splits)
  show ?thesis by (rule same_routes_ok [OF assms(1) claim_control_simps [OF e]])
qed (use assms in simp)

lemma finish_revocation_ok:
  assumes "trade_ok s" "finish_route_revocation lib c ack err now s = Inr t"
  shows "trade_ok t \<and> routes_kept s t"
proof (cases "t = s")
  case False
  have sim: "jobs_of (x\<lparr>tp_revocations := y\<rparr>) = jobs_of x" for x y by (simp add: jobs_of_def)
  show ?thesis
    by (rule same_routes_ok [OF assms(1)])
      (use assms(2) False in \<open>auto simp: finish_route_revocation_def Let_def only_routes_def sim
         split: option.splits if_splits\<close>)
qed (use assms in simp)

lemma status_row_simps [simp]:
  "tp_routes (record_status_row tenant r row s) = tp_routes s"
  "tp_endpoints (record_status_row tenant r row s) = tp_endpoints s"
  "tp_invitations (record_status_row tenant r row s) = tp_invitations s"
  "tp_rotations (record_status_row tenant r row s) = tp_rotations s"
  "tp_base (record_status_row tenant r row s) = tp_base s"
  by (simp_all add: record_status_row_def)

lemma status_rows_simps [simp]:
  "tp_routes (fold (record_status_row tenant r) rows s) = tp_routes s"
  "tp_endpoints (fold (record_status_row tenant r) rows s) = tp_endpoints s"
  "tp_invitations (fold (record_status_row tenant r) rows s) = tp_invitations s"
  "tp_rotations (fold (record_status_row tenant r) rows s) = tp_rotations s"
  "tp_base (fold (record_status_row tenant r) rows s) = tp_base s"
  by (induction rows arbitrary: s) simp_all

lemma record_status_ok:
  assumes "trade_ok s" "record_trade_status tenant r rows s = Inr t"
  shows "trade_ok t \<and> routes_kept s t"
  by (rule same_routes_ok [OF assms(1)])
    (use assms(2) in \<open>auto simp: record_trade_status_def only_routes_def jobs_of_def split: if_splits\<close>)

section \<open>The transition system\<close>

text \<open>
  A route is accepted in the state in which \<open>api::trade::accept\<close> builds it, and an enrolment is
  finished only for an outgoing route, with a state that \<open>enroll\_outgoing\<close> let through. The other
  operations of a server that keeps its requests and tenants leave these tables alone, except that a
  completed upload adds the receipt of its delivery. Not among the steps are the removal of a request
  (\<open>remove\_link\<close>) and of a tenant (\<open>remove\_tenant\<close>), which delete routes, endpoints, invitations and
  inbound deliveries: what follows holds for runs between two such removals.
\<close>

definition accepted_route :: "port_route \<Rightarrow> bool" where
  "accepted_route r \<longleftrightarrow> tr_direction r = outgoing \<and> tr_state r = st_pending \<and> tr_remote_grant r = []
     \<and> \<not> tr_cancel_active r"

definition other_writers :: "trade_store \<Rightarrow> trade_store \<Rightarrow> bool" where
  "other_writers s t \<longleftrightarrow>
     only_routes s t \<and> tp_routes t = tp_routes s \<and> tp_rotations t = tp_rotations s
     \<and> tp_outbound t = tp_outbound s \<and> tp_inbound t = tp_inbound s
     \<and> trade_routes (jobs_of t) = trade_routes (jobs_of s)
     \<and> outbound_routes (jobs_of t) = outbound_routes (jobs_of s)"

inductive trade_step :: "'k trade_lib \<Rightarrow> trade_store \<Rightarrow> trade_store \<Rightarrow> bool" for lib :: "'k trade_lib" where
  offer: "create_trade_endpoint i e s = Inr t \<Longrightarrow> trade_step lib s t"
| invite: "create_trade_invitation lib tenant endpoint expected expires now i secret s = Inr t \<Longrightarrow> trade_step lib s t"
| prune: "trade_step lib s (prune_trade_invitations now s)"
| redeem: "redeem_trade_invitation lib m now i s = Inr (j, b, t) \<Longrightarrow> trade_step lib s t"
| accept: "save_outgoing_trade i r s = Inr t \<Longrightarrow> accepted_route r \<Longrightarrow> trade_step lib s t"
| enrolled: "map_of (tp_routes s) i = Some r \<Longrightarrow> tr_direction r = outgoing
     \<Longrightarrow> state \<in> {st_active, st_pending, st_paused, st_revoked} \<Longrightarrow> trade_step lib s (finish_trade_enrollment tenant i grant' state s)"
| permit: "update_trade_route lib tenant i revision state stop policy now s = Inr (r, t) \<Longrightarrow> trade_step lib s t"
| heard: "trade_contact tenant i remote err now s = Inr (b, t) \<Longrightarrow> trade_step lib s t"
| rotate: "rotate_trade_credential lib i previous next' s = Inr t \<Longrightarrow> trade_step lib s t"
| draw: "pending_trade_rotation tenant i fresh s = Inr (v, t) \<Longrightarrow> trade_step lib s t"
| confirm: "trade_step lib s (clear_trade_rotation i v s)"
| move: "change_trade_address tenant i revision address s = Inr t \<Longrightarrow> trade_step lib s t"
| receive: "receive_route_authorized lib tenant link source ancestry credential now i s = Inr (k, t) \<Longrightarrow> trade_step lib s t"
| bind_session: "bind_route_session i link seen session transport s = Inr t \<Longrightarrow> trade_step lib s t"
| revoke: "revoke_inbound_route lib i request now s = Inr (x, t) \<Longrightarrow> trade_step lib s t"
| bind_job: "bind_outbound_route lib job d origin route key source s = Inr t \<Longrightarrow> trade_step lib s t"
| receipt: "record_route_receipt j d rc s = Inr t \<Longrightarrow> trade_step lib s t"
| claim: "claim_route_revocation lib now s = (c, t) \<Longrightarrow> trade_step lib s t"
| answer: "finish_route_revocation lib c ack err now s = Inr t \<Longrightarrow> trade_step lib s t"
| status: "record_trade_status tenant r rows s = Inr t \<Longrightarrow> trade_step lib s t"
| other: "other_writers s t \<Longrightarrow> trade_step lib s t"

lemmas trade_operations_ok =
  create_endpoint_ok create_invitation_ok prune_ok redeem_ok save_outgoing_ok finish_enrollment_ok update_route_ok
  contact_ok rotate_ok pending_rotation_ok clear_rotation_ok address_ok receive_ok bind_session_ok
  revoke_inbound_ok bind_outbound_ok record_receipt_ok claim_revocation_ok finish_revocation_ok record_status_ok

lemma trade_step_ok: "trade_step lib s t \<Longrightarrow> trade_ok s \<Longrightarrow> trade_ok t \<and> routes_kept s t"
proof (induction rule: trade_step.induct)
  case (other s t)
  then show ?case unfolding other_writers_def by (blast dest: same_routes_ok)
qed (rule trade_operations_ok; assumption)+

definition trade_start :: "trade_store \<Rightarrow> bool" where
  "trade_start s \<longleftrightarrow> tp_routes s = [] \<and> tp_endpoints s = [] \<and> tp_invitations s = [] \<and> tp_outbound s = []
     \<and> us_routes (tp_base s) = [] \<and> trade_routes (jobs_of s) = [] \<and> outbound_routes (jobs_of s) = []"

lemma trade_start_ok: "trade_start s \<Longrightarrow> trade_ok s"
  by (simp add: trade_start_def trade_ok_def hm_ok_def mirrored_def live_routes_def redeemed_routes_def map_filter_simps)

interpretation trades: invariant_system trade_start "trade_step lib" trade_ok
  by unfold_locales (blast dest: trade_start_ok trade_step_ok)+

lemma trade_steps_kept: "(trade_step lib)\<^sup>*\<^sup>* s t \<Longrightarrow> trade_ok s \<Longrightarrow> trade_ok t \<and> routes_kept s t"
  by (induction rule: rtranclp_induct) (auto dest: trade_step_ok intro: routes_kept_trans)

end
