(* ===== verification/TradeBound.thy ===== *)
theory TradeBound
  imports TradeSystem
begin

text \<open>
  Three more invariants of the trade tables: every delivery bound to a route has both halves of its
  row, so that a cancelled route leaves none behind, a route is only ever in a known state, and every
  delivery that was received was signed for this port with a verified custody chain.
\<close>

section \<open>Deliveries on the sending side\<close>

text \<open>Every delivery bound to a route has both halves of its row.\<close>

definition bound_ok :: "trade_store \<Rightarrow> bool" where
  "bound_ok s \<longleftrightarrow> outbound_key ` set (outbound_routes (jobs_of s)) \<subseteq> fst ` set (tp_outbound s)"

lemma bound_same:
  "bound_ok s \<Longrightarrow> outbound_routes (jobs_of t) = outbound_routes (jobs_of s) \<Longrightarrow> tp_outbound t = tp_outbound s \<Longrightarrow> bound_ok t"
  by (simp add: bound_ok_def)

lemma queue_keys [simp]:
  "outbound_key (queue_row lib s i row) = outbound_key row" "fst (queue_one lib s i e) = fst e"
  by (auto simp: queue_row_def queue_one_def outbound_key_def split: option.split prod.split)

lemma bound_queue: "bound_ok s \<Longrightarrow> bound_ok (queue_cancelled lib i s)"
  unfolding bound_ok_def queue_cancelled_def by (auto simp: jobs_of_def with_jobs_def image_image)

lemma bound_set:
  "bound_ok s \<Longrightarrow> (\<And>row. outbound_key (f row) = outbound_key row) \<Longrightarrow> bound_ok (set_outbound k x f s)"
  unfolding bound_ok_def by (auto simp: set_outbound_def jobs_of_def with_jobs_def dom_update image_iff)

lemma bound_finish:
  "bound_ok s \<Longrightarrow> finish_route_revocation lib c ack err now s = Inr t \<Longrightarrow> bound_ok t"
proof -
  have e: "bound_ok (x\<lparr>tp_revocations := y\<rparr>) = bound_ok x" "bound_ok (trade_event a b k x) = bound_ok x" for x y a b k
    by (simp_all add: bound_ok_def jobs_of_def trade_event_def with_jobs_def delivery_event_def)
  have k: "outbound_key (row\<lparr>ob_ack := v\<rparr>) = outbound_key row" for row :: outbound_row and v
    by (simp add: outbound_key_def)
  show "bound_ok s \<Longrightarrow> finish_route_revocation lib c ack err now s = Inr t \<Longrightarrow> bound_ok t"
    by (auto simp: finish_route_revocation_def Let_def e k split: option.splits if_splits intro!: bound_set)
qed

lemma bound_claim:
  assumes "bound_ok s" "claim_route_revocation lib now s = (c, t)"
  shows "bound_ok t"
proof -
  have e: "bound_ok (x\<lparr>tp_revocations := y\<rparr>) = bound_ok x" for x y by (simp add: bound_ok_def jobs_of_def)
  have k: "outbound_key (row\<lparr>ob_revocation := v\<rparr>) = outbound_key row" for row :: outbound_row and v
    by (simp add: outbound_key_def)
  from assms show ?thesis
    by (auto simp: claim_route_revocation_def claim_control_def Let_def e k split: option.splits prod.splits
        intro!: bound_set)
qed

lemma bound_bind:
  assumes "bound_ok s" "bind_outbound_route lib job d origin route key source s = Inr t"
  shows "bound_ok t"
proof -
  define x where "x = \<lparr>ox_origin = origin, ox_route_id = route, ox_peer_key = key, ox_source = source,
    ox_next_attempt = 0, ox_attempts = 0, ox_request = None, ox_acknowledged = None\<rparr>"
  define u where "u = with_jobs (\<lambda>j. j\<lparr>outbound_routes := outbound_routes j
      @ [\<lparr>ob_job_id = job, ob_destination_id = d, ob_revocation = None, ob_ack = None\<rparr>]\<rparr>)
    (s\<lparr>tp_outbound := AList.update (job, d) x (tp_outbound s)\<rparr>)"
  have "bound_ok u"
    using assms(1) unfolding u_def by (auto simp: bound_ok_def jobs_of_def with_jobs_def dom_update outbound_key_def)
  moreover have "t = queue_cancelled lib d s \<or> t = queue_cancelled lib d u"
    using assms(2) by (auto simp: bind_outbound_route_def x_def u_def split: option.splits if_splits)
  ultimately show ?thesis using bound_queue assms(1) by blast
qed

lemma bound_update:
  assumes "bound_ok s" "update_trade_route lib tenant i revision state stop policy now s = Inr (r, t)"
  shows "bound_ok t"
proof -
  from assms(2) obtain r u where t: "outbound_routes (jobs_of t) = outbound_routes (jobs_of (queue_cancelled lib i (put_route i r s)))"
    "tp_outbound t = tp_outbound (queue_cancelled lib i (put_route i r s))"
    by (auto simp: update_trade_route_def Let_def split: sum.splits if_splits)
  have "bound_ok (put_route i r s)" by (rule bound_same [OF assms(1)]) simp_all
  from bound_same [OF bound_queue [OF this] t] show ?thesis .
qed

lemma bound_address:
  assumes "bound_ok s" "change_trade_address tenant i revision address s = Inr t"
  shows "bound_ok t"
  using assms by (force simp: bound_ok_def change_trade_address_def Let_def jobs_of_def trade_event_def with_jobs_def
      delivery_event_def image_iff split: sum.splits if_splits)

text \<open>Every other operation leaves the bound deliveries alone.\<close>

definition same_bound :: "trade_store \<Rightarrow> trade_store \<Rightarrow> bool" where
  "same_bound s t \<longleftrightarrow> outbound_routes (jobs_of t) = outbound_routes (jobs_of s) \<and> tp_outbound t = tp_outbound s"

lemma same_bound_sets:
  "same_bound s (s\<lparr>tp_endpoints := a\<rparr>)" "same_bound s (s\<lparr>tp_invitations := b\<rparr>)" "same_bound s (s\<lparr>tp_rotations := c\<rparr>)"
  "same_bound s (s\<lparr>tp_receipts := e\<rparr>)" "same_bound s s"
  by (simp_all add: same_bound_def jobs_of_def)

lemma bound_statuses:
  "tp_outbound (fold (record_status_row tenant r) rows s) = tp_outbound s"
  by (induction rows arbitrary: s) (simp_all add: record_status_row_def)

lemma bound_offer: "create_trade_endpoint i e s = Inr t \<Longrightarrow> same_bound s t"
  by (auto simp: create_trade_endpoint_def same_bound_def jobs_of_def split: sum.splits if_splits)

lemma bound_invite: "create_trade_invitation lib tenant endpoint expected expires now i secret s = Inr t \<Longrightarrow> same_bound s t"
  by (auto simp: create_trade_invitation_def same_bound_sets split: option.splits if_splits)

lemma bound_redeem: "redeem_trade_invitation lib m now i s = Inr (j, b, t) \<Longrightarrow> same_bound s t"
  by (auto simp: redeem_trade_invitation_def redeem_again_def redeem_new_def Let_def same_bound_def jobs_of_def
      put_route_def trade_event_def with_jobs_def delivery_event_def
      split: option.splits sum.splits if_splits prod.splits)

lemma bound_accept: "save_outgoing_trade i r s = Inr t \<Longrightarrow> same_bound s t"
  by (auto simp: save_outgoing_trade_def Let_def same_bound_def jobs_of_def put_route_def trade_event_def
      with_jobs_def delivery_event_def split: sum.splits if_splits)

lemma bound_contact: "trade_contact tenant i remote err now s = Inr (b, t) \<Longrightarrow> same_bound s t"
  by (auto simp: trade_contact_def Let_def same_bound_def split: sum.splits if_splits)

lemma bound_rotate: "rotate_trade_credential lib i c v s = Inr t \<Longrightarrow> same_bound s t"
  by (auto simp: rotate_trade_credential_def Let_def same_bound_def split: option.splits if_splits)

lemma bound_draw: "pending_trade_rotation tenant i fresh s = Inr (v, t) \<Longrightarrow> same_bound s t"
  by (auto simp: pending_trade_rotation_def same_bound_sets split: sum.splits option.splits if_splits)

lemma bound_receive: "receive_route_authorized lib tenant link source ancestry credential now i s = Inr (k, t) \<Longrightarrow> same_bound s t"
  by (erule receive_Inr) (simp_all add: same_bound_def)

lemma bound_session: "bind_route_session i link seen session transport s = Inr t \<Longrightarrow> same_bound s t"
  by (auto simp: bind_route_session_def same_bound_def jobs_of_def split: option.splits if_splits)

lemma bound_revoke: "revoke_inbound_route lib i request now s = Inr (x, t) \<Longrightarrow> same_bound s t"
  by (auto simp: revoke_inbound_route_def same_bound_def revoke_route_deliveries_def split: option.splits if_splits)

lemma bound_receipt: "record_route_receipt j d rc s = Inr t \<Longrightarrow> same_bound s t"
  by (auto simp: record_route_receipt_def same_bound_sets split: if_splits)

lemma bound_status: "record_trade_status tenant r rows s = Inr t \<Longrightarrow> same_bound s t"
  by (auto simp: record_trade_status_def same_bound_def bound_statuses jobs_of_def split: if_splits)

lemma bound_simple: "same_bound s (prune_trade_invitations now s)" "same_bound s (clear_trade_rotation i v s)"
  "same_bound s (finish_trade_enrollment tenant i grant' state s)" "other_writers s t \<Longrightarrow> same_bound s t"
  by (auto simp: prune_trade_invitations_def clear_trade_rotation_def finish_trade_enrollment_def same_bound_def
      other_writers_def jobs_of_def put_route_def with_jobs_def split: option.splits)

lemma same_bound_ok: "same_bound s t \<Longrightarrow> bound_ok s \<Longrightarrow> bound_ok t"
  by (simp add: same_bound_def bound_same)

lemmas same_bounds = bound_offer bound_invite bound_redeem bound_accept bound_contact bound_rotate bound_draw
  bound_receive bound_session bound_revoke bound_receipt bound_status bound_simple(4)

lemma bound_step: "trade_step lib s t \<Longrightarrow> bound_ok s \<Longrightarrow> bound_ok t"
  by (erule trade_step.cases)
    (simp_all add: same_bound_ok [OF bound_simple(1)] same_bound_ok [OF bound_simple(2)] same_bound_ok [OF bound_simple(3)],
     (blast dest: same_bounds same_bound_ok bound_update bound_address bound_bind bound_claim bound_finish)+)

lemma bound_start: "trade_start s \<Longrightarrow> bound_ok s"
  by (simp add: trade_start_def bound_ok_def)

interpretation bound: invariant_system trade_start "trade_step lib" bound_ok
  by unfold_locales (fact bound_start, rule bound_step)

lemma cancels_same:
  "tp_routes t = tp_routes s \<Longrightarrow> jobs (jobs_of t) = jobs (jobs_of s) \<Longrightarrow> cancels t i row = cancels s i row"
  by (simp add: cancels_def job_in_def)

lemma queued_all:
  assumes b: "bound_ok s" and row: "row \<in> set (outbound_routes (jobs_of (queue_cancelled lib i s)))"
  shows "\<not> cancels (queue_cancelled lib i s) i row"
proof -
  from row obtain old where old: "old \<in> set (outbound_routes (jobs_of s))" "row = queue_row lib s i old"
    by (auto simp: queue_cancelled_def jobs_of_def with_jobs_def)
  show ?thesis
  proof (cases "cancels s i old")
    case True
    from b old(1) have "map_of (tp_outbound s) (outbound_key old) \<noteq> None"
      unfolding bound_ok_def map_of_eq_None_iff by blast
    with True old(2) show ?thesis by (auto simp: queue_row_def cancels_def)
  next
    case False
    then have "row = old" using old(2) by (simp add: queue_row_def split: option.split)
    moreover have "cancels (queue_cancelled lib i s) i row = cancels s i row" by (rule cancels_same) simp_all
    ultimately show ?thesis using False by simp
  qed
qed

lemma update_queues:
  assumes "update_trade_route lib tenant i revision state stop policy now s = Inr (r, t)" "bound_ok s"
    "row \<in> set (outbound_routes (jobs_of t))"
  shows "\<not> cancels t i row"
proof -
  from assms(1) obtain r u where u: "u = put_route i r s"
    and t: "outbound_routes (jobs_of t) = outbound_routes (jobs_of (queue_cancelled lib i u))"
      "tp_routes t = tp_routes (queue_cancelled lib i u)" "jobs (jobs_of t) = jobs (jobs_of (queue_cancelled lib i u))"
    by (auto simp: update_trade_route_def Let_def split: sum.splits if_splits)
  have "bound_ok u" unfolding u by (rule bound_same [OF assms(2)]) simp_all
  from queued_all [OF this assms(3) [unfolded t(1)]] show ?thesis unfolding cancels_same [OF t(2,3)] .
qed

lemma bind_queues:
  assumes "bind_outbound_route lib job i origin route key source s = Inr t" "bound_ok s"
    "row \<in> set (outbound_routes (jobs_of t))"
  shows "\<not> cancels t i row"
proof -
  define x where "x = \<lparr>ox_origin = origin, ox_route_id = route, ox_peer_key = key, ox_source = source,
    ox_next_attempt = 0, ox_attempts = 0, ox_request = None, ox_acknowledged = None\<rparr>"
  define u where "u = with_jobs (\<lambda>j. j\<lparr>outbound_routes := outbound_routes j
      @ [\<lparr>ob_job_id = job, ob_destination_id = i, ob_revocation = None, ob_ack = None\<rparr>]\<rparr>)
    (s\<lparr>tp_outbound := AList.update (job, i) x (tp_outbound s)\<rparr>)"
  have "bound_ok u"
    using assms(2) unfolding u_def by (auto simp: bound_ok_def jobs_of_def with_jobs_def dom_update outbound_key_def)
  moreover have "t = queue_cancelled lib i s \<or> t = queue_cancelled lib i u"
    using assms(1) by (auto simp: bind_outbound_route_def x_def u_def split: option.splits if_splits)
  ultimately show ?thesis using queued_all assms(2,3) by blast
qed

section \<open>The states of routes\<close>

definition route_states :: "trade_store \<Rightarrow> rstr set" where
  "route_states s = tr_state ` snd ` set (tp_routes s)"

definition known_states :: "rstr set" where
  "known_states = {st_active, st_pending, st_paused, st_revoked}"

text \<open>An operation brings no route into a state that is not known.\<close>

definition states_kept :: "trade_store \<Rightarrow> trade_store \<Rightarrow> bool" where
  "states_kept s t \<longleftrightarrow> route_states t \<subseteq> route_states s \<union> known_states"

lemma snd_update: "snd ` set (AList.update i r xs) \<subseteq> insert r (snd ` set xs)"
  by (induction xs) auto

lemma states_update:
  assumes "tp_routes t = AList.update i r (tp_routes s)"
  shows "route_states t \<subseteq> insert (tr_state r) (route_states s)"
  using image_mono [OF snd_update, of tr_state i r "tp_routes s"] unfolding route_states_def assms by simp

lemma states_found: "map_of (tp_routes s) i = Some r \<Longrightarrow> tr_state r \<in> route_states s"
  unfolding route_states_def by (force dest: map_of_SomeD)

lemma one_routeI:
  "tp_routes t = tp_routes s \<Longrightarrow> states_kept s t"
  "tp_routes t = AList.update i r (tp_routes s) \<Longrightarrow> tr_state r \<in> known_states \<Longrightarrow> states_kept s t"
  "tp_routes t = AList.update i r' (tp_routes s) \<Longrightarrow> map_of (tp_routes s) i = Some r \<Longrightarrow> tr_state r' = tr_state r
   \<Longrightarrow> states_kept s t"
proof -
  show "tp_routes t = tp_routes s \<Longrightarrow> states_kept s t" by (simp add: states_kept_def route_states_def)
  show "tp_routes t = AList.update i r (tp_routes s) \<Longrightarrow> tr_state r \<in> known_states \<Longrightarrow> states_kept s t"
    using states_update unfolding states_kept_def by fast
  show "tp_routes t = AList.update i r' (tp_routes s) \<Longrightarrow> map_of (tp_routes s) i = Some r \<Longrightarrow> tr_state r' = tr_state r
    \<Longrightarrow> states_kept s t"
    using states_update [of t i r' s] states_found [of s i r] unfolding states_kept_def by auto
qed

lemma one_redeem: "redeem_trade_invitation lib m now i s = Inr (j, b, t) \<Longrightarrow> states_kept s t"
  by (auto simp: redeem_trade_invitation_def redeem_again_def redeem_new_def Let_def enrolled_route_def known_states_def
      intro: one_routeI split: option.splits sum.splits if_splits prod.splits)

lemma one_accept: "save_outgoing_trade i r s = Inr t \<Longrightarrow> accepted_route r \<Longrightarrow> states_kept s t"
  by (rule one_routeI(2) [of _ i r])
    (auto simp: save_outgoing_trade_def accepted_route_def Let_def trade_event_def with_jobs_def put_route_def
       known_states_def split: sum.splits if_splits)

lemma one_enrolled:
  assumes "state \<in> {st_active, st_pending, st_paused, st_revoked}"
  shows "states_kept s (finish_trade_enrollment tenant i grant' state s)"
proof (cases "\<exists>r. map_of (tp_routes s) i = Some r \<and> tr_tenant r = tenant \<and> tr_remote_grant r = []")
  case True
  then obtain r where r: "map_of (tp_routes s) i = Some r" "tr_tenant r = tenant" "tr_remote_grant r = []" by blast
  let ?r = "r\<lparr>tr_remote_grant := grant', po_remote_state := state,
    tr_state := (if tr_state r \<in> {st_paused, st_revoked} then tr_state r else state), po_enrollment := None\<rparr>"
  have t: "finish_trade_enrollment tenant i grant' state s = put_route i ?r s"
    using r by (simp add: finish_trade_enrollment_def)
  show ?thesis unfolding t by (rule one_routeI(2) [of _ i ?r]) (use assms in \<open>auto simp: known_states_def\<close>)
next
  case False
  then have "finish_trade_enrollment tenant i grant' state s = s"
    by (auto simp: finish_trade_enrollment_def split: option.split)
  then show ?thesis by (simp add: one_routeI(1))
qed

lemma one_permit:
  assumes "update_trade_route lib tenant i revision state stop policy now s = Inr (r, t)"
  shows "states_kept s t"
proof -
  have "tp_routes t = AList.update i r (tp_routes s)" "tr_state r = state"
    "state \<in> {st_active, st_paused, st_revoked, st_pending}"
    using assms by (auto simp: update_trade_route_def Let_def split: sum.splits if_splits)
  then show ?thesis by (intro one_routeI(2) [of t i r]) (auto simp: known_states_def)
qed

lemma one_heard:
  assumes "trade_contact tenant i remote err now s = Inr (b, t)"
  shows "states_kept s t"
proof -
  from assms obtain r where r: "map_of (tp_routes s) i = Some r"
    by (auto simp: trade_contact_def route_in_Inr split: sum.splits)
  define r' where "r' = r\<lparr>po_remote_state := remote, po_error := err,
    po_last_contact := (if err = None then Some now else po_last_contact r),
    tr_state := (if tr_direction r = outgoing \<and> tr_state r = st_pending \<and> remote = st_active
                 then st_active else tr_state r)\<rparr>"
  from assms r have t: "tp_routes t = AList.update i r' (tp_routes s)"
    unfolding r'_def by (auto simp: trade_contact_def route_in_def Let_def split: if_splits)
  have st: "tr_state r' = st_active \<or> tr_state r' = tr_state r" by (simp add: r'_def)
  from st show ?thesis
  proof
    assume "tr_state r' = st_active"
    then show ?thesis by (intro one_routeI(2) [OF t]) (simp add: known_states_def)
  qed (rule one_routeI(3) [OF t r])
qed

lemma one_rotate: "rotate_trade_credential lib i c v s = Inr t \<Longrightarrow> states_kept s t"
  by (auto simp: rotate_trade_credential_def Let_def split: option.splits if_splits intro: one_routeI(1) one_routeI(3))

lemma one_address: "change_trade_address tenant i revision address s = Inr t \<Longrightarrow> states_kept s t"
  by (force simp: change_trade_address_def Let_def trade_event_def with_jobs_def states_kept_def route_states_def
      split: sum.splits if_splits)

text \<open>The other operations leave the routes alone.\<close>

lemma quiet_routes:
  "create_trade_endpoint i e s = Inr t \<Longrightarrow> tp_routes t = tp_routes s"
  "create_trade_invitation lib tenant endpoint expected expires now i secret s = Inr t \<Longrightarrow> tp_routes t = tp_routes s"
  "tp_routes (prune_trade_invitations now s) = tp_routes s"
  "pending_trade_rotation tenant i fresh s = Inr (v, t) \<Longrightarrow> tp_routes t = tp_routes s"
  "tp_routes (clear_trade_rotation i v s) = tp_routes s"
  "bind_route_session i link seen session transport s = Inr t \<Longrightarrow> tp_routes t = tp_routes s"
  "revoke_inbound_route lib' i request now s = Inr (x, t) \<Longrightarrow> tp_routes t = tp_routes s"
  "record_route_receipt j d rc s = Inr t \<Longrightarrow> tp_routes t = tp_routes s"
  "record_trade_status tenant r rows s = Inr t \<Longrightarrow> tp_routes t = tp_routes s"
  "bind_outbound_route lib' job d origin route key source s = Inr t \<Longrightarrow> tp_routes t = tp_routes s"
  by (auto simp: create_trade_endpoint_def create_trade_invitation_def prune_trade_invitations_def
      pending_trade_rotation_def clear_trade_rotation_def bind_route_session_def revoke_inbound_route_def
      record_route_receipt_def record_trade_status_def bind_outbound_route_def
      split: option.splits sum.splits if_splits)

lemma quiet_receive: "receive_route_authorized lib tenant link source ancestry credential now i s = Inr (k, t) \<Longrightarrow> tp_routes t = tp_routes s"
  by (erule receive_Inr) simp_all

lemma quiet_claim: "claim_route_revocation lib now s = (c, t) \<Longrightarrow> tp_routes t = tp_routes s"
  by (auto simp: claim_route_revocation_def claim_control_def Let_def split: option.splits prod.splits)

lemma quiet_answer: "finish_route_revocation lib c ack err now s = Inr t \<Longrightarrow> tp_routes t = tp_routes s"
  by (auto simp: finish_route_revocation_def Let_def split: option.splits if_splits)

lemmas states_ops = one_redeem one_accept one_permit one_heard one_rotate one_address
lemmas quiet_ops = quiet_routes(1,2,4,6-10) quiet_receive quiet_claim quiet_answer

lemma states_step: "trade_step lib s t \<Longrightarrow> states_kept s t"
proof (induction rule: trade_step.induct)
  case (other s t)
  then show ?case by (simp add: other_writers_def one_routeI(1))
next
  case (enrolled s i r state tenant grant')
  then show ?case by (simp add: one_enrolled)
qed ((rule one_routeI(1), (erule quiet_ops | simp add: quiet_routes(3,5))) | (erule states_ops; assumption) | (erule states_ops))+

interpretation states: invariant_system trade_start "trade_step lib" "\<lambda>s. route_states s \<subseteq> known_states"
  by unfold_locales (simp add: trade_start_def route_states_def, use states_step in \<open>force simp: states_kept_def\<close>)

section \<open>The proof of received deliveries\<close>

text \<open>Every stored delivery was signed by its sender for this port and came with a verified custody
  chain; where it names a route, the deliveries of the chain carry no more metadata than the route.\<close>

definition lineage_allowed :: "trade_store \<Rightarrow> signed_route \<Rightarrow> route_receipt list \<Rightarrow> bool" where
  "lineage_allowed s source ancestry \<longleftrightarrow>
     (\<forall>p. rd_permission (sr_document source) = Some p \<longrightarrow>
        (\<exists>r. map_of (tp_routes s) (rp_grant p) = Some r
           \<and> (\<forall>a \<in> set ancestry. set (metadata_keys (rc_source (rr_document a))) \<subseteq> set (tr_metadata_keys r))))"

definition signed_ok :: "'k trade_lib \<Rightarrow> trade_store \<Rightarrow> bool" where
  "signed_ok lib s \<longleftrightarrow>
     (\<forall>(i, d) \<in> set (us_routes (tp_base s)).
        admits (tl_stmts lib) (rt_source d) (key_hex (tl_stmts lib) (tl_key lib))
        \<and> verify_ancestry (tl_stmts lib) (rt_source d) (ancestry_of s i)
        \<and> lineage_allowed s (rt_source d) (ancestry_of s i))"

definition same_evidence :: "trade_store \<Rightarrow> trade_store \<Rightarrow> bool" where
  "same_evidence s t \<longleftrightarrow>
     (\<forall>i d. (i, d) \<in> set (us_routes (tp_base t)) \<longrightarrow>
        (\<exists>e. (i, e) \<in> set (us_routes (tp_base s)) \<and> rt_source e = rt_source d))
     \<and> (\<forall>i. ancestry_of t i = ancestry_of s i)"

lemma same_evidenceI:
  "us_routes (tp_base t) = us_routes (tp_base s) \<Longrightarrow> tp_inbound t = tp_inbound s \<Longrightarrow> same_evidence s t"
  by (auto simp: same_evidence_def ancestry_of_def)

lemma lineage_kept:
  assumes "lineage_allowed s source ancestry" "routes_kept s t"
  shows "lineage_allowed t source ancestry"
  unfolding lineage_allowed_def
proof (intro allI impI)
  fix p
  assume "rd_permission (sr_document source) = Some p"
  with assms(1) obtain r where r: "map_of (tp_routes s) (rp_grant p) = Some r"
    "\<forall>a \<in> set ancestry. set (metadata_keys (rc_source (rr_document a))) \<subseteq> set (tr_metadata_keys r)"
    unfolding lineage_allowed_def by blast
  from assms(2) r(1) obtain r' where "map_of (tp_routes t) (rp_grant p) = Some r'" "route_kept r r'"
    by (rule kept_lookup)
  with r(2) show "\<exists>r. map_of (tp_routes t) (rp_grant p) = Some r
      \<and> (\<forall>a \<in> set ancestry. set (metadata_keys (rc_source (rr_document a))) \<subseteq> set (tr_metadata_keys r))"
    by (auto simp: route_kept_def)
qed

lemma signed_same:
  assumes "signed_ok lib s" "same_evidence s t" "routes_kept s t"
  shows "signed_ok lib t"
  unfolding signed_ok_def
proof (clarify)
  fix i d
  assume "(i, d) \<in> set (us_routes (tp_base t))"
  with assms(2) obtain e where e: "(i, e) \<in> set (us_routes (tp_base s))" "rt_source e = rt_source d"
    "ancestry_of t i = ancestry_of s i" unfolding same_evidence_def by blast
  with assms(1) have "admits (tl_stmts lib) (rt_source d) (key_hex (tl_stmts lib) (tl_key lib))"
    "verify_ancestry (tl_stmts lib) (rt_source d) (ancestry_of t i)" "lineage_allowed s (rt_source d) (ancestry_of t i)"
    by (auto simp: signed_ok_def)
  with assms(3) lineage_kept show "admits (tl_stmts lib) (rt_source d) (key_hex (tl_stmts lib) (tl_key lib))
      \<and> verify_ancestry (tl_stmts lib) (rt_source d) (ancestry_of t i)
      \<and> lineage_allowed t (rt_source d) (ancestry_of t i)" by blast
qed

lemma inbound_kept [simp]:
  "tp_inbound (put_route i r s) = tp_inbound s" "tp_inbound (queue_cancelled lib d s) = tp_inbound s"
  "tp_inbound (set_outbound k x f s) = tp_inbound s" "tp_inbound (revoke_incoming i now s) = tp_inbound s"
  by (simp_all add: put_route_def queue_cancelled_def set_outbound_def revoke_incoming_def)

lemma evidence_offer: "create_trade_endpoint i e s = Inr t \<Longrightarrow> same_evidence s t"
  by (rule same_evidenceI; auto simp: create_trade_endpoint_def split: sum.splits if_splits)

lemma evidence_invite: "create_trade_invitation lib tenant endpoint expected expires now i secret s = Inr t \<Longrightarrow> same_evidence s t"
  by (rule same_evidenceI; auto simp: create_trade_invitation_def split: option.splits if_splits)

lemma evidence_redeem: "redeem_trade_invitation lib m now i s = Inr (j, b, t) \<Longrightarrow> same_evidence s t"
  by (rule same_evidenceI; auto simp: redeem_trade_invitation_def redeem_again_def redeem_new_def Let_def
      split: option.splits sum.splits if_splits prod.splits)

lemma evidence_accept: "save_outgoing_trade i r s = Inr t \<Longrightarrow> same_evidence s t"
  by (rule same_evidenceI; auto simp: save_outgoing_trade_def Let_def split: sum.splits if_splits)

lemma evidence_contact: "trade_contact tenant i remote err now s = Inr (b, t) \<Longrightarrow> same_evidence s t"
  by (rule same_evidenceI; auto simp: trade_contact_def Let_def split: sum.splits if_splits)

lemma evidence_rotate: "rotate_trade_credential lib i c v s = Inr t \<Longrightarrow> same_evidence s t"
  by (rule same_evidenceI; auto simp: rotate_trade_credential_def Let_def split: option.splits if_splits)

lemma evidence_draw: "pending_trade_rotation tenant i fresh s = Inr (v, t) \<Longrightarrow> same_evidence s t"
  by (rule same_evidenceI; auto simp: pending_trade_rotation_def split: sum.splits option.splits if_splits)

lemma evidence_address: "change_trade_address tenant i revision address s = Inr t \<Longrightarrow> same_evidence s t"
  by (rule same_evidenceI; auto simp: change_trade_address_def Let_def split: sum.splits if_splits)

lemma evidence_permit: "update_trade_route lib tenant i revision state stop policy now s = Inr (r, t) \<Longrightarrow> same_evidence s t"
  by (rule same_evidenceI; auto simp: update_trade_route_def Let_def split: sum.splits if_splits)

lemma ancestry_update:
  assumes "map_of m i = Some x"
  shows "(case map_of (AList.update i (x\<lparr>ix_transport := v\<rparr>) m) k of None \<Rightarrow> [] | Some y \<Rightarrow> ix_ancestry y)
    = (case map_of m k of None \<Rightarrow> [] | Some y \<Rightarrow> ix_ancestry y)"
  using assms by (simp add: map_of_update)

lemma in_updated: "(k, d) \<in> set (AList.update i e m) \<Longrightarrow> (k, d) = (i, e) \<or> (k, d) \<in> set m"
  by (induction m) (auto split: if_splits)

lemma evidence_session:
  assumes "bind_route_session i link seen session transport s = Inr t"
  shows "same_evidence s t"
proof -
  from assms obtain d where d: "map_of (us_routes (tp_base s)) i = Some d"
    and t: "us_routes (tp_base t) = AList.update i (d\<lparr>rt_session_id := Some session\<rparr>) (us_routes (tp_base s))"
      "tp_inbound t = (case map_of (tp_inbound s) i of None \<Rightarrow> tp_inbound s
         | Some x \<Rightarrow> AList.update i (x\<lparr>ix_transport := Some transport\<rparr>) (tp_inbound s))"
    by (auto simp: bind_route_session_def split: option.splits if_splits)
  have "ancestry_of t k = ancestry_of s k" for k
    by (cases "map_of (tp_inbound s) i") (simp_all add: ancestry_of_def t(2) ancestry_update)
  moreover have "\<exists>f. (k, f) \<in> set (us_routes (tp_base s)) \<and> rt_source f = rt_source e"
    if "(k, e) \<in> set (us_routes (tp_base t))" for k e
    using that in_updated map_of_SomeD [OF d] by (fastforce simp: t(1))
  ultimately show ?thesis by (simp add: same_evidence_def)
qed

lemma evidence_revoke: "revoke_inbound_route lib i request now s = Inr (x, t) \<Longrightarrow> same_evidence s t"
  by (rule same_evidenceI; auto simp: revoke_inbound_route_def split: option.splits if_splits)

lemma evidence_receipt: "record_route_receipt j d rc s = Inr t \<Longrightarrow> same_evidence s t"
  by (rule same_evidenceI; auto simp: record_route_receipt_def split: if_splits)

lemma inbound_statuses:
  "us_routes (tp_base (fold (record_status_row tenant r) rows s)) = us_routes (tp_base s)"
  "tp_inbound (fold (record_status_row tenant r) rows s) = tp_inbound s"
  by (induction rows arbitrary: s) (simp_all add: record_status_row_def)

lemma evidence_status: "record_trade_status tenant r rows s = Inr t \<Longrightarrow> same_evidence s t"
  by (rule same_evidenceI; auto simp: record_trade_status_def inbound_statuses split: if_splits)

lemma evidence_bind: "bind_outbound_route lib job d origin route key source s = Inr t \<Longrightarrow> same_evidence s t"
  by (rule same_evidenceI; auto simp: bind_outbound_route_def split: option.splits if_splits)

lemma evidence_claim: "claim_route_revocation lib now s = (c, t) \<Longrightarrow> same_evidence s t"
  by (rule same_evidenceI; auto simp: claim_route_revocation_def claim_control_def Let_def split: option.splits prod.splits)

lemma evidence_answer: "finish_route_revocation lib c ack err now s = Inr t \<Longrightarrow> same_evidence s t"
  by (rule same_evidenceI; auto simp: finish_route_revocation_def Let_def split: option.splits if_splits)

lemma evidence_simple: "same_evidence s (prune_trade_invitations now s)" "same_evidence s (clear_trade_rotation i v s)"
  "same_evidence s (finish_trade_enrollment tenant i grant' state s)"
  by (rule same_evidenceI; auto simp: prune_trade_invitations_def clear_trade_rotation_def finish_trade_enrollment_def
      put_route_def with_jobs_def split: option.splits)+

lemma evidence_other: "other_writers s t \<Longrightarrow> same_evidence s t"
  unfolding other_writers_def only_routes_def same_evidence_def ancestry_of_def
  by (clarsimp, drule only_routes_details(3) [rotated], assumption, blast)

lemma receive_proven:
  "receive_route_authorized lib tenant link source ancestry credential now i s = Inr (k, t) \<Longrightarrow>
   admits (tl_stmts lib) source (key_hex (tl_stmts lib) (tl_key lib)) \<and> verify_ancestry (tl_stmts lib) source ancestry"
  by (simp add: receive_route_authorized_def split: if_splits)

lemma admit_lineage:
  "admit_route lib s source ancestry link credential b = Inr () \<Longrightarrow> lineage_allowed s source ancestry"
  by (auto simp: admit_route_def lineage_allowed_def terms_allow_def route_in_def list_all_iff
      split: if_splits option.splits)

lemma signed_receive:
  assumes ok: "signed_ok lib s" and kept: "routes_kept s t"
    and c: "receive_route_authorized lib tenant link source ancestry credential now i s = Inr (k, t)"
  shows "signed_ok lib t"
  using c
proof (cases rule: receive_Inr)
  case 1
  with ok show ?thesis by simp
next
  case 2
  let ?d = "\<lparr>rt_link_id = link, rt_session_id = None, rt_source = source, rt_receipt = None\<rparr>"
  have us: "us_routes (tp_base t) = us_routes (tp_base s) @ [(i, ?d)]" using 2 by (simp add: update_fresh)
  have ib: "tp_inbound t = AList.update i \<lparr>ix_transport = None, ix_ancestry = ancestry, ix_created_at = now\<rparr> (tp_inbound s)"
    by (simp add: 2(5) insert_inbound_def Let_def split: option.splits)
  have "signed_ok lib (s\<lparr>tp_routes := tp_routes t\<rparr>)"
    by (rule signed_same [OF ok same_evidenceI]) (use kept in \<open>simp_all add: routes_kept_def\<close>)
  then have old: "admits (tl_stmts lib) (rt_source d) (key_hex (tl_stmts lib) (tl_key lib))
      \<and> verify_ancestry (tl_stmts lib) (rt_source d) (ancestry_of t j) \<and> lineage_allowed t (rt_source d) (ancestry_of t j)"
    if "(j, d) \<in> set (us_routes (tp_base s))" for j d
  proof -
    have "j \<noteq> i" using that 2(3) by (auto simp: map_of_eq_None_iff image_iff)
    then have a: "ancestry_of t j = ancestry_of s j" by (simp add: ancestry_of_def ib map_of_update)
    from ok that show ?thesis unfolding a signed_ok_def using lineage_kept [OF _ kept] by blast
  qed
  have "ancestry_of t i = ancestry" by (simp add: ancestry_of_def ib map_of_update)
  with receive_proven [OF c] lineage_kept [OF admit_lineage [OF 2(4)] kept] old show ?thesis
    by (auto simp: signed_ok_def us)
qed

lemmas same_evidences = evidence_offer evidence_invite evidence_redeem evidence_accept evidence_contact evidence_rotate
  evidence_draw evidence_address evidence_permit evidence_session evidence_revoke evidence_receipt evidence_status
  evidence_bind evidence_claim evidence_answer evidence_other

lemma signed_step:
  assumes "trade_step lib s t" "trade_ok s" "signed_ok lib s"
  shows "signed_ok lib t"
proof -
  have kept: "routes_kept s t" using trade_step_ok [OF assms(1,2)] by blast
  from assms(1) have "same_evidence s t
      \<or> (\<exists>tenant link source ancestry credential now i k.
           receive_route_authorized lib tenant link source ancestry credential now i s = Inr (k, t))"
    by (rule trade_step.cases) (simp_all add: evidence_simple, (blast dest: same_evidences)+)
  with kept assms(3) show ?thesis by (blast intro: signed_same signed_receive)
qed

interpretation signed: invariant_system trade_start "trade_step lib" "\<lambda>s. trade_ok s \<and> signed_ok lib s" for lib
  by unfold_locales
    (simp add: trade_start_ok, simp add: trade_start_def signed_ok_def, use trade_step_ok signed_step in blast)

end
