(* ===== verification/TradeRotation.thy ===== *)
theory TradeRotation
  imports TradeSystem
begin

text \<open>
  The rotation of a credential between two ports: \<open>rotate\<close>, \<open>rotate\_remote\<close> and the status poll
  of \<open>server/src/api/trade.rs\<close> over the functions of the store. The sender's store holds the
  credential, the receiver's its digest; requests and replies may be lost, repeated or delayed, and
  any number of threads of the sender rotate and poll. No two calls of the store are one step: a thread
  reads the credential before it draws the next one, so what it sends may be old; a status poll reads
  the credential, asks the peer, reads the pending credential, asks again, and moves the credential
  and forgets the pending one in two more steps, with any other steps in between. The one thing left
  out is a poll that was overtaken (\<open>overtaken\<close>): what it does is the subject of a theorem of its own.
\<close>

section \<open>The two ports\<close>

record rotation =
  ro_sender :: trade_store
  ro_receiver :: trade_store
  ro_read :: "rstr set"
  ro_asked :: "(rstr \<times> rstr) set"
  ro_sent :: "(rstr \<times> rstr) set"
  ro_replies :: "(rstr \<times> rstr) set"
  ro_polls :: "(rstr \<times> rstr) set"
  ro_taken :: "rstr set"
  ro_drawn :: "rstr list"

definition credential_of :: "trade_store \<Rightarrow> rstr \<Rightarrow> rstr option" where
  "credential_of s i = map_option po_credential (map_of (tp_routes s) i)"

text \<open>\<open>trade\_credential\<close>: what the sender reads, of its own outgoing route.\<close>

definition trade_credential :: "rstr \<Rightarrow> rstr \<Rightarrow> trade_store \<Rightarrow> rstr option" where
  "trade_credential tenant i s =
     (case map_of (tp_routes s) i of
        None \<Rightarrow> None
      | Some r \<Rightarrow> if tr_tenant r = tenant \<and> tr_direction r = outgoing then Some (po_credential r) else None)"

text \<open>
  The end of a status poll in \<open>refresh\_route\_inner\<close>: a signed status for the pending credential
  finishes the rotation; when the store refuses, the credential is expected to have moved on.
\<close>

definition settle_poll ::
  "'k trade_lib \<Rightarrow> rstr \<Rightarrow> rstr \<Rightarrow> rstr \<Rightarrow> rstr \<Rightarrow> trade_store \<Rightarrow> trade_error + trade_store" where
  "settle_poll lib tenant i credential next' s =
     (case rotate_trade_credential lib i credential next' s of
        Inr t \<Rightarrow> Inr (clear_trade_rotation i next' t)
      | Inl e \<Rightarrow>
         (case trade_credential tenant i s of
            None \<Rightarrow> Inl RouteUnavailable
          | Some current \<Rightarrow> if current = credential then Inl e else Inr (clear_trade_rotation i next' s)))"

definition same_credential :: "rstr \<Rightarrow> trade_store \<Rightarrow> trade_store \<Rightarrow> bool" where
  "same_credential i s t \<longleftrightarrow>
     (\<forall>r. map_of (tp_routes s) i = Some r \<longrightarrow> (\<exists>r'. map_of (tp_routes t) i = Some r'
        \<and> po_credential r' = po_credential r \<and> tr_direction r' = tr_direction r \<and> tr_tenant r' = tr_tenant r))
     \<and> map_of (tp_rotations t) i = map_of (tp_rotations s) i"

text \<open>A drawn token is new, and so is its digest.\<close>

definition new_token :: "'k trade_lib \<Rightarrow> rstr list \<Rightarrow> rstr \<Rightarrow> bool" where
  "new_token lib drawn v \<longleftrightarrow>
     valid_hex v 32 \<and> trade_secret_hash (tl_stmts lib) v \<notin> trade_secret_hash (tl_stmts lib) ` set drawn"

text \<open>
  A poll for the credential \<open>c\<close> and the pending \<open>v\<close> is overtaken when the credential has moved on
  to one that is neither, while \<open>v\<close> is still the pending one.
\<close>

definition overtaken :: "rstr \<Rightarrow> rstr \<Rightarrow> rstr \<Rightarrow> rstr \<Rightarrow> trade_store \<Rightarrow> bool" where
  "overtaken tenant i c v s \<longleftrightarrow>
     trade_credential tenant i s \<notin> {Some c, Some v} \<and> map_of (tp_rotations s) i = Some v"

text \<open>
  \<open>ro_read\<close>: the credentials that threads have read; \<open>ro_asked\<close>: the credential and the pending one
  that a poll has read; \<open>ro_sent\<close>, \<open>ro_replies\<close>: rotation requests and their replies; \<open>ro_polls\<close>: the
  polls that were answered for the pending credential; \<open>ro_taken\<close>: the pending credentials that a
  thread is about to forget; \<open>ro_drawn\<close>: the credentials in the order they were drawn.
\<close>

inductive rotation_step :: "'k trade_lib \<Rightarrow> rstr \<Rightarrow> rstr \<Rightarrow> rstr \<Rightarrow> rotation \<Rightarrow> rotation \<Rightarrow> bool"
  for lib :: "'k trade_lib" and tenant i g :: rstr where
  read: "trade_credential tenant i (ro_sender x) = Some c \<Longrightarrow> rotation_step lib tenant i g x (x\<lparr>ro_read := insert c (ro_read x)\<rparr>)"
| send: "c \<in> ro_read x \<Longrightarrow> pending_trade_rotation tenant i fresh (ro_sender x) = Inr (v, s)
     \<Longrightarrow> map_of (tp_rotations (ro_sender x)) i = None \<Longrightarrow> new_token lib (ro_drawn x) fresh
     \<Longrightarrow> rotation_step lib tenant i g x
           (x\<lparr>ro_sender := s, ro_sent := insert (c, v) (ro_sent x), ro_drawn := ro_drawn x @ [v]\<rparr>)"
| resend: "c \<in> ro_read x \<Longrightarrow> pending_trade_rotation tenant i fresh (ro_sender x) = Inr (v, s)
     \<Longrightarrow> map_of (tp_rotations (ro_sender x)) i \<noteq> None
     \<Longrightarrow> rotation_step lib tenant i g x (x\<lparr>ro_sender := s, ro_sent := insert (c, v) (ro_sent x)\<rparr>)"
| deliver: "(c, v) \<in> ro_sent x \<Longrightarrow> rotate_trade_credential lib g c v (ro_receiver x) = Inr r
     \<Longrightarrow> rotation_step lib tenant i g x (x\<lparr>ro_receiver := r, ro_replies := insert (c, v) (ro_replies x)\<rparr>)"
| ask: "c \<in> ro_read x \<Longrightarrow> map_of (tp_rotations (ro_sender x)) i = Some v
     \<Longrightarrow> rotation_step lib tenant i g x (x\<lparr>ro_asked := insert (c, v) (ro_asked x)\<rparr>)"
| poll: "(c, v) \<in> ro_asked x \<Longrightarrow> credential_of (ro_receiver x) g = Some (trade_secret_hash (tl_stmts lib) v)
     \<Longrightarrow> rotation_step lib tenant i g x (x\<lparr>ro_polls := insert (c, v) (ro_polls x)\<rparr>)"
| take_over: "(c, v) \<in> ro_replies x \<union> ro_polls x \<Longrightarrow> rotate_trade_credential lib i c v (ro_sender x) = Inr s
     \<Longrightarrow> rotation_step lib tenant i g x (x\<lparr>ro_sender := s, ro_taken := insert v (ro_taken x)\<rparr>)"
| moved_on: "(c, v) \<in> ro_polls x \<Longrightarrow> trade_credential tenant i (ro_sender x) \<noteq> Some c
     \<Longrightarrow> \<not> overtaken tenant i c v (ro_sender x)
     \<Longrightarrow> rotation_step lib tenant i g x (x\<lparr>ro_taken := insert v (ro_taken x)\<rparr>)"
| forget: "v \<in> ro_taken x
     \<Longrightarrow> rotation_step lib tenant i g x (x\<lparr>ro_sender := clear_trade_rotation i v (ro_sender x)\<rparr>)"
| other_sender: "same_credential i (ro_sender x) s \<Longrightarrow> rotation_step lib tenant i g x (x\<lparr>ro_sender := s\<rparr>)"
| other_receiver: "same_credential g (ro_receiver x) r \<Longrightarrow> rotation_step lib tenant i g x (x\<lparr>ro_receiver := r\<rparr>)"

text \<open>After the enrolment both sides agree on the first credential.\<close>

definition enrolled :: "'k trade_lib \<Rightarrow> rstr \<Rightarrow> rstr \<Rightarrow> rstr \<Rightarrow> rotation \<Rightarrow> bool" where
  "enrolled lib tenant i g x \<longleftrightarrow>
     (\<exists>c r r'. ro_drawn x = [c] \<and> valid_hex c 32
       \<and> map_of (tp_routes (ro_sender x)) i = Some r \<and> tr_direction r = outgoing \<and> tr_tenant r = tenant
       \<and> po_credential r = c
       \<and> map_of (tp_routes (ro_receiver x)) g = Some r' \<and> tr_direction r' = incoming
       \<and> po_credential r' = trade_secret_hash (tl_stmts lib) c)
     \<and> map_of (tp_rotations (ro_sender x)) i = None
     \<and> ro_read x = {} \<and> ro_asked x = {} \<and> ro_sent x = {} \<and> ro_replies x = {} \<and> ro_polls x = {} \<and> ro_taken x = {}"

section \<open>The invariant\<close>

text \<open>
  The drawn credentials in their order: the sender holds number \<open>k\<close>, the receiver the digest of
  number \<open>j\<close>, the same or the next one. A request names a credential the sender has had and the
  one that was next when it was sent.
\<close>

definition sender_at :: "rstr \<Rightarrow> rstr \<Rightarrow> rstr list \<Rightarrow> nat \<Rightarrow> trade_store \<Rightarrow> bool" where
  "sender_at tenant i hist k s \<longleftrightarrow>
     (\<exists>r. map_of (tp_routes s) i = Some r \<and> tr_direction r = outgoing \<and> tr_tenant r = tenant \<and> po_credential r = hist ! k)
     \<and> (length hist = k + 1 \<and> map_of (tp_rotations s) i \<in> {None, Some (hist ! k)}
        \<or> length hist = k + 2 \<and> map_of (tp_rotations s) i = Some (hist ! (k + 1)))"

definition receiver_at :: "'k trade_lib \<Rightarrow> rstr \<Rightarrow> rstr list \<Rightarrow> nat \<Rightarrow> trade_store \<Rightarrow> bool" where
  "receiver_at lib g hist j s \<longleftrightarrow>
     (\<exists>r. map_of (tp_routes s) g = Some r \<and> tr_direction r = incoming
        \<and> po_credential r = trade_secret_hash (tl_stmts lib) (hist ! j))"

definition request_at :: "rstr list \<Rightarrow> nat \<Rightarrow> rstr \<times> rstr \<Rightarrow> nat \<Rightarrow> nat \<Rightarrow> nat \<Rightarrow> bool" where
  "request_at hist k q a n b \<longleftrightarrow>
     q = (hist ! a, hist ! b) \<and> a \<le> n \<and> n \<le> k \<and> (b = n \<or> b = n + 1) \<and> b < length hist"

definition requests :: "rstr list \<Rightarrow> nat \<Rightarrow> nat \<Rightarrow> (rstr \<times> rstr) set \<Rightarrow> bool" where
  "requests hist k j Q \<longleftrightarrow> (\<forall>q \<in> Q. \<exists>a n b. request_at hist k q a n b \<and> b \<le> j)"

definition had :: "rstr list \<Rightarrow> nat \<Rightarrow> rstr set \<Rightarrow> bool" where
  "had hist k C \<longleftrightarrow> (\<forall>c \<in> C. \<exists>a \<le> k. c = hist ! a)"

definition tokens_ok :: "'k trade_lib \<Rightarrow> rstr list \<Rightarrow> bool" where
  "tokens_ok lib hist \<longleftrightarrow>
     distinct (map (trade_secret_hash (tl_stmts lib)) hist) \<and> list_all (\<lambda>c. valid_hex c 32) hist"

definition at_places :: "'k trade_lib \<Rightarrow> rstr \<Rightarrow> rstr \<Rightarrow> rstr \<Rightarrow> nat \<Rightarrow> nat \<Rightarrow> rotation \<Rightarrow> bool" where
  "at_places lib tenant i g k j x \<longleftrightarrow>
     tokens_ok lib (ro_drawn x)
     \<and> sender_at tenant i (ro_drawn x) k (ro_sender x)
     \<and> receiver_at lib g (ro_drawn x) j (ro_receiver x) \<and> k \<le> j \<and> j < length (ro_drawn x)
     \<and> had (ro_drawn x) k (ro_read x)
     \<and> had (ro_drawn x) k (ro_taken x)
     \<and> requests (ro_drawn x) k (length (ro_drawn x)) (ro_asked x)
     \<and> requests (ro_drawn x) k (length (ro_drawn x)) (ro_sent x)
     \<and> requests (ro_drawn x) k j (ro_replies x)
     \<and> requests (ro_drawn x) k j (ro_polls x)"

definition rotation_ok :: "'k trade_lib \<Rightarrow> rstr \<Rightarrow> rstr \<Rightarrow> rstr \<Rightarrow> rotation \<Rightarrow> bool" where
  "rotation_ok lib tenant i g x \<longleftrightarrow> (\<exists>k j. at_places lib tenant i g k j x)"

lemma tokens_inj:
  assumes "tokens_ok lib hist" "a < length hist" "b < length hist"
  shows "trade_secret_hash (tl_stmts lib) (hist ! a) = trade_secret_hash (tl_stmts lib) (hist ! b) \<longleftrightarrow> a = b"
    "hist ! a = hist ! b \<longleftrightarrow> a = b"
proof -
  have "map (trade_secret_hash (tl_stmts lib)) hist ! a = map (trade_secret_hash (tl_stmts lib)) hist ! b \<longleftrightarrow> a = b"
    using assms by (intro nth_eq_iff_index_eq) (simp_all add: tokens_ok_def)
  with assms show h: "trade_secret_hash (tl_stmts lib) (hist ! a) = trade_secret_hash (tl_stmts lib) (hist ! b) \<longleftrightarrow> a = b"
    by simp
  show "hist ! a = hist ! b \<longleftrightarrow> a = b" using h by metis
qed

lemma request_grows:
  "request_at hist k q a n b \<Longrightarrow> k \<le> k' \<Longrightarrow> request_at (hist @ tail') k' q a n b"
  by (auto simp: request_at_def nth_append)

lemma requests_grow:
  assumes "k \<le> k'" "j \<le> j'"
  shows "requests hist k j Q \<Longrightarrow> requests (hist @ tail') k' j' Q"
  using assms unfolding requests_def by (meson order_trans request_grows)

lemma had_grows: "had hist k C \<Longrightarrow> k \<le> k' \<Longrightarrow> k < length hist \<Longrightarrow> had (hist @ tail') k' C"
  unfolding had_def by (metis le_trans nth_append order_le_less_trans)

lemmas requests_later = requests_grow [where tail' = "[]", unfolded append_Nil2]
lemmas had_later = had_grows [where tail' = "[]", unfolded append_Nil2]

lemma requests_insert:
  "requests hist k j (insert q Q) \<longleftrightarrow> (\<exists>a n b. request_at hist k q a n b \<and> b \<le> j) \<and> requests hist k j Q"
  by (auto simp: requests_def)

lemma requests_in: "q \<in> Q \<Longrightarrow> requests hist k j Q \<Longrightarrow> \<exists>a n b. request_at hist k q a n b \<and> b \<le> j"
  by (auto simp: requests_def)

lemma sender_length: "sender_at tenant i hist k s \<Longrightarrow> length hist = k + 1 \<or> length hist = k + 2"
  by (auto simp: sender_at_def)

text \<open>What a rotation does on either side.\<close>

definition kept_as :: "'k trade_lib \<Rightarrow> port_route \<Rightarrow> rstr \<Rightarrow> rstr" where
  "kept_as lib r v = (if tr_direction r = incoming then trade_secret_hash (tl_stmts lib) v else v)"

lemma rotate_cases:
  assumes "rotate_trade_credential lib i c v s = Inr t" "map_of (tp_routes s) i = Some r"
  obtains "po_credential r = kept_as lib r v" "t = s"
  | "po_credential r = kept_as lib r c" "map_of (tp_routes t) i = Some (r\<lparr>po_credential := kept_as lib r v\<rparr>)"
    "tp_rotations t = tp_rotations s"
proof (cases "po_credential r = kept_as lib r v")
  case True
  with assms that(1) show ?thesis
    by (simp add: rotate_trade_credential_def kept_as_def Let_def split: if_splits)
next
  case False
  with assms have "po_credential r = kept_as lib r c"
    and t: "t = trade_event (tr_tenant r) [] ''trade_credential_rotated'' (put_route i (r\<lparr>po_credential := kept_as lib r v\<rparr>) s)"
    unfolding rotate_trade_credential_def kept_as_def by (simp_all add: Let_def split: if_splits)
  then show ?thesis by (intro that(2)) (simp_all add: map_of_update)
qed

lemma receive_rotation:
  assumes "receiver_at lib g hist j s" "rotate_trade_credential lib g c v s = Inr t" "request_at hist k (c, v) a n b"
    "tokens_ok lib hist" "k \<le> j" "j < length hist" "length hist \<le> k + 2"
  obtains j' where "receiver_at lib g hist j' t" "j \<le> j'" "j' < length hist" "b \<le> j'"
proof -
  from assms(1) obtain r where r: "map_of (tp_routes s) g = Some r" "tr_direction r = incoming"
    "po_credential r = trade_secret_hash (tl_stmts lib) (hist ! j)"
    by (auto simp: receiver_at_def)
  have q: "c = hist ! a" "v = hist ! b" "a \<le> n" "n \<le> k" "b = n \<or> b = n + 1" "b < length hist"
    using assms(3) by (auto simp: request_at_def)
  from assms(2) r(1) show thesis
  proof (cases rule: rotate_cases)
    case 1
    have "trade_secret_hash (tl_stmts lib) (hist ! j) = trade_secret_hash (tl_stmts lib) (hist ! b)"
      using 1(1) unfolding kept_as_def r(3) q(2) by (simp add: r(2))
    then have "j = b" using tokens_inj(1) [OF assms(4,6) q(6)] by simp
    then show thesis by (intro that [of j]) (use 1 assms(1,6) in simp_all)
  next
    case 2
    have "trade_secret_hash (tl_stmts lib) (hist ! j) = trade_secret_hash (tl_stmts lib) (hist ! a)"
      using 2(1) unfolding kept_as_def r(3) q(1) by (simp add: r(2))
    then have "j = a" using tokens_inj(1) [OF assms(4,6), of a] assms(5,6) q(3,4) by simp
    with q(3-5) have "j \<le> b" by auto
    moreover have "receiver_at lib g hist b t" using 2 r q(2) by (simp add: receiver_at_def kept_as_def)
    ultimately show thesis by (intro that [of b]) (use q(6) in simp_all)
  qed
qed

lemma send_rotation:
  assumes "sender_at tenant i hist k s" "rotate_trade_credential lib i c v s = Inr t" "request_at hist k (c, v) a n b"
    "tokens_ok lib hist"
  obtains k' where "sender_at tenant i hist k' t" "k \<le> k'" "k' \<le> max k b" "v = hist ! k'"
proof -
  from assms(1) obtain r where r: "map_of (tp_routes s) i = Some r" "tr_direction r = outgoing" "tr_tenant r = tenant"
    "po_credential r = hist ! k"
    and p: "length hist = k + 1 \<and> map_of (tp_rotations s) i \<in> {None, Some (hist ! k)}
        \<or> length hist = k + 2 \<and> map_of (tp_rotations s) i = Some (hist ! (k + 1))"
    by (auto simp: sender_at_def)
  have q: "c = hist ! a" "v = hist ! b" "a \<le> n" "n \<le> k" "b = n \<or> b = n + 1" "b < length hist"
    using assms(3) by (auto simp: request_at_def)
  have side: "outgoing \<noteq> incoming" by (simp add: outgoing_def incoming_def lit_def)
  from assms(2) r(1) show thesis
  proof (cases rule: rotate_cases)
    case 1
    with r q(2) side have "hist ! k = hist ! b" by (simp add: kept_as_def)
    with tokens_inj(2) [OF assms(4), of k b] p q(6) have "b = k" by auto
    then show thesis by (intro that [of k]) (use 1 q(2) assms(1) in simp_all)
  next
    case 2
    with r q(1) side have "hist ! k = hist ! a" by (simp add: kept_as_def)
    with tokens_inj(2) [OF assms(4), of k a] p q(3,4) have "a = k" by auto
    with q(3-6) p consider "b = k" | "b = k + 1" "length hist = k + 2" by auto
    then show thesis
    proof cases
      case b: 1
      have "sender_at tenant i hist k t" using 2 r q(2) p b side by (auto simp: sender_at_def kept_as_def)
      then show thesis by (intro that [of k]) (use b q(2) in simp_all)
    next
      case b: 2
      have "sender_at tenant i hist (k + 1) t" using 2 r q(2) p b side by (auto simp: sender_at_def kept_as_def)
      then show thesis by (intro that [of "k + 1"]) (use b q(2) in simp_all)
    qed
  qed
qed

lemma clear_sender:
  assumes "sender_at tenant i hist k s" "tokens_ok lib hist" "n = hist ! b" "b \<le> k"
  shows "sender_at tenant i hist k (clear_trade_rotation i n s)"
proof -
  from assms(1) obtain r where r: "map_of (tp_routes s) i = Some r" "tr_direction r = outgoing" "tr_tenant r = tenant"
    "po_credential r = hist ! k"
    and p: "length hist = k + 1 \<and> map_of (tp_rotations s) i \<in> {None, Some (hist ! k)}
        \<or> length hist = k + 2 \<and> map_of (tp_rotations s) i = Some (hist ! (k + 1))"
    by (auto simp: sender_at_def)
  show ?thesis
  proof (cases "map_of (tp_rotations s) i = Some n")
    case True
    with p assms(3,4) tokens_inj(2) [OF assms(2), of b "k + 1"] have "length hist = k + 1" by auto
    with r True show ?thesis by (auto simp: sender_at_def clear_trade_rotation_def map_of_delete)
  qed (use assms(1) in \<open>simp add: clear_trade_rotation_def\<close>)
qed

section \<open>Every step keeps the places\<close>

lemma tokens_snoc:
  assumes "tokens_ok lib hist" "new_token lib hist v"
  shows "tokens_ok lib (hist @ [v])"
  using assms by (auto simp: tokens_ok_def new_token_def)

lemma at_placesI:
  assumes "at_places lib tenant i g k j x"
    and "sender_at tenant i (ro_drawn x) k' s" "receiver_at lib g (ro_drawn x) j' r"
    and "k \<le> k'" "j \<le> j'" "k' \<le> j'" "j' < length (ro_drawn x)"
  shows "at_places lib tenant i g k' j' (x\<lparr>ro_sender := s, ro_receiver := r\<rparr>)"
  using assms unfolding at_places_def
  by (auto intro: requests_later [OF assms(4,5)] requests_later [OF assms(4) order_refl] had_later)

lemma pending_Inr:
  assumes "pending_trade_rotation tenant i fresh s = Inr (v, t)" "sender_at tenant i hist k s"
  obtains "map_of (tp_rotations s) i = Some v" "t = s"
  | "map_of (tp_rotations s) i = None" "v = fresh" "t = s\<lparr>tp_rotations := AList.update i v (tp_rotations s)\<rparr>"
  using assms by (auto simp: pending_trade_rotation_def sender_at_def route_in_Inr split: sum.splits if_splits option.splits)

lemma draw_sender:
  assumes "sender_at tenant i hist k s" "map_of (tp_rotations s) i = None" "k < length hist"
  shows "sender_at tenant i (hist @ [v]) k (s\<lparr>tp_rotations := AList.update i v (tp_rotations s)\<rparr>)"
    "length hist = k + 1"
  using assms by (auto simp: sender_at_def nth_append map_of_update)

lemma pending_request:
  assumes "sender_at tenant i hist k s" "map_of (tp_rotations s) i = Some v" "c \<in> C" "had hist k C"
  shows "\<exists>a n b. request_at hist k (c, v) a n b \<and> b \<le> length hist"
proof -
  from assms(3,4) obtain a where a: "a \<le> k" "c = hist ! a" by (auto simp: had_def)
  from assms(1,2) consider "length hist = k + 1" "v = hist ! k" | "length hist = k + 2" "v = hist ! (k + 1)"
    by (auto simp: sender_at_def)
  then show ?thesis
  proof cases
    case 1
    with a have "request_at hist k (c, v) a k k" by (simp add: request_at_def)
    with 1 show ?thesis by (intro exI [of _ a] exI [of _ k]) simp
  next
    case 2
    with a have "request_at hist k (c, v) a k (k + 1)" by (simp add: request_at_def)
    with 2 show ?thesis by (metis le_add1 nat_add_left_cancel_le one_le_numeral)
  qed
qed

text \<open>A reply, whoever takes it, brings the sender no further than the receiver.\<close>

lemma reply_sender:
  assumes p: "at_places lib tenant i g k j x" and q: "(c, v) \<in> ro_replies x \<union> ro_polls x"
    and r: "rotate_trade_credential lib i c v (ro_sender x) = Inr s"
  obtains k' where "sender_at tenant i (ro_drawn x) k' s" "k \<le> k'" "k' \<le> j" "v = ro_drawn x ! k'"
proof -
  from p have tk: "tokens_ok lib (ro_drawn x)" and se: "sender_at tenant i (ro_drawn x) k (ro_sender x)" and kj: "k \<le> j"
    and rq: "requests (ro_drawn x) k j (ro_replies x)" "requests (ro_drawn x) k j (ro_polls x)"
    by (simp_all add: at_places_def)
  obtain a n b where b: "request_at (ro_drawn x) k (c, v) a n b" "b \<le> j"
    using q requests_in [OF _ rq(1)] requests_in [OF _ rq(2)] by blast
  obtain k' where k': "sender_at tenant i (ro_drawn x) k' s" "k \<le> k'" "k' \<le> max k b" "v = ro_drawn x ! k'"
    by (rule send_rotation [OF se r b(1) tk])
  from k'(3) b(2) kj have "k' \<le> j" by simp
  with k' that show thesis by blast
qed

lemma same_credential_sender: "same_credential i s t \<Longrightarrow> sender_at tenant i hist k s \<Longrightarrow> sender_at tenant i hist k t"
  unfolding same_credential_def sender_at_def by fastforce

lemma same_credential_receiver: "same_credential g s t \<Longrightarrow> receiver_at lib g hist j s \<Longrightarrow> receiver_at lib g hist j t"
  unfolding same_credential_def receiver_at_def by fastforce

lemma rotation_step_ok:
  assumes "rotation_step lib tenant i g x y" "rotation_ok lib tenant i g x"
  shows "rotation_ok lib tenant i g y"
proof -
  from assms(2) obtain k j where p: "at_places lib tenant i g k j x" by (auto simp: rotation_ok_def)
  then have tk: "tokens_ok lib (ro_drawn x)" and se: "sender_at tenant i (ro_drawn x) k (ro_sender x)"
    and re: "receiver_at lib g (ro_drawn x) j (ro_receiver x)" and kj: "k \<le> j" and j: "j < length (ro_drawn x)"
    and rd: "had (ro_drawn x) k (ro_read x)" "had (ro_drawn x) k (ro_taken x)"
    and rq: "requests (ro_drawn x) k (length (ro_drawn x)) (ro_sent x)" "requests (ro_drawn x) k j (ro_replies x)"
      "requests (ro_drawn x) k j (ro_polls x)" "requests (ro_drawn x) k (length (ro_drawn x)) (ro_asked x)"
    by (simp_all add: at_places_def)
  have moved: "at_places lib tenant i g k' j' (x\<lparr>ro_sender := s, ro_receiver := r\<rparr>)"
    if "sender_at tenant i (ro_drawn x) k' s" "receiver_at lib g (ro_drawn x) j' r" "k \<le> k'" "j \<le> j'" "k' \<le> j'"
      "j' < length (ro_drawn x)" for k' j' s r
    using at_placesI [OF p that] .
  have same: "x\<lparr>ro_sender := s, ro_receiver := ro_receiver x\<rparr> = x\<lparr>ro_sender := s\<rparr>"
    "x\<lparr>ro_sender := ro_sender x, ro_receiver := r\<rparr> = x\<lparr>ro_receiver := r\<rparr>" for s r by (cases x; simp)+
  show ?thesis using assms(1)
  proof cases
    case (read c)
    then have "c = ro_drawn x ! k" using se by (auto simp: trade_credential_def sender_at_def)
    with p rd have "at_places lib tenant i g k j y" unfolding at_places_def read(1) by (auto simp: had_def)
    then show ?thesis by (auto simp: rotation_ok_def)
  next
    case (send c fresh v s)
    from send(3) se have t: "v = fresh" "s = (ro_sender x)\<lparr>tp_rotations := AList.update i v (tp_rotations (ro_sender x))\<rparr>"
      using send(4) by (cases rule: pending_Inr; simp)+
    have len: "length (ro_drawn x) = k + 1" using draw_sender(2) [OF se send(4)] kj j by simp
    have se': "sender_at tenant i (ro_drawn x @ [v]) k s" using draw_sender(1) [OF se send(4)] kj j t(2) by simp
    obtain a where a: "a \<le> k" "c = ro_drawn x ! a" using rd(1) send(2) by (auto simp: had_def)
    have "request_at (ro_drawn x @ [v]) k (c, v) a k (k + 1)" using a len by (simp add: request_at_def nth_append)
    then have new: "requests (ro_drawn x @ [v]) k (length (ro_drawn x @ [v])) (insert (c, v) (ro_sent x))"
      using len requests_grow [OF order_refl _ rq(1)] unfolding requests_insert by force
    have tk': "tokens_ok lib (ro_drawn x @ [v])" using tokens_snoc [OF tk] send(5) t(1) by simp
    have re': "receiver_at lib g (ro_drawn x @ [v]) j (ro_receiver x)" using re j by (simp add: receiver_at_def nth_append)
    have "at_places lib tenant i g k j y"
      unfolding at_places_def send(1)
      using se' tk' re' kj j new had_grows [OF rd(1) order_refl] had_grows [OF rd(2) order_refl] requests_grow [OF order_refl order_refl rq(2)]
        requests_grow [OF order_refl order_refl rq(3)] requests_grow [OF order_refl _ rq(4)] len by simp
    then show ?thesis by (auto simp: rotation_ok_def)
  next
    case (resend c fresh v s)
    from resend(3) se have t: "map_of (tp_rotations (ro_sender x)) i = Some v" "s = ro_sender x"
      using resend(4) by (cases rule: pending_Inr; simp)+
    have "\<exists>a n b. request_at (ro_drawn x) k (c, v) a n b \<and> b \<le> length (ro_drawn x)"
      by (rule pending_request [OF se t(1) resend(2) rd(1)])
    with p t(2) have "at_places lib tenant i g k j y" unfolding at_places_def resend(1) by (simp add: requests_insert)
    then show ?thesis by (auto simp: rotation_ok_def)
  next
    case (deliver c v r)
    obtain a n b where b: "request_at (ro_drawn x) k (c, v) a n b" using requests_in [OF deliver(2) rq(1)] by blast
    have "length (ro_drawn x) \<le> k + 2" using se by (auto simp: sender_at_def)
    then obtain j' where j': "receiver_at lib g (ro_drawn x) j' r" "j \<le> j'" "j' < length (ro_drawn x)" "b \<le> j'"
      by (rule receive_rotation [OF re deliver(3) b tk kj j])
    have "at_places lib tenant i g k j' (x\<lparr>ro_sender := ro_sender x, ro_receiver := r\<rparr>)"
      by (rule moved [OF se j'(1)]) (use j' kj in simp_all)
    then have "at_places lib tenant i g k j' y"
      unfolding at_places_def deliver(1) using b j'(4) by (auto simp: requests_insert)
    then show ?thesis by (auto simp: rotation_ok_def)
  next
    case (ask c v)
    have "\<exists>a n b. request_at (ro_drawn x) k (c, v) a n b \<and> b \<le> length (ro_drawn x)"
      by (rule pending_request [OF se ask(3,2) rd(1)])
    with p have "at_places lib tenant i g k j y" unfolding at_places_def ask(1) by (simp add: requests_insert)
    then show ?thesis by (auto simp: rotation_ok_def)
  next
    case (poll c v)
    obtain a n b where b: "request_at (ro_drawn x) k (c, v) a n b" using requests_in [OF poll(2) rq(4)] by blast
    then have v: "v = ro_drawn x ! b" "b < length (ro_drawn x)" by (simp_all add: request_at_def)
    from re poll(3) have "trade_secret_hash (tl_stmts lib) (ro_drawn x ! b) = trade_secret_hash (tl_stmts lib) (ro_drawn x ! j)"
      by (auto simp: receiver_at_def credential_of_def v(1))
    with tokens_inj(1) [OF tk v(2) j] have "b = j" by simp
    with b p have "at_places lib tenant i g k j y" unfolding at_places_def poll(1) by (auto simp: requests_insert)
    then show ?thesis by (auto simp: rotation_ok_def)
  next
    case (take_over c v s)
    obtain k' where k': "sender_at tenant i (ro_drawn x) k' s" "k \<le> k'" "k' \<le> j" "v = ro_drawn x ! k'"
      by (rule reply_sender [OF p take_over(2,3)])
    from moved [OF k'(1) re k'(2) order_refl k'(3) j, unfolded same] k'(4)
    have "at_places lib tenant i g k' j y" unfolding take_over(1) at_places_def by (auto simp: had_def)
    then show ?thesis by (auto simp: rotation_ok_def)
  next
    case (moved_on c v)
    obtain a n b where b: "request_at (ro_drawn x) k (c, v) a n b" using requests_in [OF moved_on(2) rq(3)] by blast
    then have v: "v = ro_drawn x ! b" "b \<le> k + 1" "b < length (ro_drawn x)" by (auto simp: request_at_def)
    have cur: "trade_credential tenant i (ro_sender x) = Some (ro_drawn x ! k)"
      using se by (auto simp: trade_credential_def sender_at_def)
    have "b \<le> k"
    proof (rule ccontr)
      assume "\<not> b \<le> k"
      with v(2) have bk: "b = k + 1" by simp
      with v(1,3) se have "map_of (tp_rotations (ro_sender x)) i = Some v" by (auto simp: sender_at_def)
      moreover have "ro_drawn x ! k \<noteq> v" using tokens_inj(2) [OF tk v(3), of k] v(1,3) bk by auto
      ultimately show False using moved_on(3,4) cur by (auto simp: overtaken_def)
    qed
    with p v(1) have "at_places lib tenant i g k j y" unfolding moved_on(1) at_places_def by (auto simp: had_def)
    then show ?thesis by (auto simp: rotation_ok_def)
  next
    case (forget v)
    from rd(2) forget(2) obtain b where b: "b \<le> k" "v = ro_drawn x ! b" by (auto simp: had_def)
    from moved [OF clear_sender [OF se tk b(2,1)] re order_refl order_refl kj j, unfolded same]
    show ?thesis unfolding forget(1) by (auto simp: rotation_ok_def)
  next
    case (other_sender s)
    from moved [OF same_credential_sender [OF other_sender(2) se] re order_refl order_refl kj j, unfolded same] show ?thesis
      unfolding other_sender(1) by (auto simp: rotation_ok_def)
  next
    case (other_receiver r)
    from moved [OF se same_credential_receiver [OF other_receiver(2) re] order_refl order_refl kj j, unfolded same] show ?thesis
      unfolding other_receiver(1) by (auto simp: rotation_ok_def)
  qed
qed

lemma enrolled_ok: "enrolled lib tenant i g x \<Longrightarrow> rotation_ok lib tenant i g x"
  unfolding rotation_ok_def enrolled_def
  by (intro exI [of _ 0])
    (auto simp: at_places_def tokens_ok_def sender_at_def receiver_at_def had_def requests_def)

interpretation rotations: invariant_system "enrolled lib tenant i g" "rotation_step lib tenant i g" "rotation_ok lib tenant i g"
  by unfold_locales (blast intro: enrolled_ok rotation_step_ok)+

end
