(* ===== verification/TradeDemo.thy ===== *)
theory TradeDemo
  imports TradeRotation UploadDemo
begin

text \<open>
  Two ports for the witnesses: the receiver offers an endpoint, invites the sender, enrols it and
  receives a delivery. Digests are the text itself.
\<close>

definition demo_trade_stmts :: "(bool, port_body) stmt_lib" where
  "demo_trade_stmts = \<lparr>key_hex = (\<lambda>k. replicate 64 (if k then 49 else 48)), sign_hex = (\<lambda>_ _. lit ''ab''),
     unhex = (\<lambda>_. Some (replicate 32 0)), key_ok = (\<lambda>_. True), signature_ok = (\<lambda>_. True),
     verify_strict = (\<lambda>_ _ _. True), sha256_hex = map unat, challenge_json = (\<lambda>_. []),
     authorization_json = (\<lambda>_. []), statement_json = (\<lambda>_ _. []), evidence_json = (\<lambda>_. []),
     port_json = (\<lambda>_. []), route_json = (\<lambda>_. []), receipt_json = (\<lambda>_. []), route_receipt_json = (\<lambda>_. []),
     revocation_json = (\<lambda>_. []), revoked_json = (\<lambda>_. [])\<rparr>"

definition demo_port :: "bool \<Rightarrow> bool trade_lib" where
  "demo_port k = \<lparr>tl_stmts = demo_trade_stmts, tl_key = k, tl_address = Inr, tl_revocation_text = (\<lambda>_. []),
     tl_ack_text = (\<lambda>_. []), tl_evidence_len = (\<lambda>_ _. 0)\<rparr>"

definition trade0 :: trade_store where
  "trade0 = \<lparr>tp_base = demo_store, tp_routes = [], tp_endpoints = [], tp_invitations = [], tp_rotations = [],
     tp_policies = [], tp_inbound = [], tp_outbound = [], tp_storage_endpoints = [], tp_receipts = [],
     tp_status = [], tp_revocations = []\<rparr>"

definition demo_endpoint :: trade_endpoint where
  "demo_endpoint = \<lparr>te_tenant = [], te_name = lit ''Dailies'', te_category = lit ''external'', te_forwarding = False,
     te_metadata_keys = [lit ''title''], te_notifications = \<lparr>np_mode = Off, np_rules = []\<rparr>\<rparr>"

definition token :: "nat \<Rightarrow> rstr" where "token n = replicate 32 (48 + n)"

definition demo_enrol :: port_message_in where
  "demo_enrol = sign_port demo_trade_stmts \<lparr>pm_issuer = [], pm_audience = key_hex demo_trade_stmts True,
     pm_purpose = lit ''enroll'', pm_nonce = lit ''inv'', pm_expires_at = 300,
     pm_body = [(lit ''secret'', lit ''s''), (lit ''credential'', token 0), (lit ''name'', lit ''Sender'')]\<rparr> False"

definition demo_delivery :: signed_route where
  "demo_delivery = sign_route demo_trade_stmts
     \<lparr>rd_issuer = [], rd_operation_id = lit ''job'', rd_manifest = replicate 64 97, rd_label = lit ''Delivery'',
      rd_metadata = [(lit ''title'', lit ''x'')], rd_parent_receipt = None,
      rd_visited = [key_hex demo_trade_stmts False],
      rd_permission = Some \<lparr>rp_receiver = key_hex demo_trade_stmts True, rp_grant = lit ''g'', rp_forwarding = False\<rparr>\<rparr> False"

definition trade1 :: trade_store where
  "trade1 = projr (create_trade_endpoint (lit ''l'') demo_endpoint trade0)"
definition trade2 :: trade_store where
  "trade2 = projr (create_trade_invitation (demo_port True) [] (lit ''l'') (key_hex demo_trade_stmts False) 1000 10
     (lit ''inv'') (lit ''s'') trade1)"
definition trade3 :: trade_store where
  "trade3 = snd (snd (projr (redeem_trade_invitation (demo_port True) demo_enrol 10 (lit ''g'') trade2)))"
definition trade4 :: trade_store where
  "trade4 = snd (projr (receive_route_authorized (demo_port True) [] (lit ''l'') demo_delivery [] (Some (token 0)) 10
     (lit ''r'') trade3))"

definition permits :: "trade_store \<Rightarrow> trade_error + (port_route \<times> trade_store)" where
  "permits = update_trade_route (demo_port True) [] (lit ''g'') 1 st_revoked True \<lparr>np_mode = Off, np_rules = []\<rparr> 20"

definition trade5 :: trade_store where "trade5 = snd (projr (permits trade4))"

definition went :: "'e + 'a \<Rightarrow> bool" where
  "went x \<longleftrightarrow> (case x of Inl _ \<Rightarrow> False | Inr _ \<Rightarrow> True)"

lemma wentD: "went x \<Longrightarrow> x = Inr (projr x)"
  by (simp add: went_def split: sum.splits)

lemma trade_evaluated_let:
  "let t1 = projr (create_trade_endpoint (lit ''l'') demo_endpoint trade0);
       x2 = create_trade_invitation (demo_port True) [] (lit ''l'') (key_hex demo_trade_stmts False) 1000 10
              (lit ''inv'') (lit ''s'') t1; t2 = projr x2;
       x3 = redeem_trade_invitation (demo_port True) demo_enrol 10 (lit ''g'') t2; t3 = snd (snd (projr x3));
       x4 = receive_route_authorized (demo_port True) [] (lit ''l'') demo_delivery [] (Some (token 0)) 10 (lit ''r'') t3;
       t4 = snd (projr x4); x5 = permits t4; t5 = snd (projr x5)
   in went (create_trade_endpoint (lit ''l'') demo_endpoint trade0) \<and> went x2 \<and> went x3 \<and> went x4 \<and> went x5
   \<and> went (redeem_trade_invitation (demo_port True) demo_enrol 11 (lit ''h'') t4)
   \<and> live_routes t4 [] = 1 \<and> map fst (tp_routes t4) = [lit ''g''] \<and> map fst (us_routes (tp_base t4)) = [lit ''r'']
   \<and> map (\<lambda>(i, d). contains_key (rt_link_id d) (tp_endpoints t4)) (us_routes (tp_base t4)) = [True]
   \<and> map (\<lambda>(i, v). (i, vi_redeemed v)) (tp_invitations t4) = [(lit ''inv'', Some (lit ''g''))]
   \<and> map_option tr_state (map_of (tp_routes t5) (lit ''g'')) = Some st_revoked"
  by code_simp

lemmas trade_evaluated = trade_evaluated_let [unfolded Let_def, folded trade1_def, folded trade2_def,
    folded trade3_def, folded trade4_def, folded trade5_def]

lemma went_pair: "went x \<Longrightarrow> x = Inr (fst (projr x), snd (projr x))"
  using wentD by simp

lemma went_triple: "went x \<Longrightarrow> x = Inr (fst (projr x), fst (snd (projr x)), snd (snd (projr x)))"
  using wentD by simp

lemma trade_reach:
  "reach trade_start (trade_step (demo_port True)) trade4" "reach trade_start (trade_step (demo_port True)) trade5"
proof -
  have 0: "reach trade_start (trade_step (demo_port True)) trade0"
    by (rule reach_init) (simp add: trade_start_def trade0_def demo_store_def demo_jobs_store_def jobs_of_def)
  note ev = trade_evaluated
  have 1: "reach trade_start (trade_step (demo_port True)) trade1"
    by (rule reach_step [OF 0]) (unfold trade1_def, rule offer, rule wentD, use ev in blast)
  have 2: "reach trade_start (trade_step (demo_port True)) trade2"
    by (rule reach_step [OF 1]) (unfold trade2_def, rule invite, rule wentD, use ev in blast)
  have 3: "reach trade_start (trade_step (demo_port True)) trade3"
    by (rule reach_step [OF 2]) (unfold trade3_def, rule redeem, rule went_triple, use ev in blast)
  show 4: "reach trade_start (trade_step (demo_port True)) trade4"
    by (rule reach_step [OF 3]) (unfold trade4_def, rule receive, rule went_pair, use ev in blast)
  have "permits trade4 = Inr (fst (projr (permits trade4)), trade5)"
    unfolding trade5_def by (rule went_pair) (use ev in blast)
  then have "trade_step (demo_port True) trade4 trade5" unfolding permits_def by (rule permit)
  with 4 show "reach trade_start (trade_step (demo_port True)) trade5" by (rule reach_step)
qed

section \<open>The sender\<close>

text \<open>The sender accepts the endpoint, hears of its grant, binds a running delivery and pauses the route.\<close>

definition demo_checks :: job_checks where
  "demo_checks = \<lparr>ck_trade_routes = [], ck_snapshot_bytes = 0, ck_released_at = None, ck_retired_from = None,
     ck_retirement_attempt_at = None, ck_snapshot_purged_at = None, ck_retry_base = None, ck_retry_at = None,
     ck_first_failure_at = None, ck_destinations = [], ck_destination_revisions = [],
     ck_import_storage_revision = None, ck_source_revoked_at = None\<rparr>"

definition demo_sending :: djob where
  "demo_sending = \<lparr>jb_id = lit ''j'', jb_tenant = [], jb_token_generation = 0, jb_actor = lit ''sender'',
     jb_credential_version = 1, jb_automation_token_id = None, jb_actor_human = None, jb_request = demo_request,
     jb_project = demo_project\<lparr>pj_destinations := [lit ''o'']\<rparr>, jb_state = Exporting, jb_manifest = None,
     jb_approved_by = None, jb_attempts = 1, jb_created_at = 0, jb_updated_at = 0, jb_error = None,
     jb_checks = demo_checks, jb_received = None, jb_reprocessed_from = None, jb_reprocessed_as = None\<rparr>"

definition demo_outgoing :: port_route where
  "demo_outgoing = \<lparr>tr_tenant = [], tr_direction = outgoing, tr_state = st_pending, tr_cancel_active = False,
     tr_remote_grant = [], tr_peer_key = key_hex demo_trade_stmts True, tr_endpoint = lit ''l'',
     tr_forwarding = False, tr_metadata_keys = [lit ''title''], tr_notifications = \<lparr>np_mode = Off, np_rules = []\<rparr>,
     po_revision = 1, po_name = lit ''Dailies'', po_peer_name = lit ''Receiver'', po_address = lit ''https://r'',
     po_endpoint_name = lit ''Dailies'', po_category = lit ''external'', po_last_contact = None, po_error = None,
     po_remote_state = [], po_credential = token 0, po_enrollment = None\<rparr>"

definition sent0 :: trade_store where
  "sent0 = with_jobs (\<lambda>j. j\<lparr>jobs := [(lit ''j'', \<lparr>jr_owner = lit ''w'', jr_not_before = 0, jr_token = lit ''t'',
     jr_job = demo_sending\<rparr>)]\<rparr>) trade0"
definition sent1 :: trade_store where "sent1 = projr (save_outgoing_trade (lit ''o'') demo_outgoing sent0)"
definition sent2 :: trade_store where "sent2 = finish_trade_enrollment [] (lit ''o'') (lit ''g'') st_active sent1"
definition sent3 :: trade_store where
  "sent3 = projr (bind_outbound_route (demo_port False) (lit ''j'') (lit ''o'') (lit ''https://r'') (lit ''r'')
     (key_hex demo_trade_stmts True) demo_delivery sent2)"

definition pauses :: "trade_store \<Rightarrow> trade_error + (port_route \<times> trade_store)" where
  "pauses = update_trade_route (demo_port False) [] (lit ''o'') 1 st_paused True \<lparr>np_mode = Off, np_rules = []\<rparr> 20"

definition sent4 :: trade_store where "sent4 = snd (projr (pauses sent3))"
definition sent5 :: trade_store where "sent5 = snd (claim_route_revocation (demo_port False) 30 sent4)"

definition lets_go :: "trade_store \<Rightarrow> bool" where
  "lets_go s \<longleftrightarrow> trade_check_destination (jobs_of s) demo_sending (lit ''o'') = Inr ()"

lemma sender_evaluated_let:
  "let x1 = save_outgoing_trade (lit ''o'') demo_outgoing sent0; s1 = projr x1;
       s2 = finish_trade_enrollment [] (lit ''o'') (lit ''g'') st_active s1;
       x3 = bind_outbound_route (demo_port False) (lit ''j'') (lit ''o'') (lit ''https://r'') (lit ''r'')
              (key_hex demo_trade_stmts True) demo_delivery s2; s3 = projr x3;
       x4 = pauses s3; s4 = snd (projr x4); x5 = claim_route_revocation (demo_port False) 30 s4; s5 = snd x5
   in went x1 \<and> went x3 \<and> went x4
   \<and> map_of (tp_routes s1) (lit ''o'') = Some demo_outgoing
   \<and> map_option (\<lambda>r. (tr_state r, tr_direction r, po_credential r)) (map_of (tp_routes s2) (lit ''o''))
      = Some (st_active, outgoing, token 0)
   \<and> went (trade_contact [] (lit ''o'') (lit ''unreachable'') (Some (lit ''timed out'')) 30 s4)
   \<and> lets_go s3 \<and> \<not> lets_go s4
   \<and> map outbound_key (outbound_routes (jobs_of s4)) = [(lit ''j'', lit ''o'')]
   \<and> map_option (\<lambda>r. (tr_state r, tr_direction r, tr_cancel_active r)) (map_of (tp_routes s4) (lit ''o''))
      = Some (st_paused, outgoing, True)
   \<and> job_in (jobs_of s4) (lit ''j'') = Some demo_sending
   \<and> map_option (\<lambda>c. (oc_job_id c, oc_destination c, oc_attempts c)) (fst x5) = Some (lit ''j'', lit ''o'', 1)"
  by code_simp

lemmas sender_evaluated = sender_evaluated_let [unfolded Let_def, folded sent1_def, folded sent2_def,
    folded sent3_def, folded sent4_def, folded sent5_def]

lemma sent_reach:
  "reach trade_start (trade_step (demo_port False)) sent3" "reach trade_start (trade_step (demo_port False)) sent4"
proof -
  note ev = sender_evaluated
  have 0: "reach trade_start (trade_step (demo_port False)) sent0"
    by (rule reach_init)
      (simp add: trade_start_def sent0_def trade0_def demo_store_def demo_jobs_store_def jobs_of_def with_jobs_def)
  have acc: "accepted_route demo_outgoing" by (simp add: accepted_route_def demo_outgoing_def)
  have 1: "reach trade_start (trade_step (demo_port False)) sent1"
    by (rule reach_step [OF 0]) (unfold sent1_def, rule accept [OF wentD acc], use ev in blast)
  have 2: "reach trade_start (trade_step (demo_port False)) sent2"
    unfolding sent2_def
    by (rule reach_step [OF 1], rule trade_step.enrolled [of _ _ demo_outgoing]) (use ev in \<open>blast, simp_all add: demo_outgoing_def\<close>)
  show 3: "reach trade_start (trade_step (demo_port False)) sent3"
    by (rule reach_step [OF 2]) (unfold sent3_def, rule bind_job, rule wentD, use ev in blast)
  have "pauses sent3 = Inr (fst (projr (pauses sent3)), sent4)"
    unfolding sent4_def by (rule went_pair) (use ev in blast)
  then have "trade_step (demo_port False) sent3 sent4" unfolding pauses_def by (rule permit)
  with 3 show "reach trade_start (trade_step (demo_port False)) sent4" by (rule reach_step)
qed

section \<open>Two rotations\<close>

text \<open>The first rotation runs through; the reply to the second is lost.\<close>

definition turn1 :: trade_store where
  "turn1 = snd (projr (pending_trade_rotation [] (lit ''o'') (token 1) sent2))"
definition turn2 :: trade_store where
  "turn2 = projr (rotate_trade_credential (demo_port True) (lit ''g'') (token 0) (token 1) trade3)"
definition turn3 :: trade_store where
  "turn3 = projr (rotate_trade_credential (demo_port True) (lit ''o'') (token 0) (token 1) turn1)"
definition turn4 :: trade_store where
  "turn4 = snd (projr (pending_trade_rotation [] (lit ''o'') (token 2) (clear_trade_rotation (lit ''o'') (token 1) turn3)))"
definition turn5 :: trade_store where
  "turn5 = projr (rotate_trade_credential (demo_port True) (lit ''g'') (token 1) (token 2) turn2)"

definition pairing :: "trade_store \<Rightarrow> trade_store \<Rightarrow> rstr list \<Rightarrow> (rstr \<times> rstr) list \<Rightarrow> (rstr \<times> rstr) list \<Rightarrow> rstr list \<Rightarrow> rstr list \<Rightarrow> rotation" where
  "pairing s r known sent replies taken drawn = \<lparr>ro_sender = s, ro_receiver = r, ro_read = set known, ro_asked = {},
     ro_sent = set sent, ro_replies = set replies, ro_polls = {}, ro_taken = set taken, ro_drawn = drawn\<rparr>"

definition late :: rotation where
  "late = pairing turn4 turn5 [token 1, token 0] [(token 1, token 2), (token 0, token 1)]
     [(token 1, token 2), (token 0, token 1)] [token 1] [token 0, token 1, token 2]"

lemma turns_evaluated_let:
  "let s0 = finish_trade_enrollment [] (lit ''o'') (lit ''g'') st_active
              (projr (save_outgoing_trade (lit ''o'') demo_outgoing sent0));
       r0 = snd (snd (projr (redeem_trade_invitation (demo_port True) demo_enrol 10 (lit ''g'')
              (projr (create_trade_invitation (demo_port True) [] (lit ''l'') (key_hex demo_trade_stmts False) 1000 10
                 (lit ''inv'') (lit ''s'') (projr (create_trade_endpoint (lit ''l'') demo_endpoint trade0)))))));
       x1 = pending_trade_rotation [] (lit ''o'') (token 1) s0; s1 = snd (projr x1);
       x2 = rotate_trade_credential (demo_port True) (lit ''g'') (token 0) (token 1) r0; r1 = projr x2;
       x3 = rotate_trade_credential (demo_port True) (lit ''o'') (token 0) (token 1) s1; s2 = projr x3;
       s3 = clear_trade_rotation (lit ''o'') (token 1) s2;
       x4 = pending_trade_rotation [] (lit ''o'') (token 2) s3; s4 = snd (projr x4);
       x5 = rotate_trade_credential (demo_port True) (lit ''g'') (token 1) (token 2) r1; r2 = projr x5
   in went x1 \<and> went x2 \<and> went x3 \<and> went x4 \<and> went x5 \<and> fst (projr x1) = token 1 \<and> fst (projr x4) = token 2
   \<and> map_option (\<lambda>r. (tr_tenant r, tr_direction r, po_credential r)) (map_of (tp_routes s0) (lit ''o'')) = Some ([], outgoing, token 0)
   \<and> map_option (\<lambda>r. (tr_direction r, po_credential r)) (map_of (tp_routes r0) (lit ''g'')) = Some (incoming, trade_secret_hash demo_trade_stmts (token 0))
   \<and> map_of (tp_rotations s0) (lit ''o'') = None \<and> map_of (tp_rotations s3) (lit ''o'') = None
   \<and> trade_credential [] (lit ''o'') s0 = Some (token 0) \<and> trade_credential [] (lit ''o'') s3 = Some (token 1)
   \<and> trade_credential [] (lit ''o'') s4 = Some (token 1) \<and> map_of (tp_rotations s4) (lit ''o'') = Some (token 2)
   \<and> credential_of r2 (lit ''g'') = Some (trade_secret_hash demo_trade_stmts (token 2))"
  by code_simp

lemmas turns_evaluated = turns_evaluated_let [unfolded Let_def, folded trade1_def, folded trade2_def, folded trade3_def
    sent1_def, folded sent2_def, folded turn1_def turn2_def, folded turn3_def, folded turn4_def turn5_def]

lemma tokens_evaluated:
  "valid_hex (token 0) 32 \<and> valid_hex (token 1) 32 \<and> valid_hex (token 2) 32 \<and> valid_hex (token 3) 32
   \<and> new_token (demo_port True) [token 0] (token 1) \<and> new_token (demo_port True) [token 0, token 1] (token 2)
   \<and> new_token (demo_port True) [token 0, token 1, token 2] (token 3) \<and> token 0 \<noteq> token 1 \<and> token 2 \<noteq> token 1"
  by code_simp

lemma went_first: "went x \<Longrightarrow> fst (projr x) = v \<Longrightarrow> x = Inr (v, snd (projr x))"
  using wentD by force

lemma late_reach:
  "reach (enrolled (demo_port True) [] (lit ''o'') (lit ''g'')) (rotation_step (demo_port True) [] (lit ''o'') (lit ''g'')) late"
proof -
  let ?R = "reach (enrolled (demo_port True) [] (lit ''o'') (lit ''g'')) (rotation_step (demo_port True) [] (lit ''o'') (lit ''g''))"
  note ev = turns_evaluated and tk = tokens_evaluated
  have lib: "tl_stmts (demo_port True) = demo_trade_stmts" by (simp add: demo_port_def)
  have 0: "?R (pairing sent2 trade3 [] [] [] [] [token 0])"
    by (rule reach_init)
      (use ev tk in \<open>auto simp: enrolled_def pairing_def lib map_option_case split: option.splits\<close>)
  have 1: "?R (pairing sent2 trade3 [token 0] [] [] [] [token 0])"
    using reach_step [OF 0 read, of "token 0"] ev by (simp add: pairing_def)
  have p: "pending_trade_rotation [] (lit ''o'') (token 1) sent2 = Inr (token 1, turn1)"
    unfolding turn1_def by (rule went_first) (use ev in blast)+
  have 2: "?R (pairing turn1 trade3 [token 0] [(token 0, token 1)] [] [] [token 0, token 1])"
    using reach_step [OF 1 send, of "token 0" "token 1" "token 1" turn1] ev tk p by (simp add: pairing_def)
  have r: "rotate_trade_credential (demo_port True) (lit ''g'') (token 0) (token 1) trade3 = Inr turn2"
    using ev wentD unfolding turn2_def by blast
  have 3: "?R (pairing turn1 turn2 [token 0] [(token 0, token 1)] [(token 0, token 1)] [] [token 0, token 1])"
    using reach_step [OF 2 deliver, of "token 0" "token 1" turn2] r by (simp add: pairing_def)
  have s: "rotate_trade_credential (demo_port True) (lit ''o'') (token 0) (token 1) turn1 = Inr turn3"
    using ev wentD unfolding turn3_def by blast
  let ?t = "clear_trade_rotation (lit ''o'') (token 1) turn3"
  have "?R (pairing turn3 turn2 [token 0] [(token 0, token 1)] [(token 0, token 1)] [token 1] [token 0, token 1])"
    using reach_step [OF 3 take_over, of "token 0" "token 1" turn3] s by (simp add: pairing_def)
  from reach_step [OF this forget, of "token 1"]
  have 4: "?R (pairing ?t turn2 [token 0] [(token 0, token 1)] [(token 0, token 1)] [token 1] [token 0, token 1])"
    by (simp add: pairing_def)
  have 5: "?R (pairing ?t turn2 [token 1, token 0] [(token 0, token 1)] [(token 0, token 1)] [token 1] [token 0, token 1])"
    using reach_step [OF 4 read, of "token 1"] ev by (simp add: pairing_def)
  have p: "pending_trade_rotation [] (lit ''o'') (token 2) ?t = Inr (token 2, turn4)"
    unfolding turn4_def by (rule went_first) (use ev in blast)+
  have 6: "?R (pairing turn4 turn2 [token 1, token 0] [(token 1, token 2), (token 0, token 1)] [(token 0, token 1)]
      [token 1] [token 0, token 1, token 2])"
    using reach_step [OF 5 send, of "token 1" "token 2" "token 2" turn4] ev tk p by (simp add: pairing_def)
  have r: "rotate_trade_credential (demo_port True) (lit ''g'') (token 1) (token 2) turn2 = Inr turn5"
    using ev wentD unfolding turn5_def by blast
  show ?thesis
    unfolding late_def using reach_step [OF 6 deliver, of "token 1" "token 2" turn5] r by (simp add: pairing_def)
qed

end
