(* ===== verification/TradeProperties.thy ===== *)
theory TradeProperties
  imports TradeDemo TradeBound
begin

text \<open>
  What the owners of two ports can rely on: how a route comes about, what may be delivered over it,
  that it stays revoked, and that a rotation of its credential never shuts the sender out, unless
  a status poll races with two rotations.
\<close>

section \<open>Routes\<close>

text \<open>C: A tenant never has more than a hundred routes that are not revoked, and at the hundredth
  neither a new enrolment nor an acceptance is stored.\<close>

theorem live_routes_are_bounded:
  assumes "reach trade_start (trade_step lib) s"
  shows "live_routes s tenant \<le> 100
    \<and> (live_routes s tenant = 100 \<longrightarrow> tr_tenant r = tenant \<longrightarrow> save_outgoing_trade i r s \<noteq> Inr t)
    \<and> (live_routes s tenant = 100 \<longrightarrow> vi_tenant v = tenant \<longrightarrow> redeem_new lib m v c name now i s \<noteq> Inr u)"
proof -
  have "trade_ok s" by (rule trades.reach_inv [OF assms])
  then show ?thesis by (auto simp: trade_ok_def save_outgoing_trade_def redeem_new_def split: sum.splits)
qed

lemma live_routes_are_bounded_witness: "live_routes trade4 [] = 1 \<and> live_routes trade4 [] \<le> 100"
  using live_routes_are_bounded [OF trade_reach(1), of "[]"] trade_evaluated by blast

lemma route_found: "contains_key k m \<Longrightarrow> \<exists>v. map_of m k = Some v"
  by auto

lemma state_names: "st_active \<noteq> st_revoked" "lit ''active'' = st_active" "lit ''outgoing'' = outgoing" "outgoing \<noteq> incoming"
  by code_simp+

text \<open>C13: C: A revocation is final: from any reachable state in which a route is revoked it stays revoked
  whatever happens, no new delivery is admitted by its grant, and no delivery that is not yet bound to it
  may start.\<close>

theorem revocation_is_final:
  assumes reached: "reach trade_start (trade_step lib) s" and steps: "(trade_step lib)\<^sup>*\<^sup>* s t"
    and r: "map_of (tp_routes s) i = Some r" "tr_state r = st_revoked"
  shows "(\<exists>r'. map_of (tp_routes t) i = Some r' \<and> tr_state r' = st_revoked \<and> tr_peer_key r' = tr_peer_key r)
    \<and> (rd_permission (sr_document source) = Some p \<longrightarrow> rp_grant p = i \<longrightarrow>
        admit_route lib t source ancestry link credential False \<noteq> Inr ())
    \<and> (\<not> destination_complete j i \<longrightarrow> (jb_id j, i) \<notin> outbound_key ` set (outbound_routes (jobs_of t)) \<longrightarrow>
        trade_check_destination (jobs_of t) j i = Inl RouteInactive)"
proof -
  have "trade_ok s" by (rule trades.reach_inv [OF reached])
  from trade_steps_kept [OF steps this] have ok: "trade_ok t" and k: "routes_kept s t" by simp_all
  from k r(1) obtain r' where r': "map_of (tp_routes t) i = Some r'" "route_kept r r'" by (rule kept_lookup)
  then have st: "tr_state r' = st_revoked" "tr_peer_key r' = tr_peer_key r" using r(2) by (simp_all add: route_kept_def)
  have "map_of (trade_routes (jobs_of t)) i = Some (trade_route.truncate r')"
    using ok r'(1) by (simp add: trade_ok_def mirrored_def map_of_map_values)
  moreover have "tr_state (trade_route.truncate r') = st_revoked" by (simp add: trade_route.truncate_def st)
  moreover have "filter (\<lambda>x. ob_job_id x = jb_id j \<and> ob_destination_id x = i) (outbound_routes (jobs_of t)) = []"
    if "(jb_id j, i) \<notin> outbound_key ` set (outbound_routes (jobs_of t))"
    using that by (force simp: filter_empty_conv outbound_key_def)
  ultimately have "trade_check_destination (jobs_of t) j i = Inl RouteInactive"
    if "\<not> destination_complete j i" "(jb_id j, i) \<notin> outbound_key ` set (outbound_routes (jobs_of t))"
    using that state_names by (simp add: trade_check_destination_def Let_def)
  moreover have "admit_route lib t source ancestry link credential False \<noteq> Inr ()"
    if "rd_permission (sr_document source) = Some p" "rp_grant p = i"
    using that r'(1) st(1) state_names by (auto simp: admit_route_def route_in_def split: option.splits)
  ultimately show ?thesis using r'(1) st by blast
qed

lemma revocation_is_final_witness:
  "\<exists>r. map_of (tp_routes trade5) (lit ''g'') = Some r \<and> tr_state r = st_revoked"
proof -
  from trade_evaluated obtain r where r: "map_of (tp_routes trade5) (lit ''g'') = Some r" "tr_state r = st_revoked"
    by (auto simp: map_option_case split: option.splits)
  from revocation_is_final [OF trade_reach(2) rtranclp.rtrancl_refl r] r
  show ?thesis by blast
qed

text \<open>C14: C: Every delivery that reached a managed endpoint was signed by the peer that was enrolled for
  it: it names an incoming route to that endpoint, its signature verifies under the key of the peer of
  that route, it forwards only if the route allows it, and neither it nor a delivery of its custody
  chain carries metadata that the route did not ask for. A delivery to any other request names no
  route. Every delivery of either kind is addressed to this port, and its custody chain is verified.\<close>

theorem endpoints_receive_enrolled_peers:
  assumes "reach trade_start (trade_step lib) s" and d: "map_of (us_routes (tp_base s)) i = Some d"
  shows "(if contains_key (rt_link_id d) (tp_endpoints s)
      then \<exists>p r. rd_permission (sr_document (rt_source d)) = Some p
        \<and> map_of (tp_routes s) (rp_grant p) = Some r
        \<and> tr_direction r = incoming \<and> tr_endpoint r = rt_link_id d
        \<and> tr_peer_key r = rd_issuer (sr_document (rt_source d))
        \<and> verify_route_signature (tl_stmts lib) (tr_peer_key r) (sr_signature (rt_source d))
            (route_text (tl_stmts lib) (sr_document (rt_source d)))
        \<and> (rp_forwarding p \<longrightarrow> tr_forwarding r)
        \<and> set (metadata_keys (rt_source d)) \<subseteq> set (tr_metadata_keys r)
        \<and> (\<forall>a \<in> set (ancestry_of s i). set (metadata_keys (rc_source (rr_document a))) \<subseteq> set (tr_metadata_keys r))
      else rd_permission (sr_document (rt_source d)) = None)
    \<and> admits (tl_stmts lib) (rt_source d) (key_hex (tl_stmts lib) (tl_key lib))
    \<and> verify_ancestry (tl_stmts lib) (rt_source d) (ancestry_of s i)"
proof -
  from signed.reach_inv [OF assms(1)] have ok: "trade_ok s" "signed_ok lib s" by blast+
  note in' = map_of_SomeD [OF d]
  with ok have io: "inbound_ok s d" and sig: "admits (tl_stmts lib) (rt_source d) (key_hex (tl_stmts lib) (tl_key lib))"
    "verify_ancestry (tl_stmts lib) (rt_source d) (ancestry_of s i)" "lineage_allowed s (rt_source d) (ancestry_of s i)"
    by (auto simp: trade_ok_def signed_ok_def)
  have v: "verify_route_signature (tl_stmts lib) (rd_issuer (sr_document (rt_source d))) (sr_signature (rt_source d))
      (route_text (tl_stmts lib) (sr_document (rt_source d)))"
    using sig(1) by (simp add: admits_def verify_route_def)
  show ?thesis
  proof (cases "contains_key (rt_link_id d) (tp_endpoints s)")
    case True
    with io obtain p r where p: "rd_permission (sr_document (rt_source d)) = Some p" "map_of (tp_routes s) (rp_grant p) = Some r"
      "tr_direction r = incoming" "tr_endpoint r = rt_link_id d" "tr_peer_key r = rd_issuer (sr_document (rt_source d))"
      "rp_forwarding p \<longrightarrow> tr_forwarding r" "set (metadata_keys (rt_source d)) \<subseteq> set (tr_metadata_keys r)"
      unfolding inbound_ok_def by auto
    from sig(3) p(1,2)
    have "\<forall>a \<in> set (ancestry_of s i). set (metadata_keys (rc_source (rr_document a))) \<subseteq> set (tr_metadata_keys r)"
      by (auto simp: lineage_allowed_def)
    with True p v sig(1,2) show ?thesis by (simp del: contains_key_map_of)
  qed (use io sig in \<open>simp add: inbound_ok_def\<close>)
qed

lemma endpoints_receive_enrolled_peers_witness:
  "\<exists>d p r. map_of (us_routes (tp_base trade4)) (lit ''r'') = Some d
     \<and> rd_permission (sr_document (rt_source d)) = Some p \<and> map_of (tp_routes trade4) (rp_grant p) = Some r
     \<and> tr_peer_key r = rd_issuer (sr_document (rt_source d))
     \<and> verify_route_signature (tl_stmts (demo_port True)) (tr_peer_key r) (sr_signature (rt_source d))
          (route_text (tl_stmts (demo_port True)) (sr_document (rt_source d)))"
proof -
  have "map fst (us_routes (tp_base trade4)) = [lit ''r'']" using trade_evaluated by blast
  then obtain d where u: "us_routes (tp_base trade4) = [(lit ''r'', d)]" by auto
  then have d: "map_of (us_routes (tp_base trade4)) (lit ''r'') = Some d" by simp
  have "map (\<lambda>(i, d). contains_key (rt_link_id d) (tp_endpoints trade4)) (us_routes (tp_base trade4)) = [True]"
    using trade_evaluated by blast
  with u have "contains_key (rt_link_id d) (tp_endpoints trade4)" by simp
  with endpoints_receive_enrolled_peers [OF trade_reach(1) d, THEN conjunct1] d show ?thesis by (simp only: if_True) blast
qed

lemma redeemed_unique:
  assumes "distinct (List.map_filter (f \<circ> snd) xs)" "map_of xs k = Some v" "map_of xs l = Some w"
    "f v = Some x" "f w = Some x"
  shows "k = l"
proof -
  have in': "x \<in> set (List.map_filter (f \<circ> snd) ys)" if "map_of ys m = Some u" "f u = Some x" for ys m u
    using map_of_SomeD [OF that(1)] that(2) by (force simp: map_filter_def)
  show ?thesis
    using assms(1-3)
    by (induction xs) (auto simp: map_filter_simps assms(4,5) dest: in' [OF _ assms(4)] in' [OF _ assms(5)]
      split: option.splits if_splits)
qed

text \<open>C15: C: An invitation enrols one route: once it is redeemed, a further redemption succeeds only for
  the same peer with the same credential and gives the same route, leaving every table as it was, and no
  two invitations share a route. The route belongs to the tenant and the endpoint that the
  invitation named, and to the expected peer where it named one.\<close>

theorem invitations_enroll_once:
  assumes "reach trade_start (trade_step lib) s"
    and v: "map_of (tp_invitations s) k = Some v" "vi_redeemed v = Some i"
  shows "\<exists>r. map_of (tp_routes s) i = Some r \<and> tr_tenant r = vi_tenant v \<and> tr_direction r = incoming
      \<and> tr_endpoint r = vi_endpoint v \<and> (vi_expected_key v \<noteq> [] \<longrightarrow> tr_peer_key r = vi_expected_key v)
      \<and> (pm_nonce (sp_document m) = k \<longrightarrow> redeem_trade_invitation lib m now fresh s = Inr (j, b, t) \<longrightarrow>
           j = i \<and> \<not> b \<and> t = s \<and> issuer_of m = tr_peer_key r
           \<and> (\<exists>c. body_str m ''credential'' = Some c \<and> po_credential r = trade_secret_hash (tl_stmts lib) c))
      \<and> (map_of (tp_invitations s) l = Some w \<longrightarrow> vi_redeemed w = Some i \<longrightarrow> l = k)"
proof -
  have ok: "trade_ok s" by (rule trades.reach_inv [OF assms(1)])
  with map_of_SomeD [OF v(1)] have "invitation_ok s v" by (auto simp: trade_ok_def)
  with v(2) obtain r where r: "map_of (tp_routes s) i = Some r" "tr_tenant r = vi_tenant v" "tr_direction r = incoming"
    "tr_endpoint r = vi_endpoint v" "vi_expected_key v \<noteq> [] \<longrightarrow> tr_peer_key r = vi_expected_key v"
    by (auto simp: invitation_ok_def)
  have d: "distinct (List.map_filter (vi_redeemed \<circ> snd) (tp_invitations s))"
    using ok by (simp add: trade_ok_def redeemed_routes_def)
  have "j = i \<and> \<not> b \<and> t = s \<and> issuer_of m = tr_peer_key r
     \<and> (\<exists>c. body_str m ''credential'' = Some c \<and> po_credential r = trade_secret_hash (tl_stmts lib) c)"
    if n: "pm_nonce (sp_document m) = k" and c: "redeem_trade_invitation lib m now fresh s = Inr (j, b, t)"
  proof -
    from c obtain secret credential name where e: "enrollment_of lib m now = Inr (secret, credential, name)"
      and again: "redeem_again s i (trade_secret_hash (tl_stmts lib) credential) (issuer_of m) = Inr (j, b, t)"
      unfolding redeem_trade_invitation_def n v(1)
      by (auto simp: Let_def v(2) split: sum.splits if_splits)
    from e have "body_str m ''credential'' = Some credential"
      by (auto simp: enrollment_of_def split: option.splits if_splits)
    with again r(1) show ?thesis by (auto simp: redeem_again_def route_in_def split: if_splits)
  qed
  with r redeemed_unique [OF d _ v(1) _ v(2)] show ?thesis by blast
qed

lemma invitations_enroll_once_witness:
  "\<exists>j b. redeem_trade_invitation (demo_port True) demo_enrol 11 (lit ''h'') trade4 = Inr (j, b, trade4) \<and> j = lit ''g''"
proof -
  have "map (\<lambda>(i, v). (i, vi_redeemed v)) (tp_invitations trade4) = [(lit ''inv'', Some (lit ''g''))]"
    using trade_evaluated by blast
  then obtain v where u: "tp_invitations trade4 = [(lit ''inv'', v)]" "vi_redeemed v = Some (lit ''g'')"
    by (auto simp: map_eq_Cons_conv)
  then have v: "map_of (tp_invitations trade4) (lit ''inv'') = Some v" by simp
  have "went (redeem_trade_invitation (demo_port True) demo_enrol 11 (lit ''h'') trade4)" using trade_evaluated by blast
  then obtain j b t where c: "redeem_trade_invitation (demo_port True) demo_enrol 11 (lit ''h'') trade4 = Inr (j, b, t)"
    using went_triple by blast
  have n: "pm_nonce (sp_document demo_enrol) = lit ''inv''" by code_simp
  from invitations_enroll_once [OF trade_reach(1) v u(2), of demo_enrol 11 "lit ''h''" j b t] n c show ?thesis by blast
qed

section \<open>Cancelled routes\<close>

text \<open>C12: C: Pausing or revoking an outgoing route with cancellation leaves no delivery of it behind: right
  after, and right after a delivery is bound to a route in that state, every bound delivery whose
  destination is not complete and whose job is not suspended has a revocation for the peer
  or its acknowledgement, and may not start again.\<close>

theorem cancelled_routes_revoke_deliveries:
  assumes reached: "reach trade_start (trade_step lib) s"
    and did: "update_trade_route lib tenant i revision state stop policy now s = Inr (p, t)
      \<or> bind_outbound_route lib job i origin remote key source s = Inr t"
    and r: "map_of (tp_routes t) i = Some r" "tr_direction r = outgoing" "tr_state r \<noteq> st_active" "tr_cancel_active r"
    and row: "row \<in> set (outbound_routes (jobs_of t))" "ob_destination_id row = i"
    and j: "job_in (jobs_of t) (ob_job_id row) = Some j" "jb_id j = ob_job_id row" "jb_state j \<noteq> Suspended"
      "\<not> destination_complete j i"
  shows "(ob_revocation row \<noteq> None \<or> ob_ack row \<noteq> None) \<and> trade_check_destination (jobs_of t) j i = Inl RouteRevoked"
proof -
  have b: "bound_ok s" by (rule bound.reach_inv [OF reached])
  have "\<not> cancels t i row" using did update_queues [OF _ b row(1)] bind_queues [OF _ b row(1)] by blast
  with r row j have gone: "ob_revocation row \<noteq> None \<or> ob_ack row \<noteq> None" by (auto simp: cancels_def)
  have "trade_ok s" by (rule trades.reach_inv [OF reached])
  with did have "trade_ok t" using update_route_ok bind_outbound_ok by blast
  then have "map_of (trade_routes (jobs_of t)) i = Some (trade_route.truncate r)"
    using r(1) by (simp add: trade_ok_def mirrored_def map_of_map_values)
  moreover have "row \<in> set (filter (\<lambda>x. ob_job_id x = jb_id j \<and> ob_destination_id x = i) (outbound_routes (jobs_of t)))"
    using row j(2) by simp
  then have "list_ex (\<lambda>x. ob_revocation x \<noteq> None \<or> ob_ack x \<noteq> None)
      (filter (\<lambda>x. ob_job_id x = jb_id j \<and> ob_destination_id x = i) (outbound_routes (jobs_of t)))"
    using gone unfolding list_ex_iff by blast
  ultimately show ?thesis using gone j(4) by (simp add: trade_check_destination_def Let_def)
qed

lemma cancelled_routes_revoke_deliveries_witness:
  "trade_check_destination (jobs_of sent4) demo_sending (lit ''o'') = Inl RouteRevoked"
proof -
  have "went (pauses sent3)" using sender_evaluated by blast
  then obtain p where p: "pauses sent3 = Inr (p, sent4)" using went_pair unfolding sent4_def by blast
  obtain r where r: "map_of (tp_routes sent4) (lit ''o'') = Some r" "tr_state r = st_paused" "tr_direction r = outgoing"
    "tr_cancel_active r"
    using sender_evaluated by (auto simp: map_option_case split: option.splits)
  have "map outbound_key (outbound_routes (jobs_of sent4)) = [(lit ''j'', lit ''o'')]" using sender_evaluated by blast
  then obtain row where row: "row \<in> set (outbound_routes (jobs_of sent4))" "ob_destination_id row = lit ''o''"
    "ob_job_id row = lit ''j''" by (auto simp: outbound_key_def map_eq_Cons_conv)
  have j: "job_in (jobs_of sent4) (ob_job_id row) = Some demo_sending" using sender_evaluated row(3) by simp
  have d: "jb_id demo_sending = ob_job_id row" "jb_state demo_sending \<noteq> Suspended"
    "\<not> destination_complete demo_sending (lit ''o'')"
    by (simp_all add: demo_sending_def row(3) destination_complete_def demo_checks_def)
  have st: "st_paused \<noteq> st_active" by code_simp
  show ?thesis
    using cancelled_routes_revoke_deliveries [OF sent_reach(1) disjI1 [OF p [unfolded pauses_def]] r(1,3) _ r(4) row(1,2) j d]
      r(2) st by simp
qed

section \<open>Deliveries\<close>

lemma find_snoc: "find P xs = None \<Longrightarrow> P x \<Longrightarrow> find P (xs @ [x]) = Some x"
  by (induction xs) (auto split: if_splits)

lemma receive_twice:
  assumes "receive_route_authorized lib tenant link source ancestry credential now i s = Inr (k, t)"
  obtains d where "previous_route t link source = Some (k, d)" "rt_source d = source" "ancestry_of t k = ancestry"
    "map_of (links (jobs_of t)) link = Some tenant" "admit_route lib t source ancestry link credential True = Inr ()"
    "admits (tl_stmts lib) source (key_hex (tl_stmts lib) (tl_key lib))" "verify_ancestry (tl_stmts lib) source ancestry"
proof -
  have a: "admits (tl_stmts lib) source (key_hex (tl_stmts lib) (tl_key lib))" "verify_ancestry (tl_stmts lib) source ancestry"
    "map_of (links (jobs_of s)) link = Some tenant"
    and ad: "admit_route lib s source ancestry link credential (previous_route s link source \<noteq> None) = Inr ()"
    using assms by (simp_all add: receive_route_authorized_def Let_def split: if_splits sum.splits)
  have "admit_route lib u source ancestry link credential True = Inr ()"
    if "tp_routes u = tp_routes s" "tp_endpoints u = tp_endpoints s" for u
    using ad that unfolding admit_route_def route_in_def
    by (auto split: option.splits if_splits)
  note ad' = this
  show thesis using assms
  proof (cases rule: receive_Inr)
    case (1 d)
    then have "ancestry_of s k = ancestry"
      using assms a ad by (simp add: receive_route_authorized_def Let_def split: if_splits)
    with 1 a show ?thesis by (intro that [of d]) (simp_all add: ad')
  next
    case 2
    let ?d = "\<lparr>rt_link_id = link, rt_session_id = None, rt_source = source, rt_receipt = None\<rparr>"
    have u: "us_routes (tp_base t) = us_routes (tp_base s) @ [(i, ?d)]" using 2 by (simp add: update_fresh)
    have "previous_route t link source = Some (i, ?d)"
      using find_snoc [OF 2(1) [unfolded previous_route_def]] unfolding previous_route_def u by (simp add: route_name_def)
    moreover have "ancestry_of t i = ancestry"
      by (simp add: 2(5) ancestry_of_def insert_inbound_def Let_def map_of_update split: option.split)
    ultimately show ?thesis using 2 a by (intro that [of ?d]) (simp_all add: ad')
  qed
qed

text \<open>C16: C: Delivering is idempotent: a delivery that was accepted is accepted again, at any later time
  and with whatever fresh identifier, gives the same route and changes nothing; another delivery under the
  same request, sender and operation is refused.\<close>

theorem repeated_deliveries_change_nothing:
  assumes "receive_route_authorized lib tenant link source ancestry credential now i s = Inr (k, t)"
  shows "receive_route_authorized lib tenant link source ancestry credential later i' t = Inr (k, t)
    \<and> (rd_issuer (sr_document other) = rd_issuer (sr_document source)
        \<longrightarrow> rd_operation_id (sr_document other) = rd_operation_id (sr_document source)
        \<longrightarrow> (other, lineage) \<noteq> (source, ancestry)
        \<longrightarrow> receive_route_authorized lib tenant link other lineage proof' later i' t \<noteq> Inr x)"
proof -
  from assms obtain d where d: "previous_route t link source = Some (k, d)" "rt_source d = source" "ancestry_of t k = ancestry"
    and ok: "map_of (links (jobs_of t)) link = Some tenant" "admit_route lib t source ancestry link credential True = Inr ()"
    "admits (tl_stmts lib) source (key_hex (tl_stmts lib) (tl_key lib))" "verify_ancestry (tl_stmts lib) source ancestry"
    by (rule receive_twice)
  have "receive_route_authorized lib tenant link source ancestry credential later i' t = Inr (k, t)"
    using d ok by (simp add: receive_route_authorized_def Let_def)
  moreover have "receive_route_authorized lib tenant link other lineage proof' later i' t \<noteq> Inr x"
    if "rd_issuer (sr_document other) = rd_issuer (sr_document source)"
      "rd_operation_id (sr_document other) = rd_operation_id (sr_document source)" "(other, lineage) \<noteq> (source, ancestry)"
  proof -
    have "previous_route t link other = Some (k, d)" using d(1) that by (simp add: previous_route_def)
    with d that(3) show ?thesis by (auto simp: receive_route_authorized_def Let_def split: sum.split)
  qed
  ultimately show ?thesis by blast
qed

lemma repeated_deliveries_change_nothing_witness:
  "receive_route_authorized (demo_port True) [] (lit ''l'') demo_delivery [] (Some (token 0)) 99 (lit ''x'') trade4
     = Inr (lit ''r'', trade4)"
proof -
  let ?x = "receive_route_authorized (demo_port True) [] (lit ''l'') demo_delivery [] (Some (token 0)) 10 (lit ''r'') trade3"
  have "went ?x" using trade_evaluated by blast
  then have x: "?x = Inr (fst (projr ?x), trade4)" using went_pair unfolding trade4_def by blast
  from repeated_deliveries_change_nothing [OF this]
  have again: "receive_route_authorized (demo_port True) [] (lit ''l'') demo_delivery [] (Some (token 0)) 99 (lit ''x'') trade4
    = Inr (fst (projr ?x), trade4)" by blast
  from x have "fst (projr ?x) \<in> fst ` set (us_routes (tp_base trade4))"
  proof (cases rule: receive_Inr)
    case (1 d)
    then show ?thesis by (force simp: previous_route_def dest: find_SomeD)
  next
    case 2
    show ?thesis unfolding 2(2) by (subst 2(5)) (use 2(3) in \<open>simp add: update_fresh\<close>)
  qed
  moreover have "map fst (us_routes (tp_base trade4)) = [lit ''r'']" using trade_evaluated by blast
  then have "fst ` set (us_routes (tp_base trade4)) = {lit ''r''}" by (metis list.set_map list.simps(15) empty_set)
  ultimately show ?thesis using again by simp
qed

section \<open>Revocations\<close>

lemma set_outbound_found: "map_of (tp_outbound (set_outbound k x f s)) k = Some x"
  by (simp add: map_of_update)

lemma delay_bounds: "0 < a \<Longrightarrow> 60 \<le> retry_delay a \<and> retry_delay a \<le> 3600"
proof -
  assume "0 < a"
  then have "(2::nat) ^ 1 \<le> 2 ^ min a 7" by (intro power_increasing) simp_all
  then show ?thesis by (simp add: retry_delay_def)
qed

lemma claimed:
  assumes "claim_route_revocation lib now s = (Some c, t)"
  obtains x where "map_of (tp_outbound t) (oc_job_id c, oc_destination c) = Some x" "ox_request x = Some (oc_request c)"
    "ox_attempts x = oc_attempts c" "0 < oc_attempts c" "ox_acknowledged x = None" "ox_next_attempt x = sat_add now 300"
    "jobs (jobs_of t) = jobs (jobs_of s)"
proof -
  from assms obtain job d x where e: "((job, d), x) \<in> set (filter (revocation_due s now) (tp_outbound s))"
    and c: "claim_control lib now ((job, d), x) s = (c, t)"
    by (auto simp: claim_route_revocation_def split: option.splits prod.splits dest!: min_by_key_in)
  from e have a: "ox_acknowledged x = None" by (auto simp: revocation_due_def)
  define y where "y = x\<lparr>ox_request := Some (oc_request c), ox_next_attempt := sat_add now 300, ox_attempts := oc_attempts c\<rparr>"
  have "map_of (tp_outbound t) (oc_job_id c, oc_destination c) = Some y" "jobs (jobs_of t) = jobs (jobs_of s)"
    "0 < oc_attempts c"
    using c by (auto simp: claim_control_def Let_def y_def map_of_update jobs_of_def set_outbound_def with_jobs_def
        sat_add_def u64_max_def)
  then show thesis by (intro that [of y]) (simp_all add: y_def a)
qed

text \<open>C17: C: A revocation is repeated until the peer acknowledges it. Claiming one counts the attempt and
  hides it for five minutes, whatever becomes of the worker; an attempt that fails puts it back
  after between one minute and one hour, from when on it is due again while its job exists and is
  not suspended. Only a valid acknowledgement of that very revocation ends it.\<close>

theorem revocations_are_retried:
  assumes c: "claim_route_revocation lib now s = (Some c, t)" and k: "k = (oc_job_id c, oc_destination c)"
  shows "\<exists>x. map_of (tp_outbound t) k = Some x \<and> ox_request x = Some (oc_request c) \<and> ox_acknowledged x = None
      \<and> ox_next_attempt x = sat_add now 300
      \<and> (\<exists>u y n. finish_route_revocation lib c None err later t = Inr u \<and> map_of (tp_outbound u) k = Some y
           \<and> 60 \<le> n \<and> n \<le> 3600
           \<and> (\<forall>j time. job_in (jobs_of u) (oc_job_id c) = Some j \<longrightarrow> jb_state j \<noteq> Suspended
                \<longrightarrow> (revocation_due u time (k, y) \<longleftrightarrow> sat_add later n \<le> time)))
      \<and> (\<forall>u. finish_route_revocation lib c (Some a) err later t = Inr u \<longrightarrow> verify_revoked (tl_stmts lib) a (oc_request c)
           \<and> (\<exists>y. map_of (tp_outbound u) k = Some y \<and> (\<forall>v time. \<not> revocation_due v time (k, y))))"
proof -
  from c obtain x where x: "map_of (tp_outbound t) k = Some x" "ox_request x = Some (oc_request c)"
    "ox_attempts x = oc_attempts c" "0 < oc_attempts c" "ox_acknowledged x = None" "ox_next_attempt x = sat_add now 300"
    unfolding k by (rule claimed)
  have k': "(oc_job_id c, oc_destination c) = k" by (simp add: k)
  have kept: "tp_outbound (trade_event p q r (w\<lparr>tp_revocations := m\<rparr>)) = tp_outbound w"
    "tp_outbound (w\<lparr>tp_revocations := m\<rparr>) = tp_outbound w" for p q r w m by simp_all
  let ?f = "\<lambda>ack. finish_route_revocation lib c ack err later t"
  have ended: "\<exists>y. map_of (tp_outbound u) k = Some y \<and> ox_acknowledged y = ack \<and> ox_request y = ox_request x
      \<and> ox_next_attempt y = sat_add later (retry_delay (oc_attempts c))" if "?f ack = Inr u" for ack u
    using that x(1,3,5) unfolding finish_route_revocation_def k'
    by (auto simp: Let_def map_of_update split: option.splits if_splits)
  have "\<exists>u. ?f None = Inr u" using x(1,3,5) unfolding finish_route_revocation_def k'
    by (auto simp: Let_def split: option.splits)
  then obtain u where u: "?f None = Inr u" by blast
  from ended [OF u] obtain y where y: "map_of (tp_outbound u) k = Some y" "ox_acknowledged y = None"
    "ox_request y \<noteq> None" "ox_next_attempt y = sat_add later (retry_delay (oc_attempts c))" using x(2) by auto
  have due: "revocation_due u time (k, y) \<longleftrightarrow> sat_add later (retry_delay (oc_attempts c)) \<le> time"
    if "job_in (jobs_of u) (oc_job_id c) = Some j" "jb_state j \<noteq> Suspended" for j time
    using that y by (simp add: revocation_due_def k)
  have "verify_revoked (tl_stmts lib) a (oc_request c)" if "?f (Some a) = Inr w" for w
    using that by (simp add: finish_route_revocation_def split: if_splits)
  moreover have "\<not> revocation_due v time (k, z)" if "ox_acknowledged z = Some a" for v time z
    using that by (simp add: revocation_due_def split: prod.split)
  ultimately have "\<forall>u. ?f (Some a) = Inr u \<longrightarrow> verify_revoked (tl_stmts lib) a (oc_request c)
      \<and> (\<exists>y. map_of (tp_outbound u) k = Some y \<and> (\<forall>v time. \<not> revocation_due v time (k, y)))"
    using ended by meson
  moreover have "\<exists>u y n. ?f None = Inr u \<and> map_of (tp_outbound u) k = Some y \<and> 60 \<le> n \<and> n \<le> 3600
      \<and> (\<forall>j time. job_in (jobs_of u) (oc_job_id c) = Some j \<longrightarrow> jb_state j \<noteq> Suspended
           \<longrightarrow> (revocation_due u time (k, y) \<longleftrightarrow> sat_add later n \<le> time))"
    by (intro exI [of _ u] exI [of _ y] exI [of _ "retry_delay (oc_attempts c)"])
      (use u y(1) due delay_bounds [OF x(4)] in simp)
  ultimately show ?thesis by (intro exI [of _ x]) (use x in simp)
qed

lemma revocations_are_retried_witness:
  "\<exists>u. finish_route_revocation (demo_port False) (the (fst (claim_route_revocation (demo_port False) 30 sent4))) None None 40 sent5 = Inr u"
proof -
  have "map_option (\<lambda>c. (oc_job_id c, oc_destination c, oc_attempts c)) (fst (claim_route_revocation (demo_port False) 30 sent4))
    = Some (lit ''j'', lit ''o'', 1)" using sender_evaluated by blast
  then obtain c where q: "fst (claim_route_revocation (demo_port False) 30 sent4) = Some c"
    unfolding map_option_eq_Some by blast
  then have c: "claim_route_revocation (demo_port False) 30 sent4 = (Some c, sent5)"
    unfolding sent5_def by (simp add: prod_eq_iff)
  obtain u where "finish_route_revocation (demo_port False) c None None 40 sent5 = Inr u"
    using revocations_are_retried [OF c refl, of None 40] by blast
  then show ?thesis unfolding q option.sel by blast
qed

section \<open>Credentials\<close>

lemma rotation_accepted:
  assumes "map_of (tp_routes s) g = Some r" "po_credential r \<in> {kept_as lib r c, kept_as lib r v}" "valid_hex v 32"
  shows "\<exists>t r'. rotate_trade_credential lib g c v s = Inr t \<and> map_of (tp_routes t) g = Some r'
    \<and> r' = r\<lparr>po_credential := kept_as lib r v\<rparr>"
  using assms unfolding rotate_trade_credential_def kept_as_def
  by (cases "po_credential r = kept_as lib r v") (auto simp: Let_def map_of_update kept_as_def)

text \<open>C10: C: A rotation of a credential does not shut the sender out, however often requests are repeated and
  replies lost or delayed, with any number of threads rotating and polling and their calls of the store
  in any order, as long as no status poll is overtaken by a further rotation before it settles: in every
  state so reached the receiver expects the sender's credential or the one that is pending at the sender,
  the next rotation request is accepted, and its reply brings the sender to the credential that the
  receiver then expects. (What an overtaken poll does is the property of stale polls below.)\<close>

theorem rotation_never_locks_out:
  assumes "reach (enrolled lib tenant i g) (rotation_step lib tenant i g) x" and fresh: "valid_hex fresh 32"
  shows "\<exists>c v s. trade_credential tenant i (ro_sender x) = Some c
    \<and> pending_trade_rotation tenant i fresh (ro_sender x) = Inr (v, s)
    \<and> credential_of (ro_receiver x) g \<in> Some ` trade_secret_hash (tl_stmts lib) ` {c, v}
    \<and> (\<exists>r. rotate_trade_credential lib g c v (ro_receiver x) = Inr r
         \<and> credential_of r g = Some (trade_secret_hash (tl_stmts lib) v))
    \<and> (\<exists>t. rotate_trade_credential lib i c v s = Inr t \<and> trade_credential tenant i t = Some v)"
proof -
  let ?h = "trade_secret_hash (tl_stmts lib)"
  have "rotation_ok lib tenant i g x" by (rule rotations.reach_inv [OF assms(1)])
  then obtain k j where p: "at_places lib tenant i g k j x" by (auto simp: rotation_ok_def)
  let ?H = "ro_drawn x"
  from p obtain r r' where r: "map_of (tp_routes (ro_sender x)) i = Some r" "tr_direction r = outgoing" "tr_tenant r = tenant"
      "po_credential r = ?H ! k"
    and r': "map_of (tp_routes (ro_receiver x)) g = Some r'" "tr_direction r' = incoming" "po_credential r' = ?h (?H ! j)"
    and kj: "k \<le> j" "j < length ?H"
    and pend: "length ?H = k + 1 \<and> map_of (tp_rotations (ro_sender x)) i \<in> {None, Some (?H ! k)}
        \<or> length ?H = k + 2 \<and> map_of (tp_rotations (ro_sender x)) i = Some (?H ! (k + 1))"
    and tk: "\<forall>c \<in> set ?H. valid_hex c 32"
    unfolding at_places_def sender_at_def receiver_at_def tokens_ok_def list_all_iff by blast
  have side: "outgoing \<noteq> incoming" by (rule state_names)
  define v where "v = (case map_of (tp_rotations (ro_sender x)) i of None \<Rightarrow> fresh | Some v \<Rightarrow> v)"
  obtain s where s: "pending_trade_rotation tenant i fresh (ro_sender x) = Inr (v, s)"
    "tp_routes s = tp_routes (ro_sender x)"
    using r by (cases "map_of (tp_rotations (ro_sender x)) i")
      (simp_all add: pending_trade_rotation_def route_in_def v_def)
  have c: "trade_credential tenant i (ro_sender x) = Some (?H ! k)" using r by (simp add: trade_credential_def)
  have j: "?H ! j \<in> {?H ! k, v}" using pend kj by (auto simp: v_def le_Suc_eq less_Suc_eq)
  have valid: "valid_hex v 32" using pend kj tk fresh by (auto simp: v_def)
  have "po_credential r' \<in> {kept_as lib r' (?H ! k), kept_as lib r' v}" using j r' by (auto simp: kept_as_def)
  from rotation_accepted [OF r'(1) this valid] r'(2)
  have a: "\<exists>t. rotate_trade_credential lib g (?H ! k) v (ro_receiver x) = Inr t \<and> credential_of t g = Some (?h v)"
    by (auto simp: credential_of_def kept_as_def)
  have "po_credential r \<in> {kept_as lib r (?H ! k), kept_as lib r v}" using r side by (simp add: kept_as_def)
  from rotation_accepted [OF r(1) [folded s(2)] this valid] r(2,3) side
  have b: "\<exists>t. rotate_trade_credential lib i (?H ! k) v s = Inr t \<and> trade_credential tenant i t = Some v"
    by (auto simp: trade_credential_def kept_as_def)
  have "credential_of (ro_receiver x) g \<in> Some ` ?h ` {?H ! k, v}" using j r' by (auto simp: credential_of_def)
  with a b c s(1) show ?thesis by blast
qed

lemma rotation_never_locks_out_witness:
  "\<exists>c v s. trade_credential [] (lit ''o'') turn4 = Some c \<and> pending_trade_rotation [] (lit ''o'') (token 3) turn4 = Inr (v, s)
     \<and> (\<exists>r. rotate_trade_credential (demo_port True) (lit ''g'') c v turn5 = Inr r)"
  using rotation_never_locks_out [OF late_reach, of "token 3"] tokens_evaluated
  by (auto simp: late_def pairing_def)

text \<open>C11: C: A status poll that read the credential before two rotations can shut the sender out for good: it
  takes the refusal of its stale credential for a rotation that was finished elsewhere and forgets the
  pending credential, the only one the receiver still accepts. From then on every rotation request of the
  sender, and every message with its credential, is refused.\<close>

theorem stale_poll_locks_out:
  assumes reached: "reach (enrolled lib tenant i g) (rotation_step lib tenant i g) x"
    and old: "c \<in> ro_read x" "trade_credential tenant i (ro_sender x) = Some c'" "c \<noteq> c'"
    and next': "map_of (tp_rotations (ro_sender x)) i = Some v" "v \<noteq> c'"
      "credential_of (ro_receiver x) g = Some (trade_secret_hash (tl_stmts lib) v)"
  shows "\<exists>s. settle_poll lib tenant i c v (ro_sender x) = Inr s
    \<and> trade_credential tenant i s = Some c' \<and> map_of (tp_rotations s) i = None
    \<and> (\<forall>fresh w t. new_token lib (ro_drawn x) fresh \<longrightarrow> pending_trade_rotation tenant i fresh s = Inr (w, t)
         \<longrightarrow> w = fresh \<and> rotate_trade_credential lib g c' w (ro_receiver x) = Inl CredentialMoved
         \<and> (\<forall>m purpose now r. body_str m ''grant'' = Some g \<longrightarrow> body_str m ''credential'' = Some c'
              \<longrightarrow> (lit purpose = lit ''rotate'' \<longrightarrow> body_str m ''next'' = Some w)
              \<longrightarrow> authenticate_trade lib m purpose now (ro_receiver x) \<noteq> Inr r))"
proof -
  let ?h = "trade_secret_hash (tl_stmts lib)"
  let ?H = "ro_drawn x"
  have "rotation_ok lib tenant i g x" by (rule rotations.reach_inv [OF reached])
  then obtain k j where p: "at_places lib tenant i g k j x" by (auto simp: rotation_ok_def)
  then have tk: "tokens_ok lib ?H" by (simp add: at_places_def)
  from p obtain r r' where r: "map_of (tp_routes (ro_sender x)) i = Some r" "tr_direction r = outgoing" "tr_tenant r = tenant"
      "po_credential r = ?H ! k"
    and r': "map_of (tp_routes (ro_receiver x)) g = Some r'" "tr_direction r' = incoming"
    and k: "k < length ?H"
    and pend: "length ?H = k + 1 \<and> map_of (tp_rotations (ro_sender x)) i \<in> {None, Some (?H ! k)}
        \<or> length ?H = k + 2 \<and> map_of (tp_rotations (ro_sender x)) i = Some (?H ! (k + 1))"
    unfolding at_places_def sender_at_def receiver_at_def using le_less_trans by blast
  have side: "outgoing \<noteq> incoming" by (rule state_names)
  have c': "c' = ?H ! k" using old(2) r by (simp add: trade_credential_def)
  with pend next'(1,2) have v: "v = ?H ! (k + 1)" "k + 1 < length ?H" by auto
  have hv: "po_credential r' = ?h v" using next'(3) r'(1) by (simp add: credential_of_def)
  have ne: "?h c' \<noteq> ?h v" using tokens_inj(1) [OF tk k v(2)] by (simp add: c' v(1))
  have valid: "valid_hex v 32" using tk v by (simp add: tokens_ok_def list_all_iff)
  let ?s = "clear_trade_rotation i v (ro_sender x)"
  have refused: "rotate_trade_credential lib i c v (ro_sender x) = Inl CredentialMoved"
    using r valid old(3) next'(2) side by (simp add: rotate_trade_credential_def Let_def c')
  then have "settle_poll lib tenant i c v (ro_sender x) = Inr ?s" using old by (simp add: settle_poll_def)
  moreover have "trade_credential tenant i ?s = Some c'" using old(2) by (simp add: trade_credential_def clear_trade_rotation_def)
  moreover have none: "map_of (tp_rotations ?s) i = None" using next'(1) by (simp add: clear_trade_rotation_def map_of_delete)
  moreover have "w = fresh \<and> rotate_trade_credential lib g c' w (ro_receiver x) = Inl CredentialMoved
      \<and> (\<forall>m purpose now r. body_str m ''grant'' = Some g \<longrightarrow> body_str m ''credential'' = Some c'
           \<longrightarrow> (lit purpose = lit ''rotate'' \<longrightarrow> body_str m ''next'' = Some w)
           \<longrightarrow> authenticate_trade lib m purpose now (ro_receiver x) \<noteq> Inr r)"
    if new: "new_token lib ?H fresh" and drawn: "pending_trade_rotation tenant i fresh ?s = Inr (w, t)" for fresh w t
  proof -
    have w: "w = fresh" using drawn none by (simp add: pending_trade_rotation_def split: sum.splits if_splits)
    have hw: "?h w \<noteq> ?h v" "valid_hex w 32" using new v by (auto simp: new_token_def w)
    have "rotate_trade_credential lib g c' w (ro_receiver x) = Inl CredentialMoved"
      using r' hv ne hw by (simp add: rotate_trade_credential_def Let_def)
    moreover have "authenticate_trade lib m purpose now (ro_receiver x) \<noteq> Inr y"
      if "body_str m ''grant'' = Some g" "body_str m ''credential'' = Some c'"
        "lit purpose = lit ''rotate'' \<longrightarrow> body_str m ''next'' = Some w" for m purpose now y
      using that r'(1) hv ne hw by (auto simp: authenticate_trade_def route_in_def Let_def)
    ultimately show ?thesis using w by blast
  qed
  ultimately show ?thesis by blast
qed

lemma stale_poll_locks_out_witness:
  "\<exists>s. settle_poll (demo_port True) [] (lit ''o'') (token 0) (token 2) turn4 = Inr s
     \<and> trade_credential [] (lit ''o'') s = Some (token 1) \<and> map_of (tp_rotations s) (lit ''o'') = None"
proof -
  have "token 0 \<in> ro_read late" "ro_sender late = turn4" "ro_receiver late = turn5" by (simp_all add: late_def pairing_def)
  moreover have "tl_stmts (demo_port True) = demo_trade_stmts" by (simp add: demo_port_def)
  moreover have "token 2 \<noteq> token 1" "token 0 \<noteq> token 1" using tokens_evaluated by blast+
  moreover have "trade_credential [] (lit ''o'') turn4 = Some (token 1)" "map_of (tp_rotations turn4) (lit ''o'') = Some (token 2)"
    "credential_of turn5 (lit ''g'') = Some (trade_secret_hash demo_trade_stmts (token 2))" using turns_evaluated by blast+
  ultimately show ?thesis
    using stale_poll_locks_out [OF late_reach, of "token 0" "token 1" "token 2"] by auto
qed

section \<open>The gauge of unreachable routes\<close>

text \<open>C18: C: The gauge of unreachable routes is always zero. A failed contact is recorded as the remote state
  of a route, and the gauge counts the routes whose own state is ''unreachable'', which no operation ever
  writes.\<close>

theorem unreachable_routes_go_uncounted:
  assumes "reach trade_start (trade_step lib) s"
    and heard: "trade_contact tenant i (lit ''unreachable'') (Some e) now s = Inr (b, t)"
  shows "unreachable_trade_routes s = 0 \<and> unreachable_trade_routes t = 0
    \<and> (\<exists>r. map_of (tp_routes t) i = Some r \<and> po_remote_state r = lit ''unreachable'' \<and> po_error r = Some e)"
proof -
  have "lit ''unreachable'' \<notin> known_states" by code_simp
  then have none: "unreachable_trade_routes u = 0" if "reach trade_start (trade_step lib) u" for u
    using states.reach_inv [OF that] by (force simp: unreachable_trade_routes_def route_states_def filter_empty_conv)
  have "reach trade_start (trade_step lib) t" by (rule reach_step [OF assms(1) trade_step.heard [OF heard]])
  with none assms(1) have "unreachable_trade_routes s = 0 \<and> unreachable_trade_routes t = 0" by blast
  moreover have "\<exists>r. map_of (tp_routes t) i = Some r \<and> po_remote_state r = lit ''unreachable'' \<and> po_error r = Some e"
    using heard by (auto simp: trade_contact_def Let_def map_of_update split: sum.splits if_splits)
  ultimately show ?thesis by blast
qed

lemma unreachable_routes_go_uncounted_witness:
  "\<exists>b t. trade_contact [] (lit ''o'') (lit ''unreachable'') (Some (lit ''timed out'')) 30 sent4 = Inr (b, t)
     \<and> unreachable_trade_routes t = 0"
proof -
  have "went (trade_contact [] (lit ''o'') (lit ''unreachable'') (Some (lit ''timed out'')) 30 sent4)"
    using sender_evaluated by blast
  then obtain b t where c: "trade_contact [] (lit ''o'') (lit ''unreachable'') (Some (lit ''timed out'')) 30 sent4 = Inr (b, t)"
    using went_pair by blast
  from unreachable_routes_go_uncounted [OF sent_reach(2) c] c show ?thesis by blast
qed

end
