(* ===== verification/EventChain.thy ===== *)
theory EventChain
  imports Statements Fallible "HOL-Library.Product_Lexorder" "HOL-Library.Sublist"
begin

text \<open>
  The history of deliveries, from \<open>server/src/store/evidence.rs\<close>: signed events chained by their
  hashes, one chain per tenant, the evidence that recipients sign, and the audit rows that mirror
  events. \<open>chain_lib\<close> adds the JSON of an event to the parameters of the signed statements.
\<close>

section \<open>Values\<close>

text \<open>\<open>serde\_json::Value\<close>; a number by its text, an object by its fields.\<close>

datatype json =
    JNull
  | JBool bool
  | JNumber rstr
  | JString rstr
  | JArray "json list"
  | JObject "(rstr \<times> json) list"

definition json_get :: "json \<Rightarrow> rstr \<Rightarrow> json option" where
  "json_get j key = (case j of JObject members \<Rightarrow> map_of members key | _ \<Rightarrow> None)"

text \<open>An object that is built: the members of a map are kept in the order of their keys.\<close>

definition json_object :: "(rstr \<times> json) list \<Rightarrow> json" where
  "json_object members = JObject (sort_key fst members)"

text \<open>The payloads the code builds: objects in the order of their keys, unsigned numbers.\<close>

fun json_ok :: "json \<Rightarrow> bool" where
  "json_ok JNull \<longleftrightarrow> True"
| "json_ok (JBool _) \<longleftrightarrow> True"
| "json_ok (JNumber t) \<longleftrightarrow> (\<exists>n \<le> u64_max. t = show_nat n)"
| "json_ok (JString _) \<longleftrightarrow> True"
| "json_ok (JArray js) \<longleftrightarrow> (\<forall>j \<in> set js. json_ok j)"
| "json_ok (JObject members) \<longleftrightarrow>
     sorted_wrt (<) (map fst members) \<and> (\<forall>m \<in> set members. json_ok (snd m))"

text \<open>The casts between \<open>u64\<close> and the integers of SQLite, both modulo two to the 64.\<close>

definition top_i64 :: nat where "top_i64 = 2 ^ 63 - 1"

definition as_i64 :: "nat \<Rightarrow> int" where
  "as_i64 n = (if n \<le> top_i64 then int n else int n - 2 ^ 64)"

definition as_u64 :: "int \<Rightarrow> nat" where
  "as_u64 i = nat (if i < 0 then i + 2 ^ 64 else i)"

record event_document =
  ed_id :: nat
  ed_tenant :: rstr
  ed_grant :: rstr
  ed_kind :: rstr
  ed_created_at :: nat
  ed_payload :: json
  ed_previous :: rstr
  ed_issuer :: rstr

record chain_event =
  ce_id :: nat
  ce_tenant :: rstr
  ce_grant :: rstr
  ce_kind :: rstr
  ce_created_at :: nat
  ce_payload :: json
  ce_previous :: rstr
  ce_hash :: rstr
  ce_issuer :: rstr
  ce_signature :: rstr

record checkpoint =
  cp_id :: nat
  cp_hash :: rstr

record event_export =
  ex_issuer :: rstr
  ex_tenant :: rstr
  ex_start :: checkpoint
  ex_end :: checkpoint
  ex_terminal :: checkpoint
  ex_complete :: bool
  ex_events :: "chain_event list"

text \<open>\<open>document_json\<close>, \<open>sealed_json\<close>: \<open>serde\_json::to\_vec\<close> of a document, and of a document with
  its signature; \<open>event_bytes\<close>, \<open>export_bytes\<close>: the length of an event and of an export in JSON;
  \<open>payload_text\<close>, \<open>payload_parse\<close>: the text of a payload and back; \<open>file_evidence\<close>: the text of an
  evidence document.\<close>

record ('k, 'b) chain_lib =
  cl_stmts :: "('k, 'b) stmt_lib"
  document_json :: "event_document \<Rightarrow> bytes"
  sealed_json :: "event_document \<Rightarrow> rstr \<Rightarrow> bytes"
  event_bytes :: "chain_event \<Rightarrow> nat"
  export_bytes :: "event_export \<Rightarrow> nat"
  payload_text :: "json \<Rightarrow> rstr"
  payload_parse :: "rstr \<Rightarrow> json option"

definition event_document_of :: "chain_event \<Rightarrow> event_document" where
  "event_document_of e =
     \<lparr>ed_id = ce_id e, ed_tenant = ce_tenant e, ed_grant = ce_grant e, ed_kind = ce_kind e,
      ed_created_at = ce_created_at e, ed_payload = ce_payload e, ed_previous = ce_previous e,
      ed_issuer = ce_issuer e\<rparr>"

definition event_message :: "('k, 'b) chain_lib \<Rightarrow> event_document \<Rightarrow> bytes" where
  "event_message lib d = message (domain ''votport-delivery-event-v1'') (document_json lib d)"

definition event_hash :: "('k, 'b) chain_lib \<Rightarrow> event_document \<Rightarrow> rstr \<Rightarrow> rstr" where
  "event_hash lib d signature = sha256_hex (cl_stmts lib) (sealed_json lib d signature)"

definition verify_event :: "('k, 'b) chain_lib \<Rightarrow> chain_event \<Rightarrow> bool" where
  "verify_event lib e =
     (let st = cl_stmts lib; d = event_document_of e;
          key = (case unhex st (ce_issuer e) of
                   None \<Rightarrow> None | Some k \<Rightarrow> if length k = 32 \<and> key_ok st k then Some k else None);
          signature = (case unhex st (ce_signature e) of
                   None \<Rightarrow> None | Some s \<Rightarrow> if signature_ok st s then Some s else None)
      in event_hash lib d (ce_signature e) = ce_hash e
         \<and> (case (key, signature) of
              (Some k, Some s) \<Rightarrow> verify_strict st k (event_message lib d) s
            | _ \<Rightarrow> False))"

definition verify_for :: "('k, 'b) chain_lib \<Rightarrow> rstr \<Rightarrow> rstr \<Rightarrow> chain_event \<Rightarrow> bool" where
  "verify_for lib issuer tenant e \<longleftrightarrow>
     ce_issuer e = issuer \<and> ce_tenant e = tenant \<and> ce_id e > 0 \<and> verify_event lib e"

definition checkpoint_of :: "chain_event \<Rightarrow> checkpoint" where
  "checkpoint_of e = \<lparr>cp_id = ce_id e, cp_hash = ce_hash e\<rparr>"

definition no_checkpoint :: checkpoint where
  "no_checkpoint = \<lparr>cp_id = 0, cp_hash = []\<rparr>"

section \<open>The tables\<close>

text \<open>A row as SQLite holds it, whoever wrote it.\<close>

record event_row =
  er_id :: int
  er_tenant :: rstr
  er_grant :: rstr
  er_kind :: rstr
  er_created_at :: int
  er_payload :: rstr
  er_previous :: rstr
  er_hash :: rstr
  er_issuer :: rstr
  er_signature :: rstr

record audit_row =
  ar_rowid :: nat
  ar_at :: nat
  ar_tenant :: rstr
  ar_actor :: rstr
  ar_event :: rstr
  ar_subject :: rstr
  ar_detail :: json

record evidence_row =
  vr_rowid :: nat
  vr_id :: rstr
  vr_grant :: rstr
  vr_holder :: rstr
  vr_kind :: evidence_kind
  vr_received_at :: nat
  vr_evidence :: evidence

record delivered_grant =
  dg_tenant :: rstr
  dg_file :: manifest_file
  dg_files :: "manifest_file list"

record chain_store =
  cs_events :: "event_row list"
  cs_sequence :: int
  cs_audit :: "audit_row list"
  cs_manifests :: "(rstr \<times> rstr) list"
  cs_evidence :: "evidence_row list"
  cs_grants :: "(rstr \<times> delivered_grant) list"
  cs_jobs :: "(rstr \<times> rstr) list"

datatype chain_error =
    InvalidChain
  | SequenceFull
  | Refused rstr

definition MAX_EVENT_PAGE_BYTES :: nat where "MAX_EVENT_PAGE_BYTES = 16777216"
definition MAX_AUDIT_TEXT_BYTES :: nat where "MAX_AUDIT_TEXT_BYTES = 256"
definition MAX_EVIDENCE :: nat where "MAX_EVIDENCE = 2000"

definition read_event :: "('k, 'b) chain_lib \<Rightarrow> event_row \<Rightarrow> chain_event option" where
  "read_event lib r =
     (if list_ex (\<lambda>t. str_len t > MAX_EVENT_PAGE_BYTES)
           [er_tenant r, er_grant r, er_kind r, er_payload r, er_previous r, er_hash r, er_issuer r,
            er_signature r] then None
      else map_option (\<lambda>payload.
        \<lparr>ce_id = as_u64 (er_id r), ce_tenant = er_tenant r, ce_grant = er_grant r, ce_kind = er_kind r,
         ce_created_at = as_u64 (er_created_at r), ce_payload = payload, ce_previous = er_previous r,
         ce_hash = er_hash r, ce_issuer = er_issuer r, ce_signature = er_signature r\<rparr>)
        (payload_parse lib (er_payload r)))"

definition tenant_rows :: "rstr \<Rightarrow> chain_store \<Rightarrow> event_row list" where
  "tenant_rows tenant s = sort_key er_id (filter (\<lambda>r. er_tenant r = tenant) (cs_events s))"

section \<open>Reading the chain\<close>

text \<open>These run on the counter of failures, \<open>DELIVERY\_EVENT\_CHAIN\_FAILURES\<close>.\<close>

definition predecessor ::
  "('k, 'b) chain_lib \<Rightarrow> rstr \<Rightarrow> rstr \<Rightarrow> nat \<Rightarrow> chain_store \<Rightarrow> nat \<Rightarrow> (chain_error + checkpoint) \<times> nat" where
  "predecessor lib issuer tenant through s n =
     (let rows = filter (\<lambda>r. er_id r \<le> as_i64 through) (tenant_rows tenant s)
      in if rows = [] then (Inr no_checkpoint, n)
         else case read_event lib (last rows) of
                None \<Rightarrow> (Inl InvalidChain, n)
              | Some e \<Rightarrow>
                  if verify_for lib issuer tenant e then (Inr (checkpoint_of e), n)
                  else (Inl InvalidChain, n + 1))"

definition require_checkpoint ::
  "('k, 'b) chain_lib \<Rightarrow> rstr \<Rightarrow> rstr \<Rightarrow> checkpoint \<Rightarrow> chain_store \<Rightarrow> nat \<Rightarrow> (chain_error + unit) \<times> nat" where
  "require_checkpoint lib issuer tenant c s =
     and_then (ensures (\<lambda>_. cp_id c \<le> top_i64) InvalidChain) (\<lambda>_.
     and_then (predecessor lib issuer tenant (cp_id c) s) (\<lambda>p.
     ensures (\<lambda>_. p = c) InvalidChain))"

fun page_loop ::
  "('k, 'b) chain_lib \<Rightarrow> rstr \<Rightarrow> rstr \<Rightarrow> checkpoint \<Rightarrow> nat \<Rightarrow> nat \<Rightarrow> chain_event list \<Rightarrow> event_row list
   \<Rightarrow> nat \<Rightarrow> (chain_error + chain_event list) \<times> nat" where
  "page_loop lib issuer tenant previous bytes budget events [] n = (Inr events, n)"
| "page_loop lib issuer tenant previous bytes budget events (row # rows) n =
     (case read_event lib row of
        None \<Rightarrow> (Inl InvalidChain, n)
      | Some e \<Rightarrow>
          let verified = verify_for lib issuer tenant e; linked = (ce_previous e = cp_hash previous);
              bytes' = bytes + event_bytes lib e + 1
          in if \<not> verified \<or> ce_id e \<le> cp_id previous \<or> \<not> linked
             then (Inl InvalidChain, if \<not> verified \<or> \<not> linked then n + 1 else n)
             else if bytes' > budget then (if events = [] then Inl InvalidChain else Inr events, n)
             else page_loop lib issuer tenant (checkpoint_of e) bytes' budget (events @ [e]) rows n)"

definition event_page ::
  "('k, 'b) chain_lib \<Rightarrow> rstr \<Rightarrow> rstr \<Rightarrow> checkpoint \<Rightarrow> nat \<Rightarrow> nat \<Rightarrow> nat \<Rightarrow> chain_store \<Rightarrow> nat
   \<Rightarrow> (chain_error + chain_event list) \<times> nat" where
  "event_page lib issuer tenant start through limit budget s =
     page_loop lib issuer tenant start 0 budget []
       (take (min limit 100)
         (filter (\<lambda>r. er_id r > as_i64 (cp_id start) \<and> er_id r \<le> as_i64 through) (tenant_rows tenant s)))"

definition delivery_events ::
  "('k, 'b) chain_lib \<Rightarrow> rstr \<Rightarrow> rstr \<Rightarrow> nat \<Rightarrow> nat \<Rightarrow> chain_store \<Rightarrow> nat
   \<Rightarrow> (chain_error + chain_event list) \<times> nat" where
  "delivery_events lib issuer tenant from' limit s =
     and_then (ensures (\<lambda>_. from' \<le> top_i64) InvalidChain) (\<lambda>_.
     and_then (predecessor lib issuer tenant from' s) (\<lambda>start.
     event_page lib issuer tenant start top_i64 limit (MAX_EVENT_PAGE_BYTES - 128) s))"

definition terminal_of ::
  "('k, 'b) chain_lib \<Rightarrow> rstr \<Rightarrow> rstr \<Rightarrow> checkpoint option \<Rightarrow> chain_store \<Rightarrow> nat
   \<Rightarrow> (chain_error + checkpoint) \<times> nat" where
  "terminal_of lib issuer tenant terminal s =
     (case terminal of
        Some t \<Rightarrow> and_then (require_checkpoint lib issuer tenant t s) (\<lambda>_. yields t)
      | None \<Rightarrow> predecessor lib issuer tenant top_i64 s)"

definition export_of :: "rstr \<Rightarrow> rstr \<Rightarrow> checkpoint \<Rightarrow> checkpoint \<Rightarrow> chain_event list \<Rightarrow> event_export" where
  "export_of issuer tenant start terminal events =
     (let end' = (if events = [] then start else checkpoint_of (last events))
      in \<lparr>ex_issuer = issuer, ex_tenant = tenant, ex_start = start, ex_end = end',
          ex_terminal = terminal, ex_complete = (end' = terminal), ex_events = events\<rparr>)"

definition delivery_event_export ::
  "('k, 'b) chain_lib \<Rightarrow> rstr \<Rightarrow> rstr \<Rightarrow> checkpoint \<Rightarrow> checkpoint option \<Rightarrow> nat \<Rightarrow> chain_store \<Rightarrow> nat
   \<Rightarrow> (chain_error + event_export) \<times> nat" where
  "delivery_event_export lib issuer tenant start terminal limit s =
     and_then (ensures (\<lambda>_. 1 \<le> limit \<and> limit \<le> 100) InvalidChain) (\<lambda>_.
     and_then (require_checkpoint lib issuer tenant start s) (\<lambda>_.
     and_then (terminal_of lib issuer tenant terminal s) (\<lambda>t.
     and_then (ensures (\<lambda>_. cp_id start \<le> cp_id t) InvalidChain) (\<lambda>_.
       let envelope = \<lparr>ex_issuer = issuer, ex_tenant = tenant, ex_start = start, ex_end = t,
                        ex_terminal = t, ex_complete = False, ex_events = []\<rparr>
       in and_then (ensures (\<lambda>_. export_bytes lib envelope \<le> MAX_EVENT_PAGE_BYTES) InvalidChain) (\<lambda>_.
          and_then (event_page lib issuer tenant start (cp_id t) limit
                      (MAX_EVENT_PAGE_BYTES - export_bytes lib envelope) s) (\<lambda>events.
          let x = export_of issuer tenant start t events
          in and_then (ensures (\<lambda>_. ex_complete x \<or> ex_events x \<noteq> []) InvalidChain)
               (\<lambda>_. yields x)))))))"

section \<open>Appending\<close>

definition insert_audit ::
  "nat \<Rightarrow> rstr \<Rightarrow> rstr \<Rightarrow> rstr \<Rightarrow> rstr \<Rightarrow> json \<Rightarrow> chain_store \<Rightarrow> chain_store" where
  "insert_audit at' tenant actor event subject detail s =
     s\<lparr>cs_audit := cs_audit s @
         [\<lparr>ar_rowid = (if cs_audit s = [] then 1 else Max (set (map ar_rowid (cs_audit s))) + 1),
           ar_at = (if at' \<le> top_i64 then at' else 0), ar_tenant = tenant, ar_actor = actor,
           ar_event = event, ar_subject = subject, ar_detail = detail\<rparr>]\<rparr>"

definition AUDIT_KEYS :: "rstr list" where
  "AUDIT_KEYS = map lit [''job_id'', ''project_id'', ''route'', ''storage_id'', ''evidence_id'',
     ''destination'', ''replacement_id'', ''reprocessed_from'', ''link_id'', ''upload_id'',
     ''operation_id'', ''direction'', ''peer_id'', ''state'', ''status'', ''revision'',
     ''policy_revision'', ''original_revision'', ''generation'', ''attempt'', ''enabled'',
     ''cancel_active'']"

definition keeps_value :: "json \<Rightarrow> bool" where
  "keeps_value v =
     (case v of
        JString t \<Rightarrow> str_len t \<le> MAX_AUDIT_TEXT_BYTES
      | JNumber _ \<Rightarrow> True
      | JBool _ \<Rightarrow> True
      | _ \<Rightarrow> False)"

definition audit_summary :: "json \<Rightarrow> json" where
  "audit_summary payload =
     json_object (concat (map (\<lambda>key. case json_get payload key of
        None \<Rightarrow> []
      | Some v \<Rightarrow> if keeps_value v then [(key, v)] else []) AUDIT_KEYS))"

definition audit_actor :: "('k, 'b) chain_lib \<Rightarrow> json \<Rightarrow> rstr \<times> rstr" where
  "audit_actor lib payload =
     (case json_get payload (lit ''actor'') of
        Some (JString t) \<Rightarrow>
          if str_len t \<le> MAX_AUDIT_TEXT_BYTES then (t, lit ''plain'')
          else (lit ''sha256:'' @ sha256_hex (cl_stmts lib) (as_bytes t), lit ''sha256'')
      | _ \<Rightarrow> ([], lit ''none''))"

definition next_id :: "chain_store \<Rightarrow> int" where
  "next_id s = fold (\<lambda>r m. max (er_id r) m) (cs_events s) (cs_sequence s) + 1"

definition last_hash :: "rstr \<Rightarrow> chain_store \<Rightarrow> rstr" where
  "last_hash tenant s = (case tenant_rows tenant s of [] \<Rightarrow> [] | rows \<Rightarrow> er_hash (last rows))"

definition event_detail :: "('k, 'b) chain_lib \<Rightarrow> int \<Rightarrow> rstr \<Rightarrow> rstr \<Rightarrow> rstr \<Rightarrow> json \<Rightarrow> json" where
  "event_detail lib i hash issuer kind payload =
     json_object [(lit ''delivery_event_id'', JNumber (show_nat (nat i))),
       (lit ''delivery_event_hash'', JString hash), (lit ''delivery_event_issuer'', JString issuer),
       (lit ''delivery_event_kind'', JString kind),
       (lit ''delivery_event_actor'', JString (snd (audit_actor lib payload))),
       (lit ''summary'', audit_summary payload)]"

definition append_event ::
  "('k, 'b) chain_lib \<Rightarrow> 'k \<Rightarrow> rstr \<Rightarrow> rstr \<Rightarrow> rstr \<Rightarrow> json \<Rightarrow> nat \<Rightarrow> chain_store
   \<Rightarrow> chain_error + chain_store" where
  "append_event lib key tenant grant kind payload now s =
     (let i = next_id s; issuer = key_hex (cl_stmts lib) key;
          d = \<lparr>ed_id = nat i, ed_tenant = tenant, ed_grant = grant, ed_kind = kind, ed_created_at = now,
               ed_payload = payload, ed_previous = last_hash tenant s, ed_issuer = issuer\<rparr>;
          signature = sign_hex (cl_stmts lib) key (event_message lib d);
          hash = event_hash lib d signature
      in if i > int top_i64 then Inl SequenceFull
         else Inr (insert_audit now tenant (fst (audit_actor lib payload)) kind grant
                (event_detail lib i hash issuer kind payload)
                (s\<lparr>cs_sequence := i,
                   cs_events := cs_events s @
                     [\<lparr>er_id = i, er_tenant = tenant, er_grant = grant, er_kind = kind,
                       er_created_at = as_i64 now, er_payload = payload_text lib payload,
                       er_previous = last_hash tenant s, er_hash = hash, er_issuer = issuer,
                       er_signature = signature\<rparr>]\<rparr>)))"

section \<open>Evidence\<close>

definition grant_digest :: "('k, 'b) stmt_lib \<Rightarrow> delivered_grant \<Rightarrow> rstr" where
  "grant_digest st g =
     delivery_manifest_digest st (if dg_files g = [] then [dg_file g] else dg_files g)"

definition delivery_manifest ::
  "('k, 'b) stmt_lib \<Rightarrow> rstr \<Rightarrow> chain_store \<Rightarrow> (chain_error + rstr) \<times> chain_store" where
  "delivery_manifest st grant s =
     (case map_of (cs_manifests s) grant of
        Some digest \<Rightarrow> (Inr digest, s)
      | None \<Rightarrow>
          (case map_of (cs_grants s) grant of
             None \<Rightarrow> (Inl (Refused (lit ''delivery not found'')), s)
           | Some g \<Rightarrow>
               (Inr (grant_digest st g),
                s\<lparr>cs_manifests := cs_manifests s @ [(grant, grant_digest st g)]\<rparr>)))"

definition kind_text :: "evidence_kind \<Rightarrow> rstr" where
  "kind_text k = (case k of Verified \<Rightarrow> lit ''verified'' | Accepted \<Rightarrow> lit ''accepted'')"

definition has_evidence :: "rstr \<Rightarrow> rstr \<Rightarrow> evidence_kind \<Rightarrow> chain_store \<Rightarrow> bool" where
  "has_evidence grant holder kind s \<longleftrightarrow>
     list_ex (\<lambda>r. vr_grant r = grant \<and> vr_holder r = holder \<and> vr_kind r = kind) (cs_evidence s)"

definition evidence_recorded :: "rstr \<Rightarrow> chain_store \<Rightarrow> bool" where
  "evidence_recorded i s \<longleftrightarrow> list_ex (\<lambda>r. vr_id r = i) (cs_evidence s)"

definition insert_evidence :: "rstr \<Rightarrow> evidence \<Rightarrow> nat \<Rightarrow> chain_store \<Rightarrow> chain_store" where
  "insert_evidence i e now s =
     s\<lparr>cs_evidence := cs_evidence s @
        [\<lparr>vr_rowid = (if cs_evidence s = [] then 1 else Max (set (map vr_rowid (cs_evidence s))) + 1),
          vr_id = i, vr_grant = ch_grant_id (sc_challenge (ev_authorization e)),
          vr_holder = ch_holder (sc_challenge (ev_authorization e)), vr_kind = ev_kind e,
          vr_received_at = now, vr_evidence = e\<rparr>]\<rparr>"

definition evidence_payload :: "rstr \<Rightarrow> rstr \<Rightarrow> rstr \<Rightarrow> json" where
  "evidence_payload i manifest holder =
     json_object [(lit ''evidence_id'', JString i), (lit ''manifest'', JString manifest),
              (lit ''holder'', JString holder)]"

definition record_evidence ::
  "('k, 'b) chain_lib \<Rightarrow> 'k \<Rightarrow> evidence \<Rightarrow> nat \<Rightarrow> chain_store \<Rightarrow> chain_error + (bool \<times> chain_store)" where
  "record_evidence lib key e now s =
     (let c = sc_challenge (ev_authorization e); i = evidence_id (cl_stmts lib) e
      in case map_of (cs_grants s) (ch_grant_id c) of
           None \<Rightarrow> Inl (Refused (lit ''delivery not found''))
         | Some g \<Rightarrow>
       (case map_of (cs_manifests s) (ch_grant_id c) of
           None \<Rightarrow> Inl (Refused (lit ''delivery manifest missing''))
         | Some manifest \<Rightarrow>
       if manifest \<noteq> ch_manifest c then Inl (Refused (lit ''delivery manifest changed''))
       else if evidence_recorded i s then Inr (False, s)
       else if ev_kind e = Accepted \<and> \<not> has_evidence (ch_grant_id c) (ch_holder c) Verified s
       then Inl (Refused (lit ''this device must report verification before acceptance''))
       else if length (filter (\<lambda>r. vr_grant r = ch_grant_id c) (cs_evidence s)) \<ge> MAX_EVIDENCE
       then Inl (Refused (lit ''delivery evidence limit reached''))
       else if has_evidence (ch_grant_id c) (ch_holder c) (ev_kind e) s
       then Inr (True, insert_evidence i e now s)
       else map_sum id (Pair True)
         (append_event lib key (dg_tenant g) (ch_grant_id c) (lit ''recipient_'' @ kind_text (ev_kind e))
           (evidence_payload i manifest (ch_holder c)) now (insert_evidence i e now s))))"

definition purge_payload :: "rstr \<Rightarrow> nat \<Rightarrow> json" where
  "purge_payload actor purged = json_object [(lit ''actor'', JString actor), (lit ''purged'', JNumber (show_nat purged))]"

definition purge_evidence ::
  "('k, 'b) chain_lib \<Rightarrow> 'k \<Rightarrow> rstr \<Rightarrow> rstr \<Rightarrow> rstr \<Rightarrow> nat \<Rightarrow> chain_store \<Rightarrow> chain_error + (nat \<times> chain_store)" where
  "purge_evidence lib key tenant grant actor now s =
     (if map_of (cs_jobs s) grant \<noteq> Some tenant then Inl (Refused (lit ''delivery not found''))
      else
        let purged = length (filter (\<lambda>r. vr_grant r = grant) (cs_evidence s))
        in map_sum id (Pair purged)
             (append_event lib key tenant grant (lit ''evidence_purged'') (purge_payload actor purged) now
               (s\<lparr>cs_evidence := filter (\<lambda>r. vr_grant r \<noteq> grant) (cs_evidence s)\<rparr>)))"

definition evidence_page :: "rstr \<Rightarrow> nat \<Rightarrow> nat \<Rightarrow> chain_store \<Rightarrow> evidence_row list" where
  "evidence_page grant from' limit s =
     take (min limit 100) (sort_key vr_rowid
       (filter (\<lambda>r. vr_grant r = grant \<and> int (vr_rowid r) > as_i64 from') (cs_evidence s)))"

text \<open>The checks of \<open>submit\<close> in \<open>server/src/api/evidence.rs\<close>, once the origin is known.\<close>

definition SUBMIT_SECONDS :: nat where "SUBMIT_SECONDS = 604800"

datatype submit_error =
    Unauthorized
  | SubmitConflict chain_error

definition submit_evidence ::
  "('k, 'b) chain_lib \<Rightarrow> 'k \<Rightarrow> rstr \<Rightarrow> evidence \<Rightarrow> nat \<Rightarrow> chain_store \<Rightarrow> submit_error + (bool \<times> chain_store)" where
  "submit_evidence lib key origin e now s =
     (let c = sc_challenge (ev_authorization e)
      in if \<not> verify_evidence (cl_stmts lib) e (key_hex (cl_stmts lib) key)
            \<or> ch_issued_at c > now
            \<or> (ch_expires_at c \<le> now \<and> \<not> evidence_recorded (evidence_id (cl_stmts lib) e) s)
            \<or> ch_expires_at c - ch_issued_at c > SUBMIT_SECONDS
            \<or> ch_origin c \<noteq> origin
         then Inl Unauthorized
         else map_sum SubmitConflict id (record_evidence lib key e now s))"

definition new_challenge :: "('k, 'b) stmt_lib \<Rightarrow> 'k \<Rightarrow> rstr \<Rightarrow> rstr \<Rightarrow> rstr \<Rightarrow> rstr \<Rightarrow> rstr \<Rightarrow> nat \<Rightarrow> signed_challenge" where
  "new_challenge st key origin grant manifest holder nonce now =
     issue_challenge st \<lparr>ch_origin = origin, ch_grant_id = grant, ch_manifest = manifest, ch_holder = holder,
       ch_nonce = nonce, ch_issued_at = now, ch_expires_at = sat_add now SUBMIT_SECONDS\<rparr> key"

section \<open>Auditing\<close>

text \<open>The filters of \<open>append\_audit\_filters\<close>: \<open>instr\<close> on lowercase text.\<close>

definition found_in :: "rstr \<Rightarrow> rstr \<Rightarrow> bool" where
  "found_in q t \<longleftrightarrow> sublist (to_ascii_lowercase q) (to_ascii_lowercase t)"

record audit_filter =
  af_tenant :: "rstr option"
  af_event :: "rstr option"
  af_query :: "rstr option"

definition audit_matches :: "audit_filter \<Rightarrow> audit_row \<Rightarrow> bool" where
  "audit_matches f r \<longleftrightarrow>
     (case af_tenant f of None \<Rightarrow> True | Some t \<Rightarrow> ar_tenant r = t)
     \<and> (case af_event f of None \<Rightarrow> True | Some e \<Rightarrow> e = [] \<or> ar_event r = e)
     \<and> (case af_query f of
          None \<Rightarrow> True
        | Some q \<Rightarrow> q = []
            \<or> found_in q (if ar_tenant r = [] then lit ''default'' else ar_tenant r)
            \<or> found_in q (ar_actor r) \<or> found_in q (ar_event r) \<or> found_in q (ar_subject r))"

definition i64_or :: "nat \<Rightarrow> nat \<Rightarrow> nat" where
  "i64_or fallback n = (if n \<le> top_i64 then n else fallback)"

definition audit_export ::
  "audit_filter \<Rightarrow> nat \<Rightarrow> nat \<Rightarrow> nat \<Rightarrow> chain_store \<Rightarrow> audit_row list" where
  "audit_export f since after_rowid limit s =
     take (i64_or 1000 limit) (sort_key (\<lambda>r. (ar_at r, ar_rowid r))
       (filter (\<lambda>r. (ar_at r > i64_or 0 since
                     \<or> ar_at r = i64_or 0 since \<and> ar_rowid r > i64_or 0 after_rowid)
                    \<and> audit_matches f r) (cs_audit s)))"

definition audit_recent ::
  "audit_filter \<Rightarrow> nat \<Rightarrow> nat \<Rightarrow> chain_store \<Rightarrow> audit_row list" where
  "audit_recent f before_rowid limit s =
     take (i64_or top_i64 limit) (rev (sort_key ar_rowid
       (filter (\<lambda>r. audit_matches f r
                    \<and> (before_rowid = 0 \<or> ar_rowid r < i64_or top_i64 before_rowid)) (cs_audit s))))"

definition audit_prune :: "nat \<Rightarrow> rstr list \<Rightarrow> chain_store \<Rightarrow> nat \<times> chain_store" where
  "audit_prune cutoff keep_subjects s =
     (let gone = (\<lambda>r. ar_at r < i64_or 0 cutoff \<and> ar_subject r \<notin> set keep_subjects)
      in (length (filter gone (cs_audit s)), s\<lparr>cs_audit := filter (\<lambda>r. \<not> gone r) (cs_audit s)\<rparr>))"

text \<open>What the removal of a tenant does here, and that of grants.\<close>

definition forget_tenant :: "rstr \<Rightarrow> chain_store \<Rightarrow> chain_store" where
  "forget_tenant tenant s = s\<lparr>cs_events := filter (\<lambda>r. er_tenant r \<noteq> tenant) (cs_events s)\<rparr>"

definition forget_grants :: "rstr list \<Rightarrow> chain_store \<Rightarrow> chain_store" where
  "forget_grants kept s =
     s\<lparr>cs_manifests := filter (\<lambda>(g, _). g \<in> set kept) (cs_manifests s),
       cs_evidence := filter (\<lambda>r. vr_grant r \<in> set kept) (cs_evidence s),
       cs_grants := filter (\<lambda>(g, _). g \<in> set kept) (cs_grants s)\<rparr>"

end
