(* ===== verification/EventHistory.thy ===== *)
theory EventHistory
  imports EventChain
begin

text \<open>
  What the chain of delivery events gives an auditor. Whatever the tables hold, an export is a
  list of events that verify and link from its start to its end (\<open>linked\<close>), so a terminal hash fixes
  every event before it. And while only the code writes the tables, every page of a tenant's
  history can be read, and the pages put together are the history.
\<close>

section \<open>Linked events\<close>

fun linked :: "('k, 'b) chain_lib \<Rightarrow> rstr \<Rightarrow> rstr \<Rightarrow> checkpoint \<Rightarrow> chain_event list \<Rightarrow> bool" where
  "linked lib issuer tenant previous [] \<longleftrightarrow> True"
| "linked lib issuer tenant previous (e # es) \<longleftrightarrow>
     verify_for lib issuer tenant e \<and> cp_id previous < ce_id e \<and> ce_previous e = cp_hash previous
     \<and> linked lib issuer tenant (checkpoint_of e) es"

definition reaches :: "checkpoint \<Rightarrow> chain_event list \<Rightarrow> checkpoint" where
  "reaches start es = (if es = [] then start else checkpoint_of (last es))"

lemma reaches_simps [simp]:
  "reaches c [] = c" "reaches c (e # es) = reaches (checkpoint_of e) es" "reaches c (es @ [e]) = checkpoint_of e"
  by (simp_all add: reaches_def)

lemma checkpoint_of_simps [simp]: "cp_id (checkpoint_of e) = ce_id e" "cp_hash (checkpoint_of e) = ce_hash e"
  by (simp_all add: checkpoint_of_def)

lemma linked_append:
  "linked lib issuer tenant c (xs @ ys) \<longleftrightarrow>
     linked lib issuer tenant c xs \<and> linked lib issuer tenant (reaches c xs) ys"
  by (induction xs arbitrary: c) auto

text \<open>A page is linked, and it is a prefix of the rows it was read from.\<close>

lemma page_loop_linked:
  "page_loop lib issuer tenant c bytes budget events rows n = (Inr out, n') \<Longrightarrow>
   \<exists>es. out = events @ es \<and> linked lib issuer tenant c es
      \<and> map (read_event lib) (take (length es) rows) = map Some es \<and> length es \<le> length rows \<and> n' = n"
proof (induction rows arbitrary: c bytes events)
  case (Cons row rows)
  show ?case
  proof (cases "read_event lib row")
    case None
    with Cons.prems show ?thesis by simp
  next
    case (Some e)
    show ?thesis
    proof (cases "verify_for lib issuer tenant e \<and> cp_id c < ce_id e \<and> ce_previous e = cp_hash c")
      case False
      with Cons.prems Some show ?thesis by (auto simp: Let_def split: if_splits)
    next
      case ok: True
      show ?thesis
      proof (cases "bytes + event_bytes lib e + 1 > budget")
        case True
        with Cons.prems Some ok have "out = events" "n' = n" by (auto simp: Let_def split: if_splits)
        then show ?thesis by (intro exI [of _ "[]"]) simp
      next
        case False
        with Cons.prems Some ok have
          "page_loop lib issuer tenant (checkpoint_of e) (bytes + event_bytes lib e + 1) budget (events @ [e]) rows n
           = (Inr out, n')" by (auto simp: Let_def)
        from Cons.IH [OF this] obtain es where
          es: "out = (events @ [e]) @ es" "linked lib issuer tenant (checkpoint_of e) es"
            "map (read_event lib) (take (length es) rows) = map Some es" "length es \<le> length rows" "n' = n" by blast
        with ok Some show ?thesis by (intro exI [of _ "e # es"]) auto
      qed
    qed
  qed
qed (simp add: exI [of _ "[]"])

lemma event_page_linked:
  "event_page lib issuer tenant c through limit budget s n = (Inr es, n') \<Longrightarrow> linked lib issuer tenant c es"
  unfolding event_page_def by (drule page_loop_linked) auto

lemma export_Inr:
  assumes "delivery_event_export lib issuer tenant start terminal limit s n = (Inr x, n')"
  shows "linked lib issuer tenant start (ex_events x)" "ex_start x = start" "ex_end x = reaches start (ex_events x)"
    "ex_complete x \<longleftrightarrow> ex_end x = ex_terminal x" "case terminal of None \<Rightarrow> True | Some t \<Rightarrow> ex_terminal x = t"
    "ex_complete x \<or> ex_events x \<noteq> []" "length (ex_events x) \<le> limit"
proof -
  obtain t events budget n1 n2 where
    t: "terminal_of lib issuer tenant terminal s n1 = (Inr t, n2)"
    and p: "event_page lib issuer tenant start (cp_id t) limit budget s n2 = (Inr events, n')"
    and x: "x = export_of issuer tenant start t events" "ex_complete x \<or> ex_events x \<noteq> []"
    using assms by (auto simp: delivery_event_export_def and_then_Inr ensures_Inr Let_def)
  show "linked lib issuer tenant start (ex_events x)"
    using event_page_linked [OF p] by (simp add: x(1) export_of_def Let_def)
  show "ex_start x = start" "ex_end x = reaches start (ex_events x)" "ex_complete x \<longleftrightarrow> ex_end x = ex_terminal x"
    by (simp_all add: x(1) export_of_def Let_def reaches_def)
  show "case terminal of None \<Rightarrow> True | Some t \<Rightarrow> ex_terminal x = t"
    using t by (auto simp: terminal_of_def x(1) export_of_def Let_def and_then_Inr split: option.split)
  show "ex_complete x \<or> ex_events x \<noteq> []" by (rule x(2))
  from p have "length events \<le> limit" unfolding event_page_def by (drule_tac page_loop_linked) auto
  then show "length (ex_events x) \<le> limit" by (simp add: x(1) export_of_def Let_def)
qed

section \<open>A terminal hash fixes the history\<close>

text \<open>What is relied on of the serialisation and of SHA-256: the bytes of a sealed event determine
  its document and signature, and a digest is not the empty text.\<close>

definition sealed_law :: "('k, 'b) chain_lib \<Rightarrow> bool" where
  "sealed_law lib \<longleftrightarrow>
     (\<forall>d s d' s'. sealed_json lib d s = sealed_json lib d' s' \<longrightarrow> d = d' \<and> s = s')
     \<and> (\<forall>b. sha256_hex (cl_stmts lib) b \<noteq> [])"

text \<open>The bytes that are hashed for an event, and two events of two histories whose hashed bytes
  differ and yet have one digest.\<close>

definition sealed_bytes :: "('k, 'b) chain_lib \<Rightarrow> chain_event \<Rightarrow> bytes" where
  "sealed_bytes lib e = sealed_json lib (event_document_of e) (ce_signature e)"

definition colliding_events :: "('k, 'b) chain_lib \<Rightarrow> chain_event list \<Rightarrow> chain_event list \<Rightarrow> bool" where
  "colliding_events lib xs ys \<longleftrightarrow>
     (\<exists>e \<in> set xs. \<exists>e' \<in> set ys. sealed_bytes lib e \<noteq> sealed_bytes lib e'
        \<and> sha256_hex (cl_stmts lib) (sealed_bytes lib e) = sha256_hex (cl_stmts lib) (sealed_bytes lib e'))"

lemma verified_hash: "verify_for lib issuer tenant e \<Longrightarrow> ce_hash e = event_hash lib (event_document_of e) (ce_signature e)"
  by (auto simp: verify_for_def verify_event_def Let_def)

lemma event_eqI:
  "event_document_of e = event_document_of e' \<Longrightarrow> ce_signature e = ce_signature e' \<Longrightarrow> ce_hash e = ce_hash e' \<Longrightarrow> e = e'"
  by (cases e; cases e') (simp add: event_document_of_def)

lemma same_hash_same_event:
  assumes "sealed_law lib" "verify_for lib i t e" "verify_for lib i' t' e'" "ce_hash e = ce_hash e'"
    "sealed_bytes lib e = sealed_bytes lib e'"
  shows "e = e'"
  using assms unfolding sealed_law_def sealed_bytes_def by (blast intro: event_eqI)

lemma verified_hash_nonempty: "sealed_law lib \<Longrightarrow> verify_for lib i t e \<Longrightarrow> ce_hash e \<noteq> []"
  using verified_hash [of lib i t e] by (simp add: event_hash_def sealed_law_def)

lemma linked_ends_agree:
  assumes law: "sealed_law lib"
  shows "linked lib i t no_checkpoint xs \<Longrightarrow> linked lib i' t' no_checkpoint ys \<Longrightarrow>
    cp_hash (reaches no_checkpoint xs) = cp_hash (reaches no_checkpoint ys) \<Longrightarrow> xs = ys \<or> colliding_events lib xs ys"
proof (induction xs arbitrary: ys rule: rev_induct)
  case Nil
  show ?case
  proof (cases ys rule: rev_cases)
    case (snoc zs e)
    with Nil.prems(2) have "verify_for lib i' t' e" by (simp add: linked_append)
    from verified_hash_nonempty [OF law this] Nil.prems(3) snoc show ?thesis by (simp add: no_checkpoint_def)
  qed simp
next
  case (snoc e xs)
  from snoc.prems(1) have e: "verify_for lib i t e" "ce_previous e = cp_hash (reaches no_checkpoint xs)"
    "linked lib i t no_checkpoint xs" by (simp_all add: linked_append)
  show ?case
  proof (cases ys rule: rev_cases)
    case Nil
    with snoc.prems(3) verified_hash_nonempty [OF law e(1)] show ?thesis by (simp add: no_checkpoint_def)
  next
    case (snoc zs f)
    with snoc.prems(2) have f: "verify_for lib i' t' f" "ce_previous f = cp_hash (reaches no_checkpoint zs)"
      "linked lib i' t' no_checkpoint zs" by (simp_all add: linked_append)
    from snoc.prems(3) snoc have h: "ce_hash e = ce_hash f" by simp
    show ?thesis
    proof (cases "sealed_bytes lib e = sealed_bytes lib f")
      case True
      with same_hash_same_event [OF law e(1) f(1) h] have "e = f" by simp
      with snoc.IH [OF e(3) f(3)] e(2) f(2) snoc show ?thesis by (auto simp: colliding_events_def)
    next
      case False
      moreover have "sha256_hex (cl_stmts lib) (sealed_bytes lib e) = sha256_hex (cl_stmts lib) (sealed_bytes lib f)"
        using h verified_hash [OF e(1)] verified_hash [OF f(1)] by (simp add: event_hash_def sealed_bytes_def)
      ultimately show ?thesis using snoc by (auto simp: colliding_events_def)
    qed
  qed
qed

section \<open>Tables written by the code\<close>

definition rows_ordered :: "chain_store \<Rightarrow> bool" where
  "rows_ordered s \<longleftrightarrow>
     sorted_wrt (<) (map er_id (cs_events s)) \<and> (\<forall>r \<in> set (cs_events s). 0 < er_id r \<and> er_id r \<le> cs_sequence s)
     \<and> 0 \<le> cs_sequence s \<and> cs_sequence s \<le> int top_i64"

text \<open>The event of a row, whatever its size; a row whose texts are small enough is read as its event.\<close>

definition event_of_row :: "('k, 'b) chain_lib \<Rightarrow> event_row \<Rightarrow> chain_event option" where
  "event_of_row lib r = map_option (\<lambda>payload.
     \<lparr>ce_id = as_u64 (er_id r), ce_tenant = er_tenant r, ce_grant = er_grant r, ce_kind = er_kind r,
      ce_created_at = as_u64 (er_created_at r), ce_payload = payload, ce_previous = er_previous r,
      ce_hash = er_hash r, ce_issuer = er_issuer r, ce_signature = er_signature r\<rparr>)
     (payload_parse lib (er_payload r))"

definition small_row :: "event_row \<Rightarrow> bool" where
  "small_row r \<longleftrightarrow> list_all (\<lambda>t. str_len t \<le> MAX_EVENT_PAGE_BYTES)
     [er_tenant r, er_grant r, er_kind r, er_payload r, er_previous r, er_hash r, er_issuer r, er_signature r]"

lemma read_small_row: "small_row r \<Longrightarrow> read_event lib r = event_of_row lib r"
  by (auto simp: small_row_def read_event_def event_of_row_def)

definition small_rows :: "rstr \<Rightarrow> chain_store \<Rightarrow> bool" where
  "small_rows tenant s \<longleftrightarrow> (\<forall>r \<in> set (cs_events s). er_tenant r = tenant \<longrightarrow> small_row r)"

text \<open>The events of a tenant.\<close>

definition history :: "('k, 'b) chain_lib \<Rightarrow> rstr \<Rightarrow> chain_store \<Rightarrow> chain_event list" where
  "history lib tenant s = map (the \<circ> event_of_row lib) (filter (\<lambda>r. er_tenant r = tenant) (cs_events s))"

definition history_good :: "('k, 'b) chain_lib \<Rightarrow> 'k \<Rightarrow> chain_store \<Rightarrow> bool" where
  "history_good lib key s \<longleftrightarrow>
     rows_ordered s \<and> (\<forall>r \<in> set (cs_events s). event_of_row lib r \<noteq> None)
     \<and> (\<forall>tenant. linked lib (key_hex (cl_stmts lib) key) tenant no_checkpoint (history lib tenant s))"

lemma tenant_rows_ordered: "rows_ordered s \<Longrightarrow> tenant_rows tenant s = filter (\<lambda>r. er_tenant r = tenant) (cs_events s)"
proof -
  assume "rows_ordered s"
  then have "sorted_wrt (<) (map er_id (filter (\<lambda>r. er_tenant r = tenant) (cs_events s)))"
    by (simp add: rows_ordered_def sorted_wrt_map sorted_wrt_filter)
  then have "sorted (map er_id (filter (\<lambda>r. er_tenant r = tenant) (cs_events s)))"
    by (simp add: strict_sorted_iff)
  then show ?thesis by (simp add: tenant_rows_def sorted_sort_id sort_key_id_if_sorted)
qed

lemma fold_max_bound: "\<forall>r \<in> set rows. er_id r \<le> m \<Longrightarrow> fold (\<lambda>r m. max (er_id r) m) rows m = (m :: int)"
  by (induction rows) auto

lemma next_id_ordered: "rows_ordered s \<Longrightarrow> next_id s = cs_sequence s + 1"
  by (simp add: rows_ordered_def next_id_def fold_max_bound)

lemma event_of_row_fields:
  assumes "event_of_row lib r = Some e"
  shows "ce_id e = as_u64 (er_id r)" "ce_hash e = er_hash r" "ce_tenant e = er_tenant r"
    "ce_grant e = er_grant r" "ce_kind e = er_kind r" "ce_previous e = er_previous r" "ce_issuer e = er_issuer r"
    "ce_signature e = er_signature r" "payload_parse lib (er_payload r) = Some (ce_payload e)"
  using assms by (auto simp: event_of_row_def)

lemma as_u64_pos: "0 \<le> i \<Longrightarrow> as_u64 i = nat i"
  by (simp add: as_u64_def)

lemma as_i64_u64: "n < 2 ^ 64 \<Longrightarrow> as_u64 (as_i64 n) = n"
  by (auto simp: as_u64_def as_i64_def top_i64_def)

lemma as_i64_small: "n \<le> top_i64 \<Longrightarrow> as_i64 n = int n"
  by (simp add: as_i64_def)

text \<open>Payloads are read back as they were written.\<close>

definition payload_law :: "('k, 'b) chain_lib \<Rightarrow> bool" where
  "payload_law lib \<longleftrightarrow> (\<forall>j. json_ok j \<longrightarrow> payload_parse lib (payload_text lib j) = Some j)"

lemma signed_event_verifies:
  assumes "signs (cl_stmts lib) key" "ce_issuer e = key_hex (cl_stmts lib) key"
    "ce_signature e = sign_hex (cl_stmts lib) key (event_message lib (event_document_of e))"
    "ce_hash e = event_hash lib (event_document_of e) (ce_signature e)" "0 < ce_id e"
  shows "verify_for lib (key_hex (cl_stmts lib) key) (ce_tenant e) e"
proof -
  from assms(1) obtain b where b: "unhex (cl_stmts lib) (key_hex (cl_stmts lib) key) = Some b" "length b = 32"
    "key_ok (cl_stmts lib) b" "\<And>m. \<exists>s. unhex (cl_stmts lib) (sign_hex (cl_stmts lib) key m) = Some s
        \<and> signature_ok (cl_stmts lib) s \<and> verify_strict (cl_stmts lib) b m s"
    unfolding signs_def by blast
  from b(4) [of "event_message lib (event_document_of e)"] obtain s where
    s: "unhex (cl_stmts lib) (ce_signature e) = Some s" "signature_ok (cl_stmts lib) s"
      "verify_strict (cl_stmts lib) b (event_message lib (event_document_of e)) s"
    unfolding assms(3) by blast
  with b(1-3) assms(2,4,5) show ?thesis by (simp add: verify_for_def verify_event_def Let_def)
qed

text \<open>The event that is appended, as it is read back.\<close>

lemma append_event_Inr:
  assumes sig: "signs (cl_stmts lib) key" and law: "payload_law lib" and p: "json_ok payload" and now: "now < 2 ^ 64"
    and good: "history_good lib key s" and h: "append_event lib key tenant grant kind payload now s = Inr t"
  obtains r e where "cs_events t = cs_events s @ [r]" "cs_sequence t = cs_sequence s + 1" "er_tenant r = tenant"
    "er_id r = cs_sequence s + 1" "cs_sequence t \<le> int top_i64" "event_of_row lib r = Some e"
    "verify_for lib (key_hex (cl_stmts lib) key) tenant e" "ce_previous e = last_hash tenant s"
    "ce_id e = nat (cs_sequence s + 1)" "cs_evidence t = cs_evidence s"
    "r = \<lparr>er_id = cs_sequence s + 1, er_tenant = tenant, er_grant = grant, er_kind = kind,
      er_created_at = as_i64 now, er_payload = payload_text lib payload, er_previous = last_hash tenant s,
      er_hash = ce_hash e, er_issuer = key_hex (cl_stmts lib) key, er_signature = ce_signature e\<rparr>"
    "ce_hash e \<in> range (sha256_hex (cl_stmts lib))" "ce_signature e \<in> range (sign_hex (cl_stmts lib) key)"
proof -
  have i: "next_id s = cs_sequence s + 1" using good by (simp add: history_good_def next_id_ordered)
  have pos: "0 < cs_sequence s + 1" using good by (simp add: history_good_def rows_ordered_def)
  define issuer where "issuer = key_hex (cl_stmts lib) key"
  define d where "d = \<lparr>ed_id = nat (cs_sequence s + 1), ed_tenant = tenant, ed_grant = grant, ed_kind = kind,
    ed_created_at = now, ed_payload = payload, ed_previous = last_hash tenant s, ed_issuer = issuer\<rparr>"
  define signature where "signature = sign_hex (cl_stmts lib) key (event_message lib d)"
  define r where "r = \<lparr>er_id = cs_sequence s + 1, er_tenant = tenant, er_grant = grant, er_kind = kind,
    er_created_at = as_i64 now, er_payload = payload_text lib payload, er_previous = last_hash tenant s,
    er_hash = event_hash lib d signature, er_issuer = issuer, er_signature = signature\<rparr>"
  define e where "e = \<lparr>ce_id = nat (cs_sequence s + 1), ce_tenant = tenant, ce_grant = grant, ce_kind = kind,
    ce_created_at = now, ce_payload = payload, ce_previous = last_hash tenant s,
    ce_hash = event_hash lib d signature, ce_issuer = issuer, ce_signature = signature\<rparr>"
  have doc: "event_document_of e = d" by (simp add: e_def d_def event_document_of_def)
  have read: "event_of_row lib r = Some e"
    using law p now pos by (simp add: event_of_row_def r_def e_def payload_law_def as_u64_pos as_i64_u64)
  have ver: "verify_for lib (key_hex (cl_stmts lib) key) tenant e"
    using signed_event_verifies [OF sig, of e] pos
    by (simp add: doc e_def issuer_def signature_def doc [unfolded e_def issuer_def signature_def])
  have t: "cs_events t = cs_events s @ [r]" "cs_sequence t = cs_sequence s + 1" "cs_sequence t \<le> int top_i64"
    "cs_evidence t = cs_evidence s"
    using h by (auto simp: append_event_def Let_def i insert_audit_def r_def d_def issuer_def signature_def
        split: if_splits)
  show thesis
    by (rule that [OF t(1,2) _ _ t(3) read ver _ _ t(4)])
      (simp_all add: r_def e_def issuer_def event_hash_def signature_def)
qed

lemma history_ids:
  assumes "history_good lib key s"
  shows "map ce_id (history lib tenant s) = map (nat \<circ> er_id) (filter (\<lambda>r. er_tenant r = tenant) (cs_events s))"
    and "map ce_hash (history lib tenant s) = map er_hash (filter (\<lambda>r. er_tenant r = tenant) (cs_events s))"
proof -
  have "ce_id (the (event_of_row lib r)) = nat (er_id r) \<and> ce_hash (the (event_of_row lib r)) = er_hash r"
    if "r \<in> set (cs_events s)" for r
  proof -
    from assms that obtain e where e: "event_of_row lib r = Some e" "0 < er_id r"
      by (auto simp: history_good_def rows_ordered_def)
    then show ?thesis using event_of_row_fields [OF e(1)] by (simp add: as_u64_pos)
  qed
  then show "map ce_id (history lib tenant s) = map (nat \<circ> er_id) (filter (\<lambda>r. er_tenant r = tenant) (cs_events s))"
    "map ce_hash (history lib tenant s) = map er_hash (filter (\<lambda>r. er_tenant r = tenant) (cs_events s))"
    by (auto simp: history_def)
qed

lemma history_last:
  assumes "history_good lib key s"
  shows "cp_hash (reaches no_checkpoint (history lib tenant s)) = last_hash tenant s"
    and "cp_id (reaches no_checkpoint (history lib tenant s)) \<le> nat (cs_sequence s)"
proof -
  let ?rows = "filter (\<lambda>r. er_tenant r = tenant) (cs_events s)"
  have ord: "rows_ordered s" using assms by (simp add: history_good_def)
  have rows: "tenant_rows tenant s = ?rows" by (rule tenant_rows_ordered [OF ord])
  have len: "history lib tenant s = [] \<longleftrightarrow> ?rows = []" by (simp add: history_def)
  show "cp_hash (reaches no_checkpoint (history lib tenant s)) = last_hash tenant s"
  proof (cases "?rows = []")
    case False
    with len have "ce_hash (last (history lib tenant s)) = er_hash (last ?rows)"
      using history_ids(2) [OF assms, of tenant] by (metis last_map)
    with False len rows show ?thesis by (simp add: reaches_def last_hash_def split: list.split)
  qed (use len rows in \<open>simp add: reaches_def last_hash_def no_checkpoint_def\<close>)
  show "cp_id (reaches no_checkpoint (history lib tenant s)) \<le> nat (cs_sequence s)"
  proof (cases "?rows = []")
    case False
    with len have "ce_id (last (history lib tenant s)) = nat (er_id (last ?rows))"
      using history_ids(1) [OF assms, of tenant] by (metis comp_apply last_map)
    moreover have "last ?rows \<in> set (cs_events s)" using last_in_set [OF False] by simp
    with ord have "er_id (last ?rows) \<le> cs_sequence s" by (simp add: rows_ordered_def)
    ultimately show ?thesis using False len by (simp add: reaches_def nat_mono)
  qed (use len in \<open>simp add: reaches_def no_checkpoint_def\<close>)
qed

lemma append_event_good:
  assumes sig: "signs (cl_stmts lib) key" and law: "payload_law lib" and p: "json_ok payload" and now: "now < 2 ^ 64"
    and good: "history_good lib key s" and h: "append_event lib key tenant grant kind payload now s = Inr t"
  shows "history_good lib key t"
proof -
  from append_event_Inr [OF assms] obtain r e where
    t: "cs_events t = cs_events s @ [r]" "cs_sequence t = cs_sequence s + 1" "er_tenant r = tenant"
      "er_id r = cs_sequence s + 1" "cs_sequence t \<le> int top_i64" "event_of_row lib r = Some e"
      "verify_for lib (key_hex (cl_stmts lib) key) tenant e" "ce_previous e = last_hash tenant s"
      "ce_id e = nat (cs_sequence s + 1)" by metis
  have ord: "rows_ordered s" using good by (simp add: history_good_def)
  have hist: "history lib u t = history lib u s @ (if u = tenant then [e] else [])" for u
    using t(1,3,6) by (simp add: history_def)
  have "rows_ordered t"
    using ord t by (auto simp: rows_ordered_def sorted_wrt_append)
  moreover have "\<forall>r \<in> set (cs_events t). event_of_row lib r \<noteq> None"
    using good t by (auto simp: history_good_def)
  moreover have "linked lib (key_hex (cl_stmts lib) key) u no_checkpoint (history lib u t)" for u
  proof (cases "u = tenant")
    case True
    have "cp_id (reaches no_checkpoint (history lib tenant s)) < ce_id e"
      using history_last(2) [OF good, of tenant] ord t(9) by (simp add: rows_ordered_def nat_add_distrib)
    moreover have "ce_previous e = cp_hash (reaches no_checkpoint (history lib tenant s))"
      using history_last(1) [OF good, of tenant] t(8) by simp
    moreover have "linked lib (key_hex (cl_stmts lib) key) tenant no_checkpoint (history lib tenant s)"
      using good by (simp add: history_good_def)
    ultimately show ?thesis using t(7) by (simp add: True hist linked_append)
  qed (use good in \<open>simp add: hist history_good_def\<close>)
  ultimately show ?thesis by (simp add: history_good_def)
qed

lemma history_good_same:
  "history_good lib key s \<Longrightarrow> cs_events t = cs_events s \<Longrightarrow> cs_sequence t = cs_sequence s \<Longrightarrow> history_good lib key t"
  by (simp add: history_good_def rows_ordered_def history_def)

lemma forget_tenant_good: "history_good lib key s \<Longrightarrow> history_good lib key (forget_tenant tenant s)"
proof -
  assume good: "history_good lib key s"
  have "history lib u (forget_tenant tenant s) = (if u = tenant then [] else history lib u s)" for u
    by (auto simp: history_def forget_tenant_def intro: arg_cong [where f = "map _"] filter_cong)
  with good show ?thesis
    by (auto simp: history_good_def rows_ordered_def forget_tenant_def sorted_wrt_map sorted_wrt_filter)
qed

section \<open>Reading back\<close>

text \<open>A page over linked rows that can be read: it never fails, and it moves on.\<close>

lemma page_loop_honest:
  assumes "linked lib issuer tenant c es" "map (read_event lib) rows = map Some es"
    "\<forall>e \<in> set es. event_bytes lib e < budget" "events = [] \<longrightarrow> bytes = 0"
  shows "\<exists>j \<le> length es. page_loop lib issuer tenant c bytes budget events rows n = (Inr (events @ take j es), n)
     \<and> (events = [] \<longrightarrow> es \<noteq> [] \<longrightarrow> 0 < j)"
  using assms
proof (induction es arbitrary: c rows bytes events)
  case (Cons e es)
  from Cons.prems(2) obtain row rest where r: "rows = row # rest" "read_event lib row = Some e"
    "map (read_event lib) rest = map Some es" by (cases rows) auto
  have ok: "verify_for lib issuer tenant e" "cp_id c < ce_id e" "ce_previous e = cp_hash c"
    "linked lib issuer tenant (checkpoint_of e) es" using Cons.prems(1) by simp_all
  show ?case
  proof (cases "bytes + event_bytes lib e + 1 > budget")
    case True
    with Cons.prems(3,4) have "events \<noteq> []" by auto
    with True r ok show ?thesis by (intro exI [of _ 0]) (simp add: Let_def)
  next
    case False
    from Cons.IH [OF ok(4) r(3), where bytes = "bytes + event_bytes lib e + 1" and events = "events @ [e]"] Cons.prems(3)
    obtain j where j: "j \<le> length es"
      "page_loop lib issuer tenant (checkpoint_of e) (bytes + event_bytes lib e + 1) budget (events @ [e]) rest n
        = (Inr ((events @ [e]) @ take j es), n)" by auto
    with False r ok show ?thesis by (intro exI [of _ "Suc j"]) (simp add: Let_def)
  qed
qed simp

lemma linked_ids: "linked lib issuer tenant c es \<Longrightarrow> sorted_wrt (<) (cp_id c # map ce_id es)"
proof (induction es arbitrary: c)
  case (Cons e es)
  then have "sorted_wrt (<) (ce_id e # map ce_id es)" using Cons.IH [of "checkpoint_of e"] by simp
  with Cons.prems show ?case by fastforce
qed simp

text \<open>The rows up to the k-th event of a tenant, and those behind it.\<close>

lemma split_rows:
  assumes good: "history_good lib key s" and k: "k \<le> length (history lib tenant s)"
  defines "rows \<equiv> tenant_rows tenant s" and "c \<equiv> reaches no_checkpoint (take k (history lib tenant s))"
  shows "filter (\<lambda>r. er_id r \<le> as_i64 (cp_id c)) rows = take k rows"
    and "filter (\<lambda>r. er_id r > as_i64 (cp_id c) \<and> er_id r \<le> as_i64 top_i64) rows = drop k rows"
    and "cp_id c \<le> top_i64"
proof -
  have ord: "rows_ordered s" using good by (simp add: history_good_def)
  have rows: "rows = filter (\<lambda>r. er_tenant r = tenant) (cs_events s)"
    unfolding rows_def by (rule tenant_rows_ordered [OF ord])
  have len: "length rows = length (history lib tenant s)" by (simp add: rows history_def)
  have sorted: "sorted_wrt (\<lambda>r r'. er_id r < er_id r') rows"
    using ord by (simp add: rows rows_ordered_def sorted_wrt_map sorted_wrt_filter)
  have range: "0 < er_id r \<and> er_id r \<le> int top_i64" if "r \<in> set rows" for r
    using ord that by (fastforce simp: rows rows_ordered_def)
  have ids: "ce_id (history lib tenant s ! i) = nat (er_id (rows ! i))" if "i < length rows" for i
    using history_ids(1) [OF good, of tenant] that len rows
    by (metis (no_types, lifting) comp_apply nth_map)
  have c: "int (cp_id c) = (if k = 0 then 0 else er_id (rows ! (k - 1)))"
  proof (cases "k = 0")
    case False
    with k len have "last (take k (history lib tenant s)) = history lib tenant s ! (k - 1)"
      by (subst last_conv_nth) auto
    moreover have "take k (history lib tenant s) \<noteq> []" using False k len by (cases "history lib tenant s") auto
    moreover have "0 < er_id (rows ! (k - 1))" using range [of "rows ! (k - 1)"] False k len by simp
    ultimately show ?thesis using ids [of "k - 1"] False k len by (simp add: c_def reaches_def)
  qed (simp add: c_def reaches_def no_checkpoint_def)
  show small: "cp_id c \<le> top_i64"
  proof (cases "k = 0")
    case False
    then have "er_id (rows ! (k - 1)) \<le> int top_i64" using range [of "rows ! (k - 1)"] k len by simp
    with c False show ?thesis by simp
  qed (use c in simp)
  have below: "er_id r \<le> int (cp_id c)" if "r \<in> set (take k rows)" for r
  proof -
    from that obtain i where i: "i < k" "r = rows ! i" "i < length rows"
      by (auto simp: in_set_conv_nth)
    show ?thesis
    proof (cases "i = k - 1")
      case False
      with i k len have "er_id (rows ! i) < er_id (rows ! (k - 1))"
        by (intro sorted_wrt_nth_less [OF sorted]) auto
      with c i show ?thesis by simp
    qed (use c i in simp)
  qed
  have above: "int (cp_id c) < er_id r" if "r \<in> set (drop k rows)" for r
  proof -
    from that obtain j where j: "r = rows ! (k + j)" "k + j < length rows" by (auto simp: in_set_conv_nth)
    show ?thesis
    proof (cases "k = 0")
      case False
      with j have "er_id (rows ! (k - 1)) < er_id (rows ! (k + j))"
        by (intro sorted_wrt_nth_less [OF sorted]) auto
      with c False j show ?thesis by simp
    next
      case True
      with c range [of r] j show ?thesis by simp
    qed
  qed
  have split: "filter P rows = filter P (take k rows) @ filter P (drop k rows)" for P
    by (metis append_take_drop_id filter_append)
  show "filter (\<lambda>r. er_id r \<le> as_i64 (cp_id c)) rows = take k rows"
    unfolding split as_i64_small [OF small] using below above by (simp add: filter_empty_conv filter_id_conv not_le)
  have "er_id r \<le> int top_i64" if "r \<in> set (drop k rows)" for r using range in_set_dropD [OF that] by blast
  then show "filter (\<lambda>r. er_id r > as_i64 (cp_id c) \<and> er_id r \<le> as_i64 top_i64) rows = drop k rows"
    unfolding split as_i64_small [OF small] using below above
    by (simp add: filter_empty_conv filter_id_conv not_less as_i64_small)
qed

lemma tenant_rows_read:
  assumes good: "history_good lib key s" and small: "small_rows tenant s"
  shows "map (read_event lib) (tenant_rows tenant s) = map Some (history lib tenant s)"
  using good small by (auto simp: tenant_rows_ordered history_good_def history_def small_rows_def read_small_row)

lemma predecessor_good:
  assumes good: "history_good lib key s" and small: "small_rows tenant s" and k: "k \<le> length (history lib tenant s)"
    and rows: "filter (\<lambda>r. er_id r \<le> as_i64 through) (tenant_rows tenant s) = take k (tenant_rows tenant s)"
  shows "predecessor lib (key_hex (cl_stmts lib) key) tenant through s n
    = (Inr (reaches no_checkpoint (take k (history lib tenant s))), n)"
proof (cases "take k (tenant_rows tenant s) = []")
  case True
  with tenant_rows_read [OF good small] have "take k (history lib tenant s) = []"
    by (metis map_is_Nil_conv take_map)
  with True rows show ?thesis by (simp add: predecessor_def reaches_def)
next
  case False
  let ?es = "take k (history lib tenant s)"
  have read: "map (read_event lib) (take k (tenant_rows tenant s)) = map Some ?es"
    using tenant_rows_read [OF good small] by (metis take_map)
  then have ne: "?es \<noteq> []" using False by (metis map_is_Nil_conv)
  then have "read_event lib (last (take k (tenant_rows tenant s))) = Some (last ?es)"
    using read False by (metis last_map)
  moreover have "linked lib (key_hex (cl_stmts lib) key) tenant no_checkpoint (?es @ drop k (history lib tenant s))"
    using good by (simp add: history_good_def)
  then have "verify_for lib (key_hex (cl_stmts lib) key) tenant (last ?es)"
    using append_butlast_last_id [OF ne] by (metis linked.simps(2) linked_append)
  ultimately show ?thesis using False ne rows by (simp add: predecessor_def reaches_def)
qed

text \<open>Sizes: every event of a tenant fits a page beside the envelope of the exports of its history.\<close>

definition envelope :: "rstr \<Rightarrow> rstr \<Rightarrow> checkpoint \<Rightarrow> checkpoint \<Rightarrow> event_export" where
  "envelope issuer tenant start t = \<lparr>ex_issuer = issuer, ex_tenant = tenant, ex_start = start, ex_end = t,
     ex_terminal = t, ex_complete = False, ex_events = []\<rparr>"

definition pages_fit :: "('k, 'b) chain_lib \<Rightarrow> rstr \<Rightarrow> rstr \<Rightarrow> chain_event list \<Rightarrow> bool" where
  "pages_fit lib issuer tenant es \<longleftrightarrow>
     (\<forall>k \<le> length es.
        let x = envelope issuer tenant (reaches no_checkpoint (take k es)) (reaches no_checkpoint es)
        in export_bytes lib x \<le> MAX_EVENT_PAGE_BYTES
           \<and> (\<forall>e \<in> set es. export_bytes lib x + event_bytes lib e < MAX_EVENT_PAGE_BYTES))"

lemma export_good:
  assumes good: "history_good lib key s" and fits: "small_rows tenant s" and k: "k \<le> length (history lib tenant s)"
    and limit: "1 \<le> limit" "limit \<le> 100"
    and fit: "pages_fit lib (key_hex (cl_stmts lib) key) tenant (history lib tenant s)"
  shows "\<exists>j x. delivery_event_export lib (key_hex (cl_stmts lib) key) tenant
      (reaches no_checkpoint (take k (history lib tenant s))) None limit s n = (Inr x, n)
      \<and> ex_events x = take j (drop k (history lib tenant s)) \<and> j \<le> length (history lib tenant s) - k
      \<and> ex_end x = reaches no_checkpoint (take (k + j) (history lib tenant s))
      \<and> (k < length (history lib tenant s) \<longrightarrow> 0 < j)
      \<and> (ex_complete x \<longleftrightarrow> k + j = length (history lib tenant s))"
proof -
  define es where "es = history lib tenant s"
  define issuer where "issuer = key_hex (cl_stmts lib) key"
  define start where "start = reaches no_checkpoint (take k es)"
  define t where "t = reaches no_checkpoint es"
  note split = split_rows [OF good, of _ tenant]
  have len: "length (tenant_rows tenant s) = length es"
    using arg_cong [OF tenant_rows_read [OF good fits], of length] by (simp add: es_def)
  have link: "linked lib issuer tenant no_checkpoint es" using good by (simp add: history_good_def es_def issuer_def)
  have small: "cp_id start \<le> top_i64" "cp_id t \<le> top_i64"
    using split(3) [OF k] split(3) [of "length es"] by (simp_all add: start_def t_def es_def)
  have rc: "require_checkpoint lib issuer tenant start s n = (Inr (), n)"
    using predecessor_good [OF good fits k split(1) [OF k]] small
    by (simp add: require_checkpoint_def and_then_def ensures_def start_def es_def issuer_def)
  have all: "filter (\<lambda>r. er_id r \<le> as_i64 top_i64) (tenant_rows tenant s) = take (length es) (tenant_rows tenant s)"
  proof -
    have "filter (\<lambda>r. er_id r > 0 \<and> er_id r \<le> as_i64 top_i64) (tenant_rows tenant s) = tenant_rows tenant s"
      using split(2) [of 0] by (simp add: no_checkpoint_def as_i64_def)
    then have "\<forall>r \<in> set (tenant_rows tenant s). er_id r \<le> as_i64 top_i64" by (metis (no_types, lifting) mem_Collect_eq set_filter)
    then show ?thesis using len by simp
  qed
  have tm: "terminal_of lib issuer tenant None s n = (Inr t, n)"
    using predecessor_good [OF good fits, of "length es" top_i64] all
    by (simp add: terminal_of_def t_def es_def issuer_def)
  have order: "cp_id start \<le> cp_id t"
  proof -
    have "es = take k es @ drop k es" by simp
    then have l: "linked lib issuer tenant start (drop k es)" "t = reaches start (drop k es)"
      using link linked_append [of lib issuer tenant no_checkpoint "take k es" "drop k es"]
      by (auto simp: start_def t_def reaches_def)
    show ?thesis
    proof (cases "drop k es = []")
      case False
      then have "last (map ce_id (drop k es)) \<in> set (map ce_id (drop k es))" by (intro last_in_set) simp
      with linked_ids [OF l(1)] False l(2) show ?thesis by (auto simp: reaches_def last_map)
    qed (simp add: l(2))
  qed
  let ?env = "envelope issuer tenant start t"
  have env: "export_bytes lib ?env \<le> MAX_EVENT_PAGE_BYTES"
    "\<forall>e \<in> set es. event_bytes lib e < MAX_EVENT_PAGE_BYTES - export_bytes lib ?env"
    using fit k by (auto simp: pages_fit_def Let_def es_def issuer_def start_def t_def less_diff_conv add.commute)
  let ?budget = "MAX_EVENT_PAGE_BYTES - export_bytes lib ?env"
  have upto: "filter (\<lambda>r. er_id r > as_i64 (cp_id start) \<and> er_id r \<le> as_i64 (cp_id t)) (tenant_rows tenant s)
      = drop k (tenant_rows tenant s)"
  proof -
    have "\<forall>r \<in> set (tenant_rows tenant s). er_id r \<le> as_i64 (cp_id t)"
      using split(1) [of "length es"] len by (simp add: es_def t_def) (metis (no_types, lifting) filter_id_conv)
    then have "filter (\<lambda>r. er_id r > as_i64 (cp_id start) \<and> er_id r \<le> as_i64 (cp_id t)) (tenant_rows tenant s)
      = filter (\<lambda>r. er_id r > as_i64 (cp_id start) \<and> er_id r \<le> as_i64 top_i64) (tenant_rows tenant s)"
      using all len by (intro filter_cong refl) (metis (no_types, lifting) filter_id_conv take_all_iff order_refl)
    with split(2) [OF k] show ?thesis by (simp add: start_def es_def)
  qed
  have page_rows: "map (read_event lib) (take (min limit 100) (drop k (tenant_rows tenant s)))
      = map Some (take limit (drop k es))"
    using tenant_rows_read [OF good fits] limit by (simp add: es_def min_def take_map drop_map flip: take_map drop_map)
  have page_link: "linked lib issuer tenant start (take limit (drop k es))"
  proof -
    have "es = take k es @ take limit (drop k es) @ drop limit (drop k es)" by (metis append_take_drop_id)
    with link show ?thesis unfolding start_def by (metis linked_append)
  qed
  have "\<forall>e \<in> set (take limit (drop k es)). event_bytes lib e < ?budget"
    using env(2) by (auto dest!: in_set_takeD in_set_dropD)
  from page_loop_honest [OF page_link page_rows this, of "[]" 0 n] obtain j where
    p: "j \<le> length (take limit (drop k es))"
      "page_loop lib issuer tenant start 0 ?budget [] (take (min limit 100) (drop k (tenant_rows tenant s))) n
        = (Inr ([] @ take j (take limit (drop k es))), n)"
      "[] = ([] :: chain_event list) \<longrightarrow> take limit (drop k es) \<noteq> [] \<longrightarrow> 0 < j" by blast
  note j = p(1) p(2) [unfolded append_Nil, folded upto, folded event_page_def] mp [OF p(3) refl]
  have jl: "take j (take limit (drop k es)) = take j (drop k es)" using j(1) by (auto simp: min_def split: if_splits)
  let ?x = "export_of issuer tenant start t (take j (drop k es))"
  have end': "ex_end ?x = reaches no_checkpoint (take (k + j) es)"
    by (simp add: export_of_def Let_def take_add start_def reaches_def)
  have comp: "ex_complete ?x \<longleftrightarrow> k + j = length es"
  proof
    assume "ex_complete ?x"
    then have eq: "reaches no_checkpoint (take (k + j) es) = t"
      using end' by (simp add: export_of_def Let_def)
    show "k + j = length es"
    proof (rule ccontr)
      assume "k + j \<noteq> length es"
      with j(1) k have lt: "k + j < length es" by (auto simp: es_def)
      have "es = take (k + j) es @ drop (k + j) es" by simp
      then have "linked lib issuer tenant (reaches no_checkpoint (take (k + j) es)) (drop (k + j) es)"
        using link by (metis linked_append)
      then have "sorted_wrt (<) (cp_id t # map ce_id (drop (k + j) es))" using linked_ids eq by metis
      moreover have "last es \<in> set (drop (k + j) es)" using lt by (metis drop_eq_Nil last_drop last_in_set not_le)
      ultimately have "cp_id t < ce_id (last es)" by auto
      moreover have "es \<noteq> []" using lt by auto
      ultimately show False by (simp add: t_def reaches_def)
    qed
  qed (use end' in \<open>simp add: export_of_def Let_def t_def\<close>)
  have moved: "k < length es \<longrightarrow> 0 < j" using j(3) limit by auto
  then have ok: "ex_complete ?x \<or> ex_events ?x \<noteq> []"
    using comp j(1) k by (cases "k < length es") (auto simp: export_of_def Let_def es_def)
  have "delivery_event_export lib issuer tenant start None limit s n = (Inr ?x, n)"
    using limit rc tm order j(2) [unfolded jl] env(1) ok
    by (simp add: delivery_event_export_def and_then_def ensures_def Let_def yields_def envelope_def)
  with end' comp moved j(1) k show ?thesis
    by (intro exI [of _ j] exI [of _ ?x]) (auto simp: es_def issuer_def start_def export_of_def Let_def)
qed

text \<open>An auditor who asks for page after page, from where the last one ended.\<close>

fun collect ::
  "('k, 'b) chain_lib \<Rightarrow> rstr \<Rightarrow> rstr \<Rightarrow> nat \<Rightarrow> chain_store \<Rightarrow> nat \<Rightarrow> checkpoint \<Rightarrow> chain_event list option" where
  "collect lib issuer tenant limit s 0 start = None"
| "collect lib issuer tenant limit s (Suc fuel) start =
     (case fst (delivery_event_export lib issuer tenant start None limit s 0) of
        Inl _ \<Rightarrow> None
      | Inr x \<Rightarrow>
          if ex_complete x then Some (ex_events x)
          else map_option ((@) (ex_events x)) (collect lib issuer tenant limit s fuel (ex_end x)))"

lemma collect_good:
  assumes good: "history_good lib key s" and small: "small_rows tenant s" and limit: "1 \<le> limit" "limit \<le> 100"
    and fit: "pages_fit lib (key_hex (cl_stmts lib) key) tenant (history lib tenant s)"
  shows "k \<le> length (history lib tenant s) \<Longrightarrow> length (history lib tenant s) - k < fuel \<Longrightarrow>
    collect lib (key_hex (cl_stmts lib) key) tenant limit s fuel
      (reaches no_checkpoint (take k (history lib tenant s))) = Some (drop k (history lib tenant s))"
proof (induction fuel arbitrary: k)
  case (Suc fuel)
  from export_good [OF good small Suc.prems(1) limit fit, of 0] obtain j x where
    x: "delivery_event_export lib (key_hex (cl_stmts lib) key) tenant
        (reaches no_checkpoint (take k (history lib tenant s))) None limit s 0 = (Inr x, 0)"
      "ex_events x = take j (drop k (history lib tenant s))" "j \<le> length (history lib tenant s) - k"
      "ex_end x = reaches no_checkpoint (take (k + j) (history lib tenant s))"
      "k < length (history lib tenant s) \<longrightarrow> 0 < j" "ex_complete x \<longleftrightarrow> k + j = length (history lib tenant s)"
    by blast
  show ?case
  proof (cases "ex_complete x")
    case True
    with x show ?thesis by simp
  next
    case False
    with x(3,5,6) Suc.prems(1) have j: "0 < j" "k + j \<le> length (history lib tenant s)" by auto
    with Suc.prems(2) have "length (history lib tenant s) - (k + j) < fuel" by simp
    from Suc.IH [OF j(2) this] False x show ?thesis
      by (simp add: add.commute flip: drop_drop)
  qed
qed simp

end
