(* ===== verification/EventSystem.thy ===== *)
theory EventSystem
  imports EventHistory "HOL-Library.Countable"
begin

text \<open>
  The tables of delivery events and evidence as a transition system: events of any delivery,
  submitted and purged evidence, audit rows, tenants and grants that come and go. In every state
  reached the history of each tenant is good, and the recorded evidence is ordered and signed
  (\<open>evidence_ok\<close>).
\<close>

section \<open>Evidence\<close>

definition signed_row :: "('k, 'b) chain_lib \<Rightarrow> 'k \<Rightarrow> evidence_row \<Rightarrow> bool" where
  "signed_row lib key r \<longleftrightarrow>
     (let e = vr_evidence r; c = sc_challenge (ev_authorization e)
      in verify_evidence (cl_stmts lib) e (key_hex (cl_stmts lib) key) \<and> vr_id r = evidence_id (cl_stmts lib) e
         \<and> vr_grant r = ch_grant_id c \<and> vr_holder r = ch_holder c \<and> vr_kind r = ev_kind e)"

definition verified_earlier :: "evidence_row list \<Rightarrow> evidence_row \<Rightarrow> bool" where
  "verified_earlier rows r \<longleftrightarrow>
     (\<exists>q \<in> set rows. vr_grant q = vr_grant r \<and> vr_holder q = vr_holder r \<and> vr_kind q = Verified
        \<and> vr_rowid q < vr_rowid r)"

definition evidence_ok :: "('k, 'b) chain_lib \<Rightarrow> 'k \<Rightarrow> chain_store \<Rightarrow> bool" where
  "evidence_ok lib key s \<longleftrightarrow>
     distinct (map vr_id (cs_evidence s)) \<and> (\<forall>r \<in> set (cs_evidence s). signed_row lib key r)
     \<and> (\<forall>r \<in> set (cs_evidence s). vr_kind r = Accepted \<longrightarrow> verified_earlier (cs_evidence s) r)
     \<and> (\<forall>g. length (filter (\<lambda>r. vr_grant r = g) (cs_evidence s)) \<le> MAX_EVIDENCE)"

text \<open>Deleting the evidence of whole grants keeps the rest in order.\<close>

lemma evidence_ok_filter:
  assumes "evidence_ok lib key s" "cs_evidence t = filter (\<lambda>r. P (vr_grant r)) (cs_evidence s)"
  shows "evidence_ok lib key t"
proof -
  have len: "length (filter (\<lambda>r. vr_grant r = g) (cs_evidence t)) \<le> length (filter (\<lambda>r. vr_grant r = g) (cs_evidence s))" for g
  proof -
    have "filter (\<lambda>r. vr_grant r = g) (cs_evidence t) = filter (\<lambda>r. P (vr_grant r)) (filter (\<lambda>r. vr_grant r = g) (cs_evidence s))"
      by (auto simp: assms(2) intro: filter_cong)
    then show ?thesis using length_filter_le by metis
  qed
  have "distinct (map vr_id (cs_evidence t))"
    using assms by (simp add: evidence_ok_def distinct_map_filter)
  moreover have "verified_earlier (cs_evidence t) r" if "r \<in> set (cs_evidence t)" "vr_kind r = Accepted" for r
    using assms that unfolding evidence_ok_def verified_earlier_def by fastforce
  ultimately show ?thesis
    using assms le_trans [OF len] by (auto simp: evidence_ok_def)
qed

lemma evidence_ok_same: "evidence_ok lib key s \<Longrightarrow> cs_evidence t = cs_evidence s \<Longrightarrow> evidence_ok lib key t"
  by (simp add: evidence_ok_def)

text \<open>What a submission that is accepted has passed.\<close>

lemma submit_evidence_Inr:
  assumes "submit_evidence lib key origin e now s = Inr (b, t)"
  obtains (duplicate) "evidence_recorded (evidence_id (cl_stmts lib) e) s" "\<not> b" "t = s"
    | (recorded) g manifest u where "b" "\<not> evidence_recorded (evidence_id (cl_stmts lib) e) s"
      "verify_evidence (cl_stmts lib) e (key_hex (cl_stmts lib) key)"
      "map_of (cs_grants s) (ch_grant_id (sc_challenge (ev_authorization e))) = Some g"
      "map_of (cs_manifests s) (ch_grant_id (sc_challenge (ev_authorization e))) = Some manifest"
      "ev_kind e = Accepted \<longrightarrow> has_evidence (ch_grant_id (sc_challenge (ev_authorization e)))
         (ch_holder (sc_challenge (ev_authorization e))) Verified s"
      "length (filter (\<lambda>r. vr_grant r = ch_grant_id (sc_challenge (ev_authorization e))) (cs_evidence s)) < MAX_EVIDENCE"
      "u = insert_evidence (evidence_id (cl_stmts lib) e) e now s"
      "t = u \<or> append_event lib key (dg_tenant g) (ch_grant_id (sc_challenge (ev_authorization e)))
         (lit ''recipient_'' @ kind_text (ev_kind e))
         (evidence_payload (evidence_id (cl_stmts lib) e) manifest (ch_holder (sc_challenge (ev_authorization e))))
         now u = Inr t"
proof -
  from assms have v: "verify_evidence (cl_stmts lib) e (key_hex (cl_stmts lib) key)"
    and r: "record_evidence lib key e now s = Inr (b, t)"
    by (cases "record_evidence lib key e now s"; auto simp: submit_evidence_def Let_def split: if_splits)+
  let ?c = "sc_challenge (ev_authorization e)"
  from r obtain g manifest where g: "map_of (cs_grants s) (ch_grant_id ?c) = Some g"
    "map_of (cs_manifests s) (ch_grant_id ?c) = Some manifest"
    by (auto simp: record_evidence_def Let_def split: option.splits)
  show thesis
  proof (cases "evidence_recorded (evidence_id (cl_stmts lib) e) s")
    case True
    with r g duplicate show thesis by (auto simp: record_evidence_def Let_def split: if_splits)
  next
    case False
    let ?u = "insert_evidence (evidence_id (cl_stmts lib) e) e now s"
    have "b \<and> (ev_kind e = Accepted \<longrightarrow> has_evidence (ch_grant_id ?c) (ch_holder ?c) Verified s)
      \<and> length (filter (\<lambda>r. vr_grant r = ch_grant_id ?c) (cs_evidence s)) < MAX_EVIDENCE
      \<and> (t = ?u \<or> append_event lib key (dg_tenant g) (ch_grant_id ?c) (lit ''recipient_'' @ kind_text (ev_kind e))
           (evidence_payload (evidence_id (cl_stmts lib) e) manifest (ch_holder ?c)) now ?u = Inr t)"
      using r g False
      by (cases "append_event lib key (dg_tenant g) (ch_grant_id ?c) (lit ''recipient_'' @ kind_text (ev_kind e))
           (evidence_payload (evidence_id (cl_stmts lib) e) manifest (ch_holder ?c)) now ?u")
        (auto simp: record_evidence_def Let_def not_le split: if_splits)
    with False v g recorded show thesis by blast
  qed
qed

lemma insert_evidence_fields [simp]:
  "cs_events (insert_evidence i e now s) = cs_events s" "cs_sequence (insert_evidence i e now s) = cs_sequence s"
  by (simp_all add: insert_evidence_def)

lemma insert_evidence_ok:
  assumes ok: "evidence_ok lib key s" and e: "verify_evidence (cl_stmts lib) e (key_hex (cl_stmts lib) key)"
    and new: "\<not> evidence_recorded (evidence_id (cl_stmts lib) e) s"
    and c: "c = sc_challenge (ev_authorization e)"
    and order: "ev_kind e = Accepted \<longrightarrow> has_evidence (ch_grant_id c) (ch_holder c) Verified s"
    and room: "length (filter (\<lambda>r. vr_grant r = ch_grant_id c) (cs_evidence s)) < MAX_EVIDENCE"
  shows "evidence_ok lib key (insert_evidence (evidence_id (cl_stmts lib) e) e now s)"
proof -
  define r where "r = \<lparr>vr_rowid = (if cs_evidence s = [] then 1 else Max (set (map vr_rowid (cs_evidence s))) + 1),
    vr_id = evidence_id (cl_stmts lib) e, vr_grant = ch_grant_id c, vr_holder = ch_holder c, vr_kind = ev_kind e,
    vr_received_at = now, vr_evidence = e\<rparr>"
  have rows: "cs_evidence (insert_evidence (evidence_id (cl_stmts lib) e) e now s) = cs_evidence s @ [r]"
    by (simp add: insert_evidence_def r_def c)
  have later: "vr_rowid q < vr_rowid r" if "q \<in> set (cs_evidence s)" for q
  proof -
    have "vr_rowid q \<le> Max (set (map vr_rowid (cs_evidence s)))" using that by (intro Max_ge) auto
    with that show ?thesis by (auto simp: r_def less_Suc_eq_le)
  qed
  have "vr_id r \<notin> set (map vr_id (cs_evidence s))"
    using new by (auto simp: evidence_recorded_def r_def list_ex_iff)
  with ok have "distinct (map vr_id (cs_evidence s @ [r]))" by (simp add: evidence_ok_def)
  moreover have "signed_row lib key r" using e by (simp add: signed_row_def r_def c Let_def)
  moreover have "verified_earlier (cs_evidence s @ [r]) q"
    if "q \<in> set (cs_evidence s @ [r])" "vr_kind q = Accepted" for q
  proof (cases "q = r")
    case True
    with that order have "has_evidence (ch_grant_id c) (ch_holder c) Verified s" by (simp add: r_def)
    then obtain p where "p \<in> set (cs_evidence s)" "vr_grant p = vr_grant r" "vr_holder p = vr_holder r" "vr_kind p = Verified"
      by (auto simp: has_evidence_def list_ex_iff r_def)
    with later True show ?thesis unfolding verified_earlier_def by (metis in_set_conv_decomp_first Un_iff set_append)
  next
    case False
    with that ok have "verified_earlier (cs_evidence s) q" by (auto simp: evidence_ok_def)
    then show ?thesis by (auto simp: verified_earlier_def)
  qed
  moreover have "length (filter (\<lambda>q. vr_grant q = g) (cs_evidence s @ [r])) \<le> MAX_EVIDENCE" for g
    using ok room by (auto simp: evidence_ok_def r_def)
  ultimately show ?thesis using ok by (auto simp: evidence_ok_def rows)
qed

lemma append_event_evidence: "append_event lib key tenant grant kind payload now s = Inr t \<Longrightarrow> cs_evidence t = cs_evidence s"
  by (auto simp: append_event_def Let_def insert_audit_def split: if_splits)

section \<open>The system\<close>

lemma evidence_payload_ok: "json_ok (evidence_payload i manifest holder)"
  by (simp add: evidence_payload_def json_object_def lit_def)

lemma purge_payload_ok: "n \<le> u64_max \<Longrightarrow> json_ok (purge_payload actor n)"
  by (auto simp: purge_payload_def json_object_def lit_def)

text \<open>An event of any delivery carries a payload the code builds; the clock is a \<open>u64\<close>.\<close>

inductive chain_step :: "('k, 'b) chain_lib \<Rightarrow> 'k \<Rightarrow> chain_store \<Rightarrow> chain_store \<Rightarrow> bool"
  for lib :: "('k, 'b) chain_lib" and key :: 'k where
  chain_event: "json_ok payload \<Longrightarrow> now < 2 ^ 64 \<Longrightarrow>
    append_event lib key tenant grant kind payload now s = Inr t \<Longrightarrow> chain_step lib key s t"
| chain_submit: "now < 2 ^ 64 \<Longrightarrow> submit_evidence lib key origin e now s = Inr (b, t) \<Longrightarrow>
    chain_step lib key s t"
| chain_purge: "now < 2 ^ 64 \<Longrightarrow> purge_evidence lib key tenant grant actor now s = Inr (n, t) \<Longrightarrow> chain_step lib key s t"
| chain_manifest: "chain_step lib key s (snd (delivery_manifest (cl_stmts lib) grant s))"
| chain_audit: "chain_step lib key s (insert_audit now tenant actor event subject detail s)"
| chain_prune: "chain_step lib key s (snd (audit_prune cutoff subjects s))"
| chain_tenant: "chain_step lib key s (forget_tenant tenant s)"
| chain_grants: "chain_step lib key s (forget_grants kept s)"
| chain_others: "chain_step lib key s (s\<lparr>cs_grants := grants, cs_jobs := jobs\<rparr>)"

inductive_cases chain_stepE: "chain_step lib key s t"

definition chain_start :: "chain_store \<Rightarrow> bool" where
  "chain_start s \<longleftrightarrow> cs_events s = [] \<and> cs_sequence s = 0 \<and> cs_evidence s = []"

definition chain_law :: "('k, 'b) chain_lib \<Rightarrow> 'k \<Rightarrow> bool" where
  "chain_law lib key \<longleftrightarrow> signs (cl_stmts lib) key \<and> payload_law lib"

definition chain_ok :: "('k, 'b) chain_lib \<Rightarrow> 'k \<Rightarrow> chain_store \<Rightarrow> bool" where
  "chain_ok lib key s \<longleftrightarrow> (chain_law lib key \<longrightarrow> history_good lib key s) \<and> evidence_ok lib key s"

lemma purge_evidence_Inr:
  assumes "purge_evidence lib key tenant grant actor now s = Inr (n, t)"
  shows "append_event lib key tenant grant (lit ''evidence_purged'') (purge_payload actor n) now
     (s\<lparr>cs_evidence := filter (\<lambda>r. vr_grant r \<noteq> grant) (cs_evidence s)\<rparr>) = Inr t"
    and "n = length (filter (\<lambda>r. vr_grant r = grant) (cs_evidence s))"
  using assms by (auto simp: purge_evidence_def Let_def map_sum_def split: if_splits sum.splits)

lemma append_event_ok:
  assumes "chain_law lib key \<longrightarrow> history_good lib key s" "json_ok payload" "now < 2 ^ 64"
    "append_event lib key tenant grant kind payload now s = Inr t"
  shows "chain_law lib key \<longrightarrow> history_good lib key t"
  using append_event_good [OF _ _ assms(2,3) _ assms(4)] assms(1) by (simp add: chain_law_def)

lemma submit_ok:
  assumes ok: "chain_ok lib key s" and now: "now < 2 ^ 64"
    and h: "submit_evidence lib key origin e now s = Inr (b, t)"
  shows "chain_ok lib key t"
  using h
proof (cases rule: submit_evidence_Inr)
  case duplicate
  with ok show ?thesis by simp
next
  case (recorded g manifest u)
  have ev: "evidence_ok lib key u"
    unfolding recorded(8) by (rule insert_evidence_ok [OF _ recorded(3,2) refl recorded(6,7)])
      (use ok in \<open>simp add: chain_ok_def\<close>)
  have hist: "chain_law lib key \<longrightarrow> history_good lib key u"
    using ok history_good_same [of lib key s u] by (auto simp: chain_ok_def recorded(8))
  from recorded(9) show ?thesis
  proof
    assume "t = u"
    with ev hist show ?thesis by (simp add: chain_ok_def)
  next
    assume a: "append_event lib key (dg_tenant g) (ch_grant_id (sc_challenge (ev_authorization e)))
         (lit ''recipient_'' @ kind_text (ev_kind e))
         (evidence_payload (evidence_id (cl_stmts lib) e) manifest (ch_holder (sc_challenge (ev_authorization e))))
         now u = Inr t"
    have "chain_law lib key \<longrightarrow> history_good lib key t"
      by (rule append_event_ok [OF hist evidence_payload_ok now a])
    with evidence_ok_same [OF ev append_event_evidence [OF a]] show ?thesis by (simp add: chain_ok_def)
  qed
qed

lemma purge_ok:
  assumes ok: "chain_ok lib key s" and now: "now < 2 ^ 64"
    and h: "purge_evidence lib key tenant grant actor now s = Inr (n, t)"
  shows "chain_ok lib key t"
proof -
  let ?u = "s\<lparr>cs_evidence := filter (\<lambda>r. vr_grant r \<noteq> grant) (cs_evidence s)\<rparr>"
  note a = purge_evidence_Inr(1) [OF h]
  have "n \<le> MAX_EVIDENCE" using ok purge_evidence_Inr(2) [OF h] by (simp add: chain_ok_def evidence_ok_def)
  moreover have "MAX_EVIDENCE \<le> u64_max" by (simp add: MAX_EVIDENCE_def u64_max_def)
  ultimately have "n \<le> u64_max" by (rule le_trans)
  have "chain_law lib key \<longrightarrow> history_good lib key ?u"
    using ok history_good_same [of lib key s ?u] by (auto simp: chain_ok_def)
  from append_event_ok [OF this purge_payload_ok [OF \<open>n \<le> u64_max\<close>] now a] have "chain_law lib key \<longrightarrow> history_good lib key t" .
  moreover have "evidence_ok lib key t"
    by (rule evidence_ok_filter [of _ _ s _ "\<lambda>g. g \<noteq> grant"])
      (use ok append_event_evidence [OF a] in \<open>simp_all add: chain_ok_def\<close>)
  ultimately show ?thesis by (simp add: chain_ok_def)
qed

lemma chain_ok_frame:
  assumes "chain_ok lib key s" "cs_events t = cs_events s" "cs_sequence t = cs_sequence s" "cs_evidence t = cs_evidence s"
  shows "chain_ok lib key t"
  using assms history_good_same [of lib key s t] evidence_ok_same [of lib key s t] by (auto simp: chain_ok_def)

lemma chain_step_ok:
  assumes "chain_ok lib key s" "chain_step lib key s t"
  shows "chain_ok lib key t"
  using assms(2)
proof (cases rule: chain_step.cases)
  case (chain_event tenant grant kind payload now)
  with assms(1) append_event_ok [OF _ chain_event] show ?thesis
    by (auto simp: chain_ok_def intro: evidence_ok_same dest: append_event_evidence)
next
  case (chain_submit e now origin b)
  with assms(1) show ?thesis by (auto intro: submit_ok)
next
  case (chain_purge tenant grant actor now n)
  with assms(1) show ?thesis by (auto intro: purge_ok)
next
  case (chain_tenant tenant)
  then show ?thesis
    using assms(1) forget_tenant_good [of lib key s tenant]
    by (auto simp: chain_ok_def forget_tenant_def intro: evidence_ok_same)
next
  case (chain_grants kept)
  have "evidence_ok lib key t"
    by (rule evidence_ok_filter [of _ _ s _ "\<lambda>g. g \<in> set kept"])
      (use assms(1) chain_grants in \<open>simp_all add: chain_ok_def forget_grants_def\<close>)
  moreover have "chain_law lib key \<longrightarrow> history_good lib key t"
    using assms(1) history_good_same [of lib key s t] chain_grants by (auto simp: chain_ok_def forget_grants_def)
  ultimately show ?thesis by (simp add: chain_ok_def)
qed (auto intro!: chain_ok_frame [OF assms(1)]
    simp: delivery_manifest_def insert_audit_def audit_prune_def Let_def split: option.split)

lemma chain_start_ok: "chain_start s \<Longrightarrow> chain_ok lib key s"
  by (simp add: chain_start_def chain_ok_def history_good_def rows_ordered_def history_def evidence_ok_def)

interpretation event_runs: invariant_system chain_start "chain_step lib key" "chain_ok lib key"
  for lib :: "('k, 'b) chain_lib" and key
  by unfold_locales (auto simp: chain_start_ok intro: chain_step_ok)

end
