(* ===== verification/EventProperties.thy ===== *)
theory EventProperties
  imports EventSystem
begin

text \<open>
  What an auditor and the parties of a delivery can rely on: a history is fixed by its last hash,
  it can be read in full, and recorded acceptances are signed and follow a signed verification.
\<close>

lemma collect_linked:
  "collect lib issuer tenant limit s fuel start = Some es \<Longrightarrow> linked lib issuer tenant start es"
proof (induction fuel arbitrary: start es)
  case (Suc fuel)
  from Suc.prems obtain x where x: "fst (delivery_event_export lib issuer tenant start None limit s 0) = Inr x"
    by (auto split: sum.splits)
  then obtain n where ex: "delivery_event_export lib issuer tenant start None limit s 0 = (Inr x, n)"
    by (cases "delivery_event_export lib issuer tenant start None limit s 0") auto
  note facts = export_Inr [OF ex]
  show ?case
  proof (cases "ex_complete x")
    case True
    with Suc.prems x facts(1) show ?thesis by simp
  next
    case False
    with Suc.prems x obtain rest where r: "collect lib issuer tenant limit s fuel (ex_end x) = Some rest"
      "es = ex_events x @ rest" by auto
    from Suc.IH [OF r(1)] facts(1,3) r(2) show ?thesis by (simp add: linked_append)
  qed
qed simp

text \<open>C26: C: The last hash of a history fixes all of it: two histories read page by page from the start,
  from whatever tables and under whatever issuers, that end in the same hash are the same list of
  events, or an event of the one and an event of the other were hashed from different bytes that
  have the same SHA-256 digest.\<close>

theorem last_hash_fixes_history:
  assumes "sealed_law lib"
    and "collect lib issuer tenant limit s fuel no_checkpoint = Some xs"
    and "collect lib issuer' tenant' limit' s' fuel' no_checkpoint = Some ys"
    and "cp_hash (reaches no_checkpoint xs) = cp_hash (reaches no_checkpoint ys)"
  shows "xs = ys \<or> colliding_events lib xs ys"
  by (rule linked_ends_agree [OF assms(1) collect_linked [OF assms(2)] collect_linked [OF assms(3)] assms(4)])

text \<open>C27: C: While only the code writes the tables, the history of a tenant can be read as long as its
  texts and events are of a size that a page can carry: if no text of its rows is larger than
  16 MiB and every event fits a page of 16 MiB beside the envelope, then asking for page after page
  never fails and ends, and the pages put together are every event of the tenant in order. (The
  code appends events of any size; one that does not fit is refused by the reading side only.)\<close>

theorem histories_can_be_read:
  assumes "chain_law lib key" "reach chain_start (chain_step lib key) s"
    and "1 \<le> limit" "limit \<le> 100" "small_rows tenant s"
    and "pages_fit lib (key_hex (cl_stmts lib) key) tenant (history lib tenant s)"
  shows "collect lib (key_hex (cl_stmts lib) key) tenant limit s (Suc (length (history lib tenant s))) no_checkpoint
      = Some (history lib tenant s)
    \<and> length (history lib tenant s) = length (filter (\<lambda>r. er_tenant r = tenant) (cs_events s))"
proof -
  have good: "history_good lib key s"
    using event_runs.reach_inv [OF assms(2)] assms(1) by (simp add: chain_ok_def)
  from collect_good [OF good assms(5,3,4,6), of 0 "Suc (length (history lib tenant s))"]
  have "collect lib (key_hex (cl_stmts lib) key) tenant limit s (Suc (length (history lib tenant s))) no_checkpoint
      = Some (history lib tenant s)" by (simp del: collect.simps)
  then show ?thesis by (simp add: history_def)
qed

text \<open>C28: C: Recorded evidence is ordered and signed: every row is a statement that verifies under the
  port's own challenge, no statement is recorded twice, an acceptance follows a verification by
  the same device of the same delivery, and a delivery has at most 2000 rows.\<close>

theorem acceptance_follows_verification:
  assumes "reach chain_start (chain_step lib key) s" "r \<in> set (cs_evidence s)"
  shows "verify_evidence (cl_stmts lib) (vr_evidence r) (key_hex (cl_stmts lib) key)
    \<and> vr_grant r = ch_grant_id (sc_challenge (ev_authorization (vr_evidence r)))
    \<and> (\<forall>q \<in> set (cs_evidence s). vr_id q = vr_id r \<longrightarrow> q = r)
    \<and> (vr_kind r = Accepted \<longrightarrow>
        (\<exists>q \<in> set (cs_evidence s). vr_grant q = vr_grant r \<and> vr_holder q = vr_holder r \<and> vr_kind q = Verified
           \<and> vr_rowid q < vr_rowid r))
    \<and> length (filter (\<lambda>q. vr_grant q = vr_grant r) (cs_evidence s)) \<le> 2000"
proof -
  have ok: "evidence_ok lib key s" using event_runs.reach_inv [OF assms(1)] by (simp add: chain_ok_def)
  then have "inj_on vr_id (set (cs_evidence s))" by (simp add: evidence_ok_def distinct_map)
  then have "\<forall>q \<in> set (cs_evidence s). vr_id q = vr_id r \<longrightarrow> q = r" using assms(2) by (auto dest: inj_onD)
  moreover have "signed_row lib key r" using ok assms(2) by (simp add: evidence_ok_def)
  moreover have "length (filter (\<lambda>q. vr_grant q = vr_grant r) (cs_evidence s)) \<le> 2000"
    using ok by (simp add: evidence_ok_def MAX_EVIDENCE_def)
  moreover have "vr_kind r = Accepted \<longrightarrow> verified_earlier (cs_evidence s) r"
    using ok assms(2) by (simp add: evidence_ok_def)
  ultimately show ?thesis by (simp only: signed_row_def verified_earlier_def Let_def)
qed

lemma answer_recorded:
  assumes key: "signs (cl_stmts lib) key" "signs (cl_stmts lib) device"
    and grant: "map_of (cs_grants s) grant = Some g" "map_of (cs_manifests s) grant = Some manifest"
    and room: "length (filter (\<lambda>r. vr_grant r = grant) (cs_evidence s)) < MAX_EVIDENCE" "next_id s \<le> int top_i64"
    and time: "issued \<le> now" "now < issued + SUBMIT_SECONDS" "issued + SUBMIT_SECONDS \<le> u64_max"
    and e: "e = sign_evidence (cl_stmts lib) (new_challenge (cl_stmts lib) key origin grant manifest
      (key_hex (cl_stmts lib) device) nonce issued) Verified device"
  shows "\<exists>b t. submit_evidence lib key origin e now s = Inr (b, t) \<and> evidence_recorded (evidence_id (cl_stmts lib) e) t
    \<and> submit_evidence lib key origin e now t = Inr (False, t)"
proof -
  define c where "c = \<lparr>ch_origin = origin, ch_grant_id = grant, ch_manifest = manifest,
    ch_holder = key_hex (cl_stmts lib) device, ch_nonce = nonce, ch_issued_at = issued,
    ch_expires_at = issued + SUBMIT_SECONDS\<rparr>"
  have e': "e = sign_evidence (cl_stmts lib) (issue_challenge (cl_stmts lib) c key) Verified device"
    using time(3) by (simp add: e new_challenge_def c_def sat_add_def min_def)
  have ch: "sc_challenge (ev_authorization e) = c" "ev_kind e = Verified"
    by (simp_all add: e' sign_evidence_def issue_challenge_def)
  have ver: "verify_evidence (cl_stmts lib) e (key_hex (cl_stmts lib) key)"
    using evidence_round_trip [OF key, of c Verified] by (simp add: e' c_def)
  have submit: "submit_evidence lib key origin e now u = map_sum SubmitConflict id (record_evidence lib key e now u)" for u
    using ver time by (simp add: submit_evidence_def ch Let_def c_def)
  let ?u = "insert_evidence (evidence_id (cl_stmts lib) e) e now s"
  have again: "submit_evidence lib key origin e now t = Inr (False, t)"
    if "evidence_recorded (evidence_id (cl_stmts lib) e) t" "cs_grants t = cs_grants s" "cs_manifests t = cs_manifests s" for t
    using that grant by (simp add: submit record_evidence_def ch Let_def c_def)
  show ?thesis
  proof (cases "evidence_recorded (evidence_id (cl_stmts lib) e) s")
    case True
    with again [of s] show ?thesis by auto
  next
    case False
    have kept: "evidence_recorded (evidence_id (cl_stmts lib) e) ?u" "cs_grants ?u = cs_grants s" "cs_manifests ?u = cs_manifests s"
      by (simp_all add: insert_evidence_def evidence_recorded_def)
    have nid: "next_id ?u = next_id s" by (simp add: next_id_def)
    define a where "a = append_event lib key (dg_tenant g) grant (lit ''recipient_'' @ kind_text Verified)
        (evidence_payload (evidence_id (cl_stmts lib) e) manifest (key_hex (cl_stmts lib) device)) now ?u"
    obtain t where t: "a = Inr t" "cs_evidence t = cs_evidence ?u" "cs_grants t = cs_grants ?u" "cs_manifests t = cs_manifests ?u"
      using room(2) by (simp add: a_def append_event_def nid Let_def insert_audit_def)
    have "record_evidence lib key e now s = Inr (True, if has_evidence grant (key_hex (cl_stmts lib) device) Verified s then ?u else t)"
      using False grant room(1) t(1) by (simp add: record_evidence_def ch Let_def c_def a_def)
    then have r: "submit_evidence lib key origin e now s = Inr (True, if has_evidence grant (key_hex (cl_stmts lib) device) Verified s then ?u else t)"
      by (simp add: submit)
    have "evidence_recorded (evidence_id (cl_stmts lib) e) t" using kept(1) t(2) by (simp add: evidence_recorded_def)
    with kept t again [of t] again [of ?u] r show ?thesis by (auto split: if_splits)
  qed
qed

text \<open>A device that answers a challenge is heard: a verification of the current manifest signed over
  a challenge of this port is recorded while the challenge lives, unless the delivery is gone,
  its rows are used up or the events are, and answering again changes nothing.\<close>

theorem answered_challenges_are_recorded:
  assumes key: "signs (cl_stmts lib) key" "signs (cl_stmts lib) device"
    and grant: "map_of (cs_grants s) grant = Some g" "map_of (cs_manifests s) grant = Some manifest"
    and room: "length (filter (\<lambda>r. vr_grant r = grant) (cs_evidence s)) < MAX_EVIDENCE" "next_id s \<le> int top_i64"
    and time: "issued \<le> now" "now < issued + SUBMIT_SECONDS" "issued + SUBMIT_SECONDS \<le> u64_max"
    and e: "e = sign_evidence (cl_stmts lib) (new_challenge (cl_stmts lib) key origin grant manifest
      (key_hex (cl_stmts lib) device) nonce issued) Verified device"
  shows "\<exists>b t. submit_evidence lib key origin e now s = Inr (b, t) \<and> evidence_recorded (evidence_id (cl_stmts lib) e) t
    \<and> submit_evidence lib key origin e now t = Inr (False, t)"
  by (rule answer_recorded [OF assms])

section \<open>Witnesses\<close>

text \<open>A library whose texts are numbers of the values they stand for, and a store with one grant.\<close>

instance json :: countable
  by countable_datatype

definition demo_event_bytes :: "chain_event \<Rightarrow> nat" where
  "demo_event_bytes e = 200 + sum_list (map str_len [ce_tenant e, ce_grant e, ce_kind e, [to_nat (ce_payload e)],
     ce_previous e, ce_hash e, ce_issuer e, ce_signature e])"

definition demo_chain :: "(bool, unit) chain_lib" where
  "demo_chain =
     \<lparr>cl_stmts = demo_stmts, document_json = (\<lambda>_. []),
      sealed_json = (\<lambda>d s. replicate (to_nat (ed_id d, ed_tenant d, ed_grant d, ed_kind d, ed_created_at d,
         ed_payload d, ed_previous d, ed_issuer d, s)) 0),
      event_bytes = demo_event_bytes,
      export_bytes = (\<lambda>x. 200 + str_len (ex_issuer x) + str_len (ex_tenant x)
        + sum_list (map (\<lambda>c. 20 + str_len (cp_hash c)) [ex_start x, ex_end x, ex_terminal x])
        + sum_list (map (\<lambda>e. demo_event_bytes e + 1) (ex_events x))),
      payload_text = (\<lambda>j. [to_nat j]), payload_parse = (\<lambda>t. Some (from_nat (hd t)))\<rparr>"

definition demo_history :: chain_store where
  "demo_history =
     \<lparr>cs_events = [], cs_sequence = 0, cs_audit = [], cs_manifests = [(lit ''g'', lit ''m'')],
      cs_evidence = [],
      cs_grants = [(lit ''g'', \<lparr>dg_tenant = [], dg_file = ([], [], [], 0), dg_files = []\<rparr>)], cs_jobs = []\<rparr>"

lemma demo_sealed: "sealed_law demo_chain"
proof -
  have "d = d' \<and> s = s'" if eq: "sealed_json demo_chain d s = sealed_json demo_chain d' s'" for d s d' s'
  proof -
    from arg_cong [OF eq, of length]
    have "to_nat (ed_id d, ed_tenant d, ed_grant d, ed_kind d, ed_created_at d, ed_payload d, ed_previous d, ed_issuer d, s)
      = to_nat (ed_id d', ed_tenant d', ed_grant d', ed_kind d', ed_created_at d', ed_payload d', ed_previous d', ed_issuer d', s')"
      by (simp add: demo_chain_def)
    from injD [OF inj_to_nat this] show ?thesis by (cases d; cases d') simp
  qed
  then show ?thesis by (simp add: sealed_law_def) (simp add: demo_chain_def demo_stmts_def)
qed

lemma demo_width: "str_len [n] \<le> 4"
  using utf8_width_bounds(2) [of n] by simp

lemma str_len_replicate: "str_len (replicate n c) = n * utf8_width c"
  by (induction n) simp_all

lemma demo_lawful: "chain_law demo_chain True"
  by (simp add: chain_law_def payload_law_def demo_chain_def demo_signs)

lemma demo_started: "reach chain_start (chain_step demo_chain True) demo_history"
  by (rule reach_init) (simp add: chain_start_def demo_history_def)

text \<open>A store with one event of a kind.\<close>

lemma demo_appended:
  assumes kind: "str_len kind \<le> 100"
  obtains t e where "reach chain_start (chain_step demo_chain True) t" "history demo_chain [] t = [e]"
    "ce_kind e = kind" "ce_hash e = replicate 64 97" "small_rows [] t"
    "pages_fit demo_chain (key_hex (cl_stmts demo_chain) True) [] [e]" "history_good demo_chain True t"
proof -
  have k: "cl_stmts demo_chain = demo_stmts" by (simp add: demo_chain_def)
  have "next_id demo_history = 1" by (simp add: next_id_def demo_history_def)
  then obtain t where t: "append_event demo_chain True [] [] kind JNull 5 demo_history = Inr t"
    by (simp add: append_event_def Let_def top_i64_def)
  have good: "history_good demo_chain True demo_history"
    using event_runs.reach_inv [OF demo_started] demo_lawful by (simp add: chain_ok_def)
  have law: "signs (cl_stmts demo_chain) True" "payload_law demo_chain" "json_ok JNull" "(5::nat) < 2 ^ 64"
    using demo_lawful by (simp_all add: chain_law_def)
  from append_event_Inr [OF law good t] obtain r e where
    t': "cs_events t = cs_events demo_history @ [r]" and e: "event_of_row demo_chain r = Some e"
    and p: "ce_previous e = last_hash [] demo_history"
    and r: "r = \<lparr>er_id = cs_sequence demo_history + 1, er_tenant = [], er_grant = [], er_kind = kind,
      er_created_at = as_i64 5, er_payload = payload_text demo_chain JNull, er_previous = last_hash [] demo_history,
      er_hash = ce_hash e, er_issuer = key_hex (cl_stmts demo_chain) True, er_signature = ce_signature e\<rparr>"
    and h: "ce_hash e \<in> range (sha256_hex (cl_stmts demo_chain))"
      "ce_signature e \<in> range (sign_hex (cl_stmts demo_chain) True)" .
  have hash: "ce_hash e = replicate 64 97" "ce_signature e = lit ''ab''" and prev: "last_hash [] demo_history = []"
    using h by (auto simp: k demo_stmts_def last_hash_def tenant_rows_def demo_history_def)
  have fields: "ce_tenant e = []" "ce_grant e = []" "ce_kind e = kind" "ce_issuer e = replicate 64 49"
    "ce_previous e = []" "ce_payload e = JNull"
    using event_of_row_fields(3-7,9) [OF e] by (simp_all add: r prev k) (simp_all add: demo_chain_def demo_stmts_def)
  have old: "cs_events demo_history = []" by (simp add: demo_history_def)
  have tenant: "er_tenant r = []" by (simp add: r)
  have hist: "history demo_chain [] t = [e]"
    by (simp add: history_def t' e tenant old)
  have wide: "str_len [to_nat JNull] \<le> 4" by (rule demo_width)
  have lens: "str_len (replicate 64 97) = 64" "str_len (replicate 64 49) = 64" "str_len (lit ''ab'') = 2" "str_len [] = 0"
    by (simp_all add: str_len_replicate utf8_width_def lit_def)
  have bytes: "demo_event_bytes e \<le> 600"
    using kind wide unfolding demo_event_bytes_def fields hash by (simp add: lens)
  have small: "small_rows [] t"
    using kind wide unfolding small_rows_def
    by (simp add: t' old r small_row_def hash prev k lens MAX_EVENT_PAGE_BYTES_def)
      (simp add: demo_chain_def demo_stmts_def str_len_replicate utf8_width_def lit_def)
  have env: "export_bytes demo_chain (envelope (key_hex demo_stmts True) []
      (reaches no_checkpoint (take i [e])) (reaches no_checkpoint [e])) \<le> 700" for i
    using hash(1) lens by (cases i) (simp_all add: demo_chain_def envelope_def demo_stmts_def no_checkpoint_def checkpoint_of_def)
  have "event_bytes demo_chain e \<le> 600" using bytes by (simp add: demo_chain_def)
  then have room: "n \<le> 700 \<Longrightarrow> n \<le> MAX_EVENT_PAGE_BYTES \<and> n + event_bytes demo_chain e < MAX_EVENT_PAGE_BYTES" for n
    by (simp add: MAX_EVENT_PAGE_BYTES_def)
  have fit: "pages_fit demo_chain (key_hex (cl_stmts demo_chain) True) [] [e]"
    unfolding pages_fit_def Let_def k using room [OF env] by simp
  have "reach chain_start (chain_step demo_chain True) t"
    by (rule reach_step [OF demo_started]) (rule chain_event [OF law(3,4) t])
  from that [OF this hist fields(3) hash(1) small fit] append_event_good [OF law good t] show thesis .
qed

text \<open>Two histories of one event each, under a digest that has one value: they end in the same hash, and
  their events are the collision.\<close>

theorem last_hash_fixes_history_witness:
  "\<exists>xs ys s t. collect demo_chain (key_hex demo_stmts True) [] 1 s 2 no_checkpoint = Some xs
     \<and> collect demo_chain (key_hex demo_stmts True) [] 10 t 2 no_checkpoint = Some ys
     \<and> xs \<noteq> ys \<and> colliding_events demo_chain xs ys"
proof -
  have k: "cl_stmts demo_chain = demo_stmts" by (simp add: demo_chain_def)
  obtain s e where s: "history demo_chain [] s = [e]" "ce_kind e = lit ''x''" "ce_hash e = replicate 64 97" "small_rows [] s"
    "pages_fit demo_chain (key_hex (cl_stmts demo_chain) True) [] [e]" "history_good demo_chain True s"
    by (rule demo_appended [of "lit ''x''"]) (simp_all add: lit_def utf8_width_def)
  obtain t f where t: "history demo_chain [] t = [f]" "ce_kind f = lit ''y''" "ce_hash f = replicate 64 97" "small_rows [] t"
    "pages_fit demo_chain (key_hex (cl_stmts demo_chain) True) [] [f]" "history_good demo_chain True t"
    by (rule demo_appended [of "lit ''y''"]) (simp_all add: lit_def utf8_width_def)
  have c: "collect demo_chain (key_hex demo_stmts True) [] 1 s 2 no_checkpoint = Some [e]"
    "collect demo_chain (key_hex demo_stmts True) [] 10 t 2 no_checkpoint = Some [f]"
    using collect_good [OF s(6,4), of 1 0 2] collect_good [OF t(6,4), of 10 0 2] s(1,5) t(1,5)
    by (simp_all add: k del: collect.simps)
  have ne: "[e] \<noteq> [f]" using s(2) t(2) by (auto simp: lit_def)
  from last_hash_fixes_history [OF demo_sealed c] s(3) t(3) ne have "colliding_events demo_chain [e] [f]" by simp
  with c ne show ?thesis by blast
qed

theorem histories_can_be_read_witness:
  "\<exists>s es. collect demo_chain (key_hex demo_stmts True) [] 10 s 2 no_checkpoint = Some es \<and> length es = 1"
proof -
  obtain t e where t: "reach chain_start (chain_step demo_chain True) t" "history demo_chain [] t = [e]"
    "small_rows [] t" "pages_fit demo_chain (key_hex (cl_stmts demo_chain) True) [] [e]"
    by (rule demo_appended [of "lit ''x''"]) (simp_all add: lit_def utf8_width_def)
  have k: "cl_stmts demo_chain = demo_stmts" by (simp add: demo_chain_def)
  have "1 \<le> (10::nat)" "(10::nat) \<le> 100" by simp_all
  note r = histories_can_be_read [OF demo_lawful t(1) this t(3), unfolded t(2), OF t(4), THEN conjunct1, unfolded k]
  show ?thesis
    by (intro exI [of _ t] exI [of _ "[e]"]) (use r in \<open>simp add: numeral_2_eq_2 del: collect.simps\<close>)
qed

definition demo_answer :: evidence where
  "demo_answer = sign_evidence demo_stmts (new_challenge demo_stmts True (lit ''o'') (lit ''g'') (lit ''m'')
     (key_hex demo_stmts False) [] 5) Verified False"

text \<open>The answer of the device, submitted a second later.\<close>

lemma demo_answer_law:
  "signs (cl_stmts demo_chain) k" "map_of (cs_grants demo_history) (lit ''g'') = Some \<lparr>dg_tenant = [], dg_file = ([], [], [], 0), dg_files = []\<rparr>"
  "map_of (cs_manifests demo_history) (lit ''g'') = Some (lit ''m'')"
  "length (filter (\<lambda>r. vr_grant r = lit ''g'') (cs_evidence demo_history)) < MAX_EVIDENCE"
  "next_id demo_history \<le> int top_i64" "(5::nat) \<le> 6" "6 < 5 + SUBMIT_SECONDS" "5 + SUBMIT_SECONDS \<le> u64_max"
  "demo_answer = sign_evidence (cl_stmts demo_chain) (new_challenge (cl_stmts demo_chain) True (lit ''o'') (lit ''g'')
     (lit ''m'') (key_hex (cl_stmts demo_chain) False) [] 5) Verified False"
  using demo_signs
  by (simp_all add: demo_chain_def demo_history_def MAX_EVIDENCE_def next_id_def top_i64_def SUBMIT_SECONDS_def
      u64_max_def demo_answer_def)

theorem answered_challenges_are_recorded_witness:
  "\<exists>b t. submit_evidence demo_chain True (lit ''o'') demo_answer 6 demo_history = Inr (b, t)
     \<and> evidence_recorded (evidence_id demo_stmts demo_answer) t"
proof -
  have k: "cl_stmts demo_chain = demo_stmts" by (simp add: demo_chain_def)
  show ?thesis
    using answered_challenges_are_recorded [OF demo_answer_law(1) demo_answer_law(1) demo_answer_law(2-9)]
    unfolding k by blast
qed

theorem acceptance_follows_verification_witness:
  "\<exists>(t :: chain_store) r. r \<in> set (cs_evidence t) \<and> verify_evidence demo_stmts (vr_evidence r) (key_hex demo_stmts True)"
proof -
  have k: "cl_stmts demo_chain = demo_stmts" by (simp add: demo_chain_def)
  obtain b t where t: "submit_evidence demo_chain True (lit ''o'') demo_answer 6 demo_history = Inr (b, t)"
    "evidence_recorded (evidence_id demo_stmts demo_answer) t"
    using answer_recorded [OF demo_answer_law(1) demo_answer_law(1) demo_answer_law(2-9)] unfolding k by blast
  have "reach chain_start (chain_step demo_chain True) t"
    by (rule reach_step [OF demo_started]) (rule chain_submit [OF _ t(1)], simp)
  note run = this
  from t(2) obtain r where r: "r \<in> set (cs_evidence t)" by (auto simp: evidence_recorded_def list_ex_iff)
  note v = acceptance_follows_verification [OF run r, THEN conjunct1, unfolded k]
  show ?thesis by (intro exI conjI) (rule r, rule v)
qed

end
