(* ===== verification/Downloads.thy ===== *)
theory Downloads
  imports UploadStore
begin

text \<open>
  Delivered files and who may fetch them, from \<open>server/src/store/outbound.rs\<close>: the download
  counters of a grant and of its files, the tickets of native fetches and the reservations they
  hold, the token, the extension, the revocation and the purge of a grant.

  The grants themselves are those of the job store; the columns that only these functions read are
  kept beside them, with the rows of \<open>outbound\_grant\_files\<close>. Times stay below \<open>i64::MAX\<close>, and so do
  the offsets and limits of pages; \<open>active\_outbound\_object\_keys\<close> and the listings of grants are left out.
\<close>

section \<open>The tables\<close>

record file_row =
  fr_file :: grant_file
  fr_downloads :: nat
  fr_first :: "nat option"
  fr_last :: "nat option"

record grant_counts =
  gc_file_index :: nat
  gc_downloads :: nat
  gc_max :: "nat option"
  gc_first :: "nat option"
  gc_last :: "nat option"
  gc_file_count :: nat
  gc_rows :: "(nat, file_row) hmap"

record fetch_ticket =
  ft_holder :: rstr
  ft_grant_token_hash :: rstr
  ft_policy_revision :: nat
  ft_token_id :: rstr
  ft_grant_id :: rstr
  ft_manifest_root :: rstr
  ft_expires_at :: nat
  ft_delivered_at :: "nat option"

record ticket_row = fetch_ticket +
  ft_admitted_at :: "nat option"

text \<open>\<open>dv\_evidence\<close>: the grant that each row of \<open>delivery\_evidence\<close> names.\<close>

record delivery_store =
  dv_jobs :: job_store
  dv_counts :: "(rstr, grant_counts) hmap"
  dv_tickets :: "(rstr, ticket_row) hmap"
  dv_roots :: "(rstr, rstr) hmap"
  dv_evidence :: "rstr list"

datatype delivery_error =
    Workflow workflow_error
  | GrantNotFound | DownloadLimit | FileIndex | FilesNotNormalized | TicketOther
  | NoLongerActive | DeliverySql

record download_result =
  dr_first_download :: bool
  dr_completed_delivery :: bool
  dr_event_at :: nat

definition counts_of :: "delivery_store \<Rightarrow> rstr \<Rightarrow> grant_counts option" where
  "counts_of s i = map_of (dv_counts s) i"

definition grant_of_id :: "delivery_store \<Rightarrow> rstr \<Rightarrow> grant option" where
  "grant_of_id s i = map_of (grants (dv_jobs s)) i"

text \<open>A grant that serves: not revoked, not expired.\<close>

definition serves_at :: "nat \<Rightarrow> grant \<Rightarrow> bool" where
  "serves_at now g \<longleftrightarrow> gr_revoked_at g = None \<and> gr_expires_at g > now"

definition below_limit :: "grant_counts \<Rightarrow> nat \<Rightarrow> bool" where
  "below_limit c reserved \<longleftrightarrow> (case gc_max c of None \<Rightarrow> True | Some m \<Rightarrow> gc_downloads c + reserved < m)"

definition write_grant :: "rstr \<Rightarrow> grant \<Rightarrow> delivery_store \<Rightarrow> delivery_store" where
  "write_grant i g s = s\<lparr>dv_jobs := set_grant i g (dv_jobs s)\<rparr>"

section \<open>New grants\<close>

text \<open>The counters come with the grant; a row per file, and one file when there is no row.\<close>

definition file_rows :: "grant_file list \<Rightarrow> (nat \<times> nat option \<times> nat option) list \<Rightarrow> (nat, file_row) hmap" where
  "file_rows fs cs = zip [0..<length fs]
     (map (\<lambda>(f, d, a, b). \<lparr>fr_file = f, fr_downloads = to_i64 d, fr_first = map_option to_i64 a,
                           fr_last = map_option to_i64 b\<rparr>) (zip fs cs))"

definition insert_outbound ::
  "('k, 'b) jobs_lib \<Rightarrow> grant \<Rightarrow> grant_counts \<Rightarrow> (nat \<times> nat option \<times> nat option) list
   \<Rightarrow> automation_operation option \<Rightarrow> djob option \<Rightarrow> rstr option \<Rightarrow> nat \<Rightarrow> delivery_store
   \<Rightarrow> delivery_error + delivery_store" where
  "insert_outbound lib g c cs operation job share now s =
     (case insert_workflow_grant lib g operation job share now (dv_jobs s) of
        Inl e \<Rightarrow> Inl (Workflow e)
      | Inr j \<Rightarrow> Inr (s\<lparr>dv_jobs := j, dv_counts := AList.update (gr_id g)
           \<lparr>gc_file_index = to_i64 (gc_file_index c), gc_downloads = to_i64 (gc_downloads c),
            gc_max = map_option to_i64 (gc_max c), gc_first = map_option to_i64 (gc_first c),
            gc_last = map_option to_i64 (gc_last c), gc_file_count = to_i64 (max (length (gr_files g)) 1),
            gc_rows = file_rows (gr_files g) cs\<rparr> (dv_counts s)\<rparr>))"

section \<open>Counting downloads\<close>

text \<open>\<open>UPDATE outbound\_grant\_files\<close>: one more download of a file that is below the limit.\<close>

definition more_downloads :: "nat \<Rightarrow> file_row \<Rightarrow> file_row" where
  "more_downloads stamp r =
     r\<lparr>fr_downloads := (if fr_downloads r = i64_max then fr_downloads r else fr_downloads r + 1),
       fr_first := (case fr_first r of None \<Rightarrow> Some stamp | Some t \<Rightarrow> Some t), fr_last := Some stamp\<rparr>"

definition may_download :: "nat option \<Rightarrow> file_row \<Rightarrow> bool" where
  "may_download limit r \<longleftrightarrow> (case limit of None \<Rightarrow> True | Some m \<Rightarrow> fr_downloads r < m)"

definition full_range :: "nat list \<Rightarrow> nat \<Rightarrow> bool" where
  "full_range indexes n \<longleftrightarrow> n > 0 \<and> indexes = [0..<n]"

definition record_all ::
  "nat option \<Rightarrow> nat \<Rightarrow> nat \<Rightarrow> (nat, file_row) hmap \<Rightarrow> delivery_error + (nat, file_row) hmap" where
  "record_all limit stamp n rows =
     (if length (filter (may_download limit \<circ> snd) rows) \<noteq> n
      then (if length rows = n \<and> length (filter (\<lambda>(k, _). k < n) rows) = n
               \<and> list_ex (\<lambda>(_, r). \<not> may_download limit r) rows
            then Inl DownloadLimit else Inl FileIndex)
      else Inr (map (\<lambda>(k, r). (k, if may_download limit r then more_downloads stamp r else r)) rows))"

fun record_each ::
  "nat option \<Rightarrow> nat \<Rightarrow> nat list \<Rightarrow> (nat, file_row) hmap \<Rightarrow> delivery_error + (nat, file_row) hmap" where
  "record_each limit stamp [] rows = Inr rows"
| "record_each limit stamp (k # ks) rows =
     (case map_of rows k of
        None \<Rightarrow> Inl FileIndex
      | Some r \<Rightarrow> if may_download limit r
                  then record_each limit stamp ks (AList.update k (more_downloads stamp r) rows)
                  else Inl DownloadLimit)"

text \<open>\<open>ORDER BY downloads LIMIT 1\<close>\<close>

definition least_downloads :: "(nat, file_row) hmap \<Rightarrow> nat" where
  "least_downloads rows =
     (case map (fr_downloads \<circ> snd) rows of [] \<Rightarrow> 0 | d # ds \<Rightarrow> fold min ds d)"

definition first_of :: "grant_counts \<Rightarrow> nat \<Rightarrow> nat option" where
  "first_of c stamp = (case gc_first c of None \<Rightarrow> Some (to_i64 stamp) | Some t \<Rightarrow> Some t)"

definition record_files ::
  "grant_counts \<Rightarrow> nat list \<Rightarrow> nat \<Rightarrow> delivery_error + (download_result \<times> grant_counts)" where
  "record_files c indexes stamp =
     (let unique = remdups (sort indexes) in
      case (if full_range indexes (gc_file_count c)
            then record_all (gc_max c) (to_i64 stamp) (gc_file_count c) (gc_rows c)
            else record_each (gc_max c) (to_i64 stamp) unique (gc_rows c)) of
        Inl e \<Rightarrow> Inl e
      | Inr rows \<Rightarrow>
          let downloads = (if unique = [] then gc_downloads c else least_downloads rows)
          in Inr (\<lparr>dr_first_download = (gc_first c = None),
                   dr_completed_delivery = (gc_downloads c = 0 \<and> downloads > 0), dr_event_at = stamp\<rparr>,
                  c\<lparr>gc_rows := rows, gc_downloads := to_i64 downloads, gc_first := first_of c stamp,
                    gc_last := Some (to_i64 stamp)\<rparr>))"

definition record_single ::
  "grant_counts \<Rightarrow> nat list \<Rightarrow> nat \<Rightarrow> delivery_error + (download_result \<times> grant_counts)" where
  "record_single c indexes stamp =
     (if list_ex (\<lambda>k. k \<noteq> 0) (remdups (sort indexes)) then Inl FileIndex
      else Inr (\<lparr>dr_first_download = (gc_first c = None), dr_completed_delivery = (gc_first c = None), dr_event_at = stamp\<rparr>,
                c\<lparr>gc_downloads := to_i64 (sat_add (gc_downloads c) 1), gc_first := first_of c stamp,
                  gc_last := Some (to_i64 stamp)\<rparr>))"

definition count_download ::
  "grant \<Rightarrow> grant_counts \<Rightarrow> nat list \<Rightarrow> nat \<Rightarrow> delivery_error + (download_result \<times> grant_counts)" where
  "count_download g c indexes stamp =
     (if \<not> below_limit c 0 then Inl DownloadLimit
      else if gc_rows c \<noteq> [] then record_files c indexes stamp
      else if gr_files g \<noteq> [] then Inl FilesNotNormalized
      else record_single c indexes stamp)"

definition deliver_ticket :: "rstr \<Rightarrow> rstr \<Rightarrow> nat \<Rightarrow> delivery_store \<Rightarrow> delivery_error + delivery_store" where
  "deliver_ticket token i stamp s =
     (case map_of (dv_tickets s) token of
        None \<Rightarrow> Inl TicketOther
      | Some t \<Rightarrow>
          if ft_grant_id t \<noteq> i then Inl TicketOther
          else Inr (s\<lparr>dv_tickets := AList.update token
             (t\<lparr>ft_delivered_at := (case ft_delivered_at t of None \<Rightarrow> Some (to_i64 stamp) | Some d \<Rightarrow> Some d)\<rparr>)
             (dv_tickets s)\<rparr>))"

definition record_download ::
  "rstr \<Rightarrow> nat list \<Rightarrow> nat \<Rightarrow> rstr option \<Rightarrow> delivery_store
   \<Rightarrow> delivery_error + (download_result \<times> delivery_store)" where
  "record_download i indexes stamp ticket s =
     (case (grant_of_id s i, counts_of s i) of
        (Some g, Some c) \<Rightarrow>
          (case count_download g c indexes stamp of
             Inl e \<Rightarrow> Inl e
           | Inr (r, c') \<Rightarrow>
               let s = s\<lparr>dv_counts := AList.update i c' (dv_counts s)\<rparr> in
               case ticket of
                 None \<Rightarrow> Inr (r, s)
               | Some token \<Rightarrow> map_sum id (Pair r) (deliver_ticket token i stamp s))
      | _ \<Rightarrow> Inl GrantNotFound)"

definition record_outbound_download ::
  "rstr \<Rightarrow> nat list \<Rightarrow> nat \<Rightarrow> delivery_store \<Rightarrow> delivery_error + (download_result \<times> delivery_store)" where
  "record_outbound_download i indexes stamp s = record_download i indexes stamp None s"

definition record_fetch_download ::
  "rstr \<Rightarrow> nat list \<Rightarrow> nat \<Rightarrow> rstr \<Rightarrow> delivery_store \<Rightarrow> delivery_error + (download_result \<times> delivery_store)" where
  "record_fetch_download i indexes stamp token s = record_download i indexes stamp (Some token) s"

section \<open>Tickets\<close>

definition ticket_allowed :: "djob option \<Rightarrow> fetch_ticket \<Rightarrow> bool" where
  "ticket_allowed job t \<longleftrightarrow>
     (case job of None \<Rightarrow> 0 | Some j \<Rightarrow> pj_revision (jb_project j)) = ft_policy_revision t
     \<and> (case job of
          None \<Rightarrow> True
        | Some j \<Rightarrow> rq_recipients (jb_request j) = [] \<or> ft_holder t \<in> set (rq_recipients (jb_request j)))"

text \<open>A ticket that still holds a delivery.\<close>

definition live_ticket :: "nat \<Rightarrow> ticket_row \<Rightarrow> bool" where
  "live_ticket now t \<longleftrightarrow> ft_expires_at t > now \<and> ft_delivered_at t = None"

definition reserves_against :: "fetch_ticket \<Rightarrow> ticket_row \<Rightarrow> bool" where
  "reserves_against t o' \<longleftrightarrow>
     ft_admitted_at o' \<noteq> None
     \<or> (ft_grant_token_hash o' = ft_grant_token_hash t \<and> ft_policy_revision o' = ft_policy_revision t
        \<and> ft_holder o' \<noteq> ft_holder t)"

definition count_reserved :: "(ticket_row \<Rightarrow> bool) \<Rightarrow> rstr \<Rightarrow> nat \<Rightarrow> delivery_store \<Rightarrow> nat" where
  "count_reserved P i now s =
     length (filter (\<lambda>(_, t). ft_grant_id t = i \<and> live_ticket now t \<and> P t) (dv_tickets s))"

definition grant_takes :: "fetch_ticket \<Rightarrow> nat \<Rightarrow> nat \<Rightarrow> delivery_store \<Rightarrow> bool" where
  "grant_takes t now reserved s \<longleftrightarrow>
     (case (grant_of_id s (ft_grant_id t), counts_of s (ft_grant_id t)) of
        (Some g, Some c) \<Rightarrow> gr_token_hash g = ft_grant_token_hash t \<and> serves_at now g \<and> below_limit c reserved
      | _ \<Rightarrow> False)"

definition put_fetch_ticket ::
  "workflow_lib \<Rightarrow> fetch_ticket \<Rightarrow> nat \<Rightarrow> delivery_store \<Rightarrow> delivery_error + (bool \<times> delivery_store)" where
  "put_fetch_ticket lib t now s =
     (case release_in lib (ft_grant_id t) (dv_jobs s) of
        (Inl e, _) \<Rightarrow> Inl (Workflow e)
      | (Inr job, j) \<Rightarrow>
          if \<not> ticket_allowed job t then Inr (False, s)
          else
            let s' = s\<lparr>dv_jobs := j\<rparr> in
            if \<not> grant_takes t now (count_reserved (reserves_against t) (ft_grant_id t) now s) s' then Inr (False, s')
            else if contains_key (ft_token_id t) (dv_tickets s) then Inl DeliverySql
            else Inr (True, s'\<lparr>dv_tickets :=
               filter (\<lambda>(k, o'). \<not> (ft_grant_id o' = ft_grant_id t \<and> ft_holder o' = ft_holder t \<and> k \<noteq> ft_token_id t
                   \<and> live_ticket now o' \<and> ft_admitted_at o' = None))
                 (dv_tickets s @ [(ft_token_id t, fetch_ticket.extend (t\<lparr>ft_delivered_at := None\<rparr>) \<lparr>ft_admitted_at = None\<rparr>)])\<rparr>))"

definition admit_fetch_ticket ::
  "workflow_lib \<Rightarrow> fetch_ticket \<Rightarrow> nat \<Rightarrow> delivery_store \<Rightarrow> delivery_error + (bool \<times> delivery_store)" where
  "admit_fetch_ticket lib t now s =
     (case release_in lib (ft_grant_id t) (dv_jobs s) of
        (Inl e, _) \<Rightarrow> Inl (Workflow e)
      | (Inr job, j) \<Rightarrow>
          if \<not> ticket_allowed job t then Inr (False, s)
          else
            let s' = s\<lparr>dv_jobs := j\<rparr> in
            case map_of (dv_tickets s) (ft_token_id t) of
              None \<Rightarrow> Inr (False, s')
            | Some row \<Rightarrow>
                if ft_grant_id row = ft_grant_id t \<and> ft_grant_token_hash row = ft_grant_token_hash t
                   \<and> ft_expires_at row > now
                   \<and> grant_takes t now (length (filter (\<lambda>(k, o'). ft_grant_id o' = ft_grant_id t \<and> k \<noteq> ft_token_id t
                        \<and> live_ticket now o' \<and> reserves_against t o') (dv_tickets s))) s'
                then Inr (True, s'\<lparr>dv_tickets := AList.update (ft_token_id t)
                   (row\<lparr>ft_admitted_at := (case ft_admitted_at row of None \<Rightarrow> Some now | Some a \<Rightarrow> Some a)\<rparr>) (dv_tickets s)\<rparr>)
                else Inr (False, s'))"

definition unexpired_fetch_tickets :: "nat \<Rightarrow> delivery_store \<Rightarrow> ticket_row list" where
  "unexpired_fetch_tickets now s = filter (\<lambda>t. ft_expires_at t > now) (map snd (dv_tickets s))"

definition prune_fetch_tickets :: "nat \<Rightarrow> delivery_store \<Rightarrow> nat \<times> delivery_store" where
  "prune_fetch_tickets before s =
     (length (filter (\<lambda>(_, t). ft_expires_at t < before) (dv_tickets s)),
      s\<lparr>dv_tickets := filter (\<lambda>(_, t). \<not> ft_expires_at t < before) (dv_tickets s)\<rparr>)"

definition put_outbound_grant_manifest :: "rstr \<Rightarrow> rstr \<Rightarrow> delivery_store \<Rightarrow> delivery_store" where
  "put_outbound_grant_manifest i root' s = s\<lparr>dv_roots := AList.update i root' (dv_roots s)\<rparr>"

definition servable_grant_ids :: "nat \<Rightarrow> delivery_store \<Rightarrow> rstr list" where
  "servable_grant_ids now s =
     filter (\<lambda>i. case (grant_of_id s i, counts_of s i) of
        (Some g, Some c) \<Rightarrow> serves_at now g \<and> below_limit c 0 | _ \<Rightarrow> False) (map fst (dv_roots s))"

section \<open>Life of a grant\<close>

definition grant_by_hash :: "delivery_store \<Rightarrow> rstr \<Rightarrow> (rstr \<times> grant) option" where
  "grant_by_hash s h = find (\<lambda>(_, g). gr_token_hash g = h) (grants (dv_jobs s))"

definition outbound_grant_deadline :: "rstr \<Rightarrow> delivery_store \<Rightarrow> nat option" where
  "outbound_grant_deadline h s =
     (case grant_by_hash s h of
        None \<Rightarrow> None | Some (_, g) \<Rightarrow> if gr_revoked_at g = None then Some (gr_expires_at g) else None)"

definition outbound_grant_admits :: "workflow_lib \<Rightarrow> rstr \<Rightarrow> nat \<Rightarrow> delivery_store \<Rightarrow> bool" where
  "outbound_grant_admits lib h now s \<longleftrightarrow>
     (case outbound_grant_deadline h s of
        None \<Rightarrow> False
      | Some deadline \<Rightarrow> deadline > now
          \<and> (case grant_by_hash s h of
               None \<Rightarrow> False
             | Some (i, _) \<Rightarrow> (case fst (delivery_access_in lib i h now (dv_jobs s)) of Inl _ \<Rightarrow> False | Inr _ \<Rightarrow> True)))"

text \<open>The token of a share, unless it was replaced: of a job the job's, else the grant's.\<close>

definition outbound_share_token :: "('k, 'b) stmt_lib \<Rightarrow> rstr \<Rightarrow> rstr \<Rightarrow> delivery_store \<Rightarrow> rstr option" where
  "outbound_share_token lib tenant i s =
     (case grant_of_id s i of
        None \<Rightarrow> None
      | Some g \<Rightarrow>
          if gr_tenant g \<noteq> tenant \<or> gr_revoked_at g \<noteq> None then None
          else let token = (case map_of (jobs (dv_jobs s)) i of
                              Some r \<Rightarrow> if jb_tenant (jr_job r) = tenant then Some (jr_token r) else gr_share_token g
                            | None \<Rightarrow> gr_share_token g)
               in case token of
                    None \<Rightarrow> None
                  | Some t \<Rightarrow> if hash_token lib t = gr_token_hash g then Some t else None)"

definition rotate_outbound_grant_token ::
  "('k, 'b) stmt_lib \<Rightarrow> rstr \<Rightarrow> rstr \<Rightarrow> rstr \<Rightarrow> delivery_store \<Rightarrow> delivery_error + (bool \<times> delivery_store)" where
  "rotate_outbound_grant_token lib tenant i token s =
     (case grant_of_id s i of
        None \<Rightarrow> Inr (False, s)
      | Some g \<Rightarrow>
          if gr_tenant g \<noteq> tenant \<or> gr_revoked_at g \<noteq> None \<or> job_in (dv_jobs s) i \<noteq> None then Inr (False, s)
          else if list_ex (\<lambda>(k, x). k \<noteq> i \<and> gr_token_hash x = hash_token lib token) (grants (dv_jobs s)) then Inl DeliverySql
          else Inr (True, write_grant i (g\<lparr>gr_token_hash := hash_token lib token, gr_share_token := Some token\<rparr>) s))"

definition extend_outbound_grant ::
  "rstr \<Rightarrow> rstr \<Rightarrow> nat \<Rightarrow> nat \<Rightarrow> delivery_store \<Rightarrow> delivery_error + (nat option \<times> delivery_store)" where
  "extend_outbound_grant tenant i seconds now s =
     (if (case job_in (dv_jobs s) i of
            None \<Rightarrow> False
          | Some j \<Rightarrow> jb_tenant j = tenant \<and> jb_state j \<in> {Retiring, Retired, Suspended})
      then Inl NoLongerActive
      else case grant_of_id s i of
        None \<Rightarrow> Inr (None, s)
      | Some g \<Rightarrow>
          if gr_tenant g \<noteq> tenant \<or> \<not> serves_at (to_i64 now) g then Inr (None, s)
          else let expiry = to_i64 (sat_add (gr_expires_at g) seconds)
               in Inr (Some expiry, write_grant i (g\<lparr>gr_expires_at := expiry\<rparr>) s))"

definition revoke_outbound_grant :: "rstr \<Rightarrow> rstr \<Rightarrow> nat \<Rightarrow> delivery_store \<Rightarrow> bool \<times> delivery_store" where
  "revoke_outbound_grant tenant i stamp s =
     (case grant_of_id s i of
        None \<Rightarrow> (False, s)
      | Some g \<Rightarrow>
          if gr_tenant g \<noteq> tenant \<or> gr_revoked_at g \<noteq> None then (False, s)
          else (True, write_grant i (g\<lparr>gr_revoked_at := Some (to_i64 stamp)\<rparr>) s))"

definition outbound_grant_exists :: "rstr \<Rightarrow> rstr \<Rightarrow> delivery_store \<Rightarrow> bool" where
  "outbound_grant_exists tenant i s \<longleftrightarrow>
     (case grant_of_id s i of None \<Rightarrow> False | Some g \<Rightarrow> gr_tenant g = tenant)"

definition purgeable :: "delivery_store \<Rightarrow> nat \<Rightarrow> rstr \<times> grant \<Rightarrow> bool" where
  "purgeable s now e \<longleftrightarrow>
     (case e of (i, g) \<Rightarrow> gr_revoked_at g \<noteq> None \<and> gr_expires_at g \<le> to_i64 now
        \<and> (case job_in (dv_jobs s) i of None \<Rightarrow> True | Some j \<Rightarrow> jb_state j = Retired))"

definition purge_expired_revoked_grants :: "nat \<Rightarrow> delivery_store \<Rightarrow> nat \<times> delivery_store" where
  "purge_expired_revoked_grants now s =
     (let j = dv_jobs s; kept = filter (\<lambda>e. \<not> purgeable s now e) (grants j);
          here = (\<lambda>i. contains_key i kept); purged = length (filter (purgeable s now) (grants j))
      in if purged = 0 then (0, s)
         else (purged, s\<lparr>
           dv_jobs := j\<lparr>grants := kept, manifests := filter (here \<circ> fst) (manifests j),
                        policy_cache := filter (here \<circ> fst) (policy_cache j)\<rparr>,
           dv_counts := filter (here \<circ> fst) (dv_counts s),
           dv_evidence := filter here (dv_evidence s),
           dv_roots := filter (here \<circ> fst) (dv_roots s),
           dv_tickets := filter (\<lambda>(_, t). here (ft_grant_id t)) (dv_tickets s)\<rparr>))"

section \<open>What a grant holds on to\<close>

text \<open>A file of a grant that is not revoked may be neither deleted nor overwritten, even after the expiry.\<close>

definition live_sources :: "rstr \<Rightarrow> delivery_store \<Rightarrow> rstr list" where
  "live_sources tenant s =
     concat (map (\<lambda>(i, g). if gr_tenant g = tenant \<and> gr_revoked_at g = None
        then (case counts_of s i of None \<Rightarrow> [] | Some c \<Rightarrow> map (gf_source \<circ> fr_file \<circ> snd) (gc_rows c)) else [])
        (grants (dv_jobs s)))"

definition has_active_library_grant :: "rstr \<Rightarrow> rstr \<Rightarrow> delivery_store \<Rightarrow> bool" where
  "has_active_library_grant tenant source s \<longleftrightarrow>
     list_ex (\<lambda>f. to_ascii_lowercase f = to_ascii_lowercase source) (live_sources tenant s)"

definition serves_library_file :: "path_lib \<Rightarrow> rstr \<Rightarrow> rstr \<Rightarrow> delivery_store \<Rightarrow> bool" where
  "serves_library_file lib tenant source s \<longleftrightarrow>
     has_active_library_grant tenant source s \<or> list_ex (\<lambda>f. fold_name lib f = fold_name lib source) (live_sources tenant s)"

definition active_grants :: "nat \<Rightarrow> (grant \<Rightarrow> bool) \<Rightarrow> delivery_store \<Rightarrow> (grant \<times> grant_counts) list" where
  "active_grants now P s = List.map_filter (\<lambda>(i, g).
     (case counts_of s i of
        None \<Rightarrow> None
      | Some c \<Rightarrow> if P g \<and> serves_at (to_i64 now) g \<and> below_limit c 0 then Some (g, c) else None))
     (grants (dv_jobs s))"

definition has_active_outbound_grant :: "rstr \<Rightarrow> rstr \<Rightarrow> rstr \<Rightarrow> nat \<Rightarrow> nat \<Rightarrow> delivery_store \<Rightarrow> bool" where
  "has_active_outbound_grant tenant link upload k now s \<longleftrightarrow>
     list_ex (\<lambda>(_, c). gc_file_index c = to_i64 k)
       (active_grants now (\<lambda>g. gr_tenant g = tenant \<and> gr_link_id g = link \<and> gr_upload_id g = upload) s)"

definition active_outbound_file_keys :: "rstr \<Rightarrow> rstr \<Rightarrow> nat \<Rightarrow> delivery_store \<Rightarrow> (rstr \<times> nat) list" where
  "active_outbound_file_keys tenant link now s =
     map (\<lambda>(g, c). (gr_upload_id g, gc_file_index c))
       (active_grants now (\<lambda>g. gr_tenant g = tenant \<and> gr_link_id g = link) s)"

definition link_has_active_outbound_grants :: "rstr \<Rightarrow> rstr \<Rightarrow> nat \<Rightarrow> delivery_store \<Rightarrow> bool" where
  "link_has_active_outbound_grants tenant link now s \<longleftrightarrow>
     active_grants now (\<lambda>g. gr_tenant g = tenant \<and> gr_link_id g = link) s \<noteq> []"

section \<open>Pages of files\<close>

text \<open>Sizes are stored as two halves of 32 bits, so that SQLite can add them up.\<close>

definition split_bytes :: "nat \<Rightarrow> nat \<times> nat" where
  "split_bytes n = (n div 2 ^ 32, n mod 2 ^ 32)"

definition checked_mul :: "nat \<Rightarrow> nat \<Rightarrow> nat option" where
  "checked_mul a b = (if a * b \<le> u64_max then Some (a * b) else None)"

definition combine_byte_sums :: "nat \<Rightarrow> nat \<Rightarrow> nat option" where
  "combine_byte_sums hi lo =
     (case checked_mul hi (2 ^ 32) of None \<Rightarrow> None | Some b \<Rightarrow> checked_add b lo)"

definition no_file_rows :: "grant \<Rightarrow> grant_counts \<Rightarrow> bool" where
  "no_file_rows g c \<longleftrightarrow> gc_rows c = [] \<and> gr_files g = []"

text \<open>The single file of a grant without file rows.\<close>

definition parent_file :: "grant \<Rightarrow> grant_counts \<Rightarrow> file_row" where
  "parent_file g c =
     \<lparr>fr_file = \<lparr>gf_source = [], gf_name = gr_name g, gf_suite = gr_suite g, gf_root = gr_root g, gf_bytes = gr_bytes g\<rparr>,
      fr_downloads = gc_downloads c, fr_first = gc_first c, fr_last = gc_last c\<rparr>"

definition outbound_grant_file ::
  "rstr \<Rightarrow> nat \<Rightarrow> delivery_store \<Rightarrow> (grant \<times> file_row option) option" where
  "outbound_grant_file h k s =
     (case grant_by_hash s h of
        None \<Rightarrow> None
      | Some (i, g) \<Rightarrow>
         (case counts_of s i of
            None \<Rightarrow> None
          | Some c \<Rightarrow>
              if k \<ge> gc_file_count c then None
              else case map_of (gc_rows c) k of
                Some r \<Rightarrow> Some (g, Some r)
              | None \<Rightarrow> if gc_file_count c = 1 \<and> no_file_rows g c then Some (g, None) else None))"

definition total_bytes :: "grant \<Rightarrow> grant_counts \<Rightarrow> nat" where
  "total_bytes g c =
     (let sizes = map (split_bytes \<circ> gf_bytes \<circ> fr_file \<circ> snd) (gc_rows c) in
      case combine_byte_sums (sum_list (map fst sizes)) (sum_list (map snd sizes)) of
        None \<Rightarrow> gr_bytes g | Some n \<Rightarrow> if n = 0 then gr_bytes g else n)"

definition outbound_grant_files_page ::
  "rstr \<Rightarrow> nat \<Rightarrow> nat \<Rightarrow> delivery_store \<Rightarrow> (grant \<times> nat \<times> nat \<times> (nat \<times> file_row) list) option" where
  "outbound_grant_files_page h offset limit s =
     (case grant_by_hash s h of
        None \<Rightarrow> None
      | Some (i, g) \<Rightarrow>
         (case counts_of s i of
            None \<Rightarrow> None
          | Some c \<Rightarrow>
              let page = take limit (sort_key fst (filter (\<lambda>(k, _). k \<ge> offset) (gc_rows c)));
                  files = (if page = [] \<and> offset = 0 \<and> gc_file_count c = 1 \<and> no_file_rows g c
                           then [(0, parent_file g c)] else page)
              in Some (g, gc_file_count c, total_bytes g c, files)))"

end
