(* ===== verification/DownloadsSystem.thy ===== *)
theory DownloadsSystem
  imports Downloads JobsSystem
begin

text \<open>
  The invariant of the delivery tables and the steps that keep it: every grant has its counters and
  one row per file, no counter passes the limit, the counter of a grant is the least of its files.
\<close>

section \<open>The invariant\<close>

definition limited :: "nat option \<Rightarrow> nat \<Rightarrow> bool" where
  "limited limit n \<longleftrightarrow> (case limit of None \<Rightarrow> True | Some m \<Rightarrow> n \<le> m)"

definition counts_ok :: "grant_file list \<Rightarrow> grant_counts \<Rightarrow> bool" where
  "counts_ok fs c \<longleftrightarrow>
     gc_file_count c = max (length fs) 1 \<and> map fst (gc_rows c) = [0..<length fs]
     \<and> map (fr_file \<circ> snd) (gc_rows c) = fs
     \<and> limited (gc_max c) (gc_downloads c) \<and> (\<forall>(k, r) \<in> set (gc_rows c). limited (gc_max c) (fr_downloads r))
     \<and> (\<forall>m. gc_max c = Some m \<longrightarrow> m \<le> i64_max) \<and> gc_downloads c \<le> i64_max
     \<and> (\<forall>(k, r) \<in> set (gc_rows c). fr_downloads r \<le> i64_max)
     \<and> (gc_rows c \<noteq> [] \<longrightarrow> gc_downloads c = least_downloads (gc_rows c))"

definition delivery_ok :: "workflow_lib \<Rightarrow> delivery_store \<Rightarrow> bool" where
  "delivery_ok lib s \<longleftrightarrow>
     jobs_ok lib (dv_jobs s) \<and> hm_ok (grants (dv_jobs s)) \<and> hm_ok (dv_tickets s)
     \<and> (\<forall>i. grant_of_id s i = None \<longleftrightarrow> counts_of s i = None)
     \<and> (\<forall>i g c. grant_of_id s i = Some g \<and> counts_of s i = Some c \<longrightarrow> counts_ok (gr_files g) c)"

definition fresh_counts :: "grant_counts \<Rightarrow> (nat \<times> nat option \<times> nat option) list \<Rightarrow> grant \<Rightarrow> bool" where
  "fresh_counts c cs g \<longleftrightarrow>
     gc_downloads c = 0 \<and> gc_first c = None \<and> gc_last c = None \<and> cs = replicate (length (gr_files g)) (0, None, None)
     \<and> length (gr_files g) \<le> i64_max"

section \<open>Steps\<close>

text \<open>
  Grants are published with fresh counters, and by \<open>publish\<close> only: every other step of the job
  store keeps the keys of \<open>grants\<close>.
\<close>

inductive delivery_step :: "('k, 'b) jobs_lib \<Rightarrow> delivery_store \<Rightarrow> delivery_store \<Rightarrow> bool"
  for L :: "('k, 'b) jobs_lib" where
  publish: "insert_outbound L g c cs operation job share now s = Inr t \<Longrightarrow> fresh_counts c cs g
     \<Longrightarrow> \<forall>j. job = Some j \<longrightarrow> workers_copy (dv_jobs s) j \<Longrightarrow> delivery_step L s t"
| jobs: "job_step L (dv_jobs s) j \<Longrightarrow> map fst (grants j) = map fst (grants (dv_jobs s))
     \<Longrightarrow> delivery_step L s (s\<lparr>dv_jobs := j\<rparr>)"
| download: "record_outbound_download i indexes stamp s = Inr (r, t) \<Longrightarrow> delivery_step L s t"
| fetched: "record_fetch_download i indexes stamp token s = Inr (r, t) \<Longrightarrow> delivery_step L s t"
| mint: "put_fetch_ticket (jl_workflow L) ticket now s = Inr (b, t) \<Longrightarrow> delivery_step L s t"
| admit: "admit_fetch_ticket (jl_workflow L) ticket now s = Inr (b, t) \<Longrightarrow> delivery_step L s t"
| prune: "prune_fetch_tickets before s = (n, t) \<Longrightarrow> delivery_step L s t"
| manifest: "delivery_step L s (put_outbound_grant_manifest i root' s)"
| rotate: "rotate_outbound_grant_token (jl_stmts L) tenant i token s = Inr (b, t) \<Longrightarrow> delivery_step L s t"
| extend: "extend_outbound_grant tenant i seconds now s = Inr (d, t) \<Longrightarrow> delivery_step L s t"
| revoke: "revoke_outbound_grant tenant i stamp s = (b, t) \<Longrightarrow> delivery_step L s t"
| purge: "purge_expired_revoked_grants now s = (n, t) \<Longrightarrow> delivery_step L s t"

definition no_deliveries :: "delivery_store \<Rightarrow> bool" where
  "no_deliveries s \<longleftrightarrow> empty_store (dv_jobs s) \<and> grants (dv_jobs s) = [] \<and> dv_counts s = [] \<and> dv_tickets s = []"

section \<open>Grants under the job store\<close>

definition core_kept :: "job_store \<Rightarrow> job_store \<Rightarrow> bool" where
  "core_kept s t \<longleftrightarrow>
     (\<forall>i. map_option grant_core (map_of (grants t) i) = map_option grant_core (map_of (grants s) i))"

lemma core_kept_refl [simp]: "core_kept s s"
  by (simp add: core_kept_def)

lemma same_grants_kept: "grants t = grants s \<Longrightarrow> core_kept s t"
  by (simp add: core_kept_def)

lemma core_kept_trans: "core_kept s t \<Longrightarrow> core_kept t u \<Longrightarrow> core_kept s u"
  by (simp add: core_kept_def)

lemma core_kept_None: "core_kept s t \<Longrightarrow> map_of (grants t) i = None \<longleftrightarrow> map_of (grants s) i = None"
  unfolding core_kept_def by (metis map_option_is_None)

lemma core_kept_files:
  "core_kept s t \<Longrightarrow> map_of (grants t) i = Some g' \<Longrightarrow> map_of (grants s) i = Some g
   \<Longrightarrow> gr_files g' = gr_files g"
  unfolding core_kept_def by (drule spec [of _ i]) (simp add: grant_core_def)

lemma set_grant_kept:
  "map_of (grants s) i = Some g \<Longrightarrow> grant_core g' = grant_core g \<Longrightarrow> core_kept s (set_grant i g' s)"
  by (simp add: core_kept_def set_grant_def update_conv')

lemma policy_kept_core: "policy_kept s t \<Longrightarrow> core_kept s t"
  by (simp add: policy_kept_def core_kept_def)

lemma insert_job_grants: "insert_job j nb token s = Inr t \<Longrightarrow> grants t = grants s"
  by (auto simp: insert_job_def split: if_split_asm sum.split_asm unit.split_asm option.split_asm)

lemma cache_policy_grants [simp]: "grants (cache_policy i b s) = grants s"
  by (simp add: cache_policy_def split: option.split)

lemma release_grants: "grants (snd (release_in lib i s)) = grants s"
  by (simp add: release_in_def Let_def split: option.split)

lemma access_grants: "grants (snd (delivery_access_in lib i h now s)) = grants s"
  by (simp add: delivery_access_in_def release_grants split: option.split bool.split)


lemma drop_policies_grants [simp]: "grants (drop_policies tenant s) = grants s"
  by (simp add: drop_policies_def)

lemma set_owner_grants [simp]: "grants (set_owner i owner s) = grants s"
  by (simp add: set_owner_def row_simps)

lemma record_reception_grants [simp]: "grants (record_reception tenant link upload s) = grants s"
  by (simp add: record_reception_def)

lemma save_project_grants: "save_delivery_project lib tenant p s = Inr (p', t) \<Longrightarrow> grants t = grants s"
  by (auto simp: save_delivery_project_def Let_def row_simps
      split: if_split_asm sum.split_asm unit.split_asm option.split_asm)

lemma set_receive_grants: "set_receive_workflow tenant link w now s = Inr t \<Longrightarrow> grants t = grants s"
  by (auto simp: set_receive_workflow_def Let_def row_simps
      split: if_split_asm sum.split_asm unit.split_asm option.split_asm)

lemma enqueue_grants:
  "enqueue_delivery_job tenant actor version automation p request now i token s = Inr (j, t) \<Longrightarrow> grants t = grants s"
  by (auto simp: enqueue_delivery_job_def submit_job_def Let_def row_simps dest!: insert_job_grants
      split: if_split_asm sum.split_asm unit.split_asm option.split_asm)

lemma receive_grants:
  "queue_received error_text tenant link upload partly now i token s = Inr t \<Longrightarrow> grants t = grants s"
  by (auto simp: queue_received_def Let_def row_simps dest!: insert_job_grants
      split: if_split_asm sum.split_asm unit.split_asm option.split_asm)

lemma claim_grants: "claim_delivery_job owner now s = (j, t) \<Longrightarrow> grants t = grants s"
  by (auto simp: claim_delivery_job_def Let_def row_simps split: option.split_asm prod.split_asm)

lemma hold_grants: "grants (hold_after_restore s) = grants s"
  by (simp add: hold_after_restore_def)

lemma map_of_values: "map_of (map (\<lambda>(i, v). (i, f i v)) m) k = map_option (f k) (map_of m k)"
  by (induction m) auto

lemma revoke_route_kept: "core_kept s (revoke_route_deliveries route now s)"
  unfolding core_kept_def revoke_route_deliveries_def
  by (simp add: map_of_values option.map_comp) (auto intro!: option.map_cong simp: grant_core_def)

lemma revoke_grant_kept: "revoke_grant i tenant now s = Inr t \<Longrightarrow> core_kept s t"
  by (auto simp: revoke_grant_def grant_core_def split: option.split_asm if_split_asm intro!: set_grant_kept)

lemma replace_kept: "replace_job who original replacement token now s = Inr (k, t) \<Longrightarrow> core_kept s t"
  unfolding replace_job_def Let_def
  by (auto simp: core_kept_def row_simps dest!: insert_job_grants revoke_grant_kept
      split: sum.split_asm unit.split_asm if_split_asm)

lemma reprocess_kept: "reprocess_received_job lib who i manifest revision now fresh token s = Inr (j, t) \<Longrightarrow> core_kept s t"
  unfolding reprocess_received_job_def Let_def
  by (auto intro: replace_kept split: option.split_asm sum.split_asm unit.split_asm if_split_asm)

lemma finish_grants: "finish_job j g digest now s = Inr t \<Longrightarrow> grants t = grants s"
  by (auto simp: finish_job_def store_finished_def Let_def row_simps
      split: option.split_asm if_split_asm sum.split_asm unit.split_asm)

text \<open>A publication puts exactly its grant in front: same files, a fresh id.\<close>

lemma published_grant:
  assumes "insert_workflow_grant L g operation job share now s = Inr t"
  shows "map_of (grants s) (gr_id g) = None
    \<and> (\<exists>g'. grants t = (gr_id g, g') # grants s \<and> gr_files g' = gr_files g \<and> gr_id g' = gr_id g)"
proof -
  let ?o = "notification_job_override_in s (gr_tenant g) (gr_id g)"
  let ?g = "case ?o of None \<Rightarrow> g | Some policy \<Rightarrow> g\<lparr>gr_notifications := Some policy\<rparr>"
  from assms obtain digest u v share' where
    u: "(case job of None \<Rightarrow> Inr s | Some j \<Rightarrow> finish_job j ?g digest now s) = Inr u"
    and v: "insert_grant (?g\<lparr>gr_share_token := share'\<rparr>) digest u = Inr v"
    and t: "record_operation operation (gr_id ?g) now v = Inr t"
    unfolding insert_workflow_grant_def Let_def
    by (auto split: if_split_asm sum.split_asm unit.split_asm)
  have same: "gr_id ?g = gr_id g" "gr_files ?g = gr_files g" by (cases ?o; simp)+
  have "grants u = grants s" using u finish_grants by (cases job) auto
  with v have "map_of (grants s) (gr_id g) = None"
    "grants v = (gr_id g, ?g\<lparr>gr_share_token := share'\<rparr>) # grants s"
    by (auto simp: insert_grant_def same split: if_split_asm)
  moreover have "grants t = grants v"
    using t by (auto simp: record_operation_def split: option.split_asm if_split_asm)
  ultimately show ?thesis using same by auto
qed

lemma job_step_kept:
  assumes "job_step L s t" and "jobs_ok (jl_workflow L) s" and "map fst (grants t) = map fst (grants s)"
  shows "core_kept s t"
  using assms
proof (induction rule: job_step.induct)
  case (publish g operation job share now s t)
  then show ?case using published_grant [of L g operation job share now s t] by auto
next
  case (others s t)
  then show ?case by (simp add: others_step_def policy_kept_core)
next
  case reserve
  then show ?case by (blast intro: policy_kept_core dest: reserve_idle)
next
  case complete_export
  then show ?case by (blast intro: policy_kept_core dest: complete_export_idle)
next
  case fail_destination
  then show ?case by (blast intro: policy_kept_core dest: fail_destination_idle)
next
  case (progress i attempt d n s t)
  then show ?case using route_progress_idle by (blast intro: policy_kept_core)
next
  case fail_job
  then show ?case by (blast intro: policy_kept_core dest: fail_job_idle)
next
  case change
  then show ?case by (blast intro: policy_kept_core dest: change_idle)
next
  case remove_recipient
  then show ?case by (blast intro: policy_kept_core dest: remove_recipient_idle)
next
  case rotate
  then show ?case by (blast intro: policy_kept_core dest: rotate_idle)
next
  case claim_retirement
  then show ?case by (blast intro: policy_kept_core dest: claim_retirement_idle)
next
  case complete_retirement
  then show ?case by (blast intro: policy_kept_core dest: complete_retirement_idle)
next
  case save_project
  then show ?case by (blast intro: same_grants_kept dest: save_project_grants)
next
  case set_receive
  then show ?case by (blast intro: same_grants_kept dest: set_receive_grants)
next
  case enqueue
  then show ?case by (blast intro: same_grants_kept dest: enqueue_grants)
next
  case receive
  then show ?case by (blast intro: same_grants_kept dest: receive_grants)
next
  case claim
  then show ?case by (blast intro: same_grants_kept dest: claim_grants)
next
  case reprocess
  then show ?case by (blast intro: reprocess_kept)
next
  case (access i h now s x t)
  then show ?case using access_grants [of "jl_workflow L" i h now s] by (simp add: same_grants_kept)
next
  case (release i s x t)
  then show ?case using release_grants [of "jl_workflow L" i s] by (simp add: same_grants_kept)
next
  case (source_revocation route now s t)
  then show ?case using revoke_route_kept by blast
next
  case (restore s t)
  then show ?case using hold_grants by (auto intro: same_grants_kept)
qed

section \<open>Counting\<close>

lemma update_as_map:
  "distinct (map fst m) \<Longrightarrow> map_of m k = Some r
   \<Longrightarrow> AList.update k v m = map (\<lambda>(i, x). (i, if i = k then v else x)) m"
proof (induction m)
  case (Cons e m)
  obtain i x where e: "e = (i, x)" by fastforce
  have "map (\<lambda>(i, x). (i, if i = k then v else x)) m = m" if "k \<notin> fst ` set m"
    using that by (intro map_idI) force
  with Cons e show ?case by (auto split: if_split_asm)
qed simp

lemma more_downloads_simps [simp]:
  "fr_file (more_downloads stamp r) = fr_file r"
  "fr_downloads r \<le> i64_max \<Longrightarrow> fr_downloads (more_downloads stamp r) = min (fr_downloads r + 1) i64_max"
  "fr_first (more_downloads stamp r) \<noteq> None"
  by (auto simp: more_downloads_def split: option.split)

text \<open>The rows whose keys are in \<open>K\<close>, counted once.\<close>

definition counted :: "nat \<Rightarrow> (nat \<Rightarrow> bool) \<Rightarrow> (nat, file_row) hmap \<Rightarrow> (nat, file_row) hmap" where
  "counted stamp K rows = map (\<lambda>(k, r). (k, if K k then more_downloads stamp r else r)) rows"

lemma counted_keys [simp]: "map fst (counted stamp K rows) = map fst rows"
  by (simp add: counted_def comp_def case_prod_beta)

lemma counted_files [simp]: "map (fr_file \<circ> snd) (counted stamp K rows) = map (fr_file \<circ> snd) rows"
  by (simp add: counted_def comp_def case_prod_beta)

lemma counted_Nil [simp]: "counted stamp K rows = [] \<longleftrightarrow> rows = []"
  by (simp add: counted_def)

lemma counted_none [simp]: "counted stamp (\<lambda>k. False) rows = rows"
  by (simp add: counted_def)

lemma map_of_counted:
  "map_of (counted stamp K rows) k = map_option (\<lambda>r. if K k then more_downloads stamp r else r) (map_of rows k)"
  by (simp add: counted_def map_of_values)

lemma counted_counted:
  "(\<And>k. \<not> (A k \<and> B k)) \<Longrightarrow> counted stamp B (counted stamp A rows) = counted stamp (\<lambda>k. A k \<or> B k) rows"
  by (auto simp: counted_def comp_def case_prod_beta)

text \<open>One by one: every file has a row below the limit, or nothing is counted.\<close>

lemma record_each_Inr:
  assumes "distinct ks" and "distinct (map fst rows)"
  shows "record_each limit stamp ks rows = Inr rows' \<longleftrightarrow>
    (\<forall>k\<in>set ks. \<exists>r. map_of rows k = Some r \<and> may_download limit r) \<and> rows' = counted stamp (\<lambda>k. k \<in> set ks) rows"
  using assms
proof (induction ks arbitrary: rows)
  case (Cons k ks)
  show ?case
  proof (cases "map_of rows k")
    case (Some r)
    let ?rows = "counted stamp (\<lambda>i. i = k) rows"
    have up: "AList.update k (more_downloads stamp r) rows = ?rows"
    proof -
      have "r = x" if "(k, x) \<in> set rows" for x using that Some Cons.prems(2) by simp
      then show ?thesis unfolding update_as_map [OF Cons.prems(2) Some] counted_def
        by (intro map_cong) auto
    qed
    have same: "map_of ?rows i = map_of rows i" if "i \<in> set ks" for i
      proof -
      have "i \<noteq> k" using that Cons.prems(1) by auto
      then show ?thesis by (simp add: map_of_counted option.map_ident)
    qed
    have all: "counted stamp (\<lambda>i. i \<in> set ks) ?rows = counted stamp (\<lambda>i. i \<in> set (k # ks)) rows"
      using Cons.prems(1) by (subst counted_counted) auto
    show ?thesis
      using Cons.IH [of ?rows] Cons.prems Some same by (auto simp: up all simp del: map_of_eq_Some_iff)
  qed simp
qed auto

lemma record_each_Inl:
  "record_each limit stamp ks rows = Inl e \<Longrightarrow> e = DownloadLimit \<or> (e = FileIndex \<and> (\<exists>k\<in>set ks. map_of rows k = None))"
proof (induction ks arbitrary: rows)
  case (Cons k ks)
  show ?case
  proof (cases "map_of rows k")
    case (Some r)
    then have "map_of (AList.update k v rows) i = None \<longleftrightarrow> map_of rows i = None" for v i
      by (simp add: update_conv')
    then have "(\<exists>i\<in>set ks. map_of (AList.update k v rows) i = None) \<longleftrightarrow> (\<exists>k\<in>set ks. map_of rows k = None)" for v
      by simp
    with Cons.IH [of "AList.update k (more_downloads stamp r) rows"] Cons.prems Some show ?thesis
      by (simp split: if_split_asm)
  qed (use Cons in simp)
qed simp

lemma range_keys:
  assumes "map fst rows = [0..<n]"
  shows "distinct (map fst rows)" and "map_of rows k \<noteq> None \<longleftrightarrow> k < n" and "length rows = n"
proof -
  show "length rows = n" using arg_cong [OF assms, of length] by simp
  show "map_of rows k \<noteq> None \<longleftrightarrow> k < n"
    using arg_cong [OF assms, of set] by (auto simp: map_of_eq_None_iff)
qed (simp add: assms)

lemma range_member: "map fst rows = [0..<n] \<Longrightarrow> (k, r) \<in> set rows \<Longrightarrow> k < n"
proof -
  assume "map fst rows = [0..<n]" and "(k, r) \<in> set rows"
  moreover from this(2) have "k \<in> set (map fst rows)" by force
  ultimately show "k < n" by simp
qed

lemma fast_path:
  assumes "map fst rows = [0..<n]"
  shows "record_all limit stamp n rows = record_each limit stamp [0..<n] rows"
proof (cases "\<forall>(k, r) \<in> set rows. may_download limit r")
  case True
  then have f: "filter (may_download limit \<circ> snd) rows = rows" by (auto simp: filter_id_conv)
  have "record_each limit stamp [0..<n] rows = Inr (counted stamp (\<lambda>k. k \<in> set [0..<n]) rows)"
  proof (subst record_each_Inr, simp, use range_keys(1) [OF assms] in simp, intro conjI ballI refl)
    fix k assume "k \<in> set [0..<n]"
    then obtain r where r: "map_of rows k = Some r" using range_keys(2) [OF assms, of k] by auto
    then show "\<exists>r. map_of rows k = Some r \<and> may_download limit r" using True by (auto dest: map_of_SomeD)
  qed
  moreover have "counted stamp (\<lambda>k. k \<in> set [0..<n]) rows
      = map (\<lambda>(k, r). (k, if may_download limit r then more_downloads stamp r else r)) rows"
    unfolding counted_def
  proof (intro map_cong refl)
    fix e assume "e \<in> set rows"
    moreover from this have "fst e < n" using arg_cong [OF assms, of set] by force
    ultimately show "(case e of (k, r) \<Rightarrow> (k, if k \<in> set [0..<n] then more_downloads stamp r else r))
        = (case e of (k, r) \<Rightarrow> (k, if may_download limit r then more_downloads stamp r else r))"
      using True by auto
  qed
  ultimately show ?thesis by (simp add: record_all_def f range_keys(3) [OF assms])
next
  case False
  then obtain k r where kr: "(k, r) \<in> set rows" "\<not> may_download limit r" by auto
  then have "length (filter (may_download limit \<circ> snd) rows) < n"
    using length_filter_less [of "(k, r)" rows] range_keys(3) [OF assms] by simp
  moreover have "filter (\<lambda>(k, _). k < n) rows = rows"
    using range_member [OF assms] by (auto simp: filter_id_conv)
  ultimately have all: "record_all limit stamp n rows = Inl DownloadLimit"
    using kr range_keys(3) [OF assms] by (auto simp: record_all_def list_ex_iff)
  have k: "k < n" "map_of rows k = Some r"
    using kr(1) range_keys(1,2) [OF assms] by auto
  have "record_each limit stamp [0..<n] rows \<noteq> Inr x" for x
    using k kr(2) range_keys(1) [OF assms] by (subst record_each_Inr) (auto simp del: map_of_eq_Some_iff intro!: bexI [of _ k])
  moreover have "record_each limit stamp [0..<n] rows \<noteq> Inl e" if "e \<noteq> DownloadLimit" for e
    using that record_each_Inl [of limit stamp "[0..<n]" rows e] range_keys(2) [OF assms] by (metis atLeastLessThan_iff set_upt)
  ultimately show ?thesis by (cases "record_each limit stamp [0..<n] rows") (metis all, blast)
qed

text \<open>The counter of a grant, as the least counter of its files.\<close>

lemma least_downloads_Min:
  assumes "rows \<noteq> []"
  shows "least_downloads rows = Min ((fr_downloads \<circ> snd) ` set rows)"
proof (cases rows)
  case (Cons e rest)
  then show ?thesis by (simp add: least_downloads_def Min.set_eq_fold [symmetric] del: Min_insert)
qed (use assms in simp)

lemma least_downloads_le: "(k, r) \<in> set rows \<Longrightarrow> least_downloads rows \<le> fr_downloads r"
  by (subst least_downloads_Min) (force intro: Min_le)+

lemma least_downloads_ge:
  assumes "rows \<noteq> []" and "\<And>k r. (k, r) \<in> set rows \<Longrightarrow> b \<le> fr_downloads r"
  shows "b \<le> least_downloads rows"
  using assms by (subst least_downloads_Min) auto

lemma least_downloads_pos:
  "rows \<noteq> [] \<Longrightarrow> least_downloads rows > 0 \<longleftrightarrow> (\<forall>(k, r) \<in> set rows. fr_downloads r > 0)"
  by (subst least_downloads_Min) (auto simp: Min_gr_iff)

lemma set_counted:
  "set (counted stamp K rows) = (\<lambda>(k, r). (k, if K k then more_downloads stamp r else r)) ` set rows"
  by (simp add: counted_def)

lemma counted_grows:
  assumes "rows \<noteq> []" and "\<And>k r. (k, r) \<in> set rows \<Longrightarrow> fr_downloads r \<le> i64_max"
  shows "least_downloads rows \<le> least_downloads (counted stamp K rows)"
proof (rule least_downloads_ge)
  fix k r assume "(k, r) \<in> set (counted stamp K rows)"
  then obtain x where x: "(k, x) \<in> set rows" "r = (if K k then more_downloads stamp x else x)"
    by (auto simp: set_counted)
  with assms(2) [OF x(1)] have "fr_downloads x \<le> fr_downloads r" by auto
  with least_downloads_le [OF x(1)] show "least_downloads rows \<le> fr_downloads r" by simp
qed (use assms in simp)

section \<open>Recording\<close>

lemma unique_range: "remdups (sort [0..<n]) = [0..<n]"
  by (simp add: sorted_sort_id)

lemma counts_ok_rows:
  assumes "counts_ok fs c"
  shows "map fst (gc_rows c) = [0..<length fs]" and "distinct (map fst (gc_rows c))"
    and "gc_rows c = [] \<longleftrightarrow> fs = []"
    and "\<And>k r. (k, r) \<in> set (gc_rows c) \<Longrightarrow> fr_downloads r \<le> i64_max \<and> limited (gc_max c) (fr_downloads r)"
    and "gc_rows c \<noteq> [] \<Longrightarrow> gc_downloads c = least_downloads (gc_rows c)"
    and "gc_rows c \<noteq> [] \<Longrightarrow> gc_file_count c = length fs"
proof -
  show keys: "map fst (gc_rows c) = [0..<length fs]" using assms by (simp add: counts_ok_def)
  show "distinct (map fst (gc_rows c))" by (rule range_keys(1) [OF keys])
  show nil: "gc_rows c = [] \<longleftrightarrow> fs = []" using range_keys(3) [OF keys] by (cases fs) auto
  show "\<And>k r. (k, r) \<in> set (gc_rows c) \<Longrightarrow> fr_downloads r \<le> i64_max \<and> limited (gc_max c) (fr_downloads r)"
    and "gc_rows c \<noteq> [] \<Longrightarrow> gc_downloads c = least_downloads (gc_rows c)"
    using assms by (auto simp: counts_ok_def)
  show "gc_file_count c = length fs" if "gc_rows c \<noteq> []"
  proof -
    have "length fs \<ge> 1" using that nil by (cases fs) auto
    then show ?thesis using assms by (simp add: counts_ok_def max_def)
  qed
qed

lemma some_row:
  assumes "rows \<noteq> []" obtains k r where "(k, r) \<in> set rows"
  using assms by (cases rows) auto

text \<open>Both paths record the same: every requested file once.\<close>

lemma both_paths:
  assumes ok: "counts_ok fs c" and rows: "gc_rows c \<noteq> []"
  shows "(if full_range indexes (gc_file_count c) then record_all (gc_max c) stamp (gc_file_count c) (gc_rows c)
          else record_each (gc_max c) stamp (remdups (sort indexes)) (gc_rows c))
    = record_each (gc_max c) stamp (remdups (sort indexes)) (gc_rows c)"
proof (cases "full_range indexes (gc_file_count c)")
  case True
  then have "indexes = [0..<length fs]" by (simp add: full_range_def counts_ok_rows(6) [OF ok rows])
  then show ?thesis
    using True fast_path [OF counts_ok_rows(1) [OF ok]]
    by (simp only: if_True unique_range counts_ok_rows(6) [OF ok rows])
qed simp

lemma record_files_Inr:
  assumes ok: "counts_ok fs c" and rows: "gc_rows c \<noteq> []"
    and rec: "record_files c indexes stamp = Inr (r, c')"
  defines "rows' \<equiv> counted (to_i64 stamp) (\<lambda>k. k \<in> set indexes) (gc_rows c)"
  defines "d \<equiv> (if indexes = [] then gc_downloads c else least_downloads rows')"
  shows "\<forall>k\<in>set indexes. \<exists>x. map_of (gc_rows c) k = Some x \<and> may_download (gc_max c) x"
    and "c' = c\<lparr>gc_rows := rows', gc_downloads := to_i64 d, gc_first := first_of c stamp, gc_last := Some (to_i64 stamp)\<rparr>"
    and "r = \<lparr>dr_first_download = (gc_first c = None), dr_completed_delivery = (gc_downloads c = 0 \<and> d > 0), dr_event_at = stamp\<rparr>"
proof -
  let ?ks = "remdups (sort indexes)"
  from rec obtain x where x: "record_each (gc_max c) (to_i64 stamp) ?ks (gc_rows c) = Inr x"
    unfolding record_files_def Let_def both_paths [OF ok rows] by (auto split: sum.split_asm)
  then have e: "\<forall>k\<in>set indexes. \<exists>x. map_of (gc_rows c) k = Some x \<and> may_download (gc_max c) x" and "x = rows'"
    using record_each_Inr [of ?ks "gc_rows c"] counts_ok_rows(2) [OF ok]
    by (simp_all add: rows'_def del: map_of_eq_Some_iff)
  moreover have "?ks = [] \<longleftrightarrow> indexes = []" by (metis remdups_eq_nil_iff sort_key_simps(1) set_sort set_empty)
  ultimately show "\<forall>k\<in>set indexes. \<exists>x. map_of (gc_rows c) k = Some x \<and> may_download (gc_max c) x"
    and "c' = c\<lparr>gc_rows := rows', gc_downloads := to_i64 d, gc_first := first_of c stamp, gc_last := Some (to_i64 stamp)\<rparr>"
    and "r = \<lparr>dr_first_download = (gc_first c = None), dr_completed_delivery = (gc_downloads c = 0 \<and> d > 0), dr_event_at = stamp\<rparr>"
    using rec x unfolding record_files_def Let_def both_paths [OF ok rows] d_def by auto
qed

lemma limited_counted:
  assumes ok: "counts_ok fs c" and may: "\<forall>k\<in>K. \<exists>x. map_of (gc_rows c) k = Some x \<and> may_download (gc_max c) x"
    and kr: "(k, r) \<in> set (counted stamp (\<lambda>k. k \<in> K) (gc_rows c))"
  shows "fr_downloads r \<le> i64_max" and "limited (gc_max c) (fr_downloads r)"
proof -
  from kr obtain x where x: "(k, x) \<in> set (gc_rows c)" "r = (if k \<in> K then more_downloads stamp x else x)"
    by (auto simp: set_counted)
  note b = counts_ok_rows(4) [OF ok x(1)]
  show "fr_downloads r \<le> i64_max" using b x(2) by simp
  show "limited (gc_max c) (fr_downloads r)"
  proof (cases "k \<in> K")
    case True
    then have "may_download (gc_max c) x" using may map_of_is_SomeI [OF counts_ok_rows(2) [OF ok] x(1)] by auto
    then show ?thesis using b x(2) True by (auto simp: limited_def may_download_def split: option.splits)
  qed (use b x(2) in simp)
qed

lemma record_files_ok:
  assumes ok: "counts_ok fs c" and rows: "gc_rows c \<noteq> []"
    and rec: "record_files c indexes stamp = Inr (r, c')"
  shows "counts_ok fs c'"
proof -
  let ?rows = "counted (to_i64 stamp) (\<lambda>k. k \<in> set indexes) (gc_rows c)"
  note may = record_files_Inr(1) [OF assms] and c' = record_files_Inr(2) [OF assms]
  obtain k x where kx: "(k, x) \<in> set ?rows" using rows some_row [of ?rows] by auto
  note lim = limited_counted [OF ok may]
  have d: "(if indexes = [] then gc_downloads c else least_downloads ?rows) = least_downloads ?rows"
    using counts_ok_rows(5) [OF ok rows] by simp
  have least: "least_downloads ?rows \<le> i64_max" "limited (gc_max c) (least_downloads ?rows)"
    using least_downloads_le [OF kx] lim [OF kx] by (auto simp: limited_def split: option.splits)
  then have "to_i64 (least_downloads ?rows) = least_downloads ?rows" by (simp add: to_i64_def)
  with ok least lim rows show ?thesis unfolding c' d by (auto simp: counts_ok_def)
qed

lemma record_single_ok:
  assumes ok: "counts_ok [] c" and rec: "record_single c indexes stamp = Inr (r, c')" and below: "below_limit c 0"
  shows "counts_ok [] c'"
proof -
  have "gc_rows c = []" using counts_ok_rows(3) [OF ok] by simp
  moreover have "to_i64 (sat_add (gc_downloads c) 1) \<le> i64_max" by (simp add: to_i64_def)
  moreover have "to_i64 (sat_add (gc_downloads c) 1) \<le> gc_downloads c + 1" by (simp add: to_i64_def sat_add_def)
  ultimately show ?thesis
    using ok rec below by (auto simp: counts_ok_def record_single_def below_limit_def limited_def split: if_split_asm option.splits)
qed

lemma count_download_ok:
  assumes ok: "counts_ok (gr_files g) c" and rec: "count_download g c indexes stamp = Inr (r, c')"
  shows "counts_ok (gr_files g) c'" and "gc_max c' = gc_max c" and "gc_file_count c' = gc_file_count c"
proof -
  have below: "below_limit c 0" using rec by (simp add: count_download_def split: if_split_asm)
  have "counts_ok (gr_files g) c' \<and> gc_max c' = gc_max c \<and> gc_file_count c' = gc_file_count c"
  proof (cases "gc_rows c = []")
    case True
    then have g: "gr_files g = []" using counts_ok_rows(3) [OF ok] by simp
    then have s: "record_single c indexes stamp = Inr (r, c')" using rec below True by (simp add: count_download_def)
    show ?thesis using record_single_ok [OF ok [unfolded g] s below] s g by (auto simp: record_single_def split: if_split_asm)
  next
    case False
    then have s: "record_files c indexes stamp = Inr (r, c')" using rec below by (simp add: count_download_def)
    show ?thesis using record_files_ok [OF ok False s] record_files_Inr(2) [OF ok False s] by simp
  qed
  then show "counts_ok (gr_files g) c'" and "gc_max c' = gc_max c" and "gc_file_count c' = gc_file_count c" by simp_all
qed

section \<open>Every step keeps the invariant\<close>

lemma jobs_kept_ok:
  assumes ok: "delivery_ok lib s" and "jobs_ok lib (dv_jobs t)" and "hm_ok (grants (dv_jobs t))"
    and core: "core_kept (dv_jobs s) (dv_jobs t)" and counts: "dv_counts t = dv_counts s" and "hm_ok (dv_tickets t)"
  shows "delivery_ok lib t"
proof -
  have "counts_ok (gr_files g) c" if "grant_of_id t i = Some g" "counts_of t i = Some c" for i g c
  proof -
    have c: "counts_of s i = Some c" using that(2) by (simp add: counts_of_def counts)
    then obtain h where h: "grant_of_id s i = Some h" using ok by (cases "grant_of_id s i") (auto simp: delivery_ok_def)
    with ok c have "counts_ok (gr_files h) c" by (auto simp: delivery_ok_def)
    with core_kept_files [OF core] that(1) h show ?thesis by (simp add: grant_of_id_def)
  qed
  moreover have "grant_of_id t i = None \<longleftrightarrow> counts_of t i = None" for i
    using ok core_kept_None [OF core, of i] by (simp add: delivery_ok_def grant_of_id_def counts_of_def counts)
  ultimately show ?thesis using assms(2,3,6) by (auto simp: delivery_ok_def)
qed

lemma same_jobs_kept_ok:
  assumes "delivery_ok lib s" and "jobs_ok lib (dv_jobs s) \<Longrightarrow> jobs_ok lib (dv_jobs t)"
    and "grants (dv_jobs t) = grants (dv_jobs s)" and "dv_counts t = dv_counts s"
    and "hm_ok (dv_tickets s) \<Longrightarrow> hm_ok (dv_tickets t)"
  shows "delivery_ok lib t"
  by (rule jobs_kept_ok [OF assms(1)]) (use assms in \<open>simp_all add: delivery_ok_def same_grants_kept\<close>)

lemma release_ok: "jobs_ok lib s \<Longrightarrow> jobs_ok lib (snd (release_in lib i s))"
  using release_good [of lib s i] by (simp add: good_step_def)

lemma write_grant_ok:
  assumes ok: "delivery_ok lib s" and g: "grant_of_id s i = Some g" and core: "grant_core g' = grant_core g"
  shows "delivery_ok lib (write_grant i g' s)"
proof (rule jobs_kept_ok [OF ok])
  have g: "map_of (grants (dv_jobs s)) i = Some g" using g by (simp add: grant_of_id_def)
  have "good_step lib (dv_jobs s) (set_grant i g' (dv_jobs s))"
    by (rule same_jobs_good [OF jobs_set_grant policy_kept_grant [OF g core]])
  then show "jobs_ok lib (dv_jobs (write_grant i g' s))" using ok by (simp add: good_step_def delivery_ok_def write_grant_def)
  show "core_kept (dv_jobs s) (dv_jobs (write_grant i g' s))" by (simp add: write_grant_def set_grant_kept [OF g core])
qed (use ok in \<open>simp_all add: delivery_ok_def write_grant_def set_grant_def hm_ok_def distinct_update\<close>)

lemma insert_outbound_ok:
  assumes ok: "delivery_ok (jl_workflow L) s" and ins: "insert_outbound L g c cs operation job share now s = Inr t"
    and fresh: "fresh_counts c cs g" and copy: "\<forall>j. job = Some j \<longrightarrow> workers_copy (dv_jobs s) j"
  shows "delivery_ok (jl_workflow L) t"
proof -
  from ins obtain j where j: "insert_workflow_grant L g operation job share now (dv_jobs s) = Inr j"
    and t: "t = s\<lparr>dv_jobs := j, dv_counts := AList.update (gr_id g)
           \<lparr>gc_file_index = to_i64 (gc_file_index c), gc_downloads = to_i64 (gc_downloads c),
            gc_max = map_option to_i64 (gc_max c), gc_first = map_option to_i64 (gc_first c),
            gc_last = map_option to_i64 (gc_last c), gc_file_count = to_i64 (max (length (gr_files g)) 1),
            gc_rows = file_rows (gr_files g) cs\<rparr> (dv_counts s)\<rparr>"
    by (auto simp: insert_outbound_def split: sum.split_asm)
  from published_grant [OF j] obtain g' where new: "map_of (grants (dv_jobs s)) (gr_id g) = None"
    and gs: "grants j = (gr_id g, g') # grants (dv_jobs s)" and files: "gr_files g' = gr_files g" by auto
  have "jobs_ok (jl_workflow L) j"
    using publish_good [OF j copy, of "jl_workflow L"] ok by (simp add: good_step_def delivery_ok_def)
  moreover have "hm_ok (grants j)" using ok new by (simp add: delivery_ok_def hm_ok_def gs map_of_eq_None_iff)
  moreover have "counts_ok (gr_files g) \<lparr>gc_file_index = to_i64 (gc_file_index c), gc_downloads = to_i64 (gc_downloads c),
            gc_max = map_option to_i64 (gc_max c), gc_first = map_option to_i64 (gc_first c),
            gc_last = map_option to_i64 (gc_last c), gc_file_count = to_i64 (max (length (gr_files g)) 1),
            gc_rows = file_rows (gr_files g) cs\<rparr>" (is "counts_ok _ ?c")
  proof -
    let ?n = "length (gr_files g)"
    have rows: "file_rows (gr_files g) cs
        = zip [0..<?n] (map (\<lambda>f. \<lparr>fr_file = f, fr_downloads = 0, fr_first = None, fr_last = None\<rparr>) (gr_files g))"
    proof -
      have "zip (gr_files g) (replicate ?n x) = map (\<lambda>f. (f, x)) (gr_files g)" for x :: "nat \<times> nat option \<times> nat option"
        by (simp add: zip_replicate2)
      then show ?thesis using fresh by (simp add: file_rows_def fresh_counts_def to_i64_def comp_def)
    qed
    have zero: "fr_downloads r = 0" if "(k, r) \<in> set (gc_rows ?c)" for k r
      using that by (auto simp: rows dest!: set_zip_rightD)
    have "least_downloads (gc_rows ?c) = 0" if ne: "gc_rows ?c \<noteq> []"
    proof -
      obtain k r where kr: "(k, r) \<in> set (gc_rows ?c)" by (rule some_row [OF ne])
      show ?thesis using least_downloads_le [OF kr] zero [OF kr] by simp
    qed
    moreover have "to_i64 (max ?n 1) = max ?n 1" using fresh by (simp add: fresh_counts_def i64_max_def to_i64_def)
    moreover have "map fst (gc_rows ?c) = [0..<?n]" by (simp add: rows)
    moreover have "map (fr_file \<circ> snd) (gc_rows ?c) = gr_files g"
    proof -
      have "map snd (gc_rows ?c)
          = map (\<lambda>f. \<lparr>fr_file = f, fr_downloads = 0, fr_first = None, fr_last = None\<rparr>) (gr_files g)"
        by (simp add: rows)
      then have "map fr_file (map snd (gc_rows ?c)) = gr_files g" by (simp add: comp_def)
      then show ?thesis by simp
    qed
    moreover have "\<forall>m. gc_max ?c = Some m \<longrightarrow> m \<le> i64_max" by (auto simp: to_i64_def)
    moreover have "gc_downloads ?c = 0" using fresh by (simp add: fresh_counts_def to_i64_def)
    ultimately show ?thesis
      using zero unfolding counts_ok_def limited_def by (auto split: option.split simp del: map_map)
  qed
  ultimately show ?thesis
    using ok new by (auto simp: delivery_ok_def t gs grant_of_id_def counts_of_def update_conv' files split: if_split_asm)
qed

lemma deliver_ticket_Inr:
  assumes "deliver_ticket token i stamp s = Inr t"
  obtains row where "map_of (dv_tickets s) token = Some row" "ft_grant_id row = i"
    "t = s\<lparr>dv_tickets := AList.update token
       (row\<lparr>ft_delivered_at := (case ft_delivered_at row of None \<Rightarrow> Some (to_i64 stamp) | Some d \<Rightarrow> Some d)\<rparr>) (dv_tickets s)\<rparr>"
proof (cases "map_of (dv_tickets s) token")
  case (Some row)
  with assms have "ft_grant_id row = i" by (simp add: deliver_ticket_def split: if_split_asm)
  with assms Some show thesis by (intro that) (auto simp: deliver_ticket_def)
qed (use assms in \<open>simp add: deliver_ticket_def\<close>)

text \<open>What a recorded download writes.\<close>

lemma record_download_cases:
  assumes "record_download i indexes stamp ticket s = Inr (r, t)"
  obtains g c c' where "grant_of_id s i = Some g" "counts_of s i = Some c"
    "count_download g c indexes stamp = Inr (r, c')"
    "dv_jobs t = dv_jobs s" "dv_counts t = AList.update i c' (dv_counts s)"
    "map fst (dv_tickets t) = map fst (dv_tickets s)"
    "dv_roots t = dv_roots s" "dv_evidence t = dv_evidence s"
proof (cases "grant_of_id s i")
  case (Some g)
  show thesis
  proof (cases "counts_of s i")
    case (Some c)
    note rec = assms [unfolded record_download_def \<open>grant_of_id s i = Some g\<close> Some prod.case option.case]
    show thesis
    proof (cases "count_download g c indexes stamp")
      case (Inr rc)
      obtain r' c' where rc: "rc = (r', c')" by (rule prod.exhaust)
      let ?s = "s\<lparr>dv_counts := AList.update i c' (dv_counts s)\<rparr>"
      note rec = rec [unfolded Inr sum.case rc prod.case Let_def]
      show thesis
      proof (cases ticket)
        case None
        with rec show thesis using \<open>grant_of_id s i = Some g\<close> Some Inr rc by (intro that [of g c c']) auto
      next
        case T: (Some token)
        with rec have r: "r = r'" and d: "deliver_ticket token i stamp ?s = Inr t"
          by (auto simp: map_sum_def split: sum.split_asm)
        from d show thesis
        proof (rule deliver_ticket_Inr)
          fix row
          assume row: "map_of (dv_tickets ?s) token = Some row" and t: "t = ?s\<lparr>dv_tickets := AList.update token
             (row\<lparr>ft_delivered_at := (case ft_delivered_at row of None \<Rightarrow> Some (to_i64 stamp) | Some d \<Rightarrow> Some d)\<rparr>)
             (dv_tickets ?s)\<rparr>"
          then have "token \<in> fst ` set (dv_tickets s)" by (force dest: map_of_SomeD)
          then show thesis
            using \<open>grant_of_id s i = Some g\<close> Some Inr rc r by (intro that [of g c c']) (simp_all add: t update_keys)
        qed
      qed
    qed (use rec in simp)
  qed (use assms \<open>grant_of_id s i = Some g\<close> in \<open>simp add: record_download_def\<close>)
qed (use assms in \<open>simp add: record_download_def\<close>)

lemma record_download_ok:
  assumes ok: "delivery_ok lib s" and rec: "record_download i indexes stamp ticket s = Inr (r, t)"
  shows "delivery_ok lib t"
  using rec
proof (cases rule: record_download_cases)
  case (1 g c c')
  have "counts_ok (gr_files g) c'"
    by (rule count_download_ok(1) [OF _ 1(3)]) (use ok 1 in \<open>auto simp: delivery_ok_def\<close>)
  moreover have "hm_ok (dv_tickets t)" using ok 1(6) by (simp add: delivery_ok_def hm_ok_def)
  ultimately show ?thesis
    using ok 1 by (auto simp: delivery_ok_def grant_of_id_def counts_of_def update_conv')
qed

lemma ticket_step_ok:
  assumes ok: "delivery_ok lib s"
    and t: "t = s \<or> (dv_jobs t = snd (release_in lib i (dv_jobs s)) \<and> dv_counts t = dv_counts s
      \<and> (hm_ok (dv_tickets s) \<longrightarrow> hm_ok (dv_tickets t)))"
  shows "delivery_ok lib t"
  using t
proof
  assume "dv_jobs t = snd (release_in lib i (dv_jobs s)) \<and> dv_counts t = dv_counts s
      \<and> (hm_ok (dv_tickets s) \<longrightarrow> hm_ok (dv_tickets t))"
  then show ?thesis
    by (intro same_jobs_kept_ok [OF ok]) (simp_all add: release_ok release_grants)
qed (use ok in simp)

text \<open>What a mint and an admission write.\<close>

lemma put_ticket_cases:
  assumes "put_fetch_ticket lib ticket now s = Inr (b, t)"
  obtains (no) "\<not> b" "t = s \<or> t = s\<lparr>dv_jobs := snd (release_in lib (ft_grant_id ticket) (dv_jobs s))\<rparr>"
  | (yes) "b" "\<not> contains_key (ft_token_id ticket) (dv_tickets s)"
      "grant_takes ticket now (count_reserved (reserves_against ticket) (ft_grant_id ticket) now s)
         (s\<lparr>dv_jobs := snd (release_in lib (ft_grant_id ticket) (dv_jobs s))\<rparr>)"
      "t = s\<lparr>dv_jobs := snd (release_in lib (ft_grant_id ticket) (dv_jobs s)),
         dv_tickets := filter (\<lambda>(k, o'). \<not> (ft_grant_id o' = ft_grant_id ticket \<and> ft_holder o' = ft_holder ticket
             \<and> k \<noteq> ft_token_id ticket \<and> live_ticket now o' \<and> ft_admitted_at o' = None))
           (dv_tickets s @ [(ft_token_id ticket, fetch_ticket.extend (ticket\<lparr>ft_delivered_at := None\<rparr>) \<lparr>ft_admitted_at = None\<rparr>)])\<rparr>"
proof -
  obtain x j where rel: "release_in lib (ft_grant_id ticket) (dv_jobs s) = (x, j)" by (rule prod.exhaust)
  show thesis
  proof (cases x)
    case (Inr job)
    let ?takes = "grant_takes ticket now (count_reserved (reserves_against ticket) (ft_grant_id ticket) now s) (s\<lparr>dv_jobs := j\<rparr>)"
    note put = assms [unfolded put_fetch_ticket_def rel prod.case Inr sum.case Let_def]
    show thesis
    proof (cases "ticket_allowed job ticket \<and> ?takes")
      case True
      with put show thesis by (intro yes) (simp_all add: rel split: if_split_asm)
    next
      case False
      with put show thesis by (intro no) (auto simp: rel split: if_split_asm)
    qed
  qed (use assms rel in \<open>simp add: put_fetch_ticket_def\<close>)
qed

lemma admit_ticket_cases:
  assumes "admit_fetch_ticket lib ticket now s = Inr (b, t)"
  obtains (no) "\<not> b" "t = s \<or> t = s\<lparr>dv_jobs := snd (release_in lib (ft_grant_id ticket) (dv_jobs s))\<rparr>"
  | (yes) row where "b" "map_of (dv_tickets s) (ft_token_id ticket) = Some row"
      "ft_grant_id row = ft_grant_id ticket" "ft_grant_token_hash row = ft_grant_token_hash ticket" "ft_expires_at row > now"
      "grant_takes ticket now (length (filter (\<lambda>(k, o'). ft_grant_id o' = ft_grant_id ticket \<and> k \<noteq> ft_token_id ticket
                        \<and> live_ticket now o' \<and> reserves_against ticket o') (dv_tickets s)))
         (s\<lparr>dv_jobs := snd (release_in lib (ft_grant_id ticket) (dv_jobs s))\<rparr>)"
      "t = s\<lparr>dv_jobs := snd (release_in lib (ft_grant_id ticket) (dv_jobs s)),
         dv_tickets := AList.update (ft_token_id ticket)
           (row\<lparr>ft_admitted_at := (case ft_admitted_at row of None \<Rightarrow> Some now | Some a \<Rightarrow> Some a)\<rparr>) (dv_tickets s)\<rparr>"
proof -
  obtain x j where rel: "release_in lib (ft_grant_id ticket) (dv_jobs s) = (x, j)" by (rule prod.exhaust)
  show thesis
  proof (cases x)
    case (Inr job)
    note put = assms [unfolded admit_fetch_ticket_def rel prod.case Inr sum.case Let_def]
    show thesis
    proof (cases "map_of (dv_tickets s) (ft_token_id ticket)")
      case None
      with put show thesis by (intro no) (auto simp: rel split: if_split_asm)
    next
      case (Some row)
      let ?takes = "ft_grant_id row = ft_grant_id ticket \<and> ft_grant_token_hash row = ft_grant_token_hash ticket
                   \<and> ft_expires_at row > now
                   \<and> grant_takes ticket now (length (filter (\<lambda>(k, o'). ft_grant_id o' = ft_grant_id ticket \<and> k \<noteq> ft_token_id ticket
                        \<and> live_ticket now o' \<and> reserves_against ticket o') (dv_tickets s))) (s\<lparr>dv_jobs := j\<rparr>)"
      note put = put [unfolded Some option.case]
      show thesis
      proof (cases "ticket_allowed job ticket \<and> ?takes")
        case True
        with put have "b" "t = s\<lparr>dv_jobs := j, dv_tickets := AList.update (ft_token_id ticket)
                   (row\<lparr>ft_admitted_at := (case ft_admitted_at row of None \<Rightarrow> Some now | Some a \<Rightarrow> Some a)\<rparr>) (dv_tickets s)\<rparr>"
          by simp_all
        then show thesis using True by (intro yes [OF _ Some]) (simp_all add: rel)
      next
        case False
        with put have "\<not> b \<and> (t = s \<or> t = s\<lparr>dv_jobs := j\<rparr>)" by (auto simp del: not_None_eq split: if_split_asm)
        then show thesis by (intro no) (simp_all add: rel)
      qed
    qed
  qed (use assms rel in \<open>simp add: admit_fetch_ticket_def\<close>)
qed

lemma put_ticket_ok:
  assumes ok: "delivery_ok lib s" and put: "put_fetch_ticket lib ticket now s = Inr (b, t)"
  shows "delivery_ok lib t"
  using put
proof (cases rule: put_ticket_cases)
  case no
  then show ?thesis by (intro ticket_step_ok [OF ok, where i = "ft_grant_id ticket"]) auto
next
  case yes
  then have "hm_ok (dv_tickets s) \<longrightarrow> hm_ok (dv_tickets t)"
    by (auto simp: hm_ok_def contains_key_def map_of_eq_None_iff intro!: distinct_map_filter)
  with yes(4) show ?thesis by (intro ticket_step_ok [OF ok, where i = "ft_grant_id ticket"]) simp
qed

lemma admit_ticket_ok:
  assumes ok: "delivery_ok lib s" and put: "admit_fetch_ticket lib ticket now s = Inr (b, t)"
  shows "delivery_ok lib t"
  using put
proof (cases rule: admit_ticket_cases)
  case no
  then show ?thesis by (intro ticket_step_ok [OF ok, where i = "ft_grant_id ticket"]) auto
next
  case (yes row)
  then have "hm_ok (dv_tickets s) \<longrightarrow> hm_ok (dv_tickets t)" by (simp add: hm_ok_def distinct_update)
  with yes(7) show ?thesis by (intro ticket_step_ok [OF ok, where i = "ft_grant_id ticket"]) simp
qed

lemma map_of_filter_entry:
  "hm_ok m \<Longrightarrow> map_of (filter P m) k = (case map_of m k of None \<Rightarrow> None | Some v \<Rightarrow> if P (k, v) then Some v else None)"
proof (induction m)
  case (Cons e m)
  have "map_of (filter P m) (fst e) = None" if "fst e \<notin> fst ` set m"
    using that by (auto simp: map_of_eq_None_iff)
  with Cons show ?case by (cases e) (auto simp: hm_ok_def split: option.split)
qed simp

lemma map_of_filter_fst: "map_of (filter (P \<circ> fst) m) k = (if P k then map_of m k else None)"
  by (induction m) auto

definition kept_grant :: "delivery_store \<Rightarrow> nat \<Rightarrow> rstr \<Rightarrow> bool" where
  "kept_grant s now i \<longleftrightarrow> (\<exists>g. grant_of_id s i = Some g \<and> \<not> purgeable s now (i, g))"

text \<open>Of every table but the jobs, a purge keeps the rows of the grants that stay, when it removes any grant.\<close>

lemma purge_cases:
  assumes ok: "hm_ok (grants (dv_jobs s))" and p: "purge_expired_revoked_grants now s = (n, t)"
  shows "n = 0 \<and> t = s \<and> (\<forall>i g. grant_of_id s i = Some g \<longrightarrow> \<not> purgeable s now (i, g))
    \<or> n > 0
      \<and> (\<forall>i. grant_of_id t i = (if kept_grant s now i then grant_of_id s i else None))
      \<and> (\<forall>i. counts_of t i = (if kept_grant s now i then counts_of s i else None))
      \<and> jobs (dv_jobs t) = jobs (dv_jobs s) \<and> projects (dv_jobs t) = projects (dv_jobs s)
      \<and> policy_cache (dv_jobs t) = filter (kept_grant s now \<circ> fst) (policy_cache (dv_jobs s))
      \<and> manifests (dv_jobs t) = filter (kept_grant s now \<circ> fst) (manifests (dv_jobs s))
      \<and> dv_tickets t = filter (kept_grant s now \<circ> (ft_grant_id \<circ> snd)) (dv_tickets s)
      \<and> dv_roots t = filter (kept_grant s now \<circ> fst) (dv_roots s)
      \<and> dv_evidence t = filter (kept_grant s now) (dv_evidence s)
      \<and> hm_ok (grants (dv_jobs t))"
proof -
  let ?kept = "filter (\<lambda>e. \<not> purgeable s now e) (grants (dv_jobs s))"
  let ?n = "length (filter (purgeable s now) (grants (dv_jobs s)))"
  have kept: "map_of ?kept i = (if kept_grant s now i then grant_of_id s i else None)" for i
    by (subst map_of_filter_entry [OF ok]) (auto simp: kept_grant_def grant_of_id_def split: option.split)
  have here: "(\<lambda>i. contains_key i ?kept) = kept_grant s now"
  proof
    fix i show "contains_key i ?kept = kept_grant s now i"
      unfolding contains_key_def kept by (auto simp: kept_grant_def)
  qed
  show ?thesis
  proof (cases "?n = 0")
    case True
    then have "n = 0 \<and> t = s" using p by (simp add: purge_expired_revoked_grants_def)
    moreover have "\<not> purgeable s now (i, g)" if "grant_of_id s i = Some g" for i g
      using True that by (auto simp: grant_of_id_def filter_empty_conv dest: map_of_SomeD)
    ultimately show ?thesis by blast
  next
    case False
    have t: "t = s\<lparr>dv_jobs := (dv_jobs s)\<lparr>grants := ?kept,
         manifests := filter (kept_grant s now \<circ> fst) (manifests (dv_jobs s)),
         policy_cache := filter (kept_grant s now \<circ> fst) (policy_cache (dv_jobs s))\<rparr>,
       dv_counts := filter (kept_grant s now \<circ> fst) (dv_counts s),
       dv_evidence := filter (kept_grant s now) (dv_evidence s),
       dv_roots := filter (kept_grant s now \<circ> fst) (dv_roots s),
       dv_tickets := filter (\<lambda>(_, t). kept_grant s now (ft_grant_id t)) (dv_tickets s)\<rparr>"
      using p False unfolding purge_expired_revoked_grants_def Let_def here by (simp add: fun_cong [OF here] split: if_split_asm)
    moreover have "dv_tickets t = filter (kept_grant s now \<circ> (ft_grant_id \<circ> snd)) (dv_tickets s)"
      by (simp add: t) (auto intro!: filter_cong)
    moreover have "n > 0" using p False unfolding purge_expired_revoked_grants_def Let_def by auto
    moreover have "grant_of_id t i = (if kept_grant s now i then grant_of_id s i else None)" for i
    proof -
      have "grants (dv_jobs t) = ?kept" by (simp add: t)
      then show ?thesis using kept [of i] by (simp add: grant_of_id_def [of t])
    qed
    moreover have "counts_of t i = (if kept_grant s now i then counts_of s i else None)" for i
      by (simp add: t counts_of_def map_of_filter_fst)
    moreover have "hm_ok (grants (dv_jobs t))" by (simp add: t hm_ok_filter ok)
    ultimately show ?thesis by simp
  qed
qed

lemma purge_grants_ok:
  assumes ok: "delivery_ok lib s" and p: "purge_expired_revoked_grants now s = (n, t)"
  shows "delivery_ok lib t"
proof -
  have hm: "hm_ok (grants (dv_jobs s))" using ok by (simp add: delivery_ok_def)
  from purge_cases [OF hm p] show ?thesis
  proof
    assume t: "n > 0
      \<and> (\<forall>i. grant_of_id t i = (if kept_grant s now i then grant_of_id s i else None))
      \<and> (\<forall>i. counts_of t i = (if kept_grant s now i then counts_of s i else None))
      \<and> jobs (dv_jobs t) = jobs (dv_jobs s) \<and> projects (dv_jobs t) = projects (dv_jobs s)
      \<and> policy_cache (dv_jobs t) = filter (kept_grant s now \<circ> fst) (policy_cache (dv_jobs s))
      \<and> manifests (dv_jobs t) = filter (kept_grant s now \<circ> fst) (manifests (dv_jobs s))
      \<and> dv_tickets t = filter (kept_grant s now \<circ> (ft_grant_id \<circ> snd)) (dv_tickets s)
      \<and> dv_roots t = filter (kept_grant s now \<circ> fst) (dv_roots s)
      \<and> dv_evidence t = filter (kept_grant s now) (dv_evidence s)
      \<and> hm_ok (grants (dv_jobs t))"
    have j: "jobs_ok lib (dv_jobs s)" using ok by (simp add: delivery_ok_def)
    have unchanged: "receive_uploads (dv_jobs t) = receive_uploads (dv_jobs s)" "links (dv_jobs t) = links (dv_jobs s)"
      using p by (auto simp: purge_expired_revoked_grants_def Let_def split: if_split_asm)
    have protects: "policy_protects lib (dv_jobs t) i = policy_protects lib (dv_jobs s) i" if "kept_grant s now i" for i
    proof -
      have "map_of (grants (dv_jobs t)) i = map_of (grants (dv_jobs s)) i" "projects (dv_jobs t) = projects (dv_jobs s)"
        using t that by (simp_all add: grant_of_id_def)
      with unchanged show ?thesis
        by (simp add: policy_protects_def tenant_projects_def received_requires_workflow_def split: option.split)
    qed
    have "cache_ok lib (dv_jobs t)"
      unfolding cache_ok_def
    proof (intro allI impI)
      fix i b assume "map_of (policy_cache (dv_jobs t)) i = Some b"
      then have k: "kept_grant s now i" and c: "map_of (policy_cache (dv_jobs s)) i = Some b"
        using t by (auto simp: map_of_filter_fst split: if_split_asm)
      from k t have "map_of (grants (dv_jobs t)) i \<noteq> None"
        by (auto simp: grant_of_id_def kept_grant_def)
      moreover have "policy_protects lib (dv_jobs s) i \<longrightarrow> b" using j c by (auto simp: jobs_ok_def cache_ok_def)
      ultimately show "map_of (grants (dv_jobs t)) i \<noteq> None \<and> (policy_protects lib (dv_jobs t) i \<longrightarrow> b)"
        using protects [OF k] by simp
    qed
    then have "jobs_ok lib (dv_jobs t)"
      using new_cache_good [of "dv_jobs t" "dv_jobs s" lib] t j by (simp add: good_step_def)
    with t ok show ?thesis by (auto simp: delivery_ok_def hm_ok_filter split: if_split_asm)
  qed (use ok in simp)
qed

section \<open>The system\<close>

lemma delivery_step_ok: "delivery_step L s t \<Longrightarrow> delivery_ok (jl_workflow L) s \<Longrightarrow> delivery_ok (jl_workflow L) t"
proof (induction rule: delivery_step.induct)
  case (publish g c cs operation job share now s t)
  then show ?case by (blast intro: insert_outbound_ok)
next
  case (jobs s j)
  then have ok: "jobs_ok (jl_workflow L) (dv_jobs s)" by (simp add: delivery_ok_def)
  from jobs show ?case
    by (intro jobs_kept_ok [OF jobs(3)])
      (use job_step_good [OF jobs(1)] job_step_kept [OF jobs(1) ok jobs(2)] ok
        in \<open>simp_all add: delivery_ok_def good_step_def hm_ok_def\<close>)
next
  case (download i indexes stamp s r t)
  then show ?case by (auto simp: record_outbound_download_def intro: record_download_ok)
next
  case (fetched i indexes stamp token s r t)
  then show ?case by (auto simp: record_fetch_download_def intro: record_download_ok)
next
  case (prune before s n t)
  then show ?case
    by (intro same_jobs_kept_ok [OF prune(2)]) (auto simp: prune_fetch_tickets_def hm_ok_filter)
next
  case (manifest s i root')
  then show ?case
    by (intro same_jobs_kept_ok [OF manifest]) (simp_all add: put_outbound_grant_manifest_def)
next
  case (rotate tenant i token s b t)
  then show ?case
    by (auto simp: rotate_outbound_grant_token_def grant_core_def intro!: write_grant_ok
        split: option.split_asm if_split_asm)
next
  case (extend tenant i seconds now s d t)
  then show ?case
    unfolding extend_outbound_grant_def Let_def
    by (auto simp: grant_core_def intro!: write_grant_ok split: option.split_asm if_split_asm)
next
  case (revoke tenant i stamp s b t)
  then show ?case
    by (auto simp: revoke_outbound_grant_def grant_core_def intro!: write_grant_ok
        split: option.split_asm if_split_asm)
next
  case (purge now s n t)
  then show ?case by (blast intro: purge_grants_ok)
qed (blast intro: put_ticket_ok admit_ticket_ok)+

lemma no_deliveries_ok: "no_deliveries s \<Longrightarrow> delivery_ok lib s"
  by (simp add: no_deliveries_def delivery_ok_def empty_store_ok grant_of_id_def counts_of_def hm_ok_def)

interpretation delivery_system: invariant_system no_deliveries "delivery_step L" "delivery_ok (jl_workflow L)"
  for L :: "('k, 'b) jobs_lib"
  by unfold_locales (auto intro: no_deliveries_ok delivery_step_ok)

end
