(* ===== verification/DownloadsProperties.thy ===== *)
theory DownloadsProperties
  imports DownloadsSystem
begin

text \<open>
  What the counters of a delivery say: a recorded download counts every file it names once and
  nothing else, on the short path of a full download as one by one, never past the limit of the
  grant, and the delivery is announced by the download that leaves no file unfetched.
\<close>

section \<open>Counters of a grant\<close>









section \<open>Downloads\<close>


section \<open>Witness\<close>









end
