(* ===== verification/Spec2Isabelle.thy ===== *)
theory Spec2Isabelle
  imports Votport_Base Paths Registry RegistrySystem Workflow Throttle Tokens Statements Settings
    JobStore JobOps JobsInvariant JobsSystem JobsProperties
    UploadStore Fallible UploadFiles UploadNames UploadWorker UploadChunks UploadRun
    UploadInvariant UploadRecords UploadSafety UploadSystem UploadDemo UploadProperties
    UploadBegin UploadRefinement UploadReplies UploadRange UploadContract
    UploadResume BootRecovery ResumeFiles ResumeSystem BootSystem BootDemo BootProperties
    TradeStore TradeFlow TradeInvariant TradeSystem TradeBound TradeRotation TradeDemo TradeProperties
    EventChain EventHistory EventSystem EventProperties
    Downloads DownloadsSystem DownloadsProperties
begin

text \<open>
  A model of the votport server's decision logic and the theorems that make it correct.

  Votport receives uploads through links and shares deliveries through grants. Requests arrive
  over HTTP or as native pushes; the registry of live sessions (\<open>server/src/session.rs\<close>) admits
  them, the store (\<open>server/src/store\<close>) keeps links, uploads, grants, projects and jobs in SQLite,
  and two protocols (\<open>protocol/delivery.rs\<close>, \<open>protocol/routes.rs\<close>) sign what was delivered and
  passed on. The library has one theory per part.

  \<^item> \<open>Votport\_Base\<close>: strings as lists of code points with their UTF-8 length, the string
    functions of the standard library that the source uses, saturating and checked integers,
    hash maps as association lists, and two interfaces for step relations,
    \<open>invariant\_system\<close> and \<open>falling\_system\<close>.
  \<^item> \<open>Paths\<close>: \<open>protocol/paths.rs\<close>, \<open>server/src/paths.rs\<close>: payload names, destinations,
    collision suffixes, portable name sets and the staging sweep.
  \<^item> \<open>Registry\<close>, \<open>RegistrySystem\<close>: \<open>Sessions\<close>, its guards and \<open>PushControl\<close> of
    \<open>server/src/session.rs\<close>, then the registry as a transition system: which sessions are
    admitted, swept, pinned and drained.
  \<^item> \<open>Throttle\<close>: the attempt limits of \<open>server/src/auth.rs\<close> and
    \<open>server/src/api/session\_rate.rs\<close>: password attempts, session creations, download credit.
  \<^item> \<open>Tokens\<close>: the admin, link, recipient and lease tokens of \<open>server/src/auth.rs\<close>; a forgery
    exhibits a MAC collision.
  \<^item> \<open>Statements\<close>: the signed statements of both protocols and the chain of custody.
  \<^item> \<open>Settings\<close>: the address rules of \<open>server/src/egress.rs\<close> and the parsing of
    \<open>server/src/config.rs\<close>.
  \<^item> \<open>Workflow\<close>: projects, job requests and job states of \<open>server/src/workflow.rs\<close>.
  \<^item> \<open>JobStore\<close>, \<open>JobOps\<close>: the tables and the operations of \<open>server/src/store/workflows.rs\<close>
    with \<open>insert\_workflow\_grant\<close> and the checks of \<open>server/src/store/trade.rs\<close>;
    \<open>JobsInvariant\<close>, \<open>JobsSystem\<close>: the invariant of that store and its preservation by every
    operation; \<open>JobsProperties\<close>: what follows for recipients, approvers and workers.
  \<^item> \<open>UploadStore\<close>: the tables of upload records and resumable sessions of
    \<open>server/src/store.rs\<close>, with the routes of \<open>server/src/store/routes.rs\<close> that they complete.
  \<^item> \<open>Fallible\<close>: steps on a state that may fail part of the way, and what they keep.
  \<^item> \<open>UploadFiles\<close>, \<open>UploadNames\<close>, \<open>UploadWorker\<close>, \<open>UploadChunks\<close>, \<open>UploadRun\<close>: the worker of an
    upload session in \<open>server/src/session.rs\<close>: staging, verification and publication of a file;
    the choice of names; the transfer log, the resume record, the seal, the pages and the begin;
    ranges, batches and the end of a session; the loop of \<open>spawn\_worker\_from\<close>.
  \<^item> \<open>UploadInvariant\<close>, \<open>UploadRecords\<close>, \<open>UploadSafety\<close>, \<open>UploadSystem\<close>: work on files leaves the
    tables alone, what the transactions leave behind, the invariant of a worker, and the worker as
    a transition system among the other threads; \<open>UploadDemo\<close>: a concrete environment and one
    session in it; \<open>UploadProperties\<close>: what senders and link owners can rely on.
  \<^item> \<open>UploadBegin\<close>, \<open>UploadRefinement\<close>, \<open>UploadReplies\<close>, \<open>UploadRange\<close>: what a begin admits, the
    abstract transfer that the worker implements, the replies to its commands, and the wait for a
    range in flight; \<open>UploadContract\<close>: the properties that follow.
  \<^item> \<open>UploadResume\<close>, \<open>BootRecovery\<close>: \<open>resume\_worker\<close> of \<open>server/src/session.rs\<close> and what
    \<open>resume\_upload\_sessions\<close> of \<open>server/src/app.rs\<close> does with the sessions found in the store: resumed,
    cleaned up, reported as interrupted or discarded, before the sweep of abandoned staging;
    \<open>ResumeFiles\<close>, \<open>ResumeSystem\<close>: a resumed worker satisfies the invariant of workers and goes on
    from the checkpoint; \<open>BootSystem\<close>: what the boot keeps in the tables and on disk;
    \<open>BootDemo\<close>, \<open>BootProperties\<close>: what a restart costs, and two error paths that cost more.
  \<^item> \<open>Downloads\<close>, \<open>DownloadsSystem\<close>: what \<open>server/src/store/outbound.rs\<close> keeps of a published
    delivery: the counters of a grant and of its files, the tickets of native fetches and the
    deliveries they reserve, the life of a grant from its publication to its purge, and the
    invariant of these tables beside the job store; \<open>DownloadsProperties\<close>: downloads are counted once.
  \<^item> \<open>EventChain\<close>: the delivery events of \<open>server/src/store/evidence.rs\<close>, chained by their hashes,
    recipient evidence and its submission in \<open>server/src/api/evidence.rs\<close>, and the audit rows of
    \<open>server/src/store.rs\<close>; \<open>EventHistory\<close>: linked histories and reading them in pages;
    \<open>EventSystem\<close>, \<open>EventProperties\<close>: these tables as a transition system and what follows.
  \<^item> \<open>TradeStore\<close>, \<open>TradeFlow\<close>: the trade routes between ports in \<open>server/src/store/trade.rs\<close> and the
    deliveries over them in \<open>server/src/store/routes.rs\<close>: endpoints, invitations, enrolment,
    permissions, credentials, admission, revocation and its repetition; \<open>TradeInvariant\<close>,
    \<open>TradeSystem\<close>, \<open>TradeBound\<close>: what every operation keeps of a route and the invariants of these
    tables; \<open>TradeRotation\<close>: the rotation of a credential between two ports over
    \<open>server/src/api/trade.rs\<close>, with requests and replies that are lost, late or repeated;
    \<open>TradeDemo\<close>, \<open>TradeProperties\<close>: two ports for the witnesses, and what their owners can rely on.

  State. \<open>sessions\<close> is \<open>SessionsInner\<close>, guarded by one mutex, so a method is one atomic step;
  reference-counted counters and flags live in stores of their own and are held by address.
  \<open>job\_store\<close> has one field per table that the job functions read or write; a transaction is
  one step, and an error of the source is an \<open>Inl\<close> that commits nothing. Time is a parameter.
  The sweep of the registry is one step, although the count of a lease and its place in the table
  are two shared variables of the source. A boot is sequential but for the workers whose
  registration was refused: they end on threads of their own, in the model at the points between
  the sessions and before a refused session is discarded that \<open>bo\_turns\<close> chooses. In the rotation
  of a credential the reading of the stored credential, the exchange with the peer and the writing
  of its answer are three steps, between which anything else may happen; the theorem on rotation
  supposes that no status poll is overtaken, and a second one shows what happens to one that is.
  An upload worker is a pair: \<open>worker\<close> holds the locals of the loop and the phase, \<open>machine\<close> the
  tables and the outside world, which only the fields of \<open>upload\_env\<close> read or change.

  What the lemmas show. For each component the operations are described on every branch, then an
  invariant is shown for every step, and the properties are facts of all reachable states. Where
  the code relies on cryptography or on crates (Ed25519, HMAC, SHA-256, base64, JSON, Unicode
  folding) these are parameters, with the documented behaviour as a named hypothesis, for
  instance \<open>path\_prefix\_law\<close> or \<open>signs\<close>; the witnesses instantiate them. Where a theorem about
  digests could only hold if no two texts had the same digest, it names the two texts of the
  program that would have to collide, here as the two different events of \<open>colliding\_events\<close> or
  the two different messages of \<open>one\_mac\<close>.

  Bounds. Integers are \<open>nat\<close> with the saturation, the wrap-around or the range check of the
  source written out where it matters; octets and masks are words. Recursion is structural or on
  a measure that shrinks, with one exception: the retries on a range in flight take the number of
  attempts as fuel, 401, because each retry sleeps five milliseconds and two seconds end them.

  Not modelled: native pushes after their admission, the HTTP
  handlers (of the trade ones only the rotation), OIDC and SCIM, backups beyond the holding of jobs, mail and webhooks, the client and
  the user interfaces. The removal of a tenant deletes its rows from every table and the removal of
  a link those of its endpoints, invitations and routes (\<open>remove\_tenant\<close> and \<open>remove\_link\<close> of
  \<open>server/src/store.rs\<close>); neither is a step of any of the transition systems here, so the properties
  are about rows of tenants and links that stay. SQL is modelled by the rows it selects, not by its plans; labels, counters
  and passwords that no modelled function reads are left out of the tables.
\<close>

end
